(* ===== verification/Prelude.thy ===== *)
theory Prelude
  imports Complex_Main "HOL-Library.AList" "HOL-Library.Multiset" "HOL-Library.Sublist"
begin

text \<open>
  Shared vocabulary of the development.

  A Python \<open>dict\<close> is an association list: it keeps its insertion order, an assignment to a
  key that is present keeps the key's place, and an assignment to a new key appends it.
  \<^const>\<open>AList.update\<close> has exactly this behaviour.  \<open>min_by\<close> and \<open>max_by\<close> are Python's
  \<open>min\<close> and \<open>max\<close> with a \<open>key\<close>, which return the first extremal element.
  Python's \<open>float\<close> is modelled by exact rationals; rounding is not modelled.
\<close>

section \<open>Dictionaries\<close>

type_synonym ('k, 'v) dict = "('k \<times> 'v) list"

abbreviation dict_get :: "('k, 'v) dict \<Rightarrow> 'k \<Rightarrow> 'v option" where
  "dict_get d k \<equiv> map_of d k"

abbreviation dict_set :: "'k \<Rightarrow> 'v \<Rightarrow> ('k, 'v) dict \<Rightarrow> ('k, 'v) dict" where
  "dict_set \<equiv> AList.update"

abbreviation dict_del :: "'k \<Rightarrow> ('k, 'v) dict \<Rightarrow> ('k, 'v) dict" where
  "dict_del \<equiv> AList.delete"

abbreviation dict_keys :: "('k, 'v) dict \<Rightarrow> 'k list" where
  "dict_keys d \<equiv> map fst d"

abbreviation dict_values :: "('k, 'v) dict \<Rightarrow> 'v list" where
  "dict_values d \<equiv> map snd d"

definition dict_get_default :: "('k, 'v) dict \<Rightarrow> 'k \<Rightarrow> 'v \<Rightarrow> 'v" where
  "dict_get_default d k v = (case dict_get d k of None \<Rightarrow> v | Some w \<Rightarrow> w)"

named_theorems dict_simps \<open>lookups, keys and values of updated dictionaries\<close>

lemma dict_get_set [dict_simps]:
  "dict_get (dict_set k v d) k' = (if k' = k then Some v else dict_get d k')"
  by (simp add: update_conv')

lemma dict_get_del [dict_simps]:
  "dict_get (dict_del k d) k' = (if k' = k then None else dict_get d k')"
  by (simp add: delete_conv')

lemma dict_keys_set [dict_simps]:
  "dict_keys (dict_set k v d) = (if k \<in> set (dict_keys d) then dict_keys d else dict_keys d @ [k])"
  by (induction d) auto

lemma distinct_keys_set: "distinct (dict_keys d) \<Longrightarrow> distinct (dict_keys (dict_set k v d))"
  by (simp add: dict_keys_set)

lemma distinct_keys_del: "distinct (dict_keys d) \<Longrightarrow> distinct (dict_keys (dict_del k d))"
  by (simp add: AList.distinct_delete)

lemma dict_set_absent: "k \<notin> set (dict_keys d) \<Longrightarrow> dict_set k v d = d @ [(k, v)]"
  by (induction d) auto

lemma dict_set_present:
  "k \<in> set (dict_keys d) \<Longrightarrow> distinct (dict_keys d) \<Longrightarrow>
   dict_set k v d = map (\<lambda>(k', v'). if k' = k then (k, v) else (k', v')) d"
proof (induction d)
  case (Cons p d)
  have "k \<notin> set (dict_keys d) \<Longrightarrow> map (\<lambda>(k', v'). if k' = k then (k, v) else (k', v')) d = d"
    by (rule map_idI) force
  with Cons show ?case by (cases p) auto
qed simp

lemma set_dict_set:
  "distinct (dict_keys d) \<Longrightarrow>
   set (dict_set k v d) = {p \<in> set d. fst p \<noteq> k} \<union> {(k, v)}"
  by (induction d) (auto, force+)

lemma dict_get_mem: "distinct (dict_keys d) \<Longrightarrow> (k, v) \<in> set d \<longleftrightarrow> dict_get d k = Some v"
  by simp

lemma dict_get_None_keys: "dict_get d k = None \<longleftrightarrow> k \<notin> set (dict_keys d)"
  by (simp add: map_of_eq_None_iff)

lemma dict_get_Some_keys: "dict_get d k = Some v \<Longrightarrow> k \<in> set (dict_keys d)"
  by (metis dict_get_None_keys option.distinct(1))

lemma dict_values_get:
  "distinct (dict_keys d) \<Longrightarrow> v \<in> set (dict_values d) \<longleftrightarrow> (\<exists>k. dict_get d k = Some v)"
  by force

lemma length_dict_set:
  "length (dict_set k v d) = (if k \<in> set (dict_keys d) then length d else Suc (length d))"
  by (induction d) auto

lemma map_values_set:
  "dict_get d k = Some v \<Longrightarrow> f v' = f v \<Longrightarrow>
   map f (dict_values (dict_set k v' d)) = map f (dict_values d)"
  by (induction d) (auto split: if_splits)

lemma count_values_set:
  "dict_get d k = Some v \<Longrightarrow>
   int (length (filter P (dict_values (dict_set k v' d)))) =
   int (length (filter P (dict_values d))) - (if P v then 1 else 0) + (if P v' then 1 else 0)"
  by (induction d) (auto split: if_splits)

section \<open>Counters\<close>

text \<open>\<open>Counter[k] += n\<close>: a missing key counts as zero.\<close>

definition dict_add :: "'k \<Rightarrow> int \<Rightarrow> ('k, int) dict \<Rightarrow> ('k, int) dict" where
  "dict_add k n d = dict_set k (dict_get_default d k 0 + n) d"

definition dict_total :: "('k, int) dict \<Rightarrow> int" where
  "dict_total d = sum_list (dict_values d)"

lemma dict_total_set:
  "distinct (dict_keys d) \<Longrightarrow>
   dict_total (dict_set k v d) = dict_total d - dict_get_default d k 0 + v"
proof (induction d)
  case (Cons p d)
  have "k \<notin> set (dict_keys d) \<Longrightarrow> dict_get d k = None"
    by (simp add: dict_get_None_keys)
  with Cons show ?case
    by (cases p) (auto simp: dict_total_def dict_get_default_def)
qed (simp add: dict_total_def dict_get_default_def)

lemma dict_total_add [simp]:
  "distinct (dict_keys d) \<Longrightarrow> dict_total (dict_add k n d) = dict_total d + n"
  by (simp add: dict_add_def dict_total_set)

lemma distinct_keys_add [simp]:
  "distinct (dict_keys d) \<Longrightarrow> distinct (dict_keys (dict_add k n d))"
  by (simp add: dict_add_def distinct_keys_set)

lemma dict_get_default_add [simp]:
  "dict_get_default (dict_add k n d) k' 0 =
   (if k' = k then dict_get_default d k 0 + n else dict_get_default d k' 0)"
  by (simp add: dict_add_def dict_get_default_def dict_simps)

section \<open>First minimal and first maximal element\<close>

fun min_by :: "('a \<Rightarrow> 'b::linorder) \<Rightarrow> 'a list \<Rightarrow> 'a option" where
  "min_by f [] = None"
| "min_by f (x # xs) =
     (case min_by f xs of None \<Rightarrow> Some x | Some y \<Rightarrow> if f y < f x then Some y else Some x)"

fun max_by :: "('a \<Rightarrow> 'b::linorder) \<Rightarrow> 'a list \<Rightarrow> 'a option" where
  "max_by f [] = None"
| "max_by f (x # xs) =
     (case max_by f xs of None \<Rightarrow> Some x | Some y \<Rightarrow> if f x < f y then Some y else Some x)"

lemma min_by_None [simp]: "min_by f xs = None \<longleftrightarrow> xs = []"
  by (induction xs) (auto split: option.splits if_splits)

lemma max_by_None [simp]: "max_by f xs = None \<longleftrightarrow> xs = []"
  by (induction xs) (auto split: option.splits if_splits)

lemma min_by_mem: "min_by f xs = Some x \<Longrightarrow> x \<in> set xs"
  by (induction xs arbitrary: x) (auto split: option.splits if_splits)

lemma max_by_mem: "max_by f xs = Some x \<Longrightarrow> x \<in> set xs"
  by (induction xs arbitrary: x) (auto split: option.splits if_splits)

lemma min_by_le: "min_by f xs = Some x \<Longrightarrow> y \<in> set xs \<Longrightarrow> f x \<le> f y"
proof (induction xs arbitrary: x)
  case (Cons a xs)
  then show ?case
    by (cases "min_by f xs") (fastforce split: if_splits)+
qed simp

lemma max_by_ge: "max_by f xs = Some x \<Longrightarrow> y \<in> set xs \<Longrightarrow> f y \<le> f x"
proof (induction xs arbitrary: x)
  case (Cons a xs)
  then show ?case
    by (cases "max_by f xs") (fastforce split: if_splits)+
qed simp

section \<open>Lists\<close>

text \<open>\<open>xs[-n:]\<close> for a positive \<open>n\<close>.\<close>

definition last_n :: "nat \<Rightarrow> 'a list \<Rightarrow> 'a list" where
  "last_n n xs = drop (length xs - n) xs"

lemma length_last_n [simp]: "length (last_n n xs) = min n (length xs)"
  by (simp add: last_n_def)

lemma set_last_n: "set (last_n n xs) \<subseteq> set xs"
  by (simp add: last_n_def set_drop_subset)

lemma last_n_latest:
  assumes "sorted_wrt (<) (map f xs)"
  shows "\<forall>x\<in>set xs - set (last_n n xs). \<forall>y\<in>set (last_n n xs). f x < f y"
proof -
  let ?k = "length xs - n"
  have "sorted_wrt (<) (map f (take ?k xs @ drop ?k xs))" using assms by simp
  then have "\<forall>x\<in>set (take ?k xs). \<forall>y\<in>set (drop ?k xs). f x < f y" by (simp only: map_append sorted_wrt_append) auto
  moreover have "set xs = set (take ?k xs) \<union> set (drop ?k xs)" by (metis append_take_drop_id set_append)
  ultimately show ?thesis by (auto simp: last_n_def)
qed

lemma sorted_wrt_append_one:
  "sorted_wrt R (xs @ [x]) \<longleftrightarrow> sorted_wrt R xs \<and> (\<forall>y\<in>set xs. R y x)"
  by (simp add: sorted_wrt_append)

lemma sorted_wrt_filter_take:
  "sorted_wrt R xs \<Longrightarrow> sorted_wrt R (take n (filter P xs))"
  by (simp add: sorted_wrt_filter sorted_wrt_take)

text \<open>What an update at one index does to a filtered list.\<close>

lemma filter_update:
  assumes "i < length xs"
  shows "\<exists>before after. filter P xs = before @ filter P [xs ! i] @ after \<and> filter P (xs[i := y]) = before @ filter P [y] @ after"
proof (intro exI conjI)
  show "filter P xs = filter P (take i xs) @ filter P [xs ! i] @ filter P (drop (Suc i) xs)"
    using arg_cong [OF id_take_nth_drop [OF assms], of "filter P"] by simp
  show "filter P (xs[i := y]) = filter P (take i xs) @ filter P [y] @ filter P (drop (Suc i) xs)"
    by (simp add: upd_conv_take_nth_drop [OF assms])
qed

lemma option_case_Inl [simp]:
  "(case r of None \<Rightarrow> Inl e | Some v \<Rightarrow> Inr v) = Inr w \<longleftrightarrow> r = Some w"
  by (cases r) auto

end
