(* ===== verification/Command_States.thy ===== *)
theory Command_States
  imports Prelude
begin

text \<open>
  The command life cycle of \<open>tools/minecraft/voyager/command_models.py\<close>: the states, the
  terminal states, the table of legal transitions and \<open>validate_transition\<close>.
\<close>

datatype command_state =
    ACCEPTED
  | QUEUED
  | RUNNING
  | RECONCILING
  | SUCCEEDED
  | SUCCEEDED_RECONCILED
  | FAILED
  | FAILED_RECONCILED
  | CANCELLED
  | CANCELLED_RECONCILED
  | CANCELLED_BY_STOP
  | INTERRUPTED_BEFORE_START
  | BLOCKED_UNKNOWN

fun terminal_command_state :: "command_state \<Rightarrow> bool" where
  "terminal_command_state SUCCEEDED = True"
| "terminal_command_state SUCCEEDED_RECONCILED = True"
| "terminal_command_state FAILED = True"
| "terminal_command_state FAILED_RECONCILED = True"
| "terminal_command_state CANCELLED = True"
| "terminal_command_state CANCELLED_RECONCILED = True"
| "terminal_command_state CANCELLED_BY_STOP = True"
| "terminal_command_state INTERRUPTED_BEFORE_START = True"
| "terminal_command_state BLOCKED_UNKNOWN = True"
| "terminal_command_state _ = False"

fun command_targets :: "command_state \<Rightarrow> command_state list" where
  "command_targets ACCEPTED = [QUEUED, CANCELLED_BY_STOP]"
| "command_targets QUEUED = [RUNNING, CANCELLED_BY_STOP, INTERRUPTED_BEFORE_START, FAILED]"
| "command_targets RUNNING =
     [RECONCILING, SUCCEEDED, SUCCEEDED_RECONCILED, FAILED, FAILED_RECONCILED, CANCELLED,
      CANCELLED_RECONCILED, BLOCKED_UNKNOWN]"
| "command_targets RECONCILING =
     [SUCCEEDED, SUCCEEDED_RECONCILED, FAILED, FAILED_RECONCILED, CANCELLED,
      CANCELLED_RECONCILED, BLOCKED_UNKNOWN]"
| "command_targets BLOCKED_UNKNOWN = [RECONCILING]"
| "command_targets _ = []"

text \<open>\<open>validate_transition\<close> raises \<open>ValueError\<close> exactly when this is false.\<close>

definition validate_transition :: "command_state \<Rightarrow> command_state \<Rightarrow> bool" where
  "validate_transition current target \<longleftrightarrow> target \<in> set (command_targets current)"

text \<open>The states that no table entry leaves: every terminal state but \<open>BLOCKED_UNKNOWN\<close>.\<close>

definition final_state :: "command_state \<Rightarrow> bool" where
  "final_state st \<longleftrightarrow> command_targets st = []"

lemma final_state_terminal:
  "final_state st \<longleftrightarrow> terminal_command_state st \<and> st \<noteq> BLOCKED_UNKNOWN"
  by (cases st) (simp_all add: final_state_def)

lemma validate_transition_final [simp]: "final_state st \<Longrightarrow> \<not> validate_transition st t"
  by (simp add: final_state_def validate_transition_def)

lemma validate_transition_not_QUEUED: "validate_transition st QUEUED \<Longrightarrow> st = ACCEPTED"
  by (cases st) (auto simp: validate_transition_def)

lemma validate_transition_neq: "validate_transition st t \<Longrightarrow> st \<noteq> t"
  by (cases st) (auto simp: validate_transition_def)

end
