(* ===== verification/Py_Text.thy ===== *)
theory Py_Text
  imports Prelude "HOL-Library.Char_ord" "HOL-Library.List_Lexorder"
begin

text \<open>
  The parts of Python's \<open>str\<close> and \<open>json\<close> that the modelled code uses: \<open>str(int)\<close> and
  \<open>int(str)\<close>, \<open>strip\<close>, JSON values, and the canonical JSON text of
  \<open>json.dumps(value, ensure_ascii=False, sort_keys=True, separators=(",", ":"))\<close>.
  A \<open>string\<close> is a list of characters with code points below 256; a JSON float is carried as
  the text that Python's \<open>float.__repr__\<close> prints.
\<close>

section \<open>Characters\<close>

definition code :: "char \<Rightarrow> nat" where
  "code c = of_char c"

definition is_digit :: "char \<Rightarrow> bool" where
  "is_digit c \<longleftrightarrow> 48 \<le> code c \<and> code c \<le> 57"

definition is_space :: "char \<Rightarrow> bool" where
  "is_space c \<longleftrightarrow> (9 \<le> code c \<and> code c \<le> 13) \<or> (28 \<le> code c \<and> code c \<le> 32) \<or> code c = 133 \<or> code c = 160"

definition is_lower :: "char \<Rightarrow> bool" where
  "is_lower c \<longleftrightarrow> 97 \<le> code c \<and> code c \<le> 122"

definition is_upper :: "char \<Rightarrow> bool" where
  "is_upper c \<longleftrightarrow> 65 \<le> code c \<and> code c \<le> 90"

definition py_strip :: "string \<Rightarrow> string" where
  "py_strip s = rev (dropWhile is_space (rev (dropWhile is_space s)))"

text \<open>Python's \<open>value or default\<close> on strings: the empty string is false.\<close>

definition nonempty :: "string \<Rightarrow> bool" where
  "nonempty s \<longleftrightarrow> s \<noteq> []"

section \<open>Integers as text\<close>

fun str_of_nat :: "nat \<Rightarrow> string" where
  "str_of_nat n =
     (if n < 10 then [char_of (48 + n)] else str_of_nat (n div 10) @ [char_of (48 + n mod 10)])"

declare str_of_nat.simps [simp del]

definition str_of_int :: "int \<Rightarrow> string" where
  "str_of_int i = (if i < 0 then CHR ''-'' # str_of_nat (nat (- i)) else str_of_nat (nat i))"

fun digits_value :: "int \<Rightarrow> string \<Rightarrow> int option" where
  "digits_value acc [] = Some acc"
| "digits_value acc (c # cs) =
     (if is_digit c then digits_value (acc * 10 + int (code c - 48)) cs
      else if c = CHR ''_'' then
        (case cs of [] \<Rightarrow> None | d # ds \<Rightarrow> if is_digit d then digits_value acc cs else None)
      else None)"

definition uint_of_str :: "string \<Rightarrow> int option" where
  "uint_of_str s = (case s of [] \<Rightarrow> None | c # cs \<Rightarrow> if is_digit c then digits_value 0 s else None)"

definition int_of_str :: "string \<Rightarrow> int option" where
  "int_of_str s =
     (let t = py_strip s in
      case t of
        [] \<Rightarrow> None
      | c # cs \<Rightarrow>
          if c = CHR ''-'' then map_option uminus (uint_of_str cs)
          else if c = CHR ''+'' then uint_of_str cs
          else uint_of_str t)"

lemma code_char_of [simp]: "n < 256 \<Longrightarrow> code (char_of n) = n"
  by (simp add: code_def)

lemma str_of_nat_digits: "c \<in> set (str_of_nat n) \<Longrightarrow> is_digit c"
proof (induction n rule: str_of_nat.induct)
  case (1 n)
  then show ?case
    by (subst (asm) str_of_nat.simps) (auto simp: is_digit_def split: if_splits)
qed

lemma str_of_nat_nonempty [simp]: "str_of_nat n \<noteq> []"
  by (subst str_of_nat.simps) simp

lemma digits_value_digits:
  "(\<And>c. c \<in> set xs \<Longrightarrow> is_digit c) \<Longrightarrow>
   digits_value acc xs = Some (foldl (\<lambda>a c. a * 10 + int (code c - 48)) acc xs)"
  by (induction xs arbitrary: acc) auto

lemma foldl_str_of_nat:
  "foldl (\<lambda>a c. a * 10 + int (code c - 48)) 0 (str_of_nat n) = int n"
proof (induction n rule: str_of_nat.induct)
  case (1 n)
  show ?case
  proof (cases "n < 10")
    case True
    then show ?thesis by (subst str_of_nat.simps) simp
  next
    case False
    with 1 have "foldl (\<lambda>a c. a * 10 + int (code c - 48)) 0 (str_of_nat (n div 10)) = int (n div 10)"
      by simp
    with False show ?thesis
      by (subst str_of_nat.simps) (simp add: zdiv_int zmod_int)
  qed
qed

lemma is_digit_not_space: "is_digit c \<Longrightarrow> \<not> is_space c"
  by (auto simp: is_digit_def is_space_def)

lemma dropWhile_space_digits:
  "(\<And>c. c \<in> set xs \<Longrightarrow> is_digit c) \<Longrightarrow> dropWhile is_space xs = xs"
  by (cases xs) (auto dest: is_digit_not_space)

lemma py_strip_digits:
  assumes "\<And>c. c \<in> set xs \<Longrightarrow> is_digit c"
  shows "py_strip xs = xs"
proof -
  have "dropWhile is_space xs = xs"
    using assms by (rule dropWhile_space_digits)
  moreover have "dropWhile is_space (rev xs) = rev xs"
    using assms by (intro dropWhile_space_digits) simp
  ultimately show ?thesis by (simp add: py_strip_def)
qed

lemma int_of_str_of_nat: "int_of_str (str_of_nat n) = Some (int n)"
proof -
  have dig: "\<And>c. c \<in> set (str_of_nat n) \<Longrightarrow> is_digit c"
    by (rule str_of_nat_digits)
  obtain c cs where s: "str_of_nat n = c # cs"
    by (cases "str_of_nat n") simp_all
  have c: "is_digit c" using dig s by simp
  then have "c \<noteq> CHR ''-'' \<and> c \<noteq> CHR ''+''"
    by (auto simp: is_digit_def code_def)
  moreover have "uint_of_str (str_of_nat n) = Some (int n)"
    using c s digits_value_digits [of "str_of_nat n" 0, OF dig] foldl_str_of_nat [of n]
    by (simp add: uint_of_str_def)
  ultimately show ?thesis
    using py_strip_digits [of "str_of_nat n", OF dig] s by (simp add: int_of_str_def)
qed

corollary int_of_str_of_int: "0 \<le> i \<Longrightarrow> int_of_str (str_of_int i) = Some i"
  by (simp add: str_of_int_def int_of_str_of_nat)

section \<open>JSON values\<close>

datatype json =
    JNull
  | JBool bool
  | JInt int
  | JFloat string
  | JStr string
  | JList "json list"
  | JObj "(string \<times> json) list"

type_synonym json_obj = "(string \<times> json) list"

text \<open>\<open>{**a, **b}\<close>: the entries of \<open>b\<close> are assigned over those of \<open>a\<close>.\<close>

definition json_merge :: "json_obj \<Rightarrow> json_obj \<Rightarrow> json_obj" where
  "json_merge a b = foldl (\<lambda>d (k, v). dict_set k v d) a b"

section \<open>Canonical JSON text\<close>

definition hex_digit :: "nat \<Rightarrow> char" where
  "hex_digit n = (if n < 10 then char_of (48 + n) else char_of (87 + n))"

definition json_escape_char :: "char \<Rightarrow> string" where
  "json_escape_char c =
     (if c = CHR 0x22 then [CHR 0x5C, CHR 0x22]
      else if c = CHR 0x5C then [CHR 0x5C, CHR 0x5C]
      else if code c = 10 then [CHR 0x5C, CHR ''n'']
      else if code c = 13 then [CHR 0x5C, CHR ''r'']
      else if code c = 9 then [CHR 0x5C, CHR ''t'']
      else if code c = 12 then [CHR 0x5C, CHR ''f'']
      else if code c = 8 then [CHR 0x5C, CHR ''b'']
      else if code c < 32 then
        CHR 0x5C # ''u00'' @ [hex_digit (code c div 16), hex_digit (code c mod 16)]
      else [c])"

definition json_string :: "string \<Rightarrow> string" where
  "json_string s = CHR 0x22 # concat (map json_escape_char s) @ [CHR 0x22]"

fun join_with :: "char \<Rightarrow> string list \<Rightarrow> string" where
  "join_with sep [] = []"
| "join_with sep [x] = x"
| "join_with sep (x # xs) = x @ sep # join_with sep xs"

fun canonical_json :: "json \<Rightarrow> string" where
  "canonical_json JNull = ''null''"
| "canonical_json (JBool b) = (if b then ''true'' else ''false'')"
| "canonical_json (JInt i) = str_of_int i"
| "canonical_json (JFloat r) = r"
| "canonical_json (JStr s) = json_string s"
| "canonical_json (JList xs) = CHR ''['' # join_with (CHR '','') (map canonical_json xs) @ '']''"
| "canonical_json (JObj kvs) =
     CHR ''{'' #
     join_with (CHR '','')
       (map (\<lambda>(k, t). json_string k @ CHR '':'' # t)
         (sort_key fst (map (\<lambda>(k, v). (k, canonical_json v)) kvs)))
     @ ''}''"

text \<open>The length of the UTF-8 encoding of a text.\<close>

definition utf8_length :: "string \<Rightarrow> nat" where
  "utf8_length s = sum_list (map (\<lambda>c. if code c < 128 then 1 else 2) s)"

lemma sort_key_distinct_perm:
  fixes f :: "'a \<Rightarrow> 'b::linorder"
  assumes "mset xs = mset ys" and "distinct (map f xs)"
  shows "sort_key f xs = sort_key f ys"
proof (rule properties_for_sort_key)
  show "mset (sort_key f ys) = mset xs" using assms(1) by simp
  show "sorted (map f (sort_key f ys))" by simp
  fix k assume k: "k \<in> set (sort_key f ys)"
  have inj: "inj_on f (set xs)" using assms(2) by (simp add: distinct_map)
  have set_eq: "set (sort_key f ys) = set xs"
    using assms(1) by (metis mset_eq_setD mset_sort)
  have key: "filter (\<lambda>x. f k = f x) zs = replicate (count (mset zs) k) k"
    if "set zs = set xs" for zs
  proof -
    have "filter (\<lambda>x. f k = f x) zs = filter ((=) k) zs"
      using that k set_eq inj by (intro filter_cong) (auto dest: inj_onD)
    then show ?thesis by (simp add: replicate_count_mset_eq_filter_eq)
  qed
  show "filter (\<lambda>x. f k = f x) (sort_key f ys) = filter (\<lambda>x. f k = f x) xs"
    using key [OF set_eq] key [OF refl] assms(1) by simp
qed

text \<open>The canonical text of an object does not depend on the order of its keys.\<close>

lemma canonical_json_perm:
  assumes "mset a = mset b" and "distinct (dict_keys a)"
  shows "canonical_json (JObj a) = canonical_json (JObj b)"
proof -
  let ?f = "\<lambda>(k, v). (k, canonical_json v)"
  have "map fst (map ?f a) = dict_keys a" by (simp add: comp_def case_prod_unfold)
  with assms(2) have "distinct (map fst (map ?f a))" by (simp only:)
  moreover have "mset (map ?f a) = mset (map ?f b)" using assms(1) by simp
  ultimately show ?thesis by (simp only: canonical_json.simps sort_key_distinct_perm)
qed

end
