(* ===== verification/Unicode_Text.thy ===== *)
theory Unicode_Text
  imports Py_Text
begin

text \<open>
  Text beyond the first 256 code points, as lists of code points: white space and stripping,
  \<open>split\<close> and \<open>join\<close>, and the substring test \<open>in\<close>.
\<close>

type_synonym unicode = "nat list"

definition unicode_space :: "nat \<Rightarrow> bool" where
  "unicode_space c \<longleftrightarrow> 9 \<le> c \<and> c \<le> 13 \<or> 28 \<le> c \<and> c \<le> 32 \<or> c \<in> {133, 160, 5760, 8232, 8233, 8239, 8287, 12288} \<or>
     8192 \<le> c \<and> c \<le> 8202"

definition strip_unicode :: "unicode \<Rightarrow> unicode" where
  "strip_unicode s = rev (dropWhile unicode_space (rev (dropWhile unicode_space s)))"

text \<open>\<open>str.split()\<close>: the maximal runs without white space; \<open>word\<close> is the run read so far.\<close>

fun split_words :: "unicode \<Rightarrow> unicode \<Rightarrow> unicode list" where
  "split_words word [] = (if word = [] then [] else [word])"
| "split_words word (c # cs) =
     (if unicode_space c then (if word = [] then [] else [word]) @ split_words [] cs
      else split_words (word @ [c]) cs)"

fun join_words :: "unicode list \<Rightarrow> unicode" where
  "join_words [] = []"
| "join_words [w] = w"
| "join_words (w # ws) = w @ 32 # join_words ws"

fun contains_word :: "unicode \<Rightarrow> unicode \<Rightarrow> bool" where
  "contains_word w [] \<longleftrightarrow> w = []"
| "contains_word w (c # cs) \<longleftrightarrow> take (length w) (c # cs) = w \<or> contains_word w cs"

text \<open>\<open>list(dict.fromkeys(xs))\<close>: the elements in the order of their first occurrence.\<close>

definition first_occurrences :: "'a list \<Rightarrow> 'a list" where
  "first_occurrences xs = rev (remdups (rev xs))"

lemma first_occurrences [simp]: "set (first_occurrences xs) = set xs" "distinct (first_occurrences xs)"
  by (simp_all add: first_occurrences_def)

end
