(* ===== verification/Public_Activity.thy ===== *)
theory Public_Activity
  imports Unicode_Text
begin

text \<open>
  The activity envelope of \<open>tools/minecraft/voyager/public_activity.py\<close>: phases, intents,
  outcomes, the payload with its validators, the draft a recorder hands to the journal, the
  stored record, and the idempotent-replay test \<open>matches\<close>.  A focus is carried as
  given; its label filter is in Activity_Recorder, where foci are made.
\<close>

datatype activity_phase =
  Planning | Observing | Committed | Acting | Checking | Recovering | Finished

datatype activity_intent =
    IAcquire | ICraft | IBuild | ITravel | ICombat | ISurvive | ILearn | IDiscover | IInteract

datatype activity_outcome =
  OActive | OSucceeded | OFailed | OCancelled | OBlocked

datatype focus_kind = FItem | FEntity | FPlace | FStructure | FCondition

datatype progress_unit = UObjectives | UItems | UBlocks | UActions

record activity_focus =
  fo_kind :: focus_kind
  fo_label :: unicode

record activity_progress =
  pr_current :: int
  pr_total :: int
  pr_unit :: progress_unit

record activity_payload =
  ap_phase :: activity_phase
  ap_intent :: "activity_intent option"
  ap_focus :: "activity_focus option"
  ap_progress :: "activity_progress option"
  ap_outcome :: activity_outcome

definition activity_progress_ok :: "activity_progress \<Rightarrow> bool" where
  "activity_progress_ok p \<longleftrightarrow> 0 \<le> pr_current p \<and> 0 < pr_total p \<and> pr_current p \<le> pr_total p"

definition activity_payload_ok :: "activity_payload \<Rightarrow> bool" where
  "activity_payload_ok p \<longleftrightarrow>
     (case ap_progress p of None \<Rightarrow> True | Some g \<Rightarrow> activity_progress_ok g) \<and>
     (ap_outcome p \<noteq> OActive \<longleftrightarrow> ap_phase p = Finished)"

record activity_draft =
  ad_source_key :: string
  ad_command_id :: string
  ad_caller_scope :: string
  ad_mission_id :: "string option"
  ad_payload :: activity_payload
  ad_occurred_at_ms :: int

record activity_record = activity_draft +
  ar_sequence :: int

definition activity_draft_ok :: "('a) activity_draft_scheme \<Rightarrow> bool" where
  "activity_draft_ok d \<longleftrightarrow>
     1 \<le> length (ad_source_key d) \<and> length (ad_source_key d) \<le> 512 \<and>
     1 \<le> length (ad_command_id d) \<and> length (ad_command_id d) \<le> 256 \<and>
     1 \<le> length (ad_caller_scope d) \<and> length (ad_caller_scope d) \<le> 256 \<and>
     (case ad_mission_id d of None \<Rightarrow> True | Some m \<Rightarrow> length m \<le> 128) \<and>
     activity_payload_ok (ad_payload d) \<and> 0 \<le> ad_occurred_at_ms d"

definition activity_matches :: "activity_record \<Rightarrow> activity_draft \<Rightarrow> bool" where
  "activity_matches r d \<longleftrightarrow>
     ad_source_key r = ad_source_key d \<and>
     ad_command_id r = ad_command_id d \<and>
     ad_caller_scope r = ad_caller_scope d \<and>
     ad_mission_id r = ad_mission_id d \<and>
     ad_payload r = ad_payload d"

definition activity_record_of :: "activity_draft \<Rightarrow> int \<Rightarrow> activity_record" where
  "activity_record_of d n = activity_draft.extend (activity_draft.truncate d) (activity_record.fields n)"

lemma activity_record_of_sel [simp]:
  "ar_sequence (activity_record_of d n) = n"
  "ad_source_key (activity_record_of d n) = ad_source_key d"
  "ad_command_id (activity_record_of d n) = ad_command_id d"
  "ad_caller_scope (activity_record_of d n) = ad_caller_scope d"
  "ad_mission_id (activity_record_of d n) = ad_mission_id d"
  "ad_payload (activity_record_of d n) = ad_payload d"
  "ad_occurred_at_ms (activity_record_of d n) = ad_occurred_at_ms d"
  by (simp_all add: activity_record_of_def activity_draft.defs activity_record.defs)

end
