(* ===== verification/Journal.thy ===== *)
theory Journal
  imports Command_States Public_Activity
begin

text \<open>
  The in-memory command journal, \<open>InMemoryCommandJournal\<close> of
  \<open>tools/minecraft/voyager/journal.py\<close>: its records, its state and one definition per
  method.  No method awaits anything while it holds the journal's lock, so a method runs as
  one atomic step.  A method that can raise returns the state it leaves behind together with
  either the exception or its result.
\<close>

section \<open>Records\<close>

datatype jerror =
    IdempotencyConflictError
  | StaleCommandVersionError
  | QueueCapacityExceededError
  | JRuntimeError string
  | JValueError string
  | JKeyError

record command_draft =
  cd_command_id :: string
  cd_caller_scope :: string
  cd_request_id :: string
  cd_request_hash :: string
  cd_kind :: string
  cd_mode :: "string option"
  cd_payload :: json_obj
  cd_requested_budget :: json_obj
  cd_effective_budget :: json_obj
  cd_accepted_at_ms :: int
  cd_queue_deadline_ms :: "int option"
  cd_execution_deadline_ms :: "int option"

record journal_command = command_draft +
  jc_queue_sequence :: int
  jc_state :: command_state
  jc_state_version :: int
  jc_started_at_ms :: "int option"
  jc_cancel_requested_at_ms :: "int option"
  jc_active_step_id :: "string option"
  jc_runtime_instance_id :: "string option"
  jc_blocked_reason_code :: "string option"
  jc_terminal_at_ms :: "int option"
  jc_terminal_result :: "json_obj option"

record command_transition =
  ct_transition_id :: int
  ct_command_id :: string
  ct_from_state :: "command_state option"
  ct_to_state :: command_state
  ct_command_version :: int
  ct_reason_code :: string
  ct_actor :: string
  ct_details :: json_obj
  ct_occurred_at_ms :: int

record step_record =
  sr_step_id :: string
  sr_command_id :: string
  sr_ordinal :: int
  sr_strategy_state_hash :: string
  sr_capability :: string
  sr_params_hash :: string
  sr_params :: json_obj
  sr_correlation_id :: string
  sr_runtime_instance_id :: string
  sr_state :: string
  sr_reservation :: json_obj
  sr_before_observation_hash :: string
  sr_receipt :: "json_obj option"

record journal_state =
  js_queue_capacity :: int
  js_commands :: "(string, journal_command) dict"
  js_requests :: "(string \<times> string, string \<times> string) dict"
  js_transitions :: "command_transition list"
  js_sequence :: int
  js_transition_sequence :: int
  js_projection_version :: int
  js_facts :: "(string, (string, json_obj list) dict) dict"
  js_steps :: "(string, step_record) dict"
  js_activities :: "activity_record list"
  js_activity_by_source :: "(string, activity_record) dict"
  js_activity_sequence :: int
  js_accepting_execute :: bool

record projection_page =
  pp_projection_version :: int
  pp_commands :: "journal_command list"
  pp_next_cursor :: "string option"

record activity_page =
  ap_records :: "activity_record list"
  ap_next_cursor :: "string option"

record stop_barrier_commit =
  sb_stop_command :: journal_command
  sb_idempotency_reused :: bool
  sb_active_command_id :: "string option"
  sb_cancelled_command_ids :: "string list"

record startup_recovery =
  su_interrupted_command_ids :: "string list"
  su_blocked_command_ids :: "string list"
  su_quarantined :: bool

type_synonym 'a jresult = "journal_state \<times> (jerror + 'a)"

section \<open>Construction\<close>

definition empty_journal :: "int \<Rightarrow> journal_state" where
  "empty_journal capacity =
     \<lparr>js_queue_capacity = capacity, js_commands = [], js_requests = [], js_transitions = [],
      js_sequence = 0, js_transition_sequence = 0, js_projection_version = 0, js_facts = [],
      js_steps = [], js_activities = [], js_activity_by_source = [], js_activity_sequence = 0,
      js_accepting_execute = True\<rparr>"

definition empty_facts :: "(string, json_obj list) dict" where
  "empty_facts =
     [(''receipts'', []), (''budgets'', []), (''checkpoints'', []), (''recoveries'', [])]"

definition queued_command :: "command_draft \<Rightarrow> int \<Rightarrow> journal_command" where
  "queued_command d n =
     command_draft.extend (command_draft.truncate d)
       (journal_command.fields n QUEUED 0 None None None None None None None)"

definition lower_hex :: "char \<Rightarrow> bool" where
  "lower_hex c \<longleftrightarrow> is_digit c \<or> (97 \<le> code c \<and> code c \<le> 102)"

text \<open>The constraints that the fields of \<open>CommandDraft\<close> declare.\<close>

definition command_draft_ok :: "command_draft \<Rightarrow> bool" where
  "command_draft_ok d \<longleftrightarrow>
     1 \<le> length (cd_request_id d) \<and> length (cd_request_id d) \<le> 128 \<and>
     length (cd_request_hash d) = 64 \<and> list_all lower_hex (cd_request_hash d) \<and>
     0 \<le> cd_accepted_at_ms d \<and>
     (case cd_queue_deadline_ms d of None \<Rightarrow> True | Some t \<Rightarrow> 0 \<le> t) \<and>
     (case cd_execution_deadline_ms d of None \<Rightarrow> True | Some t \<Rightarrow> 0 \<le> t)"

section \<open>Sessions, lookups\<close>

definition begin_shutdown :: "journal_state \<Rightarrow> journal_state" where
  "begin_shutdown s = s\<lparr>js_accepting_execute := False\<rparr>"

definition begin_session :: "journal_state \<Rightarrow> journal_state" where
  "begin_session s = s\<lparr>js_accepting_execute := True\<rparr>"

definition get_command :: "journal_state \<Rightarrow> string \<Rightarrow> journal_command option" where
  "get_command s cid = dict_get (js_commands s) cid"

definition find_by_request ::
  "journal_state \<Rightarrow> string \<Rightarrow> string \<Rightarrow> jerror + journal_command option" where
  "find_by_request s scope rid =
     (case dict_get (js_requests s) (scope, rid) of
        None \<Rightarrow> Inr None
      | Some (_, cid) \<Rightarrow>
          (case dict_get (js_commands s) cid of None \<Rightarrow> Inl JKeyError | Some c \<Rightarrow> Inr (Some c)))"

section \<open>The audit log\<close>

definition transition_record ::
  "int \<Rightarrow> journal_command \<Rightarrow> command_state option \<Rightarrow> string \<Rightarrow> string \<Rightarrow> int \<Rightarrow> json_obj option \<Rightarrow>
   command_transition" where
  "transition_record n c from_state reason actor occurred details =
     \<lparr>ct_transition_id = n, ct_command_id = cd_command_id c, ct_from_state = from_state,
      ct_to_state = jc_state c, ct_command_version = jc_state_version c,
      ct_reason_code = reason, ct_actor = actor,
      ct_details = (case details of None \<Rightarrow> [] | Some d \<Rightarrow> d), ct_occurred_at_ms = occurred\<rparr>"

text \<open>
  \<open>_append_transition\<close>: the sequence number is taken first, then the record is validated;
  a negative time raises with the number already consumed.
\<close>

definition append_transition ::
  "journal_state \<Rightarrow> journal_command \<Rightarrow> command_state option \<Rightarrow> string \<Rightarrow> string \<Rightarrow> int \<Rightarrow>
   json_obj option \<Rightarrow> unit jresult" where
  "append_transition s c from_state reason actor occurred details =
     (let n = js_transition_sequence s + 1; s = s\<lparr>js_transition_sequence := n\<rparr> in
      if n \<le> 0 \<or> jc_state_version c < 0 \<or> occurred < 0 then (s, Inl (JValueError ''validation''))
      else
        (s\<lparr>js_transitions := js_transitions s @
             [transition_record n c from_state reason actor occurred details]\<rparr>, Inr ()))"

definition bump_projection :: "journal_state \<Rightarrow> journal_state" where
  "bump_projection s = s\<lparr>js_projection_version := js_projection_version s + 1\<rparr>"

definition command_log :: "journal_state \<Rightarrow> string \<Rightarrow> command_transition list" where
  "command_log s cid = filter (\<lambda>t. ct_command_id t = cid) (js_transitions s)"

section \<open>Creating a command\<close>

definition queued_execute_count :: "journal_state \<Rightarrow> int" where
  "queued_execute_count s =
     int (length (filter (\<lambda>c. cd_kind c = ''execute'' \<and> jc_state c = QUEUED) (dict_values (js_commands s))))"

text \<open>The part that \<open>create_command\<close> and \<open>apply_stop_barrier\<close> share: store a new queued command.\<close>

definition insert_command :: "journal_state \<Rightarrow> command_draft \<Rightarrow> journal_state \<times> journal_command" where
  "insert_command s d =
     (let n = js_sequence s + 1; c = queued_command d n in
      (s\<lparr>js_sequence := n,
         js_commands := dict_set (cd_command_id d) c (js_commands s),
         js_requests := dict_set (cd_caller_scope d, cd_request_id d)
                          (cd_request_hash d, cd_command_id d) (js_requests s),
         js_facts := dict_set (cd_command_id d) empty_facts (js_facts s)\<rparr>, c))"

definition create_command :: "journal_state \<Rightarrow> command_draft \<Rightarrow> (journal_command \<times> bool) jresult" where
  "create_command s d =
     (case dict_get (js_requests s) (cd_caller_scope d, cd_request_id d) of
        Some (h, cid) \<Rightarrow>
          if h \<noteq> cd_request_hash d then (s, Inl IdempotencyConflictError)
          else (case dict_get (js_commands s) cid of
                  None \<Rightarrow> (s, Inl JKeyError)
                | Some c \<Rightarrow> (s, Inr (c, True)))
      | None \<Rightarrow>
          if cd_kind d = ''execute'' \<and> \<not> js_accepting_execute s then
            (s, Inl (JRuntimeError ''CONTROLLER_NOT_ACCEPTING_EXECUTE''))
          else if cd_kind d = ''execute'' \<and> js_queue_capacity s \<le> queued_execute_count s then
            (s, Inl QueueCapacityExceededError)
          else
            (case insert_command s d of (s1, c) \<Rightarrow>
               (case append_transition s1 c None ''ACCEPTED'' ''gateway'' (cd_accepted_at_ms d) None of
                  (s2, Inl e) \<Rightarrow> (s2, Inl e)
                | (s2, Inr _) \<Rightarrow> (bump_projection s2, Inr (c, False)))))"

section \<open>Compare-and-swap transitions\<close>

definition transitioned ::
  "journal_command \<Rightarrow> command_state \<Rightarrow> int \<Rightarrow> json_obj option \<Rightarrow> journal_command" where
  "transitioned c target occurred result =
     (let c1 = c\<lparr>jc_state := target, jc_state_version := jc_state_version c + 1\<rparr>;
          c2 = (if target = RUNNING then c1\<lparr>jc_started_at_ms := Some occurred\<rparr> else c1)
      in if terminal_command_state target
         then c2\<lparr>jc_terminal_at_ms := Some occurred, jc_terminal_result := result\<rparr> else c2)"

definition transition ::
  "journal_state \<Rightarrow> string \<Rightarrow> int \<Rightarrow> command_state \<Rightarrow> string \<Rightarrow> string \<Rightarrow> int \<Rightarrow>
   json_obj option \<Rightarrow> json_obj option \<Rightarrow> journal_command jresult" where
  "transition s cid expected target reason actor occurred details result =
     (case dict_get (js_commands s) cid of
        None \<Rightarrow> (s, Inl JKeyError)
      | Some c \<Rightarrow>
          if jc_state_version c \<noteq> expected then (s, Inl StaleCommandVersionError)
          else if \<not> validate_transition (jc_state c) target then
            (s, Inl (JValueError ''illegal command transition''))
          else if \<not> terminal_command_state target \<and> result \<noteq> None then
            (s, Inl (JValueError ''terminal_result requires a terminal command state''))
          else
            (let c' = transitioned c target occurred result;
                 s1 = s\<lparr>js_commands := dict_set cid c' (js_commands s)\<rparr>
             in case append_transition s1 c' (Some (jc_state c)) reason actor occurred details of
                  (s2, Inl e) \<Rightarrow> (s2, Inl e)
                | (s2, Inr _) \<Rightarrow> (bump_projection s2, Inr c')))"

section \<open>Facts and steps\<close>

definition append_fact :: "journal_state \<Rightarrow> string \<Rightarrow> string \<Rightarrow> json_obj \<Rightarrow> unit jresult" where
  "append_fact s cid kind payload =
     (case dict_get (js_facts s) cid of
        None \<Rightarrow> (s, Inl JKeyError)
      | Some f \<Rightarrow>
          (case dict_get f kind of
             None \<Rightarrow> (s, Inl JKeyError)
           | Some xs \<Rightarrow>
               (bump_projection (s\<lparr>js_facts := dict_set cid (dict_set kind (xs @ [payload]) f) (js_facts s)\<rparr>),
                Inr ())))"

definition append_receipt :: "journal_state \<Rightarrow> string \<Rightarrow> int \<Rightarrow> json_obj \<Rightarrow> unit jresult" where
  "append_receipt s cid ordinal receipt =
     append_fact s cid ''receipts'' (json_merge [(''ordinal'', JInt ordinal)] receipt)"

definition save_budget :: "journal_state \<Rightarrow> string \<Rightarrow> json_obj \<Rightarrow> json_obj \<Rightarrow> unit jresult" where
  "save_budget s cid settled reserved =
     append_fact s cid ''budgets'' [(''settled'', JObj settled), (''reserved'', JObj reserved)]"

definition append_checkpoint :: "journal_state \<Rightarrow> string \<Rightarrow> json_obj \<Rightarrow> unit jresult" where
  "append_checkpoint s cid checkpoint = append_fact s cid ''checkpoints'' checkpoint"

definition append_recovery :: "journal_state \<Rightarrow> string \<Rightarrow> json_obj \<Rightarrow> unit jresult" where
  "append_recovery s cid recovery = append_fact s cid ''recoveries'' recovery"

definition command_facts :: "journal_state \<Rightarrow> string \<Rightarrow> jerror + (string, nat) dict" where
  "command_facts s cid =
     (case dict_get (js_facts s) cid of
        None \<Rightarrow> Inl JKeyError
      | Some f \<Rightarrow> Inr (map (\<lambda>(k, xs). (k, length xs)) f))"

definition reserve_step :: "journal_state \<Rightarrow> step_record \<Rightarrow> unit jresult" where
  "reserve_step s st =
     (if sr_step_id st \<in> set (dict_keys (js_steps s)) then (s, Inl (JValueError ''duplicate step''))
      else if list_ex (\<lambda>e. sr_command_id e = sr_command_id st \<and> sr_ordinal e = sr_ordinal st)
                (dict_values (js_steps s)) then (s, Inl (JValueError ''duplicate step ordinal''))
      else if list_ex (\<lambda>e. sr_runtime_instance_id e = sr_runtime_instance_id st \<and>
                           sr_correlation_id e = sr_correlation_id st)
                (dict_values (js_steps s)) then (s, Inl (JValueError ''duplicate correlation''))
      else (s\<lparr>js_steps := dict_set (sr_step_id st) st (js_steps s)\<rparr>, Inr ()))"

definition update_step_state :: "journal_state \<Rightarrow> string \<Rightarrow> string \<Rightarrow> step_record jresult" where
  "update_step_state s sid st =
     (case dict_get (js_steps s) sid of
        None \<Rightarrow> (s, Inl JKeyError)
      | Some e \<Rightarrow>
          (let e' = e\<lparr>sr_state := st\<rparr> in (s\<lparr>js_steps := dict_set sid e' (js_steps s)\<rparr>, Inr e')))"

definition record_step_receipt :: "journal_state \<Rightarrow> string \<Rightarrow> json_obj \<Rightarrow> step_record jresult" where
  "record_step_receipt s sid receipt =
     (case dict_get (js_steps s) sid of
        None \<Rightarrow> (s, Inl JKeyError)
      | Some e \<Rightarrow>
          (let e' = e\<lparr>sr_receipt := Some receipt\<rparr> in
           (s\<lparr>js_steps := dict_set sid e' (js_steps s)\<rparr>, Inr e')))"

definition settle_step ::
  "journal_state \<Rightarrow> string \<Rightarrow> json_obj \<Rightarrow> json_obj option \<Rightarrow> json_obj option \<Rightarrow> step_record jresult" where
  "settle_step s sid receipt settled reserved =
     (case dict_get (js_steps s) sid of
        None \<Rightarrow> (s, Inl JKeyError)
      | Some e \<Rightarrow>
          (let e' = e\<lparr>sr_state := ''settled'', sr_receipt := Some receipt\<rparr>;
               s1 = s\<lparr>js_steps := dict_set sid e' (js_steps s)\<rparr>
           in case settled of
                None \<Rightarrow> (s1, Inr e')
              | Some u \<Rightarrow>
                  (case dict_get (js_facts s1) (sr_command_id e) of
                     None \<Rightarrow> (s1, Inl JKeyError)
                   | Some f \<Rightarrow>
                       (case dict_get f ''budgets'' of
                          None \<Rightarrow> (s1, Inl JKeyError)
                        | Some xs \<Rightarrow>
                            (s1\<lparr>js_facts := dict_set (sr_command_id e)
                                  (dict_set ''budgets''
                                    (xs @ [[(''settled'', JObj u),
                                            (''reserved'', JObj (case reserved of None \<Rightarrow> [] | Some r \<Rightarrow> r))]]) f)
                                  (js_facts s1)\<rparr>, Inr e')))))"

definition get_step :: "journal_state \<Rightarrow> string \<Rightarrow> step_record option" where
  "get_step s sid = dict_get (js_steps s) sid"

definition latest_step :: "journal_state \<Rightarrow> string \<Rightarrow> step_record option" where
  "latest_step s cid =
     max_by sr_ordinal (filter (\<lambda>e. sr_command_id e = cid) (dict_values (js_steps s)))"

definition list_steps :: "journal_state \<Rightarrow> string \<Rightarrow> step_record list" where
  "list_steps s cid =
     sort_key sr_ordinal (filter (\<lambda>e. sr_command_id e = cid) (dict_values (js_steps s)))"

end
