(* ===== verification/Journal_Control.thy ===== *)
theory Journal_Control
  imports Journal
begin

text \<open>
  The controlling operations of \<open>InMemoryCommandJournal\<close>: choosing and expiring queued
  commands, the global stop barrier, recovery after a restart, the paged projection, and the
  public activity feed with its retention.
\<close>

section \<open>The queue\<close>

definition eligible :: "int \<Rightarrow> journal_command \<Rightarrow> bool" where
  "eligible now c \<longleftrightarrow>
     cd_kind c = ''execute'' \<and> jc_state c = QUEUED \<and>
     (case cd_queue_deadline_ms c of None \<Rightarrow> True | Some t \<Rightarrow> now < t)"

definition next_eligible :: "journal_state \<Rightarrow> int \<Rightarrow> journal_command option" where
  "next_eligible s now = min_by jc_queue_sequence (filter (eligible now) (dict_values (js_commands s)))"

definition expired :: "int \<Rightarrow> journal_command \<Rightarrow> bool" where
  "expired now c \<longleftrightarrow>
     cd_kind c = ''execute'' \<and> jc_state c = QUEUED \<and>
     (case cd_queue_deadline_ms c of None \<Rightarrow> False | Some t \<Rightarrow> t \<le> now)"

text \<open>The loop over the snapshot: a stale version is skipped, any other exception propagates.\<close>

fun expire_loop ::
  "journal_state \<Rightarrow> int \<Rightarrow> journal_command list \<Rightarrow> string list \<Rightarrow> string list jresult" where
  "expire_loop s now [] ids = (s, Inr ids)"
| "expire_loop s now (c # cs) ids =
     (case transition s (cd_command_id c) (jc_state_version c) FAILED ''QUEUE_DEADLINE_EXPIRED''
             ''worker'' now None None of
        (s', Inr _) \<Rightarrow> expire_loop s' now cs (ids @ [cd_command_id c])
      | (s', Inl StaleCommandVersionError) \<Rightarrow> expire_loop s' now cs ids
      | (s', Inl e) \<Rightarrow> (s', Inl e))"

definition expire_queued :: "journal_state \<Rightarrow> int \<Rightarrow> string list jresult" where
  "expire_queued s now = expire_loop s now (filter (expired now) (dict_values (js_commands s))) []"

section \<open>The global stop barrier\<close>

definition stop_cancelled :: "journal_command \<Rightarrow> int \<Rightarrow> journal_command" where
  "stop_cancelled c occurred =
     c\<lparr>jc_state := CANCELLED_BY_STOP, jc_state_version := jc_state_version c + 1,
       jc_terminal_at_ms := Some occurred\<rparr>"

definition request_cancel_mark :: "journal_command \<Rightarrow> int \<Rightarrow> journal_command" where
  "request_cancel_mark c occurred =
     (if jc_cancel_requested_at_ms c = None then c\<lparr>jc_cancel_requested_at_ms := Some occurred\<rparr> else c)"

fun stop_loop ::
  "journal_state \<Rightarrow> int \<Rightarrow> (string \<times> journal_command) list \<Rightarrow> string option \<Rightarrow> string list \<Rightarrow>
   (string option \<times> string list) jresult" where
  "stop_loop s occurred [] active cancelled = (s, Inr (active, cancelled))"
| "stop_loop s occurred ((cid, c) # rest) active cancelled =
     (if cd_kind c \<noteq> ''execute'' then stop_loop s occurred rest active cancelled
      else if jc_state c = QUEUED then
        (let c' = stop_cancelled c occurred;
             s1 = s\<lparr>js_commands := dict_set cid c' (js_commands s)\<rparr>
         in case append_transition s1 c' (Some (jc_state c)) ''GLOBAL_STOP'' ''gateway'' occurred None of
              (s2, Inl e) \<Rightarrow> (s2, Inl e)
            | (s2, Inr _) \<Rightarrow> stop_loop s2 occurred rest active (cancelled @ [cid]))
      else if jc_state c \<in> {RUNNING, RECONCILING, BLOCKED_UNKNOWN} then
        stop_loop
          (if jc_cancel_requested_at_ms c = None
           then s\<lparr>js_commands := dict_set cid (request_cancel_mark c occurred) (js_commands s)\<rparr> else s)
          occurred rest (Some cid) cancelled
      else stop_loop s occurred rest active cancelled)"

definition apply_stop_barrier ::
  "journal_state \<Rightarrow> command_draft \<Rightarrow> int \<Rightarrow> stop_barrier_commit jresult" where
  "apply_stop_barrier s d occurred =
     (if cd_kind d \<noteq> ''stop'' then (s, Inl (JValueError ''stop barrier requires a stop command''))
      else
        (case dict_get (js_requests s) (cd_caller_scope d, cd_request_id d) of
           Some (h, cid) \<Rightarrow>
             if h \<noteq> cd_request_hash d then (s, Inl IdempotencyConflictError)
             else (case dict_get (js_commands s) cid of
                     None \<Rightarrow> (s, Inl JKeyError)
                   | Some c \<Rightarrow>
                       (s, Inr \<lparr>sb_stop_command = c, sb_idempotency_reused = True,
                               sb_active_command_id = None, sb_cancelled_command_ids = []\<rparr>))
         | None \<Rightarrow>
             (case insert_command s d of (s1, c) \<Rightarrow>
                (case append_transition s1 c None ''STOP_ACCEPTED'' ''gateway'' occurred None of
                   (s2, Inl e) \<Rightarrow> (s2, Inl e)
                 | (s2, Inr _) \<Rightarrow>
                     (let s3 = s2\<lparr>js_accepting_execute := False\<rparr> in
                      case stop_loop s3 occurred (js_commands s3) None [] of
                        (s4, Inl e) \<Rightarrow> (s4, Inl e)
                      | (s4, Inr (active, cancelled)) \<Rightarrow>
                          (bump_projection s4,
                           Inr \<lparr>sb_stop_command = c, sb_idempotency_reused = False,
                                sb_active_command_id = active,
                                sb_cancelled_command_ids = cancelled\<rparr>))))))"

section \<open>Recovery after a restart\<close>

fun recover_loop ::
  "journal_state \<Rightarrow> int \<Rightarrow> journal_command list \<Rightarrow> string list \<Rightarrow> string list \<Rightarrow>
   (string list \<times> string list) jresult" where
  "recover_loop s occurred [] interrupted blocked = (s, Inr (interrupted, blocked))"
| "recover_loop s occurred (c # cs) interrupted blocked =
     (if jc_state c = QUEUED then
        (case transition s (cd_command_id c) (jc_state_version c) INTERRUPTED_BEFORE_START
                ''PROCESS_RESTART'' ''startup'' occurred None None of
           (s', Inl e) \<Rightarrow> (s', Inl e)
         | (s', Inr _) \<Rightarrow> recover_loop s' occurred cs (interrupted @ [cd_command_id c]) blocked)
      else if jc_state c \<in> {RUNNING, RECONCILING} then
        (case transition s (cd_command_id c) (jc_state_version c) BLOCKED_UNKNOWN
                ''PROCESS_RESTART_UNKNOWN'' ''startup'' occurred None None of
           (s', Inl e) \<Rightarrow> (s', Inl e)
         | (s', Inr _) \<Rightarrow> recover_loop s' occurred cs interrupted (blocked @ [cd_command_id c]))
      else if jc_state c = BLOCKED_UNKNOWN then
        recover_loop s occurred cs interrupted (blocked @ [cd_command_id c])
      else recover_loop s occurred cs interrupted blocked)"

definition recover_startup :: "journal_state \<Rightarrow> int \<Rightarrow> startup_recovery jresult" where
  "recover_startup s occurred =
     (case recover_loop s occurred (dict_values (js_commands s)) [] [] of
        (s', Inl e) \<Rightarrow> (s', Inl e)
      | (s', Inr (interrupted, blocked)) \<Rightarrow>
          (if blocked \<noteq> [] then s'\<lparr>js_accepting_execute := False\<rparr> else s',
           Inr \<lparr>su_interrupted_command_ids = interrupted, su_blocked_command_ids = blocked,
                su_quarantined = (blocked \<noteq> [])\<rparr>))"

section \<open>The paged projection\<close>

text \<open>\<open>int(cursor) if cursor else 0\<close>: an absent or empty cursor is zero, bad text raises.\<close>

definition cursor_value :: "string option \<Rightarrow> jerror + int" where
  "cursor_value cursor =
     (case cursor of
        None \<Rightarrow> Inr 0
      | Some t \<Rightarrow>
          if t = [] then Inr 0
          else (case int_of_str t of None \<Rightarrow> Inl (JValueError ''invalid cursor'') | Some n \<Rightarrow> Inr n))"

definition scope_commands_after :: "journal_state \<Rightarrow> string \<Rightarrow> int \<Rightarrow> journal_command list" where
  "scope_commands_after s scope after =
     sort_key jc_queue_sequence
       (filter (\<lambda>c. cd_caller_scope c = scope \<and> after < jc_queue_sequence c)
         (dict_values (js_commands s)))"

definition read_projection ::
  "journal_state \<Rightarrow> string \<Rightarrow> int \<Rightarrow> string option \<Rightarrow> jerror + projection_page" where
  "read_projection s scope limit cursor =
     (if \<not> (1 \<le> limit \<and> limit \<le> 100) then Inl (JValueError ''limit must be between 1 and 100'')
      else
        (case cursor_value cursor of
           Inl e \<Rightarrow> Inl e
         | Inr after \<Rightarrow>
             (let commands = scope_commands_after s scope after;
                  page = take (nat limit) commands
              in Inr \<lparr>pp_projection_version = js_projection_version s, pp_commands = page,
                      pp_next_cursor =
                        (if length page < length commands
                         then Some (str_of_int (jc_queue_sequence (last page))) else None)\<rparr>)))"

section \<open>The activity feed\<close>

definition index_activities :: "activity_record list \<Rightarrow> (string, activity_record) dict" where
  "index_activities rs = foldl (\<lambda>d r. dict_set (ad_source_key r) r d) [] rs"

definition retain_recent_activity ::
  "journal_state \<Rightarrow> int option \<Rightarrow> string \<Rightarrow> journal_state" where
  "retain_recent_activity s before preserve =
     (case before of
        None \<Rightarrow> s
      | Some t \<Rightarrow>
          (let kept = filter (\<lambda>r. t \<le> ad_occurred_at_ms r \<or> ad_source_key r = preserve) (js_activities s)
           in s\<lparr>js_activities := kept, js_activity_by_source := index_activities kept\<rparr>))"

definition append_activity ::
  "journal_state \<Rightarrow> activity_draft \<Rightarrow> int option \<Rightarrow> (activity_record \<times> bool) jresult" where
  "append_activity s d before =
     (case dict_get (js_activity_by_source s) (ad_source_key d) of
        Some r \<Rightarrow>
          if \<not> activity_matches r d then
            (s, Inl (JValueError ''activity source key conflicts with committed payload''))
          else (retain_recent_activity s before (ad_source_key r), Inr (r, True))
      | None \<Rightarrow>
          if (case dict_get (js_commands s) (ad_command_id d) of
                None \<Rightarrow> True | Some c \<Rightarrow> cd_caller_scope c \<noteq> ad_caller_scope d) then
            (s, Inl (JValueError ''activity command scope mismatch''))
          else if ap_phase (ad_payload d) \<noteq> Finished \<and>
                  list_ex (\<lambda>r. ad_command_id r = ad_command_id d \<and> ap_phase (ad_payload r) = Finished)
                    (js_activities s) then
            (s, Inl (JValueError ''active activity cannot follow terminal activity''))
          else
            (let n = js_activity_sequence s + 1; r = activity_record_of d n;
                 s1 = s\<lparr>js_activity_sequence := n, js_activities := js_activities s @ [r],
                        js_activity_by_source := dict_set (ad_source_key r) r (js_activity_by_source s)\<rparr>
             in (retain_recent_activity s1 before (ad_source_key r), Inr (r, False))))"

definition read_activity ::
  "journal_state \<Rightarrow> string \<Rightarrow> int \<Rightarrow> string option \<Rightarrow> jerror + activity_page" where
  "read_activity s scope limit cursor =
     (if \<not> (1 \<le> limit \<and> limit \<le> 100) then Inl (JValueError ''limit must be between 1 and 100'')
      else
        (case cursor_value cursor of
           Inl e \<Rightarrow> Inl e
         | Inr after \<Rightarrow>
             (let records = filter (\<lambda>r. ad_caller_scope r = scope \<and> after < ar_sequence r) (js_activities s);
                  page = take (nat limit) records
              in Inr \<lparr>ap_records = page,
                      ap_next_cursor =
                        (if length page < length records
                         then Some (str_of_int (ar_sequence (last page))) else None)\<rparr>)))"

definition read_recent_activity :: "journal_state \<Rightarrow> int \<Rightarrow> jerror + activity_page" where
  "read_recent_activity s limit =
     (if \<not> (1 \<le> limit \<and> limit \<le> 100) then Inl (JValueError ''limit must be between 1 and 100'')
      else Inr \<lparr>ap_records = last_n (nat limit) (js_activities s), ap_next_cursor = None\<rparr>)"

definition expire_activity :: "journal_state \<Rightarrow> int \<Rightarrow> journal_state \<times> int" where
  "expire_activity s before =
     (let retained = filter (\<lambda>r. before \<le> ad_occurred_at_ms r) (js_activities s) in
      (s\<lparr>js_activities := retained, js_activity_by_source := index_activities retained\<rparr>,
       int (length (js_activities s)) - int (length retained)))"

definition payload_expired :: "int \<Rightarrow> journal_command \<Rightarrow> bool" where
  "payload_expired before c \<longleftrightarrow>
     (case jc_terminal_at_ms c of None \<Rightarrow> False | Some t \<Rightarrow> t < before)"

definition expire_terminal_payloads :: "journal_state \<Rightarrow> int \<Rightarrow> int jresult" where
  "expire_terminal_payloads s before =
     (let expired_ids = remdups (map cd_command_id
                          (filter (payload_expired before) (dict_values (js_commands s))))
      in if expired_ids = [] then (s, Inr 0)
         else
           (let kept = filter (\<lambda>r. ad_command_id r \<notin> set expired_ids) (js_activities s);
                s1 = s\<lparr>js_activities := kept, js_activity_by_source := index_activities kept\<rparr>
            in if list_all (\<lambda>cid. dict_get (js_commands s1) cid \<noteq> None) expired_ids
               then
                 (s1\<lparr>js_commands :=
                       foldl (\<lambda>cmds cid. case dict_get cmds cid of
                                            None \<Rightarrow> cmds
                                          | Some c \<Rightarrow> dict_set cid (c\<lparr>cd_payload := [], jc_terminal_result := None\<rparr>) cmds)
                         (js_commands s1) expired_ids\<rparr>, Inr (int (length expired_ids)))
               else (s1, Inl JKeyError)))"

end
