(* ===== verification/Journal_Invariant.thy ===== *)
theory Journal_Invariant
  imports Journal_Control
begin

text \<open>
  The invariant of the command journal and its preservation by the primitive updates:
  inserting a logged command, a logged change of one command, an unlogged change of one
  command, and changes of unrelated fields.
\<close>

section \<open>The audit trail of one command\<close>

definition follows :: "command_transition \<Rightarrow> command_transition \<Rightarrow> bool" where
  "follows t u \<longleftrightarrow>
     ct_from_state u = Some (ct_to_state t) \<and> validate_transition (ct_to_state t) (ct_to_state u)"

definition audit_ok :: "journal_command \<Rightarrow> command_transition list \<Rightarrow> bool" where
  "audit_ok c ts \<longleftrightarrow>
     ts \<noteq> [] \<and> ct_from_state (hd ts) = None \<and> ct_to_state (hd ts) = QUEUED \<and>
     successively follows ts \<and> ct_to_state (last ts) = jc_state c \<and>
     map ct_command_version ts = [0..jc_state_version c]"

lemma audit_ok_version: "audit_ok c ts \<Longrightarrow> 0 \<le> jc_state_version c"
  by (rule ccontr) (auto simp: audit_ok_def)

lemma audit_ok_same:
  "audit_ok c ts \<Longrightarrow> jc_state c' = jc_state c \<Longrightarrow> jc_state_version c' = jc_state_version c \<Longrightarrow>
   audit_ok c' ts"
  by (simp add: audit_ok_def)

lemma audit_ok_append:
  assumes "audit_ok c ts" and "ct_from_state t = Some (jc_state c)"
    and "validate_transition (jc_state c) (jc_state c')"
    and "ct_to_state t = jc_state c'" and "ct_command_version t = jc_state_version c'"
    and "jc_state_version c' = jc_state_version c + 1"
  shows "audit_ok c' (ts @ [t])"
proof -
  have "[0..jc_state_version c'] = [0..jc_state_version c] @ [jc_state_version c']"
    using audit_ok_version [OF assms(1)] assms(6) by (simp add: upto_rec2)
  with assms show ?thesis
    by (auto simp: audit_ok_def successively_append_iff follows_def)
qed

lemma audit_ok_not_accepted: "audit_ok c ts \<Longrightarrow> jc_state c \<noteq> ACCEPTED"
proof
  assume ok: "audit_ok c ts" and acc: "jc_state c = ACCEPTED"
  then obtain us t where ts: "ts = us @ [t]" by (metis audit_ok_def rev_exhaust)
  show False
  proof (cases "us = []")
    case True
    with ok acc ts show False by (auto simp: audit_ok_def)
  next
    case False
    with ok acc ts have "validate_transition (ct_to_state (last us)) ACCEPTED"
      by (auto simp: audit_ok_def successively_append_iff follows_def)
    then show False by (cases "ct_to_state (last us)") (simp_all add: validate_transition_def)
  qed
qed

section \<open>The invariant\<close>

definition same_identity :: "journal_command \<Rightarrow> journal_command \<Rightarrow> bool" where
  "same_identity c c' \<longleftrightarrow>
     cd_command_id c' = cd_command_id c \<and> cd_caller_scope c' = cd_caller_scope c \<and>
     cd_request_id c' = cd_request_id c \<and> cd_request_hash c' = cd_request_hash c \<and>
     cd_kind c' = cd_kind c \<and> cd_queue_deadline_ms c' = cd_queue_deadline_ms c \<and>
     jc_queue_sequence c' = jc_queue_sequence c"

definition request_key :: "journal_command \<Rightarrow> string \<times> string" where
  "request_key c = (cd_caller_scope c, cd_request_id c)"

definition command_inv :: "int \<Rightarrow> string \<Rightarrow> journal_command \<Rightarrow> command_transition list \<Rightarrow> bool" where
  "command_inv n cid c ts \<longleftrightarrow>
     cd_command_id c = cid \<and> 1 \<le> jc_queue_sequence c \<and> jc_queue_sequence c \<le> n \<and>
     (terminal_command_state (jc_state c) \<longrightarrow> jc_terminal_at_ms c \<noteq> None) \<and> audit_ok c ts"

definition commands_inv :: "journal_state \<Rightarrow> bool" where
  "commands_inv s \<longleftrightarrow>
     distinct (dict_keys (js_commands s)) \<and>
     (\<forall>cid c. dict_get (js_commands s) cid = Some c \<longrightarrow>
        command_inv (js_sequence s) cid c (command_log s cid)) \<and>
     sorted_wrt (<) (map jc_queue_sequence (dict_values (js_commands s))) \<and>
     0 \<le> js_sequence s"

definition requests_inv :: "journal_state \<Rightarrow> bool" where
  "requests_inv s \<longleftrightarrow>
     (\<forall>cid c. dict_get (js_commands s) cid = Some c \<longrightarrow>
        dict_get (js_requests s) (request_key c) = Some (cd_request_hash c, cid)) \<and>
     (\<forall>k h cid. dict_get (js_requests s) k = Some (h, cid) \<longrightarrow>
        (\<exists>c. dict_get (js_commands s) cid = Some c \<and> request_key c = k \<and> cd_request_hash c = h))"

definition log_inv :: "journal_state \<Rightarrow> bool" where
  "log_inv s \<longleftrightarrow>
     map ct_transition_id (js_transitions s) = [1..js_transition_sequence s] \<and>
     0 \<le> js_transition_sequence s \<and>
     (\<forall>t\<in>set (js_transitions s). ct_command_id t \<in> set (dict_keys (js_commands s)))"

definition capacity_inv :: "journal_state \<Rightarrow> bool" where
  "capacity_inv s \<longleftrightarrow> queued_execute_count s \<le> max 0 (js_queue_capacity s)"

definition core_inv :: "journal_state \<Rightarrow> bool" where
  "core_inv s \<longleftrightarrow> commands_inv s \<and> requests_inv s \<and> log_inv s \<and> capacity_inv s"

lemma core_invD:
  assumes "core_inv s"
  shows "commands_inv s" "requests_inv s" "log_inv s" "capacity_inv s"
  using assms by (simp_all add: core_inv_def)

lemma command_inv_mono: "command_inv n cid c ts \<Longrightarrow> n \<le> m \<Longrightarrow> command_inv m cid c ts"
  by (auto simp: command_inv_def)

lemma commands_invD:
  assumes "commands_inv s" and "dict_get (js_commands s) cid = Some c"
  shows "command_inv (js_sequence s) cid c (command_log s cid)"
    "cd_command_id c = cid" "1 \<le> jc_queue_sequence c" "jc_queue_sequence c \<le> js_sequence s"
    "terminal_command_state (jc_state c) \<Longrightarrow> jc_terminal_at_ms c \<noteq> None"
    "audit_ok c (command_log s cid)"
  using assms by (auto simp: commands_inv_def command_inv_def)

lemma commands_inv_values:
  assumes "commands_inv s" and "c \<in> set (dict_values (js_commands s))"
  shows "dict_get (js_commands s) (cd_command_id c) = Some c"
proof -
  have "distinct (dict_keys (js_commands s))" using assms(1) by (simp add: commands_inv_def)
  with assms(2) obtain cid where "dict_get (js_commands s) cid = Some c"
    by (auto simp: dict_values_get)
  with commands_invD(2) [OF assms(1)] show ?thesis by simp
qed

lemma requests_inv_owner:
  "requests_inv s \<Longrightarrow> dict_get (js_requests s) k = Some (h, cid) \<Longrightarrow>
   \<exists>c. dict_get (js_commands s) cid = Some c \<and> request_key c = k \<and> cd_request_hash c = h"
  unfolding requests_inv_def by blast

lemma core_inv_empty: "core_inv (empty_journal n)"
  by (simp add: core_inv_def commands_inv_def requests_inv_def log_inv_def capacity_inv_def
      queued_execute_count_def empty_journal_def)

section \<open>Frames\<close>

text \<open>The fields on which the invariant of the commands depends.\<close>

definition core_of ::
  "journal_state \<Rightarrow> int \<times> (string, journal_command) dict \<times> (string \<times> string, string \<times> string) dict \<times>
   command_transition list \<times> int \<times> int" where
  "core_of s = (js_queue_capacity s, js_commands s, js_requests s, js_transitions s,
                js_sequence s, js_transition_sequence s)"

lemma core_inv_frame: "core_of s' = core_of s \<Longrightarrow> core_inv s' \<longleftrightarrow> core_inv s"
  by (simp add: core_of_def core_inv_def commands_inv_def requests_inv_def log_inv_def
      capacity_inv_def command_log_def queued_execute_count_def)

section \<open>Logged records\<close>

lemma transition_record_sel [simp]:
  "ct_transition_id (transition_record n c frm reason actor occ det) = n"
  "ct_command_id (transition_record n c frm reason actor occ det) = cd_command_id c"
  "ct_from_state (transition_record n c frm reason actor occ det) = frm"
  "ct_to_state (transition_record n c frm reason actor occ det) = jc_state c"
  "ct_command_version (transition_record n c frm reason actor occ det) = jc_state_version c"
  "ct_reason_code (transition_record n c frm reason actor occ det) = reason"
  "ct_occurred_at_ms (transition_record n c frm reason actor occ det) = occ"
  by (simp_all add: transition_record_def)

lemma append_transition_eq:
  "0 \<le> js_transition_sequence s \<Longrightarrow> 0 \<le> jc_state_version c \<Longrightarrow> 0 \<le> occ \<Longrightarrow>
   append_transition s c frm reason actor occ det =
     (s\<lparr>js_transition_sequence := js_transition_sequence s + 1,
        js_transitions := js_transitions s @
          [transition_record (js_transition_sequence s + 1) c frm reason actor occ det]\<rparr>, Inr ())"
  by (simp add: append_transition_def Let_def)

lemma log_ids_append:
  "map ct_transition_id ts = [1..n] \<Longrightarrow> 0 \<le> n \<Longrightarrow> ct_transition_id t = n + 1 \<Longrightarrow>
   map ct_transition_id (ts @ [t]) = [1..n + 1]"
  by (simp add: upto_rec2)

lemma queued_command_sel [simp]:
  "cd_command_id (queued_command d n) = cd_command_id d"
  "cd_caller_scope (queued_command d n) = cd_caller_scope d"
  "cd_request_id (queued_command d n) = cd_request_id d"
  "cd_request_hash (queued_command d n) = cd_request_hash d"
  "cd_kind (queued_command d n) = cd_kind d"
  "cd_payload (queued_command d n) = cd_payload d"
  "cd_queue_deadline_ms (queued_command d n) = cd_queue_deadline_ms d"
  "jc_queue_sequence (queued_command d n) = n"
  "jc_state (queued_command d n) = QUEUED"
  "jc_state_version (queued_command d n) = 0"
  "jc_terminal_at_ms (queued_command d n) = None"
  "jc_cancel_requested_at_ms (queued_command d n) = None"
  by (simp_all add: queued_command_def command_draft.defs journal_command.defs)

section \<open>The primitive updates preserve the invariant\<close>

lemma core_inv_insert:
  assumes inv: "core_inv s"
    and fresh: "cd_command_id d \<notin> set (dict_keys (js_commands s))"
    and new: "dict_get (js_requests s) (cd_caller_scope d, cd_request_id d) = None"
    and cap: "cd_kind d = ''execute'' \<Longrightarrow> queued_execute_count s < js_queue_capacity s"
    and occ: "0 \<le> occ"
    and ins: "insert_command s d = (s1, c)"
    and app: "append_transition s1 c None reason actor occ det = (s2, r)"
  shows "r = Inr () \<and> core_inv s2"
proof -
  let ?n = "js_sequence s + 1" and ?t = "js_transition_sequence s + 1"
  let ?c = "queued_command d ?n"
  let ?rec = "transition_record ?t ?c None reason actor occ det"
  have c: "c = ?c" and s1: "s1 = s\<lparr>js_sequence := ?n,
         js_commands := dict_set (cd_command_id d) ?c (js_commands s),
         js_requests := dict_set (cd_caller_scope d, cd_request_id d)
                          (cd_request_hash d, cd_command_id d) (js_requests s),
         js_facts := dict_set (cd_command_id d) empty_facts (js_facts s)\<rparr>"
    using ins by (auto simp: insert_command_def Let_def)
  have nn: "0 \<le> js_transition_sequence s" "0 \<le> js_sequence s"
    using core_invD [OF inv] by (simp_all add: log_inv_def commands_inv_def)
  have r: "r = Inr ()" and s2: "s2 = s1\<lparr>js_transition_sequence := ?t,
        js_transitions := js_transitions s @ [?rec]\<rparr>"
    using app append_transition_eq [of s1 c occ] nn occ by (simp_all add: c s1)
  have "\<forall>t\<in>set (js_transitions s). ct_command_id t \<noteq> cd_command_id d"
    using core_invD(3) [OF inv] fresh by (metis log_inv_def)
  then have nolog: "command_log s (cd_command_id d) = []"
    by (simp add: command_log_def filter_empty_conv)
  have log: "command_log s2 cid =
      command_log s cid @ (if cid = cd_command_id d then [?rec] else [])" for cid
    by (simp add: s2 command_log_def)
  have get: "dict_get (js_commands s2) cid =
      (if cid = cd_command_id d then Some ?c else dict_get (js_commands s) cid)" for cid
    by (simp add: s2 s1 dict_simps)
  have vals: "dict_values (js_commands s2) = dict_values (js_commands s) @ [?c]"
    by (simp add: s2 s1 dict_set_absent [OF fresh])
  have audit: "audit_ok ?c [?rec]"
    by (simp add: audit_ok_def)
  have seqs: "\<forall>c'\<in>set (dict_values (js_commands s)). jc_queue_sequence c' < ?n"
    using commands_inv_values [OF core_invD(1) [OF inv]] commands_invD(4) [OF core_invD(1) [OF inv]]
    by fastforce
  have sq: "js_sequence s2 = ?n" by (simp add: s2 s1)
  have "commands_inv s2"
    unfolding commands_inv_def
  proof (intro conjI allI impI)
    show "distinct (dict_keys (js_commands s2))"
      using core_invD(1) [OF inv] by (simp add: s2 s1 commands_inv_def distinct_keys_set)
    show "sorted_wrt (<) (map jc_queue_sequence (dict_values (js_commands s2)))"
      using core_invD(1) [OF inv] seqs by (auto simp: vals commands_inv_def sorted_wrt_append)
    show "0 \<le> js_sequence s2" using nn by (simp add: s2 s1)
  next
    fix cid c' assume g: "dict_get (js_commands s2) cid = Some c'"
    show "command_inv (js_sequence s2) cid c' (command_log s2 cid)"
    proof (cases "cid = cd_command_id d")
      case True
      with g have "c' = ?c" by (simp add: get)
      with True nn audit nolog show ?thesis by (simp add: command_inv_def log sq)
    next
      case False
      with g have "dict_get (js_commands s) cid = Some c'" by (simp add: get)
      from commands_invD(1) [OF core_invD(1) [OF inv] this] False show ?thesis
        by (simp add: log sq command_inv_mono)
    qed
  qed
  moreover have "requests_inv s2"
  proof -
    let ?k = "(cd_caller_scope d, cd_request_id d)"
    have req: "dict_get (js_requests s2) k =
        (if k = ?k then Some (cd_request_hash d, cd_command_id d) else dict_get (js_requests s) k)" for k
      by (simp add: s2 s1 dict_simps)
    have key: "request_key ?c = ?k" by (simp add: request_key_def)
    have unused: "request_key c' \<noteq> ?k" if "dict_get (js_commands s) cid = Some c'" for cid c'
      using core_invD(2) [OF inv] new that by (fastforce simp: requests_inv_def)
    have unmapped: "dict_get (js_requests s) k \<noteq> Some (h, cd_command_id d)" for k h
      using core_invD(2) [OF inv] fresh
      by (metis requests_inv_def dict_get_None_keys option.distinct(1))
    show ?thesis
      unfolding requests_inv_def
    proof (intro conjI allI impI)
      fix cid c' assume "dict_get (js_commands s2) cid = Some c'"
      then show "dict_get (js_requests s2) (request_key c') = Some (cd_request_hash c', cid)"
        using core_invD(2) [OF inv] unused key
        by (auto simp: get req requests_inv_def split: if_splits)
    next
      fix k h cid assume r: "dict_get (js_requests s2) k = Some (h, cid)"
      show "\<exists>c'. dict_get (js_commands s2) cid = Some c' \<and> request_key c' = k \<and> cd_request_hash c' = h"
      proof (cases "k = ?k")
        case True with r key show ?thesis by (simp add: req get)
      next
        case False
        with r have "dict_get (js_requests s) k = Some (h, cid)" by (simp add: req)
        moreover from this unmapped have "cid \<noteq> cd_command_id d" by blast
        ultimately show ?thesis using core_invD(2) [OF inv] by (cases k) (simp add: get requests_inv_def)
      qed
    qed
  qed
  moreover have "log_inv s2"
    using core_invD(3) [OF inv] nn
    by (auto simp: log_inv_def s2 s1 log_ids_append dict_keys_set simp del: map_append)
  moreover have "capacity_inv s2"
  proof -
    have "queued_execute_count s2 =
        queued_execute_count s + (if cd_kind d = ''execute'' then 1 else 0)"
      unfolding queued_execute_count_def vals filter_append by simp
    moreover have "js_queue_capacity s2 = js_queue_capacity s" by (simp add: s2 s1)
    ultimately show ?thesis
      using core_invD(4) [OF inv] cap by (auto simp: capacity_inv_def)
  qed
  ultimately show ?thesis by (simp add: r core_inv_def)
qed

lemma core_inv_logged_change:
  assumes inv: "core_inv s"
    and get0: "dict_get (js_commands s) cid = Some c"
    and same: "same_identity c c'"
    and valid: "validate_transition (jc_state c) (jc_state c')"
    and ver: "jc_state_version c' = jc_state_version c + 1"
    and tm: "terminal_command_state (jc_state c') \<Longrightarrow> jc_terminal_at_ms c' \<noteq> None"
    and occ: "0 \<le> occ"
    and app: "append_transition (s\<lparr>js_commands := dict_set cid c' (js_commands s)\<rparr>) c'
                (Some (jc_state c)) reason actor occ det = (s2, r)"
  shows "r = Inr () \<and> core_inv s2"
proof -
  let ?t = "js_transition_sequence s + 1"
  let ?rec = "transition_record ?t c' (Some (jc_state c)) reason actor occ det"
  note ci = commands_invD [OF core_invD(1) [OF inv] get0]
  have nn: "0 \<le> js_transition_sequence s" "0 \<le> js_sequence s"
    using core_invD [OF inv] by (simp_all add: log_inv_def commands_inv_def)
  have v: "0 \<le> jc_state_version c'"
    using audit_ok_version [OF ci(6)] ver by simp
  have r: "r = Inr ()"
    and s2: "s2 = s\<lparr>js_commands := dict_set cid c' (js_commands s), js_transition_sequence := ?t,
        js_transitions := js_transitions s @ [?rec]\<rparr>"
    using app nn occ v by (simp_all add: append_transition_eq)
  have id: "cd_command_id c' = cid" using same ci(2) by (simp add: same_identity_def)
  have log: "command_log s2 k = command_log s k @ (if k = cid then [?rec] else [])" for k
    by (simp add: s2 command_log_def id)
  have get: "dict_get (js_commands s2) k = (if k = cid then Some c' else dict_get (js_commands s) k)" for k
    by (simp add: s2 dict_simps)
  have keys: "dict_keys (js_commands s2) = dict_keys (js_commands s)"
    using dict_get_Some_keys [OF get0] by (simp add: s2 dict_keys_set)
  have sq: "js_sequence s2 = js_sequence s" by (simp add: s2)
  have audit: "audit_ok c' (command_log s cid @ [?rec])"
    using ci(6) valid ver by (intro audit_ok_append [of c]) auto
  have own: "command_inv (js_sequence s) cid c' (command_log s cid @ [?rec])"
    using ci(3,4) same tm audit id by (simp add: command_inv_def same_identity_def)
  have "commands_inv s2"
    unfolding commands_inv_def
  proof (intro conjI allI impI)
    show "distinct (dict_keys (js_commands s2))" "0 \<le> js_sequence s2"
      using core_invD(1) [OF inv] by (simp_all add: keys sq commands_inv_def del: map_map)
    show "sorted_wrt (<) (map jc_queue_sequence (dict_values (js_commands s2)))"
      using core_invD(1) [OF inv] same map_values_set [OF get0, of jc_queue_sequence c']
      by (simp add: s2 commands_inv_def same_identity_def del: map_map)
  next
    fix k d assume "dict_get (js_commands s2) k = Some d"
    then show "command_inv (js_sequence s2) k d (command_log s2 k)"
      using own commands_invD(1) [OF core_invD(1) [OF inv], of k d]
      by (auto simp: get log sq split: if_splits)
  qed
  moreover have "requests_inv s2"
  proof -
    have key: "request_key c' = request_key c" "cd_request_hash c' = cd_request_hash c"
      using same by (simp_all add: same_identity_def request_key_def)
    have req: "js_requests s2 = js_requests s" by (simp add: s2)
    show ?thesis
      unfolding requests_inv_def req
    proof (intro conjI allI impI)
      fix k d assume "dict_get (js_commands s2) k = Some d"
      then show "dict_get (js_requests s) (request_key d) = Some (cd_request_hash d, k)"
        using core_invD(2) [OF inv] get0 key by (auto simp: get requests_inv_def split: if_splits)
    next
      fix k h i assume "dict_get (js_requests s) k = Some (h, i)"
      then obtain d where "dict_get (js_commands s) i = Some d" "request_key d = k" "cd_request_hash d = h"
        using core_invD(2) [OF inv] unfolding requests_inv_def by blast
      then show "\<exists>d. dict_get (js_commands s2) i = Some d \<and> request_key d = k \<and> cd_request_hash d = h"
        using get0 key by (cases "i = cid") (auto simp: get)
    qed
  qed
  moreover have "log_inv s2"
    using core_invD(3) [OF inv] nn dict_get_Some_keys [OF get0]
    by (simp add: log_inv_def keys) (auto simp: s2 log_ids_append id simp del: map_append)
  moreover have "capacity_inv s2"
  proof -
    have "jc_state c' \<noteq> QUEUED"
      using valid validate_transition_not_QUEUED [of "jc_state c"] audit_ok_not_accepted [OF ci(6)] by metis
    then have "queued_execute_count s2 \<le> queued_execute_count s"
      using count_values_set [OF get0, of "\<lambda>c. cd_kind c = ''execute'' \<and> jc_state c = QUEUED" c']
      by (simp add: queued_execute_count_def s2)
    then show ?thesis using core_invD(4) [OF inv] by (simp add: capacity_inv_def s2)
  qed
  ultimately show ?thesis by (simp add: r core_inv_def)
qed

lemma core_inv_quiet_change:
  assumes inv: "core_inv s"
    and get0: "dict_get (js_commands s) cid = Some c"
    and same: "same_identity c c'"
    and st: "jc_state c' = jc_state c" "jc_state_version c' = jc_state_version c"
      "jc_terminal_at_ms c' = jc_terminal_at_ms c"
  shows "core_inv (s\<lparr>js_commands := dict_set cid c' (js_commands s)\<rparr>)" (is "core_inv ?s2")
proof -
  note ci = commands_invD [OF core_invD(1) [OF inv] get0]
  have get: "dict_get (js_commands ?s2) k = (if k = cid then Some c' else dict_get (js_commands s) k)" for k
    by (simp add: dict_simps)
  have log: "command_log ?s2 k = command_log s k" for k by (simp add: command_log_def)
  have keys: "dict_keys (js_commands ?s2) = dict_keys (js_commands s)"
    using dict_get_Some_keys [OF get0] by (simp add: dict_keys_set)
  have own: "command_inv (js_sequence s) cid c' (command_log s cid)"
    using ci same st audit_ok_same [OF ci(6)] by (simp add: command_inv_def same_identity_def)
  have "commands_inv ?s2"
    unfolding commands_inv_def
  proof (intro conjI allI impI)
    show "distinct (dict_keys (js_commands ?s2))" "0 \<le> js_sequence ?s2"
      using core_invD(1) [OF inv] by (simp_all only: keys) (simp_all add: commands_inv_def)
    show "sorted_wrt (<) (map jc_queue_sequence (dict_values (js_commands ?s2)))"
      using core_invD(1) [OF inv] same map_values_set [OF get0, of jc_queue_sequence c']
      by (simp add: commands_inv_def same_identity_def del: map_map)
  next
    fix k d assume "dict_get (js_commands ?s2) k = Some d"
    then show "command_inv (js_sequence ?s2) k d (command_log ?s2 k)"
      using own commands_invD(1) [OF core_invD(1) [OF inv], of k d]
      by (auto simp: dict_get_set log split: if_splits)
  qed
  moreover have "requests_inv ?s2"
    unfolding requests_inv_def
  proof (intro conjI allI impI)
    fix k d assume "dict_get (js_commands ?s2) k = Some d"
    then show "dict_get (js_requests ?s2) (request_key d) = Some (cd_request_hash d, k)"
      using core_invD(2) [OF inv] get0 same
      by (auto simp: dict_get_set requests_inv_def same_identity_def request_key_def split: if_splits)
  next
    fix k h i assume "dict_get (js_requests ?s2) k = Some (h, i)"
    then obtain d where "dict_get (js_commands s) i = Some d" "request_key d = k" "cd_request_hash d = h"
      using requests_inv_owner [OF core_invD(2) [OF inv], of k h i] by auto
    then show "\<exists>d. dict_get (js_commands ?s2) i = Some d \<and> request_key d = k \<and> cd_request_hash d = h"
      using get0 same by (cases "i = cid") (auto simp: dict_get_set same_identity_def request_key_def)
  qed
  moreover have "log_inv ?s2"
    using core_invD(3) [OF inv] by (simp only: log_inv_def keys) simp
  moreover have "capacity_inv ?s2"
    using core_invD(4) [OF inv] same st
      count_values_set [OF get0, of "\<lambda>c. cd_kind c = ''execute'' \<and> jc_state c = QUEUED" c']
    by (simp add: capacity_inv_def queued_execute_count_def same_identity_def)
  ultimately show ?thesis by (simp add: core_inv_def)
qed

section \<open>How a journal grows\<close>

text \<open>
  \<open>evolves c c'\<close>: the same command later.  Its identity is fixed, its version never falls, its
  state moves along legal transitions only, an unchanged version is an unchanged state, and a
  command in a state without successors keeps its version.
\<close>

definition evolves :: "journal_command \<Rightarrow> journal_command \<Rightarrow> bool" where
  "evolves c c' \<longleftrightarrow>
     same_identity c c' \<and> jc_state_version c \<le> jc_state_version c' \<and>
     validate_transition\<^sup>*\<^sup>* (jc_state c) (jc_state c') \<and>
     (jc_state_version c' = jc_state_version c \<longrightarrow> jc_state c' = jc_state c) \<and>
     (final_state (jc_state c) \<longrightarrow> jc_state_version c' = jc_state_version c)"

definition journal_extends :: "journal_state \<Rightarrow> journal_state \<Rightarrow> bool" where
  "journal_extends s s' \<longleftrightarrow>
     (\<forall>cid c. dict_get (js_commands s) cid = Some c \<longrightarrow>
        (\<exists>c'. dict_get (js_commands s') cid = Some c' \<and> evolves c c')) \<and>
     (\<forall>k v. dict_get (js_requests s) k = Some v \<longrightarrow> dict_get (js_requests s') k = Some v) \<and>
     prefix (js_transitions s) (js_transitions s') \<and>
     js_queue_capacity s' = js_queue_capacity s"

lemma same_identity_refl [simp]: "same_identity c c"
  by (simp add: same_identity_def)

lemma same_identity_trans: "same_identity a b \<Longrightarrow> same_identity b c \<Longrightarrow> same_identity a c"
  by (simp add: same_identity_def)

lemma evolves_refl [simp]: "evolves c c"
  by (simp add: evolves_def)

lemma evolves_final: "evolves c c' \<Longrightarrow> final_state (jc_state c) \<Longrightarrow> jc_state c' = jc_state c"
  unfolding evolves_def by (metis converse_rtranclpE validate_transition_final)

lemma evolves_trans:
  assumes "evolves a b" and "evolves b c"
  shows "evolves a c"
proof -
  have "same_identity a c"
    using assms same_identity_trans [of a b c] by (simp add: evolves_def)
  moreover have "validate_transition\<^sup>*\<^sup>* (jc_state a) (jc_state c)"
    by (rule rtranclp_trans [of _ _ "jc_state b"]) (use assms in \<open>simp_all add: evolves_def\<close>)
  moreover have "jc_state_version a \<le> jc_state_version b" "jc_state_version b \<le> jc_state_version c"
    using assms by (simp_all add: evolves_def)
  moreover have "jc_state c = jc_state a" if "jc_state_version c = jc_state_version a"
  proof -
    have "jc_state_version b = jc_state_version a \<and> jc_state_version c = jc_state_version b"
      using that \<open>jc_state_version a \<le> jc_state_version b\<close>
        \<open>jc_state_version b \<le> jc_state_version c\<close> by simp
    with assms show ?thesis by (simp add: evolves_def)
  qed
  moreover have "jc_state_version c = jc_state_version a" if "final_state (jc_state a)"
  proof -
    have "final_state (jc_state b)" using evolves_final [OF assms(1) that] that by simp
    with that assms show ?thesis by (simp add: evolves_def)
  qed
  ultimately show ?thesis unfolding evolves_def by linarith
qed

lemma journal_extends_refl [simp]: "journal_extends s s"
  by (auto simp: journal_extends_def)

lemma journal_extends_trans [trans]:
  "journal_extends s t \<Longrightarrow> journal_extends t u \<Longrightarrow> journal_extends s u"
  unfolding journal_extends_def
  by (elim conjE, intro conjI; (meson evolves_trans prefix_order.trans | simp))

lemma journal_extends_frame:
  "core_of s' = core_of s \<Longrightarrow> journal_extends s s'"
  by (simp add: core_of_def journal_extends_def)

lemma journal_extends_change:
  assumes "dict_get (js_commands s) cid = Some c" and "evolves c c'"
    and "js_commands s' = dict_set cid c' (js_commands s)" and "js_requests s' = js_requests s"
    and "prefix (js_transitions s) (js_transitions s')"
    and "js_queue_capacity s' = js_queue_capacity s"
  shows "journal_extends s s'"
  using assms by (auto simp: journal_extends_def dict_get_set)

lemma journal_extends_insert:
  assumes "insert_command s d = (s1, c)"
    and "cd_command_id d \<notin> set (dict_keys (js_commands s))"
    and "dict_get (js_requests s) (cd_caller_scope d, cd_request_id d) = None"
  shows "journal_extends s s1"
  using assms(1,3) assms(2) [folded dict_get_None_keys]
  by (auto simp: insert_command_def Let_def journal_extends_def dict_get_set)

lemma append_transition_extends:
  "append_transition s c frm reason actor occ det = (s', r) \<Longrightarrow> journal_extends s s'"
  by (auto simp: append_transition_def Let_def journal_extends_def split: if_splits)

lemma evolves_step:
  "same_identity c c' \<Longrightarrow> validate_transition (jc_state c) (jc_state c') \<Longrightarrow>
   jc_state_version c' = jc_state_version c + 1 \<Longrightarrow> evolves c c'"
  by (auto simp: evolves_def)

end
