(* ===== verification/Journal_Steps.thy ===== *)
theory Journal_Steps
  imports Journal_Invariant
begin

text \<open>
  Every journal operation keeps the core invariant and only extends the journal; the step
  relation collects the operations, and reachability gives the invariant of every journal that
  the code can produce.  Two facts about the environment are premises of the steps: the clock
  is not negative, and a new command carries an identifier that is not in use (a fresh uuid).
\<close>

definition keeps :: "journal_state \<Rightarrow> journal_state \<Rightarrow> bool" where
  "keeps s s' \<longleftrightarrow> (core_inv s \<longrightarrow> core_inv s' \<and> journal_extends s s')"

lemma keeps_refl [simp]: "keeps s s"
  by (simp add: keeps_def)

lemma keeps_trans [trans]: "keeps s t \<Longrightarrow> keeps t u \<Longrightarrow> keeps s u"
  by (auto simp: keeps_def intro: journal_extends_trans)

lemma keeps_frame: "core_of s' = core_of s \<Longrightarrow> keeps s s'"
  using core_inv_frame [of s' s] journal_extends_frame [of s' s] by (auto simp: keeps_def)

lemma keeps_bump [simp]: "keeps s (bump_projection s)"
  by (rule keeps_frame) (simp add: core_of_def bump_projection_def)

lemma keeps_logged:
  assumes "dict_get (js_commands s) cid = Some c" and "same_identity c c'"
    and "validate_transition (jc_state c) (jc_state c')"
    and "jc_state_version c' = jc_state_version c + 1"
    and "terminal_command_state (jc_state c') \<Longrightarrow> jc_terminal_at_ms c' \<noteq> None"
    and "0 \<le> occ"
    and "append_transition (s\<lparr>js_commands := dict_set cid c' (js_commands s)\<rparr>) c'
                (Some (jc_state c)) reason actor occ det = (s2, r)"
  shows "keeps s s2" and "core_inv s \<Longrightarrow> r = Inr ()"
proof -
  have "journal_extends s (s\<lparr>js_commands := dict_set cid c' (js_commands s)\<rparr>)"
    using assms(1-4) by (intro journal_extends_change [of s cid c c'] evolves_step) simp_all
  also have "journal_extends \<dots> s2"
    using assms(7) by (rule append_transition_extends)
  finally show "keeps s s2"
    using core_inv_logged_change [OF _ assms] by (simp add: keeps_def)
  show "core_inv s \<Longrightarrow> r = Inr ()"
    using core_inv_logged_change [OF _ assms] by simp
qed

lemma keeps_quiet:
  assumes "dict_get (js_commands s) cid = Some c" and "same_identity c c'"
    and "jc_state c' = jc_state c" "jc_state_version c' = jc_state_version c"
      "jc_terminal_at_ms c' = jc_terminal_at_ms c"
  shows "keeps s (s\<lparr>js_commands := dict_set cid c' (js_commands s)\<rparr>)"
proof -
  have "evolves c c'" using assms by (simp add: evolves_def)
  with assms show ?thesis
    by (simp add: keeps_def core_inv_quiet_change journal_extends_change [of s cid c c'])
qed

section \<open>Compare-and-swap transitions\<close>

lemma transitioned_sel [simp]:
  "jc_state (transitioned c t occ res) = t"
  "jc_state_version (transitioned c t occ res) = jc_state_version c + 1"
  "same_identity c (transitioned c t occ res)"
  "terminal_command_state t \<Longrightarrow> jc_terminal_at_ms (transitioned c t occ res) = Some occ"
  "terminal_command_state t \<Longrightarrow> jc_terminal_result (transitioned c t occ res) = res"
  "\<not> terminal_command_state t \<Longrightarrow> jc_terminal_at_ms (transitioned c t occ res) = jc_terminal_at_ms c"
  "cd_kind (transitioned c t occ res) = cd_kind c"
  "cd_command_id (transitioned c t occ res) = cd_command_id c"
  "cd_queue_deadline_ms (transitioned c t occ res) = cd_queue_deadline_ms c"
  "jc_queue_sequence (transitioned c t occ res) = jc_queue_sequence c"
  by (auto simp: transitioned_def Let_def same_identity_def)

lemma transition_cases:
  assumes "transition s cid e t reason actor occ det res = (s', x)" and "0 \<le> occ" and "core_inv s"
  obtains (Missing) "dict_get (js_commands s) cid = None" "s' = s" "x = Inl JKeyError"
  | (Stale) c where "dict_get (js_commands s) cid = Some c" "jc_state_version c \<noteq> e" "s' = s"
      "x = Inl StaleCommandVersionError"
  | (Refused) c m where "dict_get (js_commands s) cid = Some c" "jc_state_version c = e" "s' = s"
      "x = Inl (JValueError m)" "\<not> validate_transition (jc_state c) t \<or> \<not> terminal_command_state t \<and> res \<noteq> None"
  | (Done) c where "dict_get (js_commands s) cid = Some c" "jc_state_version c = e"
      "validate_transition (jc_state c) t" "x = Inr (transitioned c t occ res)"
      "js_commands s' = dict_set cid (transitioned c t occ res) (js_commands s)"
      "js_accepting_execute s' = js_accepting_execute s" "keeps s s'"
proof (cases "dict_get (js_commands s) cid")
  case None
  with assms(1) show thesis by (intro Missing) (simp_all add: transition_def)
next
  case (Some c)
  show thesis
  proof (cases "jc_state_version c = e \<and> validate_transition (jc_state c) t \<and>
      (terminal_command_state t \<or> res = None)")
    case False
    with Some assms(1) show thesis
      using Stale [OF Some] Refused [OF Some] by (auto simp: transition_def split: if_splits)
  next
    case True
    let ?c' = "transitioned c t occ res"
    let ?s1 = "s\<lparr>js_commands := dict_set cid ?c' (js_commands s)\<rparr>"
    obtain s2 r where app: "append_transition ?s1 ?c' (Some (jc_state c)) reason actor occ det = (s2, r)"
      by (cases "append_transition ?s1 ?c' (Some (jc_state c)) reason actor occ det")
    note k = keeps_logged [OF Some transitioned_sel(3) _ _ _ assms(2) app]
    have "keeps s s2" and r: "r = Inr ()"
      using True k assms(3) by simp_all
    moreover have "s' = bump_projection s2" "x = Inr ?c'"
      using assms(1) True Some app r by (auto simp: transition_def Let_def)
    moreover have "js_commands s2 = js_commands ?s1"
      "js_accepting_execute s2 = js_accepting_execute s"
      using app r by (auto simp: append_transition_def Let_def split: if_splits)
    ultimately show thesis
      using Done [OF Some] True keeps_trans [OF _ keeps_bump] by (simp add: bump_projection_def)
  qed
qed

lemma keeps_transition:
  assumes "transition s cid e t reason actor occ det res = (s', x)" and "0 \<le> occ"
  shows "keeps s s'"
proof (cases "core_inv s")
  case True
  from assms True show ?thesis by (cases rule: transition_cases) simp_all
qed (simp add: keeps_def)

section \<open>Creating commands, expiring the queue\<close>

lemma keeps_insert:
  assumes "cd_command_id d \<notin> set (dict_keys (js_commands s))"
    and "dict_get (js_requests s) (cd_caller_scope d, cd_request_id d) = None"
    and "cd_kind d = ''execute'' \<Longrightarrow> queued_execute_count s < js_queue_capacity s"
    and "0 \<le> occ" and "insert_command s d = (s1, c)"
    and "append_transition s1 c None reason actor occ det = (s2, r)"
  shows "keeps s s2" and "core_inv s \<Longrightarrow> r = Inr ()"
proof -
  have "journal_extends s s1" using assms(5,1,2) by (rule journal_extends_insert)
  also have "journal_extends s1 s2" using assms(6) by (rule append_transition_extends)
  finally show "keeps s s2" using core_inv_insert [OF _ assms] by (simp add: keeps_def)
  show "core_inv s \<Longrightarrow> r = Inr ()" using core_inv_insert [OF _ assms] by simp
qed

lemma keeps_create:
  assumes "create_command s d = (s', x)" and "0 \<le> cd_accepted_at_ms d"
    and "cd_command_id d \<notin> set (dict_keys (js_commands s))"
  shows "keeps s s'"
proof (cases "dict_get (js_requests s) (cd_caller_scope d, cd_request_id d)")
  case (Some p)
  with assms(1) show ?thesis by (auto simp: create_command_def split: prod.splits if_splits option.splits)
next
  case None
  show ?thesis
  proof (cases "cd_kind d = ''execute'' \<and>
      (\<not> js_accepting_execute s \<or> js_queue_capacity s \<le> queued_execute_count s)")
    case True
    with assms(1) None show ?thesis by (auto simp: create_command_def split: if_splits)
  next
    case False
    obtain s1 c where ins: "insert_command s d = (s1, c)" by (cases "insert_command s d")
    obtain s2 r where app: "append_transition s1 c None ''ACCEPTED'' ''gateway'' (cd_accepted_at_ms d) None = (s2, r)"
      by (cases "append_transition s1 c None ''ACCEPTED'' ''gateway'' (cd_accepted_at_ms d) None")
    have k: "keeps s s2"
      using False keeps_insert(1) [OF assms(3) None _ assms(2) ins app] by force
    have "s' = s2 \<or> s' = bump_projection s2"
      using assms(1) None False ins app by (auto simp: create_command_def split: sum.splits if_splits)
    with k keeps_trans [OF k keeps_bump] show ?thesis by blast
  qed
qed

lemma keeps_expire_loop:
  "expire_loop s now cs ids = (s', x) \<Longrightarrow> 0 \<le> now \<Longrightarrow> keeps s s'"
proof (induction s now cs ids rule: expire_loop.induct)
  case (2 s now c cs ids)
  obtain s1 y where t: "transition s (cd_command_id c) (jc_state_version c) FAILED
      ''QUEUE_DEADLINE_EXPIRED'' ''worker'' now None None = (s1, y)" (is "?t = _")
    by (cases ?t)
  have k: "keeps s s1" using t "2.prems"(2) by (rule keeps_transition)
  have "keeps s1 s'"
    using "2.IH"(1) [OF t [symmetric]] "2.IH"(2) [OF t [symmetric]] "2.prems" t
    by (auto split: sum.splits jerror.splits)
  with k show ?case by (rule keeps_trans)
qed simp

lemma keeps_expire_queued: "expire_queued s now = (s', x) \<Longrightarrow> 0 \<le> now \<Longrightarrow> keeps s s'"
  unfolding expire_queued_def by (rule keeps_expire_loop)

end
