(* ===== verification/Journal_Recovery.thy ===== *)
theory Journal_Recovery
  imports Journal_Steps
begin

text \<open>
  What the two bulk operations of the journal do to every command: the global stop barrier and
  the recovery after a restart.  Both loops visit each command of a snapshot once; their effect
  is stated per command.
\<close>

section \<open>The stop barrier\<close>

definition queued_execute :: "journal_command \<Rightarrow> bool" where
  "queued_execute c \<longleftrightarrow> cd_kind c = ''execute'' \<and> jc_state c = QUEUED"

definition active_execute :: "journal_command \<Rightarrow> bool" where
  "active_execute c \<longleftrightarrow>
     cd_kind c = ''execute'' \<and> jc_state c \<in> {RUNNING, RECONCILING, BLOCKED_UNKNOWN}"

definition stop_effect :: "int \<Rightarrow> journal_command \<Rightarrow> journal_command" where
  "stop_effect occ c =
     (if queued_execute c then stop_cancelled c occ
      else if active_execute c then request_cancel_mark c occ else c)"

definition last_active :: "string option \<Rightarrow> (string \<times> journal_command) list \<Rightarrow> string option" where
  "last_active active rest =
     foldl (\<lambda>a (cid, c). if active_execute c then Some cid else a) active rest"

lemma stop_cancelled_sel [simp]:
  "jc_state (stop_cancelled c occ) = CANCELLED_BY_STOP"
  "jc_state_version (stop_cancelled c occ) = jc_state_version c + 1"
  "jc_terminal_at_ms (stop_cancelled c occ) = Some occ"
  "same_identity c (stop_cancelled c occ)"
  "cd_kind (stop_cancelled c occ) = cd_kind c"
  "cd_command_id (stop_cancelled c occ) = cd_command_id c"
  by (simp_all add: stop_cancelled_def same_identity_def)

lemma request_cancel_mark_sel [simp]:
  "jc_state (request_cancel_mark c occ) = jc_state c"
  "jc_state_version (request_cancel_mark c occ) = jc_state_version c"
  "jc_terminal_at_ms (request_cancel_mark c occ) = jc_terminal_at_ms c"
  "same_identity c (request_cancel_mark c occ)"
  "cd_kind (request_cancel_mark c occ) = cd_kind c"
  "jc_cancel_requested_at_ms (request_cancel_mark c occ) \<noteq> None"
  by (simp_all add: request_cancel_mark_def same_identity_def)

lemma stop_effect_not_queued: "\<not> queued_execute (stop_effect occ c)"
  by (auto simp: stop_effect_def queued_execute_def)

definition sets_command :: "journal_state \<Rightarrow> string \<Rightarrow> journal_command \<Rightarrow> journal_state \<Rightarrow> bool" where
  "sets_command s cid c s' \<longleftrightarrow>
     keeps s s' \<and> js_accepting_execute s' = js_accepting_execute s \<and>
     (\<forall>k. dict_get (js_commands s') k = (if k = cid then Some c else dict_get (js_commands s) k))"

lemma stop_loop_step:
  assumes inv: "core_inv s" and occ: "0 \<le> occ" and get: "dict_get (js_commands s) cid = Some c"
  shows "\<exists>s1. stop_loop s occ ((cid, c) # rest) active cancelled =
      stop_loop s1 occ rest (if active_execute c then Some cid else active)
        (if queued_execute c then cancelled @ [cid] else cancelled) \<and>
    sets_command s cid (stop_effect occ c) s1"
proof -
  consider (other) "\<not> queued_execute c" "\<not> active_execute c"
    | (queued) "queued_execute c" "\<not> active_execute c"
    | (active) "\<not> queued_execute c" "active_execute c"
    by (auto simp: queued_execute_def active_execute_def)
  then show ?thesis
  proof cases
    case other
    then have "stop_loop s occ ((cid, c) # rest) active cancelled = stop_loop s occ rest active cancelled"
      by (auto simp: queued_execute_def active_execute_def)
    moreover have "sets_command s cid (stop_effect occ c) s"
      using other get by (simp add: sets_command_def stop_effect_def)
    ultimately show ?thesis using other by auto
  next
    case queued
    let ?c' = "stop_cancelled c occ" and ?s1 = "s\<lparr>js_commands := dict_set cid (stop_cancelled c occ) (js_commands s)\<rparr>"
    have q: "jc_state c = QUEUED" "cd_kind c = ''execute''"
      using queued by (simp_all add: queued_execute_def)
    obtain s2 r where app: "append_transition ?s1 ?c' (Some (jc_state c)) ''GLOBAL_STOP'' ''gateway'' occ None = (s2, r)"
      by (cases "append_transition ?s1 ?c' (Some (jc_state c)) ''GLOBAL_STOP'' ''gateway'' occ None")
    note k = keeps_logged [OF get stop_cancelled_sel(4) _ _ _ occ app]
    have "keeps s s2" and r: "r = Inr ()"
      using k inv q by (simp_all add: validate_transition_def)
    moreover have "js_commands s2 = js_commands ?s1" "js_accepting_execute s2 = js_accepting_execute s"
      using app r by (auto simp: append_transition_def Let_def split: if_splits)
    ultimately have "sets_command s cid (stop_effect occ c) s2"
      using queued by (simp add: sets_command_def stop_effect_def dict_simps)
    then show ?thesis using queued q app r by (intro exI [of _ s2]) simp
  next
    case active
    let ?c' = "request_cancel_mark c occ"
    let ?s1 = "if jc_cancel_requested_at_ms c = None
       then s\<lparr>js_commands := dict_set cid ?c' (js_commands s)\<rparr> else s"
    have "keeps s (s\<lparr>js_commands := dict_set cid ?c' (js_commands s)\<rparr>)"
      using get by (intro keeps_quiet) simp_all
    moreover have "jc_cancel_requested_at_ms c \<noteq> None \<Longrightarrow> ?c' = c"
      by (simp add: request_cancel_mark_def)
    ultimately have "sets_command s cid (stop_effect occ c) ?s1"
      using active get by (auto simp: sets_command_def stop_effect_def dict_simps)
    then show ?thesis
      using active by (intro exI [of _ ?s1]) (auto simp: queued_execute_def active_execute_def)
  qed
qed

lemma stop_loop_spec:
  assumes "core_inv s" and occ: "0 \<le> occ"
    and "\<And>cid c. (cid, c) \<in> set rest \<Longrightarrow> dict_get (js_commands s) cid = Some c"
    and "distinct (map fst rest)"
  shows "\<exists>s'. stop_loop s occ rest active cancelled =
      (s', Inr (last_active active rest, cancelled @ map fst (filter (queued_execute \<circ> snd) rest))) \<and>
    keeps s s' \<and> js_accepting_execute s' = js_accepting_execute s \<and>
    (\<forall>k. dict_get (js_commands s') k =
      (case dict_get rest k of None \<Rightarrow> dict_get (js_commands s) k | Some c \<Rightarrow> Some (stop_effect occ c)))"
  using assms(1,3,4)
proof (induction rest arbitrary: s active cancelled)
  case Nil
  then show ?case by (simp add: last_active_def)
next
  case (Cons p rest)
  obtain cid c where p: "p = (cid, c)" by (cases p)
  have get: "dict_get (js_commands s) cid = Some c" using Cons.prems(2) p by simp
  let ?act = "if active_execute c then Some cid else active"
  let ?can = "if queued_execute c then cancelled @ [cid] else cancelled"
  obtain s1 where step: "stop_loop s occ (p # rest) active cancelled = stop_loop s1 occ rest ?act ?can"
    and s1: "sets_command s cid (stop_effect occ c) s1"
    using stop_loop_step [OF Cons.prems(1) occ get, of rest active cancelled] p by blast
  have inv1: "core_inv s1" using s1 Cons.prems(1) by (simp add: sets_command_def keeps_def)
  have rest: "dict_get (js_commands s1) k = Some d" if "(k, d) \<in> set rest" for k d
    using that Cons.prems(2,3) s1 p by (auto simp: sets_command_def rev_image_eqI)
  have dist: "distinct (map fst rest)" using Cons.prems(3) by simp
  obtain s' where s': "stop_loop s1 occ rest ?act ?can =
      (s', Inr (last_active ?act rest, ?can @ map fst (filter (queued_execute \<circ> snd) rest)))"
    "keeps s1 s'" "js_accepting_execute s' = js_accepting_execute s1"
    "\<forall>k. dict_get (js_commands s') k =
      (case dict_get rest k of None \<Rightarrow> dict_get (js_commands s1) k | Some c \<Rightarrow> Some (stop_effect occ c))"
    using Cons.IH [OF inv1 rest dist, of ?act ?can] by blast
  have "dict_get rest cid = None" using Cons.prems(3) p by (simp add: dict_get_None_keys)
  with s' s1 step p show ?case
    by (intro exI [of _ s'])
      (auto simp: last_active_def sets_command_def comp_def simp del: stop_loop.simps
         split: option.splits intro: keeps_trans)
qed

lemma insert_command_sel:
  assumes "insert_command s d = (s1, c)" and "cd_command_id d \<notin> set (dict_keys (js_commands s))"
  shows "c = queued_command d (js_sequence s + 1)"
    "js_commands s1 = js_commands s @ [(cd_command_id d, c)]"
    "js_accepting_execute s1 = js_accepting_execute s"
    "dict_get (js_requests s1) (cd_caller_scope d, cd_request_id d) = Some (cd_request_hash d, cd_command_id d)"
  using assms by (auto simp: insert_command_def Let_def dict_set_absent dict_simps)

lemma append_transition_sel:
  assumes "append_transition s c frm reason actor occ det = (s', r)"
  shows "js_commands s' = js_commands s" "js_requests s' = js_requests s"
    "js_accepting_execute s' = js_accepting_execute s"
  using assms by (auto simp: append_transition_def Let_def split: if_splits)

text \<open>
  A new stop command on a journal that satisfies the invariant: the barrier succeeds, closes
  admission, cancels exactly the queued execute commands in queue order, marks the active ones
  and touches no other command.
\<close>

lemma apply_stop_barrier_new:
  assumes inv: "core_inv s" and occ: "0 \<le> occ" and stop: "cd_kind d = ''stop''"
    and fresh: "cd_command_id d \<notin> set (dict_keys (js_commands s))"
    and new: "dict_get (js_requests s) (cd_caller_scope d, cd_request_id d) = None"
  shows "\<exists>s' c. apply_stop_barrier s d occ =
      (s', Inr \<lparr>sb_stop_command = c, sb_idempotency_reused = False,
                sb_active_command_id = last_active None (js_commands s),
                sb_cancelled_command_ids = map fst (filter (queued_execute \<circ> snd) (js_commands s))\<rparr>) \<and>
    keeps s s' \<and> \<not> js_accepting_execute s' \<and> c = queued_command d (js_sequence s + 1) \<and>
    dict_get (js_commands s') (cd_command_id d) = Some c \<and>
    (\<forall>k. k \<noteq> cd_command_id d \<longrightarrow>
       dict_get (js_commands s') k = map_option (stop_effect occ) (dict_get (js_commands s) k))"
proof -
  obtain s1 c where ins: "insert_command s d = (s1, c)" by (cases "insert_command s d")
  note ic = insert_command_sel [OF ins fresh]
  obtain s2 r where app: "append_transition s1 c None ''STOP_ACCEPTED'' ''gateway'' occ None = (s2, r)"
    by (cases "append_transition s1 c None ''STOP_ACCEPTED'' ''gateway'' occ None")
  have k2: "keeps s s2" and r: "r = Inr ()"
    using keeps_insert [OF fresh new _ occ ins app] stop inv by simp_all
  let ?s3 = "s2\<lparr>js_accepting_execute := False\<rparr>"
  have k3: "keeps s ?s3"
    by (rule keeps_trans [OF k2 keeps_frame]) (simp add: core_of_def)
  have inv3: "core_inv ?s3" using k3 inv by (simp add: keeps_def)
  have cmds: "js_commands ?s3 = js_commands s @ [(cd_command_id d, c)]"
    using ic(2) append_transition_sel [OF app] by simp
  have dist: "distinct (map fst (js_commands ?s3))"
    using inv3 by (simp add: core_inv_def commands_inv_def)
  have get: "dict_get (js_commands ?s3) k = Some e" if "(k, e) \<in> set (js_commands ?s3)" for k e
    using dist that by simp
  have other: "\<not> queued_execute c" "\<not> active_execute c" "stop_effect occ c = c"
    using ic(1) stop by (simp_all add: queued_execute_def active_execute_def stop_effect_def)
  obtain s4 where loop: "stop_loop ?s3 occ (js_commands ?s3) None [] =
      (s4, Inr (last_active None (js_commands ?s3),
         [] @ map fst (filter (queued_execute \<circ> snd) (js_commands ?s3))))"
    and s4: "keeps ?s3 s4" "js_accepting_execute s4 = js_accepting_execute ?s3"
    "\<forall>k. dict_get (js_commands s4) k =
      (case dict_get (js_commands ?s3) k of None \<Rightarrow> dict_get (js_commands ?s3) k
       | Some c \<Rightarrow> Some (stop_effect occ c))"
    using stop_loop_spec [OF inv3 occ get dist, of None "[]"] by blast
  have "last_active None (js_commands ?s3) = last_active None (js_commands s)"
    "map fst (filter (queued_execute \<circ> snd) (js_commands ?s3)) =
     map fst (filter (queued_execute \<circ> snd) (js_commands s))"
    using other by (simp_all only: cmds) (simp_all add: last_active_def)
  moreover have "keeps s (bump_projection s4)"
    using k3 s4(1) by (blast intro: keeps_trans keeps_bump)
  moreover have "dict_get (js_commands s4) (cd_command_id d) = Some c"
    using s4(3) other fresh [folded dict_get_None_keys]
    by (simp only: cmds) (simp add: map_add_def split: option.splits)
  moreover have "dict_get (js_commands s4) k = map_option (stop_effect occ) (dict_get (js_commands s) k)"
    if "k \<noteq> cd_command_id d" for k
    using s4(3) that by (simp only: cmds) (simp add: map_add_def split: option.splits)
  ultimately show ?thesis
    using stop new ins app r loop s4(2) ic(1)
    by (intro exI [of _ "bump_projection s4"] exI [of _ c])
      (simp add: apply_stop_barrier_def Let_def bump_projection_def)
qed

section \<open>Recovery\<close>

definition recover_effect :: "int \<Rightarrow> journal_command \<Rightarrow> journal_command" where
  "recover_effect occ c =
     (if jc_state c = QUEUED then transitioned c INTERRUPTED_BEFORE_START occ None
      else if jc_state c \<in> {RUNNING, RECONCILING} then transitioned c BLOCKED_UNKNOWN occ None
      else c)"

definition recover_blocks :: "journal_command \<Rightarrow> bool" where
  "recover_blocks c \<longleftrightarrow> jc_state c \<in> {RUNNING, RECONCILING, BLOCKED_UNKNOWN}"

lemma recover_effect_settled:
  "jc_state (recover_effect occ c) \<notin> {QUEUED, RUNNING, RECONCILING}"
  by (simp add: recover_effect_def)

lemma transition_current:
  assumes "core_inv s" and "0 \<le> occ" and "dict_get (js_commands s) cid = Some c"
    and "validate_transition (jc_state c) t"
    and "terminal_command_state t \<or> res = None"
  shows "\<exists>s1. transition s cid (jc_state_version c) t reason actor occ det res =
      (s1, Inr (transitioned c t occ res)) \<and> sets_command s cid (transitioned c t occ res) s1"
proof -
  obtain s1 x where t: "transition s cid (jc_state_version c) t reason actor occ det res = (s1, x)"
    by (cases "transition s cid (jc_state_version c) t reason actor occ det res")
  from t assms(2,1) show ?thesis
    by (cases rule: transition_cases) (use assms(3-5) t in \<open>auto simp: sets_command_def dict_get_set\<close>)
qed

lemma recover_loop_spec:
  assumes "core_inv s" and occ: "0 \<le> occ"
    and "\<And>c. c \<in> set cs \<Longrightarrow> dict_get (js_commands s) (cd_command_id c) = Some c"
    and "distinct (map cd_command_id cs)"
  shows "\<exists>s'. recover_loop s occ cs ints blks =
      (s', Inr (ints @ map cd_command_id (filter (\<lambda>c. jc_state c = QUEUED) cs),
                blks @ map cd_command_id (filter recover_blocks cs))) \<and>
    keeps s s' \<and> js_accepting_execute s' = js_accepting_execute s \<and>
    (\<forall>c\<in>set cs. dict_get (js_commands s') (cd_command_id c) = Some (recover_effect occ c)) \<and>
    (\<forall>k. k \<notin> cd_command_id ` set cs \<longrightarrow> dict_get (js_commands s') k = dict_get (js_commands s) k)"
  using assms(1,3,4)
proof (induction cs arbitrary: s ints blks)
  case Nil
  then show ?case by simp
next
  case (Cons c cs)
  let ?id = "cd_command_id c"
  let ?ints = "if jc_state c = QUEUED then ints @ [?id] else ints"
  let ?blks = "if recover_blocks c then blks @ [?id] else blks"
  have get: "dict_get (js_commands s) ?id = Some c" using Cons.prems(2) by simp
  have "\<exists>s1. recover_loop s occ (c # cs) ints blks = recover_loop s1 occ cs ?ints ?blks \<and>
      sets_command s ?id (recover_effect occ c) s1"
  proof (cases "jc_state c \<in> {QUEUED, RUNNING, RECONCILING}")
    case False
    then have "sets_command s ?id (recover_effect occ c) s"
      using get by (simp add: sets_command_def recover_effect_def)
    with False show ?thesis by (intro exI [of _ s]) (auto simp: recover_blocks_def)
  next
    case True
    then consider "jc_state c = QUEUED" | "jc_state c = RUNNING \<or> jc_state c = RECONCILING" by auto
    then show ?thesis
    proof cases
      case 1
      obtain s1 where "transition s ?id (jc_state_version c) INTERRUPTED_BEFORE_START
          ''PROCESS_RESTART'' ''startup'' occ None None =
          (s1, Inr (transitioned c INTERRUPTED_BEFORE_START occ None))"
        "sets_command s ?id (transitioned c INTERRUPTED_BEFORE_START occ None) s1"
        using transition_current [OF Cons.prems(1) occ get, of INTERRUPTED_BEFORE_START None
            "''PROCESS_RESTART''" "''startup''" None] 1
        by (auto simp: validate_transition_def)
      with 1 show ?thesis
        by (intro exI [of _ s1]) (simp add: recover_effect_def recover_blocks_def)
    next
      case 2
      obtain s1 where "transition s ?id (jc_state_version c) BLOCKED_UNKNOWN
          ''PROCESS_RESTART_UNKNOWN'' ''startup'' occ None None =
          (s1, Inr (transitioned c BLOCKED_UNKNOWN occ None))"
        "sets_command s ?id (transitioned c BLOCKED_UNKNOWN occ None) s1"
        using transition_current [OF Cons.prems(1) occ get, of BLOCKED_UNKNOWN None
            "''PROCESS_RESTART_UNKNOWN''" "''startup''" None] 2
        by (auto simp: validate_transition_def)
      with 2 show ?thesis
        by (intro exI [of _ s1]) (auto simp: recover_effect_def recover_blocks_def)
    qed
  qed
  then obtain s1 where step: "recover_loop s occ (c # cs) ints blks = recover_loop s1 occ cs ?ints ?blks"
    and s1: "sets_command s ?id (recover_effect occ c) s1" by blast
  have inv1: "core_inv s1" using s1 Cons.prems(1) by (simp add: sets_command_def keeps_def)
  have rest: "dict_get (js_commands s1) (cd_command_id d) = Some d" if "d \<in> set cs" for d
    using that Cons.prems(2,3) s1 by (auto simp: sets_command_def rev_image_eqI)
  have dist: "distinct (map cd_command_id cs)" using Cons.prems(3) by simp
  obtain s' where s': "recover_loop s1 occ cs ?ints ?blks =
      (s', Inr (?ints @ map cd_command_id (filter (\<lambda>c. jc_state c = QUEUED) cs),
                ?blks @ map cd_command_id (filter recover_blocks cs)))"
    "keeps s1 s'" "js_accepting_execute s' = js_accepting_execute s1"
    "\<forall>c\<in>set cs. dict_get (js_commands s') (cd_command_id c) = Some (recover_effect occ c)"
    "\<forall>k. k \<notin> cd_command_id ` set cs \<longrightarrow> dict_get (js_commands s') k = dict_get (js_commands s1) k"
    using Cons.IH [OF inv1 rest dist, of ?ints ?blks] by blast
  show ?case
    using s' s1 step Cons.prems(3)
    by (intro exI [of _ s']) (auto simp: sets_command_def simp del: recover_loop.simps intro: keeps_trans)
qed

lemma commands_snapshot:
  assumes "commands_inv s"
  shows "map cd_command_id (dict_values (js_commands s)) = dict_keys (js_commands s)"
proof -
  have "cd_command_id (snd p) = fst p" if "p \<in> set (js_commands s)" for p
  proof -
    have "dict_get (js_commands s) (fst p) = Some (snd p)"
      using that assms by (simp add: commands_inv_def)
    then show ?thesis by (rule commands_invD(2) [OF assms])
  qed
  then show ?thesis by simp
qed

lemma recover_startup_spec:
  assumes inv: "core_inv s" and occ: "0 \<le> occ"
  shows "\<exists>s' rec. recover_startup s occ = (s', Inr rec) \<and> keeps s s' \<and>
    su_interrupted_command_ids rec =
      map cd_command_id (filter (\<lambda>c. jc_state c = QUEUED) (dict_values (js_commands s))) \<and>
    su_blocked_command_ids rec = map cd_command_id (filter recover_blocks (dict_values (js_commands s))) \<and>
    su_quarantined rec = (su_blocked_command_ids rec \<noteq> []) \<and>
    js_accepting_execute s' = (js_accepting_execute s \<and> \<not> su_quarantined rec) \<and>
    (\<forall>k. dict_get (js_commands s') k = map_option (recover_effect occ) (dict_get (js_commands s) k))"
proof -
  note ci = core_invD(1) [OF inv]
  let ?cs = "dict_values (js_commands s)"
  have dist: "distinct (map cd_command_id ?cs)"
    using ci by (simp only: commands_snapshot) (simp add: commands_inv_def)
  obtain s' where loop: "recover_loop s occ ?cs [] [] =
      (s', Inr ([] @ map cd_command_id (filter (\<lambda>c. jc_state c = QUEUED) ?cs),
                [] @ map cd_command_id (filter recover_blocks ?cs)))"
    and s': "keeps s s'" "js_accepting_execute s' = js_accepting_execute s"
    "\<forall>c\<in>set ?cs. dict_get (js_commands s') (cd_command_id c) = Some (recover_effect occ c)"
    "\<forall>k. k \<notin> cd_command_id ` set ?cs \<longrightarrow> dict_get (js_commands s') k = dict_get (js_commands s) k"
    using recover_loop_spec [OF inv occ commands_inv_values [OF ci] dist, of "[]" "[]"] by blast
  have get: "dict_get (js_commands s') k = map_option (recover_effect occ) (dict_get (js_commands s) k)" for k
  proof (cases "dict_get (js_commands s) k")
    case None
    then have "k \<notin> cd_command_id ` set ?cs"
      using commands_snapshot [OF ci] by (metis dict_get_None_keys set_map)
    with None s'(4) show ?thesis by simp
  next
    case (Some c)
    then have "c \<in> set ?cs" by (force dest: map_of_SomeD)
    with Some s'(3) commands_invD(2) [OF ci Some] show ?thesis by auto
  qed
  let ?b = "map cd_command_id (filter recover_blocks ?cs)"
  let ?s2 = "if ?b \<noteq> [] then s'\<lparr>js_accepting_execute := False\<rparr> else s'"
  have "keeps s' ?s2" by (auto intro: keeps_frame simp: core_of_def)
  with s'(1) have "keeps s ?s2" by (rule keeps_trans)
  moreover have "js_commands ?s2 = js_commands s'" by simp
  ultimately show ?thesis
    using loop get s'(2)
    by (intro exI [of _ ?s2] exI [of _ "\<lparr>su_interrupted_command_ids =
          map cd_command_id (filter (\<lambda>c. jc_state c = QUEUED) ?cs),
          su_blocked_command_ids = ?b, su_quarantined = (?b \<noteq> [])\<rparr>"])
      (auto simp: recover_startup_def)
qed

end
