(* ===== verification/Journal_Reachable.thy ===== *)
theory Journal_Reachable
  imports Journal_Recovery
begin

text \<open>
  The journal as a transition system.  A step is one method call with arguments that its
  callers can supply; a state is reachable from the empty journal.  The remaining operations are
  shown to keep the invariant, and the invariant then holds in every reachable state.
\<close>

section \<open>The remaining operations\<close>

lemma keeps_fold_payload:
  "keeps s (s\<lparr>js_commands :=
      foldl (\<lambda>cmds cid. case dict_get cmds cid of
                           None \<Rightarrow> cmds
                         | Some c \<Rightarrow> dict_set cid (c\<lparr>cd_payload := [], jc_terminal_result := None\<rparr>) cmds)
        (js_commands s) ids\<rparr>)"
proof (induction ids arbitrary: s)
  case (Cons cid ids)
  show ?case
  proof (cases "dict_get (js_commands s) cid")
    case None
    with Cons show ?thesis by simp
  next
    case (Some c)
    let ?c = "c\<lparr>cd_payload := [], jc_terminal_result := None\<rparr>"
    let ?s1 = "s\<lparr>js_commands := dict_set cid ?c (js_commands s)\<rparr>"
    have "keeps s ?s1" using Some by (intro keeps_quiet [of s cid c]) (simp_all add: same_identity_def)
    from keeps_trans [OF this Cons [of ?s1]] Some show ?thesis by simp
  qed
qed simp

lemma keeps_expire_payloads:
  assumes "expire_terminal_payloads s before = (s', x)"
  shows "keeps s s'"
proof -
  define ids where
    "ids = remdups (map cd_command_id (filter (payload_expired before) (dict_values (js_commands s))))"
  define kept where "kept = filter (\<lambda>r. ad_command_id r \<notin> set ids) (js_activities s)"
  define s1 where
    "s1 = s\<lparr>js_activities := kept, js_activity_by_source := index_activities kept\<rparr>"
  have k: "keeps s s1" by (rule keeps_frame) (simp add: core_of_def s1_def)
  show ?thesis
    using assms k keeps_trans [OF k keeps_fold_payload [of s1 ids]]
    unfolding expire_terminal_payloads_def Let_def ids_def [symmetric] kept_def [symmetric]
      s1_def [symmetric]
    by (auto split: if_splits)
qed

lemma keeps_append_fact: "append_fact s cid kind payload = (s', x) \<Longrightarrow> keeps s s'"
  by (rule keeps_frame) (auto simp: append_fact_def core_of_def bump_projection_def split: option.splits)

lemma keeps_reserve_step: "reserve_step s st = (s', x) \<Longrightarrow> keeps s s'"
  by (rule keeps_frame) (auto simp: reserve_step_def core_of_def split: if_splits)

lemma keeps_update_step: "update_step_state s sid st = (s', x) \<Longrightarrow> keeps s s'"
  by (rule keeps_frame) (auto simp: update_step_state_def Let_def core_of_def split: option.splits)

lemma keeps_step_receipt: "record_step_receipt s sid r = (s', x) \<Longrightarrow> keeps s s'"
  by (rule keeps_frame) (auto simp: record_step_receipt_def Let_def core_of_def split: option.splits)

lemma keeps_settle_step: "settle_step s sid r u v = (s', x) \<Longrightarrow> keeps s s'"
  by (rule keeps_frame) (auto simp: settle_step_def Let_def core_of_def split: option.splits)

lemma keeps_append_activity: "append_activity s d before = (s', x) \<Longrightarrow> keeps s s'"
  by (rule keeps_frame)
    (auto simp: append_activity_def retain_recent_activity_def Let_def core_of_def
      split: option.splits if_splits)

lemma keeps_expire_activity: "expire_activity s before = (s', n) \<Longrightarrow> keeps s s'"
  by (rule keeps_frame) (auto simp: expire_activity_def Let_def core_of_def)

lemma keeps_stop_barrier:
  assumes a: "apply_stop_barrier s d occ = (s', x)" and occ: "0 \<le> occ"
    and fresh: "cd_command_id d \<notin> set (dict_keys (js_commands s))"
  shows "keeps s s'"
proof (cases "cd_kind d = ''stop'' \<and>
    dict_get (js_requests s) (cd_caller_scope d, cd_request_id d) = None")
  case False
  with a have "s' = s" by (auto simp: apply_stop_barrier_def split: option.splits if_splits)
  then show ?thesis by simp
next
  case True
  show ?thesis
  proof (cases "core_inv s")
    case False
    then show ?thesis by (simp add: keeps_def)
  next
    case inv: True
    with apply_stop_barrier_new [OF inv occ _ fresh] True a show ?thesis by fastforce
  qed
qed

lemma keeps_recover: "recover_startup s occ = (s', x) \<Longrightarrow> 0 \<le> occ \<Longrightarrow> keeps s s'"
  using recover_startup_spec [of s occ] by (cases "core_inv s") (auto simp: keeps_def)

section \<open>Steps and reachable journals\<close>

inductive journal_step :: "journal_state \<Rightarrow> journal_state \<Rightarrow> bool" where
  step_create: "\<lbrakk>command_draft_ok d; cd_command_id d \<notin> set (dict_keys (js_commands s));
     create_command s d = (s', c)\<rbrakk> \<Longrightarrow> journal_step s s'"
| step_transition: "\<lbrakk>0 \<le> occ; transition s cid e t reason actor occ det res = (s', c)\<rbrakk> \<Longrightarrow> journal_step s s'"
| step_expire: "\<lbrakk>0 \<le> now; expire_queued s now = (s', ids)\<rbrakk> \<Longrightarrow> journal_step s s'"
| step_stop: "\<lbrakk>0 \<le> occ; command_draft_ok d; cd_command_id d \<notin> set (dict_keys (js_commands s));
     apply_stop_barrier s d occ = (s', b)\<rbrakk> \<Longrightarrow> journal_step s s'"
| step_recover: "\<lbrakk>0 \<le> occ; recover_startup s occ = (s', r)\<rbrakk> \<Longrightarrow> journal_step s s'"
| step_fact: "append_fact s cid kind payload = (s', u) \<Longrightarrow> journal_step s s'"
| step_reserve: "reserve_step s st = (s', u) \<Longrightarrow> journal_step s s'"
| step_update: "update_step_state s sid v = (s', e) \<Longrightarrow> journal_step s s'"
| step_receipt: "record_step_receipt s sid r = (s', e) \<Longrightarrow> journal_step s s'"
| step_settle: "settle_step s sid r used reserved = (s', e) \<Longrightarrow> journal_step s s'"
| step_activity: "\<lbrakk>activity_draft_ok a; append_activity s a before = (s', y)\<rbrakk> \<Longrightarrow> journal_step s s'"
| step_expire_activity: "expire_activity s t = (s', k) \<Longrightarrow> journal_step s s'"
| step_expire_payloads: "expire_terminal_payloads s t = (s', m) \<Longrightarrow> journal_step s s'"
| step_session: "journal_step s (begin_session s)"
| step_shutdown: "journal_step s (begin_shutdown s)"

inductive journal_reachable :: "int \<Rightarrow> journal_state \<Rightarrow> bool" for capacity where
  reach_empty: "journal_reachable capacity (empty_journal capacity)"
| reach_step: "journal_reachable capacity s \<Longrightarrow> journal_step s s' \<Longrightarrow> journal_reachable capacity s'"

lemma journal_step_keeps: "journal_step s s' \<Longrightarrow> keeps s s'"
proof (induction rule: journal_step.induct)
  case (step_create d s s' c)
  then show ?case by (intro keeps_create [of s d s' c]) (auto simp: command_draft_ok_def)
next
  case step_session
  show ?case by (rule keeps_frame) (simp add: core_of_def begin_session_def)
next
  case step_shutdown
  show ?case by (rule keeps_frame) (simp add: core_of_def begin_shutdown_def)
qed (auto intro: keeps_transition keeps_expire_queued keeps_stop_barrier keeps_recover
    keeps_append_fact keeps_reserve_step keeps_update_step keeps_step_receipt keeps_settle_step
    keeps_append_activity keeps_expire_activity keeps_expire_payloads)

lemma journal_reachable_core_inv: "journal_reachable n s \<Longrightarrow> core_inv s"
  by (induction rule: journal_reachable.induct)
    (auto simp: core_inv_empty keeps_def dest: journal_step_keeps)

lemma journal_steps_extend:
  assumes "journal_reachable n s" and "journal_step\<^sup>*\<^sup>* s s'"
  shows "journal_reachable n s' \<and> journal_extends s s'"
  using assms(2,1)
proof (induction rule: rtranclp_induct)
  case (step t u)
  then have "journal_reachable n t" "journal_extends s t" by simp_all
  moreover have "journal_extends t u"
    using journal_step_keeps [OF step.hyps(2)] journal_reachable_core_inv [OF calculation(1)]
    by (simp add: keeps_def)
  ultimately show ?case using step.hyps(2) by (blast intro: reach_step journal_extends_trans)
qed simp

lemma journal_reachable_capacity: "journal_reachable n s \<Longrightarrow> js_queue_capacity s = n"
proof (induction rule: journal_reachable.induct)
  case reach_empty
  show ?case by (simp add: empty_journal_def)
next
  case (reach_step s s')
  with journal_step_keeps [OF reach_step.hyps(2)] journal_reachable_core_inv [OF reach_step.hyps(1)]
  show ?case by (simp add: keeps_def journal_extends_def)
qed

end
