(* ===== verification/Journal_Examples.thy ===== *)
theory Journal_Examples
  imports Journal_Reachable
begin

text \<open>
  Concrete journals, reached by method calls from the empty journal, on which the properties
  are evaluated: two queued execute commands of one caller, the first of them then run until
  its outcome is unknown.
\<close>

definition example_draft :: "string \<Rightarrow> string \<Rightarrow> int option \<Rightarrow> command_draft" where
  "example_draft cid kind deadline =
     \<lparr>cd_command_id = cid, cd_caller_scope = ''owner'', cd_request_id = ''r-'' @ cid,
      cd_request_hash = replicate 64 CHR ''a'', cd_kind = kind, cd_mode = None,
      cd_payload = [(''goal'', JStr ''dig'')], cd_requested_budget = [], cd_effective_budget = [],
      cd_accepted_at_ms = 10, cd_queue_deadline_ms = deadline, cd_execution_deadline_ms = None\<rparr>"

definition example_one :: journal_state where
  "example_one = fst (create_command (empty_journal 2) (example_draft ''a'' ''execute'' (Some 50)))"

definition example_two :: journal_state where
  "example_two = fst (create_command example_one (example_draft ''b'' ''execute'' None))"

definition example_running :: journal_state where
  "example_running =
     fst (transition example_two ''a'' 0 RUNNING ''CLAIMED'' ''worker'' 20 None None)"

definition example_blocked :: journal_state where
  "example_blocked =
     fst (transition example_running ''a'' 1 BLOCKED_UNKNOWN ''LOST'' ''worker'' 30 None None)"

definition example_activity :: "string \<Rightarrow> activity_phase \<Rightarrow> activity_draft" where
  "example_activity key phase =
     \<lparr>ad_source_key = key, ad_command_id = ''a'', ad_caller_scope = ''owner'', ad_mission_id = None,
      ad_payload = \<lparr>ap_phase = phase, ap_intent = Some ITravel, ap_focus = None, ap_progress = None,
                    ap_outcome = (if phase = Finished then OSucceeded else OActive)\<rparr>,
      ad_occurred_at_ms = 25\<rparr>"

definition example_fed :: journal_state where
  "example_fed =
     fst (append_activity (fst (append_activity example_running (example_activity ''k1'' Planning) None))
            (example_activity ''k2'' Finished) None)"

definition example_a :: journal_command where
  "example_a = queued_command (example_draft ''a'' ''execute'' (Some 50)) 1"

definition example_b :: journal_command where
  "example_b = queued_command (example_draft ''b'' ''execute'' None) 2"

lemma example_draft_ok:
  "command_draft_ok (example_draft ''a'' ''execute'' (Some 50))"
  "command_draft_ok (example_draft ''b'' ''execute'' None)"
  "command_draft_ok (example_draft ''s'' ''stop'' None)"
  by code_simp+

lemma example_fresh:
  "cd_command_id (example_draft ''a'' ''execute'' (Some 50)) \<notin> set (dict_keys (js_commands (empty_journal 2)))"
  "cd_command_id (example_draft ''b'' ''execute'' None) \<notin> set (dict_keys (js_commands example_one))"
  by code_simp+

lemma create_step:
  assumes "journal_reachable n s" and "command_draft_ok d"
    and "cd_command_id d \<notin> set (dict_keys (js_commands s))"
  shows "journal_reachable n (fst (create_command s d))"
  by (rule reach_step [OF assms(1) step_create [OF assms(2,3) surjective_pairing]])

lemma transition_step:
  assumes "journal_reachable n s" and "0 \<le> occ"
  shows "journal_reachable n (fst (transition s cid e t reason actor occ det res))"
  by (rule reach_step [OF assms(1) step_transition [OF assms(2) surjective_pairing]])

lemma activity_step:
  assumes "journal_reachable n s" and "activity_draft_ok d"
  shows "journal_reachable n (fst (append_activity s d before))"
  by (rule reach_step [OF assms(1) step_activity [OF assms(2) surjective_pairing]])

lemma example_reachable:
  "journal_reachable 2 example_one" "journal_reachable 2 example_two"
  "journal_reachable 2 example_running" "journal_reachable 2 example_blocked"
  "journal_reachable 2 example_fed"
proof -
  show one: "journal_reachable 2 example_one"
    unfolding example_one_def by (rule create_step [OF reach_empty example_draft_ok(1) example_fresh(1)])
  show two: "journal_reachable 2 example_two"
    unfolding example_two_def by (rule create_step [OF one example_draft_ok(2) example_fresh(2)])
  show run: "journal_reachable 2 example_running"
    unfolding example_running_def using two by (rule transition_step) simp
  have "activity_draft_ok (example_activity ''k1'' Planning)"
    "activity_draft_ok (example_activity ''k2'' Finished)" by code_simp+
  then show "journal_reachable 2 example_fed"
    unfolding example_fed_def by (intro activity_step run)
  show "journal_reachable 2 example_blocked"
    unfolding example_blocked_def using run by (rule transition_step) simp
qed

lemma example_steps: "journal_step\<^sup>*\<^sup>* example_one example_running"
proof -
  have "journal_step example_one example_two"
    using step_create [OF example_draft_ok(2) example_fresh(2) surjective_pairing]
    by (simp add: example_two_def)
  moreover have "journal_step example_two example_running"
    using step_transition [OF _ surjective_pairing, of 20] by (simp add: example_running_def)
  ultimately show ?thesis by simp
qed

lemma example_get:
  "get_command example_one ''a'' = Some example_a"
  "get_command example_two ''a'' = Some example_a"
  "get_command example_two ''b'' = Some example_b"
  "get_command example_running ''a'' = Some (transitioned example_a RUNNING 20 None)"
  "get_command example_blocked ''a'' =
     Some (transitioned (transitioned example_a RUNNING 20 None) BLOCKED_UNKNOWN 30 None)"
  "jc_state (transitioned (transitioned example_a RUNNING 20 None) BLOCKED_UNKNOWN 30 None) = BLOCKED_UNKNOWN"
  by code_simp+

end
