(* ===== verification/Journal_Feed.thy ===== *)
theory Journal_Feed
  imports Journal_Examples
begin

text \<open>
  The public activity feed of the journal: its order, its index by source key, idempotent
  appending, and what retention keeps.
\<close>

section \<open>The invariant of the feed\<close>

definition feed_order :: "activity_record \<Rightarrow> activity_record \<Rightarrow> bool" where
  "feed_order r r' \<longleftrightarrow>
     ar_sequence r < ar_sequence r' \<and> ad_source_key r \<noteq> ad_source_key r' \<and>
     (ad_command_id r = ad_command_id r' \<and> ap_phase (ad_payload r) = Finished \<longrightarrow>
        ap_phase (ad_payload r') = Finished)"

definition feed_indexed :: "activity_record list \<Rightarrow> (string, activity_record) dict \<Rightarrow> bool" where
  "feed_indexed rs d \<longleftrightarrow> (\<forall>k r. dict_get d k = Some r \<longleftrightarrow> r \<in> set rs \<and> ad_source_key r = k)"

definition feed_inv :: "journal_state \<Rightarrow> bool" where
  "feed_inv s \<longleftrightarrow>
     sorted_wrt feed_order (js_activities s) \<and>
     (\<forall>r\<in>set (js_activities s). 0 < ar_sequence r \<and> ar_sequence r \<le> js_activity_sequence s) \<and>
     0 \<le> js_activity_sequence s \<and>
     feed_indexed (js_activities s) (js_activity_by_source s)"

lemma feed_order_keys: "sorted_wrt feed_order rs \<Longrightarrow> distinct (map ad_source_key rs)"
  by (induction rs) (force simp: feed_order_def)+

lemma index_activities_snoc:
  "index_activities (rs @ [r]) = dict_set (ad_source_key r) r (index_activities rs)"
  by (simp add: index_activities_def)

lemma index_activities_indexed:
  "distinct (map ad_source_key rs) \<Longrightarrow> feed_indexed rs (index_activities rs)"
proof (induction rs rule: rev_induct)
  case Nil
  show ?case by (simp add: feed_indexed_def index_activities_def)
next
  case (snoc r rs)
  then have "feed_indexed rs (index_activities rs)" "ad_source_key r \<notin> ad_source_key ` set rs" by simp_all
  then show ?case by (auto simp: feed_indexed_def index_activities_snoc dict_get_set intro: rev_image_eqI)
qed

lemma feed_inv_filter:
  assumes "feed_inv s"
  shows "feed_inv (s\<lparr>js_activities := filter P (js_activities s),
                    js_activity_by_source := index_activities (filter P (js_activities s))\<rparr>)"
proof -
  have "sorted_wrt feed_order (filter P (js_activities s))"
    using assms by (simp add: feed_inv_def sorted_wrt_filter)
  with assms show ?thesis
    by (simp add: feed_inv_def index_activities_indexed feed_order_keys)
qed

lemma feed_inv_retain: "feed_inv s \<Longrightarrow> feed_inv (retain_recent_activity s before k)"
  using feed_inv_filter by (auto simp: retain_recent_activity_def Let_def split: option.splits)

lemma feed_inv_get:
  "feed_inv s \<Longrightarrow> dict_get (js_activity_by_source s) k = Some r \<longleftrightarrow>
     r \<in> set (js_activities s) \<and> ad_source_key r = k"
  by (simp add: feed_inv_def feed_indexed_def)

lemma feed_inv_extend:
  assumes inv: "feed_inv s" and new: "dict_get (js_activity_by_source s) (ad_source_key r) = None"
    and n: "ar_sequence r = js_activity_sequence s + 1"
    and last: "ap_phase (ad_payload r) \<noteq> Finished \<Longrightarrow>
      \<not> list_ex (\<lambda>e. ad_command_id e = ad_command_id r \<and> ap_phase (ad_payload e) = Finished) (js_activities s)"
  shows "feed_inv (s\<lparr>js_activity_sequence := js_activity_sequence s + 1, js_activities := js_activities s @ [r],
     js_activity_by_source := dict_set (ad_source_key r) r (js_activity_by_source s)\<rparr>)"
proof -
  have fresh: "ad_source_key e \<noteq> ad_source_key r" if "e \<in> set (js_activities s)" for e
    using that feed_inv_get [OF inv, of "ad_source_key r" e] new by auto
  have "feed_order e r" if e: "e \<in> set (js_activities s)" for e
    using e inv n last fresh [OF e] by (fastforce simp: feed_order_def feed_inv_def list_ex_iff)
  moreover have "feed_indexed (js_activities s @ [r]) (dict_set (ad_source_key r) r (js_activity_by_source s))"
    using inv fresh by (auto simp: feed_inv_def feed_indexed_def dict_get_set)
  ultimately show ?thesis
    using inv n by (auto simp: feed_inv_def sorted_wrt_append)
qed

lemma feed_inv_append_activity:
  assumes "append_activity s d before = (s', x)" and "feed_inv s"
  shows "feed_inv s'"
proof (cases "dict_get (js_activity_by_source s) (ad_source_key d)")
  case (Some r)
  with assms show ?thesis by (auto simp: append_activity_def feed_inv_retain split: if_splits)
next
  case None
  let ?r = "activity_record_of d (js_activity_sequence s + 1)"
  from None assms show ?thesis
    using feed_inv_retain [OF feed_inv_extend [OF assms(2), of ?r]]
    by (auto simp: append_activity_def Let_def split: if_splits)
qed

section \<open>Operations that leave the feed alone\<close>

definition aside_of where
  "aside_of s = (js_activities s, js_activity_by_source s, js_activity_sequence s, js_steps s)"

lemma feed_inv_frame: "aside_of s' = aside_of s \<Longrightarrow> feed_inv s' = feed_inv s"
  by (simp add: aside_of_def feed_inv_def)

named_theorems feed_frame \<open>operations that do not touch the activity feed\<close>

lemma feed_append_transition [feed_frame]:
  "append_transition s c f reason actor occ det = (s', x) \<Longrightarrow> aside_of s' = aside_of s"
  by (auto simp: append_transition_def aside_of_def Let_def split: if_splits)

lemma feed_bump [simp]: "aside_of (bump_projection s) = aside_of s"
  by (simp add: bump_projection_def aside_of_def)

lemma feed_set_commands [simp]: "aside_of (s\<lparr>js_commands := cmds\<rparr>) = aside_of s"
  "aside_of (s\<lparr>js_accepting_execute := b\<rparr>) = aside_of s"
  by (simp_all add: aside_of_def)

lemma feed_insert [feed_frame]: "insert_command s d = (s', c) \<Longrightarrow> aside_of s' = aside_of s"
  by (auto simp: insert_command_def aside_of_def Let_def)

lemma feed_create [feed_frame]: "create_command s d = (s', x) \<Longrightarrow> aside_of s' = aside_of s"
  by (auto simp: create_command_def feed_frame dest!: feed_frame split: option.splits if_splits prod.splits sum.splits)

lemma feed_transition [feed_frame]:
  "transition s cid e t reason actor occ det res = (s', x) \<Longrightarrow> aside_of s' = aside_of s"
  by (auto simp: transition_def Let_def dest!: feed_frame split: option.splits if_splits prod.splits sum.splits)

lemma feed_expire_loop: "expire_loop s now cs ids = (s', x) \<Longrightarrow> aside_of s' = aside_of s"
  by (induction s now cs ids arbitrary: s' x rule: expire_loop.induct)
    (auto dest!: feed_transition split: prod.splits sum.splits jerror.splits)

lemma feed_stop_loop: "stop_loop s occ cs a b = (s', x) \<Longrightarrow> aside_of s' = aside_of s"
  by (induction s occ cs a b arbitrary: s' x rule: stop_loop.induct)
    (auto simp: Let_def dest!: feed_append_transition split: prod.splits sum.splits if_splits)

lemma feed_recover_loop: "recover_loop s occ cs a b = (s', x) \<Longrightarrow> aside_of s' = aside_of s"
  by (induction s occ cs a b arbitrary: s' x rule: recover_loop.induct)
    (auto dest!: feed_transition split: prod.splits sum.splits if_splits)

lemma feed_stop_barrier [feed_frame]: "apply_stop_barrier s d occ = (s', x) \<Longrightarrow> aside_of s' = aside_of s"
  by (auto simp: apply_stop_barrier_def Let_def dest!: feed_stop_loop feed_insert feed_append_transition
      split: option.splits if_splits prod.splits sum.splits)

lemma feed_recover [feed_frame]: "recover_startup s occ = (s', x) \<Longrightarrow> aside_of s' = aside_of s"
  by (auto simp: recover_startup_def dest!: feed_recover_loop split: prod.splits sum.splits if_splits)

lemma feed_expire_queued [feed_frame]: "expire_queued s now = (s', x) \<Longrightarrow> aside_of s' = aside_of s"
  by (auto simp: expire_queued_def dest!: feed_expire_loop)

lemma feed_fact [feed_frame]: "append_fact s cid kind p = (s', x) \<Longrightarrow> aside_of s' = aside_of s"
  by (auto simp: append_fact_def aside_of_def bump_projection_def split: option.splits)

lemma feed_inv_steps:
  "reserve_step s st = (s', x) \<Longrightarrow> feed_inv s' = feed_inv s"
  "update_step_state s sid v = (s', y) \<Longrightarrow> feed_inv s' = feed_inv s"
  "record_step_receipt s sid r = (s', y) \<Longrightarrow> feed_inv s' = feed_inv s"
  "settle_step s sid r u w = (s', y) \<Longrightarrow> feed_inv s' = feed_inv s"
  by (auto simp: reserve_step_def update_step_state_def record_step_receipt_def settle_step_def Let_def
      feed_inv_def split: option.splits if_splits)

lemma feed_inv_expire_payloads:
  "expire_terminal_payloads s t = (s', x) \<Longrightarrow> feed_inv s \<Longrightarrow> feed_inv s'"
  by (auto simp: expire_terminal_payloads_def Let_def feed_inv_frame [OF feed_set_commands(1)]
      feed_inv_filter split: if_splits)

lemma feed_inv_step: "journal_step s s' \<Longrightarrow> feed_inv s \<Longrightarrow> feed_inv s'"
proof (induction rule: journal_step.induct)
  case (step_activity a s before s' y)
  then show ?case by (blast intro: feed_inv_append_activity)
next
  case (step_expire_activity s t s' k)
  then show ?case using feed_inv_filter by (auto simp: expire_activity_def Let_def)
next
  case (step_expire_payloads s t s' m)
  then show ?case by (blast intro: feed_inv_expire_payloads)
qed (auto simp: begin_session_def begin_shutdown_def feed_inv_frame [OF feed_set_commands(2)]
    feed_inv_steps dest!: feed_frame dest: feed_inv_frame)

lemma journal_reachable_feed_inv: "journal_reachable n s \<Longrightarrow> feed_inv s"
proof (induction rule: journal_reachable.induct)
  case reach_empty
  show ?case by (simp add: feed_inv_def empty_journal_def feed_indexed_def)
qed (rule feed_inv_step)

end
