(* ===== verification/Paging.thy ===== *)
theory Paging
  imports Journal_Control
begin

text \<open>
  Reading a sequence page by page.  A store orders its entries by a key and answers a read with
  one page and a cursor, the encoded key of the last entry of the page, when more entries follow.
  The locale \<open>keyed_store\<close> states this contract; the client is the loop that follows the cursors,
  and the theorem is that the loop sees every entry once.  \<open>cursor_store\<close> is the contract of the
  command journal, whose keys are sequence numbers; it is an instance of the first.
\<close>

text \<open>A client that follows the cursors, with fuel for the number of pages.\<close>

fun read_all ::
  "nat \<Rightarrow> (string option \<Rightarrow> 'e + 'a list \<times> string option) \<Rightarrow> string option \<Rightarrow> 'e + 'a list" where
  "read_all 0 rd cursor = Inr []"
| "read_all (Suc fuel) rd cursor =
     (case rd cursor of
        Inl e \<Rightarrow> Inl e
      | Inr (page, next_cursor) \<Rightarrow>
          (case next_cursor of
             None \<Rightarrow> Inr page
           | Some c \<Rightarrow>
               (case read_all fuel rd (Some c) of
                  Inl e \<Rightarrow> Inl e
                | Inr rest \<Rightarrow> Inr (page @ rest))))"

definition projection_read ::
  "journal_state \<Rightarrow> string \<Rightarrow> int \<Rightarrow> string option \<Rightarrow> jerror + journal_command list \<times> string option" where
  "projection_read s scope limit cursor =
     (case read_projection s scope limit cursor of
        Inl e \<Rightarrow> Inl e | Inr p \<Rightarrow> Inr (pp_commands p, pp_next_cursor p))"

definition feed_read ::
  "journal_state \<Rightarrow> string \<Rightarrow> int \<Rightarrow> string option \<Rightarrow> jerror + activity_record list \<times> string option" where
  "feed_read s scope limit cursor =
     (case read_activity s scope limit cursor of
        Inl e \<Rightarrow> Inl e | Inr p \<Rightarrow> Inr (ap_records p, ap_next_cursor p))"

definition scope_activities_after :: "journal_state \<Rightarrow> string \<Rightarrow> int \<Rightarrow> activity_record list" where
  "scope_activities_after s scope after =
     filter (\<lambda>r. ad_caller_scope r = scope \<and> after < ar_sequence r) (js_activities s)"

lemma filter_after_take:
  fixes f :: "'a \<Rightarrow> 'k::linorder"
  assumes "sorted_wrt (<) (map f xs)" and "0 < k" and "k \<le> length xs"
  shows "filter (\<lambda>x. f (last (take k xs)) < f x) xs = drop k xs"
proof -
  have t: "take k xs \<noteq> []" using assms by auto
  have split: "sorted_wrt (<) (map f (take k xs) @ map f (drop k xs))"
    using assms(1) by (metis append_take_drop_id map_append)
  have "filter (\<lambda>x. f (last (take k xs)) < f x) (take k xs) = []"
  proof -
    have "f x \<le> f (last (take k xs))" if "x \<in> set (take k xs)" for x
    proof -
      obtain ys z where yz: "take k xs = ys @ [z]" using t by (metis rev_exhaust)
      with split have "\<forall>y\<in>set ys. f y < f z" by (simp add: sorted_wrt_append)
      with that yz show ?thesis by auto
    qed
    then show ?thesis by (fastforce simp: filter_empty_conv)
  qed
  moreover have "filter (\<lambda>x. f (last (take k xs)) < f x) (drop k xs) = drop k xs"
    using split t by (simp add: sorted_wrt_append filter_id_conv)
  ultimately show ?thesis by (metis append_take_drop_id filter_append self_append_conv2)
qed

locale keyed_store =
  fixes valid :: "'s \<Rightarrow> bool"
    and key :: "'a \<Rightarrow> 'k::linorder"
    and start :: 'k
    and encode :: "'k \<Rightarrow> string"
    and decode :: "string option \<Rightarrow> 'e + 'k"
    and after :: "'s \<Rightarrow> string \<Rightarrow> 'k \<Rightarrow> 'a list"
    and rd :: "'s \<Rightarrow> string \<Rightarrow> int \<Rightarrow> string option \<Rightarrow> 'e + 'a list \<times> string option"
  assumes after_sorted: "valid s \<Longrightarrow> sorted_wrt (<) (map key (after s scope a))"
    and after_above: "x \<in> set (after s scope a) \<Longrightarrow> a < key x"
    and after_later: "\<lbrakk>valid s; a \<le> b\<rbrakk> \<Longrightarrow> after s scope b = filter (\<lambda>x. b < key x) (after s scope a)"
    and decode_encode: "\<lbrakk>valid s; start \<le> a; x \<in> set (after s scope a)\<rbrakk> \<Longrightarrow>
      decode (Some (encode (key x))) = Inr (key x)"
    and page: "\<lbrakk>1 \<le> limit; limit \<le> 100; decode cursor = Inr a\<rbrakk> \<Longrightarrow>
      rd s scope limit cursor =
        Inr (take (nat limit) (after s scope a),
             if nat limit < length (after s scope a)
             then Some (encode (key (last (take (nat limit) (after s scope a))))) else None)"
begin

lemma rest_after_page:
  assumes "valid s" and "0 < k" and "k \<le> length (after s scope a)"
  defines "x \<equiv> last (take k (after s scope a))"
  shows "after s scope (key x) = drop k (after s scope a)"
    and "a < key x" and "x \<in> set (after s scope a)"
proof -
  have "take k (after s scope a) \<noteq> []" using assms by auto
  then show x: "x \<in> set (after s scope a)" unfolding x_def by (meson in_set_takeD last_in_set)
  then show b: "a < key x" by (rule after_above)
  show "after s scope (key x) = drop k (after s scope a)"
    using after_later [OF assms(1) less_imp_le [OF b]]
      filter_after_take [OF after_sorted [OF assms(1)] assms(2,3)]
    by (simp add: x_def)
qed

theorem pages_complete:
  assumes "valid s" and limit: "1 \<le> limit" "limit \<le> 100"
    and "decode cursor = Inr a" and "start \<le> a" and "length (after s scope a) < fuel"
  shows "read_all fuel (rd s scope limit) cursor = Inr (after s scope a)"
  using assms(4-6)
proof (induction fuel arbitrary: cursor a)
  case (Suc fuel)
  let ?xs = "after s scope a" and ?k = "nat limit"
  show ?case
  proof (cases "?k < length ?xs")
    case False
    then show ?thesis using page [OF limit Suc.prems(1), of s scope] by simp
  next
    case True
    let ?b = "key (last (take ?k ?xs))"
    have k: "0 < ?k" "?k \<le> length ?xs" using True limit by auto
    note rest = rest_after_page [OF assms(1) k]
    have c: "decode (Some (encode ?b)) = Inr ?b"
      by (rule decode_encode [OF assms(1) Suc.prems(2) rest(3)])
    have "start \<le> ?b" using rest(2) Suc.prems(2) by simp
    then have "read_all fuel (rd s scope limit) (Some (encode ?b)) = Inr (drop ?k ?xs)"
      using Suc.IH [OF c] Suc.prems(3) k rest(1) by simp
    then show ?thesis using True page [OF limit Suc.prems(1), of s scope] by simp
  qed
qed simp

end

locale cursor_store =
  fixes valid :: "'s \<Rightarrow> bool"
    and seq :: "'a \<Rightarrow> int"
    and after :: "'s \<Rightarrow> string \<Rightarrow> int \<Rightarrow> 'a list"
    and rd :: "'s \<Rightarrow> string \<Rightarrow> int \<Rightarrow> string option \<Rightarrow> jerror + 'a list \<times> string option"
  assumes seq_sorted: "valid s \<Longrightarrow> sorted_wrt (<) (map seq (after s scope a))"
    and seq_above: "x \<in> set (after s scope a) \<Longrightarrow> a < seq x"
    and seq_later: "a \<le> b \<Longrightarrow> after s scope b = filter (\<lambda>x. b < seq x) (after s scope a)"
    and seq_page: "\<lbrakk>1 \<le> limit; limit \<le> 100; cursor_value cursor = Inr a\<rbrakk> \<Longrightarrow>
      rd s scope limit cursor =
        Inr (take (nat limit) (after s scope a),
             if nat limit < length (after s scope a)
             then Some (str_of_int (seq (last (take (nat limit) (after s scope a))))) else None)"

sublocale cursor_store \<subseteq> keyed_store valid seq "0::int" str_of_int cursor_value after rd
proof unfold_locales
  show "cursor_value (Some (str_of_int (seq x))) = Inr (seq x)"
    if "valid s" "0 \<le> a" "x \<in> set (after s scope a)" for s a x scope
  proof -
    have "0 \<le> seq x" using seq_above [OF that(3)] that(2) by simp
    then show ?thesis by (simp add: cursor_value_def str_of_int_def int_of_str_of_nat)
  qed
qed (use seq_sorted seq_above seq_later seq_page in \<open>blast+\<close>)

end
