(* ===== verification/Journal_Properties.thy ===== *)
theory Journal_Properties
  imports Journal_Feed Paging
begin

text \<open>
  What the journal promises its callers: the audit trail, idempotent acceptance, the bounded
  FIFO queue, queue deadlines, the stop barrier, recovery, complete paging, and the fate of
  payloads under retention.
\<close>

section \<open>Expiring the queue\<close>

lemma expire_loop_spec:
  assumes "core_inv s" and now: "0 \<le> now"
    and "\<And>c. c \<in> set cs \<Longrightarrow> dict_get (js_commands s) (cd_command_id c) = Some c \<and> jc_state c = QUEUED"
    and "distinct (map cd_command_id cs)"
  shows "\<exists>s'. expire_loop s now cs ids = (s', Inr (ids @ map cd_command_id cs)) \<and> keeps s s' \<and>
    (\<forall>c\<in>set cs. dict_get (js_commands s') (cd_command_id c) = Some (transitioned c FAILED now None)) \<and>
    (\<forall>k. k \<notin> cd_command_id ` set cs \<longrightarrow> dict_get (js_commands s') k = dict_get (js_commands s) k)"
  using assms(1,3,4)
proof (induction cs arbitrary: s ids)
  case Nil
  then show ?case by simp
next
  case (Cons c cs)
  let ?id = "cd_command_id c"
  have get: "dict_get (js_commands s) ?id = Some c" and q: "jc_state c = QUEUED"
    using Cons.prems(2) by simp_all
  obtain s1 where t: "transition s ?id (jc_state_version c) FAILED ''QUEUE_DEADLINE_EXPIRED''
        ''worker'' now None None = (s1, Inr (transitioned c FAILED now None))"
    and s1: "sets_command s ?id (transitioned c FAILED now None) s1"
    using transition_current [OF Cons.prems(1) now get, of FAILED None "''QUEUE_DEADLINE_EXPIRED''"
        "''worker''" None] q by (auto simp: validate_transition_def)
  have inv1: "core_inv s1" using s1 Cons.prems(1) by (simp add: sets_command_def keeps_def)
  have rest: "dict_get (js_commands s1) (cd_command_id d) = Some d \<and> jc_state d = QUEUED"
    if "d \<in> set cs" for d
    using that Cons.prems(2,3) s1 by (auto simp: sets_command_def rev_image_eqI)
  have dist: "distinct (map cd_command_id cs)" using Cons.prems(3) by simp
  obtain s' where s': "expire_loop s1 now cs (ids @ [?id]) = (s', Inr ((ids @ [?id]) @ map cd_command_id cs))"
    "keeps s1 s'"
    "\<forall>c\<in>set cs. dict_get (js_commands s') (cd_command_id c) = Some (transitioned c FAILED now None)"
    "\<forall>k. k \<notin> cd_command_id ` set cs \<longrightarrow> dict_get (js_commands s') k = dict_get (js_commands s1) k"
    using Cons.IH [OF inv1 rest dist, of "ids @ [?id]"] by blast
  show ?case
    using s' s1 t Cons.prems(3)
    by (intro exI [of _ s']) (auto simp: sets_command_def intro: keeps_trans)
qed

lemma commands_distinct_ids:
  assumes "core_inv s"
  shows "distinct (map cd_command_id (filter P (dict_values (js_commands s))))"
proof -
  have "distinct (map cd_command_id (dict_values (js_commands s)))"
    using commands_snapshot [OF core_invD(1) [OF assms]] core_invD(1) [OF assms]
    by (simp only:) (simp add: commands_inv_def)
  then show ?thesis by (rule distinct_map_filter)
qed

lemma command_get_value:
  "core_inv s \<Longrightarrow> dict_get (js_commands s) k = Some c \<longleftrightarrow>
     c \<in> set (dict_values (js_commands s)) \<and> cd_command_id c = k"
  using commands_inv_values [OF core_invD(1), of s c] commands_invD(2) [OF core_invD(1), of s k c]
  by (force dest: map_of_SomeD)

lemma expired_failed: "\<not> expired now (transitioned c FAILED now None)"
  by (simp add: expired_def transitioned_def)

section \<open>Properties\<close>

text \<open>
  C1. Audit trail.  In every reachable journal the transitions recorded for a command form an
  unbroken chain: they start with the acceptance into QUEUED, each one leaves the state the one
  before it entered and is a legal edge of the table, the versions are 0, 1, ..., the command's
  version, and the last one entered the state that the command has; a terminal command carries
  its time.
\<close>

theorem journal_audit_trail:
  assumes "journal_reachable n s" and "get_command s cid = Some c"
  shows "audit_ok c (command_log s cid) \<and> cd_command_id c = cid \<and>
    (terminal_command_state (jc_state c) \<longrightarrow> jc_terminal_at_ms c \<noteq> None)"
  using commands_invD [OF core_invD(1) [OF journal_reachable_core_inv [OF assms(1)]]] assms(2)
  by (simp add: get_command_def)

theorem journal_audit_trail_witness:
  "audit_ok (transitioned (transitioned example_a RUNNING 20 None) BLOCKED_UNKNOWN 30 None)
     (command_log example_blocked ''a'') \<and> length (command_log example_blocked ''a'') = 3"
proof -
  have "length (command_log example_blocked ''a'') = 3" by code_simp
  then show ?thesis using journal_audit_trail [OF example_reachable(4) example_get(5)] by blast
qed

text \<open>
  C2. Commands are never lost and final states are final: whatever the journal does afterwards,
  a command keeps its identity, its audit trail only grows, its state moves along legal edges,
  and a command in a state without successors keeps state and version.
\<close>

theorem journal_final_states_stay:
  assumes "journal_reachable n s" and "journal_step\<^sup>*\<^sup>* s s'" and "get_command s cid = Some c"
  shows "\<exists>c'. get_command s' cid = Some c' \<and> same_identity c c' \<and>
    prefix (command_log s cid) (command_log s' cid) \<and>
    validate_transition\<^sup>*\<^sup>* (jc_state c) (jc_state c') \<and>
    (final_state (jc_state c) \<longrightarrow>
       jc_state c' = jc_state c \<and> jc_state_version c' = jc_state_version c)"
proof -
  have ext: "journal_extends s s'" using journal_steps_extend [OF assms(1,2)] by simp
  then obtain c' where c': "dict_get (js_commands s') cid = Some c'" and ev: "evolves c c'"
    using assms(3) unfolding journal_extends_def get_command_def by blast
  have "prefix (js_transitions s) (js_transitions s')" using ext by (simp add: journal_extends_def)
  then have "prefix (command_log s cid) (command_log s' cid)"
    by (auto simp: command_log_def prefix_def)
  moreover have "same_identity c c'" "validate_transition\<^sup>*\<^sup>* (jc_state c) (jc_state c')"
    "final_state (jc_state c) \<Longrightarrow> jc_state_version c' = jc_state_version c"
    using ev by (simp_all add: evolves_def)
  ultimately show ?thesis using c' evolves_final [OF ev] by (auto simp: get_command_def)
qed

theorem journal_final_states_stay_witness:
  "\<exists>c'. get_command example_running ''a'' = Some c' \<and> same_identity example_a c' \<and>
     prefix (command_log example_one ''a'') (command_log example_running ''a'')"
  using journal_final_states_stay [OF example_reachable(1) example_steps example_get(1)] by blast

text \<open>
  Idempotent acceptance.  Once a command was accepted, every later submission with the same
  caller scope and request identity, whatever happened in between, returns that command as a
  reuse and changes nothing when the request hash agrees, and raises the conflict when it does
  not.
\<close>

lemma create_command_idempotent:
  assumes reach: "journal_reachable n s" and draft: "command_draft_ok d"
    and fresh: "cd_command_id d \<notin> set (dict_keys (js_commands s))"
    and create: "create_command s d = (s1, Inr (c, reused))"
    and later: "journal_step\<^sup>*\<^sup>* s1 s2"
    and key: "cd_caller_scope d' = cd_caller_scope d" "cd_request_id d' = cd_request_id d"
  shows "\<exists>c'. evolves c c' \<and>
    create_command s2 d' =
      (if cd_request_hash d' = cd_request_hash d then (s2, Inr (c', True))
       else (s2, Inl IdempotencyConflictError))"
proof -
  let ?k = "(cd_caller_scope d, cd_request_id d)"
  have step: "journal_step s s1" using draft fresh create by (rule step_create)
  then have reach1: "journal_reachable n s1" using reach by (rule reach_step [rotated])
  have "\<exists>cid. dict_get (js_requests s1) ?k = Some (cd_request_hash d, cid) \<and>
      dict_get (js_commands s1) cid = Some c"
  proof (cases "dict_get (js_requests s) ?k")
    case (Some p)
    with create show ?thesis
      by (cases p) (auto simp: create_command_def split: if_splits option.splits)
  next
    case None
    obtain s0 c0 where ins: "insert_command s d = (s0, c0)" by (cases "insert_command s d")
    note ic = insert_command_sel [OF ins fresh]
    obtain s9 r where app: "append_transition s0 c0 None ''ACCEPTED'' ''gateway'' (cd_accepted_at_ms d) None = (s9, r)"
      by (cases "append_transition s0 c0 None ''ACCEPTED'' ''gateway'' (cd_accepted_at_ms d) None")
    have "s1 = bump_projection s9" "c = c0"
      using create None ins app by (auto simp: create_command_def split: if_splits sum.splits)
    then show ?thesis
      using ic append_transition_sel [OF app] fresh [folded dict_get_None_keys]
      by (intro exI [of _ "cd_command_id d"]) (simp add: bump_projection_def map_add_def)
  qed
  then obtain cid where req: "dict_get (js_requests s1) ?k = Some (cd_request_hash d, cid)"
    and get: "dict_get (js_commands s1) cid = Some c" by blast
  have "journal_extends s1 s2" using journal_steps_extend [OF reach1 later] by simp
  then obtain c' where "dict_get (js_requests s2) ?k = Some (cd_request_hash d, cid)"
    "dict_get (js_commands s2) cid = Some c'" "evolves c c'"
    using req get unfolding journal_extends_def by blast
  then show ?thesis using key by (intro exI [of _ c']) (simp add: create_command_def)
qed

lemma create_command_idempotent_example:
  "\<exists>c'. create_command example_running ((example_draft ''b'' ''execute'' None)\<lparr>cd_command_id := ''z''\<rparr>) =
     (example_running, Inr (c', True))"
proof -
  let ?d = "(example_draft ''b'' ''execute'' None)\<lparr>cd_command_id := ''z''\<rparr>"
  have c: "create_command example_one (example_draft ''b'' ''execute'' None) = (example_two, Inr (example_b, False))"
    by code_simp
  have "journal_step example_two example_running"
    using step_transition [OF _ surjective_pairing, of 20] by (simp add: example_running_def)
  then have l: "journal_step\<^sup>*\<^sup>* example_two example_running" by simp
  show ?thesis
    using create_command_idempotent [OF example_reachable(1) example_draft_ok(2) example_fresh(2) c l, of ?d]
    by (auto simp: example_draft_def)
qed

text \<open>
  C3. Bounded queue.  A reachable journal never holds more queued execute commands than its
  capacity, and a new execute command is refused with the capacity error, and nothing else
  changes, exactly when the journal accepts execute commands and the queue is full.
\<close>

theorem journal_queue_bounded:
  assumes "journal_reachable n s" and "cd_kind d = ''execute''"
    and "dict_get (js_requests s) (cd_caller_scope d, cd_request_id d) = None"
  shows "queued_execute_count s \<le> max 0 n \<and>
    (create_command s d = (s, Inl QueueCapacityExceededError) \<longleftrightarrow>
       js_accepting_execute s \<and> n \<le> queued_execute_count s)"
proof -
  have "queued_execute_count s \<le> max 0 n"
    using core_invD(4) [OF journal_reachable_core_inv [OF assms(1)]]
      journal_reachable_capacity [OF assms(1)] by (simp add: capacity_inv_def)
  then show ?thesis
    using assms(2,3) journal_reachable_capacity [OF assms(1)]
    by (auto simp: create_command_def append_transition_def Let_def split: prod.splits)
qed

theorem journal_queue_bounded_witness:
  "create_command example_two (example_draft ''c'' ''execute'' None) = (example_two, Inl QueueCapacityExceededError)"
proof -
  have "cd_kind (example_draft ''c'' ''execute'' None) = ''execute''" by code_simp
  moreover have "dict_get (js_requests example_two)
      (cd_caller_scope (example_draft ''c'' ''execute'' None), cd_request_id (example_draft ''c'' ''execute'' None)) = None"
    by code_simp
  moreover have "js_accepting_execute example_two \<and> 2 \<le> queued_execute_count example_two" by code_simp
  ultimately show ?thesis using journal_queue_bounded [OF example_reachable(2)] by blast
qed

text \<open>
  First in, first out.  \<open>next_eligible\<close> answers with the queued, unexpired execute command
  of the strictly smallest queue sequence, and with nothing exactly when no command is eligible.
\<close>

lemma next_eligible_fifo:
  assumes "journal_reachable n s"
  shows "(next_eligible s now = None \<longleftrightarrow> (\<nexists>cid c. get_command s cid = Some c \<and> eligible now c)) \<and>
    (\<forall>c. next_eligible s now = Some c \<longrightarrow>
       get_command s (cd_command_id c) = Some c \<and> eligible now c \<and>
       (\<forall>cid c'. get_command s cid = Some c' \<and> eligible now c' \<and> cid \<noteq> cd_command_id c \<longrightarrow>
          jc_queue_sequence c < jc_queue_sequence c'))"
proof -
  have inv: "core_inv s" using assms by (rule journal_reachable_core_inv)
  have dist: "distinct (map jc_queue_sequence (dict_values (js_commands s)))"
    using core_invD(1) [OF inv] by (simp add: commands_inv_def strict_sorted_iff del: map_map)
  note get = command_get_value [OF inv]
  have "jc_queue_sequence c < jc_queue_sequence c'"
    if "next_eligible s now = Some c" "get_command s cid = Some c'" "eligible now c'"
      "cid \<noteq> cd_command_id c" for c c' cid
  proof -
    have mem: "c \<in> set (dict_values (js_commands s))" "c' \<in> set (dict_values (js_commands s))"
      using that(1,2) min_by_mem [of jc_queue_sequence] get [of cid c']
      by (fastforce simp: next_eligible_def get_command_def)+
    have "jc_queue_sequence c \<le> jc_queue_sequence c'"
      using that(1,3) mem min_by_le [of jc_queue_sequence "filter (eligible now) (dict_values (js_commands s))" c c']
      by (simp add: next_eligible_def)
    moreover have "c \<noteq> c'" using that(2,4) get [of cid c'] by (auto simp: get_command_def)
    then have "jc_queue_sequence c \<noteq> jc_queue_sequence c'"
      using mem dist by (metis distinct_map inj_onD)
    ultimately show ?thesis by simp
  qed
  moreover have "get_command s (cd_command_id c) = Some c \<and> eligible now c"
    if "next_eligible s now = Some c" for c
    using min_by_mem [OF that [unfolded next_eligible_def]] get by (auto simp: get_command_def)
  moreover have "next_eligible s now = None \<longleftrightarrow> (\<nexists>cid c. get_command s cid = Some c \<and> eligible now c)"
    using get by (auto simp: next_eligible_def filter_empty_conv get_command_def)
  ultimately show ?thesis by blast
qed

text \<open>
  Queue deadlines.  \<open>expire_queued\<close> never raises on a reachable journal: it fails exactly the
  queued execute commands whose deadline has passed, reports them in queue order, leaves every
  other command alone, and afterwards no queued execute command is overdue.
\<close>

lemma expire_queued_exact:
  assumes "journal_reachable n s" and now: "0 \<le> now"
  shows "\<exists>s'. expire_queued s now =
      (s', Inr (map cd_command_id (filter (expired now) (dict_values (js_commands s))))) \<and>
    (\<forall>cid. get_command s' cid =
       map_option (\<lambda>c. if expired now c then transitioned c FAILED now None else c) (get_command s cid)) \<and>
    (\<forall>cid c. get_command s' cid = Some c \<longrightarrow> \<not> expired now c)"
proof -
  let ?cs = "filter (expired now) (dict_values (js_commands s))"
  have inv: "core_inv s" using assms(1) by (rule journal_reachable_core_inv)
  note get = command_get_value [OF inv]
  have cur: "dict_get (js_commands s) (cd_command_id c) = Some c \<and> jc_state c = QUEUED"
    if "c \<in> set ?cs" for c
    using that get by (auto simp: expired_def)
  obtain s' where loop: "expire_loop s now ?cs [] = (s', Inr ([] @ map cd_command_id ?cs))"
    and hit: "\<forall>c\<in>set ?cs. dict_get (js_commands s') (cd_command_id c) = Some (transitioned c FAILED now None)"
    and miss: "\<forall>k. k \<notin> cd_command_id ` set ?cs \<longrightarrow> dict_get (js_commands s') k = dict_get (js_commands s) k"
    using expire_loop_spec [OF inv now cur commands_distinct_ids [OF inv], where ids = "[]"] by blast
  have eff: "get_command s' cid =
      map_option (\<lambda>c. if expired now c then transitioned c FAILED now None else c) (get_command s cid)" for cid
  proof (cases "cid \<in> cd_command_id ` set ?cs")
    case True
    then obtain c where c: "c \<in> set ?cs" "cid = cd_command_id c" by blast
    with hit cur show ?thesis by (simp add: get_command_def)
  next
    case False
    then have "\<not> expired now c" if "get_command s cid = Some c" for c
      using that get [of cid c] by (auto simp: get_command_def)
    with False miss show ?thesis by (cases "get_command s cid") (simp_all add: get_command_def)
  qed
  moreover have "\<not> expired now c" if g: "get_command s' cid = Some c" for cid c
  proof -
    obtain b where "get_command s cid = Some b"
      and "c = (if expired now b then transitioned b FAILED now None else b)"
      using g unfolding eff map_option_eq_Some by blast
    then show ?thesis using expired_failed [of now b] by (cases "expired now b") (simp_all only: if_True if_False simp_thms)
  qed
  moreover have "expire_queued s now = (s', Inr (map cd_command_id ?cs))"
    using loop unfolding expire_queued_def append_Nil .
  ultimately show ?thesis by (intro exI [of _ s'] conjI allI impI)
qed

text \<open>
  C4. The queue is served in order and on time.  In a reachable journal \<open>next_eligible\<close> answers with the queued,
  unexpired execute command of the strictly smallest queue sequence, and with nothing exactly when no
  command is eligible.  \<open>expire_queued\<close> never raises: it fails exactly the queued execute commands whose deadline has passed,
  reports them in queue order, leaves every other command alone, and afterwards no queued execute
  command is overdue.
\<close>

theorem queue_served_in_order:
  assumes "journal_reachable n s" and "0 \<le> now"
  shows "((next_eligible s now = None \<longleftrightarrow> (\<nexists>cid c. get_command s cid = Some c \<and> eligible now c)) \<and>
    (\<forall>c. next_eligible s now = Some c \<longrightarrow>
       get_command s (cd_command_id c) = Some c \<and> eligible now c \<and>
       (\<forall>cid c'. get_command s cid = Some c' \<and> eligible now c' \<and> cid \<noteq> cd_command_id c \<longrightarrow>
          jc_queue_sequence c < jc_queue_sequence c'))) \<and>
    (\<exists>s'. expire_queued s now =
      (s', Inr (map cd_command_id (filter (expired now) (dict_values (js_commands s))))) \<and>
    (\<forall>cid. get_command s' cid =
       map_option (\<lambda>c. if expired now c then transitioned c FAILED now None else c) (get_command s cid)) \<and>
    (\<forall>cid c. get_command s' cid = Some c \<longrightarrow> \<not> expired now c))"
  by (rule conjI [OF next_eligible_fifo [OF assms(1)] expire_queued_exact [OF assms]])

theorem queue_served_in_order_witness:
  "(\<exists>s'. expire_queued example_two 50 = (s', Inr [''a'']) \<and> get_command s' ''b'' = Some example_b) \<and>
   (\<exists>c. next_eligible example_two 50 = Some c \<and> eligible 50 c)"
proof -
  have facts: "map cd_command_id (filter (expired 50) (dict_values (js_commands example_two))) = [''a'']"
    "\<not> expired 50 example_b" "eligible 50 example_b" by code_simp+
  note served = queue_served_in_order [OF example_reachable(2), of 50, OF zero_le_numeral]
  obtain s' where
    "expire_queued example_two 50 =
       (s', Inr (map cd_command_id (filter (expired 50) (dict_values (js_commands example_two)))))"
    "\<forall>cid. get_command s' cid = map_option (\<lambda>c. if expired 50 c then transitioned c FAILED 50 None else c)
       (get_command example_two cid)"
    using served [THEN conjunct2] by blast
  then have "\<exists>s'. expire_queued example_two 50 = (s', Inr [''a'']) \<and> get_command s' ''b'' = Some example_b"
    using facts(1,2) example_get(3) by (intro exI [of _ s']) (simp only: option.map if_False simp_thms)
  moreover have "next_eligible example_two 50 \<noteq> None"
    using served [THEN conjunct1, THEN conjunct1] example_get(3) facts(3) by blast
  ultimately show ?thesis using served [THEN conjunct1, THEN conjunct2] by blast
qed

text \<open>
  The stop barrier.  A fresh stop command always succeeds: every queued execute command is
  cancelled and reported in queue order, every running, reconciling or blocked one carries a
  cancellation request, the last of them is reported as active, all other commands are as they
  were, and from then on a new execute command is refused because admission is closed.
\<close>

lemma stop_barrier_complete:
  assumes reach: "journal_reachable n s" and occ: "0 \<le> occ" and stop: "cd_kind d = ''stop''"
    and fresh: "get_command s (cd_command_id d) = None"
    and new: "dict_get (js_requests s) (cd_caller_scope d, cd_request_id d) = None"
  shows "\<exists>s' b. apply_stop_barrier s d occ = (s', Inr b) \<and>
    sb_cancelled_command_ids b = map fst (filter (queued_execute \<circ> snd) (js_commands s)) \<and>
    sb_active_command_id b = last_active None (js_commands s) \<and>
    get_command s' (cd_command_id d) = Some (sb_stop_command b) \<and>
    (\<forall>cid c. get_command s cid = Some c \<longrightarrow> get_command s' cid = Some (stop_effect occ c)) \<and>
    (\<forall>cid c. get_command s' cid = Some c \<longrightarrow> \<not> queued_execute c) \<and>
    (\<forall>e. cd_kind e = ''execute'' \<and> dict_get (js_requests s') (cd_caller_scope e, cd_request_id e) = None \<longrightarrow>
       create_command s' e = (s', Inl (JRuntimeError ''CONTROLLER_NOT_ACCEPTING_EXECUTE'')))"
proof -
  have fresh': "cd_command_id d \<notin> set (dict_keys (js_commands s))"
    using fresh unfolding get_command_def dict_get_None_keys .
  obtain s' c where b: "apply_stop_barrier s d occ =
      (s', Inr \<lparr>sb_stop_command = c, sb_idempotency_reused = False,
                sb_active_command_id = last_active None (js_commands s),
                sb_cancelled_command_ids = map fst (filter (queued_execute \<circ> snd) (js_commands s))\<rparr>)"
    and acc: "\<not> js_accepting_execute s'" and c: "c = queued_command d (js_sequence s + 1)"
    and own: "dict_get (js_commands s') (cd_command_id d) = Some c"
    and oth: "\<forall>k. k \<noteq> cd_command_id d \<longrightarrow>
       dict_get (js_commands s') k = map_option (stop_effect occ) (dict_get (js_commands s) k)"
    using apply_stop_barrier_new [OF journal_reachable_core_inv [OF reach] occ stop fresh' new] by blast
  have "\<not> queued_execute e" if "get_command s' cid = Some e" for cid e
    using that own oth c stop stop_effect_not_queued
    by (cases "cid = cd_command_id d") (auto simp: get_command_def queued_execute_def)
  moreover have "get_command s' cid = Some (stop_effect occ e)" if "get_command s cid = Some e" for cid e
    using that oth fresh by (cases "cid = cd_command_id d") (auto simp: get_command_def)
  moreover have "create_command s' e = (s', Inl (JRuntimeError ''CONTROLLER_NOT_ACCEPTING_EXECUTE''))"
    if "cd_kind e = ''execute'' \<and> dict_get (js_requests s') (cd_caller_scope e, cd_request_id e) = None" for e
    using that acc by (simp add: create_command_def)
  moreover have "get_command s' (cd_command_id d) = Some c" using own by (simp add: get_command_def)
  ultimately show ?thesis
    unfolding b by (intro exI [of _ s'] exI conjI) (rule refl, simp_all)
qed

text \<open>
  C5. Recovery after a restart.  \<open>recover_startup\<close> never raises on a reachable journal: the queued
  commands are interrupted before start, the running and reconciling ones become blocked with
  unknown outcome, the others are untouched, so no command is left queued, running or
  reconciling; the result lists them, and the journal is quarantined (admission closed) exactly
  when some command has an unknown outcome.
\<close>

theorem recover_startup_complete:
  assumes reach: "journal_reachable n s" and occ: "0 \<le> occ"
  shows "\<exists>s' r. recover_startup s occ = (s', Inr r) \<and>
    (\<forall>cid. get_command s' cid = map_option (recover_effect occ) (get_command s cid)) \<and>
    (\<forall>cid c. get_command s' cid = Some c \<longrightarrow> jc_state c \<notin> {QUEUED, RUNNING, RECONCILING}) \<and>
    (\<forall>cid. cid \<in> set (su_interrupted_command_ids r) \<longleftrightarrow>
       (\<exists>c. get_command s cid = Some c \<and> jc_state c = QUEUED)) \<and>
    (\<forall>cid. cid \<in> set (su_blocked_command_ids r) \<longleftrightarrow>
       (\<exists>c. get_command s' cid = Some c \<and> jc_state c = BLOCKED_UNKNOWN)) \<and>
    su_quarantined r = (su_blocked_command_ids r \<noteq> []) \<and>
    js_accepting_execute s' = (js_accepting_execute s \<and> \<not> su_quarantined r)"
proof -
  have inv: "core_inv s" using reach by (rule journal_reachable_core_inv)
  obtain s' r where rec: "recover_startup s occ = (s', Inr r)"
    and ints: "su_interrupted_command_ids r =
      map cd_command_id (filter (\<lambda>c. jc_state c = QUEUED) (dict_values (js_commands s)))"
    and blks: "su_blocked_command_ids r = map cd_command_id (filter recover_blocks (dict_values (js_commands s)))"
    and q: "su_quarantined r = (su_blocked_command_ids r \<noteq> [])"
    and acc: "js_accepting_execute s' = (js_accepting_execute s \<and> \<not> su_quarantined r)"
    and eff: "\<forall>k. dict_get (js_commands s') k = map_option (recover_effect occ) (dict_get (js_commands s) k)"
    using recover_startup_spec [OF inv occ] by blast
  note get = command_get_value [OF inv]
  have "jc_state (recover_effect occ c) = BLOCKED_UNKNOWN \<longleftrightarrow> recover_blocks c" for c
    by (auto simp: recover_effect_def recover_blocks_def)
  then have "cid \<in> set (su_blocked_command_ids r) \<longleftrightarrow>
      (\<exists>c. get_command s' cid = Some c \<and> jc_state c = BLOCKED_UNKNOWN)" for cid
    using eff get [of cid] by (auto simp: get_command_def blks image_iff)
  moreover have "cid \<in> set (su_interrupted_command_ids r) \<longleftrightarrow>
      (\<exists>c. get_command s cid = Some c \<and> jc_state c = QUEUED)" for cid
    using get [of cid] by (auto simp: get_command_def ints image_iff)
  moreover have "jc_state c \<notin> {QUEUED, RUNNING, RECONCILING}" if "get_command s' cid = Some c" for cid c
    using that eff recover_effect_settled by (auto simp: get_command_def)
  ultimately show ?thesis using rec eff q acc by (intro exI conjI) (auto simp: get_command_def)
qed

theorem recover_startup_complete_witness:
  "\<exists>s' r. recover_startup example_running 60 = (s', Inr r) \<and>
     ''b'' \<in> set (su_interrupted_command_ids r)"
proof -
  have "get_command example_running ''b'' = Some example_b" "jc_state example_b = QUEUED" by code_simp+
  then show ?thesis using recover_startup_complete [OF example_reachable(3), of 60] by (metis zero_le_numeral)
qed

section \<open>Paging\<close>

lemma scope_commands_sorted:
  assumes "core_inv s"
  shows "sorted_wrt (<) (map jc_queue_sequence (scope_commands_after s scope a))"
proof -
  have "distinct (map jc_queue_sequence (dict_values (js_commands s)))"
    using core_invD(1) [OF assms] by (simp add: commands_inv_def strict_sorted_iff del: map_map)
  then have "distinct (map jc_queue_sequence
      (filter (\<lambda>c. cd_caller_scope c = scope \<and> a < jc_queue_sequence c) (dict_values (js_commands s))))"
    by (rule distinct_map_filter)
  then have "distinct (map jc_queue_sequence (scope_commands_after s scope a))"
    unfolding scope_commands_after_def by (simp only: distinct_map distinct_sort set_sort)
  then show ?thesis by (simp add: scope_commands_after_def strict_sorted_iff del: map_map)
qed

lemma scope_commands_after_filter:
  "a \<le> b \<Longrightarrow> scope_commands_after s scope b =
     filter (\<lambda>c. b < jc_queue_sequence c) (scope_commands_after s scope a)"
proof -
  assume "a \<le> b"
  then have "filter (\<lambda>c. cd_caller_scope c = scope \<and> b < jc_queue_sequence c) cs =
      filter (\<lambda>c. b < jc_queue_sequence c) (filter (\<lambda>c. cd_caller_scope c = scope \<and> a < jc_queue_sequence c) cs)"
    for cs :: "journal_command list"
    by (induction cs) auto
  then show ?thesis by (simp only: scope_commands_after_def filter_sort)
qed

interpretation projection: cursor_store core_inv jc_queue_sequence scope_commands_after projection_read
proof unfold_locales
  show "core_inv s \<Longrightarrow> sorted_wrt (<) (map jc_queue_sequence (scope_commands_after s scope a))" for s scope a
    by (rule scope_commands_sorted)
  show "x \<in> set (scope_commands_after s scope a) \<Longrightarrow> a < jc_queue_sequence x" for x s scope a
    by (simp add: scope_commands_after_def)
  show "a \<le> b \<Longrightarrow> scope_commands_after s scope b =
      filter (\<lambda>x. b < jc_queue_sequence x) (scope_commands_after s scope a)" for a b s scope
    by (rule scope_commands_after_filter)
qed (simp add: projection_read_def read_projection_def Let_def)

interpretation feed: cursor_store feed_inv ar_sequence scope_activities_after feed_read
proof unfold_locales
  show "feed_inv s \<Longrightarrow> sorted_wrt (<) (map ar_sequence (scope_activities_after s scope a))" for s scope a
    by (auto simp: feed_inv_def scope_activities_after_def sorted_wrt_map feed_order_def
        intro: sorted_wrt_filter sorted_wrt_mono_rel [of _ feed_order])
  show "x \<in> set (scope_activities_after s scope a) \<Longrightarrow> a < ar_sequence x" for x s scope a
    by (simp add: scope_activities_after_def)
  show "a \<le> b \<Longrightarrow> scope_activities_after s scope b =
      filter (\<lambda>x. b < ar_sequence x) (scope_activities_after s scope a)" for a b s scope
    by (auto simp: scope_activities_after_def intro: filter_cong)
qed (simp add: feed_read_def read_activity_def scope_activities_after_def Let_def)

text \<open>
  C6. Complete paging.  Following the cursors of \<open>read_projection\<close> from the start, with any page
  size between 1 and 100, yields every command of the caller's scope exactly once, in strictly
  increasing queue order, and ends; other page sizes raise.
\<close>

theorem read_projection_pages_complete:
  assumes "journal_reachable n s"
  shows "(1 \<le> limit \<and> limit \<le> 100 \<longrightarrow>
       (\<exists>cs. read_all (Suc (length (js_commands s))) (projection_read s scope limit) None = Inr cs \<and>
          sorted_wrt (<) (map jc_queue_sequence cs) \<and>
          (\<forall>c. c \<in> set cs \<longleftrightarrow>
             get_command s (cd_command_id c) = Some c \<and> cd_caller_scope c = scope))) \<and>
     (\<not> (1 \<le> limit \<and> limit \<le> 100) \<longrightarrow>
       read_projection s scope limit cursor = Inl (JValueError ''limit must be between 1 and 100''))"
proof -
  have inv: "core_inv s" using assms by (rule journal_reachable_core_inv)
  note get = command_get_value [OF inv]
  let ?cs = "scope_commands_after s scope 0"
  have "length ?cs < Suc (length (js_commands s))"
    by (simp add: scope_commands_after_def le_imp_less_Suc order_trans [OF length_filter_le])
  then have "read_all (Suc (length (js_commands s))) (projection_read s scope limit) None = Inr ?cs"
    if "1 \<le> limit" "limit \<le> 100"
    using that by (intro projection.pages_complete [OF inv]) (simp_all add: cursor_value_def)
  moreover have "c \<in> set ?cs \<longleftrightarrow> get_command s (cd_command_id c) = Some c \<and> cd_caller_scope c = scope" for c
    using get [of "cd_command_id c" c] commands_invD(3) [OF core_invD(1) [OF inv], of "cd_command_id c" c]
    by (fastforce simp: scope_commands_after_def get_command_def)
  ultimately show ?thesis
    using scope_commands_sorted [OF inv, of scope 0] by (auto simp: read_projection_def)
qed

theorem read_projection_pages_complete_witness:
  "\<exists>cs. read_all (Suc (length (js_commands example_two))) (projection_read example_two ''owner'' 1) None = Inr cs \<and>
     example_b \<in> set cs"
proof -
  have "get_command example_two (cd_command_id example_b) = Some example_b" "cd_caller_scope example_b = ''owner''"
    by code_simp+
  then show ?thesis
    using read_projection_pages_complete [OF example_reachable(2), of 1 "''owner''" None] by fastforce
qed

section \<open>The activity feed\<close>

text \<open>
  The activity feed.  In every reachable journal the feed's records carry strictly
  increasing sequence numbers and pairwise different source keys, and no active record of a
  command follows a finished one; following the cursors of \<open>read_activity\<close> with any legal page
  size yields the scope's records, all of them, in this order; and \<open>read_recent_activity\<close> returns as
  many records as it may, and the latest ones.
\<close>

lemma activity_feed_ordered:
  assumes "journal_reachable n s"
  shows "sorted_wrt (<) (map ar_sequence (js_activities s)) \<and>
    distinct (map ad_source_key (js_activities s)) \<and>
    sorted_wrt (\<lambda>r r'. ad_command_id r = ad_command_id r' \<and> ap_phase (ad_payload r) = Finished \<longrightarrow>
        ap_phase (ad_payload r') = Finished) (js_activities s) \<and>
    (1 \<le> limit \<and> limit \<le> 100 \<longrightarrow>
       read_all (Suc (length (js_activities s))) (feed_read s scope limit) None =
         Inr (filter (\<lambda>r. ad_caller_scope r = scope) (js_activities s)) \<and>
       (\<exists>p. read_recent_activity s limit = Inr p \<and>
          length (ap_records p) = min (nat limit) (length (js_activities s)) \<and>
          (\<forall>r\<in>set (js_activities s) - set (ap_records p). \<forall>r'\<in>set (ap_records p). ar_sequence r < ar_sequence r')))"
proof -
  have inv: "feed_inv s" using assms by (rule journal_reachable_feed_inv)
  then have ord: "sorted_wrt feed_order (js_activities s)" by (simp add: feed_inv_def)
  have all: "scope_activities_after s scope 0 = filter (\<lambda>r. ad_caller_scope r = scope) (js_activities s)"
    using inv by (auto simp: scope_activities_after_def feed_inv_def intro!: filter_cong)
  have "length (scope_activities_after s scope 0) < Suc (length (js_activities s))"
    by (simp add: all le_imp_less_Suc)
  then have "read_all (Suc (length (js_activities s))) (feed_read s scope limit) None =
      Inr (filter (\<lambda>r. ad_caller_scope r = scope) (js_activities s))" if "1 \<le> limit" "limit \<le> 100"
    using that unfolding all [symmetric]
    by (intro feed.pages_complete [OF inv]) (simp_all add: cursor_value_def)
  moreover have sorted: "sorted_wrt (<) (map ar_sequence (js_activities s))"
    unfolding sorted_wrt_map using ord by (rule sorted_wrt_mono_rel [rotated]) (simp add: feed_order_def)
  moreover have "sorted_wrt (\<lambda>r r'. ad_command_id r = ad_command_id r' \<and> ap_phase (ad_payload r) = Finished \<longrightarrow>
        ap_phase (ad_payload r') = Finished) (js_activities s)"
    using ord by (rule sorted_wrt_mono_rel [rotated]) (simp add: feed_order_def)
  moreover have "\<exists>p. read_recent_activity s limit = Inr p \<and>
      length (ap_records p) = min (nat limit) (length (js_activities s)) \<and>
      (\<forall>r\<in>set (js_activities s) - set (ap_records p). \<forall>r'\<in>set (ap_records p). ar_sequence r < ar_sequence r')"
    if "1 \<le> limit" "limit \<le> 100"
    using that last_n_latest [OF sorted] by (simp add: read_recent_activity_def)
  ultimately show ?thesis using feed_order_keys [OF ord] by blast
qed

text \<open>
  Idempotent recording.  After a record was committed, and as long as retention keeps it,
  offering its source key again changes nothing but what retention removes: an equal envelope
  returns the committed record as a reuse, a different one is a conflict.
\<close>

lemma append_activity_idempotent:
  assumes reach: "journal_reachable n s" and mem: "r \<in> set (js_activities s)"
    and key: "ad_source_key d = ad_source_key r"
  shows "append_activity s d before =
      (if activity_matches r d then (retain_recent_activity s before (ad_source_key r), Inr (r, True))
       else (s, Inl (JValueError ''activity source key conflicts with committed payload''))) \<and>
    r \<in> set (js_activities (fst (append_activity s d before)))"
proof -
  have "dict_get (js_activity_by_source s) (ad_source_key d) = Some r"
    using feed_inv_get [OF journal_reachable_feed_inv [OF reach]] mem key by simp
  then show ?thesis
    using mem by (auto simp: append_activity_def retain_recent_activity_def Let_def split: option.splits)
qed

text \<open>
  C7. The activity feed.  In every reachable journal the feed's records carry strictly
  increasing sequence numbers and pairwise different source keys, and no active record of a
  command follows a finished one; following the cursors of \<open>read_activity\<close> with any legal page
  size yields the scope's records, all of them, in this order; and \<open>read_recent_activity\<close> returns as
  many records as it may, and the latest ones.  As long as retention keeps a record, offering its source key
  again changes nothing but what retention removes: an equal envelope returns the committed record as
  a reuse, a different one is a conflict.
\<close>

theorem activity_feed_kept:
  assumes "journal_reachable n s"
  shows "(sorted_wrt (<) (map ar_sequence (js_activities s)) \<and>
    distinct (map ad_source_key (js_activities s)) \<and>
    sorted_wrt (\<lambda>r r'. ad_command_id r = ad_command_id r' \<and> ap_phase (ad_payload r) = Finished \<longrightarrow>
        ap_phase (ad_payload r') = Finished) (js_activities s) \<and>
    (1 \<le> limit \<and> limit \<le> 100 \<longrightarrow>
       read_all (Suc (length (js_activities s))) (feed_read s scope limit) None =
         Inr (filter (\<lambda>r. ad_caller_scope r = scope) (js_activities s)) \<and>
       (\<exists>p. read_recent_activity s limit = Inr p \<and>
          length (ap_records p) = min (nat limit) (length (js_activities s)) \<and>
          (\<forall>r\<in>set (js_activities s) - set (ap_records p). \<forall>r'\<in>set (ap_records p). ar_sequence r < ar_sequence r')))) \<and>
    (\<forall>r d before. r \<in> set (js_activities s) \<and> ad_source_key d = ad_source_key r \<longrightarrow>
       append_activity s d before =
         (if activity_matches r d then (retain_recent_activity s before (ad_source_key r), Inr (r, True))
          else (s, Inl (JValueError ''activity source key conflicts with committed payload''))) \<and>
       r \<in> set (js_activities (fst (append_activity s d before))))"
  using append_activity_idempotent [OF assms] by (intro conjI [OF activity_feed_ordered [OF assms]]) blast

theorem activity_feed_kept_witness:
  "read_all 3 (feed_read example_fed ''owner'' 1) None =
     Inr (filter (\<lambda>r. ad_caller_scope r = ''owner'') (js_activities example_fed)) \<and>
   append_activity example_fed (example_activity ''k1'' Planning) None =
     (example_fed, Inr (activity_record_of (example_activity ''k1'' Planning) 1, True))"
proof -
  let ?r = "activity_record_of (example_activity ''k1'' Planning) 1"
  have facts: "list_ex ((=) ?r) (js_activities example_fed)" "activity_matches ?r (example_activity ''k1'' Planning)"
    "retain_recent_activity example_fed None (ad_source_key ?r) = example_fed" "length (js_activities example_fed) = 2"
    "ad_source_key (example_activity ''k1'' Planning) = ad_source_key ?r"
    by code_simp+
  have mem: "?r \<in> set (js_activities example_fed)" using facts(1) by (auto simp: list_ex_iff)
  have three: "Suc (length (js_activities example_fed)) = 3" using facts(4) by simp
  note kept = activity_feed_kept [OF example_reachable(5), of 1 "''owner''"]
  have "read_all 3 (feed_read example_fed ''owner'' 1) None =
     Inr (filter (\<lambda>r. ad_caller_scope r = ''owner'') (js_activities example_fed))"
    using kept [THEN conjunct1] unfolding three by simp
  moreover have "append_activity example_fed (example_activity ''k1'' Planning) None = (example_fed, Inr (?r, True))"
    using kept [THEN conjunct2, rule_format, OF conjI [OF mem facts(5)], THEN conjunct1] facts(2,3) by (simp only: if_True)
  ultimately show ?thesis ..
qed

section \<open>Retention\<close>

text \<open>The payload of every expired command is emptied, and nothing else of a command changes.\<close>

definition erased :: "journal_command \<Rightarrow> journal_command" where
  "erased c = c\<lparr>cd_payload := [], jc_terminal_result := None\<rparr>"

lemma erase_fold_get:
  "distinct ids \<Longrightarrow>
   dict_get (foldl (\<lambda>cmds cid. case dict_get cmds cid of
                                 None \<Rightarrow> cmds
                               | Some c \<Rightarrow> dict_set cid (c\<lparr>cd_payload := [], jc_terminal_result := None\<rparr>) cmds)
              cmds ids) k =
   (if k \<in> set ids then map_option erased (dict_get cmds k) else dict_get cmds k)"
proof (induction ids arbitrary: cmds)
  case (Cons i ids)
  then show ?case
    by (cases "dict_get cmds i") (auto simp: dict_get_set erased_def [symmetric])
qed simp

lemma expire_terminal_payloads_spec:
  assumes "core_inv s"
  shows "\<exists>s'. expire_terminal_payloads s before =
      (s', Inr (int (length (filter (payload_expired before) (dict_values (js_commands s)))))) \<and>
    (\<forall>cid. dict_get (js_commands s') cid =
       map_option (\<lambda>c. if payload_expired before c then erased c else c) (dict_get (js_commands s) cid))"
proof -
  let ?es = "filter (payload_expired before) (dict_values (js_commands s))"
  let ?ids = "map cd_command_id ?es"
  have d: "distinct ?ids" using commands_distinct_ids [OF assms] .
  have mem: "cid \<in> set ?ids \<longleftrightarrow> (\<exists>c. dict_get (js_commands s) cid = Some c \<and> payload_expired before c)" for cid
    using command_get_value [OF assms, of cid] by (auto simp: image_iff)
  have rd: "remdups ?ids = ?ids" using d by (rule distinct_remdups_id)
  show ?thesis
  proof (cases "?es = []")
    case True
    then have "\<not> payload_expired before c" if "dict_get (js_commands s) cid = Some c" for cid c
      using mem [of cid] that by simp
    then have "dict_get (js_commands s) cid =
        map_option (\<lambda>c. if payload_expired before c then erased c else c) (dict_get (js_commands s) cid)" for cid
      by (cases "dict_get (js_commands s) cid") auto
    with True show ?thesis by (simp add: expire_terminal_payloads_def)
  next
    case False
    let ?f = "\<lambda>cmds. foldl (\<lambda>cmds cid. case dict_get cmds cid of
                                 None \<Rightarrow> cmds
                               | Some c \<Rightarrow> dict_set cid (c\<lparr>cd_payload := [], jc_terminal_result := None\<rparr>) cmds)
              cmds ?ids"
    have "list_all (\<lambda>cid. dict_get (js_commands s) cid \<noteq> None) ?ids"
      using mem by (auto simp: list_all_iff)
    with False have "expire_terminal_payloads s before =
      (let kept = filter (\<lambda>r. ad_command_id r \<notin> set ?ids) (js_activities s)
       in s\<lparr>js_activities := kept, js_activity_by_source := index_activities kept,
            js_commands := ?f (js_commands s)\<rparr>, Inr (int (length ?es)))"
      unfolding expire_terminal_payloads_def rd by (simp add: Let_def)
    moreover have "dict_get (?f (js_commands s)) cid =
       map_option (\<lambda>c. if payload_expired before c then erased c else c) (dict_get (js_commands s) cid)" for cid
      using erase_fold_get [OF d, of "js_commands s" cid] mem [of cid]
      by (cases "dict_get (js_commands s) cid") auto
    ultimately show ?thesis by (simp add: Let_def)
  qed
qed

lemma expire_terminal_payloads_hits:
  assumes "core_inv s" and "dict_get (js_commands s) cid = Some c" and "payload_expired before c"
  shows "\<exists>s' k. expire_terminal_payloads s before = (s', Inr k) \<and>
    dict_get (js_commands s') cid = Some (erased c)"
proof -
  obtain s' k where "expire_terminal_payloads s before = (s', Inr k)"
    "\<forall>cid. dict_get (js_commands s') cid =
       map_option (\<lambda>c. if payload_expired before c then erased c else c) (dict_get (js_commands s) cid)"
    using expire_terminal_payloads_spec [OF assms(1), of before] by blast
  with assms(2,3) show ?thesis by auto
qed

lemma erased_sel [simp]:
  "jc_state (erased c) = jc_state c" "cd_payload (erased c) = []"
  by (simp_all add: erased_def)

text \<open>
  A reopened command can lose its payload.  Reconciling a command of unknown outcome keeps
  the terminal time that the unknown outcome set; a retention pass with a later cutoff then
  erases the payload of the command while it is being reconciled, which is not a terminal state.
\<close>

lemma reopened_command_loses_payload:
  assumes reach: "journal_reachable n s" and get: "get_command s cid = Some c"
    and blocked: "jc_state c = BLOCKED_UNKNOWN" and occ: "0 \<le> occ"
  shows "\<exists>t s1 c1. jc_terminal_at_ms c = Some t \<and>
    transition s cid (jc_state_version c) RECONCILING reason actor occ det None = (s1, Inr c1) \<and>
    (t < before \<longrightarrow>
       (\<exists>s2 k c2. expire_terminal_payloads s1 before = (s2, Inr k) \<and>
          get_command s2 cid = Some c2 \<and> jc_state c2 = RECONCILING \<and>
          \<not> terminal_command_state (jc_state c2) \<and> cd_payload c2 = []))"
proof -
  have inv: "core_inv s" using reach by (rule journal_reachable_core_inv)
  have g: "dict_get (js_commands s) cid = Some c" using get by (simp add: get_command_def)
  obtain t where t: "jc_terminal_at_ms c = Some t"
    using commands_invD(5) [OF core_invD(1) [OF inv] g] blocked by auto
  obtain s1 where tr: "transition s cid (jc_state_version c) RECONCILING reason actor occ det None =
      (s1, Inr (transitioned c RECONCILING occ None))"
    and s1: "sets_command s cid (transitioned c RECONCILING occ None) s1"
    using transition_current [OF inv occ g, of RECONCILING None reason actor det] blocked
    by (auto simp: validate_transition_def)
  let ?c1 = "transitioned c RECONCILING occ None"
  have inv1: "core_inv s1" and g1: "dict_get (js_commands s1) cid = Some ?c1"
    using s1 inv by (simp_all add: sets_command_def keeps_def)
  have c1: "jc_terminal_at_ms ?c1 = Some t" "jc_state ?c1 = RECONCILING" "cd_command_id ?c1 = cid"
    using t commands_invD(2) [OF core_invD(1) [OF inv] g] by (simp_all add: transitioned_def)
  have "\<exists>s2 k c2. expire_terminal_payloads s1 before = (s2, Inr k) \<and> get_command s2 cid = Some c2 \<and>
      jc_state c2 = RECONCILING \<and> \<not> terminal_command_state (jc_state c2) \<and> cd_payload c2 = []"
    if "t < before"
    using expire_terminal_payloads_hits [OF inv1 g1, of before] that c1
    by (auto simp: payload_expired_def get_command_def)
  then show ?thesis using t tr by blast
qed

lemma reopened_command_loses_payload_example:
  "\<exists>s1 c1 s2 k c2. transition example_blocked ''a'' 2 RECONCILING ''REOPEN'' ''worker'' 31 None None = (s1, Inr c1) \<and>
     expire_terminal_payloads s1 100 = (s2, Inr k) \<and> get_command s2 ''a'' = Some c2 \<and>
     jc_state c2 = RECONCILING \<and> cd_payload c2 = []"
proof -
  let ?c = "transitioned (transitioned example_a RUNNING 20 None) BLOCKED_UNKNOWN 30 None"
  have "jc_state_version ?c = 2" "jc_terminal_at_ms ?c = Some 30" by code_simp+
  moreover obtain t s1 c1 where "jc_terminal_at_ms ?c = Some t"
    "transition example_blocked ''a'' (jc_state_version ?c) RECONCILING ''REOPEN'' ''worker'' 31 None None = (s1, Inr c1)"
    "t < 100 \<longrightarrow> (\<exists>s2 k c2. expire_terminal_payloads s1 100 = (s2, Inr k) \<and>
          get_command s2 ''a'' = Some c2 \<and> jc_state c2 = RECONCILING \<and>
          \<not> terminal_command_state (jc_state c2) \<and> cd_payload c2 = [])"
    using reopened_command_loses_payload [OF example_reachable(4) example_get(5,6), of 31 "''REOPEN''" "''worker''" None 100]
    by auto
  ultimately show ?thesis by auto
qed

end
