(* ===== verification/Journal_Facts.thy ===== *)
theory Journal_Facts
  imports Journal_Feed
begin

text \<open>
  The step ledger and the fact store of the journal: reserved steps are exclusive, and every
  command owns the four lists of facts.
\<close>

lemma dict_key_set [simp]: "fst ` set (dict_set k v d) = insert k (fst ` set d)"
  by (induction d) auto

lemma dict_set_memD: "(a, b) \<in> set (dict_set k v d) \<Longrightarrow> a = k \<or> a \<in> fst ` set d"
  using dict_key_set [of k v d] by (metis fst_conv image_eqI insertE)

section \<open>Steps\<close>

definition same_step_identity :: "step_record \<Rightarrow> step_record \<Rightarrow> bool" where
  "same_step_identity e e' \<longleftrightarrow>
     sr_step_id e' = sr_step_id e \<and> sr_command_id e' = sr_command_id e \<and> sr_ordinal e' = sr_ordinal e \<and>
     sr_runtime_instance_id e' = sr_runtime_instance_id e \<and> sr_correlation_id e' = sr_correlation_id e"

definition exclusive :: "step_record \<Rightarrow> step_record \<Rightarrow> bool" where
  "exclusive e e' \<longleftrightarrow>
     (sr_command_id e, sr_ordinal e) \<noteq> (sr_command_id e', sr_ordinal e') \<and>
     (sr_runtime_instance_id e, sr_correlation_id e) \<noteq> (sr_runtime_instance_id e', sr_correlation_id e')"

definition steps_ok :: "(string, step_record) dict \<Rightarrow> bool" where
  "steps_ok d \<longleftrightarrow>
     distinct (dict_keys d) \<and>
     (\<forall>k e. dict_get d k = Some e \<longrightarrow> sr_step_id e = k) \<and>
     (\<forall>k k' e e'. dict_get d k = Some e \<and> dict_get d k' = Some e' \<and> k \<noteq> k' \<longrightarrow> exclusive e e')"

lemma exclusive_same:
  "same_step_identity e e' \<Longrightarrow> exclusive e' x = exclusive e x \<and> exclusive x e' = exclusive x e"
  by (simp add: same_step_identity_def exclusive_def)

lemma steps_ok_update:
  assumes ok: "steps_ok d" and get: "dict_get d sid = Some e" and same: "same_step_identity e e'"
  shows "steps_ok (dict_set sid e' d)"
proof -
  have "exclusive x y"
    if kk: "dict_get (dict_set sid e' d) k = Some x" "dict_get (dict_set sid e' d) k' = Some y" "k \<noteq> k'" for k k' x y
  proof -
    obtain x0 y0 where "dict_get d k = Some x0" "same_step_identity x0 x" "x = x0 \<or> x = e'"
      "dict_get d k' = Some y0" "same_step_identity y0 y"
      using kk(1,2) get same by (auto simp: dict_get_set same_step_identity_def split: if_splits)
    moreover have "exclusive x0 y0" using ok kk(3) calculation unfolding steps_ok_def by blast
    ultimately show ?thesis using exclusive_same by blast
  qed
  moreover have "sr_step_id x = k" if "dict_get (dict_set sid e' d) k = Some x" for k x
  proof -
    have e: "sr_step_id e = sid" using ok get unfolding steps_ok_def by blast
    show ?thesis
    proof (cases "k = sid")
      case True
      then have "x = e'" using that by (simp add: dict_get_set)
      then show ?thesis using same e True by (simp add: same_step_identity_def)
    next
      case False
      then have "dict_get d k = Some x" using that by (simp add: dict_get_set)
      then show ?thesis using ok unfolding steps_ok_def by blast
    qed
  qed
  moreover have "distinct (dict_keys (dict_set sid e' d))"
    using ok by (simp add: steps_ok_def distinct_keys_set)
  ultimately show ?thesis unfolding steps_ok_def by blast
qed

lemma steps_ok_reserve:
  assumes "steps_ok (js_steps s)" and "reserve_step s st = (s', x)"
  shows "steps_ok (js_steps s')"
proof (cases "s' = s")
  case False
  have new: "sr_step_id st \<notin> set (dict_keys (js_steps s))"
    and excl: "\<And>e. e \<in> set (dict_values (js_steps s)) \<Longrightarrow> exclusive e st"
    and s': "js_steps s' = dict_set (sr_step_id st) st (js_steps s)"
    using assms(2) False by (auto simp: reserve_step_def list_ex_iff exclusive_def split: if_splits)
  have "exclusive e st \<and> exclusive st e" if "dict_get (js_steps s) k = Some e" for k e
    using excl [of e] that map_of_SomeD [OF that] by (force simp: exclusive_def)
  then show ?thesis
    using assms(1) unfolding s' steps_ok_def by (auto simp: distinct_keys_set dict_get_set)
qed (use assms in simp)

lemma steps_ok_changes:
  assumes "steps_ok (js_steps s)"
  shows "update_step_state s sid v = (s', y) \<Longrightarrow> steps_ok (js_steps s')"
    and "record_step_receipt s sid r = (s', y) \<Longrightarrow> steps_ok (js_steps s')"
    and "settle_step s sid r u w = (s', y) \<Longrightarrow> steps_ok (js_steps s')"
  using assms
  by (auto simp: update_step_state_def record_step_receipt_def settle_step_def Let_def
      same_step_identity_def split: option.splits intro!: steps_ok_update)

lemma steps_same:
  "append_activity s d before = (s', x) \<Longrightarrow> js_steps s' = js_steps s"
  "expire_activity s t = (s', k) \<Longrightarrow> js_steps s' = js_steps s"
  "expire_terminal_payloads s t = (s', m) \<Longrightarrow> js_steps s' = js_steps s"
  "aside_of s' = aside_of s \<Longrightarrow> js_steps s' = js_steps s"
  by (auto simp: append_activity_def retain_recent_activity_def expire_activity_def Let_def
      expire_terminal_payloads_def aside_of_def split: option.splits if_splits)

lemma steps_ok_step: "journal_step s s' \<Longrightarrow> steps_ok (js_steps s) \<Longrightarrow> steps_ok (js_steps s')"
  by (induction rule: journal_step.induct)
    (auto simp: begin_session_def begin_shutdown_def steps_same(1-3) steps_ok_reserve
      dest: steps_ok_changes steps_same(4) dest!: feed_frame)

lemma journal_reachable_steps_ok: "journal_reachable n s \<Longrightarrow> steps_ok (js_steps s)"
proof (induction rule: journal_reachable.induct)
  case reach_empty
  show ?case by (simp add: empty_journal_def steps_ok_def)
qed (rule steps_ok_step)

lemma get_step_value:
  "steps_ok (js_steps s) \<Longrightarrow>
   e \<in> set (dict_values (js_steps s)) \<longleftrightarrow> get_step s (sr_step_id e) = Some e"
proof -
  assume ok: "steps_ok (js_steps s)"
  then have "e \<in> set (dict_values (js_steps s)) \<longleftrightarrow> (\<exists>k. dict_get (js_steps s) k = Some e)"
    by (intro dict_values_get) (simp add: steps_ok_def)
  then show ?thesis using ok unfolding steps_ok_def get_step_def by blast
qed

section \<open>Facts\<close>

abbreviation fact_kinds :: "string list" where
  "fact_kinds \<equiv> [''receipts'', ''budgets'', ''checkpoints'', ''recoveries'']"

definition facts_ok :: "journal_state \<Rightarrow> bool" where
  "facts_ok s \<longleftrightarrow>
     set (dict_keys (js_commands s)) \<subseteq> set (dict_keys (js_facts s)) \<and>
     (\<forall>cid f. dict_get (js_facts s) cid = Some f \<longrightarrow> dict_keys f = fact_kinds)"

definition ledger_of :: "journal_state \<Rightarrow> string set \<times> (string, (string, json_obj list) dict) dict" where
  "ledger_of s = (set (dict_keys (js_commands s)), js_facts s)"

lemma facts_ok_frame: "ledger_of s' = ledger_of s \<Longrightarrow> facts_ok s' = facts_ok s"
  by (simp add: ledger_of_def facts_ok_def)

named_theorems ledger_frame \<open>operations that keep the commands' names and the facts\<close>

lemma ledger_append_transition [ledger_frame]:
  "append_transition s c f reason actor occ det = (s', x) \<Longrightarrow> ledger_of s' = ledger_of s"
  by (auto simp: append_transition_def ledger_of_def Let_def split: if_splits)

lemma ledger_bump [simp]: "ledger_of (bump_projection s) = ledger_of s"
  "ledger_of (s\<lparr>js_accepting_execute := b\<rparr>) = ledger_of s"
  by (simp_all add: bump_projection_def ledger_of_def)

lemma ledger_set_command:
  "dict_get (js_commands s) cid = Some c \<Longrightarrow>
   ledger_of (s\<lparr>js_commands := dict_set cid c' (js_commands s)\<rparr>) = ledger_of s"
  using dict_get_Some_keys [of "js_commands s" cid c] by (auto simp: ledger_of_def dict_keys_set)

lemma ledger_transition [ledger_frame]:
  "transition s cid e t reason actor occ det res = (s', x) \<Longrightarrow> ledger_of s' = ledger_of s"
  by (auto simp: transition_def Let_def ledger_set_command dest!: ledger_append_transition
      split: option.splits if_splits prod.splits sum.splits)

lemma ledger_expire_loop: "expire_loop s now cs ids = (s', x) \<Longrightarrow> ledger_of s' = ledger_of s"
  by (induction s now cs ids arbitrary: s' x rule: expire_loop.induct)
    (auto dest!: ledger_transition split: prod.splits sum.splits jerror.splits)

lemma ledger_expire_queued [ledger_frame]: "expire_queued s now = (s', x) \<Longrightarrow> ledger_of s' = ledger_of s"
  by (auto simp: expire_queued_def dest!: ledger_expire_loop)

lemma ledger_recover_loop: "recover_loop s occ cs a b = (s', x) \<Longrightarrow> ledger_of s' = ledger_of s"
  by (induction s occ cs a b arbitrary: s' x rule: recover_loop.induct)
    (auto dest!: ledger_transition split: prod.splits sum.splits if_splits)

lemma ledger_recover [ledger_frame]: "recover_startup s occ = (s', x) \<Longrightarrow> ledger_of s' = ledger_of s"
  by (auto simp: recover_startup_def dest!: ledger_recover_loop split: prod.splits sum.splits if_splits)

text \<open>The stop barrier writes back commands of the snapshot it iterates over.\<close>

definition confined :: "journal_state \<Rightarrow> string set \<Rightarrow> journal_state \<Rightarrow> bool" where
  "confined s ks s' \<longleftrightarrow>
     js_facts s' = js_facts s \<and> set (dict_keys (js_commands s')) \<subseteq> set (dict_keys (js_commands s)) \<union> ks"

lemma confined_trans: "confined s ks t \<Longrightarrow> confined t ks u \<Longrightarrow> confined s ks u"
  by (auto simp: confined_def simp del: set_map)

lemma confined_set: "cid \<in> ks \<Longrightarrow> confined s ks (s\<lparr>js_commands := dict_set cid c (js_commands s)\<rparr>)"
  by (auto simp: confined_def)

lemma confined_ledger: "ledger_of s' = ledger_of s \<Longrightarrow> confined s ks s'"
  by (simp add: confined_def ledger_of_def)

lemma confined_stop_loop:
  "stop_loop s occ cs a b = (s', x) \<Longrightarrow> set (dict_keys cs) \<subseteq> ks \<Longrightarrow> confined s ks s'"
proof (induction s occ cs a b arbitrary: s' x rule: stop_loop.induct)
  case (1 s occ a b)
  then show ?case by (simp add: confined_def)
next
  case (2 s occ cid c rest active cancelled)
  have ks: "cid \<in> ks" "set (dict_keys rest) \<subseteq> ks" using "2.prems"(2) by simp_all
  let ?q = "s\<lparr>js_commands := dict_set cid (stop_cancelled c occ) (js_commands s)\<rparr>"
  let ?r = "if jc_cancel_requested_at_ms c = None
           then s\<lparr>js_commands := dict_set cid (request_cancel_mark c occ) (js_commands s)\<rparr> else s"
  consider (n) "cd_kind c \<noteq> ''execute''"
    | (q) "cd_kind c = ''execute''" "jc_state c = QUEUED"
    | (r) "cd_kind c = ''execute''" "jc_state c \<noteq> QUEUED" "jc_state c \<in> {RUNNING, RECONCILING, BLOCKED_UNKNOWN}"
    | (o) "cd_kind c = ''execute''" "jc_state c \<noteq> QUEUED" "jc_state c \<notin> {RUNNING, RECONCILING, BLOCKED_UNKNOWN}"
    by blast
  then show ?case
  proof cases
    case n
    then show ?thesis using "2.IH"(1) [OF n _ ks(2)] "2.prems"(1) by simp
  next
    case q
    obtain s2 y where a: "append_transition ?q (stop_cancelled c occ) (Some (jc_state c))
        ''GLOBAL_STOP'' ''gateway'' occ None = (s2, y)" by force
    have w: "confined s ks s2"
      using confined_trans [OF confined_set [OF ks(1)] confined_ledger [OF ledger_append_transition [OF a]]] .
    show ?thesis
    proof (cases y)
      case (Inl e)
      then show ?thesis using "2.prems"(1) q a w by (simp add: Let_def)
    next
      case (Inr u)
      then have "stop_loop s2 occ rest active (cancelled @ [cid]) = (s', x)"
        using "2.prems"(1) q a by (simp add: Let_def)
      then have "confined s2 ks s'"
        using "2.IH"(2) [OF _ q(2) refl refl a [symmetric] Inr _ ks(2)] q(1) by simp
      with w show ?thesis by (rule confined_trans)
    qed
  next
    case r
    have "confined s ks ?r" using confined_set [OF ks(1)] by (simp add: confined_def)
    moreover have "confined ?r ks s'" using "2.IH"(3) [OF _ r(2,3) _ ks(2)] "2.prems"(1) r by simp
    ultimately show ?thesis by (rule confined_trans)
  next
    case o
    then show ?thesis using "2.IH"(4) [OF _ o(2,3) _ ks(2)] "2.prems"(1) by simp
  qed
qed

lemma facts_ok_insert:
  assumes "insert_command s d = (s', c)" and ok: "facts_ok s"
  shows "facts_ok s'"
proof -
  have s': "js_commands s' = dict_set (cd_command_id d) c (js_commands s)"
    "js_facts s' = dict_set (cd_command_id d) empty_facts (js_facts s)"
    using assms(1) by (auto simp: insert_command_def Let_def)
  have "fst ` set (js_commands s) \<subseteq> fst ` set (js_facts s)" using ok by (simp add: facts_ok_def)
  then have "set (dict_keys (js_commands s')) \<subseteq> set (dict_keys (js_facts s'))"
    unfolding s' set_map dict_key_set by blast
  moreover have "dict_keys f = fact_kinds" if "dict_get (js_facts s') cid = Some f" for cid f
    using that ok by (auto simp: s' dict_get_set facts_ok_def empty_facts_def split: if_splits)
  ultimately show ?thesis unfolding facts_ok_def by blast
qed

lemma facts_ok_confined: "confined s ks s' \<Longrightarrow> ks \<subseteq> set (dict_keys (js_commands s)) \<Longrightarrow> facts_ok s \<Longrightarrow> facts_ok s'"
proof -
  assume c: "confined s ks s'" and k: "ks \<subseteq> set (dict_keys (js_commands s))" and ok: "facts_ok s"
  have f: "js_facts s' = js_facts s" using c by (simp add: confined_def)
  have "set (dict_keys (js_commands s')) \<subseteq> set (dict_keys (js_commands s))"
    using c k by (simp only: confined_def Un_absorb2)
  also have "\<dots> \<subseteq> set (dict_keys (js_facts s))" using ok by (simp only: facts_ok_def)
  finally show ?thesis using ok unfolding facts_ok_def f by (elim conjE) (intro conjI)
qed

lemma facts_ok_create:
  assumes "create_command s d = (s', x)" and ok: "facts_ok s"
  shows "facts_ok s'"
proof (cases "s' = s")
  case False
  obtain s1 c where ins: "insert_command s d = (s1, c)" by force
  obtain s2 y where a: "append_transition s1 c None ''ACCEPTED'' ''gateway'' (cd_accepted_at_ms d) None = (s2, y)"
    by force
  have "s' = s2 \<or> s' = bump_projection s2"
    using assms(1) False ins a by (auto simp: create_command_def split: option.splits if_splits sum.splits)
  moreover have "facts_ok s2"
    using facts_ok_frame [OF ledger_append_transition [OF a]] facts_ok_insert [OF ins ok] by simp
  ultimately show ?thesis using facts_ok_frame [OF ledger_bump(1)] by auto
qed (use ok in simp)

lemma facts_ok_stop_barrier:
  assumes "apply_stop_barrier s d occ = (s', x)" and ok: "facts_ok s"
  shows "facts_ok s'"
proof (cases "s' = s")
  case False
  obtain s1 c where ins: "insert_command s d = (s1, c)" by force
  obtain s2 y where a: "append_transition s1 c None ''STOP_ACCEPTED'' ''gateway'' occ None = (s2, y)" by force
  let ?s3 = "s2\<lparr>js_accepting_execute := False\<rparr>"
  obtain s4 z where l: "stop_loop ?s3 occ (js_commands ?s3) None [] = (s4, z)" by force
  have "s' = s2 \<or> s' = s4 \<or> s' = bump_projection s4"
    using assms(1) False ins a l
    by (auto simp: apply_stop_barrier_def Let_def split: option.splits if_splits sum.splits prod.splits)
  moreover have ok2: "facts_ok s2"
    using facts_ok_frame [OF ledger_append_transition [OF a]] facts_ok_insert [OF ins ok] by simp
  moreover have "facts_ok s4"
    using facts_ok_confined [OF confined_stop_loop [OF l order_refl]] facts_ok_frame [OF ledger_bump(2)] ok2 by blast
  ultimately show ?thesis using facts_ok_frame [OF ledger_bump(1)] by auto
qed (use ok in simp)

lemma append_fact_known:
  assumes "facts_ok s" and "cid \<in> set (dict_keys (js_commands s))" and "kind \<in> set fact_kinds"
  shows "\<exists>f xs. dict_get (js_facts s) cid = Some f \<and> dict_get f kind = Some xs \<and> dict_keys f = fact_kinds"
proof -
  obtain f where f: "dict_get (js_facts s) cid = Some f"
    using assms(1,2) dict_get_None_keys [of "js_facts s" cid] unfolding facts_ok_def
    by (cases "dict_get (js_facts s) cid") auto
  then have k: "dict_keys f = fact_kinds" using assms(1) unfolding facts_ok_def by blast
  then obtain xs where "dict_get f kind = Some xs"
    using assms(3) dict_get_None_keys [of f kind] by (cases "dict_get f kind") auto
  with f k show ?thesis by (intro exI conjI)
qed

lemma facts_ok_set:
  assumes "facts_ok s" and "dict_get (js_facts s) cid = Some f" and "dict_get f kind = Some xs"
  shows "facts_ok (s\<lparr>js_facts := dict_set cid (dict_set kind ys f) (js_facts s)\<rparr>)"
proof -
  have "dict_keys (dict_set kind ys f) = dict_keys f"
    unfolding dict_keys_set using dict_get_Some_keys [OF assms(3)] by simp
  then show ?thesis
    using assms(1,2) unfolding facts_ok_def
    by (auto simp: dict_get_set split: if_splits)
qed

lemma facts_ok_append_fact:
  "append_fact s cid kind p = (s', x) \<Longrightarrow> facts_ok s \<Longrightarrow> facts_ok s'"
  by (auto simp: append_fact_def facts_ok_set facts_ok_frame [OF ledger_bump(1)] split: option.splits)

lemma facts_ok_frames:
  "reserve_step s st = (s', x) \<Longrightarrow> ledger_of s' = ledger_of s"
  "update_step_state s sid v = (s', y) \<Longrightarrow> ledger_of s' = ledger_of s"
  "record_step_receipt s sid r = (s', y) \<Longrightarrow> ledger_of s' = ledger_of s"
  "append_activity s a before = (s', z) \<Longrightarrow> ledger_of s' = ledger_of s"
  "expire_activity s t = (s', k) \<Longrightarrow> ledger_of s' = ledger_of s"
  by (auto simp: reserve_step_def update_step_state_def record_step_receipt_def append_activity_def
      expire_activity_def retain_recent_activity_def Let_def ledger_of_def split: option.splits if_splits)

lemma facts_ok_settle:
  assumes "settle_step s sid r u w = (s', y)" and ok: "facts_ok s"
  shows "facts_ok s'"
proof -
  have "facts_ok (s\<lparr>js_steps := d\<rparr>)" for d using ok by (simp add: facts_ok_def)
  with assms(1) ok show ?thesis
    by (auto simp: settle_step_def Let_def split: option.splits
        intro: facts_ok_set [where s = "s\<lparr>js_steps := d\<rparr>" for d, simplified])
qed

lemma erase_fold_keys:
  "fst ` set (foldl (\<lambda>cmds cid. case dict_get cmds cid of
                        None \<Rightarrow> cmds
                      | Some c \<Rightarrow> dict_set cid (c\<lparr>cd_payload := [], jc_terminal_result := None\<rparr>) cmds) cmds ids)
   = fst ` set cmds"
proof (induction ids arbitrary: cmds)
  case (Cons i ids)
  then show ?case using dict_get_Some_keys [of cmds i] by (auto split: option.splits)
qed simp

lemma ledger_erase [simp]:
  "ledger_of (s\<lparr>js_activities := a, js_activity_by_source := b,
     js_commands := foldl (\<lambda>cmds cid. case dict_get cmds cid of
                        None \<Rightarrow> cmds
                      | Some c \<Rightarrow> dict_set cid (c\<lparr>cd_payload := [], jc_terminal_result := None\<rparr>) cmds)
       (js_commands s) ids\<rparr>) = ledger_of s"
  "ledger_of (s\<lparr>js_activities := a, js_activity_by_source := b\<rparr>) = ledger_of s"
  by (simp_all add: ledger_of_def erase_fold_keys)

lemma ledger_expire_payloads [ledger_frame]:
  "expire_terminal_payloads s t = (s', m) \<Longrightarrow> ledger_of s' = ledger_of s"
  by (auto simp: expire_terminal_payloads_def Let_def split: if_splits)

lemma facts_ok_step: "journal_step s s' \<Longrightarrow> facts_ok s \<Longrightarrow> facts_ok s'"
  by (induction rule: journal_step.induct)
    (auto simp: begin_session_def begin_shutdown_def facts_ok_frame [OF ledger_bump(2)]
      facts_ok_create facts_ok_stop_barrier facts_ok_append_fact facts_ok_settle
      dest: facts_ok_frame [OF facts_ok_frames(1)] facts_ok_frame [OF facts_ok_frames(2)]
        facts_ok_frame [OF facts_ok_frames(3)] facts_ok_frame [OF facts_ok_frames(4)]
        facts_ok_frame [OF facts_ok_frames(5)] facts_ok_frame [OF ledger_transition]
        facts_ok_frame [OF ledger_expire_queued] facts_ok_frame [OF ledger_recover]
        facts_ok_frame [OF ledger_expire_payloads])

lemma journal_reachable_facts_ok: "journal_reachable n s \<Longrightarrow> facts_ok s"
proof (induction rule: journal_reachable.induct)
  case reach_empty
  show ?case by (simp add: empty_journal_def facts_ok_def)
qed (rule facts_ok_step)

end
