(* ===== verification/Journal_Ledger.thy ===== *)
theory Journal_Ledger
  imports Journal_Facts
begin

text \<open>
  What the journal promises about steps, facts and request identities.
\<close>

definition example_step :: "string \<Rightarrow> int \<Rightarrow> step_record" where
  "example_step sid n =
     \<lparr>sr_step_id = sid, sr_command_id = ''a'', sr_ordinal = n, sr_strategy_state_hash = ''h'',
      sr_capability = ''dig'', sr_params_hash = ''p'', sr_params = [], sr_correlation_id = sid,
      sr_runtime_instance_id = ''rt'', sr_state = ''reserved'', sr_reservation = [],
      sr_before_observation_hash = ''o'', sr_receipt = None\<rparr>"

definition example_stepped :: journal_state where
  "example_stepped =
     fst (reserve_step (fst (reserve_step example_running (example_step ''s2'' 2))) (example_step ''s1'' 1))"

lemma example_stepped_reachable: "journal_reachable 2 example_stepped"
  unfolding example_stepped_def
  by (intro reach_step [OF _ step_reserve [OF surjective_pairing]] example_reachable(3))

lemma max_by_last:
  assumes "distinct (map f xs)"
  shows "max_by f xs = (if xs = [] then None else Some (last (sort_key f xs)))"
proof (cases "max_by f xs")
  case None
  then show ?thesis by simp
next
  case (Some x)
  then have x: "x \<in> set xs" "\<And>y. y \<in> set xs \<Longrightarrow> f y \<le> f x" by (auto dest: max_by_mem max_by_ge)
  then have ne: "sort_key f xs \<noteq> []" by (metis length_sort length_greater_0_conv length_pos_if_in_set)
  let ?l = "last (sort_key f xs)"
  have l: "?l \<in> set xs" using last_in_set [OF ne] by simp
  obtain ys where ys: "sort_key f xs = ys @ [?l]" using ne by (metis append_butlast_last_id)
  have "sorted (map f (ys @ [?l]))" using sorted_sort_key [of f xs] ys by simp
  then have "f y \<le> f ?l" if "y \<in> set (ys @ [?l])" for y
    using that by (auto simp: sorted_append)
  moreover have "set (ys @ [?l]) = set xs" using ys by (metis set_sort)
  ultimately have "f x = f ?l" using x l by (metis order_antisym)
  then have "x = ?l" using assms x(1) l by (auto simp: distinct_map dest: inj_onD)
  with Some x(1) show ?thesis by auto
qed

lemma steps_distinct_ordinals:
  assumes "steps_ok d"
  shows "distinct (map sr_ordinal (filter (\<lambda>e. sr_command_id e = cid) (dict_values d)))"
proof -
  have "distinct (dict_keys d)" using assms by (simp add: steps_ok_def)
  moreover have "\<forall>(k, e)\<in>set d. \<forall>(k', e')\<in>set d. k \<noteq> k' \<longrightarrow> exclusive e e'"
    using assms by (auto simp: steps_ok_def)
  ultimately show ?thesis
  proof (induction d)
    case (Cons p d)
    then have "distinct (map sr_ordinal (filter (\<lambda>e. sr_command_id e = cid) (dict_values d)))"
      by (auto simp: case_prod_beta)
    moreover have "sr_ordinal e \<noteq> sr_ordinal (snd p)"
      if e: "e \<in> set (dict_values d)" "sr_command_id e = cid" "sr_command_id (snd p) = cid" for e
    proof -
      obtain k where k: "(k, e) \<in> set d" using e(1) by auto
      then have "k \<noteq> fst p" using Cons.prems(1) by (auto intro: rev_image_eqI)
      then have "exclusive e (snd p)" using Cons.prems(2) k by (cases p) auto
      then show ?thesis using e by (simp add: exclusive_def)
    qed
    ultimately show ?case by fastforce
  qed simp
qed

text \<open>
  Steps are exclusive.  In every reachable journal two reserved steps never share a command
  and ordinal nor a runtime instance and correlation; the steps listed for a command are all its
  steps in strictly increasing ordinal order, and the latest step is the last of them.
\<close>

lemma reserved_steps_exclusive:
  assumes "journal_reachable n s"
  shows "(\<forall>sid sid' e e'. get_step s sid = Some e \<and> get_step s sid' = Some e' \<and> sid \<noteq> sid' \<longrightarrow>
       (sr_command_id e, sr_ordinal e) \<noteq> (sr_command_id e', sr_ordinal e') \<and>
       (sr_runtime_instance_id e, sr_correlation_id e) \<noteq> (sr_runtime_instance_id e', sr_correlation_id e')) \<and>
    sorted_wrt (<) (map sr_ordinal (list_steps s cid)) \<and>
    (\<forall>e. e \<in> set (list_steps s cid) \<longleftrightarrow> get_step s (sr_step_id e) = Some e \<and> sr_command_id e = cid) \<and>
    latest_step s cid = (if list_steps s cid = [] then None else Some (last (list_steps s cid)))"
proof -
  have ok: "steps_ok (js_steps s)" using assms by (rule journal_reachable_steps_ok)
  let ?es = "filter (\<lambda>e. sr_command_id e = cid) (dict_values (js_steps s))"
  have d: "distinct (map sr_ordinal ?es)" using ok by (rule steps_distinct_ordinals)
  have "distinct (map sr_ordinal (sort_key sr_ordinal ?es))"
    using d by (simp only: distinct_map distinct_sort set_sort)
  then have "sorted_wrt (<) (map sr_ordinal (list_steps s cid))"
    by (simp add: list_steps_def strict_sorted_iff del: map_map)
  moreover have "list_steps s cid = [] \<longleftrightarrow> ?es = []"
    by (simp add: list_steps_def flip: length_0_conv)
  then have "latest_step s cid = (if list_steps s cid = [] then None else Some (last (list_steps s cid)))"
    using max_by_last [OF d] by (simp add: latest_step_def list_steps_def)
  moreover have "e \<in> set (list_steps s cid) \<longleftrightarrow> get_step s (sr_step_id e) = Some e \<and> sr_command_id e = cid" for e
    using get_step_value [OF ok, of e] by (auto simp: list_steps_def)
  ultimately show ?thesis
    using ok by (simp add: steps_ok_def get_step_def exclusive_def)
qed

text \<open>
  Facts are counted per command.  Every command of a reachable journal owns exactly the four
  fact lists; recording a fact of one of these kinds succeeds, adds one to that list of that
  command and changes no other list and no other command's facts; any other kind raises and
  changes nothing.
\<close>

lemma append_fact_counts:
  assumes reach: "journal_reachable n s" and get: "get_command s cid = Some c"
  shows "\<exists>f. command_facts s cid = Inr f \<and> dict_keys f = fact_kinds \<and>
    (kind \<in> set fact_kinds \<longrightarrow>
       (\<exists>s' f'. append_fact s cid kind p = (s', Inr ()) \<and> command_facts s' cid = Inr f' \<and>
          (\<forall>k. dict_get f' k = (if k = kind then map_option Suc (dict_get f k) else dict_get f k)) \<and>
          (\<forall>cid'. cid' \<noteq> cid \<longrightarrow> command_facts s' cid' = command_facts s cid'))) \<and>
    (kind \<notin> set fact_kinds \<longrightarrow> append_fact s cid kind p = (s, Inl JKeyError))"
proof -
  have ok: "facts_ok s" using reach by (rule journal_reachable_facts_ok)
  have cid: "cid \<in> set (dict_keys (js_commands s))"
    using get by (simp add: get_command_def dict_get_Some_keys del: set_map)
  obtain f xs where f: "dict_get (js_facts s) cid = Some f" "dict_keys f = fact_kinds"
    using append_fact_known [OF ok cid, of "''receipts''"] by auto
  let ?n = "\<lambda>f. map (\<lambda>(k, xs). (k, length xs)) f"
  have n: "dict_get (?n g) k = map_option length (dict_get g k)" for g :: "(string, json_obj list) dict" and k
    by (induction g) auto
  have facts: "command_facts s cid = Inr (?n f)" using f by (simp add: command_facts_def)
  have keys: "dict_keys (?n f) = fact_kinds" using f(2) by (simp add: case_prod_beta comp_def)
  have hit: "\<exists>s' f'. append_fact s cid kind p = (s', Inr ()) \<and> command_facts s' cid = Inr f' \<and>
      (\<forall>k. dict_get f' k = (if k = kind then map_option Suc (dict_get (?n f) k) else dict_get (?n f) k)) \<and>
      (\<forall>cid'. cid' \<noteq> cid \<longrightarrow> command_facts s' cid' = command_facts s cid')" if kind: "kind \<in> set fact_kinds"
  proof -
    obtain xs where xs: "dict_get f kind = Some xs"
      using kind f(2) dict_get_None_keys [of f kind] by (cases "dict_get f kind") (auto simp del: set_map)
    let ?f = "dict_set kind (xs @ [p]) f"
    let ?s = "bump_projection (s\<lparr>js_facts := dict_set cid ?f (js_facts s)\<rparr>)"
    have "append_fact s cid kind p = (?s, Inr ())" using f(1) xs by (simp add: append_fact_def)
    moreover have "command_facts ?s cid = Inr (?n ?f)"
      by (simp add: command_facts_def bump_projection_def dict_get_set)
    moreover have "dict_get (?n ?f) k = (if k = kind then map_option Suc (dict_get (?n f) k) else dict_get (?n f) k)" for k
      using xs by (simp add: n dict_get_set)
    moreover have "command_facts ?s cid' = command_facts s cid'" if "cid' \<noteq> cid" for cid'
      using that by (simp add: command_facts_def bump_projection_def dict_get_set)
    ultimately show ?thesis by (intro exI conjI allI impI)
  qed
  have miss: "append_fact s cid kind p = (s, Inl JKeyError)" if "kind \<notin> set fact_kinds"
  proof -
    have "dict_get f kind = None" using that unfolding dict_get_None_keys f(2) .
    then show ?thesis using f(1) by (simp add: append_fact_def)
  qed
  show ?thesis by (intro exI [of _ "?n f"] conjI impI facts keys hit miss)
qed

text \<open>
  C8. The records of a running command.  In every reachable journal two reserved steps never share a
  command and ordinal nor a runtime instance and correlation; the steps listed for a command are all
  its steps in strictly increasing ordinal order, and the latest step is the last of them.  Every
  command owns exactly the four fact lists: recording a fact of one of these kinds succeeds, adds one
  to that list of that command and changes no other list and no other command's facts; any other
  kind raises and changes nothing.
\<close>

theorem steps_and_facts_recorded:
  assumes "journal_reachable n s" and "get_command s cid = Some c"
  shows "((\<forall>sid sid' e e'. get_step s sid = Some e \<and> get_step s sid' = Some e' \<and> sid \<noteq> sid' \<longrightarrow>
       (sr_command_id e, sr_ordinal e) \<noteq> (sr_command_id e', sr_ordinal e') \<and>
       (sr_runtime_instance_id e, sr_correlation_id e) \<noteq> (sr_runtime_instance_id e', sr_correlation_id e')) \<and>
    sorted_wrt (<) (map sr_ordinal (list_steps s cid)) \<and>
    (\<forall>e. e \<in> set (list_steps s cid) \<longleftrightarrow> get_step s (sr_step_id e) = Some e \<and> sr_command_id e = cid) \<and>
    latest_step s cid = (if list_steps s cid = [] then None else Some (last (list_steps s cid)))) \<and>
    (\<exists>f. command_facts s cid = Inr f \<and> dict_keys f = fact_kinds \<and>
    (kind \<in> set fact_kinds \<longrightarrow>
       (\<exists>s' f'. append_fact s cid kind p = (s', Inr ()) \<and> command_facts s' cid = Inr f' \<and>
          (\<forall>k. dict_get f' k = (if k = kind then map_option Suc (dict_get f k) else dict_get f k)) \<and>
          (\<forall>cid'. cid' \<noteq> cid \<longrightarrow> command_facts s' cid' = command_facts s cid'))) \<and>
    (kind \<notin> set fact_kinds \<longrightarrow> append_fact s cid kind p = (s, Inl JKeyError)))"
  by (intro conjI [OF reserved_steps_exclusive [OF assms(1)] append_fact_counts [OF assms]])

theorem steps_and_facts_recorded_witness:
  "list_steps example_stepped ''a'' = [example_step ''s1'' 1, example_step ''s2'' 2] \<and>
   latest_step example_stepped ''a'' = Some (example_step ''s2'' 2) \<and>
   append_fact example_stepped ''a'' ''notes'' [] = (example_stepped, Inl JKeyError)"
proof -
  have steps: "list_steps example_stepped ''a'' = [example_step ''s1'' 1, example_step ''s2'' 2]" by code_simp
  obtain c where c: "get_command example_stepped ''a'' = Some c"
    by (cases "get_command example_stepped ''a''") (simp_all, code_simp)
  have unknown: "''notes'' \<notin> set fact_kinds" by simp
  note recorded = steps_and_facts_recorded [OF example_stepped_reachable c, of "''notes''" "[]"]
  have "append_fact example_stepped ''a'' ''notes'' [] = (example_stepped, Inl JKeyError)"
    using recorded by (elim conjE exE) (simp only: not_False_eq_True simp_thms unknown)
  moreover have "latest_step example_stepped ''a'' = Some (example_step ''s2'' 2)"
    using recorded unfolding steps by (elim conjE) simp
  ultimately show ?thesis by (simp only: steps)
qed

text \<open>
  Request identities resolve.  In a reachable journal looking up a caller scope and request
  identity never raises: it finds the one command that was accepted under it, and nothing
  exactly when no command carries it.
\<close>

lemma find_by_request_exact:
  assumes "journal_reachable n s"
  shows "\<exists>r. find_by_request s scope rid = Inr r \<and>
    (r = None \<longleftrightarrow> (\<nexists>cid c. get_command s cid = Some c \<and> cd_caller_scope c = scope \<and> cd_request_id c = rid)) \<and>
    (\<forall>c. r = Some c \<longrightarrow> cd_caller_scope c = scope \<and> cd_request_id c = rid \<and>
       (\<forall>cid c'. get_command s cid = Some c' \<and> cd_caller_scope c' = scope \<and> cd_request_id c' = rid \<longrightarrow> c' = c))"
proof -
  have inv: "requests_inv s" using core_invD(2) [OF journal_reachable_core_inv [OF assms]] .
  have owner: "dict_get (js_requests s) (scope, rid) = Some (cd_request_hash c, cid)"
    if "get_command s cid = Some c" "cd_caller_scope c = scope" "cd_request_id c = rid" for cid c
    using that inv by (auto simp: requests_inv_def request_key_def get_command_def)
  show ?thesis
  proof (cases "dict_get (js_requests s) (scope, rid)")
    case None
    then have "find_by_request s scope rid = Inr None" by (simp add: find_by_request_def)
    then show ?thesis using owner None by (intro exI [of _ None]) auto
  next
    case (Some q)
    obtain h cid where q: "q = (h, cid)" by force
    obtain c where c: "dict_get (js_commands s) cid = Some c" "request_key c = (scope, rid)"
      using requests_inv_owner [OF inv] Some q by blast
    have "find_by_request s scope rid = Inr (Some c)" using Some q c by (simp add: find_by_request_def)
    moreover have "c' = c" if "get_command s cid' = Some c'" "cd_caller_scope c' = scope" "cd_request_id c' = rid" for cid' c'
      using owner [OF that] Some q c that(1) by (simp add: get_command_def)
    moreover have "get_command s cid = Some c" "cd_caller_scope c = scope" "cd_request_id c = rid"
      using c by (simp_all add: request_key_def get_command_def)
    ultimately show ?thesis by (intro exI [of _ "Some c"] conjI allI impI) (blast | simp)+
  qed
qed

lemma find_by_request_exact_example:
  "find_by_request example_running ''owner'' ''r-z'' = Inr None \<and>
   (\<nexists>cid c. get_command example_running cid = Some c \<and> cd_caller_scope c = ''owner'' \<and> cd_request_id c = ''r-z'')"
proof -
  have "find_by_request example_running ''owner'' ''r-z'' = Inr None" by code_simp
  then show ?thesis using find_by_request_exact [OF example_reachable(3), of "''owner''" "''r-z''"] by auto
qed

end
