(* ===== verification/Budget.thy ===== *)
theory Budget
  imports Py_Text
begin

text \<open>
  Command budgets, \<open>tools/minecraft/voyager/budget.py\<close>: execution budgets, usages, the clamping
  of a requested budget to the static maximum of a mode, and the account that charges, reserves
  and settles usages against its limit.  Constructing a model whose field constraint fails
  raises, so \<open>remaining\<close> is fallible.  The resource amounts carry no constraint in the code.
\<close>

section \<open>Models\<close>

datatype budget_error =
    BudgetExceededError string
  | BudgetContractViolationError
  | BudgetValueError string
  | BudgetKeyError

record requested_budget =
  rb_queue_timeout_ms :: "int option"
  rb_execution_timeout_ms :: "int option"
  rb_max_actions :: "int option"
  rb_max_strategy_attempts :: "int option"
  rb_max_travel_distance :: "rat option"
  rb_max_blocks_changed :: "int option"
  rb_max_damage_taken :: "rat option"
  rb_protected_items :: "string set option"
  rb_resource_consumption :: "(string, int) dict option"

record execution_budget =
  eb_queue_timeout_ms :: int
  eb_execution_timeout_ms :: int
  eb_max_actions :: int
  eb_max_strategy_attempts :: int
  eb_max_travel_distance :: rat
  eb_max_blocks_changed :: int
  eb_max_damage_taken :: rat
  eb_protected_items :: "string set"
  eb_resource_consumption :: "(string, int) dict"

record mode_budget_policy =
  mp_learn :: execution_budget
  mp_live :: execution_budget
  mp_fallback :: execution_budget
  mp_atomic :: execution_budget
  mp_mission :: "execution_budget option"

record budget_usage =
  bu_max_actions :: int
  bu_max_strategy_attempts :: int
  bu_max_travel_distance :: rat
  bu_max_blocks_changed :: int
  bu_max_damage_taken :: rat
  bu_resource_consumption :: "(string, int) dict"

record budget_account =
  ba_limit :: execution_budget
  ba_used :: budget_usage
  ba_reservations :: "(string, budget_usage) dict"

definition execution_budget_valid :: "execution_budget \<Rightarrow> bool" where
  "execution_budget_valid b \<longleftrightarrow>
     0 < eb_queue_timeout_ms b \<and> 0 < eb_execution_timeout_ms b \<and> 0 \<le> eb_max_actions b \<and>
     0 \<le> eb_max_strategy_attempts b \<and> 0 \<le> eb_max_travel_distance b \<and>
     0 \<le> eb_max_blocks_changed b \<and> 0 \<le> eb_max_damage_taken b"

definition opt_all :: "('a \<Rightarrow> bool) \<Rightarrow> 'a option \<Rightarrow> bool" where
  "opt_all P x = (case x of None \<Rightarrow> True | Some v \<Rightarrow> P v)"

definition requested_budget_valid :: "requested_budget \<Rightarrow> bool" where
  "requested_budget_valid r \<longleftrightarrow>
     opt_all ((<) 0) (rb_queue_timeout_ms r) \<and> opt_all ((<) 0) (rb_execution_timeout_ms r) \<and>
     opt_all ((\<le>) 0) (rb_max_actions r) \<and> opt_all ((\<le>) 0) (rb_max_strategy_attempts r) \<and>
     opt_all ((\<le>) 0) (rb_max_travel_distance r) \<and> opt_all ((\<le>) 0) (rb_max_blocks_changed r) \<and>
     opt_all ((\<le>) 0) (rb_max_damage_taken r)"

definition budget_usage_valid :: "budget_usage \<Rightarrow> bool" where
  "budget_usage_valid u \<longleftrightarrow>
     0 \<le> bu_max_actions u \<and> 0 \<le> bu_max_strategy_attempts u \<and> 0 \<le> bu_max_travel_distance u \<and>
     0 \<le> bu_max_blocks_changed u \<and> 0 \<le> bu_max_damage_taken u"

definition maximum_for :: "mode_budget_policy \<Rightarrow> string \<Rightarrow> budget_error + execution_budget" where
  "maximum_for p mode =
     (if mode = ''learn'' then Inr (mp_learn p)
      else if mode = ''live'' then Inr (mp_live p)
      else if mode = ''fallback'' then Inr (mp_fallback p)
      else if mode = ''atomic'' then Inr (mp_atomic p)
      else Inl BudgetKeyError)"

section \<open>Usages\<close>

definition empty_usage :: budget_usage where
  "empty_usage =
     \<lparr>bu_max_actions = 0, bu_max_strategy_attempts = 0, bu_max_travel_distance = 0,
      bu_max_blocks_changed = 0, bu_max_damage_taken = 0, bu_resource_consumption = []\<rparr>"

definition bounded_work :: "budget_usage \<Rightarrow> execution_budget \<Rightarrow> budget_usage" where
  "bounded_work u remaining =
     u\<lparr>bu_max_travel_distance := min (bu_max_travel_distance u) (eb_max_travel_distance remaining),
       bu_max_blocks_changed := min (bu_max_blocks_changed u) (eb_max_blocks_changed remaining)\<rparr>"

definition merge_resources :: "(string, int) dict \<Rightarrow> (string, int) dict \<Rightarrow> (string, int) dict" where
  "merge_resources a b = foldl (\<lambda>r (name, amount). dict_add name amount r) a b"

definition usage_plus :: "budget_usage \<Rightarrow> budget_usage \<Rightarrow> budget_usage" where
  "usage_plus a b =
     \<lparr>bu_max_actions = bu_max_actions a + bu_max_actions b,
      bu_max_strategy_attempts = bu_max_strategy_attempts a + bu_max_strategy_attempts b,
      bu_max_travel_distance = bu_max_travel_distance a + bu_max_travel_distance b,
      bu_max_blocks_changed = bu_max_blocks_changed a + bu_max_blocks_changed b,
      bu_max_damage_taken = bu_max_damage_taken a + bu_max_damage_taken b,
      bu_resource_consumption = merge_resources (bu_resource_consumption a) (bu_resource_consumption b)\<rparr>"

section \<open>Clamping a request\<close>

definition clamp :: "'a::linorder option \<Rightarrow> 'a \<Rightarrow> 'a" where
  "clamp wanted allowed = (case wanted of None \<Rightarrow> allowed | Some w \<Rightarrow> min w allowed)"

definition empty_request :: requested_budget where
  "empty_request =
     \<lparr>rb_queue_timeout_ms = None, rb_execution_timeout_ms = None, rb_max_actions = None,
      rb_max_strategy_attempts = None, rb_max_travel_distance = None, rb_max_blocks_changed = None,
      rb_max_damage_taken = None, rb_protected_items = None, rb_resource_consumption = None\<rparr>"

definition effective_budget :: "requested_budget option \<Rightarrow> execution_budget \<Rightarrow> execution_budget" where
  "effective_budget requested maximum =
     (let r = (case requested of None \<Rightarrow> empty_request | Some r \<Rightarrow> r);
          wanted = (case rb_resource_consumption r of None \<Rightarrow> [] | Some d \<Rightarrow> d)
      in \<lparr>eb_queue_timeout_ms = clamp (rb_queue_timeout_ms r) (eb_queue_timeout_ms maximum),
          eb_execution_timeout_ms = clamp (rb_execution_timeout_ms r) (eb_execution_timeout_ms maximum),
          eb_max_actions = clamp (rb_max_actions r) (eb_max_actions maximum),
          eb_max_strategy_attempts = clamp (rb_max_strategy_attempts r) (eb_max_strategy_attempts maximum),
          eb_max_travel_distance = clamp (rb_max_travel_distance r) (eb_max_travel_distance maximum),
          eb_max_blocks_changed = clamp (rb_max_blocks_changed r) (eb_max_blocks_changed maximum),
          eb_max_damage_taken = clamp (rb_max_damage_taken r) (eb_max_damage_taken maximum),
          eb_protected_items =
            eb_protected_items maximum \<union> (case rb_protected_items r of None \<Rightarrow> {} | Some i \<Rightarrow> i),
          eb_resource_consumption =
            map (\<lambda>(name, limit). (name, min (dict_get_default wanted name limit) limit))
              (eb_resource_consumption maximum)\<rparr>)"

section \<open>The account\<close>

definition new_account :: "execution_budget \<Rightarrow> budget_account" where
  "new_account limit = \<lparr>ba_limit = limit, ba_used = empty_usage, ba_reservations = []\<rparr>"

definition reserved :: "budget_account \<Rightarrow> budget_usage" where
  "reserved a = foldl usage_plus empty_usage (dict_values (ba_reservations a))"

text \<open>The fields of the budget that \<open>remaining\<close> builds; building it validates them.\<close>

definition remaining_fields :: "budget_account \<Rightarrow> execution_budget" where
  "remaining_fields a =
     (let limit = ba_limit a; charged = usage_plus (ba_used a) (reserved a)
      in \<lparr>eb_queue_timeout_ms = eb_queue_timeout_ms limit,
          eb_execution_timeout_ms = eb_execution_timeout_ms limit,
          eb_max_actions = eb_max_actions limit - bu_max_actions charged,
          eb_max_strategy_attempts = eb_max_strategy_attempts limit - bu_max_strategy_attempts charged,
          eb_max_travel_distance = eb_max_travel_distance limit - bu_max_travel_distance charged,
          eb_max_blocks_changed = eb_max_blocks_changed limit - bu_max_blocks_changed charged,
          eb_max_damage_taken = eb_max_damage_taken limit - bu_max_damage_taken charged,
          eb_protected_items = eb_protected_items limit,
          eb_resource_consumption =
            map (\<lambda>(name, l). (name, l - dict_get_default (bu_resource_consumption charged) name 0))
              (eb_resource_consumption limit)\<rparr>)"

definition remaining :: "budget_account \<Rightarrow> budget_error + execution_budget" where
  "remaining a =
     (if execution_budget_valid (remaining_fields a) then Inr (remaining_fields a)
      else Inl (BudgetValueError ''validation''))"

fun resources_fit :: "(string, int) dict \<Rightarrow> (string, int) dict \<Rightarrow> budget_error + unit" where
  "resources_fit [] available = Inr ()"
| "resources_fit ((name, amount) # rest) available =
     (if dict_get_default available name 0 < amount then Inl (BudgetExceededError name)
      else resources_fit rest available)"

definition ensure_fits :: "budget_usage \<Rightarrow> execution_budget \<Rightarrow> budget_error + unit" where
  "ensure_fits u available =
     (if eb_max_actions available < bu_max_actions u \<or>
         eb_max_strategy_attempts available < bu_max_strategy_attempts u \<or>
         eb_max_travel_distance available < bu_max_travel_distance u \<or>
         eb_max_blocks_changed available < bu_max_blocks_changed u \<or>
         eb_max_damage_taken available < bu_max_damage_taken u
      then Inl (BudgetExceededError ''BUDGET_EXHAUSTED'')
      else resources_fit (bu_resource_consumption u) (eb_resource_consumption available))"

definition charge :: "budget_account \<Rightarrow> budget_usage \<Rightarrow> budget_error + budget_account" where
  "charge a u =
     (case remaining a of
        Inl e \<Rightarrow> Inl e
      | Inr available \<Rightarrow>
          (case ensure_fits u available of
             Inl e \<Rightarrow> Inl e
           | Inr _ \<Rightarrow> Inr (a\<lparr>ba_used := usage_plus (ba_used a) u\<rparr>)))"

definition reserve :: "budget_account \<Rightarrow> string \<Rightarrow> budget_usage \<Rightarrow> budget_error + budget_account" where
  "reserve a rid maximum =
     (if dict_get (ba_reservations a) rid \<noteq> None then Inl (BudgetValueError ''duplicate reservation'')
      else
        (case remaining a of
           Inl e \<Rightarrow> Inl e
         | Inr available \<Rightarrow>
             (case ensure_fits maximum available of
                Inl e \<Rightarrow> Inl e
              | Inr _ \<Rightarrow> Inr (a\<lparr>ba_reservations := dict_set rid maximum (ba_reservations a)\<rparr>))))"

definition reservation_budget :: "budget_account \<Rightarrow> budget_usage \<Rightarrow> execution_budget" where
  "reservation_budget a u =
     \<lparr>eb_queue_timeout_ms = eb_queue_timeout_ms (ba_limit a),
      eb_execution_timeout_ms = eb_execution_timeout_ms (ba_limit a),
      eb_max_actions = bu_max_actions u,
      eb_max_strategy_attempts = bu_max_strategy_attempts u,
      eb_max_travel_distance = bu_max_travel_distance u,
      eb_max_blocks_changed = bu_max_blocks_changed u,
      eb_max_damage_taken = bu_max_damage_taken u,
      eb_protected_items = eb_protected_items (ba_limit a),
      eb_resource_consumption = bu_resource_consumption u\<rparr>"

definition settle :: "budget_account \<Rightarrow> string \<Rightarrow> budget_usage \<Rightarrow> budget_error + budget_account" where
  "settle a rid actual =
     (case dict_get (ba_reservations a) rid of
        None \<Rightarrow> Inl BudgetKeyError
      | Some u \<Rightarrow>
          if \<not> execution_budget_valid (reservation_budget a u) then Inl (BudgetValueError ''validation'')
          else
            (case ensure_fits actual (reservation_budget a u) of
               Inl _ \<Rightarrow> Inl BudgetContractViolationError
             | Inr _ \<Rightarrow>
                 Inr (a\<lparr>ba_used := usage_plus (ba_used a) actual,
                        ba_reservations := dict_del rid (ba_reservations a)\<rparr>)))"

end
