(* ===== verification/Goal_Models.thy ===== *)
theory Goal_Models
  imports Py_Text
begin

text \<open>
  The typed goals of \<open>tools/minecraft/voyager/goal_models.py\<close> with the constraints that their
  fields declare.  The eight goal classes differ in their intent and, for discovery, in one more
  field; they are one record.
\<close>

datatype goal_intent = Acquire | Craft | Build | Travel | Combat | Survive | Learn | Discover

datatype fact_kind = KItem | KEntity | KBiome | KStructure | KRecipe | KAdvancement

datatype success_predicate =
    InventoryAtLeast string int
  | LocationReached rat rat rat rat
  | HealthAtLeast rat
  | FoodAtLeast int
  | SurvivedDuration int
  | EntityDefeated string int
  | BlocksPlaced string int
  | WorldFactObserved fact_kind string
  | WorldFactAcquired fact_kind string
  | StructureMatchesBlueprint string string
  | VanillaAdvancementObserved string

record goal_spec =
  gs_intent :: goal_intent
  gs_target :: string
  gs_quantity :: int
  gs_constraints :: json_obj
  gs_success_predicates :: "success_predicate list"
  gs_discovery_kind :: "fact_kind option"

definition slug_char :: "char \<Rightarrow> bool" where
  "slug_char c \<longleftrightarrow> is_lower c \<or> is_digit c \<or> c = CHR ''-''"

text \<open>The pattern \<open>^[a-z0-9][a-z0-9-]{0,n}$\<close>.\<close>

definition slug :: "nat \<Rightarrow> string \<Rightarrow> bool" where
  "slug n s \<longleftrightarrow>
     (case s of [] \<Rightarrow> False | c # cs \<Rightarrow> (is_lower c \<or> is_digit c) \<and> length cs \<le> n \<and> list_all slug_char cs)"

text \<open>The pattern \<open>^[a-z0-9_:.\-]+$\<close> of item names.\<close>

definition item_name :: "string \<Rightarrow> bool" where
  "item_name s \<longleftrightarrow> s \<noteq> [] \<and> list_all (\<lambda>c. slug_char c \<or> c \<in> {CHR ''_'', CHR '':'', CHR ''.''}) s"

definition sha_hex :: "string \<Rightarrow> bool" where
  "sha_hex s \<longleftrightarrow> length s = 64 \<and> list_all (\<lambda>c. is_digit c \<or> (97 \<le> code c \<and> code c \<le> 102)) s"

fun success_predicate_valid :: "success_predicate \<Rightarrow> bool" where
  "success_predicate_valid (InventoryAtLeast item q) = (item_name item \<and> 0 < q)"
| "success_predicate_valid (LocationReached x y z tolerance) = (0 < tolerance)"
| "success_predicate_valid (HealthAtLeast h) = (0 \<le> h \<and> h \<le> 20)"
| "success_predicate_valid (FoodAtLeast f) = (0 \<le> f \<and> f \<le> 20)"
| "success_predicate_valid (SurvivedDuration d) = (0 < d)"
| "success_predicate_valid (EntityDefeated e q) = (1 \<le> length e \<and> length e \<le> 128 \<and> 0 < q)"
| "success_predicate_valid (BlocksPlaced b q) = (1 \<le> length b \<and> length b \<le> 128 \<and> 0 < q)"
| "success_predicate_valid (WorldFactObserved k key) = (1 \<le> length key \<and> length key \<le> 256)"
| "success_predicate_valid (WorldFactAcquired k key) = (1 \<le> length key \<and> length key \<le> 256)"
| "success_predicate_valid (StructureMatchesBlueprint bid hash) = (slug 127 bid \<and> sha_hex hash)"
| "success_predicate_valid (VanillaAdvancementObserved a) = (1 \<le> length a \<and> length a \<le> 256)"

definition goal_spec_valid :: "goal_spec \<Rightarrow> bool" where
  "goal_spec_valid g \<longleftrightarrow>
     1 \<le> length (gs_target g) \<and> length (gs_target g) \<le> 256 \<and>
     0 < gs_quantity g \<and> gs_quantity g \<le> 4096 \<and>
     gs_success_predicates g \<noteq> [] \<and> list_all success_predicate_valid (gs_success_predicates g) \<and>
     (gs_discovery_kind g \<noteq> None \<longleftrightarrow> gs_intent g = Discover)"

end
