(* ===== verification/Mission_Models.thy ===== *)
theory Mission_Models
  imports Budget Goal_Models
begin

text \<open>
  The mission contracts of \<open>tools/minecraft/mission/models.py\<close>: the autonomy policy, the mission
  with its objectives, and the validator of the mission that rejects cyclic dependencies and
  children that exceed the parent's budget.  A validator returns the error it raises.  The
  validation of a skill candidate (\<open>skill/candidate.py\<close>) is a parameter.
\<close>

section \<open>Autonomy\<close>

datatype mission_error =
    PolicyError string
  | CandidateError
  | QuotaError
  | DuplicateObjective
  | UnknownDependency
  | DependencyCycle
  | MissionKeyError
  | OutOfFuel
  | ChildBudgetsExceed
  | StageError string
  | AdmissionKeyError
  | AdmissionValueError

datatype autonomy_mode = Off | Bounded

datatype mission_domain = DGameplay | DDiscovery | DSkill | DTechnology | DRecovery

datatype mission_risk = ReadOnly | SurvivalSafe | Destructive

datatype stop_condition =
  MissionComplete | NoveltyExhausted | BudgetExhausted | UserStop | UnknownWorldState

record autonomy_policy =
  au_mode :: autonomy_mode
  au_allowed_domains :: "mission_domain set"
  au_max_child_goals :: int
  au_max_new_skills :: int
  au_max_duration_ms :: int
  au_max_travel_distance :: rat
  au_max_damage_taken :: rat
  au_max_blocks_changed :: int
  au_max_budget_rebalances :: int
  au_max_risk :: mission_risk
  au_stop_conditions :: "stop_condition set"

definition autonomy_fields_ok :: "autonomy_policy \<Rightarrow> bool" where
  "autonomy_fields_ok a \<longleftrightarrow>
     DGameplay \<notin> au_allowed_domains a \<and>
     0 \<le> au_max_child_goals a \<and> au_max_child_goals a \<le> 64 \<and>
     0 \<le> au_max_new_skills a \<and> au_max_new_skills a \<le> 16 \<and>
     0 \<le> au_max_duration_ms a \<and> au_max_duration_ms a \<le> 3600000 \<and>
     0 \<le> au_max_travel_distance a \<and> au_max_travel_distance a \<le> 10000 \<and>
     0 \<le> au_max_damage_taken a \<and> au_max_damage_taken a \<le> 20 \<and>
     0 \<le> au_max_blocks_changed a \<and> au_max_blocks_changed a \<le> 4096 \<and>
     0 \<le> au_max_budget_rebalances a \<and> au_max_budget_rebalances a \<le> 2"

definition autonomy_check :: "autonomy_policy \<Rightarrow> mission_error + unit" where
  "autonomy_check a =
     (if au_mode a = Bounded \<and>
         (au_allowed_domains a = {} \<or> au_max_child_goals a = 0 \<or> au_max_duration_ms a = 0 \<or>
          au_stop_conditions a = {})
      then Inl (PolicyError ''bounded autonomy requires finite authority and stop conditions'')
      else if au_mode a = Off \<and>
         (au_allowed_domains a \<noteq> {} \<or> au_max_child_goals a \<noteq> 0 \<or> au_max_new_skills a \<noteq> 0 \<or>
          au_max_duration_ms a \<noteq> 0 \<or> au_max_travel_distance a \<noteq> 0 \<or> au_max_damage_taken a \<noteq> 0 \<or>
          au_max_blocks_changed a \<noteq> 0 \<or> au_max_budget_rebalances a \<noteq> 0 \<or> au_stop_conditions a \<noteq> {})
      then Inl (PolicyError ''autonomy off cannot retain autonomous authority'')
      else Inr ())"

record execution_policy =
  xp_reuse_trusted_skill :: bool
  xp_allow_skill_learning :: bool
  xp_allow_deterministic_fallback :: bool
  xp_stop_on_action_failure :: bool

section \<open>Missions\<close>

record mission_objective =
  ob_objective_id :: string
  ob_goal :: goal_spec
  ob_dependencies :: "string list"
  ob_required :: bool
  ob_priority :: int
  ob_budget :: budget_usage

datatype completion_predicate =
    NovelFactsAcquiredAtLeast int
  | TrustedSkillsCreatedAtLeast int
  | VanillaAdvancementsAddedAtLeast int

record mission_spec =
  ms_mission_id :: string
  ms_objectives :: "mission_objective list"
  ms_allowed_domains :: "mission_domain set"
  ms_completion_predicates :: "completion_predicate list"
  ms_budget :: execution_budget
  ms_autonomy :: autonomy_policy
  ms_execution :: execution_policy

fun completion_count :: "completion_predicate \<Rightarrow> int" where
  "completion_count (NovelFactsAcquiredAtLeast n) = n"
| "completion_count (TrustedSkillsCreatedAtLeast n) = n"
| "completion_count (VanillaAdvancementsAddedAtLeast n) = n"

definition objective_fields_ok :: "mission_objective \<Rightarrow> bool" where
  "objective_fields_ok ob \<longleftrightarrow>
     slug 63 (ob_objective_id ob) \<and> goal_spec_valid (ob_goal ob) \<and> distinct (ob_dependencies ob) \<and>
     0 \<le> ob_priority ob \<and> ob_priority ob \<le> 100 \<and> budget_usage_valid (ob_budget ob)"

definition mission_fields_ok :: "mission_spec \<Rightarrow> bool" where
  "mission_fields_ok m \<longleftrightarrow>
     slug 127 (ms_mission_id m) \<and> 1 \<le> length (ms_objectives m) \<and> length (ms_objectives m) \<le> 128 \<and>
     list_all objective_fields_ok (ms_objectives m) \<and>
     list_all (\<lambda>p. 0 < completion_count p) (ms_completion_predicates m) \<and>
     execution_budget_valid (ms_budget m) \<and> autonomy_fields_ok (ms_autonomy m) \<and>
     autonomy_check (ms_autonomy m) = Inr ()"

definition usage_sum :: "budget_usage list \<Rightarrow> budget_usage" where
  "usage_sum us = foldl usage_plus empty_usage us"

definition usage_fits_parent :: "budget_usage \<Rightarrow> execution_budget \<Rightarrow> bool" where
  "usage_fits_parent u parent =
     (if eb_max_actions parent < bu_max_actions u \<or>
         eb_max_strategy_attempts parent < bu_max_strategy_attempts u \<or>
         eb_max_travel_distance parent < bu_max_travel_distance u \<or>
         eb_max_blocks_changed parent < bu_max_blocks_changed u \<or>
         eb_max_damage_taken parent < bu_max_damage_taken u
      then False
      else list_all (\<lambda>(name, amount). amount \<le> dict_get_default (eb_resource_consumption parent) name 0)
             (bu_resource_consumption u))"

text \<open>
  \<open>visit\<close>, applied to the identifiers of a list in turn.  \<open>visiting\<close> is the path to the node in
  work and \<open>visited\<close> the finished nodes.  The fuel bounds the depth of the recursion; as many
  levels as there are objectives, and one more, are enough.
\<close>

fun visit_all ::
  "nat \<Rightarrow> (string, mission_objective) dict \<Rightarrow> string list \<Rightarrow> string list \<Rightarrow> string list \<Rightarrow>
   mission_error + string list" where
  "visit_all fuel by_id visiting visited [] = Inr visited"
| "visit_all fuel by_id visiting visited (i # is) =
     (if i \<in> set visiting then Inl DependencyCycle
      else if i \<in> set visited then visit_all fuel by_id visiting visited is
      else
        (case dict_get by_id i of
           None \<Rightarrow> Inl MissionKeyError
         | Some ob \<Rightarrow>
             (case fuel of
                0 \<Rightarrow> Inl OutOfFuel
              | Suc n \<Rightarrow>
                  (case visit_all n by_id (i # visiting) visited (ob_dependencies ob) of
                     Inl e \<Rightarrow> Inl e
                   | Inr visited' \<Rightarrow> visit_all fuel by_id visiting (i # visited') is))))"

definition objectives_by_id :: "mission_objective list \<Rightarrow> (string, mission_objective) dict" where
  "objectives_by_id obs = foldl (\<lambda>d ob. dict_set (ob_objective_id ob) ob d) [] obs"

fun dependencies_known :: "string list \<Rightarrow> mission_objective list \<Rightarrow> mission_error + unit" where
  "dependencies_known ids [] = Inr ()"
| "dependencies_known ids (ob # obs) =
     (if filter (\<lambda>d. d \<notin> set ids) (ob_dependencies ob) \<noteq> [] then Inl UnknownDependency
      else if ob_objective_id ob \<in> set (ob_dependencies ob) then Inl DependencyCycle
      else dependencies_known ids obs)"

definition skill_candidates :: "mission_objective list \<Rightarrow> json list" where
  "skill_candidates obs =
     concat (map (\<lambda>ob. case dict_get (gs_constraints (ob_goal ob)) ''skill_candidate'' of
                          None \<Rightarrow> [] | Some c \<Rightarrow> [c]) obs)"

definition mission_check :: "(json \<Rightarrow> bool) \<Rightarrow> mission_spec \<Rightarrow> mission_error + unit" where
  "mission_check candidate_valid m =
     (let obs = ms_objectives m; candidates = skill_candidates obs; by_id = objectives_by_id obs in
      if \<not> list_all candidate_valid candidates then Inl CandidateError
      else if candidates \<noteq> [] \<and>
         (\<not> xp_allow_skill_learning (ms_execution m) \<or> au_mode (ms_autonomy m) \<noteq> Bounded \<or>
          au_max_new_skills (ms_autonomy m) < int (length candidates)) then Inl QuotaError
      else if length by_id \<noteq> length obs then Inl DuplicateObjective
      else
        (case dependencies_known (dict_keys by_id) obs of
           Inl e \<Rightarrow> Inl e
         | Inr _ \<Rightarrow>
             (case visit_all (Suc (length obs)) by_id [] [] (dict_keys by_id) of
                Inl e \<Rightarrow> Inl e
              | Inr _ \<Rightarrow>
                  if \<not> usage_fits_parent (usage_sum (map ob_budget obs)) (ms_budget m)
                  then Inl ChildBudgetsExceed else Inr ())))"

section \<open>Proposals and decisions\<close>

datatype proposal_origin = FromUser | FromScenario | FromCurriculum | FromRecovery

datatype rationale =
    UserRequest | ScenarioRequirement | MissionGap | DiscoveryGap | SkillGap | TechnologyFrontier
  | RecoveryPrerequisite | UnvisitedFrontier

record goal_proposal =
  gp_proposal_id :: string
  gp_mission_id :: string
  gp_origin :: proposal_origin
  gp_parent_objective_id :: "string option"
  gp_goal :: goal_spec
  gp_rationale :: rationale
  gp_evidence_refs :: "string list"
  gp_conservative_cost :: budget_usage
  gp_expected_value :: rat

datatype admission_outcome = Accepted | Rejected | Deferred

datatype admission_reason =
    Admitted | InvalidSchema | SourceForbidden | DomainForbidden | DependencyUnsatisfied
  | DuplicateProposal | ManifestCapabilityMissing | RiskForbidden | RuntimeQuarantined
  | AdmissionBudgetExhausted | ChildGoalLimitReached

record admission_decision =
  de_proposal_id :: string
  de_outcome :: admission_outcome
  de_reason :: admission_reason
  de_reserved_budget :: "budget_usage option"

definition admission_decision_ok :: "admission_decision \<Rightarrow> bool" where
  "admission_decision_ok d \<longleftrightarrow> (de_outcome d = Accepted) = (de_reserved_budget d \<noteq> None)"

end
