(* ===== verification/Budget_Account.thy ===== *)
theory Budget_Account
  imports Budget
begin

text \<open>
  What a budget account guarantees.  Every dimension of a budget (the five scalar ones and each
  resource) obeys the same contract, stated once as a locale and interpreted for each of them;
  the account's theorems follow for all dimensions.
\<close>

section \<open>Well-formed usages and accounts\<close>

definition usage_ok :: "budget_usage \<Rightarrow> bool" where
  "usage_ok u \<longleftrightarrow>
     budget_usage_valid u \<and> distinct (dict_keys (bu_resource_consumption u)) \<and>
     (\<forall>n. 0 \<le> dict_get_default (bu_resource_consumption u) n 0)"

definition limit_ok :: "execution_budget \<Rightarrow> bool" where
  "limit_ok b \<longleftrightarrow>
     execution_budget_valid b \<and> distinct (dict_keys (eb_resource_consumption b)) \<and>
     (\<forall>n. 0 \<le> dict_get_default (eb_resource_consumption b) n 0)"

definition account_ok :: "budget_account \<Rightarrow> bool" where
  "account_ok a \<longleftrightarrow>
     limit_ok (ba_limit a) \<and> usage_ok (ba_used a) \<and> distinct (dict_keys (ba_reservations a)) \<and>
     (\<forall>u\<in>set (dict_values (ba_reservations a)). usage_ok u)"

definition resource :: "string \<Rightarrow> budget_usage \<Rightarrow> int" where
  "resource n u = dict_get_default (bu_resource_consumption u) n 0"

definition resource_limit :: "string \<Rightarrow> execution_budget \<Rightarrow> int" where
  "resource_limit n b = dict_get_default (eb_resource_consumption b) n 0"

lemma dict_get_default_Nil [simp]: "dict_get_default [] n v = v"
  by (simp add: dict_get_default_def)

lemma merge_resources_get:
  "distinct (dict_keys b) \<Longrightarrow>
   dict_get_default (merge_resources a b) n 0 = dict_get_default a n 0 + dict_get_default b n 0"
proof (induction b arbitrary: a)
  case (Cons p b)
  obtain m k where p: "p = (m, k)" by force
  have "dict_get_default b m 0 = 0"
    using Cons.prems p dict_get_None_keys [of b m] by (auto simp: dict_get_default_def)
  moreover have "dict_get_default (p # b) n 0 = (if n = m then k else dict_get_default b n 0)"
    by (simp add: p dict_get_default_def)
  ultimately show ?case
    using Cons p by (simp add: merge_resources_def)
qed (simp add: merge_resources_def dict_get_default_def)

lemma merge_resources_keys: "distinct (dict_keys a) \<Longrightarrow> distinct (dict_keys (merge_resources a b))"
  unfolding merge_resources_def
  by (induction b arbitrary: a) (simp_all add: case_prod_beta)

lemma usage_ok_empty: "usage_ok empty_usage"
  by (simp add: usage_ok_def empty_usage_def budget_usage_valid_def dict_get_default_def)

lemma usage_ok_plus: "usage_ok a \<Longrightarrow> usage_ok b \<Longrightarrow> usage_ok (usage_plus a b)"
  by (simp add: usage_ok_def usage_plus_def budget_usage_valid_def merge_resources_get merge_resources_keys)

lemma resources_fit_get:
  "resources_fit d available = Inr () \<Longrightarrow> distinct (dict_keys d) \<Longrightarrow> dict_get d n = Some k \<Longrightarrow>
   k \<le> dict_get_default available n 0"
  by (induction d available rule: resources_fit.induct) (auto split: if_splits)

lemma resources_fit_iff:
  "distinct (dict_keys d) \<Longrightarrow>
   resources_fit d available = Inr () \<longleftrightarrow> (\<forall>n k. dict_get d n = Some k \<longrightarrow> k \<le> dict_get_default available n 0)"
proof (induction d available rule: resources_fit.induct)
  case (2 name amount rest available)
  then have "name \<notin> fst ` set rest" by simp
  then have "dict_get rest name = None" using dict_get_None_keys [of rest name] by simp
  then have "(\<forall>n k. dict_get ((name, amount) # rest) n = Some k \<longrightarrow> k \<le> dict_get_default available n 0) \<longleftrightarrow>
      amount \<le> dict_get_default available name 0 \<and>
      (\<forall>n k. dict_get rest n = Some k \<longrightarrow> k \<le> dict_get_default available n 0)"
    by (metis fun_upd_apply map_of.simps(2) fst_conv snd_conv option.distinct(1) option.inject)
  then show ?case using 2 unfolding resources_fit.simps by simp
qed simp

lemma account_ok_new: "limit_ok b \<Longrightarrow> account_ok (new_account b)"
  by (simp add: account_ok_def new_account_def usage_ok_empty)

lemma account_ok_charge: "charge a u = Inr a' \<Longrightarrow> account_ok a \<Longrightarrow> usage_ok u \<Longrightarrow> account_ok a'"
  by (auto simp: charge_def account_ok_def usage_ok_plus split: sum.splits)

lemma account_ok_reserve:
  assumes "reserve a rid u = Inr a'" and "account_ok a" and "usage_ok u"
  shows "account_ok a'"
proof -
  have a': "a' = a\<lparr>ba_reservations := dict_set rid u (ba_reservations a)\<rparr>"
    and new: "rid \<notin> set (dict_keys (ba_reservations a))"
    using assms(1) unfolding dict_get_None_keys [symmetric]
    by (auto simp: reserve_def split: if_splits sum.splits)
  then show ?thesis
    using assms(2,3) by (auto simp: account_ok_def dict_set_absent)
qed

lemma account_ok_settle:
  assumes "settle a rid u = Inr a'" and "account_ok a" and "usage_ok u"
  shows "account_ok a'"
proof -
  have a': "a' = a\<lparr>ba_used := usage_plus (ba_used a) u, ba_reservations := dict_del rid (ba_reservations a)\<rparr>"
    using assms(1) by (auto simp: settle_def split: option.splits if_splits sum.splits)
  have "set (dict_del rid (ba_reservations a)) \<subseteq> set (ba_reservations a)"
    by (simp add: AList.delete_eq)
  then show ?thesis
    using assms(2,3) a' by (auto simp: account_ok_def usage_ok_plus distinct_keys_del)
qed

section \<open>One dimension\<close>

locale dimension =
  fixes amount :: "budget_usage \<Rightarrow> rat"
    and bound :: "execution_budget \<Rightarrow> rat"
  assumes amount_empty: "amount empty_usage = 0"
    and amount_plus: "usage_ok v \<Longrightarrow> amount (usage_plus u v) = amount u + amount v"
    and amount_nonneg: "usage_ok u \<Longrightarrow> 0 \<le> amount u"
    and bound_limit: "limit_ok b \<Longrightarrow> 0 \<le> bound b"
    and bound_fits: "\<lbrakk>usage_ok u; 0 \<le> bound b; ensure_fits u b = Inr ()\<rbrakk> \<Longrightarrow> amount u \<le> bound b"
    and bound_remaining: "amount (usage_plus (ba_used a) (reserved a)) \<le> bound (ba_limit a) \<Longrightarrow>
      0 \<le> bound (remaining_fields a) \<and>
      bound (remaining_fields a) \<le> bound (ba_limit a) - amount (usage_plus (ba_used a) (reserved a))"
    and bound_reservation: "bound (reservation_budget a u) = amount u"
begin

lemma amount_fold:
  "\<forall>u\<in>set us. usage_ok u \<Longrightarrow> amount (foldl usage_plus v us) = amount v + sum_list (map amount us)"
  by (induction us arbitrary: v) (simp_all add: amount_plus)

lemma amount_reserved:
  "account_ok a \<Longrightarrow> amount (reserved a) = sum_list (map amount (dict_values (ba_reservations a)))"
  by (simp add: reserved_def amount_fold account_ok_def amount_empty)

lemma usage_ok_fold: "\<forall>u\<in>set us. usage_ok u \<Longrightarrow> usage_ok v \<Longrightarrow> usage_ok (foldl usage_plus v us)"
  by (induction us arbitrary: v) (simp_all add: usage_ok_plus)

lemma charged:
  "account_ok a \<Longrightarrow> amount (usage_plus (ba_used a) (reserved a)) =
     amount (ba_used a) + sum_list (map amount (dict_values (ba_reservations a)))"
proof -
  assume a: "account_ok a"
  then have "usage_ok (reserved a)"
    using usage_ok_fold [of "dict_values (ba_reservations a)" empty_usage]
    by (simp add: reserved_def account_ok_def usage_ok_empty)
  then show ?thesis by (simp only: amount_plus amount_reserved [OF a])
qed

definition solvent :: "budget_account \<Rightarrow> bool" where
  "solvent a \<longleftrightarrow>
     amount (ba_used a) + sum_list (map amount (dict_values (ba_reservations a))) \<le> bound (ba_limit a)"

lemma solvent_fits:
  assumes "account_ok a" and "solvent a" and "usage_ok u" and "ensure_fits u (remaining_fields a) = Inr ()"
  shows "amount (ba_used a) + sum_list (map amount (dict_values (ba_reservations a))) + amount u \<le> bound (ba_limit a)"
proof -
  have "0 \<le> bound (remaining_fields a) \<and>
      bound (remaining_fields a) \<le> bound (ba_limit a) - amount (usage_plus (ba_used a) (reserved a))"
    using assms(2) by (intro bound_remaining) (simp add: charged [OF assms(1)] solvent_def)
  moreover from this have "amount u \<le> bound (remaining_fields a)" using assms(3,4) by (intro bound_fits) simp_all
  ultimately show ?thesis by (simp add: charged [OF assms(1)])
qed

lemma solvent_new: "limit_ok b \<Longrightarrow> solvent (new_account b)"
  by (simp add: solvent_def new_account_def amount_empty bound_limit)

lemma solvent_charge:
  assumes "charge a u = Inr a'" and "account_ok a" and "usage_ok u" and "solvent a"
  shows "solvent a'"
proof -
  have "a' = a\<lparr>ba_used := usage_plus (ba_used a) u\<rparr>" "ensure_fits u (remaining_fields a) = Inr ()"
    using assms(1) by (auto simp: charge_def remaining_def split: sum.splits if_splits)
  then show ?thesis using solvent_fits [OF assms(2,4,3)] assms(3) by (simp add: solvent_def amount_plus)
qed

lemma solvent_reserve:
  assumes "reserve a rid u = Inr a'" and "account_ok a" and "usage_ok u" and "solvent a"
  shows "solvent a'"
proof -
  have a': "a' = a\<lparr>ba_reservations := dict_set rid u (ba_reservations a)\<rparr>"
    "rid \<notin> set (dict_keys (ba_reservations a))" "ensure_fits u (remaining_fields a) = Inr ()"
    using assms(1) unfolding dict_get_None_keys [symmetric]
    by (auto simp: reserve_def remaining_def split: if_splits sum.splits)
  then show ?thesis using solvent_fits [OF assms(2,4,3)] by (simp add: solvent_def dict_set_absent)
qed

lemma sum_del:
  "distinct (dict_keys d) \<Longrightarrow> dict_get d k = Some v \<Longrightarrow>
   sum_list (map amount (dict_values d)) = amount v + sum_list (map amount (dict_values (dict_del k d)))"
proof (induction d)
  case (Cons p d)
  then show ?case
  proof (cases "fst p = k")
    case True
    then have "k \<notin> fst ` set d" using Cons.prems(1) by auto
    then have "dict_del k d = d" by (simp add: delete_id)
    with True Cons.prems(2) show ?thesis by (cases p) simp
  qed (cases p, simp)
qed simp

lemma settle_amounts:
  assumes "settle a rid u = Inr a'" and "account_ok a" and "usage_ok u" and "dict_get (ba_reservations a) rid = Some v"
  shows "amount u \<le> amount v"
    and "amount (ba_used a') = amount (ba_used a) + amount u"
    and "sum_list (map amount (dict_values (ba_reservations a))) =
      sum_list (map amount (dict_values (ba_reservations a'))) + amount v"
    and "ba_limit a' = ba_limit a"
proof -
  have a': "a' = a\<lparr>ba_used := usage_plus (ba_used a) u, ba_reservations := dict_del rid (ba_reservations a)\<rparr>"
    "ensure_fits u (reservation_budget a v) = Inr ()"
    using assms(1,4) by (auto simp: settle_def split: if_splits sum.splits)
  have "v \<in> set (dict_values (ba_reservations a))" using map_of_SomeD [OF assms(4)] by force
  then have "usage_ok v" using assms(2) by (auto simp: account_ok_def)
  then show "amount u \<le> amount v"
    using bound_fits [OF assms(3) _ a'(2)] by (simp add: bound_reservation amount_nonneg)
  show "amount (ba_used a') = amount (ba_used a) + amount u" "ba_limit a' = ba_limit a"
    using a' assms(3) by (simp_all add: amount_plus)
  show "sum_list (map amount (dict_values (ba_reservations a))) =
      sum_list (map amount (dict_values (ba_reservations a'))) + amount v"
    using a' sum_del [OF _ assms(4)] assms(2) by (simp add: account_ok_def)
qed

lemma solvent_settle:
  assumes "settle a rid u = Inr a'" and "account_ok a" and "usage_ok u" and "solvent a"
  shows "solvent a'"
proof -
  obtain v where "dict_get (ba_reservations a) rid = Some v"
    using assms(1) by (auto simp: settle_def split: option.splits)
  with settle_amounts [OF assms(1-3)] assms(4) show ?thesis by (simp add: solvent_def)
qed

end

section \<open>The dimensions of a budget\<close>

lemma ensure_fits_scalars:
  "ensure_fits u b = Inr () \<longleftrightarrow>
     bu_max_actions u \<le> eb_max_actions b \<and> bu_max_strategy_attempts u \<le> eb_max_strategy_attempts b \<and>
     bu_max_travel_distance u \<le> eb_max_travel_distance b \<and> bu_max_blocks_changed u \<le> eb_max_blocks_changed b \<and>
     bu_max_damage_taken u \<le> eb_max_damage_taken b \<and>
     resources_fit (bu_resource_consumption u) (eb_resource_consumption b) = Inr ()"
  by (auto simp: ensure_fits_def)

lemmas dimension_simps =
  empty_usage_def usage_plus_def usage_ok_def limit_ok_def budget_usage_valid_def
  execution_budget_valid_def remaining_fields_def reservation_budget_def ensure_fits_scalars Let_def

interpretation actions: dimension "\<lambda>u. of_int (bu_max_actions u)" "\<lambda>b. of_int (eb_max_actions b)"
  by unfold_locales (simp_all add: dimension_simps)

interpretation attempts: dimension "\<lambda>u. of_int (bu_max_strategy_attempts u)" "\<lambda>b. of_int (eb_max_strategy_attempts b)"
  by unfold_locales (simp_all add: dimension_simps)

interpretation travel: dimension bu_max_travel_distance eb_max_travel_distance
  by unfold_locales (simp_all add: dimension_simps)

interpretation blocks: dimension "\<lambda>u. of_int (bu_max_blocks_changed u)" "\<lambda>b. of_int (eb_max_blocks_changed b)"
  by unfold_locales (simp_all add: dimension_simps)

interpretation damage: dimension bu_max_damage_taken eb_max_damage_taken
  by unfold_locales (simp_all add: dimension_simps)

lemma mapped_get:
  "dict_get (map (\<lambda>(k, v). (k, f k v)) d) n = map_option (f n) (dict_get d n)"
  by (induction d) auto

interpretation resources: dimension "\<lambda>u. of_int (resource n u)" "\<lambda>b. of_int (resource_limit n b)" for n
proof unfold_locales
  fix u b assume u: "usage_ok u" and b: "0 \<le> (of_int (resource_limit n b) :: rat)" and f: "ensure_fits u b = Inr ()"
  show "(of_int (resource n u) :: rat) \<le> of_int (resource_limit n b)"
  proof (cases "dict_get (bu_resource_consumption u) n")
    case None
    then show ?thesis using b by (simp add: resource_def dict_get_default_def)
  next
    case (Some k)
    have "k \<le> dict_get_default (eb_resource_consumption b) n 0"
      using f u by (intro resources_fit_get [OF _ _ Some]) (simp_all add: ensure_fits_scalars usage_ok_def)
    then show ?thesis using Some by (simp add: resource_def resource_limit_def dict_get_default_def)
  qed
next
  fix a assume "(of_int (resource n (usage_plus (ba_used a) (reserved a))) :: rat) \<le> of_int (resource_limit n (ba_limit a))"
  then show "0 \<le> (of_int (resource_limit n (remaining_fields a)) :: rat) \<and>
      (of_int (resource_limit n (remaining_fields a)) :: rat) \<le>
        of_int (resource_limit n (ba_limit a)) - of_int (resource n (usage_plus (ba_used a) (reserved a)))"
    by (cases "dict_get (eb_resource_consumption (ba_limit a)) n")
      (simp_all add: remaining_fields_def resource_limit_def resource_def dict_get_default_def Let_def mapped_get)
qed (simp_all add: resource_def resource_limit_def merge_resources_get dimension_simps)

end
