(* ===== verification/Budget_Properties.thy ===== *)
theory Budget_Properties
  imports Budget_Account
begin

text \<open>
  The account as a transition system, and what it guarantees in every reachable state: nothing
  is spent or held beyond the limit, settling stays within the reservation, and a requested
  budget is clamped to the maximum.
\<close>

inductive account_reachable :: "execution_budget \<Rightarrow> budget_account \<Rightarrow> bool" for limit where
  acct_new: "account_reachable limit (new_account limit)"
| acct_charge: "\<lbrakk>account_reachable limit a; usage_ok u; charge a u = Inr a'\<rbrakk> \<Longrightarrow> account_reachable limit a'"
| acct_reserve: "\<lbrakk>account_reachable limit a; usage_ok u; reserve a rid u = Inr a'\<rbrakk> \<Longrightarrow> account_reachable limit a'"
| acct_settle: "\<lbrakk>account_reachable limit a; usage_ok u; settle a rid u = Inr a'\<rbrakk> \<Longrightarrow> account_reachable limit a'"

lemma account_limit_kept:
  "charge a u = Inr a' \<Longrightarrow> ba_limit a' = ba_limit a"
  "reserve a rid u = Inr a' \<Longrightarrow> ba_limit a' = ba_limit a"
  "settle a rid u = Inr a' \<Longrightarrow> ba_limit a' = ba_limit a"
  by (auto simp: charge_def reserve_def settle_def split: sum.splits if_splits option.splits)

lemmas solvent_news = actions.solvent_new attempts.solvent_new travel.solvent_new blocks.solvent_new
  damage.solvent_new resources.solvent_new

lemmas solvent_charges = actions.solvent_charge attempts.solvent_charge travel.solvent_charge
  blocks.solvent_charge damage.solvent_charge resources.solvent_charge

lemmas solvent_reserves = actions.solvent_reserve attempts.solvent_reserve travel.solvent_reserve
  blocks.solvent_reserve damage.solvent_reserve resources.solvent_reserve

lemmas solvent_settles = actions.solvent_settle attempts.solvent_settle travel.solvent_settle
  blocks.solvent_settle damage.solvent_settle resources.solvent_settle

lemmas solvent_charged =
  actions.charged actions.solvent_def attempts.charged attempts.solvent_def travel.charged travel.solvent_def
  blocks.charged blocks.solvent_def damage.charged damage.solvent_def resources.charged resources.solvent_def

definition all_solvent :: "budget_account \<Rightarrow> bool" where
  "all_solvent a \<longleftrightarrow>
     actions.solvent a \<and> attempts.solvent a \<and> travel.solvent a \<and> blocks.solvent a \<and> damage.solvent a \<and>
     (\<forall>n. resources.solvent n a)"

lemma account_reachable_ok:
  assumes "account_reachable b a" and "limit_ok b"
  shows "account_ok a \<and> ba_limit a = b \<and> all_solvent a"
  using assms(1)
proof (induction rule: account_reachable.induct)
  case acct_new
  have "ba_limit (new_account b) = b" by (simp add: new_account_def)
  then show ?case using assms(2) by (simp add: account_ok_new all_solvent_def solvent_news)
next
  case (acct_charge a u a')
  then show ?case
    using account_ok_charge [OF acct_charge.hyps(3)] account_limit_kept(1) [OF acct_charge.hyps(3)]
      solvent_charges [OF acct_charge.hyps(3)] by (simp add: all_solvent_def)
next
  case (acct_reserve a u rid a')
  then show ?case
    using account_ok_reserve [OF acct_reserve.hyps(3)] account_limit_kept(2) [OF acct_reserve.hyps(3)]
      solvent_reserves [OF acct_reserve.hyps(3)] by (simp add: all_solvent_def)
next
  case (acct_settle a u rid a')
  then show ?case
    using account_ok_settle [OF acct_settle.hyps(3)] account_limit_kept(3) [OF acct_settle.hyps(3)]
      solvent_settles [OF acct_settle.hyps(3)] by (simp add: all_solvent_def)
qed

definition within_budget :: "budget_usage \<Rightarrow> execution_budget \<Rightarrow> bool" where
  "within_budget u b \<longleftrightarrow>
     bu_max_actions u \<le> eb_max_actions b \<and> bu_max_strategy_attempts u \<le> eb_max_strategy_attempts b \<and>
     bu_max_travel_distance u \<le> eb_max_travel_distance b \<and> bu_max_blocks_changed u \<le> eb_max_blocks_changed b \<and>
     bu_max_damage_taken u \<le> eb_max_damage_taken b \<and> (\<forall>n. resource n u \<le> resource_limit n b)"

lemma ensure_fits_within:
  assumes "usage_ok u" and "\<forall>n. 0 \<le> resource_limit n b"
  shows "ensure_fits u b = Inr () \<longleftrightarrow> within_budget u b"
proof -
  have d: "distinct (dict_keys (bu_resource_consumption u))" using assms(1) by (simp add: usage_ok_def)
  have "(\<forall>n k. dict_get (bu_resource_consumption u) n = Some k \<longrightarrow> k \<le> dict_get_default (eb_resource_consumption b) n 0)
      \<longleftrightarrow> (\<forall>n. resource n u \<le> resource_limit n b)"
    using assms(2) by (auto simp: resource_def resource_limit_def dict_get_default_def split: option.splits)
  then show ?thesis by (simp only: ensure_fits_scalars within_budget_def resources_fit_iff [OF d])
qed

definition example_limit :: execution_budget where
  "example_limit =
     \<lparr>eb_queue_timeout_ms = 100, eb_execution_timeout_ms = 1000, eb_max_actions = 10,
      eb_max_strategy_attempts = 3, eb_max_travel_distance = 50, eb_max_blocks_changed = 5,
      eb_max_damage_taken = 2, eb_protected_items = {}, eb_resource_consumption = [(''iron'', 5)]\<rparr>"

definition example_usage :: "int \<Rightarrow> int \<Rightarrow> budget_usage" where
  "example_usage n iron =
     empty_usage\<lparr>bu_max_actions := n, bu_max_travel_distance := 7, bu_resource_consumption := [(''iron'', iron)]\<rparr>"

definition example_account :: budget_account where
  "example_account = new_account example_limit \<lparr>ba_reservations := [(''r'', example_usage 4 3)]\<rparr>"

lemma example_budget_ok: "limit_ok example_limit" "usage_ok (example_usage 4 3)" "usage_ok (example_usage 2 1)"
  "usage_ok (example_usage 9 9)"
  by (simp_all add: limit_ok_def usage_ok_def example_limit_def example_usage_def empty_usage_def
      execution_budget_valid_def budget_usage_valid_def dict_get_default_def)

lemma example_account_reachable: "account_reachable example_limit example_account"
proof -
  have "reserve (new_account example_limit) ''r'' (example_usage 4 3) = Inr example_account"
    by (simp add: reserve_def remaining_def remaining_fields_def new_account_def example_account_def
        example_limit_def example_usage_def empty_usage_def execution_budget_valid_def reserved_def
        usage_plus_def merge_resources_def ensure_fits_def dict_get_default_def)
  then show ?thesis by (rule acct_reserve [OF acct_new example_budget_ok(2)])
qed




text \<open>
  Settling.  Settling an existing reservation with a well-formed usage succeeds exactly when
  the usage is within what was reserved, in every dimension and for every resource, and is a
  contract violation otherwise; success releases the reservation, adds the usage to what is
  used, and never lowers what remains.
\<close>

lemma settle_within_reservation:
  assumes "limit_ok b" and "account_reachable b a" and get: "dict_get (ba_reservations a) rid = Some v"
    and u: "usage_ok u"
  shows "if within_budget u (reservation_budget a v)
     then \<exists>a'. settle a rid u = Inr a' \<and> ba_used a' = usage_plus (ba_used a) u \<and>
       dict_get (ba_reservations a') rid = None \<and>
       (\<forall>r. r \<noteq> rid \<longrightarrow> dict_get (ba_reservations a') r = dict_get (ba_reservations a) r) \<and>
       eb_max_actions (remaining_fields a') =
         eb_max_actions (remaining_fields a) + bu_max_actions v - bu_max_actions u \<and>
       eb_max_travel_distance (remaining_fields a') =
         eb_max_travel_distance (remaining_fields a) + bu_max_travel_distance v - bu_max_travel_distance u
     else settle a rid u = Inl BudgetContractViolationError"
proof -
  have ok: "account_ok a" using account_reachable_ok [OF assms(2,1)] by simp
  have v: "usage_ok v" using ok map_of_SomeD [OF get] by (force simp: account_ok_def)
  have valid: "execution_budget_valid (reservation_budget a v)"
    using v ok by (simp add: dimension_simps account_ok_def)
  have "\<forall>n. 0 \<le> resource_limit n (reservation_budget a v)"
    using v by (simp add: resource_limit_def reservation_budget_def usage_ok_def)
  note fits = ensure_fits_within [OF u this]
  show ?thesis
  proof (cases "within_budget u (reservation_budget a v)")
    case False
    then have "\<exists>e. ensure_fits u (reservation_budget a v) = Inl e"
      using fits by (cases "ensure_fits u (reservation_budget a v)") auto
    with False get valid show ?thesis by (auto simp: settle_def)
  next
    case True
    then have f: "ensure_fits u (reservation_budget a v) = Inr ()" using fits by simp
    let ?a = "a\<lparr>ba_used := usage_plus (ba_used a) u, ba_reservations := dict_del rid (ba_reservations a)\<rparr>"
    have s: "settle a rid u = Inr ?a" using get valid f by (simp add: settle_def)
    have ok': "account_ok ?a" using account_ok_settle [OF s ok u] .
    have act: "rat_of_int (bu_max_actions (usage_plus (ba_used ?a) (reserved ?a))) =
        rat_of_int (bu_max_actions (usage_plus (ba_used a) (reserved a)) + bu_max_actions u - bu_max_actions v)"
      unfolding of_int_add of_int_diff actions.charged [OF ok] actions.charged [OF ok']
      using actions.settle_amounts [OF s ok u get] by simp
    have tr: "bu_max_travel_distance (usage_plus (ba_used ?a) (reserved ?a)) =
        bu_max_travel_distance (usage_plus (ba_used a) (reserved a)) + bu_max_travel_distance u - bu_max_travel_distance v"
      unfolding travel.charged [OF ok] travel.charged [OF ok']
      using travel.settle_amounts [OF s ok u get] by simp
    show ?thesis
      unfolding if_P [OF True]
      by (intro exI [of _ ?a] conjI s)
        (use act tr in \<open>simp_all add: dict_get_del remaining_fields_def Let_def del: of_int_diff of_int_add\<close>)
  qed
qed

lemma settle_within_reservation_example:
  "(\<exists>a'. settle example_account ''r'' (example_usage 2 1) = Inr a') \<and>
   settle example_account ''r'' (example_usage 9 9) = Inl BudgetContractViolationError"
proof -
  have g: "dict_get (ba_reservations example_account) ''r'' = Some (example_usage 4 3)"
    by (simp add: example_account_def new_account_def)
  have w: "within_budget (example_usage 2 1) (reservation_budget example_account (example_usage 4 3))"
    "\<not> within_budget (example_usage 9 9) (reservation_budget example_account (example_usage 4 3))"
    by (simp_all add: within_budget_def reservation_budget_def example_usage_def empty_usage_def
        resource_def resource_limit_def dict_get_default_def)
  show ?thesis
    using settle_within_reservation [OF example_budget_ok(1) example_account_reachable g example_budget_ok(3)]
      settle_within_reservation [OF example_budget_ok(1) example_account_reachable g example_budget_ok(4)] w
    by auto
qed

lemma clamp_le: "clamp w m \<le> m" "w = Some v \<Longrightarrow> clamp w m \<le> v"
  by (auto simp: clamp_def split: option.splits)

lemma clamp_ge: "opt_all ((\<le>) l) w \<Longrightarrow> l \<le> m \<Longrightarrow> l \<le> clamp w m"
  by (auto simp: clamp_def opt_all_def split: option.splits)

lemma clamp_gt: "opt_all ((<) l) w \<Longrightarrow> l < m \<Longrightarrow> l < clamp w m"
  by (auto simp: clamp_def opt_all_def split: option.splits)

text \<open>
  Clamping.  For a valid request and a valid maximum the effective budget is a valid budget,
  no field or resource exceeds the maximum or what was requested, the protected items of both
  are protected, and any usage that fits the effective budget fits the maximum.  Work that is
  bounded by the effective budget fits it exactly when its other dimensions do.
\<close>

lemma effective_budget_clamps:
  assumes m: "execution_budget_valid m" "distinct (dict_keys (eb_resource_consumption m))"
    and r: "requested_budget_valid r"
  shows "execution_budget_valid (effective_budget (Some r) m) \<and>
    eb_protected_items m \<subseteq> eb_protected_items (effective_budget (Some r) m) \<and>
    (\<forall>items. rb_protected_items r = Some items \<longrightarrow> items \<subseteq> eb_protected_items (effective_budget (Some r) m)) \<and>
    (\<forall>n. rb_max_actions r = Some n \<longrightarrow> eb_max_actions (effective_budget (Some r) m) \<le> n) \<and>
    (\<forall>x. rb_max_damage_taken r = Some x \<longrightarrow> eb_max_damage_taken (effective_budget (Some r) m) \<le> x) \<and>
    dict_keys (eb_resource_consumption (effective_budget (Some r) m)) = dict_keys (eb_resource_consumption m) \<and>
    (\<forall>d n k. rb_resource_consumption r = Some d \<and> dict_get d n = Some k \<and> n \<in> set (dict_keys (eb_resource_consumption m)) \<longrightarrow>
       resource_limit n (effective_budget (Some r) m) \<le> k) \<and>
    (\<forall>u. ensure_fits u (effective_budget (Some r) m) = Inr () \<longrightarrow> usage_ok u \<longrightarrow> ensure_fits u m = Inr ()) \<and>
    effective_budget None m = effective_budget (Some empty_request) m \<and>
    (\<forall>u. let e = effective_budget (Some r) m in
       ensure_fits (bounded_work u e) e = Inr () \<longleftrightarrow>
         bu_max_actions u \<le> eb_max_actions e \<and> bu_max_strategy_attempts u \<le> eb_max_strategy_attempts e \<and>
         bu_max_damage_taken u \<le> eb_max_damage_taken e \<and>
         resources_fit (bu_resource_consumption u) (eb_resource_consumption e) = Inr ())"
proof -
  let ?e = "effective_budget (Some r) m"
  define wanted where "wanted = (case rb_resource_consumption r of None \<Rightarrow> [] | Some d \<Rightarrow> d)"
  have res: "eb_resource_consumption ?e =
      map (\<lambda>(n, l). (n, min (dict_get_default wanted n l) l)) (eb_resource_consumption m)"
    by (simp add: effective_budget_def Let_def wanted_def)
  have rl: "dict_get (eb_resource_consumption ?e) n =
      map_option (\<lambda>l. min (dict_get_default wanted n l) l) (dict_get (eb_resource_consumption m) n)" for n
    unfolding res by (rule mapped_get)
  have lim: "resource_limit n ?e \<le> resource_limit n m" for n
    by (cases "dict_get (eb_resource_consumption m) n") (simp_all add: resource_limit_def dict_get_default_def rl)
  have valid: "execution_budget_valid ?e"
    using m(1) r
    by (simp add: execution_budget_valid_def requested_budget_valid_def effective_budget_def Let_def
        clamp_ge clamp_gt)
  have fits: "ensure_fits u m = Inr ()" if "ensure_fits u ?e = Inr ()" "usage_ok u" for u
  proof -
    have d: "distinct (dict_keys (bu_resource_consumption u))" using that(2) by (simp add: usage_ok_def)
    have "eb_max_actions ?e \<le> eb_max_actions m" "eb_max_strategy_attempts ?e \<le> eb_max_strategy_attempts m"
      "eb_max_travel_distance ?e \<le> eb_max_travel_distance m" "eb_max_blocks_changed ?e \<le> eb_max_blocks_changed m"
      "eb_max_damage_taken ?e \<le> eb_max_damage_taken m"
      by (simp_all add: effective_budget_def Let_def clamp_le)
    moreover have "resources_fit (bu_resource_consumption u) (eb_resource_consumption m) = Inr ()"
      using that(1) lim unfolding ensure_fits_scalars resources_fit_iff [OF d] resource_limit_def
      by (meson order_trans)
    ultimately show ?thesis using that(1) by (simp add: ensure_fits_scalars)
  qed
  have "resource_limit n ?e \<le> k"
    if "rb_resource_consumption r = Some d" "dict_get d n = Some k" "n \<in> set (dict_keys (eb_resource_consumption m))" for d n k
    using that dict_get_None_keys [of "eb_resource_consumption m" n]
    by (cases "dict_get (eb_resource_consumption m) n")
      (auto simp: resource_limit_def dict_get_default_def rl wanted_def)
  moreover have "dict_keys (eb_resource_consumption ?e) = dict_keys (eb_resource_consumption m)"
    by (simp add: res case_prod_beta comp_def)
  moreover have "eb_protected_items ?e = eb_protected_items m \<union> (case rb_protected_items r of None \<Rightarrow> {} | Some i \<Rightarrow> i)"
    "eb_max_actions ?e = clamp (rb_max_actions r) (eb_max_actions m)"
    "eb_max_damage_taken ?e = clamp (rb_max_damage_taken r) (eb_max_damage_taken m)"
    by (simp_all add: effective_budget_def Let_def)
  moreover have "effective_budget None m = effective_budget (Some empty_request) m"
    by (simp add: effective_budget_def)
  moreover have "clamp (Some x) y \<le> x" for x y :: rat by (simp add: clamp_def)
  moreover have "clamp (Some x) y \<le> x" for x y :: int by (simp add: clamp_def)
  moreover have "ensure_fits (bounded_work u ?e) ?e = Inr () \<longleftrightarrow>
      bu_max_actions u \<le> eb_max_actions ?e \<and> bu_max_strategy_attempts u \<le> eb_max_strategy_attempts ?e \<and>
      bu_max_damage_taken u \<le> eb_max_damage_taken ?e \<and>
      resources_fit (bu_resource_consumption u) (eb_resource_consumption ?e) = Inr ()" for u
    by (simp add: ensure_fits_scalars bounded_work_def)
  ultimately show ?thesis using valid fits unfolding Let_def by (auto split: option.splits)
qed

lemma effective_budget_clamps_example:
  "eb_max_actions (effective_budget (Some (empty_request\<lparr>rb_max_actions := Some 4\<rparr>)) example_limit) \<le> 4 \<and>
   execution_budget_valid (effective_budget (Some (empty_request\<lparr>rb_max_actions := Some 4\<rparr>)) example_limit)"
proof -
  have "execution_budget_valid example_limit" "distinct (dict_keys (eb_resource_consumption example_limit))"
    using example_budget_ok(1) by (simp_all add: limit_ok_def)
  moreover have "requested_budget_valid (empty_request\<lparr>rb_max_actions := Some 4\<rparr>)"
    by (simp add: requested_budget_valid_def empty_request_def opt_all_def)
  ultimately show ?thesis
    using effective_budget_clamps [of example_limit "empty_request\<lparr>rb_max_actions := Some 4\<rparr>"] by simp
qed

text \<open>
  A negative reservation lends.  Resource amounts are not constrained to be non-negative:
  after reserving \<open>-k\<close> of a resource, a charge of the whole limit and \<open>k\<close> more is accepted, so
  what is used exceeds the limit by \<open>k\<close>.
\<close>

lemma negative_reservation_overdraws:
  assumes "execution_budget_valid b" and "eb_resource_consumption b = [(n, l)]" and "0 \<le> l" and "0 < k"
  shows "budget_usage_valid (empty_usage\<lparr>bu_resource_consumption := [(n, - k)]\<rparr>) \<and>
    (\<exists>a1 a2. reserve (new_account b) rid (empty_usage\<lparr>bu_resource_consumption := [(n, - k)]\<rparr>) = Inr a1 \<and>
       charge a1 (empty_usage\<lparr>bu_resource_consumption := [(n, l + k)]\<rparr>) = Inr a2 \<and>
       resource n (ba_used a2) = resource_limit n b + k)"
  using assms
  by (simp add: reserve_def charge_def remaining_def remaining_fields_def new_account_def
      empty_usage_def execution_budget_valid_def budget_usage_valid_def reserved_def usage_plus_def
      merge_resources_def ensure_fits_def dict_get_default_def dict_add_def resource_def resource_limit_def Let_def)

lemma negative_reservation_example:
  "\<exists>a1 a2. reserve (new_account example_limit) ''x'' (empty_usage\<lparr>bu_resource_consumption := [(''iron'', - 2)]\<rparr>) = Inr a1 \<and>
     charge a1 (empty_usage\<lparr>bu_resource_consumption := [(''iron'', 5 + 2)]\<rparr>) = Inr a2 \<and>
     resource ''iron'' (ba_used a2) = resource_limit ''iron'' example_limit + 2"
proof -
  have "execution_budget_valid example_limit" "eb_resource_consumption example_limit = [(''iron'', 5)]"
    by (simp_all add: example_limit_def execution_budget_valid_def)
  then show ?thesis using negative_reservation_overdraws [of example_limit "''iron''" 5 2 "''x''"] by simp
qed

end
