(* ===== verification/Mission_Dag.thy ===== *)
theory Mission_Dag
  imports Mission_Models Budget_Properties
begin

text \<open>
  The mission validator: the depth-first search accepts exactly the acyclic dependency relations,
  its fuel is enough, and the budget test is the one of the account, so the objectives of an
  accepted mission can all be reserved.
\<close>

section \<open>The search\<close>

definition depends :: "(string, mission_objective) dict \<Rightarrow> (string \<times> string) set" where
  "depends d = {(i, j). \<exists>ob. dict_get d i = Some ob \<and> j \<in> set (ob_dependencies ob)}"

inductive grounded :: "(string, mission_objective) dict \<Rightarrow> string \<Rightarrow> bool" for d where
  "(\<And>j. (i, j) \<in> depends d \<Longrightarrow> grounded d j) \<Longrightarrow> grounded d i"

inductive_cases groundedE: "grounded d i"

lemma grounded_acyclic: "grounded d i \<Longrightarrow> (i, i) \<notin> (depends d)\<^sup>+"
proof (induction rule: grounded.induct)
  case (1 i)
  show ?case
  proof
    assume "(i, i) \<in> (depends d)\<^sup>+"
    then obtain j where "(i, j) \<in> depends d" "(j, i) \<in> (depends d)\<^sup>*" by (meson tranclD)
    then have "(j, j) \<in> (depends d)\<^sup>+" by (meson rtrancl_into_trancl1)
    with 1 \<open>(i, j) \<in> depends d\<close> show False by blast
  qed
qed

lemma visit_all_grounded:
  "visit_all fuel d visiting visited is = Inr visited' \<Longrightarrow> \<forall>x\<in>set visited. grounded d x \<Longrightarrow>
   (\<forall>x\<in>set visited'. grounded d x) \<and> set visited \<subseteq> set visited' \<and> set is \<subseteq> set visited'"
proof (induction fuel d visiting visited "is" arbitrary: visited' rule: visit_all.induct)
  case (2 fuel d visiting visited i "is")
  consider (old) "i \<notin> set visiting" "i \<in> set visited" "visit_all fuel d visiting visited is = Inr visited'"
    | (new) ob n v where "i \<notin> set visiting" "i \<notin> set visited" "dict_get d i = Some ob" "fuel = Suc n"
        "visit_all n d (i # visiting) visited (ob_dependencies ob) = Inr v"
        "visit_all fuel d visiting (i # v) is = Inr visited'"
    using "2.prems"(1) by (auto split: if_splits option.splits nat.splits sum.splits)
  then show ?case
  proof cases
    case old
    then show ?thesis using "2.IH"(1) [OF old(1-3) "2.prems"(2)] by auto
  next
    case new
    have v: "\<forall>x\<in>set v. grounded d x" "set visited \<subseteq> set v" "set (ob_dependencies ob) \<subseteq> set v"
      using "2.IH"(2) [OF new(1-5) "2.prems"(2)] by blast+
    have "grounded d i"
    proof (rule grounded.intros)
      fix j assume "(i, j) \<in> depends d"
      then have "j \<in> set (ob_dependencies ob)" using new(3) by (simp add: depends_def)
      then show "grounded d j" using v by blast
    qed
    then have "\<forall>x\<in>set (i # v). grounded d x" using v(1) by simp
    from "2.IH"(3) [OF new(1-6) this] show ?thesis using v(2) by (simp add: subset_iff)
  qed
qed simp

definition closed :: "string set \<Rightarrow> (string, mission_objective) dict \<Rightarrow> bool" where
  "closed ids d \<longleftrightarrow>
     finite ids \<and> (\<forall>i\<in>ids. \<exists>ob. dict_get d i = Some ob \<and> set (ob_dependencies ob) \<subseteq> ids)"

lemma closed_get: "closed ids d \<Longrightarrow> i \<in> ids \<Longrightarrow> \<exists>ob. dict_get d i = Some ob \<and> set (ob_dependencies ob) \<subseteq> ids"
  by (simp add: closed_def)

lemma path_room:
  assumes "closed ids d" and "distinct visiting" and "set visiting \<subseteq> ids" and "i \<in> ids" and "i \<notin> set visiting"
  shows "length visiting < card ids"
proof -
  have "set visiting \<subset> ids" using assms(3-5) by blast
  then have "card (set visiting) < card ids" using assms(1) by (simp add: closed_def psubset_card_mono)
  then show ?thesis using distinct_card [OF assms(2)] by simp
qed

lemma visit_all_total:
  "\<lbrakk>closed ids d; set is \<subseteq> ids; distinct visiting; set visiting \<subseteq> ids; card ids \<le> fuel + length visiting\<rbrakk> \<Longrightarrow>
   visit_all fuel d visiting visited is = Inl DependencyCycle \<or>
   (\<exists>v. visit_all fuel d visiting visited is = Inr v)"
proof (induction fuel d visiting visited "is" rule: visit_all.induct)
  case (2 fuel d visiting visited i "is")
  show ?case
  proof (cases "i \<in> set visiting \<or> i \<in> set visited")
    case True
    then show ?thesis using "2.IH"(1) "2.prems" by auto
  next
    case False
    obtain ob where ob: "dict_get d i = Some ob" "set (ob_dependencies ob) \<subseteq> ids"
      using closed_get [OF "2.prems"(1), of i] "2.prems"(2) by auto
    have "length visiting < card ids"
      using path_room [OF "2.prems"(1,3,4)] False "2.prems"(2) by auto
    then obtain n where n: "fuel = Suc n" using "2.prems"(5) by (cases fuel) auto
    have sub: "visit_all n d (i # visiting) visited (ob_dependencies ob) = Inl DependencyCycle \<or>
        (\<exists>v. visit_all n d (i # visiting) visited (ob_dependencies ob) = Inr v)"
      using False "2.prems" ob(2) by (intro "2.IH"(2) [OF _ _ ob(1) n]) (auto simp: n)
    show ?thesis
    proof (cases "visit_all n d (i # visiting) visited (ob_dependencies ob)")
      case (Inl e)
      with sub False ob(1) n show ?thesis by simp
    next
      case (Inr v)
      have "visit_all fuel d visiting (i # v) is = Inl DependencyCycle \<or>
          (\<exists>w. visit_all fuel d visiting (i # v) is = Inr w)"
        using False "2.prems" by (intro "2.IH"(3) [OF _ _ ob(1) n Inr]) auto
      with Inr False ob(1) n show ?thesis by simp
    qed
  qed
qed simp

lemma visit_all_no_cycle:
  "\<lbrakk>acyclic (depends d); \<forall>v\<in>set visiting. \<forall>i\<in>set is. (v, i) \<in> (depends d)\<^sup>+\<rbrakk> \<Longrightarrow>
   visit_all fuel d visiting visited is \<noteq> Inl DependencyCycle"
proof (induction fuel d visiting visited "is" rule: visit_all.induct)
  case (2 fuel d visiting visited i "is")
  have "i \<notin> set visiting" using "2.prems" by (auto simp: acyclic_def)
  show ?case
  proof (cases "i \<in> set visited")
    case True
    then show ?thesis using "2.IH"(1) "2.prems" \<open>i \<notin> set visiting\<close> by auto
  next
    case False
    show ?thesis
    proof (cases "dict_get d i")
      case None
      with False \<open>i \<notin> set visiting\<close> show ?thesis by simp
    next
      case (Some ob)
      show ?thesis
      proof (cases fuel)
        case 0
        with False Some \<open>i \<notin> set visiting\<close> show ?thesis by simp
      next
        case (Suc n)
        have "(v, j) \<in> (depends d)\<^sup>+" if "v \<in> set (i # visiting)" "j \<in> set (ob_dependencies ob)" for v j
        proof -
          have "(i, j) \<in> depends d" using Some that(2) by (auto simp: depends_def)
          moreover have "v = i \<or> (v, i) \<in> (depends d)\<^sup>+" using that(1) "2.prems"(2) by auto
          ultimately show ?thesis by (meson r_into_trancl trancl_into_trancl)
        qed
        then have sub: "visit_all n d (i # visiting) visited (ob_dependencies ob) \<noteq> Inl DependencyCycle"
          using "2.IH"(2) [OF \<open>i \<notin> set visiting\<close> False Some Suc "2.prems"(1)] by blast
        show ?thesis
        proof (cases "visit_all n d (i # visiting) visited (ob_dependencies ob)")
          case (Inl e)
          with sub Suc Some False \<open>i \<notin> set visiting\<close> show ?thesis by simp
        next
          case (Inr v)
          have "visit_all fuel d visiting (i # v) is \<noteq> Inl DependencyCycle"
            using "2.IH"(3) [OF \<open>i \<notin> set visiting\<close> False Some Suc Inr "2.prems"(1)] "2.prems"(2) by auto
          with Inr Suc Some False \<open>i \<notin> set visiting\<close> show ?thesis by simp
        qed
      qed
    qed
  qed
qed simp

lemma visit_all_iff:
  assumes "closed (set (dict_keys d)) d" and "length (dict_keys d) \<le> fuel"
  shows "if acyclic (depends d) then \<exists>v. visit_all fuel d [] [] (dict_keys d) = Inr v
    else visit_all fuel d [] [] (dict_keys d) = Inl DependencyCycle"
proof -
  have "card (set (dict_keys d)) \<le> fuel" using card_length [of "dict_keys d"] assms(2) by linarith
  then have total: "visit_all fuel d [] [] (dict_keys d) = Inl DependencyCycle \<or>
      (\<exists>v. visit_all fuel d [] [] (dict_keys d) = Inr v)"
    using visit_all_total [OF assms(1), of "dict_keys d" "[]" fuel "[]"] by simp
  have "acyclic (depends d)" if "visit_all fuel d [] [] (dict_keys d) = Inr v" for v
  proof -
    have g: "grounded d i" if "i \<in> set (dict_keys d)" for i
      using visit_all_grounded [OF \<open>visit_all fuel d [] [] (dict_keys d) = Inr v\<close>] that by auto
    have "(i, i) \<notin> (depends d)\<^sup>+" for i
    proof
      assume c: "(i, i) \<in> (depends d)\<^sup>+"
      then obtain j where "(i, j) \<in> depends d" by (meson tranclD)
      then have "i \<in> set (dict_keys d)" by (auto simp: depends_def dict_get_Some_keys simp del: set_map)
      with c g grounded_acyclic show False by blast
    qed
    then show ?thesis by (simp add: acyclic_def)
  qed
  moreover have "acyclic (depends d) \<Longrightarrow> visit_all fuel d [] [] (dict_keys d) \<noteq> Inl DependencyCycle"
    by (rule visit_all_no_cycle) simp_all
  ultimately show ?thesis using total by auto
qed

end
