(* ===== verification/Mission_Properties.thy ===== *)
theory Mission_Properties
  imports Mission_Dag
begin

text \<open>What a mission that passes its validator guarantees.\<close>

section \<open>The validator\<close>

definition dependency_relation :: "mission_objective list \<Rightarrow> (string \<times> string) set" where
  "dependency_relation obs = {(ob_objective_id ob, j) |ob j. ob \<in> set obs \<and> j \<in> set (ob_dependencies ob)}"

lemma objectives_by_id_snoc:
  "objectives_by_id (obs @ [ob]) = dict_set (ob_objective_id ob) ob (objectives_by_id obs)"
  by (simp add: objectives_by_id_def)

lemma objectives_by_id_keys:
  "set (dict_keys (objectives_by_id obs)) = ob_objective_id ` set obs \<and> distinct (dict_keys (objectives_by_id obs))"
proof (induction obs rule: rev_induct)
  case Nil
  show ?case by (simp add: objectives_by_id_def)
next
  case (snoc ob obs)
  then show ?case by (auto simp: objectives_by_id_snoc dict_keys_set simp del: set_map)
qed

lemma objectives_by_id_distinct:
  "distinct (map ob_objective_id obs) \<Longrightarrow> objectives_by_id obs = map (\<lambda>ob. (ob_objective_id ob, ob)) obs"
proof (induction obs rule: rev_induct)
  case Nil
  show ?case by (simp add: objectives_by_id_def)
next
  case (snoc ob obs)
  then show ?case by (simp add: objectives_by_id_snoc dict_set_absent image_image)
qed

lemma objectives_by_id_length: "length (objectives_by_id obs) = length obs \<longleftrightarrow> distinct (map ob_objective_id obs)"
proof
  assume "length (objectives_by_id obs) = length obs"
  moreover have "length (objectives_by_id obs) = card (set (map ob_objective_id obs))"
    using objectives_by_id_keys [of obs] distinct_card [of "dict_keys (objectives_by_id obs)"] by simp
  ultimately show "distinct (map ob_objective_id obs)" by (intro card_distinct) simp
qed (simp add: objectives_by_id_distinct)

lemma dependencies_known_iff:
  "dependencies_known ids obs = Inr () \<longleftrightarrow>
     (\<forall>ob\<in>set obs. set (ob_dependencies ob) \<subseteq> set ids \<and> ob_objective_id ob \<notin> set (ob_dependencies ob))"
  by (induction ids obs rule: dependencies_known.induct) (auto simp: filter_empty_conv)

lemma dependencies_known_errors:
  "dependencies_known ids obs \<in> {Inr (), Inl UnknownDependency, Inl DependencyCycle}"
  by (induction ids obs rule: dependencies_known.induct) auto

lemma depends_by_id:
  assumes "distinct (map ob_objective_id obs)"
  shows "depends (objectives_by_id obs) = dependency_relation obs"
proof -
  have "dict_get (objectives_by_id obs) i = Some ob \<longleftrightarrow> ob \<in> set obs \<and> ob_objective_id ob = i" for i ob
    using assms by (auto simp: objectives_by_id_distinct comp_def)
  then show ?thesis by (auto simp: depends_def dependency_relation_def)
qed

lemma resources_fit_list:
  "list_all (\<lambda>(n, k). k \<le> dict_get_default available n 0) d \<longleftrightarrow> resources_fit d available = Inr ()"
  by (induction d available rule: resources_fit.induct) auto

lemma usage_fits_parent_ensure: "usage_fits_parent u b \<longleftrightarrow> ensure_fits u b = Inr ()"
  by (auto simp: usage_fits_parent_def ensure_fits_def resources_fit_list)

lemma by_id_closed:
  assumes "distinct (map ob_objective_id obs)"
    and "dependencies_known (dict_keys (objectives_by_id obs)) obs = Inr ()"
  shows "closed (set (dict_keys (objectives_by_id obs))) (objectives_by_id obs)"
proof -
  have "\<exists>ob. dict_get (objectives_by_id obs) i = Some ob \<and>
      set (ob_dependencies ob) \<subseteq> set (dict_keys (objectives_by_id obs))"
    if "i \<in> set (dict_keys (objectives_by_id obs))" for i
  proof -
    have "i \<in> ob_objective_id ` set obs" using that unfolding conjunct1 [OF objectives_by_id_keys] .
    then obtain ob where "ob \<in> set obs" "i = ob_objective_id ob" by blast
    moreover from this have "dict_get (objectives_by_id obs) i = Some ob"
      using assms(1) by (simp add: objectives_by_id_distinct comp_def)
    ultimately show ?thesis using assms(2) by (auto simp: dependencies_known_iff simp del: set_map)
  qed
  then show ?thesis unfolding closed_def by (simp del: set_map)
qed

definition example_goal :: goal_spec where
  "example_goal =
     \<lparr>gs_intent = Acquire, gs_target = ''oak_log'', gs_quantity = 3, gs_constraints = [],
      gs_success_predicates = [InventoryAtLeast ''oak_log'' 3], gs_discovery_kind = None\<rparr>"

definition example_objective :: "string \<Rightarrow> string list \<Rightarrow> mission_objective" where
  "example_objective i deps =
     \<lparr>ob_objective_id = i, ob_goal = example_goal, ob_dependencies = deps, ob_required = True,
      ob_priority = 50, ob_budget = example_usage 2 1\<rparr>"

definition example_mission :: mission_spec where
  "example_mission =
     \<lparr>ms_mission_id = ''m1'', ms_objectives = [example_objective ''b'' [''a''], example_objective ''a'' []],
      ms_allowed_domains = {DGameplay}, ms_completion_predicates = [], ms_budget = example_limit,
      ms_autonomy = \<lparr>au_mode = Bounded, au_allowed_domains = {DSkill}, au_max_child_goals = 2,
        au_max_new_skills = 0, au_max_duration_ms = 1000, au_max_travel_distance = 0,
        au_max_damage_taken = 0, au_max_blocks_changed = 0, au_max_budget_rebalances = 0,
        au_max_risk = SurvivalSafe, au_stop_conditions = {UserStop}\<rparr>,
      ms_execution = \<lparr>xp_reuse_trusted_skill = True, xp_allow_skill_learning = False,
        xp_allow_deterministic_fallback = False, xp_stop_on_action_failure = False\<rparr>\<rparr>"

lemma example_mission_accepted: "mission_check (\<lambda>_. True) example_mission = Inr ()"
  by (simp add: mission_check_def example_mission_def skill_candidates_def example_objective_def
      example_goal_def objectives_by_id_def Let_def usage_fits_parent_def usage_sum_def usage_plus_def
      example_usage_def empty_usage_def merge_resources_def dict_add_def dict_get_default_def example_limit_def)

lemma mission_check_accepted:
  "mission_check cv m = Inr () \<Longrightarrow>
     ensure_fits (usage_sum (map ob_budget (ms_objectives m))) (ms_budget m) = Inr () \<and>
     distinct (map ob_objective_id (ms_objectives m))"
  by (auto simp: mission_check_def Let_def usage_fits_parent_ensure objectives_by_id_length
      split: if_splits sum.splits)

text \<open>
  C10. Missions are acyclic.  The mission validator accepts exactly the missions whose candidates
  are valid and within the learning quota, whose objective identifiers are pairwise different,
  whose dependencies name objectives of the mission and form an acyclic relation, and whose
  objectives' budgets together fit the mission's budget; the search never runs out of the fuel
  it is given and never meets an unknown identifier.
\<close>

theorem mission_accepts_acyclic:
  "(mission_check cv m = Inr () \<longleftrightarrow>
     list_all cv (skill_candidates (ms_objectives m)) \<and>
     (skill_candidates (ms_objectives m) = [] \<or>
        xp_allow_skill_learning (ms_execution m) \<and> au_mode (ms_autonomy m) = Bounded \<and>
        int (length (skill_candidates (ms_objectives m))) \<le> au_max_new_skills (ms_autonomy m)) \<and>
     distinct (map ob_objective_id (ms_objectives m)) \<and>
     Range (dependency_relation (ms_objectives m)) \<subseteq> set (map ob_objective_id (ms_objectives m)) \<and>
     acyclic (dependency_relation (ms_objectives m)) \<and>
     ensure_fits (usage_sum (map ob_budget (ms_objectives m))) (ms_budget m) = Inr ()) \<and>
   mission_check cv m \<noteq> Inl OutOfFuel \<and> mission_check cv m \<noteq> Inl MissionKeyError"
proof -
  let ?obs = "ms_objectives m" and ?cs = "skill_candidates (ms_objectives m)"
  let ?d = "objectives_by_id ?obs"
  let ?quota = "?cs = [] \<or> xp_allow_skill_learning (ms_execution m) \<and> au_mode (ms_autonomy m) = Bounded \<and>
        int (length ?cs) \<le> au_max_new_skills (ms_autonomy m)"
  show ?thesis
  proof (cases "list_all cv ?cs \<and> ?quota \<and> distinct (map ob_objective_id ?obs)")
    case False
    then show ?thesis
      by (auto simp: mission_check_def Let_def objectives_by_id_length not_le)
  next
    case True
    then have dist: "distinct (map ob_objective_id ?obs)" by simp
    have start: "mission_check cv m =
        (case dependencies_known (dict_keys ?d) ?obs of
           Inl e \<Rightarrow> Inl e
         | Inr _ \<Rightarrow>
             (case visit_all (Suc (length ?obs)) ?d [] [] (dict_keys ?d) of
                Inl e \<Rightarrow> Inl e
              | Inr _ \<Rightarrow> if ensure_fits (usage_sum (map ob_budget ?obs)) (ms_budget m) \<noteq> Inr ()
                  then Inl ChildBudgetsExceed else Inr ()))"
      using True by (auto simp: mission_check_def Let_def objectives_by_id_length usage_fits_parent_ensure)
    have keys: "set (dict_keys ?d) = set (map ob_objective_id ?obs)"
      using objectives_by_id_keys [of ?obs] by simp
    have known: "dependencies_known (dict_keys ?d) ?obs = Inr () \<longleftrightarrow>
        Range (dependency_relation ?obs) \<subseteq> set (map ob_objective_id ?obs) \<and>
        (\<forall>ob\<in>set ?obs. ob_objective_id ob \<notin> set (ob_dependencies ob))"
      unfolding dependencies_known_iff keys by (auto simp: dependency_relation_def Range_iff subset_iff)
    have irr: "\<forall>ob\<in>set ?obs. ob_objective_id ob \<notin> set (ob_dependencies ob)"
      if "acyclic (dependency_relation ?obs)"
      using that by (auto simp: acyclic_def dependency_relation_def)
    show ?thesis
    proof (cases "dependencies_known (dict_keys ?d) ?obs = Inr ()")
      case False
      then show ?thesis
        using dependencies_known_errors [of "dict_keys ?d" ?obs] known irr by (auto simp: start)
    next
      case kn: True
      have v: "if acyclic (dependency_relation ?obs) then \<exists>v. visit_all (Suc (length ?obs)) ?d [] [] (dict_keys ?d) = Inr v
          else visit_all (Suc (length ?obs)) ?d [] [] (dict_keys ?d) = Inl DependencyCycle"
        unfolding depends_by_id [OF dist, symmetric]
        using visit_all_iff [OF by_id_closed [OF dist kn], of "Suc (length ?obs)"] dist
        by (simp add: objectives_by_id_length [symmetric])
      with kn known True show ?thesis by (auto simp: start split: if_splits)
    qed
  qed
qed

section \<open>Reserving all objectives\<close>

fun reserve_all :: "budget_account \<Rightarrow> (string \<times> budget_usage) list \<Rightarrow> budget_error + budget_account" where
  "reserve_all a [] = Inr a"
| "reserve_all a ((rid, u) # rest) =
     (case reserve a rid u of Inl e \<Rightarrow> Inl e | Inr a' \<Rightarrow> reserve_all a' rest)"

context dimension begin

definition room :: "budget_account \<Rightarrow> budget_usage list \<Rightarrow> bool" where
  "room a us \<longleftrightarrow>
     amount (ba_used a) + sum_list (map amount (dict_values (ba_reservations a))) + sum_list (map amount us)
       \<le> bound (ba_limit a)"

lemma amount_sum: "\<forall>u\<in>set us. usage_ok u \<Longrightarrow> amount (usage_sum us) = sum_list (map amount us)"
  by (simp add: usage_sum_def amount_fold amount_empty)

lemma room_new:
  "\<forall>u\<in>set us. usage_ok u \<Longrightarrow> amount (usage_sum us) \<le> bound b \<Longrightarrow> room (new_account b) us"
  by (simp add: room_def new_account_def amount_empty amount_sum)

lemma room_fits:
  assumes "account_ok a" and "\<forall>v\<in>set (u # us). usage_ok v" and "room a (u # us)"
  shows "amount u \<le> bound (ba_limit a) - amount (usage_plus (ba_used a) (reserved a))"
proof -
  have "0 \<le> sum_list (map amount us)" using assms(2) by (intro sum_list_nonneg) (auto simp: amount_nonneg)
  then show ?thesis using assms(3) by (simp add: room_def charged [OF assms(1)])
qed

lemma room_reserve: "reserve a rid u = Inr a' \<Longrightarrow> room a (u # us) \<Longrightarrow> room a' us"
proof -
  assume r: "reserve a rid u = Inr a'" and room: "room a (u # us)"
  have "a' = a\<lparr>ba_reservations := dict_set rid u (ba_reservations a)\<rparr>" "rid \<notin> set (dict_keys (ba_reservations a))"
    using r unfolding dict_get_None_keys [symmetric] by (auto simp: reserve_def split: if_splits sum.splits)
  then show ?thesis using room by (simp add: room_def dict_set_absent)
qed

lemma room_perm: "mset us = mset vs \<Longrightarrow> room a us = room a vs"
proof -
  assume "mset us = mset vs"
  then have "mset (map amount us) = mset (map amount vs)" by simp
  then have "sum_list (map amount us) = sum_list (map amount vs)" by (metis sum_mset_sum_list)
  then show ?thesis by (simp add: room_def)
qed

end

definition all_room :: "budget_account \<Rightarrow> budget_usage list \<Rightarrow> bool" where
  "all_room a us \<longleftrightarrow>
     actions.room a us \<and> attempts.room a us \<and> travel.room a us \<and> blocks.room a us \<and> damage.room a us \<and>
     (\<forall>n. resources.room n a us)"

lemmas rooms_reserve = actions.room_reserve attempts.room_reserve travel.room_reserve
  blocks.room_reserve damage.room_reserve resources.room_reserve

lemma all_room_fits:
  assumes b: "limit_ok b" "account_reachable b a" and us: "\<forall>v\<in>set (u # us). usage_ok v"
    and room: "all_room a (u # us)"
  shows "ensure_fits u (remaining_fields a) = Inr ()"
proof -
  have ok: "account_ok a" "ba_limit a = b" "all_solvent a" using account_reachable_ok [OF b(2,1)] by simp_all
  let ?c = "usage_plus (ba_used a) (reserved a)"
  note fits = actions.room_fits [OF ok(1) us] attempts.room_fits [OF ok(1) us] travel.room_fits [OF ok(1) us]
    blocks.room_fits [OF ok(1) us] damage.room_fits [OF ok(1) us] resources.room_fits [OF ok(1) us]
  have "of_int (resource n ?c) \<le> (of_int (resource_limit n (ba_limit a)) :: rat)" for n
    using ok(3) unfolding resources.charged [OF ok(1)] all_solvent_def resources.solvent_def by blast
  note rem = resources.bound_remaining [OF this]
  have nonneg: "0 \<le> resource_limit n (remaining_fields a)" for n using rem [of n] by simp
  have "resource n u \<le> resource_limit n (remaining_fields a)" for n
  proof (cases "dict_get (eb_resource_consumption (ba_limit a)) n")
    case None
    have "usage_ok ?c"
      using ok(1) resources.usage_ok_fold [of "dict_values (ba_reservations a)" empty_usage]
      by (intro usage_ok_plus) (simp_all add: account_ok_def reserved_def usage_ok_empty)
    then have "0 \<le> resource n ?c" by (simp add: usage_ok_def resource_def)
    moreover have "rat_of_int (resource n u) \<le> of_int (resource_limit n (ba_limit a)) - of_int (resource n ?c)"
      using room fits(6) by (simp add: all_room_def)
    ultimately have "resource n u \<le> 0"
      using None by (simp add: resource_limit_def dict_get_default_def flip: of_int_diff)
    then show ?thesis using nonneg [of n] by linarith
  next
    case (Some l)
    have "rat_of_int (resource n u) \<le> of_int (resource_limit n (ba_limit a)) - of_int (resource n ?c)"
      using room fits(6) by (simp add: all_room_def)
    then have "resource n u \<le> resource_limit n (ba_limit a) - resource n ?c" by (simp flip: of_int_diff)
    then show ?thesis
      using Some by (simp add: remaining_fields_def Let_def resource_limit_def resource_def dict_get_default_def mapped_get)
  qed
  moreover have "rat_of_int (bu_max_actions u) \<le> of_int (eb_max_actions (ba_limit a)) - of_int (bu_max_actions ?c)"
    "rat_of_int (bu_max_strategy_attempts u) \<le> of_int (eb_max_strategy_attempts (ba_limit a)) - of_int (bu_max_strategy_attempts ?c)"
    "bu_max_travel_distance u \<le> eb_max_travel_distance (ba_limit a) - bu_max_travel_distance ?c"
    "rat_of_int (bu_max_blocks_changed u) \<le> of_int (eb_max_blocks_changed (ba_limit a)) - of_int (bu_max_blocks_changed ?c)"
    "bu_max_damage_taken u \<le> eb_max_damage_taken (ba_limit a) - bu_max_damage_taken ?c"
    using room fits(1-5) unfolding all_room_def by blast+
  then have "bu_max_actions u \<le> eb_max_actions (remaining_fields a)"
    "bu_max_strategy_attempts u \<le> eb_max_strategy_attempts (remaining_fields a)"
    "bu_max_travel_distance u \<le> eb_max_travel_distance (remaining_fields a)"
    "bu_max_blocks_changed u \<le> eb_max_blocks_changed (remaining_fields a)"
    "bu_max_damage_taken u \<le> eb_max_damage_taken (remaining_fields a)"
    by (simp_all add: remaining_fields_def Let_def flip: of_int_diff)
  ultimately have "within_budget u (remaining_fields a)" by (simp add: within_budget_def)
  then show ?thesis using ensure_fits_within nonneg us by simp
qed

lemma reserve_all_succeeds:
  assumes "limit_ok b"
  shows "\<lbrakk>account_reachable b a; \<forall>u\<in>set (map snd rs). usage_ok u; distinct (map fst rs);
    set (map fst rs) \<inter> set (dict_keys (ba_reservations a)) = {}; all_room a (map snd rs)\<rbrakk> \<Longrightarrow>
   \<exists>a'. reserve_all a rs = Inr a' \<and> account_reachable b a' \<and>
     set (dict_keys (ba_reservations a')) = set (map fst rs) \<union> set (dict_keys (ba_reservations a))"
proof (induction rs arbitrary: a)
  case (Cons r rs)
  obtain rid u where r: "r = (rid, u)" by force
  have u: "usage_ok u" "\<forall>v\<in>set (u # map snd rs). usage_ok v" using Cons.prems(2) r by auto
  have fits: "ensure_fits u (remaining_fields a) = Inr ()"
    using all_room_fits [OF assms Cons.prems(1) u(2)] Cons.prems(5) r by simp
  have rem: "remaining a = Inr (remaining_fields a)"
  proof -
    have ok: "account_ok a" "ba_limit a = b" "all_solvent a"
      using account_reachable_ok [OF Cons.prems(1) assms] by simp_all
    have "rat_of_int (bu_max_actions (usage_plus (ba_used a) (reserved a))) \<le> of_int (eb_max_actions b)"
      "rat_of_int (bu_max_strategy_attempts (usage_plus (ba_used a) (reserved a))) \<le> of_int (eb_max_strategy_attempts b)"
      "bu_max_travel_distance (usage_plus (ba_used a) (reserved a)) \<le> eb_max_travel_distance b"
      "rat_of_int (bu_max_blocks_changed (usage_plus (ba_used a) (reserved a))) \<le> of_int (eb_max_blocks_changed b)"
      "bu_max_damage_taken (usage_plus (ba_used a) (reserved a)) \<le> eb_max_damage_taken b"
      using ok(3) unfolding all_solvent_def
      by (simp_all only: actions.charged [OF ok(1)] actions.solvent_def attempts.charged [OF ok(1)] attempts.solvent_def
        travel.charged [OF ok(1)] travel.solvent_def blocks.charged [OF ok(1)] blocks.solvent_def
        damage.charged [OF ok(1)] damage.solvent_def ok(2))
    then show ?thesis
      using assms by (simp add: remaining_def remaining_fields_def Let_def ok(2) execution_budget_valid_def limit_ok_def)
  qed
  have new: "rid \<notin> set (dict_keys (ba_reservations a))" using Cons.prems(4) r by auto
  let ?a = "a\<lparr>ba_reservations := dict_set rid u (ba_reservations a)\<rparr>"
  have res: "reserve a rid u = Inr ?a"
    using new fits rem unfolding dict_get_None_keys [symmetric] by (simp add: reserve_def)
  have "all_room ?a (map snd rs)"
    using Cons.prems(5) rooms_reserve [OF res] r by (simp add: all_room_def)
  moreover have keys: "set (dict_keys (ba_reservations ?a)) = insert rid (set (dict_keys (ba_reservations a)))"
    using new by (simp add: dict_set_absent insert_commute)
  ultimately obtain a' where "reserve_all ?a rs = Inr a'" "account_reachable b a'"
    "set (dict_keys (ba_reservations a')) = set (map fst rs) \<union> set (dict_keys (ba_reservations ?a))"
    using Cons.IH [OF acct_reserve [OF Cons.prems(1) u(1) res]] Cons.prems(2,3,4) r unfolding keys by auto
  then show ?case using res r keys by (intro exI [of _ a']) (simp del: set_map)
qed simp

text \<open>
  The budget of an accepted mission suffices.  If a mission with a well-formed budget and
  well-formed objective budgets passes its validator, then an account opened with the mission's
  budget can reserve every objective's budget, one after the other, whatever the order of the
  objectives: no reservation is refused.
\<close>

lemma mission_objectives_reservable:
  assumes accepted: "mission_check cv m = Inr ()" and limit: "limit_ok (ms_budget m)"
    and usages: "\<forall>ob\<in>set (ms_objectives m). usage_ok (ob_budget ob)"
    and order: "mset obs = mset (ms_objectives m)"
  shows "\<exists>a. reserve_all (new_account (ms_budget m)) (map (\<lambda>ob. (ob_objective_id ob, ob_budget ob)) obs) = Inr a \<and>
    set (dict_keys (ba_reservations a)) = ob_objective_id ` set (ms_objectives m) \<and>
    account_reachable (ms_budget m) a"
proof -
  let ?us = "map ob_budget (ms_objectives m)" and ?rs = "map (\<lambda>ob. (ob_objective_id ob, ob_budget ob)) obs"
  have sets: "set obs = set (ms_objectives m)" using order by (rule mset_eq_setD)
  have fits: "ensure_fits (usage_sum ?us) (ms_budget m) = Inr ()" and dist: "distinct (map ob_objective_id (ms_objectives m))"
    using accepted mission_check_accepted by blast+
  have us: "\<forall>u\<in>set ?us. usage_ok u" using usages by simp
  have "usage_ok (usage_sum ?us)"
    unfolding usage_sum_def using us by (intro resources.usage_ok_fold) (simp_all add: usage_ok_empty)
  then have w: "within_budget (usage_sum ?us) (ms_budget m)"
    using fits ensure_fits_within limit by (simp add: limit_ok_def resource_limit_def)
  have perm: "mset (map ob_budget obs) = mset ?us" using order by simp
  have "all_room (new_account (ms_budget m)) ?us"
    unfolding all_room_def using w
    by (intro conjI allI actions.room_new attempts.room_new travel.room_new blocks.room_new damage.room_new
        resources.room_new us) (simp_all add: within_budget_def)
  then have "all_room (new_account (ms_budget m)) (map snd ?rs)"
    using perm actions.room_perm [OF perm] attempts.room_perm [OF perm] travel.room_perm [OF perm]
      blocks.room_perm [OF perm] damage.room_perm [OF perm] resources.room_perm [OF perm]
    by (simp add: all_room_def comp_def)
  moreover have "distinct (map fst ?rs)"
    using dist order by (simp add: comp_def) (metis mset_eq_imp_distinct_iff mset_map)
  ultimately have "\<exists>a. reserve_all (new_account (ms_budget m)) ?rs = Inr a \<and> account_reachable (ms_budget m) a \<and>
      set (dict_keys (ba_reservations a)) = set (map fst ?rs) \<union> set (dict_keys (ba_reservations (new_account (ms_budget m))))"
    using usages by (intro reserve_all_succeeds [OF limit acct_new]) (simp_all add: new_account_def sets)
  moreover have "set (map fst ?rs) \<union> set (dict_keys (ba_reservations (new_account (ms_budget m)))) =
      ob_objective_id ` set (ms_objectives m)"
    by (simp add: new_account_def sets image_image)
  ultimately show ?thesis by metis
qed

lemma mission_objectives_reservable_example:
  "\<exists>a. reserve_all (new_account example_limit) [(''a'', example_usage 2 1), (''b'', example_usage 2 1)] = Inr a"
proof -
  let ?obs = "[example_objective ''a'' [], example_objective ''b'' [''a'']]"
  have "mset ?obs = mset (ms_objectives example_mission)" by (simp add: example_mission_def)
  moreover have "\<forall>ob\<in>set (ms_objectives example_mission). usage_ok (ob_budget ob)" "limit_ok (ms_budget example_mission)"
    using example_budget_ok by (simp_all add: example_mission_def example_objective_def)
  ultimately obtain a where "reserve_all (new_account (ms_budget example_mission))
      (map (\<lambda>ob. (ob_objective_id ob, ob_budget ob)) ?obs) = Inr a"
    using mission_objectives_reservable [OF example_mission_accepted] by blast
  then show ?thesis by (simp add: example_mission_def example_objective_def)
qed

end
