(* ===== verification/Admission.thy ===== *)
theory Admission
  imports Mission_Properties
begin

text \<open>
  Admission of child-goal proposals, \<open>tools/minecraft/mission/admission.py\<close>: a closed decision
  from durable facts, which reserves the proposal's budget when it accepts.  The canonical hash
  of a goal is a parameter.
\<close>

section \<open>The decision\<close>

fun goal_domain :: "goal_intent \<Rightarrow> mission_domain" where
  "goal_domain Acquire = DGameplay"
| "goal_domain Craft = DGameplay"
| "goal_domain Build = DGameplay"
| "goal_domain Travel = DGameplay"
| "goal_domain Combat = DGameplay"
| "goal_domain Survive = DGameplay"
| "goal_domain Learn = DSkill"
| "goal_domain Discover = DDiscovery"

fun required_capability :: "goal_intent \<Rightarrow> string" where
  "required_capability Acquire = ''collect''"
| "required_capability Craft = ''craft''"
| "required_capability Build = ''place''"
| "required_capability Travel = ''goto''"
| "required_capability Combat = ''attack''"
| "required_capability Survive = ''observe''"
| "required_capability Learn = ''observe''"
| "required_capability Discover = ''observe''"

fun risk_rank :: "mission_risk \<Rightarrow> nat" where
  "risk_rank ReadOnly = 0"
| "risk_rank SurvivalSafe = 1"
| "risk_rank Destructive = 2"

fun autonomy_domain_by_rationale :: "rationale \<Rightarrow> mission_domain option" where
  "autonomy_domain_by_rationale DiscoveryGap = Some DDiscovery"
| "autonomy_domain_by_rationale UnvisitedFrontier = Some DDiscovery"
| "autonomy_domain_by_rationale SkillGap = Some DSkill"
| "autonomy_domain_by_rationale TechnologyFrontier = Some DTechnology"
| "autonomy_domain_by_rationale RecoveryPrerequisite = Some DRecovery"
| "autonomy_domain_by_rationale UserRequest = None"
| "autonomy_domain_by_rationale ScenarioRequirement = None"
| "autonomy_domain_by_rationale MissionGap = None"

record admission_context =
  cx_mission :: mission_spec
  cx_capabilities :: "(string \<times> mission_risk) list"
  cx_budget_account :: budget_account
  cx_completed_objective_ids :: "string set"
  cx_seen_proposal_ids :: "string set"
  cx_admitted_goal_hashes :: "string set"
  cx_admitted_child_count :: int
  cx_runtime_quarantined :: bool

definition decision ::
  "goal_proposal \<Rightarrow> admission_context \<Rightarrow> admission_outcome \<Rightarrow> admission_reason \<Rightarrow>
   admission_decision \<times> admission_context" where
  "decision p c outcome reason =
     (let d = \<lparr>de_proposal_id = gp_proposal_id p, de_outcome = outcome, de_reason = reason,
              de_reserved_budget = None\<rparr>
      in if outcome = Deferred then (d, c)
         else (d, c\<lparr>cx_seen_proposal_ids := cx_seen_proposal_ids c \<union> {gp_proposal_id p}\<rparr>))"

definition autonomous :: "goal_proposal \<Rightarrow> bool" where
  "autonomous p \<longleftrightarrow> gp_origin p = FromCurriculum \<or> gp_origin p = FromRecovery"

definition required_domain :: "goal_proposal \<Rightarrow> mission_domain" where
  "required_domain p =
     (if gp_origin p = FromRecovery then DRecovery
      else (case autonomy_domain_by_rationale (gp_rationale p) of
              None \<Rightarrow> goal_domain (gs_intent (gp_goal p)) | Some d \<Rightarrow> d))"

definition capability_risk :: "(string \<times> mission_risk) list \<Rightarrow> string \<Rightarrow> mission_risk option" where
  "capability_risk caps name = dict_get (foldl (\<lambda>d (n, r). dict_set n r d) [] caps) name"

text \<open>The guards of \<open>admit\<close> in their order: the first that fails decides the refusal.\<close>

definition admission_refusal ::
  "(goal_spec \<Rightarrow> string) \<Rightarrow> goal_proposal \<Rightarrow> admission_context \<Rightarrow>
   (admission_outcome \<times> admission_reason) option" where
  "admission_refusal goal_hash p c =
     (let m = cx_mission c; au = ms_autonomy m;
          risk = capability_risk (cx_capabilities c) (required_capability (gs_intent (gp_goal p))) in
      if gp_mission_id p \<noteq> ms_mission_id m then Some (Rejected, InvalidSchema)
      else if gp_proposal_id p \<in> cx_seen_proposal_ids c \<or> goal_hash (gp_goal p) \<in> cx_admitted_goal_hashes c
      then Some (Rejected, DuplicateProposal)
      else if cx_runtime_quarantined c then Some (Deferred, RuntimeQuarantined)
      else if (case gp_parent_objective_id p of None \<Rightarrow> False | Some i \<Rightarrow> i \<notin> cx_completed_objective_ids c)
      then Some (Deferred, DependencyUnsatisfied)
      else if goal_domain (gs_intent (gp_goal p)) \<notin> ms_allowed_domains m then Some (Rejected, DomainForbidden)
      else if autonomous p \<and> au_mode au \<noteq> Bounded then Some (Rejected, SourceForbidden)
      else if autonomous p \<and> au_max_child_goals au \<le> cx_admitted_child_count c
      then Some (Rejected, ChildGoalLimitReached)
      else if autonomous p \<and> required_domain p \<notin> au_allowed_domains au then Some (Rejected, SourceForbidden)
      else if risk = None then Some (Rejected, ManifestCapabilityMissing)
      else if autonomous p \<and> risk_rank (au_max_risk au) < risk_rank (the risk)
      then Some (Rejected, RiskForbidden)
      else None)"

definition accepted_context ::
  "(goal_spec \<Rightarrow> string) \<Rightarrow> goal_proposal \<Rightarrow> budget_account \<Rightarrow> admission_context \<Rightarrow> admission_context" where
  "accepted_context goal_hash p budget c =
     c\<lparr>cx_budget_account := budget,
       cx_seen_proposal_ids := cx_seen_proposal_ids c \<union> {gp_proposal_id p},
       cx_admitted_goal_hashes := cx_admitted_goal_hashes c \<union> {goal_hash (gp_goal p)},
       cx_admitted_child_count := cx_admitted_child_count c + 1\<rparr>"

definition admit ::
  "(goal_spec \<Rightarrow> string) \<Rightarrow> goal_proposal \<Rightarrow> admission_context \<Rightarrow>
   budget_error + (admission_decision \<times> admission_context)" where
  "admit goal_hash p c =
     (case admission_refusal goal_hash p c of
        Some (outcome, reason) \<Rightarrow> Inr (decision p c outcome reason)
      | None \<Rightarrow>
          (case reserve (cx_budget_account c) (gp_proposal_id p) (gp_conservative_cost p) of
             Inl (BudgetExceededError _) \<Rightarrow> Inr (decision p c Rejected AdmissionBudgetExhausted)
           | Inl e \<Rightarrow> Inl e
           | Inr budget \<Rightarrow>
               Inr (\<lparr>de_proposal_id = gp_proposal_id p, de_outcome = Accepted, de_reason = Admitted,
                     de_reserved_budget = Some (gp_conservative_cost p)\<rparr>,
                    accepted_context goal_hash p budget c)))"

definition admission_settle ::
  "admission_context \<Rightarrow> string \<Rightarrow> budget_usage \<Rightarrow> budget_error + admission_context" where
  "admission_settle c pid actual =
     (case settle (cx_budget_account c) pid actual of
        Inl e \<Rightarrow> Inl e
      | Inr a \<Rightarrow> Inr (c\<lparr>cx_budget_account := a\<rparr>))"

section \<open>Contexts over time\<close>

text \<open>A fresh context of a mission, and the changes it sees while the mission runs.\<close>

definition fresh_context :: "mission_spec \<Rightarrow> (string \<times> mission_risk) list \<Rightarrow> admission_context" where
  "fresh_context m caps =
     \<lparr>cx_mission = m, cx_capabilities = caps, cx_budget_account = new_account (ms_budget m),
      cx_completed_objective_ids = {}, cx_seen_proposal_ids = {}, cx_admitted_goal_hashes = {},
      cx_admitted_child_count = 0, cx_runtime_quarantined = False\<rparr>"

inductive admission_step ::
  "(goal_spec \<Rightarrow> string) \<Rightarrow> admission_context \<Rightarrow> admission_context \<Rightarrow> bool" for goal_hash where
  adm_admit: "\<lbrakk>usage_ok (gp_conservative_cost p); admit goal_hash p c = Inr (d, c')\<rbrakk> \<Longrightarrow> admission_step goal_hash c c'"
| adm_settle: "\<lbrakk>usage_ok u; admission_settle c pid u = Inr c'\<rbrakk> \<Longrightarrow> admission_step goal_hash c c'"
| adm_complete: "admission_step goal_hash c
    (c\<lparr>cx_completed_objective_ids := cx_completed_objective_ids c \<union> ids\<rparr>)"
| adm_quarantine: "admission_step goal_hash c (c\<lparr>cx_runtime_quarantined := b\<rparr>)"

inductive_cases admission_stepE: "admission_step h c c'"

definition context_ok :: "admission_context \<Rightarrow> bool" where
  "context_ok c \<longleftrightarrow>
     account_reachable (ms_budget (cx_mission c)) (cx_budget_account c) \<and>
     set (dict_keys (ba_reservations (cx_budget_account c))) \<subseteq> cx_seen_proposal_ids c \<and>
     0 \<le> cx_admitted_child_count c"

definition extends_context :: "admission_context \<Rightarrow> admission_context \<Rightarrow> bool" where
  "extends_context c c' \<longleftrightarrow>
     cx_mission c' = cx_mission c \<and>
     cx_seen_proposal_ids c \<subseteq> cx_seen_proposal_ids c' \<and>
     cx_admitted_goal_hashes c \<subseteq> cx_admitted_goal_hashes c' \<and>
     cx_admitted_child_count c \<le> cx_admitted_child_count c'"

lemma decision_sel [simp]:
  "cx_mission (snd (decision p c out r)) = cx_mission c"
  "cx_budget_account (snd (decision p c out r)) = cx_budget_account c"
  "cx_admitted_goal_hashes (snd (decision p c out r)) = cx_admitted_goal_hashes c"
  "cx_admitted_child_count (snd (decision p c out r)) = cx_admitted_child_count c"
  "de_outcome (fst (decision p c out r)) = out"
  "de_reserved_budget (fst (decision p c out r)) = None"
  by (simp_all add: decision_def Let_def)

lemma decision_seen: "cx_seen_proposal_ids c \<subseteq> cx_seen_proposal_ids (snd (decision p c out r))"
  by (auto simp: decision_def Let_def)

lemma accepted_context_sel [simp]:
  "cx_mission (accepted_context h p a c) = cx_mission c"
  "cx_budget_account (accepted_context h p a c) = a"
  "cx_admitted_goal_hashes (accepted_context h p a c) = insert (h (gp_goal p)) (cx_admitted_goal_hashes c)"
  "cx_seen_proposal_ids (accepted_context h p a c) = insert (gp_proposal_id p) (cx_seen_proposal_ids c)"
  "cx_admitted_child_count (accepted_context h p a c) = cx_admitted_child_count c + 1"
  by (simp_all add: accepted_context_def)

lemma admission_refusal_Some: "admission_refusal h p c = Some (out, r) \<Longrightarrow> out \<noteq> Accepted"
  by (auto simp: admission_refusal_def Let_def split: if_splits)


lemma admission_duplicate:
  "gp_mission_id p = ms_mission_id (cx_mission c) \<Longrightarrow>
   gp_proposal_id p \<in> cx_seen_proposal_ids c \<or> h (gp_goal p) \<in> cx_admitted_goal_hashes c \<Longrightarrow>
   admission_refusal h p c = Some (Rejected, DuplicateProposal)"
  by (simp add: admission_refusal_def Let_def)

text \<open>Every result of \<open>admit\<close> is a refusal that touches no budget, an acceptance, or an uncaught error.\<close>

lemma admit_cases:
  obtains (refused) out r where "admit h p c = Inr (decision p c out r)" "out \<noteq> Accepted"
  | (admitted) a where "admit h p c =
        Inr (\<lparr>de_proposal_id = gp_proposal_id p, de_outcome = Accepted, de_reason = Admitted,
              de_reserved_budget = Some (gp_conservative_cost p)\<rparr>, accepted_context h p a c)"
      "reserve (cx_budget_account c) (gp_proposal_id p) (gp_conservative_cost p) = Inr a"
      "admission_refusal h p c = None"
  | (raised) e where "admit h p c = Inl e" "admission_refusal h p c = None"
      "reserve (cx_budget_account c) (gp_proposal_id p) (gp_conservative_cost p) = Inl e"
      "\<nexists>x. e = BudgetExceededError x"
proof (cases "admission_refusal h p c")
  case None
  show thesis
  proof (cases "reserve (cx_budget_account c) (gp_proposal_id p) (gp_conservative_cost p)")
    case (Inl e)
    with None that(1,3) show thesis by (cases e) (auto simp: admit_def)
  next
    case (Inr a)
    with None that(2) show thesis by (simp add: admit_def)
  qed
next
  case (Some q)
  then obtain out r where q: "admission_refusal h p c = Some (out, r)" by (cases q) auto
  then show thesis using that(1) admission_refusal_Some [OF q] by (simp add: admit_def)
qed

lemma reserve_keys:
  assumes "reserve a rid u = Inr a'"
  shows "set (dict_keys (ba_reservations a')) = insert rid (set (dict_keys (ba_reservations a)))"
    and "dict_get (ba_reservations a') rid = Some u"
proof -
  have a': "a' = a\<lparr>ba_reservations := dict_set rid u (ba_reservations a)\<rparr>"
    using assms by (auto simp: reserve_def split: if_splits sum.splits)
  then show "dict_get (ba_reservations a') rid = Some u" by (simp add: dict_get_set)
  show "set (dict_keys (ba_reservations a')) = insert rid (set (dict_keys (ba_reservations a)))"
    unfolding a' by (auto simp: dict_keys_set simp del: set_map)
qed


section \<open>Steps keep the context well formed\<close>

lemma extends_context_refl [simp]: "extends_context c c"
  by (simp add: extends_context_def)

lemma extends_context_trans: "extends_context a b \<Longrightarrow> extends_context b c \<Longrightarrow> extends_context a c"
  by (auto simp: extends_context_def)

lemma admission_step_keeps:
  assumes "admission_step h c c'" and limit: "limit_ok (ms_budget (cx_mission c))" and ok: "context_ok c"
  shows "context_ok c' \<and> extends_context c c'"
  using assms(1)
proof (cases rule: admission_step.cases)
  case (adm_admit p d)
  show ?thesis
  proof (cases rule: admit_cases [of h p c])
    case (refused out r)
    then have "c' = snd (decision p c out r)" using adm_admit(2) by (metis snd_conv sum.inject(2))
    then show ?thesis using ok decision_seen [of c p out r] by (auto simp: context_ok_def extends_context_def)
  next
    case (admitted a)
    then have c': "c' = accepted_context h p a c" using adm_admit(2) by simp
    have "account_reachable (ms_budget (cx_mission c)) a"
      using acct_reserve [OF _ adm_admit(1) admitted(2)] ok by (simp add: context_ok_def)
    then show ?thesis
      using ok reserve_keys(1) [OF admitted(2)]
      by (auto simp: c' context_ok_def extends_context_def simp del: set_map)
  next
    case (raised e)
    with adm_admit show ?thesis by simp
  qed
next
  case (adm_settle u pid)
  obtain a where a: "settle (cx_budget_account c) pid u = Inr a" "c' = c\<lparr>cx_budget_account := a\<rparr>"
    using adm_settle(2) by (auto simp: admission_settle_def split: sum.splits)
  have "ba_reservations a = dict_del pid (ba_reservations (cx_budget_account c))"
    using a(1) by (auto simp: settle_def split: option.splits if_splits sum.splits)
  then have "set (dict_keys (ba_reservations a)) \<subseteq> set (dict_keys (ba_reservations (cx_budget_account c)))"
    by (auto simp: AList.delete_eq)
  moreover have "account_reachable (ms_budget (cx_mission c)) a"
    using acct_settle [OF _ adm_settle(1) a(1)] ok by (simp add: context_ok_def)
  ultimately show ?thesis
    using ok a(2) by (auto simp: context_ok_def extends_context_def simp del: set_map)
qed (use ok in \<open>simp_all add: context_ok_def extends_context_def\<close>)

lemma admission_steps_keep:
  assumes "(admission_step h)\<^sup>*\<^sup>* c c'" and "limit_ok (ms_budget (cx_mission c))" and "context_ok c"
  shows "context_ok c' \<and> extends_context c c'"
  using assms(1)
proof (induction rule: rtranclp_induct)
  case (step d e)
  then have "context_ok d" "extends_context c d" by simp_all
  moreover from this have "limit_ok (ms_budget (cx_mission d))" using assms(2) by (simp add: extends_context_def)
  ultimately show ?case using admission_step_keeps [OF step.hyps(2)] extends_context_trans by blast
qed (use assms in simp)

lemma fresh_context_ok: "context_ok (fresh_context m caps)"
  by (simp add: context_ok_def fresh_context_def acct_new) (simp add: new_account_def)

definition example_proposal :: "string \<Rightarrow> goal_proposal" where
  "example_proposal pid =
     \<lparr>gp_proposal_id = pid, gp_mission_id = ''m1'', gp_origin = FromScenario, gp_parent_objective_id = None,
      gp_goal = example_goal, gp_rationale = ScenarioRequirement, gp_evidence_refs = [],
      gp_conservative_cost = example_usage 2 1, gp_expected_value = 1\<rparr>"

definition example_admission :: admission_context where
  "example_admission = fresh_context example_mission [(''collect'', SurvivalSafe)]"

lemma example_admission_accepts:
  "\<exists>d c'. admit (\<lambda>g. gs_target g) (example_proposal ''p1'') example_admission = Inr (d, c') \<and> de_outcome d = Accepted"
  by (simp add: admit_def admission_refusal_def Let_def example_proposal_def example_admission_def
      fresh_context_def example_mission_def example_goal_def autonomous_def capability_risk_def
      reserve_def remaining_def remaining_fields_def new_account_def reserved_def usage_plus_def
      merge_resources_def empty_usage_def example_limit_def execution_budget_valid_def ensure_fits_def
      example_usage_def dict_get_default_def)

section \<open>Properties\<close>



text \<open>
  No proposal and no goal is admitted twice.  After a proposal was accepted, and whatever is
  decided, settled, completed or quarantined afterwards, every proposal for the mission that
  carries the same identifier or a goal with the same hash is rejected as a duplicate, with the
  budget untouched.
\<close>

lemma admission_never_repeats:
  assumes limit: "limit_ok (ms_budget m)"
    and reach: "(admission_step h)\<^sup>*\<^sup>* (fresh_context m caps) c"
    and cost: "usage_ok (gp_conservative_cost p)"
    and admit: "admit h p c = Inr (d, c1)" and acc: "de_outcome d = Accepted"
    and later: "(admission_step h)\<^sup>*\<^sup>* c1 c2"
    and same: "gp_mission_id q = ms_mission_id m" "gp_proposal_id q = gp_proposal_id p \<or> h (gp_goal q) = h (gp_goal p)"
  shows "\<exists>d' c'. admit h q c2 = Inr (d', c') \<and> de_outcome d' = Rejected \<and>
    de_reason d' = DuplicateProposal \<and> cx_budget_account c' = cx_budget_account c2"
proof -
  have ok: "context_ok c" and m: "cx_mission c = m"
    using admission_steps_keep [OF reach _ fresh_context_ok] limit
    by (simp_all add: extends_context_def fresh_context_def)
  have "admission_step h c c1" using cost admit by (rule adm_admit)
  then have ok1: "context_ok c1" and m1: "cx_mission c1 = m"
    using admission_step_keeps [OF _ _ ok] limit m by (auto simp: extends_context_def)
  have "de_outcome d = out" if "(d, c1) = decision p c out r" for out r
    using decision_sel(5) [of p c out r] that by (metis fst_conv)
  then have "gp_proposal_id p \<in> cx_seen_proposal_ids c1 \<and> h (gp_goal p) \<in> cx_admitted_goal_hashes c1"
    by (cases rule: admit_cases [of h p c]) (use admit acc in auto)
  moreover have "extends_context c1 c2" using admission_steps_keep [OF later _ ok1] limit m1 by simp
  ultimately have "gp_proposal_id q \<in> cx_seen_proposal_ids c2 \<or> h (gp_goal q) \<in> cx_admitted_goal_hashes c2"
    "cx_mission c2 = m" using same(2) m1 by (auto simp: extends_context_def)
  then have "admit h q c2 = Inr (decision q c2 Rejected DuplicateProposal)"
    using admission_duplicate [of q c2 h] same(1) by (simp add: admit_def)
  then show ?thesis by (simp add: decision_def Let_def)
qed

lemma admission_never_repeats_example:
  "\<exists>c1 d' c'. admit (\<lambda>g. gs_target g) (example_proposal ''p2'') c1 = Inr (d', c') \<and> de_reason d' = DuplicateProposal"
proof -
  let ?h = "\<lambda>g :: goal_spec. gs_target g"
  have m: "limit_ok (ms_budget example_mission)" using example_budget_ok by (simp add: example_mission_def)
  have p: "usage_ok (gp_conservative_cost (example_proposal ''p1''))"
    using example_budget_ok by (simp add: example_proposal_def)
  obtain d c1 where a: "admit ?h (example_proposal ''p1'') (fresh_context example_mission [(''collect'', SurvivalSafe)]) = Inr (d, c1)"
    and acc: "de_outcome d = Accepted"
    using example_admission_accepts unfolding example_admission_def by blast
  show ?thesis
    using admission_never_repeats [OF m rtranclp.rtrancl_refl p a acc rtranclp.rtrancl_refl, of "example_proposal ''p2''"]
    by (force simp: example_proposal_def example_mission_def)
qed

end
