(* ===== verification/Mission_States.thy ===== *)
theory Mission_States
  imports Mission_Models
begin

text \<open>
  The durable states of missions and objectives and the projection derived from them:
  \<open>tools/minecraft/mission/state_machine.py\<close> and the records of
  \<open>tools/minecraft/mission/repository.py\<close>.
\<close>

section \<open>States and records\<close>

datatype mission_status =
    MAccepted | MPlanning | MRunning | MWaitingEvidence | MCompleted | MFailed | MCancelled | MBlockedUnknown

datatype objective_status =
    OPending | OActiveState | OCompleted | OFailedState | OSkipped | OCancelledState | OBlockedUnknown

fun mission_status_value :: "mission_status \<Rightarrow> string" where
  "mission_status_value MAccepted = ''accepted''"
| "mission_status_value MPlanning = ''planning''"
| "mission_status_value MRunning = ''running''"
| "mission_status_value MWaitingEvidence = ''waiting_evidence''"
| "mission_status_value MCompleted = ''completed''"
| "mission_status_value MFailed = ''failed''"
| "mission_status_value MCancelled = ''cancelled''"
| "mission_status_value MBlockedUnknown = ''blocked_unknown''"

fun objective_status_value :: "objective_status \<Rightarrow> string" where
  "objective_status_value OPending = ''pending''"
| "objective_status_value OActiveState = ''active''"
| "objective_status_value OCompleted = ''completed''"
| "objective_status_value OFailedState = ''failed''"
| "objective_status_value OSkipped = ''skipped''"
| "objective_status_value OCancelledState = ''cancelled''"
| "objective_status_value OBlockedUnknown = ''blocked_unknown''"

record mission_record =
  mr_caller_scope :: string
  mr_request_id :: string
  mr_request_hash :: string
  mr_spec :: mission_spec
  mr_status :: mission_status
  mr_version :: int
  mr_created_at_ms :: int
  mr_updated_at_ms :: int

record objective_record =
  or_mission_id :: string
  or_ordinal :: nat
  or_objective :: mission_objective
  or_status :: objective_status
  or_version :: int

section \<open>Transitions\<close>

fun mission_targets :: "mission_status \<Rightarrow> mission_status list" where
  "mission_targets MAccepted = [MPlanning, MCancelled]"
| "mission_targets MPlanning = [MRunning, MFailed, MCancelled, MBlockedUnknown]"
| "mission_targets MRunning = [MWaitingEvidence, MCompleted, MFailed, MCancelled, MBlockedUnknown]"
| "mission_targets MWaitingEvidence = [MRunning, MCompleted, MFailed, MCancelled, MBlockedUnknown]"
| "mission_targets _ = []"

fun objective_targets :: "objective_status \<Rightarrow> objective_status list" where
  "objective_targets OPending = [OActiveState, OSkipped, OCancelledState, OBlockedUnknown]"
| "objective_targets OActiveState = [OCompleted, OFailedState, OCancelledState, OBlockedUnknown]"
| "objective_targets _ = []"

fun terminal_objective_state :: "objective_status \<Rightarrow> bool" where
  "terminal_objective_state OCompleted = True"
| "terminal_objective_state OFailedState = True"
| "terminal_objective_state OSkipped = True"
| "terminal_objective_state OCancelledState = True"
| "terminal_objective_state OBlockedUnknown = True"
| "terminal_objective_state _ = False"

definition validate_mission_transition :: "mission_status \<Rightarrow> mission_status \<Rightarrow> bool" where
  "validate_mission_transition current target \<longleftrightarrow> target \<in> set (mission_targets current)"

definition rebalance_reason :: string where
  "rebalance_reason = ''BUDGET_REBALANCED_RETRY''"

text \<open>\<open>False\<close> stands for the raised \<open>ValueError\<close>.\<close>

definition validate_objective_transition ::
  "objective_status \<Rightarrow> objective_status \<Rightarrow> string option \<Rightarrow> bool" where
  "validate_objective_transition current target reason =
     (if current = OFailedState \<and> target = OPending \<and> reason \<noteq> Some rebalance_reason then False
      else if current = OFailedState \<and> target = OFailedState \<and> reason = Some rebalance_reason then True
      else if target \<notin> set (objective_targets current) \<and> \<not> (current = OFailedState \<and> target = OPending)
      then False
      else True)"

section \<open>The derived projection\<close>

datatype readiness = BlockedDependencies | Ready | ActiveReadiness | TerminalReadiness

datatype command_phase = NoCommand | PhaseQueued | PhaseRunning | PhaseReconciling | PhaseTerminal

datatype verification = NotStarted | VerificationPending | Verified | VerificationFailed | VerificationUnknown

record objective_projection =
  op_objective_id :: string
  op_persisted_status :: objective_status
  op_ready :: bool
  op_readiness :: readiness
  op_unmet_dependencies :: "string set"
  op_admission :: "admission_outcome option"
  op_command_phase :: command_phase
  op_verification :: verification

definition terminal_command_names :: "string list" where
  "terminal_command_names =
     [''succeeded'', ''succeeded_reconciled'', ''failed'', ''failed_reconciled'', ''cancelled'',
      ''cancelled_reconciled'', ''cancelled_by_stop'', ''interrupted_before_start'', ''blocked_unknown'']"

definition command_phase_of :: "string option \<Rightarrow> string + command_phase" where
  "command_phase_of state =
     (case state of
        None \<Rightarrow> Inr NoCommand
      | Some s \<Rightarrow>
          if s \<in> {''accepted'', ''queued''} then Inr PhaseQueued
          else if s = ''running'' then Inr PhaseRunning
          else if s = ''reconciling'' then Inr PhaseReconciling
          else if s \<in> set terminal_command_names then Inr PhaseTerminal
          else Inl ''unknown command state'')"

definition derive_objective_projection ::
  "objective_record \<Rightarrow> string set \<Rightarrow> admission_outcome option \<Rightarrow> string option \<Rightarrow> verification option \<Rightarrow>
   string + objective_projection" where
  "derive_objective_projection ob completed proposal_outcome command_state verification_outcome =
     (let unmet = set (ob_dependencies (or_objective ob)) - completed;
          status = or_status ob;
          (r, ready) =
            (if terminal_objective_state status then (TerminalReadiness, False)
             else if status = OActiveState then (ActiveReadiness, False)
             else if unmet \<noteq> {} then (BlockedDependencies, False)
             else (Ready, True));
          v = (case verification_outcome of
                 Some v \<Rightarrow> v
               | None \<Rightarrow>
                   if status = OCompleted then Verified
                   else if status = OFailedState \<or> status = OCancelledState then VerificationFailed
                   else if status = OBlockedUnknown then VerificationUnknown
                   else NotStarted)
      in case command_phase_of command_state of
           Inl e \<Rightarrow> Inl e
         | Inr phase \<Rightarrow>
             Inr \<lparr>op_objective_id = ob_objective_id (or_objective ob), op_persisted_status = status,
                  op_ready = ready, op_readiness = r, op_unmet_dependencies = unmet,
                  op_admission = proposal_outcome, op_command_phase = phase, op_verification = v\<rparr>)"

section \<open>Lifecycles\<close>

text \<open>An edge of an objective's life, under some reason; the budget rewrite of a failed one stays put.\<close>

definition objective_edge :: "objective_status \<Rightarrow> objective_status \<Rightarrow> bool" where
  "objective_edge a b \<longleftrightarrow> (\<exists>reason. validate_objective_transition a b (Some reason))"

lemma objective_edge_iff:
  "objective_edge a b \<longleftrightarrow> b \<in> set (objective_targets a) \<or> a = OFailedState \<and> b \<in> {OPending, OFailedState}"
  unfolding objective_edge_def validate_objective_transition_def
  by (cases a; cases b) auto

lemma objective_final:
  "objective_edge\<^sup>*\<^sup>* a b \<Longrightarrow> terminal_objective_state a \<Longrightarrow> a \<noteq> OFailedState \<Longrightarrow> b = a"
  by (induction rule: rtranclp_induct) (auto simp: objective_edge_iff elim: terminal_objective_state.elims)

lemma mission_final:
  "validate_mission_transition\<^sup>*\<^sup>* a b \<Longrightarrow> mission_targets a = [] \<Longrightarrow> b = a"
  by (induction rule: rtranclp_induct) (auto simp: validate_mission_transition_def)

lemma objective_status_value_inj [simp]: "objective_status_value a = objective_status_value b \<longleftrightarrow> a = b"
  by (cases a; cases b) simp_all

lemma mission_status_value_inj [simp]: "mission_status_value a = mission_status_value b \<longleftrightarrow> a = b"
  by (cases a; cases b) simp_all

end
