(* ===== verification/Mission_Repository.thy ===== *)
theory Mission_Repository
  imports Mission_States "HOL-Library.Product_Lexorder"
begin

text \<open>
  The in-memory mission repository of \<open>tools/minecraft/mission/repository.py\<close>: missions with
  their objectives, the audit list of transitions, proposals, budgets, evidence and presentation
  artefacts.  Every method returns the state it leaves behind together with its result or the
  exception it raises, since some raise after they have written.  The methods do not wait while
  they hold the lock, so each is one step.  The canonical hash of a mission is a parameter.
\<close>

section \<open>Records\<close>

datatype repo_error =
    IdempotencyConflict
  | RepoKeyError
  | RepoValueError string
  | RepoValidationError
  | CoroutineStopIteration

record transition_draft =
  td_mission_id :: string
  td_objective_id :: "string option"
  td_entity_version :: int
  td_from_state :: "string option"
  td_to_state :: string
  td_reason_code :: string
  td_actor :: string
  td_details :: json_obj
  td_evidence_refs :: "string list"
  td_occurred_at_ms :: int

record mission_transition = transition_draft +
  tr_transition_id :: int

record stored_proposal =
  sp_proposal :: goal_proposal
  sp_decision :: admission_decision
  sp_occurred_at_ms :: int

record evidence_link =
  el_link_id :: string
  el_mission_id :: string
  el_objective_id :: "string option"
  el_evidence_kind :: string
  el_evidence_ref :: string
  el_command_id :: "string option"
  el_attributable :: bool
  el_linked_at_ms :: int

record artifact =
  ar_artifact_id :: string
  ar_mission_id :: string
  ar_stage_id :: string
  ar_artifact_kind :: string
  ar_path :: string
  ar_sha256 :: string
  ar_captured_at_ms :: int
  ar_sanitized :: bool

text \<open>The pattern \<open>^[A-Z][A-Z0-9_]{1,63}$\<close>.\<close>

definition reason_code_ok :: "string \<Rightarrow> bool" where
  "reason_code_ok s \<longleftrightarrow>
     (case s of [] \<Rightarrow> False
      | c # cs \<Rightarrow> is_upper c \<and> 1 \<le> length cs \<and> length cs \<le> 63 \<and>
          list_all (\<lambda>d. is_upper d \<or> is_digit d \<or> d = CHR ''_'') cs)"

text \<open>The field constraints of a transition draft; constructing a record that fails them raises.\<close>

definition draft_ok :: "('a) transition_draft_scheme \<Rightarrow> bool" where
  "draft_ok d \<longleftrightarrow>
     0 \<le> td_entity_version d \<and> reason_code_ok (td_reason_code d) \<and>
     1 \<le> length (td_actor d) \<and> length (td_actor d) \<le> 128 \<and> 0 \<le> td_occurred_at_ms d"

section \<open>Artefact paths\<close>

text \<open>
  \<open>PurePosixPath\<close>: the parts between slashes without the empty ones and \<open>.\<close>; a leading slash
  makes the path absolute (\<open>None\<close>); the text of a relative path joins its parts, \<open>.\<close> when none is left.
\<close>

fun split_on :: "char \<Rightarrow> string \<Rightarrow> string list" where
  "split_on sep [] = [[]]"
| "split_on sep (c # cs) =
     (if c = sep then [] # split_on sep cs
      else (case split_on sep cs of [] \<Rightarrow> [[c]] | p # ps \<Rightarrow> (c # p) # ps))"

definition path_parts :: "string \<Rightarrow> string list" where
  "path_parts s = filter (\<lambda>p. p \<noteq> [] \<and> p \<noteq> ''.'') (split_on (CHR ''/'') s)"

definition artifact_path :: "string \<Rightarrow> string option" where
  "artifact_path value =
     (let s = map (\<lambda>c. if c = CHR 0x5C then CHR ''/'' else c) value; ps = path_parts s in
      if (\<exists>cs. s = CHR ''/'' # cs) \<or> ''..'' \<in> set ps then None
      else Some (if ps = [] then ''.'' else join_with (CHR ''/'') ps))"

text \<open>The pattern \<open>^[a-z][a-z0-9_]{0,63}$\<close> of evidence and artefact kinds.\<close>

definition kind_name :: "string \<Rightarrow> bool" where
  "kind_name s \<longleftrightarrow>
     (case s of [] \<Rightarrow> False
      | c # cs \<Rightarrow> is_lower c \<and> length cs \<le> 63 \<and>
          list_all (\<lambda>d. is_lower d \<or> is_digit d \<or> d = CHR ''_'') cs)"

text \<open>Constructing the two models from their fields.\<close>

definition make_evidence_link :: "evidence_link \<Rightarrow> evidence_link option" where
  "make_evidence_link l =
     (if slug 127 (el_link_id l) \<and> kind_name (el_evidence_kind l) \<and>
         1 \<le> length (el_evidence_ref l) \<and> length (el_evidence_ref l) \<le> 512 \<and> 0 \<le> el_linked_at_ms l
      then Some l else None)"

definition make_artifact :: "artifact \<Rightarrow> artifact option" where
  "make_artifact a =
     (case artifact_path (ar_path a) of
        None \<Rightarrow> None
      | Some path \<Rightarrow>
          if slug 127 (ar_artifact_id a) \<and> kind_name (ar_artifact_kind a) \<and> sha_hex (ar_sha256 a) \<and>
             0 \<le> ar_captured_at_ms a
          then Some (a\<lparr>ar_path := path\<rparr>) else None)"

section \<open>The repository\<close>

record repository =
  re_missions :: "(string, mission_record) dict"
  re_requests :: "(string \<times> string, string \<times> string) dict"
  re_objectives :: "(string, objective_record list) dict"
  re_transitions :: "(string, mission_transition list) dict"
  re_proposals :: "(string, stored_proposal list) dict"
  re_budgets :: "(string, budget_account) dict"
  re_evidence :: "(string, evidence_link list) dict"
  re_artifacts :: "(string, artifact list) dict"
  re_transition_id :: int

record mission_snapshot =
  sn_mission :: mission_record
  sn_objectives :: "objective_record list"
  sn_transitions :: "mission_transition list"
  sn_proposals :: "stored_proposal list"
  sn_budget :: "budget_account option"
  sn_evidence_links :: "evidence_link list"
  sn_presentation_artifacts :: "artifact list"

definition empty_repository :: repository where
  "empty_repository =
     \<lparr>re_missions = [], re_requests = [], re_objectives = [], re_transitions = [], re_proposals = [],
      re_budgets = [], re_evidence = [], re_artifacts = [], re_transition_id = 0\<rparr>"

definition new_mission_record :: "(mission_spec \<Rightarrow> string) \<Rightarrow> string \<Rightarrow> string \<Rightarrow> mission_spec \<Rightarrow> int \<Rightarrow> mission_record" where
  "new_mission_record spec_hash scope rid spec occ =
     \<lparr>mr_caller_scope = scope, mr_request_id = rid, mr_request_hash = spec_hash spec, mr_spec = spec,
      mr_status = MAccepted, mr_version = 0, mr_created_at_ms = occ, mr_updated_at_ms = occ\<rparr>"

definition new_objective_record :: "string \<Rightarrow> nat \<Rightarrow> mission_objective \<Rightarrow> objective_record" where
  "new_objective_record mid n ob =
     \<lparr>or_mission_id = mid, or_ordinal = n, or_objective = ob, or_status = OPending, or_version = 0\<rparr>"

definition create_mission ::
  "(mission_spec \<Rightarrow> string) \<Rightarrow> repository \<Rightarrow> string \<Rightarrow> string \<Rightarrow> mission_spec \<Rightarrow> int \<Rightarrow>
   repository \<times> (repo_error + mission_record \<times> bool)" where
  "create_mission spec_hash r scope rid spec occ =
     (case dict_get (re_requests r) (scope, rid) of
        Some (request_hash, mid) \<Rightarrow>
          if request_hash \<noteq> spec_hash spec then (r, Inl IdempotencyConflict)
          else (case dict_get (re_missions r) mid of
                  None \<Rightarrow> (r, Inl RepoKeyError)
                | Some m \<Rightarrow> (r, Inr (m, True)))
      | None \<Rightarrow>
          if dict_get (re_missions r) (ms_mission_id spec) \<noteq> None then (r, Inl IdempotencyConflict)
          else if \<not> sha_hex (spec_hash spec) \<or> occ < 0 then (r, Inl RepoValidationError)
          else
            (let m = new_mission_record spec_hash scope rid spec occ; mid = ms_mission_id spec in
             (r\<lparr>re_missions := dict_set mid m (re_missions r),
                re_requests := dict_set (scope, rid) (spec_hash spec, mid) (re_requests r),
                re_objectives :=
                  dict_set mid (map (\<lambda>(n, ob). new_objective_record mid n ob) (enumerate 0 (ms_objectives spec)))
                    (re_objectives r),
                re_transitions := dict_set mid [] (re_transitions r),
                re_proposals := dict_set mid [] (re_proposals r),
                re_evidence := dict_set mid [] (re_evidence r),
                re_artifacts := dict_set mid [] (re_artifacts r)\<rparr>,
              Inr (m, False))))"

definition list_objectives :: "repository \<Rightarrow> string \<Rightarrow> repo_error + objective_record list" where
  "list_objectives r mid =
     (case dict_get (re_objectives r) mid of None \<Rightarrow> Inl RepoKeyError | Some obs \<Rightarrow> Inr obs)"

text \<open>
  The tail that four methods share: the counter is taken, the audit record is constructed, which
  validates it, and appended.  By then the caller has already stored its update.
\<close>

definition audit :: "repository \<Rightarrow> transition_draft \<Rightarrow> repository \<times> (repo_error + mission_transition)" where
  "audit r d =
     (let r1 = r\<lparr>re_transition_id := re_transition_id r + 1\<rparr>;
          t = transition_draft.extend d \<lparr>tr_transition_id = re_transition_id r1\<rparr> in
      case dict_get (re_transitions r1) (td_mission_id d) of
        None \<Rightarrow> (r1, Inl RepoKeyError)
      | Some ts \<Rightarrow>
          if \<not> draft_ok d then (r1, Inl RepoValidationError)
          else (r1\<lparr>re_transitions := dict_set (td_mission_id d) (ts @ [t]) (re_transitions r1)\<rparr>, Inr t))"

definition append_objective ::
  "repository \<Rightarrow> string \<Rightarrow> mission_objective \<Rightarrow> string \<Rightarrow> string \<Rightarrow> int \<Rightarrow> string list \<Rightarrow>
   repository \<times> (repo_error + objective_record)" where
  "append_objective r mid ob reason actor occ refs =
     (case dict_get (re_objectives r) mid of
        None \<Rightarrow> (r, Inl RepoKeyError)
      | Some records \<Rightarrow>
          if list_ex (\<lambda>x. ob_objective_id (or_objective x) = ob_objective_id ob) records
          then (r, Inl IdempotencyConflict)
          else
            (let new = new_objective_record mid (length records) ob;
                 r1 = r\<lparr>re_objectives := dict_set mid (records @ [new]) (re_objectives r)\<rparr> in
             case audit r1
                    \<lparr>td_mission_id = mid, td_objective_id = Some (ob_objective_id ob), td_entity_version = 0,
                     td_from_state = None, td_to_state = objective_status_value OPending,
                     td_reason_code = reason, td_actor = actor, td_details = [], td_evidence_refs = refs,
                     td_occurred_at_ms = occ\<rparr> of
               (r2, Inl e) \<Rightarrow> (r2, Inl e)
             | (r2, Inr _) \<Rightarrow> (r2, Inr new)))"

definition transition_mission ::
  "repository \<Rightarrow> string \<Rightarrow> int \<Rightarrow> mission_status \<Rightarrow> string \<Rightarrow> string \<Rightarrow> int \<Rightarrow> json_obj \<Rightarrow> string list \<Rightarrow>
   repository \<times> (repo_error + mission_record)" where
  "transition_mission r mid expected target reason actor occ details refs =
     (case dict_get (re_missions r) mid of
        None \<Rightarrow> (r, Inl RepoKeyError)
      | Some current \<Rightarrow>
          if mr_version current \<noteq> expected then (r, Inl (RepoValueError ''STALE_MISSION_VERSION''))
          else if \<not> validate_mission_transition (mr_status current) target
          then (r, Inl (RepoValueError ''invalid mission transition''))
          else
            (let updated = current\<lparr>mr_status := target, mr_version := mr_version current + 1,
                                   mr_updated_at_ms := occ\<rparr>;
                 r1 = r\<lparr>re_missions := dict_set mid updated (re_missions r)\<rparr> in
             case audit r1
                    \<lparr>td_mission_id = mid, td_objective_id = None, td_entity_version = mr_version updated,
                     td_from_state = Some (mission_status_value (mr_status current)),
                     td_to_state = mission_status_value target, td_reason_code = reason, td_actor = actor,
                     td_details = details, td_evidence_refs = refs, td_occurred_at_ms = occ\<rparr> of
               (r2, Inl e) \<Rightarrow> (r2, Inl e)
             | (r2, Inr _) \<Rightarrow> (r2, Inr updated)))"

text \<open>The first record with the identifier, with its index.\<close>

fun find_objective :: "string \<Rightarrow> objective_record list \<Rightarrow> (nat \<times> objective_record) option" where
  "find_objective oid [] = None"
| "find_objective oid (x # xs) =
     (if ob_objective_id (or_objective x) = oid then Some (0, x)
      else (case find_objective oid xs of None \<Rightarrow> None | Some (i, y) \<Rightarrow> Some (Suc i, y)))"

definition store_objective ::
  "repository \<Rightarrow> string \<Rightarrow> objective_record list \<Rightarrow> nat \<Rightarrow> objective_record \<Rightarrow> objective_status \<Rightarrow>
   string \<Rightarrow> string \<Rightarrow> int \<Rightarrow> json_obj \<Rightarrow> string list \<Rightarrow> repository \<times> (repo_error + objective_record)" where
  "store_objective r mid records i updated from_status reason actor occ details refs =
     (let r1 = r\<lparr>re_objectives := dict_set mid (records[i := updated]) (re_objectives r)\<rparr> in
      case audit r1
             \<lparr>td_mission_id = mid, td_objective_id = Some (ob_objective_id (or_objective updated)),
              td_entity_version = or_version updated,
              td_from_state = Some (objective_status_value from_status),
              td_to_state = objective_status_value (or_status updated), td_reason_code = reason,
              td_actor = actor, td_details = details, td_evidence_refs = refs, td_occurred_at_ms = occ\<rparr> of
        (r2, Inl e) \<Rightarrow> (r2, Inl e)
      | (r2, Inr _) \<Rightarrow> (r2, Inr updated))"

definition transition_objective ::
  "repository \<Rightarrow> string \<Rightarrow> string \<Rightarrow> int \<Rightarrow> objective_status \<Rightarrow> string \<Rightarrow> string \<Rightarrow> int \<Rightarrow> json_obj \<Rightarrow>
   string list \<Rightarrow> repository \<times> (repo_error + objective_record)" where
  "transition_objective r mid oid expected target reason actor occ details refs =
     (case dict_get (re_objectives r) mid of
        None \<Rightarrow> (r, Inl RepoKeyError)
      | Some records \<Rightarrow>
          (case find_objective oid records of
             None \<Rightarrow> (r, Inl CoroutineStopIteration)
           | Some (i, current) \<Rightarrow>
               if or_version current \<noteq> expected then (r, Inl (RepoValueError ''STALE_OBJECTIVE_VERSION''))
               else if \<not> validate_objective_transition (or_status current) target (Some reason)
               then (r, Inl (RepoValueError ''invalid objective transition''))
               else store_objective r mid records i
                      (current\<lparr>or_status := target, or_version := or_version current + 1\<rparr>)
                      (or_status current) reason actor occ details refs))"

definition replace_objective_budget ::
  "repository \<Rightarrow> string \<Rightarrow> string \<Rightarrow> int \<Rightarrow> budget_usage \<Rightarrow> string \<Rightarrow> string \<Rightarrow> int \<Rightarrow> goal_spec option \<Rightarrow>
   json_obj \<Rightarrow> string list \<Rightarrow> repository \<times> (repo_error + objective_record)" where
  "replace_objective_budget r mid oid expected budget reason actor occ goal details refs =
     (case dict_get (re_objectives r) mid of
        None \<Rightarrow> (r, Inl RepoKeyError)
      | Some records \<Rightarrow>
          (case find_objective oid records of
             None \<Rightarrow> (r, Inl RepoKeyError)
           | Some (i, current) \<Rightarrow>
               if or_version current \<noteq> expected then (r, Inl (RepoValueError ''STALE_OBJECTIVE_VERSION''))
               else
                 (let ob = (or_objective current)\<lparr>ob_budget := budget\<rparr>;
                      ob' = (case goal of None \<Rightarrow> ob | Some g \<Rightarrow> ob\<lparr>ob_goal := g\<rparr>)
                  in store_objective r mid records i
                       (current\<lparr>or_objective := ob', or_version := or_version current + 1\<rparr>)
                       (or_status current) reason actor occ details refs)))"

definition append_mission_transition ::
  "repository \<Rightarrow> transition_draft \<Rightarrow> repository \<times> (repo_error + mission_transition)" where
  "append_mission_transition r d =
     (if dict_get (re_missions r) (td_mission_id d) = None then (r, Inl RepoKeyError) else audit r d)"

definition save_proposal ::
  "repository \<Rightarrow> goal_proposal \<Rightarrow> admission_decision \<Rightarrow> int \<Rightarrow> repository \<times> (repo_error + unit)" where
  "save_proposal r p d occ =
     (case dict_get (re_proposals r) (gp_mission_id p) of
        None \<Rightarrow> (r, Inl RepoKeyError)
      | Some records \<Rightarrow>
          if occ < 0 then (r, Inl RepoValidationError)
          else
            (let stored = \<lparr>sp_proposal = p, sp_decision = d, sp_occurred_at_ms = occ\<rparr> in
             case List.find (\<lambda>x. gp_proposal_id (sp_proposal x) = gp_proposal_id p) records of
               Some x \<Rightarrow> if x \<noteq> stored then (r, Inl IdempotencyConflict) else (r, Inr ())
             | None \<Rightarrow>
                 (r\<lparr>re_proposals := dict_set (gp_mission_id p) (records @ [stored]) (re_proposals r)\<rparr>, Inr ())))"

definition save_mission_budget :: "repository \<Rightarrow> string \<Rightarrow> budget_account \<Rightarrow> repository \<times> (repo_error + unit)" where
  "save_mission_budget r mid b =
     (if dict_get (re_missions r) mid = None then (r, Inl RepoKeyError)
      else (r\<lparr>re_budgets := dict_set mid b (re_budgets r)\<rparr>, Inr ()))"

definition link_evidence :: "repository \<Rightarrow> evidence_link \<Rightarrow> repository \<times> (repo_error + unit)" where
  "link_evidence r l =
     (case dict_get (re_evidence r) (el_mission_id l) of
        None \<Rightarrow> (r, Inl RepoKeyError)
      | Some links \<Rightarrow>
          if list_all (\<lambda>x. el_link_id x \<noteq> el_link_id l) links
          then (r\<lparr>re_evidence := dict_set (el_mission_id l) (links @ [l]) (re_evidence r)\<rparr>, Inr ())
          else (r, Inr ()))"

definition save_presentation_artifact :: "repository \<Rightarrow> artifact \<Rightarrow> repository \<times> (repo_error + unit)" where
  "save_presentation_artifact r a =
     (case dict_get (re_artifacts r) (ar_mission_id a) of
        None \<Rightarrow> (r, Inl RepoKeyError)
      | Some as \<Rightarrow>
          if list_all (\<lambda>x. ar_artifact_id x \<noteq> ar_artifact_id a) as
          then (r\<lparr>re_artifacts := dict_set (ar_mission_id a) (as @ [a]) (re_artifacts r)\<rparr>, Inr ())
          else (r, Inr ()))"

definition mission_snapshot_of :: "repository \<Rightarrow> string \<Rightarrow> repo_error + mission_snapshot" where
  "mission_snapshot_of r mid =
     (case (dict_get (re_missions r) mid, list_objectives r mid, dict_get (re_transitions r) mid,
            dict_get (re_proposals r) mid, dict_get (re_evidence r) mid, dict_get (re_artifacts r) mid) of
        (Some m, Inr obs, Some ts, Some ps, Some es, Some as) \<Rightarrow>
          Inr \<lparr>sn_mission = m, sn_objectives = obs, sn_transitions = ts, sn_proposals = ps,
               sn_budget = dict_get (re_budgets r) mid, sn_evidence_links = es,
               sn_presentation_artifacts = as\<rparr>
      | _ \<Rightarrow> Inl RepoKeyError)"

section \<open>Listing missions\<close>

text \<open>\<open>cursor.partition(sep)\<close> at the first separator; \<open>None\<close> when there is none.\<close>

fun partition_at :: "char \<Rightarrow> string \<Rightarrow> (string \<times> string) option" where
  "partition_at sep [] = None"
| "partition_at sep (c # cs) =
     (if c = sep then Some ([], cs)
      else (case partition_at sep cs of None \<Rightarrow> None | Some (a, b) \<Rightarrow> Some (c # a, b)))"

text \<open>
  A timestamp of superscript digits passes \<open>isdigit\<close> and is then refused by \<open>int\<close>, with a
  \<open>ValueError\<close> as well; here both are the one refusal.
\<close>

definition decode_cursor :: "string option \<Rightarrow> repo_error + int \<times> string" where
  "decode_cursor cursor =
     (case cursor of
        None \<Rightarrow> Inr (-1, [])
      | Some c \<Rightarrow>
          (case partition_at (CHR '':'') c of
             None \<Rightarrow> Inl (RepoValueError ''invalid mission cursor'')
           | Some (timestamp, mid) \<Rightarrow>
               if timestamp = [] \<or> \<not> list_all is_digit timestamp \<or> mid = []
               then Inl (RepoValueError ''invalid mission cursor'')
               else (case int_of_str timestamp of
                       None \<Rightarrow> Inl (RepoValueError ''invalid literal'')
                     | Some t \<Rightarrow> Inr (t, mid))))"

definition mission_key :: "mission_record \<Rightarrow> int \<times> string" where
  "mission_key m = (mr_created_at_ms m, ms_mission_id (mr_spec m))"

definition encode_key :: "int \<times> string \<Rightarrow> string" where
  "encode_key k = str_of_int (fst k) @ CHR '':'' # snd k"

definition encode_cursor :: "mission_record \<Rightarrow> string" where
  "encode_cursor m = encode_key (mission_key m)"

definition missions_after :: "repository \<Rightarrow> string \<Rightarrow> int \<times> string \<Rightarrow> mission_record list" where
  "missions_after r scope after =
     sort_key mission_key
       (filter (\<lambda>m. mr_caller_scope m = scope \<and> after < mission_key m) (dict_values (re_missions r)))"

definition list_missions ::
  "repository \<Rightarrow> string \<Rightarrow> int \<Rightarrow> string option \<Rightarrow> repo_error + mission_record list \<times> string option" where
  "list_missions r scope limit cursor =
     (if \<not> (1 \<le> limit \<and> limit \<le> 100) then Inl (RepoValueError ''limit must be between 1 and 100'')
      else
        (case decode_cursor cursor of
           Inl e \<Rightarrow> Inl e
         | Inr after \<Rightarrow>
             (let selected = take (nat (limit + 1)) (missions_after r scope after);
                  page = take (nat limit) selected
              in Inr (page, if limit < int (length selected) then Some (encode_cursor (last page)) else None))))"

end
