(* ===== verification/Mission_Repository_Inv.thy ===== *)
theory Mission_Repository_Inv
  imports Mission_Repository Mission_Properties
begin

text \<open>
  The mission repository as a transition system: its steps, the invariant of its tables, and the
  relation between a repository and any later one.
\<close>

section \<open>Steps\<close>

text \<open>
  One step is one method call with the arguments its callers can construct: mission
  specifications, drafts, links and artefacts that their own validators accept.
\<close>

inductive repo_step :: "(mission_spec \<Rightarrow> string) \<Rightarrow> (json \<Rightarrow> bool) \<Rightarrow> repository \<Rightarrow> repository \<Rightarrow> bool"
  for spec_hash candidate_valid where
  create: "\<lbrakk>mission_fields_ok spec; mission_check candidate_valid spec = Inr ();
     create_mission spec_hash r scope rid spec occ = (r', x)\<rbrakk> \<Longrightarrow> repo_step spec_hash candidate_valid r r'"
| append_ob: "append_objective r mid ob reason actor occ refs = (r', x') \<Longrightarrow>
     repo_step spec_hash candidate_valid r r'"
| mission: "transition_mission r mid expected target reason actor occ details refs = (r', y) \<Longrightarrow>
     repo_step spec_hash candidate_valid r r'"
| objective: "transition_objective r mid oid expected starget reason actor occ details refs = (r', x') \<Longrightarrow>
     repo_step spec_hash candidate_valid r r'"
| budget_of: "replace_objective_budget r mid oid expected budget reason actor occ goal details refs = (r', x') \<Longrightarrow>
     repo_step spec_hash candidate_valid r r'"
| draft: "\<lbrakk>draft_ok d; append_mission_transition r d = (r', z)\<rbrakk> \<Longrightarrow> repo_step spec_hash candidate_valid r r'"
| proposal: "save_proposal r p dn occ = (r', u) \<Longrightarrow> repo_step spec_hash candidate_valid r r'"
| account: "save_mission_budget r mid b = (r', u) \<Longrightarrow> repo_step spec_hash candidate_valid r r'"
| evidence: "\<lbrakk>make_evidence_link l0 = Some l; link_evidence r l = (r', u)\<rbrakk> \<Longrightarrow>
     repo_step spec_hash candidate_valid r r'"
| artifact: "\<lbrakk>make_artifact a0 = Some a; save_presentation_artifact r a = (r', u)\<rbrakk> \<Longrightarrow>
     repo_step spec_hash candidate_valid r r'"

definition repo_reachable :: "(mission_spec \<Rightarrow> string) \<Rightarrow> (json \<Rightarrow> bool) \<Rightarrow> repository \<Rightarrow> bool" where
  "repo_reachable h cv r \<longleftrightarrow> (repo_step h cv)\<^sup>*\<^sup>* empty_repository r"

section \<open>The invariant\<close>

definition dict_all :: "('k \<Rightarrow> 'v \<Rightarrow> bool) \<Rightarrow> ('k, 'v) dict \<Rightarrow> bool" where
  "dict_all P d \<longleftrightarrow> distinct (dict_keys d) \<and> (\<forall>k v. dict_get d k = Some v \<longrightarrow> P k v)"

lemma dict_all_set: "dict_all P d \<Longrightarrow> P k v \<Longrightarrow> dict_all P (dict_set k v d)"
  by (simp add: dict_all_def distinct_keys_set dict_simps)

lemma dict_all_get: "dict_all P d \<Longrightarrow> dict_get d k = Some v \<Longrightarrow> P k v"
  by (simp add: dict_all_def)

lemma dict_all_mono: "dict_all P d \<Longrightarrow> (\<And>k v. P k v \<Longrightarrow> Q k v) \<Longrightarrow> dict_all Q d"
  unfolding dict_all_def by blast

lemma dict_all_Nil [simp]: "dict_all P []"
  by (simp add: dict_all_def)

definition mission_entry :: "repository \<Rightarrow> string \<Rightarrow> mission_record \<Rightarrow> bool" where
  "mission_entry r mid m \<longleftrightarrow>
     ms_mission_id (mr_spec m) = mid \<and> mid \<noteq> [] \<and> 0 \<le> mr_created_at_ms m \<and> 0 \<le> mr_version m \<and>
     dict_get (re_requests r) (mr_caller_scope m, mr_request_id m) = Some (mr_request_hash m, mid)"

definition request_entry :: "repository \<Rightarrow> string \<times> string \<Rightarrow> string \<times> string \<Rightarrow> bool" where
  "request_entry r k v \<longleftrightarrow>
     (\<exists>m. dict_get (re_missions r) (snd v) = Some m \<and> mr_request_hash m = fst v \<and>
          (mr_caller_scope m, mr_request_id m) = k)"

definition objectives_entry :: "string \<Rightarrow> objective_record list \<Rightarrow> bool" where
  "objectives_entry mid obs \<longleftrightarrow>
     map or_ordinal obs = [0..<length obs] \<and> distinct (map (\<lambda>x. ob_objective_id (or_objective x)) obs) \<and>
     (\<forall>x\<in>set obs. or_mission_id x = mid \<and> 0 \<le> or_version x)"

definition transitions_entry :: "int \<Rightarrow> string \<Rightarrow> mission_transition list \<Rightarrow> bool" where
  "transitions_entry n mid ts \<longleftrightarrow>
     sorted_wrt (<) (map tr_transition_id ts) \<and>
     (\<forall>t\<in>set ts. td_mission_id t = mid \<and> draft_ok t \<and> 0 < tr_transition_id t \<and> tr_transition_id t \<le> n)"

definition audit_unique :: "(string, mission_transition list) dict \<Rightarrow> bool" where
  "audit_unique d \<longleftrightarrow>
     (\<forall>k ts k' ts' t t'. dict_get d k = Some ts \<longrightarrow> dict_get d k' = Some ts' \<longrightarrow> t \<in> set ts \<longrightarrow> t' \<in> set ts' \<longrightarrow>
        tr_transition_id t = tr_transition_id t' \<longrightarrow> k = k')"

definition proposals_entry :: "string \<Rightarrow> stored_proposal list \<Rightarrow> bool" where
  "proposals_entry mid ps \<longleftrightarrow>
     distinct (map (\<lambda>x. gp_proposal_id (sp_proposal x)) ps) \<and> (\<forall>x\<in>set ps. gp_mission_id (sp_proposal x) = mid)"

definition evidence_entry :: "string \<Rightarrow> evidence_link list \<Rightarrow> bool" where
  "evidence_entry mid ls \<longleftrightarrow> distinct (map el_link_id ls) \<and> (\<forall>x\<in>set ls. el_mission_id x = mid)"

definition artifacts_entry :: "string \<Rightarrow> artifact list \<Rightarrow> bool" where
  "artifacts_entry mid as \<longleftrightarrow>
     distinct (map ar_artifact_id as) \<and>
     (\<forall>x\<in>set as. ar_mission_id x = mid \<and> artifact_path (ar_path x) = Some (ar_path x))"

text \<open>Every table that a created mission enters has exactly the missions as its keys.\<close>

definition same_keys :: "repository \<Rightarrow> bool" where
  "same_keys r \<longleftrightarrow>
     (let ks = dict_keys (re_missions r) in
      dict_keys (re_objectives r) = ks \<and> dict_keys (re_transitions r) = ks \<and>
      dict_keys (re_proposals r) = ks \<and> dict_keys (re_evidence r) = ks \<and> dict_keys (re_artifacts r) = ks)"

definition repo_inv :: "repository \<Rightarrow> bool" where
  "repo_inv r \<longleftrightarrow>
     same_keys r \<and> 0 \<le> re_transition_id r \<and>
     dict_all (mission_entry r) (re_missions r) \<and> dict_all (request_entry r) (re_requests r) \<and>
     dict_all objectives_entry (re_objectives r) \<and>
     dict_all (transitions_entry (re_transition_id r)) (re_transitions r) \<and> audit_unique (re_transitions r) \<and>
     dict_all proposals_entry (re_proposals r) \<and> dict_all evidence_entry (re_evidence r) \<and>
     dict_all artifacts_entry (re_artifacts r)"

lemma repo_inv_empty: "repo_inv empty_repository"
  by (simp add: repo_inv_def empty_repository_def same_keys_def audit_unique_def)

lemma same_keys_get:
  assumes "same_keys r"
  shows "dict_get (re_objectives r) k = None \<longleftrightarrow> dict_get (re_missions r) k = None"
    and "dict_get (re_transitions r) k = None \<longleftrightarrow> dict_get (re_missions r) k = None"
    and "dict_get (re_proposals r) k = None \<longleftrightarrow> dict_get (re_missions r) k = None"
    and "dict_get (re_evidence r) k = None \<longleftrightarrow> dict_get (re_missions r) k = None"
    and "dict_get (re_artifacts r) k = None \<longleftrightarrow> dict_get (re_missions r) k = None"
  using assms by (metis (no_types, lifting) same_keys_def dict_get_None_keys)+

lemma dict_keys_set_present: "dict_get d k = Some w \<Longrightarrow> dict_keys (dict_set k v d) = dict_keys d"
  by (metis dict_get_Some_keys dict_keys_set)

section \<open>Entries\<close>

lemma enumerate_map_ordinal:
  "map or_ordinal (map (\<lambda>(n, ob). new_objective_record mid n ob) (enumerate k obs)) = [k..<k + length obs]"
proof -
  have "map or_ordinal (map (\<lambda>(n, ob). new_objective_record mid n ob) (enumerate k obs)) =
      map fst (enumerate k obs)"
    by (simp add: new_objective_record_def comp_def case_prod_unfold)
  then show ?thesis by simp
qed

lemma enumerate_map_ids:
  "map (\<lambda>x. ob_objective_id (or_objective x)) (map (\<lambda>(n, ob). new_objective_record mid n ob) (enumerate k obs)) =
   map ob_objective_id obs"
  by (induction obs arbitrary: k) (simp_all add: new_objective_record_def)

lemma objectives_entry_new:
  assumes "distinct (map ob_objective_id obs)"
  shows "objectives_entry mid (map (\<lambda>(n, ob). new_objective_record mid n ob) (enumerate 0 obs))"
  unfolding objectives_entry_def enumerate_map_ordinal enumerate_map_ids
  using assms by (auto simp: new_objective_record_def)

lemma objectives_entry_append:
  assumes "objectives_entry mid obs"
    and "\<not> list_ex (\<lambda>x. ob_objective_id (or_objective x) = ob_objective_id ob) obs"
  shows "objectives_entry mid (obs @ [new_objective_record mid (length obs) ob])"
  using assms by (auto simp: objectives_entry_def new_objective_record_def list_ex_iff)

lemma find_objective_nth:
  "find_objective oid xs = Some (i, x) \<Longrightarrow>
   i < length xs \<and> xs ! i = x \<and> ob_objective_id (or_objective x) = oid"
  by (induction xs arbitrary: i) (auto split: if_splits option.splits)

lemma objectives_entry_update:
  assumes e: "objectives_entry mid obs" and "i < length obs"
    and "or_ordinal y = or_ordinal (obs ! i)" "or_mission_id y = or_mission_id (obs ! i)"
    and "ob_objective_id (or_objective y) = ob_objective_id (or_objective (obs ! i))" and "0 \<le> or_version y"
  shows "objectives_entry mid (obs[i := y])"
proof -
  have same: "map f (obs[i := y]) = map f obs" if "f y = f (obs ! i)" for f :: "objective_record \<Rightarrow> 'z"
    using that assms(2) by (simp add: map_update list_update_same_conv)
  have m: "set (obs[i := y]) \<subseteq> insert y (set obs)" by (rule set_update_subset_insert)
  have "or_mission_id y = mid" using assms(1,2,4) by (simp add: objectives_entry_def)
  then show ?thesis
    using e m assms(6) unfolding objectives_entry_def
    by (simp add: same [of or_ordinal, OF assms(3)]
        same [of "\<lambda>x. ob_objective_id (or_objective x)", OF assms(5)]) blast
qed

lemma transitions_entry_later: "transitions_entry n mid ts \<Longrightarrow> n \<le> n' \<Longrightarrow> transitions_entry n' mid ts"
  by (fastforce simp: transitions_entry_def)

lemma transitions_entry_append:
  assumes "transitions_entry n mid ts" "draft_ok t" "td_mission_id t = mid" "tr_transition_id t = n + 1" "0 \<le> n"
  shows "transitions_entry (n + 1) mid (ts @ [t])"
  using assms by (fastforce simp: transitions_entry_def sorted_wrt_append)

lemma draft_ok_extend [simp]: "draft_ok (transition_draft.extend d x) = draft_ok d"
  by (simp add: draft_ok_def transition_draft.defs)

lemma extend_simps [simp]:
  "td_mission_id (transition_draft.extend d x) = td_mission_id d"
  "tr_transition_id (transition_draft.extend d \<lparr>tr_transition_id = n\<rparr>) = n"
  by (simp_all add: transition_draft.defs)

section \<open>Artefact paths\<close>

lemma split_on_nonempty [simp]: "split_on c s \<noteq> []"
  by (induction s) (auto split: list.splits)

lemma split_on_no_sep: "p \<in> set (split_on c s) \<Longrightarrow> c \<notin> set p"
  by (induction s arbitrary: p) (auto split: list.splits if_splits)

lemma split_on_word: "c \<notin> set p \<Longrightarrow> split_on c p = [p]"
  by (induction p) auto

lemma split_on_cons: "c \<notin> set p \<Longrightarrow> split_on c (p @ c # s) = p # split_on c s"
  by (induction p) auto

lemma split_on_join:
  "ps \<noteq> [] \<Longrightarrow> \<forall>p\<in>set ps. c \<notin> set p \<Longrightarrow> split_on c (join_with c ps) = ps"
  by (induction c ps rule: join_with.induct) (simp_all add: split_on_word split_on_cons)

lemma path_parts_clean: "p \<in> set (path_parts s) \<Longrightarrow> p \<noteq> [] \<and> p \<noteq> ''.'' \<and> CHR ''/'' \<notin> set p"
  by (auto simp: path_parts_def dest: split_on_no_sep)

lemma path_parts_join:
  assumes "ps \<noteq> []" "\<forall>p\<in>set ps. p \<noteq> [] \<and> p \<noteq> ''.'' \<and> CHR ''/'' \<notin> set p"
  shows "path_parts (join_with (CHR ''/'') ps) = ps"
  unfolding path_parts_def using assms by (subst split_on_join) (auto intro: filter_True)

lemma set_join_with: "set (join_with c ps) \<subseteq> insert c (\<Union>(set ` set ps))"
  by (induction c ps rule: join_with.induct) auto

lemma set_path_parts: "\<Union>(set ` set (path_parts s)) \<subseteq> set s"
proof -
  have "p \<in> set (split_on c s) \<Longrightarrow> set p \<subseteq> set s" for c p
  proof (induction s arbitrary: p)
    case (Cons a s)
    obtain q qs where q: "split_on c s = q # qs" by (cases "split_on c s") auto
    then have "set q \<subseteq> set s" "\<forall>r\<in>set qs. set r \<subseteq> set s" using Cons.IH by auto
    with Cons.prems q show ?case by (auto split: if_splits)
  qed simp
  then show ?thesis unfolding path_parts_def by auto
qed

lemma join_with_slash_start:
  "ps \<noteq> [] \<Longrightarrow> \<forall>p\<in>set ps. p \<noteq> [] \<and> c \<notin> set p \<Longrightarrow> join_with c ps \<noteq> c # cs"
  by (cases "(c, ps)" rule: join_with.cases) (auto simp: append_eq_Cons_conv)

lemma artifact_path_fixed:
  assumes "artifact_path v = Some p"
  shows "artifact_path p = Some p" and "''..'' \<notin> set (path_parts p)" and "\<nexists>cs. p = CHR ''/'' # cs"
    and "CHR 0x5C \<notin> set p"
proof -
  let ?s = "map (\<lambda>c. if c = CHR 0x5C then CHR ''/'' else c) v"
  let ?ps = "path_parts ?s"
  have dots: "''..'' \<notin> set ?ps" and p: "p = (if ?ps = [] then ''.'' else join_with (CHR ''/'') ?ps)"
    using assms by (auto simp: artifact_path_def Let_def split: if_splits)
  have clean: "\<forall>q\<in>set ?ps. q \<noteq> [] \<and> q \<noteq> ''.'' \<and> CHR ''/'' \<notin> set q"
    using path_parts_clean by blast
  have dot: "path_parts ''.'' = []" by (simp add: path_parts_def)
  have parts: "path_parts p = ?ps"
  proof (cases "?ps = []")
    case True
    then show ?thesis using p dot by simp
  next
    case False
    then show ?thesis using p path_parts_join [OF False clean] by simp
  qed
  show "''..'' \<notin> set (path_parts p)" using dots parts by simp
  show start: "\<nexists>cs. p = CHR ''/'' # cs"
    using p join_with_slash_start [of ?ps "CHR ''/''"] clean by (cases "?ps = []") simp_all
  have "CHR 0x5C \<notin> set ?s" by (induction v) auto
  then show bs: "CHR 0x5C \<notin> set p"
    using p set_join_with [of "CHR ''/''" ?ps] set_path_parts [of ?s] by (auto split: if_splits)
  then have "map (\<lambda>c. if c = CHR 0x5C then CHR ''/'' else c) p = p"
    by (intro map_idI) auto
  moreover have "(if path_parts p = [] then ''.'' else join_with (CHR ''/'') (path_parts p)) = p"
    unfolding parts by (rule p [symmetric])
  ultimately show "artifact_path p = Some p"
    using start \<open>''..'' \<notin> set (path_parts p)\<close> unfolding artifact_path_def Let_def
    by (cases "path_parts p = []") simp_all
qed

lemma make_artifact_path: "make_artifact a0 = Some a \<Longrightarrow> artifact_path (ar_path a) = Some (ar_path a)"
  by (auto simp: make_artifact_def dest: artifact_path_fixed(1) split: option.splits if_splits)

section \<open>Operations keep the invariant\<close>

text \<open>A change of objectives alone, and the audit that follows it.\<close>

lemma repo_inv_objectives:
  assumes "repo_inv r" "dict_get (re_objectives r) mid = Some obs0" "objectives_entry mid obs"
  shows "repo_inv (r\<lparr>re_objectives := dict_set mid obs (re_objectives r)\<rparr>)"
proof -
  have [simp]: "mission_entry (r\<lparr>re_objectives := y\<rparr>) = mission_entry r"
    "request_entry (r\<lparr>re_objectives := y\<rparr>) = request_entry r" for y
    by (simp_all add: fun_eq_iff mission_entry_def request_entry_def)
  show ?thesis
    using assms by (simp add: repo_inv_def same_keys_def Let_def dict_all_set dict_keys_set_present)
qed

lemma audit_unique_append:
  assumes "audit_unique d" "dict_all (transitions_entry n) d" "dict_get d mid = Some ts" "tr_transition_id t = n + 1"
  shows "audit_unique (dict_set mid (ts @ [t]) d)"
proof -
  have low: "tr_transition_id t' < tr_transition_id t" if "dict_get d k = Some ts'" "t' \<in> set ts'" for k ts' t'
  proof -
    have "transitions_entry n k ts'" using assms(2) that(1) by (rule dict_all_get)
    then have "tr_transition_id t' \<le> n" using that(2) by (simp add: transitions_entry_def)
    then show ?thesis using assms(4) by simp
  qed
  have neq: "tr_transition_id t' \<noteq> tr_transition_id t" if "dict_get d k = Some ts'" "t' \<in> set ts'" for k ts' t'
    using low [OF that] by simp
  show ?thesis
    unfolding audit_unique_def dict_get_set
  proof (intro allI impI)
    fix k us k' us' u u'
    assume a: "(if k = mid then Some (ts @ [t]) else dict_get d k) = Some us"
      "(if k' = mid then Some (ts @ [t]) else dict_get d k') = Some us'"
      "u \<in> set us" "u' \<in> set us'" "tr_transition_id u = tr_transition_id u'"
    show "k = k'"
    proof (rule ccontr)
      assume "k \<noteq> k'"
      then consider "k = mid" "k' \<noteq> mid" | "k \<noteq> mid" "k' = mid" | "k \<noteq> mid" "k' \<noteq> mid" by blast
      then show False
      proof cases
        case 1
        with a have "u = t \<or> u \<in> set ts" "dict_get d k' = Some us'" by auto
        with 1 a(4,5) neq assms(1,3) show False unfolding audit_unique_def by metis
      next
        case 2
        with a have "u' = t \<or> u' \<in> set ts" "dict_get d k = Some us" by auto
        with 2 a(3,5) neq assms(1,3) show False unfolding audit_unique_def by metis
      next
        case 3
        with a assms(1) \<open>k \<noteq> k'\<close> show False unfolding audit_unique_def by (metis (full_types))
      qed
    qed
  qed
qed

lemma repo_inv_audit:
  assumes inv: "repo_inv r" and "audit r d = (r', x)"
  shows "repo_inv r'"
proof -
  have [simp]: "mission_entry (r\<lparr>re_transition_id := n, re_transitions := y\<rparr>) = mission_entry r"
    "request_entry (r\<lparr>re_transition_id := n, re_transitions := y\<rparr>) = request_entry r"
    "mission_entry (r\<lparr>re_transition_id := n\<rparr>) = mission_entry r"
    "request_entry (r\<lparr>re_transition_id := n\<rparr>) = request_entry r" for n y
    by (simp_all add: fun_eq_iff mission_entry_def request_entry_def)
  let ?n = "re_transition_id r"
  have "dict_all (transitions_entry (?n + 1)) (re_transitions r)"
    using inv unfolding repo_inv_def by (blast intro: dict_all_mono transitions_entry_later less_imp_le zless_add1_eq [THEN iffD2])
  then show ?thesis
    using assms
    by (auto simp: repo_inv_def audit_def Let_def same_keys_def dict_keys_set_present
        intro!: dict_all_set transitions_entry_append audit_unique_append
        dest: dict_all_get split: option.splits if_splits)
qed

lemma repo_inv_store_objective:
  assumes "repo_inv r" "dict_get (re_objectives r) mid = Some obs" "objectives_entry mid (obs[i := y])"
    and st: "store_objective r mid obs i y st reason actor occ details refs = (r', x)"
  shows "repo_inv r'"
  using repo_inv_objectives [OF assms(1-3)] assms(4)
  by (auto simp: store_objective_def Let_def intro: repo_inv_audit split: prod.splits sum.splits)

lemma repo_inv_find_objective:
  assumes "repo_inv r" "dict_get (re_objectives r) mid = Some obs" "find_objective oid obs = Some (i, c)"
    and "or_ordinal y = or_ordinal c" "or_mission_id y = or_mission_id c"
    and "ob_objective_id (or_objective y) = ob_objective_id (or_objective c)" "or_version y = or_version c + 1"
  shows "objectives_entry mid (obs[i := y])"
proof -
  have e: "objectives_entry mid obs" using assms(1,2) by (auto simp: repo_inv_def intro: dict_all_get)
  note i = find_objective_nth [OF assms(3)]
  then have "c \<in> set obs" by auto
  then have "0 \<le> or_version y" using e assms(7) by (simp add: objectives_entry_def)
  then show ?thesis using i assms by (intro objectives_entry_update [OF e]) simp_all
qed

lemma repo_inv_mission:
  assumes inv: "repo_inv r" and m: "dict_get (re_missions r) mid = Some m"
    and "mr_spec m' = mr_spec m" "mr_caller_scope m' = mr_caller_scope m" "mr_request_id m' = mr_request_id m"
    and "mr_request_hash m' = mr_request_hash m" "mr_created_at_ms m' = mr_created_at_ms m"
    and "mr_version m' = mr_version m + 1"
  shows "repo_inv (r\<lparr>re_missions := dict_set mid m' (re_missions r)\<rparr>)"
proof -
  let ?r = "r\<lparr>re_missions := dict_set mid m' (re_missions r)\<rparr>"
  have me: "mission_entry ?r = mission_entry r"
    by (simp add: fun_eq_iff mission_entry_def)
  have "mission_entry r mid m" using inv m by (auto simp: repo_inv_def intro: dict_all_get)
  then have 1: "mission_entry r mid m'" using assms by (simp add: mission_entry_def)
  have 2: "request_entry ?r k v" if "request_entry r k v" for k v
    using that m assms(3-8) by (auto simp: request_entry_def dict_simps)
  have 3: "dict_all (request_entry ?r) (re_requests ?r)"
    using inv 2 by (auto simp: repo_inv_def intro: dict_all_mono)
  show ?thesis
    using inv m 1 3
    by (simp add: repo_inv_def same_keys_def Let_def dict_keys_set_present me dict_all_set)
qed

lemma mission_fields_id: "mission_fields_ok spec \<Longrightarrow> ms_mission_id spec \<noteq> []"
  by (auto simp: mission_fields_ok_def slug_def)

lemma mission_check_distinct:
  "mission_check cv spec = Inr () \<Longrightarrow> distinct (map ob_objective_id (ms_objectives spec))"
  by (auto simp: mission_check_def Let_def objectives_by_id_length split: if_splits)

lemma repo_inv_create:
  assumes inv: "repo_inv r" and spec: "mission_fields_ok spec" "mission_check cv spec = Inr ()"
    and "create_mission h r scope rid spec occ = (r', x)"
  shows "repo_inv r'"
proof (cases "r' = r")
  case False
  let ?mid = "ms_mission_id spec" and ?m = "new_mission_record h scope rid spec occ"
  have new: "dict_get (re_requests r) (scope, rid) = None" "dict_get (re_missions r) ?mid = None" "0 \<le> occ"
    and r': "r' = r\<lparr>re_missions := dict_set ?mid ?m (re_missions r),
                re_requests := dict_set (scope, rid) (h spec, ?mid) (re_requests r),
                re_objectives :=
                  dict_set ?mid (map (\<lambda>(n, ob). new_objective_record ?mid n ob) (enumerate 0 (ms_objectives spec)))
                    (re_objectives r),
                re_transitions := dict_set ?mid [] (re_transitions r),
                re_proposals := dict_set ?mid [] (re_proposals r),
                re_evidence := dict_set ?mid [] (re_evidence r),
                re_artifacts := dict_set ?mid [] (re_artifacts r)\<rparr>"
    using assms(4) False by (auto simp: create_mission_def Let_def split: option.splits if_splits)
  have keys: "same_keys r'"
    using inv by (auto simp: r' repo_inv_def same_keys_def Let_def dict_keys_set)
  have me: "mission_entry r' k v" if "mission_entry r k v" for k v
    using that new by (auto simp: r' mission_entry_def dict_simps)
  have m: "mission_entry r' ?mid ?m"
    using new mission_fields_id [OF spec(1)] by (simp add: r' mission_entry_def new_mission_record_def dict_simps)
  have re: "request_entry r' k v" if "request_entry r k v" for k v
    using that new by (auto simp: r' request_entry_def dict_simps)
  have q: "request_entry r' (scope, rid) (h spec, ?mid)"
    by (simp add: r' request_entry_def new_mission_record_def dict_simps)
  have 1: "dict_all (mission_entry r') (re_missions r')"
    using inv me m by (simp add: r' repo_inv_def dict_all_def distinct_keys_set dict_simps)
  have 2: "dict_all (request_entry r') (re_requests r')"
    using inv re q by (simp add: r' repo_inv_def dict_all_def distinct_keys_set dict_simps)
  have 3: "audit_unique (re_transitions r')"
    using inv new by (auto simp: r' repo_inv_def audit_unique_def dict_simps split: if_splits)
  show ?thesis
    using inv keys 1 2 3 objectives_entry_new [OF mission_check_distinct [OF spec(2)]]
    unfolding repo_inv_def
    by (auto simp: r' transitions_entry_def proposals_entry_def evidence_entry_def artifacts_entry_def
        intro!: dict_all_set)
qed (use inv in simp)


lemma repo_inv_rest:
  assumes inv: "repo_inv r"
  shows "save_proposal r p dn occ = (r', u) \<Longrightarrow> repo_inv r'"
    and "save_mission_budget r mid b = (r', u) \<Longrightarrow> repo_inv r'"
    and "link_evidence r l = (r', u) \<Longrightarrow> repo_inv r'"
    and "\<lbrakk>make_artifact a0 = Some a; save_presentation_artifact r a = (r', u)\<rbrakk> \<Longrightarrow> repo_inv r'"
proof -
  have me: "mission_entry (r\<lparr>re_proposals := y\<rparr>) = mission_entry r"
    "request_entry (r\<lparr>re_proposals := y\<rparr>) = request_entry r"
    "mission_entry (r\<lparr>re_budgets := y2\<rparr>) = mission_entry r"
    "request_entry (r\<lparr>re_budgets := y2\<rparr>) = request_entry r"
    "mission_entry (r\<lparr>re_evidence := y3\<rparr>) = mission_entry r"
    "request_entry (r\<lparr>re_evidence := y3\<rparr>) = request_entry r"
    "mission_entry (r\<lparr>re_artifacts := y4\<rparr>) = mission_entry r"
    "request_entry (r\<lparr>re_artifacts := y4\<rparr>) = request_entry r" for y y2 y3 y4
    by (simp_all add: fun_eq_iff mission_entry_def request_entry_def)
  show "save_proposal r p dn occ = (r', u) \<Longrightarrow> repo_inv r'"
  proof -
    assume a: "save_proposal r p dn occ = (r', u)"
    show "repo_inv r'"
    proof (cases "r' = r")
      case False
      with a obtain ps where ps: "dict_get (re_proposals r) (gp_mission_id p) = Some ps"
        and none: "List.find (\<lambda>x. gp_proposal_id (sp_proposal x) = gp_proposal_id p) ps = None"
        and r': "r' = r\<lparr>re_proposals := dict_set (gp_mission_id p)
            (ps @ [\<lparr>sp_proposal = p, sp_decision = dn, sp_occurred_at_ms = occ\<rparr>]) (re_proposals r)\<rparr>"
        by (auto simp: save_proposal_def Let_def split: option.splits if_splits)
      have "proposals_entry (gp_mission_id p) ps" using inv ps by (auto simp: repo_inv_def intro: dict_all_get)
      then have "proposals_entry (gp_mission_id p) (ps @ [\<lparr>sp_proposal = p, sp_decision = dn, sp_occurred_at_ms = occ\<rparr>])"
        using none by (auto simp: proposals_entry_def find_None_iff)
      then show ?thesis
        using inv ps by (simp add: r' repo_inv_def same_keys_def Let_def me dict_keys_set_present dict_all_set)
    qed (use inv in simp)
  qed
  show "save_mission_budget r mid b = (r', u) \<Longrightarrow> repo_inv r'"
    using inv by (auto simp: save_mission_budget_def repo_inv_def same_keys_def me split: if_splits)
  show "link_evidence r l = (r', u) \<Longrightarrow> repo_inv r'"
  proof -
    assume a: "link_evidence r l = (r', u)"
    show "repo_inv r'"
    proof (cases "r' = r")
      case False
      with a obtain ls where ls: "dict_get (re_evidence r) (el_mission_id l) = Some ls"
        and new: "list_all (\<lambda>x. el_link_id x \<noteq> el_link_id l) ls"
        and r': "r' = r\<lparr>re_evidence := dict_set (el_mission_id l) (ls @ [l]) (re_evidence r)\<rparr>"
        by (auto simp: link_evidence_def split: option.splits if_splits)
      have "evidence_entry (el_mission_id l) ls" using inv ls by (auto simp: repo_inv_def intro: dict_all_get)
      then have "evidence_entry (el_mission_id l) (ls @ [l])"
        using new by (auto simp: evidence_entry_def list_all_iff)
      then show ?thesis
        using inv ls by (simp add: r' repo_inv_def same_keys_def Let_def me dict_keys_set_present dict_all_set)
    qed (use inv in simp)
  qed
  show "\<lbrakk>make_artifact a0 = Some a; save_presentation_artifact r a = (r', u)\<rbrakk> \<Longrightarrow> repo_inv r'"
  proof -
    assume m: "make_artifact a0 = Some a" and a: "save_presentation_artifact r a = (r', u)"
    show "repo_inv r'"
    proof (cases "r' = r")
      case False
      with a obtain as where as: "dict_get (re_artifacts r) (ar_mission_id a) = Some as"
        and new: "list_all (\<lambda>x. ar_artifact_id x \<noteq> ar_artifact_id a) as"
        and r': "r' = r\<lparr>re_artifacts := dict_set (ar_mission_id a) (as @ [a]) (re_artifacts r)\<rparr>"
        by (auto simp: save_presentation_artifact_def split: option.splits if_splits)
      have "artifacts_entry (ar_mission_id a) as" using inv as by (auto simp: repo_inv_def intro: dict_all_get)
      then have "artifacts_entry (ar_mission_id a) (as @ [a])"
        using new make_artifact_path [OF m] by (auto simp: artifacts_entry_def list_all_iff)
      then show ?thesis
        using inv as by (simp add: r' repo_inv_def same_keys_def Let_def me dict_keys_set_present dict_all_set)
    qed (use inv in simp)
  qed
qed

lemma repo_inv_append_objective:
  assumes "repo_inv r" and "append_objective r mid ob reason actor occ refs = (r', x)"
  shows "repo_inv r'"
proof (cases "r' = r")
  case False
  with assms(2) obtain obs where obs: "dict_get (re_objectives r) mid = Some obs"
    and new: "\<not> list_ex (\<lambda>x. ob_objective_id (or_objective x) = ob_objective_id ob) obs"
    by (auto simp: append_objective_def split: option.splits if_splits)
  have "objectives_entry mid obs" using assms(1) obs by (auto simp: repo_inv_def intro: dict_all_get)
  from repo_inv_objectives [OF assms(1) obs objectives_entry_append [OF this new]] assms(2) obs new
  show ?thesis
    by (auto simp: append_objective_def Let_def intro: repo_inv_audit split: prod.splits sum.splits)
qed (use assms(1) in simp)

lemma repo_inv_transition_mission:
  assumes "repo_inv r" and "transition_mission r mid expected target reason actor occ details refs = (r', x)"
  shows "repo_inv r'"
proof (cases "r' = r")
  case False
  with assms(2) obtain m where m: "dict_get (re_missions r) mid = Some m"
    by (auto simp: transition_mission_def split: option.splits)
  have "repo_inv (r\<lparr>re_missions := dict_set mid (m\<lparr>mr_status := target, mr_version := mr_version m + 1,
      mr_updated_at_ms := occ\<rparr>) (re_missions r)\<rparr>)"
    by (rule repo_inv_mission [OF assms(1) m]) simp_all
  with assms(2) m False show ?thesis
    by (auto simp: transition_mission_def Let_def intro: repo_inv_audit split: prod.splits sum.splits if_splits)
qed (use assms(1) in simp)

lemma repo_inv_transition_objective:
  assumes "repo_inv r" and t: "transition_objective r mid oid expected st reason actor occ details refs = (r', x)"
  shows "repo_inv r'"
proof (cases "r' = r")
  case False
  with t obtain obs i c where *: "dict_get (re_objectives r) mid = Some obs" "find_objective oid obs = Some (i, c)"
    and st: "store_objective r mid obs i (c\<lparr>or_status := st, or_version := or_version c + 1\<rparr>)
        (or_status c) reason actor occ details refs = (r', x)"
    unfolding transition_objective_def by (auto split: option.splits if_splits)
  show ?thesis
    by (rule repo_inv_store_objective [OF assms(1) *(1) repo_inv_find_objective [OF assms(1) *] st]) simp_all
qed (use assms(1) in simp)

lemma repo_inv_replace_budget:
  assumes "repo_inv r" and t: "replace_objective_budget r mid oid expected b reason actor occ goal details refs = (r', x)"
  shows "repo_inv r'"
proof (cases "r' = r")
  case False
  define ob' where "ob' c = (let ob = (or_objective c)\<lparr>ob_budget := b\<rparr>
    in case goal of None \<Rightarrow> ob | Some g \<Rightarrow> ob\<lparr>ob_goal := g\<rparr>)" for c :: objective_record
  have id: "ob_objective_id (ob' c) = ob_objective_id (or_objective c)" for c
    by (simp add: ob'_def Let_def split: option.splits)
  from t False obtain obs i c where *: "dict_get (re_objectives r) mid = Some obs" "find_objective oid obs = Some (i, c)"
    and st: "store_objective r mid obs i (c\<lparr>or_objective := ob' c, or_version := or_version c + 1\<rparr>)
        (or_status c) reason actor occ details refs = (r', x)"
    unfolding replace_objective_budget_def ob'_def Let_def by (auto split: option.splits(2) if_splits)
  show ?thesis
    by (rule repo_inv_store_objective [OF assms(1) *(1) repo_inv_find_objective [OF assms(1) *] st])
      (simp_all add: id)
qed (use assms(1) in simp)

lemma repo_inv_append_transition:
  "repo_inv r \<Longrightarrow> append_mission_transition r d = (r', x) \<Longrightarrow> repo_inv r'"
  by (auto simp: append_mission_transition_def intro: repo_inv_audit split: if_splits)

lemma repo_inv_step:
  assumes "repo_step h cv r r'" and "repo_inv r"
  shows "repo_inv r'"
  using assms(1)
  by cases (insert assms(2), (erule (1) repo_inv_create repo_inv_append_objective repo_inv_transition_mission
      repo_inv_transition_objective repo_inv_replace_budget repo_inv_append_transition repo_inv_rest
      | assumption)+)

lemma repo_reachable_inv: "repo_reachable h cv r \<Longrightarrow> repo_inv r"
  unfolding repo_reachable_def
  by (induction rule: rtranclp_induct) (auto intro: repo_inv_empty repo_inv_step)

end
