(* ===== verification/Mission_Repository_Properties.thy ===== *)
theory Mission_Repository_Properties
  imports Mission_Repository_Inv Paging
begin

text \<open>
  Properties of the mission repository: its tables are consistent in every reachable state,
  creation is idempotent, missions and objectives only move along legal edges, and the audit of
  a transition fails exactly when its record is invalid, by which time the transition is stored.
\<close>

section \<open>Later repositories\<close>

definition dict_grows :: "('v \<Rightarrow> 'v \<Rightarrow> bool) \<Rightarrow> ('k, 'v) dict \<Rightarrow> ('k, 'v) dict \<Rightarrow> bool" where
  "dict_grows R d d' \<longleftrightarrow> (\<forall>k v. dict_get d k = Some v \<longrightarrow> (\<exists>v'. dict_get d' k = Some v' \<and> R v v'))"

lemma dict_grows_refl [simp]: "(\<And>v. R v v) \<Longrightarrow> dict_grows R d d"
  by (simp add: dict_grows_def)

lemma dict_grows_trans:
  "dict_grows R d d' \<Longrightarrow> dict_grows R d' d'' \<Longrightarrow> (\<And>a b c. R a b \<Longrightarrow> R b c \<Longrightarrow> R a c) \<Longrightarrow> dict_grows R d d''"
  unfolding dict_grows_def by metis

lemma dict_grows_set:
  "(\<And>v. R v v) \<Longrightarrow> (\<And>w. dict_get d k = Some w \<Longrightarrow> R w v') \<Longrightarrow> dict_grows R d (dict_set k v' d)"
  by (simp add: dict_grows_def dict_simps)

definition mission_later :: "mission_record \<Rightarrow> mission_record \<Rightarrow> bool" where
  "mission_later m m' \<longleftrightarrow>
     mr_spec m' = mr_spec m \<and> mr_caller_scope m' = mr_caller_scope m \<and> mr_request_id m' = mr_request_id m \<and>
     mr_request_hash m' = mr_request_hash m \<and> mr_created_at_ms m' = mr_created_at_ms m \<and>
     validate_mission_transition\<^sup>*\<^sup>* (mr_status m) (mr_status m') \<and> mr_version m \<le> mr_version m'"

definition objective_later :: "objective_record \<Rightarrow> objective_record \<Rightarrow> bool" where
  "objective_later x y \<longleftrightarrow>
     ob_objective_id (or_objective y) = ob_objective_id (or_objective x) \<and>
     objective_edge\<^sup>*\<^sup>* (or_status x) (or_status y) \<and> or_version x \<le> or_version y"

definition objectives_later :: "objective_record list \<Rightarrow> objective_record list \<Rightarrow> bool" where
  "objectives_later xs ys \<longleftrightarrow> length xs \<le> length ys \<and> (\<forall>i<length xs. objective_later (xs ! i) (ys ! i))"

definition repo_later :: "repository \<Rightarrow> repository \<Rightarrow> bool" where
  "repo_later r r' \<longleftrightarrow>
     dict_grows mission_later (re_missions r) (re_missions r') \<and>
     dict_grows objectives_later (re_objectives r) (re_objectives r') \<and>
     dict_grows prefix (re_transitions r) (re_transitions r') \<and>
     dict_grows (=) (re_requests r) (re_requests r')"

lemma mission_later_refl [simp]: "mission_later m m"
  by (simp add: mission_later_def)

lemma objective_later_refl [simp]: "objective_later x x"
  by (simp add: objective_later_def)

lemma objectives_later_refl [simp]: "objectives_later xs xs"
  by (simp add: objectives_later_def)

lemma repo_later_refl [simp]: "repo_later r r"
  by (simp add: repo_later_def)

lemma mission_later_trans: "mission_later a b \<Longrightarrow> mission_later b c \<Longrightarrow> mission_later a c"
  by (auto simp: mission_later_def)

lemma objective_later_trans: "objective_later a b \<Longrightarrow> objective_later b c \<Longrightarrow> objective_later a c"
  by (auto simp: objective_later_def)

lemma objectives_later_trans: "objectives_later a b \<Longrightarrow> objectives_later b c \<Longrightarrow> objectives_later a c"
  unfolding objectives_later_def by (metis objective_later_trans order.strict_trans2 order.trans)

lemma repo_later_trans:
  assumes ab: "repo_later a b" and bc: "repo_later b c"
  shows "repo_later a c"
  unfolding repo_later_def
proof (intro conjI)
  show "dict_grows mission_later (re_missions a) (re_missions c)"
    using ab bc by (auto simp: repo_later_def intro: dict_grows_trans [OF _ _ mission_later_trans])
  show "dict_grows objectives_later (re_objectives a) (re_objectives c)"
    using ab bc by (auto simp: repo_later_def intro: dict_grows_trans [OF _ _ objectives_later_trans])
  show "dict_grows prefix (re_transitions a) (re_transitions c)"
    using ab bc by (auto simp: repo_later_def intro: dict_grows_trans [OF _ _ prefix_order.trans])
  show "dict_grows (=) (re_requests a) (re_requests c)"
    using ab bc by (simp add: repo_later_def dict_grows_def)
qed

lemma repo_later_frame:
  "\<lbrakk>re_missions r' = re_missions r; re_objectives r' = re_objectives r;
    re_transitions r' = re_transitions r; re_requests r' = re_requests r\<rbrakk> \<Longrightarrow> repo_later r r'"
  by (simp add: repo_later_def)

lemma repo_later_audit: "audit r d = (r', x) \<Longrightarrow> repo_later r r'"
  by (auto simp: audit_def Let_def repo_later_def intro!: dict_grows_set split: option.splits if_splits)

lemma repo_later_set_mission:
  "dict_get (re_missions r) mid = Some m \<Longrightarrow> mission_later m m' \<Longrightarrow>
   repo_later r (r\<lparr>re_missions := dict_set mid m' (re_missions r)\<rparr>)"
  by (auto simp: repo_later_def intro!: dict_grows_set)

lemma repo_later_set_objectives:
  "dict_get (re_objectives r) mid = Some xs \<Longrightarrow> objectives_later xs ys \<Longrightarrow>
   repo_later r (r\<lparr>re_objectives := dict_set mid ys (re_objectives r)\<rparr>)"
  by (auto simp: repo_later_def intro!: dict_grows_set)

lemma objectives_later_update:
  "i < length xs \<Longrightarrow> objective_later (xs ! i) y \<Longrightarrow> objectives_later xs (xs[i := y])"
  by (auto simp: objectives_later_def nth_list_update)

lemma objectives_later_snoc: "objectives_later xs (xs @ [y])"
  by (simp add: objectives_later_def nth_append)

lemma repo_later_store_objective:
  assumes "dict_get (re_objectives r) mid = Some obs" "i < length obs" "objective_later (obs ! i) y"
    and "store_objective r mid obs i y st reason actor occ details refs = (r', x)"
  shows "repo_later r r'"
  using repo_later_set_objectives [OF assms(1) objectives_later_update [OF assms(2,3)]] assms(4)
  by (auto simp: store_objective_def Let_def intro: repo_later_trans repo_later_audit
      split: prod.splits sum.splits)

lemma repo_later_create: "create_mission h r scope rid spec occ = (r', x) \<Longrightarrow> repo_inv r \<Longrightarrow> repo_later r r'"
  using same_keys_get [of r "ms_mission_id spec"]
  by (auto simp: create_mission_def Let_def repo_later_def repo_inv_def
      intro!: dict_grows_set split: option.splits if_splits)

lemma repo_later_transition_mission:
  assumes "transition_mission r mid expected target reason actor occ details refs = (r', x)"
  shows "repo_later r r'"
proof (cases "r' = r")
  case False
  with assms obtain m where m: "dict_get (re_missions r) mid = Some m"
    and legal: "validate_mission_transition (mr_status m) target"
    by (auto simp: transition_mission_def split: option.splits if_splits)
  have "repo_later r (r\<lparr>re_missions := dict_set mid (m\<lparr>mr_status := target, mr_version := mr_version m + 1,
      mr_updated_at_ms := occ\<rparr>) (re_missions r)\<rparr>)"
    using legal by (intro repo_later_set_mission [OF m]) (simp add: mission_later_def r_into_rtranclp)
  with assms m False show ?thesis
    by (auto simp: transition_mission_def Let_def intro: repo_later_trans repo_later_audit
        split: prod.splits sum.splits if_splits)
qed simp

lemma repo_later_transition_objective:
  assumes "transition_objective r mid oid expected st reason actor occ details refs = (r', x)"
  shows "repo_later r r'"
proof (cases "r' = r")
  case False
  with assms obtain obs i c where *: "dict_get (re_objectives r) mid = Some obs" "find_objective oid obs = Some (i, c)"
    and legal: "validate_objective_transition (or_status c) st (Some reason)"
    and st: "store_objective r mid obs i (c\<lparr>or_status := st, or_version := or_version c + 1\<rparr>)
        (or_status c) reason actor occ details refs = (r', x)"
    unfolding transition_objective_def by (auto split: option.splits if_splits)
  have "objective_edge (or_status c) st" using legal by (auto simp: objective_edge_def)
  then show ?thesis
    using find_objective_nth [OF *(2)]
    by (intro repo_later_store_objective [OF *(1) _ _ st]) (auto simp: objective_later_def)
qed simp

lemma repo_later_replace_budget:
  assumes "replace_objective_budget r mid oid expected b reason actor occ goal details refs = (r', x)"
  shows "repo_later r r'"
proof (cases "r' = r")
  case False
  define ob' where "ob' c = (let ob = (or_objective c)\<lparr>ob_budget := b\<rparr>
    in case goal of None \<Rightarrow> ob | Some g \<Rightarrow> ob\<lparr>ob_goal := g\<rparr>)" for c :: objective_record
  have id: "ob_objective_id (ob' c) = ob_objective_id (or_objective c)" for c
    by (simp add: ob'_def Let_def split: option.splits)
  from assms False obtain obs i c where *: "dict_get (re_objectives r) mid = Some obs"
      "find_objective oid obs = Some (i, c)"
    and st: "store_objective r mid obs i (c\<lparr>or_objective := ob' c, or_version := or_version c + 1\<rparr>)
        (or_status c) reason actor occ details refs = (r', x)"
    unfolding replace_objective_budget_def ob'_def Let_def by (auto split: option.splits(2) if_splits)
  show ?thesis
    using find_objective_nth [OF *(2)] id
    by (intro repo_later_store_objective [OF *(1) _ _ st]) (auto simp: objective_later_def)
qed simp

lemma repo_later_append_objective:
  assumes "append_objective r mid ob reason actor occ refs = (r', x)"
  shows "repo_later r r'"
proof (cases "r' = r")
  case False
  with assms obtain obs where obs: "dict_get (re_objectives r) mid = Some obs"
    by (auto simp: append_objective_def split: option.splits if_splits)
  from repo_later_set_objectives [OF obs objectives_later_snoc] assms obs show ?thesis
    by (auto simp: append_objective_def Let_def intro: repo_later_trans repo_later_audit
        split: prod.splits sum.splits if_splits)
qed simp

lemma repo_later_rest:
  shows "append_mission_transition r d = (r', z) \<Longrightarrow> repo_later r r'"
    and "save_proposal r p dn occ = (r', u) \<Longrightarrow> repo_later r r'"
    and "save_mission_budget r mid b = (r', u) \<Longrightarrow> repo_later r r'"
    and "link_evidence r l = (r', u) \<Longrightarrow> repo_later r r'"
    and "save_presentation_artifact r a = (r', u) \<Longrightarrow> repo_later r r'"
proof -
  show "append_mission_transition r d = (r', z) \<Longrightarrow> repo_later r r'"
    by (auto simp: append_mission_transition_def intro: repo_later_audit split: if_splits)
  show "save_proposal r p dn occ = (r', u) \<Longrightarrow> repo_later r r'"
    by (rule repo_later_frame) (auto simp: save_proposal_def Let_def split: option.splits if_splits)
  show "save_mission_budget r mid b = (r', u) \<Longrightarrow> repo_later r r'"
    by (rule repo_later_frame) (auto simp: save_mission_budget_def split: if_splits)
  show "link_evidence r l = (r', u) \<Longrightarrow> repo_later r r'"
    by (rule repo_later_frame) (auto simp: link_evidence_def split: option.splits if_splits)
  show "save_presentation_artifact r a = (r', u) \<Longrightarrow> repo_later r r'"
    by (rule repo_later_frame) (auto simp: save_presentation_artifact_def split: option.splits if_splits)
qed

lemma repo_later_step:
  assumes "repo_step h cv r r'" and "repo_inv r"
  shows "repo_later r r'"
  using assms(1)
  by cases (insert assms(2), (erule (1) repo_later_create | erule repo_later_append_objective
      repo_later_transition_mission repo_later_transition_objective repo_later_replace_budget
      repo_later_rest)+)

lemma repo_later_steps:
  assumes "(repo_step h cv)\<^sup>*\<^sup>* r r'" and "repo_inv r"
  shows "repo_later r r' \<and> repo_inv r'"
  using assms
  by (induction rule: rtranclp_induct) (auto intro: repo_inv_step repo_later_step repo_later_trans)

section \<open>Paging\<close>

lemma partition_at_digits: "c \<notin> set xs \<Longrightarrow> partition_at c (xs @ c # ys) = Some (xs, ys)"
  by (induction xs) auto

lemma str_of_int_digits: "0 \<le> i \<Longrightarrow> list_all is_digit (str_of_int i)"
  by (auto simp: str_of_int_def list_all_iff intro: str_of_nat_digits)

lemma decode_encode_key:
  assumes "0 \<le> fst k" "snd k \<noteq> []"
  shows "decode_cursor (Some (encode_key k)) = Inr k"
proof -
  have d: "list_all is_digit (str_of_int (fst k))" using assms(1) by (rule str_of_int_digits)
  have "\<not> is_digit (CHR '':'')" by (simp add: is_digit_def code_def)
  then have "CHR '':'' \<notin> set (str_of_int (fst k))" using d by (auto simp: list_all_iff)
  moreover have "str_of_int (fst k) \<noteq> []" using assms(1) by (simp add: str_of_int_def)
  ultimately show ?thesis
    using assms d by (simp add: decode_cursor_def encode_key_def partition_at_digits int_of_str_of_int)
qed

lemma sorted_distinct_strict: "sorted xs \<Longrightarrow> distinct xs \<Longrightarrow> sorted_wrt (<) xs"
  by (simp add: strict_sorted_iff)

lemma dict_values_inj:
  assumes "dict_all P d" and "\<And>k v. P k v \<Longrightarrow> f v = k"
  shows "map f (dict_values d) = dict_keys d"
proof -
  have "f v = k" if "(k, v) \<in> set d" for k v
    using assms that unfolding dict_all_def by (simp add: dict_get_mem [symmetric])
  then show ?thesis by (auto simp: comp_def intro: map_cong)
qed

lemma dict_all_values: "dict_all P d \<Longrightarrow> v \<in> set (dict_values d) \<Longrightarrow> \<exists>k. P k v"
  unfolding dict_all_def by (metis dict_values_get)

lemma mission_keys_distinct:
  assumes "repo_inv r"
  shows "distinct (map mission_key (dict_values (re_missions r)))"
proof -
  have e: "dict_all (mission_entry r) (re_missions r)" using assms by (simp add: repo_inv_def)
  have "map (\<lambda>m. ms_mission_id (mr_spec m)) (dict_values (re_missions r)) = dict_keys (re_missions r)"
    by (rule dict_values_inj [OF e]) (simp add: mission_entry_def)
  moreover have "map snd (map mission_key ms) = map (\<lambda>m. ms_mission_id (mr_spec m)) ms" for ms
    by (simp add: mission_key_def)
  ultimately have "distinct (map snd (map mission_key (dict_values (re_missions r))))"
    using e unfolding dict_all_def by metis
  then show ?thesis by (metis distinct_map)
qed

interpretation missions: keyed_store repo_inv mission_key "(-1, [])" encode_key decode_cursor missions_after list_missions
proof unfold_locales
  show "sorted_wrt (<) (map mission_key (missions_after r scope a))" if "repo_inv r" for r scope a
  proof (rule sorted_distinct_strict)
    have "distinct (map mission_key (filter P (dict_values (re_missions r))))" for P
      using mission_keys_distinct [OF that] by (rule distinct_map_filter)
    then show "distinct (map mission_key (missions_after r scope a))"
      unfolding missions_after_def by (simp add: distinct_map)
  qed (simp add: missions_after_def)
  show "x \<in> set (missions_after r scope a) \<Longrightarrow> a < mission_key x" for x r scope a
    by (simp add: missions_after_def)
  show "missions_after r scope b = filter (\<lambda>x. b < mission_key x) (missions_after r scope a)"
    if "a \<le> b" for r scope a b
  proof -
    have "filter (\<lambda>m. mr_caller_scope m = scope \<and> b < mission_key m) xs =
        filter (\<lambda>x. b < mission_key x) (filter (\<lambda>m. mr_caller_scope m = scope \<and> a < mission_key m) xs)" for xs
      using that by (auto intro: filter_cong)
    then show ?thesis unfolding missions_after_def by (simp only: filter_sort)
  qed
  show "decode_cursor (Some (encode_key (mission_key x))) = Inr (mission_key x)"
    if inv: "repo_inv r" and "x \<in> set (missions_after r scope a)" for r x scope a
  proof (rule decode_encode_key)
    have "x \<in> set (dict_values (re_missions r))" using that(2) by (auto simp: missions_after_def)
    then obtain k where "mission_entry r k x"
      using inv dict_all_values [of "mission_entry r"] unfolding repo_inv_def by blast
    then show "0 \<le> fst (mission_key x)" "snd (mission_key x) \<noteq> []"
      by (auto simp: mission_key_def mission_entry_def)
  qed
  show "list_missions r scope limit cursor =
      Inr (take (nat limit) (missions_after r scope a),
           if nat limit < length (missions_after r scope a)
           then Some (encode_key (mission_key (last (take (nat limit) (missions_after r scope a))))) else None)"
    if "1 \<le> limit" "limit \<le> 100" "decode_cursor cursor = Inr a" for r scope limit cursor a
  proof -
    have "nat (limit + 1) = Suc (nat limit)" using that(1) by simp
    then show ?thesis
      using that by (auto simp: list_missions_def Let_def encode_cursor_def min_def)
  qed
qed

section \<open>Properties\<close>

lemma repo_reachable_later:
  "repo_reachable h cv r \<Longrightarrow> (repo_step h cv)\<^sup>*\<^sup>* r r' \<Longrightarrow> repo_reachable h cv r' \<and> repo_later r r'"
  using repo_later_steps [OF _ repo_reachable_inv] by (auto simp: repo_reachable_def)

lemma repo_inv_audit_unique:
  "\<lbrakk>repo_inv r; dict_get (re_transitions r) k = Some ts; dict_get (re_transitions r) k' = Some ts';
    t \<in> set ts; t' \<in> set ts'; tr_transition_id t = tr_transition_id t'\<rbrakk> \<Longrightarrow> k = k'"
  unfolding repo_inv_def audit_unique_def by blast

text \<open>
  C15. In every reachable repository a mission's snapshot succeeds and is consistent: the mission is
  filed under its own identifier and its accepted request, the objectives have distinct identifiers
  and are numbered in order, the audit records are valid, belong to the mission and have strictly
  increasing numbers that no other mission's audit uses, and proposals and evidence are recorded once.
\<close>

theorem repository_consistent:
  assumes "repo_reachable h cv r" and "dict_get (re_missions r) mid = Some m"
  shows "\<exists>sn. mission_snapshot_of r mid = Inr sn \<and> sn_mission sn = m \<and> ms_mission_id (mr_spec m) = mid \<and>
    dict_get (re_requests r) (mr_caller_scope m, mr_request_id m) = Some (mr_request_hash m, mid) \<and>
    list_objectives r mid = Inr (sn_objectives sn) \<and>
    map or_ordinal (sn_objectives sn) = [0..<length (sn_objectives sn)] \<and>
    distinct (map (\<lambda>x. ob_objective_id (or_objective x)) (sn_objectives sn)) \<and>
    sorted_wrt (<) (map tr_transition_id (sn_transitions sn)) \<and>
    (\<forall>t\<in>set (sn_transitions sn). td_mission_id t = mid \<and> draft_ok t \<and>
       0 < tr_transition_id t \<and> tr_transition_id t \<le> re_transition_id r) \<and>
    (\<forall>mid' sn'. mission_snapshot_of r mid' = Inr sn' \<longrightarrow> mid' \<noteq> mid \<longrightarrow>
       tr_transition_id ` set (sn_transitions sn) \<inter> tr_transition_id ` set (sn_transitions sn') = {}) \<and>
    distinct (map (\<lambda>x. gp_proposal_id (sp_proposal x)) (sn_proposals sn)) \<and>
    distinct (map el_link_id (sn_evidence_links sn))"
proof -
  have inv: "repo_inv r" using assms(1) by (rule repo_reachable_inv)
  then have keys: "same_keys r" by (simp add: repo_inv_def)
  obtain obs ts ps es as where gets: "dict_get (re_objectives r) mid = Some obs"
      "dict_get (re_transitions r) mid = Some ts" "dict_get (re_proposals r) mid = Some ps"
      "dict_get (re_evidence r) mid = Some es" "dict_get (re_artifacts r) mid = Some as"
    using same_keys_get [OF keys, of mid] assms(2) by (metis not_None_eq)
  let ?sn = "\<lparr>sn_mission = m, sn_objectives = obs, sn_transitions = ts, sn_proposals = ps,
      sn_budget = dict_get (re_budgets r) mid, sn_evidence_links = es, sn_presentation_artifacts = as\<rparr>"
  have "mission_snapshot_of r mid = Inr ?sn" "list_objectives r mid = Inr obs"
    using assms(2) gets by (simp_all add: mission_snapshot_of_def list_objectives_def)
  moreover have "mission_entry r mid m" using inv assms(2) by (auto simp: repo_inv_def intro: dict_all_get)
  moreover have "objectives_entry mid obs" using inv gets by (auto simp: repo_inv_def intro: dict_all_get)
  moreover have "transitions_entry (re_transition_id r) mid ts"
    using inv gets by (auto simp: repo_inv_def intro: dict_all_get)
  moreover have "proposals_entry mid ps" using inv gets by (auto simp: repo_inv_def intro: dict_all_get)
  moreover have "evidence_entry mid es" using inv gets by (auto simp: repo_inv_def intro: dict_all_get)
  moreover have "tr_transition_id ` set ts \<inter> tr_transition_id ` set (sn_transitions sn') = {}"
    if sn': "mission_snapshot_of r mid' = Inr sn'" and neq: "mid' \<noteq> mid" for mid' sn'
  proof -
    have ts': "dict_get (re_transitions r) mid' = Some (sn_transitions sn')"
      using sn' by (auto simp: mission_snapshot_of_def split: option.splits sum.splits)
    have "tr_transition_id t \<noteq> tr_transition_id t'" if "t \<in> set ts" "t' \<in> set (sn_transitions sn')" for t t'
      using repo_inv_audit_unique [OF inv gets(2) ts' that] neq by blast
    then show ?thesis by blast
  qed
  ultimately show ?thesis
    by (intro exI [of _ ?sn])
      (simp add: mission_entry_def objectives_entry_def transitions_entry_def proposals_entry_def evidence_entry_def)
qed

text \<open>
  Creation is idempotent at any later time: submitting the created specification again under the
  same caller and request identifier changes nothing and returns the mission as a replay, while a
  specification with a different hash, or another request for the same mission, is a conflict.
\<close>

lemma create_mission_idempotent:
  assumes "repo_reachable h cv r" "mission_fields_ok spec" "mission_check cv spec = Inr ()"
    and "create_mission h r scope rid spec occ = (r1, Inr (m, False))"
    and "(repo_step h cv)\<^sup>*\<^sup>* r1 r'"
  shows "(\<exists>m'. create_mission h r' scope rid spec occ' = (r', Inr (m', True)) \<and>
           mr_spec m' = spec \<and> dict_get (re_missions r') (ms_mission_id spec) = Some m') \<and>
    (h spec' \<noteq> h spec \<longrightarrow> create_mission h r' scope rid spec' occ' = (r', Inl IdempotencyConflict)) \<and>
    (dict_get (re_requests r') k = None \<longrightarrow>
       create_mission h r' (fst k) (snd k) spec occ' = (r', Inl IdempotencyConflict))"
proof -
  have "repo_step h cv r r1" using assms(2-4) by (rule repo_step.create)
  with assms(1) have "repo_reachable h cv r1" by (auto simp: repo_reachable_def)
  from repo_reachable_later [OF this assms(5)] have later: "repo_later r1 r'" and r': "repo_reachable h cv r'" by auto
  have new: "dict_get (re_requests r1) (scope, rid) = Some (h spec, ms_mission_id spec)"
    "dict_get (re_missions r1) (ms_mission_id spec) = Some m" "mr_spec m = spec"
    using assms(4) by (auto simp: create_mission_def Let_def new_mission_record_def dict_simps
        split: option.splits if_splits)
  then have req: "dict_get (re_requests r') (scope, rid) = Some (h spec, ms_mission_id spec)"
    using later by (simp add: repo_later_def dict_grows_def)
  obtain m' where m': "dict_get (re_missions r') (ms_mission_id spec) = Some m'" "mr_spec m' = spec"
    using later new unfolding repo_later_def dict_grows_def mission_later_def by metis
  show ?thesis
    using req m' by (auto simp: create_mission_def)
qed

text \<open>
  C16. From any reachable repository on, missions and objectives are never lost and keep their
  identity, their versions do not decrease and their states move along the declared edges only:
  a mission in a final state stays there, and an objective in a final state other than \<open>failed\<close>
  stays there and is never derived to be ready again.  No audit record is removed or changed.
\<close>

theorem mission_states_final:
  assumes "repo_reachable h cv r" and "(repo_step h cv)\<^sup>*\<^sup>* r r'"
    and "dict_get (re_missions r) mid = Some m" and "dict_get (re_objectives r) mid = Some obs"
    and "dict_get (re_transitions r) mid = Some ts"
  shows "\<exists>m' obs' ts'. dict_get (re_missions r') mid = Some m' \<and> dict_get (re_objectives r') mid = Some obs' \<and>
    dict_get (re_transitions r') mid = Some ts' \<and> prefix ts ts' \<and> mr_spec m' = mr_spec m \<and>
    mr_version m \<le> mr_version m' \<and> (mission_targets (mr_status m) = [] \<longrightarrow> mr_status m' = mr_status m) \<and>
    length obs \<le> length obs' \<and>
    (\<forall>i<length obs. let x = obs ! i; y = obs' ! i in
       ob_objective_id (or_objective y) = ob_objective_id (or_objective x) \<and> or_version x \<le> or_version y \<and>
       (terminal_objective_state (or_status x) \<longrightarrow> or_status x \<noteq> OFailedState \<longrightarrow>
          or_status y = or_status x \<and>
          (\<forall>completed outcome command v p.
             derive_objective_projection y completed outcome command v = Inr p \<longrightarrow>
             \<not> op_ready p \<and> op_readiness p = TerminalReadiness)))"
proof -
  have later: "repo_later r r'" using repo_reachable_later [OF assms(1,2)] by simp
  obtain m' obs' ts' where get: "dict_get (re_missions r') mid = Some m'" "dict_get (re_objectives r') mid = Some obs'"
      "dict_get (re_transitions r') mid = Some ts'"
    and rel: "mission_later m m'" "objectives_later obs obs'" "prefix ts ts'"
    using later assms(3-5) unfolding repo_later_def dict_grows_def by metis
  have m: "mission_targets (mr_status m) = [] \<longrightarrow> mr_status m' = mr_status m"
    using rel(1) mission_final by (auto simp: mission_later_def)
  have ob: "or_status y = or_status x \<and>
      (\<forall>completed outcome command v p. derive_objective_projection y completed outcome command v = Inr p \<longrightarrow>
         \<not> op_ready p \<and> op_readiness p = TerminalReadiness)"
    if "objective_later x y" "terminal_objective_state (or_status x)" "or_status x \<noteq> OFailedState" for x y
  proof -
    have st: "or_status y = or_status x"
      using objective_final [OF _ that(2,3)] that(1) by (auto simp: objective_later_def)
    then show ?thesis
      using that(2) by (auto simp: derive_objective_projection_def Let_def split: sum.splits)
  qed
  have "\<forall>i<length obs. objective_later (obs ! i) (obs' ! i)" using rel(2) by (simp add: objectives_later_def)
  then have "\<forall>i<length obs. let x = obs ! i; y = obs' ! i in
       ob_objective_id (or_objective y) = ob_objective_id (or_objective x) \<and> or_version x \<le> or_version y \<and>
       (terminal_objective_state (or_status x) \<longrightarrow> or_status x \<noteq> OFailedState \<longrightarrow>
          or_status y = or_status x \<and>
          (\<forall>completed outcome command v p.
             derive_objective_projection y completed outcome command v = Inr p \<longrightarrow>
             \<not> op_ready p \<and> op_readiness p = TerminalReadiness))"
    using ob unfolding Let_def objective_later_def by blast
  moreover have "mr_spec m' = mr_spec m" "mr_version m \<le> mr_version m'" "length obs \<le> length obs'"
    using rel by (simp_all add: mission_later_def objectives_later_def)
  ultimately show ?thesis using get rel(3) m by (intro exI conjI)
qed

text \<open>
  C17. \<open>transition_mission\<close> on a mission of a reachable repository: a stale version or an illegal
  target is refused and changes nothing; a legal transition with a valid reason, actor and time is
  stored together with exactly one audit record of it; and a legal one whose reason, actor or time is
  invalid raises but is stored all the same, without any audit record, so that the caller's retry
  is refused as stale.
\<close>

theorem transition_mission_outcomes:
  fixes target :: mission_status and occ :: int and reason actor :: string
  assumes "repo_reachable h cv r" and "dict_get (re_missions r) mid = Some m"
    and "dict_get (re_transitions r) mid = Some ts"
  defines "m' \<equiv> m\<lparr>mr_status := target, mr_version := mr_version m + 1, mr_updated_at_ms := occ\<rparr>"
    and "ok \<equiv> reason_code_ok reason \<and> 1 \<le> length actor \<and> length actor \<le> 128 \<and> 0 \<le> occ"
  shows "case transition_mission r mid expected target reason actor occ details refs of (r', x) \<Rightarrow>
    (if expected \<noteq> mr_version m then r' = r \<and> x = Inl (RepoValueError ''STALE_MISSION_VERSION'')
     else if target \<notin> set (mission_targets (mr_status m))
     then r' = r \<and> x = Inl (RepoValueError ''invalid mission transition'')
     else dict_get (re_missions r') mid = Some m' \<and> re_transition_id r' = re_transition_id r + 1 \<and>
       (if ok then x = Inr m' \<and>
          (\<exists>t. dict_get (re_transitions r') mid = Some (ts @ [t]) \<and> tr_transition_id t = re_transition_id r' \<and>
               td_objective_id t = None \<and> td_entity_version t = mr_version m' \<and>
               td_from_state t = Some (mission_status_value (mr_status m)) \<and>
               td_to_state t = mission_status_value target \<and> td_reason_code t = reason)
        else x = Inl RepoValidationError \<and> re_transitions r' = re_transitions r \<and>
          transition_mission r' mid expected target reason2 actor2 occ2 details2 refs2 =
            (r', Inl (RepoValueError ''STALE_MISSION_VERSION''))))"
proof -
  have "mission_entry r mid m"
    using repo_reachable_inv [OF assms(1)] assms(2) by (auto simp: repo_inv_def intro: dict_all_get)
  then have v: "0 \<le> mr_version m" by (simp add: mission_entry_def)
  let ?d = "\<lparr>td_mission_id = mid, td_objective_id = None, td_entity_version = mr_version m + 1,
      td_from_state = Some (mission_status_value (mr_status m)), td_to_state = mission_status_value target,
      td_reason_code = reason, td_actor = actor, td_details = details, td_evidence_refs = refs,
      td_occurred_at_ms = occ\<rparr> :: transition_draft"
  have d: "draft_ok ?d = ok" using v by (auto simp: draft_ok_def ok_def)
  show ?thesis
  proof (cases "expected = mr_version m")
    case True
    show ?thesis
      unfolding True using assms(2,3) d
      by (simp add: transition_mission_def validate_mission_transition_def Let_def audit_def m'_def dict_simps
          transition_draft.defs)
  qed (use assms(2) in \<open>simp add: transition_mission_def\<close>)
qed

text \<open>
  Following the cursors of \<open>list_missions\<close> from the start yields every mission of the caller
  exactly once, by creation time and identifier, for every legal page size; a mission listed after
  a cursor is listed from the place the cursor names, and malformed cursors are refused.
\<close>

lemma mission_pages_complete:
  assumes "repo_reachable h cv r" and "1 \<le> limit" "limit \<le> 100" and "length (re_missions r) < fuel"
  shows "\<exists>ms. read_all fuel (list_missions r scope limit) None = Inr ms \<and>
    mset ms = mset (filter (\<lambda>m. mr_caller_scope m = scope) (dict_values (re_missions r))) \<and>
    sorted_wrt (<) (map mission_key ms)"
proof -
  have inv: "repo_inv r" using assms(1) by (rule repo_reachable_inv)
  let ?ms = "missions_after r scope (-1, [])"
  have "decode_cursor None = Inr (-1, [])" by (simp add: decode_cursor_def)
  moreover have "length ?ms \<le> length (re_missions r)"
    unfolding missions_after_def by (simp add: order.trans [OF length_filter_le])
  ultimately have "read_all fuel (list_missions r scope limit) None = Inr ?ms"
    using missions.pages_complete [OF inv assms(2,3)] assms(4) by simp
  moreover have "filter (\<lambda>m. mr_caller_scope m = scope \<and> (-1, []) < mission_key m) (dict_values (re_missions r)) =
      filter (\<lambda>m. mr_caller_scope m = scope) (dict_values (re_missions r))"
  proof (rule filter_cong [OF refl])
    fix m assume "m \<in> set (dict_values (re_missions r))"
    then obtain k where "mission_entry r k m"
      using inv dict_all_values [of "mission_entry r"] unfolding repo_inv_def by blast
    then show "(mr_caller_scope m = scope \<and> (-1, []) < mission_key m) = (mr_caller_scope m = scope)"
      by (auto simp: mission_entry_def mission_key_def)
  qed
  then have "mset ?ms = mset (filter (\<lambda>m. mr_caller_scope m = scope) (dict_values (re_missions r)))"
    unfolding missions_after_def by (simp only: mset_sort)
  moreover have "sorted_wrt (<) (map mission_key ?ms)" by (rule missions.after_sorted [OF inv])
  ultimately show ?thesis by (intro exI conjI)
qed

text \<open>
  Every artefact of a reachable repository has a repository-relative path in normal form: it is
  not absolute, no part of it is \<open>..\<close>, it has no backslash, and constructing the artefact again from
  its stored path gives the same path.
\<close>

lemma artifact_paths_relative:
  assumes "repo_reachable h cv r" and "mission_snapshot_of r mid = Inr sn"
    and "a \<in> set (sn_presentation_artifacts sn)"
  shows "ar_mission_id a = mid \<and> artifact_path (ar_path a) = Some (ar_path a) \<and>
    ''..'' \<notin> set (path_parts (ar_path a)) \<and> (\<nexists>cs. ar_path a = CHR ''/'' # cs) \<and> CHR 0x5C \<notin> set (ar_path a)"
proof -
  have "dict_get (re_artifacts r) mid = Some (sn_presentation_artifacts sn)"
    using assms(2) by (auto simp: mission_snapshot_of_def split: option.splits sum.splits)
  then have "artifacts_entry mid (sn_presentation_artifacts sn)"
    using repo_reachable_inv [OF assms(1)] by (auto simp: repo_inv_def intro: dict_all_get)
  then have a: "ar_mission_id a = mid" "artifact_path (ar_path a) = Some (ar_path a)"
    using assms(3) by (auto simp: artifacts_entry_def)
  with artifact_path_fixed [OF a(2)] show ?thesis by simp
qed

section \<open>A concrete repository\<close>

definition example_hash :: "mission_spec \<Rightarrow> string" where
  "example_hash m = replicate 64 (CHR ''0'')"

definition example_record :: mission_record where
  "example_record = new_mission_record example_hash ''live'' ''r1'' example_mission 5"

definition example_repo :: repository where
  "example_repo = fst (create_mission example_hash empty_repository ''live'' ''r1'' example_mission 5)"

definition example_artifact :: artifact where
  "example_artifact =
     \<lparr>ar_artifact_id = ''a1'', ar_mission_id = ''m1'', ar_stage_id = ''s'', ar_artifact_kind = ''image'',
      ar_path = ''out/./a.png'', ar_sha256 = replicate 64 (CHR ''0''), ar_captured_at_ms = 1, ar_sanitized = True\<rparr>"

definition stored_artifact :: artifact where
  "stored_artifact = example_artifact\<lparr>ar_path := ''out/a.png''\<rparr>"

definition example_repo2 :: repository where
  "example_repo2 = fst (save_presentation_artifact example_repo stored_artifact)"

lemma example_fields: "mission_fields_ok example_mission"
  by (simp add: mission_fields_ok_def example_mission_def slug_def slug_char_def is_lower_def is_digit_def code_def
      objective_fields_ok_def example_objective_def goal_spec_valid_def example_goal_def item_name_def
      budget_usage_valid_def example_usage_def empty_usage_def execution_budget_valid_def example_limit_def
      autonomy_fields_ok_def autonomy_check_def)

lemma sha_hex_zeros: "sha_hex (replicate 64 (CHR ''0''))"
  by (simp add: sha_hex_def list_all_iff is_digit_def code_def)

lemma example_repo_create:
  "create_mission example_hash empty_repository ''live'' ''r1'' example_mission 5 = (example_repo, Inr (example_record, False))"
  by (simp add: example_repo_def create_mission_def empty_repository_def example_hash_def sha_hex_zeros
      example_record_def Let_def)

lemma example_repo_gets:
  "dict_get (re_missions example_repo) ''m1'' = Some example_record"
  "dict_get (re_transitions example_repo) ''m1'' = Some []"
  "dict_get (re_objectives example_repo) ''m1'' =
     Some [new_objective_record ''m1'' 0 (example_objective ''b'' [''a'']), new_objective_record ''m1'' 1 (example_objective ''a'' [])]"
  "dict_get (re_artifacts example_repo) ''m1'' = Some []"
  "length (re_missions example_repo) = 1"
  by (simp_all add: example_repo_def create_mission_def empty_repository_def example_hash_def sha_hex_zeros
      example_record_def Let_def example_mission_def)

lemma example_reachable_empty: "repo_reachable h cv empty_repository"
  by (simp add: repo_reachable_def)

lemma example_repo_step: "repo_step example_hash (\<lambda>_. True) empty_repository example_repo"
  by (rule repo_step.create [OF example_fields example_mission_accepted example_repo_create])

lemma example_repo_reachable: "repo_reachable example_hash (\<lambda>_. True) example_repo"
  unfolding repo_reachable_def using example_repo_step by (rule r_into_rtranclp)

lemma example_make: "make_artifact example_artifact = Some stored_artifact"
  by (simp add: make_artifact_def example_artifact_def stored_artifact_def artifact_path_def path_parts_def Let_def
      slug_def slug_char_def kind_name_def sha_hex_zeros is_lower_def is_digit_def code_def)

lemma example_repo2_step: "repo_step example_hash (\<lambda>_. True) example_repo example_repo2"
  by (rule repo_step.artifact [OF example_make]) (simp add: example_repo2_def prod_eq_iff)

lemma example_repo2_reachable: "repo_reachable example_hash (\<lambda>_. True) example_repo2"
  using example_repo_reachable example_repo2_step unfolding repo_reachable_def by simp

lemma example_repo2_artifacts: "dict_get (re_artifacts example_repo2) ''m1'' = Some [stored_artifact]"
  using example_repo_gets(4)
  by (simp add: example_repo2_def save_presentation_artifact_def stored_artifact_def example_artifact_def dict_simps)

lemma example_snapshot:
  "\<exists>sn. mission_snapshot_of example_repo2 ''m1'' = Inr sn \<and> sn_presentation_artifacts sn = [stored_artifact]"
proof -
  have "same_keys example_repo2" using repo_reachable_inv [OF example_repo2_reachable] by (simp add: repo_inv_def)
  note keys = same_keys_get [OF this, of "''m1''"]
  have m: "dict_get (re_missions example_repo2) ''m1'' \<noteq> None" using keys(5) example_repo2_artifacts by auto
  then obtain m obs ts ps es where "dict_get (re_missions example_repo2) ''m1'' = Some m"
      "dict_get (re_objectives example_repo2) ''m1'' = Some obs" "dict_get (re_transitions example_repo2) ''m1'' = Some ts"
      "dict_get (re_proposals example_repo2) ''m1'' = Some ps" "dict_get (re_evidence example_repo2) ''m1'' = Some es"
    using keys by (metis not_None_eq)
  then show ?thesis using example_repo2_artifacts by (simp add: mission_snapshot_of_def list_objectives_def)
qed

theorem repository_consistent_witness:
  "\<exists>sn. mission_snapshot_of example_repo ''m1'' = Inr sn \<and> sn_mission sn = example_record \<and>
     map or_ordinal (sn_objectives sn) = [0..<length (sn_objectives sn)]"
  using repository_consistent [OF example_repo_reachable example_repo_gets(1)] by blast

lemma create_mission_idempotent_example:
  "(\<exists>m'. create_mission example_hash example_repo2 ''live'' ''r1'' example_mission 9 = (example_repo2, Inr (m', True))) \<and>
   create_mission example_hash example_repo2 ''live'' ''r2'' example_mission 9 = (example_repo2, Inl IdempotencyConflict)"
proof -
  have s: "(repo_step example_hash (\<lambda>_. True))\<^sup>*\<^sup>* example_repo example_repo2"
    using example_repo2_step by (rule r_into_rtranclp)
  have "dict_get (re_requests example_repo2) (''live'', ''r2'') = None"
    by (simp add: example_repo2_def save_presentation_artifact_def example_repo_def create_mission_def
        empty_repository_def example_hash_def sha_hex_zeros Let_def dict_simps split: option.split)
  then show ?thesis
    using create_mission_idempotent [OF example_reachable_empty example_fields example_mission_accepted
        example_repo_create s, where occ' = 9 and k = "(''live'', ''r2'')"] by (metis fst_conv snd_conv)
qed

theorem mission_states_final_witness:
  "\<exists>m'. dict_get (re_missions example_repo2) ''m1'' = Some m' \<and> mr_spec m' = example_mission \<and> 0 \<le> mr_version m'"
proof -
  have "(repo_step example_hash (\<lambda>_. True))\<^sup>*\<^sup>* example_repo example_repo2"
    using example_repo2_step by (rule r_into_rtranclp)
  from mission_states_final [OF example_repo_reachable this example_repo_gets(1,3,2)] show ?thesis
    by (auto simp: example_record_def new_mission_record_def)
qed

theorem transition_mission_outcomes_witness:
  "case transition_mission example_repo ''m1'' 0 MPlanning ''bad reason'' ''actor'' 7 [] [] of (r', x) \<Rightarrow>
     x = Inl RepoValidationError \<and> re_transitions r' = re_transitions example_repo \<and>
     dict_get (re_missions r') ''m1'' =
       Some (example_record\<lparr>mr_status := MPlanning, mr_version := 1, mr_updated_at_ms := 7\<rparr>)"
proof -
  have "\<not> reason_code_ok ''bad reason''" by (simp add: reason_code_ok_def is_upper_def code_def)
  moreover have "mr_version example_record = 0" "mr_status example_record = MAccepted"
    by (simp_all add: example_record_def new_mission_record_def)
  ultimately show ?thesis
    using transition_mission_outcomes [OF example_repo_reachable example_repo_gets(1,2), where expected = 0
        and target = MPlanning and reason = "''bad reason''" and actor = "''actor''" and occ = 7
        and details = "[]" and refs = "[]"]
    by (cases "transition_mission example_repo ''m1'' 0 MPlanning ''bad reason'' ''actor'' 7 [] []") simp
qed

lemma mission_pages_complete_example:
  "\<exists>ms. read_all 2 (list_missions example_repo ''live'' 1) None = Inr ms \<and> sorted_wrt (<) (map mission_key ms)"
  using mission_pages_complete [OF example_repo_reachable, of 1 2 "''live''"] example_repo_gets(5) by auto

lemma artifact_paths_relative_example:
  "artifact_path ''out/a.png'' = Some ''out/a.png'' \<and> ''..'' \<notin> set (path_parts ''out/a.png'')"
proof -
  obtain sn where "mission_snapshot_of example_repo2 ''m1'' = Inr sn" "stored_artifact \<in> set (sn_presentation_artifacts sn)"
    using example_snapshot by auto
  from artifact_paths_relative [OF example_repo2_reachable this] show ?thesis by (simp add: stored_artifact_def)
qed

end
