(* ===== verification/Scheduler.thy ===== *)
theory Scheduler
  imports Journal_Properties
begin

text \<open>
  The strict FIFO scheduler of \<open>tools/minecraft/voyager/scheduler.py\<close>, one consumer over a command
  journal.  The scheduler knows its journal only through three operations; the locale
  \<open>dispatch_journal\<close> states what they promise, its lemmas are the scheduler's, and the in-memory
  journal is shown to keep the promises.

  A coroutine runs alone between two suspensions, and the operations of the in-memory journal never
  suspend: their lock is free whenever a coroutine runs.  Other tasks therefore interleave only
  while the scheduler notifies and while the consumer works.  \<open>during\<close> is what they and the consumer
  do to the journal until the consumer ends, with its outcome, and \<open>after\<close> what they do during the
  final notification, whose exceptions are suppressed.
\<close>

section \<open>The scheduler\<close>

datatype consumer_outcome =
    Returned "json_obj option"
  | CommandExecutionError command_state string string json_obj bool "json_obj option"
  | OtherException string string
  | ConsumerCancelled

datatype scheduler_error = JournalError jerror | CancelledError

record 's journal_ops =
  op_expire_queued :: "'s \<Rightarrow> int \<Rightarrow> 's \<times> (jerror + string list)"
  op_next_eligible :: "'s \<Rightarrow> int \<Rightarrow> journal_command option"
  op_transition :: "'s \<Rightarrow> string \<Rightarrow> int \<Rightarrow> command_state \<Rightarrow> string \<Rightarrow> string \<Rightarrow> int \<Rightarrow> json_obj option \<Rightarrow>
    json_obj option \<Rightarrow> 's \<times> (jerror + journal_command)"

definition commit_outcome ::
  "'s journal_ops \<Rightarrow> ('s \<Rightarrow> 's) \<Rightarrow> 's \<Rightarrow> journal_command \<Rightarrow> command_state \<Rightarrow> string \<Rightarrow> int \<Rightarrow>
   json_obj option \<Rightarrow> json_obj option \<Rightarrow> 's \<times> (scheduler_error + bool)" where
  "commit_outcome ops after s c target reason occ details result =
     (case op_transition ops s (cd_command_id c) (jc_state_version c) target reason ''controller'' occ
             details result of
        (s', Inl e) \<Rightarrow> (s', Inl (JournalError e))
      | (s', Inr _) \<Rightarrow> (after s', Inr True))"

definition consume ::
  "'s journal_ops \<Rightarrow> ('s \<Rightarrow> 's) \<Rightarrow> 's \<Rightarrow> journal_command \<Rightarrow> consumer_outcome \<Rightarrow> (nat \<Rightarrow> int) \<Rightarrow>
   's \<times> (scheduler_error + bool)" where
  "consume ops after s running outcome clock =
     (case outcome of
        Returned result \<Rightarrow> commit_outcome ops after s running SUCCEEDED ''VERIFIED'' (clock 3) None result
      | CommandExecutionError target reason message details reconcile result \<Rightarrow>
          (let all_details = Some (json_merge [(''message'', JStr message)] details) in
           if reconcile then
             (case op_transition ops s (cd_command_id running) (jc_state_version running) RECONCILING
                     ''RECONCILIATION_REQUIRED'' ''controller'' (clock 3) (Some details) None of
                (s', Inl e) \<Rightarrow> (s', Inl (JournalError e))
              | (s', Inr current) \<Rightarrow>
                  commit_outcome ops after s' current target reason (clock 4) all_details result)
           else commit_outcome ops after s running target reason (clock 3) all_details result)
      | OtherException reason message \<Rightarrow>
          commit_outcome ops after s running FAILED reason (clock 3) (Some [(''message'', JStr message)]) None
      | ConsumerCancelled \<Rightarrow> (s, Inl CancelledError))"

text \<open>One round; \<open>clock k\<close> is the k-th reading of the clock in the round.\<close>

definition run_once ::
  "'s journal_ops \<Rightarrow> (journal_command \<Rightarrow> 's \<Rightarrow> 's \<times> consumer_outcome) \<Rightarrow> ('s \<Rightarrow> 's) \<Rightarrow> (nat \<Rightarrow> int) \<Rightarrow> 's \<Rightarrow>
   's \<times> (scheduler_error + bool)" where
  "run_once ops during after clock s =
     (case op_expire_queued ops s (clock 0) of
        (s1, Inl e) \<Rightarrow> (s1, Inl (JournalError e))
      | (s1, Inr _) \<Rightarrow>
          (case op_next_eligible ops s1 (clock 1) of
             None \<Rightarrow> (s1, Inr False)
           | Some c \<Rightarrow>
               (case op_transition ops s1 (cd_command_id c) (jc_state_version c) RUNNING ''DISPATCHED''
                       ''worker'' (clock 2) None None of
                  (s2, Inl StaleCommandVersionError) \<Rightarrow> (s2, Inr False)
                | (s2, Inl e) \<Rightarrow> (s2, Inl (JournalError e))
                | (s2, Inr running) \<Rightarrow>
                    (case during running s2 of
                       (s3, outcome) \<Rightarrow> consume ops after s3 running outcome clock))))"

text \<open>\<open>_run\<close>: rounds until one raises; the pauses after an idle round change nothing here.\<close>

fun run_rounds ::
  "'s journal_ops \<Rightarrow> (journal_command \<Rightarrow> 's \<Rightarrow> 's \<times> consumer_outcome) \<Rightarrow> ('s \<Rightarrow> 's) \<Rightarrow>
   (nat \<Rightarrow> nat \<Rightarrow> int) \<Rightarrow> nat \<Rightarrow> 's \<Rightarrow> 's \<times> (scheduler_error + nat)" where
  "run_rounds ops during after clock 0 s = (s, Inr 0)"
| "run_rounds ops during after clock (Suc n) s =
     (case run_once ops during after (clock n) s of
        (s', Inl e) \<Rightarrow> (s', Inl e)
      | (s', Inr worked) \<Rightarrow>
          (case run_rounds ops during after clock n s' of
             (s'', Inl e) \<Rightarrow> (s'', Inl e)
           | (s'', Inr k) \<Rightarrow> (s'', Inr (if worked then Suc k else k))))"

definition memory_journal :: "journal_state journal_ops" where
  "memory_journal =
     \<lparr>op_expire_queued = expire_queued, op_next_eligible = next_eligible, op_transition = transition\<rparr>"

section \<open>The journal's promises and the scheduler's lemmas\<close>

definition expired_effect :: "int \<Rightarrow> journal_command \<Rightarrow> journal_command" where
  "expired_effect now c = (if expired now c then transitioned c FAILED now None else c)"

text \<open>An outcome that the state table can record for a running command.\<close>

fun outcome_ok :: "consumer_outcome \<Rightarrow> bool" where
  "outcome_ok (Returned result) = True"
| "outcome_ok (CommandExecutionError target reason message details reconcile result) =
     (terminal_command_state target \<and>
      validate_transition (if reconcile then RECONCILING else RUNNING) target)"
| "outcome_ok (OtherException reason message) = True"
| "outcome_ok ConsumerCancelled = False"

fun outcome_state :: "consumer_outcome \<Rightarrow> command_state" where
  "outcome_state (Returned result) = SUCCEEDED"
| "outcome_state (CommandExecutionError target reason message details reconcile result) = target"
| "outcome_state (OtherException reason message) = FAILED"
| "outcome_state ConsumerCancelled = RUNNING"

locale dispatch_journal =
  fixes ops :: "'s journal_ops"
    and inv :: "'s \<Rightarrow> bool"
    and look :: "'s \<Rightarrow> string \<Rightarrow> journal_command option"
  assumes finite_commands: "inv s \<Longrightarrow> finite {cid. look s cid \<noteq> None}"
    and look_id: "inv s \<Longrightarrow> look s cid = Some c \<Longrightarrow> cd_command_id c = cid"
    and expire: "\<lbrakk>inv s; 0 \<le> now\<rbrakk> \<Longrightarrow> \<exists>s' ids. op_expire_queued ops s now = (s', Inr ids) \<and> inv s' \<and>
      (\<forall>cid. look s' cid = map_option (expired_effect now) (look s cid))"
    and next_some: "\<lbrakk>inv s; op_next_eligible ops s now = Some c\<rbrakk> \<Longrightarrow>
      look s (cd_command_id c) = Some c \<and> eligible now c"
    and next_none: "\<lbrakk>inv s; op_next_eligible ops s now = None; look s cid = Some c\<rbrakk> \<Longrightarrow> \<not> eligible now c"
    and move: "\<lbrakk>inv s; 0 \<le> occ; look s cid = Some c; validate_transition (jc_state c) t;
        terminal_command_state t \<or> result = None\<rbrakk> \<Longrightarrow>
      \<exists>s'. op_transition ops s cid (jc_state_version c) t reason actor occ details result =
          (s', Inr (transitioned c t occ result)) \<and> inv s' \<and>
        (\<forall>k. look s' k = (if k = cid then Some (transitioned c t occ result) else look s k))"
begin

text \<open>Others leave the commands alone and the consumer ends with a recordable outcome.\<close>

definition quiet :: "('s \<Rightarrow> 's) \<Rightarrow> bool" where
  "quiet f \<longleftrightarrow> (\<forall>s. inv s \<longrightarrow> inv (f s) \<and> look (f s) = look s)"

definition orderly :: "(journal_command \<Rightarrow> 's \<Rightarrow> 's \<times> consumer_outcome) \<Rightarrow> bool" where
  "orderly during \<longleftrightarrow> (\<forall>c. quiet (\<lambda>s. fst (during c s)) \<and> (\<forall>s. outcome_ok (snd (during c s))))"

definition pending :: "'s \<Rightarrow> string set" where
  "pending s = {cid. \<exists>c. look s cid = Some c \<and> queued_execute c}"

lemma commit:
  assumes "inv s" "0 \<le> occ" "look s (cd_command_id c) = Some c" "quiet after"
    and "validate_transition (jc_state c) t" "terminal_command_state t"
  shows "\<exists>s'. commit_outcome ops after s c t reason occ details result = (s', Inr True) \<and> inv s' \<and>
    look s' = (look s)(cd_command_id c \<mapsto> transitioned c t occ result)"
proof -
  obtain s1 where "op_transition ops s (cd_command_id c) (jc_state_version c) t reason ''controller'' occ details result =
      (s1, Inr (transitioned c t occ result))" "inv s1"
    and "\<forall>k. look s1 k = (if k = cd_command_id c then Some (transitioned c t occ result) else look s k)"
    using move [OF assms(1-3,5)] assms(6) by blast
  then show ?thesis
    using assms(4) by (intro exI [of _ "after s1"]) (auto simp: commit_outcome_def quiet_def)
qed

lemma consume_ok:
  assumes "inv s" "\<And>k. 0 \<le> clock k" "look s (cd_command_id c) = Some c" "jc_state c = RUNNING"
    and "quiet after" "outcome_ok outcome"
  shows "\<exists>s' c'. consume ops after s c outcome clock = (s', Inr True) \<and> inv s' \<and>
    look s' = (look s)(cd_command_id c \<mapsto> c') \<and> jc_state c' = outcome_state outcome \<and>
    terminal_command_state (jc_state c') \<and> same_identity c c'"
proof -
  have direct: "\<exists>s' c'. commit_outcome ops after s c t reason (clock 3) details result = (s', Inr True) \<and> inv s' \<and>
      look s' = (look s)(cd_command_id c \<mapsto> c') \<and> jc_state c' = t \<and> terminal_command_state (jc_state c') \<and>
      same_identity c c'"
    if "validate_transition RUNNING t" "terminal_command_state t" for t reason details result
    using commit [OF assms(1,2,3,5), of t] that assms(4) by fastforce
  show ?thesis
  proof (cases outcome)
    case (Returned result)
    then show ?thesis using direct [of SUCCEEDED] by (simp add: consume_def validate_transition_def)
  next
    case (OtherException reason message)
    then show ?thesis using direct [of FAILED] by (simp add: consume_def validate_transition_def)
  next
    case ConsumerCancelled
    then show ?thesis using assms(6) by simp
  next
    case (CommandExecutionError target reason message details reconcile result)
    show ?thesis
    proof (cases reconcile)
      case False
      then show ?thesis
        using direct [of target] assms(6) CommandExecutionError by (simp add: consume_def Let_def)
    next
      case True
      let ?c = "transitioned c RECONCILING (clock 3) None"
      have "validate_transition (jc_state c) RECONCILING" using assms(4) by (simp add: validate_transition_def)
      then obtain s1 where s1: "op_transition ops s (cd_command_id c) (jc_state_version c) RECONCILING
          ''RECONCILIATION_REQUIRED'' ''controller'' (clock 3) (Some details) None = (s1, Inr ?c)" "inv s1"
        "\<forall>k. look s1 k = (if k = cd_command_id c then Some ?c else look s k)"
        using move [OF assms(1,2,3)] by blast
      then have "look s1 (cd_command_id ?c) = Some ?c" by simp
      then obtain s2 where "commit_outcome ops after s1 ?c target reason (clock 4)
          (Some (json_merge [(''message'', JStr message)] details)) result = (s2, Inr True)" "inv s2"
        "look s2 = (look s1)(cd_command_id ?c \<mapsto> transitioned ?c target (clock 4) result)"
        using commit [OF s1(2) assms(2) _ assms(5), of ?c target] assms(6) CommandExecutionError True by fastforce
      moreover have "look s1 = (look s)(cd_command_id c \<mapsto> ?c)" using s1(3) by auto
      ultimately show ?thesis
        using s1(1) assms(6) CommandExecutionError True
        by (intro exI [of _ s2] exI [of _ "transitioned ?c target (clock 4) result"])
          (auto simp: consume_def Let_def intro: same_identity_trans transitioned_sel(3))
    qed
  qed
qed

text \<open>A round leaves a command alone or takes it from the queue to a terminal state.\<close>

definition settles :: "'s \<Rightarrow> 's \<Rightarrow> bool" where
  "settles s s' \<longleftrightarrow>
     (\<forall>cid. look s cid = None \<longleftrightarrow> look s' cid = None) \<and>
     (\<forall>cid c c'. look s cid = Some c \<longrightarrow> look s' cid = Some c' \<longrightarrow>
        same_identity c c' \<and> (c' = c \<or> queued_execute c \<and> terminal_command_state (jc_state c')))"

lemma settles_refl [simp]: "settles s s"
  by (simp add: settles_def)

lemma terminal_not_queued: "terminal_command_state (jc_state c) \<Longrightarrow> \<not> queued_execute c"
  by (auto simp: queued_execute_def)

lemma settles_trans:
  assumes ab: "settles a b" and bc: "settles b c"
  shows "settles a c"
proof -
  have "same_identity x z \<and> (z = x \<or> queued_execute x \<and> terminal_command_state (jc_state z))"
    if x: "look a cid = Some x" and z: "look c cid = Some z" for cid x z
  proof -
    obtain y where y: "look b cid = Some y" using ab x unfolding settles_def by (metis not_None_eq)
    then have xy: "same_identity x y" "y = x \<or> queued_execute x \<and> terminal_command_state (jc_state y)"
      and yz: "same_identity y z" "z = y \<or> queued_execute y \<and> terminal_command_state (jc_state z)"
      using ab bc x z unfolding settles_def by blast+
    then show ?thesis using same_identity_trans terminal_not_queued by metis
  qed
  moreover have "\<forall>cid. look a cid = None \<longleftrightarrow> look c cid = None"
    using ab bc by (simp add: settles_def)
  ultimately show ?thesis by (simp add: settles_def)
qed

lemma settles_pending: "settles s s' \<Longrightarrow> pending s' \<subseteq> pending s"
  unfolding settles_def pending_def
  by (auto dest!: terminal_not_queued) (metis not_Some_eq terminal_not_queued)

lemma settles_update:
  assumes "look s cid = Some c" "look s' = (look s)(cid \<mapsto> c')" "same_identity c c'"
    and "queued_execute c" "terminal_command_state (jc_state c')"
  shows "settles s s'"
  using assms by (auto simp: settles_def split: if_splits)

lemma finite_pending: "inv s \<Longrightarrow> finite (pending s)"
  by (rule finite_subset [OF _ finite_commands]) (auto simp: pending_def)

lemma round:
  assumes s: "inv s" and now: "\<And>k. 0 \<le> clock k" and "orderly during" and "quiet after"
  shows "\<exists>s' worked. run_once ops during after clock s = (s', Inr worked) \<and> inv s' \<and> settles s s' \<and>
    (worked \<longrightarrow> card (pending s') < card (pending s)) \<and>
    (\<not> worked \<longrightarrow> (\<forall>cid c. look s' cid = Some c \<longrightarrow> \<not> eligible (clock 1) c))"
proof -
  obtain s1 ids where e: "op_expire_queued ops s (clock 0) = (s1, Inr ids)" and i1: "inv s1"
    and l1: "\<forall>cid. look s1 cid = map_option (expired_effect (clock 0)) (look s cid)"
    using expire [OF s now] by blast
  have "settles s s1"
    using l1 by (auto simp: settles_def expired_effect_def expired_def queued_execute_def)
  show ?thesis
  proof (cases "op_next_eligible ops s1 (clock 1)")
    case None
    then have "\<forall>cid c. look s1 cid = Some c \<longrightarrow> \<not> eligible (clock 1) c" using next_none [OF i1] by blast
    then show ?thesis
      using e i1 \<open>settles s s1\<close> None by (intro exI [of _ s1] exI [of _ False]) (simp add: run_once_def)
  next
    case (Some c)
    note c = next_some [OF i1 Some]
    have q: "jc_state c = QUEUED" "queued_execute c" using c by (auto simp: eligible_def queued_execute_def)
    let ?r = "transitioned c RUNNING (clock 2) None"
    have "validate_transition (jc_state c) RUNNING" using q by (simp add: validate_transition_def)
    then obtain s2 where t: "op_transition ops s1 (cd_command_id c) (jc_state_version c) RUNNING ''DISPATCHED''
        ''worker'' (clock 2) None None = (s2, Inr ?r)" and i2: "inv s2"
      and l2: "\<forall>k. look s2 k = (if k = cd_command_id c then Some ?r else look s1 k)"
      using move [OF i1 now conjunct1 [OF c]] by blast
    obtain s3 outcome where d: "during ?r s2 = (s3, outcome)" by (cases "during ?r s2")
    have i3: "inv s3" and l3: "look s3 = look s2" and ok: "outcome_ok outcome"
      using assms(3) i2 d unfolding orderly_def quiet_def by (metis fst_conv snd_conv)+
    have "look s3 (cd_command_id ?r) = Some ?r" using l2 l3 by simp
    from consume_ok [OF i3 _ this _ assms(4) ok, of clock] now obtain s4 c' where
      k: "consume ops after s3 ?r outcome clock = (s4, Inr True)" and i4: "inv s4"
      and l4: "look s4 = (look s3)(cd_command_id c \<mapsto> c')" and c': "terminal_command_state (jc_state c')"
        "same_identity ?r c'" by auto
    have id: "same_identity c c'" using c'(2) same_identity_trans transitioned_sel(3) by blast
    have l4': "look s4 = (look s1)(cd_command_id c \<mapsto> c')" using l4 l3 l2 by auto
    have st: "settles s1 s4" using settles_update [OF conjunct1 [OF c] l4' id q(2) c'(1)] .
    have "cd_command_id c \<in> pending s1" "cd_command_id c \<notin> pending s4"
      using c q l4' terminal_not_queued [OF c'(1)] by (auto simp: pending_def)
    moreover have "pending s4 \<subseteq> pending s1" "pending s1 \<subseteq> pending s"
      using settles_pending st \<open>settles s s1\<close> by blast+
    ultimately have "pending s4 \<subset> pending s" by blast
    with finite_pending [OF s] have "card (pending s4) < card (pending s)" by (rule psubset_card_mono)
    then show ?thesis
      using e i4 Some t d k settles_trans [OF \<open>settles s s1\<close> st]
      by (intro exI [of _ s4] exI [of _ True]) (simp add: run_once_def)
  qed
qed

lemma rounds_drain:
  assumes "inv s" and now: "\<And>i k. 0 \<le> clock i k" and "orderly during" and "quiet after"
    and "card (pending s) \<le> n"
  shows "\<exists>s' worked. run_rounds ops during after clock n s = (s', Inr worked) \<and> inv s' \<and> settles s s' \<and>
    (\<forall>cid c. look s' cid = Some c \<longrightarrow> queued_execute c \<longrightarrow> cd_queue_deadline_ms c \<noteq> None)"
  using assms(1,5)
proof (induction n arbitrary: s)
  case 0
  then have "pending s = {}" using finite_pending by simp
  then show ?case using 0 by (auto simp: pending_def)
next
  case (Suc n)
  obtain s1 worked where r: "run_once ops during after (clock n) s = (s1, Inr worked)" and i: "inv s1"
    and st: "settles s s1" and dec: "worked \<longrightarrow> card (pending s1) < card (pending s)"
    and idle: "\<not> worked \<longrightarrow> (\<forall>cid c. look s1 cid = Some c \<longrightarrow> \<not> eligible (clock n 1) c)"
    using round [OF Suc.prems(1) _ assms(3,4), of "clock n"] now by blast
  show ?case
  proof (cases "card (pending s1) \<le> n")
    case True
    from Suc.IH [OF i True] obtain s' k where "run_rounds ops during after clock n s1 = (s', Inr k)" "inv s'"
      "settles s1 s'" "\<forall>cid c. look s' cid = Some c \<longrightarrow> queued_execute c \<longrightarrow> cd_queue_deadline_ms c \<noteq> None"
      by blast
    then show ?thesis using r settles_trans [OF st] by (intro exI [of _ s']) auto
  next
    case False
    then have "\<not> worked" using dec Suc.prems(2) by simp
    then have dated: "\<forall>cid c. look s1 cid = Some c \<longrightarrow> queued_execute c \<longrightarrow> cd_queue_deadline_ms c \<noteq> None"
      using idle by (auto simp: eligible_def queued_execute_def split: option.splits)
    have "\<exists>s' k. run_rounds ops during after clock m t = (s', Inr k) \<and> inv s' \<and> settles t s'"
      if "inv t" for m t
      using that
    proof (induction m arbitrary: t)
      case (Suc m)
      obtain t1 w where "run_once ops during after (clock m) t = (t1, Inr w)" "inv t1" "settles t t1"
        using round [OF Suc.prems _ assms(3,4), of "clock m"] now by blast
      with Suc.IH [of t1] show ?case by (auto intro: settles_trans)
    qed simp
    then obtain s' k where s': "run_rounds ops during after clock n s1 = (s', Inr k)" "inv s'" "settles s1 s'"
      using i by blast
    have "cd_queue_deadline_ms c \<noteq> None" if "look s' cid = Some c" "queued_execute c" for cid c
    proof -
      obtain c1 where "look s1 cid = Some c1" using s'(3) \<open>look s' cid = Some c\<close> unfolding settles_def by (metis not_None_eq)
      then show ?thesis
        using s'(3) that dated terminal_not_queued unfolding settles_def by metis
    qed
    then show ?thesis using r s' settles_trans [OF st s'(3)] by (intro exI [of _ s']) auto
  qed
qed

end

section \<open>The in-memory journal keeps the promises\<close>

lemma expire_queued_effect:
  assumes inv: "core_inv s" and now: "0 \<le> now"
  shows "\<exists>s' ids. expire_queued s now = (s', Inr ids) \<and> core_inv s' \<and>
    (\<forall>cid. get_command s' cid = map_option (expired_effect now) (get_command s cid))"
proof -
  let ?cs = "filter (expired now) (dict_values (js_commands s))"
  note get = command_get_value [OF inv]
  have cur: "dict_get (js_commands s) (cd_command_id c) = Some c \<and> jc_state c = QUEUED" if "c \<in> set ?cs" for c
    using that get by (auto simp: expired_def)
  obtain s' where s': "expire_loop s now ?cs [] = (s', Inr ([] @ map cd_command_id ?cs))" "keeps s s'"
    "\<forall>c\<in>set ?cs. dict_get (js_commands s') (cd_command_id c) = Some (transitioned c FAILED now None)"
    "\<forall>k. k \<notin> cd_command_id ` set ?cs \<longrightarrow> dict_get (js_commands s') k = dict_get (js_commands s) k"
    using expire_loop_spec [where ids = "[]", OF inv now cur commands_distinct_ids [OF inv]] by blast
  have "get_command s' cid = map_option (expired_effect now) (get_command s cid)" for cid
  proof (cases "cid \<in> cd_command_id ` set ?cs")
    case True
    then obtain c where c: "c \<in> set ?cs" "cid = cd_command_id c" by blast
    then show ?thesis using s'(3) cur [OF c(1)] by (auto simp: get_command_def expired_effect_def)
  next
    case False
    have "\<not> expired now c" if "dict_get (js_commands s) cid = Some c" for c
      using that False get [of cid c] by force
    then show ?thesis
      using s'(4) False by (cases "dict_get (js_commands s) cid") (simp_all add: get_command_def expired_effect_def)
  qed
  then show ?thesis using s'(1,2) inv by (simp add: expire_queued_def keeps_def)
qed

lemma next_eligible_cases:
  assumes inv: "core_inv s"
  shows "next_eligible s now = Some c \<Longrightarrow> get_command s (cd_command_id c) = Some c \<and> eligible now c"
    and "next_eligible s now = None \<Longrightarrow> get_command s cid = Some c \<Longrightarrow> \<not> eligible now c"
proof -
  note get = command_get_value [OF inv]
  show "next_eligible s now = Some c \<Longrightarrow> get_command s (cd_command_id c) = Some c \<and> eligible now c"
    using min_by_mem [of jc_queue_sequence _ c] get by (fastforce simp: next_eligible_def get_command_def)
  show "next_eligible s now = None \<Longrightarrow> get_command s cid = Some c \<Longrightarrow> \<not> eligible now c"
    using get by (auto simp: next_eligible_def filter_empty_conv get_command_def)
qed

interpretation memory: dispatch_journal memory_journal core_inv get_command
proof unfold_locales
  show "finite {cid. get_command s cid \<noteq> None}" if "core_inv s" for s
    using finite_dom_map_of [of "js_commands s"] by (simp add: get_command_def dom_def)
  show "cd_command_id c = cid" if "core_inv s" "get_command s cid = Some c" for s cid c
    using commands_invD(2) [OF core_invD(1)] that by (simp add: get_command_def)
  show "\<exists>s' ids. op_expire_queued memory_journal s now = (s', Inr ids) \<and> core_inv s' \<and>
      (\<forall>cid. get_command s' cid = map_option (expired_effect now) (get_command s cid))"
    if "core_inv s" "0 \<le> now" for s now
    using expire_queued_effect [OF that] by (simp add: memory_journal_def)
  show "get_command s (cd_command_id c) = Some c \<and> eligible now c"
    if "core_inv s" "op_next_eligible memory_journal s now = Some c" for s now c
    using next_eligible_cases(1) that by (simp add: memory_journal_def)
  show "\<not> eligible now c"
    if "core_inv s" "op_next_eligible memory_journal s now = None" "get_command s cid = Some c" for s now cid c
    using next_eligible_cases(2) that by (simp add: memory_journal_def)
  show "\<exists>s'. op_transition memory_journal s cid (jc_state_version c) t reason actor occ details result =
      (s', Inr (transitioned c t occ result)) \<and> core_inv s' \<and>
      (\<forall>k. get_command s' k = (if k = cid then Some (transitioned c t occ result) else get_command s k))"
    if "core_inv s" "0 \<le> occ" "get_command s cid = Some c" "validate_transition (jc_state c) t"
      "terminal_command_state t \<or> result = None" for s occ cid c t result reason actor details
    using transition_current [OF that(1,2) that(3) [unfolded get_command_def] that(4,5),
        where reason = reason and actor = actor and det = details] that(1)
    by (auto simp: memory_journal_def sets_command_def keeps_def get_command_def)
qed

section \<open>Properties\<close>

text \<open>
  C18. The scheduler drains the queue.  From any reachable journal, while other tasks leave the
  commands alone and the consumer ends with outcomes that the state table allows, as many rounds as
  there are queued execute commands never raise, keep the journal's invariant and leave no queued
  execute command without a queue deadline: each of them has reached a terminal state under its own
  identity.  A queued command with a deadline has done so too or still waits, and every other
  command is untouched.
\<close>

theorem scheduler_drains:
  assumes "journal_reachable n s" and "\<And>i k. 0 \<le> clock i k"
    and "\<And>c t. core_inv t \<Longrightarrow> core_inv (fst (during c t)) \<and> get_command (fst (during c t)) = get_command t"
    and "\<And>c t. outcome_ok (snd (during c t))"
    and "\<And>t. core_inv t \<Longrightarrow> core_inv (after t) \<and> get_command (after t) = get_command t"
    and "card {cid. \<exists>c. get_command s cid = Some c \<and> queued_execute c} \<le> rounds"
  shows "\<exists>s' worked. run_rounds memory_journal during after clock rounds s = (s', Inr worked) \<and> core_inv s' \<and>
    (\<forall>cid c. get_command s cid = Some c \<longrightarrow>
       (\<exists>c'. get_command s' cid = Some c' \<and> same_identity c c' \<and>
          (if queued_execute c
           then terminal_command_state (jc_state c') \<or> c' = c \<and> cd_queue_deadline_ms c \<noteq> None
           else c' = c)))"
proof -
  have inv: "core_inv s" using assms(1) by (rule journal_reachable_core_inv)
  have "memory.orderly during" "memory.quiet after"
    using assms(3-5) by (simp_all add: memory.orderly_def memory.quiet_def)
  moreover have "card (memory.pending s) \<le> rounds" using assms(6) by (simp add: memory.pending_def)
  ultimately obtain s' worked where r: "run_rounds memory_journal during after clock rounds s = (s', Inr worked)"
      "core_inv s'" and st: "memory.settles s s'"
    and dated: "\<forall>cid c. get_command s' cid = Some c \<longrightarrow> queued_execute c \<longrightarrow> cd_queue_deadline_ms c \<noteq> None"
    using memory.rounds_drain [OF inv, where clock = clock] assms(2) by blast
  have "\<exists>c'. get_command s' cid = Some c' \<and> same_identity c c' \<and>
      (if queued_execute c
       then terminal_command_state (jc_state c') \<or> c' = c \<and> cd_queue_deadline_ms c \<noteq> None else c' = c)"
    if c: "get_command s cid = Some c" for cid c
  proof -
    obtain c' where c': "get_command s' cid = Some c'" using st c unfolding memory.settles_def by (metis not_None_eq)
    then have "same_identity c c'" "c' = c \<or> queued_execute c \<and> terminal_command_state (jc_state c')"
      using st c unfolding memory.settles_def by blast+
    then show ?thesis using c' dated by auto
  qed
  then show ?thesis using r by blast
qed

theorem scheduler_drains_witness:
  "\<exists>s' worked c'. run_rounds memory_journal (\<lambda>c s. (s, Returned None)) (\<lambda>s. s) (\<lambda>i k. 20) 2 example_two =
     (s', Inr worked) \<and> get_command s' ''b'' = Some c' \<and> terminal_command_state (jc_state c')"
proof -
  have "{cid. \<exists>c. get_command example_two cid = Some c \<and> queued_execute c} \<subseteq> {''a'', ''b''}"
  proof
    fix cid assume "cid \<in> {cid. \<exists>c. get_command example_two cid = Some c \<and> queued_execute c}"
    then have "cid \<in> set (dict_keys (js_commands example_two))"
      unfolding get_command_def by (auto dest: dict_get_Some_keys)
    moreover have "dict_keys (js_commands example_two) = [''a'', ''b'']" by code_simp
    ultimately show "cid \<in> {''a'', ''b''}" by simp
  qed
  then have "card {cid. \<exists>c. get_command example_two cid = Some c \<and> queued_execute c} \<le> card {''a'', ''b''}"
    by (rule card_mono [rotated]) simp
  also have "\<dots> \<le> 2" by (simp add: card_insert_le_m1)
  finally have q: "card {cid. \<exists>c. get_command example_two cid = Some c \<and> queued_execute c} \<le> 2" .
  have "queued_execute example_b" "cd_queue_deadline_ms example_b = None" by code_simp+
  moreover obtain s' worked where
    "run_rounds memory_journal (\<lambda>c s. (s, Returned None)) (\<lambda>s. s) (\<lambda>i k. 20) 2 example_two = (s', Inr worked)"
    "\<forall>cid c. get_command example_two cid = Some c \<longrightarrow>
       (\<exists>c'. get_command s' cid = Some c' \<and> same_identity c c' \<and>
          (if queued_execute c
           then terminal_command_state (jc_state c') \<or> c' = c \<and> cd_queue_deadline_ms c \<noteq> None
           else c' = c))"
    using scheduler_drains [OF example_reachable(2) _ _ _ _ q, where clock = "\<lambda>i k. 20"
        and during = "\<lambda>c s. (s, Returned None)" and after = "\<lambda>s. s"] by auto
  ultimately show ?thesis using example_get(3) by metis
qed

end
