(* ===== verification/Stop_Barrier.thy ===== *)
theory Stop_Barrier
  imports Scheduler
begin

text \<open>
  The global stop barrier of \<open>tools/minecraft/voyager/stop.py\<close> over the in-memory journal: commit the
  barrier, signal the active command, poll until it is terminal or the time is up, and commit the
  outcome of the stop command itself.  Other tasks interleave while the signal is awaited and
  between two polls: \<open>signal\<close> is what happens to the journal during the signal, with its answer, and
  \<open>polls\<close> lists what happens in each pause until the deadline.  The hash of the request and the
  fresh command identifier are parameters.
\<close>

section \<open>Stopping\<close>








section \<open>What stopping guarantees\<close>










end
