(* ===== verification/Command_Inbox.thy ===== *)
theory Command_Inbox
  imports Py_Text
begin

text \<open>
  The durable command inbox of \<open>services/command_inbox.py\<close>.  The SQLite table \<open>command_tasks\<close> is an
  association list from the primary key to the row, in the order of insertion (the row identifiers);
  it survives closing and reopening the connection.  Each method runs one transaction under the
  instance's lock, so it is one step; a method called without a connection first opens one, which
  interrupts the tasks a prior process left behind.  \<open>clock k\<close> is the k-th reading of the clock in the
  call.  Progress and result columns hold canonical JSON that is read back as the same object, so
  the model keeps the object; the digest of a text is a parameter.
\<close>

section \<open>Tasks\<close>

datatype task_status =
    TAccepted | TProcessing | TWaitingApproval | TSucceeded | TFailed | TCancelled | TInterrupted

datatype inbox_decision = Execute | Observe | Replay | Terminal | Conflict | NotFound

datatype inbox_error = KeyValueError | TaskNotFound | InvalidStatus | TaskResultTooLarge

definition active_statuses :: "task_status set" where
  "active_statuses = {TAccepted, TProcessing, TWaitingApproval}"

definition terminal_statuses :: "task_status set" where
  "terminal_statuses = {TSucceeded, TFailed, TCancelled, TInterrupted}"

record task_key =
  tk_scope :: string
  tk_kind :: string
  tk_task_id :: string

record command_task =
  ta_key :: task_key
  ta_request_hash :: string
  ta_request_json :: string
  ta_status :: task_status
  ta_progress :: "json_obj option"
  ta_result :: "json_obj option"
  ta_error_code :: "string option"
  ta_error_message :: "string option"
  ta_created_at_ms :: int
  ta_updated_at_ms :: int
  ta_started_at_ms :: "int option"
  ta_finished_at_ms :: "int option"
  ta_cancel_requested_at_ms :: "int option"
  ta_expires_at_ms :: "int option"
  ta_version :: int

record inbox =
  ib_tasks :: "(task_key, command_task) dict"
  ib_started :: bool

record inbox_config =
  ic_retention_ms :: int
  ic_result_limit_bytes :: nat

definition inbox_config_of :: "int \<Rightarrow> int \<Rightarrow> inbox_config" where
  "inbox_config_of retention_seconds result_limit =
     \<lparr>ic_retention_ms = max 1 retention_seconds * 1000, ic_result_limit_bytes = nat (max 1024 result_limit)\<rparr>"

definition new_inbox :: inbox where
  "new_inbox = \<lparr>ib_tasks = [], ib_started = False\<rparr>"

definition validate_key :: "task_key \<Rightarrow> bool" where
  "validate_key k \<longleftrightarrow>
     list_all (\<lambda>v. py_strip v \<noteq> [] \<and> length v \<le> 256) [tk_scope k, tk_kind k, tk_task_id k]"

section \<open>Opening, expiry\<close>

text \<open>
  \<open>DELETE ... WHERE expires_at_ms <= now ORDER BY expires_at_ms LIMIT n\<close>; equal times are taken in
  the order of insertion.
\<close>

definition cleanup_tasks :: "int \<Rightarrow> nat \<Rightarrow> (task_key, command_task) dict \<Rightarrow> (task_key, command_task) dict" where
  "cleanup_tasks now limit d =
     (let due = filter (\<lambda>(k, t). case ta_expires_at_ms t of None \<Rightarrow> False | Some e \<Rightarrow> e \<le> now) d;
          victims = map fst (take limit (sort_key (\<lambda>(k, t). case ta_expires_at_ms t of None \<Rightarrow> 0 | Some e \<Rightarrow> e) due))
      in filter (\<lambda>(k, t). k \<notin> set victims) d)"

definition interrupt_task :: "inbox_config \<Rightarrow> int \<Rightarrow> command_task \<Rightarrow> command_task" where
  "interrupt_task cfg now t =
     (if ta_status t = TAccepted \<or> ta_status t = TProcessing
      then t\<lparr>ta_status := TInterrupted, ta_error_code := Some ''SERVER_RESTARTED'',
             ta_error_message := Some ''Server restarted before completion'',
             ta_updated_at_ms := now, ta_finished_at_ms := Some now,
             ta_expires_at_ms := Some (now + ic_retention_ms cfg), ta_version := ta_version t + 1\<rparr>
      else t)"

text \<open>\<open>start\<close> returns the number of interrupted tasks; a started inbox is left alone.\<close>

definition start_inbox :: "inbox_config \<Rightarrow> (nat \<Rightarrow> int) \<Rightarrow> inbox \<Rightarrow> inbox \<times> nat" where
  "start_inbox cfg clock s =
     (if ib_started s then (s, 0)
      else
        (let recovered = length (filter (\<lambda>(k, t). ta_status t = TAccepted \<or> ta_status t = TProcessing) (ib_tasks s));
             interrupted = map (\<lambda>(k, t). (k, interrupt_task cfg (clock 0) t)) (ib_tasks s)
         in (s\<lparr>ib_tasks := cleanup_tasks (clock 1) 500 interrupted, ib_started := True\<rparr>, recovered)))"

definition require_db :: "inbox_config \<Rightarrow> (nat \<Rightarrow> int) \<Rightarrow> inbox \<Rightarrow> inbox" where
  "require_db cfg clock s = fst (start_inbox cfg clock s)"

definition close_inbox :: "inbox \<Rightarrow> inbox" where
  "close_inbox s = s\<lparr>ib_started := False\<rparr>"

definition cleanup_expired :: "inbox_config \<Rightarrow> (nat \<Rightarrow> int) \<Rightarrow> int \<Rightarrow> inbox \<Rightarrow> inbox \<times> nat" where
  "cleanup_expired cfg clock limit s =
     (let s1 = require_db cfg clock s; d = cleanup_tasks (clock 2) (nat (max 1 limit)) (ib_tasks s1)
      in (s1\<lparr>ib_tasks := d\<rparr>, length (ib_tasks s1) - length d))"

section \<open>Accepting\<close>

definition request_fingerprint :: "(string \<Rightarrow> string) \<Rightarrow> json \<Rightarrow> string \<times> string" where
  "request_fingerprint sha256 value = (let payload = canonical_json value in (sha256 payload, payload))"

definition decision_for_existing :: "command_task \<Rightarrow> inbox_decision" where
  "decision_for_existing t =
     (if ta_status t \<in> active_statuses then Observe
      else if ta_status t = TSucceeded then Replay
      else Terminal)"

definition accepted_task :: "task_key \<Rightarrow> string \<Rightarrow> string \<Rightarrow> int \<Rightarrow> command_task" where
  "accepted_task k digest request_json now =
     \<lparr>ta_key = k, ta_request_hash = digest, ta_request_json = request_json, ta_status = TAccepted,
      ta_progress = None, ta_result = None, ta_error_code = None, ta_error_message = None,
      ta_created_at_ms = now, ta_updated_at_ms = now, ta_started_at_ms = None, ta_finished_at_ms = None,
      ta_cancel_requested_at_ms = None, ta_expires_at_ms = None, ta_version = 1\<rparr>"

definition accept_command ::
  "inbox_config \<Rightarrow> (string \<Rightarrow> string) \<Rightarrow> (nat \<Rightarrow> int) \<Rightarrow> task_key \<Rightarrow> json \<Rightarrow> json option \<Rightarrow> inbox \<Rightarrow>
   inbox \<times> (inbox_error + inbox_decision \<times> command_task)" where
  "accept_command cfg sha256 clock k request stored s =
     (if \<not> validate_key k then (s, Inl KeyValueError)
      else
        (let (digest, payload) = request_fingerprint sha256 request;
             request_json = (case stored of None \<Rightarrow> payload | Some v \<Rightarrow> canonical_json v);
             s1 = require_db cfg clock s
         in case dict_get (ib_tasks s1) k of
              None \<Rightarrow>
                (let t = accepted_task k digest request_json (clock 2)
                 in (s1\<lparr>ib_tasks := dict_set k t (ib_tasks s1)\<rparr>, Inr (Execute, t)))
            | Some t \<Rightarrow>
                (s1, Inr (if ta_request_hash t \<noteq> digest then Conflict else decision_for_existing t, t))))"

definition get_task ::
  "inbox_config \<Rightarrow> (nat \<Rightarrow> int) \<Rightarrow> task_key \<Rightarrow> inbox \<Rightarrow> inbox \<times> (inbox_error + inbox_decision \<times> command_task option)" where
  "get_task cfg clock k s =
     (if \<not> validate_key k then (s, Inl KeyValueError)
      else
        (let s1 = require_db cfg clock s in
         (s1, Inr (case dict_get (ib_tasks s1) k of
                     None \<Rightarrow> (NotFound, None)
                   | Some t \<Rightarrow> (decision_for_existing t, Some t)))))"

section \<open>Transitions\<close>

record task_update =
  up_status :: "task_status option"
  up_progress :: "json_obj option"
  up_result :: "json_obj option"
  up_error_code :: "string option"
  up_error_message :: "string option"
  up_started :: bool
  up_finished :: bool
  up_cancel_requested :: bool
  up_require_source :: bool

definition no_update :: task_update where
  "no_update =
     \<lparr>up_status = None, up_progress = None, up_result = None, up_error_code = None, up_error_message = None,
      up_started = False, up_finished = False, up_cancel_requested = False, up_require_source = False\<rparr>"

definition coalesce :: "'a option \<Rightarrow> 'a option \<Rightarrow> 'a option" where
  "coalesce a b = (case a of None \<Rightarrow> b | Some x \<Rightarrow> Some x)"

definition updated_task :: "inbox_config \<Rightarrow> task_update \<Rightarrow> int \<Rightarrow> command_task \<Rightarrow> command_task" where
  "updated_task cfg u now t =
     (let status = (case up_status u of None \<Rightarrow> ta_status t | Some st \<Rightarrow> st) in
      t\<lparr>ta_status := status,
        ta_progress := coalesce (up_progress u) (ta_progress t),
        ta_result := coalesce (up_result u) (ta_result t),
        ta_error_code := up_error_code u, ta_error_message := up_error_message u,
        ta_started_at_ms := (if up_started u then coalesce (ta_started_at_ms t) (Some now) else ta_started_at_ms t),
        ta_finished_at_ms := (if up_finished u then Some now else ta_finished_at_ms t),
        ta_cancel_requested_at_ms :=
          (if up_cancel_requested u then coalesce (ta_cancel_requested_at_ms t) (Some now)
           else ta_cancel_requested_at_ms t),
        ta_expires_at_ms := (if status \<in> terminal_statuses then Some (now + ic_retention_ms cfg) else None),
        ta_updated_at_ms := now, ta_version := ta_version t + 1\<rparr>)"

definition task_transition ::
  "inbox_config \<Rightarrow> (nat \<Rightarrow> int) \<Rightarrow> task_key \<Rightarrow> task_status set \<Rightarrow> task_update \<Rightarrow> inbox \<Rightarrow>
   inbox \<times> (inbox_error + command_task)" where
  "task_transition cfg clock k from_statuses u s =
     (let s1 = require_db cfg clock s in
      case dict_get (ib_tasks s1) k of
        None \<Rightarrow> (s1, Inl TaskNotFound)
      | Some t \<Rightarrow>
          if ta_status t \<notin> from_statuses then
            (if up_require_source u then (s1, Inl InvalidStatus) else (s1, Inr t))
          else
            (let t' = updated_task cfg u (clock 2) t
             in (s1\<lparr>ib_tasks := dict_set k t' (ib_tasks s1)\<rparr>, Inr t')))"

definition mark_processing :: "inbox_config \<Rightarrow> (nat \<Rightarrow> int) \<Rightarrow> task_key \<Rightarrow> inbox \<Rightarrow> inbox \<times> (inbox_error + command_task)" where
  "mark_processing cfg clock k =
     task_transition cfg clock k {TAccepted} (no_update\<lparr>up_status := Some TProcessing, up_started := True\<rparr>)"

definition wait_for_approval ::
  "inbox_config \<Rightarrow> (nat \<Rightarrow> int) \<Rightarrow> task_key \<Rightarrow> json_obj \<Rightarrow> inbox \<Rightarrow> inbox \<times> (inbox_error + command_task)" where
  "wait_for_approval cfg clock k approval =
     task_transition cfg clock k {TProcessing}
       (no_update\<lparr>up_status := Some TWaitingApproval, up_progress := Some approval\<rparr>)"

definition resume_after_approval ::
  "inbox_config \<Rightarrow> (nat \<Rightarrow> int) \<Rightarrow> task_key \<Rightarrow> inbox \<Rightarrow> inbox \<times> (inbox_error + command_task)" where
  "resume_after_approval cfg clock k =
     task_transition cfg clock k {TWaitingApproval}
       (no_update\<lparr>up_status := Some TProcessing, up_require_source := True\<rparr>)"

definition update_progress ::
  "inbox_config \<Rightarrow> (nat \<Rightarrow> int) \<Rightarrow> task_key \<Rightarrow> json_obj \<Rightarrow> inbox \<Rightarrow> inbox \<times> (inbox_error + command_task)" where
  "update_progress cfg clock k progress =
     task_transition cfg clock k active_statuses (no_update\<lparr>up_progress := Some progress\<rparr>)"

definition fail_task ::
  "inbox_config \<Rightarrow> (nat \<Rightarrow> int) \<Rightarrow> task_key \<Rightarrow> string \<Rightarrow> string \<Rightarrow> inbox \<Rightarrow> inbox \<times> (inbox_error + command_task)" where
  "fail_task cfg clock k error_code error_message =
     task_transition cfg clock k active_statuses
       (no_update\<lparr>up_status := Some TFailed, up_error_code := Some error_code,
                  up_error_message := Some (take 512 error_message), up_finished := True\<rparr>)"

definition succeed_task ::
  "inbox_config \<Rightarrow> (nat \<Rightarrow> int) \<Rightarrow> task_key \<Rightarrow> json_obj \<Rightarrow> inbox \<Rightarrow> inbox \<times> (inbox_error + command_task)" where
  "succeed_task cfg clock k result s =
     (if ic_result_limit_bytes cfg < utf8_length (canonical_json (JObj result)) then
        (case fail_task cfg clock k ''TASK_RESULT_TOO_LARGE''
                ''Replay-safe command result exceeds the durable payload limit'' s of
           (s', Inl e) \<Rightarrow> (s', Inl e)
         | (s', Inr failed) \<Rightarrow>
             if ta_status failed \<noteq> TFailed then (s', Inr failed) else (s', Inl TaskResultTooLarge))
      else
        task_transition cfg clock k active_statuses
          (no_update\<lparr>up_status := Some TSucceeded, up_result := Some result, up_finished := True\<rparr>) s)"

definition request_cancel ::
  "inbox_config \<Rightarrow> (nat \<Rightarrow> int) \<Rightarrow> task_key \<Rightarrow> inbox \<Rightarrow> inbox \<times> (inbox_error + command_task)" where
  "request_cancel cfg clock k =
     task_transition cfg clock k active_statuses (no_update\<lparr>up_cancel_requested := True\<rparr>)"

definition cancel_task ::
  "inbox_config \<Rightarrow> (nat \<Rightarrow> int) \<Rightarrow> task_key \<Rightarrow> string \<Rightarrow> inbox \<Rightarrow> inbox \<times> (inbox_error + command_task)" where
  "cancel_task cfg clock k message =
     task_transition cfg clock k active_statuses
       (no_update\<lparr>up_status := Some TCancelled, up_error_code := Some ''CANCELLED'',
                  up_error_message := Some (take 512 message), up_finished := True\<rparr>)"

section \<open>Pending approvals\<close>

text \<open>\<open>ORDER BY created_at_ms\<close>; equal times are taken in the order of insertion.\<close>

definition waiting_approvals :: "inbox_config \<Rightarrow> (nat \<Rightarrow> int) \<Rightarrow> inbox \<Rightarrow> inbox \<times> command_task list" where
  "waiting_approvals cfg clock s =
     (let s1 = require_db cfg clock s in
      (s1, sort_key ta_created_at_ms (filter (\<lambda>t. ta_status t = TWaitingApproval) (dict_values (ib_tasks s1)))))"

text \<open>\<open>str((task.progress or {}).get("thread_id") or "")\<close> when the value is a string or missing.\<close>

definition thread_id_of :: "command_task \<Rightarrow> string" where
  "thread_id_of t =
     (case ta_progress t of
        None \<Rightarrow> []
      | Some p \<Rightarrow> (case dict_get p ''thread_id'' of Some (JStr x) \<Rightarrow> x | _ \<Rightarrow> []))"

text \<open>
  The loop of \<open>reconcile_waiting_approvals\<close>: \<open>exists\<close> is the checkpoint lookup together with what other
  tasks do to the inbox while it is awaited.
\<close>

fun reconcile_loop ::
  "inbox_config \<Rightarrow> (nat \<Rightarrow> int) \<Rightarrow> (string \<Rightarrow> inbox \<Rightarrow> inbox \<times> bool) \<Rightarrow> command_task list \<Rightarrow> nat \<Rightarrow> inbox \<Rightarrow>
   inbox \<times> (inbox_error + nat)" where
  "reconcile_loop cfg clock checkpoint_exists [] n s = (s, Inr n)"
| "reconcile_loop cfg clock checkpoint_exists (t # ts) n s =
     (case (if thread_id_of t = [] then (s, False) else checkpoint_exists (thread_id_of t) s) of
        (s1, found) \<Rightarrow>
          if found then reconcile_loop cfg clock checkpoint_exists ts n s1
          else
            (case fail_task cfg clock (ta_key t) ''CHECKPOINT_UNAVAILABLE''
                    ''Pending approval checkpoint is unavailable after restart'' s1 of
               (s2, Inl e) \<Rightarrow> (s2, Inl e)
             | (s2, Inr _) \<Rightarrow> reconcile_loop cfg clock checkpoint_exists ts (Suc n) s2))"

definition reconcile_waiting_approvals ::
  "inbox_config \<Rightarrow> (nat \<Rightarrow> int) \<Rightarrow> (string \<Rightarrow> inbox \<Rightarrow> inbox \<times> bool) \<Rightarrow> inbox \<Rightarrow> inbox \<times> (inbox_error + nat)" where
  "reconcile_waiting_approvals cfg clock checkpoint_exists s =
     (case waiting_approvals cfg clock s of
        (s1, ts) \<Rightarrow> reconcile_loop cfg clock checkpoint_exists ts 0 s1)"

end
