(* ===== verification/Command_Inbox_Properties.thy ===== *)
theory Command_Inbox_Properties
  imports Command_Inbox
begin

text \<open>
  What the command inbox promises: one execution per command identity, a life cycle that its
  operations refine, and bounded stored results.
\<close>

section \<open>Steps\<close>

text \<open>One step is one method call whose clock readings lie between \<open>lo\<close> and \<open>hi\<close>.\<close>

definition clock_between :: "int \<Rightarrow> int \<Rightarrow> (nat \<Rightarrow> int) \<Rightarrow> bool" where
  "clock_between lo hi clock \<longleftrightarrow> (\<forall>k. lo \<le> clock k \<and> clock k < hi)"

inductive inbox_step :: "inbox_config \<Rightarrow> (string \<Rightarrow> string) \<Rightarrow> int \<Rightarrow> int \<Rightarrow> inbox \<Rightarrow> inbox \<Rightarrow> bool"
  for cfg sha256 lo hi where
  step_start: "clock_between lo hi clock \<Longrightarrow> start_inbox cfg clock s = (s', n) \<Longrightarrow> inbox_step cfg sha256 lo hi s s'"
| step_close: "inbox_step cfg sha256 lo hi s (close_inbox s)"
| step_accept: "clock_between lo hi clock \<Longrightarrow> accept_command cfg sha256 clock k request stored s = (s', d) \<Longrightarrow>
    inbox_step cfg sha256 lo hi s s'"
| step_get: "clock_between lo hi clock \<Longrightarrow> get_task cfg clock k s = (s', g) \<Longrightarrow> inbox_step cfg sha256 lo hi s s'"
| step_waiting: "clock_between lo hi clock \<Longrightarrow> waiting_approvals cfg clock s = (s', ts) \<Longrightarrow> inbox_step cfg sha256 lo hi s s'"
| step_process: "clock_between lo hi clock \<Longrightarrow> mark_processing cfg clock k s = (s', x) \<Longrightarrow> inbox_step cfg sha256 lo hi s s'"
| step_wait: "clock_between lo hi clock \<Longrightarrow> wait_for_approval cfg clock k approval s = (s', x) \<Longrightarrow>
    inbox_step cfg sha256 lo hi s s'"
| step_resume: "clock_between lo hi clock \<Longrightarrow> resume_after_approval cfg clock k s = (s', x) \<Longrightarrow> inbox_step cfg sha256 lo hi s s'"
| step_progress: "clock_between lo hi clock \<Longrightarrow> update_progress cfg clock k p s = (s', x) \<Longrightarrow> inbox_step cfg sha256 lo hi s s'"
| step_succeed: "clock_between lo hi clock \<Longrightarrow> succeed_task cfg clock k result s = (s', x) \<Longrightarrow> inbox_step cfg sha256 lo hi s s'"
| step_fail: "clock_between lo hi clock \<Longrightarrow> fail_task cfg clock k ec em s = (s', x) \<Longrightarrow> inbox_step cfg sha256 lo hi s s'"
| step_request: "clock_between lo hi clock \<Longrightarrow> request_cancel cfg clock k s = (s', x) \<Longrightarrow> inbox_step cfg sha256 lo hi s s'"
| step_cancel: "clock_between lo hi clock \<Longrightarrow> cancel_task cfg clock k message s = (s', x) \<Longrightarrow> inbox_step cfg sha256 lo hi s s'"
| step_cleanup: "clock_between lo hi clock \<Longrightarrow> cleanup_expired cfg clock limit s = (s', n) \<Longrightarrow> inbox_step cfg sha256 lo hi s s'"

section \<open>The abstract life cycle\<close>

type_synonym life = "task_key \<Rightarrow> task_status option"

inductive life_edge :: "task_status \<Rightarrow> task_status \<Rightarrow> bool" where
  "life_edge TAccepted TProcessing"
| "life_edge TProcessing TWaitingApproval"
| "life_edge TWaitingApproval TProcessing"
| "a \<in> active_statuses \<Longrightarrow> b \<in> {TSucceeded, TFailed, TCancelled} \<Longrightarrow> life_edge a b"

inductive_simps life_edge_iff: "life_edge a b"

definition restart_status :: "task_status \<Rightarrow> task_status" where
  "restart_status a = (if a = TAccepted \<or> a = TProcessing then TInterrupted else a)"

inductive life_step :: "life \<Rightarrow> life \<Rightarrow> bool" where
  life_begin: "m k = None \<Longrightarrow> life_step m (m(k \<mapsto> TAccepted))"
| life_move: "m k = Some a \<Longrightarrow> life_edge a b \<Longrightarrow> life_step m (m(k \<mapsto> b))"
| life_restart: "life_step m (\<lambda>k. map_option restart_status (m k))"
| life_expire: "(\<And>k. k \<in> gone \<Longrightarrow> \<exists>a\<in>terminal_statuses. m k = Some a) \<Longrightarrow>
    life_step m (\<lambda>k. if k \<in> gone then None else m k)"

definition life_of :: "inbox \<Rightarrow> life" where
  "life_of s k = map_option ta_status (dict_get (ib_tasks s) k)"

definition task_ok :: "task_key \<Rightarrow> command_task \<Rightarrow> bool" where
  "task_ok k t \<longleftrightarrow> ta_key t = k \<and> 1 \<le> ta_version t \<and> (ta_expires_at_ms t \<noteq> None \<longleftrightarrow> ta_status t \<in> terminal_statuses)"

definition inbox_inv :: "inbox \<Rightarrow> bool" where
  "inbox_inv s \<longleftrightarrow>
     distinct (dict_keys (ib_tasks s)) \<and> (\<forall>k t. dict_get (ib_tasks s) k = Some t \<longrightarrow> task_ok k t)"

section \<open>Lookups after each operation\<close>

lemma dict_get_filter_keys: "dict_get (filter (\<lambda>(k, t). k \<notin> V) d) k = (if k \<in> V then None else dict_get d k)"
  by (induction d) auto

lemma distinct_keys_filter: "distinct (dict_keys d) \<Longrightarrow> distinct (dict_keys (filter P d))"
  by (rule distinct_map_filter)

lemma cleanup_tasks_get:
  assumes "distinct (dict_keys d)"
  obtains gone where "\<And>k. dict_get (cleanup_tasks now n d) k = (if k \<in> gone then None else dict_get d k)"
    and "\<And>k. k \<in> gone \<Longrightarrow> \<exists>t e. dict_get d k = Some t \<and> ta_expires_at_ms t = Some e \<and> e \<le> now"
proof -
  let ?due = "filter (\<lambda>(k, t). case ta_expires_at_ms t of None \<Rightarrow> False | Some e \<Rightarrow> e \<le> now) d"
  let ?victims = "map fst (take n (sort_key (\<lambda>(k, t). case ta_expires_at_ms t of None \<Rightarrow> 0 | Some e \<Rightarrow> e) ?due))"
  show thesis
  proof (rule that)
    show "dict_get (cleanup_tasks now n d) k = (if k \<in> set ?victims then None else dict_get d k)" for k
      by (simp only: cleanup_tasks_def Let_def dict_get_filter_keys)
    fix k assume "k \<in> set ?victims"
    then obtain t where "(k, t) \<in> set ?due" by (force dest: in_set_takeD)
    then show "\<exists>t e. dict_get d k = Some t \<and> ta_expires_at_ms t = Some e \<and> e \<le> now"
      using assms by (auto split: option.splits)
  qed
qed

lemma distinct_cleanup: "distinct (dict_keys d) \<Longrightarrow> distinct (dict_keys (cleanup_tasks now n d))"
  unfolding cleanup_tasks_def Let_def by (rule distinct_keys_filter)

lemma dict_get_map_values: "dict_get (map (\<lambda>(k, t). (k, f t)) d) k = map_option f (dict_get d k)"
  by (induction d) auto

lemma dict_keys_map_values: "dict_keys (map (\<lambda>(k, t). (k, f t)) d) = dict_keys d"
  by (induction d) auto

lemma interrupt_status: "ta_status (interrupt_task cfg now t) = restart_status (ta_status t)"
  by (simp add: interrupt_task_def restart_status_def)

lemma interrupt_ok: "task_ok k t \<Longrightarrow> task_ok k (interrupt_task cfg now t)"
  by (auto simp: task_ok_def interrupt_task_def terminal_statuses_def)

lemma updated_ok:
  "task_ok k t \<Longrightarrow> task_ok k (updated_task cfg u now t)"
  by (auto simp: task_ok_def updated_task_def Let_def)

section \<open>Refinement\<close>

lemma life_cleanup:
  assumes "inbox_inv s" and "ib_tasks s' = cleanup_tasks now n (ib_tasks s)"
  shows "life_step (life_of s) (life_of s') \<and> inbox_inv s'"
proof -
  have d: "distinct (dict_keys (ib_tasks s))" using assms(1) by (simp add: inbox_inv_def)
  obtain gone where g: "\<And>k. dict_get (ib_tasks s') k = (if k \<in> gone then None else dict_get (ib_tasks s) k)"
    and e: "\<And>k. k \<in> gone \<Longrightarrow> \<exists>t e. dict_get (ib_tasks s) k = Some t \<and> ta_expires_at_ms t = Some e \<and> e \<le> now"
    using cleanup_tasks_get [OF d, of now n] unfolding assms(2) by metis
  have "life_of s' = (\<lambda>k. if k \<in> gone then None else life_of s k)"
    by (auto simp: fun_eq_iff life_of_def g)
  moreover have "\<exists>a\<in>terminal_statuses. life_of s k = Some a" if k: "k \<in> gone" for k
  proof -
    obtain t x where "dict_get (ib_tasks s) k = Some t" "ta_expires_at_ms t = Some x" using e [OF k] by blast
    moreover from this have "task_ok k t" using assms(1) by (simp add: inbox_inv_def)
    ultimately show ?thesis by (auto simp: life_of_def task_ok_def)
  qed
  moreover have "inbox_inv s'"
    using assms(1) distinct_cleanup [OF d, of now n] unfolding inbox_inv_def assms(2) [symmetric] g by auto
  ultimately show ?thesis by (auto intro: life_expire)
qed

lemma life_start:
  assumes "inbox_inv s"
  shows "life_step\<^sup>*\<^sup>* (life_of s) (life_of (require_db cfg clock s)) \<and> inbox_inv (require_db cfg clock s) \<and>
    ib_started (require_db cfg clock s)"
proof (cases "ib_started s")
  case True
  then show ?thesis using assms by (simp add: require_db_def start_inbox_def)
next
  case False
  let ?m = "map (\<lambda>(k, t). (k, interrupt_task cfg (clock 0) t)) (ib_tasks s)"
  let ?s1 = "s\<lparr>ib_tasks := ?m\<rparr>" and ?s2 = "require_db cfg clock s"
  have "life_of ?s1 = (\<lambda>k. map_option restart_status (life_of s k))"
    by (simp add: fun_eq_iff life_of_def dict_get_map_values option.map_comp comp_def interrupt_status)
  then have r: "life_step (life_of s) (life_of ?s1)" using life_restart by metis
  have i: "inbox_inv ?s1"
    using assms interrupt_ok
    by (auto simp: inbox_inv_def dict_keys_map_values dict_get_map_values simp del: map_map)
  have "ib_tasks ?s2 = cleanup_tasks (clock 1) 500 (ib_tasks ?s1)" "ib_started ?s2"
    using False by (simp_all add: require_db_def start_inbox_def Let_def)
  with life_cleanup [OF i] r show ?thesis by (blast intro: rtranclp.rtrancl_into_rtrancl r_into_rtranclp)
qed

lemma life_set:
  assumes "inbox_inv s" and "task_ok k t'"
    and "dict_get (ib_tasks s) k = None \<and> ta_status t' = TAccepted \<or>
      (\<exists>t. dict_get (ib_tasks s) k = Some t \<and> (ta_status t' = ta_status t \<or> life_edge (ta_status t) (ta_status t')))"
  shows "life_step\<^sup>*\<^sup>* (life_of s) (life_of (s\<lparr>ib_tasks := dict_set k t' (ib_tasks s)\<rparr>)) \<and>
    inbox_inv (s\<lparr>ib_tasks := dict_set k t' (ib_tasks s)\<rparr>)"
proof
  let ?s' = "s\<lparr>ib_tasks := dict_set k t' (ib_tasks s)\<rparr>"
  have l: "life_of ?s' = (life_of s)(k \<mapsto> ta_status t')"
    by (simp add: fun_eq_iff life_of_def dict_simps)
  consider "life_of s k = None" "ta_status t' = TAccepted" | "life_of s k = Some (ta_status t')"
    | a where "life_of s k = Some a" "life_edge a (ta_status t')"
    using assms(3) by (auto simp: life_of_def)
  then show "life_step\<^sup>*\<^sup>* (life_of s) (life_of ?s')"
  proof cases
    case 2
    then show ?thesis by (simp add: l fun_upd_idem)
  qed (auto simp: l intro: r_into_rtranclp life_begin life_move)
  show "inbox_inv ?s'"
    using assms(1,2) by (simp add: inbox_inv_def distinct_keys_set dict_simps)
qed

lemma life_transition:
  assumes "inbox_inv s" and "task_transition cfg clock k from u s = (s', x)"
    and "\<And>a. a \<in> from \<Longrightarrow> up_status u = None \<or> life_edge a (the (up_status u))"
  shows "life_step\<^sup>*\<^sup>* (life_of s) (life_of s') \<and> inbox_inv s'"
proof -
  let ?s1 = "require_db cfg clock s"
  have s1: "life_step\<^sup>*\<^sup>* (life_of s) (life_of ?s1)" "inbox_inv ?s1" using life_start [OF assms(1)] by blast+
  show ?thesis
  proof (cases "s' = ?s1")
    case False
    then obtain t where t: "dict_get (ib_tasks ?s1) k = Some t" "ta_status t \<in> from"
      and s': "s' = ?s1\<lparr>ib_tasks := dict_set k (updated_task cfg u (clock 2) t) (ib_tasks ?s1)\<rparr>"
      using assms(2) by (auto simp: task_transition_def Let_def split: option.splits if_splits)
    have "task_ok k t" using s1(2) t(1) by (simp add: inbox_inv_def)
    moreover have "ta_status (updated_task cfg u (clock 2) t) =
        (case up_status u of None \<Rightarrow> ta_status t | Some st \<Rightarrow> st)"
      by (simp add: updated_task_def Let_def)
    ultimately have "life_step\<^sup>*\<^sup>* (life_of ?s1) (life_of s') \<and> inbox_inv s'"
      unfolding s' using assms(3) [OF t(2)] t(1)
      by (intro life_set [OF s1(2) updated_ok]) (auto split: option.splits)
    then show ?thesis using s1(1) by auto
  qed (use s1 in simp)
qed

lemmas transition_defs = mark_processing_def wait_for_approval_def resume_after_approval_def
  update_progress_def fail_task_def request_cancel_def cancel_task_def

lemma life_ops:
  assumes "inbox_inv s"
  shows "mark_processing cfg clock k s = (s', x) \<Longrightarrow> life_step\<^sup>*\<^sup>* (life_of s) (life_of s') \<and> inbox_inv s'"
    and "wait_for_approval cfg clock k p s = (s', x) \<Longrightarrow> life_step\<^sup>*\<^sup>* (life_of s) (life_of s') \<and> inbox_inv s'"
    and "resume_after_approval cfg clock k s = (s', x) \<Longrightarrow> life_step\<^sup>*\<^sup>* (life_of s) (life_of s') \<and> inbox_inv s'"
    and "update_progress cfg clock k p s = (s', x) \<Longrightarrow> life_step\<^sup>*\<^sup>* (life_of s) (life_of s') \<and> inbox_inv s'"
    and "fail_task cfg clock k ec em s = (s', x) \<Longrightarrow> life_step\<^sup>*\<^sup>* (life_of s) (life_of s') \<and> inbox_inv s'"
    and "request_cancel cfg clock k s = (s', x) \<Longrightarrow> life_step\<^sup>*\<^sup>* (life_of s) (life_of s') \<and> inbox_inv s'"
    and "cancel_task cfg clock k em s = (s', x) \<Longrightarrow> life_step\<^sup>*\<^sup>* (life_of s) (life_of s') \<and> inbox_inv s'"
  unfolding transition_defs
  by (erule life_transition [OF assms], force simp: no_update_def life_edge_iff active_statuses_def)+

lemma life_succeed:
  assumes "inbox_inv s" and "succeed_task cfg clock k result s = (s', x)"
  shows "life_step\<^sup>*\<^sup>* (life_of s) (life_of s') \<and> inbox_inv s'"
proof (cases "ic_result_limit_bytes cfg < utf8_length (canonical_json (JObj result))")
  case True
  then show ?thesis
    using assms(2) life_ops(5) [OF assms(1)]
    by (auto simp: succeed_task_def split: prod.splits sum.splits if_splits)
next
  case False
  then have "task_transition cfg clock k active_statuses
      (no_update\<lparr>up_status := Some TSucceeded, up_result := Some result, up_finished := True\<rparr>) s = (s', x)"
    using assms(2) by (simp add: succeed_task_def)
  then show ?thesis
    by (rule life_transition [OF assms(1)]) (auto simp: no_update_def life_edge_iff)
qed

lemma life_accept:
  assumes "inbox_inv s" and "accept_command cfg sha256 clock k request stored s = (s', d)"
  shows "life_step\<^sup>*\<^sup>* (life_of s) (life_of s') \<and> inbox_inv s'"
proof -
  let ?s1 = "require_db cfg clock s"
  have s1: "life_step\<^sup>*\<^sup>* (life_of s) (life_of ?s1)" "inbox_inv ?s1" using life_start [OF assms(1)] by blast+
  show ?thesis
  proof (cases "s' = s \<or> s' = ?s1")
    case False
    then obtain digest rj where none: "dict_get (ib_tasks ?s1) k = None"
      and s': "s' = ?s1\<lparr>ib_tasks := dict_set k (accepted_task k digest rj (clock 2)) (ib_tasks ?s1)\<rparr>"
      using assms(2) by (auto simp: accept_command_def Let_def split: option.splits if_splits prod.splits)
    have "task_ok k (accepted_task k digest rj (clock 2))"
      by (simp add: task_ok_def accepted_task_def terminal_statuses_def)
    then have "life_step\<^sup>*\<^sup>* (life_of ?s1) (life_of s') \<and> inbox_inv s'"
      unfolding s' using none by (intro life_set [OF s1(2)]) (simp_all add: accepted_task_def)
    then show ?thesis using s1(1) by auto
  qed (use s1 assms(1) in auto)
qed

lemma life_inbox_step:
  assumes "inbox_step cfg sha256 lo hi s s'" and inv: "inbox_inv s"
  shows "life_step\<^sup>*\<^sup>* (life_of s) (life_of s') \<and> inbox_inv s'"
  using assms(1)
proof cases
  case (step_start clock n)
  then show ?thesis using life_start [OF inv, of cfg clock] by (simp add: require_db_def)
next
  case step_close
  then show ?thesis using inv by (simp add: close_inbox_def life_of_def [abs_def] inbox_inv_def)
next
  case (step_get clock k g)
  then show ?thesis using life_start [OF inv, of cfg clock] inv by (auto simp: get_task_def Let_def split: if_splits)
next
  case (step_waiting clock ts)
  then show ?thesis using life_start [OF inv, of cfg clock] by (auto simp: waiting_approvals_def Let_def)
next
  case (step_cleanup clock limit n)
  then have "ib_tasks s' = cleanup_tasks (clock 2) (nat (max 1 limit)) (ib_tasks (require_db cfg clock s))"
    by (auto simp: cleanup_expired_def Let_def)
  then show ?thesis
    using life_start [OF inv, of cfg clock] life_cleanup [of "require_db cfg clock s" s']
    by (blast intro: rtranclp.rtrancl_into_rtrancl)
qed (rule life_accept [OF inv] life_ops [OF inv] life_succeed [OF inv]; assumption)+

section \<open>What stays with a task\<close>

text \<open>
  The row of a key after a call whose clock is between \<open>lo\<close> and \<open>hi\<close>: a row that does not expire
  before \<open>hi\<close> stays under its request hash, and a terminal one stays as it is.
\<close>

definition holds_row :: "inbox_config \<Rightarrow> int \<Rightarrow> task_key \<Rightarrow> (command_task \<Rightarrow> bool) \<Rightarrow> inbox \<Rightarrow> bool" where
  "holds_row cfg lo k P s \<longleftrightarrow>
     (\<exists>t. dict_get (ib_tasks s) k = Some t \<and> P t \<and>
          (\<forall>e. ta_expires_at_ms t = Some e \<longrightarrow> lo + ic_retention_ms cfg \<le> e))"

text \<open>A fact about rows that interruptions and transitions of active rows keep.\<close>

definition row_stable :: "inbox_config \<Rightarrow> (command_task \<Rightarrow> bool) \<Rightarrow> bool" where
  "row_stable cfg P \<longleftrightarrow>
     (\<forall>t u now. P t \<longrightarrow> P (interrupt_task cfg now t) \<and> (ta_status t \<in> active_statuses \<longrightarrow> P (updated_task cfg u now t)))"

lemma hash_stable: "row_stable cfg (\<lambda>t. ta_request_hash t = h)"
  by (simp add: row_stable_def interrupt_task_def updated_task_def Let_def)

lemma terminal_stable: "ta_status t0 \<in> terminal_statuses \<Longrightarrow> row_stable cfg (\<lambda>t. t = t0)"
  by (auto simp: row_stable_def interrupt_task_def terminal_statuses_def active_statuses_def)

definition keeps_row :: "inbox_config \<Rightarrow> int \<Rightarrow> int \<Rightarrow> (command_task \<Rightarrow> bool) \<Rightarrow> bool" where
  "keeps_row cfg lo hi P \<longleftrightarrow> row_stable cfg P \<and> hi \<le> lo + ic_retention_ms cfg"

lemma keeps_rowD: "keeps_row cfg lo hi P \<Longrightarrow> row_stable cfg P" "keeps_row cfg lo hi P \<Longrightarrow> hi \<le> lo + ic_retention_ms cfg"
  by (simp_all add: keeps_row_def)

lemma holds_cleanup:
  assumes w: "keeps_row cfg lo hi P" and "inbox_inv s" "holds_row cfg lo k P s" "now < hi" "ib_tasks s' = cleanup_tasks now n (ib_tasks s)"
  shows "holds_row cfg lo k P s'"
proof -
  have d: "distinct (dict_keys (ib_tasks s))" using assms(2) by (simp add: inbox_inv_def)
  obtain gone where g: "\<And>k. dict_get (ib_tasks s') k = (if k \<in> gone then None else dict_get (ib_tasks s) k)"
    and e: "\<And>k. k \<in> gone \<Longrightarrow> \<exists>t e. dict_get (ib_tasks s) k = Some t \<and> ta_expires_at_ms t = Some e \<and> e \<le> now"
    using cleanup_tasks_get [OF d, of now n] unfolding assms(5) by metis
  obtain t where t: "dict_get (ib_tasks s) k = Some t" "P t"
      "\<forall>e. ta_expires_at_ms t = Some e \<longrightarrow> lo + ic_retention_ms cfg \<le> e"
    using assms(3) unfolding holds_row_def by blast
  have "k \<notin> gone"
  proof
    assume "k \<in> gone"
    from e [OF this] t obtain x where "lo + ic_retention_ms cfg \<le> x" "x \<le> now" by auto
    then show False using assms(4) keeps_rowD(2) [OF w] by simp
  qed
  then show ?thesis unfolding holds_row_def g using t by simp
qed

lemma holds_start:
  assumes w: "keeps_row cfg lo hi P" and "inbox_inv s" "holds_row cfg lo k P s" "clock_between lo hi clock"
  shows "holds_row cfg lo k P (require_db cfg clock s)"
proof (cases "ib_started s")
  case True
  then show ?thesis using assms(3) by (simp add: require_db_def start_inbox_def)
next
  case False
  let ?s1 = "s\<lparr>ib_tasks := map (\<lambda>(k, t). (k, interrupt_task cfg (clock 0) t)) (ib_tasks s)\<rparr>"
  have "inbox_inv ?s1"
    using assms(2) interrupt_ok
    by (auto simp: inbox_inv_def dict_keys_map_values dict_get_map_values simp del: map_map)
  moreover have "holds_row cfg lo k P ?s1"
  proof -
    obtain t where t: "dict_get (ib_tasks s) k = Some t" "P t"
        "\<forall>e. ta_expires_at_ms t = Some e \<longrightarrow> lo + ic_retention_ms cfg \<le> e"
      using assms(3) unfolding holds_row_def by blast
    moreover have "P (interrupt_task cfg (clock 0) t)" using keeps_rowD(1) [OF w] t(2) by (simp add: row_stable_def)
    moreover have "\<forall>e. ta_expires_at_ms (interrupt_task cfg (clock 0) t) = Some e \<longrightarrow> lo + ic_retention_ms cfg \<le> e"
      using t(3) assms(4) by (auto simp: interrupt_task_def clock_between_def)
    ultimately show ?thesis by (simp add: holds_row_def dict_get_map_values)
  qed
  moreover have "clock 1 < hi" using assms(4) by (simp add: clock_between_def)
  moreover have "ib_tasks (require_db cfg clock s) = cleanup_tasks (clock 1) 500 (ib_tasks ?s1)"
    using False by (simp add: require_db_def start_inbox_def Let_def)
  ultimately show ?thesis by (rule holds_cleanup [OF w])
qed

lemma holds_set_other:
  "holds_row cfg lo k P s \<Longrightarrow> k' \<noteq> k \<Longrightarrow> holds_row cfg lo k P (s\<lparr>ib_tasks := dict_set k' t (ib_tasks s)\<rparr>)"
  by (simp add: holds_row_def dict_simps)

lemma holds_transition:
  assumes w: "keeps_row cfg lo hi P" and "inbox_inv s" "holds_row cfg lo k P s" "clock_between lo hi clock" "from \<subseteq> active_statuses"
    and "task_transition cfg clock k' from u s = (s', x)"
  shows "holds_row cfg lo k P s'"
proof -
  let ?s1 = "require_db cfg clock s"
  have s1: "holds_row cfg lo k P ?s1" by (rule holds_start [OF assms(1-4)])
  show ?thesis
  proof (cases "s' = ?s1")
    case False
    then obtain t where t: "dict_get (ib_tasks ?s1) k' = Some t" "ta_status t \<in> from"
      and s': "s' = ?s1\<lparr>ib_tasks := dict_set k' (updated_task cfg u (clock 2) t) (ib_tasks ?s1)\<rparr>"
      using assms(6) by (auto simp: task_transition_def Let_def split: option.splits if_splits)
    show ?thesis
    proof (cases "k' = k")
      case True
      then have "P t" using s1 t(1) by (simp add: holds_row_def)
      then have "P (updated_task cfg u (clock 2) t)" using keeps_rowD(1) [OF w] t(2) assms(5) by (auto simp: row_stable_def)
      moreover have "lo \<le> clock 2" using assms(4) by (simp add: clock_between_def)
      ultimately show ?thesis
        unfolding s' using True by (auto simp: holds_row_def dict_simps updated_task_def Let_def)
    qed (simp add: s' holds_set_other [OF s1])
  qed (simp add: s1)
qed

lemma holds_ops:
  assumes w: "keeps_row cfg lo hi P" and "inbox_inv s" "holds_row cfg lo k P s" "clock_between lo hi clock"
  shows "mark_processing cfg clock k' s = (s', x) \<Longrightarrow> holds_row cfg lo k P s'"
    and "wait_for_approval cfg clock k' p s = (s', x) \<Longrightarrow> holds_row cfg lo k P s'"
    and "resume_after_approval cfg clock k' s = (s', x) \<Longrightarrow> holds_row cfg lo k P s'"
    and "update_progress cfg clock k' p s = (s', x) \<Longrightarrow> holds_row cfg lo k P s'"
    and "fail_task cfg clock k' ec em s = (s', x) \<Longrightarrow> holds_row cfg lo k P s'"
    and "request_cancel cfg clock k' s = (s', x) \<Longrightarrow> holds_row cfg lo k P s'"
    and "cancel_task cfg clock k' em s = (s', x) \<Longrightarrow> holds_row cfg lo k P s'"
  unfolding transition_defs
  by (erule holds_transition [OF assms, rotated], force simp: active_statuses_def)+

lemma holds_succeed:
  assumes w: "keeps_row cfg lo hi P" and "inbox_inv s" "holds_row cfg lo k P s" "clock_between lo hi clock" "succeed_task cfg clock k' result s = (s', x)"
  shows "holds_row cfg lo k P s'"
proof (cases "ic_result_limit_bytes cfg < utf8_length (canonical_json (JObj result))")
  case True
  then show ?thesis
    using assms(5) holds_ops(5) [OF assms(1-4)]
    by (auto simp: succeed_task_def split: prod.splits sum.splits if_splits)
next
  case False
  then have "task_transition cfg clock k' active_statuses
      (no_update\<lparr>up_status := Some TSucceeded, up_result := Some result, up_finished := True\<rparr>) s = (s', x)"
    using assms(5) by (simp add: succeed_task_def)
  then show ?thesis by (rule holds_transition [OF assms(1-4) order.refl])
qed

lemma holds_step:
  assumes w: "keeps_row cfg lo hi P" and "inbox_step cfg sha256 lo hi s s'" and inv: "inbox_inv s" and held: "holds_row cfg lo k P s"
  shows "holds_row cfg lo k P s'"
  using assms(2)
proof cases
  case (step_start clock n)
  then show ?thesis using holds_start [OF w inv held step_start(1)] by (simp add: require_db_def)
next
  case step_close
  then show ?thesis using held by (simp add: close_inbox_def holds_row_def)
next
  case (step_accept clock k' request stored d)
  have s1: "holds_row cfg lo k P (require_db cfg clock s)" by (rule holds_start [OF w inv held step_accept(1)])
  show ?thesis
  proof (cases "s' = s \<or> s' = require_db cfg clock s")
    case False
    then obtain digest rj where none: "dict_get (ib_tasks (require_db cfg clock s)) k' = None"
      and s': "s' = require_db cfg clock s\<lparr>ib_tasks := dict_set k' (accepted_task k' digest rj (clock 2))
          (ib_tasks (require_db cfg clock s))\<rparr>"
      using step_accept(2) by (auto simp: accept_command_def Let_def split: option.splits if_splits prod.splits)
    have "k' \<noteq> k" using none s1 by (auto simp: holds_row_def)
    then show ?thesis unfolding s' by (rule holds_set_other [OF s1])
  qed (use s1 held in auto)
next
  case (step_get clock k' g)
  then show ?thesis
    using holds_start [OF w inv held step_get(1)] held by (auto simp: get_task_def Let_def split: if_splits)
next
  case (step_waiting clock ts)
  then show ?thesis using holds_start [OF w inv held step_waiting(1)] by (auto simp: waiting_approvals_def Let_def)
next
  case (step_cleanup clock limit n)
  then have "ib_tasks s' = cleanup_tasks (clock 2) (nat (max 1 limit)) (ib_tasks (require_db cfg clock s))"
    by (auto simp: cleanup_expired_def Let_def)
  moreover have "clock 2 < hi" using step_cleanup(1) by (simp add: clock_between_def)
  moreover have "inbox_inv (require_db cfg clock s)" using life_start [OF inv] by blast
  ultimately show ?thesis using holds_cleanup [OF w] holds_start [OF w inv held step_cleanup(1)] by blast
qed (rule holds_ops [OF w inv held] holds_succeed [OF w inv held]; assumption)+

lemma holds_steps:
  assumes w: "keeps_row cfg lo hi P" and "(inbox_step cfg sha256 lo hi)\<^sup>*\<^sup>* s s'"
    and "inbox_inv s" and "holds_row cfg lo k P s"
  shows "holds_row cfg lo k P s' \<and> inbox_inv s'"
  using assms(2-4)
  by (induction rule: rtranclp_induct) (auto intro: holds_step [OF w] dest: life_inbox_step)

section \<open>Properties\<close>

definition inbox_reachable :: "inbox_config \<Rightarrow> (string \<Rightarrow> string) \<Rightarrow> inbox \<Rightarrow> bool" where
  "inbox_reachable cfg sha256 s \<longleftrightarrow> (\<lambda>a b. \<exists>lo hi. inbox_step cfg sha256 lo hi a b)\<^sup>*\<^sup>* new_inbox s"

lemma inbox_inv_new: "inbox_inv new_inbox"
  by (simp add: inbox_inv_def new_inbox_def)

lemma inbox_reachable_inv: "inbox_reachable cfg sha256 s \<Longrightarrow> inbox_inv s"
  unfolding inbox_reachable_def
  by (induction rule: rtranclp_induct) (auto simp: inbox_inv_new dest: life_inbox_step)

lemma reconcile_loop_steps:
  assumes "clock_between lo hi clock"
    and "\<And>x t. (inbox_step cfg sha256 lo hi)\<^sup>*\<^sup>* t (fst (checkpoint_exists x t))"
    and "reconcile_loop cfg clock checkpoint_exists ts n s = (s', r)"
  shows "(inbox_step cfg sha256 lo hi)\<^sup>*\<^sup>* s s'"
  using assms(3)
proof (induction ts arbitrary: n s)
  case (Cons t ts)
  obtain s1 found where l: "(if thread_id_of t = [] then (s, False) else checkpoint_exists (thread_id_of t) s) = (s1, found)"
    by fastforce
  then have s1: "(inbox_step cfg sha256 lo hi)\<^sup>*\<^sup>* s s1"
    using assms(2) [of s "thread_id_of t"] by (auto split: if_splits)
  show ?case
  proof (cases found)
    case True
    then show ?thesis using Cons l s1 by (auto intro: rtranclp_trans)
  next
    case False
    obtain s2 x where f: "fail_task cfg clock (ta_key t) ''CHECKPOINT_UNAVAILABLE''
        ''Pending approval checkpoint is unavailable after restart'' s1 = (s2, x)" by fastforce
    have "(inbox_step cfg sha256 lo hi)\<^sup>*\<^sup>* s s2"
      using s1 inbox_step.step_fail [OF assms(1) f] by (rule rtranclp.rtrancl_into_rtrancl)
    then show ?thesis
      using Cons.prems Cons.IH l f False by (cases x) (auto intro: rtranclp_trans)
  qed
qed simp

text \<open>
  C21. Refinement.  Seen through the status of each task, every call on a reachable inbox, a restart
  and a cleanup included, is a sequence of steps of the abstract life cycle: a task begins once,
  moves along the edges of its life, is interrupted by a restart unless it waits for approval, and
  is removed only after it has ended.  The reconciliation of pending approvals, during whose lookups
  other calls may run, is a sequence of such calls.
\<close>

theorem inbox_refines_life:
  assumes "inbox_reachable cfg sha256 s" and "inbox_step cfg sha256 lo hi s s'"
  shows "life_step\<^sup>*\<^sup>* (life_of s) (life_of s') \<and>
    (\<forall>k t. dict_get (ib_tasks s') k = Some t \<longrightarrow>
       ta_key t = k \<and> (ta_expires_at_ms t \<noteq> None \<longleftrightarrow> ta_status t \<in> terminal_statuses)) \<and>
    (\<forall>clock checkpoint_exists s'' r. clock_between lo hi clock \<longrightarrow>
       (\<forall>x t. (inbox_step cfg sha256 lo hi)\<^sup>*\<^sup>* t (fst (checkpoint_exists x t))) \<longrightarrow>
       reconcile_waiting_approvals cfg clock checkpoint_exists s' = (s'', r) \<longrightarrow>
       (inbox_step cfg sha256 lo hi)\<^sup>*\<^sup>* s' s'' \<and> life_step\<^sup>*\<^sup>* (life_of s') (life_of s''))"
proof (intro conjI allI impI)
  have inv: "inbox_inv s" using assms(1) by (rule inbox_reachable_inv)
  note s' = life_inbox_step [OF assms(2) inv]
  show "life_step\<^sup>*\<^sup>* (life_of s) (life_of s')" using s' by blast
  show "ta_key t = k" "ta_expires_at_ms t \<noteq> None \<longleftrightarrow> ta_status t \<in> terminal_statuses"
    if "dict_get (ib_tasks s') k = Some t" for k t
    using s' that by (simp_all add: inbox_inv_def task_ok_def)
  fix clock checkpoint_exists s'' r
  assume c: "clock_between lo hi clock"
    and other: "\<forall>x t. (inbox_step cfg sha256 lo hi)\<^sup>*\<^sup>* t (fst (checkpoint_exists x t))"
    and r: "reconcile_waiting_approvals cfg clock checkpoint_exists s' = (s'', r)"
  obtain s1 ts where w: "waiting_approvals cfg clock s' = (s1, ts)" by fastforce
  have "inbox_step cfg sha256 lo hi s' s1" using c w by (rule inbox_step.step_waiting)
  moreover have "(inbox_step cfg sha256 lo hi)\<^sup>*\<^sup>* s1 s''"
    using reconcile_loop_steps [OF c] other r w by (simp add: reconcile_waiting_approvals_def) blast
  ultimately show st: "(inbox_step cfg sha256 lo hi)\<^sup>*\<^sup>* s' s''" by (rule converse_rtranclp_into_rtranclp)
  have "life_step\<^sup>*\<^sup>* (life_of s') (life_of s'') \<and> inbox_inv s''"
    using st
  proof (induction rule: rtranclp_induct)
    case base
    then show ?case using s' by simp
  next
    case (step a b)
    then show ?case using life_inbox_step [of cfg sha256 lo hi a b] by (auto intro: rtranclp_trans)
  qed
  then show "life_step\<^sup>*\<^sup>* (life_of s') (life_of s'')" by blast
qed

text \<open>
  C20. At most one execution.  After a command was accepted for execution, no call accepts it again
  while the clock stays within the retention period of the acceptance, whatever happens in between,
  restarts included: a request with another hash is a conflict, the same request is answered from
  the state of the task, and a request object that only orders its fields differently is the same
  request.  A task that has ended is then answered with exactly the same row each time.
\<close>

theorem accepted_executes_once:
  assumes reach: "inbox_reachable cfg sha256 s" and clocks: "clock_between lo hi clock" "clock_between lo hi clock2"
    and acc: "accept_command cfg sha256 clock k request stored s = (s1, Inr (Execute, t1))"
    and steps: "(inbox_step cfg sha256 lo hi)\<^sup>*\<^sup>* s1 s2" and window: "hi \<le> lo + ic_retention_ms cfg"
  shows "\<exists>s3 d t. accept_command cfg sha256 clock2 k request2 stored2 s2 = (s3, Inr (d, t)) \<and> d \<noteq> Execute \<and>
    d = (if sha256 (canonical_json request2) \<noteq> sha256 (canonical_json request) then Conflict
         else decision_for_existing t) \<and>
    (\<forall>a b. request = JObj a \<and> request2 = JObj b \<and> mset a = mset b \<and> distinct (dict_keys a) \<longrightarrow> d \<noteq> Conflict) \<and>
    (ta_status t \<in> terminal_statuses \<longrightarrow>
       (\<forall>s4. (inbox_step cfg sha256 lo hi)\<^sup>*\<^sup>* s3 s4 \<longrightarrow> dict_get (ib_tasks s4) k = Some t))"
proof -
  let ?h = "sha256 (canonical_json request)"
  have key: "validate_key k" using acc by (auto simp: accept_command_def split: if_splits)
  have "inbox_step cfg sha256 lo hi s s1" using clocks(1) acc by (rule inbox_step.step_accept)
  then have inv1: "inbox_inv s1" using life_inbox_step inbox_reachable_inv [OF reach] by blast
  have "dict_get (ib_tasks s1) k = Some t1" "ta_request_hash t1 = ?h" "ta_expires_at_ms t1 = None"
    using acc by (auto simp: accept_command_def Let_def request_fingerprint_def accepted_task_def dict_simps
        decision_for_existing_def split: if_splits option.splits prod.splits)
  then have "holds_row cfg lo k (\<lambda>t. ta_request_hash t = ?h) s1" by (simp add: holds_row_def)
  moreover have w: "keeps_row cfg lo hi (\<lambda>t. ta_request_hash t = ?h)"
    using window hash_stable by (simp add: keeps_row_def)
  ultimately have "holds_row cfg lo k (\<lambda>t. ta_request_hash t = ?h) s2" and inv2: "inbox_inv s2"
    using holds_steps [OF w steps inv1] by blast+
  then have "holds_row cfg lo k (\<lambda>t. ta_request_hash t = ?h) (require_db cfg clock2 s2)"
    using holds_start [OF w _ _ clocks(2)] by blast
  then obtain t where t: "dict_get (ib_tasks (require_db cfg clock2 s2)) k = Some t" "ta_request_hash t = ?h"
      "\<forall>e. ta_expires_at_ms t = Some e \<longrightarrow> lo + ic_retention_ms cfg \<le> e"
    unfolding holds_row_def by blast
  let ?s3 = "require_db cfg clock2 s2"
  let ?d = "if sha256 (canonical_json request2) \<noteq> ?h then Conflict else decision_for_existing t"
  have "accept_command cfg sha256 clock2 k request2 stored2 s2 = (?s3, Inr (?d, t))"
    using key t(1,2) by (auto simp: accept_command_def Let_def request_fingerprint_def)
  moreover have "decision_for_existing t \<noteq> Execute" "decision_for_existing t \<noteq> Conflict"
    by (simp_all add: decision_for_existing_def)
  moreover have "\<forall>a b. request = JObj a \<and> request2 = JObj b \<and> mset a = mset b \<and> distinct (dict_keys a) \<longrightarrow> ?d \<noteq> Conflict"
  proof (intro allI impI)
    fix a b assume "request = JObj a \<and> request2 = JObj b \<and> mset a = mset b \<and> distinct (dict_keys a)"
    then have "canonical_json request2 = canonical_json request" using canonical_json_perm [of a b] by simp
    then show "?d \<noteq> Conflict" using \<open>decision_for_existing t \<noteq> Conflict\<close> by simp
  qed
  moreover have "dict_get (ib_tasks s4) k = Some t"
    if "ta_status t \<in> terminal_statuses" "(inbox_step cfg sha256 lo hi)\<^sup>*\<^sup>* ?s3 s4" for s4
  proof -
    have "keeps_row cfg lo hi (\<lambda>x. x = t)" using window terminal_stable [OF that(1)] by (simp add: keeps_row_def)
    moreover have "holds_row cfg lo k (\<lambda>x. x = t) ?s3" using t by (simp add: holds_row_def)
    moreover have "inbox_inv ?s3" using life_start [OF inv2] by blast
    ultimately have "holds_row cfg lo k (\<lambda>x. x = t) s4" using holds_steps that(2) by blast
    then show ?thesis by (auto simp: holds_row_def)
  qed
  ultimately show ?thesis by (intro exI [of _ ?s3] exI [of _ ?d] exI [of _ t]) simp
qed

definition example_config :: inbox_config where
  "example_config = inbox_config_of 1 2048"

definition example_key :: task_key where
  "example_key = \<lparr>tk_scope = ''owner'', tk_kind = ''draw'', tk_task_id = ''t1''\<rparr>"

definition example_task :: command_task where
  "example_task = accepted_task example_key (canonical_json (JInt 1)) (canonical_json (JInt 1)) 10"

definition example_inbox :: inbox where
  "example_inbox = \<lparr>ib_tasks = [(example_key, example_task)], ib_started = True\<rparr>"

lemma example_clock: "clock_between 10 1010 (\<lambda>k. 10)"
  by (simp add: clock_between_def)

lemma example_accept:
  "accept_command example_config (\<lambda>x. x) (\<lambda>k. 10) example_key (JInt 1) None new_inbox = (example_inbox, Inr (Execute, example_task))"
  by code_simp

lemma inbox_reachable_new: "inbox_reachable cfg sha256 new_inbox"
  by (simp add: inbox_reachable_def)

theorem inbox_refines_life_witness:
  "life_step\<^sup>*\<^sup>* (life_of new_inbox) (life_of example_inbox)"
  using inbox_refines_life [OF inbox_reachable_new inbox_step.step_accept [OF example_clock example_accept]] by blast

theorem accepted_executes_once_witness:
  "\<exists>s3 d t. accept_command example_config (\<lambda>x. x) (\<lambda>k. 10) example_key (JInt 2) None example_inbox = (s3, Inr (d, t)) \<and>
     d = Conflict"
proof -
  have "canonical_json (JInt 2) \<noteq> canonical_json (JInt 1)" by code_simp
  moreover have "(1010::int) \<le> 10 + ic_retention_ms example_config"
    by (simp add: example_config_def inbox_config_of_def)
  ultimately show ?thesis
    using accepted_executes_once [OF inbox_reachable_new example_clock example_clock example_accept rtranclp.rtrancl_refl,
        of "JInt 2" None] by auto
qed

end
