(* ===== verification/Failover_TTS.thy ===== *)
theory Failover_TTS
  imports Py_Text
begin

text \<open>
  The cloud-first speech synthesis of \<open>services/tts/failover_tts.py\<close>: a circuit breaker in front of
  the primary backend, retries before the first audio, and the local fallback.  A backend is a
  script: the chunks that its stream yields and how it ends.  The consumer of the stream may close
  it at any chunk, which raises \<open>GeneratorExit\<close> inside.  \<open>env\<close> is what other syntheses do to the
  shared state while this one waits: \<open>env 0\<close> until the first audio of the primary, \<open>env 1\<close> during
  the rest of its stream, \<open>env 2\<close> while the fallback speaks.  \<open>clock k\<close> is the k-th reading of the
  clock.  Seconds are exact rationals; the process-wide metrics are not modelled.
\<close>

section \<open>State\<close>

datatype circuit_state = Closed | HalfOpen | Open

datatype backend = PrimaryBackend | FallbackBackend

text \<open>What an exception tells: its \<open>category\<close> and \<open>retryable\<close> attributes, if it has them, and its class.\<close>

record child_error =
  ce_category :: "string option"
  ce_retryable :: "bool option"
  ce_timeout :: bool
  ce_connection :: bool

datatype tts_exception =
    ChildError child_error
  | EmptyPrimaryAudio
  | TtsUnavailable string
  | TtsCancelled
  | GeneratorExit
  | PathWithoutRequest

record failover =
  fo_circuit :: circuit_state
  fo_opened_at :: "rat option"
  fo_primary_ready :: bool
  fo_fallback_ready :: bool
  fo_primary_error :: "string option"
  fo_fallback_error :: "string option"
  fo_switch_counts :: "(string, int) dict"
  fo_last_first_audio :: "(backend, rat) dict"
  fo_last_rtf :: "(backend, rat) dict"

record failover_config =
  fc_cooldown_seconds :: rat
  fc_pre_audio_retries :: nat

definition new_failover :: failover where
  "new_failover =
     \<lparr>fo_circuit = Closed, fo_opened_at = None, fo_primary_ready = False, fo_fallback_ready = False,
      fo_primary_error = Some ''not_preloaded'', fo_fallback_error = Some ''not_preloaded'',
      fo_switch_counts = [], fo_last_first_audio = [], fo_last_rtf = []\<rparr>"

section \<open>Errors\<close>

fun error_category :: "tts_exception \<Rightarrow> string" where
  "error_category (ChildError e) =
     (case ce_category e of
        Some (c # cs) \<Rightarrow> c # cs
      | _ \<Rightarrow> if ce_timeout e then ''timeout'' else ''provider_error'')"
| "error_category EmptyPrimaryAudio = ''empty_audio''"
| "error_category _ = ''provider_error''"

fun is_retryable :: "tts_exception \<Rightarrow> bool" where
  "is_retryable (ChildError e) =
     (case ce_retryable e of Some b \<Rightarrow> b | None \<Rightarrow> ce_timeout e \<or> ce_connection e)"
| "is_retryable EmptyPrimaryAudio = True"
| "is_retryable _ = False"

definition metric_reasons :: "string list" where
  "metric_reasons =
     [''authentication'', ''billing'', ''connection'', ''empty_audio'', ''identity_mismatch'',
      ''incompatible_contract'', ''provider_error'', ''timeout'']"

definition metric_reason :: "string \<Rightarrow> string" where
  "metric_reason category = (if category \<in> set metric_reasons then category else ''other'')"

section \<open>The circuit breaker\<close>

text \<open>Whether the primary may be used, and whether this use is a probe; \<open>None\<close> is the failed assertion.\<close>

definition select_primary :: "failover_config \<Rightarrow> rat \<Rightarrow> failover \<Rightarrow> (failover \<times> bool \<times> bool) option" where
  "select_primary cfg now s =
     (case fo_circuit s of
        Closed \<Rightarrow> Some (s, fo_primary_ready s, False)
      | HalfOpen \<Rightarrow> Some (s, False, False)
      | Open \<Rightarrow>
          (case fo_opened_at s of
             None \<Rightarrow> None
           | Some t \<Rightarrow>
               if now - t < fc_cooldown_seconds cfg then Some (s, False, False)
               else Some (s\<lparr>fo_circuit := HalfOpen\<rparr>, True, True)))"

definition record_primary_failure :: "string \<Rightarrow> rat \<Rightarrow> failover \<Rightarrow> failover" where
  "record_primary_failure category now s =
     s\<lparr>fo_primary_error := Some category, fo_circuit := Open, fo_opened_at := Some now\<rparr>"

definition record_primary_success :: "failover \<Rightarrow> failover" where
  "record_primary_success s =
     s\<lparr>fo_primary_error := None, fo_primary_ready := True, fo_circuit := Closed, fo_opened_at := None\<rparr>"

definition record_fallback_failure :: "string \<Rightarrow> failover \<Rightarrow> failover" where
  "record_fallback_failure category s = s\<lparr>fo_fallback_ready := False, fo_fallback_error := Some category\<rparr>"

definition record_fallback_success :: "failover \<Rightarrow> failover" where
  "record_fallback_success s = s\<lparr>fo_fallback_ready := True, fo_fallback_error := None\<rparr>"

definition record_switch :: "string \<Rightarrow> failover \<Rightarrow> failover" where
  "record_switch category s = s\<lparr>fo_switch_counts := dict_add (metric_reason category) 1 (fo_switch_counts s)\<rparr>"

definition observe_first_audio :: "backend \<Rightarrow> rat \<Rightarrow> failover \<Rightarrow> failover" where
  "observe_first_audio b seconds s = s\<lparr>fo_last_first_audio := dict_set b seconds (fo_last_first_audio s)\<rparr>"

definition sample_rate :: rat where
  "sample_rate = 24000"

definition observe_rtf :: "backend \<Rightarrow> rat \<Rightarrow> rat \<Rightarrow> nat \<Rightarrow> failover \<Rightarrow> failover" where
  "observe_rtf b started now pcm_bytes s =
     (let audio_seconds = of_nat pcm_bytes / (2 * sample_rate) in
      if audio_seconds \<le> 0 then s
      else s\<lparr>fo_last_rtf := dict_set b (max 0 (now - started) / audio_seconds) (fo_last_rtf s)\<rparr>)"

text \<open>\<open>preload\<close> with the results of the two backends: \<open>None\<close> is success.\<close>

definition preload_failover ::
  "tts_exception option \<Rightarrow> tts_exception option \<Rightarrow> rat \<Rightarrow> failover \<Rightarrow> failover \<times> (tts_exception + unit)" where
  "preload_failover primary fallback now s =
     (let s1 = s\<lparr>fo_primary_ready := (primary = None), fo_primary_error := map_option error_category primary,
                 fo_fallback_ready := (fallback = None), fo_fallback_error := map_option error_category fallback\<rparr>;
          s2 = (if primary \<noteq> None then s1\<lparr>fo_circuit := Open, fo_opened_at := Some now\<rparr> else s1)
      in (s2, if primary \<noteq> None \<and> fallback \<noteq> None then Inl (TtsUnavailable ''No TTS backend is ready'')
              else Inr ()))"

section \<open>Streaming\<close>

type_synonym chunk = string

text \<open>A backend's stream: its chunks, and \<open>None\<close> when it is exhausted or the exception it ends with.\<close>

type_synonym script = "chunk list \<times> tts_exception option"

record session =
  se_state :: failover
  se_chunks :: "chunk list"
  se_backend :: "backend option"
  se_error :: "tts_exception option"

text \<open>
  The consumer closes the generator at its n-th chunk (\<open>Some n\<close>) or reads to the end (\<open>None\<close>).  The
  chunks that a suffix of a script delivers after \<open>k\<close> were delivered, and how it ends for the reader.
\<close>

fun deliver :: "nat option \<Rightarrow> nat \<Rightarrow> chunk list \<Rightarrow> tts_exception option \<Rightarrow> chunk list \<times> tts_exception option" where
  "deliver stop k [] ending = ([], ending)"
| "deliver stop k (c # cs) ending =
     (if stop = Some (Suc k) then ([c], Some GeneratorExit)
      else (case deliver stop (Suc k) cs ending of (out, e) \<Rightarrow> (c # out, e)))"

definition pcm_length :: "chunk list \<Rightarrow> nat" where
  "pcm_length cs = sum_list (map length cs)"

definition fallback_stream ::
  "(nat \<Rightarrow> failover \<Rightarrow> failover) \<Rightarrow> (nat \<Rightarrow> rat) \<Rightarrow> script \<Rightarrow> nat option \<Rightarrow> failover \<Rightarrow> session" where
  "fallback_stream env clock fallback stop s =
     (case deliver stop 0 (fst fallback) (snd fallback) of
        (out, ending) \<Rightarrow>
          (let s1 = env 2 (if out = [] then s else observe_first_audio FallbackBackend (max 0 (clock 4 - clock 3)) s);
               result = (\<lambda>s' e. \<lparr>se_state = s', se_chunks = out, se_backend = Some FallbackBackend, se_error = e\<rparr>)
           in case ending of
                Some TtsCancelled \<Rightarrow> result s1 (Some TtsCancelled)
              | Some e \<Rightarrow> result (record_fallback_failure (error_category e) s1) (Some e)
              | None \<Rightarrow>
                  if out = []
                  then result (record_fallback_failure ''empty_audio'' s1)
                         (Some (TtsUnavailable ''Fallback TTS returned no audio''))
                  else result (observe_rtf FallbackBackend (clock 3) (clock 5) (pcm_length out)
                                 (record_fallback_success s1)) None))"

text \<open>The rest of the primary's stream after its first chunk was yielded.\<close>

definition primary_rest ::
  "(nat \<Rightarrow> failover \<Rightarrow> failover) \<Rightarrow> (nat \<Rightarrow> rat) \<Rightarrow> bool \<Rightarrow> chunk \<Rightarrow> chunk list \<Rightarrow> tts_exception option \<Rightarrow>
   nat option \<Rightarrow> failover \<Rightarrow> session" where
  "primary_rest env clock probe first rest ending stop s =
     (case deliver stop 1 rest ending of
        (out, e) \<Rightarrow>
          (let s1 = env 1 s;
               result = (\<lambda>s' e. \<lparr>se_state = s', se_chunks = first # out, se_backend = Some PrimaryBackend, se_error = e\<rparr>)
           in case e of
                Some TtsCancelled \<Rightarrow> result s1 (Some TtsCancelled)
              | Some x \<Rightarrow> result (record_primary_failure (error_category x) (clock 6) s1) (Some x)
              | None \<Rightarrow>
                  (let s2 = observe_rtf PrimaryBackend (clock 1) (clock 6) (pcm_length (first # out)) s1
                   in result (if probe then record_primary_success s2 else s2) None)))"

text \<open>
  The attempts: a script for each; the last error so far.  \<open>Inr\<close> is a finished session, \<open>Inl\<close> the
  error with which the primary is given up before any audio.
\<close>

fun primary_attempts ::
  "(nat \<Rightarrow> failover \<Rightarrow> failover) \<Rightarrow> (nat \<Rightarrow> rat) \<Rightarrow> bool \<Rightarrow> script list \<Rightarrow> nat option \<Rightarrow> failover \<Rightarrow>
   tts_exception + session" where
  "primary_attempts env clock probe [] stop s = Inl EmptyPrimaryAudio"
| "primary_attempts env clock probe ((chunks, ending) # later) stop s =
     (case chunks of
        first # rest \<Rightarrow>
          (let s1 = observe_first_audio PrimaryBackend (max 0 (clock 2 - clock 1)) s in
           if stop = Some 1
           then Inr \<lparr>se_state = s1, se_chunks = [first], se_backend = Some PrimaryBackend,
                     se_error = Some GeneratorExit\<rparr>
           else Inr (primary_rest env clock probe first rest ending stop s1))
      | [] \<Rightarrow>
          (case ending of
             Some TtsCancelled \<Rightarrow>
               Inr \<lparr>se_state = (if probe then record_primary_failure ''cancelled'' (clock 6) s else s),
                    se_chunks = [], se_backend = None, se_error = Some TtsCancelled\<rparr>
           | _ \<Rightarrow>
               (let last_error = (case ending of None \<Rightarrow> EmptyPrimaryAudio | Some e \<Rightarrow> e) in
                if later \<noteq> [] \<and> is_retryable last_error
                then primary_attempts env clock probe later stop s
                else Inl last_error)))"

definition synthesize_stream ::
  "failover_config \<Rightarrow> (nat \<Rightarrow> failover \<Rightarrow> failover) \<Rightarrow> (nat \<Rightarrow> rat) \<Rightarrow> (nat \<Rightarrow> script) \<Rightarrow> script \<Rightarrow> nat option \<Rightarrow>
   failover \<Rightarrow> session option" where
  "synthesize_stream cfg env clock primary fallback stop s =
     (case select_primary cfg (clock 0) s of
        None \<Rightarrow> None
      | Some (s1, use_primary, probe) \<Rightarrow>
          if \<not> use_primary then Some (fallback_stream env clock fallback stop s1)
          else
            (case primary_attempts env clock probe (map primary [0..<fc_pre_audio_retries cfg + 1]) stop (env 0 s1) of
               Inr result \<Rightarrow> Some result
             | Inl e \<Rightarrow>
                 Some (fallback_stream env clock fallback stop
                   (record_switch (error_category e)
                     (record_primary_failure (error_category e) (clock 6) (env 0 s1))))))"

section \<open>Whole utterances\<close>

datatype audio = AudioBytes string | AudioPath string

text \<open>Writing the file is not modelled, only the result and the refusal.\<close>

definition write_if_requested :: "audio \<Rightarrow> string option \<Rightarrow> tts_exception + audio" where
  "write_if_requested result output_path =
     (case output_path of
        None \<Rightarrow> Inr result
      | Some path \<Rightarrow> (case result of AudioBytes b \<Rightarrow> Inr (AudioPath path) | AudioPath p \<Rightarrow> Inl PathWithoutRequest))"

fun whole_attempts :: "(tts_exception + audio) list \<Rightarrow> tts_exception + audio" where
  "whole_attempts [] = Inl EmptyPrimaryAudio"
| "whole_attempts (r # later) =
     (case r of
        Inr a \<Rightarrow> Inr a
      | Inl e \<Rightarrow> if e \<noteq> TtsCancelled \<and> later \<noteq> [] \<and> is_retryable e then whole_attempts later else Inl e)"

definition whole_fallback ::
  "(nat \<Rightarrow> failover \<Rightarrow> failover) \<Rightarrow> tts_exception + audio \<Rightarrow> string option \<Rightarrow> failover \<Rightarrow>
   failover \<times> (tts_exception + audio)" where
  "whole_fallback env fallback output_path s =
     (case fallback of
        Inl TtsCancelled \<Rightarrow> (env 2 s, Inl TtsCancelled)
      | Inl e \<Rightarrow> (record_fallback_failure (error_category e) (env 2 s), Inl e)
      | Inr a \<Rightarrow> (record_fallback_success (env 2 s), write_if_requested a output_path))"

definition synthesize ::
  "failover_config \<Rightarrow> (nat \<Rightarrow> failover \<Rightarrow> failover) \<Rightarrow> (nat \<Rightarrow> rat) \<Rightarrow> (nat \<Rightarrow> tts_exception + audio) \<Rightarrow>
   tts_exception + audio \<Rightarrow> string option \<Rightarrow> failover \<Rightarrow> (failover \<times> (tts_exception + audio)) option" where
  "synthesize cfg env clock primary fallback output_path s =
     (case select_primary cfg (clock 0) s of
        None \<Rightarrow> None
      | Some (s1, use_primary, probe) \<Rightarrow>
          if \<not> use_primary then Some (whole_fallback env fallback output_path s1)
          else
            (let s2 = env 0 s1 in
             case whole_attempts (map primary [0..<fc_pre_audio_retries cfg + 1]) of
               Inr a \<Rightarrow> Some (if probe then record_primary_success s2 else s2, write_if_requested a output_path)
             | Inl TtsCancelled \<Rightarrow>
                 Some (if probe then record_primary_failure ''cancelled'' (clock 1) s2 else s2, Inl TtsCancelled)
             | Inl e \<Rightarrow>
                 Some (whole_fallback env fallback output_path
                   (record_switch (error_category e) (record_primary_failure (error_category e) (clock 1) s2)))))"

section \<open>Readiness\<close>

record readiness_view =
  rv_ready :: bool
  rv_degraded :: bool
  rv_active_backend :: "backend option"
  rv_cooldown_remaining :: rat

definition readiness_snapshot :: "failover_config \<Rightarrow> rat \<Rightarrow> failover \<Rightarrow> readiness_view" where
  "readiness_snapshot cfg now s =
     (let ready = fo_primary_ready s \<or> fo_fallback_ready s in
      \<lparr>rv_ready = ready,
       rv_degraded = (ready \<and> (\<not> (fo_primary_ready s \<and> fo_fallback_ready s) \<or> fo_circuit s \<noteq> Closed)),
       rv_active_backend =
         (if fo_primary_ready s \<and> fo_circuit s = Closed then Some PrimaryBackend
          else if fo_fallback_ready s then Some FallbackBackend else None),
       rv_cooldown_remaining =
         (case (fo_circuit s, fo_opened_at s) of
            (Open, Some t) \<Rightarrow> max 0 (fc_cooldown_seconds cfg - (now - t))
          | _ \<Rightarrow> 0)\<rparr>)"

end
