(* ===== verification/Failover_Properties.thy ===== *)
theory Failover_Properties
  imports Failover_TTS "HOL-Library.Sublist"
begin

text \<open>
  Properties of the failover synthesis: an utterance is bound to one backend by its first audio,
  the circuit follows the outcome, and what abandoning a stream does to the circuit.
\<close>

section \<open>Delivery\<close>

lemma deliver_prefix: "deliver stop k cs ending = (out, e) \<Longrightarrow> prefix out cs"
  by (induction stop k cs ending arbitrary: out e rule: deliver.induct) (auto split: if_splits prod.splits)

lemma deliver_complete: "deliver stop k cs ending = (out, None) \<Longrightarrow> out = cs \<and> ending = None"
  by (induction stop k cs ending arbitrary: out rule: deliver.induct) (auto split: if_splits prod.splits)

lemma deliver_all: "deliver None k cs ending = (cs, ending)"
  by (induction "None :: nat option" k cs ending rule: deliver.induct) auto

lemma deliver_stopped:
  "k < n \<Longrightarrow> n \<le> k + length cs \<Longrightarrow> deliver (Some n) k cs ending = (take (n - k) cs, Some GeneratorExit)"
proof (induction cs arbitrary: k)
  case (Cons c cs)
  show ?case
  proof (cases "n = Suc k")
    case False
    then have "n - k = Suc (n - Suc k)" using Cons.prems by simp
    then show ?thesis using Cons.IH [of "Suc k"] Cons.prems False by simp
  qed simp
qed simp

section \<open>Sessions\<close>

lemma fallback_session:
  assumes "fallback_stream env clock fallback stop s = r"
  shows "se_backend r = Some FallbackBackend" "prefix (se_chunks r) (fst fallback)"
    and "se_error r = None \<Longrightarrow> se_chunks r = fst fallback \<and> fst fallback \<noteq> [] \<and> fo_fallback_ready (se_state r)"
  using assms deliver_prefix deliver_complete
  by (auto simp: fallback_stream_def Let_def record_fallback_success_def observe_rtf_def
      split: prod.splits option.splits tts_exception.splits if_splits)

lemma primary_rest_session:
  assumes "primary_rest env clock probe first rest ending stop s = r"
  shows "se_backend r = Some PrimaryBackend" "prefix (se_chunks r) (first # rest)" "se_chunks r \<noteq> []"
    and "se_error r = None \<Longrightarrow> se_chunks r = first # rest \<and> ending = None"
  using assms deliver_prefix deliver_complete
  by (auto simp: primary_rest_def Let_def split: prod.splits option.splits tts_exception.splits if_splits)

text \<open>The error of a script without audio, and the step that the attempts take over it.\<close>

definition silent_error :: "tts_exception option \<Rightarrow> tts_exception" where
  "silent_error ending = (case ending of None \<Rightarrow> EmptyPrimaryAudio | Some e \<Rightarrow> e)"

lemma attempts_silent:
  "ending \<noteq> Some TtsCancelled \<Longrightarrow>
   primary_attempts env clock probe (([], ending) # later) stop s =
     (if later \<noteq> [] \<and> is_retryable (silent_error ending) then primary_attempts env clock probe later stop s
      else Inl (silent_error ending))"
  by (auto simp: silent_error_def Let_def split: option.splits tts_exception.splits)

text \<open>The attempts end with the first script that has audio or is cancelled, or give up.\<close>

definition attempt_result :: "session \<Rightarrow> script \<Rightarrow> bool" where
  "attempt_result r script \<longleftrightarrow>
     se_backend r = None \<and> se_chunks r = [] \<and> se_error r = Some TtsCancelled \<or>
     se_backend r = Some PrimaryBackend \<and> se_chunks r \<noteq> [] \<and> prefix (se_chunks r) (fst script) \<and>
     (se_error r = None \<longrightarrow> se_chunks r = fst script \<and> snd script = None)"

lemma attempts_session:
  assumes "primary_attempts env clock probe scripts stop s = Inr r"
  shows "\<exists>i<length scripts. (\<forall>j<i. fst (scripts ! j) = []) \<and> attempt_result r (scripts ! i)"
  using assms
proof (induction scripts)
  case (Cons script later)
  obtain chunks ending where sc: "script = (chunks, ending)" by fastforce
  show ?case
  proof (cases chunks)
    case (Cons first rest)
    have "attempt_result r script"
    proof (cases "stop = Some 1")
      case False
      then have "primary_rest env clock probe first rest ending stop
          (observe_first_audio PrimaryBackend (max 0 (clock 2 - clock 1)) s) = r"
        using Cons.prems sc Cons by (simp add: Let_def)
      from primary_rest_session [OF this] show ?thesis using sc Cons by (simp add: attempt_result_def)
    qed (use Cons.prems sc Cons in \<open>auto simp: Let_def attempt_result_def\<close>)
    then show ?thesis by (intro exI [of _ 0]) simp
  next
    case Nil
    show ?thesis
    proof (cases "ending = Some TtsCancelled")
      case True
      then show ?thesis using Cons.prems sc Nil by (intro exI [of _ 0]) (auto simp: attempt_result_def)
    next
      case False
      then have "primary_attempts env clock probe later stop s = Inr r"
        using Cons.prems attempts_silent [OF False] unfolding sc Nil by (simp split: if_splits del: primary_attempts.simps)
      from Cons.IH [OF this] obtain i where i: "i < length later" "\<forall>j<i. fst (later ! j) = []"
        "attempt_result r (later ! i)" by blast
      moreover have "\<forall>j<Suc i. fst ((script # later) ! j) = []"
        using i(2) sc Nil by (simp only: All_less_Suc2) simp
      ultimately show ?thesis by (intro exI [of _ "Suc i"]) simp
    qed
  qed
qed simp

lemma attempts_give_up:
  "primary_attempts env clock probe scripts stop s = Inl e \<Longrightarrow> scripts \<noteq> [] \<Longrightarrow>
   \<exists>i<length scripts. (\<forall>j<Suc i. fst (scripts ! j) = []) \<and> e = silent_error (snd (scripts ! i)) \<and>
     (Suc i = length scripts \<or> \<not> is_retryable e)"
proof (induction scripts)
  case (Cons script later)
  obtain chunks ending where sc: "script = (chunks, ending)" by fastforce
  have nil: "chunks = []" using Cons.prems(1) sc by (auto simp: Let_def split: list.splits if_splits)
  have nc: "ending \<noteq> Some TtsCancelled" using Cons.prems(1) sc nil by auto
  note st = attempts_silent [OF nc, of env clock probe later stop s]
  show ?case
  proof (cases "later \<noteq> [] \<and> is_retryable (silent_error ending)")
    case False
    have "primary_attempts env clock probe (script # later) stop s = Inl (silent_error ending)"
      unfolding sc nil st by (simp only: False if_False)
    then have "e = silent_error ending" using Cons.prems(1) by (simp only: sum.inject)
    then show ?thesis using sc nil False by (intro exI [of _ 0]) auto
  next
    case True
    then have "primary_attempts env clock probe later stop s = Inl e"
      using Cons.prems(1) st unfolding sc nil by (simp del: primary_attempts.simps)
    from Cons.IH [OF this] True obtain i where i: "i < length later" "\<forall>j<Suc i. fst (later ! j) = []"
      "e = silent_error (snd (later ! i))" "Suc i = length later \<or> \<not> is_retryable e" by blast
    moreover have "\<forall>j<Suc (Suc i). fst ((script # later) ! j) = []"
      using i(2) sc nil by (simp only: All_less_Suc2) simp
    ultimately show ?thesis by (intro exI [of _ "Suc i"]) simp
  qed
qed simp

section \<open>Properties\<close>

definition primary_allowed :: "failover_config \<Rightarrow> rat \<Rightarrow> failover \<Rightarrow> bool" where
  "primary_allowed cfg now s \<longleftrightarrow>
     fo_circuit s = Closed \<and> fo_primary_ready s \<or>
     fo_circuit s = Open \<and> (\<exists>t. fo_opened_at s = Some t \<and> fc_cooldown_seconds cfg \<le> now - t)"

lemma select_primary_allowed:
  "select_primary cfg now s = Some (s1, up, probe) \<Longrightarrow> up \<longleftrightarrow> primary_allowed cfg now s"
  by (auto simp: select_primary_def primary_allowed_def split: circuit_state.splits option.splits if_splits)

text \<open>
  C22. An utterance is bound to one backend by its first audio.  What the consumer receives is a
  prefix of a single stream: either of one attempt of the primary, all earlier attempts of which were
  silent, or of the fallback.  The fallback speaks only when the circuit does not allow the primary
  or when every attempt up to the last allowed one, or up to an error that may not be retried, ended
  without audio.  A session that ends without an error delivered the whole stream, which is not empty.
\<close>

theorem utterance_bound_to_backend:
  assumes "synthesize_stream cfg env clock primary fallback stop s = Some r"
  shows "se_backend r = Some FallbackBackend \<and> prefix (se_chunks r) (fst fallback) \<and>
      (se_error r = None \<longrightarrow> se_chunks r = fst fallback \<and> fst fallback \<noteq> []) \<and>
      (primary_allowed cfg (clock 0) s \<longrightarrow>
         (\<exists>i\<le>fc_pre_audio_retries cfg. (\<forall>j\<le>i. fst (primary j) = []) \<and>
            (i = fc_pre_audio_retries cfg \<or> \<not> is_retryable (silent_error (snd (primary i))))))
    \<or> primary_allowed cfg (clock 0) s \<and>
      (\<exists>i\<le>fc_pre_audio_retries cfg. (\<forall>j<i. fst (primary j) = []) \<and> attempt_result r (primary i))"
proof -
  let ?n = "fc_pre_audio_retries cfg"
  let ?scripts = "map primary [0..<?n + 1]"
  have nth: "?scripts ! j = primary j" if "j \<le> ?n" for j using that by (simp add: nth_append)
  obtain s1 up probe where sel: "select_primary cfg (clock 0) s = Some (s1, up, probe)"
    using assms by (cases "select_primary cfg (clock 0) s") (auto simp: synthesize_stream_def)
  note up = select_primary_allowed [OF sel]
  show ?thesis
  proof (cases up)
    case False
    then have "fallback_stream env clock fallback stop s1 = r" using assms sel by (simp add: synthesize_stream_def)
    from fallback_session [OF this] show ?thesis using up False by blast
  next
    case True
    show ?thesis
    proof (cases "primary_attempts env clock probe ?scripts stop (env 0 s1)")
      case (Inr r')
      then have "r' = r" using assms sel True by (simp add: synthesize_stream_def)
      with attempts_session [OF Inr] obtain i where "i \<le> ?n" "\<forall>j<i. fst (?scripts ! j) = []" "attempt_result r (?scripts ! i)"
        by (auto simp: less_Suc_eq_le)
      then show ?thesis using up True nth by auto
    next
      case (Inl e)
      then have "fallback_stream env clock fallback stop (record_switch (error_category e)
          (record_primary_failure (error_category e) (clock 6) (env 0 s1))) = r"
        using assms sel True by (simp add: synthesize_stream_def)
      note f = fallback_session [OF this]
      obtain i where i: "i \<le> ?n" "\<forall>j<Suc i. fst (?scripts ! j) = []" "e = silent_error (snd (?scripts ! i))"
        "Suc i = length ?scripts \<or> \<not> is_retryable e"
        using attempts_give_up [OF Inl] by (auto simp: less_Suc_eq_le)
      have "\<forall>j\<le>i. fst (primary j) = []" using i(1,2) nth by (metis le_imp_less_Suc order.trans)
      moreover have "i = ?n \<or> \<not> is_retryable (silent_error (snd (primary i)))" using i(1,3,4) nth by auto
      ultimately show ?thesis using f i(1) by blast
    qed
  qed
qed

text \<open>Later syntheses, one after the other, during which others may run that leave a half-open circuit alone.\<close>

definition keeps_half_open :: "(nat \<Rightarrow> failover \<Rightarrow> failover) \<Rightarrow> bool" where
  "keeps_half_open env \<longleftrightarrow> (\<forall>i t. fo_circuit t = HalfOpen \<longrightarrow> fo_circuit (env i t) = HalfOpen)"

inductive speaks :: "failover_config \<Rightarrow> failover \<Rightarrow> failover \<Rightarrow> bool" for cfg where
  "keeps_half_open env \<Longrightarrow> synthesize_stream cfg env clock primary fallback stop s = Some r \<Longrightarrow> speaks cfg s (se_state r)"
| "keeps_half_open env \<Longrightarrow> synthesize cfg env clock whole whole_fb path s = Some (s', x) \<Longrightarrow> speaks cfg s s'"

lemma fallback_circuit:
  "keeps_half_open env \<Longrightarrow> fo_circuit s = HalfOpen \<Longrightarrow> fo_circuit (se_state (fallback_stream env clock fallback stop s)) = HalfOpen"
  by (auto simp: fallback_stream_def Let_def keeps_half_open_def observe_first_audio_def record_fallback_failure_def
      record_fallback_success_def observe_rtf_def split: prod.splits option.splits tts_exception.splits)

lemma speaks_half_open: "speaks cfg s s' \<Longrightarrow> fo_circuit s = HalfOpen \<Longrightarrow> fo_circuit s' = HalfOpen"
proof (induction rule: speaks.induct)
  case (1 env clock primary fallback stop s r)
  then have "se_state r = se_state (fallback_stream env clock fallback stop s)"
    by (simp add: synthesize_stream_def select_primary_def)
  then show ?case using fallback_circuit [OF 1(1) 1(3)] by simp
next
  case (2 env clock whole whole_fb path s s' x)
  then show ?case
    by (auto simp: synthesize_def select_primary_def whole_fallback_def keeps_half_open_def record_fallback_failure_def
        record_fallback_success_def split: sum.splits tts_exception.splits)
qed

text \<open>
  C23. What abandoning a stream does to the circuit.  When the cooldown has passed and the probe has
  delivered its first chunk, a consumer that closes the stream at that chunk, or a cancellation
  further on, leaves the circuit half-open; from then on every later synthesis, of any kind, finds it
  half-open and speaks with the fallback, however long it takes, while the readiness shows no
  remaining cooldown and the primary as inactive.  A consumer that closes any stream
  of the primary at a later chunk opens the circuit, although the primary did not fail.
\<close>

theorem abandoned_stream_blocks_primary:
  assumes env: "keeps_half_open env" and allowed: "primary_allowed cfg (clock 0) s" and audio: "fst (primary 0) \<noteq> []"
  shows "(fo_circuit s = Open \<longrightarrow> stop = Some 1 \<or> stop = None \<and> snd (primary 0) = Some TtsCancelled \<longrightarrow>
      (\<exists>r. synthesize_stream cfg env clock primary fallback stop s = Some r \<and>
         (\<forall>s'. (speaks cfg)\<^sup>*\<^sup>* (se_state r) s' \<longrightarrow> fo_circuit s' = HalfOpen \<and>
            (\<forall>env2 clock2 primary2 fallback2 stop2 r2.
               synthesize_stream cfg env2 clock2 primary2 fallback2 stop2 s' = Some r2 \<longrightarrow>
               se_backend r2 = Some FallbackBackend) \<and>
            (\<forall>now. rv_active_backend (readiness_snapshot cfg now s') \<noteq> Some PrimaryBackend \<and>
               rv_cooldown_remaining (readiness_snapshot cfg now s') = 0)))) \<and>
    (\<forall>n. 2 \<le> n \<and> n \<le> length (fst (primary 0)) \<longrightarrow>
      (\<exists>r. synthesize_stream cfg env clock primary fallback (Some n) s = Some r \<and> fo_circuit (se_state r) = Open \<and>
         fo_opened_at (se_state r) = Some (clock 6) \<and> se_chunks r = take n (fst (primary 0))))"
proof -
  obtain first rest where c: "fst (primary 0) = first # rest" using audio by (cases "fst (primary 0)") auto
  obtain s1 probe where sel: "select_primary cfg (clock 0) s = Some (s1, True, probe)"
    and half: "fo_circuit s = Open \<Longrightarrow> fo_circuit s1 = HalfOpen"
    using allowed unfolding primary_allowed_def
  proof (elim disjE conjE exE)
    assume "fo_circuit s = Closed" "fo_primary_ready s"
    then show thesis by (intro that [of s False]) (simp_all add: select_primary_def)
  next
    fix t assume "fo_circuit s = Open" "fo_opened_at s = Some t" "fc_cooldown_seconds cfg \<le> clock 0 - t"
    then show thesis by (intro that [of "s\<lparr>fo_circuit := HalfOpen\<rparr>" True]) (simp_all add: select_primary_def)
  qed
  have scripts: "map primary [0..<fc_pre_audio_retries cfg + 1] =
      (first # rest, snd (primary 0)) # map primary [1..<fc_pre_audio_retries cfg + 1]"
    using c by (subst upt_conv_Cons) (simp_all add: prod_eq_iff)
  let ?s2 = "observe_first_audio PrimaryBackend (max 0 (clock 2 - clock 1)) (env 0 s1)"
  have run: "synthesize_stream cfg env clock primary fallback st s = Some
      (if st = Some 1 then \<lparr>se_state = ?s2, se_chunks = [first], se_backend = Some PrimaryBackend, se_error = Some GeneratorExit\<rparr>
       else primary_rest env clock probe first rest (snd (primary 0)) st ?s2)" for st
    using sel unfolding synthesize_stream_def scripts by (simp add: Let_def)
  have stay: "fo_circuit s' = HalfOpen \<and> (\<forall>env2 clock2 primary2 fallback2 stop2 r2.
      synthesize_stream cfg env2 clock2 primary2 fallback2 stop2 s' = Some r2 \<longrightarrow> se_backend r2 = Some FallbackBackend) \<and>
      (\<forall>now. rv_active_backend (readiness_snapshot cfg now s') \<noteq> Some PrimaryBackend \<and>
         rv_cooldown_remaining (readiness_snapshot cfg now s') = 0)"
    if "(speaks cfg)\<^sup>*\<^sup>* t s'" "fo_circuit t = HalfOpen" for t s'
  proof -
    have h: "fo_circuit s' = HalfOpen" using that by (induction rule: rtranclp_induct) (auto intro: speaks_half_open)
    then have "rv_active_backend (readiness_snapshot cfg now s') \<noteq> Some PrimaryBackend \<and>
        rv_cooldown_remaining (readiness_snapshot cfg now s') = 0" for now by (simp add: readiness_snapshot_def Let_def)
    then show ?thesis using h fallback_session(1) by (auto simp: synthesize_stream_def select_primary_def)
  qed
  have h2: "fo_circuit ?s2 = HalfOpen" if "fo_circuit s = Open"
    using env half that by (simp add: keeps_half_open_def observe_first_audio_def)
  have abandoned: "\<exists>r. synthesize_stream cfg env clock primary fallback stop s = Some r \<and> fo_circuit (se_state r) = HalfOpen"
    if "fo_circuit s = Open" "stop = Some 1 \<or> stop = None \<and> snd (primary 0) = Some TtsCancelled"
    using run [of stop] that h2 env by (auto simp: primary_rest_def deliver_all Let_def keeps_half_open_def)
  have closed: "\<exists>r. synthesize_stream cfg env clock primary fallback (Some n) s = Some r \<and> fo_circuit (se_state r) = Open \<and>
      fo_opened_at (se_state r) = Some (clock 6) \<and> se_chunks r = take n (fst (primary 0))"
    if "2 \<le> n \<and> n \<le> length (fst (primary 0))" for n
  proof -
    have "deliver (Some n) 1 rest (snd (primary 0)) = (take (n - 1) rest, Some GeneratorExit)"
      using that c by (intro deliver_stopped) auto
    moreover have "take n (fst (primary 0)) = first # take (n - 1) rest" using that c by (cases n) auto
    ultimately show ?thesis
      using run [of "Some n"] that by (simp add: primary_rest_def Let_def record_primary_failure_def)
  qed
  show ?thesis using abandoned stay closed by blast
qed

section \<open>Concrete sessions\<close>

definition failover_example :: failover where
  "failover_example = fst (preload_failover (Some EmptyPrimaryAudio) None 0 new_failover)"

definition failover_example_config :: failover_config where
  "failover_example_config = \<lparr>fc_cooldown_seconds = 300, fc_pre_audio_retries = 1\<rparr>"

theorem utterance_bound_to_backend_witness:
  "\<exists>r. synthesize_stream failover_example_config (\<lambda>i t. t) (\<lambda>k. 10) (\<lambda>i. ([''aa''], None)) ([''bb''], None) None failover_example = Some r \<and>
     se_chunks r = [''bb'']"
proof -
  obtain r where r: "synthesize_stream failover_example_config (\<lambda>i t. t) (\<lambda>k. 10) (\<lambda>i. ([''aa''], None)) ([''bb''], None) None failover_example = Some r"
    and e: "se_error r = None"
    by (simp add: synthesize_stream_def select_primary_def failover_example_def failover_example_config_def
        preload_failover_def new_failover_def Let_def fallback_stream_def)
  have "\<not> primary_allowed failover_example_config 10 failover_example"
    by (simp add: primary_allowed_def failover_example_def failover_example_config_def preload_failover_def new_failover_def Let_def)
  then show ?thesis using utterance_bound_to_backend [OF r] r e by auto
qed

theorem abandoned_stream_blocks_primary_witness:
  "\<exists>r. synthesize_stream failover_example_config (\<lambda>i t. t) (\<lambda>k. 400) (\<lambda>i. ([''aa'', ''cc''], None)) ([''bb''], None) (Some 1) failover_example = Some r \<and>
     fo_circuit (se_state r) = HalfOpen"
proof -
  have "primary_allowed failover_example_config 400 failover_example" "fo_circuit failover_example = Open"
    by (simp_all add: primary_allowed_def failover_example_def failover_example_config_def preload_failover_def
        new_failover_def Let_def)
  moreover have "keeps_half_open (\<lambda>i t. t)" by (simp add: keeps_half_open_def)
  ultimately show ?thesis
    using abandoned_stream_blocks_primary [of "\<lambda>i t. t" failover_example_config "\<lambda>k. 400" failover_example
        "\<lambda>i. ([''aa'', ''cc''], None)" "Some 1" "([''bb''], None)"] by auto
qed

end
