(* ===== verification/Reply_Admission.thy ===== *)
theory Reply_Admission
  imports Unicode_Text
begin

text \<open>
  The admission of livestream messages to costly replies, \<open>services/bilibili/reply_admission.py\<close>:
  freshness, sampling, the window of duplicates, the cooldown of a user and the token bucket.
  The text of a message is a list of code points; \<open>str.casefold\<close>, a table of Unicode, is the
  parameter \<open>casefold\<close> of the definitions.  Times and tokens are exact rationals; \<open>now\<close> is the reading
  of the clock and \<open>sample\<close> that of the random source, which only ordinary messages read.
\<close>

section \<open>Text\<close>

definition normalized_text :: "(unicode \<Rightarrow> unicode) \<Rightarrow> unicode \<Rightarrow> unicode" where
  "normalized_text casefold text = join_words (split_words [] (casefold text))"

text \<open>The alternatives of \<open>_QUESTION_PATTERN\<close>; a search finds one of them somewhere in the text.\<close>

definition question_words :: "unicode list" where
  "question_words =
     [[0x3F], [0xFF1F], [0x4E3A, 0x4EC0, 0x4E48], [0x600E, 0x4E48], [0x600E, 0x6837], [0x4EC0, 0x4E48],
      [0x8C01], [0x54EA, 0x91CC], [0x54EA, 0x513F], [0x4F55, 0x65F6], [0x591A, 0x5C11], [0x5417], [0x5462],
      [0x80FD, 0x5426], [0x53EF, 0x4E0D, 0x53EF, 0x4EE5]]"

definition is_question :: "unicode \<Rightarrow> bool" where
  "is_question text \<longleftrightarrow> list_ex (\<lambda>w. contains_word w text) question_words"

section \<open>Data\<close>

datatype reply_priority = SuperChat | Gift | Question | Ordinary

fun priority_value :: "reply_priority \<Rightarrow> nat" where
  "priority_value SuperChat = 0"
| "priority_value Gift = 1"
| "priority_value Question = 2"
| "priority_value Ordinary = 3"

lemma priority_value_inj [simp]: "priority_value p = priority_value q \<longleftrightarrow> p = q"
  by (cases p; cases q) simp_all

text \<open>\<open>IntEnum\<close> compares by value.\<close>

instantiation reply_priority :: linorder
begin

definition less_eq_reply_priority :: "reply_priority \<Rightarrow> reply_priority \<Rightarrow> bool" where
  "p \<le> q \<longleftrightarrow> priority_value p \<le> priority_value q"

definition less_reply_priority :: "reply_priority \<Rightarrow> reply_priority \<Rightarrow> bool" where
  "p < q \<longleftrightarrow> priority_value p < priority_value q"

instance
  by intro_classes (auto simp: less_eq_reply_priority_def less_reply_priority_def)

end

datatype reply_mode = Selective | Exhaustive

record reply_policy =
  rp_enabled :: bool
  rp_mode :: reply_mode
  rp_max_replies_per_minute :: int
  rp_max_queue_size :: int
  rp_generation_concurrency :: int
  rp_max_message_age_seconds :: int
  rp_per_user_cooldown_seconds :: int
  rp_duplicate_window_seconds :: int
  rp_ordinary_sample_rate :: rat
  rp_reply_to_gifts :: bool
  rp_reply_to_super_chat :: bool

definition reply_policy_ok :: "reply_policy \<Rightarrow> bool" where
  "reply_policy_ok p \<longleftrightarrow>
     1 \<le> rp_max_replies_per_minute p \<and> rp_max_replies_per_minute p \<le> 60 \<and>
     1 \<le> rp_max_queue_size p \<and> rp_max_queue_size p \<le> 1000 \<and>
     1 \<le> rp_generation_concurrency p \<and> rp_generation_concurrency p \<le> 8 \<and>
     1 \<le> rp_max_message_age_seconds p \<and> rp_max_message_age_seconds p \<le> 300 \<and>
     0 \<le> rp_per_user_cooldown_seconds p \<and> rp_per_user_cooldown_seconds p \<le> 3600 \<and>
     0 \<le> rp_duplicate_window_seconds p \<and> rp_duplicate_window_seconds p \<le> 3600 \<and>
     0 \<le> rp_ordinary_sample_rate p \<and> rp_ordinary_sample_rate p \<le> 1"

record danmaku =
  dm_text :: unicode
  dm_user_name :: unicode
  dm_user_id :: int
  dm_timestamp :: rat
  dm_is_gift :: bool
  dm_is_super_chat :: bool

record reply_decision =
  rd_admitted :: bool
  rd_priority :: "reply_priority option"
  rd_reason :: "string option"

record admission =
  ra_tokens :: rat
  ra_last_refill :: rat
  ra_duplicate_seen_at :: "(unicode, rat) dict"
  ra_user_admitted_at :: "(unicode, rat) dict"
  ra_admitted_count :: int
  ra_dropped :: "(string, int) dict"

definition new_admission :: "reply_policy \<Rightarrow> rat \<Rightarrow> admission" where
  "new_admission cfg now =
     \<lparr>ra_tokens = of_int (rp_max_replies_per_minute cfg), ra_last_refill = now, ra_duplicate_seen_at = [],
      ra_user_admitted_at = [], ra_admitted_count = 0, ra_dropped = []\<rparr>"

section \<open>Operations\<close>

definition priority_for :: "reply_policy \<Rightarrow> danmaku \<Rightarrow> unicode \<Rightarrow> reply_priority option" where
  "priority_for cfg m text =
     (if dm_is_super_chat m then (if rp_reply_to_super_chat cfg then Some SuperChat else None)
      else if dm_is_gift m then (if rp_reply_to_gifts cfg then Some Gift else None)
      else if is_question text then Some Question
      else Some Ordinary)"

definition refill_rate :: "reply_policy \<Rightarrow> rat" where
  "refill_rate cfg = of_int (rp_max_replies_per_minute cfg) / 60"

definition refill :: "reply_policy \<Rightarrow> rat \<Rightarrow> admission \<Rightarrow> admission" where
  "refill cfg now s =
     (let elapsed = max 0 (now - ra_last_refill s) in
      s\<lparr>ra_tokens := min (of_int (rp_max_replies_per_minute cfg)) (ra_tokens s + elapsed * refill_rate cfg),
        ra_last_refill := now\<rparr>)"

definition keep_since :: "rat \<Rightarrow> ('k, rat) dict \<Rightarrow> ('k, rat) dict" where
  "keep_since cutoff d = filter (\<lambda>(k, seen_at). cutoff \<le> seen_at) d"

definition prune_history :: "reply_policy \<Rightarrow> rat \<Rightarrow> admission \<Rightarrow> admission" where
  "prune_history cfg now s =
     s\<lparr>ra_duplicate_seen_at := keep_since (now - of_int (rp_duplicate_window_seconds cfg)) (ra_duplicate_seen_at s),
       ra_user_admitted_at := keep_since (now - of_int (rp_per_user_cooldown_seconds cfg)) (ra_user_admitted_at s)\<rparr>"

definition user_key :: "(unicode \<Rightarrow> unicode) \<Rightarrow> danmaku \<Rightarrow> unicode" where
  "user_key casefold m =
     (if dm_user_id m \<noteq> 0 then map code (''id:'' @ str_of_int (dm_user_id m))
      else map code ''name:'' @ casefold (dm_user_name m))"

definition reject_message :: "string \<Rightarrow> admission \<Rightarrow> admission \<times> reply_decision" where
  "reject_message reason s =
     (s\<lparr>ra_dropped := dict_add reason 1 (ra_dropped s)\<rparr>,
      \<lparr>rd_admitted = False, rd_priority = None, rd_reason = Some reason\<rparr>)"

definition seen_within :: "int \<Rightarrow> rat \<Rightarrow> rat option \<Rightarrow> bool" where
  "seen_within seconds now seen_at = (case seen_at of None \<Rightarrow> False | Some t \<Rightarrow> now - t < of_int seconds)"

definition decide_admission ::
  "reply_policy \<Rightarrow> (unicode \<Rightarrow> unicode) \<Rightarrow> rat \<Rightarrow> rat \<Rightarrow> danmaku \<Rightarrow> admission \<Rightarrow> admission \<times> reply_decision" where
  "decide_admission cfg casefold now sample m s =
     (if \<not> rp_enabled cfg then reject_message ''disabled'' s
      else
        (let text = strip_unicode (dm_text m) in
         if text = [] then reject_message ''invalid'' s
         else
           (case priority_for cfg m text of
              None \<Rightarrow> reject_message ''message_type_disabled'' s
            | Some priority \<Rightarrow>
                if rp_mode cfg = Exhaustive
                then (s\<lparr>ra_admitted_count := ra_admitted_count s + 1\<rparr>,
                      \<lparr>rd_admitted = True, rd_priority = Some priority, rd_reason = None\<rparr>)
                else if of_int (rp_max_message_age_seconds cfg) < now - dm_timestamp m then reject_message ''expired'' s
                else if priority = Ordinary \<and> rp_ordinary_sample_rate cfg \<le> sample
                then reject_message ''not_sampled'' s
                else
                  (let normalized = normalized_text casefold text; key = user_key casefold m in
                   if seen_within (rp_duplicate_window_seconds cfg) now (dict_get (ra_duplicate_seen_at s) normalized)
                   then reject_message ''duplicate'' s
                   else if seen_within (rp_per_user_cooldown_seconds cfg) now (dict_get (ra_user_admitted_at s) key)
                   then reject_message ''user_cooldown'' s
                   else
                     (let s1 = refill cfg now s in
                      if ra_tokens s1 < 1 then reject_message ''rate_limited'' s1
                      else
                        (let s2 = prune_history cfg now
                                    (s1\<lparr>ra_tokens := ra_tokens s1 - 1,
                                        ra_duplicate_seen_at := dict_set normalized now (ra_duplicate_seen_at s1),
                                        ra_user_admitted_at := dict_set key now (ra_user_admitted_at s1)\<rparr>)
                         in (s2\<lparr>ra_admitted_count := ra_admitted_count s2 + 1\<rparr>,
                             \<lparr>rd_admitted = True, rd_priority = Some priority, rd_reason = None\<rparr>)))))))"

end
