(* ===== verification/Reply_Admission_Properties.thy ===== *)
theory Reply_Admission_Properties
  imports Reply_Admission
begin

text \<open>
  What admission guarantees over a whole session: the rate in every window of time, the distance of
  messages with the same text and of messages of one user, and the accounting of every decision.
\<close>

section \<open>Runs of decisions\<close>

type_synonym submission = "rat \<times> rat \<times> danmaku"

fun decide_all :: "reply_policy \<Rightarrow> (unicode \<Rightarrow> unicode) \<Rightarrow> admission \<Rightarrow> submission list \<Rightarrow> admission \<times> (submission \<times> reply_decision) list" where
  "decide_all cfg casefold s [] = (s, [])"
| "decide_all cfg casefold s ((now, sample, m) # later) =
     (case decide_admission cfg casefold now sample m s of
        (s1, d) \<Rightarrow> (case decide_all cfg casefold s1 later of (s2, ds) \<Rightarrow> (s2, ((now, sample, m), d) # ds)))"

definition message_text :: "(unicode \<Rightarrow> unicode) \<Rightarrow> danmaku \<Rightarrow> unicode" where
  "message_text casefold m = normalized_text casefold (strip_unicode (dm_text m))"

text \<open>The admission of one message in the selective mode.\<close>

definition admitted_state :: "reply_policy \<Rightarrow> (unicode \<Rightarrow> unicode) \<Rightarrow> rat \<Rightarrow> danmaku \<Rightarrow> admission \<Rightarrow> admission" where
  "admitted_state cfg casefold now m s =
     (let s1 = refill cfg now s;
          s2 = prune_history cfg now
                 (s1\<lparr>ra_tokens := ra_tokens s1 - 1,
                     ra_duplicate_seen_at := dict_set (message_text casefold m) now (ra_duplicate_seen_at s1),
                     ra_user_admitted_at := dict_set (user_key casefold m) now (ra_user_admitted_at s1)\<rparr>)
      in s2\<lparr>ra_admitted_count := ra_admitted_count s2 + 1\<rparr>)"

lemma decide_admitted:
  assumes "decide_admission cfg casefold now sample m s = (s', d)" "rd_admitted d" "rp_mode cfg = Selective"
  shows "s' = admitted_state cfg casefold now m s"
    and "\<not> seen_within (rp_duplicate_window_seconds cfg) now (dict_get (ra_duplicate_seen_at s) (message_text casefold m))"
    and "\<not> seen_within (rp_per_user_cooldown_seconds cfg) now (dict_get (ra_user_admitted_at s) (user_key casefold m))"
    and "1 \<le> ra_tokens (refill cfg now s)"
  using assms
  by (auto simp: decide_admission_def reject_message_def admitted_state_def message_text_def Let_def not_less
      split: if_splits option.splits)

lemma decide_rejected:
  assumes "decide_admission cfg casefold now sample m s = (s', d)" "\<not> rd_admitted d"
  obtains reason where "s' = s\<lparr>ra_dropped := dict_add reason 1 (ra_dropped s)\<rparr>"
  | reason where "s' = (refill cfg now s)\<lparr>ra_dropped := dict_add reason 1 (ra_dropped (refill cfg now s))\<rparr>"
  using assms
  by (auto simp: decide_admission_def reject_message_def Let_def split: if_splits option.splits)

section \<open>The token bucket\<close>

text \<open>The tokens that a decision at the time \<open>now\<close> would find.\<close>

definition potential :: "reply_policy \<Rightarrow> rat \<Rightarrow> admission \<Rightarrow> rat" where
  "potential cfg now s =
     min (of_int (rp_max_replies_per_minute cfg)) (ra_tokens s + (now - ra_last_refill s) * refill_rate cfg)"

definition bucket_ok :: "reply_policy \<Rightarrow> rat \<Rightarrow> admission \<Rightarrow> bool" where
  "bucket_ok cfg now s \<longleftrightarrow> 0 \<le> ra_tokens s \<and> ra_tokens s \<le> of_int (rp_max_replies_per_minute cfg) \<and> ra_last_refill s \<le> now"

lemma refill_rate_pos: "reply_policy_ok cfg \<Longrightarrow> 0 < refill_rate cfg"
  by (simp add: reply_policy_ok_def refill_rate_def)

lemma potential_bounds:
  "reply_policy_ok cfg \<Longrightarrow> bucket_ok cfg now s \<Longrightarrow> 0 \<le> potential cfg now s \<and> potential cfg now s \<le> of_int (rp_max_replies_per_minute cfg)"
  using refill_rate_pos [of cfg] by (auto simp: potential_def bucket_ok_def reply_policy_ok_def)

lemma potential_later:
  assumes "reply_policy_ok cfg" "c \<le> now"
  shows "potential cfg now s \<le> potential cfg c s + (now - c) * refill_rate cfg"
proof -
  have "0 \<le> (now - c) * refill_rate cfg" using refill_rate_pos [OF assms(1)] assms(2) by simp
  moreover have "(now - ra_last_refill s) * refill_rate cfg =
      (c - ra_last_refill s) * refill_rate cfg + (now - c) * refill_rate cfg"
    by (simp add: algebra_simps)
  ultimately show ?thesis unfolding potential_def by linarith
qed

lemma potential_refill:
  "reply_policy_ok cfg \<Longrightarrow> bucket_ok cfg now s \<Longrightarrow> ra_tokens (refill cfg now s) = potential cfg now s"
  by (simp add: refill_def potential_def bucket_ok_def Let_def)

lemma potential_now:
  "reply_policy_ok cfg \<Longrightarrow> bucket_ok cfg now s \<Longrightarrow> ra_last_refill s = now \<Longrightarrow> potential cfg now s = ra_tokens s"
  by (simp add: potential_def bucket_ok_def)

lemma decide_bucket:
  assumes "reply_policy_ok cfg" "rp_mode cfg = Selective" "bucket_ok cfg now s"
    "decide_admission cfg casefold now sample m s = (s', d)"
  shows "bucket_ok cfg now s' \<and>
    potential cfg now s' + (if rd_admitted d then 1 else 0) \<le> potential cfg now s"
proof -
  note b = potential_bounds [OF assms(1,3)]
  note t = potential_refill [OF assms(1,3)]
  show ?thesis
  proof (cases "rd_admitted d")
    case True
    note d = decide_admitted [OF assms(4) True assms(2)]
    have ok: "bucket_ok cfg now s'" and "ra_last_refill s' = now" and tok: "ra_tokens s' = potential cfg now s - 1"
      using d(1,4) b unfolding t [symmetric]
      by (simp_all add: admitted_state_def prune_history_def bucket_ok_def Let_def refill_def)
    then show ?thesis using potential_now [OF assms(1) ok] True by simp
  next
    case False
    from decide_rejected [OF assms(4) False] show ?thesis
    proof cases
      case (1 reason)
      then show ?thesis using False assms(3) by (simp add: bucket_ok_def potential_def)
    next
      case (2 reason)
      then have ok: "bucket_ok cfg now s'" and "ra_last_refill s' = now" and "ra_tokens s' = potential cfg now s"
        using b t by (simp_all add: bucket_ok_def refill_def Let_def)
      then show ?thesis using potential_now [OF assms(1) ok] False by simp
    qed
  qed
qed

text \<open>The admissions among the decisions of a window, and the bound on them.\<close>

definition admitted_between :: "rat \<Rightarrow> rat \<Rightarrow> (submission \<times> reply_decision) list \<Rightarrow> nat" where
  "admitted_between a b outs = length (filter (\<lambda>(i, d). a \<le> fst i \<and> fst i \<le> b \<and> rd_admitted d) outs)"

lemma window_bound:
  assumes "reply_policy_ok cfg" "rp_mode cfg = Selective" "a \<le> b"
  shows "bucket_ok cfg c s \<Longrightarrow> sorted (c # map fst inputs) \<Longrightarrow> decide_all cfg casefold s inputs = (s', outs) \<Longrightarrow>
    of_nat (admitted_between a b outs) \<le>
      (if b < c then 0 else if c < a then of_int (rp_max_replies_per_minute cfg) + (b - a) * refill_rate cfg
       else potential cfg c s + (b - c) * refill_rate cfg)"
proof (induction inputs arbitrary: c s outs)
  case Nil
  then show ?case
    using potential_bounds [OF assms(1) Nil(1)] refill_rate_pos [OF assms(1)] assms(1,3)
    by (auto simp: admitted_between_def reply_policy_ok_def)
next
  case (Cons input later)
  let ?r = "refill_rate cfg"
  obtain now sample m where i: "input = (now, sample, m)" by (cases input)
  obtain s1 d where d: "decide_admission cfg casefold now sample m s = (s1, d)" by fastforce
  obtain ds where ds: "decide_all cfg casefold s1 later = (s', ds)" "outs = (input, d) # ds"
    using Cons.prems(3) d i by (auto split: prod.splits)
  have le: "c \<le> now" using Cons.prems(2) i by simp
  have ok: "bucket_ok cfg now s" using Cons.prems(1) le by (simp add: bucket_ok_def)
  note step = decide_bucket [OF assms(1,2) ok d]
  have "sorted (now # map fst later)" using Cons.prems(2) i by simp
  note IH = Cons.IH [OF conjunct1 [OF step] this ds(1)]
  have count: "admitted_between a b outs =
      (if a \<le> now \<and> now \<le> b \<and> rd_admitted d then 1 else 0) + admitted_between a b ds"
    using ds(2) i by (simp add: admitted_between_def)
  note b1 = potential_bounds [OF assms(1) ok] and b0 = potential_bounds [OF assms(1) Cons.prems(1)]
  note later = potential_later [OF assms(1) le, of s]
  have r: "0 < ?r" by (rule refill_rate_pos [OF assms(1)])
  have mono: "(b - now) * ?r \<le> (b - a) * ?r" if "a \<le> now" using that r by simp
  have sum: "(b - c) * ?r = (b - now) * ?r + (now - c) * ?r" by (simp add: algebra_simps)
  have nn: "0 \<le> (b - c) * ?r" if "c \<le> b" using that r by simp
  have na: "0 \<le> (b - a) * ?r" using assms(3) r by simp
  show ?case
  proof (cases "b < now")
    case True
    then show ?thesis using IH count nn na b0 assms(1) by (auto simp: reply_policy_ok_def)
  next
    case nb: False
    show ?thesis
    proof (cases "now < a")
      case True
      then show ?thesis using IH count nb le by (auto simp: not_less)
    next
      case False
      then show ?thesis
        using IH count nb le step b1 later mono sum by (auto simp: not_less split: if_splits)
    qed
  qed
qed

section \<open>The distance of equal messages\<close>

text \<open>
  A dictionary of last times remembers a list of events: each event is at most as late as the entry of its key,
  or further back than the window.
\<close>

definition remembers :: "int \<Rightarrow> rat \<Rightarrow> ('k, rat) dict \<Rightarrow> ('k \<times> rat) set \<Rightarrow> bool" where
  "remembers window now d events \<longleftrightarrow> distinct (dict_keys d) \<and>
     (\<forall>(k, t)\<in>events. t \<le> now \<and> (of_int window \<le> now - t \<or> (\<exists>t'. dict_get d k = Some t' \<and> t \<le> t')))"

lemma remembers_later: "remembers window now d events \<Longrightarrow> now \<le> now' \<Longrightarrow> remembers window now' d events"
  by (fastforce simp: remembers_def)

lemma dict_get_keep_since:
  "distinct (dict_keys d) \<Longrightarrow>
   dict_get (keep_since c d) k = (case dict_get d k of None \<Rightarrow> None | Some t \<Rightarrow> if c \<le> t then Some t else None)"
proof (induction d)
  case (Cons p d)
  obtain k' t where p: "p = (k', t)" by fastforce
  have "k' \<notin> set (dict_keys d) \<Longrightarrow> dict_get d k' = None" by (simp add: dict_get_None_keys)
  then show ?case using Cons p by (cases "k = k'") (simp_all add: keep_since_def)
qed (simp add: keep_since_def)

lemma distinct_keep_since: "distinct (dict_keys d) \<Longrightarrow> distinct (dict_keys (keep_since c d))"
  by (simp add: keep_since_def distinct_map_filter)

lemma remembers_add:
  assumes "remembers window now d events" "0 \<le> window"
  shows "remembers window now (keep_since (now - of_int window) (dict_set k now d)) (insert (k, now) events)"
proof -
  let ?d = "dict_set k now d"
  have d: "distinct (dict_keys ?d)" using assms by (simp add: remembers_def distinct_keys_set)
  have get: "dict_get (keep_since (now - of_int window) ?d) k' =
      (if k' = k then Some now else case dict_get d k' of None \<Rightarrow> None | Some t \<Rightarrow> if now - of_int window \<le> t then Some t else None)" for k'
    using assms(2) by (simp add: dict_get_keep_since [OF d] dict_get_set)
  have "t \<le> now \<and> (of_int window \<le> now - t \<or>
      (\<exists>t'. dict_get (keep_since (now - of_int window) ?d) k' = Some t' \<and> t \<le> t'))" if "(k', t) \<in> insert (k, now) events" for k' t
  proof (cases "k' = k")
    case True
    then show ?thesis using that assms(1) get by (auto simp: remembers_def)
  next
    case False
    then have "(k', t) \<in> events" using that by simp
    with assms(1) have "t \<le> now" and "of_int window \<le> now - t \<or> (\<exists>t'. dict_get d k' = Some t' \<and> t \<le> t')"
      by (auto simp: remembers_def)
    then show ?thesis using get [of k'] False by (cases "of_int window \<le> now - t") auto
  qed
  then show ?thesis unfolding remembers_def using distinct_keep_since [OF d] by blast
qed

lemma not_seen_within:
  assumes "remembers window now d events" "\<not> seen_within window now (dict_get d k)" "(k, t) \<in> events"
  shows "of_int window \<le> now - t"
proof -
  from assms(1,3) have "of_int window \<le> now - t \<or> (\<exists>t'. dict_get d k = Some t' \<and> t \<le> t')"
    by (auto simp: remembers_def)
  then show ?thesis using assms(2) by (auto simp: seen_within_def)
qed

definition text_events :: "(unicode \<Rightarrow> unicode) \<Rightarrow> (submission \<times> reply_decision) list \<Rightarrow> (unicode \<times> rat) set" where
  "text_events casefold outs =
     (\<lambda>r. (message_text casefold (snd (snd (fst r))), fst (fst r))) ` set (filter (\<lambda>r. rd_admitted (snd r)) outs)"

definition user_events :: "(unicode \<Rightarrow> unicode) \<Rightarrow> (submission \<times> reply_decision) list \<Rightarrow> (unicode \<times> rat) set" where
  "user_events casefold outs =
     (\<lambda>r. (user_key casefold (snd (snd (fst r))), fst (fst r))) ` set (filter (\<lambda>r. rd_admitted (snd r)) outs)"

definition history_ok :: "reply_policy \<Rightarrow> (unicode \<Rightarrow> unicode) \<Rightarrow> rat \<Rightarrow> admission \<Rightarrow> (submission \<times> reply_decision) list \<Rightarrow> bool" where
  "history_ok cfg casefold now s outs \<longleftrightarrow>
     remembers (rp_duplicate_window_seconds cfg) now (ra_duplicate_seen_at s) (text_events casefold outs) \<and>
     remembers (rp_per_user_cooldown_seconds cfg) now (ra_user_admitted_at s) (user_events casefold outs)"

text \<open>Two admitted messages, the earlier one first, keep the distance that the policy asks for.\<close>

definition apart :: "reply_policy \<Rightarrow> (unicode \<Rightarrow> unicode) \<Rightarrow> submission \<times> reply_decision \<Rightarrow> submission \<times> reply_decision \<Rightarrow> bool" where
  "apart cfg casefold early late \<longleftrightarrow>
     rd_admitted (snd early) \<and> rd_admitted (snd late) \<longrightarrow>
       (let t = fst (fst early); t' = fst (fst late); m = snd (snd (fst early)); m' = snd (snd (fst late)) in
        (message_text casefold m = message_text casefold m' \<longrightarrow> of_int (rp_duplicate_window_seconds cfg) \<le> t' - t) \<and>
        (user_key casefold m = user_key casefold m' \<longrightarrow> of_int (rp_per_user_cooldown_seconds cfg) \<le> t' - t))"

lemma decide_history:
  assumes "reply_policy_ok cfg" "rp_mode cfg = Selective" "history_ok cfg casefold now s outs"
    "decide_admission cfg casefold now sample m s = (s', d)"
  shows "history_ok cfg casefold now s' (outs @ [((now, sample, m), d)])"
    and "\<forall>r\<in>set outs. apart cfg casefold r ((now, sample, m), d)"
proof -
  let ?r = "((now, sample, m), d)"
  have snoc: "text_events casefold (outs @ [?r]) =
      (if rd_admitted d then insert (message_text casefold m, now) (text_events casefold outs) else text_events casefold outs)"
    "user_events casefold (outs @ [?r]) =
      (if rd_admitted d then insert (user_key casefold m, now) (user_events casefold outs) else user_events casefold outs)"
    by (simp_all add: text_events_def user_events_def)
  have "history_ok cfg casefold now s' (outs @ [?r]) \<and> (\<forall>r\<in>set outs. apart cfg casefold r ?r)"
  proof (cases "rd_admitted d")
    case False
    from decide_rejected [OF assms(4) False]
    have "ra_duplicate_seen_at s' = ra_duplicate_seen_at s \<and> ra_user_admitted_at s' = ra_user_admitted_at s"
      by cases (simp_all add: refill_def Let_def)
    then show ?thesis using False assms(3) unfolding history_ok_def snoc apart_def by simp
  next
    case True
    note a = decide_admitted [OF assms(4) True assms(2)]
    have w: "0 \<le> rp_duplicate_window_seconds cfg" "0 \<le> rp_per_user_cooldown_seconds cfg"
      using assms(1) by (simp_all add: reply_policy_ok_def)
    have h: "remembers (rp_duplicate_window_seconds cfg) now (ra_duplicate_seen_at s) (text_events casefold outs)"
      "remembers (rp_per_user_cooldown_seconds cfg) now (ra_user_admitted_at s) (user_events casefold outs)"
      using assms(3) by (simp_all add: history_ok_def)
    have "history_ok cfg casefold now s' (outs @ [?r])"
      using a(1) True remembers_add [OF h(1) w(1)] remembers_add [OF h(2) w(2)] unfolding history_ok_def snoc
      by (simp add: admitted_state_def prune_history_def refill_def Let_def)
    moreover have "apart cfg casefold r ?r" if r: "r \<in> set outs" for r
    proof -
      have "(message_text casefold (snd (snd (fst r))), fst (fst r)) \<in> text_events casefold outs"
        "(user_key casefold (snd (snd (fst r))), fst (fst r)) \<in> user_events casefold outs" if "rd_admitted (snd r)"
        using r that by (simp_all add: text_events_def user_events_def)
      then show ?thesis
        using not_seen_within [OF h(1) a(2)] not_seen_within [OF h(2) a(3)] by (auto simp: apart_def Let_def)
    qed
    ultimately show ?thesis by blast
  qed
  then show "history_ok cfg casefold now s' (outs @ [?r])" "\<forall>r\<in>set outs. apart cfg casefold r ?r" by blast+
qed

lemma decide_all_apart:
  assumes "reply_policy_ok cfg" "rp_mode cfg = Selective"
  shows "history_ok cfg casefold c s before \<Longrightarrow> sorted_wrt (apart cfg casefold) before \<Longrightarrow> sorted (c # map fst inputs) \<Longrightarrow>
    decide_all cfg casefold s inputs = (s', outs) \<Longrightarrow> sorted_wrt (apart cfg casefold) (before @ outs)"
proof (induction inputs arbitrary: c s outs before)
  case (Cons input later)
  obtain now sample m where i: "input = (now, sample, m)" by (cases input)
  obtain s1 d where d: "decide_admission cfg casefold now sample m s = (s1, d)" by fastforce
  obtain ds where ds: "decide_all cfg casefold s1 later = (s', ds)" "outs = (input, d) # ds"
    using Cons.prems(4) d i by (auto split: prod.splits)
  have "history_ok cfg casefold now s before"
    using Cons.prems(1,3) i remembers_later by (auto simp: history_ok_def)
  note h = decide_history [OF assms this d]
  have "sorted_wrt (apart cfg casefold) (before @ [((now, sample, m), d)])"
    using h(2) Cons.prems(2) by (simp add: sorted_wrt_append_one)
  moreover have "sorted (now # map fst later)" using Cons.prems(3) i by simp
  ultimately have "sorted_wrt (apart cfg casefold) ((before @ [((now, sample, m), d)]) @ ds)"
    by (intro Cons.IH [OF h(1) _ _ ds(1)])
  then show ?case using ds(2) i by simp
qed simp

section \<open>Accounting\<close>

definition counted :: "admission \<Rightarrow> int" where
  "counted s = ra_admitted_count s + dict_total (ra_dropped s)"

lemma decide_counts:
  assumes "distinct (dict_keys (ra_dropped s))" "decide_admission cfg casefold now sample m s = (s', d)"
  shows "counted s' = counted s + 1 \<and> distinct (dict_keys (ra_dropped s')) \<and>
    ra_admitted_count s' = ra_admitted_count s + (if rd_admitted d then 1 else 0)"
  using assms
  by (auto simp: decide_admission_def reject_message_def counted_def refill_def prune_history_def Let_def
      split: if_splits option.splits)

lemma decide_all_counts:
  "distinct (dict_keys (ra_dropped s)) \<Longrightarrow> decide_all cfg casefold s inputs = (s', outs) \<Longrightarrow>
   counted s' = counted s + int (length inputs) \<and>
   ra_admitted_count s' = ra_admitted_count s + int (length (filter (\<lambda>(i, d). rd_admitted d) outs))"
proof (induction inputs arbitrary: s outs)
  case (Cons input later)
  obtain now sample m where i: "input = (now, sample, m)" by (cases input)
  obtain s1 d where d: "decide_admission cfg casefold now sample m s = (s1, d)" by fastforce
  obtain ds where ds: "decide_all cfg casefold s1 later = (s', ds)" "outs = (input, d) # ds"
    using Cons.prems(2) d i by (auto split: prod.splits)
  note c = decide_counts [OF Cons.prems(1) d]
  show ?case using Cons.IH [OF _ ds(1)] c ds(2) by simp
qed simp

section \<open>The property\<close>

text \<open>
  C24. Selective admission keeps its promises over a whole session of messages with a clock that does
  not go backwards.  In every window of time at most the replies per minute plus their rate times
  the length of the window are admitted.  Two admitted messages with the same normalised text are at
  least the duplicate window apart, and two of the same user at least the cooldown.  Every message is
  counted once, as admitted or under the reason of its rejection.
\<close>

theorem selective_admission_bounds:
  assumes cfg: "reply_policy_ok cfg" "rp_mode cfg = Selective" and clock: "sorted (start # map fst inputs)"
    and run: "decide_all cfg casefold (new_admission cfg start) inputs = (s, outs)"
  shows "(\<forall>a b. a \<le> b \<longrightarrow> of_nat (admitted_between a b outs) \<le>
        of_int (rp_max_replies_per_minute cfg) + (b - a) * of_int (rp_max_replies_per_minute cfg) / 60) \<and>
    sorted_wrt (apart cfg casefold) outs \<and>
    ra_admitted_count s + dict_total (ra_dropped s) = int (length inputs) \<and>
    ra_admitted_count s = int (length (filter (\<lambda>(i, d). rd_admitted d) outs))"
proof (intro conjI allI impI)
  fix a b :: rat assume ab: "a \<le> b"
  have ok: "bucket_ok cfg start (new_admission cfg start)"
    using cfg(1) by (simp add: bucket_ok_def new_admission_def reply_policy_ok_def)
  have r: "0 < refill_rate cfg" by (rule refill_rate_pos [OF cfg(1)])
  have "of_nat (admitted_between a b outs) \<le> of_int (rp_max_replies_per_minute cfg) + (b - a) * refill_rate cfg"
  proof (cases "a \<le> start \<and> start \<le> b")
    case True
    then have "(b - start) * refill_rate cfg \<le> (b - a) * refill_rate cfg" using r by simp
    then show ?thesis
      using window_bound [OF cfg ab ok clock run] potential_bounds [OF cfg(1) ok] True by (simp split: if_splits)
  next
    case False
    have "0 \<le> (b - a) * refill_rate cfg" using ab r by simp
    then show ?thesis using window_bound [OF cfg ab ok clock run] False cfg(1)
      by (auto simp: reply_policy_ok_def split: if_splits)
  qed
  then show "of_nat (admitted_between a b outs) \<le>
        of_int (rp_max_replies_per_minute cfg) + (b - a) * of_int (rp_max_replies_per_minute cfg) / 60"
    by (simp add: refill_rate_def)
next
  have "history_ok cfg casefold start (new_admission cfg start) []"
    by (simp add: history_ok_def remembers_def new_admission_def text_events_def user_events_def)
  from decide_all_apart [OF cfg this _ clock run] show "sorted_wrt (apart cfg casefold) outs" by simp
qed (use decide_all_counts [OF _ run] in \<open>simp_all add: counted_def new_admission_def dict_total_def\<close>)

section \<open>A concrete session\<close>

definition reply_policy_example :: reply_policy where
  "reply_policy_example =
     \<lparr>rp_enabled = True, rp_mode = Selective, rp_max_replies_per_minute = 1, rp_max_queue_size = 20,
      rp_generation_concurrency = 1, rp_max_message_age_seconds = 15, rp_per_user_cooldown_seconds = 30,
      rp_duplicate_window_seconds = 60, rp_ordinary_sample_rate = 1 / 10, rp_reply_to_gifts = True,
      rp_reply_to_super_chat = True\<rparr>"

text \<open>Two super chats of different users and texts, five seconds apart.\<close>

definition danmaku_example :: "nat \<Rightarrow> rat \<Rightarrow> danmaku" where
  "danmaku_example user now =
     \<lparr>dm_text = [104, 105, user], dm_user_name = [user], dm_user_id = 0, dm_timestamp = now,
      dm_is_gift = False, dm_is_super_chat = True\<rparr>"

definition submissions_example :: "submission list" where
  "submissions_example = [(100, 0, danmaku_example 103 100), (105, 0, danmaku_example 104 105)]"

lemma submissions_example_run:
  "map (\<lambda>(i, d). rd_admitted d) (snd (decide_all reply_policy_example id (new_admission reply_policy_example 99) submissions_example)) = [True, False]"
  by (simp add: submissions_example_def danmaku_example_def decide_admission_def reject_message_def new_admission_def
      reply_policy_example_def priority_for_def strip_unicode_def unicode_space_def normalized_text_def Let_def
      seen_within_def user_key_def refill_def refill_rate_def prune_history_def keep_since_def)

theorem selective_admission_bounds_witness:
  "\<exists>s outs. decide_all reply_policy_example id (new_admission reply_policy_example 99) submissions_example = (s, outs) \<and>
     map (\<lambda>(i, d). rd_admitted d) outs = [True, False] \<and> admitted_between 100 105 outs \<le> 1"
proof -
  obtain s outs where run: "decide_all reply_policy_example id (new_admission reply_policy_example 99) submissions_example = (s, outs)"
    by fastforce
  have cfg: "reply_policy_ok reply_policy_example" "rp_mode reply_policy_example = Selective"
    by (simp_all add: reply_policy_ok_def reply_policy_example_def)
  have "sorted ((99 :: rat) # map fst submissions_example)" by (simp add: submissions_example_def)
  from selective_admission_bounds [OF cfg this run]
  have "\<forall>a b. a \<le> b \<longrightarrow> of_nat (admitted_between a b outs) \<le>
      of_int (rp_max_replies_per_minute reply_policy_example) +
      (b - a) * of_int (rp_max_replies_per_minute reply_policy_example) / 60" by blast
  from this [rule_format, of 100 105] have "of_nat (admitted_between 100 105 outs) \<le> (13 / 12 :: rat)"
    by (simp add: reply_policy_example_def)
  then have "admitted_between 100 105 outs \<le> 1" by (cases "admitted_between 100 105 outs \<le> 1") (auto simp: not_le Suc_le_eq [symmetric] dest: of_nat_mono [where 'a = rat])
  then show ?thesis using run submissions_example_run by simp
qed

end
