(* ===== verification/Reply_Media.thy ===== *)
theory Reply_Media
  imports Prelude "HOL-Library.FSet"
begin

text \<open>
  The ordered media gate of \<open>services/bilibili/reply_media.py\<close>: the coordinator that lets replies
  speak in the order of their submission, the arbiter that serialises every public medium by
  priority, and the turns that hold them.  A coroutine that waits on a condition is a state of its
  turn; a wait that would go on is the result \<open>None\<close>.  The locks are held over no suspension, so
  that an operation between two waits is one step.  The heap of the arbiter is kept as the sorted
  list of its elements, of which the code reads the first; a waiter is its priority and its number,
  and the number also stands for the token, which is a fresh object.
\<close>

section \<open>The arbiter\<close>

type_synonym waiter = "int \<times> nat"

record arbiter =
  ar_counter :: nat
  ar_waiters :: "waiter list"
  ar_active :: "nat option"

definition new_arbiter :: arbiter where
  "new_arbiter = \<lparr>ar_counter = 0, ar_waiters = [], ar_active = None\<rparr>"

definition waiter_le :: "waiter \<Rightarrow> waiter \<Rightarrow> bool" where
  "waiter_le v w \<longleftrightarrow> fst v < fst w \<or> fst v = fst w \<and> snd v \<le> snd w"

fun heap_push :: "waiter \<Rightarrow> waiter list \<Rightarrow> waiter list" where
  "heap_push w [] = [w]"
| "heap_push w (v # vs) = (if waiter_le w v then w # v # vs else v # heap_push w vs)"

text \<open>\<open>acquire\<close> up to its wait, at the end of its wait, and when the wait is interrupted.\<close>

definition arbiter_enter :: "int \<Rightarrow> arbiter \<Rightarrow> arbiter \<times> waiter" where
  "arbiter_enter priority a =
     (let w = (priority, ar_counter a) in
      (a\<lparr>ar_counter := ar_counter a + 1, ar_waiters := heap_push w (ar_waiters a)\<rparr>, w))"

definition arbiter_grant :: "waiter \<Rightarrow> arbiter \<Rightarrow> arbiter option" where
  "arbiter_grant w a =
     (case (ar_active a, ar_waiters a) of
        (None, v # vs) \<Rightarrow> if v = w then Some (a\<lparr>ar_waiters := vs, ar_active := Some (snd w)\<rparr>) else None
      | _ \<Rightarrow> None)"

definition arbiter_leave :: "waiter \<Rightarrow> arbiter \<Rightarrow> arbiter" where
  "arbiter_leave w a = a\<lparr>ar_waiters := remove1 w (ar_waiters a)\<rparr>"

definition arbiter_release :: "nat \<Rightarrow> arbiter \<Rightarrow> arbiter" where
  "arbiter_release token a = (if ar_active a = Some token then a\<lparr>ar_active := None\<rparr> else a)"

section \<open>The coordinator\<close>

record coordinator =
  co_next :: nat
  co_active :: "nat option"
  co_cancelled :: "nat fset"

definition new_coordinator :: coordinator where
  "new_coordinator = \<lparr>co_next = 0, co_active = None, co_cancelled = {||}\<rparr>"

definition coordinator_acquire :: "nat \<Rightarrow> coordinator \<Rightarrow> coordinator option" where
  "coordinator_acquire sequence c =
     (if co_next c < sequence \<or> sequence = co_next c \<and> co_active c \<notin> {None, Some sequence} then None
      else Some (if sequence = co_next c then c\<lparr>co_active := Some sequence\<rparr> else c))"

text \<open>The loop \<open>while self._next_sequence in self._cancelled\<close>; the set shrinks with each turn.\<close>

function advance :: "nat \<Rightarrow> nat fset \<Rightarrow> nat \<times> nat fset" where
  "advance n cancelled = (if n |\<in>| cancelled then advance (n + 1) (cancelled |-| {|n|}) else (n, cancelled))"
  by pat_completeness auto

termination
proof (relation "measure (\<lambda>(n, cancelled). fcard cancelled)")
  fix n :: nat and cancelled assume "n |\<in>| cancelled"
  then show "((n + 1, cancelled |-| {|n|}), n, cancelled) \<in> measure (\<lambda>(n, cancelled). fcard cancelled)"
    by (simp only: in_measure prod.case fcard_fminus1_less)
qed simp

declare advance.simps [simp del]

definition skip_cancelled :: "coordinator \<Rightarrow> coordinator" where
  "skip_cancelled c =
     (case advance (co_next c) (co_cancelled c) of (n, rest) \<Rightarrow> c\<lparr>co_next := n, co_cancelled := rest\<rparr>)"

definition coordinator_finish :: "nat \<Rightarrow> coordinator \<Rightarrow> coordinator" where
  "coordinator_finish sequence c =
     (if sequence < co_next c then c
      else if sequence \<noteq> co_next c then c\<lparr>co_cancelled := finsert sequence (co_cancelled c)\<rparr>
      else skip_cancelled (c\<lparr>co_active := None, co_next := co_next c + 1\<rparr>))"

definition coordinator_cancel :: "nat \<Rightarrow> coordinator \<Rightarrow> coordinator" where
  "coordinator_cancel sequence c =
     (if sequence < co_next c then c
      else
        (let c1 = c\<lparr>co_cancelled := finsert sequence (co_cancelled c)\<rparr> in
         if sequence = co_next c1 then skip_cancelled (c1\<lparr>co_active := None\<rparr>) else c1))"

section \<open>Turns\<close>

record broadcast_turn =
  bt_priority :: int
  bt_waiter :: "waiter option"
  bt_token :: "nat option"
  bt_completed :: bool

record reply_turn =
  rt_sequence :: nat
  rt_broadcast :: broadcast_turn
  rt_ordering :: bool
  rt_acquired :: bool
  rt_completed :: bool

definition new_broadcast_turn :: "int \<Rightarrow> broadcast_turn" where
  "new_broadcast_turn priority = \<lparr>bt_priority = priority, bt_waiter = None, bt_token = None, bt_completed = False\<rparr>"

definition new_reply_turn :: "nat \<Rightarrow> int \<Rightarrow> reply_turn" where
  "new_reply_turn sequence priority =
     \<lparr>rt_sequence = sequence, rt_broadcast = new_broadcast_turn priority, rt_ordering = False,
      rt_acquired = False, rt_completed = False\<rparr>"

text \<open>
  The turn of the arbiter: \<open>broadcast_begin\<close> enters the wait unless the turn is completed or holds
  the channel, \<open>broadcast_granted\<close> ends it, and \<open>broadcast_start_failed\<close> gives the channel back when
  \<open>on_acquired\<close>, which is awaited then, raises.
\<close>

definition broadcast_begin :: "broadcast_turn \<Rightarrow> arbiter \<Rightarrow> broadcast_turn \<times> arbiter" where
  "broadcast_begin t a =
     (if bt_completed t \<or> bt_token t \<noteq> None then (t, a)
      else (case arbiter_enter (bt_priority t) a of (a1, w) \<Rightarrow> (t\<lparr>bt_waiter := Some w\<rparr>, a1)))"

definition broadcast_granted :: "broadcast_turn \<Rightarrow> arbiter \<Rightarrow> (broadcast_turn \<times> arbiter) option" where
  "broadcast_granted t a =
     (case bt_waiter t of
        None \<Rightarrow> None
      | Some w \<Rightarrow>
          (case arbiter_grant w a of
             None \<Rightarrow> None
           | Some a1 \<Rightarrow> Some (t\<lparr>bt_waiter := None, bt_token := Some (snd w)\<rparr>, a1)))"

definition broadcast_start_failed :: "broadcast_turn \<Rightarrow> arbiter \<Rightarrow> broadcast_turn \<times> arbiter" where
  "broadcast_start_failed t a =
     (case bt_token t of None \<Rightarrow> (t, a) | Some token \<Rightarrow> (t\<lparr>bt_token := None\<rparr>, arbiter_release token a))"

definition broadcast_interrupted :: "broadcast_turn \<Rightarrow> arbiter \<Rightarrow> broadcast_turn \<times> arbiter" where
  "broadcast_interrupted t a =
     (case bt_waiter t of None \<Rightarrow> (t, a) | Some w \<Rightarrow> (t\<lparr>bt_waiter := None\<rparr>, arbiter_leave w a))"

definition broadcast_finish :: "broadcast_turn \<Rightarrow> arbiter \<Rightarrow> broadcast_turn \<times> arbiter" where
  "broadcast_finish t a =
     (if bt_completed t then (t, a)
      else
        (case bt_token t of
           None \<Rightarrow> (t\<lparr>bt_completed := True\<rparr>, a)
         | Some token \<Rightarrow> (t\<lparr>bt_completed := True, bt_token := None\<rparr>, arbiter_release token a)))"

text \<open>The turn of a reply: first its place in the order, then the channel.\<close>

definition reply_begin :: "reply_turn \<Rightarrow> reply_turn" where
  "reply_begin t = (if rt_completed t \<or> rt_acquired t then t else t\<lparr>rt_ordering := True\<rparr>)"

definition reply_ordered :: "reply_turn \<Rightarrow> coordinator \<Rightarrow> arbiter \<Rightarrow> (reply_turn \<times> coordinator \<times> arbiter) option" where
  "reply_ordered t c a =
     (if \<not> rt_ordering t then None
      else
        (case coordinator_acquire (rt_sequence t) c of
           None \<Rightarrow> None
         | Some c1 \<Rightarrow>
             (case broadcast_begin (rt_broadcast t) a of
                (b, a1) \<Rightarrow>
                  Some (t\<lparr>rt_ordering := False, rt_broadcast := b, rt_acquired := (bt_waiter b = None)\<rparr>, c1, a1))))"

definition reply_granted :: "reply_turn \<Rightarrow> arbiter \<Rightarrow> (reply_turn \<times> arbiter) option" where
  "reply_granted t a =
     (case broadcast_granted (rt_broadcast t) a of
        None \<Rightarrow> None
      | Some (b, a1) \<Rightarrow> Some (t\<lparr>rt_broadcast := b, rt_acquired := True\<rparr>, a1))"

definition reply_interrupted :: "reply_turn \<Rightarrow> arbiter \<Rightarrow> reply_turn \<times> arbiter" where
  "reply_interrupted t a =
     (case broadcast_interrupted (rt_broadcast t) a of
        (b, a1) \<Rightarrow> (t\<lparr>rt_ordering := False, rt_broadcast := b\<rparr>, a1))"

definition reply_complete ::
  "(nat \<Rightarrow> coordinator \<Rightarrow> coordinator) \<Rightarrow> reply_turn \<Rightarrow> coordinator \<Rightarrow> arbiter \<Rightarrow> reply_turn \<times> coordinator \<times> arbiter" where
  "reply_complete how t c a =
     (if rt_completed t then (t, c, a)
      else
        (case broadcast_finish (rt_broadcast t) a of
           (b, a1) \<Rightarrow> (t\<lparr>rt_completed := True, rt_broadcast := b\<rparr>, how (rt_sequence t) c, a1)))"

definition reply_finish :: "reply_turn \<Rightarrow> coordinator \<Rightarrow> arbiter \<Rightarrow> reply_turn \<times> coordinator \<times> arbiter" where
  "reply_finish = reply_complete coordinator_finish"

definition reply_cancel :: "reply_turn \<Rightarrow> coordinator \<Rightarrow> arbiter \<Rightarrow> reply_turn \<times> coordinator \<times> arbiter" where
  "reply_cancel = reply_complete coordinator_cancel"

end
