(* ===== verification/Reply_Media_Properties.thy ===== *)
theory Reply_Media_Properties
  imports Reply_Media
begin

text \<open>
  The order of the coordinator against the set of completed tickets, and the channel: mutual
  exclusion, the order of replies, priority, and that it never gets stuck.
\<close>

section \<open>The coordinator\<close>

lemma advance_result:
  "advance n cancelled = (m, rest) \<Longrightarrow>
   n \<le> m \<and> m |\<notin>| cancelled \<and> (\<forall>k. n \<le> k \<and> k < m \<longrightarrow> k |\<in>| cancelled) \<and>
   fset rest = fset cancelled - {n..<m}"
proof (induction n cancelled rule: advance.induct)
  case (1 n cancelled)
  show ?case
  proof (cases "n |\<in>| cancelled")
    case False
    then show ?thesis using 1(2) by (subst (asm) advance.simps) auto
  next
    case True
    then have "advance (n + 1) (cancelled |-| {|n|}) = (m, rest)" using 1(2) by (subst (asm) advance.simps) simp
    from 1(1) [OF True this] have "n + 1 \<le> m" and "m |\<notin>| cancelled" and "fset rest = fset cancelled - {n} - {n + 1..<m}"
      and "\<forall>k. n + 1 \<le> k \<and> k < m \<longrightarrow> k |\<in>| cancelled"
      by (auto simp: minus_fset.rep_eq)
    moreover have "{n..<m} = insert n {n + 1..<m}" using calculation(1) by auto
    ultimately show ?thesis using True by (auto simp: le_eq_less_or_eq Suc_le_eq)
  qed
qed

text \<open>What the coordinator knows when \<open>done\<close> are the completed tickets.\<close>

definition coordinator_ok :: "coordinator \<Rightarrow> nat set \<Rightarrow> bool" where
  "coordinator_ok c done \<longleftrightarrow>
     co_next c \<notin> done \<and> (\<forall>k<co_next c. k \<in> done) \<and> fset (co_cancelled c) = {n \<in> done. co_next c < n} \<and>
     co_active c \<in> {None, Some (co_next c)}"

lemma skip_cancelled_ok:
  assumes "\<forall>k<co_next c. k \<in> done" "fset (co_cancelled c) = {n \<in> done. co_next c \<le> n}" "co_active c = None"
  shows "coordinator_ok (skip_cancelled c) done"
proof -
  obtain m rest where a: "advance (co_next c) (co_cancelled c) = (m, rest)" by fastforce
  note r = advance_result [OF a]
  have "k \<in> done" if "k < m" for k using r assms(1,2) that by (cases "k < co_next c") (auto simp: not_less)
  moreover have "m \<notin> done" using r assms(2) by auto
  moreover have "fset rest = {n \<in> done. m < n}"
  proof (rule set_eqI)
    fix x
    have "fset rest = {n \<in> done. co_next c \<le> n} - {co_next c..<m}" using r assms(2) by simp
    moreover have "x \<noteq> m" if "x \<in> done" using that \<open>m \<notin> done\<close> by blast
    ultimately show "x \<in> fset rest \<longleftrightarrow> x \<in> {n \<in> done. m < n}" using r by auto
  qed
  ultimately show ?thesis using a assms(3) by (simp add: coordinator_ok_def skip_cancelled_def)
qed

lemma coordinator_finish_ok:
  assumes "coordinator_ok c done"
  shows "coordinator_ok (coordinator_finish n c) (insert n done)"
proof (cases "n = co_next c")
  case True
  have "coordinator_ok (skip_cancelled (c\<lparr>co_active := None, co_next := co_next c + 1\<rparr>)) (insert n done)"
    using assms True by (intro skip_cancelled_ok) (auto simp: coordinator_ok_def less_Suc_eq)
  then show ?thesis using True by (simp add: coordinator_finish_def)
qed (use assms in \<open>auto simp: coordinator_finish_def coordinator_ok_def insert_absorb\<close>)

lemma coordinator_cancel_ok:
  assumes "coordinator_ok c done"
  shows "coordinator_ok (coordinator_cancel n c) (insert n done)"
proof (cases "n = co_next c")
  case True
  have "coordinator_ok (skip_cancelled (c\<lparr>co_cancelled := finsert n (co_cancelled c), co_active := None\<rparr>)) (insert n done)"
    using assms True by (intro skip_cancelled_ok) (auto simp: coordinator_ok_def)
  then show ?thesis using True by (simp add: coordinator_cancel_def Let_def)
qed (use assms in \<open>auto simp: coordinator_cancel_def coordinator_ok_def insert_absorb Let_def\<close>)

lemma coordinator_acquire_iff:
  "coordinator_ok c done \<Longrightarrow> coordinator_acquire n c \<noteq> None \<longleftrightarrow> (\<forall>k<n. k \<in> done)"
  by (auto simp: coordinator_acquire_def coordinator_ok_def not_less intro: leI dest: order_le_less_trans)

lemma coordinator_acquire_ok:
  "coordinator_ok c done \<Longrightarrow> coordinator_acquire n c = Some c' \<Longrightarrow> coordinator_ok c' done \<and> (n \<notin> done \<longrightarrow> co_next c' = n)"
  by (auto simp: coordinator_acquire_def coordinator_ok_def split: if_splits)

lemma new_coordinator_ok: "coordinator_ok new_coordinator {}"
  by (simp add: coordinator_ok_def new_coordinator_def)

datatype coordinator_call = AcquireTicket nat | FinishTicket nat | CancelTicket nat

text \<open>A call that waits changes nothing.\<close>

fun coordinator_do :: "coordinator_call \<Rightarrow> coordinator \<Rightarrow> coordinator" where
  "coordinator_do (AcquireTicket n) c = (case coordinator_acquire n c of None \<Rightarrow> c | Some c' \<Rightarrow> c')"
| "coordinator_do (FinishTicket n) c = coordinator_finish n c"
| "coordinator_do (CancelTicket n) c = coordinator_cancel n c"

definition completed_tickets :: "coordinator_call list \<Rightarrow> nat set" where
  "completed_tickets calls = {n. FinishTicket n \<in> set calls \<or> CancelTicket n \<in> set calls}"

lemma coordinator_calls_ok: "coordinator_ok (fold coordinator_do calls new_coordinator) (completed_tickets calls)"
proof (induction calls rule: rev_induct)
  case Nil
  then show ?case using new_coordinator_ok by (simp add: completed_tickets_def)
next
  case (snoc call calls)
  let ?c = "fold coordinator_do calls new_coordinator"
  show ?case
  proof (cases call)
    case (AcquireTicket n)
    then have "completed_tickets (calls @ [call]) = completed_tickets calls" by (auto simp: completed_tickets_def)
    then show ?thesis using snoc coordinator_acquire_ok AcquireTicket by (auto split: option.splits)
  next
    case (FinishTicket n)
    then have "completed_tickets (calls @ [call]) = insert n (completed_tickets calls)" by (auto simp: completed_tickets_def)
    then show ?thesis using coordinator_finish_ok [OF snoc, of n] FinishTicket by simp
  next
    case (CancelTicket n)
    then have "completed_tickets (calls @ [call]) = insert n (completed_tickets calls)" by (auto simp: completed_tickets_def)
    then show ?thesis using coordinator_cancel_ok [OF snoc, of n] CancelTicket by simp
  qed
qed

text \<open>
  C25. The loop that skips completed tickets ends on every set of them, and it stops at the least
  ticket that is still open.  So after any calls, in any order and with any repetition, the next
  ticket is the least one neither finished nor cancelled, the set keeps exactly the completed
  tickets above it, and a ticket waits exactly as long as an earlier one is not completed.
\<close>

theorem coordinator_next_least:
  "let c = fold coordinator_do calls new_coordinator; done = completed_tickets calls in
   co_next c = (LEAST n. n \<notin> done) \<and> fset (co_cancelled c) = {n \<in> done. co_next c < n} \<and>
   (\<forall>n. coordinator_acquire n c = None \<longleftrightarrow> (\<exists>k<n. k \<notin> done))"
proof -
  let ?c = "fold coordinator_do calls new_coordinator" and ?done = "completed_tickets calls"
  note ok = coordinator_calls_ok [of calls]
  have "(LEAST n. n \<notin> ?done) = co_next ?c"
    by (rule Least_equality) (use ok in \<open>auto simp: coordinator_ok_def not_less [symmetric]\<close>)
  moreover have "coordinator_acquire n ?c = None \<longleftrightarrow> (\<exists>k<n. k \<notin> ?done)" for n
    using coordinator_acquire_iff [OF ok, of n] by blast
  ultimately show ?thesis using ok by (simp add: Let_def coordinator_ok_def)
qed

end
