(* ===== verification/Media_Channel.thy ===== *)
theory Media_Channel
  imports Reply_Media_Properties
begin

text \<open>
  The livestream's media channel as a whole: the turns of the replies, ordered by the coordinator,
  and the turns of every other speaker (singing, chat, narration, proactive topics) share one
  arbiter.  A step is one operation of one turn between two suspensions; the operations of one turn
  are called one after the other by the task that owns it.
\<close>

section \<open>Steps\<close>

record media =
  md_coordinator :: coordinator
  md_arbiter :: arbiter
  md_replies :: "nat \<Rightarrow> reply_turn"
  md_others :: "nat \<Rightarrow> broadcast_turn"

definition new_media :: "(nat \<Rightarrow> int) \<Rightarrow> (nat \<Rightarrow> int) \<Rightarrow> media" where
  "new_media reply_priority other_priority =
     \<lparr>md_coordinator = new_coordinator, md_arbiter = new_arbiter,
      md_replies = (\<lambda>n. new_reply_turn n (reply_priority n)), md_others = (\<lambda>k. new_broadcast_turn (other_priority k))\<rparr>"

definition reply_waits :: "reply_turn \<Rightarrow> bool" where
  "reply_waits t \<longleftrightarrow> rt_ordering t \<or> bt_waiter (rt_broadcast t) \<noteq> None"

definition set_reply :: "nat \<Rightarrow> reply_turn \<Rightarrow> coordinator \<Rightarrow> arbiter \<Rightarrow> media \<Rightarrow> media" where
  "set_reply n t c a m = m\<lparr>md_replies := (md_replies m)(n := t), md_coordinator := c, md_arbiter := a\<rparr>"

definition set_other :: "nat \<Rightarrow> broadcast_turn \<Rightarrow> arbiter \<Rightarrow> media \<Rightarrow> media" where
  "set_other k t a m = m\<lparr>md_others := (md_others m)(k := t), md_arbiter := a\<rparr>"

inductive media_step :: "media \<Rightarrow> media \<Rightarrow> bool" where
  reply_begins:
    "\<not> reply_waits (md_replies m n) \<Longrightarrow>
     media_step m (set_reply n (reply_begin (md_replies m n)) (md_coordinator m) (md_arbiter m) m)"
| reply_in_order:
    "reply_ordered (md_replies m n) (md_coordinator m) (md_arbiter m) = Some (t, c, a) \<Longrightarrow>
     media_step m (set_reply n t c a m)"
| reply_speaks:
    "reply_granted (md_replies m n) (md_arbiter m) = Some (t, a) \<Longrightarrow>
     media_step m (set_reply n t (md_coordinator m) a m)"
| reply_gives_up:
    "reply_interrupted (md_replies m n) (md_arbiter m) = (t, a) \<Longrightarrow>
     media_step m (set_reply n t (md_coordinator m) a m)"
| reply_finishes:
    "\<not> reply_waits (md_replies m n) \<Longrightarrow>
     reply_finish (md_replies m n) (md_coordinator m) (md_arbiter m) = (t, c, a) \<Longrightarrow>
     media_step m (set_reply n t c a m)"
| reply_cancelled:
    "\<not> reply_waits (md_replies m n) \<Longrightarrow>
     reply_cancel (md_replies m n) (md_coordinator m) (md_arbiter m) = (t, c, a) \<Longrightarrow>
     media_step m (set_reply n t c a m)"
| other_begins:
    "bt_waiter (md_others m k) = None \<Longrightarrow> broadcast_begin (md_others m k) (md_arbiter m) = (t, a) \<Longrightarrow>
     media_step m (set_other k t a m)"
| other_speaks:
    "broadcast_granted (md_others m k) (md_arbiter m) = Some (t, a) \<Longrightarrow> media_step m (set_other k t a m)"
| other_start_fails:
    "broadcast_start_failed (md_others m k) (md_arbiter m) = (t, a) \<Longrightarrow> media_step m (set_other k t a m)"
| other_gives_up:
    "broadcast_interrupted (md_others m k) (md_arbiter m) = (t, a) \<Longrightarrow> media_step m (set_other k t a m)"
| other_finishes:
    "bt_waiter (md_others m k) = None \<Longrightarrow> broadcast_finish (md_others m k) (md_arbiter m) = (t, a) \<Longrightarrow>
     media_step m (set_other k t a m)"

text \<open>Every turn of the channel, of a reply or of another speaker.\<close>

fun turn_of :: "media \<Rightarrow> nat + nat \<Rightarrow> broadcast_turn" where
  "turn_of m (Inl n) = rt_broadcast (md_replies m n)"
| "turn_of m (Inr k) = md_others m k"

lemma turn_of_set [simp]:
  "turn_of (set_reply n t c a m) = (turn_of m)(Inl n := rt_broadcast t)"
  "turn_of (set_other k b a m) = (turn_of m)(Inr k := b)"
proof -
  show "turn_of (set_reply n t c a m) = (turn_of m)(Inl n := rt_broadcast t)"
  proof
    fix x show "turn_of (set_reply n t c a m) x = ((turn_of m)(Inl n := rt_broadcast t)) x"
      by (cases x) (simp_all add: set_reply_def)
  qed
  show "turn_of (set_other k b a m) = (turn_of m)(Inr k := b)"
  proof
    fix x show "turn_of (set_other k b a m) x = ((turn_of m)(Inr k := b)) x"
      by (cases x) (simp_all add: set_other_def)
  qed
qed

section \<open>The channel\<close>

text \<open>The waiting list and the turns agree: one turn for each waiter, and one turn for the active token.\<close>

definition arbiter_ok :: "arbiter \<Rightarrow> bool" where
  "arbiter_ok a \<longleftrightarrow>
     distinct (map snd (ar_waiters a)) \<and> sorted_wrt waiter_le (ar_waiters a) \<and>
     (\<forall>w\<in>set (ar_waiters a). snd w < ar_counter a) \<and>
     (\<forall>token. ar_active a = Some token \<longrightarrow> token < ar_counter a \<and> token \<notin> snd ` set (ar_waiters a))"

definition turn_ok :: "broadcast_turn \<Rightarrow> arbiter \<Rightarrow> bool" where
  "turn_ok b a \<longleftrightarrow>
     (\<forall>w. bt_waiter b = Some w \<longrightarrow> w \<in> set (ar_waiters a) \<and> bt_token b = None \<and> \<not> bt_completed b) \<and>
     (\<forall>token. bt_token b = Some token \<longrightarrow> ar_active a = Some token \<and> \<not> bt_completed b)"

definition channel_ok :: "('i \<Rightarrow> broadcast_turn) \<Rightarrow> arbiter \<Rightarrow> bool" where
  "channel_ok B a \<longleftrightarrow> arbiter_ok a \<and> (\<forall>x. turn_ok (B x) a) \<and>
     (\<forall>w\<in>set (ar_waiters a). \<exists>x. bt_waiter (B x) = Some w) \<and>
     (\<forall>x y w. bt_waiter (B x) = Some w \<longrightarrow> bt_waiter (B y) = Some w \<longrightarrow> x = y) \<and>
     (\<forall>token. ar_active a = Some token \<longrightarrow> (\<exists>x. bt_token (B x) = Some token)) \<and>
     (\<forall>x y. bt_token (B x) \<noteq> None \<longrightarrow> bt_token (B y) \<noteq> None \<longrightarrow> x = y)"

lemma channel_okI:
  assumes "arbiter_ok a" "\<And>x. turn_ok (B x) a"
    and "\<And>w. w \<in> set (ar_waiters a) \<Longrightarrow> \<exists>x. bt_waiter (B x) = Some w"
    and "\<And>x y w. bt_waiter (B x) = Some w \<Longrightarrow> bt_waiter (B y) = Some w \<Longrightarrow> x = y"
    and "\<And>token. ar_active a = Some token \<Longrightarrow> \<exists>x. bt_token (B x) = Some token"
    and "\<And>x y. bt_token (B x) \<noteq> None \<Longrightarrow> bt_token (B y) \<noteq> None \<Longrightarrow> x = y"
  shows "channel_ok B a"
  using assms unfolding channel_ok_def by blast

lemma channel_okD:
  assumes "channel_ok B a"
  shows "arbiter_ok a" "turn_ok (B x) a"
    and "w \<in> set (ar_waiters a) \<Longrightarrow> \<exists>x. bt_waiter (B x) = Some w"
    and "bt_waiter (B x) = Some w \<Longrightarrow> bt_waiter (B y) = Some w \<Longrightarrow> x = y"
    and "ar_active a = Some token \<Longrightarrow> \<exists>x. bt_token (B x) = Some token"
    and "bt_token (B x) = Some t \<Longrightarrow> bt_token (B y) = Some u \<Longrightarrow> x = y"
    and "bt_waiter (B x) = Some w \<Longrightarrow> w \<in> set (ar_waiters a) \<and> bt_token (B x) = None \<and> \<not> bt_completed (B x)"
    and "bt_token (B x) = Some t \<Longrightarrow> ar_active a = Some t \<and> \<not> bt_completed (B x) \<and> bt_waiter (B x) = None"
proof -
  note c = assms [unfolded channel_ok_def]
  show "arbiter_ok a" using c by blast
  show t: "turn_ok (B x) a" for x using c by blast
  show "w \<in> set (ar_waiters a) \<Longrightarrow> \<exists>x. bt_waiter (B x) = Some w" using c by blast
  show "bt_waiter (B x) = Some w \<Longrightarrow> bt_waiter (B y) = Some w \<Longrightarrow> x = y" using c by blast
  show "ar_active a = Some token \<Longrightarrow> \<exists>x. bt_token (B x) = Some token" using c by blast
  show "bt_token (B x) = Some t \<Longrightarrow> bt_token (B y) = Some u \<Longrightarrow> x = y" using c by simp
  show "bt_waiter (B x) = Some w \<Longrightarrow> w \<in> set (ar_waiters a) \<and> bt_token (B x) = None \<and> \<not> bt_completed (B x)"
    using t [of x] by (simp add: turn_ok_def)
  show "bt_token (B x) = Some t \<Longrightarrow> ar_active a = Some t \<and> \<not> bt_completed (B x) \<and> bt_waiter (B x) = None"
    using t [of x] by (cases "bt_waiter (B x)") (auto simp: turn_ok_def)
qed

lemma set_heap_push [simp]: "set (heap_push w vs) = insert w (set vs)"
  by (induction vs) auto

lemma distinct_heap_push: "distinct (map snd (heap_push w vs)) \<longleftrightarrow> distinct (map snd vs) \<and> snd w \<notin> snd ` set vs"
  by (induction vs) auto

lemma sorted_heap_push: "sorted_wrt waiter_le vs \<Longrightarrow> sorted_wrt waiter_le (heap_push w vs)"
proof (induction vs)
  case (Cons v vs)
  have "waiter_le v w" if "\<not> waiter_le w v" using that by (auto simp: waiter_le_def)
  moreover have "waiter_le w u" if "waiter_le w v" "waiter_le v u" for u using that by (auto simp: waiter_le_def)
  ultimately show ?case using Cons by auto
qed simp

text \<open>A turn that changes neither what it waits for nor what it holds, in an arbiter that stays the same.\<close>

lemma unchanged_channel:
  assumes "channel_ok B a" "bt_waiter b = bt_waiter (B x)" "bt_token b = bt_token (B x)" "turn_ok b a"
  shows "channel_ok (B(x := b)) a"
proof -
  have "bt_waiter ((B(x := b)) y) = bt_waiter (B y)" "bt_token ((B(x := b)) y) = bt_token (B y)" for y
    using assms(2,3) by simp_all
  then show ?thesis using assms(1,4) unfolding channel_ok_def by (simp only: fun_upd_apply) auto
qed

lemma begin_channel:
  assumes ok: "channel_ok B a" and idle: "bt_waiter (B x) = None" and "broadcast_begin (B x) a = (b, a')"
  shows "channel_ok (B(x := b)) a'"
proof (cases "bt_completed (B x) \<or> bt_token (B x) \<noteq> None")
  case True
  then show ?thesis using assms by (simp add: broadcast_begin_def fun_upd_idem)
next
  case False
  let ?w = "(bt_priority (B x), ar_counter a)"
  have b: "b = B x\<lparr>bt_waiter := Some ?w\<rparr>" and
    a': "a' = a\<lparr>ar_counter := ar_counter a + 1, ar_waiters := heap_push ?w (ar_waiters a)\<rparr>"
    using assms(3) False by (auto simp: broadcast_begin_def arbiter_enter_def Let_def)
  note D = channel_okD [OF ok]
  have fresh: "ar_counter a \<notin> snd ` set (ar_waiters a)" using D(1) by (auto simp: arbiter_ok_def)
  have old: "bt_waiter (B y) = Some w \<Longrightarrow> w \<noteq> ?w" for y w using D(7) [of y w] fresh by force
  show ?thesis
  proof (rule channel_okI)
    show "arbiter_ok a'"
      using D(1) fresh unfolding arbiter_ok_def a' by (auto simp: distinct_heap_push sorted_heap_push less_Suc_eq)
    show "turn_ok ((B(x := b)) y) a'" for y
      using D(2) [of y] False by (auto simp: turn_ok_def a' b)
    show "\<exists>y. bt_waiter ((B(x := b)) y) = Some w" if win: "w \<in> set (ar_waiters a')" for w
    proof (cases "w = ?w")
      case True
      then show ?thesis using b by (intro exI [of _ x]) simp
    next
      case False
      then obtain y where "bt_waiter (B y) = Some w" using win D(3) [of w] by (auto simp: a')
      then show ?thesis using idle by (intro exI [of _ y]) auto
    qed
    show "y = z" if "bt_waiter ((B(x := b)) y) = Some w" "bt_waiter ((B(x := b)) z) = Some w" for y z w
      using that old D(4) [of y w z] b by (auto split: if_splits)
    show "\<exists>y. bt_token ((B(x := b)) y) = Some token" if "ar_active a' = Some token" for token
      using that D(5) [of token] b by (auto simp: a')
    show "y = z" if "bt_token ((B(x := b)) y) \<noteq> None" "bt_token ((B(x := b)) z) \<noteq> None" for y z
      using that D(6) False b by (auto split: if_splits)
  qed
qed

lemma granted_channel:
  assumes ok: "channel_ok B a" and "broadcast_granted (B x) a = Some (b, a')"
  shows "channel_ok (B(x := b)) a'" and "bt_token b \<noteq> None" "ar_active a = None"
    and "\<exists>w. bt_waiter (B x) = Some w \<and> b = B x\<lparr>bt_waiter := None, bt_token := Some (snd w)\<rparr> \<and>
      (\<forall>y v. bt_waiter (B y) = Some v \<longrightarrow> waiter_le w v)"
proof -
  obtain w vs where w: "bt_waiter (B x) = Some w" and free: "ar_active a = None" and vs: "ar_waiters a = w # vs"
    and b: "b = B x\<lparr>bt_waiter := None, bt_token := Some (snd w)\<rparr>"
    and a': "a' = a\<lparr>ar_waiters := vs, ar_active := Some (snd w)\<rparr>"
    using assms(2) by (auto simp: broadcast_granted_def arbiter_grant_def split: option.splits list.splits if_splits)
  note D = channel_okD [OF ok]
  have none: "bt_token (B y) = None" for y using D(8) [of y] free by (cases "bt_token (B y)") auto
  show "channel_ok (B(x := b)) a'"
  proof (rule channel_okI)
    show "arbiter_ok a'" using D(1) vs by (auto simp: arbiter_ok_def a')
    show "turn_ok ((B(x := b)) y) a'" for y
      using D(2) [of y] D(7) [OF w] D(4) [OF w, of y] none [of y] vs by (auto simp: turn_ok_def a' b)
    show "\<exists>y. bt_waiter ((B(x := b)) y) = Some v" if "v \<in> set (ar_waiters a')" for v
    proof -
      have "v \<in> set vs" using that by (simp add: a')
      moreover have "v \<noteq> w" using calculation D(1) vs by (force simp: arbiter_ok_def)
      ultimately obtain y where "bt_waiter (B y) = Some v" using D(3) [of v] vs by auto
      then show ?thesis using w \<open>v \<noteq> w\<close> by (intro exI [of _ y]) auto
    qed
    show "y = z" if "bt_waiter ((B(x := b)) y) = Some v" "bt_waiter ((B(x := b)) z) = Some v" for y z v
      using that D(4) [of y v z] b by (auto split: if_splits)
    show "\<exists>y. bt_token ((B(x := b)) y) = Some token" if "ar_active a' = Some token" for token
      using that b by (intro exI [of _ x]) (simp add: a')
    show "y = z" if "bt_token ((B(x := b)) y) \<noteq> None" "bt_token ((B(x := b)) z) \<noteq> None" for y z
      using that none by (auto split: if_splits)
  qed
  have "waiter_le w v" if "bt_waiter (B y) = Some v" for y v
    using D(7) [OF that] D(1) vs by (auto simp: arbiter_ok_def waiter_le_def)
  then show "\<exists>w. bt_waiter (B x) = Some w \<and> b = B x\<lparr>bt_waiter := None, bt_token := Some (snd w)\<rparr> \<and>
      (\<forall>y v. bt_waiter (B y) = Some v \<longrightarrow> waiter_le w v)" using w b by blast
qed (use assms(2) in \<open>auto simp: broadcast_granted_def arbiter_grant_def split: option.splits list.splits if_splits\<close>)

text \<open>Giving back the channel, with or without completing the turn.\<close>

lemma release_channel:
  assumes ok: "channel_ok B a" and token: "bt_token (B x) = Some token"
    and b: "bt_token b = None" "bt_waiter b = bt_waiter (B x)"
  shows "channel_ok (B(x := b)) (arbiter_release token a)"
proof -
  note D = channel_okD [OF ok]
  have a': "arbiter_release token a = a\<lparr>ar_active := None\<rparr>" using D(8) [OF token] by (simp add: arbiter_release_def)
  have none: "bt_token ((B(x := b)) y) = None" for y using D(6) [OF token, of y] b by (cases "bt_token (B y)") auto
  have wait: "bt_waiter ((B(x := b)) y) = bt_waiter (B y)" for y using b by simp
  show ?thesis unfolding a'
  proof (rule channel_okI)
    show "arbiter_ok (a\<lparr>ar_active := None\<rparr>)" using D(1) by (simp add: arbiter_ok_def)
    show "turn_ok ((B(x := b)) y) (a\<lparr>ar_active := None\<rparr>)" for y
      using D(2) [of y] none [of y] D(8) [OF token] b by (auto simp: turn_ok_def)
    show "\<exists>y. bt_waiter ((B(x := b)) y) = Some w" if "w \<in> set (ar_waiters (a\<lparr>ar_active := None\<rparr>))" for w
      using that D(3) [of w] unfolding wait by simp
    show "y = z" if "bt_waiter ((B(x := b)) y) = Some v" "bt_waiter ((B(x := b)) z) = Some v" for y z v
      using that D(4) unfolding wait by blast
  qed (use none in simp_all)
qed

lemma finish_channel:
  assumes ok: "channel_ok B a" and idle: "bt_waiter (B x) = None" and "broadcast_finish (B x) a = (b, a')"
  shows "channel_ok (B(x := b)) a'" "bt_completed b" "bt_waiter b = None" "bt_token b = None"
proof -
  show "channel_ok (B(x := b)) a'"
  proof (cases "bt_completed (B x)")
    case True
    then show ?thesis using assms by (simp add: broadcast_finish_def fun_upd_idem)
  next
    case open_turn: False
    show ?thesis
    proof (cases "bt_token (B x)")
      case None
      have "channel_ok (B(x := B x\<lparr>bt_completed := True\<rparr>)) a"
        using idle None by (intro unchanged_channel [OF ok]) (simp_all add: turn_ok_def)
      then show ?thesis using assms(3) open_turn None by (simp add: broadcast_finish_def)
    next
      case (Some token)
      then show ?thesis using assms open_turn by (auto simp: broadcast_finish_def intro!: release_channel)
    qed
  qed
  show "bt_completed b" "bt_waiter b = None" "bt_token b = None"
    using assms channel_okD(8) [OF ok, of x]
    by (cases "bt_token (B x)"; auto simp: broadcast_finish_def split: if_splits)+
qed

lemma start_failed_channel:
  assumes ok: "channel_ok B a" and "broadcast_start_failed (B x) a = (b, a')"
  shows "channel_ok (B(x := b)) a'"
proof (cases "bt_token (B x)")
  case None
  then show ?thesis using assms by (simp add: broadcast_start_failed_def fun_upd_idem)
next
  case (Some token)
  then show ?thesis using assms by (auto simp: broadcast_start_failed_def intro!: release_channel)
qed

lemma interrupted_channel:
  assumes ok: "channel_ok B a" and "broadcast_interrupted (B x) a = (b, a')"
  shows "channel_ok (B(x := b)) a'" and "bt_waiter b = None" "bt_token b = bt_token (B x)" "bt_completed b = bt_completed (B x)"
proof -
  show "channel_ok (B(x := b)) a'"
  proof (cases "bt_waiter (B x)")
    case None
    then show ?thesis using assms by (simp add: broadcast_interrupted_def fun_upd_idem)
  next
    case (Some w)
    then have b: "b = B x\<lparr>bt_waiter := None\<rparr>" and a': "a' = a\<lparr>ar_waiters := remove1 w (ar_waiters a)\<rparr>"
      using assms(2) by (simp_all add: broadcast_interrupted_def arbiter_leave_def)
    note D = channel_okD [OF ok]
    have d: "distinct (ar_waiters a)" using D(1) by (simp add: arbiter_ok_def distinct_map)
    have set': "set (ar_waiters a') = set (ar_waiters a) - {w}" using d by (simp add: a')
    have "ar_waiters a' = filter (\<lambda>v. v \<noteq> w) (ar_waiters a)"
      using d by (simp add: a' distinct_remove1_removeAll removeAll_filter_not_eq) metis
    then have sub: "sorted_wrt waiter_le (ar_waiters a')" "distinct (map snd (ar_waiters a'))"
      using D(1) by (simp_all add: arbiter_ok_def sorted_wrt_filter distinct_map_filter)
    show ?thesis
    proof (rule channel_okI)
      show "arbiter_ok a'" using D(1) sub set' by (auto simp: arbiter_ok_def a')
      show "turn_ok ((B(x := b)) y) a'" for y
        using D(2) [of y] D(4) [OF Some, of y] set' by (auto simp: turn_ok_def b) (auto simp: a')
      show "\<exists>y. bt_waiter ((B(x := b)) y) = Some v" if "v \<in> set (ar_waiters a')" for v
      proof -
        have "v \<noteq> w" and "v \<in> set (ar_waiters a)" using that set' by auto
        with D(3) obtain y where "bt_waiter (B y) = Some v" by blast
        then show ?thesis using Some \<open>v \<noteq> w\<close> by (intro exI [of _ y]) auto
      qed
      show "y = z" if "bt_waiter ((B(x := b)) y) = Some v" "bt_waiter ((B(x := b)) z) = Some v" for y z v
        using that D(4) [of y v z] b by (auto split: if_splits)
      show "\<exists>y. bt_token ((B(x := b)) y) = Some token" if "ar_active a' = Some token" for token
        using that D(5) [of token] b by (auto simp: a')
      show "y = z" if "bt_token ((B(x := b)) y) \<noteq> None" "bt_token ((B(x := b)) z) \<noteq> None" for y z
        using that D(6) b by (auto split: if_splits)
    qed
  qed
  show "bt_waiter b = None" "bt_token b = bt_token (B x)" "bt_completed b = bt_completed (B x)"
    using assms(2) by (auto simp: broadcast_interrupted_def split: option.splits)
qed

text \<open>A free channel that somebody waits for can be granted to somebody.\<close>

lemma channel_not_stuck:
  assumes ok: "channel_ok B a" and free: "\<And>x. bt_token (B x) = None" and waiting: "bt_waiter (B y) \<noteq> None"
  shows "\<exists>x. broadcast_granted (B x) a \<noteq> None"
proof -
  note D = channel_okD [OF ok]
  have "ar_active a = None" using D(5) free by (cases "ar_active a") auto
  moreover obtain w vs where w: "ar_waiters a = w # vs" using waiting D(7) [of y] by (cases "ar_waiters a") auto
  moreover obtain x where "bt_waiter (B x) = Some w" using D(3) [of w] w by auto
  ultimately have "broadcast_granted (B x) a \<noteq> None" by (simp add: broadcast_granted_def arbiter_grant_def)
  then show ?thesis by blast
qed

end
