(* ===== verification/Media_Channel_Properties.thy ===== *)
theory Media_Channel_Properties
  imports Media_Channel
begin

text \<open>
  The invariant of the whole channel under every step, and the property that rests on it: one
  speaker at a time, replies in the order of their submission, the least waiter first, and no wait
  that nobody can end.
\<close>

section \<open>The turns of the replies\<close>

text \<open>A reply against the coordinator: \<open>n\<close> is its ticket, \<open>next\<close> the next one.\<close>

definition reply_ok :: "nat \<Rightarrow> nat \<Rightarrow> reply_turn \<Rightarrow> bool" where
  "reply_ok next n t \<longleftrightarrow>
     rt_sequence t = n \<and> bt_completed (rt_broadcast t) = rt_completed t \<and>
     (rt_completed t \<longrightarrow> \<not> rt_ordering t) \<and>
     (rt_ordering t \<longrightarrow> \<not> rt_acquired t \<and> bt_waiter (rt_broadcast t) = None) \<and>
     (\<not> rt_completed t \<longrightarrow> rt_acquired t = (bt_token (rt_broadcast t) \<noteq> None)) \<and>
     (bt_waiter (rt_broadcast t) \<noteq> None \<or> bt_token (rt_broadcast t) \<noteq> None \<longrightarrow> next = n)"

definition completed_replies :: "media \<Rightarrow> nat set" where
  "completed_replies m = {n. rt_completed (md_replies m n)}"

definition media_ok :: "media \<Rightarrow> bool" where
  "media_ok m \<longleftrightarrow>
     channel_ok (turn_of m) (md_arbiter m) \<and> coordinator_ok (md_coordinator m) (completed_replies m) \<and>
     (\<forall>n. reply_ok (co_next (md_coordinator m)) n (md_replies m n))"

lemma set_reply_simps [simp]:
  "md_replies (set_reply n t c a m) = (md_replies m)(n := t)" "md_coordinator (set_reply n t c a m) = c"
  "md_arbiter (set_reply n t c a m) = a" "md_others (set_reply n t c a m) = md_others m"
  by (simp_all add: set_reply_def)

lemma set_other_simps [simp]:
  "md_replies (set_other k b a m) = md_replies m" "md_coordinator (set_other k b a m) = md_coordinator m"
  "md_arbiter (set_other k b a m) = a"
  by (simp_all add: set_other_def)

lemma completed_set_reply:
  "completed_replies (set_reply n t c a m) =
   (if rt_completed t then insert n (completed_replies m) else completed_replies m - {n})"
  by (auto simp: completed_replies_def)

lemma set_other_ok:
  assumes "media_ok m" "channel_ok ((turn_of m)(Inr k := b)) a"
  shows "media_ok (set_other k b a m)"
proof -
  have "completed_replies (set_other k b a m) = completed_replies m" by (simp add: completed_replies_def)
  then show ?thesis using assms by (simp add: media_ok_def)
qed

text \<open>A step of a reply that completes nothing and leaves the next ticket.\<close>

lemma set_reply_ok:
  assumes "media_ok m" "channel_ok ((turn_of m)(Inl n := rt_broadcast t)) a"
    and "coordinator_ok c (completed_replies m)" "rt_completed t = rt_completed (md_replies m n)"
    and "co_next c = co_next (md_coordinator m)" "reply_ok (co_next c) n t"
  shows "media_ok (set_reply n t c a m)"
proof -
  have "completed_replies (set_reply n t c a m) = completed_replies m"
    using assms(4) by (auto simp: completed_set_reply completed_replies_def)
  then show ?thesis using assms by (simp add: media_ok_def)
qed

lemma media_okD:
  assumes "media_ok m"
  shows "channel_ok (turn_of m) (md_arbiter m)" "coordinator_ok (md_coordinator m) (completed_replies m)"
    and "reply_ok (co_next (md_coordinator m)) n (md_replies m n)"
  using assms unfolding media_ok_def by blast+

lemma begins_ok:
  assumes "media_ok m" "\<not> reply_waits (md_replies m n)"
  shows "media_ok (set_reply n (reply_begin (md_replies m n)) (md_coordinator m) (md_arbiter m) m)"
proof -
  note D = media_okD [OF assms(1)]
  have "(turn_of m)(Inl n := rt_broadcast (reply_begin (md_replies m n))) = turn_of m"
    by (simp add: reply_begin_def fun_upd_idem_iff)
  then show ?thesis
    using D(1,2) D(3) [of n] assms(2)
    by (intro set_reply_ok [OF assms(1)]) (auto simp: reply_begin_def reply_ok_def reply_waits_def)
qed

lemma in_order_ok:
  assumes ok: "media_ok m" and "reply_ordered (md_replies m n) (md_coordinator m) (md_arbiter m) = Some (t, c, a)"
  shows "media_ok (set_reply n t c a m)"
proof -
  let ?r = "md_replies m n"
  note D = media_okD [OF ok] and r = media_okD(3) [OF ok, of n]
  obtain b where ord: "rt_ordering ?r" and c: "coordinator_acquire (rt_sequence ?r) (md_coordinator m) = Some c"
    and b: "broadcast_begin (rt_broadcast ?r) (md_arbiter m) = (b, a)"
    and t: "t = ?r\<lparr>rt_ordering := False, rt_broadcast := b, rt_acquired := (bt_waiter b = None)\<rparr>"
    using assms(2) by (auto simp: reply_ordered_def split: if_splits option.splits prod.splits)
  have open_turn: "\<not> rt_completed ?r" and idle: "bt_waiter (rt_broadcast ?r) = None" and seq: "rt_sequence ?r = n"
    and none: "bt_token (rt_broadcast ?r) = None" "\<not> bt_completed (rt_broadcast ?r)"
    using r ord by (auto simp: reply_ok_def)
  have notin: "n \<notin> completed_replies m" using open_turn by (simp add: completed_replies_def)
  note c' = coordinator_acquire_ok [OF D(2) c [unfolded seq]]
  have next_eq: "co_next c = co_next (md_coordinator m)" using c by (auto simp: coordinator_acquire_def split: if_splits)
  have "channel_ok ((turn_of m)(Inl n := b)) a"
    using begin_channel [OF D(1), of "Inl n" b a] idle b by simp
  moreover have "reply_ok (co_next c) n t"
    using r c' notin none b t by (auto simp: reply_ok_def broadcast_begin_def arbiter_enter_def Let_def)
  ultimately show ?thesis using c' next_eq t by (intro set_reply_ok [OF ok]) simp_all
qed

lemma speaks_ok:
  assumes ok: "media_ok m" and "reply_granted (md_replies m n) (md_arbiter m) = Some (t, a)"
  shows "media_ok (set_reply n t (md_coordinator m) a m)"
proof -
  obtain b where g: "broadcast_granted (turn_of m (Inl n)) (md_arbiter m) = Some (b, a)"
    and t: "t = md_replies m n\<lparr>rt_broadcast := b, rt_acquired := True\<rparr>"
    using assms(2) by (auto simp: reply_granted_def split: option.splits)
  note D = media_okD [OF ok] and G = granted_channel [OF media_okD(1) [OF ok] g]
  have "reply_ok (co_next (md_coordinator m)) n t"
    using D(3) [of n] G(2,4) t channel_okD(7) [OF D(1), of "Inl n"] by (auto simp: reply_ok_def)
  then show ?thesis using D(2) G(1) t by (intro set_reply_ok [OF ok]) simp_all
qed

lemma gives_up_ok:
  assumes ok: "media_ok m" and "reply_interrupted (md_replies m n) (md_arbiter m) = (t, a)"
  shows "media_ok (set_reply n t (md_coordinator m) a m)"
proof -
  obtain b where g: "broadcast_interrupted (turn_of m (Inl n)) (md_arbiter m) = (b, a)"
    and t: "t = md_replies m n\<lparr>rt_ordering := False, rt_broadcast := b\<rparr>"
    using assms(2) by (auto simp: reply_interrupted_def split: prod.splits)
  note D = media_okD [OF ok] and G = interrupted_channel [OF media_okD(1) [OF ok] g]
  have "reply_ok (co_next (md_coordinator m)) n t"
    using D(3) [of n] G(2,3,4) t by (auto simp: reply_ok_def)
  then show ?thesis using D(2) G(1) t by (intro set_reply_ok [OF ok]) simp_all
qed

lemma completes_ok:
  assumes ok: "media_ok m" and idle: "\<not> reply_waits (md_replies m n)"
    and run: "reply_complete how (md_replies m n) (md_coordinator m) (md_arbiter m) = (t, c, a)"
    and how: "\<And>c done. coordinator_ok c done \<Longrightarrow> coordinator_ok (how n c) (insert n done)"
      "\<And>c. co_next c \<noteq> n \<Longrightarrow> co_next (how n c) = co_next c"
  shows "media_ok (set_reply n t c a m)"
proof (cases "rt_completed (md_replies m n)")
  case True
  then have same: "t = md_replies m n" "c = md_coordinator m" "a = md_arbiter m" using run by (simp_all add: reply_complete_def)
  then have "(turn_of m)(Inl n := rt_broadcast t) = turn_of m" by (simp add: fun_upd_idem)
  then show ?thesis using media_okD [OF ok] same by (intro set_reply_ok [OF ok]) simp_all
next
  case False
  note D = media_okD [OF ok] and r = media_okD(3) [OF ok, of n]
  obtain b where b: "broadcast_finish (turn_of m (Inl n)) (md_arbiter m) = (b, a)"
    and t: "t = md_replies m n\<lparr>rt_completed := True, rt_broadcast := b\<rparr>" and c: "c = how n (md_coordinator m)"
    using run False r by (auto simp: reply_complete_def reply_ok_def split: prod.splits)
  have "bt_waiter (turn_of m (Inl n)) = None" using idle unfolding reply_waits_def turn_of.simps by blast
  note F = finish_channel [OF D(1) this b]
  have cok: "coordinator_ok c (insert n (completed_replies m))" unfolding c by (rule how(1) [OF D(2)])
  have "reply_ok (co_next c) j (((md_replies m)(n := t)) j)" for j
  proof (cases "j = n")
    case True
    then show ?thesis using r F idle t by (auto simp: reply_ok_def reply_waits_def)
  next
    case other: False
    have "co_next c = co_next (md_coordinator m)" if "co_next (md_coordinator m) = j"
      unfolding c using that other by (intro how(2)) simp
    then show ?thesis using D(3) [of j] other by (auto simp: reply_ok_def)
  qed
  then show ?thesis using F(1) cok t by (simp add: media_ok_def completed_set_reply)
qed

lemma coordinator_next_other:
  "co_next c \<noteq> n \<Longrightarrow> co_next (coordinator_finish n c) = co_next c"
  "co_next c \<noteq> n \<Longrightarrow> co_next (coordinator_cancel n c) = co_next c"
  by (auto simp: coordinator_finish_def coordinator_cancel_def Let_def)

lemma media_step_ok: "media_step m m' \<Longrightarrow> media_ok m \<Longrightarrow> media_ok m'"
proof (induction rule: media_step.induct)
  case (reply_finishes m n t c a)
  then show ?case unfolding reply_finish_def
    using completes_ok [where how = coordinator_finish and n = n] coordinator_finish_ok coordinator_next_other(1) by blast
next
  case (reply_cancelled m n t c a)
  then show ?case unfolding reply_cancel_def
    using completes_ok [where how = coordinator_cancel and n = n] coordinator_cancel_ok coordinator_next_other(2) by blast
next
  case (other_begins m k t a)
  then show ?case using begin_channel [of "turn_of m" "md_arbiter m" "Inr k" t a] by (intro set_other_ok) (simp_all add: media_okD(1))
next
  case (other_speaks m k t a)
  then show ?case using granted_channel(1) [of "turn_of m" "md_arbiter m" "Inr k" t a] by (intro set_other_ok) (simp_all add: media_okD(1))
next
  case (other_start_fails m k t a)
  then show ?case using start_failed_channel [of "turn_of m" "md_arbiter m" "Inr k" t a] by (intro set_other_ok) (simp_all add: media_okD(1))
next
  case (other_gives_up m k t a)
  then show ?case using interrupted_channel(1) [of "turn_of m" "md_arbiter m" "Inr k" t a] by (intro set_other_ok) (simp_all add: media_okD(1))
next
  case (other_finishes m k t a)
  then show ?case using finish_channel(1) [of "turn_of m" "md_arbiter m" "Inr k" t a] by (intro set_other_ok) (simp_all add: media_okD(1))
qed (auto intro: begins_ok in_order_ok speaks_ok gives_up_ok)

lemma new_media_ok: "media_ok (new_media p q)"
proof -
  have "turn_of (new_media p q) x = new_broadcast_turn (case x of Inl n \<Rightarrow> p n | Inr k \<Rightarrow> q k)" for x
    by (cases x) (simp_all add: new_media_def new_reply_turn_def)
  then have "channel_ok (turn_of (new_media p q)) new_arbiter"
    by (intro channel_okI) (simp_all add: arbiter_ok_def turn_ok_def new_arbiter_def new_broadcast_turn_def)
  moreover have "completed_replies (new_media p q) = {}"
    by (simp add: completed_replies_def new_media_def new_reply_turn_def)
  moreover have "reply_ok k n (new_reply_turn n r)" for k n r
    by (simp add: reply_ok_def new_reply_turn_def new_broadcast_turn_def)
  ultimately show ?thesis using new_coordinator_ok by (simp add: media_ok_def) (simp add: new_media_def)
qed

lemma media_reachable_ok: "media_step\<^sup>*\<^sup>* (new_media p q) m \<Longrightarrow> media_ok m"
  by (induction rule: rtranclp_induct) (auto intro: new_media_ok media_step_ok)

section \<open>The property\<close>

definition holds_channel :: "media \<Rightarrow> nat + nat \<Rightarrow> bool" where
  "holds_channel m x \<longleftrightarrow> bt_token (turn_of m x) \<noteq> None"

definition waits_for_channel :: "media \<Rightarrow> nat + nat \<Rightarrow> waiter \<Rightarrow> bool" where
  "waits_for_channel m x w \<longleftrightarrow> bt_waiter (turn_of m x) = Some w"

text \<open>
  C26. The media channel after any interleaving of the turns of replies and of other speakers.  At
  most one turn holds the channel.  A reply that holds it, or that waits for the arbiter, has no
  earlier reply left open, and a reply that was acquired and is not completed holds it.  When a
  turn is granted the channel, it is the least waiter in priority and then in arrival.  And no
  wait is for ever: a free channel with a waiter can be granted, and a reply whose predecessors are
  all completed passes the coordinator.
\<close>

theorem media_channel_orderly:
  assumes "media_step\<^sup>*\<^sup>* (new_media reply_priority other_priority) m"
  shows "(\<forall>x y. holds_channel m x \<and> holds_channel m y \<longrightarrow> x = y) \<and>
    (\<forall>n w. holds_channel m (Inl n) \<or> waits_for_channel m (Inl n) w \<longrightarrow> (\<forall>j<n. rt_completed (md_replies m j))) \<and>
    (\<forall>n. rt_acquired (md_replies m n) \<and> \<not> rt_completed (md_replies m n) \<longrightarrow> holds_channel m (Inl n)) \<and>
    (\<forall>x w. waits_for_channel m x w \<and> broadcast_granted (turn_of m x) (md_arbiter m) \<noteq> None \<longrightarrow>
       (\<forall>y v. waits_for_channel m y v \<longrightarrow> waiter_le w v)) \<and>
    ((\<exists>x w. waits_for_channel m x w) \<and> (\<forall>x. \<not> holds_channel m x) \<longrightarrow>
       (\<exists>x. broadcast_granted (turn_of m x) (md_arbiter m) \<noteq> None)) \<and>
    (\<forall>n. rt_ordering (md_replies m n) \<and> (\<forall>j<n. rt_completed (md_replies m j)) \<longrightarrow>
       reply_ordered (md_replies m n) (md_coordinator m) (md_arbiter m) \<noteq> None)"
proof -
  note ok = media_reachable_ok [OF assms]
  note D = media_okD [OF ok] and C = channel_okD [OF media_okD(1) [OF ok]]
  have one: "\<forall>x y. holds_channel m x \<and> holds_channel m y \<longrightarrow> x = y"
    using C(6) unfolding holds_channel_def by blast
  have earlier: "\<forall>j<n. rt_completed (md_replies m j)" if "holds_channel m (Inl n) \<or> waits_for_channel m (Inl n) w" for n w
  proof -
    have "co_next (md_coordinator m) = n"
      using D(3) [of n] that by (auto simp: reply_ok_def holds_channel_def waits_for_channel_def)
    then show ?thesis using D(2) by (auto simp: coordinator_ok_def completed_replies_def)
  qed
  have acquired: "holds_channel m (Inl n)" if "rt_acquired (md_replies m n)" "\<not> rt_completed (md_replies m n)" for n
    using D(3) [of n] that by (simp add: reply_ok_def holds_channel_def)
  have least: "waiter_le w v" if x: "waits_for_channel m x w" and g: "broadcast_granted (turn_of m x) (md_arbiter m) \<noteq> None"
    and y: "waits_for_channel m y v" for x w y v
  proof -
    obtain b a where "broadcast_granted (turn_of m x) (md_arbiter m) = Some (b, a)" using g by auto
    from granted_channel(4) [OF D(1) this] show ?thesis
      using x y by (cases v) (auto simp: waits_for_channel_def)
  qed
  have free: "\<exists>x. broadcast_granted (turn_of m x) (md_arbiter m) \<noteq> None"
    if "waits_for_channel m y w" "\<forall>x. \<not> holds_channel m x" for y w
    using channel_not_stuck [OF D(1), of y] that by (auto simp: waits_for_channel_def holds_channel_def)
  have passes: "reply_ordered (md_replies m n) (md_coordinator m) (md_arbiter m) \<noteq> None"
    if "rt_ordering (md_replies m n)" "\<forall>j<n. rt_completed (md_replies m j)" for n
  proof -
    have "coordinator_acquire n (md_coordinator m) \<noteq> None"
      using coordinator_acquire_iff [OF D(2)] that(2) by (auto simp: completed_replies_def)
    then show ?thesis using D(3) [of n] that(1) by (auto simp: reply_ordered_def reply_ok_def split: prod.splits)
  qed
  show ?thesis
    using one earlier acquired least free passes by blast
qed

section \<open>A concrete channel\<close>

text \<open>The first reply speaks while the second one waits for its place.\<close>

definition speaking_example :: media where
  "speaking_example =
     set_reply 1 (new_reply_turn 1 23\<lparr>rt_ordering := True\<rparr>) (new_coordinator\<lparr>co_active := Some 0\<rparr>)
       \<lparr>ar_counter = 1, ar_waiters = [], ar_active = Some 0\<rparr>
       (set_reply 0
         (new_reply_turn 0 22\<lparr>rt_broadcast := new_broadcast_turn 22\<lparr>bt_token := Some 0\<rparr>, rt_acquired := True\<rparr>)
         new_coordinator new_arbiter (new_media (\<lambda>n. 22 + int n) (\<lambda>k. 60)))"

lemma speaking_example_reachable: "media_step\<^sup>*\<^sup>* (new_media (\<lambda>n. 22 + int n) (\<lambda>k. 60)) speaking_example"
proof -
  let ?m0 = "new_media (\<lambda>n. 22 + int n) (\<lambda>k. 60)"
  let ?m1 = "set_reply 0 (new_reply_turn 0 22\<lparr>rt_ordering := True\<rparr>) new_coordinator new_arbiter ?m0"
  let ?co = "new_coordinator\<lparr>co_active := Some 0\<rparr>"
  let ?b = "new_broadcast_turn 22\<lparr>bt_waiter := Some (22, 0)\<rparr>"
  let ?m2 = "set_reply 0 (new_reply_turn 0 22\<lparr>rt_broadcast := ?b\<rparr>) ?co
      \<lparr>ar_counter = 1, ar_waiters = [(22, 0)], ar_active = None\<rparr> ?m1"
  let ?m3 = "set_reply 0 (new_reply_turn 0 22\<lparr>rt_broadcast := new_broadcast_turn 22\<lparr>bt_token := Some 0\<rparr>, rt_acquired := True\<rparr>) ?co
      \<lparr>ar_counter = 1, ar_waiters = [], ar_active = Some 0\<rparr> ?m2"
  have step1: "media_step ?m0 ?m1"
    using reply_begins [of ?m0 0]
    by (simp add: reply_begin_def reply_waits_def new_media_def new_reply_turn_def new_broadcast_turn_def)
  have step2: "media_step ?m1 ?m2"
    by (rule reply_in_order) (simp add: reply_ordered_def coordinator_acquire_def new_coordinator_def broadcast_begin_def
        arbiter_enter_def new_arbiter_def new_reply_turn_def new_broadcast_turn_def Let_def)
  have step3: "media_step ?m2 ?m3"
    using reply_speaks [of ?m2 0]
    by (simp add: reply_granted_def broadcast_granted_def arbiter_grant_def new_reply_turn_def new_broadcast_turn_def)
  have "media_step ?m3 speaking_example"
    using reply_begins [of ?m3 1]
    by (simp add: reply_begin_def reply_waits_def new_reply_turn_def new_broadcast_turn_def speaking_example_def
        set_reply_def new_media_def fun_upd_twist)
  with step1 step2 step3 show ?thesis by (meson converse_rtranclp_into_rtranclp rtranclp.rtrancl_refl)
qed

theorem media_channel_orderly_witness:
  "rt_ordering (md_replies speaking_example 1) \<and> {x. holds_channel speaking_example x} = {Inl 0}"
proof -
  have "holds_channel speaking_example (Inl 0)" by (simp add: speaking_example_def holds_channel_def)
  moreover have "\<forall>x y. holds_channel speaking_example x \<and> holds_channel speaking_example y \<longrightarrow> x = y"
    using media_channel_orderly [OF speaking_example_reachable] by (rule conjunct1)
  ultimately show ?thesis by (auto simp: speaking_example_def)
qed

end
