(* ===== verification/Reply_Queue.thy ===== *)
theory Reply_Queue
  imports Reply_Admission Reply_Media
begin

text \<open>
  The bounded queue, the workers and the runtime of replies, \<open>services/bilibili/reply_queue.py\<close>.
  The processor of a reply is a parameter: the steps take what it does, and a reply that it
  finished has finished its media turn, as \<open>_process_reply_candidate\<close> of
  \<open>orchestration/server/handlers/bilibili_handlers.py\<close> does.  The conditions are held over no suspension, so
  that the code between two suspensions is one step; a wait that would go on is \<open>None\<close>.
\<close>

section \<open>Data\<close>

text \<open>
  \<open>rc_turn\<close> is the media turn: which coordinator it belongs to, and its ticket.
\<close>

record reply_candidate =
  rc_message :: danmaku
  rc_priority :: reply_priority
  rc_generation_id :: int
  rc_admitted_at :: rat
  rc_room_id :: int
  rc_turn :: "nat \<times> nat"

record put_result =
  pr_accepted :: bool
  pr_reason :: "string option"
  pr_evicted :: "reply_candidate option"

record reply_metrics =
  rm_admitted :: int
  rm_dropped :: "(string, int) dict"
  rm_admitted_dropped :: "(string, int) dict"
  rm_reply_success :: int
  rm_reply_failure :: int
  rm_reply_retries :: int
  rm_queue_depth :: nat
  rm_max_queue_depth :: nat
  rm_queue_wait_seconds :: "rat list"
  rm_reply_latency_seconds :: "rat list"

definition new_metrics :: reply_metrics where
  "new_metrics =
     \<lparr>rm_admitted = 0, rm_dropped = [], rm_admitted_dropped = [], rm_reply_success = 0, rm_reply_failure = 0,
      rm_reply_retries = 0, rm_queue_depth = 0, rm_max_queue_depth = 0, rm_queue_wait_seconds = [],
      rm_reply_latency_seconds = []\<rparr>"

definition terminal_count :: "reply_metrics \<Rightarrow> int" where
  "terminal_count m = rm_reply_success m + rm_reply_failure m + dict_total (rm_admitted_dropped m)"

definition append_latency_sample :: "rat list \<Rightarrow> rat \<Rightarrow> rat list" where
  "append_latency_sample samples v = last_n 1024 (samples @ [v])"

section \<open>The bounded queue\<close>

type_synonym queue_entry = "nat \<times> reply_candidate"

record reply_queue =
  rq_max_size :: int
  rq_prioritize :: bool
  rq_entries :: "queue_entry list"
  rq_sequence :: nat
  rq_closed :: bool
  rq_max_observed_size :: nat

text \<open>\<open>None\<close> is the \<open>ValueError\<close> of a size that is not positive.\<close>

definition new_reply_queue :: "int \<Rightarrow> bool \<Rightarrow> reply_queue option" where
  "new_reply_queue max_size prioritize =
     (if max_size \<le> 0 then None
      else Some \<lparr>rq_max_size = max_size, rq_prioritize = prioritize, rq_entries = [], rq_sequence = 0,
                 rq_closed = False, rq_max_observed_size = 0\<rparr>)"

definition queue_full :: "reply_queue \<Rightarrow> bool" where
  "queue_full q \<longleftrightarrow> rq_max_size q \<le> int (length (rq_entries q))"

definition append_entry :: "reply_candidate \<Rightarrow> reply_queue \<Rightarrow> reply_queue" where
  "append_entry c q =
     (let entries = rq_entries q @ [(rq_sequence q, c)] in
      q\<lparr>rq_entries := entries, rq_sequence := rq_sequence q + 1,
        rq_max_observed_size := max (rq_max_observed_size q) (length entries)\<rparr>)"

definition queue_put :: "reply_candidate \<Rightarrow> reply_queue \<Rightarrow> reply_queue \<times> put_result" where
  "queue_put c q =
     (if rq_closed q then (q, \<lparr>pr_accepted = False, pr_reason = Some ''queue_closed'', pr_evicted = None\<rparr>)
      else if queue_full q then
        (case min_by fst (filter (\<lambda>e. rc_priority c < rc_priority (snd e)) (rq_entries q)) of
           None \<Rightarrow> (q, \<lparr>pr_accepted = False, pr_reason = Some ''queue_full'', pr_evicted = None\<rparr>)
         | Some victim \<Rightarrow>
             (append_entry c (q\<lparr>rq_entries := remove1 victim (rq_entries q)\<rparr>),
              \<lparr>pr_accepted = True, pr_reason = Some ''evicted_lower_priority'', pr_evicted = Some (snd victim)\<rparr>))
      else (append_entry c q, \<lparr>pr_accepted = True, pr_reason = None, pr_evicted = None\<rparr>))"

definition queue_put_wait :: "reply_candidate \<Rightarrow> reply_queue \<Rightarrow> (reply_queue \<times> put_result) option" where
  "queue_put_wait c q =
     (if queue_full q \<and> \<not> rq_closed q then None
      else if rq_closed q then Some (q, \<lparr>pr_accepted = False, pr_reason = Some ''queue_closed'', pr_evicted = None\<rparr>)
      else Some (append_entry c q, \<lparr>pr_accepted = True, pr_reason = None, pr_evicted = None\<rparr>))"

text \<open>The key of \<open>get\<close>: priority first when the queue prioritises, then the order of insertion.\<close>

definition entry_key :: "bool \<Rightarrow> queue_entry \<Rightarrow> nat list" where
  "entry_key prioritize e = (if prioritize then [priority_value (rc_priority (snd e)), fst e] else [fst e])"

definition queue_get :: "reply_queue \<Rightarrow> (reply_queue \<times> reply_candidate option) option" where
  "queue_get q =
     (case min_by (entry_key (rq_prioritize q)) (rq_entries q) of
        None \<Rightarrow> if rq_closed q then Some (q, None) else None
      | Some e \<Rightarrow> Some (q\<lparr>rq_entries := remove1 e (rq_entries q)\<rparr>, Some (snd e)))"

definition discard_except_generation :: "int \<Rightarrow> reply_queue \<Rightarrow> reply_queue \<times> nat" where
  "discard_except_generation generation q =
     (let retained = filter (\<lambda>e. rc_generation_id (snd e) = generation) (rq_entries q) in
      (q\<lparr>rq_entries := retained\<rparr>, length (rq_entries q) - length retained))"

definition queue_drain :: "reply_queue \<Rightarrow> reply_queue \<times> reply_candidate list" where
  "queue_drain q = (q\<lparr>rq_entries := []\<rparr>, map snd (sort_key fst (rq_entries q)))"

definition queue_close :: "reply_queue \<Rightarrow> reply_queue" where
  "queue_close q = q\<lparr>rq_closed := True\<rparr>"

section \<open>The runtime\<close>

text \<open>A worker waits for the queue, processes a candidate (which attempt, and since when), or has ended.\<close>

datatype worker_state = WorkerWaiting | WorkerRunning reply_candidate nat rat | WorkerEnded

record reply_worker =
  rw_state :: worker_state
  rw_generation_id :: int
  rw_max_message_age_seconds :: "int option"

text \<open>What \<open>switch_generation\<close> and \<open>close\<close> do after the workers have ended.\<close>

datatype stopping = Switching int | Closing

text \<open>
  \<open>rr_queue\<close> carries the number of its queue object, \<open>rr_waiting\<close> the submissions that wait in
  \<open>put_wait\<close>, each for the queue object it has seen.  \<open>rr_coordinator_id\<close> is the number of the
  coordinator object; a turn of an earlier one changes nothing that is still read.
\<close>

record reply_runtime =
  rr_policy :: reply_policy
  rr_admission :: admission
  rr_queue :: "(nat \<times> reply_queue) option"
  rr_queue_count :: nat
  rr_workers :: "reply_worker list"
  rr_generation_id :: int
  rr_submission_sequence :: nat
  rr_active_replies :: int
  rr_coordinator :: coordinator
  rr_coordinator_id :: nat
  rr_waiting :: "(nat \<times> reply_candidate) list"
  rr_stopping :: "stopping option"
  rr_metrics :: reply_metrics

definition new_reply_runtime :: "reply_policy \<Rightarrow> rat \<Rightarrow> reply_runtime" where
  "new_reply_runtime policy now =
     \<lparr>rr_policy = policy, rr_admission = new_admission policy now, rr_queue = None, rr_queue_count = 0,
      rr_workers = [], rr_generation_id = 0, rr_submission_sequence = 0, rr_active_replies = 0,
      rr_coordinator = new_coordinator, rr_coordinator_id = 0, rr_waiting = [], rr_stopping = None,
      rr_metrics = new_metrics\<rparr>"

definition worker_running :: "reply_runtime \<Rightarrow> bool" where
  "worker_running r \<longleftrightarrow> (\<exists>w\<in>set (rr_workers r). rw_state w \<noteq> WorkerEnded)"

definition runtime_busy :: "reply_runtime \<Rightarrow> bool" where
  "runtime_busy r \<longleftrightarrow>
     0 < rr_active_replies r \<or> (case rr_queue r of None \<Rightarrow> False | Some (i, q) \<Rightarrow> rq_entries q \<noteq> [])"

text \<open>\<open>None\<close> is the \<open>RuntimeError\<close>.\<close>

definition configure_replies :: "reply_policy \<Rightarrow> rat \<Rightarrow> reply_runtime \<Rightarrow> reply_runtime option" where
  "configure_replies policy now r =
     (if worker_running r then None
      else Some (r\<lparr>rr_policy := policy, rr_admission := new_admission policy now\<rparr>))"

definition count_dropped :: "string \<Rightarrow> reply_runtime \<Rightarrow> reply_runtime" where
  "count_dropped reason r =
     r\<lparr>rr_metrics := (rr_metrics r)\<lparr>rm_dropped := dict_add reason 1 (rm_dropped (rr_metrics r))\<rparr>\<rparr>"

definition record_terminal_drop :: "string \<Rightarrow> reply_runtime \<Rightarrow> reply_runtime" where
  "record_terminal_drop reason r =
     (let m = rr_metrics r in
      r\<lparr>rr_metrics := m\<lparr>rm_dropped := dict_add reason 1 (rm_dropped m),
                        rm_admitted_dropped := dict_add reason 1 (rm_admitted_dropped m)\<rparr>\<rparr>)"

definition complete_turn ::
  "(nat \<Rightarrow> coordinator \<Rightarrow> coordinator) \<Rightarrow> reply_candidate \<Rightarrow> reply_runtime \<Rightarrow> reply_runtime" where
  "complete_turn how c r =
     (if fst (rc_turn c) = rr_coordinator_id r
      then r\<lparr>rr_coordinator := how (snd (rc_turn c)) (rr_coordinator r)\<rparr> else r)"

abbreviation cancel_turn :: "reply_candidate \<Rightarrow> reply_runtime \<Rightarrow> reply_runtime" where
  "cancel_turn \<equiv> complete_turn coordinator_cancel"

definition ensure_worker :: "reply_runtime \<Rightarrow> reply_runtime option" where
  "ensure_worker r =
     (if worker_running r \<or> rr_queue r \<noteq> None then Some r
      else
        (let policy = rr_policy r; exhaustive = (rp_mode policy = Exhaustive) in
         case new_reply_queue (rp_max_queue_size policy) (\<not> exhaustive) of
           None \<Rightarrow> None
         | Some q \<Rightarrow>
             Some (r\<lparr>rr_queue := Some (rr_queue_count r, q), rr_queue_count := rr_queue_count r + 1,
                     rr_workers := rr_workers r @ replicate (nat (rp_generation_concurrency policy))
                       \<lparr>rw_state = WorkerWaiting, rw_generation_id = rr_generation_id r,
                        rw_max_message_age_seconds =
                          (if exhaustive then None else Some (rp_max_message_age_seconds policy))\<rparr>\<rparr>)))"

record submission_result =
  sr_admitted :: bool
  sr_reason :: "string option"
  sr_priority :: "reply_priority option"
  sr_evicted_message :: "danmaku option"

text \<open>The end of a submission: the queue has answered.  \<open>queue\<close> is the queue object it was put into.\<close>

definition submission_answered ::
  "reply_candidate \<Rightarrow> reply_queue \<Rightarrow> put_result \<Rightarrow> reply_runtime \<Rightarrow> reply_runtime \<times> submission_result" where
  "submission_answered c queue result r =
     (if \<not> pr_accepted result then
        (let reason = (case pr_reason result of None \<Rightarrow> ''queue_rejected'' | Some x \<Rightarrow> x) in
         (count_dropped reason (cancel_turn c r),
          \<lparr>sr_admitted = False, sr_reason = Some reason, sr_priority = Some (rc_priority c), sr_evicted_message = None\<rparr>))
      else
        (let r1 = r\<lparr>rr_metrics := (rr_metrics r)\<lparr>rm_admitted := rm_admitted (rr_metrics r) + 1\<rparr>\<rparr>;
             r2 = (case pr_evicted result of
                     None \<Rightarrow> r1
                   | Some e \<Rightarrow> record_terminal_drop ''queue_evicted'' (cancel_turn e r1));
             m = rr_metrics r2
         in (r2\<lparr>rr_metrics := m\<lparr>rm_queue_depth := length (rq_entries queue),
                               rm_max_queue_depth := max (rm_max_queue_depth m) (rq_max_observed_size queue)\<rparr>\<rparr>,
             \<lparr>sr_admitted = True, sr_reason = pr_reason result, sr_priority = Some (rc_priority c),
              sr_evicted_message = map_option rc_message (pr_evicted result)\<rparr>)))"

definition reply_candidate_of :: "danmaku \<Rightarrow> reply_priority \<Rightarrow> int \<Rightarrow> rat \<Rightarrow> reply_runtime \<Rightarrow> reply_candidate" where
  "reply_candidate_of m priority room now r =
     \<lparr>rc_message = m, rc_priority = priority, rc_generation_id = rr_generation_id r, rc_admitted_at = now,
      rc_room_id = room, rc_turn = (rr_coordinator_id r, rr_submission_sequence r)\<rparr>"

text \<open>
  \<open>submit\<close>: \<open>None\<close> as the result is a submission that waits for a place; the outer \<open>None\<close> is the
  error of a queue without size.  \<open>now\<close> and \<open>sample\<close> are what the admission reads, \<open>admitted_at\<close> is the
  later reading of the clock.
\<close>

definition submit_reply ::
  "(unicode \<Rightarrow> unicode) \<Rightarrow> rat \<Rightarrow> rat \<Rightarrow> rat \<Rightarrow> danmaku \<Rightarrow> int \<Rightarrow> int \<Rightarrow> reply_runtime \<Rightarrow>
   (reply_runtime \<times> submission_result option) option" where
  "submit_reply casefold now sample admitted_at m room generation r =
     (if generation \<noteq> rr_generation_id r then
        Some (count_dropped ''stale_generation'' r,
              Some \<lparr>sr_admitted = False, sr_reason = Some ''stale_generation'', sr_priority = None, sr_evicted_message = None\<rparr>)
      else
        (case decide_admission (rr_policy r) casefold now sample m (rr_admission r) of
           (adm, d) \<Rightarrow>
             (let r1 = r\<lparr>rr_admission := adm\<rparr>;
                  reason = (case rd_reason d of None \<Rightarrow> ''rejected'' | Some x \<Rightarrow> x) in
              if \<not> rd_admitted d then
                Some (count_dropped reason r1,
                      Some \<lparr>sr_admitted = False, sr_reason = Some reason, sr_priority = None, sr_evicted_message = None\<rparr>)
              else case rd_priority d of
                None \<Rightarrow>
                  Some (count_dropped reason r1,
                        Some \<lparr>sr_admitted = False, sr_reason = Some reason, sr_priority = None, sr_evicted_message = None\<rparr>)
              | Some priority \<Rightarrow>
                  (case ensure_worker r1 of
                     None \<Rightarrow> None
                   | Some r2 \<Rightarrow>
                       (let c = reply_candidate_of m priority room admitted_at r2;
                            r3 = r2\<lparr>rr_submission_sequence := rr_submission_sequence r2 + 1\<rparr> in
                        case rr_queue r3 of
                          None \<Rightarrow> None
                        | Some (i, q) \<Rightarrow>
                            if rp_mode (rr_policy r3) = Exhaustive then
                              (case queue_put_wait c q of
                                 None \<Rightarrow> Some (r3\<lparr>rr_waiting := rr_waiting r3 @ [(i, c)]\<rparr>, None)
                               | Some (q1, result) \<Rightarrow>
                                   (case submission_answered c q1 result (r3\<lparr>rr_queue := Some (i, q1)\<rparr>) of
                                      (r4, s) \<Rightarrow> Some (r4, Some s)))
                            else
                              (case queue_put c q of
                                 (q1, result) \<Rightarrow>
                                   (case submission_answered c q1 result (r3\<lparr>rr_queue := Some (i, q1)\<rparr>) of
                                      (r4, s) \<Rightarrow> Some (r4, Some s))))))))"

text \<open>The n-th waiting submission goes on: \<open>None\<close> when it still waits.\<close>

definition resume_submission :: "nat \<Rightarrow> reply_runtime \<Rightarrow> (reply_runtime \<times> submission_result) option" where
  "resume_submission n r =
     (if length (rr_waiting r) \<le> n then None
      else
        (case rr_waiting r ! n of
           (i, c) \<Rightarrow>
             (let r1 = r\<lparr>rr_waiting := take n (rr_waiting r) @ drop (n + 1) (rr_waiting r)\<rparr>;
                  gone = submission_answered c
                    \<lparr>rq_max_size = 1, rq_prioritize = False, rq_entries = [], rq_sequence = 0, rq_closed = True, rq_max_observed_size = 0\<rparr>
                    \<lparr>pr_accepted = False, pr_reason = Some ''queue_closed'', pr_evicted = None\<rparr> r1
              in case rr_queue r of
                   None \<Rightarrow> Some gone
                 | Some (j, q) \<Rightarrow>
                     if j \<noteq> i then Some gone
                     else
                       (case queue_put_wait c q of
                          None \<Rightarrow> None
                        | Some (q1, result) \<Rightarrow> Some (submission_answered c q1 result (r1\<lparr>rr_queue := Some (j, q1)\<rparr>))))))"

end
