(* ===== verification/Reply_Runtime.thy ===== *)
theory Reply_Runtime
  imports Reply_Queue
begin

text \<open>
  The workers of \<open>services/bilibili/reply_queue.py\<close>, the change of generation and the closing of the
  runtime, and the steps of the whole: submissions, workers and the stop interleave at their
  suspensions.
\<close>

section \<open>Workers\<close>

definition set_worker :: "nat \<Rightarrow> worker_state \<Rightarrow> reply_runtime \<Rightarrow> reply_runtime" where
  "set_worker w st r = r\<lparr>rr_workers := (rr_workers r)[w := (rr_workers r ! w)\<lparr>rw_state := st\<rparr>]\<rparr>"

text \<open>\<open>ReplyWorker.run\<close> from \<open>get\<close> to the first attempt; \<open>None\<close> when the worker waits on.\<close>

definition worker_take :: "nat \<Rightarrow> rat \<Rightarrow> reply_runtime \<Rightarrow> reply_runtime option" where
  "worker_take w now r =
     (if length (rr_workers r) \<le> w \<or> rw_state (rr_workers r ! w) \<noteq> WorkerWaiting then None
      else
        (case rr_queue r of
           None \<Rightarrow> None
         | Some (i, q) \<Rightarrow>
             (case queue_get q of
                None \<Rightarrow> None
              | Some (q1, taken) \<Rightarrow>
                  (let r1 = r\<lparr>rr_queue := Some (i, q1),
                              rr_metrics := (rr_metrics r)\<lparr>rm_queue_depth := length (rq_entries q1)\<rparr>\<rparr>;
                       worker = rr_workers r ! w
                   in case taken of
                        None \<Rightarrow> Some (set_worker w WorkerEnded r1)
                      | Some c \<Rightarrow>
                          if rc_generation_id c \<noteq> rw_generation_id worker
                          then Some (record_terminal_drop ''stale_generation'' (cancel_turn c r1))
                          else if (case rw_max_message_age_seconds worker of
                                     None \<Rightarrow> False | Some age \<Rightarrow> of_int age < now - dm_timestamp (rc_message c))
                          then Some (record_terminal_drop ''expired'' (cancel_turn c r1))
                          else
                            (let m = rr_metrics r1 in
                             Some (set_worker w (WorkerRunning c 0 now)
                               (r1\<lparr>rr_active_replies := rr_active_replies r1 + 1,
                                   rr_metrics := m\<lparr>rm_queue_wait_seconds :=
                                     append_latency_sample (rm_queue_wait_seconds m) (max 0 (now - rc_admitted_at c))\<rparr>\<rparr>)))))))"

text \<open>
  How the processor ends: it returned, it raised (and whether the media turn was acquired by then),
  or the task was cancelled.  An attempt that is retried starts again at once.
\<close>

datatype attempt_outcome = ReplyDone | ReplyFailed bool | ReplyCancelled

definition worker_settle :: "nat \<Rightarrow> attempt_outcome \<Rightarrow> rat \<Rightarrow> reply_runtime \<Rightarrow> reply_runtime option" where
  "worker_settle w outcome now r =
     (if length (rr_workers r) \<le> w then None
      else
        (case rw_state (rr_workers r ! w) of
           WorkerRunning c attempt started_at \<Rightarrow>
             (let r1 = r\<lparr>rr_active_replies := max 0 (rr_active_replies r - 1)\<rparr> in
              case outcome of
                ReplyDone \<Rightarrow>
                  (let r2 = complete_turn coordinator_finish c r1; m = rr_metrics r2 in
                   Some (set_worker w WorkerWaiting
                     (r2\<lparr>rr_metrics := m\<lparr>rm_reply_success := rm_reply_success m + 1,
                                         rm_reply_latency_seconds :=
                                           append_latency_sample (rm_reply_latency_seconds m) (max 0 (now - started_at))\<rparr>\<rparr>)))
              | ReplyFailed media_started \<Rightarrow>
                  if attempt = 0 \<and> \<not> media_started then
                    Some (set_worker w (WorkerRunning c 1 started_at)
                      (r1\<lparr>rr_active_replies := rr_active_replies r1 + 1,
                          rr_metrics := (rr_metrics r1)\<lparr>rm_reply_retries := rm_reply_retries (rr_metrics r1) + 1\<rparr>\<rparr>))
                  else
                    (let r2 = cancel_turn c r1; m = rr_metrics r2 in
                     Some (set_worker w WorkerWaiting
                       (r2\<lparr>rr_metrics := m\<lparr>rm_reply_failure := rm_reply_failure m + 1,
                                           rm_dropped := dict_add ''reply_failed'' 1 (rm_dropped m)\<rparr>\<rparr>)))
              | ReplyCancelled \<Rightarrow>
                  Some (set_worker w WorkerEnded (record_terminal_drop ''cancelled'' (cancel_turn c r1))))
         | _ \<Rightarrow> None))"

text \<open>A worker that waits for the queue is cancelled.\<close>

definition worker_cancelled :: "nat \<Rightarrow> reply_runtime \<Rightarrow> reply_runtime option" where
  "worker_cancelled w r =
     (if w < length (rr_workers r) \<and> rw_state (rr_workers r ! w) = WorkerWaiting \<and> rr_stopping r \<noteq> None
      then Some (set_worker w WorkerEnded r) else None)"

section \<open>Stopping\<close>

definition stop_reason :: "stopping \<Rightarrow> string" where
  "stop_reason k = (case k of Switching generation \<Rightarrow> ''stale_generation'' | Closing \<Rightarrow> ''cancelled'')"

text \<open>What they do after it.\<close>

definition finish_stop :: "reply_runtime \<Rightarrow> reply_runtime option" where
  "finish_stop r =
     (if worker_running r then None
      else
        (case rr_stopping r of
           None \<Rightarrow> None
         | Some k \<Rightarrow>
             (let r1 = r\<lparr>rr_stopping := None, rr_queue := None, rr_workers := [],
                         rr_metrics := (rr_metrics r)\<lparr>rm_queue_depth := 0\<rparr>\<rparr>
              in case k of
                   Closing \<Rightarrow> Some r1
                 | Switching generation \<Rightarrow>
                     Some (r1\<lparr>rr_generation_id := generation, rr_submission_sequence := 0, rr_active_replies := 0,
                              rr_coordinator := new_coordinator, rr_coordinator_id := rr_coordinator_id r + 1\<rparr>))))"

text \<open>
  \<open>switch_generation\<close> and \<open>close\<close> up to the wait for the cancelled tasks; a stop starts when no other
  one is under way.  Without a queue there is no task to wait for, and the stop ends at once.
\<close>

definition begin_stop :: "stopping \<Rightarrow> reply_runtime \<Rightarrow> reply_runtime option" where
  "begin_stop k r =
     (if rr_stopping r \<noteq> None then None
      else if k = Switching (rr_generation_id r) then Some r
      else
        (case rr_queue r of
           None \<Rightarrow> finish_stop (r\<lparr>rr_stopping := Some k\<rparr>)
         | Some (i, q) \<Rightarrow>
             (case queue_drain q of
                (q1, drained) \<Rightarrow>
                  Some (fold (\<lambda>c r'. record_terminal_drop (stop_reason k) (cancel_turn c r')) drained
                    (r\<lparr>rr_stopping := Some k, rr_queue := Some (i, queue_close q1)\<rparr>)))))"

section \<open>Steps\<close>

inductive runtime_step :: "reply_runtime \<Rightarrow> reply_runtime \<Rightarrow> bool" where
  submits: "submit_reply casefold now sample admitted_at m room generation r = Some (r', result) \<Longrightarrow> runtime_step r r'"
| resumes: "resume_submission n r = Some (r', submitted) \<Longrightarrow> runtime_step r r'"
| takes: "worker_take w now r = Some r' \<Longrightarrow> runtime_step r r'"
| settles: "worker_settle w outcome now r = Some r' \<Longrightarrow> runtime_step r r'"
| worker_stops: "worker_cancelled w r = Some r' \<Longrightarrow> runtime_step r r'"
| stop_begins: "begin_stop k r = Some r' \<Longrightarrow> runtime_step r r'"
| stop_ends: "finish_stop r = Some r' \<Longrightarrow> runtime_step r r'"
| configures: "configure_replies policy now r = Some r' \<Longrightarrow> runtime_step r r'"

end
