(* ===== verification/Reply_Runtime_Properties.thy ===== *)
theory Reply_Runtime_Properties
  imports Reply_Runtime Reply_Media_Properties
begin

text \<open>
  The runtime of replies under every interleaving: every admitted reply is queued, in flight or
  counted once as ended, and every ticket of the media channel is completed or still held.
\<close>

section \<open>Where replies are\<close>

definition queued :: "reply_runtime \<Rightarrow> reply_candidate list" where
  "queued r = (case rr_queue r of None \<Rightarrow> [] | Some (i, q) \<Rightarrow> map snd (rq_entries q))"

definition runs :: "worker_state \<Rightarrow> reply_candidate list" where
  "runs st = (case st of WorkerRunning c attempt since \<Rightarrow> [c] | _ \<Rightarrow> [])"

lemma runs_simps [simp]:
  "runs WorkerWaiting = []" "runs WorkerEnded = []" "runs (WorkerRunning c k t) = [c]"
  by (simp_all add: runs_def)

definition in_flight :: "reply_worker list \<Rightarrow> reply_candidate list" where
  "in_flight ws = concat (map (\<lambda>w. runs (rw_state w)) ws)"

definition held :: "reply_runtime \<Rightarrow> reply_candidate set" where
  "held r = set (queued r) \<union> set (in_flight (rr_workers r)) \<union> set (map snd (rr_waiting r))"

lemma in_flight_update:
  assumes "w < length ws"
  shows "\<exists>before after. in_flight ws = before @ runs (rw_state (ws ! w)) @ after \<and>
    in_flight (ws[w := (ws ! w)\<lparr>rw_state := st\<rparr>]) = before @ runs st @ after"
proof (intro exI conjI)
  show "in_flight ws = in_flight (take w ws) @ runs (rw_state (ws ! w)) @ in_flight (drop (Suc w) ws)"
    using id_take_nth_drop [OF assms] by (metis (no_types, lifting) concat.simps(2) concat_append in_flight_def list.simps(9) map_append)
  show "in_flight (ws[w := (ws ! w)\<lparr>rw_state := st\<rparr>]) = in_flight (take w ws) @ runs st @ in_flight (drop (Suc w) ws)"
    by (simp add: upd_conv_take_nth_drop [OF assms] in_flight_def)
qed

lemma in_flight_Nil [simp]: "in_flight [] = []"
  by (simp add: in_flight_def)

lemma in_flight_append [simp]: "in_flight (xs @ ys) = in_flight xs @ in_flight ys"
  by (simp add: in_flight_def)

lemma in_flight_replicate [simp]: "rw_state w = WorkerWaiting \<Longrightarrow> in_flight (replicate n w) = []"
  by (simp add: in_flight_def)

lemma in_flight_ended: "\<not> worker_running r \<Longrightarrow> in_flight (rr_workers r) = []"
  by (auto simp: in_flight_def worker_running_def runs_def)

section \<open>The counters\<close>

text \<open>What the replies that were admitted and the replies that are somewhere differ by.\<close>

definition balance :: "reply_runtime \<Rightarrow> int" where
  "balance r = terminal_count (rr_metrics r) + int (length (queued r)) + int (length (in_flight (rr_workers r)))
     - rm_admitted (rr_metrics r)"

definition counters_ok :: "reply_metrics \<Rightarrow> bool" where
  "counters_ok m \<longleftrightarrow> distinct (dict_keys (rm_dropped m)) \<and> distinct (dict_keys (rm_admitted_dropped m))"

lemma terminal_drop_simps [simp]:
  "rr_queue (record_terminal_drop reason r) = rr_queue r"
  "rr_workers (record_terminal_drop reason r) = rr_workers r"
  "rr_waiting (record_terminal_drop reason r) = rr_waiting r"
  "rr_stopping (record_terminal_drop reason r) = rr_stopping r"
  "rr_active_replies (record_terminal_drop reason r) = rr_active_replies r"
  "rr_coordinator (record_terminal_drop reason r) = rr_coordinator r"
  "rr_coordinator_id (record_terminal_drop reason r) = rr_coordinator_id r"
  "rr_submission_sequence (record_terminal_drop reason r) = rr_submission_sequence r"
  "rm_admitted (rr_metrics (record_terminal_drop reason r)) = rm_admitted (rr_metrics r)"
  by (simp_all add: record_terminal_drop_def Let_def)

lemma terminal_drop_counts:
  "counters_ok (rr_metrics r) \<Longrightarrow>
   counters_ok (rr_metrics (record_terminal_drop reason r)) \<and>
   terminal_count (rr_metrics (record_terminal_drop reason r)) = terminal_count (rr_metrics r) + 1"
  by (simp add: record_terminal_drop_def counters_ok_def terminal_count_def Let_def)

lemma count_dropped_simps [simp]:
  "rr_queue (count_dropped reason r) = rr_queue r"
  "rr_workers (count_dropped reason r) = rr_workers r"
  "rr_waiting (count_dropped reason r) = rr_waiting r"
  "rr_stopping (count_dropped reason r) = rr_stopping r"
  "rr_active_replies (count_dropped reason r) = rr_active_replies r"
  "rr_coordinator (count_dropped reason r) = rr_coordinator r"
  "rr_coordinator_id (count_dropped reason r) = rr_coordinator_id r"
  "rr_submission_sequence (count_dropped reason r) = rr_submission_sequence r"
  "rm_admitted (rr_metrics (count_dropped reason r)) = rm_admitted (rr_metrics r)"
  "terminal_count (rr_metrics (count_dropped reason r)) = terminal_count (rr_metrics r)"
  by (simp_all add: count_dropped_def terminal_count_def)

lemma count_dropped_ok [simp]: "counters_ok (rr_metrics r) \<Longrightarrow> counters_ok (rr_metrics (count_dropped reason r))"
  by (simp add: count_dropped_def counters_ok_def)

lemma complete_turn_simps [simp]:
  "rr_queue (complete_turn how c r) = rr_queue r"
  "rr_workers (complete_turn how c r) = rr_workers r"
  "rr_waiting (complete_turn how c r) = rr_waiting r"
  "rr_stopping (complete_turn how c r) = rr_stopping r"
  "rr_active_replies (complete_turn how c r) = rr_active_replies r"
  "rr_metrics (complete_turn how c r) = rr_metrics r"
  "rr_coordinator_id (complete_turn how c r) = rr_coordinator_id r"
  "rr_submission_sequence (complete_turn how c r) = rr_submission_sequence r"
  by (simp_all add: complete_turn_def)

section \<open>The queue\<close>

definition queue_ok :: "reply_queue \<Rightarrow> bool" where
  "queue_ok q \<longleftrightarrow>
     1 \<le> rq_max_size q \<and> int (length (rq_entries q)) \<le> rq_max_size q \<and>
     length (rq_entries q) \<le> rq_max_observed_size q \<and> int (rq_max_observed_size q) \<le> rq_max_size q \<and>
     sorted_wrt (<) (map fst (rq_entries q)) \<and> (\<forall>e\<in>set (rq_entries q). fst e < rq_sequence q) \<and>
     (rq_closed q \<longrightarrow> rq_entries q = [])"

lemma new_queue_ok: "new_reply_queue n p = Some q \<Longrightarrow> queue_ok q \<and> rq_entries q = [] \<and> \<not> rq_closed q"
  by (auto simp: new_reply_queue_def queue_ok_def split: if_splits)

lemma sorted_wrt_remove1: "sorted_wrt (<) (map fst es) \<Longrightarrow> sorted_wrt (<) (map fst (remove1 e es))"
  by (induction es) (auto dest: notin_set_remove1)

lemma remove_entry_ok:
  "queue_ok q \<Longrightarrow> e \<in> set (rq_entries q) \<Longrightarrow> queue_ok (q\<lparr>rq_entries := remove1 e (rq_entries q)\<rparr>)"
  by (auto simp: queue_ok_def length_remove1 sorted_wrt_remove1 dest: notin_set_remove1)

lemma append_entry_ok:
  "queue_ok q \<Longrightarrow> \<not> queue_full q \<Longrightarrow> \<not> rq_closed q \<Longrightarrow> queue_ok (append_entry c q)"
  by (auto simp: queue_ok_def append_entry_def queue_full_def sorted_wrt_append Let_def)

text \<open>What a put changes: nothing, one entry more, or one entry in the place of another.\<close>

lemma queue_put_cases:
  assumes "queue_ok q" "queue_put c q = (q', result)"
  obtains "\<not> pr_accepted result" "q' = q"
  | "pr_accepted result" "pr_evicted result = None" "queue_ok q'" "rq_closed q' = rq_closed q"
    "map snd (rq_entries q') = map snd (rq_entries q) @ [c]"
  | victim before after where "pr_accepted result" "pr_evicted result = Some (snd victim)" "queue_ok q'"
    "rq_closed q' = rq_closed q"
    "rq_entries q = before @ victim # after" "map snd (rq_entries q') = map snd (before @ after) @ [c]"
proof (cases "rq_closed q \<or> \<not> queue_full q")
  case True
  then show thesis using that(1,2) assms append_entry_ok
    by (auto simp: queue_put_def append_entry_def Let_def split: if_splits)
next
  case False
  show thesis
  proof (cases "min_by fst (filter (\<lambda>e. rc_priority c < rc_priority (snd e)) (rq_entries q))")
    case None
    then show thesis using that(1) assms(2) False by (auto simp: queue_put_def)
  next
    case (Some victim)
    then have mem: "victim \<in> set (rq_entries q)" using min_by_mem [OF Some] by simp
    then obtain before after where split: "rq_entries q = before @ victim # after" "victim \<notin> set before"
      by (meson split_list_first)
    let ?q = "q\<lparr>rq_entries := remove1 victim (rq_entries q)\<rparr>"
    have "queue_ok ?q" by (rule remove_entry_ok [OF assms(1) mem])
    moreover have "\<not> queue_full ?q"
      using assms(1) mem length_pos_if_in_set [OF mem] by (auto simp: queue_full_def queue_ok_def length_remove1)
    ultimately have "queue_ok (append_entry c ?q)" using False by (intro append_entry_ok) simp_all
    then show thesis
      using that(3) [of victim before after] assms(2) False Some split
      by (auto simp: queue_put_def append_entry_def remove1_append Let_def)
  qed
qed

lemma queue_put_wait_cases:
  assumes "queue_ok q" "queue_put_wait c q = Some (q', result)"
  obtains "\<not> pr_accepted result" "q' = q"
  | "pr_accepted result" "pr_evicted result = None" "queue_ok q'" "rq_closed q' = rq_closed q"
    "map snd (rq_entries q') = map snd (rq_entries q) @ [c]"
  using assms append_entry_ok
  by (auto simp: queue_put_wait_def append_entry_def Let_def split: if_splits)

lemma queue_get_cases:
  assumes "queue_ok q" "queue_get q = Some (q', taken)"
  obtains "taken = None" "q' = q"
  | e before after where "taken = Some (snd e)" "queue_ok q'" "rq_closed q' = rq_closed q"
    "rq_entries q = before @ e # after" "rq_entries q' = before @ after"
proof (cases "min_by (entry_key (rq_prioritize q)) (rq_entries q)")
  case None
  then show thesis using that(1) assms(2) by (simp add: queue_get_def split: if_splits)
next
  case (Some e)
  note mem = min_by_mem [OF Some]
  then obtain before after where "rq_entries q = before @ e # after" "e \<notin> set before" by (meson split_list_first)
  then show thesis
    using that(2) [of e before after] assms(2) Some remove_entry_ok [OF assms(1) mem]
    by (auto simp: queue_get_def remove1_append)
qed

section \<open>Tickets\<close>

text \<open>Every ticket that was given is completed or held by one of \<open>H\<close>.\<close>

definition tickets :: "reply_candidate set \<Rightarrow> reply_runtime \<Rightarrow> bool" where
  "tickets H r \<longleftrightarrow> (\<exists>done. coordinator_ok (rr_coordinator r) done \<and>
     (\<forall>n<rr_submission_sequence r. n \<in> done \<or> (\<exists>c\<in>H. rc_turn c = (rr_coordinator_id r, n))))"

lemma tickets_mono: "tickets H r \<Longrightarrow> H \<subseteq> H' \<Longrightarrow> tickets H' r"
  unfolding tickets_def by blast

lemma tickets_cong:
  "rr_coordinator r' = rr_coordinator r \<Longrightarrow> rr_coordinator_id r' = rr_coordinator_id r \<Longrightarrow>
   rr_submission_sequence r' = rr_submission_sequence r \<Longrightarrow> tickets H r' = tickets H r"
  by (simp add: tickets_def)

lemma tickets_complete:
  assumes "tickets (insert c H) r" "\<And>n k done. coordinator_ok k done \<Longrightarrow> coordinator_ok (how n k) (insert n done)"
  shows "tickets H (complete_turn how c r)"
proof -
  obtain don where d: "coordinator_ok (rr_coordinator r) don"
    "\<forall>n<rr_submission_sequence r. n \<in> don \<or> (\<exists>c\<in>insert c H. rc_turn c = (rr_coordinator_id r, n))"
    using assms(1) by (auto simp: tickets_def)
  show ?thesis
  proof (cases "fst (rc_turn c) = rr_coordinator_id r")
    case True
    then have "rr_coordinator (complete_turn how c r) = how (snd (rc_turn c)) (rr_coordinator r)"
      by (simp add: complete_turn_def)
    then have "coordinator_ok (rr_coordinator (complete_turn how c r)) (insert (snd (rc_turn c)) don)"
      using assms(2) d(1) by simp
    moreover have "\<forall>n<rr_submission_sequence r. n \<in> insert (snd (rc_turn c)) don \<or> (\<exists>c\<in>H. rc_turn c = (rr_coordinator_id r, n))"
      using d(2) by (metis insert_iff snd_conv)
    ultimately show ?thesis unfolding tickets_def by auto
  next
    case False
    then have "\<forall>n<rr_submission_sequence r. n \<in> don \<or> (\<exists>c\<in>H. rc_turn c = (rr_coordinator_id r, n))"
      using d(2) by (metis fst_conv insert_iff)
    then show ?thesis using d(1) False unfolding tickets_def by (auto simp: complete_turn_def)
  qed
qed

lemmas tickets_cancel = tickets_complete [OF _ coordinator_cancel_ok]
lemmas tickets_finish = tickets_complete [OF _ coordinator_finish_ok]

end
