(* ===== verification/Reply_Runtime_Steps.thy ===== *)
theory Reply_Runtime_Steps
  imports Reply_Runtime_Properties
begin

text \<open>Every step of the runtime keeps the accounts and the tickets.\<close>

section \<open>The invariant\<close>

definition queue_state_ok :: "reply_runtime \<Rightarrow> bool" where
  "queue_state_ok r \<longleftrightarrow>
     (rr_queue r = None \<longrightarrow> rr_workers r = [] \<and> rr_stopping r = None) \<and>
     (\<forall>i q. rr_queue r = Some (i, q) \<longrightarrow> queue_ok q \<and> (rr_stopping r \<noteq> None \<longrightarrow> rq_closed q))"

definition accounts_ok :: "int \<Rightarrow> reply_runtime \<Rightarrow> bool" where
  "accounts_ok surplus r \<longleftrightarrow>
     counters_ok (rr_metrics r) \<and> balance r = surplus \<and>
     rr_active_replies r = int (length (in_flight (rr_workers r))) \<and> queue_state_ok r"

definition runtime_ok :: "reply_runtime \<Rightarrow> bool" where
  "runtime_ok r \<longleftrightarrow> accounts_ok 0 r \<and> tickets (held r) r"

lemma accounts_cong:
  assumes "rr_queue r' = rr_queue r" "rr_workers r' = rr_workers r" "rr_stopping r' = rr_stopping r"
    "rr_active_replies r' = rr_active_replies r" "rr_metrics r' = rr_metrics r"
  shows "accounts_ok k r' = accounts_ok k r"
  using assms by (simp add: accounts_ok_def balance_def queued_def queue_state_ok_def)

lemma accounts_complete [simp]: "accounts_ok k (complete_turn how c r) = accounts_ok k r"
  by (rule accounts_cong) simp_all

lemma accounts_terminal_drop: "accounts_ok k r \<Longrightarrow> accounts_ok (k + 1) (record_terminal_drop reason r)"
  using terminal_drop_counts [of r reason]
  by (simp add: accounts_ok_def balance_def queued_def queue_state_ok_def)

lemma accounts_count_dropped: "accounts_ok k r \<Longrightarrow> accounts_ok k (count_dropped reason r)"
  by (simp add: accounts_ok_def balance_def queued_def queue_state_ok_def)

text \<open>A new reading of the depth, a retry and a sample change no account.\<close>

lemma accounts_metrics:
  assumes "accounts_ok k r" "rm_dropped m = rm_dropped (rr_metrics r)"
    "rm_admitted_dropped m = rm_admitted_dropped (rr_metrics r)" "rm_admitted m = rm_admitted (rr_metrics r)"
    "rm_reply_success m + rm_reply_failure m = rm_reply_success (rr_metrics r) + rm_reply_failure (rr_metrics r)"
  shows "accounts_ok k (r\<lparr>rr_metrics := m\<rparr>)"
  using assms by (simp add: accounts_ok_def balance_def queued_def queue_state_ok_def counters_ok_def terminal_count_def)

lemma held_cong:
  "rr_queue r' = rr_queue r \<Longrightarrow> rr_workers r' = rr_workers r \<Longrightarrow> rr_waiting r' = rr_waiting r \<Longrightarrow> held r' = held r"
  by (simp add: held_def queued_def)

lemma held_simps [simp]:
  "held (complete_turn how c r) = held r" "held (record_terminal_drop reason r) = held r"
  "held (count_dropped reason r) = held r" "held (r\<lparr>rr_metrics := m\<rparr>) = held r"
  "held (r\<lparr>rr_active_replies := k\<rparr>) = held r"
  by (simp_all add: held_def queued_def)

lemma tickets_simps [simp]:
  "tickets H (record_terminal_drop reason r) = tickets H r" "tickets H (count_dropped reason r) = tickets H r"
  "tickets H (r\<lparr>rr_metrics := m\<rparr>) = tickets H r" "tickets H (r\<lparr>rr_active_replies := k\<rparr>) = tickets H r"
  "tickets H (r\<lparr>rr_queue := Q\<rparr>) = tickets H r" "tickets H (set_worker w st r) = tickets H r"
  "tickets H (r\<lparr>rr_waiting := W\<rparr>) = tickets H r"
  by (simp_all add: tickets_def set_worker_def)

section \<open>Submissions\<close>

lemma answered_ok:
  assumes run: "submission_answered c q result r = (r', s)"
    and acc: "accounts_ok (if pr_accepted result \<and> pr_evicted result = None then 1 else 0) r"
    and tick: "tickets (held r \<union> (if pr_accepted result then set_option (pr_evicted result) else {c})) r"
  shows "runtime_ok r'"
proof (cases "pr_accepted result")
  case False
  then obtain reason where r': "r' = count_dropped reason (cancel_turn c r)"
    using run by (auto simp: submission_answered_def Let_def)
  have "tickets (held r) (cancel_turn c r)" using tick False by (intro tickets_cancel) simp
  then show ?thesis using acc False r' by (simp add: runtime_ok_def accounts_count_dropped)
next
  case True
  let ?r1 = "r\<lparr>rr_metrics := (rr_metrics r)\<lparr>rm_admitted := rm_admitted (rr_metrics r) + 1\<rparr>\<rparr>"
  let ?depth = "\<lambda>x. x\<lparr>rr_metrics := (rr_metrics x)\<lparr>rm_queue_depth := length (rq_entries q),
      rm_max_queue_depth := max (rm_max_queue_depth (rr_metrics x)) (rq_max_observed_size q)\<rparr>\<rparr>"
  have acc1: "accounts_ok (k - 1) ?r1" if "accounts_ok k r" for k
    using that by (simp add: accounts_ok_def balance_def queued_def queue_state_ok_def counters_ok_def terminal_count_def)
  show ?thesis
  proof (cases "pr_evicted result")
    case None
    then have r': "r' = ?depth ?r1" using run True by (simp add: submission_answered_def Let_def)
    have "accounts_ok 0 ?r1" using acc1 [OF acc] True None by simp
    then have "accounts_ok 0 r'" unfolding r' by (rule accounts_metrics) simp_all
    then show ?thesis using tick True None unfolding runtime_ok_def r' by simp
  next
    case (Some e)
    let ?r2 = "record_terminal_drop ''queue_evicted'' (cancel_turn e ?r1)"
    have r': "r' = ?depth ?r2" using run True Some by (simp add: submission_answered_def Let_def)
    have "accounts_ok 0 ?r2"
      using accounts_terminal_drop [of "- 1" "cancel_turn e ?r1"] acc1 [OF acc] True Some by simp
    then have "accounts_ok 0 r'" unfolding r' by (rule accounts_metrics) simp_all
    moreover have "tickets (held r) (cancel_turn e ?r1)" using tick True Some by (intro tickets_cancel) simp
    ultimately show ?thesis unfolding runtime_ok_def r' by simp
  qed
qed

text \<open>An answer of the queue, given to a candidate that nobody else holds.\<close>

definition put_answer :: "reply_candidate \<Rightarrow> reply_queue \<Rightarrow> reply_queue \<Rightarrow> put_result \<Rightarrow> bool" where
  "put_answer c q q' result \<longleftrightarrow> queue_put c q = (q', result) \<or> queue_put_wait c q = Some (q', result)"

lemma put_answer_ok:
  assumes put: "put_answer c q q' result" and acc: "accounts_ok 0 r" and q: "rr_queue r = Some (i, q)"
    and tick: "tickets (insert c (held r)) r"
    and run: "submission_answered c q'' result (r\<lparr>rr_queue := Some (j, q')\<rparr>) = (r', s)"
  shows "runtime_ok r'"
proof -
  let ?r = "r\<lparr>rr_queue := Some (j, q')\<rparr>"
  have qok: "queue_ok q" and stop: "rr_stopping r \<noteq> None \<Longrightarrow> rq_closed q"
    using acc q by (simp_all add: accounts_ok_def queue_state_ok_def)
  consider "\<not> pr_accepted result" "q' = q"
  | "pr_accepted result" "pr_evicted result = None" "queue_ok q'" "rq_closed q' = rq_closed q"
    "map snd (rq_entries q') = map snd (rq_entries q) @ [c]"
  | victim before after where "pr_accepted result" "pr_evicted result = Some (snd victim)" "queue_ok q'"
    "rq_closed q' = rq_closed q"
    "rq_entries q = before @ victim # after" "map snd (rq_entries q') = map snd (before @ after) @ [c]"
    using put queue_put_cases [OF qok, of c q' result] queue_put_wait_cases [OF qok, of c q' result]
    unfolding put_answer_def by metis
  then show ?thesis
  proof cases
    case 1
    have "accounts_ok 0 ?r" using acc q 1 by (simp add: accounts_ok_def balance_def queued_def queue_state_ok_def)
    moreover have "held ?r = held r" using q 1 by (simp add: held_def queued_def)
    ultimately show ?thesis using tick 1 by (intro answered_ok [OF run]) simp_all
  next
    case 2
    then have len: "length (rq_entries q') = length (rq_entries q) + 1"
      by (metis length_append_singleton length_map Suc_eq_plus1)
    have "accounts_ok 1 ?r"
      using acc q 2(3,4) len stop by (simp add: accounts_ok_def balance_def queued_def queue_state_ok_def)
    moreover have "held ?r = insert c (held r)" using q 2(5) by (auto simp: held_def queued_def)
    ultimately show ?thesis using tick 2 by (intro answered_ok [OF run]) simp_all
  next
    case 3
    then have len: "length (rq_entries q') = length (rq_entries q)"
      by (metis length_append_singleton length_map length_append list.size(4) add_Suc_right One_nat_def add.commute plus_1_eq_Suc)
    have "accounts_ok 0 ?r"
      using acc q 3(3,4) len stop by (simp add: accounts_ok_def balance_def queued_def queue_state_ok_def)
    moreover have "insert c (held r) \<subseteq> held ?r \<union> {snd victim}" using q 3(5,6) by (auto simp: held_def queued_def)
    ultimately show ?thesis using tickets_mono [OF tick] 3 by (intro answered_ok [OF run]) simp_all
  qed
qed

lemma ensure_worker_ok:
  assumes "runtime_ok r" "ensure_worker r = Some r'"
  shows "runtime_ok r' \<and> rr_queue r' \<noteq> None"
proof (cases "worker_running r \<or> rr_queue r \<noteq> None")
  case True
  then have "r' = r" using assms(2) by (simp add: ensure_worker_def)
  moreover have "rr_queue r \<noteq> None"
    using True assms(1) by (auto simp: runtime_ok_def accounts_ok_def queue_state_ok_def worker_running_def)
  ultimately show ?thesis using assms(1) by simp
next
  case False
  let ?policy = "rr_policy r"
  obtain q ws where q: "new_reply_queue (rp_max_queue_size ?policy) (rp_mode ?policy \<noteq> Exhaustive) = Some q"
    and r': "r' = r\<lparr>rr_queue := Some (rr_queue_count r, q), rr_queue_count := rr_queue_count r + 1,
      rr_workers := rr_workers r @ ws\<rparr>" and ws: "in_flight ws = []"
    using assms(2) False by (auto simp: ensure_worker_def Let_def split: option.splits)
  have empty: "rr_queue r = None" using False by blast
  then have none: "rr_workers r = []" "rr_stopping r = None"
    using assms(1) by (simp_all add: runtime_ok_def accounts_ok_def queue_state_ok_def)
  have "accounts_ok 0 r'"
    using assms(1) none empty new_queue_ok [OF q] ws
    by (simp add: runtime_ok_def accounts_ok_def balance_def queued_def queue_state_ok_def r')
  moreover have "held r' = held r" using none empty new_queue_ok [OF q] ws by (simp add: held_def queued_def r')
  moreover have "tickets H r' = tickets H r" for H by (rule tickets_cong) (simp_all add: r')
  ultimately show ?thesis using assms(1) r' by (simp add: runtime_ok_def)
qed

lemma submit_ok:
  assumes ok: "runtime_ok r" and run: "submit_reply casefold now sample admitted_at m room generation r = Some (r', result)"
  shows "runtime_ok r'"
proof -
  have admission: "runtime_ok (r\<lparr>rr_admission := adm\<rparr>)" for adm
    using ok accounts_cong [of "r\<lparr>rr_admission := adm\<rparr>" r] tickets_cong [of "r\<lparr>rr_admission := adm\<rparr>" r]
      held_cong [of "r\<lparr>rr_admission := adm\<rparr>" r] by (simp add: runtime_ok_def)
  have dropped: "runtime_ok (count_dropped reason x)" if "runtime_ok x" for reason x
    using that accounts_count_dropped by (simp add: runtime_ok_def)
  obtain adm d where d: "decide_admission (rr_policy r) casefold now sample m (rr_admission r) = (adm, d)" by fastforce
  let ?r1 = "r\<lparr>rr_admission := adm\<rparr>"
  show ?thesis
  proof (cases "generation \<noteq> rr_generation_id r \<or> \<not> rd_admitted d \<or> rd_priority d = None")
    case True
    then show ?thesis using run d dropped [OF ok] dropped [OF admission]
      by (auto simp: submit_reply_def Let_def split: if_splits)
  next
    case False
    then obtain priority where p: "rd_priority d = Some priority" by auto
    obtain r2 where r2: "ensure_worker ?r1 = Some r2"
      using run False d p by (cases "ensure_worker ?r1") (simp_all add: submit_reply_def Let_def)
    let ?c = "reply_candidate_of m priority room admitted_at r2"
    let ?r3 = "r2\<lparr>rr_submission_sequence := rr_submission_sequence r2 + 1\<rparr>"
    note e = ensure_worker_ok [OF admission r2]
    then obtain i q where q: "rr_queue r2 = Some (i, q)" by auto
    have acc: "accounts_ok 0 ?r3" using e accounts_cong [of ?r3 r2] by (simp add: runtime_ok_def)
    have held3: "held ?r3 = held r2" by (rule held_cong) simp_all
    have tick: "tickets (insert ?c (held ?r3)) ?r3"
    proof -
      obtain don where don: "coordinator_ok (rr_coordinator r2) don"
        "\<forall>n<rr_submission_sequence r2. n \<in> don \<or> (\<exists>c\<in>held r2. rc_turn c = (rr_coordinator_id r2, n))"
        using e by (auto simp: runtime_ok_def tickets_def)
      then have "\<forall>n<rr_submission_sequence ?r3. n \<in> don \<or> (\<exists>c\<in>insert ?c (held r2). rc_turn c = (rr_coordinator_id r2, n))"
        by (auto simp: less_Suc_eq reply_candidate_of_def)
      then show ?thesis using don(1) unfolding held3 tickets_def by auto
    qed
    show ?thesis
    proof (cases "rp_mode (rr_policy r2) = Exhaustive \<and> queue_put_wait ?c q = None")
      case True
      then have r': "r' = ?r3\<lparr>rr_waiting := rr_waiting r2 @ [(i, ?c)]\<rparr>"
        using run False d p r2 q by (simp add: submit_reply_def Let_def)
      have "held r' = insert ?c (held ?r3)" by (auto simp: r' held_def queued_def)
      moreover have "accounts_ok 0 r'" using acc accounts_cong [of r' ?r3] by (simp add: r')
      ultimately show ?thesis using tick by (simp add: runtime_ok_def r')
    next
      case no_wait: False
      then obtain q' answer s where put: "put_answer ?c q q' answer"
        and sub: "submission_answered ?c q' answer (?r3\<lparr>rr_queue := Some (i, q')\<rparr>) = (r', s)"
        using run False d p r2 q
        by (auto simp: submit_reply_def Let_def put_answer_def split: if_splits option.splits prod.splits)
      show ?thesis using put_answer_ok [OF put acc _ tick sub] q by simp
    qed
  qed
qed

lemma resume_ok:
  assumes ok: "runtime_ok r" and run: "resume_submission n r = Some (r', s)"
  shows "runtime_ok r'"
proof -
  obtain i c where n: "n < length (rr_waiting r)" and c: "rr_waiting r ! n = (i, c)"
    using run by (cases "rr_waiting r ! n") (auto simp: resume_submission_def split: if_splits)
  let ?r1 = "r\<lparr>rr_waiting := take n (rr_waiting r) @ drop (n + 1) (rr_waiting r)\<rparr>"
  let ?gone = "\<lparr>pr_accepted = False, pr_reason = Some ''queue_closed'', pr_evicted = None\<rparr>"
  have "map snd (rr_waiting r) = map snd (take n (rr_waiting r)) @ c # map snd (drop (n + 1) (rr_waiting r))"
    using id_take_nth_drop [OF n] c by (metis Suc_eq_plus1 list.simps(9) map_append snd_conv)
  then have held: "held r = insert c (held ?r1)" by (auto simp: held_def queued_def)
  have acc: "accounts_ok 0 ?r1" using ok accounts_cong [of ?r1 r] by (simp add: runtime_ok_def)
  have tick: "tickets (insert c (held ?r1)) ?r1" using ok unfolding held [symmetric] by (simp add: runtime_ok_def)
  show ?thesis
  proof (cases "\<exists>q. rr_queue r = Some (i, q)")
    case False
    then obtain x where "submission_answered c x ?gone ?r1 = (r', s)"
      using run n c by (auto simp: resume_submission_def Let_def split: option.splits prod.splits if_splits)
    from answered_ok [OF this] show ?thesis using acc tick by simp
  next
    case True
    then obtain q where q: "rr_queue r = Some (i, q)" by blast
    then obtain q' answer where put: "queue_put_wait c q = Some (q', answer)"
      and sub: "submission_answered c q' answer (?r1\<lparr>rr_queue := Some (i, q')\<rparr>) = (r', s)"
      using run n c by (auto simp: resume_submission_def Let_def split: option.splits prod.splits if_splits)
    have "put_answer c q q' answer" using put by (simp add: put_answer_def)
    from put_answer_ok [OF this acc _ tick sub] q show ?thesis by simp
  qed
qed

section \<open>Workers\<close>

lemma set_worker_simps [simp]:
  "rr_queue (set_worker w st r) = rr_queue r" "rr_stopping (set_worker w st r) = rr_stopping r"
  "rr_metrics (set_worker w st r) = rr_metrics r" "rr_waiting (set_worker w st r) = rr_waiting r"
  "rr_active_replies (set_worker w st r) = rr_active_replies r"
  by (simp_all add: set_worker_def)

text \<open>A worker changes its state: the account and the held replies follow.\<close>

lemma set_worker_ok:
  assumes w: "w < length (rr_workers r)"
    and acc: "counters_ok (rr_metrics r)" "queue_state_ok r"
    and bal: "balance r = int (length (runs (rw_state (rr_workers r ! w)))) - int (length (runs st))"
    and act: "rr_active_replies r + int (length (runs (rw_state (rr_workers r ! w)))) =
      int (length (in_flight (rr_workers r))) + int (length (runs st))"
    and tick: "tickets ((held r - set (runs (rw_state (rr_workers r ! w)))) \<union> set (runs st)) r"
  shows "runtime_ok (set_worker w st r)"
proof -
  obtain before after where f: "in_flight (rr_workers r) = before @ runs (rw_state (rr_workers r ! w)) @ after"
    "in_flight (rr_workers (set_worker w st r)) = before @ runs st @ after"
    using in_flight_update [OF w, of st] by (auto simp: set_worker_def)
  have "rr_workers (set_worker w st r) \<noteq> []" "rr_workers r \<noteq> []" using w by (auto simp: set_worker_def)
  then have "accounts_ok 0 (set_worker w st r)"
    using acc bal act f by (auto simp: accounts_ok_def balance_def queued_def queue_state_ok_def)
  moreover have "(held r - set (runs (rw_state (rr_workers r ! w)))) \<union> set (runs st) \<subseteq> held (set_worker w st r)"
    using f by (auto simp: held_def queued_def)
  ultimately show ?thesis using tickets_mono [OF tick] by (simp add: runtime_ok_def)
qed

lemma take_ok:
  assumes ok: "runtime_ok r" and run: "worker_take w now r = Some r'"
  shows "runtime_ok r'"
proof -
  have w: "w < length (rr_workers r)" and idle: "rw_state (rr_workers r ! w) = WorkerWaiting"
    using run by (auto simp: worker_take_def split: if_splits)
  obtain i q where q: "rr_queue r = Some (i, q)"
    using run w idle by (cases "rr_queue r") (auto simp: worker_take_def)
  obtain q1 taken where get: "queue_get q = Some (q1, taken)"
    using run w idle q by (cases "queue_get q") (auto simp: worker_take_def)
  let ?r1 = "r\<lparr>rr_queue := Some (i, q1), rr_metrics := (rr_metrics r)\<lparr>rm_queue_depth := length (rq_entries q1)\<rparr>\<rparr>"
  have acc: "accounts_ok 0 r" and qok: "queue_ok q" and tick: "tickets (held r) r"
    using ok q by (simp_all add: runtime_ok_def accounts_ok_def queue_state_ok_def)
  have ticks: "tickets H ?r1 = tickets H r" for H by (rule tickets_cong) simp_all
  from queue_get_cases [OF qok get] show ?thesis
  proof cases
    case 1
    then have r': "r' = set_worker w WorkerEnded ?r1" using run w idle q get by (simp add: worker_take_def Let_def)
    have same: "r\<lparr>rr_queue := Some (i, q)\<rparr> = r" using q by simp
    have "accounts_ok 0 ?r1" using accounts_metrics [OF acc] 1 same
      by (simp add: accounts_ok_def balance_def queued_def queue_state_ok_def counters_ok_def terminal_count_def q)
    moreover have "held ?r1 = held r" using q 1 by (simp add: held_def queued_def)
    ultimately show ?thesis
      using tick w idle unfolding r' by (intro set_worker_ok) (simp_all add: accounts_ok_def ticks)
  next
    case (2 e before after)
    let ?c = "snd e"
    have acc1: "accounts_ok (- 1) ?r1"
      using acc q 2 by (simp add: accounts_ok_def balance_def queued_def queue_state_ok_def counters_ok_def terminal_count_def)
    have held: "held r = insert ?c (held ?r1)" using q 2 by (auto simp: held_def queued_def)
    have tick1: "tickets (insert ?c (held ?r1)) ?r1" using tick unfolding ticks held .
    have dropped: "runtime_ok (record_terminal_drop reason (cancel_turn ?c ?r1))" for reason
      using accounts_terminal_drop [of "- 1" "cancel_turn ?c ?r1" reason] acc1 tickets_cancel [OF tick1]
      by (simp add: runtime_ok_def)
    let ?m = "(rr_metrics ?r1)\<lparr>rm_queue_wait_seconds :=
        append_latency_sample (rm_queue_wait_seconds (rr_metrics ?r1)) (max 0 (now - rc_admitted_at ?c))\<rparr>"
    let ?r2 = "?r1\<lparr>rr_active_replies := rr_active_replies ?r1 + 1, rr_metrics := ?m\<rparr>"
    have "runtime_ok (set_worker w (WorkerRunning ?c 0 now) ?r2)"
    proof (rule set_worker_ok)
      show "counters_ok (rr_metrics ?r2)" "queue_state_ok ?r2"
        "balance ?r2 = int (length (runs (rw_state (rr_workers ?r2 ! w)))) - int (length (runs (WorkerRunning ?c 0 now)))"
        using acc1 idle
        by (auto simp: accounts_ok_def counters_ok_def balance_def queued_def queue_state_ok_def terminal_count_def)
      show "rr_active_replies ?r2 + int (length (runs (rw_state (rr_workers ?r2 ! w)))) =
          int (length (in_flight (rr_workers ?r2))) + int (length (runs (WorkerRunning ?c 0 now)))"
        using acc1 idle by (simp add: accounts_ok_def)
      have "held ?r2 = held ?r1" by (rule held_cong) simp_all
      moreover have "tickets H ?r2 = tickets H ?r1" for H by (rule tickets_cong) simp_all
      ultimately show "tickets (held ?r2 - set (runs (rw_state (rr_workers ?r2 ! w))) \<union> set (runs (WorkerRunning ?c 0 now))) ?r2"
        using tick1 idle by simp
    qed (use w in simp)
    then show ?thesis
      using dropped run w idle q get 2(1) by (auto simp: worker_take_def Let_def split: if_splits)
  qed
qed

lemma settle_ok:
  assumes ok: "runtime_ok r" and run: "worker_settle w outcome now r = Some r'"
  shows "runtime_ok r'"
proof -
  obtain c attempt since where w: "w < length (rr_workers r)" and st: "rw_state (rr_workers r ! w) = WorkerRunning c attempt since"
    using run by (auto simp: worker_settle_def split: if_splits worker_state.splits)
  let ?r1 = "r\<lparr>rr_active_replies := max 0 (rr_active_replies r - 1)\<rparr>"
  have acc: "accounts_ok 0 r" and tick: "tickets (held r) r" using ok by (simp_all add: runtime_ok_def)
  have pos: "1 \<le> length (in_flight (rr_workers r))" using in_flight_update [OF w] st by fastforce
  have act: "rr_active_replies ?r1 = int (length (in_flight (rr_workers r))) - 1" using acc pos by (simp add: accounts_ok_def)
  have inc: "c \<in> held r" using in_flight_update [OF w] st by (fastforce simp: held_def)
  have tick1: "tickets (insert c (held r - {c})) ?r1"
    using tick inc by (simp add: insert_absorb)
  have ended: "runtime_ok (set_worker w x y)"
    if y: "rr_queue y = rr_queue r" "rr_workers y = rr_workers r" "rr_waiting y = rr_waiting r" "rr_stopping y = rr_stopping r"
      "rr_active_replies y = rr_active_replies ?r1" "counters_ok (rr_metrics y)" "rm_admitted (rr_metrics y) = rm_admitted (rr_metrics r)"
      "terminal_count (rr_metrics y) = terminal_count (rr_metrics r) + 1" "tickets (held r - {c}) y" and x: "runs x = []" for x y
  proof (rule set_worker_ok)
    have "held y = held r" using y by (intro held_cong) simp_all
    then show "tickets (held y - set (runs (rw_state (rr_workers y ! w))) \<union> set (runs x)) y" using y x st by simp
  qed (use acc act y x st w in \<open>simp_all add: accounts_ok_def balance_def queued_def queue_state_ok_def\<close>)
  show ?thesis
  proof (cases outcome)
    case ReplyDone
    let ?r2 = "complete_turn coordinator_finish c ?r1"
    let ?m = "(rr_metrics ?r2)\<lparr>rm_reply_success := rm_reply_success (rr_metrics ?r2) + 1,
        rm_reply_latency_seconds := append_latency_sample (rm_reply_latency_seconds (rr_metrics ?r2)) (max 0 (now - since))\<rparr>"
    have r': "r' = set_worker w WorkerWaiting (?r2\<lparr>rr_metrics := ?m\<rparr>)"
      using run w st ReplyDone by (simp add: worker_settle_def Let_def)
    show ?thesis unfolding r' using acc tickets_finish [OF tick1]
      by (intro ended) (simp_all add: accounts_ok_def counters_ok_def terminal_count_def)
  next
    case (ReplyFailed media_started)
    show ?thesis
    proof (cases "attempt = 0 \<and> \<not> media_started")
      case True
      let ?y = "?r1\<lparr>rr_active_replies := rr_active_replies ?r1 + 1,
          rr_metrics := (rr_metrics ?r1)\<lparr>rm_reply_retries := rm_reply_retries (rr_metrics ?r1) + 1\<rparr>\<rparr>"
      have r': "r' = set_worker w (WorkerRunning c 1 since) ?y"
        using run w st ReplyFailed True by (simp add: worker_settle_def Let_def)
      have "held ?y = held r" by (rule held_cong) simp_all
      moreover have "tickets H ?y = tickets H r" for H by (rule tickets_cong) simp_all
      ultimately show ?thesis
        unfolding r' using acc act tick inc w st
        by (intro set_worker_ok)
          (auto simp: accounts_ok_def balance_def queued_def queue_state_ok_def counters_ok_def terminal_count_def insert_absorb)
    next
      case False
      let ?r2 = "cancel_turn c ?r1"
      let ?m = "(rr_metrics ?r2)\<lparr>rm_reply_failure := rm_reply_failure (rr_metrics ?r2) + 1,
          rm_dropped := dict_add ''reply_failed'' 1 (rm_dropped (rr_metrics ?r2))\<rparr>"
      have r': "r' = set_worker w WorkerWaiting (?r2\<lparr>rr_metrics := ?m\<rparr>)"
        using run w st ReplyFailed False by (auto simp: worker_settle_def Let_def)
      show ?thesis unfolding r' using acc tickets_cancel [OF tick1]
        by (intro ended) (simp_all add: accounts_ok_def counters_ok_def terminal_count_def)
    qed
  next
    case ReplyCancelled
    have r': "r' = set_worker w WorkerEnded (record_terminal_drop ''cancelled'' (cancel_turn c ?r1))"
      using run w st ReplyCancelled by (simp add: worker_settle_def Let_def)
    have m: "counters_ok (rr_metrics (cancel_turn c ?r1))" using acc by (simp add: accounts_ok_def)
    show ?thesis unfolding r' using terminal_drop_counts [OF m] tickets_cancel [OF tick1] by (intro ended) simp_all
  qed
qed

lemma worker_cancelled_ok:
  assumes "runtime_ok r" "worker_cancelled w r = Some r'"
  shows "runtime_ok r'"
proof -
  have w: "w < length (rr_workers r)" "rw_state (rr_workers r ! w) = WorkerWaiting" and r': "r' = set_worker w WorkerEnded r"
    using assms(2) by (auto simp: worker_cancelled_def split: if_splits)
  show ?thesis unfolding r' using assms(1) w by (intro set_worker_ok) (simp_all add: runtime_ok_def accounts_ok_def)
qed

section \<open>Stopping\<close>

lemma drain_ok:
  "accounts_ok (k - int (length cs)) r \<Longrightarrow> tickets (set cs \<union> H) r \<Longrightarrow>
   accounts_ok k (fold (\<lambda>c r. record_terminal_drop reason (cancel_turn c r)) cs r) \<and>
   tickets H (fold (\<lambda>c r. record_terminal_drop reason (cancel_turn c r)) cs r) \<and>
   held (fold (\<lambda>c r. record_terminal_drop reason (cancel_turn c r)) cs r) = held r"
proof (induction cs arbitrary: r)
  case (Cons c cs)
  let ?r = "record_terminal_drop reason (cancel_turn c r)"
  have "accounts_ok (k - int (length cs)) ?r"
    using accounts_terminal_drop [of "k - int (length (c # cs))" "cancel_turn c r" reason] Cons.prems(1) by (simp add: algebra_simps)
  moreover have "tickets (set cs \<union> H) ?r" using Cons.prems(2) by (auto intro: tickets_cancel)
  ultimately show ?case using Cons.IH [of ?r] by simp
qed simp

lemma finish_stop_result:
  assumes acc: "accounts_ok 0 (r\<lparr>rr_stopping := None\<rparr>)" and tick: "tickets (held r) r"
    and closed: "\<And>i q. rr_queue r = Some (i, q) \<Longrightarrow> rq_closed q" and run: "finish_stop r = Some r'"
  shows "runtime_ok r'"
proof -
  have ended: "\<not> worker_running r" using run by (auto simp: finish_stop_def split: if_splits)
  have empty: "queued r = []"
    using acc closed by (cases "rr_queue r") (auto simp: accounts_ok_def queue_state_ok_def queue_ok_def queued_def)
  note none = in_flight_ended [OF ended]
  let ?r1 = "r\<lparr>rr_stopping := None, rr_queue := None, rr_workers := [], rr_metrics := (rr_metrics r)\<lparr>rm_queue_depth := 0\<rparr>\<rparr>"
  have acc1: "accounts_ok 0 ?r1"
    using acc empty none by (simp add: accounts_ok_def balance_def queue_state_ok_def counters_ok_def terminal_count_def) (simp add: queued_def)
  have held: "held ?r1 = held r" using empty none by (simp add: held_def) (simp add: queued_def)
  have tick1: "tickets H ?r1 = tickets H r" for H by (rule tickets_cong) simp_all
  obtain k where k: "rr_stopping r = Some k" using run ended by (auto simp: finish_stop_def split: option.splits)
  show ?thesis
  proof (cases k)
    case Closing
    then have "r' = ?r1" using run ended k by (simp add: finish_stop_def Let_def)
    then show ?thesis using acc1 tick held tick1 by (simp add: runtime_ok_def)
  next
    case (Switching generation)
    then have r': "r' = ?r1\<lparr>rr_generation_id := generation, rr_submission_sequence := 0, rr_active_replies := 0,
        rr_coordinator := new_coordinator, rr_coordinator_id := rr_coordinator_id r + 1\<rparr>"
      using run ended k by (simp add: finish_stop_def Let_def)
    have "accounts_ok 0 r'" using acc1 unfolding r' by (simp add: accounts_ok_def balance_def queued_def queue_state_ok_def)
    moreover have "tickets H r'" for H using new_coordinator_ok by (auto simp: tickets_def r')
    ultimately show ?thesis by (simp add: runtime_ok_def)
  qed
qed

lemma finish_stop_ok:
  assumes "accounts_ok 0 r" "tickets (held r) r" "\<And>i q. rr_queue r = Some (i, q) \<Longrightarrow> rq_closed q" "finish_stop r = Some r'"
  shows "runtime_ok r'"
proof -
  have "accounts_ok 0 (r\<lparr>rr_stopping := None\<rparr>)"
    using assms(1) by (simp add: accounts_ok_def balance_def queued_def queue_state_ok_def)
  from finish_stop_result [OF this assms(2-4)] show ?thesis .
qed

lemma begin_stop_ok:
  assumes ok: "runtime_ok r" and run: "begin_stop k r = Some r'"
  shows "runtime_ok r'"
proof (cases "rr_queue r")
  case None
  let ?r = "r\<lparr>rr_stopping := Some k\<rparr>"
  have workers: "rr_workers r = []" using ok None by (simp add: runtime_ok_def accounts_ok_def queue_state_ok_def)
  have "r' = r \<or> finish_stop ?r = Some r'" using run unfolding begin_stop_def None by (simp split: if_splits)
  then consider "r' = r" | "finish_stop ?r = Some r'" by blast
  then show ?thesis
  proof cases
    case 2
    have "accounts_ok 0 (?r\<lparr>rr_stopping := None\<rparr>)"
      using ok None workers by (simp add: runtime_ok_def accounts_ok_def balance_def queued_def queue_state_ok_def)
    moreover have "tickets (held ?r) ?r" using ok by (simp add: runtime_ok_def tickets_def held_def queued_def)
    moreover have "rq_closed q" if "rr_queue ?r = Some (i, q)" for i q using that None by simp
    ultimately show ?thesis using 2 by (rule finish_stop_result)
  qed (use ok in simp)
next
  case (Some iq)
  obtain i q where q: "rr_queue r = Some (i, q)" using Some by (cases iq) simp
  have acc: "accounts_ok 0 r" and qok: "queue_ok q" and tick: "tickets (held r) r"
    using ok q by (simp_all add: runtime_ok_def accounts_ok_def queue_state_ok_def)
  let ?drained = "map snd (sort_key fst (rq_entries q))"
  let ?r1 = "r\<lparr>rr_stopping := Some k, rr_queue := Some (i, queue_close (q\<lparr>rq_entries := []\<rparr>))\<rparr>"
  have "r' = r \<or> r' = fold (\<lambda>c r. record_terminal_drop (stop_reason k) (cancel_turn c r)) ?drained ?r1"
    using run unfolding begin_stop_def q queue_drain_def by (auto split: if_splits)
  then consider "r' = r" | "r' = fold (\<lambda>c r. record_terminal_drop (stop_reason k) (cancel_turn c r)) ?drained ?r1"
    by blast
  then show ?thesis
  proof cases
    case 2
    have "accounts_ok (0 - int (length ?drained)) ?r1"
      using acc q qok
      by (auto simp: accounts_ok_def balance_def queued_def queue_state_ok_def queue_close_def queue_ok_def)
    moreover have "held r \<subseteq> set ?drained \<union> held ?r1" using q by (auto simp: held_def queued_def)
    then have "tickets (set ?drained \<union> held ?r1) r" by (rule tickets_mono [OF tick])
    then have "tickets (set ?drained \<union> held ?r1) ?r1" by (simp add: tickets_def)
    ultimately show ?thesis using drain_ok [of 0 ?drained ?r1 "held ?r1" "stop_reason k"] 2 by (simp add: runtime_ok_def)
  qed (use ok in simp)
qed

section \<open>Every reachable runtime\<close>

lemma runtime_step_ok: "runtime_step r r' \<Longrightarrow> runtime_ok r \<Longrightarrow> runtime_ok r'"
proof (induction rule: runtime_step.induct)
  case (stop_ends r r')
  have "rq_closed q" if "rr_queue r = Some (i, q)" for i q
    using stop_ends that
    by (auto simp: finish_stop_def runtime_ok_def accounts_ok_def queue_state_ok_def split: if_splits option.splits)
  then show ?case using finish_stop_ok [OF _ _ _ stop_ends(1)] stop_ends(2) unfolding runtime_ok_def by blast
next
  case (configures policy now r r')
  then have r': "r' = r\<lparr>rr_policy := policy, rr_admission := new_admission policy now\<rparr>"
    by (auto simp: configure_replies_def split: if_splits)
  show ?case using configures(2) accounts_cong [of r' r] tickets_cong [of r' r] held_cong [of r' r]
    by (simp add: runtime_ok_def r')
qed (auto intro: submit_ok resume_ok take_ok settle_ok worker_cancelled_ok begin_stop_ok)

lemma new_runtime_ok: "runtime_ok (new_reply_runtime policy now)"
  using new_coordinator_ok
  by (auto simp: runtime_ok_def accounts_ok_def balance_def queued_def queue_state_ok_def counters_ok_def
      terminal_count_def tickets_def new_reply_runtime_def new_metrics_def dict_total_def)

lemma runtime_reachable_ok: "runtime_step\<^sup>*\<^sup>* (new_reply_runtime policy now) r \<Longrightarrow> runtime_ok r"
  by (induction rule: rtranclp_induct) (auto intro: new_runtime_ok runtime_step_ok)

end
