(* ===== verification/Reply_Properties.thy ===== *)
theory Reply_Properties
  imports Reply_Runtime_Steps
begin

text \<open>The properties of the runtime of replies and of its queue, and a concrete session.\<close>

section \<open>Conservation\<close>


section \<open>The order of the queue\<close>

text \<open>Which of two entries is served first.\<close>

definition served_before :: "bool \<Rightarrow> queue_entry \<Rightarrow> queue_entry \<Rightarrow> bool" where
  "served_before prioritize e e' \<longleftrightarrow>
     (if prioritize then rc_priority (snd e) < rc_priority (snd e') \<or>
        rc_priority (snd e) = rc_priority (snd e') \<and> fst e < fst e'
      else fst e < fst e')"

lemma entry_key_served:
  "entry_key p e \<le> entry_key p e' \<Longrightarrow> fst e \<noteq> fst e' \<Longrightarrow> served_before p e e'"
  by (auto simp: entry_key_def served_before_def less_reply_priority_def split: if_splits)

lemma entries_distinct: "queue_ok q \<Longrightarrow> e \<in> set (rq_entries q) \<Longrightarrow> e' \<in> set (rq_entries q) \<Longrightarrow> e \<noteq> e' \<Longrightarrow> fst e \<noteq> fst e'"
  by (metis inj_on_eq_iff distinct_map queue_ok_def strict_sorted_iff)

lemma discard_keeps:
  "discard_except_generation g q = (q', removed) \<Longrightarrow>
   (\<forall>e. e \<in> set (rq_entries q') \<longleftrightarrow> e \<in> set (rq_entries q) \<and> rc_generation_id (snd e) = g) \<and>
   removed + length (rq_entries q') = length (rq_entries q)"
  by (auto simp: discard_except_generation_def Let_def)

text \<open>
  C28. The bounded queue of a reachable runtime.  It never holds more than its size.  \<open>get\<close> takes
  the entry that is served before every other one: the highest priority and then the oldest, or the
  oldest when the queue does not prioritise.  \<open>put\<close> accepts exactly when the queue is open and has
  a place or an entry of lower priority; it then evicts only from a full queue, and the victim is
  the oldest entry of lower priority; what it accepts keeps the bound.  Discarding a generation
  keeps exactly the entries of the other one.
\<close>

theorem reply_queue_contract:
  assumes "runtime_step\<^sup>*\<^sup>* (new_reply_runtime policy start) r" "rr_queue r = Some (i, q)"
  shows "int (length (rq_entries q)) \<le> rq_max_size q \<and>
    (\<forall>q' c. queue_get q = Some (q', Some c) \<longrightarrow>
      (\<exists>e\<in>set (rq_entries q). c = snd e \<and> rq_entries q' = remove1 e (rq_entries q) \<and>
        (\<forall>e'\<in>set (rq_entries q). e' \<noteq> e \<longrightarrow> served_before (rq_prioritize q) e e'))) \<and>
    (\<forall>c q' result. queue_put c q = (q', result) \<longrightarrow>
      (pr_accepted result \<longleftrightarrow> \<not> rq_closed q \<and>
        (\<not> queue_full q \<or> (\<exists>e\<in>set (rq_entries q). rc_priority c < rc_priority (snd e)))) \<and>
      int (length (rq_entries q')) \<le> rq_max_size q' \<and>
      (\<forall>v. pr_evicted result = Some v \<longrightarrow> queue_full q \<and>
        (\<exists>e\<in>set (rq_entries q). v = snd e \<and> rc_priority c < rc_priority v \<and>
          (\<forall>e'\<in>set (rq_entries q). rc_priority c < rc_priority (snd e') \<longrightarrow> fst e \<le> fst e')))) \<and>
    (\<forall>g q' removed. discard_except_generation g q = (q', removed) \<longrightarrow>
      (\<forall>e. e \<in> set (rq_entries q') \<longleftrightarrow> e \<in> set (rq_entries q) \<and> rc_generation_id (snd e) = g))"
proof (intro conjI allI impI)
  have ok: "queue_ok q"
    using runtime_reachable_ok [OF assms(1)] assms(2) by (simp add: runtime_ok_def accounts_ok_def queue_state_ok_def)
  show "int (length (rq_entries q)) \<le> rq_max_size q" using ok by (simp add: queue_ok_def)
  show "\<exists>e\<in>set (rq_entries q). c = snd e \<and> rq_entries q' = remove1 e (rq_entries q) \<and>
      (\<forall>e'\<in>set (rq_entries q). e' \<noteq> e \<longrightarrow> served_before (rq_prioritize q) e e')"
    if "queue_get q = Some (q', Some c)" for q' c
  proof -
    obtain e where e: "min_by (entry_key (rq_prioritize q)) (rq_entries q) = Some e" "c = snd e"
      "rq_entries q' = remove1 e (rq_entries q)"
      using that \<open>queue_get q = Some (q', Some c)\<close> by (auto simp: queue_get_def split: option.splits if_splits)
    note mem = min_by_mem [OF e(1)]
    have "served_before (rq_prioritize q) e e'" if "e' \<in> set (rq_entries q)" "e' \<noteq> e" for e'
      using entry_key_served [OF min_by_le [OF e(1) that(1)]] entries_distinct [OF ok mem that(1)] that(2) by blast
    then show ?thesis using e mem by blast
  qed
  fix c q' result assume put: "queue_put c q = (q', result)"
  let ?lower = "filter (\<lambda>e. rc_priority c < rc_priority (snd e)) (rq_entries q)"
  show "pr_accepted result \<longleftrightarrow> \<not> rq_closed q \<and>
      (\<not> queue_full q \<or> (\<exists>e\<in>set (rq_entries q). rc_priority c < rc_priority (snd e)))"
  proof (cases "min_by fst ?lower")
    case None
    then show ?thesis using put by (auto simp: queue_put_def filter_empty_conv split: if_splits)
  next
    case (Some victim)
    then have "victim \<in> set (rq_entries q)" "rc_priority c < rc_priority (snd victim)" using min_by_mem by force+
    then show ?thesis using put Some by (auto simp: queue_put_def split: if_splits)
  qed
  show "int (length (rq_entries q')) \<le> rq_max_size q'"
    using queue_put_cases [OF ok put] ok by (auto simp: queue_ok_def)
  fix v assume "pr_evicted result = Some v"
  then obtain e where e: "queue_full q" "min_by fst ?lower = Some e" "v = snd e"
    using put by (auto simp: queue_put_def split: if_splits option.splits)
  show "queue_full q" by (rule e(1))
  show "\<exists>e\<in>set (rq_entries q). v = snd e \<and> rc_priority c < rc_priority v \<and>
      (\<forall>e'\<in>set (rq_entries q). rc_priority c < rc_priority (snd e') \<longrightarrow> fst e \<le> fst e')"
    using min_by_mem [OF e(2)] min_by_le [OF e(2)] e(3) by (intro bexI [of _ e]) auto
next
  show "e \<in> set (rq_entries q') \<longleftrightarrow> e \<in> set (rq_entries q) \<and> rc_generation_id (snd e) = g"
    if "discard_except_generation g q = (q', removed)" for g q' removed e
    using discard_keeps [OF that] by blast
qed

section \<open>A concrete session\<close>

text \<open>An exhaustive session: one message is admitted, taken by the worker and fails twice.\<close>

definition exhaustive_policy :: reply_policy where
  "exhaustive_policy =
     \<lparr>rp_enabled = True, rp_mode = Exhaustive, rp_max_replies_per_minute = 6, rp_max_queue_size = 2,
      rp_generation_concurrency = 1, rp_max_message_age_seconds = 15, rp_per_user_cooldown_seconds = 30,
      rp_duplicate_window_seconds = 60, rp_ordinary_sample_rate = 0, rp_reply_to_gifts = True,
      rp_reply_to_super_chat = True\<rparr>"

definition danmaku_hello :: danmaku where
  "danmaku_hello =
     \<lparr>dm_text = [104, 105], dm_user_name = [97], dm_user_id = 7, dm_timestamp = 100, dm_is_gift = True,
      dm_is_super_chat = False\<rparr>"

definition session_steps :: "(reply_runtime \<Rightarrow> reply_runtime option) list" where
  "session_steps =
     [\<lambda>r. map_option fst (submit_reply id 100 0 100 danmaku_hello 1 0 r),
      \<lambda>r. map_option fst (submit_reply id 100 0 100 danmaku_hello 1 0 r), worker_take 0 101,
      worker_settle 0 (ReplyFailed False) 102, worker_settle 0 (ReplyFailed False) 102]"

definition reply_session :: "nat \<Rightarrow> reply_runtime option" where
  "reply_session n = fold (\<lambda>f x. Option.bind x f) (take n session_steps) (Some (new_reply_runtime exhaustive_policy 99))"

lemma session_steps_step: "f \<in> set session_steps \<Longrightarrow> f r = Some r' \<Longrightarrow> runtime_step r r'"
  unfolding session_steps_def by (auto intro: submits takes settles)

lemma bind_step:
  "Option.bind x f = Some r' \<Longrightarrow> (\<And>r r'. f r = Some r' \<Longrightarrow> runtime_step r r') \<Longrightarrow>
   (\<And>r. x = Some r \<Longrightarrow> runtime_step\<^sup>*\<^sup>* s r) \<Longrightarrow> runtime_step\<^sup>*\<^sup>* s r'"
  by (cases x) (auto intro: rtranclp.rtrancl_into_rtrancl)

lemma fold_steps:
  "fold (\<lambda>f x. Option.bind x f) fs x = Some r \<Longrightarrow> (\<And>f r r'. f \<in> set fs \<Longrightarrow> f r = Some r' \<Longrightarrow> runtime_step r r') \<Longrightarrow>
   (\<And>r. x = Some r \<Longrightarrow> runtime_step\<^sup>*\<^sup>* s r) \<Longrightarrow> runtime_step\<^sup>*\<^sup>* s r"
proof (induction fs arbitrary: x)
  case (Cons f fs)
  show ?case
  proof (rule Cons.IH)
    show "fold (\<lambda>f x. Option.bind x f) fs (Option.bind x f) = Some r" using Cons.prems(1) by simp
    show "runtime_step\<^sup>*\<^sup>* s t" if "Option.bind x f = Some t" for t
      by (rule bind_step [OF that Cons.prems(2) [OF list.set_intros(1)] Cons.prems(3)])
    show "runtime_step t t'" if "g \<in> set fs" "g t = Some t'" for g t t'
      by (rule Cons.prems(2) [OF list.set_intros(2) [OF that(1)] that(2)])
  qed
qed simp

lemma reply_session_reachable:
  assumes "reply_session n = Some r"
  shows "runtime_step\<^sup>*\<^sup>* (new_reply_runtime exhaustive_policy 99) r"
  using assms unfolding reply_session_def
  by (rule fold_steps) (auto intro: session_steps_step dest: in_set_takeD)

lemmas reply_session_eval =
  reply_session_def session_steps_def Let_def new_reply_runtime_def exhaustive_policy_def danmaku_hello_def submit_reply_def
  decide_admission_def new_admission_def strip_unicode_def unicode_space_def priority_for_def ensure_worker_def
  worker_running_def new_reply_queue_def reply_candidate_of_def queue_put_wait_def queue_full_def append_entry_def
  submission_answered_def worker_take_def queue_get_def entry_key_def set_worker_def new_metrics_def
  append_latency_sample_def last_n_def new_coordinator_def

lemma reply_session_busy:
  "\<exists>r i q q' c. reply_session 2 = Some r \<and> rr_queue r = Some (i, q) \<and> length (rq_entries q) = 2 \<and>
     queue_get q = Some (q', Some c)"
  by (simp add: reply_session_eval)

theorem reply_queue_contract_witness:
  "\<exists>r i q q' c. reply_session 2 = Some r \<and> rr_queue r = Some (i, q) \<and> queue_get q = Some (q', Some c) \<and>
     c \<in> snd ` set (rq_entries q) \<and> int 2 \<le> rq_max_size q"
proof -
  obtain r i q q' c where r: "reply_session 2 = Some r" "rr_queue r = Some (i, q)" and len: "length (rq_entries q) = 2"
    and get: "queue_get q = Some (q', Some c)"
    using reply_session_busy by blast
  note c = reply_queue_contract [OF reply_session_reachable [OF r(1)] r(2)]
  have "int 2 \<le> rq_max_size q" using conjunct1 [OF c] len by simp
  moreover have "c \<in> snd ` set (rq_entries q)" using conjunct1 [OF conjunct2 [OF c]] get by blast
  ultimately show ?thesis using r get by blast
qed


end
