(* ===== verification/Action_Queue.thy ===== *)
theory Action_Queue
  imports Py_Text
begin

text \<open>
  The queue of avatar actions of \<open>services/live2d/action_queue.py\<close>: overflow and duplicates, the mutex
  with its cooldown, and the processors.  A task is a state between two suspensions; \<open>now\<close> is the
  wall clock in seconds and \<open>monotonic\<close> the monotonic one.  What the callback does is a parameter: it returns
  or raises.  A task may take the lock before one that waited for it; the code serves them in order.
\<close>

section \<open>Data\<close>

datatype overflow_policy = DropOldest | DropNewest | RejectNew

datatype queue_policy = AppendAction | ReplaceQueue | InterruptAction

text \<open>\<open>None\<close> is the \<open>ValueError\<close> of a name that is no policy.\<close>

definition queue_policy_of :: "string \<Rightarrow> queue_policy option" where
  "queue_policy_of name =
     (if name = ''append'' then Some AppendAction
      else if name = ''replace'' then Some ReplaceQueue
      else if name = ''interrupt'' then Some InterruptAction
      else None)"

record action_message =
  am_action_id :: string
  am_action :: json_obj
  am_duration_sec :: rat
  am_queue_policy :: queue_policy

record action_mutex =
  mx_cooldown_ms :: int
  mx_last_action_end :: rat
  mx_is_executing :: bool
  mx_locked :: bool

text \<open>
  A processor has been created, is at the head of its loop, waits for the lock of the mutex, sleeps out
  the cooldown with the lock held, runs its action, or waits for the lock to give the mutex back
  (and whether its action raised).  \<open>Interrupting\<close> is an \<open>enqueue\<close> that waits for the lock to release
  the mutex.
\<close>

datatype queue_task =
    Created
  | LoopHead
  | Locking action_message
  | Cooling action_message
  | Acting action_message
  | Releasing action_message bool
  | Interrupting action_message
  | Finished

record action_queue =
  aq_max_size :: int
  aq_overflow_policy :: overflow_policy
  aq_dedup_ttl_seconds :: rat
  aq_dedup_capacity :: int
  aq_queue :: "action_message list"
  aq_seen_action_ids :: "(string, rat) dict"
  aq_is_processing :: bool
  aq_current_action :: "action_message option"
  aq_mutex :: action_mutex
  aq_tasks :: "queue_task list"
  aq_process_task :: "nat option"

definition new_action_queue :: "int \<Rightarrow> overflow_policy \<Rightarrow> int \<Rightarrow> rat \<Rightarrow> int \<Rightarrow> action_queue" where
  "new_action_queue max_size policy cooldown_ms ttl capacity =
     \<lparr>aq_max_size = max_size, aq_overflow_policy = policy, aq_dedup_ttl_seconds = max 0 ttl,
      aq_dedup_capacity = max 1 capacity, aq_queue = [], aq_seen_action_ids = [], aq_is_processing = False,
      aq_current_action = None,
      aq_mutex = \<lparr>mx_cooldown_ms = cooldown_ms, mx_last_action_end = 0, mx_is_executing = False, mx_locked = False\<rparr>,
      aq_tasks = [], aq_process_task = None\<rparr>"

section \<open>Duplicates\<close>

definition prune_seen_actions :: "rat \<Rightarrow> action_queue \<Rightarrow> action_queue" where
  "prune_seen_actions monotonic q =
     q\<lparr>aq_seen_action_ids :=
         dropWhile (\<lambda>(k, seen_at). seen_at \<le> monotonic - aq_dedup_ttl_seconds q) (aq_seen_action_ids q)\<rparr>"

definition is_duplicate :: "string \<Rightarrow> rat \<Rightarrow> action_queue \<Rightarrow> action_queue \<times> bool" where
  "is_duplicate action_id monotonic q =
     (let q1 = prune_seen_actions monotonic q in (q1, action_id \<in> set (dict_keys (aq_seen_action_ids q1))))"

definition remember_action :: "string \<Rightarrow> rat \<Rightarrow> action_queue \<Rightarrow> action_queue" where
  "remember_action action_id monotonic q =
     (let seen = dict_del action_id (aq_seen_action_ids q) @ [(action_id, monotonic)] in
      q\<lparr>aq_seen_action_ids := last_n (nat (aq_dedup_capacity q)) seen\<rparr>)"

section \<open>Enqueueing\<close>

datatype enqueue_result =
    Duplicate nat
  | QueueOverflow
  | QueueFull
  | Enqueued nat
  | EmptyPop
  | EnqueueWaits

text \<open>The rest of \<open>enqueue\<close> after the policy was handled.  \<open>EmptyPop\<close> is the \<open>IndexError\<close> of \<open>pop(0)\<close>.\<close>

definition put_action :: "action_message \<Rightarrow> rat \<Rightarrow> action_queue \<Rightarrow> action_queue \<times> enqueue_result" where
  "put_action a monotonic q =
     (let full = (aq_max_size q \<le> int (length (aq_queue q))) in
      if full \<and> aq_overflow_policy q = DropNewest then (q, QueueOverflow)
      else if full \<and> aq_overflow_policy q = RejectNew then (q, QueueFull)
      else if full \<and> aq_queue q = [] then (q, EmptyPop)
      else
        (let q1 = q\<lparr>aq_queue := (if full then tl (aq_queue q) else aq_queue q) @ [a]\<rparr>;
             q2 = (if am_action_id a \<noteq> [] then remember_action (am_action_id a) monotonic q1 else q1);
             q3 = (if \<not> aq_is_processing q2
                   then q2\<lparr>aq_tasks := aq_tasks q2 @ [Created], aq_process_task := Some (length (aq_tasks q2))\<rparr>
                   else q2)
         in (q3, Enqueued (length (aq_queue q3)))))"

definition mutex_released :: "rat \<Rightarrow> action_queue \<Rightarrow> action_queue" where
  "mutex_released now q =
     q\<lparr>aq_mutex := (aq_mutex q)\<lparr>mx_is_executing := False, mx_last_action_end := now\<rparr>\<rparr>"

definition interrupt_current :: "rat \<Rightarrow> action_queue \<Rightarrow> action_queue" where
  "interrupt_current now q = (mutex_released now q)\<lparr>aq_is_processing := False, aq_current_action := None\<rparr>"

definition enqueue_action :: "action_message \<Rightarrow> rat \<Rightarrow> rat \<Rightarrow> action_queue \<Rightarrow> action_queue \<times> enqueue_result" where
  "enqueue_action a now monotonic q =
     (case (if am_action_id a \<noteq> [] then is_duplicate (am_action_id a) monotonic q else (q, False)) of
        (q1, duplicate) \<Rightarrow>
          if duplicate then (q1, Duplicate (length (aq_queue q1)))
          else if am_queue_policy a = AppendAction then put_action a monotonic q1
          else
            (let q2 = q1\<lparr>aq_queue := []\<rparr> in
             if \<not> aq_is_processing q2 then put_action a monotonic q2
             else if mx_locked (aq_mutex q2) then (q2\<lparr>aq_tasks := aq_tasks q2 @ [Interrupting a]\<rparr>, EnqueueWaits)
             else put_action a monotonic (interrupt_current now q2)))"

section \<open>Processing\<close>

definition set_task :: "nat \<Rightarrow> queue_task \<Rightarrow> action_queue \<Rightarrow> action_queue" where
  "set_task i t q = q\<lparr>aq_tasks := (aq_tasks q)[i := t]\<rparr>"

definition end_processing :: "nat \<Rightarrow> action_queue \<Rightarrow> action_queue" where
  "end_processing i q = set_task i Finished (q\<lparr>aq_is_processing := False, aq_current_action := None\<rparr>)"

text \<open>\<open>acquire\<close> after the cooldown; an action that cannot have the mutex is skipped.\<close>

definition acquire_decided :: "nat \<Rightarrow> action_message \<Rightarrow> action_queue \<Rightarrow> action_queue" where
  "acquire_decided i a q =
     (if mx_is_executing (aq_mutex q) then set_task i LoopHead q
      else set_task i (Acting a) (q\<lparr>aq_mutex := (aq_mutex q)\<lparr>mx_is_executing := True\<rparr>\<rparr>))"

definition mutex_acquire :: "nat \<Rightarrow> action_message \<Rightarrow> rat \<Rightarrow> action_queue \<Rightarrow> action_queue" where
  "mutex_acquire i a now q =
     (let m = aq_mutex q in
      if mx_locked m then set_task i (Locking a) q
      else if (now - mx_last_action_end m) * 1000 < of_int (mx_cooldown_ms m)
      then set_task i (Cooling a) (q\<lparr>aq_mutex := m\<lparr>mx_locked := True\<rparr>\<rparr>)
      else acquire_decided i a q)"

definition mutex_release :: "nat \<Rightarrow> action_message \<Rightarrow> bool \<Rightarrow> rat \<Rightarrow> action_queue \<Rightarrow> action_queue" where
  "mutex_release i a failed now q =
     (if mx_locked (aq_mutex q) then set_task i (Releasing a failed) q
      else if failed then end_processing i (mutex_released now q)
      else set_task i LoopHead (mutex_released now q))"

text \<open>
  The i-th task goes on: \<open>None\<close> when it still waits or has ended.  \<open>failed\<close> is whether the callback of
  a running action raises.  The head of the loop is a step of its own.
\<close>

definition run_task :: "nat \<Rightarrow> bool \<Rightarrow> rat \<Rightarrow> rat \<Rightarrow> action_queue \<Rightarrow> action_queue option" where
  "run_task i failed now monotonic q =
     (if length (aq_tasks q) \<le> i then None
      else
        (case aq_tasks q ! i of
           Created \<Rightarrow>
             Some (if aq_is_processing q then set_task i Finished q
                   else set_task i LoopHead (q\<lparr>aq_is_processing := True\<rparr>))
         | LoopHead \<Rightarrow>
             Some (case aq_queue q of
                     [] \<Rightarrow> end_processing i q
                   | a # later \<Rightarrow> mutex_acquire i a now (q\<lparr>aq_queue := later, aq_current_action := Some a\<rparr>))
         | Locking a \<Rightarrow> if mx_locked (aq_mutex q) then None else Some (mutex_acquire i a now q)
         | Cooling a \<Rightarrow> Some (acquire_decided i a (q\<lparr>aq_mutex := (aq_mutex q)\<lparr>mx_locked := False\<rparr>\<rparr>))
         | Acting a \<Rightarrow> Some (mutex_release i a failed now q)
         | Releasing a had_failed \<Rightarrow>
             if mx_locked (aq_mutex q) then None else Some (mutex_release i a had_failed now q)
         | Interrupting a \<Rightarrow>
             if mx_locked (aq_mutex q) then None
             else Some (fst (put_action a monotonic (interrupt_current now (set_task i Finished q))))
         | Finished \<Rightarrow> None))"

section \<open>Stopping\<close>

text \<open>\<open>stop\<close> cancels the task that was created last and waits for it; then it clears the queue.\<close>

definition cancel_processor :: "nat \<Rightarrow> rat \<Rightarrow> action_queue \<Rightarrow> action_queue" where
  "cancel_processor i now q =
     (case aq_tasks q ! i of
        Created \<Rightarrow> set_task i Finished q
      | Locking a \<Rightarrow> end_processing i q
      | Cooling a \<Rightarrow> end_processing i (q\<lparr>aq_mutex := (aq_mutex q)\<lparr>mx_locked := False\<rparr>\<rparr>)
      | Acting a \<Rightarrow> mutex_release i a True now q
      | Releasing a failed \<Rightarrow> end_processing i q
      | _ \<Rightarrow> q)"

definition stop_cancels :: "rat \<Rightarrow> action_queue \<Rightarrow> action_queue option" where
  "stop_cancels now q =
     (case aq_process_task q of
        None \<Rightarrow> None
      | Some i \<Rightarrow>
          if length (aq_tasks q) \<le> i \<or> aq_tasks q ! i = Finished then None else Some (cancel_processor i now q))"

definition stop_clears :: "action_queue \<Rightarrow> action_queue option" where
  "stop_clears q =
     (if (case aq_process_task q of None \<Rightarrow> True | Some i \<Rightarrow> length (aq_tasks q) \<le> i \<or> aq_tasks q ! i = Finished)
      then Some (q\<lparr>aq_queue := [], aq_seen_action_ids := [], aq_is_processing := False, aq_current_action := None\<rparr>)
      else None)"

definition clear_queue :: "action_queue \<Rightarrow> action_queue" where
  "clear_queue q = q\<lparr>aq_queue := []\<rparr>"

end
