(* ===== verification/Action_Queue_Properties.thy ===== *)
theory Action_Queue_Properties
  imports Action_Queue "HOL-Library.Sublist"
begin

text \<open>
  When the queue runs one action at a time: as long as nothing interrupts a running processor, and
  not beyond.
\<close>

section \<open>Steps\<close>

text \<open>Any operation of the queue, and those that interrupt no processor.\<close>

inductive action_step :: "action_queue \<Rightarrow> action_queue \<Rightarrow> bool" where
  enqueues: "enqueue_action a now monotonic q = (q', result) \<Longrightarrow> action_step q q'"
| goes_on: "run_task i failed now monotonic q = Some q' \<Longrightarrow> action_step q q'"
| cancels: "stop_cancels now q = Some q' \<Longrightarrow> action_step q q'"
| stops: "stop_clears q = Some q' \<Longrightarrow> action_step q q'"
| clears: "action_step q (clear_queue q)"

text \<open>
  A run without interruption, with the actions accepted and those taken from the queue by a
  processor, in order.
\<close>

inductive calm_run :: "action_queue \<Rightarrow> action_queue \<Rightarrow> action_message list \<Rightarrow> action_message list \<Rightarrow> bool" for start where
  calm_start: "calm_run start start [] []"
| calm_enqueue:
    "calm_run start q accepted taken \<Longrightarrow> am_queue_policy a = AppendAction \<or> \<not> aq_is_processing q \<Longrightarrow>
     enqueue_action a now monotonic q = (q', result) \<Longrightarrow>
     calm_run start q' (accepted @ (if \<exists>n. result = Enqueued n then [a] else [])) taken"
| calm_goes_on:
    "calm_run start q accepted taken \<Longrightarrow> run_task i failed now monotonic q = Some q' \<Longrightarrow>
     calm_run start q' accepted
       (taken @ (if aq_tasks q ! i = LoopHead then take 1 (aq_queue q) else []))"
| calm_clears: "calm_run start q accepted taken \<Longrightarrow> calm_run start (clear_queue q) accepted taken"

lemma calm_steps: "calm_run start q accepted taken \<Longrightarrow> action_step\<^sup>*\<^sup>* start q"
  by (induction rule: calm_run.induct) (auto intro: rtranclp.rtrancl_into_rtrancl enqueues goes_on clears)

section \<open>The processors\<close>

definition processes :: "queue_task \<Rightarrow> bool" where
  "processes t \<longleftrightarrow> (case t of Created \<Rightarrow> False | Finished \<Rightarrow> False | Interrupting a \<Rightarrow> False | _ \<Rightarrow> True)"

definition runs_action :: "queue_task \<Rightarrow> bool" where
  "runs_action t \<longleftrightarrow> (case t of Acting a \<Rightarrow> True | Releasing a failed \<Rightarrow> True | _ \<Rightarrow> False)"

definition cools :: "queue_task \<Rightarrow> bool" where
  "cools t \<longleftrightarrow> (case t of Cooling a \<Rightarrow> True | _ \<Rightarrow> False)"

lemma task_kinds [simp]:
  "\<not> processes Created" "\<not> processes Finished" "processes LoopHead" "processes (Locking a)" "processes (Cooling a)"
  "processes (Acting a)" "processes (Releasing a f)" "\<not> processes (Interrupting a)"
  "runs_action (Acting a)" "runs_action (Releasing a f)" "\<not> runs_action LoopHead" "\<not> runs_action (Locking a)"
  "\<not> runs_action (Cooling a)" "cools (Cooling a)" "\<not> cools LoopHead" "\<not> cools (Locking a)" "\<not> cools (Acting a)"
  "\<not> cools (Releasing a f)"
  by (simp_all add: processes_def runs_action_def cools_def)

definition calm :: "action_queue \<Rightarrow> bool" where
  "calm q \<longleftrightarrow>
     filter processes (aq_tasks q) = [] \<and> \<not> aq_is_processing q \<and> \<not> mx_is_executing (aq_mutex q) \<and> \<not> mx_locked (aq_mutex q) \<and>
       (\<forall>a. Interrupting a \<notin> set (aq_tasks q))
   \<or> (\<exists>t. filter processes (aq_tasks q) = [t] \<and> aq_is_processing q \<and> mx_is_executing (aq_mutex q) = runs_action t \<and>
       mx_locked (aq_mutex q) = cools t) \<and> (\<forall>a. Interrupting a \<notin> set (aq_tasks q))"

text \<open>The only processor changes its state, or a task that is none becomes or stays none.\<close>

lemma calm_set_task:
  assumes i: "i < length (aq_tasks q)" and q: "filter processes (aq_tasks q) = [aq_tasks q ! i]"
    and p: "processes (aq_tasks q ! i)" and y: "\<And>a. y \<noteq> Interrupting a"
    and none: "\<forall>a. Interrupting a \<notin> set (aq_tasks q)"
    and flags: "if processes y then aq_is_processing q' \<and> mx_is_executing (aq_mutex q') = runs_action y \<and>
        mx_locked (aq_mutex q') = cools y
      else \<not> aq_is_processing q' \<and> \<not> mx_is_executing (aq_mutex q') \<and> \<not> mx_locked (aq_mutex q')"
    and tasks: "aq_tasks q' = (aq_tasks q)[i := y]"
  shows "calm q'"
proof -
  obtain before after where f: "filter processes (aq_tasks q) = before @ filter processes [aq_tasks q ! i] @ after"
    "filter processes ((aq_tasks q)[i := y]) = before @ filter processes [y] @ after"
    using filter_update [OF i] by blast
  have "before = [] \<and> after = []" using f(1) q p by (cases before) simp_all
  then have "filter processes (aq_tasks q') = filter processes [y]" using f(2) tasks by simp
  moreover have "\<forall>a. Interrupting a \<notin> set (aq_tasks q')"
  proof
    fix a
    have "set (aq_tasks q') \<subseteq> insert y (set (aq_tasks q))" unfolding tasks by (rule set_update_subset_insert)
    then show "Interrupting a \<notin> set (aq_tasks q')" using none y [of a] by blast
  qed
  ultimately show ?thesis using flags by (cases "processes y") (simp_all add: calm_def)
qed

lemma calm_idle:
  assumes "calm q" "\<not> aq_is_processing q"
  shows "filter processes (aq_tasks q) = []" "\<not> mx_is_executing (aq_mutex q)" "\<not> mx_locked (aq_mutex q)"
    "\<forall>a. Interrupting a \<notin> set (aq_tasks q)"
  using assms by (auto simp: calm_def)

lemma calm_active:
  assumes "calm q" "i < length (aq_tasks q)" "processes (aq_tasks q ! i)"
  shows "filter processes (aq_tasks q) = [aq_tasks q ! i]" "aq_is_processing q"
    "mx_is_executing (aq_mutex q) = runs_action (aq_tasks q ! i)" "mx_locked (aq_mutex q) = cools (aq_tasks q ! i)"
    "\<forall>a. Interrupting a \<notin> set (aq_tasks q)"
proof -
  have mem: "aq_tasks q ! i \<in> set (filter processes (aq_tasks q))" using assms(2,3) by simp
  then have "filter processes (aq_tasks q) \<noteq> []" by (cases "filter processes (aq_tasks q)") simp_all
  then obtain t where t: "filter processes (aq_tasks q) = [t]" "aq_is_processing q"
    "mx_is_executing (aq_mutex q) = runs_action t" "mx_locked (aq_mutex q) = cools t"
    and none: "\<forall>a. Interrupting a \<notin> set (aq_tasks q)"
    using assms(1) unfolding calm_def by blast
  have "aq_tasks q ! i = t" using mem unfolding t(1) by simp
  with t none show "filter processes (aq_tasks q) = [aq_tasks q ! i]" "aq_is_processing q"
    "mx_is_executing (aq_mutex q) = runs_action (aq_tasks q ! i)" "mx_locked (aq_mutex q) = cools (aq_tasks q ! i)"
    "\<forall>a. Interrupting a \<notin> set (aq_tasks q)"
    by simp_all
qed

lemma calm_cong:
  "aq_tasks q' = aq_tasks q \<Longrightarrow> aq_is_processing q' = aq_is_processing q \<Longrightarrow> aq_mutex q' = aq_mutex q \<Longrightarrow> calm q' = calm q"
  by (simp add: calm_def)

lemma calm_new_task:
  assumes "calm q" "\<not> aq_is_processing q" "aq_tasks q' = aq_tasks q @ [Created]"
    "aq_is_processing q' = aq_is_processing q" "aq_mutex q' = aq_mutex q"
  shows "calm q'"
  using calm_idle [OF assms(1,2)] assms(2-5) by (simp add: calm_def)

text \<open>What an accepted action changes.\<close>

lemma remember_action_keeps [simp]:
  "aq_queue (remember_action k monotonic q) = aq_queue q" "aq_mutex (remember_action k monotonic q) = aq_mutex q"
  "aq_is_processing (remember_action k monotonic q) = aq_is_processing q"
  "aq_tasks (remember_action k monotonic q) = aq_tasks q" "aq_max_size (remember_action k monotonic q) = aq_max_size q"
  by (simp_all add: remember_action_def Let_def)

lemma put_accepted:
  assumes "put_action a monotonic q = (q', Enqueued n)"
  shows "aq_queue q' = (if aq_max_size q \<le> int (length (aq_queue q)) then tl (aq_queue q) else aq_queue q) @ [a]"
    and "aq_mutex q' = aq_mutex q" "aq_is_processing q' = aq_is_processing q"
    and "aq_tasks q' = (if aq_is_processing q then aq_tasks q else aq_tasks q @ [Created])"
    and "aq_max_size q' = aq_max_size q" "aq_max_size q \<le> int (length (aq_queue q)) \<longrightarrow> aq_queue q \<noteq> []"
  using assms by (auto simp: put_action_def Let_def split: if_splits)

lemma put_refused:
  "put_action a monotonic q = (q', result) \<Longrightarrow> \<nexists>n. result = Enqueued n \<Longrightarrow> q' = q"
  by (auto simp: put_action_def Let_def split: if_splits)

lemma calm_put:
  assumes "calm q" "put_action a monotonic q = (q', result)"
  shows "calm q'"
proof (cases "\<exists>n. result = Enqueued n")
  case True
  then obtain n where put: "put_action a monotonic q = (q', Enqueued n)" using assms(2) by blast
  note p = put_accepted [OF put]
  show ?thesis
  proof (cases "aq_is_processing q")
    case True
    then show ?thesis using p assms(1) calm_cong [of q' q] by simp
  next
    case False
    then show ?thesis using p by (intro calm_new_task [OF assms(1) False]) simp_all
  qed
qed (use assms put_refused in blast)

text \<open>An \<open>enqueue\<close> that interrupts nothing is a put, with the queue emptied before when the policy says so.\<close>

lemma calm_enqueue_cases:
  assumes "am_queue_policy a = AppendAction \<or> \<not> aq_is_processing q" "enqueue_action a now monotonic q = (q', result)"
  obtains n where "result = Duplicate n" "aq_queue q' = aq_queue q" "aq_tasks q' = aq_tasks q"
    "aq_is_processing q' = aq_is_processing q" "aq_mutex q' = aq_mutex q" "aq_max_size q' = aq_max_size q"
  | q1 where "put_action a monotonic q1 = (q', result)" "aq_queue q1 = aq_queue q \<or> aq_queue q1 = []"
    "aq_tasks q1 = aq_tasks q" "aq_is_processing q1 = aq_is_processing q" "aq_mutex q1 = aq_mutex q"
    "aq_max_size q1 = aq_max_size q"
proof -
  obtain q1 dup where d: "(if am_action_id a \<noteq> [] then is_duplicate (am_action_id a) monotonic q else (q, False)) = (q1, dup)"
    by fastforce
  have q1: "aq_queue q1 = aq_queue q" "aq_tasks q1 = aq_tasks q" "aq_is_processing q1 = aq_is_processing q"
    "aq_mutex q1 = aq_mutex q" "aq_max_size q1 = aq_max_size q"
    using d by (auto simp: is_duplicate_def prune_seen_actions_def Let_def split: if_splits)
  consider "dup" | "\<not> dup" "am_queue_policy a = AppendAction" | "\<not> dup" "am_queue_policy a \<noteq> AppendAction" by blast
  then show thesis
  proof cases
    case 1
    then show thesis using that(1) assms(2) q1 unfolding enqueue_action_def d by auto
  next
    case 2
    then show thesis using that(2) [of q1] assms(2) q1 unfolding enqueue_action_def d by simp
  next
    case 3
    then have "put_action a monotonic (q1\<lparr>aq_queue := []\<rparr>) = (q', result)"
      using assms q1 unfolding enqueue_action_def d by (simp add: Let_def)
    then show thesis using that(2) q1 by simp
  qed
qed

lemma calm_enqueue_ok:
  assumes "calm q" "am_queue_policy a = AppendAction \<or> \<not> aq_is_processing q" "enqueue_action a now monotonic q = (q', result)"
  shows "calm q'"
  using assms(2,3)
proof (cases rule: calm_enqueue_cases)
  case (1 n)
  then show ?thesis using assms(1) calm_cong [of q' q] by simp
next
  case (2 q1)
  then show ?thesis using assms(1) calm_cong [of q1 q] calm_put by blast
qed

section \<open>Going on\<close>

lemma acquire_calm:
  assumes "calm q" "i < length (aq_tasks q)" "processes (aq_tasks q ! i)" "\<not> runs_action (aq_tasks q ! i)" "\<not> cools (aq_tasks q ! i)"
    "aq_tasks p = aq_tasks q" "aq_is_processing p = aq_is_processing q" "aq_mutex p = aq_mutex q"
  shows "calm (mutex_acquire i a now p)"
proof -
  note A = calm_active [OF assms(1-3)]
  consider "mutex_acquire i a now p = set_task i (Cooling a) (p\<lparr>aq_mutex := (aq_mutex p)\<lparr>mx_locked := True\<rparr>\<rparr>)"
    | "mutex_acquire i a now p = set_task i (Acting a) (p\<lparr>aq_mutex := (aq_mutex p)\<lparr>mx_is_executing := True\<rparr>\<rparr>)"
    using A(3,4) assms(4,5,8) unfolding mutex_acquire_def acquire_decided_def Let_def
    by (cases "(now - mx_last_action_end (aq_mutex p)) * 1000 < of_int (mx_cooldown_ms (aq_mutex p))") (metis, metis)
  then show ?thesis
  proof cases
    case 1
    then show ?thesis using A assms
      by (intro calm_set_task [OF assms(2) A(1) assms(3), where y = "Cooling a"]) (simp_all add: set_task_def)
  next
    case 2
    then show ?thesis using A assms
      by (intro calm_set_task [OF assms(2) A(1) assms(3), where y = "Acting a"]) (simp_all add: set_task_def)
  qed
qed

lemma release_calm:
  assumes "calm q" "i < length (aq_tasks q)" "runs_action (aq_tasks q ! i)" "processes (aq_tasks q ! i)" "\<not> cools (aq_tasks q ! i)"
  shows "calm (mutex_release i a failed now q)"
proof -
  note A = calm_active [OF assms(1,2,4)]
  show ?thesis
  proof (cases failed)
    case True
    then have "mutex_release i a failed now q = end_processing i (mutex_released now q)"
      using A assms(5) by (simp add: mutex_release_def)
    then show ?thesis using A assms
      by (intro calm_set_task [OF assms(2) A(1) assms(4), where y = Finished]) (simp_all add: end_processing_def set_task_def mutex_released_def)
  next
    case False
    then have "mutex_release i a failed now q = set_task i LoopHead (mutex_released now q)"
      using A assms(5) by (simp add: mutex_release_def)
    then show ?thesis using A assms
      by (intro calm_set_task [OF assms(2) A(1) assms(4), where y = LoopHead]) (simp_all add: set_task_def mutex_released_def)
  qed
qed

lemma calm_run_task:
  assumes calm: "calm q" and run: "run_task i failed now monotonic q = Some q'"
  shows "calm q'"
proof -
  have i: "i < length (aq_tasks q)" using run by (simp add: run_task_def split: if_splits)
  show ?thesis
  proof (cases "aq_tasks q ! i")
    case Created
    show ?thesis
    proof (cases "aq_is_processing q")
      case True
      then have q': "q' = set_task i Finished q" using run i Created by (simp add: run_task_def)
      obtain before after where "filter processes (aq_tasks q) = before @ filter processes [aq_tasks q ! i] @ after"
        "filter processes ((aq_tasks q)[i := Finished]) = before @ filter processes [Finished] @ after"
        using filter_update [OF i] by blast
      then have "filter processes (aq_tasks q') = filter processes (aq_tasks q)" using Created by (simp add: q' set_task_def)
      moreover have "\<forall>a. Interrupting a \<notin> set (aq_tasks q')"
        using calm set_update_subset_insert [of "aq_tasks q" i Finished] by (auto simp: calm_def q' set_task_def)
      ultimately show ?thesis using calm True by (simp add: calm_def q') (simp add: set_task_def)
    next
      case False
      note I = calm_idle [OF calm False]
      have q': "q' = set_task i LoopHead (q\<lparr>aq_is_processing := True\<rparr>)" using run i Created False by (simp add: run_task_def)
      obtain before after where f: "filter processes (aq_tasks q) = before @ filter processes [aq_tasks q ! i] @ after"
        "filter processes ((aq_tasks q)[i := LoopHead]) = before @ filter processes [LoopHead] @ after"
        using filter_update [OF i] by blast
      then have "filter processes (aq_tasks q') = [LoopHead]" using I Created by (simp add: q' set_task_def)
      moreover have "\<forall>a. Interrupting a \<notin> set (aq_tasks q')"
        using I(4) set_update_subset_insert [of "aq_tasks q" i LoopHead] by (auto simp: q' set_task_def)
      ultimately show ?thesis using I by (simp add: calm_def) (simp add: q' set_task_def)
    qed
  next
    case LoopHead
    then have p: "processes (aq_tasks q ! i)" by simp
    note A = calm_active [OF calm i p]
    show ?thesis
    proof (cases "aq_queue q")
      case Nil
      then have "q' = end_processing i q" using run i LoopHead by (simp add: run_task_def)
      then show ?thesis using A LoopHead
        by (intro calm_set_task [OF i A(1) p, where y = Finished]) (simp_all add: end_processing_def set_task_def)
    next
      case (Cons a later)
      then have "q' = mutex_acquire i a now (q\<lparr>aq_queue := later, aq_current_action := Some a\<rparr>)"
        using run i LoopHead by (simp add: run_task_def)
      then show ?thesis using acquire_calm [OF calm i p] LoopHead by simp
    qed
  next
    case (Locking a)
    then have "q' = mutex_acquire i a now q" using run i by (simp add: run_task_def split: if_splits)
    then show ?thesis using acquire_calm [OF calm i] Locking by simp
  next
    case (Cooling a)
    then have p: "processes (aq_tasks q ! i)" by simp
    note A = calm_active [OF calm i p]
    have "q' = set_task i (Acting a) (q\<lparr>aq_mutex := (aq_mutex q)\<lparr>mx_locked := False, mx_is_executing := True\<rparr>\<rparr>)"
      using run i Cooling A by (simp add: run_task_def acquire_decided_def)
    then show ?thesis using A Cooling
      by (intro calm_set_task [OF i A(1) p, where y = "Acting a"]) (simp_all add: set_task_def)
  next
    case (Acting a)
    then have "q' = mutex_release i a failed now q" using run i by (simp add: run_task_def)
    then show ?thesis using release_calm [OF calm i, of a failed now] Acting by simp
  next
    case (Releasing a f)
    then have "q' = mutex_release i a f now q" using run i by (simp add: run_task_def split: if_splits)
    then show ?thesis using release_calm [OF calm i, of a f now] Releasing by simp
  next
    case (Interrupting a)
    then have "Interrupting a \<in> set (aq_tasks q)" using i by (metis nth_mem)
    then show ?thesis using calm by (auto simp: calm_def)
  next
    case Finished
    then show ?thesis using run i by (simp add: run_task_def)
  qed
qed

section \<open>Calm runs\<close>

definition run_ok :: "int \<Rightarrow> action_queue \<Rightarrow> action_message list \<Rightarrow> action_message list \<Rightarrow> bool" where
  "run_ok n q accepted taken \<longleftrightarrow>
     calm q \<and> aq_max_size q = n \<and> subseq (taken @ aq_queue q) accepted \<and> (1 \<le> n \<longrightarrow> int (length (aq_queue q)) \<le> n)"

lemma put_run_ok:
  assumes put: "put_action a monotonic q1 = (q', result)" and n: "aq_max_size q1 = n" and x: "subseq (aq_queue q1) later"
    and bound: "1 \<le> n \<longrightarrow> int (length (aq_queue q1)) \<le> n" and sub: "subseq (taken @ later) accepted"
  shows "subseq (taken @ aq_queue q') (accepted @ (if \<exists>n. result = Enqueued n then [a] else [])) \<and>
    aq_max_size q' = n \<and> (1 \<le> n \<longrightarrow> int (length (aq_queue q')) \<le> n)"
proof (cases "\<exists>n. result = Enqueued n")
  case False
  then have "q' = q1" using put_refused [OF put] by blast
  moreover have "subseq (taken @ aq_queue q1) (taken @ later)" using x by (simp only: subseq_append')
  ultimately show ?thesis using False sub n bound by (simp add: subseq_order.order_trans)
next
  case True
  then obtain k where "put_action a monotonic q1 = (q', Enqueued k)" using put by blast
  note p = put_accepted [OF this]
  define rest where "rest = (if n \<le> int (length (aq_queue q1)) then tl (aq_queue q1) else aq_queue q1)"
  have q': "aq_queue q' = rest @ [a]" using p(1) n by (simp add: rest_def)
  have "subseq rest (aq_queue q1)" by (cases "aq_queue q1") (auto simp: rest_def intro: list_emb_Cons)
  then have "subseq rest later" using x by (rule subseq_order.order_trans)
  then have "subseq (taken @ rest) (taken @ later)" by (simp only: subseq_append')
  then have "subseq (taken @ rest) accepted" using sub by (rule subseq_order.order_trans)
  then have "subseq ((taken @ rest) @ [a]) (accepted @ [a])" by (rule list_emb_append_mono) simp
  moreover have "1 \<le> n \<longrightarrow> 1 + int (length rest) \<le> n"
    using bound p(6) n by (auto simp: rest_def)
  ultimately show ?thesis using True q' p(5) n by simp
qed

lemma calm_run_ok:
  assumes "calm_run start q accepted taken" "run_ok n start [] []"
  shows "run_ok n q accepted taken"
  using assms
proof (induction rule: calm_run.induct)
  case (calm_enqueue q accepted taken a now monotonic q' result)
  then have ok: "run_ok n q accepted taken" by blast
  then have calm: "calm q'" using calm_enqueue_ok [OF _ calm_enqueue.hyps(2,3)] unfolding run_ok_def by blast
  from calm_enqueue.hyps(2,3) show ?case
  proof (cases rule: calm_enqueue_cases)
    case (1 k)
    then show ?thesis using ok calm by (simp add: run_ok_def)
  next
    case (2 q1)
    have "subseq (aq_queue q1) (aq_queue q)" using 2(2) by auto
    moreover have "1 \<le> n \<longrightarrow> int (length (aq_queue q1)) \<le> n" using 2(2) ok by (auto simp: run_ok_def)
    ultimately show ?thesis
      using put_run_ok [OF 2(1), of n "aq_queue q" taken accepted] 2(6) ok calm by (simp add: run_ok_def)
  qed
next
  case (calm_goes_on q accepted taken i failed now monotonic q')
  then have ok: "run_ok n q accepted taken" by blast
  have calm: "calm q'" using calm_run_task [OF _ calm_goes_on.hyps(2)] ok unfolding run_ok_def by blast
  have none: "aq_tasks q ! i \<noteq> Interrupting a" for a
  proof -
    have "i < length (aq_tasks q)" using calm_goes_on.hyps(2) by (simp add: run_task_def split: if_splits)
    then have "aq_tasks q ! i \<in> set (aq_tasks q)" by (rule nth_mem)
    moreover have "Interrupting a \<notin> set (aq_tasks q)" using ok unfolding run_ok_def calm_def by blast
    ultimately show ?thesis by metis
  qed
  have frame: "aq_max_size q' = aq_max_size q \<and>
      (aq_tasks q ! i = LoopHead \<longrightarrow> aq_queue q = take 1 (aq_queue q) @ aq_queue q') \<and>
      (aq_tasks q ! i \<noteq> LoopHead \<longrightarrow> aq_queue q' = aq_queue q)"
    using calm_goes_on.hyps(2) none
    by (auto simp: run_task_def set_task_def end_processing_def mutex_acquire_def acquire_decided_def mutex_release_def
        mutex_released_def Let_def split: if_splits queue_task.splits list.splits)
  show ?case
  proof (cases "aq_tasks q ! i = LoopHead")
    case True
    then have "aq_queue q = take 1 (aq_queue q) @ aq_queue q'" using frame by blast
    then have "length (aq_queue q') \<le> length (aq_queue q)" "taken @ aq_queue q = (taken @ take 1 (aq_queue q)) @ aq_queue q'"
      by (metis length_append le_add2, metis append.assoc)
    then show ?thesis using ok calm frame True by (auto simp: run_ok_def)
  next
    case False
    then show ?thesis using ok calm frame by (simp add: run_ok_def)
  qed
next
  case (calm_clears q accepted taken)
  then have "subseq (taken @ aq_queue q) accepted" "calm q" by (auto simp: run_ok_def)
  then show ?case using calm_clears calm_cong [of "clear_queue q" q]
    by (auto simp: run_ok_def clear_queue_def intro: list_emb_append_mono subseq_order.order_trans [of taken "taken @ aq_queue q"])
qed

lemma new_queue_run_ok: "run_ok n (new_action_queue n policy cooldown ttl capacity) [] []"
  by (simp add: run_ok_def calm_def new_action_queue_def)

section \<open>Interruption\<close>

definition example_action :: "queue_policy \<Rightarrow> action_message" where
  "example_action p = \<lparr>am_action_id = [], am_action = [], am_duration_sec = 1, am_queue_policy = p\<rparr>"

text \<open>A second processor starts beside the first one, whose action is still running.\<close>

lemma interruption_overlaps:
  assumes "1 \<le> n"
  shows "\<exists>q. action_step\<^sup>*\<^sup>* (new_action_queue n policy cooldown ttl capacity) q \<and>
    aq_tasks q = [Acting (example_action AppendAction), Acting (example_action InterruptAction)]"
proof -
  let ?q0 = "new_action_queue n policy cooldown ttl capacity" and ?c = "max 0 (of_int cooldown) :: rat"
  let ?a = "example_action AppendAction" and ?b = "example_action InterruptAction"
  define q1 where "q1 = fst (enqueue_action ?a 0 0 ?q0)"
  define q2 where "q2 = the (run_task 0 False ?c 0 q1)"
  define q3 where "q3 = the (run_task 0 False ?c 0 q2)"
  define q4 where "q4 = fst (enqueue_action ?b ?c 0 q3)"
  define q5 where "q5 = the (run_task 1 False ?c 0 q4)"
  define q6 where "q6 = the (run_task 1 False (?c + ?c) 0 q5)"
  have c: "\<not> ?c * 1000 < of_int cooldown" by (simp add: not_less max_def)
  have q1': "q1 = ?q0\<lparr>aq_queue := [?a], aq_tasks := [Created], aq_process_task := Some 0\<rparr>"
    using assms by (simp add: q1_def enqueue_action_def put_action_def new_action_queue_def example_action_def Let_def)
  have s2: "run_task 0 False ?c 0 q1 = Some (q1\<lparr>aq_is_processing := True, aq_tasks := [LoopHead]\<rparr>)"
    by (simp add: q1' run_task_def set_task_def new_action_queue_def)
  have q2': "q2 = q1\<lparr>aq_is_processing := True, aq_tasks := [LoopHead]\<rparr>" by (simp add: q2_def s2)
  have s3: "run_task 0 False ?c 0 q2 = Some (q2\<lparr>aq_queue := [], aq_current_action := Some ?a,
      aq_mutex := (aq_mutex ?q0)\<lparr>mx_is_executing := True\<rparr>, aq_tasks := [Acting ?a]\<rparr>)"
    using c by (simp add: q2' q1' run_task_def set_task_def new_action_queue_def mutex_acquire_def acquire_decided_def Let_def)
  have q3': "q3 = q2\<lparr>aq_queue := [], aq_current_action := Some ?a,
      aq_mutex := (aq_mutex ?q0)\<lparr>mx_is_executing := True\<rparr>, aq_tasks := [Acting ?a]\<rparr>" by (simp add: q3_def s3)
  have q4': "q4 = q3\<lparr>aq_queue := [?b], aq_current_action := None, aq_is_processing := False,
      aq_mutex := (aq_mutex ?q0)\<lparr>mx_last_action_end := ?c\<rparr>, aq_tasks := [Acting ?a, Created], aq_process_task := Some 1\<rparr>"
    using assms by (simp add: q4_def q3' q2' q1' enqueue_action_def put_action_def new_action_queue_def example_action_def
        interrupt_current_def mutex_released_def Let_def)
  have s5: "run_task 1 False ?c 0 q4 = Some (q4\<lparr>aq_is_processing := True, aq_tasks := [Acting ?a, LoopHead]\<rparr>)"
    by (simp add: q4' run_task_def set_task_def)
  have q5': "q5 = q4\<lparr>aq_is_processing := True, aq_tasks := [Acting ?a, LoopHead]\<rparr>" unfolding q5_def s5 by simp
  have s6: "\<exists>x. run_task 1 False (?c + ?c) 0 q5 = Some x \<and> aq_tasks x = [Acting ?a, Acting ?b]"
    using c by (simp add: q5' q4' run_task_def set_task_def new_action_queue_def mutex_acquire_def acquire_decided_def Let_def)
  have "action_step ?q0 q1" by (rule enqueues [of ?a 0 0 _ _ "snd (enqueue_action ?a 0 0 ?q0)"]) (simp add: q1_def)
  moreover have "action_step q1 q2" by (rule goes_on [OF s2 [folded q2']])
  moreover have "action_step q2 q3" by (rule goes_on [OF s3 [folded q3']])
  moreover have "action_step q3 q4" by (rule enqueues [of ?b ?c 0 _ _ "snd (enqueue_action ?b ?c 0 q3)"]) (simp add: q4_def)
  moreover have "action_step q4 q5" by (rule goes_on [OF s5 [folded q5']])
  moreover have "action_step q5 q6" "aq_tasks q6 = [Acting ?a, Acting ?b]" using s6 by (auto simp: q6_def intro: goes_on)
  ultimately show ?thesis by (meson converse_rtranclp_into_rtranclp rtranclp.rtrancl_refl)
qed

section \<open>The property\<close>

text \<open>
  C29. One action at a time, until something interrupts.  As long as actions are appended, or replace
  the queue while no processor runs, at most one processor is at work whatever the order of the
  steps: at most one action runs, and then it holds the mutex; what processors have taken and what
  is still queued is, in order, a part of what was accepted; and the queue keeps its size.  But one
  interruption is enough to break this: a second processor then runs its action beside the first.
\<close>

theorem actions_serial_until_interrupted:
  assumes "calm_run (new_action_queue n policy cooldown ttl capacity) q accepted taken"
  shows "length (filter processes (aq_tasks q)) \<le> 1 \<and>
    (\<forall>t\<in>set (aq_tasks q). runs_action t \<longrightarrow> mx_is_executing (aq_mutex q)) \<and>
    subseq (taken @ aq_queue q) accepted \<and>
    (1 \<le> n \<longrightarrow> int (length (aq_queue q)) \<le> n \<and>
      (\<exists>q'. action_step\<^sup>*\<^sup>* (new_action_queue n policy cooldown ttl capacity) q' \<and>
         length (filter runs_action (aq_tasks q')) = 2))"
proof -
  have ok: "run_ok n q accepted taken" by (rule calm_run_ok [OF assms new_queue_run_ok])
  then have calm: "calm q" by (simp add: run_ok_def)
  then have one: "length (filter processes (aq_tasks q)) \<le> 1" by (auto simp: calm_def)
  have holds: "mx_is_executing (aq_mutex q)" if t: "t \<in> set (aq_tasks q)" and acts: "runs_action t" for t
  proof -
    obtain i where i: "i < length (aq_tasks q)" "aq_tasks q ! i = t" using t unfolding in_set_conv_nth by blast
    moreover have "processes t" using acts by (cases t) (simp_all add: runs_action_def processes_def)
    ultimately show ?thesis using calm_active(3) [OF calm i(1)] acts by simp
  qed
  have overlap: "\<exists>q'. action_step\<^sup>*\<^sup>* (new_action_queue n policy cooldown ttl capacity) q' \<and>
      length (filter runs_action (aq_tasks q')) = 2" if n: "1 \<le> n"
  proof -
    obtain q' where "action_step\<^sup>*\<^sup>* (new_action_queue n policy cooldown ttl capacity) q'"
      "aq_tasks q' = [Acting (example_action AppendAction), Acting (example_action InterruptAction)]"
      using interruption_overlaps [OF n] by blast
    then show ?thesis by (intro exI [of _ q']) simp
  qed
  show ?thesis using one holds overlap ok by (simp add: run_ok_def)
qed

theorem actions_serial_until_interrupted_witness:
  "\<exists>q. calm_run (new_action_queue 2 DropOldest 250 30 1024) q [example_action AppendAction] [] \<and>
     aq_queue q = [example_action AppendAction] \<and> length (filter processes (aq_tasks q)) \<le> 1"
proof -
  let ?q0 = "new_action_queue 2 DropOldest 250 30 1024" and ?a = "example_action AppendAction"
  obtain q where q: "enqueue_action ?a 0 0 ?q0 = (q, Enqueued 1)" "aq_queue q = [?a]"
    by (simp add: enqueue_action_def put_action_def new_action_queue_def example_action_def Let_def)
  have "calm_run ?q0 q ([] @ (if \<exists>n. Enqueued 1 = Enqueued n then [?a] else [])) []"
    by (rule calm_enqueue [OF calm_start _ q(1)]) (simp add: example_action_def)
  then have run: "calm_run ?q0 q [?a] []" by simp
  with actions_serial_until_interrupted [OF run] q(2) show ?thesis by blast
qed

end
