(* ===== verification/Program_Script.thy ===== *)
theory Program_Script
  imports Unicode_Text
begin

text \<open>
  The contract of program scripts, \<open>services/program_script/models.py\<close>: the models with their field
  constraints, the validator of references, and the semantic issues that block publication.
  Identifiers are strings, text is a list of code points, already stripped;
  \<open>casefold\<close> is the parameter for \<open>str.casefold\<close>.
\<close>

section \<open>Data\<close>

datatype program_phase = Qi | Cheng | Zhuan | He

datatype input_type = ChoiceInput | FixedInput

datatype memory_mode = WriteMemory | ProbeMemory | NoMemory

datatype thread_mode = SharedThread | IsolatedThread

datatype transition_style = DirectTransition | SoftTransition

datatype evaluator_type = RecallSlots | LatestSlot | RejectFalsePremise | CompositeSlots

record script_option =
  so_id :: string
  so_label :: unicode
  so_danmaku :: unicode
  so_aliases :: "unicode list"

record script_input =
  si_type :: input_type
  si_options :: "string option"
  si_save_as :: "string option"
  si_text :: "unicode option"
  si_exclude_slot :: "string option"

record script_reply =
  re_objective :: unicode
  re_max_sentences :: int
  re_max_chars :: int

record script_transition =
  tn_style :: transition_style
  tn_text :: "unicode option"

record script_evaluator =
  ev_type :: evaluator_type
  ev_slots :: "string list"
  ev_false_values :: "unicode list"
  ev_rejection_markers :: "unicode list"

record program_beat =
  be_id :: string
  be_phase :: program_phase
  be_host_prompt :: "unicode option"
  be_input :: script_input
  be_memory :: memory_mode
  be_thread :: thread_mode
  be_reply :: script_reply
  be_transition :: script_transition
  be_evaluator :: "script_evaluator option"

record program_script =
  ps_id :: string
  ps_title :: unicode
  ps_description :: unicode
  ps_aura_template :: bool
  ps_disclosure :: unicode
  ps_opening :: unicode
  ps_closing :: unicode
  ps_reply_timeout_ms :: int
  ps_memory_commit_timeout_ms :: int
  ps_option_sets :: "(string, script_option list) dict"
  ps_beats :: "program_beat list"

section \<open>Fields\<close>

text \<open>The pattern \<open>[a-z][a-z0-9_-]{0,63}\<close>.\<close>

definition script_name :: "string \<Rightarrow> bool" where
  "script_name s \<longleftrightarrow>
     (case s of
        [] \<Rightarrow> False
      | c # cs \<Rightarrow> is_lower c \<and> length cs \<le> 63 \<and>
          list_all (\<lambda>d. is_lower d \<or> is_digit d \<or> d = CHR ''_'' \<or> d = CHR ''-'') cs)"

definition text_within :: "nat \<Rightarrow> nat \<Rightarrow> 'a list \<Rightarrow> bool" where
  "text_within least most s \<longleftrightarrow> least \<le> length s \<and> length s \<le> most"

text \<open>An optional value satisfies its constraint; an optional text that Python takes for true.\<close>

definition absent_or :: "('a \<Rightarrow> bool) \<Rightarrow> 'a option \<Rightarrow> bool" where
  "absent_or P v \<longleftrightarrow> (case v of None \<Rightarrow> True | Some w \<Rightarrow> P w)"

definition given :: "'a list option \<Rightarrow> bool" where
  "given v \<longleftrightarrow> (case v of None \<Rightarrow> False | Some s \<Rightarrow> s \<noteq> [])"

definition option_fields_ok :: "script_option \<Rightarrow> bool" where
  "option_fields_ok v \<longleftrightarrow>
     script_name (so_id v) \<and> text_within 1 40 (so_label v) \<and> text_within 1 240 (so_danmaku v) \<and>
     length (so_aliases v) \<le> 12 \<and> list_all (text_within 1 80) (so_aliases v)"

definition include_label_alias :: "script_option \<Rightarrow> script_option" where
  "include_label_alias v =
     (let aliases = (if so_label v \<notin> set (so_aliases v) then so_label v # so_aliases v else so_aliases v) in
      v\<lparr>so_aliases := first_occurrences (filter (\<lambda>a. a \<noteq> []) aliases)\<rparr>)"

definition input_shape_ok :: "script_input \<Rightarrow> bool" where
  "input_shape_ok i \<longleftrightarrow>
     (if si_type i = ChoiceInput then given (si_options i) \<and> given (si_save_as i) \<and> \<not> given (si_text i)
      else given (si_text i) \<and> \<not> given (si_options i) \<and> \<not> given (si_save_as i) \<and> \<not> given (si_exclude_slot i))"

definition input_ok :: "script_input \<Rightarrow> bool" where
  "input_ok i \<longleftrightarrow>
     absent_or script_name (si_options i) \<and> absent_or script_name (si_save_as i) \<and>
     absent_or (text_within 0 240) (si_text i) \<and> absent_or script_name (si_exclude_slot i) \<and> input_shape_ok i"

definition script_reply_ok :: "script_reply \<Rightarrow> bool" where
  "script_reply_ok r \<longleftrightarrow>
     text_within 1 300 (re_objective r) \<and> 1 \<le> re_max_sentences r \<and> re_max_sentences r \<le> 5 \<and>
     20 \<le> re_max_chars r \<and> re_max_chars r \<le> 500"

definition transition_ok :: "script_transition \<Rightarrow> bool" where
  "transition_ok t \<longleftrightarrow>
     absent_or (text_within 0 240) (tn_text t) \<and>
     (if tn_style t = SoftTransition then given (tn_text t) else \<not> given (tn_text t))"

definition evaluator_ok :: "script_evaluator \<Rightarrow> bool" where
  "evaluator_ok e \<longleftrightarrow>
     length (ev_slots e) \<le> 8 \<and> length (ev_false_values e) \<le> 8 \<and> length (ev_rejection_markers e) \<le> 8 \<and>
     ev_slots e \<noteq> [] \<and> \<not> (ev_type e = RejectFalsePremise \<and> ev_false_values e = [])"

definition memory_contract_ok :: "program_beat \<Rightarrow> bool" where
  "memory_contract_ok b \<longleftrightarrow>
     \<not> (be_memory b = WriteMemory \<and> \<not> given (si_save_as (be_input b))) \<and>
     \<not> (be_thread b = IsolatedThread \<and> be_memory b \<noteq> ProbeMemory) \<and>
     \<not> (be_memory b \<noteq> ProbeMemory \<and> be_evaluator b \<noteq> None)"

definition beat_ok :: "program_beat \<Rightarrow> bool" where
  "beat_ok b \<longleftrightarrow>
     script_name (be_id b) \<and> absent_or (text_within 0 240) (be_host_prompt b) \<and> input_ok (be_input b) \<and>
     script_reply_ok (be_reply b) \<and> transition_ok (be_transition b) \<and> absent_or evaluator_ok (be_evaluator b) \<and>
     memory_contract_ok b"

definition script_fields_ok :: "program_script \<Rightarrow> bool" where
  "script_fields_ok s \<longleftrightarrow>
     script_name (ps_id s) \<and> text_within 1 120 (ps_title s) \<and> text_within 0 500 (ps_description s) \<and>
     text_within 0 240 (ps_disclosure s) \<and> text_within 0 240 (ps_opening s) \<and> text_within 0 240 (ps_closing s) \<and>
     1000 \<le> ps_reply_timeout_ms s \<and> ps_reply_timeout_ms s \<le> 120000 \<and>
     500 \<le> ps_memory_commit_timeout_ms s \<and> ps_memory_commit_timeout_ms s \<le> 60000 \<and>
     distinct (dict_keys (ps_option_sets s)) \<and>
     list_all (\<lambda>os. list_all option_fields_ok os) (dict_values (ps_option_sets s)) \<and>
     text_within 1 100 (ps_beats s) \<and> list_all beat_ok (ps_beats s)"

section \<open>References\<close>

datatype script_error =
    FieldsInvalid
  | BeatIdsRepeated
  | OptionSetIdInvalid string
  | OptionsNotUnique string
  | AliasesConflict string
  | UnknownOptionSet string
  | UnknownExcludedSlot string
  | UnknownEvaluatedSlots string "string list"

text \<open>\<open>str.islower\<close> and \<open>str.isdigit\<close> of a character below 256.\<close>

definition py_islower :: "char \<Rightarrow> bool" where
  "py_islower c \<longleftrightarrow> is_lower c \<or> code c \<in> {170, 181, 186} \<or> 223 \<le> code c \<and> code c \<noteq> 247"

definition py_isdigit :: "char \<Rightarrow> bool" where
  "py_isdigit c \<longleftrightarrow> is_digit c \<or> code c \<in> {178, 179, 185}"

definition valid_id :: "string \<Rightarrow> bool" where
  "valid_id v \<longleftrightarrow>
     v \<noteq> [] \<and> py_islower (hd v) \<and>
     list_all (\<lambda>c. py_islower c \<or> py_isdigit c \<or> c = CHR ''_'' \<or> c = CHR ''-'') v"

definition folded_aliases :: "(unicode \<Rightarrow> unicode) \<Rightarrow> script_option list \<Rightarrow> unicode list" where
  "folded_aliases casefold os = concat (map (\<lambda>v. map casefold (so_aliases v)) os)"

fun check_option_sets :: "(unicode \<Rightarrow> unicode) \<Rightarrow> (string, script_option list) dict \<Rightarrow> script_error + unit" where
  "check_option_sets casefold [] = Inr ()"
| "check_option_sets casefold ((set_id, os) # sets) =
     (if \<not> valid_id set_id then Inl (OptionSetIdInvalid set_id)
      else if os = [] \<or> \<not> distinct (map so_id os) then Inl (OptionsNotUnique set_id)
      else if \<not> distinct (folded_aliases casefold os) then Inl (AliasesConflict set_id)
      else check_option_sets casefold sets)"

text \<open>Python's \<open>str\<close> of an optional name.\<close>

definition name_text :: "string option \<Rightarrow> string" where
  "name_text v = (case v of None \<Rightarrow> ''None'' | Some s \<Rightarrow> s)"

definition choice_refusal ::
  "(string, script_option list) dict \<Rightarrow> string list \<Rightarrow> program_beat \<Rightarrow> script_error option" where
  "choice_refusal sets slots b =
     (let i = be_input b in
      if si_type i \<noteq> ChoiceInput then None
      else if (case si_options i of None \<Rightarrow> True | Some k \<Rightarrow> k \<notin> set (dict_keys sets)) then Some (UnknownOptionSet (be_id b))
      else if given (si_exclude_slot i) \<and> the (si_exclude_slot i) \<notin> set slots then Some (UnknownExcludedSlot (be_id b))
      else None)"

definition slots_after :: "string list \<Rightarrow> program_beat \<Rightarrow> string list" where
  "slots_after slots b =
     (if si_type (be_input b) = ChoiceInput then name_text (si_save_as (be_input b)) # slots else slots)"

definition missing_slots :: "string list \<Rightarrow> program_beat \<Rightarrow> string list" where
  "missing_slots slots b =
     (case be_evaluator b of
        None \<Rightarrow> []
      | Some e \<Rightarrow> sort (remdups (filter (\<lambda>s. s \<notin> set slots) (ev_slots e))))"

fun check_beats :: "(string, script_option list) dict \<Rightarrow> string list \<Rightarrow> program_beat list \<Rightarrow> script_error + unit" where
  "check_beats sets slots [] = Inr ()"
| "check_beats sets slots (b # bs) =
     (case choice_refusal sets slots b of
        Some e \<Rightarrow> Inl e
      | None \<Rightarrow>
          (let slots1 = slots_after slots b in
           if missing_slots slots1 b \<noteq> [] then Inl (UnknownEvaluatedSlots (be_id b) (missing_slots slots1 b))
           else check_beats sets slots1 bs))"

definition validate_references :: "(unicode \<Rightarrow> unicode) \<Rightarrow> program_script \<Rightarrow> script_error + unit" where
  "validate_references casefold s =
     (if \<not> distinct (map be_id (ps_beats s)) then Inl BeatIdsRepeated
      else
        (case check_option_sets casefold (ps_option_sets s) of
           Inl e \<Rightarrow> Inl e
         | Inr _ \<Rightarrow> check_beats (ps_option_sets s) [] (ps_beats s)))"

text \<open>A script is parsed: its fields are checked, every option gets its label as an alias, and the references are checked.\<close>

definition parse_script :: "(unicode \<Rightarrow> unicode) \<Rightarrow> program_script \<Rightarrow> script_error + program_script" where
  "parse_script casefold raw =
     (if \<not> script_fields_ok raw then Inl FieldsInvalid
      else
        (let s = raw\<lparr>ps_option_sets := map (\<lambda>(k, os). (k, map include_label_alias os)) (ps_option_sets raw)\<rparr> in
         case validate_references casefold s of
           Inl e \<Rightarrow> Inl e
         | Inr _ \<Rightarrow> Inr s))"

section \<open>Issues that block publication\<close>

datatype script_issue =
    ProbeAnswerLeak nat "unicode list"
  | AuraRoundCount
  | AuraRoundIds
  | AuraReverseCamp
  | AuraStrictProbe nat
  | AuraFalseWeekend

text \<open>\<open>None\<close> is the \<open>KeyError\<close> of an unknown option set.\<close>

definition add_slot_options ::
  "program_script \<Rightarrow> program_beat \<Rightarrow> (string, script_option list) dict option \<Rightarrow> (string, script_option list) dict option" where
  "add_slot_options s b result =
     (let i = be_input b in
      if si_type i = ChoiceInput \<and> given (si_save_as i) \<and> given (si_options i) then
        (case (result, dict_get (ps_option_sets s) (the (si_options i))) of
           (Some d, Some os) \<Rightarrow> Some (dict_set (the (si_save_as i)) os d)
         | _ \<Rightarrow> None)
      else result)"

definition slot_option_sets :: "program_script \<Rightarrow> (string, script_option list) dict option" where
  "slot_option_sets s = fold (add_slot_options s) (ps_beats s) (Some [])"

definition present_texts :: "unicode option list \<Rightarrow> unicode list" where
  "present_texts vs = concat (map (\<lambda>v. if given v then [the v] else []) vs)"

definition probe_instruction :: "(unicode \<Rightarrow> unicode) \<Rightarrow> program_beat \<Rightarrow> unicode" where
  "probe_instruction casefold b =
     casefold (join_words (present_texts [be_host_prompt b, si_text (be_input b), Some (re_objective (be_reply b))]))"

definition leaked_aliases ::
  "(unicode \<Rightarrow> unicode) \<Rightarrow> (string, script_option list) dict \<Rightarrow> program_beat \<Rightarrow> unicode list" where
  "leaked_aliases casefold slot_options b =
     (case be_evaluator b of
        None \<Rightarrow> []
      | Some e \<Rightarrow>
          sort (remdups (filter (\<lambda>a. contains_word (casefold a) (probe_instruction casefold b))
            (concat (map (\<lambda>slot. concat (map so_aliases (dict_get_default slot_options slot []))) (ev_slots e))))))"

fun leak_issues ::
  "(unicode \<Rightarrow> unicode) \<Rightarrow> (string, script_option list) dict \<Rightarrow> nat \<Rightarrow> program_beat list \<Rightarrow> script_issue list" where
  "leak_issues casefold slot_options i [] = []"
| "leak_issues casefold slot_options i (b # bs) =
     (if be_memory b = ProbeMemory \<and> leaked_aliases casefold slot_options b \<noteq> []
      then [ProbeAnswerLeak i (leaked_aliases casefold slot_options b)] else []) @
     leak_issues casefold slot_options (Suc i) bs"

definition probe_leakage_issues :: "(unicode \<Rightarrow> unicode) \<Rightarrow> program_script \<Rightarrow> script_issue list option" where
  "probe_leakage_issues casefold s =
     map_option (\<lambda>slot_options. leak_issues casefold slot_options 0 (ps_beats s)) (slot_option_sets s)"

definition aura_ids :: "string list" where
  "aura_ids = [''q01'', ''q02'', ''q03'', ''q04'', ''q05'', ''q06'', ''q07'', ''q08'', ''q09'', ''q10'', ''q11'', ''q12'']"

definition climbing :: unicode where
  "climbing = [0x722C, 0x5C71]"

definition weekend_values :: "(string, script_option list) dict \<Rightarrow> unicode list" where
  "weekend_values slot_options =
     concat (map (\<lambda>v. so_danmaku v # so_aliases v) (dict_get_default slot_options ''weekend'' []))"

definition aura_template_issues :: "program_script \<Rightarrow> script_issue list option" where
  "aura_template_issues s =
     (let bs = ps_beats s in
      if length bs \<noteq> 12 then Some [AuraRoundCount]
      else
        (let ids = (if map be_id bs \<noteq> aura_ids then [AuraRoundIds] else []);
             q8 = be_input (bs ! 7); q5 = be_input (bs ! 4);
             q8_options = dict_get_default (ps_option_sets s) (case si_options q8 of None \<Rightarrow> [] | Some k \<Rightarrow> k) [];
             camp = (if si_exclude_slot q8 \<noteq> si_save_as q5 \<or> si_save_as q8 \<noteq> si_save_as q5 \<or>
                        si_options q8 \<noteq> si_options q5 \<or> length q8_options \<noteq> 2 \<or> be_memory (bs ! 7) \<noteq> WriteMemory
                     then [AuraReverseCamp] else []);
             probes = map AuraStrictProbe
               (filter (\<lambda>i. be_memory (bs ! i) \<noteq> ProbeMemory \<or> be_thread (bs ! i) \<noteq> IsolatedThread) [8..<12]);
             q11_text = (case si_text (be_input (bs ! 10)) of None \<Rightarrow> [] | Some t \<Rightarrow> t)
         in map_option (\<lambda>slot_options.
              ids @ camp @ probes @
              (if \<not> contains_word climbing q11_text \<or> list_ex (contains_word climbing) (weekend_values slot_options)
               then [AuraFalseWeekend] else []))
              (slot_option_sets s)))"

definition validate_program_script :: "(unicode \<Rightarrow> unicode) \<Rightarrow> program_script \<Rightarrow> script_issue list option" where
  "validate_program_script casefold s =
     (case (probe_leakage_issues casefold s, if ps_aura_template s then aura_template_issues s else Some []) of
        (Some issues, Some template_issues) \<Rightarrow> Some (issues @ template_issues)
      | _ \<Rightarrow> None)"

end
