(* ===== verification/Program_Runtime.thy ===== *)
theory Program_Runtime
  imports Program_Script
begin

text \<open>
  The runner of published program scripts, \<open>services/program_script/runtime.py\<close>.  What a call does
  between two suspensions is one function.  A task is a job with the state it waits in; \<open>pg_tasks\<close> names
  the job registered for a run.  The dispatcher of a turn, the repository, the checkpoint store and the
  memory are outside: what they answer is an argument, and the identifiers they are
  asked to delete are logged in \<open>pg_deleted\<close> and \<open>pg_forgotten\<close>.
\<close>

section \<open>Data\<close>

datatype program_error =
    RunAlreadyActive
  | RuntimeNotReady
  | LiveRoomActive
  | ScriptUnknown
  | ScriptArchived
  | RunNotFound
  | CreatorMismatch
  | RunNotRunning
  | StaleBeat
  | ChoiceNotExpected
  | InvalidOption
  | TurnInProgress
  | NotPaused
  | RetryNotAvailable
  | InvalidControl
  | BeatIndexError
  | OptionSetKeyError

datatype run_state = IdleRun | RunningRun | PausedRun | CompletedRun | StoppedRun | FailedRun

datatype waiting_for = WaitChoice | WaitReply | WaitError | WaitNone

datatype probe_result = ProbeMatched | ProbeNotMatched | ProbeInconclusive

record turn_record =
  tu_beat_id :: string
  tu_input_text :: unicode
  tu_response_text :: unicode
  tu_turn_id :: string
  tu_memory_revision :: "int option"
  tu_atom_id :: "string option"
  tu_probe_result :: "probe_result option"
  tu_degradation_reason :: "string option"

record program_run =
  pr_run_id :: string
  pr_room_id :: int
  pr_creator_id :: string
  pr_actor_id :: string
  pr_script_version :: int
  pr_script_hash :: string
  pr_script :: program_script
  pr_state :: run_state
  pr_current_index :: nat
  pr_waiting_for :: waiting_for
  pr_slots :: "(string, string) dict"
  pr_records :: "turn_record list"
  pr_atom_ids :: "string list"
  pr_error :: "string option"
  pr_last_input :: "unicode option"
  pr_last_option_id :: "string option"
  pr_checkpoint_threads :: "string list"

record published_script =
  pb_version :: int
  pb_content_hash :: string
  pb_builtin :: bool
  pb_archived :: bool
  pb_script :: program_script

text \<open>What the recall metadata of a reply is to the code: an empty dictionary or not, degraded or not, with a reason or not.\<close>

record recall_metadata =
  rm_empty :: bool
  rm_degraded :: bool
  rm_reason :: "string option"

text \<open>A revision or an atom of the wrong type is \<open>None\<close>.\<close>

record revision_payload =
  mv_turn_id :: "string option"
  mv_revision :: "int option"
  mv_atom_id :: "string option"

datatype dispatch_result =
    Replied unicode "string option" "recall_metadata option"
  | ReplyTimedOut
  | DispatchRaised string

datatype job_result = JobReturned | JobRaised string | JobCancelled

datatype archive_work = ArchiveStart | DeletingThreads "string list" | ForgettingAtoms "string list" | ArchiveDone

text \<open>
  A turn has been created, waits for the dispatcher, or for the receipt of the memory; the archive of a
  completed run works off what it deletes.  A cancelled task has yet to see the cancellation, and an ended
  one waits for its callback.
\<close>

datatype job_phase =
    TurnCreated unicode "script_option option"
  | TurnDispatched program_beat unicode "script_option option" string
  | TurnCommitting program_beat "script_option option" turn_record
  | JobArchives archive_work
  | JobCancelling "string option"
  | JobEnded job_result
  | JobReaped

record program_job =
  jb_run_id :: string
  jb_is_turn :: bool
  jb_phase :: job_phase

text \<open>A \<open>_stop\<close> that waits for the job it cancelled, or works off the archive.\<close>

record stop_call =
  sc_run_id :: string
  sc_job :: "nat option"
  sc_work :: "archive_work option"

record program_runner =
  pg_runs :: "(string, program_run) dict"
  pg_active_by_room :: "(int, string) dict"
  pg_tasks :: "(string, nat) dict"
  pg_jobs :: "program_job list"
  pg_receipts :: "(string, revision_payload option) dict"
  pg_subscribed :: bool
  pg_dispatcher :: bool
  pg_deletes_checkpoints :: bool
  pg_has_memory :: bool
  pg_stops :: "stop_call list"
  pg_deleted :: "string list"
  pg_forgotten :: "string list"

definition new_program_runner :: "bool \<Rightarrow> bool \<Rightarrow> bool \<Rightarrow> program_runner" where
  "new_program_runner dispatcher deletes memory =
     \<lparr>pg_runs = [], pg_active_by_room = [], pg_tasks = [], pg_jobs = [], pg_receipts = [], pg_subscribed = memory,
      pg_dispatcher = dispatcher, pg_deletes_checkpoints = deletes, pg_has_memory = memory, pg_stops = [],
      pg_deleted = [], pg_forgotten = []\<rparr>"

definition with_run :: "string \<Rightarrow> program_run \<Rightarrow> program_runner \<Rightarrow> program_runner" where
  "with_run run_id r g = g\<lparr>pg_runs := dict_set run_id r (pg_runs g)\<rparr>"

definition set_phase :: "nat \<Rightarrow> job_phase \<Rightarrow> program_runner \<Rightarrow> program_runner" where
  "set_phase j phase g = g\<lparr>pg_jobs := (pg_jobs g)[j := (pg_jobs g ! j)\<lparr>jb_phase := phase\<rparr>]\<rparr>"

definition drop_receipt :: "string \<Rightarrow> program_runner \<Rightarrow> program_runner" where
  "drop_receipt turn_id g = g\<lparr>pg_receipts := dict_del turn_id (pg_receipts g)\<rparr>"

section \<open>The current beat\<close>

definition live_state :: "run_state \<Rightarrow> bool" where
  "live_state st \<longleftrightarrow> st = RunningRun \<or> st = PausedRun"

definition current_beat :: "program_run \<Rightarrow> program_error + program_beat" where
  "current_beat r =
     (if pr_current_index r < length (ps_beats (pr_script r)) then Inr (ps_beats (pr_script r) ! pr_current_index r)
      else Inl BeatIndexError)"

definition available_options :: "program_run \<Rightarrow> program_beat \<Rightarrow> program_error + script_option list" where
  "available_options r b =
     (if si_type (be_input b) \<noteq> ChoiceInput then Inr []
      else
        (case dict_get (ps_option_sets (pr_script r)) (name_text (si_options (be_input b))) of
           None \<Rightarrow> Inl OptionSetKeyError
         | Some os \<Rightarrow>
             Inr (if given (si_exclude_slot (be_input b))
                  then filter (\<lambda>v. dict_get (pr_slots r) (the (si_exclude_slot (be_input b))) \<noteq> Some (so_id v)) os
                  else os)))"

definition available_option :: "program_run \<Rightarrow> program_beat \<Rightarrow> string \<Rightarrow> program_error + script_option" where
  "available_option r b option_id =
     (case available_options r b of
        Inl e \<Rightarrow> Inl e
      | Inr os \<Rightarrow> (case find (\<lambda>v. so_id v = option_id) os of None \<Rightarrow> Inl InvalidOption | Some v \<Rightarrow> Inr v))"

definition lead_in :: "program_run \<Rightarrow> unicode option" where
  "lead_in r =
     (if pr_current_index r = 0 then (if ps_opening (pr_script r) = [] then None else Some (ps_opening (pr_script r)))
      else
        (let t = be_transition (ps_beats (pr_script r) ! (pr_current_index r - 1)) in
         if tn_style t = SoftTransition then tn_text t else None))"

record run_snapshot =
  sn_run_id :: string
  sn_state :: run_state
  sn_current_index :: nat
  sn_total_beats :: nat
  sn_waiting_for :: waiting_for
  sn_error :: "string option"
  sn_slots :: "(string, string) dict"
  sn_current_beat :: "(program_beat \<times> script_option list \<times> unicode option) option"
  sn_records :: "turn_record list"

text \<open>The fields that only repeat the script are left out.\<close>

definition run_snapshot_of :: "program_run \<Rightarrow> program_error + run_snapshot" where
  "run_snapshot_of r =
     (let view = (\<lambda>beat. \<lparr>sn_run_id = pr_run_id r, sn_state = pr_state r, sn_current_index = pr_current_index r,
            sn_total_beats = length (ps_beats (pr_script r)), sn_waiting_for = pr_waiting_for r, sn_error = pr_error r,
            sn_slots = pr_slots r, sn_current_beat = beat, sn_records = pr_records r\<rparr>) in
      case current_beat r of
        Inl _ \<Rightarrow> Inr (view None)
      | Inr b \<Rightarrow>
          (case available_options r b of
             Inl e \<Rightarrow> Inl e
           | Inr os \<Rightarrow> Inr (view (Some (b, os, lead_in r)))))"

section \<open>Starting turns\<close>

definition schedule_turn :: "string \<Rightarrow> unicode \<Rightarrow> script_option option \<Rightarrow> program_runner \<Rightarrow> program_runner \<times> (program_error + unit)" where
  "schedule_turn run_id input opt g =
     (if run_id \<in> set (dict_keys (pg_tasks g)) then (g, Inl TurnInProgress)
      else
        (g\<lparr>pg_jobs := pg_jobs g @ [\<lparr>jb_run_id = run_id, jb_is_turn = True, jb_phase = TurnCreated input opt\<rparr>],
           pg_tasks := dict_set run_id (length (pg_jobs g)) (pg_tasks g)\<rparr>, Inr ()))"

definition prepare_current :: "string \<Rightarrow> program_runner \<Rightarrow> program_runner" where
  "prepare_current run_id g =
     (case dict_get (pg_runs g) run_id of
        None \<Rightarrow> g
      | Some r \<Rightarrow>
          if pr_state r \<noteq> RunningRun \<or> run_id \<in> set (dict_keys (pg_tasks g)) then g
          else
            (case current_beat r of
               Inl _ \<Rightarrow>
                 (with_run run_id (r\<lparr>pr_state := CompletedRun, pr_waiting_for := WaitNone\<rparr>) g)
                   \<lparr>pg_active_by_room := dict_del (pr_room_id r) (pg_active_by_room g),
                    pg_jobs := pg_jobs g @ [\<lparr>jb_run_id = run_id, jb_is_turn = False, jb_phase = JobArchives ArchiveStart\<rparr>],
                    pg_tasks := dict_set run_id (length (pg_jobs g)) (pg_tasks g)\<rparr>
             | Inr b \<Rightarrow>
                 if si_type (be_input b) = ChoiceInput
                 then with_run run_id (r\<lparr>pr_last_input := None, pr_last_option_id := None, pr_waiting_for := WaitChoice\<rparr>) g
                 else
                   (let text = (case si_text (be_input b) of None \<Rightarrow> [78, 111, 110, 101] | Some t \<Rightarrow> t) in
                    fst (schedule_turn run_id text None
                      (with_run run_id (r\<lparr>pr_last_input := Some text, pr_last_option_id := None, pr_waiting_for := WaitReply\<rparr>) g)))))"

definition active_run :: "int \<Rightarrow> program_runner \<Rightarrow> program_runner \<times> program_run option" where
  "active_run room g =
     (case dict_get (pg_active_by_room g) room of
        None \<Rightarrow> (g, None)
      | Some run_id \<Rightarrow>
          (case dict_get (pg_runs g) run_id of
             None \<Rightarrow> (g\<lparr>pg_active_by_room := dict_del room (pg_active_by_room g)\<rparr>, None)
           | Some r \<Rightarrow>
               if \<not> live_state (pr_state r) then (g\<lparr>pg_active_by_room := dict_del room (pg_active_by_room g)\<rparr>, None)
               else (g, Some r)))"

section \<open>Commands\<close>

definition snapshot_by_id :: "string \<Rightarrow> program_runner \<Rightarrow> program_error + run_snapshot" where
  "snapshot_by_id run_id g =
     (case dict_get (pg_runs g) run_id of None \<Rightarrow> Inl RunNotFound | Some r \<Rightarrow> run_snapshot_of r)"

definition new_program_run :: "string \<Rightarrow> int \<Rightarrow> string \<Rightarrow> published_script \<Rightarrow> program_run" where
  "new_program_run run_id room creator p =
     \<lparr>pr_run_id = run_id, pr_room_id = room, pr_creator_id = creator, pr_actor_id = ''program:'' @ run_id,
      pr_script_version = pb_version p, pr_script_hash = pb_content_hash p, pr_script = pb_script p, pr_state = RunningRun,
      pr_current_index = 0, pr_waiting_for = WaitChoice, pr_slots = [], pr_records = [], pr_atom_ids = [], pr_error = None,
      pr_last_input = None, pr_last_option_id = None, pr_checkpoint_threads = []\<rparr>"

text \<open>
  \<open>room_state\<close> is what the provider of room states says, \<open>None\<close> when none is set; \<open>published\<close> is what the
  repository finds, \<open>None\<close> when it raises.
\<close>

definition start_program ::
  "string \<Rightarrow> int \<Rightarrow> string \<Rightarrow> string option \<Rightarrow> published_script option \<Rightarrow> program_runner \<Rightarrow>
   program_runner \<times> (program_error + run_snapshot)" where
  "start_program run_id room creator room_state published g =
     (case active_run room g of
        (g1, Some _) \<Rightarrow> (g1, Inl RunAlreadyActive)
      | (g1, None) \<Rightarrow>
          if \<not> pg_dispatcher g1 then (g1, Inl RuntimeNotReady)
          else if (case room_state of None \<Rightarrow> False | Some st \<Rightarrow> st \<notin> {''idle'', ''stopped''}) then (g1, Inl LiveRoomActive)
          else
            (case published of
               None \<Rightarrow> (g1, Inl ScriptUnknown)
             | Some p \<Rightarrow>
                 if \<not> pb_builtin p \<and> pb_archived p then (g1, Inl ScriptArchived)
                 else
                   (let g2 = with_run run_id (new_program_run run_id room creator p) g1;
                        g3 = prepare_current run_id (g2\<lparr>pg_active_by_room := dict_set room run_id (pg_active_by_room g2)\<rparr>)
                    in (g3, snapshot_by_id run_id g3))))"

definition owned_run :: "string \<Rightarrow> string \<Rightarrow> program_runner \<Rightarrow> program_error + program_run" where
  "owned_run run_id creator g =
     (case dict_get (pg_runs g) run_id of
        None \<Rightarrow> Inl RunNotFound
      | Some r \<Rightarrow> if pr_creator_id r \<noteq> creator then Inl CreatorMismatch else Inr r)"

definition choice_submitted :: "program_run \<Rightarrow> string \<Rightarrow> string \<Rightarrow> program_error + script_option" where
  "choice_submitted r beat_id option_id =
     (if pr_state r \<noteq> RunningRun then Inl RunNotRunning
      else
        (case current_beat r of
           Inl e \<Rightarrow> Inl e
         | Inr b \<Rightarrow>
             if be_id b \<noteq> beat_id then Inl StaleBeat
             else if si_type (be_input b) \<noteq> ChoiceInput then Inl ChoiceNotExpected
             else available_option r b option_id))"

definition submit_choice ::
  "string \<Rightarrow> string \<Rightarrow> string \<Rightarrow> string \<Rightarrow> program_runner \<Rightarrow> program_runner \<times> (program_error + run_snapshot)" where
  "submit_choice run_id beat_id option_id creator g =
     (case owned_run run_id creator g of
        Inl e \<Rightarrow> (g, Inl e)
      | Inr r \<Rightarrow>
          (case choice_submitted r beat_id option_id of
             Inl e \<Rightarrow> (g, Inl e)
           | Inr v \<Rightarrow>
               (let g1 = with_run run_id
                     (r\<lparr>pr_last_input := Some (so_danmaku v), pr_last_option_id := Some (so_id v), pr_waiting_for := WaitReply\<rparr>) g
                in case schedule_turn run_id (so_danmaku v) (Some v) g1 of
                     (g2, Inl e) \<Rightarrow> (g2, Inl e)
                   | (g2, Inr _) \<Rightarrow> (g2, snapshot_by_id run_id g2))))"

definition retry_turn :: "string \<Rightarrow> program_run \<Rightarrow> program_runner \<Rightarrow> program_runner \<times> (program_error + unit)" where
  "retry_turn run_id r g =
     (if run_id \<in> set (dict_keys (pg_tasks g)) then (g, Inl TurnInProgress)
      else if pr_state r \<noteq> PausedRun \<and> pr_state r \<noteq> FailedRun then (g, Inl RetryNotAvailable)
      else
        (let r1 = r\<lparr>pr_state := RunningRun, pr_error := None\<rparr>; g1 = with_run run_id r1 g in
         case current_beat r1 of
           Inl e \<Rightarrow> (g1, Inl e)
         | Inr b \<Rightarrow>
             if given (pr_last_input r1) then
               (case (if si_type (be_input b) = ChoiceInput \<and> given (pr_last_option_id r1)
                      then map_sum id Some (available_option r1 b (the (pr_last_option_id r1))) else Inr None) of
                  Inl e \<Rightarrow> (g1, Inl e)
                | Inr opt \<Rightarrow> schedule_turn run_id (the (pr_last_input r1)) opt (with_run run_id (r1\<lparr>pr_waiting_for := WaitReply\<rparr>) g1))
             else (prepare_current run_id g1, Inr ())))"

section \<open>Stopping\<close>

definition cancelled_phase :: "job_phase \<Rightarrow> job_phase" where
  "cancelled_phase phase =
     (case phase of
        TurnCreated input opt \<Rightarrow> JobCancelling None
      | TurnDispatched b input opt turn_id \<Rightarrow> JobCancelling (Some turn_id)
      | TurnCommitting b opt rec \<Rightarrow> JobCancelling (Some (tu_turn_id rec))
      | JobArchives w \<Rightarrow> JobCancelling None
      | _ \<Rightarrow> phase)"

definition halt_run :: "string \<Rightarrow> program_runner \<Rightarrow> program_runner" where
  "halt_run run_id g =
     (case dict_get (pg_runs g) run_id of
        None \<Rightarrow> g
      | Some r \<Rightarrow>
          (with_run run_id (r\<lparr>pr_state := StoppedRun, pr_waiting_for := WaitNone\<rparr>) g)
            \<lparr>pg_active_by_room := dict_del (pr_room_id r) (pg_active_by_room g)\<rparr>)"

definition begin_stop_run :: "string \<Rightarrow> program_runner \<Rightarrow> program_runner" where
  "begin_stop_run run_id g =
     (case dict_get (pg_tasks g) run_id of
        None \<Rightarrow> (halt_run run_id g)\<lparr>pg_stops := pg_stops g @ [\<lparr>sc_run_id = run_id, sc_job = None, sc_work = Some ArchiveStart\<rparr>]\<rparr>
      | Some j \<Rightarrow>
          (set_phase j (cancelled_phase (jb_phase (pg_jobs g ! j))) g)
            \<lparr>pg_tasks := dict_del run_id (pg_tasks g),
             pg_stops := pg_stops g @ [\<lparr>sc_run_id = run_id, sc_job = Some j, sc_work = None\<rparr>]\<rparr>)"

text \<open>The k-th stop goes on when the callbacks of the job it waits for have run.\<close>

definition resume_stop :: "nat \<Rightarrow> program_runner \<Rightarrow> program_runner option" where
  "resume_stop k g =
     (if length (pg_stops g) \<le> k then None
      else
        (let c = pg_stops g ! k in
         case sc_job c of
           None \<Rightarrow> None
         | Some j \<Rightarrow>
             if sc_work c = None \<and> jb_phase (pg_jobs g ! j) = JobReaped
             then Some ((halt_run (sc_run_id c) g)\<lparr>pg_stops := (pg_stops g)[k := c\<lparr>sc_work := Some ArchiveStart\<rparr>]\<rparr>)
             else None))"

text \<open>The next call of \<open>_archive_run\<close>; each call, and the end of a loop, is a step of its own.\<close>

definition archive_step :: "string \<Rightarrow> archive_work \<Rightarrow> program_runner \<Rightarrow> program_runner \<times> archive_work" where
  "archive_step run_id w g =
     (case dict_get (pg_runs g) run_id of
        None \<Rightarrow> (g, ArchiveDone)
      | Some r \<Rightarrow>
          (let atoms = ForgettingAtoms (if pg_has_memory g then first_occurrences (pr_atom_ids r) else []) in
           case w of
             ArchiveStart \<Rightarrow> (g, if pg_deletes_checkpoints g then DeletingThreads (sort (pr_checkpoint_threads r)) else atoms)
           | DeletingThreads (t # ts) \<Rightarrow> (g\<lparr>pg_deleted := pg_deleted g @ [t]\<rparr>, DeletingThreads ts)
           | DeletingThreads [] \<Rightarrow> (with_run run_id (r\<lparr>pr_checkpoint_threads := []\<rparr>) g, atoms)
           | ForgettingAtoms (a # as) \<Rightarrow> (g\<lparr>pg_forgotten := pg_forgotten g @ [a]\<rparr>, ForgettingAtoms as)
           | ForgettingAtoms [] \<Rightarrow> (g, ArchiveDone)
           | ArchiveDone \<Rightarrow> (g, ArchiveDone)))"

text \<open>The steps that call out; \<open>fails\<close>: the call raises, which ends the archive.\<close>

definition archive_calls :: "archive_work \<Rightarrow> bool" where
  "archive_calls w \<longleftrightarrow> (case w of DeletingThreads (t # ts) \<Rightarrow> True | ForgettingAtoms (a # as) \<Rightarrow> True | _ \<Rightarrow> False)"

definition stop_archives :: "nat \<Rightarrow> bool \<Rightarrow> program_runner \<Rightarrow> program_runner option" where
  "stop_archives k fails g =
     (if length (pg_stops g) \<le> k then None
      else
        (let c = pg_stops g ! k in
         case sc_work c of
           None \<Rightarrow> None
         | Some w \<Rightarrow>
             if w = ArchiveDone then None
             else
               (case archive_step (sc_run_id c) w g of
                  (g1, w1) \<Rightarrow> Some (g1\<lparr>pg_stops := (pg_stops g)[k := c\<lparr>sc_work := Some (if fails \<and> archive_calls w then ArchiveDone else w1)\<rparr>]\<rparr>))))"

text \<open>\<open>shutdown\<close> stops the runs of a list that are still live, one after the other; \<open>None\<close> when it is done.\<close>

definition shutdown_next :: "string list \<Rightarrow> program_runner \<Rightarrow> program_runner \<times> string list option" where
  "shutdown_next ids g =
     (case dropWhile (\<lambda>i. case dict_get (pg_runs g) i of None \<Rightarrow> True | Some r \<Rightarrow> \<not> live_state (pr_state r)) ids of
        [] \<Rightarrow> (g\<lparr>pg_subscribed := False\<rparr>, None)
      | i # rest \<Rightarrow> (begin_stop_run i g, Some rest))"

section \<open>Controls\<close>

text \<open>\<open>Inr None\<close>: the stop has begun, and its caller waits.\<close>

definition control_run ::
  "string \<Rightarrow> string \<Rightarrow> string \<Rightarrow> program_runner \<Rightarrow> program_runner \<times> (program_error + run_snapshot option)" where
  "control_run run_id action creator g =
     (let answered = (\<lambda>g1. (g1, map_sum id Some (snapshot_by_id run_id g1))) in
      case owned_run run_id creator g of
        Inl e \<Rightarrow> (g, Inl e)
      | Inr r \<Rightarrow>
          if action = ''pause'' then
            answered (if pr_state r = RunningRun then with_run run_id (r\<lparr>pr_state := PausedRun\<rparr>) g else g)
          else if action = ''resume'' then
            (if pr_state r \<noteq> PausedRun then (g, Inl NotPaused)
             else
               (let g1 = with_run run_id (r\<lparr>pr_state := RunningRun\<rparr>) g in
                answered (if run_id \<notin> set (dict_keys (pg_tasks g1)) then prepare_current run_id g1 else g1)))
          else if action = ''retry'' then
            (case retry_turn run_id r g of (g1, Inl e) \<Rightarrow> (g1, Inl e) | (g1, Inr _) \<Rightarrow> answered g1)
          else if action = ''stop'' then (begin_stop_run run_id g, Inr None)
          else (g, Inl InvalidControl))"

section \<open>Probes\<close>

definition selected_option :: "program_run \<Rightarrow> string \<Rightarrow> script_option option" where
  "selected_option r slot =
     (let saver = find (\<lambda>b. si_save_as (be_input b) = Some slot \<and> given (si_options (be_input b)))
            (rev (take (Suc (pr_current_index r)) (ps_beats (pr_script r))));
          options = dict_get_default (ps_option_sets (pr_script r)) (name_text (Option.bind saver (\<lambda>b. si_options (be_input b)))) []
      in find (\<lambda>v. dict_get (pr_slots r) slot = Some (so_id v)) options)"

definition selected_aliases :: "program_run \<Rightarrow> string list \<Rightarrow> unicode list list" where
  "selected_aliases r slots = map (\<lambda>s. case selected_option r s of None \<Rightarrow> [] | Some v \<Rightarrow> so_aliases v) slots"

definition evaluate_probe ::
  "program_run \<Rightarrow> program_beat \<Rightarrow> unicode \<Rightarrow> recall_metadata option \<Rightarrow> probe_result \<times> string option" where
  "evaluate_probe r b response recall =
     (case recall of
        None \<Rightarrow> (ProbeInconclusive, Some ''recall_metadata_missing'')
      | Some m \<Rightarrow>
          if rm_empty m \<or> rm_degraded m
          then (ProbeInconclusive, Some (case rm_reason m of None \<Rightarrow> ''recall_metadata_missing'' | Some x \<Rightarrow> x))
          else
            (case be_evaluator b of
               None \<Rightarrow> (ProbeInconclusive, Some ''evaluator_missing'')
             | Some e \<Rightarrow>
                 (let matched_slots = list_all (list_ex (\<lambda>a. contains_word a response)) (selected_aliases r (ev_slots e));
                      rejected = list_ex (\<lambda>m. contains_word m response) (ev_rejection_markers e);
                      false_repeated = list_ex (\<lambda>v. contains_word v response \<and> \<not> rejected) (ev_false_values e);
                      matched = (if ev_type e = RejectFalsePremise then matched_slots \<and> rejected \<and> \<not> false_repeated else matched_slots)
                  in (if matched then ProbeMatched else ProbeNotMatched, None))))"

section \<open>Turns\<close>

definition pause_with_error :: "string \<Rightarrow> string \<Rightarrow> program_runner \<Rightarrow> program_runner" where
  "pause_with_error run_id reason g =
     (case dict_get (pg_runs g) run_id of
        None \<Rightarrow> g
      | Some r \<Rightarrow> with_run run_id (r\<lparr>pr_state := PausedRun, pr_waiting_for := WaitError, pr_error := Some reason\<rparr>) g)"

definition checkpoint_thread :: "string \<Rightarrow> program_beat \<Rightarrow> string" where
  "checkpoint_thread run_id b =
     (if be_thread b = IsolatedThread then ''program:'' @ run_id @ '':'' @ be_id b else ''program:'' @ run_id)"

text \<open>The task of a turn starts: it takes the current beat, opens a receipt and calls the dispatcher.\<close>

definition begin_turn :: "nat \<Rightarrow> string \<Rightarrow> program_runner \<Rightarrow> program_runner option" where
  "begin_turn j turn_id g =
     (if length (pg_jobs g) \<le> j then None
      else
        (case (jb_phase (pg_jobs g ! j), dict_get (pg_runs g) (jb_run_id (pg_jobs g ! j))) of
           (TurnCreated input opt, Some r) \<Rightarrow>
             (case current_beat r of
                Inl _ \<Rightarrow> Some (set_phase j (JobEnded (JobRaised ''IndexError'')) g)
              | Inr b \<Rightarrow>
                  (let thread = checkpoint_thread (pr_run_id r) b;
                       r1 = r\<lparr>pr_checkpoint_threads :=
                           (if thread \<in> set (pr_checkpoint_threads r) then pr_checkpoint_threads r
                            else pr_checkpoint_threads r @ [thread])\<rparr>;
                       g1 = with_run (jb_run_id (pg_jobs g ! j)) r1 g;
                       g2 = (if be_memory b = WriteMemory then g1\<lparr>pg_receipts := dict_set turn_id None (pg_receipts g1)\<rparr> else g1)
                   in Some (set_phase j (TurnDispatched b input opt turn_id) g2)))
         | _ \<Rightarrow> None))"

definition turn_answered :: "program_beat \<Rightarrow> unicode \<Rightarrow> unicode \<Rightarrow> string \<Rightarrow> turn_record" where
  "turn_answered b input response turn_id =
     \<lparr>tu_beat_id = be_id b, tu_input_text = input, tu_response_text = response, tu_turn_id = turn_id,
      tu_memory_revision = None, tu_atom_id = None, tu_probe_result = None, tu_degradation_reason = None\<rparr>"

definition complete_beat :: "nat \<Rightarrow> string \<Rightarrow> program_run \<Rightarrow> turn_record \<Rightarrow> program_runner \<Rightarrow> program_runner" where
  "complete_beat j run_id r rec g =
     set_phase j (JobEnded JobReturned)
       (with_run run_id (r\<lparr>pr_records := pr_records r @ [rec], pr_error := None, pr_current_index := Suc (pr_current_index r)\<rparr>) g)"

definition end_dispatch :: "nat \<Rightarrow> dispatch_result \<Rightarrow> program_runner \<Rightarrow> program_runner option" where
  "end_dispatch j result g =
     (if length (pg_jobs g) \<le> j then None
      else
        (let run_id = jb_run_id (pg_jobs g ! j) in
         case (jb_phase (pg_jobs g ! j), dict_get (pg_runs g) run_id) of
           (TurnDispatched b input opt turn_id, Some r) \<Rightarrow>
             Some (case result of
                ReplyTimedOut \<Rightarrow>
                  set_phase j (JobEnded JobReturned) (pause_with_error run_id ''reply_timeout'' (drop_receipt turn_id g))
              | DispatchRaised e \<Rightarrow> set_phase j (JobEnded (JobRaised e)) (drop_receipt turn_id g)
              | Replied response err recall \<Rightarrow>
                  if given err \<or> response = [] then
                    set_phase j (JobEnded JobReturned)
                      (pause_with_error run_id (if given err then the err else ''empty_reply'') (drop_receipt turn_id g))
                  else
                    (let rec = turn_answered b input response turn_id in
                     if be_memory b = WriteMemory then set_phase j (TurnCommitting b opt rec) g
                     else if be_memory b = ProbeMemory then
                       (case evaluate_probe r b response recall of
                          (verdict, reason) \<Rightarrow>
                            complete_beat j run_id r (rec\<lparr>tu_probe_result := Some verdict, tu_degradation_reason := reason\<rparr>) g)
                     else complete_beat j run_id r rec g))
         | _ \<Rightarrow> None))"

definition degrade_turn :: "nat \<Rightarrow> string \<Rightarrow> program_run \<Rightarrow> turn_record \<Rightarrow> string \<Rightarrow> program_runner \<Rightarrow> program_runner" where
  "degrade_turn j run_id r rec reason g =
     set_phase j (JobEnded JobReturned)
       (pause_with_error run_id reason
         (with_run run_id (r\<lparr>pr_records := pr_records r @ [rec\<lparr>tu_degradation_reason := Some reason\<rparr>]\<rparr>) g))"

text \<open>The receipt of the memory has come, or the wait for it times out.\<close>

definition end_commit :: "nat \<Rightarrow> bool \<Rightarrow> program_runner \<Rightarrow> program_runner option" where
  "end_commit j timed_out g =
     (if length (pg_jobs g) \<le> j then None
      else
        (let run_id = jb_run_id (pg_jobs g ! j) in
         case (jb_phase (pg_jobs g ! j), dict_get (pg_runs g) run_id) of
           (TurnCommitting b opt rec, Some r) \<Rightarrow>
             if timed_out then
               Some (degrade_turn j run_id r rec ''memory_commit_timeout'' (drop_receipt (tu_turn_id rec) g))
             else
               (case dict_get (pg_receipts g) (tu_turn_id rec) of
                  Some (Some p) \<Rightarrow>
                    Some (case (mv_revision p, mv_atom_id p) of
                       (Some revision, Some atom) \<Rightarrow>
                         if atom = [] then degrade_turn j run_id r rec ''memory_commit_invalid'' (drop_receipt (tu_turn_id rec) g)
                         else
                           (let r1 = r\<lparr>pr_atom_ids := pr_atom_ids r @ [atom]\<rparr>;
                                r2 = (case opt of
                                   None \<Rightarrow> r1
                                 | Some v \<Rightarrow>
                                     if given (si_save_as (be_input b))
                                     then r1\<lparr>pr_slots := dict_set (the (si_save_as (be_input b))) (so_id v) (pr_slots r1)\<rparr> else r1)
                            in complete_beat j run_id r2 (rec\<lparr>tu_memory_revision := Some revision, tu_atom_id := Some atom\<rparr>)
                                 (drop_receipt (tu_turn_id rec) g))
                     | _ \<Rightarrow> degrade_turn j run_id r rec ''memory_commit_invalid'' (drop_receipt (tu_turn_id rec) g))
                | _ \<Rightarrow> None)
         | _ \<Rightarrow> None))"

definition memory_revision :: "revision_payload \<Rightarrow> program_runner \<Rightarrow> program_runner" where
  "memory_revision p g =
     (case mv_turn_id p of
        None \<Rightarrow> g
      | Some turn_id \<Rightarrow>
          if pg_subscribed g \<and> dict_get (pg_receipts g) turn_id = Some None
          then g\<lparr>pg_receipts := dict_set turn_id (Some p) (pg_receipts g)\<rparr> else g)"

section \<open>Ends of tasks\<close>

definition end_cancelled :: "nat \<Rightarrow> program_runner \<Rightarrow> program_runner option" where
  "end_cancelled j g =
     (if length (pg_jobs g) \<le> j then None
      else
        (case jb_phase (pg_jobs g ! j) of
           JobCancelling turn_id \<Rightarrow>
             Some (set_phase j (JobEnded JobCancelled) (case turn_id of None \<Rightarrow> g | Some t \<Rightarrow> drop_receipt t g))
         | _ \<Rightarrow> None))"

definition job_archives :: "nat \<Rightarrow> bool \<Rightarrow> program_runner \<Rightarrow> program_runner option" where
  "job_archives j fails g =
     (if length (pg_jobs g) \<le> j then None
      else
        (case jb_phase (pg_jobs g ! j) of
           JobArchives w \<Rightarrow>
             if w = ArchiveDone then Some (set_phase j (JobEnded JobReturned) g)
             else
               (case archive_step (jb_run_id (pg_jobs g ! j)) w g of
                  (g1, w1) \<Rightarrow> Some (set_phase j (if fails \<and> archive_calls w then JobEnded (JobRaised ''archive'') else JobArchives w1) g1))
         | _ \<Rightarrow> None))"

text \<open>The callback of an ended task.\<close>

definition reap_job :: "nat \<Rightarrow> program_runner \<Rightarrow> program_runner option" where
  "reap_job j g =
     (if length (pg_jobs g) \<le> j then None
      else
        (let run_id = jb_run_id (pg_jobs g ! j);
             g1 = (set_phase j JobReaped g)\<lparr>pg_tasks := dict_del run_id (pg_tasks g)\<rparr>
         in case jb_phase (pg_jobs g ! j) of
              JobEnded result \<Rightarrow>
                Some (if \<not> jb_is_turn (pg_jobs g ! j) then g1
                      else
                        (case (result, dict_get (pg_runs g1) run_id) of
                           (JobRaised e, Some r) \<Rightarrow>
                             with_run run_id (r\<lparr>pr_state := FailedRun, pr_waiting_for := WaitError, pr_error := Some e\<rparr>) g1
                         | (JobReturned, Some r) \<Rightarrow> if pr_state r = RunningRun then prepare_current run_id g1 else g1
                         | _ \<Rightarrow> g1))
            | _ \<Rightarrow> None))"

section \<open>Events\<close>

datatype program_command =
    StartProgram string int string "string option" "published_script option"
  | SubmitChoice string string string string
  | ControlRun string string string

fun execute_command :: "program_command \<Rightarrow> program_runner \<Rightarrow> program_runner" where
  "execute_command (StartProgram run_id room creator room_state published) g =
     fst (start_program run_id room creator room_state published g)"
| "execute_command (SubmitChoice run_id beat_id option_id creator) g = fst (submit_choice run_id beat_id option_id creator g)"
| "execute_command (ControlRun run_id action creator) g = fst (control_run run_id action creator g)"

text \<open>Everything that can happen to a runner; \<open>None\<close> when it cannot happen now.\<close>

datatype program_event =
    CommandComes program_command
  | TurnBegins nat string
  | DispatchEnds nat dispatch_result
  | CommitEnds nat bool
  | CancelSeen nat
  | ArchiveGoes nat bool
  | JobReaps nat
  | StopResumes nat
  | StopArchives nat bool
  | RevisionArrives revision_payload
  | RoomLooked int
  | ShutdownGoes "string list"

fun perform :: "program_event \<Rightarrow> program_runner \<Rightarrow> program_runner option" where
  "perform (CommandComes c) g = Some (execute_command c g)"
| "perform (TurnBegins j turn_id) g = begin_turn j turn_id g"
| "perform (DispatchEnds j result) g = end_dispatch j result g"
| "perform (CommitEnds j timed_out) g = end_commit j timed_out g"
| "perform (CancelSeen j) g = end_cancelled j g"
| "perform (ArchiveGoes j fails) g = job_archives j fails g"
| "perform (JobReaps j) g = reap_job j g"
| "perform (StopResumes k) g = resume_stop k g"
| "perform (StopArchives k fails) g = stop_archives k fails g"
| "perform (RevisionArrives p) g = Some (memory_revision p g)"
| "perform (RoomLooked room) g = Some (fst (active_run room g))"
| "perform (ShutdownGoes ids) g = Some (fst (shutdown_next ids g))"

fun perform_all :: "program_event list \<Rightarrow> program_runner \<Rightarrow> program_runner option" where
  "perform_all [] g = Some g"
| "perform_all (e # es) g = (case perform e g of None \<Rightarrow> None | Some g' \<Rightarrow> perform_all es g')"

end
