(* ===== verification/Program_Script_Properties.thy ===== *)
theory Program_Script_Properties
  imports Program_Script
begin

text \<open>
  What the validator of program scripts accepts, stated without its loops, and what the issues
  that block publication rule out.
\<close>

section \<open>References\<close>

text \<open>The slots that the choices among some beats save.\<close>

definition saved_slots :: "program_beat list \<Rightarrow> string set" where
  "saved_slots bs = {name_text (si_save_as (be_input b)) |b. b \<in> set bs \<and> si_type (be_input b) = ChoiceInput}"

lemma saved_slots [simp]:
  "saved_slots [] = {}" "saved_slots (b # bs) = set (slots_after [] b) \<union> saved_slots bs"
  by (auto simp: saved_slots_def slots_after_def)

lemma set_slots_after: "set (slots_after slots b) = set slots \<union> set (slots_after [] b)"
  by (simp add: slots_after_def)

lemma missing_slots_none:
  "missing_slots slots b = [] \<longleftrightarrow> (\<forall>e. be_evaluator b = Some e \<longrightarrow> set (ev_slots e) \<subseteq> set slots)"
proof (cases "be_evaluator b")
  case (Some e)
  have "sort (remdups xs) = [] \<longleftrightarrow> xs = []" for xs :: "string list"
    by (metis remdups_eq_nil_iff set_empty set_sort)
  then show ?thesis using Some by (auto simp: missing_slots_def filter_empty_conv)
qed (simp add: missing_slots_def)

lemma choice_refusal_none:
  "choice_refusal sets slots b = None \<longleftrightarrow>
   (si_type (be_input b) = ChoiceInput \<longrightarrow>
      (\<exists>k. si_options (be_input b) = Some k \<and> k \<in> set (dict_keys sets)) \<and>
      (given (si_exclude_slot (be_input b)) \<longrightarrow> the (si_exclude_slot (be_input b)) \<in> set slots))"
  by (auto simp: choice_refusal_def Let_def split: option.splits)

lemma check_option_sets_ok:
  "check_option_sets casefold sets = Inr () \<longleftrightarrow>
   (\<forall>(k, os)\<in>set sets. valid_id k \<and> os \<noteq> [] \<and> distinct (map so_id os) \<and> distinct (folded_aliases casefold os))"
  by (induction casefold sets rule: check_option_sets.induct) auto

definition beat_references_ok :: "(string, script_option list) dict \<Rightarrow> string set \<Rightarrow> program_beat \<Rightarrow> bool" where
  "beat_references_ok sets slots b \<longleftrightarrow>
     (si_type (be_input b) = ChoiceInput \<longrightarrow>
        (\<exists>k. si_options (be_input b) = Some k \<and> k \<in> set (dict_keys sets)) \<and>
        (given (si_exclude_slot (be_input b)) \<longrightarrow> the (si_exclude_slot (be_input b)) \<in> slots)) \<and>
     (\<forall>e. be_evaluator b = Some e \<longrightarrow> set (ev_slots e) \<subseteq> slots \<union> set (slots_after [] b))"

lemma check_beats_ok:
  "check_beats sets slots bs = Inr () \<longleftrightarrow>
   (\<forall>n<length bs. beat_references_ok sets (set slots \<union> saved_slots (take n bs)) (bs ! n))"
proof (induction bs arbitrary: slots)
  case (Cons b bs)
  have "check_beats sets slots (b # bs) = Inr () \<longleftrightarrow>
      beat_references_ok sets (set slots) b \<and> check_beats sets (slots_after slots b) bs = Inr ()"
    using choice_refusal_none [of sets slots b] missing_slots_none [of "slots_after slots b" b]
    by (cases "choice_refusal sets slots b") (auto simp: beat_references_ok_def Let_def set_slots_after [of slots])
  also have "\<dots> \<longleftrightarrow> (\<forall>n<length (b # bs). beat_references_ok sets (set slots \<union> saved_slots (take n (b # bs))) ((b # bs) ! n))"
    unfolding Cons.IH set_slots_after [of slots] by (simp add: All_less_Suc2 Un_assoc)
  finally show ?case .
qed simp

text \<open>The references of the n-th beat, stated over the beats before it.\<close>

definition beat_references_sound :: "(string, script_option list) dict \<Rightarrow> program_beat list \<Rightarrow> nat \<Rightarrow> bool" where
  "beat_references_sound sets bs n \<longleftrightarrow>
     (si_type (be_input (bs ! n)) = ChoiceInput \<longrightarrow>
        (\<exists>k. si_options (be_input (bs ! n)) = Some k \<and> k \<in> set (dict_keys sets)) \<and>
        (given (si_exclude_slot (be_input (bs ! n))) \<longrightarrow> the (si_exclude_slot (be_input (bs ! n))) \<in> saved_slots (take n bs))) \<and>
     (\<forall>e. be_evaluator (bs ! n) = Some e \<longrightarrow> set (ev_slots e) \<subseteq> saved_slots (take (Suc n) bs))"

lemma beat_references_ok_nth:
  assumes "n < length bs"
  shows "beat_references_ok sets (saved_slots (take n bs)) (bs ! n) = beat_references_sound sets bs n"
proof -
  have "saved_slots (take (Suc n) bs) = saved_slots (take n bs) \<union> set (slots_after [] (bs ! n))"
    unfolding take_Suc_conv_app_nth [OF assms] by (auto simp: saved_slots_def slots_after_def)
  then show ?thesis by (simp add: beat_references_ok_def beat_references_sound_def)
qed

lemma parse_script_ok:
  "parse_script casefold raw = Inr s \<longleftrightarrow>
   script_fields_ok raw \<and>
   s = raw\<lparr>ps_option_sets := map (\<lambda>(k, os). (k, map include_label_alias os)) (ps_option_sets raw)\<rparr> \<and>
   distinct (map be_id (ps_beats s)) \<and> check_option_sets casefold (ps_option_sets s) = Inr () \<and>
   check_beats (ps_option_sets s) [] (ps_beats s) = Inr ()"
  by (auto simp: parse_script_def validate_references_def Let_def split: sum.splits if_splits)

section \<open>Issues\<close>

definition choice_saves :: "program_beat \<Rightarrow> string \<Rightarrow> bool" where
  "choice_saves b slot \<longleftrightarrow> si_type (be_input b) = ChoiceInput \<and> si_save_as (be_input b) = Some slot"

text \<open>Every beat with a choice has its option set, and names a slot.\<close>

definition choices_known :: "program_script \<Rightarrow> program_beat list \<Rightarrow> bool" where
  "choices_known s bs \<longleftrightarrow>
     (\<forall>b\<in>set bs. si_type (be_input b) = ChoiceInput \<longrightarrow>
        (\<exists>k slot. si_options (be_input b) = Some k \<and> k \<noteq> [] \<and> k \<in> set (dict_keys (ps_option_sets s)) \<and>
           si_save_as (be_input b) = Some slot \<and> slot \<noteq> []))"

lemma add_slot_options_choice:
  assumes "choices_known s [b]"
  shows "\<exists>d'. add_slot_options s b (Some d) = Some d' \<and>
    (\<forall>slot. dict_get d' slot =
       (if choice_saves b slot then dict_get (ps_option_sets s) (the (si_options (be_input b))) else dict_get d slot))"
proof (cases "si_type (be_input b) = ChoiceInput")
  case True
  then obtain k slot where k: "si_options (be_input b) = Some k" "k \<noteq> []" "k \<in> set (dict_keys (ps_option_sets s))"
    "si_save_as (be_input b) = Some slot" "slot \<noteq> []"
    using assms by (auto simp: choices_known_def)
  then obtain os where "dict_get (ps_option_sets s) k = Some os"
    by (cases "dict_get (ps_option_sets s) k") (simp_all add: dict_get_None_keys)
  then show ?thesis using k True by (auto simp: add_slot_options_def given_def Let_def choice_saves_def dict_simps)
qed (auto simp: add_slot_options_def Let_def choice_saves_def)

lemma slot_options_of:
  assumes "choices_known s bs"
  shows "\<exists>d. fold (add_slot_options s) bs (Some []) = Some d \<and>
    (\<forall>slot k. (\<exists>c\<in>set bs. choice_saves c slot) \<and> (\<forall>c\<in>set bs. choice_saves c slot \<longrightarrow> si_options (be_input c) = Some k) \<longrightarrow>
       dict_get d slot = dict_get (ps_option_sets s) k)"
  using assms
proof (induction bs rule: rev_induct)
  case (snoc b bs)
  then have "choices_known s bs" and b: "choices_known s [b]" by (simp_all add: choices_known_def)
  then obtain d where d: "fold (add_slot_options s) bs (Some []) = Some d"
    "\<forall>slot k. (\<exists>c\<in>set bs. choice_saves c slot) \<and> (\<forall>c\<in>set bs. choice_saves c slot \<longrightarrow> si_options (be_input c) = Some k) \<longrightarrow>
       dict_get d slot = dict_get (ps_option_sets s) k"
    using snoc.IH by blast
  obtain d' where d': "add_slot_options s b (Some d) = Some d'"
    "\<forall>slot. dict_get d' slot =
       (if choice_saves b slot then dict_get (ps_option_sets s) (the (si_options (be_input b))) else dict_get d slot)"
    using add_slot_options_choice [OF b] by blast
  show ?case using d d' by (intro exI [of _ d']) (auto split: if_splits)
qed simp

lemma leak_issues_none:
  "leak_issues casefold slot_options i bs = [] \<longleftrightarrow>
   (\<forall>b\<in>set bs. be_memory b = ProbeMemory \<longrightarrow> leaked_aliases casefold slot_options b = [])"
  by (induction casefold slot_options i bs rule: leak_issues.induct) auto

lemma leaked_aliases_none:
  assumes "leaked_aliases casefold slot_options b = []" "be_evaluator b = Some e" "slot \<in> set (ev_slots e)"
    "dict_get slot_options slot = Some os" "v \<in> set os" "a \<in> set (so_aliases v)"
  shows "\<not> contains_word (casefold a) (probe_instruction casefold b)"
proof
  assume "contains_word (casefold a) (probe_instruction casefold b)"
  then have "a \<in> set (leaked_aliases casefold slot_options b)"
    using assms(2-6) by (auto simp: leaked_aliases_def dict_get_default_def intro!: bexI [of _ slot] bexI [of _ v])
  then show False using assms(1) by simp
qed

lemma aura_template_issues_total: "slot_option_sets s = Some d \<Longrightarrow> \<exists>issues. aura_template_issues s = Some issues"
  unfolding aura_template_issues_def Let_def by (cases "length (ps_beats s) = 12") simp_all

lemma parsed_choices_known:
  assumes "parse_script casefold raw = Inr s"
  shows "choices_known s (ps_beats s)"
  unfolding choices_known_def
proof (intro ballI impI)
  fix b assume b: "b \<in> set (ps_beats s)" and choice: "si_type (be_input b) = ChoiceInput"
  have ok: "script_fields_ok raw" "ps_beats s = ps_beats raw" "check_beats (ps_option_sets s) [] (ps_beats s) = Inr ()"
    using assms [unfolded parse_script_ok] by (elim conjE, simp only:, simp, blast)
  obtain n where n: "n < length (ps_beats s)" "ps_beats s ! n = b" using b unfolding in_set_conv_nth by blast
  have "beat_references_ok (ps_option_sets s) (set [] \<union> saved_slots (take n (ps_beats s))) b"
    using ok(3) [unfolded check_beats_ok] n by blast
  then obtain k where k: "si_options (be_input b) = Some k" "k \<in> set (dict_keys (ps_option_sets s))"
    using choice by (auto simp: beat_references_ok_def)
  have "list_all beat_ok (ps_beats raw)" using ok(1) unfolding script_fields_ok_def by blast
  then have "beat_ok b" using ok(2) b by (simp add: list_all_iff)
  then have "given (si_options (be_input b))" "given (si_save_as (be_input b))"
    using choice by (simp_all add: beat_ok_def input_ok_def input_shape_ok_def)
  then obtain slot where "k \<noteq> []" "si_save_as (be_input b) = Some slot" "slot \<noteq> []"
    using k by (auto simp: given_def split: option.splits)
  then show "\<exists>k slot. si_options (be_input b) = Some k \<and> k \<noteq> [] \<and> k \<in> set (dict_keys (ps_option_sets s)) \<and>
      si_save_as (be_input b) = Some slot \<and> slot \<noteq> []"
    using k by blast
qed

lemma parsed_issues:
  assumes "parse_script casefold raw = Inr s"
  shows "\<exists>issues. validate_program_script casefold s = Some issues \<and>
    (issues = [] \<longrightarrow>
       (\<forall>b e slot c k os v a. b \<in> set (ps_beats s) \<and> be_memory b = ProbeMemory \<and> be_evaluator b = Some e \<and> slot \<in> set (ev_slots e) \<and>
          c \<in> set (ps_beats s) \<and> choice_saves c slot \<and> dict_get (ps_option_sets s) k = Some os \<and>
          (\<forall>c\<in>set (ps_beats s). choice_saves c slot \<longrightarrow> si_options (be_input c) = Some k) \<and> v \<in> set os \<and> a \<in> set (so_aliases v) \<longrightarrow>
          \<not> contains_word (casefold a) (probe_instruction casefold b)))"
proof -
  obtain d where d: "slot_option_sets s = Some d"
    and slots: "\<forall>slot k. (\<exists>c\<in>set (ps_beats s). choice_saves c slot) \<and>
        (\<forall>c\<in>set (ps_beats s). choice_saves c slot \<longrightarrow> si_options (be_input c) = Some k) \<longrightarrow>
       dict_get d slot = dict_get (ps_option_sets s) k"
    using slot_options_of [OF parsed_choices_known [OF assms]] unfolding slot_option_sets_def by blast
  obtain template where t: "(if ps_aura_template s then aura_template_issues s else Some []) = Some template"
    using aura_template_issues_total [OF d] by (cases "ps_aura_template s") auto
  have v: "validate_program_script casefold s = Some (leak_issues casefold d 0 (ps_beats s) @ template)"
    by (simp add: validate_program_script_def probe_leakage_issues_def d t)
  have none: "\<not> contains_word (casefold a) (probe_instruction casefold b)"
    if "leak_issues casefold d 0 (ps_beats s) = []" "b \<in> set (ps_beats s)" "be_memory b = ProbeMemory" "be_evaluator b = Some e"
      "slot \<in> set (ev_slots e)" "c \<in> set (ps_beats s)" "choice_saves c slot" "dict_get (ps_option_sets s) k = Some os"
      "\<forall>c\<in>set (ps_beats s). choice_saves c slot \<longrightarrow> si_options (be_input c) = Some k" "v \<in> set os" "a \<in> set (so_aliases v)"
    for b e slot c k os v a
  proof -
    have "dict_get d slot = Some os" using slots that(6-9) by metis
    moreover have "leaked_aliases casefold d b = []" using that(1-3) by (simp add: leak_issues_none)
    ultimately show ?thesis using leaked_aliases_none [of casefold d b e slot os v a] that(4,5,10,11) by blast
  qed
  show ?thesis
    unfolding v using none by (intro exI [of _ "leak_issues casefold d 0 (ps_beats s) @ template"] conjI refl) (simp only: append_is_Nil_conv, blast)
qed

section \<open>Examples\<close>

definition example_option :: "string \<Rightarrow> unicode \<Rightarrow> script_option" where
  "example_option name text = \<lparr>so_id = name, so_label = text, so_danmaku = text, so_aliases = []\<rparr>"

definition example_beat ::
  "string \<Rightarrow> script_input \<Rightarrow> memory_mode \<Rightarrow> unicode \<Rightarrow> script_evaluator option \<Rightarrow> program_beat" where
  "example_beat name i m objective e =
     \<lparr>be_id = name, be_phase = Qi, be_host_prompt = None, be_input = i, be_memory = m, be_thread = SharedThread,
      be_reply = \<lparr>re_objective = objective, re_max_sentences = 2, re_max_chars = 80\<rparr>,
      be_transition = \<lparr>tn_style = DirectTransition, tn_text = None\<rparr>, be_evaluator = e\<rparr>"

definition example_choice :: "string \<Rightarrow> string \<Rightarrow> script_input" where
  "example_choice options slot =
     \<lparr>si_type = ChoiceInput, si_options = Some options, si_save_as = Some slot, si_text = None, si_exclude_slot = None\<rparr>"

definition example_fixed :: "unicode \<Rightarrow> script_input" where
  "example_fixed text =
     \<lparr>si_type = FixedInput, si_options = None, si_save_as = None, si_text = Some text, si_exclude_slot = None\<rparr>"

definition example_script :: "(string, script_option list) dict \<Rightarrow> program_beat list \<Rightarrow> program_script" where
  "example_script sets bs =
     \<lparr>ps_id = ''s'', ps_title = [65], ps_description = [], ps_aura_template = False, ps_disclosure = [], ps_opening = [],
      ps_closing = [], ps_reply_timeout_ms = 30000, ps_memory_commit_timeout_ms = 15000, ps_option_sets = sets, ps_beats = bs\<rparr>"

definition example_recall :: "string \<Rightarrow> script_evaluator" where
  "example_recall slot = \<lparr>ev_type = RecallSlots, ev_slots = [slot], ev_false_values = [], ev_rejection_markers = []\<rparr>"

definition example_sets :: "(string, script_option list) dict" where
  "example_sets = [(''teas'', [example_option ''green'' [77]]), (''cakes'', [example_option ''cream'' [88]])]"

text \<open>A choice of a tea, a probe whose objective names it, and a later choice of a cake in the same slot.\<close>

definition example_leaking_beats :: "program_beat list" where
  "example_leaking_beats =
     [example_beat ''a'' (example_choice ''teas'' ''likes'') WriteMemory [66] None,
      example_beat ''b'' (example_fixed [67]) ProbeMemory [77] (Some (example_recall ''likes'')),
      example_beat ''c'' (example_choice ''cakes'' ''likes'') WriteMemory [66] None]"

definition example_raw :: program_script where
  "example_raw = example_script example_sets (take 2 example_leaking_beats)"

definition parsed_sets :: "(string, script_option list) dict" where
  "parsed_sets = map (\<lambda>(k, os). (k, map include_label_alias os)) example_sets"

lemma example_parsed:
  "parse_script (\<lambda>t. t) example_raw = Inr (example_script parsed_sets (take 2 example_leaking_beats))"
  "parse_script (\<lambda>t. t) (example_script example_sets example_leaking_beats) = Inr (example_script parsed_sets example_leaking_beats)"
  by code_simp+

lemma example_issues:
  "validate_program_script (\<lambda>t. t) (example_script parsed_sets (take 2 example_leaking_beats)) = Some [ProbeAnswerLeak 1 [[77]]]"
  "validate_program_script (\<lambda>t. t) (example_script parsed_sets example_leaking_beats) = Some []"
  by code_simp+

section \<open>The property\<close>

text \<open>
  C30. What makes a program script valid, and publishable.  Parsing accepts a script exactly when its
  fields are in order, its beats have different identifiers, every option set has a valid name and options
  that differ in identifier and in every folded alias, every choice names a known option set
  and excludes only a slot that an earlier beat saved, and every evaluator names slots saved so far;
  the result differs only in that every option counts its label among its aliases.  The issues of an
  accepted script can always be computed, and without an issue no instruction of a
  probe contains an alias of an option of a slot it evaluates, as long as that slot is saved from one
  option set only.  When a later beat saves the slot from another set, an answer of the first set can
  stand in the instruction and no issue is raised.
\<close>

theorem script_accepted_exactly:
  "(parse_script casefold raw = Inr s \<longleftrightarrow>
      script_fields_ok raw \<and>
      s = raw\<lparr>ps_option_sets := map (\<lambda>(k, os). (k, map include_label_alias os)) (ps_option_sets raw)\<rparr> \<and>
      distinct (map be_id (ps_beats s)) \<and>
      (\<forall>(k, os)\<in>set (ps_option_sets s). valid_id k \<and> os \<noteq> [] \<and> distinct (map so_id os) \<and> distinct (folded_aliases casefold os)) \<and>
      (\<forall>n<length (ps_beats s). beat_references_sound (ps_option_sets s) (ps_beats s) n)) \<and>
   (parse_script casefold raw = Inr s \<longrightarrow>
      (\<exists>issues. validate_program_script casefold s = Some issues \<and>
        (issues = [] \<longrightarrow>
           (\<forall>b e slot c k os v a. b \<in> set (ps_beats s) \<and> be_memory b = ProbeMemory \<and> be_evaluator b = Some e \<and> slot \<in> set (ev_slots e) \<and>
              c \<in> set (ps_beats s) \<and> choice_saves c slot \<and> dict_get (ps_option_sets s) k = Some os \<and>
              (\<forall>c\<in>set (ps_beats s). choice_saves c slot \<longrightarrow> si_options (be_input c) = Some k) \<and> v \<in> set os \<and> a \<in> set (so_aliases v) \<longrightarrow>
              \<not> contains_word (casefold a) (probe_instruction casefold b))))) \<and>
   (\<exists>raw' s' c b e k os v a. parse_script (\<lambda>t. t) raw' = Inr s' \<and> validate_program_script (\<lambda>t. t) s' = Some [] \<and>
      ps_beats s' = [c, b, e] \<and> be_memory b = ProbeMemory \<and> choice_saves c ''likes'' \<and> si_options (be_input c) = Some k \<and>
      (\<exists>ev. be_evaluator b = Some ev \<and> ''likes'' \<in> set (ev_slots ev)) \<and>
      dict_get (ps_option_sets s') k = Some os \<and> v \<in> set os \<and> a \<in> set (so_aliases v) \<and>
      contains_word a (probe_instruction (\<lambda>t. t) b))"
proof (intro conjI impI)
  show "parse_script casefold raw = Inr s \<longleftrightarrow>
      script_fields_ok raw \<and>
      s = raw\<lparr>ps_option_sets := map (\<lambda>(k, os). (k, map include_label_alias os)) (ps_option_sets raw)\<rparr> \<and>
      distinct (map be_id (ps_beats s)) \<and>
      (\<forall>(k, os)\<in>set (ps_option_sets s). valid_id k \<and> os \<noteq> [] \<and> distinct (map so_id os) \<and> distinct (folded_aliases casefold os)) \<and>
      (\<forall>n<length (ps_beats s). beat_references_sound (ps_option_sets s) (ps_beats s) n)"
    by (simp add: parse_script_ok check_option_sets_ok check_beats_ok beat_references_ok_nth cong: conj_cong)
next
  show "\<exists>raw' s' c b e k os v a. parse_script (\<lambda>t. t) raw' = Inr s' \<and> validate_program_script (\<lambda>t. t) s' = Some [] \<and>
      ps_beats s' = [c, b, e] \<and> be_memory b = ProbeMemory \<and> choice_saves c ''likes'' \<and> si_options (be_input c) = Some k \<and>
      (\<exists>ev. be_evaluator b = Some ev \<and> ''likes'' \<in> set (ev_slots ev)) \<and>
      dict_get (ps_option_sets s') k = Some os \<and> v \<in> set os \<and> a \<in> set (so_aliases v) \<and>
      contains_word a (probe_instruction (\<lambda>t. t) b)"
    by (intro exI [of _ "example_script example_sets example_leaking_beats"] exI [of _ "example_script parsed_sets example_leaking_beats"]
        exI [of _ "example_leaking_beats ! 0"] exI [of _ "example_leaking_beats ! 1"] exI [of _ "example_leaking_beats ! 2"]
        exI [of _ "''teas''"] exI [of _ "[include_label_alias (example_option ''green'' [77])]"]
        exI [of _ "include_label_alias (example_option ''green'' [77])"] exI [of _ "[77]"] conjI example_parsed example_issues)
      (simp_all add: example_leaking_beats_def example_beat_def example_choice_def choice_saves_def example_recall_def example_script_def
        parsed_sets_def example_sets_def, (code_simp)+)
qed (rule parsed_issues)

theorem script_accepted_exactly_witness:
  "(\<exists>issues. validate_program_script (\<lambda>t. t) (example_script parsed_sets example_leaking_beats) = Some issues) \<and>
   script_fields_ok (example_script example_sets example_leaking_beats)"
proof -
  note exact = script_accepted_exactly [of "\<lambda>t. t" "example_script example_sets example_leaking_beats"
      "example_script parsed_sets example_leaking_beats"]
  have "script_fields_ok (example_script example_sets example_leaking_beats)"
    using exact [THEN conjunct1] example_parsed(2) by blast
  with exact [THEN conjunct2, THEN conjunct1, rule_format, OF example_parsed(2)] show ?thesis by blast
qed

end
