(* ===== verification/Program_Runtime_Inv.thy ===== *)
theory Program_Runtime_Inv
  imports Program_Runtime Program_Script_Properties
begin

text \<open>
  The runs of a program runner whose commands come in order, and the invariant they keep: what belongs to one run
  is its record, its registered task, its jobs and the stop that waits for one of them.
\<close>

section \<open>Reachable runners\<close>

text \<open>A new run has a new identifier, and the repository publishes parsed scripts only.\<close>

fun event_allowed :: "(unicode \<Rightarrow> unicode) \<Rightarrow> program_event \<Rightarrow> program_runner \<Rightarrow> bool" where
  "event_allowed casefold (CommandComes (StartProgram run_id room creator room_state published)) g \<longleftrightarrow>
     dict_get (pg_runs g) run_id = None \<and>
     (\<forall>p. published = Some p \<longrightarrow> (\<exists>raw. parse_script casefold raw = Inr (pb_script p)))"
| "event_allowed casefold e g \<longleftrightarrow> True"

definition being_stopped :: "program_runner \<Rightarrow> string \<Rightarrow> bool" where
  "being_stopped g run_id \<longleftrightarrow> list_ex (\<lambda>c. sc_run_id c = run_id \<and> sc_work c = None) (pg_stops g)"

text \<open>A stop in order: of a live run that is not being stopped, and whose task has not just ended.\<close>

definition orderly_stop :: "program_runner \<Rightarrow> string \<Rightarrow> bool" where
  "orderly_stop g run_id \<longleftrightarrow>
     \<not> being_stopped g run_id \<and>
     (\<exists>r. dict_get (pg_runs g) run_id = Some r \<and> live_state (pr_state r)) \<and>
     (\<forall>j. dict_get (pg_tasks g) run_id = Some j \<longrightarrow> (\<forall>result. jb_phase (pg_jobs g ! j) \<noteq> JobEnded result))"

text \<open>
  Commands in order: no command comes while the run is being stopped, a run is retried after an error and
  while it still has its room, and stops are in order.
\<close>

fun orderly_event :: "program_event \<Rightarrow> program_runner \<Rightarrow> bool" where
  "orderly_event (CommandComes (SubmitChoice run_id beat_id option_id creator)) g \<longleftrightarrow> \<not> being_stopped g run_id"
| "orderly_event (CommandComes (ControlRun run_id action creator)) g \<longleftrightarrow>
     \<not> being_stopped g run_id \<and> (action = ''stop'' \<longrightarrow> orderly_stop g run_id) \<and>
     (action = ''retry'' \<longrightarrow>
        (\<forall>r. dict_get (pg_runs g) run_id = Some r \<longrightarrow>
           pr_waiting_for r = WaitError \<and> dict_get (pg_active_by_room g) (pr_room_id r) = Some run_id))"
| "orderly_event (ShutdownGoes ids) g \<longleftrightarrow> 
     (case dropWhile (\<lambda>i. case dict_get (pg_runs g) i of None \<Rightarrow> True | Some r \<Rightarrow> \<not> live_state (pr_state r)) ids of
        [] \<Rightarrow> True
      | i # rest \<Rightarrow> orderly_stop g i)"
| "orderly_event e g \<longleftrightarrow> True"

inductive program_reachable :: "(unicode \<Rightarrow> unicode) \<Rightarrow> program_runner \<Rightarrow> bool" for casefold where
  runner_new: "program_reachable casefold (new_program_runner dispatcher deletes memory)"
| runner_performs:
    "program_reachable casefold g \<Longrightarrow> event_allowed casefold e g \<Longrightarrow> perform e g = Some g' \<Longrightarrow> program_reachable casefold g'"

inductive program_orderly :: "(unicode \<Rightarrow> unicode) \<Rightarrow> program_runner \<Rightarrow> bool" for casefold where
  orderly_new: "program_orderly casefold (new_program_runner dispatcher deletes memory)"
| orderly_performs:
    "program_orderly casefold g \<Longrightarrow> event_allowed casefold e g \<Longrightarrow> orderly_event e g \<Longrightarrow> perform e g = Some g' \<Longrightarrow>
     program_orderly casefold g'"

lemma orderly_reachable: "program_orderly casefold g \<Longrightarrow> program_reachable casefold g"
  by (induction rule: program_orderly.induct) (blast intro: program_reachable.intros)+

section \<open>Scripts\<close>

text \<open>What the runner relies on.\<close>

definition sound_script :: "program_script \<Rightarrow> bool" where
  "sound_script s \<longleftrightarrow>
     choices_known s (ps_beats s) \<and>
     (\<forall>b\<in>set (ps_beats s). si_type (be_input b) = FixedInput \<longrightarrow> given (si_text (be_input b))) \<and>
     (\<forall>k os v. dict_get (ps_option_sets s) k = Some os \<and> v \<in> set os \<longrightarrow> so_id v \<noteq> [] \<and> so_danmaku v \<noteq> [])"

lemma parsed_sound:
  assumes "parse_script casefold raw = Inr s"
  shows "sound_script s"
  unfolding sound_script_def
proof (intro conjI ballI allI impI)
  show "choices_known s (ps_beats s)" by (rule parsed_choices_known [OF assms])
  have fields: "script_fields_ok raw" and
    s: "s = raw\<lparr>ps_option_sets := map (\<lambda>(k, os). (k, map include_label_alias os)) (ps_option_sets raw)\<rparr>"
    using assms [unfolded parse_script_ok] by - (elim conjE, assumption)+
  show "given (si_text (be_input b))" if b: "b \<in> set (ps_beats s)" and fixed: "si_type (be_input b) = FixedInput" for b
  proof -
    have "ps_beats s = ps_beats raw" by (simp add: s)
    moreover have "list_all beat_ok (ps_beats raw)" using fields unfolding script_fields_ok_def by blast
    ultimately have "beat_ok b" using b by (simp add: list_all_iff)
    then show ?thesis using fixed by (simp add: beat_ok_def input_ok_def input_shape_ok_def)
  qed
  have options: "so_id v \<noteq> [] \<and> so_danmaku v \<noteq> []" if get: "dict_get (ps_option_sets s) k = Some os" and v: "v \<in> set os" for k os v
  proof -
    have "(k, os) \<in> set (map (\<lambda>(k, os). (k, map include_label_alias os)) (ps_option_sets raw))"
      using map_of_SomeD [OF get] by (simp add: s)
    then obtain raws where raws: "(k, raws) \<in> set (ps_option_sets raw)" "os = map include_label_alias raws" by auto
    then obtain u where u: "u \<in> set raws" "v = include_label_alias u" using v by auto
    have "list_all (\<lambda>os. list_all option_fields_ok os) (dict_values (ps_option_sets raw))"
      using fields unfolding script_fields_ok_def by blast
    then have "option_fields_ok u" using raws(1) u(1) by (force simp: list_all_iff)
    then show ?thesis
      unfolding u(2) by (auto simp: include_label_alias_def Let_def option_fields_ok_def script_name_def text_within_def)
  qed
  show "so_id v \<noteq> []" "so_danmaku v \<noteq> []" if "dict_get (ps_option_sets s) k = Some os \<and> v \<in> set os" for k os v
    using options that by blast+
qed

section \<open>What belongs to a run\<close>

definition job_of :: "program_runner \<Rightarrow> string \<Rightarrow> nat \<Rightarrow> program_job option" where
  "job_of g i j = (if j < length (pg_jobs g) \<and> jb_run_id (pg_jobs g ! j) = i then Some (pg_jobs g ! j) else None)"

definition waiting_stops :: "program_runner \<Rightarrow> string \<Rightarrow> stop_call list" where
  "waiting_stops g i = filter (\<lambda>c. sc_run_id c = i \<and> sc_work c = None) (pg_stops g)"

lemma being_stopped_waiting: "being_stopped g i \<longleftrightarrow> waiting_stops g i \<noteq> []"
  by (auto simp: being_stopped_def waiting_stops_def list_ex_iff filter_empty_conv)

text \<open>An input that the script has for a beat, and one that may be sent now.\<close>

definition scripted_input :: "program_script \<Rightarrow> program_beat \<Rightarrow> unicode \<Rightarrow> bool" where
  "scripted_input s b input \<longleftrightarrow>
     (if si_type (be_input b) = FixedInput then si_text (be_input b) = Some input
      else \<exists>os v. dict_get (ps_option_sets s) (name_text (si_options (be_input b))) = Some os \<and> v \<in> set os \<and> input = so_danmaku v)"

definition legal_turn :: "program_run \<Rightarrow> program_beat \<Rightarrow> unicode \<Rightarrow> script_option option \<Rightarrow> bool" where
  "legal_turn r b input opt \<longleftrightarrow>
     (case opt of
        None \<Rightarrow> si_type (be_input b) = FixedInput \<and> si_text (be_input b) = Some input
      | Some v \<Rightarrow> si_type (be_input b) = ChoiceInput \<and> available_option r b (so_id v) = Inr v \<and> input = so_danmaku v)"

abbreviation beat_now :: "program_run \<Rightarrow> program_beat" where
  "beat_now r \<equiv> ps_beats (pr_script r) ! pr_current_index r"

text \<open>The last input is one for the current beat.\<close>

definition last_ok :: "program_run \<Rightarrow> bool" where
  "last_ok r \<longleftrightarrow>
     pr_current_index r < length (ps_beats (pr_script r)) \<and>
     (if si_type (be_input (beat_now r)) = FixedInput then pr_last_input r = si_text (be_input (beat_now r))
      else \<exists>v. pr_last_input r = Some (so_danmaku v) \<and> pr_last_option_id r = Some (so_id v) \<and>
             available_option r (beat_now r) (so_id v) = Inr v)"

text \<open>The records are answers to the beats up to the current one, in order, and none is missing.\<close>

definition turns_recorded :: "program_run \<Rightarrow> bool" where
  "turns_recorded r \<longleftrightarrow>
     (\<exists>ks. sorted ks \<and> {..<pr_current_index r} \<subseteq> set ks \<and>
        (\<forall>k\<in>set ks. k \<le> pr_current_index r \<and> k < length (ps_beats (pr_script r))) \<and>
        list_all2 (\<lambda>k rec. tu_beat_id rec = be_id (ps_beats (pr_script r) ! k) \<and> tu_response_text rec \<noteq> [] \<and>
            scripted_input (pr_script r) (ps_beats (pr_script r) ! k) (tu_input_text rec)) ks (pr_records r))"

lemma available_options_cong:
  "pr_script r' = pr_script r \<Longrightarrow> pr_slots r' = pr_slots r \<Longrightarrow> available_options r' b = available_options r b"
  unfolding available_options_def by (simp only:)

lemma available_option_cong:
  "pr_script r' = pr_script r \<Longrightarrow> pr_slots r' = pr_slots r \<Longrightarrow> available_option r' b i = available_option r b i"
  using available_options_cong [of r' r b] by (simp add: available_option_def)

lemma legal_turn_cong:
  "pr_script r' = pr_script r \<Longrightarrow> pr_slots r' = pr_slots r \<Longrightarrow> legal_turn r' b input opt = legal_turn r b input opt"
  using available_option_cong [of r' r] by (simp add: legal_turn_def split: option.splits)

lemma last_ok_cong:
  "pr_script r' = pr_script r \<Longrightarrow> pr_slots r' = pr_slots r \<Longrightarrow> pr_current_index r' = pr_current_index r \<Longrightarrow>
   pr_last_input r' = pr_last_input r \<Longrightarrow> pr_last_option_id r' = pr_last_option_id r \<Longrightarrow> last_ok r' = last_ok r"
  using available_option_cong [of r' r] by (simp add: last_ok_def)

lemma turns_recorded_cong:
  "pr_script r' = pr_script r \<Longrightarrow> pr_current_index r' = pr_current_index r \<Longrightarrow> pr_records r' = pr_records r \<Longrightarrow>
   turns_recorded r' = turns_recorded r"
  by (simp add: turns_recorded_def)

lemma find_some_mem: "find P xs = Some x \<Longrightarrow> x \<in> set xs \<and> P x"
  by (auto simp: find_Some_iff)

lemma available_options_some:
  assumes "available_options r b = Inr os" "v \<in> set os"
  shows "(\<exists>all. dict_get (ps_option_sets (pr_script r)) (name_text (si_options (be_input b))) = Some all \<and> v \<in> set all) \<and>
    si_type (be_input b) = ChoiceInput"
  using assms by (auto simp: available_options_def split: if_splits option.splits)

lemma available_option_some:
  assumes "available_option r b i = Inr v"
  shows "so_id v = i" "\<exists>os. dict_get (ps_option_sets (pr_script r)) (name_text (si_options (be_input b))) = Some os \<and> v \<in> set os"
    "si_type (be_input b) = ChoiceInput"
proof -
  obtain os where os: "available_options r b = Inr os" "find (\<lambda>v. so_id v = i) os = Some v"
    using assms by (auto simp: available_option_def split: sum.splits option.splits)
  note v = find_some_mem [OF os(2)]
  show "so_id v = i" using v by blast
  show "\<exists>os. dict_get (ps_option_sets (pr_script r)) (name_text (si_options (be_input b))) = Some os \<and> v \<in> set os"
    "si_type (be_input b) = ChoiceInput"
    using available_options_some [OF os(1)] v by blast+
qed

lemma legal_scripted: "legal_turn r b input opt \<Longrightarrow> scripted_input (pr_script r) b input"
  using available_option_some(2) [of r b] by (fastforce simp: legal_turn_def scripted_input_def split: option.splits)

lemma input_type_not [simp]: "t \<noteq> ChoiceInput \<longleftrightarrow> t = FixedInput" "t \<noteq> FixedInput \<longleftrightarrow> t = ChoiceInput"
  by (cases t; simp)+

text \<open>The phases of a registered turn.\<close>

fun turn_fits :: "program_run \<Rightarrow> job_phase \<Rightarrow> bool" where
  "turn_fits r (TurnCreated input opt) \<longleftrightarrow> pr_waiting_for r = WaitReply \<and> last_ok r \<and> legal_turn r (beat_now r) input opt"
| "turn_fits r (TurnDispatched b input opt turn_id) \<longleftrightarrow>
     pr_waiting_for r = WaitReply \<and> last_ok r \<and> b = beat_now r \<and> legal_turn r b input opt"
| "turn_fits r (TurnCommitting b opt rec) \<longleftrightarrow>
     pr_waiting_for r = WaitReply \<and> last_ok r \<and> b = beat_now r \<and> legal_turn r b (tu_input_text rec) opt \<and>
     tu_beat_id rec = be_id b \<and> tu_response_text rec \<noteq> []"
| "turn_fits r (JobEnded JobReturned) \<longleftrightarrow> True"
| "turn_fits r (JobEnded (JobRaised e)) \<longleftrightarrow> last_ok r"
| "turn_fits r phase \<longleftrightarrow> False"

definition job_fits :: "program_run \<Rightarrow> program_job \<Rightarrow> bool" where
  "job_fits r job \<longleftrightarrow>
     (if jb_is_turn job then live_state (pr_state r) \<and> turn_fits r (jb_phase job)
      else pr_state r = CompletedRun \<and> (case jb_phase job of JobArchives w \<Rightarrow> True | JobEnded result \<Rightarrow> True | _ \<Rightarrow> False))"

definition cancel_seen :: "job_phase \<Rightarrow> bool" where
  "cancel_seen phase \<longleftrightarrow> (case phase of JobCancelling t \<Rightarrow> True | JobEnded result \<Rightarrow> result = JobCancelled | _ \<Rightarrow> False)"

definition script_run_ok :: "string \<Rightarrow> program_run \<Rightarrow> bool" where
  "script_run_ok i r \<longleftrightarrow>
     pr_run_id r = i \<and> sound_script (pr_script r) \<and> pr_current_index r \<le> length (ps_beats (pr_script r)) \<and> turns_recorded r \<and>
     (pr_state r = CompletedRun \<longrightarrow> pr_current_index r = length (ps_beats (pr_script r))) \<and>
     (pr_waiting_for r = WaitError \<longrightarrow> last_ok r)"

text \<open>
  A live run has its room; a registered job fits its run, and nothing stops it; every other job has ended or
  has been cancelled by the one stop that waits for it, which keeps the run live.
\<close>

definition part_base ::
  "string \<Rightarrow> (int \<Rightarrow> string option) \<Rightarrow> program_run \<Rightarrow> nat option \<Rightarrow> (nat \<Rightarrow> program_job option) \<Rightarrow> stop_call list \<Rightarrow> bool" where
  "part_base i active r t jobs ws \<longleftrightarrow>
     script_run_ok i r \<and>
     (live_state (pr_state r) \<longrightarrow> active (pr_room_id r) = Some i) \<and>
     (\<forall>j. t = Some j \<longrightarrow> ws = [] \<and> (\<exists>job. jobs j = Some job \<and> job_fits r job)) \<and>
     (\<forall>j job. jobs j = Some job \<and> jb_phase job \<noteq> JobReaped \<longrightarrow>
        t = Some j \<or> cancel_seen (jb_phase job) \<and> (\<exists>c. ws = [c] \<and> sc_job c = Some j)) \<and>
     (\<forall>c\<in>set ws. ws = [c] \<and> live_state (pr_state r) \<and>
        (\<exists>j job. sc_job c = Some j \<and> jobs j = Some job \<and> (cancel_seen (jb_phase job) \<or> jb_phase job = JobReaped)))"

definition part_goes_on :: "program_run \<Rightarrow> nat option \<Rightarrow> stop_call list \<Rightarrow> bool" where
  "part_goes_on r t ws \<longleftrightarrow>
     (pr_state r = RunningRun \<and> t = None \<and> ws = [] \<longrightarrow>
        pr_waiting_for r = WaitChoice \<and> pr_current_index r < length (ps_beats (pr_script r)) \<and>
        si_type (be_input (beat_now r)) = ChoiceInput)"

definition part_ok :: "program_runner \<Rightarrow> string \<Rightarrow> bool" where
  "part_ok g i \<longleftrightarrow>
     (case dict_get (pg_runs g) i of
        None \<Rightarrow> dict_get (pg_tasks g) i = None \<and> job_of g i = (\<lambda>_. None) \<and> waiting_stops g i = []
      | Some r \<Rightarrow>
          part_base i (dict_get (pg_active_by_room g)) r (dict_get (pg_tasks g) i) (job_of g i) (waiting_stops g i) \<and>
          part_goes_on r (dict_get (pg_tasks g) i) (waiting_stops g i))"

definition runner_ok :: "program_runner \<Rightarrow> bool" where
  "runner_ok g \<longleftrightarrow> (\<forall>i. part_ok g i)"

text \<open>All is well but for the progress of one run.\<close>

definition almost_ok :: "string \<Rightarrow> program_run \<Rightarrow> program_runner \<Rightarrow> bool" where
  "almost_ok i r g \<longleftrightarrow>
     (\<forall>k. k \<noteq> i \<longrightarrow> part_ok g k) \<and> dict_get (pg_runs g) i = Some r \<and>
     part_base i (dict_get (pg_active_by_room g)) r (dict_get (pg_tasks g) i) (job_of g i) (waiting_stops g i)"

lemma almost_okI:
  "runner_ok g \<Longrightarrow> dict_get (pg_runs g) i = Some r \<Longrightarrow> almost_ok i r g"
  by (auto simp: runner_ok_def almost_ok_def part_ok_def split: option.splits dest: spec [of _ i])

lemma almost_ok_done:
  "almost_ok i r g \<Longrightarrow> part_goes_on r (dict_get (pg_tasks g) i) (waiting_stops g i) \<Longrightarrow> runner_ok g"
  unfolding runner_ok_def almost_ok_def part_ok_def by (metis (no_types, lifting) option.simps(5))

lemma runner_ok_goes_on:
  "runner_ok g \<Longrightarrow> dict_get (pg_runs g) i = Some r \<Longrightarrow> part_goes_on r (dict_get (pg_tasks g) i) (waiting_stops g i)"
  by (auto simp: runner_ok_def part_ok_def dest: spec [of _ i])

text \<open>A step that touches one run only.\<close>

lemma almost_ok_frame:
  assumes "almost_ok i r g" and "dict_get (pg_runs g') i = Some r'"
    and other: "\<And>k. k \<noteq> i \<Longrightarrow> dict_get (pg_runs g') k = dict_get (pg_runs g) k"
      "\<And>k. k \<noteq> i \<Longrightarrow> dict_get (pg_tasks g') k = dict_get (pg_tasks g) k"
      "\<And>k. k \<noteq> i \<Longrightarrow> job_of g' k = job_of g k" "\<And>k. k \<noteq> i \<Longrightarrow> waiting_stops g' k = waiting_stops g k"
    and rooms: "\<And>k room. k \<noteq> i \<Longrightarrow> dict_get (pg_active_by_room g) room = Some k \<Longrightarrow>
      dict_get (pg_active_by_room g') room = Some k"
    and part: "part_base i (dict_get (pg_active_by_room g')) r' (dict_get (pg_tasks g') i) (job_of g' i) (waiting_stops g' i)"
  shows "almost_ok i r' g'"
  unfolding almost_ok_def
proof (intro conjI allI impI assms(2) part)
  fix k assume k: "k \<noteq> i"
  have "part_ok g k" using assms(1) k by (simp add: almost_ok_def)
  then show "part_ok g' k"
    unfolding part_ok_def other [OF k] using rooms [OF k] by (cases "dict_get (pg_runs g) k") (auto simp: part_base_def)
qed

section \<open>The steps of the code\<close>

text \<open>What the small state changes do to the parts of a run.\<close>

lemma job_of_irrelevant [simp]:
  "job_of (g\<lparr>pg_runs := x\<rparr>) = job_of g" "job_of (g\<lparr>pg_active_by_room := y\<rparr>) = job_of g" "job_of (g\<lparr>pg_tasks := z\<rparr>) = job_of g"
  "job_of (g\<lparr>pg_receipts := u\<rparr>) = job_of g" "job_of (g\<lparr>pg_subscribed := b\<rparr>) = job_of g" "job_of (g\<lparr>pg_stops := v\<rparr>) = job_of g"
  "job_of (g\<lparr>pg_deleted := w\<rparr>) = job_of g" "job_of (g\<lparr>pg_forgotten := w\<rparr>) = job_of g"
  by (simp_all add: job_of_def fun_eq_iff)

lemma waiting_stops_irrelevant [simp]:
  "waiting_stops (g\<lparr>pg_runs := x\<rparr>) = waiting_stops g" "waiting_stops (g\<lparr>pg_active_by_room := y\<rparr>) = waiting_stops g"
  "waiting_stops (g\<lparr>pg_tasks := z\<rparr>) = waiting_stops g" "waiting_stops (g\<lparr>pg_receipts := u\<rparr>) = waiting_stops g"
  "waiting_stops (g\<lparr>pg_subscribed := b\<rparr>) = waiting_stops g" "waiting_stops (g\<lparr>pg_jobs := v\<rparr>) = waiting_stops g"
  "waiting_stops (g\<lparr>pg_deleted := w\<rparr>) = waiting_stops g" "waiting_stops (g\<lparr>pg_forgotten := w\<rparr>) = waiting_stops g"
  by (simp_all add: waiting_stops_def fun_eq_iff)

lemma with_run_views [simp]:
  "dict_get (pg_runs (with_run i r g)) k = (if k = i then Some r else dict_get (pg_runs g) k)"
  "pg_tasks (with_run i r g) = pg_tasks g" "pg_active_by_room (with_run i r g) = pg_active_by_room g"
  "pg_jobs (with_run i r g) = pg_jobs g" "pg_stops (with_run i r g) = pg_stops g" "pg_receipts (with_run i r g) = pg_receipts g"
  "job_of (with_run i r g) = job_of g" "waiting_stops (with_run i r g) = waiting_stops g"
  by (simp_all add: with_run_def dict_simps)

lemma drop_receipt_views [simp]:
  "pg_runs (drop_receipt t g) = pg_runs g" "pg_tasks (drop_receipt t g) = pg_tasks g"
  "pg_active_by_room (drop_receipt t g) = pg_active_by_room g" "pg_jobs (drop_receipt t g) = pg_jobs g"
  "pg_stops (drop_receipt t g) = pg_stops g" "job_of (drop_receipt t g) = job_of g" "waiting_stops (drop_receipt t g) = waiting_stops g"
  by (simp_all add: drop_receipt_def)

lemma set_phase_views [simp]:
  "pg_runs (set_phase j p g) = pg_runs g" "pg_tasks (set_phase j p g) = pg_tasks g"
  "pg_active_by_room (set_phase j p g) = pg_active_by_room g" "pg_stops (set_phase j p g) = pg_stops g"
  "waiting_stops (set_phase j p g) = waiting_stops g"
  by (simp_all add: set_phase_def)

lemma job_of_set_phase:
  "j < length (pg_jobs g) \<Longrightarrow> job_of (set_phase j p g) i =
   (if jb_run_id (pg_jobs g ! j) = i then (job_of g i)(j \<mapsto> (pg_jobs g ! j)\<lparr>jb_phase := p\<rparr>) else job_of g i)"
  by (rule ext) (auto simp: job_of_def set_phase_def nth_list_update)

lemma job_of_append [simp]:
  "job_of (g\<lparr>pg_jobs := pg_jobs g @ [job]\<rparr>) i =
   (if jb_run_id job = i then (job_of g i)(length (pg_jobs g) \<mapsto> job) else job_of g i)"
  by (rule ext) (auto simp: job_of_def nth_append)

lemma job_ofD: "job_of g i j = Some job \<Longrightarrow> j < length (pg_jobs g) \<and> jb_run_id job = i \<and> pg_jobs g ! j = job"
  by (auto simp: job_of_def split: if_splits)

text \<open>The registered job of a run, and a run without a task.\<close>

lemma registered:
  assumes "almost_ok i r g" "dict_get (pg_tasks g) i = Some j"
  shows "\<exists>job. job_of g i j = Some job \<and> job_fits r job" "waiting_stops g i = []"
  using assms by (auto simp: almost_ok_def part_base_def)

lemma unreaped:
  assumes "almost_ok i r g" "job_of g i j = Some job" "jb_phase job \<noteq> JobReaped" "\<not> cancel_seen (jb_phase job)"
  shows "dict_get (pg_tasks g) i = Some j" "job_fits r job" "waiting_stops g i = []"
proof -
  show t: "dict_get (pg_tasks g) i = Some j" using assms by (auto simp: almost_ok_def part_base_def)
  show "job_fits r job" "waiting_stops g i = []" using registered [OF assms(1) t] assms(2) by auto
qed

text \<open>The record of a run changes, and nothing else.\<close>

lemma almost_ok_with_run:
  assumes a: "almost_ok i r g" and r': "script_run_ok i r'" "pr_room_id r' = pr_room_id r"
    and live: "live_state (pr_state r') \<longrightarrow> live_state (pr_state r) \<or> dict_get (pg_active_by_room g) (pr_room_id r) = Some i"
    and keeps: "waiting_stops g i \<noteq> [] \<longrightarrow> live_state (pr_state r')"
    and fits: "\<And>j job. dict_get (pg_tasks g) i = Some j \<Longrightarrow> job_of g i j = Some job \<Longrightarrow> job_fits r job \<Longrightarrow> job_fits r' job"
  shows "almost_ok i r' (with_run i r' g)"
proof (rule almost_ok_frame [OF a])
  have base: "part_base i (dict_get (pg_active_by_room g)) r (dict_get (pg_tasks g) i) (job_of g i) (waiting_stops g i)"
    using a by (simp add: almost_ok_def)
  then show "part_base i (dict_get (pg_active_by_room (with_run i r' g))) r' (dict_get (pg_tasks (with_run i r' g)) i)
     (job_of (with_run i r' g) i) (waiting_stops (with_run i r' g) i)"
    using r' live keeps fits unfolding part_base_def with_run_views by (intro conjI) (auto | blast)+
qed simp_all

text \<open>A new job is registered for a run that has none.\<close>

lemma almost_ok_new_job:
  assumes a: "almost_ok i r g" and t: "dict_get (pg_tasks g) i = None" and ws: "waiting_stops g i = []"
    and fits: "job_fits r job" "jb_run_id job = i"
  shows "almost_ok i r (g\<lparr>pg_jobs := pg_jobs g @ [job], pg_tasks := dict_set i (length (pg_jobs g)) (pg_tasks g)\<rparr>)" (is "almost_ok i r ?g")
proof (rule almost_ok_frame [OF a])
  have new: "job_of ?g k = (if k = i then (job_of g i)(length (pg_jobs g) \<mapsto> job) else job_of g k)" for k
    using fits(2) job_of_append [of g job k] by (simp add: job_of_def fun_eq_iff)
  show "job_of ?g k = job_of g k" if "k \<noteq> i" for k using that new by simp
  have "part_base i (dict_get (pg_active_by_room g)) r None (job_of g i) []" using a t ws by (simp add: almost_ok_def)
  then show "part_base i (dict_get (pg_active_by_room ?g)) r (dict_get (pg_tasks ?g) i) (job_of ?g i) (waiting_stops ?g i)"
    unfolding new using fits(1) ws by (auto simp: part_base_def dict_simps waiting_stops_def)
qed (use a in \<open>simp_all add: almost_ok_def dict_simps waiting_stops_def\<close>)

lemma task_absent: "i \<in> fst ` set (pg_tasks g) \<longleftrightarrow> dict_get (pg_tasks g) i \<noteq> None"
  by (simp add: dict_get_None_keys)

lemma schedule_turn_views:
  "schedule_turn i input opt g = (g', Inr ()) \<Longrightarrow>
   dict_get (pg_tasks g) i = None \<and>
   g' = g\<lparr>pg_jobs := pg_jobs g @ [\<lparr>jb_run_id = i, jb_is_turn = True, jb_phase = TurnCreated input opt\<rparr>],
          pg_tasks := dict_set i (length (pg_jobs g)) (pg_tasks g)\<rparr>"
  by (auto simp: schedule_turn_def task_absent split: if_splits)

text \<open>A turn is scheduled.\<close>

lemma schedule_runner_ok:
  assumes a: "almost_ok i r g" and t: "dict_get (pg_tasks g) i = None" and ws: "waiting_stops g i = []"
    and r: "live_state (pr_state r)" "pr_waiting_for r = WaitReply" "last_ok r" "legal_turn r (beat_now r) input opt"
  shows "runner_ok (fst (schedule_turn i input opt g))" "snd (schedule_turn i input opt g) = Inr ()"
proof -
  let ?job = "\<lparr>jb_run_id = i, jb_is_turn = True, jb_phase = TurnCreated input opt\<rparr>"
  have s: "schedule_turn i input opt g = (g\<lparr>pg_jobs := pg_jobs g @ [?job], pg_tasks := dict_set i (length (pg_jobs g)) (pg_tasks g)\<rparr>, Inr ())"
    using t by (simp add: schedule_turn_def task_absent)
  have fits: "job_fits r ?job" using r by (simp add: job_fits_def)
  show "snd (schedule_turn i input opt g) = Inr ()" by (simp add: s)
  show "runner_ok (fst (schedule_turn i input opt g))"
    by (rule almost_ok_done [where i = i and r = r]) (simp_all add: s almost_ok_new_job [OF a t ws fits] part_goes_on_def dict_simps)
qed

text \<open>What changes neither the script nor the records, nor the place in them.\<close>

lemma script_run_ok_cong:
  assumes "script_run_ok i r" "pr_run_id r' = pr_run_id r" "pr_script r' = pr_script r" "pr_current_index r' = pr_current_index r"
    "pr_records r' = pr_records r" "pr_state r' = CompletedRun \<longrightarrow> pr_current_index r = length (ps_beats (pr_script r))"
    "pr_waiting_for r' = WaitError \<longrightarrow> last_ok r'"
  shows "script_run_ok i r'"
  using assms turns_recorded_cong [of r' r] by (simp add: script_run_ok_def)

text \<open>The next beat is prepared.\<close>

lemma prepare_runner_ok:
  assumes a: "almost_ok i r g" and ws: "waiting_stops g i = []"
  shows "runner_ok (prepare_current i g)"
proof (cases "pr_state r \<noteq> RunningRun \<or> dict_get (pg_tasks g) i \<noteq> None")
  case True
  have get: "dict_get (pg_runs g) i = Some r" using a by (simp add: almost_ok_def)
  then have "prepare_current i g = g" using True by (simp add: prepare_current_def task_absent)
  then show ?thesis using almost_ok_done [OF a] True by (auto simp: part_goes_on_def)
next
  case False
  then have running: "pr_state r = RunningRun" and t: "dict_get (pg_tasks g) i = None" by simp_all
  have get: "dict_get (pg_runs g) i = Some r" and ok: "script_run_ok i r" and mapped: "dict_get (pg_active_by_room g) (pr_room_id r) = Some i"
    using a running by (simp_all add: almost_ok_def part_base_def live_state_def)
  show ?thesis
  proof (cases "pr_current_index r < length (ps_beats (pr_script r))")
    case False
    define r1 where "r1 = r\<lparr>pr_state := CompletedRun, pr_waiting_for := WaitNone\<rparr>"
    let ?job = "\<lparr>jb_run_id = i, jb_is_turn = False, jb_phase = JobArchives ArchiveStart\<rparr>"
    define g1 where "g1 = (with_run i r1 g)\<lparr>pg_active_by_room := dict_del (pr_room_id r) (pg_active_by_room g)\<rparr>"
    have p: "prepare_current i g = g1\<lparr>pg_jobs := pg_jobs g1 @ [?job], pg_tasks := dict_set i (length (pg_jobs g1)) (pg_tasks g1)\<rparr>"
      using False get running t by (simp add: prepare_current_def task_absent current_beat_def r1_def g1_def with_run_def)
    have "script_run_ok i r1" using False ok by (intro script_run_ok_cong [OF ok]) (auto simp: r1_def script_run_ok_def)
    then have "almost_ok i r1 g1"
    proof (intro almost_ok_frame [OF a])
      have "part_base i (dict_get (pg_active_by_room g)) r None (job_of g i) []" using a t ws by (simp add: almost_ok_def)
      then show "part_base i (dict_get (pg_active_by_room g1)) r1 (dict_get (pg_tasks g1) i) (job_of g1 i) (waiting_stops g1 i)"
        using \<open>script_run_ok i r1\<close> t ws by (auto simp: part_base_def g1_def r1_def live_state_def)
    qed (use mapped in \<open>auto simp: g1_def dict_simps\<close>)
    then have "almost_ok i r1 (prepare_current i g)"
      unfolding p using t ws by (intro almost_ok_new_job) (simp_all add: g1_def job_fits_def r1_def)
    then show ?thesis by (rule almost_ok_done) (simp add: part_goes_on_def r1_def)
  next
    case True
    note index = this
    have mem: "beat_now r \<in> set (ps_beats (pr_script r))" using True by simp
    show ?thesis
    proof (cases "si_type (be_input (beat_now r)) = ChoiceInput")
      case True
      define r1 where "r1 = r\<lparr>pr_last_input := None, pr_last_option_id := None, pr_waiting_for := WaitChoice\<rparr>"
      have p: "prepare_current i g = with_run i r1 g"
        using True index get running t by (simp add: prepare_current_def task_absent current_beat_def r1_def)
      have "script_run_ok i r1" using running by (intro script_run_ok_cong [OF ok]) (simp_all add: r1_def)
      then have "almost_ok i r1 (with_run i r1 g)"
        using t ws running by (intro almost_ok_with_run [OF a]) (simp_all add: r1_def)
      then show ?thesis unfolding p
        by (rule almost_ok_done) (use True index in \<open>simp add: part_goes_on_def r1_def\<close>)
    next
      case False
      then have fixed: "si_type (be_input (beat_now r)) = FixedInput" by simp
      then have "given (si_text (be_input (beat_now r)))" using ok mem by (simp add: script_run_ok_def sound_script_def)
      then obtain said where said: "si_text (be_input (beat_now r)) = Some said"
        by (auto simp: given_def split: option.splits)
      define r1 where "r1 = r\<lparr>pr_last_input := Some said, pr_last_option_id := None, pr_waiting_for := WaitReply\<rparr>"
      have p: "prepare_current i g = fst (schedule_turn i said None (with_run i r1 g))"
        using fixed said index get running t by (simp add: prepare_current_def task_absent current_beat_def r1_def Let_def)
      have "script_run_ok i r1" using running by (intro script_run_ok_cong [OF ok]) (simp_all add: r1_def)
      then have "almost_ok i r1 (with_run i r1 g)"
        using t ws running by (intro almost_ok_with_run [OF a]) (simp_all add: r1_def)
      then show ?thesis unfolding p
        using t ws running fixed said index
        by (intro schedule_runner_ok(1) [where r = r1]) (simp_all add: r1_def live_state_def last_ok_def legal_turn_def)
    qed
  qed
qed

end
