(* ===== verification/Program_Runtime_Steps.thy ===== *)
theory Program_Runtime_Steps
  imports Program_Runtime_Inv
begin

text \<open>
  Every event that comes in order keeps the invariant of the program runner: commands, turns, the
  memory, ends of tasks and stops.
\<close>

section \<open>Commands\<close>

lemma runner_ok_same:
  assumes "runner_ok g" "pg_runs g' = pg_runs g" "pg_tasks g' = pg_tasks g" "pg_active_by_room g' = pg_active_by_room g"
    "job_of g' = job_of g" "waiting_stops g' = waiting_stops g"
  shows "runner_ok g'"
  using assms(1) unfolding runner_ok_def part_ok_def assms(2-6) .

lemma runner_okD:
  assumes "runner_ok g" "dict_get (pg_runs g) i = Some r"
  shows "script_run_ok i r" "live_state (pr_state r) \<Longrightarrow> dict_get (pg_active_by_room g) (pr_room_id r) = Some i"
    "part_goes_on r (dict_get (pg_tasks g) i) (waiting_stops g i)"
  using assms by (auto simp: runner_ok_def part_ok_def part_base_def dest: spec [of _ i])

lemma runner_ok_unmap:
  assumes ok: "runner_ok g"
    and dead: "\<And>k r. dict_get (pg_runs g) k = Some r \<Longrightarrow> live_state (pr_state r) \<Longrightarrow> dict_get (pg_active_by_room g) room \<noteq> Some k"
  shows "runner_ok (g\<lparr>pg_active_by_room := dict_del room (pg_active_by_room g)\<rparr>)"
  unfolding runner_ok_def
proof
  fix k
  have "part_ok g k" using ok by (simp add: runner_ok_def)
  moreover have "pr_room_id r \<noteq> room" if "dict_get (pg_runs g) k = Some r" "live_state (pr_state r)" for r
    using runner_okD(2) [OF ok that] dead [OF that] by auto
  ultimately show "part_ok (g\<lparr>pg_active_by_room := dict_del room (pg_active_by_room g)\<rparr>) k"
    by (cases "dict_get (pg_runs g) k") (auto simp: part_ok_def part_base_def dict_simps)
qed

lemma active_run_ok:
  assumes ok: "runner_ok g" and look: "active_run room g = (g', x)"
  shows "runner_ok g'" "pg_runs g' = pg_runs g" "x = None \<Longrightarrow> dict_get (pg_active_by_room g') room = None"
    "pg_tasks g' = pg_tasks g" "job_of g' = job_of g" "waiting_stops g' = waiting_stops g" "pg_jobs g' = pg_jobs g"
proof -
  consider "g' = g" "x = None \<longrightarrow> dict_get (pg_active_by_room g) room = None"
    | i where "dict_get (pg_active_by_room g) room = Some i" "\<And>r. dict_get (pg_runs g) i = Some r \<Longrightarrow> \<not> live_state (pr_state r)"
      "g' = g\<lparr>pg_active_by_room := dict_del room (pg_active_by_room g)\<rparr>"
  proof (cases "dict_get (pg_active_by_room g) room")
    case None
    then show thesis using look that(1) by (simp add: active_run_def)
  next
    case (Some i)
    show thesis
    proof (cases "\<exists>r. dict_get (pg_runs g) i = Some r \<and> live_state (pr_state r)")
      case True
      then obtain r where "dict_get (pg_runs g) i = Some r" "live_state (pr_state r)" by blast
      then have "g' = g \<and> x = Some r" using Some look by (simp add: active_run_def)
      then show thesis using that(1) by simp
    next
      case False
      then have "g' = g\<lparr>pg_active_by_room := dict_del room (pg_active_by_room g)\<rparr>"
        using Some look by (auto simp: active_run_def split: option.splits)
      then show thesis using that(2) [OF Some] False by blast
    qed
  qed
  then have "runner_ok g' \<and> pg_runs g' = pg_runs g \<and> (x = None \<longrightarrow> dict_get (pg_active_by_room g') room = None) \<and>
    pg_tasks g' = pg_tasks g \<and> job_of g' = job_of g \<and> waiting_stops g' = waiting_stops g \<and> pg_jobs g' = pg_jobs g"
  proof cases
    case 1
    then show ?thesis using ok by simp
  next
    case 2
    have "runner_ok g'" unfolding 2(3) using 2(1,2) by (intro runner_ok_unmap [OF ok]) auto
    then show ?thesis by (simp add: 2(3) dict_simps)
  qed
  then show "runner_ok g'" "pg_runs g' = pg_runs g" "x = None \<Longrightarrow> dict_get (pg_active_by_room g') room = None"
    "pg_tasks g' = pg_tasks g" "job_of g' = job_of g" "waiting_stops g' = waiting_stops g" "pg_jobs g' = pg_jobs g"
    by simp_all
qed

lemma start_runner_ok:
  assumes ok: "runner_ok g" and fresh: "dict_get (pg_runs g) i = None"
    and script: "\<And>p. published = Some p \<Longrightarrow> sound_script (pb_script p)"
  shows "runner_ok (fst (start_program i room creator room_state published g))"
proof -
  obtain g1 x where look: "active_run room g = (g1, x)" by force
  note A = active_run_ok [OF ok look]
  let ?r = "new_program_run i room creator"
  have start: "runner_ok (prepare_current i ((with_run i (?r p) g1)
      \<lparr>pg_active_by_room := dict_set room i (pg_active_by_room (with_run i (?r p) g1))\<rparr>))" (is "runner_ok (prepare_current i ?g)")
    if "x = None" "published = Some p" for p
  proof (rule prepare_runner_ok [where r = "?r p"])
    have part: "part_ok g1 i" using A(1) by (simp add: runner_ok_def)
    then have none: "dict_get (pg_tasks g1) i = None" "job_of g1 i = (\<lambda>_. None)" "waiting_stops g1 i = []"
      using fresh A(2) by (simp_all add: part_ok_def)
    then show "waiting_stops ?g i = []" by simp
    have "turns_recorded (?r p)" unfolding turns_recorded_def by (intro exI [of _ "[]"]) (simp add: new_program_run_def)
    then have run: "script_run_ok i (?r p)" using script [OF that(2)] by (simp add: script_run_ok_def new_program_run_def)
    show "almost_ok i (?r p) ?g"
      unfolding almost_ok_def
    proof (intro conjI allI impI)
      fix k assume k: "k \<noteq> i"
      have "part_ok g1 k" using A(1) by (simp add: runner_ok_def)
      moreover have "pr_room_id r \<noteq> room" if "dict_get (pg_runs g1) k = Some r" "live_state (pr_state r)" for r
        using runner_okD(2) [OF A(1) that] A(3) \<open>x = None\<close> by auto
      ultimately show "part_ok ?g k" using k
        by (cases "dict_get (pg_runs g1) k") (auto simp: part_ok_def part_base_def dict_simps)
    qed (use run none in \<open>simp_all add: part_base_def dict_simps, simp add: new_program_run_def\<close>)
  qed
  show ?thesis
    using A(1) start unfolding start_program_def look by (cases published; cases x) (auto simp: Let_def)
qed

lemma submit_runner_ok:
  assumes ok: "runner_ok g" and quiet: "waiting_stops g i = []"
  shows "runner_ok (fst (submit_choice i beat_id option_id creator g))"
proof (cases "owned_run i creator g")
  case (Inr r)
  then have get: "dict_get (pg_runs g) i = Some r" by (auto simp: owned_run_def split: option.splits if_splits)
  show ?thesis
  proof (cases "choice_submitted r beat_id option_id")
    case (Inr v)
    then have running: "pr_state r = RunningRun" and index: "pr_current_index r < length (ps_beats (pr_script r))"
      and opt: "available_option r (beat_now r) option_id = Inr v"
      by (auto simp: choice_submitted_def current_beat_def split: if_splits)
    note v = available_option_some [OF opt]
    define r1 where "r1 = r\<lparr>pr_last_input := Some (so_danmaku v), pr_last_option_id := Some (so_id v), pr_waiting_for := WaitReply\<rparr>"
    have same: "available_option r1 b k = available_option r b k" for b k by (rule available_option_cong) (simp_all add: r1_def)
    have beat: "beat_now r1 = beat_now r" by (simp add: r1_def)
    have last: "last_ok r1"
      using index v opt unfolding last_ok_def same beat by (auto simp: r1_def intro: exI [of _ v])
    have legal: "legal_turn r1 (beat_now r1) (so_danmaku v) (Some v)"
      using v opt unfolding legal_turn_def same beat by simp
    have "script_run_ok i r1"
      using runner_okD(1) [OF ok get] running by (intro script_run_ok_cong [where r = r and r' = r1]) (simp_all add: r1_def)
    moreover have "job_fits r1 job" if "job_fits r job" for job
    proof -
      have "legal_turn r1 b t opt = legal_turn r b t opt" for b t opt by (rule legal_turn_cong) (simp_all add: r1_def)
      then show ?thesis using that last running unfolding job_fits_def
        by (cases "jb_phase job" rule: job_phase.exhaust; cases "jb_is_turn job")
          (auto simp: r1_def live_state_def split: job_result.splits elim: turn_fits.elims)
    qed
    ultimately have a: "almost_ok i r1 (with_run i r1 g)"
      using running by (intro almost_ok_with_run [OF almost_okI [OF ok get]]) (simp_all add: r1_def live_state_def)
    have sub: "fst (submit_choice i beat_id option_id creator g) = fst (schedule_turn i (so_danmaku v) (Some v) (with_run i r1 g))"
      using \<open>owned_run i creator g = Inr r\<close> Inr by (simp add: submit_choice_def Let_def r1_def split: prod.splits sum.splits)
    show ?thesis
    proof (cases "dict_get (pg_tasks g) i")
      case None
      then show ?thesis unfolding sub using a quiet running last legal
        by (intro schedule_runner_ok(1) [where r = r1]) (simp_all add: r1_def live_state_def)
    next
      case (Some j)
      then have "fst (schedule_turn i (so_danmaku v) (Some v) (with_run i r1 g)) = with_run i r1 g"
        by (simp add: schedule_turn_def task_absent)
      then show ?thesis unfolding sub using almost_ok_done [OF a] Some by (simp add: part_goes_on_def)
    qed
  qed (use ok \<open>owned_run i creator g = Inr r\<close> in \<open>simp add: submit_choice_def\<close>)
qed (use ok in \<open>simp add: submit_choice_def\<close>)

text \<open>A change of state between running and paused keeps what fits the run.\<close>

lemma job_fits_state:
  assumes "job_fits r job" "live_state (pr_state r)" "live_state st"
    and "r' = r\<lparr>pr_state := st\<rparr>"
  shows "job_fits r' job"
proof -
  have "turn_fits r' phase = turn_fits r phase" for phase
    using legal_turn_cong [of r' r] last_ok_cong [of r' r] assms(4)
    by (cases "(r, phase)" rule: turn_fits.cases) simp_all
  then show ?thesis using assms by (auto simp: job_fits_def live_state_def)
qed

lemma pause_resume_ok:
  assumes ok: "runner_ok g" and get: "dict_get (pg_runs g) i = Some r" and live: "live_state (pr_state r)" "live_state st"
  shows "almost_ok i (r\<lparr>pr_state := st\<rparr>) (with_run i (r\<lparr>pr_state := st\<rparr>) g)"
proof (intro almost_ok_with_run [OF almost_okI [OF ok get]])
  have "last_ok (r\<lparr>pr_state := st\<rparr>) = last_ok r" by (rule last_ok_cong) simp_all
  then show "script_run_ok i (r\<lparr>pr_state := st\<rparr>)" using runner_okD(1) [OF ok get] live(2)
    by (intro script_run_ok_cong [OF runner_okD(1) [OF ok get]]) (auto simp: script_run_ok_def live_state_def)
qed (use live job_fits_state in auto)

lemma retry_runner_ok:
  assumes ok: "runner_ok g" and get: "dict_get (pg_runs g) i = Some r" and quiet: "waiting_stops g i = []"
    and waits: "pr_waiting_for r = WaitError" and mapped: "dict_get (pg_active_by_room g) (pr_room_id r) = Some i"
  shows "runner_ok (fst (retry_turn i r g))"
proof (cases "dict_get (pg_tasks g) i \<noteq> None \<or> pr_state r \<noteq> PausedRun \<and> pr_state r \<noteq> FailedRun")
  case True
  then have "fst (retry_turn i r g) = g" by (auto simp: retry_turn_def task_absent)
  then show ?thesis using ok by simp
next
  case False
  then have t: "dict_get (pg_tasks g) i = None" and st: "pr_state r = PausedRun \<or> pr_state r = FailedRun" by auto
  have run: "script_run_ok i r" and last: "last_ok r" using runner_okD(1) [OF ok get] waits by (simp_all add: script_run_ok_def)
  then have index: "pr_current_index r < length (ps_beats (pr_script r))" by (simp add: last_ok_def)
  define r1 where "r1 = r\<lparr>pr_state := RunningRun, pr_error := None\<rparr>"
  define r2 where "r2 = r1\<lparr>pr_waiting_for := WaitReply\<rparr>"
  have same1: "available_option r1 b k = available_option r b k" for b k by (rule available_option_cong) (simp_all add: r1_def)
  have same: "available_option r2 b k = available_option r b k" for b k by (rule available_option_cong) (simp_all add: r1_def r2_def)
  have last2: "last_ok r2" using last last_ok_cong [of r2 r] by (simp add: r1_def r2_def)
  have "beat_now r \<in> set (ps_beats (pr_script r))" using index by simp
  note sound = run [unfolded script_run_ok_def sound_script_def, THEN conjunct2, THEN conjunct1]
  have with2: "with_run i r2 (with_run i r1 g) = with_run i r2 g" by (simp add: with_run_def)
  have "script_run_ok i r2" by (intro script_run_ok_cong [OF run]) (simp_all add: r1_def r2_def)
  then have a: "almost_ok i r2 (with_run i r2 g)"
    using mapped t by (intro almost_ok_with_run [OF almost_okI [OF ok get]]) (simp_all add: r1_def r2_def quiet)
  have "\<exists>input opt. legal_turn r2 (beat_now r2) input opt \<and>
      fst (retry_turn i r g) = fst (schedule_turn i input opt (with_run i r2 g))"
  proof (cases "si_type (be_input (beat_now r)) = FixedInput")
    case True
    then obtain said where said: "si_text (be_input (beat_now r)) = Some said" "said \<noteq> []"
      using sound \<open>beat_now r \<in> _\<close> by (force simp: given_def split: option.splits)
    then have "pr_last_input r = Some said" using last True by (simp add: last_ok_def)
    then have "fst (retry_turn i r g) = fst (schedule_turn i said None (with_run i r2 g))"
      using t st index True said with2
      by (auto simp: retry_turn_def task_absent current_beat_def r1_def [symmetric] r2_def Let_def given_def)
        (simp_all add: r1_def current_beat_def)
    moreover have "legal_turn r2 (beat_now r2) said None" using True said by (simp add: legal_turn_def r1_def r2_def)
    ultimately show ?thesis by blast
  next
    case False
    then obtain v where v: "pr_last_input r = Some (so_danmaku v)" "pr_last_option_id r = Some (so_id v)"
      "available_option r (beat_now r) (so_id v) = Inr v"
      using last by (auto simp: last_ok_def)
    obtain os where os: "dict_get (ps_option_sets (pr_script r)) (name_text (si_options (be_input (beat_now r)))) = Some os" "v \<in> set os"
      using available_option_some(2) [OF v(3)] by blast
    then have ne: "so_danmaku v \<noteq> []" "so_id v \<noteq> []" using sound by blast+
    have "available_option r1 (beat_now r) (so_id v) = Inr v" using v(3) same1 by simp
    then have "fst (retry_turn i r g) = fst (schedule_turn i (so_danmaku v) (Some v) (with_run i r2 g))"
      using t st index False v(1,2) ne with2
      by (auto simp: retry_turn_def task_absent current_beat_def r1_def [symmetric] r2_def Let_def given_def)
        (simp_all add: r1_def current_beat_def)
    moreover have "legal_turn r2 (beat_now r2) (so_danmaku v) (Some v)" using False v(3) same
      by (simp add: legal_turn_def r1_def r2_def)
    ultimately show ?thesis by blast
  qed
  then obtain input opt where sched: "legal_turn r2 (beat_now r2) input opt"
    "fst (retry_turn i r g) = fst (schedule_turn i input opt (with_run i r2 g))" by blast
  show ?thesis unfolding sched(2) using t quiet last2 sched(1)
    by (intro schedule_runner_ok(1) [OF a]) (simp_all add: r1_def r2_def live_state_def)
qed

section \<open>Stops\<close>

text \<open>A live run without a task is stopped at once, and one whose stop has waited.\<close>

lemma halt_almost_ok:
  assumes a: "almost_ok i r g" and live: "live_state (pr_state r)" and t: "dict_get (pg_tasks g) i = None"
    and reaped: "\<And>j job. job_of g i j = Some job \<Longrightarrow> jb_phase job = JobReaped"
    and same: "pg_runs g' = pg_runs (halt_run i g)" "pg_tasks g' = pg_tasks g" "job_of g' = job_of g"
      "pg_active_by_room g' = pg_active_by_room (halt_run i g)" "waiting_stops g' i = []"
      "\<And>k. k \<noteq> i \<Longrightarrow> waiting_stops g' k = waiting_stops g k"
  shows "runner_ok g'"
proof -
  let ?r = "r\<lparr>pr_state := StoppedRun, pr_waiting_for := WaitNone\<rparr>"
  have get: "dict_get (pg_runs g) i = Some r" and ok: "script_run_ok i r" and mapped: "dict_get (pg_active_by_room g) (pr_room_id r) = Some i"
    using a live by (simp_all add: almost_ok_def part_base_def)
  have runs: "pg_runs g' = pg_runs (with_run i ?r g)" and rooms: "pg_active_by_room g' = dict_del (pr_room_id r) (pg_active_by_room g)"
    using same(1,4) get by (simp_all add: halt_run_def)
  have "script_run_ok i ?r" by (intro script_run_ok_cong [OF ok]) simp_all
  then have "almost_ok i ?r g'"
    using t reaped mapped unfolding runs rooms same(2,3,5)
    by (intro almost_ok_frame [OF a]) (auto simp: runs rooms same part_base_def live_state_def dict_simps)
  then show ?thesis by (rule almost_ok_done) (simp add: part_goes_on_def)
qed

lemma begin_stop_run_ok:
  assumes ok: "runner_ok g" and stop: "orderly_stop g i"
  shows "runner_ok (begin_stop_run i g)"
proof -
  obtain r where get: "dict_get (pg_runs g) i = Some r" and live: "live_state (pr_state r)"
    using stop by (auto simp: orderly_stop_def)
  have ws: "waiting_stops g i = []" using stop by (simp add: orderly_stop_def being_stopped_waiting)
  note a = almost_okI [OF ok get]
  show ?thesis
  proof (cases "dict_get (pg_tasks g) i")
    case None
    have reaped: "jb_phase job = JobReaped" if "job_of g i j = Some job" for j job
      using a that None ws by (auto simp: almost_ok_def part_base_def)
    let ?c = "\<lparr>sc_run_id = i, sc_job = None, sc_work = Some ArchiveStart\<rparr>"
    have stop: "begin_stop_run i g = (halt_run i g)\<lparr>pg_stops := pg_stops g @ [?c]\<rparr>" using None by (simp add: begin_stop_run_def)
    show ?thesis
    proof (rule halt_almost_ok [OF a live None reaped])
      show "waiting_stops (begin_stop_run i g) k = waiting_stops g k" for k
        by (simp add: stop waiting_stops_def)
      then show "waiting_stops (begin_stop_run i g) i = []" using ws by simp
      show "job_of (begin_stop_run i g) = job_of g" "pg_tasks (begin_stop_run i g) = pg_tasks g" 
        using get by (simp_all add: stop halt_run_def)
    qed (simp_all add: stop)
  next
    case (Some j)
    obtain job where job: "job_of g i j = Some job" "job_fits r job" using registered(1) [OF a Some] by blast
    have j: "j < length (pg_jobs g)" "jb_run_id (pg_jobs g ! j) = i" "pg_jobs g ! j = job" using job_ofD [OF job(1)] by auto
    have "jb_is_turn job" using job(2) live by (auto simp: job_fits_def live_state_def split: if_splits)
    then have fits: "turn_fits r (jb_phase job)" using job(2) by (simp add: job_fits_def)
    have "jb_phase job \<noteq> JobEnded result" for result using stop Some j(3) by (auto simp: orderly_stop_def)
    then have cancelled: "cancel_seen (cancelled_phase (jb_phase job))"
      using fits by (cases "(r, jb_phase job)" rule: turn_fits.cases) (simp_all add: cancelled_phase_def cancel_seen_def)
    let ?c = "\<lparr>sc_run_id = i, sc_job = Some j, sc_work = None\<rparr>"
    let ?job = "job\<lparr>jb_phase := cancelled_phase (jb_phase job)\<rparr>"
    define g' where "g' = begin_stop_run i g"
    have g': "g' = (set_phase j (cancelled_phase (jb_phase job)) g)\<lparr>pg_tasks := dict_del i (pg_tasks g), pg_stops := pg_stops g @ [?c]\<rparr>"
      using Some j by (simp add: begin_stop_run_def g'_def)
    have jobs: "job_of g' k = (if k = i then (job_of g i)(j \<mapsto> ?job) else job_of g k)" for k
      using j by (auto simp: g' job_of_set_phase)
    have stops: "waiting_stops g' k = (if k = i then [?c] else waiting_stops g k)" for k
      using ws by (simp add: g' waiting_stops_def)
    have base: "part_base i (dict_get (pg_active_by_room g)) r (Some j) (job_of g i) []" using a Some ws by (simp add: almost_ok_def)
    have "almost_ok i r g'"
    proof (rule almost_ok_frame [OF a])
      show "part_base i (dict_get (pg_active_by_room g')) r (dict_get (pg_tasks g') i) (job_of g' i) (waiting_stops g' i)"
        unfolding jobs stops using base cancelled live by (auto simp: g' part_base_def dict_simps)
    qed (use get jobs stops in \<open>simp_all add: g' dict_simps\<close>)
    then show ?thesis unfolding g'_def [symmetric] by (rule almost_ok_done) (simp add: stops part_goes_on_def)
  qed
qed

lemma waiting_stops_update:
  assumes "k < length (pg_stops g)" "sc_run_id c' = sc_run_id (pg_stops g ! k)"
    and "sc_run_id (pg_stops g ! k) \<noteq> i \<or> (sc_work (pg_stops g ! k) \<noteq> None \<and> sc_work c' \<noteq> None)"
  shows "waiting_stops (g\<lparr>pg_stops := (pg_stops g)[k := c']\<rparr>) i = waiting_stops g i"
proof -
  let ?P = "\<lambda>c. sc_run_id c = i \<and> sc_work c = None"
  obtain before after where "filter ?P (pg_stops g) = before @ filter ?P [pg_stops g ! k] @ after"
    "filter ?P ((pg_stops g)[k := c']) = before @ filter ?P [c'] @ after"
    using filter_update [OF assms(1)] by blast
  then show ?thesis using assms(2,3) by (auto simp: waiting_stops_def)
qed

lemma resume_stop_ok:
  assumes ok: "runner_ok g" and resume: "resume_stop k g = Some g'"
  shows "runner_ok g'"
proof -
  define c where "c = pg_stops g ! k"
  obtain j where k: "k < length (pg_stops g)" and c: "sc_job c = Some j" "sc_work c = None" "jb_phase (pg_jobs g ! j) = JobReaped"
    and g': "g' = (halt_run (sc_run_id c) g)\<lparr>pg_stops := (pg_stops g)[k := c\<lparr>sc_work := Some ArchiveStart\<rparr>]\<rparr>"
    using resume by (auto simp: resume_stop_def Let_def c_def split: option.splits if_splits)
  define i where "i = sc_run_id c"
  have mem: "c \<in> set (waiting_stops g i)" using k c by (auto simp: waiting_stops_def c_def i_def)
  have "dict_get (pg_runs g) i \<noteq> None"
    using ok mem by (auto simp: runner_ok_def part_ok_def dest!: spec [of _ i] split: option.splits)
  then obtain r where get: "dict_get (pg_runs g) i = Some r" by blast
  note a = almost_okI [OF ok get]
  have base: "part_base i (dict_get (pg_active_by_room g)) r (dict_get (pg_tasks g) i) (job_of g i) (waiting_stops g i)"
    using a by (simp add: almost_ok_def)
  have ws: "waiting_stops g i = [c]" and live: "live_state (pr_state r)" using base mem by (auto simp: part_base_def)
  have t: "dict_get (pg_tasks g) i = None" using base ws by (cases "dict_get (pg_tasks g) i") (auto simp: part_base_def)
  have reaped: "jb_phase job = JobReaped" if "job_of g i m = Some job" for m job
    using base that t ws c(1,3) job_ofD [OF that] by (auto simp: part_base_def)
  let ?P = "\<lambda>c. sc_run_id c = i \<and> sc_work c = None"
  obtain before after where f: "filter ?P (pg_stops g) = before @ filter ?P [pg_stops g ! k] @ after"
    "filter ?P ((pg_stops g)[k := c\<lparr>sc_work := Some ArchiveStart\<rparr>]) = before @ filter ?P [c\<lparr>sc_work := Some ArchiveStart\<rparr>] @ after"
    using filter_update [OF k] by blast
  have "before = [] \<and> after = []" using f(1) ws c by (auto simp: waiting_stops_def c_def i_def append_eq_Cons_conv)
  then have none: "waiting_stops g' i = []" using f(2) by (simp add: g' waiting_stops_def)
  show ?thesis
  proof (rule halt_almost_ok [OF a live t reaped])
    show "waiting_stops g' m = waiting_stops g m" if "m \<noteq> i" for m
      using waiting_stops_update [OF k, of "c\<lparr>sc_work := Some ArchiveStart\<rparr>" m] that c_def i_def
      by (simp add: g' waiting_stops_def)
  qed (use get none in \<open>simp_all add: g' i_def halt_run_def\<close>)
qed

lemma owned_run_get: "owned_run i creator g = Inr r \<Longrightarrow> dict_get (pg_runs g) i = Some r"
  by (auto simp: owned_run_def split: option.splits if_splits)

lemma control_runner_ok:
  assumes ok: "runner_ok g" and order: "orderly_event (CommandComes (ControlRun i action creator)) g"
  shows "runner_ok (fst (control_run i action creator g))"
proof (cases "owned_run i creator g")
  case (Inl e)
  then show ?thesis using ok by (simp add: control_run_def)
next
  case (Inr r)
  note get = owned_run_get [OF Inr]
  have quiet: "waiting_stops g i = []" using order by (simp add: being_stopped_waiting)
  consider "action = ''pause''" | "action = ''resume''" | "action = ''retry''" | "action = ''stop''"
    | "action \<notin> {''pause'', ''resume'', ''retry'', ''stop''}" by blast
  then show ?thesis
  proof cases
    case 1
    have "runner_ok (with_run i (r\<lparr>pr_state := PausedRun\<rparr>) g)" if "pr_state r = RunningRun"
      using pause_resume_ok [OF ok get, of PausedRun] that
      by (intro almost_ok_done [where i = i and r = "r\<lparr>pr_state := PausedRun\<rparr>"]) (simp_all add: live_state_def part_goes_on_def)
    then show ?thesis using 1 ok Inr by (simp add: control_run_def Let_def)
  next
    case 2
    show ?thesis
    proof (cases "pr_state r = PausedRun")
      case True
      let ?r = "r\<lparr>pr_state := RunningRun\<rparr>"
      have a: "almost_ok i ?r (with_run i ?r g)" using pause_resume_ok [OF ok get, of RunningRun] True by (simp add: live_state_def)
      have "runner_ok (prepare_current i (with_run i ?r g))" using quiet by (intro prepare_runner_ok [OF a]) simp
      moreover have "runner_ok (with_run i ?r g)" if "dict_get (pg_tasks g) i \<noteq> None"
        using that by (intro almost_ok_done [OF a]) (auto simp: part_goes_on_def)
      ultimately show ?thesis using 2 True Inr by (simp add: control_run_def Let_def task_absent)
    next
      case False
      then show ?thesis using 2 ok Inr by (simp add: control_run_def Let_def)
    qed
  next
    case 3
    then have "pr_waiting_for r = WaitError" "dict_get (pg_active_by_room g) (pr_room_id r) = Some i" using order get by simp_all
    then have "runner_ok (fst (retry_turn i r g))" by (rule retry_runner_ok [OF ok get quiet])
    moreover obtain g1 x where "retry_turn i r g = (g1, x)" by force
    ultimately show ?thesis using 3 Inr by (cases x) (simp_all add: control_run_def Let_def)
  next
    case 4
    then show ?thesis using begin_stop_run_ok [OF ok] order Inr by (simp add: control_run_def Let_def)
  next
    case 5
    then show ?thesis using ok Inr by (simp add: control_run_def Let_def)
  qed
qed

lemma shutdown_runner_ok:
  assumes ok: "runner_ok g" and order: "orderly_event (ShutdownGoes ids) g"
  shows "runner_ok (fst (shutdown_next ids g))"
proof -
  have "runner_ok (g\<lparr>pg_subscribed := False\<rparr>)" by (rule runner_ok_same [OF ok]) simp_all
  moreover define rest where
    "rest = dropWhile (\<lambda>i. case dict_get (pg_runs g) i of None \<Rightarrow> True | Some r \<Rightarrow> \<not> live_state (pr_state r)) ids"
  ultimately show ?thesis
    using order begin_stop_run_ok [OF ok] unfolding shutdown_next_def orderly_event.simps rest_def [symmetric] by (cases rest) simp_all
qed

section \<open>Archives\<close>

lemma archive_step_ok:
  assumes ok: "runner_ok g" and step: "archive_step i w g = (g', w')"
  shows "runner_ok g'" "pg_tasks g' = pg_tasks g" "job_of g' = job_of g" "waiting_stops g' = waiting_stops g"
    "pg_jobs g' = pg_jobs g" "pg_stops g' = pg_stops g"
    "\<And>r. dict_get (pg_runs g') i = Some r \<Longrightarrow> \<exists>q. dict_get (pg_runs g) i = Some q \<and> pr_state r = pr_state q"
proof -
  have same: "runner_ok (g\<lparr>pg_deleted := x\<rparr>)" "runner_ok (g\<lparr>pg_forgotten := x\<rparr>)" for x
    by (rule runner_ok_same [OF ok]; simp)+
  have thread: "runner_ok (with_run i (r\<lparr>pr_checkpoint_threads := ts\<rparr>) g)" if get: "dict_get (pg_runs g) i = Some r" for r ts
  proof -
    let ?r = "r\<lparr>pr_checkpoint_threads := ts\<rparr>"
    have keeps: "legal_turn ?r b t opt = legal_turn r b t opt" "last_ok ?r = last_ok r" for b t opt
      by (rule legal_turn_cong last_ok_cong; simp)+
    have "turn_fits ?r phase = turn_fits r phase" for phase
      using keeps by (cases "(r, phase)" rule: turn_fits.cases) simp_all
    then have fits: "job_fits ?r job = job_fits r job" for job by (simp add: job_fits_def)
    have "script_run_ok i ?r" using runner_okD(1) [OF ok get]
      by (intro script_run_ok_cong [OF runner_okD(1) [OF ok get]]) (auto simp: keeps script_run_ok_def)
    moreover have "waiting_stops g i \<noteq> [] \<longrightarrow> live_state (pr_state r)"
      using almost_okI [OF ok get] unfolding almost_ok_def part_base_def by (metis list.set_intros(1) neq_Nil_conv)
    ultimately have "almost_ok i ?r (with_run i ?r g)"
      by (intro almost_ok_with_run [OF almost_okI [OF ok get]]) (simp_all add: fits)
    then show ?thesis by (rule almost_ok_done) (use runner_okD(3) [OF ok get] in \<open>simp add: part_goes_on_def\<close>)
  qed
  have "runner_ok g' \<and> pg_tasks g' = pg_tasks g \<and> job_of g' = job_of g \<and> waiting_stops g' = waiting_stops g \<and> pg_jobs g' = pg_jobs g \<and>
    pg_stops g' = pg_stops g \<and> (\<forall>r. dict_get (pg_runs g') i = Some r \<longrightarrow> (\<exists>q. dict_get (pg_runs g) i = Some q \<and> pr_state r = pr_state q))"
    using step ok same thread
    by (cases "dict_get (pg_runs g) i") (auto simp: archive_step_def Let_def split: archive_work.splits list.splits if_splits)
  then show "runner_ok g'" "pg_tasks g' = pg_tasks g" "job_of g' = job_of g" "waiting_stops g' = waiting_stops g"
    "pg_jobs g' = pg_jobs g" "pg_stops g' = pg_stops g"
    "\<And>r. dict_get (pg_runs g') i = Some r \<Longrightarrow> \<exists>q. dict_get (pg_runs g) i = Some q \<and> pr_state r = pr_state q"
    by simp_all
qed

lemma stop_archives_ok:
  assumes ok: "runner_ok g" and step: "stop_archives k fails g = Some g'"
  shows "runner_ok g'"
proof -
  define c where "c = pg_stops g ! k"
  obtain w g1 w1 where k: "k < length (pg_stops g)" and c: "sc_work c = Some w" and g1: "archive_step (sc_run_id c) w g = (g1, w1)"
    and g': "\<exists>w2. g' = g1\<lparr>pg_stops := (pg_stops g)[k := c\<lparr>sc_work := Some w2\<rparr>]\<rparr>"
    using step by (auto simp: stop_archives_def Let_def c_def split: option.splits if_splits prod.splits)
  note A = archive_step_ok [OF ok g1]
  obtain w2 where g': "g' = g1\<lparr>pg_stops := (pg_stops g1)[k := c\<lparr>sc_work := Some w2\<rparr>]\<rparr>" using g' A(6) by auto
  have "waiting_stops g' i = waiting_stops g1 i" for i
    unfolding g' using k c A(6) by (intro waiting_stops_update) (simp_all add: c_def)
  then show ?thesis by (intro runner_ok_same [OF A(1)]) (simp_all add: g' fun_eq_iff)
qed

section \<open>Turns\<close>

text \<open>A job belongs to a run.\<close>

lemma job_run:
  assumes "runner_ok g" "j < length (pg_jobs g)"
  obtains r where "dict_get (pg_runs g) (jb_run_id (pg_jobs g ! j)) = Some r"
    "job_of g (jb_run_id (pg_jobs g ! j)) j = Some (pg_jobs g ! j)"
proof -
  let ?i = "jb_run_id (pg_jobs g ! j)"
  have job: "job_of g ?i j = Some (pg_jobs g ! j)" using assms(2) by (simp add: job_of_def)
  moreover have "part_ok g ?i" using assms(1) by (simp add: runner_ok_def)
  ultimately have "dict_get (pg_runs g) ?i \<noteq> None" by (cases "dict_get (pg_runs g) ?i") (simp_all add: part_ok_def)
  then show thesis using that job by blast
qed

text \<open>The registered job of a run goes on, and changes its record.\<close>

lemma job_step_ok:
  assumes ok: "runner_ok g" and get: "dict_get (pg_runs g) i = Some r"
    and job: "job_of g i j = Some job" "dict_get (pg_tasks g) i = Some j"
    and run: "script_run_ok i r'" "pr_room_id r' = pr_room_id r" "live_state (pr_state r') \<longrightarrow> live_state (pr_state r)"
    and fits: "job_fits r' (job\<lparr>jb_phase := p\<rparr>)"
    and views: "pg_runs g' = pg_runs (with_run i r' g)" "pg_tasks g' = pg_tasks g" "pg_active_by_room g' = pg_active_by_room g"
      "job_of g' = job_of (set_phase j p g)" "waiting_stops g' = waiting_stops g"
  shows "runner_ok g'"
proof -
  note a = almost_okI [OF ok get]
  have j: "j < length (pg_jobs g)" "jb_run_id (pg_jobs g ! j) = i" "pg_jobs g ! j = job" using job_ofD [OF job(1)] by auto
  have jobs: "job_of g' k = (if k = i then (job_of g i)(j \<mapsto> job\<lparr>jb_phase := p\<rparr>) else job_of g k)" for k
    using j by (auto simp: views(4) job_of_set_phase)
  have base: "part_base i (dict_get (pg_active_by_room g)) r (Some j) (job_of g i) []"
    using a job(2) registered(2) [OF a job(2)] by (simp add: almost_ok_def)
  have "almost_ok i r' g'"
  proof (rule almost_ok_frame [OF a])
    show "part_base i (dict_get (pg_active_by_room g')) r' (dict_get (pg_tasks g') i) (job_of g' i) (waiting_stops g' i)"
      unfolding jobs views(2,3,5) job(2) registered(2) [OF a job(2)]
      using base run fits by (auto simp: part_base_def)
  qed (simp_all add: views(1-3,5) jobs)
  then show ?thesis by (rule almost_ok_done) (simp add: views(2) job(2) part_goes_on_def)
qed

lemma begin_turn_ok:
  assumes ok: "runner_ok g" and step: "begin_turn j turn_id g = Some g'"
  shows "runner_ok g'"
proof -
  define i where "i = jb_run_id (pg_jobs g ! j)"
  have j: "j < length (pg_jobs g)" using step by (simp add: begin_turn_def split: if_splits)
  obtain r where get: "dict_get (pg_runs g) i = Some r" and job: "job_of g i j = Some (pg_jobs g ! j)"
    using job_run [OF ok j] unfolding i_def by blast
  obtain input opt where phase: "jb_phase (pg_jobs g ! j) = TurnCreated input opt"
    using step j by (auto simp: begin_turn_def split: job_phase.splits option.splits)
  note a = almost_okI [OF ok get]
  note un = unreaped [OF a job] 
  have t: "dict_get (pg_tasks g) i = Some j" and fits: "job_fits r (pg_jobs g ! j)" using un phase by (simp_all add: cancel_seen_def)
  then have turn: "jb_is_turn (pg_jobs g ! j)" "live_state (pr_state r)" "pr_waiting_for r = WaitReply" "last_ok r"
    "legal_turn r (beat_now r) input opt"
    using phase by (auto simp: job_fits_def split: if_splits)
  then have index: "current_beat r = Inr (beat_now r)" by (simp add: current_beat_def last_ok_def)
  define r1 where "r1 = r\<lparr>pr_checkpoint_threads :=
      (if checkpoint_thread (pr_run_id r) (beat_now r) \<in> set (pr_checkpoint_threads r) then pr_checkpoint_threads r
       else pr_checkpoint_threads r @ [checkpoint_thread (pr_run_id r) (beat_now r)])\<rparr>"
  have legal1: "legal_turn r1 b x opt = legal_turn r b x opt" for b x opt by (rule legal_turn_cong) (simp_all add: r1_def)
  have last1: "last_ok r1 = last_ok r" by (rule last_ok_cong) (simp_all add: r1_def)
  have run: "script_run_ok i r1" using runner_okD(1) [OF ok get] turn(3)
    by (intro script_run_ok_cong [OF runner_okD(1) [OF ok get]]) (simp_all add: r1_def script_run_ok_def)
  have new: "job_fits r1 ((pg_jobs g ! j)\<lparr>jb_phase := TurnDispatched (beat_now r) input opt turn_id\<rparr>)"
    using turn last1 legal1 by (simp add: job_fits_def) (simp add: r1_def)
  have g': "g' = set_phase j (TurnDispatched (beat_now r) input opt turn_id)
      (if be_memory (beat_now r) = WriteMemory
       then (with_run i r1 g)\<lparr>pg_receipts := dict_set turn_id None (pg_receipts (with_run i r1 g))\<rparr> else with_run i r1 g)"
    using step j phase get index 
    by (cases "be_memory (beat_now r) = WriteMemory"; cases "checkpoint_thread (pr_run_id r) (beat_now r) \<in> set (pr_checkpoint_threads r)")
      (simp_all add: begin_turn_def Let_def i_def [symmetric] r1_def)
  have "job_of g' k = job_of (set_phase j (TurnDispatched (beat_now r) input opt turn_id) g) k" for k
    using j by (simp add: g' job_of_set_phase)
  then show ?thesis using run turn new
    by (intro job_step_ok [OF ok get job t, where r' = r1 and p = "TurnDispatched (beat_now r) input opt turn_id"])
      (auto simp: g' r1_def fun_eq_iff)
qed

text \<open>A beat is answered.\<close>

lemma turns_recorded_more:
  assumes rec: "turns_recorded r" and index: "pr_current_index r < length (ps_beats (pr_script r))"
    and fits: "tu_beat_id rec = be_id (beat_now r)" "tu_response_text rec \<noteq> []" "scripted_input (pr_script r) (beat_now r) (tu_input_text rec)"
    and r': "pr_script r' = pr_script r" "pr_records r' = pr_records r @ [rec]"
      "pr_current_index r' = pr_current_index r \<or> pr_current_index r' = Suc (pr_current_index r)"
  shows "turns_recorded r'"
proof -
  obtain ks where ks: "sorted ks" "{..<pr_current_index r} \<subseteq> set ks"
    "\<forall>k\<in>set ks. k \<le> pr_current_index r \<and> k < length (ps_beats (pr_script r))"
    "list_all2 (\<lambda>k rec. tu_beat_id rec = be_id (ps_beats (pr_script r) ! k) \<and> tu_response_text rec \<noteq> [] \<and>
        scripted_input (pr_script r) (ps_beats (pr_script r) ! k) (tu_input_text rec)) ks (pr_records r)"
    using rec unfolding turns_recorded_def by blast
  show ?thesis unfolding turns_recorded_def
  proof (intro exI [of _ "ks @ [pr_current_index r]"] conjI)
    show "sorted (ks @ [pr_current_index r])" using ks(1,3) by (simp add: sorted_append)
    show "{..<pr_current_index r'} \<subseteq> set (ks @ [pr_current_index r])" using ks(2) r'(3) by (auto simp: less_Suc_eq)
    show "\<forall>k\<in>set (ks @ [pr_current_index r]). k \<le> pr_current_index r' \<and> k < length (ps_beats (pr_script r'))"
      using ks(3) r'(1,3) index by auto
  qed (use ks(4) fits r'(1,2) in \<open>simp add: list_all2_appendI\<close>)
qed

text \<open>The registered turn ends: its beat is answered, or it pauses with an error, with a record or without.\<close>

lemma turn_registered:
  assumes ok: "runner_ok g" and j: "j < length (pg_jobs g)"
    and phase: "(\<exists>b input opt t. jb_phase (pg_jobs g ! j) = TurnDispatched b input opt t) \<or> (\<exists>b opt rec. jb_phase (pg_jobs g ! j) = TurnCommitting b opt rec)"
  obtains r where "dict_get (pg_runs g) (jb_run_id (pg_jobs g ! j)) = Some r"
    "job_of g (jb_run_id (pg_jobs g ! j)) j = Some (pg_jobs g ! j)" "dict_get (pg_tasks g) (jb_run_id (pg_jobs g ! j)) = Some j"
    "jb_is_turn (pg_jobs g ! j)" "live_state (pr_state r)" "turn_fits r (jb_phase (pg_jobs g ! j))" "script_run_ok (jb_run_id (pg_jobs g ! j)) r"
proof -
  obtain r where r: "dict_get (pg_runs g) (jb_run_id (pg_jobs g ! j)) = Some r"
    "job_of g (jb_run_id (pg_jobs g ! j)) j = Some (pg_jobs g ! j)" using job_run [OF ok j] by blast
  note un = unreaped [OF almost_okI [OF ok r(1)] r(2)]
  have "dict_get (pg_tasks g) (jb_run_id (pg_jobs g ! j)) = Some j" "job_fits r (pg_jobs g ! j)"
    using un phase by (auto simp: cancel_seen_def)
  then show thesis using that [OF r] runner_okD(1) [OF ok r(1)] phase by (auto simp: job_fits_def split: if_splits)
qed

lemma turn_ends_ok:
  assumes ok: "runner_ok g" and get: "dict_get (pg_runs g) i = Some r" and job: "job_of g i j = Some job" "dict_get (pg_tasks g) i = Some j"
    "jb_is_turn job" and live: "live_state (pr_state r)" "live_state (pr_state r')" and run: "script_run_ok i r'" "pr_room_id r' = pr_room_id r"
    and result: "result = JobReturned \<or> (\<exists>e. result = JobRaised e) \<and> last_ok r'"
    and views: "pg_runs g' = pg_runs (with_run i r' g)" "pg_tasks g' = pg_tasks g" "pg_active_by_room g' = pg_active_by_room g"
      "job_of g' = job_of (set_phase j (JobEnded result) g)" "waiting_stops g' = waiting_stops g"
  shows "runner_ok g'"
  using result job(3) live
  by (intro job_step_ok [OF ok get job(1,2) run _ _ views]) (auto simp: job_fits_def)

lemma complete_beat_ok:
  assumes ok: "runner_ok g" and get: "dict_get (pg_runs g) i = Some r" and job: "job_of g i j = Some job" "dict_get (pg_tasks g) i = Some j"
    "jb_is_turn job" and live: "live_state (pr_state r)" and waits: "pr_waiting_for r = WaitReply" and last: "last_ok r"
    and q: "pr_run_id q = pr_run_id r" "pr_room_id q = pr_room_id r" "pr_script q = pr_script r" "pr_state q = pr_state r"
      "pr_current_index q = pr_current_index r" "pr_waiting_for q = pr_waiting_for r" "pr_records q = pr_records r"
    and rec: "tu_beat_id rec = be_id (beat_now r)" "tu_response_text rec \<noteq> []" "scripted_input (pr_script r) (beat_now r) (tu_input_text rec)"
    and same: "pg_runs h = pg_runs g" "pg_tasks h = pg_tasks g" "pg_active_by_room h = pg_active_by_room g" "pg_jobs h = pg_jobs g" "pg_stops h = pg_stops g"
  shows "runner_ok (complete_beat j i q rec h)"
proof -
  let ?r = "q\<lparr>pr_records := pr_records q @ [rec], pr_error := None, pr_current_index := Suc (pr_current_index q)\<rparr>"
  have index: "pr_current_index r < length (ps_beats (pr_script r))" using last by (simp add: last_ok_def)
  have run: "script_run_ok i r" by (rule runner_okD(1) [OF ok get])
  have "turns_recorded ?r"
    using q by (intro turns_recorded_more [OF run [unfolded script_run_ok_def, THEN conjunct2, THEN conjunct2, THEN conjunct2, THEN conjunct1] index rec]) simp_all
  then have "script_run_ok i ?r" using run q index waits live by (auto simp: script_run_ok_def live_state_def)
  moreover have "job_of (complete_beat j i q rec h) k m = job_of (set_phase j (JobEnded JobReturned) g) k m" for k m
    using same by (simp add: complete_beat_def job_of_def set_phase_def)
  moreover have "waiting_stops (complete_beat j i q rec h) k = waiting_stops g k" for k
    using same by (simp add: complete_beat_def waiting_stops_def)
  ultimately show ?thesis using live q same
    by (intro turn_ends_ok [OF ok get job live, where r' = ?r and result = JobReturned])
      (simp_all add: complete_beat_def fun_eq_iff with_run_def)
qed

lemma pause_with_error_ok:
  assumes ok: "runner_ok g" and get: "dict_get (pg_runs g) i = Some r" and job: "job_of g i j = Some job" "dict_get (pg_tasks g) i = Some j"
    "jb_is_turn job" and live: "live_state (pr_state r)" and last: "last_ok r"
    and same: "pg_runs h = pg_runs g \<or> (\<exists>rec. pg_runs h = pg_runs (with_run i (r\<lparr>pr_records := pr_records r @ [rec]\<rparr>) g) \<and>
        tu_beat_id rec = be_id (beat_now r) \<and> tu_response_text rec \<noteq> [] \<and> scripted_input (pr_script r) (beat_now r) (tu_input_text rec))"
      "pg_tasks h = pg_tasks g" "pg_active_by_room h = pg_active_by_room g" "pg_jobs h = pg_jobs g" "pg_stops h = pg_stops g"
  shows "runner_ok (set_phase j (JobEnded JobReturned) (pause_with_error i reason h))"
proof -
  have index: "pr_current_index r < length (ps_beats (pr_script r))" using last by (simp add: last_ok_def)
  have run: "script_run_ok i r" by (rule runner_okD(1) [OF ok get])
  obtain q where q: "dict_get (pg_runs h) i = Some q" "q = r \<or> (\<exists>rec. q = r\<lparr>pr_records := pr_records r @ [rec]\<rparr>)" "turns_recorded q"
    "pg_runs (with_run i x h) = pg_runs (with_run i x g)" for x
  proof (cases "pg_runs h = pg_runs g")
    case True
    then show thesis using that [of r] get run by (simp add: script_run_ok_def with_run_def)
  next
    case False
    then obtain rec where rec: "pg_runs h = pg_runs (with_run i (r\<lparr>pr_records := pr_records r @ [rec]\<rparr>) g)"
      "tu_beat_id rec = be_id (beat_now r)" "tu_response_text rec \<noteq> []" "scripted_input (pr_script r) (beat_now r) (tu_input_text rec)"
      using same(1) by blast
    let ?q = "r\<lparr>pr_records := pr_records r @ [rec]\<rparr>"
    have rec_q: "turns_recorded ?q"
      by (intro turns_recorded_more [OF run [unfolded script_run_ok_def, THEN conjunct2, THEN conjunct2, THEN conjunct2, THEN conjunct1] index rec(2-4)]) simp_all
    show thesis
    proof (rule that [of ?q])
      show "dict_get (pg_runs h) i = Some ?q" unfolding rec(1) by simp
      show "?q = r \<or> (\<exists>rec. ?q = r\<lparr>pr_records := pr_records r @ [rec]\<rparr>)" by blast
      show "turns_recorded ?q" by (rule rec_q)
      show "pg_runs (with_run i x h) = pg_runs (with_run i x g)" for x using rec(1) by (simp add: with_run_def)
    qed
  qed
  let ?r = "q\<lparr>pr_state := PausedRun, pr_waiting_for := WaitError, pr_error := Some reason\<rparr>"
  have fields: "pr_run_id q = pr_run_id r" "pr_room_id q = pr_room_id r" "pr_script q = pr_script r" "pr_slots q = pr_slots r"
    "pr_current_index q = pr_current_index r" "pr_last_input q = pr_last_input r" "pr_last_option_id q = pr_last_option_id r"
    using q(2) by auto
  have "last_ok ?r = last_ok r" using fields by (intro last_ok_cong) simp_all
  moreover have "turns_recorded ?r" using q(3) turns_recorded_cong [of ?r q] by simp
  ultimately have "script_run_ok i ?r" using run fields last by (simp add: script_run_ok_def)
  moreover have "job_of (set_phase j (JobEnded JobReturned) (pause_with_error i reason h)) k m = job_of (set_phase j (JobEnded JobReturned) g) k m" for k m
    using same q(1) by (simp add: pause_with_error_def job_of_def set_phase_def)
  moreover have "waiting_stops (pause_with_error i reason h) k = waiting_stops g k" for k
    using same q(1) by (simp add: pause_with_error_def waiting_stops_def)
  ultimately show ?thesis using live fields same q(1,4)
    by (intro turn_ends_ok [OF ok get job live, where r' = ?r and result = JobReturned])
      (simp_all add: pause_with_error_def fun_eq_iff live_state_def)
qed

lemma end_dispatch_ok:
  assumes ok: "runner_ok g" and step: "end_dispatch j result g = Some g'"
  shows "runner_ok g'"
proof -
  define i where "i = jb_run_id (pg_jobs g ! j)"
  have j: "j < length (pg_jobs g)" using step by (simp add: end_dispatch_def split: if_splits)
  obtain b input opt t where phase: "jb_phase (pg_jobs g ! j) = TurnDispatched b input opt t"
    using step j by (auto simp: end_dispatch_def Let_def split: job_phase.splits option.splits)
  obtain r where get: "dict_get (pg_runs g) i = Some r" and job: "job_of g i j = Some (pg_jobs g ! j)" "dict_get (pg_tasks g) i = Some j"
      "jb_is_turn (pg_jobs g ! j)"
    and live: "live_state (pr_state r)" and fits: "turn_fits r (jb_phase (pg_jobs g ! j))" and run: "script_run_ok i r"
    using turn_registered [OF ok j] phase unfolding i_def by blast
  have turn: "pr_waiting_for r = WaitReply" "last_ok r" "b = beat_now r" "legal_turn r b input opt"
    using fits unfolding phase turn_fits.simps by blast+
  have pause: "runner_ok (set_phase j (JobEnded JobReturned) (pause_with_error i reason (drop_receipt t g)))" for reason
    by (intro pause_with_error_ok [OF ok get job live turn(2)]) simp_all
  have complete: "runner_ok (complete_beat j i r rec g)"
    if "tu_beat_id rec = be_id b" "tu_response_text rec \<noteq> []" "tu_input_text rec = input" for rec
    using that turn(3) legal_scripted [OF turn(4)]
    by (intro complete_beat_ok [OF ok get job live turn(1,2)]) simp_all
  have g': "Some g' = Some (case result of
                ReplyTimedOut \<Rightarrow> set_phase j (JobEnded JobReturned) (pause_with_error i ''reply_timeout'' (drop_receipt t g))
              | DispatchRaised e \<Rightarrow> set_phase j (JobEnded (JobRaised e)) (drop_receipt t g)
              | Replied response err recall \<Rightarrow>
                  if given err \<or> response = [] then
                    set_phase j (JobEnded JobReturned)
                      (pause_with_error i (if given err then the err else ''empty_reply'') (drop_receipt t g))
                  else
                    (let rec = turn_answered b input response t in
                     if be_memory b = WriteMemory then set_phase j (TurnCommitting b opt rec) g
                     else if be_memory b = ProbeMemory then
                       (case evaluate_probe r b response recall of
                          (verdict, reason) \<Rightarrow>
                            complete_beat j i r (rec\<lparr>tu_probe_result := Some verdict, tu_degradation_reason := reason\<rparr>) g)
                     else complete_beat j i r rec g))"
    using step j phase get unfolding end_dispatch_def by (simp add: Let_def i_def [symmetric])
  show ?thesis
  proof (cases result)
    case ReplyTimedOut
    then show ?thesis using g' pause by simp
  next
    case (DispatchRaised e)
    then have g': "g' = set_phase j (JobEnded (JobRaised e)) (drop_receipt t g)" using g' by simp
    have "job_of g' k m = job_of (set_phase j (JobEnded (JobRaised e)) g) k m" for k m
      by (simp add: g' job_of_def set_phase_def)
    moreover have "pg_runs (with_run i r g) = pg_runs g"
      using get by (simp add: with_run_def update_triv)
    ultimately show ?thesis using turn(2) run live
      by (intro turn_ends_ok [OF ok get job live, where r' = r and result = "JobRaised e"]) (simp_all add: g' fun_eq_iff)
  next
    case (Replied response err recall)
    show ?thesis
    proof (cases "given err \<or> response = []")
      case True
      then show ?thesis using g' Replied pause by auto
    next
      case False
      let ?rec = "turn_answered b input response t"
      have rec: "tu_beat_id ?rec = be_id b" "tu_response_text ?rec \<noteq> []" "tu_input_text ?rec = input"
        using False by (simp_all add: turn_answered_def)
      consider "be_memory b = WriteMemory" | "be_memory b = ProbeMemory" | "be_memory b = NoMemory" by (cases "be_memory b")
      then show ?thesis
      proof cases
        case 1
        then have g': "g' = set_phase j (TurnCommitting b opt ?rec) g" using g' Replied False by (simp add: Let_def)
        have "pg_runs (with_run i r g) = pg_runs g" using get by (simp add: with_run_def update_triv)
        moreover have "job_fits r ((pg_jobs g ! j)\<lparr>jb_phase := TurnCommitting b opt ?rec\<rparr>)"
          using rec turn live job(3) by (simp add: job_fits_def)
        ultimately show ?thesis using run
          by (intro job_step_ok [OF ok get job(1,2), where r' = r and p = "TurnCommitting b opt ?rec"]) (simp_all add: g')
      next
        case 2
        obtain verdict reason where "evaluate_probe r b response recall = (verdict, reason)" by force
        then have "g' = complete_beat j i r (?rec\<lparr>tu_probe_result := Some verdict, tu_degradation_reason := reason\<rparr>) g"
          using g' Replied False 2 by (simp add: Let_def)
        then show ?thesis using complete rec by simp
      next
        case 3
        then have "g' = complete_beat j i r ?rec g" using g' Replied False by (simp add: Let_def)
        then show ?thesis using complete rec by simp
      qed
    qed
  qed
qed

lemma end_commit_ok:
  assumes ok: "runner_ok g" and step: "end_commit j timed_out g = Some g'"
  shows "runner_ok g'"
proof -
  define i where "i = jb_run_id (pg_jobs g ! j)"
  have j: "j < length (pg_jobs g)" using step by (simp add: end_commit_def split: if_splits)
  obtain b opt rec where phase: "jb_phase (pg_jobs g ! j) = TurnCommitting b opt rec"
    using step j by (auto simp: end_commit_def Let_def split: job_phase.splits option.splits)
  obtain r where get: "dict_get (pg_runs g) i = Some r" and job: "job_of g i j = Some (pg_jobs g ! j)" "dict_get (pg_tasks g) i = Some j"
      "jb_is_turn (pg_jobs g ! j)"
    and live: "live_state (pr_state r)" and fits: "turn_fits r (jb_phase (pg_jobs g ! j))" and run: "script_run_ok i r"
    using turn_registered [OF ok j] phase unfolding i_def by blast
  have turn: "pr_waiting_for r = WaitReply" "last_ok r" "b = beat_now r" "scripted_input (pr_script r) b (tu_input_text rec)"
    "tu_beat_id rec = be_id b" "tu_response_text rec \<noteq> []" using fits phase legal_scripted by auto
  let ?h = "drop_receipt (tu_turn_id rec) g"
  have degrade: "runner_ok (degrade_turn j i r rec reason ?h)" for reason
    unfolding degrade_turn_def
  proof (intro pause_with_error_ok [OF ok get job live turn(2)] disjI2 exI conjI)
    let ?rec = "rec\<lparr>tu_degradation_reason := Some reason\<rparr>"
    show "pg_runs (with_run i (r\<lparr>pr_records := pr_records r @ [?rec]\<rparr>) ?h) = pg_runs (with_run i (r\<lparr>pr_records := pr_records r @ [?rec]\<rparr>) g)"
      by (simp add: with_run_def)
  qed (use turn in simp_all)
  show ?thesis
  proof (cases timed_out)
    case True
    then have "g' = degrade_turn j i r rec ''memory_commit_timeout'' ?h"
      using step j phase get by (simp add: end_commit_def Let_def i_def [symmetric])
    then show ?thesis using degrade by simp
  next
    case False
    obtain p where p: "dict_get (pg_receipts g) (tu_turn_id rec) = Some (Some p)"
      using step j phase get False by (auto simp: end_commit_def Let_def i_def [symmetric] split: option.splits)
    show ?thesis
    proof (cases "\<exists>revision atom. mv_revision p = Some revision \<and> mv_atom_id p = Some atom \<and> atom \<noteq> []")
      case True
      then obtain revision atom where atom: "mv_revision p = Some revision" "mv_atom_id p = Some atom" "atom \<noteq> []" by blast
      define q where "q = (case opt of
            None \<Rightarrow> r\<lparr>pr_atom_ids := pr_atom_ids r @ [atom]\<rparr>
          | Some v \<Rightarrow>
              if given (si_save_as (be_input b))
              then r\<lparr>pr_atom_ids := pr_atom_ids r @ [atom], pr_slots := dict_set (the (si_save_as (be_input b))) (so_id v) (pr_slots r)\<rparr>
              else r\<lparr>pr_atom_ids := pr_atom_ids r @ [atom]\<rparr>)"
      let ?rec = "rec\<lparr>tu_memory_revision := Some revision, tu_atom_id := Some atom\<rparr>"
      have "g' = complete_beat j i q ?rec ?h"
        using step j phase get False p atom
        by (cases opt) (simp_all add: end_commit_def Let_def i_def [symmetric] q_def split: if_splits)
      moreover have "runner_ok (complete_beat j i q ?rec ?h)"
        using turn
        by (intro complete_beat_ok [OF ok get job live turn(1,2)]) (simp_all add: q_def split: option.splits)
      ultimately show ?thesis by simp
    next
      case none: False
      then have "g' = degrade_turn j i r rec ''memory_commit_invalid'' ?h"
        using step j phase get False p
        by (cases "mv_revision p"; cases "mv_atom_id p") (simp_all add: end_commit_def Let_def i_def [symmetric])
      then show ?thesis using degrade by simp
    qed
  qed
qed

section \<open>Ends of tasks\<close>

text \<open>A cancelled job ends, and its callback runs.\<close>

lemma cancelled_phase_ok:
  assumes ok: "runner_ok g" and get: "dict_get (pg_runs g) i = Some r" and job: "job_of g i j = Some job" "dict_get (pg_tasks g) i \<noteq> Some j"
    and phase: "cancel_seen p \<or> p = JobReaped \<and> waiting_stops g i \<noteq> []" "jb_phase job \<noteq> JobReaped"
    and same: "pg_runs g' = pg_runs g" "pg_tasks g' = pg_tasks g" "pg_active_by_room g' = pg_active_by_room g"
      "job_of g' = job_of (set_phase j p g)" "waiting_stops g' = waiting_stops g"
  shows "runner_ok g'"
proof -
  note a = almost_okI [OF ok get]
  have j: "j < length (pg_jobs g)" "jb_run_id (pg_jobs g ! j) = i" "pg_jobs g ! j = job" using job_ofD [OF job(1)] by auto
  have jobs: "job_of g' k = (if k = i then (job_of g i)(j \<mapsto> job\<lparr>jb_phase := p\<rparr>) else job_of g k)" for k
    using j by (auto simp: same(4) job_of_set_phase)
  have base: "part_base i (dict_get (pg_active_by_room g)) r (dict_get (pg_tasks g) i) (job_of g i) (waiting_stops g i)"
    using a by (simp add: almost_ok_def)
  then obtain c where c: "waiting_stops g i = [c]" "sc_job c = Some j"
    using job phase(2) unfolding part_base_def by blast
  have t: "dict_get (pg_tasks g) i = None" using registered(2) [OF a] c(1) by (cases "dict_get (pg_tasks g) i") auto
  have others: "jb_phase x = JobReaped" if "job_of g i m = Some x" "m \<noteq> j" for m x
    using base that c t unfolding part_base_def by auto
  have "almost_ok i r g'"
  proof (rule almost_ok_frame [OF a])
    show "part_base i (dict_get (pg_active_by_room g')) r (dict_get (pg_tasks g') i) (job_of g' i) (waiting_stops g' i)"
      unfolding jobs same(2,3,5) using base t others phase c by (auto simp: part_base_def split: if_splits)
  qed (use get in \<open>simp_all add: same(1-3,5) jobs\<close>)
  then show ?thesis by (rule almost_ok_done) (use runner_okD(3) [OF ok get] in \<open>simp add: same\<close>)
qed

lemma cancelled_not_registered:
  assumes "runner_ok g" "dict_get (pg_runs g) i = Some r" "job_of g i j = Some job" "cancel_seen (jb_phase job)"
    and turn: "jb_is_turn job \<or> (\<exists>t. jb_phase job = JobCancelling t)"
  shows "dict_get (pg_tasks g) i \<noteq> Some j"
proof
  assume "dict_get (pg_tasks g) i = Some j"
  then have "job_fits r job" using registered(1) [OF almost_okI [OF assms(1,2)]] assms(3) by auto
  then show False using assms(4) turn by (cases "jb_phase job") (auto simp: job_fits_def cancel_seen_def split: if_splits)
qed

lemma end_cancelled_ok:
  assumes ok: "runner_ok g" and step: "end_cancelled j g = Some g'"
  shows "runner_ok g'"
proof -
  define i where "i = jb_run_id (pg_jobs g ! j)"
  have j: "j < length (pg_jobs g)" using step by (simp add: end_cancelled_def split: if_splits)
  obtain r where get: "dict_get (pg_runs g) i = Some r" and job: "job_of g i j = Some (pg_jobs g ! j)"
    using job_run [OF ok j] unfolding i_def by blast
  obtain t where phase: "jb_phase (pg_jobs g ! j) = JobCancelling t"
    and g': "g' = set_phase j (JobEnded JobCancelled) (case t of None \<Rightarrow> g | Some t \<Rightarrow> drop_receipt t g)"
    using step j by (auto simp: end_cancelled_def split: job_phase.splits)
  have "dict_get (pg_tasks g) i \<noteq> Some j" using phase by (intro cancelled_not_registered [OF ok get job]) (simp_all add: cancel_seen_def)
  moreover have "job_of g' k m = job_of (set_phase j (JobEnded JobCancelled) g) k m" for k m
    by (cases t) (simp_all add: g' job_of_def set_phase_def)
  ultimately show ?thesis using phase
    by (intro cancelled_phase_ok [OF ok get job, where p = "JobEnded JobCancelled"])
      (simp_all add: g' cancel_seen_def fun_eq_iff split: option.splits)
qed

lemma job_archives_ok:
  assumes ok: "runner_ok g" and step: "job_archives j fails g = Some g'"
  shows "runner_ok g'"
proof -
  define i where "i = jb_run_id (pg_jobs g ! j)"
  have j: "j < length (pg_jobs g)" using step by (simp add: job_archives_def split: if_splits)
  obtain w where phase: "jb_phase (pg_jobs g ! j) = JobArchives w"
    using step j by (auto simp: job_archives_def split: job_phase.splits)
  obtain g1 p where g1: "runner_ok g1" "pg_tasks g1 = pg_tasks g" "job_of g1 = job_of g" "pg_jobs g1 = pg_jobs g"
    "\<And>r. dict_get (pg_runs g1) i = Some r \<Longrightarrow> \<exists>q. dict_get (pg_runs g) i = Some q \<and> pr_state r = pr_state q"
    and p: "g' = set_phase j p g1" "(\<exists>w. p = JobArchives w) \<or> (\<exists>result. p = JobEnded result)"
  proof (cases "w = ArchiveDone")
    case True
    then show thesis using that [of g "JobEnded JobReturned"] ok step j phase by (simp add: job_archives_def)
  next
    case False
    obtain g1 w1 where s: "archive_step i w g = (g1, w1)" by force
    note A = archive_step_ok [OF ok s]
    have "g' = set_phase j (if fails \<and> archive_calls w then JobEnded (JobRaised ''archive'') else JobArchives w1) g1"
      using step j phase False s by (simp add: job_archives_def i_def)
    then show thesis using that [of g1 "if fails \<and> archive_calls w then JobEnded (JobRaised ''archive'') else JobArchives w1"] A by auto
  qed
  have j1: "j < length (pg_jobs g1)" "pg_jobs g1 ! j = pg_jobs g ! j" using j g1(4) by simp_all
  obtain r where get: "dict_get (pg_runs g1) i = Some r" and job: "job_of g1 i j = Some (pg_jobs g ! j)"
    using job_run [OF g1(1) j1(1)] unfolding j1(2) i_def by blast
  note un = unreaped [OF almost_okI [OF g1(1) get] job]
  have t: "dict_get (pg_tasks g1) i = Some j" and fits: "job_fits r (pg_jobs g ! j)" using un phase by (simp_all add: cancel_seen_def)
  then have "\<not> jb_is_turn (pg_jobs g ! j)" "pr_state r = CompletedRun" using phase by (auto simp: job_fits_def split: if_splits)
  then have "job_fits r ((pg_jobs g ! j)\<lparr>jb_phase := p\<rparr>)" using p(2) by (auto simp: job_fits_def)
  moreover have "pg_runs (with_run i r g1) = pg_runs g1" using get by (simp add: with_run_def update_triv)
  ultimately show ?thesis using runner_okD(1) [OF g1(1) get]
    by (intro job_step_ok [OF g1(1) get job t, where r' = r and p = p]) (simp_all add: p(1))
qed

lemma reap_job_ok:
  assumes ok: "runner_ok g" and step: "reap_job j g = Some g'"
  shows "runner_ok g'"
proof -
  define i where "i = jb_run_id (pg_jobs g ! j)"
  have j: "j < length (pg_jobs g)" using step by (simp add: reap_job_def split: if_splits)
  obtain result where phase: "jb_phase (pg_jobs g ! j) = JobEnded result"
    using step j by (auto simp: reap_job_def Let_def split: job_phase.splits)
  obtain r where get: "dict_get (pg_runs g) i = Some r" and job: "job_of g i j = Some (pg_jobs g ! j)"
    using job_run [OF ok j] unfolding i_def by blast
  define g1 where "g1 = (set_phase j JobReaped g)\<lparr>pg_tasks := dict_del i (pg_tasks g)\<rparr>"
  have get1: "dict_get (pg_runs g1) i = Some r" using get by (simp add: g1_def)
  have g': "g' = (if \<not> jb_is_turn (pg_jobs g ! j) then g1
      else
        (case result of
           JobRaised e \<Rightarrow> with_run i (r\<lparr>pr_state := FailedRun, pr_waiting_for := WaitError, pr_error := Some e\<rparr>) g1
         | JobReturned \<Rightarrow> if pr_state r = RunningRun then prepare_current i g1 else g1
         | JobCancelled \<Rightarrow> g1))"
    using step j phase get1 [unfolded g1_def]
    by (cases result; cases "jb_is_turn (pg_jobs g ! j)") (auto simp: reap_job_def Let_def i_def [symmetric] g1_def)
  note a = almost_okI [OF ok get]
  have jobs: "job_of g1 k = (if k = i then (job_of g i)(j \<mapsto> (pg_jobs g ! j)\<lparr>jb_phase := JobReaped\<rparr>) else job_of g k)" for k
    using j by (auto simp: g1_def job_of_set_phase i_def)
  show ?thesis
  proof (cases "dict_get (pg_tasks g) i = Some j")
    case True
    then have fits: "job_fits r (pg_jobs g ! j)" and ws: "waiting_stops g i = []" using registered [OF a] job by auto
    have base: "part_base i (dict_get (pg_active_by_room g)) r (Some j) (job_of g i) []" using a True ws by (simp add: almost_ok_def)
    have a1: "almost_ok i r g1"
    proof (rule almost_ok_frame [OF a])
      show "part_base i (dict_get (pg_active_by_room g1)) r (dict_get (pg_tasks g1) i) (job_of g1 i) (waiting_stops g1 i)"
        unfolding jobs using base ws by (auto simp: part_base_def g1_def dict_simps)
    qed (use get in \<open>simp_all add: jobs, simp_all add: g1_def dict_simps\<close>)
    have ws1: "waiting_stops g1 i = []" using ws by (simp add: g1_def)
    have t1: "dict_get (pg_tasks g1) i = None" by (simp add: g1_def dict_simps)
    have rest: "runner_ok g1" if "pr_state r \<noteq> RunningRun"
      using that by (intro almost_ok_done [OF a1]) (simp add: part_goes_on_def)
    show ?thesis
    proof (cases "jb_is_turn (pg_jobs g ! j)")
      case False
      then have "pr_state r = CompletedRun" using fits by (simp add: job_fits_def)
      then show ?thesis using g' False rest by simp
    next
      case turn: True
      show ?thesis
      proof (cases result)
        case JobReturned
        then show ?thesis using g' turn rest prepare_runner_ok [OF a1 ws1] by simp
      next
        case (JobRaised e)
        let ?r = "r\<lparr>pr_state := FailedRun, pr_waiting_for := WaitError, pr_error := Some e\<rparr>"
        have last: "last_ok r" using fits turn phase JobRaised by (simp add: job_fits_def)
        have "last_ok ?r = last_ok r" by (rule last_ok_cong) simp_all
        then have "script_run_ok i ?r" using last by (intro script_run_ok_cong [OF runner_okD(1) [OF ok get]]) simp_all
        then have "almost_ok i ?r (with_run i ?r g1)"
          using t1 ws1 by (intro almost_ok_with_run [OF a1]) (simp_all add: live_state_def)
        then have "runner_ok (with_run i ?r g1)" by (rule almost_ok_done) (simp add: part_goes_on_def)
        then show ?thesis using g' turn JobRaised by simp
      next
        case JobCancelled
        then show ?thesis using fits turn phase by (simp add: job_fits_def)
      qed
    qed
  next
    case False
    have "cancel_seen (jb_phase (pg_jobs g ! j))"
      using unreaped(1) [OF a job] False phase by fastforce
    then have "result = JobCancelled" using phase by (simp add: cancel_seen_def)
    then have g1': "g' = g1" using g' by simp
    obtain c where c: "waiting_stops g i = [c]"
      using a job False phase unfolding almost_ok_def part_base_def by fastforce
    have "dict_get (pg_tasks g) i = None" using registered(2) [OF a] c by (cases "dict_get (pg_tasks g) i") auto
    then have "i \<notin> fst ` set (pg_tasks g)" by (simp add: task_absent)
    then have "pg_tasks g1 = pg_tasks g" by (simp add: g1_def)
    then show ?thesis unfolding g1' using c phase
      by (intro cancelled_phase_ok [OF ok get job False, where p = JobReaped]) (simp_all add: g1_def)
  qed
qed

section \<open>The invariant\<close>

theorem orderly_runner_ok: "program_orderly casefold g \<Longrightarrow> runner_ok g"
proof (induction rule: program_orderly.induct)
  case (orderly_new dispatcher deletes memory)
  show ?case by (simp add: runner_ok_def part_ok_def new_program_runner_def job_of_def waiting_stops_def fun_eq_iff)
next
  case (orderly_performs g e g')
  note ok = orderly_performs.IH
  show ?case
  proof (cases e)
    case (CommandComes c)
    then have g': "g' = execute_command c g" using orderly_performs.hyps by simp
    show ?thesis
    proof (cases c)
      case (StartProgram i room creator room_state published)
      then show ?thesis using g' CommandComes orderly_performs.hyps(2) parsed_sound
        by (auto intro!: start_runner_ok [OF ok])
    next
      case (SubmitChoice i beat_id option_id creator)
      then show ?thesis using g' CommandComes orderly_performs.hyps(3) submit_runner_ok [OF ok]
        by (simp add: being_stopped_waiting)
    next
      case (ControlRun i action creator)
      then show ?thesis using g' CommandComes orderly_performs.hyps(3) control_runner_ok [OF ok] by simp
    qed
  next
    case (TurnBegins j t)
    then show ?thesis using orderly_performs.hyps begin_turn_ok [OF ok] by simp
  next
    case (DispatchEnds j result)
    then show ?thesis using orderly_performs.hyps end_dispatch_ok [OF ok] by simp
  next
    case (CommitEnds j timed_out)
    then show ?thesis using orderly_performs.hyps end_commit_ok [OF ok] by simp
  next
    case (CancelSeen j)
    then show ?thesis using orderly_performs.hyps end_cancelled_ok [OF ok] by simp
  next
    case (ArchiveGoes j fails)
    then show ?thesis using orderly_performs.hyps job_archives_ok [OF ok] by simp
  next
    case (JobReaps j)
    then show ?thesis using orderly_performs.hyps reap_job_ok [OF ok] by simp
  next
    case (StopResumes k)
    then show ?thesis using orderly_performs.hyps resume_stop_ok [OF ok] by simp
  next
    case (StopArchives k fails)
    then show ?thesis using orderly_performs.hyps stop_archives_ok [OF ok] by simp
  next
    case (RevisionArrives p)
    then have "g' = memory_revision p g" using orderly_performs.hyps by simp
    then show ?thesis by (intro runner_ok_same [OF ok]) (simp_all add: memory_revision_def split: option.splits)
  next
    case (RoomLooked room)
    then show ?thesis using orderly_performs.hyps active_run_ok(1) [OF ok] by (cases "active_run room g") simp
  next
    case (ShutdownGoes ids)
    then have "g' = fst (shutdown_next ids g)" "orderly_event (ShutdownGoes ids) g" using orderly_performs.hyps by simp_all
    then show ?thesis using shutdown_runner_ok [OF ok] by blast
  qed
qed

end
