(* ===== verification/Program_Runtime_Properties.thy ===== *)
theory Program_Runtime_Properties
  imports Program_Runtime_Steps
begin

text \<open>
  The properties of the program runner: turns in order and never stuck, one program per room, as long as commands
  come in order; and runs that show what happens when they do not.
\<close>

section \<open>Jobs go on\<close>

definition job_moves :: "nat \<Rightarrow> program_event list" where
  "job_moves j =
     [TurnBegins j [], DispatchEnds j ReplyTimedOut, CommitEnds j True, CancelSeen j, ArchiveGoes j False, JobReaps j]"

lemma job_can_move:
  assumes ok: "runner_ok g" and j: "j < length (pg_jobs g)" and phase: "jb_phase (pg_jobs g ! j) \<noteq> JobReaped"
  shows "\<exists>e\<in>set (job_moves j). perform e g \<noteq> None"
proof -
  obtain r where get: "dict_get (pg_runs g) (jb_run_id (pg_jobs g ! j)) = Some r" using job_run [OF ok j] by blast
  show ?thesis
  proof (cases "jb_phase (pg_jobs g ! j)")
    case (TurnCreated input opt)
    then have "begin_turn j [] g \<noteq> None" using get j by (simp add: begin_turn_def Let_def split: sum.splits)
    then show ?thesis by (simp add: job_moves_def)
  next
    case (TurnDispatched b input opt t)
    then have "end_dispatch j ReplyTimedOut g \<noteq> None" using get j by (simp add: end_dispatch_def Let_def)
    then show ?thesis by (simp add: job_moves_def)
  next
    case (TurnCommitting b opt rec)
    then have "end_commit j True g \<noteq> None" using get j by (simp add: end_commit_def Let_def)
    then show ?thesis by (simp add: job_moves_def)
  next
    case (JobArchives w)
    then have "job_archives j False g \<noteq> None" using j by (simp add: job_archives_def split: prod.splits)
    then show ?thesis by (simp add: job_moves_def)
  next
    case (JobCancelling t)
    then have "end_cancelled j g \<noteq> None" using j by (simp add: end_cancelled_def)
    then show ?thesis by (simp add: job_moves_def)
  next
    case (JobEnded result)
    then have "reap_job j g \<noteq> None" using j by (simp add: reap_job_def Let_def)
    then show ?thesis by (simp add: job_moves_def)
  qed (use phase in simp)
qed

lemma sound_snapshot:
  assumes "sound_script (pr_script r)"
  shows "\<exists>view. run_snapshot_of r = Inr view"
proof (cases "current_beat r")
  case (Inr b)
  then have b: "b \<in> set (ps_beats (pr_script r))" by (auto simp: current_beat_def split: if_splits)
  have "\<exists>os. available_options r b = Inr os"
  proof (cases "si_type (be_input b) = ChoiceInput")
    case True
    then obtain k where "si_options (be_input b) = Some k" "k \<in> set (dict_keys (ps_option_sets (pr_script r)))"
      using assms b unfolding sound_script_def choices_known_def by blast
    moreover then obtain os where "dict_get (ps_option_sets (pr_script r)) k = Some os"
      by (cases "dict_get (ps_option_sets (pr_script r)) k") (simp_all add: dict_get_None_keys)
    ultimately show ?thesis using True by (simp add: available_options_def name_text_def)
  qed (simp add: available_options_def)
  then show ?thesis using Inr by (auto simp: run_snapshot_of_def Let_def)
qed (simp add: run_snapshot_of_def Let_def)

text \<open>The false values of an evaluator never change a verdict: they count only where the answer already fails.\<close>

lemma false_values_ignored:
  "evaluate_probe r (b\<lparr>be_evaluator := Some (e\<lparr>ev_false_values := vs\<rparr>)\<rparr>) response recall =
   evaluate_probe r (b\<lparr>be_evaluator := Some e\<rparr>) response recall"
  by (cases recall) (auto simp: evaluate_probe_def Let_def list_ex_iff)

section \<open>Runs on concrete events\<close>

text \<open>Events performed in a row, each start with a new identifier.\<close>

fun perform_fresh :: "program_event list \<Rightarrow> program_runner \<Rightarrow> program_runner option" where
  "perform_fresh [] g = Some g"
| "perform_fresh (e # es) g =
     (if (case e of CommandComes (StartProgram run_id room creator room_state published) \<Rightarrow> dict_get (pg_runs g) run_id = None | _ \<Rightarrow> True)
      then (case perform e g of None \<Rightarrow> None | Some g' \<Rightarrow> perform_fresh es g') else None)"

lemma perform_fresh_reachable:
  assumes "perform_fresh es g = Some g'" "program_reachable casefold g"
    and "\<And>run_id room creator room_state p. CommandComes (StartProgram run_id room creator room_state (Some p)) \<in> set es \<Longrightarrow>
      \<exists>raw. parse_script casefold raw = Inr (pb_script p)"
  shows "program_reachable casefold g'"
  using assms
proof (induction es g rule: perform_fresh.induct)
  case (2 e es g)
  obtain g1 where g1: "perform e g = Some g1" and fresh: "perform_fresh es g1 = Some g'"
    using 2(2) by (auto split: if_splits option.splits)
  have parsed: "\<exists>raw. parse_script casefold raw = Inr (pb_script p)"
    if "e = CommandComes (StartProgram run_id room creator room_state (Some p))" for run_id room creator room_state p
    using 2(4) [of run_id room creator room_state p] that by simp
  have "event_allowed casefold e g"
  proof (cases "(casefold, e, g)" rule: event_allowed.cases)
    case (1 cf run_id room creator room_state published g0)
    then show ?thesis using 2(2) parsed by (cases published) (auto split: if_splits)
  qed simp_all
  then have "program_reachable casefold g1" by (rule runner_performs [OF 2(3) _ g1])
  moreover have "case e of CommandComes (StartProgram run_id room creator room_state published) \<Rightarrow> dict_get (pg_runs g) run_id = None | _ \<Rightarrow> True"
    using 2(2) by (simp split: if_splits)
  moreover have "\<exists>raw. parse_script casefold raw = Inr (pb_script p)"
    if "CommandComes (StartProgram run_id room creator room_state (Some p)) \<in> set es" for run_id room creator room_state p
    using 2(4) [of run_id room creator room_state p] that by simp
  ultimately show ?case using 2(1) [OF _ g1 fresh] by blast
qed simp

definition show_script :: program_script where
  "show_script = example_script []
     [example_beat ''a'' (example_fixed [67]) NoMemory [66] None, example_beat ''b'' (example_fixed [68]) NoMemory [66] None]"

definition show_published :: published_script where
  "show_published = \<lparr>pb_version = 1, pb_content_hash = [], pb_builtin = False, pb_archived = False, pb_script = show_script\<rparr>"

definition show_start :: "string \<Rightarrow> program_event" where
  "show_start run_id = CommandComes (StartProgram run_id 7 ''c'' None (Some show_published))"

definition show_control :: "string \<Rightarrow> string \<Rightarrow> program_event" where
  "show_control run_id action = CommandComes (ControlRun run_id action ''c'')"

lemma show_parsed: "parse_script (\<lambda>t. t) show_script = Inr show_script"
  by code_simp

abbreviation show_runner :: program_runner where
  "show_runner \<equiv> new_program_runner True True True"

lemma show_reachable:
  assumes "perform_fresh es show_runner = Some g" "\<forall>e\<in>set es. (\<exists>i. e = show_start i) \<or> (\<nexists>i m c st p. e = CommandComes (StartProgram i m c st p))"
  shows "program_reachable (\<lambda>t. t) g"
  using assms(2) show_parsed
  by (intro perform_fresh_reachable [OF assms(1) runner_new]) (force simp: show_start_def show_published_def)

definition run_view :: "program_runner \<Rightarrow> (string \<times> int \<times> run_state) list" where
  "run_view g = map (\<lambda>(i, r). (i, pr_room_id r, pr_state r)) (pg_runs g)"

lemma show_reaches:
  assumes "map_option f (perform_fresh es show_runner) = Some v"
    "\<forall>e\<in>set es. (\<exists>i. e = show_start i) \<or> (\<nexists>i m c st p. e = CommandComes (StartProgram i m c st p))"
  shows "\<exists>g. program_reachable (\<lambda>t. t) g \<and> f g = v"
proof -
  obtain g where "perform_fresh es show_runner = Some g" "f g = v" using assms(1) by auto
  then show ?thesis using show_reachable [OF _ assms(2)] by blast
qed

text \<open>A failed run is retried after another one has taken its room; a stopped run is stopped again.\<close>

lemma retry_shares_room:
  "\<exists>g. program_reachable (\<lambda>t. t) g \<and> run_view g = [(''p'', 7, RunningRun), (''q'', 7, RunningRun)]"
proof (rule show_reaches)
  let ?es = "[show_start ''p'', TurnBegins 0 ''t'', DispatchEnds 0 (DispatchRaised ''E''), JobReaps 0, show_start ''q'',
    show_control ''p'' ''retry'']"
  show "map_option run_view (perform_fresh ?es show_runner) = Some [(''p'', 7, RunningRun), (''q'', 7, RunningRun)]" by code_simp
  show "\<forall>e\<in>set ?es. (\<exists>i. e = show_start i) \<or> (\<nexists>i m c st p. e = CommandComes (StartProgram i m c st p))"
    by (auto simp: show_control_def)
qed

lemma stop_shares_room:
  "\<exists>g. program_reachable (\<lambda>t. t) g \<and> run_view g = [(''p'', 7, StoppedRun), (''q'', 7, RunningRun), (''u'', 7, RunningRun)]"
proof (rule show_reaches)
  let ?es = "[show_start ''p'', show_control ''p'' ''stop'', CancelSeen 0, JobReaps 0, StopResumes 0, show_start ''q'',
    show_control ''p'' ''stop'', show_start ''u'']"
  show "map_option run_view (perform_fresh ?es show_runner) = Some [(''p'', 7, StoppedRun), (''q'', 7, RunningRun), (''u'', 7, RunningRun)]"
    by code_simp
  show "\<forall>e\<in>set ?es. (\<exists>i. e = show_start i) \<or> (\<nexists>i m c st p. e = CommandComes (StartProgram i m c st p))"
    by (auto simp: show_control_def)
qed

text \<open>A run is paused during a turn, which succeeds, and retried: the next beat gets the input of the last one.\<close>

definition show_turns :: "program_runner \<Rightarrow> ((string \<times> unicode) list \<times> (string \<times> unicode option) list) option" where
  "show_turns g = map_option (\<lambda>r. (map (\<lambda>t. (tu_beat_id t, tu_input_text t)) (pr_records r),
     map (\<lambda>b. (be_id b, si_text (be_input b))) (ps_beats (pr_script r)))) (dict_get (pg_runs g) ''p'')"

lemma retry_repeats_input:
  "\<exists>g. program_reachable (\<lambda>t. t) g \<and> show_turns g = Some ([(''a'', [67]), (''b'', [67])], [(''a'', Some [67]), (''b'', Some [68])])"
proof (rule show_reaches)
  let ?es = "[show_start ''p'', TurnBegins 0 ''t'', show_control ''p'' ''pause'', DispatchEnds 0 (Replied [65] None None), JobReaps 0,
      show_control ''p'' ''retry'', TurnBegins 1 ''u'', DispatchEnds 1 (Replied [65] None None)]"
  show "map_option show_turns (perform_fresh ?es show_runner) = Some (Some ([(''a'', [67]), (''b'', [67])], [(''a'', Some [67]), (''b'', Some [68])]))"
    by code_simp
  show "\<forall>e\<in>set ?es. (\<exists>i. e = show_start i) \<or> (\<nexists>i m c st p. e = CommandComes (StartProgram i m c st p))"
    by (auto simp: show_control_def)
qed

section \<open>The properties\<close>

text \<open>
  C31. A program goes through its script.  As long as commands come in order (none while the run is being
  stopped, retries only after an error and while the run has its room, stops only of live runs whose task has not just
  ended), whatever else happens in whatever order: showing a run never raises; its records are answers to the beats up
  to the current one, in order, none missing, each to an input that the script has for that beat; a
  completed run has answered every beat; at most one task of a run is unfinished; and a running program is never stuck: it is
  being stopped, has a task that can go on, or waits for a choice.  When a run is paused during a turn that succeeds and then
  retried, the next beat is answered with the input of the last one.
\<close>

theorem program_turns_in_order:
  assumes "program_orderly casefold g" and "dict_get (pg_runs g) i = Some r"
  shows "(\<exists>view. run_snapshot_of r = Inr view) \<and>
    (\<exists>ks. sorted ks \<and> {..<pr_current_index r} \<subseteq> set ks \<and>
        (\<forall>k\<in>set ks. k \<le> pr_current_index r \<and> k < length (ps_beats (pr_script r))) \<and>
        list_all2 (\<lambda>k rec. tu_beat_id rec = be_id (ps_beats (pr_script r) ! k) \<and> tu_response_text rec \<noteq> [] \<and>
            scripted_input (pr_script r) (ps_beats (pr_script r) ! k) (tu_input_text rec)) ks (pr_records r)) \<and>
    (pr_state r = CompletedRun \<longrightarrow> pr_current_index r = length (ps_beats (pr_script r))) \<and>
    (\<forall>j k. j < length (pg_jobs g) \<and> k < length (pg_jobs g) \<and> jb_run_id (pg_jobs g ! j) = i \<and> jb_run_id (pg_jobs g ! k) = i \<and>
       jb_phase (pg_jobs g ! j) \<noteq> JobReaped \<and> jb_phase (pg_jobs g ! k) \<noteq> JobReaped \<longrightarrow> j = k) \<and>
    (pr_state r = RunningRun \<longrightarrow>
       being_stopped g i \<or>
       (\<exists>j. dict_get (pg_tasks g) i = Some j \<and> (\<exists>e\<in>set (job_moves j). perform e g \<noteq> None)) \<or>
       pr_waiting_for r = WaitChoice \<and> (\<exists>b. current_beat r = Inr b \<and> si_type (be_input b) = ChoiceInput)) \<and>
    (\<exists>g' r'. program_reachable (\<lambda>t. t) g' \<and> dict_get (pg_runs g') ''p'' = Some r' \<and>
       map (\<lambda>t. (tu_beat_id t, tu_input_text t)) (pr_records r') = [(''a'', [67]), (''b'', [67])] \<and>
       map (\<lambda>b. (be_id b, si_text (be_input b))) (ps_beats (pr_script r')) = [(''a'', Some [67]), (''b'', Some [68])])"
proof -
  have ok: "runner_ok g" by (rule orderly_runner_ok [OF assms(1)])
  note a = almost_okI [OF ok assms(2)]
  have run: "script_run_ok i r" by (rule runner_okD(1) [OF ok assms(2)])
  have base: "part_base i (dict_get (pg_active_by_room g)) r (dict_get (pg_tasks g) i) (job_of g i) (waiting_stops g i)"
    using a by (simp add: almost_ok_def)
  have one: "j = k" if "j < length (pg_jobs g)" "k < length (pg_jobs g)" "jb_run_id (pg_jobs g ! j) = i" "jb_run_id (pg_jobs g ! k) = i"
      "jb_phase (pg_jobs g ! j) \<noteq> JobReaped" "jb_phase (pg_jobs g ! k) \<noteq> JobReaped" for j k
  proof -
    have each: "dict_get (pg_tasks g) i = Some m \<or> (\<exists>c. waiting_stops g i = [c] \<and> sc_job c = Some m)"
      if "m < length (pg_jobs g)" "jb_run_id (pg_jobs g ! m) = i" "jb_phase (pg_jobs g ! m) \<noteq> JobReaped" for m
      using base that unfolding part_base_def job_of_def by (metis (no_types, lifting))
    have "dict_get (pg_tasks g) i = Some m \<Longrightarrow> waiting_stops g i = []" for m using registered(2) [OF a] by blast
    then show ?thesis using each [OF that(1,3,5)] each [OF that(2,4,6)] by auto
  qed
  have moves: "being_stopped g i \<or> (\<exists>j. dict_get (pg_tasks g) i = Some j \<and> (\<exists>e\<in>set (job_moves j). perform e g \<noteq> None)) \<or>
       pr_waiting_for r = WaitChoice \<and> (\<exists>b. current_beat r = Inr b \<and> si_type (be_input b) = ChoiceInput)"
    if running: "pr_state r = RunningRun"
  proof (cases "dict_get (pg_tasks g) i")
    case (Some j)
    obtain job where job: "job_of g i j = Some job" "job_fits r job" using registered(1) [OF a Some] by blast
    have "jb_phase job \<noteq> JobReaped" using job(2) by (auto simp: job_fits_def split: if_splits)
    then have "\<exists>e\<in>set (job_moves j). perform e g \<noteq> None" using job_can_move [OF ok] job_ofD [OF job(1)] by blast
    then show ?thesis using Some by blast
  next
    case None
    then show ?thesis using runner_okD(3) [OF ok assms(2)] running
      by (auto simp: part_goes_on_def being_stopped_waiting current_beat_def)
  qed
  have stale: "\<exists>g' r'. program_reachable (\<lambda>t. t) g' \<and> dict_get (pg_runs g') ''p'' = Some r' \<and>
       map (\<lambda>t. (tu_beat_id t, tu_input_text t)) (pr_records r') = [(''a'', [67]), (''b'', [67])] \<and>
       map (\<lambda>b. (be_id b, si_text (be_input b))) (ps_beats (pr_script r')) = [(''a'', Some [67]), (''b'', Some [68])]"
    using retry_repeats_input by (auto simp: show_turns_def)
  show ?thesis
    using sound_snapshot [of r] run one moves stale unfolding script_run_ok_def turns_recorded_def by (intro conjI) blast+
qed

text \<open>
  C32. One program per room, as long as commands come in order: two live runs of a room are the same run, and it is the one
  that looking the room up finds.  Two commands out of order break this: retrying a failed run after another
  one has started in its room, and stopping a stopped run again, which frees the room of another one; each leads to
  two programs that run in one room.
\<close>

theorem one_program_per_room:
  assumes "program_orderly casefold g" and "dict_get (pg_runs g) i = Some r" and "live_state (pr_state r)"
  shows "active_run (pr_room_id r) g = (g, Some r) \<and>
    (\<forall>k q. dict_get (pg_runs g) k = Some q \<and> live_state (pr_state q) \<and> pr_room_id q = pr_room_id r \<longrightarrow> k = i) \<and>
    (\<exists>g'. program_reachable (\<lambda>t. t) g' \<and> run_view g' = [(''p'', 7, RunningRun), (''q'', 7, RunningRun)]) \<and>
    (\<exists>g'. program_reachable (\<lambda>t. t) g' \<and> run_view g' = [(''p'', 7, StoppedRun), (''q'', 7, RunningRun), (''u'', 7, RunningRun)])"
proof (intro conjI)
  have ok: "runner_ok g" by (rule orderly_runner_ok [OF assms(1)])
  have mapped: "dict_get (pg_active_by_room g) (pr_room_id r) = Some i" by (rule runner_okD(2) [OF ok assms(2,3)])
  then show "active_run (pr_room_id r) g = (g, Some r)" using assms(2,3) by (simp add: active_run_def)
  show "\<forall>k q. dict_get (pg_runs g) k = Some q \<and> live_state (pr_state q) \<and> pr_room_id q = pr_room_id r \<longrightarrow> k = i"
    using runner_okD(2) [OF ok] mapped by (metis option.inject)
  show "\<exists>g'. program_reachable (\<lambda>t. t) g' \<and> run_view g' = [(''p'', 7, RunningRun), (''q'', 7, RunningRun)]"
    by (rule retry_shares_room)
  show "\<exists>g'. program_reachable (\<lambda>t. t) g' \<and> run_view g' = [(''p'', 7, StoppedRun), (''q'', 7, RunningRun), (''u'', 7, RunningRun)]"
    by (rule stop_shares_room)
qed

text \<open>The state after a start and the first answer is in order.\<close>

lemma show_orderly:
  "\<exists>g r. program_orderly (\<lambda>t. t) g \<and> dict_get (pg_runs g) ''p'' = Some r \<and> pr_state r = RunningRun \<and> pr_current_index r = 1"
proof -
  obtain g1 where g1: "perform (show_start ''p'') show_runner = Some g1" "dict_get (pg_runs show_runner) ''p'' = None"
    by (simp add: show_start_def new_program_runner_def)
  have o1: "program_orderly (\<lambda>t. t) g1"
    by (rule orderly_performs [OF orderly_new _ _ g1(1)]) (use show_parsed g1(2) in \<open>auto simp: show_start_def show_published_def\<close>)
  obtain g2 where g2: "perform_fresh [show_start ''p'', TurnBegins 0 ''t'', DispatchEnds 0 (Replied [65] None None)] show_runner = Some g2"
    "map_option (\<lambda>r. (pr_state r, pr_current_index r)) (dict_get (pg_runs g2) ''p'') = Some (RunningRun, 1)"
  proof -
    have "map_option (\<lambda>g. map_option (\<lambda>r. (pr_state r, pr_current_index r)) (dict_get (pg_runs g) ''p''))
        (perform_fresh [show_start ''p'', TurnBegins 0 ''t'', DispatchEnds 0 (Replied [65] None None)] show_runner) = Some (Some (RunningRun, 1))"
      by code_simp
    then show thesis using that by (auto simp: map_option_case split: option.splits)
  qed
  then obtain g3 where "perform (TurnBegins 0 ''t'') g1 = Some g3" "perform (DispatchEnds 0 (Replied [65] None None)) g3 = Some g2"
    using g1 by (auto simp: show_start_def simp del: perform.simps split: option.splits)
  then have g3: "perform (TurnBegins 0 ''t'') g1 = Some g3" "perform (DispatchEnds 0 (Replied [65] None None)) g3 = Some g2" .
  have "program_orderly (\<lambda>t. t) g3" by (rule orderly_performs [OF o1 _ _ g3(1)]) simp_all
  then have "program_orderly (\<lambda>t. t) g2" by (rule orderly_performs [OF _ _ _ g3(2)]) simp_all
  then show ?thesis using g2(2) by auto
qed

theorem program_turns_in_order_witness:
  "\<exists>g r view. program_orderly (\<lambda>t. t) g \<and> dict_get (pg_runs g) ''p'' = Some r \<and> pr_current_index r = 1 \<and> run_snapshot_of r = Inr view"
proof -
  obtain g r where g: "program_orderly (\<lambda>t. t) g" "dict_get (pg_runs g) ''p'' = Some r" "pr_current_index r = 1" using show_orderly by blast
  with program_turns_in_order [OF g(1,2)] show ?thesis by blast
qed

theorem one_program_per_room_witness:
  "\<exists>g r. program_orderly (\<lambda>t. t) g \<and> dict_get (pg_runs g) ''p'' = Some r \<and> active_run (pr_room_id r) g = (g, Some r)"
proof -
  obtain g r where g: "program_orderly (\<lambda>t. t) g" "dict_get (pg_runs g) ''p'' = Some r" "pr_state r = RunningRun" using show_orderly by blast
  then have "live_state (pr_state r)" by (simp add: live_state_def)
  with one_program_per_room [OF g(1,2)] g show ?thesis by blast
qed

end
