(* ===== verification/Danmaku_Buffer.thy ===== *)
theory Danmaku_Buffer
  imports Prelude Unicode_Text
begin

text \<open>
  The buffer of live comments of \<open>services/bilibili/danmaku_buffer.py\<close>, from which hot phrases are read: a
  ring of texts with their times, and a table of how many texts of the ring a phrase occurs in.  Parameters:
  \<open>digit\<close> is the table of Unicode digits, \<open>iterate\<close> is the order in which Python goes through a set that was
  filled in a given order, and \<open>now\<close> is the clock.
\<close>

section \<open>Phrases\<close>

text \<open>The stop words, as code points.\<close>

definition stopwords :: "unicode list" where
  "stopwords =
     [[30340], [20102], [22312], [26159], [25105], [26377],
      [21644], [23601], [19981], [20154], [37117], [19968],
      [19968, 20010], [36825, 20010], [37027, 20010], [20160, 20040], [24590, 20040], [22914, 20309],
      [21487, 20197], [27809, 26377], [36824, 26159], [20294, 26159], [22240, 20026], [25152, 20197],
      [22914, 26524], [34429, 28982], [32780, 19988], [25110, 32773], [19981, 26159], [23601, 26159],
      [25105, 20204], [20320, 20204], [20182, 20204], [23427, 20204], [33258, 24049], [36215, 26469],
      [36825, 20123], [37027, 20123]]"

definition all_digits :: "(nat \<Rightarrow> bool) \<Rightarrow> unicode \<Rightarrow> bool" where
  "all_digits digit s \<longleftrightarrow> s \<noteq> [] \<and> list_all digit s"

definition junk_phrase :: "(nat \<Rightarrow> bool) \<Rightarrow> unicode \<Rightarrow> bool" where
  "junk_phrase digit p \<longleftrightarrow> strip_unicode p = [] \<or> all_digits digit p \<or> p \<in> set stopwords"

definition phrase_grams :: "(nat \<Rightarrow> bool) \<Rightarrow> unicode \<Rightarrow> unicode list" where
  "phrase_grams digit s =
     filter (\<lambda>p. \<not> junk_phrase digit p)
       (concat (map (\<lambda>n. map (\<lambda>i. take n (drop i s)) [0..<length s - n + 1]) [2..<min 7 (length s + 1)]))"

text \<open>The set of phrases, in the order in which they are added to it.\<close>

definition extract_phrases :: "(nat \<Rightarrow> bool) \<Rightarrow> unicode \<Rightarrow> unicode list" where
  "extract_phrases digit s = first_occurrences (phrase_grams digit s)"

section \<open>The buffer\<close>

record danmaku_phrase =
  dp_text :: unicode
  dp_frequency :: int
  dp_first_seen :: rat
  dp_last_seen :: rat
  dp_source_room_id :: int

record danmaku_buffer =
  db_max_size :: int
  db_buffer :: "unicode list"
  db_timestamps :: "rat list"
  db_phrase_counter :: "(unicode, int) dict"
  db_phrase_first_seen :: "(unicode, rat) dict"
  db_phrase_last_seen :: "(unicode, rat) dict"
  db_room_id :: int

definition new_danmaku_buffer :: "int \<Rightarrow> danmaku_buffer" where
  "new_danmaku_buffer max_size =
     \<lparr>db_max_size = max_size, db_buffer = [], db_timestamps = [], db_phrase_counter = [],
      db_phrase_first_seen = [], db_phrase_last_seen = [], db_room_id = 0\<rparr>"

definition count_phrase :: "rat \<Rightarrow> unicode \<Rightarrow> danmaku_buffer \<Rightarrow> danmaku_buffer" where
  "count_phrase now p b =
     b\<lparr>db_phrase_counter := dict_add p 1 (db_phrase_counter b),
       db_phrase_first_seen :=
         (case dict_get (db_phrase_first_seen b) p of
            None \<Rightarrow> dict_set p now (db_phrase_first_seen b)
          | Some first \<Rightarrow> db_phrase_first_seen b),
       db_phrase_last_seen := dict_set p now (db_phrase_last_seen b)\<rparr>"

definition update_phrases ::
    "(nat \<Rightarrow> bool) \<Rightarrow> (unicode list \<Rightarrow> unicode list) \<Rightarrow> unicode \<Rightarrow> rat \<Rightarrow> danmaku_buffer \<Rightarrow> danmaku_buffer" where
  "update_phrases digit iterate s now b = fold (count_phrase now) (iterate (extract_phrases digit s)) b"

definition discount_phrase :: "unicode \<Rightarrow> danmaku_buffer \<Rightarrow> danmaku_buffer" where
  "discount_phrase p b =
     (case dict_get (db_phrase_counter b) p of
        None \<Rightarrow> b
      | Some n \<Rightarrow>
          if n - 1 \<le> 0
          then b\<lparr>db_phrase_counter := dict_del p (db_phrase_counter b),
                 db_phrase_first_seen := dict_del p (db_phrase_first_seen b),
                 db_phrase_last_seen := dict_del p (db_phrase_last_seen b)\<rparr>
          else b\<lparr>db_phrase_counter := dict_set p (n - 1) (db_phrase_counter b)\<rparr>)"

definition decrement_phrase ::
    "(nat \<Rightarrow> bool) \<Rightarrow> (unicode list \<Rightarrow> unicode list) \<Rightarrow> unicode \<Rightarrow> danmaku_buffer \<Rightarrow> danmaku_buffer" where
  "decrement_phrase digit iterate s b = fold discount_phrase (iterate (extract_phrases digit s)) b"

definition min_danmaku_length :: nat where
  "min_danmaku_length = 2"

text \<open>The texts that \<open>add\<close> takes, stripped; it returns at once for the others.\<close>

definition cleaned_text :: "(nat \<Rightarrow> bool) \<Rightarrow> unicode \<Rightarrow> unicode option" where
  "cleaned_text digit s =
     (let cleaned = strip_unicode s in
      if s = [] then None
      else if length cleaned < min_danmaku_length then None
      else if all_digits digit cleaned then None
      else Some cleaned)"

text \<open>\<open>None\<close>: there is nothing to take from the ring, as in a buffer without room.\<close>

definition evict_oldest ::
    "(nat \<Rightarrow> bool) \<Rightarrow> (unicode list \<Rightarrow> unicode list) \<Rightarrow> danmaku_buffer \<Rightarrow> danmaku_buffer option" where
  "evict_oldest digit iterate b =
     (case db_buffer b of
        [] \<Rightarrow> None
      | oldest # later \<Rightarrow>
          Some (decrement_phrase digit iterate oldest
                 (b\<lparr>db_buffer := later, db_timestamps := tl (db_timestamps b)\<rparr>)))"

text \<open>The \<open>IndexError\<close> of taking the oldest text of an empty ring.\<close>

datatype danmaku_error = PopFromEmpty

definition add_danmaku ::
    "(nat \<Rightarrow> bool) \<Rightarrow> (unicode list \<Rightarrow> unicode list) \<Rightarrow> unicode \<Rightarrow> int \<Rightarrow> rat \<Rightarrow> danmaku_buffer \<Rightarrow>
     danmaku_buffer \<times> danmaku_error option" where
  "add_danmaku digit iterate s room_id now b =
     (case cleaned_text digit s of
        None \<Rightarrow> (b, None)
      | Some cleaned \<Rightarrow>
          (let b1 = b\<lparr>db_room_id := (if room_id \<noteq> 0 then room_id else db_room_id b)\<rparr> in
           (case (if db_max_size b1 \<le> int (length (db_buffer b1)) then evict_oldest digit iterate b1 else Some b1) of
              None \<Rightarrow> (b1, Some PopFromEmpty)
            | Some b2 \<Rightarrow>
                (update_phrases digit iterate cleaned now
                   (b2\<lparr>db_buffer := db_buffer b2 @ [cleaned], db_timestamps := db_timestamps b2 @ [now]\<rparr>), None))))"

definition clear_danmaku :: "danmaku_buffer \<Rightarrow> danmaku_buffer" where
  "clear_danmaku b =
     b\<lparr>db_buffer := [], db_timestamps := [], db_phrase_counter := [], db_phrase_first_seen := [],
       db_phrase_last_seen := []\<rparr>"

section \<open>Queries\<close>

definition hot_phrase :: "rat \<Rightarrow> danmaku_buffer \<Rightarrow> unicode \<times> int \<Rightarrow> danmaku_phrase" where
  "hot_phrase now b e =
     \<lparr>dp_text = fst e, dp_frequency = snd e,
      dp_first_seen = dict_get_default (db_phrase_first_seen b) (fst e) now,
      dp_last_seen = dict_get_default (db_phrase_last_seen b) (fst e) 0,
      dp_source_room_id = db_room_id b\<rparr>"

text \<open>The sort is stable, also in reverse.\<close>

definition get_hot_phrases :: "int \<Rightarrow> int \<Rightarrow> rat \<Rightarrow> danmaku_buffer \<Rightarrow> danmaku_phrase list" where
  "get_hot_phrases min_freq window_minutes now b =
     sort_key (\<lambda>p. - dp_frequency p)
       (map (hot_phrase now b)
         (filter (\<lambda>(p, n). \<not> dict_get_default (db_phrase_last_seen b) p 0 < now - of_int window_minutes * 60 \<and>
                          \<not> n < min_freq \<and> \<not> n \<le> 0)
           (db_phrase_counter b)))"

text \<open>A slice \<open>xs[:limit]\<close>: a negative limit counts from the end.\<close>

definition slice_to :: "int \<Rightarrow> 'a list \<Rightarrow> 'a list" where
  "slice_to limit xs = (if 0 \<le> limit then take (nat limit) xs else take (length xs - nat (- limit)) xs)"

definition get_recent_danmaku :: "int \<Rightarrow> danmaku_buffer \<Rightarrow> unicode list" where
  "get_recent_danmaku limit b = (if db_buffer b = [] then [] else slice_to limit (rev (db_buffer b)))"

record danmaku_stats =
  ds_total_danmaku :: nat
  ds_unique_phrases :: nat
  ds_max_size :: int
  ds_room_id :: int
  ds_oldest_timestamp :: "rat option"
  ds_newest_timestamp :: "rat option"
  ds_age_seconds :: rat

definition get_stats :: "rat \<Rightarrow> danmaku_buffer \<Rightarrow> danmaku_stats" where
  "get_stats now b =
     (let times = db_timestamps b in
      \<lparr>ds_total_danmaku = length (db_buffer b), ds_unique_phrases = length (db_phrase_counter b),
       ds_max_size = db_max_size b, ds_room_id = db_room_id b,
       ds_oldest_timestamp = (if times = [] then None else Some (hd times)),
       ds_newest_timestamp = (if times = [] then None else Some (last times)),
       ds_age_seconds = (if times = [] then 0 else now - hd times)\<rparr>)"

definition total_danmaku :: "danmaku_buffer \<Rightarrow> nat" where
  "total_danmaku b = length (db_buffer b)"

end
