(* ===== verification/Danmaku_Buffer_Properties.thy ===== *)
theory Danmaku_Buffer_Properties
  imports Danmaku_Buffer
begin

text \<open>
  The table of phrases against a recount: after any calls the ring holds the last texts that were accepted,
  and the hot phrases are those that a count over these texts finds.
\<close>

section \<open>The reference\<close>

text \<open>What is accepted since the last \<open>clear\<close>, with its time.\<close>

datatype danmaku_call =
    AddDanmaku unicode int rat
  | ClearDanmaku

primrec danmaku_called ::
    "(nat \<Rightarrow> bool) \<Rightarrow> (unicode list \<Rightarrow> unicode list) \<Rightarrow> danmaku_call \<Rightarrow> danmaku_buffer \<Rightarrow> danmaku_buffer" where
  "danmaku_called digit iterate (AddDanmaku s room_id now) b = fst (add_danmaku digit iterate s room_id now b)"
| "danmaku_called digit iterate ClearDanmaku b = clear_danmaku b"

primrec accepted_danmaku :: "(nat \<Rightarrow> bool) \<Rightarrow> danmaku_call \<Rightarrow> (unicode \<times> rat) list \<Rightarrow> (unicode \<times> rat) list" where
  "accepted_danmaku digit (AddDanmaku s room_id now) es =
     (case cleaned_text digit s of None \<Rightarrow> es | Some cleaned \<Rightarrow> es @ [(cleaned, now)])"
| "accepted_danmaku digit ClearDanmaku es = []"

text \<open>The entries a phrase occurs in.\<close>

definition uses_of :: "(nat \<Rightarrow> bool) \<Rightarrow> unicode \<Rightarrow> (unicode \<times> rat) list \<Rightarrow> (unicode \<times> rat) list" where
  "uses_of digit p es = filter (\<lambda>e. p \<in> set (extract_phrases digit (fst e))) es"

text \<open>Going through a set meets each of its elements once.\<close>

definition iterates_sets :: "(unicode list \<Rightarrow> unicode list) \<Rightarrow> bool" where
  "iterates_sets iterate \<longleftrightarrow> (\<forall>xs. distinct xs \<longrightarrow> distinct (iterate xs) \<and> set (iterate xs) = set xs)"

section \<open>Counting and discounting the phrases of a text\<close>

lemma distinct_extract [simp]: "distinct (extract_phrases digit s)"
  by (simp add: extract_phrases_def)

lemma count_fields [simp]:
  "db_max_size (fold (count_phrase now) ps b) = db_max_size b"
  "db_buffer (fold (count_phrase now) ps b) = db_buffer b"
  "db_timestamps (fold (count_phrase now) ps b) = db_timestamps b"
  by (induction ps arbitrary: b) (simp_all add: count_phrase_def)

lemma discount_fields [simp]:
  "db_max_size (fold discount_phrase ps b) = db_max_size b"
  "db_buffer (fold discount_phrase ps b) = db_buffer b"
  "db_timestamps (fold discount_phrase ps b) = db_timestamps b"
  by (induction ps arbitrary: b) (simp_all add: discount_phrase_def split: option.split)

lemma count_keys:
  "distinct (dict_keys (db_phrase_counter b)) \<Longrightarrow> distinct (dict_keys (db_phrase_counter (fold (count_phrase now) ps b)))"
  by (induction ps arbitrary: b) (simp_all add: count_phrase_def)

lemma discount_keys:
  "distinct (dict_keys (db_phrase_counter b)) \<Longrightarrow> distinct (dict_keys (db_phrase_counter (fold discount_phrase ps b)))"
proof (induction ps arbitrary: b)
  case (Cons p ps)
  have "distinct (dict_keys (db_phrase_counter (discount_phrase p b)))"
    using Cons.prems by (simp add: discount_phrase_def distinct_keys_set distinct_keys_del split: option.split)
  then show ?case using Cons.IH by simp
qed simp

lemma counted:
  assumes "distinct ps"
  shows "dict_get (db_phrase_counter (fold (count_phrase now) ps b)) p =
         (if p \<in> set ps then Some (dict_get_default (db_phrase_counter b) p 0 + 1) else dict_get (db_phrase_counter b) p)"
    and "dict_get (db_phrase_first_seen (fold (count_phrase now) ps b)) p =
         (case dict_get (db_phrase_first_seen b) p of
            None \<Rightarrow> if p \<in> set ps then Some now else None
          | Some first \<Rightarrow> Some first)"
    and "dict_get (db_phrase_last_seen (fold (count_phrase now) ps b)) p =
         (if p \<in> set ps then Some now else dict_get (db_phrase_last_seen b) p)"
  using assms
  by (induction ps arbitrary: b)
     (auto simp: count_phrase_def dict_add_def dict_get_default_def dict_simps simp del: map_of_eq_None_iff
           split: option.split)

lemma discounted:
  assumes "distinct ps"
  shows "dict_get (db_phrase_counter (fold discount_phrase ps b)) p =
         (case dict_get (db_phrase_counter b) p of
            None \<Rightarrow> None
          | Some n \<Rightarrow> if p \<in> set ps then (if n - 1 \<le> 0 then None else Some (n - 1)) else Some n)"
    and "dict_get (db_phrase_first_seen (fold discount_phrase ps b)) p =
         (if p \<in> set ps \<and> (case dict_get (db_phrase_counter b) p of None \<Rightarrow> False | Some n \<Rightarrow> n - 1 \<le> 0) then None
          else dict_get (db_phrase_first_seen b) p)"
    and "dict_get (db_phrase_last_seen (fold discount_phrase ps b)) p =
         (if p \<in> set ps \<and> (case dict_get (db_phrase_counter b) p of None \<Rightarrow> False | Some n \<Rightarrow> n - 1 \<le> 0) then None
          else dict_get (db_phrase_last_seen b) p)"
  using assms
  by (induction ps arbitrary: b)
     (auto simp: discount_phrase_def dict_simps split: option.split if_splits)

section \<open>The invariant\<close>

text \<open>\<open>es\<close> is what the ring holds and \<open>all\<close> everything accepted since the last \<open>clear\<close>.\<close>

definition table_ok :: "(nat \<Rightarrow> bool) \<Rightarrow> (unicode \<times> rat) list \<Rightarrow> danmaku_buffer \<Rightarrow> bool" where
  "table_ok digit es b \<longleftrightarrow>
     distinct (dict_keys (db_phrase_counter b)) \<and>
     (\<forall>p. let us = uses_of digit p es in
        dict_get (db_phrase_counter b) p = (if us = [] then None else Some (int (length us))) \<and>
        dict_get (db_phrase_last_seen b) p = (if us = [] then None else Some (snd (last us))) \<and>
        (dict_get (db_phrase_first_seen b) p = None \<longleftrightarrow> us = []))"

definition ring_ok :: "(unicode \<times> rat) list \<Rightarrow> danmaku_buffer \<Rightarrow> bool" where
  "ring_ok es b \<longleftrightarrow> db_buffer b = map fst es \<and> db_timestamps b = map snd es"

definition first_ok :: "(nat \<Rightarrow> bool) \<Rightarrow> (unicode \<times> rat) list \<Rightarrow> danmaku_buffer \<Rightarrow> bool" where
  "first_ok digit es b \<longleftrightarrow>
     (\<forall>p t. dict_get (db_phrase_first_seen b) p = Some t \<longrightarrow> (\<forall>e\<in>set (uses_of digit p es). t \<le> snd e))"

lemma uses_Cons:
  "uses_of digit p (e # es) =
     (if p \<in> set (extract_phrases digit (fst e)) then e # uses_of digit p es else uses_of digit p es)"
  by (simp add: uses_of_def)

lemma uses_snoc:
  "uses_of digit p (es @ [e]) =
     (if p \<in> set (extract_phrases digit (fst e)) then uses_of digit p es @ [e] else uses_of digit p es)"
  by (simp add: uses_of_def)

lemma table_okD:
  assumes "table_ok digit es b"
  shows "distinct (dict_keys (db_phrase_counter b))"
    "dict_get (db_phrase_counter b) p =
       (if uses_of digit p es = [] then None else Some (int (length (uses_of digit p es))))"
    "dict_get (db_phrase_last_seen b) p =
       (if uses_of digit p es = [] then None else Some (snd (last (uses_of digit p es))))"
    "dict_get (db_phrase_first_seen b) p = None \<longleftrightarrow> uses_of digit p es = []"
  using assms unfolding table_ok_def Let_def by blast+

lemma decrement_ok:
  assumes "iterates_sets iterate" "table_ok digit (e # es) b"
  shows "table_ok digit es (decrement_phrase digit iterate (fst e) b)"
proof -
  let ?ps = "iterate (extract_phrases digit (fst e))"
  have ps: "distinct ?ps" "set ?ps = set (extract_phrases digit (fst e))"
    using assms(1) by (simp_all add: iterates_sets_def)
  note t = table_okD [OF assms(2)]
  show ?thesis
    unfolding table_ok_def Let_def decrement_phrase_def
  proof (intro conjI allI)
    show "distinct (dict_keys (db_phrase_counter (fold discount_phrase ?ps b)))"
      by (rule discount_keys [OF t(1)])
    fix p
    note d = discounted [OF ps(1), of b p] and u = t(2-4) [of p]
    show "dict_get (db_phrase_counter (fold discount_phrase ?ps b)) p =
        (if uses_of digit p es = [] then None else Some (int (length (uses_of digit p es))))"
      using d(1) u by (simp add: uses_Cons ps(2) del: map_of_eq_None_iff)
    show "dict_get (db_phrase_last_seen (fold discount_phrase ?ps b)) p =
        (if uses_of digit p es = [] then None else Some (snd (last (uses_of digit p es))))"
      using d(3) u by (simp add: uses_Cons ps(2) del: map_of_eq_None_iff)
    show "dict_get (db_phrase_first_seen (fold discount_phrase ?ps b)) p = None \<longleftrightarrow> uses_of digit p es = []"
      using d(2) u by (simp add: uses_Cons ps(2) del: map_of_eq_None_iff)
  qed
qed

lemma update_ok:
  assumes "iterates_sets iterate" "table_ok digit es b"
  shows "table_ok digit (es @ [(s, now)]) (update_phrases digit iterate s now b)"
proof -
  let ?ps = "iterate (extract_phrases digit s)"
  have ps: "distinct ?ps" "set ?ps = set (extract_phrases digit s)"
    using assms(1) by (simp_all add: iterates_sets_def)
  note t = table_okD [OF assms(2)]
  show ?thesis
    unfolding table_ok_def Let_def update_phrases_def
  proof (intro conjI allI)
    show "distinct (dict_keys (db_phrase_counter (fold (count_phrase now) ?ps b)))"
      by (rule count_keys [OF t(1)])
    fix p
    note d = counted [OF ps(1), of now b p] and u = t(2-4) [of p]
    show "dict_get (db_phrase_counter (fold (count_phrase now) ?ps b)) p =
        (if uses_of digit p (es @ [(s, now)]) = [] then None else Some (int (length (uses_of digit p (es @ [(s, now)])))))"
      using d(1) u by (simp add: uses_snoc ps(2) dict_get_default_def del: map_of_eq_None_iff)
    show "dict_get (db_phrase_last_seen (fold (count_phrase now) ?ps b)) p =
        (if uses_of digit p (es @ [(s, now)]) = [] then None else Some (snd (last (uses_of digit p (es @ [(s, now)])))))"
      using d(3) u by (simp add: uses_snoc ps(2) del: map_of_eq_None_iff)
    show "dict_get (db_phrase_first_seen (fold (count_phrase now) ?ps b)) p = None \<longleftrightarrow>
        uses_of digit p (es @ [(s, now)]) = []"
      using d(2) u by (auto simp add: uses_snoc ps(2) simp del: map_of_eq_None_iff split: option.split_asm)
  qed
qed

lemma decrement_first:
  assumes "first_ok digit (e # es) b" "iterates_sets iterate"
  shows "first_ok digit es (decrement_phrase digit iterate (fst e) b)"
  unfolding first_ok_def
proof (intro allI impI)
  fix p t
  let ?ps = "iterate (extract_phrases digit (fst e))"
  assume "dict_get (db_phrase_first_seen (decrement_phrase digit iterate (fst e) b)) p = Some t"
  moreover have "distinct ?ps" using assms(2) by (simp add: iterates_sets_def)
  ultimately have "dict_get (db_phrase_first_seen b) p = Some t"
    by (simp add: decrement_phrase_def discounted(2) split: if_splits)
  then have "\<forall>e\<in>set (uses_of digit p (e # es)). t \<le> snd e" using assms(1) unfolding first_ok_def by blast
  then show "\<forall>e\<in>set (uses_of digit p es). t \<le> snd e" by (simp add: uses_Cons split: if_splits)
qed

lemma update_first:
  assumes "first_ok digit es b" "iterates_sets iterate" "table_ok digit es b" "\<forall>e\<in>set es. snd e \<le> now"
  shows "first_ok digit (es @ [(s, now)]) (update_phrases digit iterate s now b)"
  unfolding first_ok_def
proof (intro allI impI)
  fix p t
  let ?ps = "iterate (extract_phrases digit s)"
  assume "dict_get (db_phrase_first_seen (update_phrases digit iterate s now b)) p = Some t"
  moreover have "distinct ?ps" using assms(2) by (simp add: iterates_sets_def)
  ultimately have c: "dict_get (db_phrase_first_seen b) p = Some t \<or> dict_get (db_phrase_first_seen b) p = None \<and> t = now"
    by (auto simp: update_phrases_def counted(2) split: option.split_asm if_splits)
  have none: "dict_get (db_phrase_first_seen b) p = None \<longleftrightarrow> uses_of digit p es = []"
    by (rule table_okD(4) [OF assms(3)])
  have "t \<le> now \<and> (\<forall>e\<in>set (uses_of digit p es). t \<le> snd e)"
  proof (cases "dict_get (db_phrase_first_seen b) p")
    case None
    then show ?thesis using c none by auto
  next
    case (Some t')
    then have t: "t' = t" and ne: "uses_of digit p es \<noteq> []" using c none by auto
    then have le: "\<forall>e\<in>set (uses_of digit p es). t \<le> snd e" using assms(1) Some unfolding first_ok_def by blast
    obtain e where "e \<in> set (uses_of digit p es)" using ne by (cases "uses_of digit p es") auto
    moreover from this have "snd e \<le> now" using assms(4) by (simp add: uses_of_def)
    ultimately show ?thesis using le by force
  qed
  then show "\<forall>e\<in>set (uses_of digit p (es @ [(s, now)])). t \<le> snd e" by (simp add: uses_snoc)
qed

section \<open>Calls\<close>

definition buffer_ok :: "(nat \<Rightarrow> bool) \<Rightarrow> int \<Rightarrow> (unicode \<times> rat) list \<Rightarrow> danmaku_buffer \<Rightarrow> bool" where
  "buffer_ok digit n all b \<longleftrightarrow>
     db_max_size b = n \<and> ring_ok (last_n (nat n) all) b \<and> table_ok digit (last_n (nat n) all) b \<and>
     (sorted (map snd all) \<longrightarrow> first_ok digit (last_n (nat n) all) b)"

lemma last_n_snoc:
  assumes "0 < k"
  shows "last_n k (xs @ [x]) = (if k \<le> length (last_n k xs) then tl (last_n k xs) else last_n k xs) @ [x]"
proof (cases "k \<le> length xs")
  case True
  then have "length (xs @ [x]) - k = Suc (length xs - k)" "k \<le> length (last_n k xs)" by simp_all
  then show ?thesis using assms by (simp add: last_n_def drop_Suc tl_drop)
next
  case False
  then show ?thesis by (simp add: last_n_def)
qed

lemma last_n_Nil [simp]: "last_n k [] = []"
  by (simp add: last_n_def)

lemma table_ok_cong:
  assumes "db_phrase_counter b' = db_phrase_counter b" "db_phrase_first_seen b' = db_phrase_first_seen b"
    "db_phrase_last_seen b' = db_phrase_last_seen b"
  shows "table_ok digit es b' = table_ok digit es b" "first_ok digit es b' = first_ok digit es b"
  using assms by (simp_all add: table_ok_def first_ok_def Let_def)

lemma clear_ok: "buffer_ok digit n [] (clear_danmaku b)" if "db_max_size b = n"
  using that by (simp add: buffer_ok_def clear_danmaku_def ring_ok_def table_ok_def first_ok_def uses_of_def)

text \<open>What is left after making room for one text.\<close>

lemma room_made:
  assumes it: "iterates_sets iterate" and n: "0 < n" "db_max_size b = n"
    and ok: "ring_ok es b" "table_ok digit es b" "mono_times \<Longrightarrow> first_ok digit es b"
  shows "\<exists>b2. (if db_max_size b \<le> int (length (db_buffer b)) then evict_oldest digit iterate b else Some b) = Some b2 \<and>
    db_max_size b2 = n \<and> ring_ok (if nat n \<le> length es then tl es else es) b2 \<and>
    table_ok digit (if nat n \<le> length es then tl es else es) b2 \<and>
    (mono_times \<longrightarrow> first_ok digit (if nat n \<le> length es then tl es else es) b2)"
proof (cases "nat n \<le> length es")
  case True
  then obtain e later where es: "es = e # later" using n by (cases es) auto
  let ?m = "b\<lparr>db_buffer := map fst later, db_timestamps := map snd later\<rparr>"
  let ?d = "decrement_phrase digit iterate (fst e) ?m"
  have "table_ok digit (e # later) ?m" using ok(2) es by (simp add: table_ok_def)
  then have "table_ok digit later ?d" by (rule decrement_ok [OF it])
  moreover have "first_ok digit later ?d" if mono_times
    by (rule decrement_first [OF _ it]) (use ok(3) [OF that] es in \<open>simp add: first_ok_def\<close>)
  moreover have "db_max_size ?d = n" "ring_ok later ?d" by (simp_all add: decrement_phrase_def ring_ok_def n)
  moreover have "evict_oldest digit iterate b = Some ?d" using ok(1) by (simp add: evict_oldest_def ring_ok_def es)
  moreover have "n \<le> int (length (db_buffer b))" using True ok(1) by (simp add: ring_ok_def nat_le_iff)
  ultimately show ?thesis using True n(2) es by auto
next
  case False
  then have "\<not> n \<le> int (length (db_buffer b))" using ok(1) by (simp add: ring_ok_def nat_le_iff)
  then show ?thesis using False ok n(2) by simp
qed

text \<open>A buffer with room takes a text without an error, and keeps the invariant.\<close>

lemma add_ok:
  assumes it: "iterates_sets iterate" and n: "0 < n" and ok: "buffer_ok digit n all b"
  shows "snd (add_danmaku digit iterate s room_id now b) = None \<and>
         buffer_ok digit n (accepted_danmaku digit (AddDanmaku s room_id now) all)
           (fst (add_danmaku digit iterate s room_id now b))"
proof (cases "cleaned_text digit s")
  case None
  then show ?thesis using ok by (simp add: add_danmaku_def)
next
  case (Some cleaned)
  let ?es = "last_n (nat n) all" and ?all = "all @ [(cleaned, now)]"
  let ?b1 = "b\<lparr>db_room_id := (if room_id \<noteq> 0 then room_id else db_room_id b)\<rparr>"
  let ?es2 = "if nat n \<le> length ?es then tl ?es else ?es"
  obtain b2 where b2: "(if db_max_size ?b1 \<le> int (length (db_buffer ?b1)) then evict_oldest digit iterate ?b1 else Some ?b1) = Some b2"
    and f2: "db_max_size b2 = n" "ring_ok ?es2 b2" "table_ok digit ?es2 b2" "sorted (map snd all) \<longrightarrow> first_ok digit ?es2 b2"
    using room_made [of iterate n ?b1 ?es digit "sorted (map snd all)", OF it n] ok
    by (auto simp: buffer_ok_def ring_ok_def table_ok_cong [of ?b1 b])
  let ?b3 = "b2\<lparr>db_buffer := db_buffer b2 @ [cleaned], db_timestamps := db_timestamps b2 @ [now]\<rparr>"
  let ?u = "update_phrases digit iterate cleaned now ?b3"
  have r: "add_danmaku digit iterate s room_id now b = (?u, None)" using b2 by (simp add: add_danmaku_def Some)
  have w: "last_n (nat n) ?all = ?es2 @ [(cleaned, now)]" using n by (simp add: last_n_snoc)
  have t3: "table_ok digit ?es2 ?b3" using f2(3) by (simp add: table_ok_def)
  have "first_ok digit (?es2 @ [(cleaned, now)]) ?u" if "sorted (map snd ?all)"
  proof (rule update_first [OF _ it t3])
    have s: "sorted (map snd all)" "\<forall>e\<in>set all. snd e \<le> now" using that by (auto simp: sorted_append)
    show "first_ok digit ?es2 ?b3" using f2(4) s(1) by (simp add: first_ok_def)
    have "set ?es2 \<subseteq> set ?es" by (cases ?es) auto
    then show "\<forall>e\<in>set ?es2. snd e \<le> now" using s(2) set_last_n [of "nat n" all] by blast
  qed
  moreover have "ring_ok (?es2 @ [(cleaned, now)]) ?u" "db_max_size ?u = n"
    using f2(1,2) by (simp_all add: ring_ok_def update_phrases_def)
  moreover have "table_ok digit (?es2 @ [(cleaned, now)]) ?u" by (rule update_ok [OF it t3])
  ultimately have "buffer_ok digit n ?all ?u" unfolding buffer_ok_def w by blast
  then show ?thesis by (simp add: r Some)
qed

lemma calls_ok:
  assumes "iterates_sets iterate" "0 < n"
  shows "buffer_ok digit n (fold (accepted_danmaku digit) calls []) (fold (danmaku_called digit iterate) calls (new_danmaku_buffer n))"
proof (induction calls rule: rev_induct)
  case Nil
  then show ?case
    by (simp add: buffer_ok_def new_danmaku_buffer_def ring_ok_def table_ok_def first_ok_def uses_of_def)
next
  case (snoc c calls)
  then show ?case
  proof (cases c)
    case (AddDanmaku s room_id now)
    then show ?thesis using add_ok [OF assms snoc] by simp
  next
    case ClearDanmaku
    then show ?thesis using snoc clear_ok by (simp add: buffer_ok_def)
  qed
qed

section \<open>Hot phrases\<close>

lemma table_phrases:
  assumes "table_ok digit es b"
  shows "length (db_phrase_counter b) = card {p. uses_of digit p es \<noteq> []}"
proof -
  have "p \<in> set (dict_keys (db_phrase_counter b)) \<longleftrightarrow> uses_of digit p es \<noteq> []" for p
    using dict_get_None_keys [of "db_phrase_counter b" p] table_okD(2) [OF assms, of p] by (cases "uses_of digit p es = []") simp_all
  then have "set (dict_keys (db_phrase_counter b)) = {p. uses_of digit p es \<noteq> []}" by blast
  then show ?thesis using distinct_card [OF table_okD(1) [OF assms]] by simp
qed

text \<open>The time of the last use, and 0 for a phrase without any.\<close>

definition last_use :: "(nat \<Rightarrow> bool) \<Rightarrow> unicode \<Rightarrow> (unicode \<times> rat) list \<Rightarrow> rat" where
  "last_use digit p es = (if uses_of digit p es = [] then 0 else snd (last (uses_of digit p es)))"

lemma hot_phrase_exact:
  assumes "table_ok digit es b"
  shows "h \<in> set (get_hot_phrases min_freq window_minutes now b) \<longleftrightarrow>
    uses_of digit (dp_text h) es \<noteq> [] \<and> dp_frequency h = int (length (uses_of digit (dp_text h) es)) \<and>
    min_freq \<le> dp_frequency h \<and> dp_last_seen h = last_use digit (dp_text h) es \<and>
    now - of_int window_minutes * 60 \<le> dp_last_seen h \<and>
    dict_get (db_phrase_first_seen b) (dp_text h) = Some (dp_first_seen h) \<and> dp_source_room_id h = db_room_id b"
    (is "?l \<longleftrightarrow> ?r")
proof -
  let ?p = "dp_text h" and ?us = "uses_of digit (dp_text h) es"
  note t = table_okD(1) [OF assms] table_okD(2-4) [OF assms, of ?p]
  have l: "dict_get_default (db_phrase_last_seen b) ?p 0 = last_use digit ?p es"
    unfolding dict_get_default_def t(3) last_use_def by simp
  have mem: "(?p, n) \<in> set (db_phrase_counter b) \<longleftrightarrow> ?us \<noteq> [] \<and> n = int (length ?us)" for n
    unfolding dict_get_mem [OF t(1)] t(2) by auto
  have "?l \<longleftrightarrow> (\<exists>n. (?p, n) \<in> set (db_phrase_counter b) \<and> h = hot_phrase now b (?p, n) \<and>
      now - of_int window_minutes * 60 \<le> last_use digit ?p es \<and> min_freq \<le> n \<and> 0 < n)"
  proof -
    have "?l \<longleftrightarrow> (\<exists>p n. (p, n) \<in> set (db_phrase_counter b) \<and> h = hot_phrase now b (p, n) \<and>
        now - of_int window_minutes * 60 \<le> dict_get_default (db_phrase_last_seen b) p 0 \<and> min_freq \<le> n \<and> 0 < n)"
      unfolding get_hot_phrases_def set_sort set_map set_filter by (auto simp: not_less not_le)
    moreover have "p = ?p" if "h = hot_phrase now b (p, n)" for p n using that by (simp add: hot_phrase_def)
    ultimately show ?thesis unfolding l [symmetric] by metis
  qed
  also have "\<dots> \<longleftrightarrow> ?us \<noteq> [] \<and> h = hot_phrase now b (?p, int (length ?us)) \<and>
      now - of_int window_minutes * 60 \<le> last_use digit ?p es \<and> min_freq \<le> int (length ?us)"
    by (auto simp: mem)
  also have "\<dots> \<longleftrightarrow> ?r"
    using l t(4) by (cases h) (auto simp: hot_phrase_def dict_get_default_def simp del: map_of_eq_None_iff map_of_eq_Some_iff)
  finally show ?thesis .
qed

lemma hot_phrases_sorted:
  "distinct (dict_keys (db_phrase_counter b)) \<Longrightarrow> distinct (map dp_text (get_hot_phrases min_freq window_minutes now b))"
  "sorted_wrt (\<lambda>g h. dp_frequency h \<le> dp_frequency g) (get_hot_phrases min_freq window_minutes now b)"
proof -
  let ?es = "filter (\<lambda>(p, n). \<not> dict_get_default (db_phrase_last_seen b) p 0 < now - of_int window_minutes * 60 \<and>
    \<not> n < min_freq \<and> \<not> n \<le> 0) (db_phrase_counter b)"
  have "mset (map dp_text (get_hot_phrases min_freq window_minutes now b)) = mset (map fst ?es)"
    by (simp add: get_hot_phrases_def hot_phrase_def multiset.map_comp o_def)
  moreover assume "distinct (dict_keys (db_phrase_counter b))"
  then have "distinct (map fst ?es)" by (rule distinct_map_filter)
  ultimately show "distinct (map dp_text (get_hot_phrases min_freq window_minutes now b))"
    using mset_eq_imp_distinct_iff by blast
next
  have "sorted (map (\<lambda>p. - dp_frequency p) (get_hot_phrases min_freq window_minutes now b))"
    by (simp add: get_hot_phrases_def)
  then show "sorted_wrt (\<lambda>g h. dp_frequency h \<le> dp_frequency g) (get_hot_phrases min_freq window_minutes now b)"
    by (simp add: sorted_map)
qed

lemmas phrase_eval = phrase_grams_def upt_rec junk_phrase_def all_digits_def
  strip_unicode_def unicode_space_def stopwords_def

text \<open>A phrase of punctuation is counted.\<close>

lemma punctuation_counted: "\<not> digit 33 \<Longrightarrow> extract_phrases digit [33, 33] = [[33, 33]]"
  by (simp add: extract_phrases_def first_occurrences_def phrase_eval)

section \<open>The property\<close>

text \<open>
  C33. However texts are added and the buffer is cleared, a buffer with room never raises and holds the last
  texts that were accepted; its hot phrases are exactly those a recount over these texts finds, each once,
  the most frequent first, with the time of its last use, and, if the clock does not run backwards, a first
  time not after any of its uses.  The statistics count the phrases in use, and the recent texts are the last
  ones, newest first.  The order in which sets are gone through does not matter.
\<close>

theorem hot_phrases_recounted:
  assumes "iterates_sets iterate" "0 < n"
    and "b = fold (danmaku_called digit iterate) calls (new_danmaku_buffer n)"
    and "all = fold (accepted_danmaku digit) calls []" "es = last_n (nat n) all"
    and "hot = get_hot_phrases min_freq window_minutes now b"
  shows "snd (add_danmaku digit iterate s room_id t b) = None \<and>
    db_buffer b = map fst es \<and> db_timestamps b = map snd es \<and>
    (\<forall>p. p \<in> dp_text ` set hot \<longleftrightarrow>
       uses_of digit p es \<noteq> [] \<and> min_freq \<le> int (length (uses_of digit p es)) \<and>
       now - of_int window_minutes * 60 \<le> last_use digit p es) \<and>
    (\<forall>h\<in>set hot.
       dp_frequency h = int (length (uses_of digit (dp_text h) es)) \<and> dp_last_seen h = last_use digit (dp_text h) es \<and>
       (sorted (map snd all) \<longrightarrow> (\<forall>e\<in>set (uses_of digit (dp_text h) es). dp_first_seen h \<le> snd e))) \<and>
    distinct (map dp_text hot) \<and> sorted_wrt (\<lambda>g h. dp_frequency h \<le> dp_frequency g) hot \<and>
    ds_unique_phrases (get_stats now b) = card {p. uses_of digit p es \<noteq> []} \<and>
    (0 \<le> limit \<longrightarrow> get_recent_danmaku limit b = take (nat limit) (rev (map fst es)))"
proof -
  have ok: "buffer_ok digit n all b" unfolding assms(3,4) by (rule calls_ok [OF assms(1,2)])
  then have ring: "ring_ok es b" and table: "table_ok digit es b" and first: "sorted (map snd all) \<Longrightarrow> first_ok digit es b"
    by (simp_all add: buffer_ok_def assms(5))
  have exact: "h \<in> set hot \<longleftrightarrow>
    uses_of digit (dp_text h) es \<noteq> [] \<and> dp_frequency h = int (length (uses_of digit (dp_text h) es)) \<and>
    min_freq \<le> dp_frequency h \<and> dp_last_seen h = last_use digit (dp_text h) es \<and>
    now - of_int window_minutes * 60 \<le> dp_last_seen h \<and>
    dict_get (db_phrase_first_seen b) (dp_text h) = Some (dp_first_seen h) \<and> dp_source_room_id h = db_room_id b" for h
    unfolding assms(6) by (rule hot_phrase_exact [OF table])
  have "p \<in> dp_text ` set hot \<longleftrightarrow>
    uses_of digit p es \<noteq> [] \<and> min_freq \<le> int (length (uses_of digit p es)) \<and>
    now - of_int window_minutes * 60 \<le> last_use digit p es" (is "_ \<longleftrightarrow> ?r") for p
  proof
    assume "p \<in> dp_text ` set hot"
    then show ?r using exact by auto
  next
    assume r: ?r
    then obtain u where "dict_get (db_phrase_first_seen b) p = Some u"
      using table_okD(4) [OF table, of p] by (cases "dict_get (db_phrase_first_seen b) p") blast+
    then have "\<lparr>dp_text = p, dp_frequency = int (length (uses_of digit p es)), dp_first_seen = u,
        dp_last_seen = last_use digit p es, dp_source_room_id = db_room_id b\<rparr> \<in> set hot"
      using r unfolding exact by simp
    then show "p \<in> dp_text ` set hot" by (metis danmaku_phrase.select_convs(1) image_eqI)
  qed
  moreover have "dp_frequency h = int (length (uses_of digit (dp_text h) es)) \<and> dp_last_seen h = last_use digit (dp_text h) es"
    if "h \<in> set hot" for h using exact [of h] that by blast
  moreover have "dp_first_seen h \<le> snd e"
    if "h \<in> set hot" "sorted (map snd all)" "e \<in> set (uses_of digit (dp_text h) es)" for h e
    using exact [of h] first that unfolding first_ok_def by blast
  moreover have "snd (add_danmaku digit iterate s room_id t b) = None" using add_ok [OF assms(1,2) ok] by blast
  moreover have "db_buffer b = map fst es" "db_timestamps b = map snd es" using ring by (simp_all add: ring_ok_def)
  moreover have "distinct (map dp_text hot)" unfolding assms(6) by (rule hot_phrases_sorted(1) [OF table_okD(1) [OF table]])
  moreover have "sorted_wrt (\<lambda>g h. dp_frequency h \<le> dp_frequency g) hot" unfolding assms(6) by (rule hot_phrases_sorted(2))
  moreover have "ds_unique_phrases (get_stats now b) = card {p. uses_of digit p es \<noteq> []}"
    using table_phrases [OF table] by (simp add: get_stats_def Let_def)
  moreover have "get_recent_danmaku limit b = take (nat limit) (rev (map fst es))" if "0 \<le> limit"
    using ring that by (auto simp: get_recent_danmaku_def slice_to_def ring_ok_def)
  ultimately show ?thesis by blast
qed

text \<open>
  Two laughs and a mark in a buffer of two: the first laugh is evicted and counts no more.
\<close>

theorem hot_phrases_recounted_witness:
  "let digit = (\<lambda>c::nat. 48 \<le> c \<and> c \<le> 57);
       b = fold (danmaku_called digit rev)
             [AddDanmaku [104, 104, 104] 7 10, AddDanmaku [32, 33, 33, 32] 0 11, AddDanmaku [49, 50] 0 12, AddDanmaku [104, 104] 0 13]
             (new_danmaku_buffer 2);
       hot = get_hot_phrases 1 30 20 b in
   snd (add_danmaku digit rev [104, 104] 7 14 b) = None \<and> db_buffer b = [[33, 33], [104, 104]] \<and>
   [104, 104] \<in> dp_text ` set hot \<and> [104, 104, 104] \<notin> dp_text ` set hot"
proof -
  let ?digit = "\<lambda>c::nat. 48 \<le> c \<and> c \<le> 57"
  let ?calls = "[AddDanmaku [104, 104, 104] 7 10, AddDanmaku [32, 33, 33, 32] 0 11, AddDanmaku [49, 50] 0 12, AddDanmaku [104, 104] 0 13]"
  let ?es = "last_n (nat 2) (fold (accepted_danmaku ?digit) ?calls [])"
  have it: "iterates_sets rev" by (simp add: iterates_sets_def)
  have es: "[([33, 33], 11), ([104, 104], 13)] = last_n (nat 2) (fold (accepted_danmaku ?digit) ?calls [])"
    by (simp add: last_n_def cleaned_text_def min_danmaku_length_def all_digits_def strip_unicode_def unicode_space_def)
  have grams: "phrase_grams ?digit [33, 33] = [[33, 33]]" "phrase_grams ?digit [104, 104] = [[104, 104]]"
    by (simp_all add: phrase_eval)
  have uses: "uses_of ?digit [104, 104] [([33, 33], 11), ([104, 104], 13)] = [([104, 104], 13)]"
    "uses_of ?digit [104, 104, 104] [([33, 33], 11), ([104, 104], 13)] = []"
    by (simp_all add: uses_of_def extract_phrases_def grams)
  obtain b where b: "b = fold (danmaku_called ?digit rev) ?calls (new_danmaku_buffer 2)" by simp
  obtain hot where hot: "hot = get_hot_phrases 1 30 20 b" by simp
  note h = hot_phrases_recounted [where s = "[104, 104]" and room_id = 7 and t = 14, OF it zero_less_numeral b refl es hot]
  have member: "p \<in> dp_text ` set hot \<longleftrightarrow> uses_of ?digit p [([33, 33], 11), ([104, 104], 13)] \<noteq> [] \<and>
      1 \<le> int (length (uses_of ?digit p [([33, 33], 11), ([104, 104], 13)])) \<and>
      20 - of_int 30 * 60 \<le> last_use ?digit p [([33, 33], 11), ([104, 104], 13)]" for p
    using h by blast
  have "[104, 104] \<in> dp_text ` set hot" "[104, 104, 104] \<notin> dp_text ` set hot"
    unfolding member uses by (simp_all add: last_use_def uses)
  then show ?thesis unfolding Let_def b [symmetric] hot [symmetric] using h by simp
qed

end
