(* ===== verification/Activity_Projection.thy ===== *)
theory Activity_Projection
  imports Public_Activity
begin

text \<open>
  The public form of an activity record, \<open>project_activity\<close> of \<open>tools/minecraft/voyager/public_activity.py\<close>, as the
  dictionary that \<open>model_dump(mode="json")\<close> gives, and the publisher with its window of delivered identifiers.
\<close>

section \<open>Values\<close>

text \<open>A Python value of public JSON; text is a list of code points.\<close>

datatype public_json =
    PNull
  | PBool bool
  | PInt int
  | PFloat rat
  | PText unicode
  | PList "public_json list"
  | PMap "(unicode \<times> public_json) list"

type_synonym public_map = "(unicode \<times> public_json) list"

definition ascii :: "string \<Rightarrow> unicode" where
  "ascii s = map code s"

section \<open>Names\<close>

definition phase_names :: "(unicode \<times> activity_phase) list" where
  "phase_names =
     [(ascii ''planning'', Planning), (ascii ''observing'', Observing), (ascii ''committed'', Committed),
      (ascii ''acting'', Acting), (ascii ''checking'', Checking), (ascii ''recovering'', Recovering),
      (ascii ''finished'', Finished)]"

definition intent_names :: "(unicode \<times> activity_intent) list" where
  "intent_names =
     [(ascii ''acquire'', IAcquire), (ascii ''craft'', ICraft), (ascii ''build'', IBuild), (ascii ''travel'', ITravel),
      (ascii ''combat'', ICombat), (ascii ''survive'', ISurvive), (ascii ''learn'', ILearn),
      (ascii ''discover'', IDiscover), (ascii ''interact'', IInteract)]"

definition outcome_names :: "(unicode \<times> activity_outcome) list" where
  "outcome_names =
     [(ascii ''active'', OActive), (ascii ''succeeded'', OSucceeded), (ascii ''failed'', OFailed),
      (ascii ''cancelled'', OCancelled), (ascii ''blocked'', OBlocked)]"

definition focus_kind_names :: "(unicode \<times> focus_kind) list" where
  "focus_kind_names =
     [(ascii ''item'', FItem), (ascii ''entity'', FEntity), (ascii ''place'', FPlace),
      (ascii ''structure'', FStructure), (ascii ''condition'', FCondition)]"

definition progress_unit_names :: "(unicode \<times> progress_unit) list" where
  "progress_unit_names =
     [(ascii ''objectives'', UObjectives), (ascii ''items'', UItems), (ascii ''blocks'', UBlocks),
      (ascii ''actions'', UActions)]"

text \<open>The name of a constant in such a table.\<close>

fun name_in :: "(unicode \<times> 'a) list \<Rightarrow> 'a \<Rightarrow> unicode" where
  "name_in [] x = []"
| "name_in ((n, y) # names) x = (if y = x then n else name_in names x)"

section \<open>The projection of a record\<close>

definition event_id_of :: "int \<Rightarrow> unicode" where
  "event_id_of n = ascii (''activity:'' @ str_of_int n)"

record activity_projection =
  mp_event_id :: unicode
  mp_projection_version :: int
  mp_occurred_at_ms :: int
  mp_mission_id :: "unicode option"
  mp_payload :: activity_payload

definition project_activity :: "activity_record \<Rightarrow> activity_projection" where
  "project_activity r =
     \<lparr>mp_event_id = event_id_of (ar_sequence r), mp_projection_version = ar_sequence r,
      mp_occurred_at_ms = ad_occurred_at_ms r, mp_mission_id = map_option ascii (ad_mission_id r),
      mp_payload = ad_payload r\<rparr>"

definition dump_payload :: "activity_payload \<Rightarrow> public_map" where
  "dump_payload p =
     [(ascii ''phase'', PText (name_in phase_names (ap_phase p))),
      (ascii ''intent'', case ap_intent p of None \<Rightarrow> PNull | Some i \<Rightarrow> PText (name_in intent_names i)),
      (ascii ''focus'', case ap_focus p of
         None \<Rightarrow> PNull
       | Some f \<Rightarrow> PMap [(ascii ''kind'', PText (name_in focus_kind_names (fo_kind f))), (ascii ''label'', PText (fo_label f))]),
      (ascii ''progress'', case ap_progress p of
         None \<Rightarrow> PNull
       | Some g \<Rightarrow> PMap [(ascii ''current'', PInt (pr_current g)), (ascii ''total'', PInt (pr_total g)),
           (ascii ''unit'', PText (name_in progress_unit_names (pr_unit g)))]),
      (ascii ''outcome'', PText (name_in outcome_names (ap_outcome p)))]"

definition dump_projection :: "activity_projection \<Rightarrow> public_map" where
  "dump_projection m =
     [(ascii ''schema_version'', PText (ascii ''1'')),
      (ascii ''event'', PText (ascii ''minecraft.activity.projection'')),
      (ascii ''event_id'', PText (mp_event_id m)),
      (ascii ''projection_kind'', PText (ascii ''activity'')),
      (ascii ''projection_version'', PInt (mp_projection_version m)),
      (ascii ''occurred_at_ms'', PInt (mp_occurred_at_ms m)),
      (ascii ''mission_id'', case mp_mission_id m of None \<Rightarrow> PNull | Some i \<Rightarrow> PText i),
      (ascii ''entity_id'', PText (ascii ''minecraft'')),
      (ascii ''payload'', PMap (dump_payload (mp_payload m)))]"

section \<open>The publisher\<close>

record activity_publisher =
  pu_maximum_delivered_ids :: int
  pu_delivered :: "unicode list"

definition new_publisher :: "int \<Rightarrow> activity_publisher" where
  "new_publisher maximum = \<lparr>pu_maximum_delivered_ids = maximum, pu_delivered = []\<rparr>"

text \<open>\<open>publish\<close> up to the emission: what is emitted, or nothing for an event that was delivered.\<close>

definition begin_publish :: "activity_record \<Rightarrow> activity_publisher \<Rightarrow> public_map option" where
  "begin_publish r p =
     (let event = project_activity r in
      if mp_event_id event \<in> set (pu_delivered p) then None else Some (dump_projection event))"

text \<open>
  After the emission returned; the oldest identifiers go.  \<open>None\<close> is the \<open>StopIteration\<close> of a negative maximum.
\<close>

definition end_publish :: "activity_record \<Rightarrow> activity_publisher \<Rightarrow> activity_publisher option" where
  "end_publish r p =
     (let i = mp_event_id (project_activity r);
          delivered = (if i \<in> set (pu_delivered p) then pu_delivered p else pu_delivered p @ [i])
      in if pu_maximum_delivered_ids p < 0 then None
         else Some (p\<lparr>pu_delivered := last_n (nat (pu_maximum_delivered_ids p)) delivered\<rparr>))"

end
