(* ===== verification/Narration.thy ===== *)
theory Narration
  imports Activity_Projection
begin

text \<open>
  The director of public narration, \<open>services/livestream_narration.py\<close>: the validation of a projection, the
  text and the cue made of it, the submissions and replays that emit it, and the tasks that announce and
  speak the cues.  What happens between two suspensions is one function; \<open>narrate\<close> lists everything that can
  happen.  An emission, the speaker and the interruption are outside: how they end is an argument.
\<close>

section \<open>Validation\<close>

text \<open>
  A \<open>ValueError\<close>, the \<open>TypeError\<close> of a value that cannot be a member of a set, and the \<open>ValueError\<close> of a
  wrong mode or limit.
\<close>

datatype narration_error = InvalidActivity | UnhashableValue | InvalidMode | InvalidReplayLimit

text \<open>A key that may be missing or have the value \<open>None\<close>.\<close>

datatype 'a member = Missing | Null | Given 'a

fun given_member :: "'a member \<Rightarrow> 'a option" where
  "given_member (Given x) = Some x"
| "given_member _ = None"

record narration_payload =
  np_phase :: activity_phase
  np_intent :: "activity_intent member"
  np_focus :: "activity_focus member"
  np_progress :: "activity_progress member"
  np_outcome :: "activity_outcome option"

text \<open>
  A projection that was accepted: the event identifier is \<open>activity:\<close> with the sequence, and so is the
  version; the other keys are constants.
\<close>

record narration_input =
  nj_sequence :: int
  nj_occurred_at_ms :: int
  nj_mission_id :: "unicode member"
  nj_payload :: narration_payload

definition payload_outcome :: "narration_payload \<Rightarrow> activity_outcome" where
  "payload_outcome p = (case np_outcome p of None \<Rightarrow> OActive | Some x \<Rightarrow> x)"

text \<open>\<open>value in names\<close> for a set of names.\<close>

definition lookup_name :: "(unicode \<times> 'a) list \<Rightarrow> public_json \<Rightarrow> narration_error + 'a" where
  "lookup_name names v =
     (case v of
        PList _ \<Rightarrow> Inl UnhashableValue
      | PMap _ \<Rightarrow> Inl UnhashableValue
      | PText s \<Rightarrow> (case map_of names s of None \<Rightarrow> Inl InvalidActivity | Some x \<Rightarrow> Inr x)
      | _ \<Rightarrow> Inl InvalidActivity)"

definition keys_within :: "public_map \<Rightarrow> string list \<Rightarrow> bool" where
  "keys_within m allowed \<longleftrightarrow> list_all (\<lambda>(k, v). k \<in> set (map ascii allowed)) m"

definition keys_are :: "public_map \<Rightarrow> string list \<Rightarrow> bool" where
  "keys_are m names \<longleftrightarrow> keys_within m names \<and> list_all (\<lambda>n. ascii n \<in> set (dict_keys m)) names"

text \<open>
  \<open>int(event_id.removeprefix("activity:"))\<close>.  A number in digits beyond the first 256 code points is not
  spelled as \<open>str\<close> spells it, and the test that follows refuses it too.  The interpreter's own limit on the
  digits of a number (4300) is left out.
\<close>

definition event_sequence :: "unicode \<Rightarrow> int option" where
  "event_sequence s =
     (let prefix = ascii ''activity:''; rest = drop (length prefix) s in
      if take (length prefix) s \<noteq> prefix \<or> \<not> list_all (\<lambda>c. c < 256) rest then None
      else (case int_of_str (map char_of rest) of
              None \<Rightarrow> None
            | Some n \<Rightarrow> if n < 1 \<or> s \<noteq> event_id_of n then None else Some n))"

definition mission_text_ok :: "unicode \<Rightarrow> bool" where
  "mission_text_ok s \<longleftrightarrow>
     (case s of
        [] \<Rightarrow> False
      | c # cs \<Rightarrow>
          (97 \<le> c \<and> c \<le> 122 \<or> 48 \<le> c \<and> c \<le> 57) \<and> length cs \<le> 127 \<and>
          list_all (\<lambda>c. 97 \<le> c \<and> c \<le> 122 \<or> 48 \<le> c \<and> c \<le> 57 \<or> c = 45) cs)"

definition parse_focus :: "public_json option \<Rightarrow> narration_error + activity_focus member" where
  "parse_focus v =
     (case v of
        None \<Rightarrow> Inr Missing
      | Some PNull \<Rightarrow> Inr Null
      | Some (PMap m) \<Rightarrow>
          if \<not> keys_are m [''kind'', ''label''] then Inl InvalidActivity
          else
            (case lookup_name focus_kind_names (the (dict_get m (ascii ''kind''))) of
               Inl e \<Rightarrow> Inl e
             | Inr k \<Rightarrow>
                 (case dict_get m (ascii ''label'') of
                    Some (PText l) \<Rightarrow>
                      if l = [] \<or> 64 < length l then Inl InvalidActivity
                      else Inr (Given \<lparr>fo_kind = k, fo_label = l\<rparr>)
                  | _ \<Rightarrow> Inl InvalidActivity))
      | _ \<Rightarrow> Inl InvalidActivity)"

definition parse_progress :: "public_json option \<Rightarrow> narration_error + activity_progress member" where
  "parse_progress v =
     (case v of
        None \<Rightarrow> Inr Missing
      | Some PNull \<Rightarrow> Inr Null
      | Some (PMap m) \<Rightarrow>
          if \<not> keys_are m [''current'', ''total'', ''unit''] then Inl InvalidActivity
          else
            (case (dict_get m (ascii ''current''), dict_get m (ascii ''total'')) of
               (Some (PInt c), Some (PInt t)) \<Rightarrow>
                 if c < 0 \<or> t < 1 \<or> t < c then Inl InvalidActivity
                 else
                   (case lookup_name progress_unit_names (the (dict_get m (ascii ''unit''))) of
                      Inl e \<Rightarrow> Inl e
                    | Inr u \<Rightarrow> Inr (Given \<lparr>pr_current = c, pr_total = t, pr_unit = u\<rparr>))
             | _ \<Rightarrow> Inl InvalidActivity)
      | _ \<Rightarrow> Inl InvalidActivity)"

definition parse_intent :: "public_json option \<Rightarrow> narration_error + activity_intent member" where
  "parse_intent v =
     (case v of
        None \<Rightarrow> Inr Missing
      | Some PNull \<Rightarrow> Inr Null
      | Some w \<Rightarrow> (case lookup_name intent_names w of Inl e \<Rightarrow> Inl e | Inr i \<Rightarrow> Inr (Given i)))"

text \<open>\<open>phase not in _PHASES or outcome not in _OUTCOMES\<close>: the outcome is \<open>active\<close> when it is missing.\<close>

definition parse_state :: "public_map \<Rightarrow> narration_error + activity_phase \<times> activity_outcome option" where
  "parse_state p =
     (case lookup_name phase_names (case dict_get p (ascii ''phase'') of None \<Rightarrow> PNull | Some v \<Rightarrow> v) of
        Inl e \<Rightarrow> Inl e
      | Inr ph \<Rightarrow>
          (case dict_get p (ascii ''outcome'') of
             None \<Rightarrow> Inr (ph, None)
           | Some v \<Rightarrow> (case lookup_name outcome_names v of Inl e \<Rightarrow> Inl e | Inr x \<Rightarrow> Inr (ph, Some x))))"

definition parse_payload :: "public_map \<Rightarrow> narration_error + narration_payload" where
  "parse_payload p =
     (if \<not> keys_within p [''phase'', ''intent'', ''focus'', ''progress'', ''outcome''] then Inl InvalidActivity
      else
        (case parse_state p of
           Inl e \<Rightarrow> Inl e
         | Inr (ph, x) \<Rightarrow>
             (case parse_intent (dict_get p (ascii ''intent'')) of
                Inl e \<Rightarrow> Inl e
              | Inr i \<Rightarrow>
                  if ((case x of None \<Rightarrow> OActive | Some y \<Rightarrow> y) \<noteq> OActive) \<noteq> (ph = Finished) then Inl InvalidActivity
                  else
                    (case parse_focus (dict_get p (ascii ''focus'')) of
                       Inl e \<Rightarrow> Inl e
                     | Inr f \<Rightarrow>
                         (case parse_progress (dict_get p (ascii ''progress'')) of
                            Inl e \<Rightarrow> Inl e
                          | Inr g \<Rightarrow>
                              Inr \<lparr>np_phase = ph, np_intent = i, np_focus = f, np_progress = g, np_outcome = x\<rparr>)))))"

definition envelope_ok :: "public_map \<Rightarrow> bool" where
  "envelope_ok v \<longleftrightarrow>
     keys_within v [''schema_version'', ''event'', ''event_id'', ''projection_kind'', ''projection_version'',
       ''occurred_at_ms'', ''mission_id'', ''entity_id'', ''payload''] \<and>
     dict_get v (ascii ''schema_version'') = Some (PText (ascii ''1'')) \<and>
     dict_get v (ascii ''event'') = Some (PText (ascii ''minecraft.activity.projection'')) \<and>
     dict_get v (ascii ''projection_kind'') = Some (PText (ascii ''activity'')) \<and>
     dict_get v (ascii ''entity_id'') = Some (PText (ascii ''minecraft''))"

definition parse_mission :: "public_json option \<Rightarrow> unicode member option" where
  "parse_mission v =
     (case v of
        None \<Rightarrow> Some Missing
      | Some PNull \<Rightarrow> Some Null
      | Some (PText s) \<Rightarrow> if mission_text_ok s then Some (Given s) else None
      | _ \<Rightarrow> None)"

definition validate_projection :: "public_map \<Rightarrow> narration_error + narration_input" where
  "validate_projection v =
     (if \<not> envelope_ok v then Inl InvalidActivity
      else
        (case (dict_get v (ascii ''event_id''), dict_get v (ascii ''projection_version''),
               dict_get v (ascii ''occurred_at_ms''), dict_get v (ascii ''payload'')) of
           (Some (PText e), Some (PInt n), Some (PInt ms), Some (PMap p)) \<Rightarrow>
             (case (event_sequence e, parse_mission (dict_get v (ascii ''mission_id''))) of
                (Some k, Some m) \<Rightarrow>
                  if n < 1 \<or> n \<noteq> k \<or> ms < 0 then Inl InvalidActivity
                  else
                    (case parse_payload p of
                       Inl err \<Rightarrow> Inl err
                     | Inr q \<Rightarrow>
                         Inr \<lparr>nj_sequence = k, nj_occurred_at_ms = ms, nj_mission_id = m, nj_payload = q\<rparr>)
              | _ \<Rightarrow> Inl InvalidActivity)
         | _ \<Rightarrow> Inl InvalidActivity))"

section \<open>Texts and cues\<close>

text \<open>The verb of an intent, and the sentence about what is done next; texts are Chinese, as code points.\<close>

definition intent_text :: "activity_intent \<Rightarrow> unicode" where
  "intent_text i =
     (case i of
        IAcquire \<Rightarrow> [25910, 38598]
      | ICraft \<Rightarrow> [21046, 20316]
      | IBuild \<Rightarrow> [25645, 24314]
      | ITravel \<Rightarrow> [21069, 24448]
      | ICombat \<Rightarrow> [24212, 23545]
      | ISurvive \<Rightarrow> [30830, 20445, 23433, 20840]
      | ILearn \<Rightarrow> [35797, 30528, 25484, 25569]
      | IDiscover \<Rightarrow> [25506, 32034]
      | IInteract \<Rightarrow> [22788, 29702])"

definition planning_text :: "activity_intent option \<Rightarrow> unicode \<Rightarrow> unicode" where
  "planning_text i label =
     (case i of
        Some IAcquire \<Rightarrow> [20808, 25214] @ label @ [65292, 25343, 21040, 25163, 20877, 24448, 19979, 20570, 12290]
      | Some ICraft \<Rightarrow> [20808, 30475, 30475, 26448, 26009, 22815, 19981, 22815, 65292, 20877, 20570] @ label @ [12290]
      | Some IBuild \<Rightarrow> [25105, 20808, 30475, 30475, 20301, 32622, 65292, 20877, 21160, 25163, 25645] @ label @ [12290]
      | Some ITravel \<Rightarrow> [20808, 30475, 30475, 36335, 65292, 20877, 24448, 30446, 30340, 22320, 36208, 12290]
      | Some ICombat \<Rightarrow> [25105, 20808, 30475, 30475, 24773, 20917, 65292, 21035, 36152, 28982, 20914, 19978, 21435, 12290]
      | Some ISurvive \<Rightarrow> [20808, 39038, 22909, 23433, 20840, 65292, 20854, 20182, 30340, 31561, 19968, 19979, 12290]
      | Some IDiscover \<Rightarrow> [25105, 20808, 30475, 30475, 38468, 36817, 26377, 20160, 20040, 12290]
      | _ \<Rightarrow> [20808, 20174] @ label @ [24320, 22987, 65292, 25105, 30475, 30475, 24590, 20040, 20570, 27604, 36739, 21512, 36866, 12290])"

definition terminal_text :: "activity_outcome \<Rightarrow> unicode \<Rightarrow> unicode" where
  "terminal_text x label =
     (case x of
        OSucceeded \<Rightarrow> [22909, 20102, 65292] @ label @ [36825, 19968, 27493, 23436, 25104, 20102, 12290]
      | OFailed \<Rightarrow> label @ [36825, 27425, 27809, 20570, 25104, 65292, 20808, 20572, 22312, 36825, 37324, 12290]
      | OCancelled \<Rightarrow> [22909, 65292] @ label @ [20808, 19981, 20570, 20102, 12290]
      | OBlocked \<Rightarrow> label @ [29616, 22312, 21345, 20303, 20102, 65292, 36824, 19981, 33021, 31639, 23436, 25104, 12290]
      | OActive \<Rightarrow> label @ [24050, 32463, 32467, 26463, 12290])"

definition visual_text :: "narration_payload \<Rightarrow> unicode" where
  "visual_text p =
     (let intent = (case given_member (np_intent p) of None \<Rightarrow> [22788, 29702] | Some i \<Rightarrow> intent_text i);
          label = (case given_member (np_focus p) of None \<Rightarrow> [24403, 21069, 30446, 26631] | Some f \<Rightarrow> fo_label f)
      in case np_phase p of
           Planning \<Rightarrow> planning_text (given_member (np_intent p)) label
         | Observing \<Rightarrow> [20808, 30475, 30475] @ label @ [21608, 22260, 30340, 24773, 20917, 12290]
         | Committed \<Rightarrow> [23601, 20808] @ intent @ label @ [65292, 20570, 23436, 20877, 30475, 19979, 19968, 27493, 12290]
         | Acting \<Rightarrow>
             (case given_member (np_progress p) of
                Some g \<Rightarrow>
                  label @ [24050, 32463, 20570, 21040, 32] @ ascii (str_of_int (pr_current g)) @ [47] @ ascii (str_of_int (pr_total g)) @
                  [65292, 25105, 32487, 32493, 12290]
              | None \<Rightarrow> [25105, 22312] @ intent @ label @ [65292, 31245, 31561, 19968, 19979, 12290])
         | Checking \<Rightarrow> [20808, 21035, 24613, 65292, 25105, 30830, 35748, 19968, 19979] @ label @ [30340, 32467, 26524, 12290]
         | Recovering \<Rightarrow> label @ [36825, 19968, 27493, 19981, 22826, 39034, 65292, 25105, 20808, 37325, 26032, 30475, 30475, 24773, 20917, 12290]
         | Finished \<Rightarrow> terminal_text (payload_outcome p) label)"

definition phase_emotion :: "activity_phase \<Rightarrow> string" where
  "phase_emotion ph =
     (case ph of
        Planning \<Rightarrow> ''thinking'' | Observing \<Rightarrow> ''thinking'' | Committed \<Rightarrow> ''confident'' | Acting \<Rightarrow> ''focused''
      | Checking \<Rightarrow> ''thinking'' | Recovering \<Rightarrow> ''alert'' | Finished \<Rightarrow> ''relieved'')"

datatype speech_state = SpeechNone | SpeechQueued | SpeechSpeaking | SpeechCompleted | SpeechCancelled

record narration_state =
  ns_cue_id :: string
  ns_source_event :: int
  ns_phase :: activity_phase
  ns_visual_text :: unicode
  ns_emotion :: string
  ns_speech_state :: speech_state
  ns_occurred_at_ms :: int
  ns_task_id :: "string option"

text \<open>\<open>uuid5\<close> is the identifier that the standard library derives from the event identifier.\<close>

definition narration_state_of :: "(unicode \<Rightarrow> string) \<Rightarrow> narration_input \<Rightarrow> narration_state" where
  "narration_state_of uuid5 j =
     (let p = nj_payload j in
      \<lparr>ns_cue_id = uuid5 (event_id_of (nj_sequence j)), ns_source_event = nj_sequence j, ns_phase = np_phase p,
       ns_visual_text = take 80 (visual_text p),
       ns_emotion = (if payload_outcome p \<in> {OFailed, OBlocked} then ''alert'' else phase_emotion (np_phase p)),
       ns_speech_state = SpeechNone, ns_occurred_at_ms = nj_occurred_at_ms j, ns_task_id = None\<rparr>)"

record narration_cue =
  nc_cue_id :: string
  nc_source_event :: int
  nc_phase :: activity_phase
  nc_visual_text :: unicode
  nc_emotion :: string
  nc_priority :: int
  nc_expires_at :: rat

definition cue_of :: "narration_input \<Rightarrow> narration_state \<Rightarrow> rat \<Rightarrow> narration_cue" where
  "cue_of j s now =
     (let x = payload_outcome (nj_payload j);
          priority = (if ns_phase s = Recovering \<or> x \<in> {OFailed, OBlocked} then 30 else if ns_phase s = Finished then 40 else 50)
      in \<lparr>nc_cue_id = ns_cue_id s, nc_source_event = ns_source_event s, nc_phase = ns_phase s,
          nc_visual_text = ns_visual_text s, nc_emotion = ns_emotion s, nc_priority = priority,
          nc_expires_at = now + (if priority \<le> 40 then 60 else 15)\<rparr>)"

definition progress_key :: "narration_input \<Rightarrow> unicode" where
  "progress_key j =
     (case nj_mission_id j of Given m \<Rightarrow> ascii ''mission:'' @ m | _ \<Rightarrow> ascii ''mission:unscoped'')"

end
