(* ===== verification/Narration_Director.thy ===== *)
theory Narration_Director
  imports Narration
begin

text \<open>
  The director of \<open>services/livestream_narration.py\<close>: its state, the submissions and replays that write under the
  lock, and the tasks that announce and speak a cue.  Events are named by their sequence.  A task may take the
  lock before one that waited for it; the code serves them in order.
\<close>

section \<open>State\<close>

datatype presentation_mode = PresentOff | PresentVisual | PresentFull

datatype emission =
    EmitActivity narration_input "string option"
  | EmitState narration_state "string option"

text \<open>
  A call of \<open>submit\<close> or \<open>replay_persisted\<close>: it waits for the lock, for its first or its second emission (and,
  of a replay, with the rest to do and what is done), or has ended.
\<close>

datatype narration_writer =
    Submitting narration_input
  | SubmitEmits narration_input narration_state bool
  | SubmitShows narration_input narration_state
  | Replaying "narration_input list" string
  | ReplayEmits narration_input narration_state "narration_input list" "int list" string
  | ReplayShows narration_input narration_state "narration_input list" "int list" string
  | Written

text \<open>
  A task that delivers a cue: created, asleep in its loop, announcing the cue, in the speaker before or after
  \<open>on_started\<close>, emitting the last state, interrupting the speech, emitting the state of a cancellation or of
  a failure, or ended.
\<close>

datatype cue_stage =
    CueCreated
  | CuePolling
  | CueAnnouncing
  | CueCalling
  | CueSpeaking
  | CueClosing
  | CueInterrupting
  | CueCancelling
  | CueFailing
  | CueEnded

record narration_task =
  nt_cue :: narration_cue
  nt_state :: narration_state
  nt_generation :: nat
  nt_progress_key :: "unicode option"
  nt_stage :: cue_stage
  nt_cancelled :: bool

record director =
  nd_has_speaker :: bool
  nd_has_interrupt :: bool
  nd_mode :: presentation_mode
  nd_replay_limit :: int
  nd_recent :: "(narration_input \<times> narration_state) list"
  nd_seen :: "int list"
  nd_seen_set :: "int set"
  nd_last_spoken_at :: "rat option"
  nd_tasks :: "narration_task list"
  nd_pending :: "(unicode, nat) dict"
  nd_superseded :: "string set"
  nd_started :: "string set"
  nd_writers :: "narration_writer list"
  nd_locked :: bool
  nd_highest_sequence :: int
  nd_generation :: nat

definition replay_limit_ok :: "int \<Rightarrow> bool" where
  "replay_limit_ok n \<longleftrightarrow> 1 \<le> n \<and> n \<le> 256"

definition seen_limit :: "int \<Rightarrow> nat" where
  "seen_limit n = nat (max 128 (n * 4))"

definition new_director :: "presentation_mode \<Rightarrow> int \<Rightarrow> bool \<Rightarrow> bool \<Rightarrow> narration_error + director" where
  "new_director mode limit has_speaker has_interrupt =
     (if \<not> replay_limit_ok limit then Inl InvalidReplayLimit
      else
        Inr \<lparr>nd_has_speaker = has_speaker, nd_has_interrupt = has_interrupt, nd_mode = mode, nd_replay_limit = limit,
             nd_recent = [], nd_seen = [], nd_seen_set = {}, nd_last_spoken_at = None, nd_tasks = [], nd_pending = [],
             nd_superseded = {}, nd_started = {}, nd_writers = [], nd_locked = False, nd_highest_sequence = 0,
             nd_generation = 0\<rparr>)"

section \<open>Modes and generations\<close>

definition resize_replay :: "int \<Rightarrow> director \<Rightarrow> director" where
  "resize_replay limit d =
     (let seen = last_n (seen_limit limit) (nd_seen d) in
      d\<lparr>nd_replay_limit := limit, nd_recent := last_n (nat limit) (nd_recent d), nd_seen := seen,
        nd_seen_set := set seen\<rparr>)"

definition cancel_cue :: "nat \<Rightarrow> director \<Rightarrow> director" where
  "cancel_cue i d =
     (if nt_stage (nd_tasks d ! i) = CueEnded then d
      else d\<lparr>nd_tasks := (nd_tasks d)[i := (nd_tasks d ! i)\<lparr>nt_cancelled := True\<rparr>]\<rparr>)"

definition cancel_pending :: "director \<Rightarrow> director" where
  "cancel_pending d =
     d\<lparr>nd_pending := [],
       nd_tasks := map (\<lambda>t. if nt_stage t = CueEnded then t else t\<lparr>nt_cancelled := True\<rparr>) (nd_tasks d)\<rparr>"

text \<open>No mode is \<open>None\<close> when the name is none.\<close>

definition configure_narration :: "presentation_mode option \<Rightarrow> int option \<Rightarrow> director \<Rightarrow> narration_error + director" where
  "configure_narration mode limit d =
     (case mode of
        None \<Rightarrow> Inl InvalidMode
      | Some m \<Rightarrow>
          if (case limit of None \<Rightarrow> False | Some n \<Rightarrow> \<not> replay_limit_ok n) then Inl InvalidReplayLimit
          else
            (let d1 = (case limit of None \<Rightarrow> d | Some n \<Rightarrow> if n \<noteq> nd_replay_limit d then resize_replay n d else d) in
             Inr (if m \<noteq> nd_mode d1 \<and> m \<noteq> PresentFull
                  then cancel_pending (d1\<lparr>nd_mode := m, nd_generation := nd_generation d1 + 1\<rparr>)
                  else d1\<lparr>nd_mode := m\<rparr>)))"

text \<open>The state before \<open>switch_generation\<close> waits, and the tasks it waits for.\<close>

definition switch_generation :: "director \<Rightarrow> director \<times> nat list" where
  "switch_generation d =
     (cancel_pending (d\<lparr>nd_generation := nd_generation d + 1\<rparr>),
      filter (\<lambda>i. nt_stage (nd_tasks d ! i) \<noteq> CueEnded) [0..<length (nd_tasks d)])"

section \<open>Submissions and replays\<close>

definition set_writer :: "nat \<Rightarrow> narration_writer \<Rightarrow> director \<Rightarrow> director" where
  "set_writer i w d = d\<lparr>nd_writers := (nd_writers d)[i := w]\<rparr>"

definition remember_event :: "int \<Rightarrow> director \<Rightarrow> director" where
  "remember_event n d =
     (if length (nd_seen d) = seen_limit (nd_replay_limit d)
      then d\<lparr>nd_seen := tl (nd_seen d) @ [n], nd_seen_set := insert n (nd_seen_set d - {hd (nd_seen d)})\<rparr>
      else d\<lparr>nd_seen := nd_seen d @ [n], nd_seen_set := insert n (nd_seen_set d)\<rparr>)"

definition append_recent :: "narration_input \<Rightarrow> narration_state \<Rightarrow> director \<Rightarrow> director" where
  "append_recent j s d = d\<lparr>nd_recent := last_n (nat (nd_replay_limit d)) (nd_recent d @ [(j, s)])\<rparr>"

definition repeats_last :: "narration_input \<Rightarrow> narration_state \<Rightarrow> director \<Rightarrow> bool" where
  "repeats_last j s d \<longleftrightarrow>
     nd_recent d \<noteq> [] \<and>
     (let l = fst (last (nd_recent d)) in
      given_member (nj_mission_id j) = given_member (nj_mission_id l) \<and> nj_payload j = nj_payload l) \<and>
     ns_phase s \<noteq> Finished"

text \<open>A pending cue of the same mission that has not started gives way.\<close>

definition supersede_pending :: "unicode \<Rightarrow> director \<Rightarrow> director" where
  "supersede_pending key d =
     (case dict_get (nd_pending d) key of
        None \<Rightarrow> d
      | Some i \<Rightarrow>
          let c = nc_cue_id (nt_cue (nd_tasks d ! i)) in
          if nt_stage (nd_tasks d ! i) = CueEnded \<or> c \<in> nd_started d then d
          else cancel_cue i (d\<lparr>nd_superseded := insert c (nd_superseded d)\<rparr>))"

definition schedule_cue :: "narration_input \<Rightarrow> narration_state \<Rightarrow> bool \<Rightarrow> rat \<Rightarrow> director \<Rightarrow> director" where
  "schedule_cue j s repeated now d =
     (if repeated \<or> nd_mode d \<noteq> PresentFull \<or> \<not> nd_has_speaker d then d
      else
        (let cue = cue_of j s now; key = progress_key j; progress = (nc_priority cue = 50);
             d1 = supersede_pending key d; i = length (nd_tasks d1);
             d2 = d1\<lparr>nd_tasks := nd_tasks d1 @
               [\<lparr>nt_cue = cue, nt_state = s, nt_generation = nd_generation d1,
                 nt_progress_key = (if progress then Some key else None), nt_stage = CueCreated, nt_cancelled = False\<rparr>]\<rparr>
         in if progress then d2\<lparr>nd_pending := dict_set key i (nd_pending d2)\<rparr> else d2))"

definition finish_submit :: "nat \<Rightarrow> narration_input \<Rightarrow> narration_state \<Rightarrow> bool \<Rightarrow> rat \<Rightarrow> director \<Rightarrow> director" where
  "finish_submit i j s repeated now d =
     schedule_cue j s repeated now
       (set_writer i Written
         ((append_recent j s ((remember_event (nj_sequence j) d)\<lparr>nd_highest_sequence := nj_sequence j\<rparr>))\<lparr>nd_locked := False\<rparr>))"

definition begin_submit :: "public_map \<Rightarrow> director \<Rightarrow> narration_error + director" where
  "begin_submit v d =
     (if nd_mode d = PresentOff then Inr d
      else (case validate_projection v of
              Inl e \<Rightarrow> Inl e
            | Inr j \<Rightarrow> Inr (d\<lparr>nd_writers := nd_writers d @ [Submitting j]\<rparr>)))"

text \<open>What is not valid is left out of a persisted replay.\<close>

definition begin_replay :: "public_map list \<Rightarrow> string \<Rightarrow> director \<Rightarrow> director" where
  "begin_replay vs sid d =
     (if nd_mode d = PresentOff then d
      else d\<lparr>nd_writers := nd_writers d @
             [Replaying (concat (map (\<lambda>v. case validate_projection v of Inl e \<Rightarrow> [] | Inr j \<Rightarrow> [j]) vs)) sid]\<rparr>)"

definition replay_next ::
    "(unicode \<Rightarrow> string) \<Rightarrow> nat \<Rightarrow> narration_input list \<Rightarrow> int list \<Rightarrow> string \<Rightarrow> director \<Rightarrow> director \<times> emission list" where
  "replay_next uuid5 i js replayed sid d =
     (case dropWhile (\<lambda>j. nj_sequence j \<in> set replayed) js of
        [] \<Rightarrow> (set_writer i Written (d\<lparr>nd_locked := False\<rparr>), [])
      | j # later \<Rightarrow>
          (set_writer i (ReplayEmits j (narration_state_of uuid5 j) later (nj_sequence j # replayed) sid) (d\<lparr>nd_locked := True\<rparr>),
           [EmitActivity j (Some sid)]))"

text \<open>
  The i-th call goes on: it takes the lock if it is free, or its emission has returned or failed.
\<close>

definition writer_goes ::
    "(unicode \<Rightarrow> string) \<Rightarrow> nat \<Rightarrow> bool \<Rightarrow> rat \<Rightarrow> director \<Rightarrow> director \<times> emission list" where
  "writer_goes uuid5 i returned now d =
     (if length (nd_writers d) \<le> i then (d, [])
      else
        (let failed = (set_writer i Written (d\<lparr>nd_locked := False\<rparr>), []) in
         case nd_writers d ! i of
           Submitting j \<Rightarrow>
             if nd_locked d then (d, [])
             else if nj_sequence j \<in> nd_seen_set d \<or> nj_sequence j \<le> nd_highest_sequence d then (set_writer i Written d, [])
             else
               (let s = narration_state_of uuid5 j in
                (set_writer i (SubmitEmits j s (repeats_last j s d)) (d\<lparr>nd_locked := True\<rparr>), [EmitActivity j None]))
         | SubmitEmits j s repeated \<Rightarrow>
             if \<not> returned then failed
             else if repeated then (finish_submit i j s True now d, [])
             else (set_writer i (SubmitShows j s) d, [EmitState s None])
         | SubmitShows j s \<Rightarrow> if \<not> returned then failed else (finish_submit i j s False now d, [])
         | Replaying js sid \<Rightarrow> if nd_locked d then (d, []) else replay_next uuid5 i (sort_key nj_sequence js) [] sid d
         | ReplayEmits j s later replayed sid \<Rightarrow>
             if \<not> returned then failed
             else (set_writer i (ReplayShows j s later replayed sid) d, [EmitState s (Some sid)])
         | ReplayShows j s later replayed sid \<Rightarrow>
             if \<not> returned then failed
             else
               (let d1 = d\<lparr>nd_highest_sequence := max (nd_highest_sequence d) (nj_sequence j)\<rparr>;
                    d2 = (if list_all (\<lambda>r. nj_sequence (fst r) \<noteq> nj_sequence j) (nd_recent d1) then append_recent j s d1 else d1)
                in replay_next uuid5 i later replayed sid d2)
         | Written \<Rightarrow> (d, [])))"

text \<open>\<open>replay\<close> sends a copy of the recent events, without the lock.\<close>

definition replay_emissions :: "string \<Rightarrow> director \<Rightarrow> emission list" where
  "replay_emissions sid d =
     (if nd_mode d = PresentOff then []
      else concat (map (\<lambda>(j, s). [EmitActivity j (Some sid), EmitState s (Some sid)]) (nd_recent d)))"

section \<open>Cues\<close>

definition cue_emission :: "narration_task \<Rightarrow> speech_state \<Rightarrow> emission" where
  "cue_emission t x =
     EmitState ((nt_state t)\<lparr>ns_speech_state := x, ns_task_id := Some (nc_cue_id (nt_cue t))\<rparr>) None"

definition set_stage :: "nat \<Rightarrow> cue_stage \<Rightarrow> director \<Rightarrow> director" where
  "set_stage i g d = d\<lparr>nd_tasks := (nd_tasks d)[i := (nd_tasks d ! i)\<lparr>nt_stage := g, nt_cancelled := False\<rparr>]\<rparr>"

text \<open>The task is done: \<open>_forget_pending\<close> drops it from its mission.\<close>

definition task_done :: "nat \<Rightarrow> director \<Rightarrow> director" where
  "task_done i d =
     (let d1 = set_stage i CueEnded d in
      case nt_progress_key (nd_tasks d ! i) of
        None \<Rightarrow> d1
      | Some k \<Rightarrow> if dict_get (nd_pending d1) k = Some i then d1\<lparr>nd_pending := dict_del k (nd_pending d1)\<rparr> else d1)"

definition end_cue :: "nat \<Rightarrow> director \<Rightarrow> director" where
  "end_cue i d = task_done i (d\<lparr>nd_started := nd_started d - {nc_cue_id (nt_cue (nd_tasks d ! i))}\<rparr>)"

text \<open>The handler of a cancellation.\<close>

definition cue_cancelled :: "nat \<Rightarrow> director \<Rightarrow> director \<times> emission list" where
  "cue_cancelled i d =
     (let t = nd_tasks d ! i; c = nc_cue_id (nt_cue t) in
      if c \<in> nd_superseded d then (end_cue i (d\<lparr>nd_superseded := nd_superseded d - {c}\<rparr>), [])
      else if c \<in> nd_started d \<and> nd_has_interrupt d then (set_stage i CueInterrupting d, [])
      else (set_stage i CueCancelling d, [cue_emission t SpeechCancelled]))"

text \<open>The handler of an exception.\<close>

definition cue_failed :: "nat \<Rightarrow> director \<Rightarrow> director \<times> emission list" where
  "cue_failed i d = (set_stage i CueFailing d, [cue_emission (nd_tasks d ! i) SpeechCancelled])"

definition cue_loop :: "nat \<Rightarrow> rat \<Rightarrow> bool \<Rightarrow> bool \<Rightarrow> director \<Rightarrow> director \<times> emission list" where
  "cue_loop i now busy singing d =
     (let t = nd_tasks d ! i; terminal = (nc_phase (nt_cue t) \<in> {Recovering, Finished}) in
      if nt_generation t \<noteq> nd_generation d \<or> nc_expires_at (nt_cue t) \<le> now then (end_cue i d, [])
      else if (terminal \<or> (case nd_last_spoken_at d of None \<Rightarrow> True | Some l \<Rightarrow> 6 \<le> now - l)) \<and> \<not> busy \<and> \<not> singing
      then (set_stage i CueAnnouncing d, [cue_emission t SpeechQueued])
      else (set_stage i CuePolling d, []))"

text \<open>
  How the wait of a task ends.  The speaker calls \<open>on_started\<close> (once, when its media turn is granted), answers,
  or raises; a cancellation reaches it, and it passes it on (\<open>Cancels\<close>) or answers all the same.
\<close>

datatype wait_end = Returns | Raises | SpeakerStarts | SpeakerGives bool | Cancels

definition speaker_goes :: "nat \<Rightarrow> wait_end \<Rightarrow> rat \<Rightarrow> director \<Rightarrow> director \<times> emission list" where
  "speaker_goes i w now d =
     (let t = nd_tasks d ! i in
      case w of
        Returns \<Rightarrow> (d, [])
      | Raises \<Rightarrow> cue_failed i d
      | SpeakerStarts \<Rightarrow>
          if nt_stage t = CueSpeaking \<or> nt_generation t \<noteq> nd_generation d then (d, [])
          else (set_stage i CueSpeaking (d\<lparr>nd_started := insert (nc_cue_id (nt_cue t)) (nd_started d)\<rparr>),
                [cue_emission t SpeechSpeaking])
      | SpeakerGives spoken \<Rightarrow>
          if spoken then (set_stage i CueClosing (d\<lparr>nd_last_spoken_at := Some now\<rparr>), [cue_emission t SpeechCompleted])
          else (set_stage i CueClosing d, [cue_emission t SpeechCancelled])
      | Cancels \<Rightarrow> cue_cancelled i d)"

definition cue_goes :: "nat \<Rightarrow> wait_end \<Rightarrow> rat \<Rightarrow> bool \<Rightarrow> bool \<Rightarrow> director \<Rightarrow> director \<times> emission list" where
  "cue_goes i w now busy singing d =
     (if length (nd_tasks d) \<le> i then (d, [])
      else
        (let t = nd_tasks d ! i; g = nt_stage t in
         if nt_cancelled t \<and> g \<in> {CueCreated, CueInterrupting, CueCancelling, CueFailing}
         then (if g = CueCreated then task_done i d else end_cue i d, [])
         else if nt_cancelled t \<and> g \<in> {CuePolling, CueAnnouncing, CueClosing} then cue_cancelled i d
         else
           (case g of
              CueCreated \<Rightarrow> cue_loop i now busy singing d
            | CuePolling \<Rightarrow> cue_loop i now busy singing d
            | CueAnnouncing \<Rightarrow> if w = Raises then cue_failed i d else (set_stage i CueCalling d, [])
            | CueCalling \<Rightarrow> speaker_goes i w now d
            | CueSpeaking \<Rightarrow> speaker_goes i w now d
            | CueClosing \<Rightarrow> if w = Raises then cue_failed i d else (end_cue i d, [])
            | CueInterrupting \<Rightarrow> (set_stage i CueCancelling d, [cue_emission t SpeechCancelled])
            | CueCancelling \<Rightarrow> (end_cue i d, [])
            | CueFailing \<Rightarrow> (end_cue i d, [])
            | CueEnded \<Rightarrow> (d, []))))"

section \<open>Everything that can happen\<close>

datatype narration_event =
    SubmitComes public_map
  | ReplayComes "public_map list" string
  | RecentComes string
  | WriterGoes nat bool rat
  | CueGoes nat wait_end rat bool bool
  | ConfigureComes "presentation_mode option" "int option"
  | GenerationComes

fun narrate :: "(unicode \<Rightarrow> string) \<Rightarrow> narration_event \<Rightarrow> director \<Rightarrow> director \<times> emission list" where
  "narrate uuid5 (SubmitComes v) d = (case begin_submit v d of Inl e \<Rightarrow> (d, []) | Inr d' \<Rightarrow> (d', []))"
| "narrate uuid5 (ReplayComes vs sid) d = (begin_replay vs sid d, [])"
| "narrate uuid5 (RecentComes sid) d = (d, replay_emissions sid d)"
| "narrate uuid5 (WriterGoes i returned now) d = writer_goes uuid5 i returned now d"
| "narrate uuid5 (CueGoes i w now busy singing) d = cue_goes i w now busy singing d"
| "narrate uuid5 (ConfigureComes mode limit) d = (case configure_narration mode limit d of Inl e \<Rightarrow> (d, []) | Inr d' \<Rightarrow> (d', []))"
| "narrate uuid5 GenerationComes d = (fst (switch_generation d), [])"

end
