(* ===== verification/Narration_Inv.thy ===== *)
theory Narration_Inv
  imports Narration_Director
begin

text \<open>
  Runs of the director with the log of what they emit, and the invariants: one writer holds the lock, what is
  remembered stays below the highest sequence, and what a cue has said so far fits the stage of its task.
\<close>

section \<open>Runs\<close>

definition narrated :: "(unicode \<Rightarrow> string) \<Rightarrow> narration_event list \<Rightarrow> director \<Rightarrow> director" where
  "narrated uuid5 es d = fold (\<lambda>e d. fst (narrate uuid5 e d)) es d"

text \<open>An entry of the log: mode and generation at the time, the task that emits if it is a cue, the emission.\<close>

record log_entry =
  le_mode :: presentation_mode
  le_generation :: nat
  le_cue :: "nat option"
  le_emission :: emission

fun cue_of_event :: "narration_event \<Rightarrow> nat option" where
  "cue_of_event (CueGoes i w now busy singing) = Some i"
| "cue_of_event _ = None"

definition entries_of :: "(unicode \<Rightarrow> string) \<Rightarrow> narration_event \<Rightarrow> director \<Rightarrow> log_entry list" where
  "entries_of uuid5 e d =
     map (\<lambda>m. \<lparr>le_mode = nd_mode d, le_generation = nd_generation d, le_cue = cue_of_event e, le_emission = m\<rparr>)
       (snd (narrate uuid5 e d))"

fun narration_log :: "(unicode \<Rightarrow> string) \<Rightarrow> narration_event list \<Rightarrow> director \<Rightarrow> log_entry list" where
  "narration_log uuid5 [] d = []"
| "narration_log uuid5 (e # es) d = entries_of uuid5 e d @ narration_log uuid5 es (fst (narrate uuid5 e d))"

lemma narrated_simps [simp]:
  "narrated uuid5 [] d = d"
  "narrated uuid5 (e # es) d = narrated uuid5 es (fst (narrate uuid5 e d))"
  by (simp_all add: narrated_def)

lemma narrated_append [simp]: "narrated uuid5 (es @ fs) d = narrated uuid5 fs (narrated uuid5 es d)"
  by (simp add: narrated_def)

lemma narration_log_append [simp]:
  "narration_log uuid5 (es @ fs) d = narration_log uuid5 es d @ narration_log uuid5 fs (narrated uuid5 es d)"
  by (induction es arbitrary: d) simp_all

section \<open>What the cues leave alone\<close>

definition writing :: "director \<Rightarrow>
    int \<times> (narration_input \<times> narration_state) list \<times> int list \<times> int set \<times> narration_writer list \<times> bool \<times> int" where
  "writing d = (nd_replay_limit d, nd_recent d, nd_seen d, nd_seen_set d, nd_writers d, nd_locked d, nd_highest_sequence d)"

lemma writing_cues [simp]:
  "writing (cancel_cue i d) = writing d"
  "writing (cancel_pending d) = writing d"
  "writing (set_stage i g d) = writing d"
  "writing (task_done i d) = writing d"
  "writing (end_cue i d) = writing d"
  "writing (supersede_pending k d) = writing d"
  "writing (schedule_cue j s r now d) = writing d"
  by (simp_all add: writing_def cancel_cue_def cancel_pending_def set_stage_def task_done_def end_cue_def supersede_pending_def
      schedule_cue_def Let_def split: option.split)

lemma writing_cue_goes [simp]: "writing (fst (cue_goes i w now busy singing d)) = writing d"
proof -
  have "writing (fst (cue_cancelled i d)) = writing d" for d
    using writing_cues by (simp add: cue_cancelled_def Let_def) (simp add: writing_def)
  moreover have "writing (fst (cue_failed i d)) = writing d" for d by (simp add: cue_failed_def)
  moreover have "writing (fst (cue_loop i now busy singing d)) = writing d" for d
    by (simp add: cue_loop_def Let_def)
  moreover have "writing (fst (speaker_goes i w now d)) = writing d" for d
    using calculation by (cases w) (simp_all add: speaker_goes_def Let_def, simp_all add: writing_def)
  ultimately show ?thesis by (auto simp: cue_goes_def Let_def split: cue_stage.split)
qed

section \<open>The lock and what is remembered\<close>

fun holds_lock :: "narration_writer \<Rightarrow> bool" where
  "holds_lock (SubmitEmits j s r) = True"
| "holds_lock (SubmitShows j s) = True"
| "holds_lock (ReplayEmits j s js ns sid) = True"
| "holds_lock (ReplayShows j s js ns sid) = True"
| "holds_lock _ = False"

text \<open>The event a submission under the lock is about to add.\<close>

fun submits :: "narration_writer \<Rightarrow> int option" where
  "submits (SubmitEmits j s r) = Some (nj_sequence j)"
| "submits (SubmitShows j s) = Some (nj_sequence j)"
| "submits _ = None"

lemma submits_holds: "submits w = Some n \<Longrightarrow> holds_lock w"
  by (cases w) simp_all

definition recent_sequences :: "director \<Rightarrow> int list" where
  "recent_sequences d = map (nj_sequence \<circ> fst) (nd_recent d)"

definition memory_ok :: "director \<Rightarrow> bool" where
  "memory_ok d \<longleftrightarrow>
     replay_limit_ok (nd_replay_limit d) \<and>
     int (length (nd_recent d)) \<le> nd_replay_limit d \<and> distinct (recent_sequences d) \<and>
     (\<forall>n\<in>set (recent_sequences d). n \<le> nd_highest_sequence d) \<and>
     length (nd_seen d) \<le> seen_limit (nd_replay_limit d) \<and> distinct (nd_seen d) \<and> nd_seen_set d = set (nd_seen d) \<and>
     (\<forall>n\<in>set (nd_seen d). n \<le> nd_highest_sequence d)"

definition lock_ok :: "director \<Rightarrow> bool" where
  "lock_ok d \<longleftrightarrow>
     length (filter holds_lock (nd_writers d)) = (if nd_locked d then 1 else 0) \<and>
     (\<forall>w\<in>set (nd_writers d). \<forall>n. submits w = Some n \<longrightarrow> nd_highest_sequence d < n)"

definition director_ok :: "director \<Rightarrow> bool" where
  "director_ok d \<longleftrightarrow> memory_ok d \<and> lock_ok d"

lemma director_ok_cong: "writing d' = writing d \<Longrightarrow> director_ok d' = director_ok d"
  by (simp add: writing_def director_ok_def memory_ok_def lock_ok_def recent_sequences_def)

lemma holders_update:
  assumes "i < length ws"
  shows "length (filter holds_lock (ws[i := w])) =
    length (filter holds_lock ws) - (if holds_lock (ws ! i) then 1 else 0) + (if holds_lock w then 1 else 0)"
proof -
  obtain b a where "filter holds_lock ws = b @ filter holds_lock [ws ! i] @ a"
    "filter holds_lock (ws[i := w]) = b @ filter holds_lock [w] @ a"
    using filter_update [OF assms, of holds_lock w] by blast
  then show ?thesis by simp
qed

lemma only_holder:
  assumes "lock_ok d" "i < length (nd_writers d)" "holds_lock (nd_writers d ! i)" "j < length (nd_writers d)" "j \<noteq> i"
  shows "\<not> holds_lock (nd_writers d ! j)"
proof
  assume j: "holds_lock (nd_writers d ! j)"
  let ?ws = "nd_writers d" 
  have "length (filter holds_lock (?ws[i := Written])) \<le> 0"
    using assms(1,3) by (simp add: holders_update [OF assms(2)] lock_ok_def split: if_splits)
  moreover have "?ws[i := Written] ! j = ?ws ! j" using assms(5) by simp
  then have "?ws ! j \<in> set (?ws[i := Written])" using assms(4) by (metis length_list_update nth_mem)
  then have "?ws ! j \<in> set (filter holds_lock (?ws[i := Written]))" using j by simp
  ultimately show False by (metis length_pos_if_in_set not_less)
qed

text \<open>
  What a step of the i-th writer has to keep: it holds the lock afterwards exactly if the lock is taken, and
  it may raise the highest sequence if it was the holder.
\<close>

lemma writer_step_ok:
  assumes ok: "lock_ok d" and i: "i < length (nd_writers d)"
    and ws: "nd_writers d' = (nd_writers d)[i := w]"
    and free: "\<not> holds_lock (nd_writers d ! i) \<Longrightarrow> \<not> nd_locked d \<and> nd_highest_sequence d' = nd_highest_sequence d \<or> \<not> holds_lock w \<and> nd_locked d' = nd_locked d \<and> nd_highest_sequence d' = nd_highest_sequence d"
    and lock: "holds_lock (nd_writers d ! i) \<or> holds_lock w \<Longrightarrow> nd_locked d' = holds_lock w"
    and same: "\<not> holds_lock (nd_writers d ! i) \<Longrightarrow> \<not> holds_lock w \<Longrightarrow> nd_locked d' = nd_locked d"
    and new: "\<And>n. submits w = Some n \<Longrightarrow> nd_highest_sequence d' < n"
  shows "lock_ok d'"
proof -
  have one: "length (filter holds_lock (nd_writers d)) = (if nd_locked d then 1 else 0)"
    using ok by (simp add: lock_ok_def)
  have pos: "length (filter holds_lock (nd_writers d)) \<noteq> 0" if "holds_lock (nd_writers d ! i)"
    using that i by (metis filter_empty_conv length_0_conv nth_mem)
  have "length (filter holds_lock (nd_writers d')) = (if nd_locked d' then 1 else 0)"
    unfolding ws holders_update [OF i] using one pos free lock same by (auto split: if_splits)
  moreover have "nd_highest_sequence d' < n" if w': "w' \<in> set (nd_writers d')" and n: "submits w' = Some n" for w' n
  proof -
    obtain j where j: "j < length (nd_writers d)" "w' = (nd_writers d)[i := w] ! j"
      using w' unfolding ws in_set_conv_nth by auto
    show ?thesis
    proof (cases "j = i")
      case True
      then show ?thesis using new n j i by simp
    next
      case False
      then have w: "w' = nd_writers d ! j" using j by simp
      then have holder: "holds_lock (nd_writers d ! j)" using n by (simp add: submits_holds)
      then have "\<not> holds_lock (nd_writers d ! i)" using only_holder [OF ok j(1) holder i] False by simp
      then have "nd_highest_sequence d' = nd_highest_sequence d" using free by blast
      moreover have "nd_highest_sequence d < n" using ok n w j(1) by (auto simp: lock_ok_def)
      ultimately show ?thesis by simp
    qed
  qed
  ultimately show ?thesis by (simp add: lock_ok_def)
qed

lemma map_last_n: "map f (last_n k xs) = last_n k (map f xs)"
  by (simp add: last_n_def drop_map)

lemma append_recent_ok:
  assumes "memory_ok d" "nj_sequence j \<notin> set (recent_sequences d)" "nj_sequence j \<le> nd_highest_sequence d"
  shows "memory_ok (append_recent j s d)"
proof -
  let ?k = "nat (nd_replay_limit d)"
  have r: "recent_sequences (append_recent j s d) = last_n ?k (recent_sequences d @ [nj_sequence j])"
    by (simp add: recent_sequences_def append_recent_def map_last_n)
  have "distinct (recent_sequences (append_recent j s d))"
    unfolding r last_n_def using assms(1,2) by (intro distinct_drop) (simp add: memory_ok_def)
  moreover have "\<forall>n\<in>set (recent_sequences (append_recent j s d)). n \<le> nd_highest_sequence d"
    unfolding r using assms set_last_n [of ?k "recent_sequences d @ [nj_sequence j]"] by (auto simp: memory_ok_def)
  moreover have "int (length (nd_recent (append_recent j s d))) \<le> nd_replay_limit d"
    using assms(1) by (simp add: append_recent_def memory_ok_def replay_limit_ok_def of_nat_min)
  ultimately show ?thesis using assms(1) by (simp add: memory_ok_def append_recent_def)
qed

lemma remember_ok:
  assumes ok: "memory_ok d" and n: "nd_highest_sequence d < n"
  shows "memory_ok ((remember_event n d)\<lparr>nd_highest_sequence := n\<rparr>)"
proof -
  let ?d = "(remember_event n d)\<lparr>nd_highest_sequence := n\<rparr>"
  have new: "n \<notin> set (nd_seen d)" using ok n by (auto simp: memory_ok_def)
  have k: "0 < seen_limit (nd_replay_limit d)" by (simp add: seen_limit_def)
  have recent: "recent_sequences ?d = recent_sequences d" "nd_recent ?d = nd_recent d" "nd_replay_limit ?d = nd_replay_limit d"
    by (simp_all add: remember_event_def recent_sequences_def)
  have seen: "length (nd_seen ?d) \<le> seen_limit (nd_replay_limit d) \<and> distinct (nd_seen ?d) \<and> nd_seen_set ?d = set (nd_seen ?d) \<and>
      (\<forall>m\<in>set (nd_seen ?d). m \<le> n)"
  proof (cases "length (nd_seen d) = seen_limit (nd_replay_limit d)")
    case True
    then obtain x xs where x: "nd_seen d = x # xs" using k by (cases "nd_seen d") auto
    then show ?thesis using ok n new True by (auto simp: remember_event_def memory_ok_def)
  next
    case False
    then show ?thesis using ok n new by (auto simp: remember_event_def memory_ok_def)
  qed
  have "\<forall>m\<in>set (recent_sequences d). m \<le> n" using ok n by (auto simp: memory_ok_def)
  then show ?thesis using ok seen unfolding memory_ok_def recent by simp
qed

lemma memory_ok_cong:
  "nd_replay_limit d' = nd_replay_limit d \<Longrightarrow> nd_recent d' = nd_recent d \<Longrightarrow> nd_seen d' = nd_seen d \<Longrightarrow>
   nd_seen_set d' = nd_seen_set d \<Longrightarrow> nd_highest_sequence d' = nd_highest_sequence d \<Longrightarrow> memory_ok d' = memory_ok d"
  by (simp add: memory_ok_def recent_sequences_def)

lemma resize_ok:
  assumes "memory_ok d" "replay_limit_ok limit"
  shows "memory_ok (resize_replay limit d)"
proof -
  let ?k = "seen_limit limit"
  have r: "recent_sequences (resize_replay limit d) = last_n (nat limit) (recent_sequences d)"
    by (simp add: recent_sequences_def resize_replay_def map_last_n Let_def)
  have "distinct (last_n (nat limit) (recent_sequences d))" "distinct (last_n ?k (nd_seen d))"
    using assms(1) by (simp_all add: last_n_def memory_ok_def)
  moreover have "\<forall>n\<in>set (last_n (nat limit) (recent_sequences d)). n \<le> nd_highest_sequence d"
    "\<forall>n\<in>set (last_n ?k (nd_seen d)). n \<le> nd_highest_sequence d"
    using assms(1) set_last_n [of "nat limit" "recent_sequences d"] set_last_n [of ?k "nd_seen d"]
    by (auto simp: memory_ok_def)
  moreover have "int (length (nd_recent (resize_replay limit d))) \<le> limit"
    using assms(2) by (simp add: resize_replay_def replay_limit_ok_def Let_def of_nat_min)
  ultimately show ?thesis using assms(2) unfolding memory_ok_def r by (simp add: resize_replay_def Let_def)
qed

section \<open>A step of a writer\<close>

text \<open>The sequence of an event that all clients get.\<close>

fun broadcast_sequence :: "emission \<Rightarrow> int option" where
  "broadcast_sequence (EmitActivity j None) = Some (nj_sequence j)"
| "broadcast_sequence _ = None"

definition broadcasts :: "emission list \<Rightarrow> int list" where
  "broadcasts ms = concat (map (\<lambda>m. case broadcast_sequence m of None \<Rightarrow> [] | Some n \<Rightarrow> [n]) ms)"

definition under_way :: "director \<Rightarrow> int set" where
  "under_way d = {n. \<exists>w\<in>set (nd_writers d). submits w = Some n}"

lemma replay_next_ok:
  assumes ok: "lock_ok d" "memory_ok d" and i: "i < length (nd_writers d)"
    and holds: "holds_lock (nd_writers d ! i) \<or> \<not> nd_locked d"
  shows "director_ok (fst (replay_next uuid5 i js ns sid d)) \<and>
    nd_highest_sequence (fst (replay_next uuid5 i js ns sid d)) = nd_highest_sequence d \<and>
    broadcasts (snd (replay_next uuid5 i js ns sid d)) = []"
proof (cases "dropWhile (\<lambda>j. nj_sequence j \<in> set ns) js")
  case Nil
  let ?d = "set_writer i Written (d\<lparr>nd_locked := False\<rparr>)"
  have "lock_ok ?d"
    by (rule writer_step_ok [OF ok(1) i, where w = Written]) (use holds in \<open>auto simp: set_writer_def\<close>)
  moreover have "memory_ok ?d" using ok(2) by (simp add: set_writer_def memory_ok_def recent_sequences_def)
  moreover have "replay_next uuid5 i js ns sid d = (?d, [])" unfolding replay_next_def Nil by simp
  ultimately show ?thesis by (simp add: director_ok_def set_writer_def broadcasts_def)
next
  case (Cons j later)
  let ?w = "ReplayEmits j (narration_state_of uuid5 j) later (nj_sequence j # ns) sid"
  let ?d = "set_writer i ?w (d\<lparr>nd_locked := True\<rparr>)"
  have "lock_ok ?d"
    by (rule writer_step_ok [OF ok(1) i, where w = ?w]) (use holds in \<open>auto simp: set_writer_def\<close>)
  moreover have "memory_ok ?d" using ok(2) by (simp add: set_writer_def memory_ok_def recent_sequences_def)
  moreover have "replay_next uuid5 i js ns sid d = (?d, [EmitActivity j (Some sid)])" unfolding replay_next_def Cons by simp
  ultimately show ?thesis by (simp add: director_ok_def set_writer_def broadcasts_def)
qed

lemma under_way_held:
  assumes "lock_ok d" "i < length (nd_writers d)" "holds_lock (nd_writers d ! i)"
  shows "under_way d = (case submits (nd_writers d ! i) of None \<Rightarrow> {} | Some n \<Rightarrow> {n})"
proof -
  have "submits (nd_writers d ! j) = None" if "j < length (nd_writers d)" "j \<noteq> i" for j
    using only_holder [OF assms that] submits_holds by (cases "submits (nd_writers d ! j)") auto
  then have "n \<in> under_way d \<longleftrightarrow> submits (nd_writers d ! i) = Some n" for n
    using assms(2) by (simp add: under_way_def Bex_def in_set_conv_nth) (metis option.distinct(1))
  then show ?thesis by (auto split: option.split)
qed

lemma under_way_free: "lock_ok d \<Longrightarrow> \<not> nd_locked d \<Longrightarrow> under_way d = {}"
  using submits_holds by (fastforce simp: under_way_def lock_ok_def filter_empty_conv)

lemma under_way_set:
  "nd_writers d' = (nd_writers d)[i := w] \<Longrightarrow> i < length (nd_writers d) \<Longrightarrow> submits w = Some n \<Longrightarrow> n \<in> under_way d'"
  by (auto simp: under_way_def set_update_memI intro!: bexI [of _ w])

lemma free_holder: "lock_ok d \<Longrightarrow> \<not> nd_locked d \<Longrightarrow> i < length (nd_writers d) \<Longrightarrow> \<not> holds_lock (nd_writers d ! i)"
  by (auto simp: lock_ok_def filter_empty_conv)

text \<open>
  A step keeps the invariant, does not lower the highest sequence, and either broadcasts nothing, keeping
  what is under way or remembering it, or broadcasts an event above everything, with nothing else under way.
\<close>

definition writes_well :: "bool \<Rightarrow> director \<Rightarrow> director \<times> emission list \<Rightarrow> bool" where
  "writes_well returned d r \<longleftrightarrow>
     director_ok (fst r) \<and> nd_highest_sequence d \<le> nd_highest_sequence (fst r) \<and>
     (broadcasts (snd r) = [] \<and>
        (returned \<longrightarrow> (\<forall>n\<in>under_way d. n \<in> under_way (fst r) \<or> n \<le> nd_highest_sequence (fst r))) \<or>
      (\<exists>n. broadcasts (snd r) = [n] \<and> under_way d = {} \<and> nd_highest_sequence d < n \<and> n \<in> under_way (fst r)))"

lemma writes_well_same: "director_ok d \<Longrightarrow> writes_well b d (d, [])"
  by (simp add: writes_well_def broadcasts_def)

text \<open>A step that leaves memory alone.\<close>

lemma writes_well_set:
  assumes ok: "director_ok d" and i: "i < length (nd_writers d)"
    and lock: "holds_lock (nd_writers d ! i) \<Longrightarrow> l = holds_lock w"
      "\<not> holds_lock (nd_writers d ! i) \<Longrightarrow> \<not> nd_locked d \<and> l = holds_lock w"
    and new: "\<And>n. submits w = Some n \<Longrightarrow> nd_highest_sequence d < n"
    and out: "broadcasts ms = [] \<and> (returned \<longrightarrow> submits (nd_writers d ! i) = submits w) \<or>
      (\<exists>n. broadcasts ms = [n] \<and> \<not> nd_locked d \<and> submits w = Some n)"
  shows "writes_well returned d (set_writer i w (d\<lparr>nd_locked := l\<rparr>), ms)"
proof -
  let ?d = "set_writer i w (d\<lparr>nd_locked := l\<rparr>)"
  have lo: "lock_ok d" using ok by (simp add: director_ok_def)
  have "lock_ok ?d"
    by (rule writer_step_ok [OF lo i, where w = w]) (use lock new in \<open>auto simp: set_writer_def\<close>)
  moreover have "memory_ok ?d"
    using ok by (simp add: director_ok_def set_writer_def memory_ok_def recent_sequences_def)
  moreover have "n \<in> under_way ?d"
    if "n \<in> under_way d" "submits (nd_writers d ! i) = submits w" for n
  proof -
    have "holds_lock (nd_writers d ! i)" using that(1) under_way_free [OF lo] lock(2) by auto
    then have "submits w = Some n" using that under_way_held [OF lo i] by (simp split: option.split_asm)
    then show ?thesis using i by (intro under_way_set [of ?d d i w]) (simp_all add: set_writer_def)
  qed
  moreover have "under_way d = {} \<and> n \<in> under_way ?d \<and> nd_highest_sequence d < n"
    if "\<not> nd_locked d" "submits w = Some n" for n
    using under_way_free [OF lo that(1)] new [OF that(2)] under_way_set [of ?d d i w n] i that(2) by (simp add: set_writer_def)
  ultimately show ?thesis using out by (auto simp: writes_well_def director_ok_def set_writer_def)
qed

lemma finish_submit_ok:
  assumes ok: "director_ok d" and i: "i < length (nd_writers d)" and w: "submits (nd_writers d ! i) = Some (nj_sequence j)"
  shows "writes_well returned d (finish_submit i j s r now d, [])"
proof -
  let ?n = "nj_sequence j"
  let ?m = "append_recent j s ((remember_event ?n d)\<lparr>nd_highest_sequence := ?n\<rparr>)"
  let ?d = "set_writer i Written (?m\<lparr>nd_locked := False\<rparr>)"
  have lo: "lock_ok d" "memory_ok d" using ok by (simp_all add: director_ok_def)
  have n: "nd_highest_sequence d < ?n" using lo(1) w i by (auto simp: lock_ok_def)
  have holder: "holds_lock (nd_writers d ! i)" using w by (rule submits_holds)
  have "?n \<notin> set (recent_sequences ((remember_event ?n d)\<lparr>nd_highest_sequence := ?n\<rparr>))"
    using lo(2) n by (auto simp: memory_ok_def recent_sequences_def remember_event_def)
  then have "memory_ok ?m" by (rule append_recent_ok [OF remember_ok [OF lo(2) n]]) simp
  then have memory: "memory_ok ?d" by (simp add: set_writer_def memory_ok_def recent_sequences_def)
  have fields: "nd_writers ?m = nd_writers d" "nd_highest_sequence ?m = ?n"
    by (simp_all add: append_recent_def remember_event_def)
  have "lock_ok ?d"
    by (rule writer_step_ok [OF lo(1) i, where w = Written]) (use holder fields in \<open>simp_all add: set_writer_def\<close>)
  then have d: "director_ok ?d" "nd_highest_sequence ?d = ?n" using memory fields by (simp_all add: director_ok_def set_writer_def)
  have same: "writing (finish_submit i j s r now d) = writing ?d" by (simp add: finish_submit_def)
  have "director_ok (finish_submit i j s r now d)" using director_ok_cong [OF same] d(1) by simp
  moreover have "nd_highest_sequence (finish_submit i j s r now d) = ?n" using same d(2) by (simp add: writing_def)
  moreover have "under_way d = {?n}" using under_way_held [OF lo(1) i holder] w by simp
  ultimately show ?thesis using n by (simp add: writes_well_def broadcasts_def)
qed

lemma replay_writes_well:
  assumes ok: "director_ok d" and i: "i < length (nd_writers d)"
    and holds: "holds_lock (nd_writers d ! i) \<and> submits (nd_writers d ! i) = None \<or> \<not> nd_locked d"
  shows "writes_well returned d (replay_next uuid5 i js ns sid d)"
proof -
  have lo: "lock_ok d" "memory_ok d" using ok by (simp_all add: director_ok_def)
  have r: "director_ok (fst (replay_next uuid5 i js ns sid d))"
    "nd_highest_sequence (fst (replay_next uuid5 i js ns sid d)) = nd_highest_sequence d"
    "broadcasts (snd (replay_next uuid5 i js ns sid d)) = []"
    using replay_next_ok [OF lo i, of uuid5 js ns sid] holds by auto
  have "under_way d = {}"
    using holds under_way_free [OF lo(1)] under_way_held [OF lo(1) i] by auto
  then show ?thesis using r by (simp add: writes_well_def)
qed

lemma writer_goes_ok:
  assumes ok: "director_ok d"
  shows "writes_well returned d (writer_goes uuid5 i returned now d)"
proof (cases "length (nd_writers d) \<le> i")
  case True
  then show ?thesis by (simp add: writer_goes_def writes_well_same ok)
next
  case False
  then have i: "i < length (nd_writers d)" by simp
  have lo: "lock_ok d" "memory_ok d" using ok by (simp_all add: director_ok_def)
  let ?failed = "(set_writer i Written (d\<lparr>nd_locked := False\<rparr>), []) :: director \<times> emission list"
  have failed: "writes_well False d ?failed" if "holds_lock (nd_writers d ! i)"
    by (rule writes_well_set [OF ok i]) (use that in \<open>simp_all add: broadcasts_def\<close>)
  have above: "nd_highest_sequence d < n" if "submits (nd_writers d ! i) = Some n" for n
    using lo(1) that i by (auto simp: lock_ok_def)
  have locked: "nd_locked d" if "holds_lock (nd_writers d ! i)" using free_holder [OF lo(1) _ i] that by blast
  show ?thesis
  proof (cases "nd_writers d ! i")
    case (Submitting j)
    have "writes_well returned d (set_writer i Written (d\<lparr>nd_locked := False\<rparr>), [])" if "\<not> nd_locked d"
      by (rule writes_well_set [OF ok i]) (use that Submitting in \<open>simp_all add: broadcasts_def\<close>)
    moreover have "d\<lparr>nd_locked := False\<rparr> = d" if "\<not> nd_locked d" using that by simp
    ultimately have refused: "writes_well returned d (set_writer i Written d, [])" if "\<not> nd_locked d" using that by simp
    have "writes_well returned d (set_writer i (SubmitEmits j s r) (d\<lparr>nd_locked := True\<rparr>), [EmitActivity j None])"
      if "\<not> nd_locked d" "nd_highest_sequence d < nj_sequence j" for s r
      by (rule writes_well_set [OF ok i]) (use that Submitting in \<open>simp_all add: broadcasts_def\<close>)
    then show ?thesis using refused i Submitting by (simp add: writer_goes_def Let_def writes_well_same ok)
  next
    case (SubmitEmits j s r)
    have "writes_well True d (set_writer i (SubmitShows j s) (d\<lparr>nd_locked := True\<rparr>), [EmitState s None])"
      by (rule writes_well_set [OF ok i]) (use above SubmitEmits in \<open>simp_all add: broadcasts_def\<close>)
    moreover have "d\<lparr>nd_locked := True\<rparr> = d" using locked SubmitEmits by simp
    ultimately have "writes_well True d (set_writer i (SubmitShows j s) d, [EmitState s None])" by simp
    moreover have "writes_well True d (finish_submit i j s True now d, [])"
      by (rule finish_submit_ok [OF ok i]) (simp add: SubmitEmits)
    ultimately show ?thesis using i SubmitEmits failed by (cases returned) (simp_all add: writer_goes_def Let_def)
  next
    case (SubmitShows j s)
    have "writes_well True d (finish_submit i j s False now d, [])"
      by (rule finish_submit_ok [OF ok i]) (simp add: SubmitShows)
    then show ?thesis using i SubmitShows failed by (cases returned) (simp_all add: writer_goes_def Let_def)
  next
    case (Replaying js sid)
    have "writes_well returned d (replay_next uuid5 i (sort_key nj_sequence js) [] sid d)" if "\<not> nd_locked d"
      by (rule replay_writes_well [OF ok i]) (simp add: that)
    then show ?thesis using i Replaying by (simp add: writer_goes_def Let_def writes_well_same ok)
  next
    case (ReplayEmits j s later ns sid)
    have "writes_well True d (set_writer i (ReplayShows j s later ns sid) (d\<lparr>nd_locked := True\<rparr>), [EmitState s (Some sid)])"
      by (rule writes_well_set [OF ok i]) (use ReplayEmits in \<open>simp_all add: broadcasts_def\<close>)
    moreover have "d\<lparr>nd_locked := True\<rparr> = d" using locked ReplayEmits by simp
    ultimately have "writes_well True d (set_writer i (ReplayShows j s later ns sid) d, [EmitState s (Some sid)])" by simp
    then show ?thesis using i ReplayEmits failed by (cases returned) (simp_all add: writer_goes_def Let_def)
  next
    case (ReplayShows j s later ns sid)
    let ?d1 = "d\<lparr>nd_highest_sequence := max (nd_highest_sequence d) (nj_sequence j)\<rparr>"
    let ?d2 = "if list_all (\<lambda>r. nj_sequence (fst r) \<noteq> nj_sequence j) (nd_recent ?d1) then append_recent j s ?d1 else ?d1"
    have holder: "holds_lock (nd_writers d ! i)" using ReplayShows by simp
    have m1: "memory_ok ?d1" using lo(2) by (auto simp: memory_ok_def recent_sequences_def)
    have "memory_ok ?d2"
    proof (cases "list_all (\<lambda>r. nj_sequence (fst r) \<noteq> nj_sequence j) (nd_recent ?d1)")
      case True
      then have "nj_sequence j \<notin> set (recent_sequences ?d1)" by (auto simp: recent_sequences_def list_all_iff)
      then show ?thesis using True append_recent_ok [OF m1] by simp
    qed (simp add: m1)
    moreover have fields: "nd_writers ?d2 = nd_writers d" "nd_locked ?d2 = nd_locked d"
      "nd_highest_sequence ?d2 = max (nd_highest_sequence d) (nj_sequence j)"
      by (simp_all add: append_recent_def)
    moreover have none: "under_way d = {}" using under_way_held [OF lo(1) i holder] ReplayShows by simp
    have "lock_ok ?d2"
      using lo(1) none unfolding lock_ok_def fields under_way_def by auto
    ultimately have ok2: "director_ok ?d2" by (simp add: director_ok_def)
    have "writes_well returned ?d2 (replay_next uuid5 i later ns sid ?d2)"
      by (rule replay_writes_well [OF ok2]) (use i ReplayShows fields in simp_all)
    moreover have "under_way ?d2 = {}" using none by (simp only: under_way_def fields)
    ultimately have "writes_well returned d (replay_next uuid5 i later ns sid ?d2)"
      using none fields(3) replay_next_ok [of ?d2 i uuid5 later ns sid] ok2 i ReplayShows fields(1)
      by (auto simp: writes_well_def director_ok_def)
    then show ?thesis using i ReplayShows failed by (cases returned) (simp_all add: writer_goes_def Let_def)
  next
    case Written
    then show ?thesis using i by (simp add: writer_goes_def Let_def writes_well_same ok)
  qed
qed

section \<open>Every step\<close>

text \<open>No emission of a writer fails.\<close>

fun emits_well :: "narration_event \<Rightarrow> bool" where
  "emits_well (WriterGoes i returned now) = returned"
| "emits_well _ = True"

lemma writes_well_memory:
  assumes ok: "director_ok d" and m: "memory_ok d'" and ws: "nd_writers d' = nd_writers d @ ws"
    and new: "list_all (\<lambda>w. \<not> holds_lock w) ws" and same: "nd_locked d' = nd_locked d" "nd_highest_sequence d' = nd_highest_sequence d"
    and ms: "broadcasts ms = []"
  shows "writes_well b d (d', ms)"
proof -
  have none: "submits w = None" if "w \<in> set ws" for w
    using new that submits_holds by (cases "submits w") (auto simp: list_all_iff)
  have "filter holds_lock ws = []" using new by (simp add: filter_empty_conv list_all_iff)
  then have "lock_ok d'" using ok none unfolding director_ok_def lock_ok_def ws same by auto
  moreover have "under_way d' = under_way d" using none by (fastforce simp: under_way_def ws)
  ultimately show ?thesis using m ms same by (simp add: writes_well_def director_ok_def)
qed

lemma broadcasts_append [simp]: "broadcasts (ms @ ns) = broadcasts ms @ broadcasts ns"
  by (simp add: broadcasts_def)

lemma broadcasts_cue_goes [simp]: "broadcasts (snd (cue_goes i w now busy singing d)) = []"
proof -
  have "broadcasts (snd (cue_cancelled i d)) = []" for d
    by (simp add: cue_cancelled_def Let_def cue_emission_def broadcasts_def)
  moreover have "broadcasts (snd (cue_failed i d)) = []" for d by (simp add: cue_failed_def cue_emission_def broadcasts_def)
  moreover have "broadcasts (snd (cue_loop i now busy singing d)) = []" for d
    by (simp add: cue_loop_def Let_def cue_emission_def broadcasts_def)
  moreover have "broadcasts (snd (speaker_goes i w now d)) = []" for d
    using calculation by (cases w) (simp_all add: speaker_goes_def Let_def, simp_all add: cue_emission_def broadcasts_def)
  ultimately show ?thesis by (auto simp: cue_goes_def Let_def cue_emission_def broadcasts_def split: cue_stage.split)
qed

lemma configure_memory:
  assumes "configure_narration mode limit d = Inr d'" "memory_ok d"
  shows "memory_ok d' \<and> nd_writers d' = nd_writers d \<and> nd_locked d' = nd_locked d \<and> nd_highest_sequence d' = nd_highest_sequence d"
proof -
  obtain m where m: "mode = Some m" using assms(1) by (cases mode) (simp_all add: configure_narration_def)
  let ?d1 = "case limit of None \<Rightarrow> d | Some n \<Rightarrow> if n \<noteq> nd_replay_limit d then resize_replay n d else d"
  have "limit \<noteq> Some n \<or> replay_limit_ok n" for n using assms(1) m by (auto simp: configure_narration_def split: if_splits)
  then have m1: "memory_ok ?d1" using assms(2) resize_ok by (auto split: option.split)
  have d': "d' = (if m \<noteq> nd_mode ?d1 \<and> m \<noteq> PresentFull
      then cancel_pending (?d1\<lparr>nd_mode := m, nd_generation := nd_generation ?d1 + 1\<rparr>) else ?d1\<lparr>nd_mode := m\<rparr>)"
    using assms(1) unfolding configure_narration_def m Let_def by (simp only: option.case split: if_splits) simp_all
  have "memory_ok d' = memory_ok ?d1" unfolding d'
    by (rule memory_ok_cong) (simp_all add: cancel_pending_def)
  moreover have "nd_writers d' = nd_writers ?d1 \<and> nd_locked d' = nd_locked ?d1 \<and> nd_highest_sequence d' = nd_highest_sequence ?d1"
    unfolding d' by (simp add: cancel_pending_def)
  moreover have "nd_writers ?d1 = nd_writers d \<and> nd_locked ?d1 = nd_locked d \<and> nd_highest_sequence ?d1 = nd_highest_sequence d"
    by (simp add: resize_replay_def Let_def split: option.split)
  ultimately show ?thesis using m1 by simp
qed

lemma narrate_writes_well:
  assumes ok: "director_ok d"
  shows "writes_well (emits_well e) d (narrate uuid5 e d)"
proof -
  have m: "memory_ok d" using ok by (simp add: director_ok_def)
  have same: "writes_well b d (d', ms)" if "writing d' = writing d" "broadcasts ms = []" for b d' ms
  proof -
    have "director_ok d'" using that(1) ok director_ok_cong by blast
    then show ?thesis using that by (simp add: writes_well_def writing_def under_way_def)
  qed
  show ?thesis
  proof (cases e)
    case (SubmitComes v)
    have "writes_well True d (d', [])" if "begin_submit v d = Inr d'" for d'
    proof -
      consider "d' = d" | j where "d' = d\<lparr>nd_writers := nd_writers d @ [Submitting j]\<rparr>"
        using \<open>begin_submit v d = Inr d'\<close> by (auto simp: begin_submit_def split: if_splits sum.split_asm)
      then show ?thesis
      proof cases
        case 1
        then show ?thesis using ok by (simp add: writes_well_same)
      next
        case 2
        then show ?thesis
          by (intro writes_well_memory [OF ok, where ws = "[Submitting j]"])
             (use m in \<open>simp_all add: memory_ok_def recent_sequences_def broadcasts_def\<close>)
      qed
    qed
    then show ?thesis using SubmitComes by (simp add: writes_well_same ok split: sum.split)
  next
    case (ReplayComes vs sid)
    have "begin_replay vs sid d = d \<or> (\<exists>js. begin_replay vs sid d = d\<lparr>nd_writers := nd_writers d @ [Replaying js sid]\<rparr>)"
      by (simp add: begin_replay_def) blast
    then show ?thesis
    proof
      assume "begin_replay vs sid d = d"
      then show ?thesis using ReplayComes ok by (simp add: writes_well_same)
    next
      assume "\<exists>js. begin_replay vs sid d = d\<lparr>nd_writers := nd_writers d @ [Replaying js sid]\<rparr>"
      then obtain js where "begin_replay vs sid d = d\<lparr>nd_writers := nd_writers d @ [Replaying js sid]\<rparr>" by blast
      then show ?thesis unfolding ReplayComes narrate.simps
        by (intro writes_well_memory [OF ok, where ws = "[Replaying js sid]"])
           (use m in \<open>simp_all add: memory_ok_def recent_sequences_def broadcasts_def\<close>)
    qed
  next
    case (RecentComes sid)
    have "broadcasts (replay_emissions sid d) = []"
      by (auto simp: replay_emissions_def broadcasts_def)
    then show ?thesis using RecentComes same by simp
  next
    case (WriterGoes i returned now)
    then show ?thesis using writer_goes_ok [OF ok, of returned] by simp
  next
    case (CueGoes i w now busy singing)
    have "writes_well True d (fst (cue_goes i w now busy singing d), snd (cue_goes i w now busy singing d))"
      by (rule same) simp_all
    then show ?thesis using CueGoes by simp
  next
    case (ConfigureComes mode limit)
    have "writes_well True d (d', [])" if "configure_narration mode limit d = Inr d'" for d'
      using configure_memory [OF that m]
      by (intro writes_well_memory [OF ok, where ws = "[]"]) (simp_all add: broadcasts_def)
    then show ?thesis using ConfigureComes by (simp add: writes_well_same ok split: sum.split)
  next
    case GenerationComes
    have "writing (fst (switch_generation d)) = writing d"
      by (simp add: switch_generation_def) (simp add: writing_def)
    then show ?thesis using GenerationComes same by (simp add: broadcasts_def)
  qed
qed

section \<open>Broadcasts of a run\<close>

definition broadcast_log :: "log_entry list \<Rightarrow> int list" where
  "broadcast_log es = broadcasts (map le_emission es)"

lemma broadcast_log_step: "broadcast_log (entries_of uuid5 e d) = broadcasts (snd (narrate uuid5 e d))"
  by (simp add: broadcast_log_def entries_of_def comp_def)

lemma run_ok:
  "director_ok d \<Longrightarrow> director_ok (narrated uuid5 es d) \<and> nd_highest_sequence d \<le> nd_highest_sequence (narrated uuid5 es d) \<and>
     (\<forall>n\<in>set (broadcast_log (narration_log uuid5 es d)). nd_highest_sequence d < n)"
proof (induction es arbitrary: d)
  case (Cons e es)
  note w = narrate_writes_well [OF Cons.prems, of e uuid5, unfolded writes_well_def]
  then have ok: "director_ok (fst (narrate uuid5 e d))" by blast
  have "\<forall>n\<in>set (broadcasts (snd (narrate uuid5 e d))). nd_highest_sequence d < n" using w by auto
  then show ?case using w Cons.IH [OF ok]
    by (auto simp: broadcast_log_def entries_of_def comp_def)
qed (simp add: broadcast_log_def broadcasts_def)

lemma calm_run_ordered:
  assumes "director_ok d" "under_way d = {}" "\<forall>e\<in>set es. emits_well e"
  shows "sorted_wrt (<) (broadcast_log (narration_log uuid5 es d)) \<and>
    (\<forall>n\<in>set (broadcast_log (narration_log uuid5 es d)).
       n \<in> under_way (narrated uuid5 es d) \<or> n \<le> nd_highest_sequence (narrated uuid5 es d))"
  using assms(3)
proof (induction es rule: rev_induct)
  case (snoc e es)
  let ?d = "narrated uuid5 es d" and ?bs = "broadcast_log (narration_log uuid5 es d)"
  have ok: "director_ok ?d" using run_ok [OF assms(1)] by blast
  have IH: "sorted_wrt (<) ?bs" "\<forall>n\<in>set ?bs. n \<in> under_way ?d \<or> n \<le> nd_highest_sequence ?d"
    using snoc by simp_all
  have log: "broadcast_log (narration_log uuid5 (es @ [e]) d) = ?bs @ broadcasts (snd (narrate uuid5 e ?d))"
    using broadcast_log_step by (simp add: broadcast_log_def)
  have w: "writes_well True ?d (narrate uuid5 e ?d)"
    using narrate_writes_well [OF ok, of e uuid5] snoc.prems by simp
  show ?case
  proof (cases "broadcasts (snd (narrate uuid5 e ?d)) = []")
    case True
    then show ?thesis using IH w unfolding log by (fastforce simp: writes_well_def)
  next
    case False
    then obtain n where "broadcasts (snd (narrate uuid5 e ?d)) = [n]" "under_way ?d = {}" "nd_highest_sequence ?d < n"
      "n \<in> under_way (fst (narrate uuid5 e ?d))" "nd_highest_sequence ?d \<le> nd_highest_sequence (fst (narrate uuid5 e ?d))"
      using w by (auto simp: writes_well_def)
    then show ?thesis using IH unfolding log by (fastforce simp: sorted_wrt_append)
  qed
qed (simp add: broadcast_log_def broadcasts_def)

lemma new_director_ok:
  assumes "new_director mode limit speaker interrupt = Inr d"
  shows "director_ok d \<and> under_way d = {}"
  using assms by (auto simp: new_director_def director_ok_def memory_ok_def lock_ok_def recent_sequences_def under_way_def
      replay_limit_ok_def split: if_splits)

end
