(* ===== verification/Narration_Speech.thy ===== *)
theory Narration_Speech
  imports Narration_Inv
begin

text \<open>
  The cues: what a step leaves of the other tasks, which states a cue has emitted in which stage, and how a
  cancelled task ends.
\<close>

section \<open>Tasks that do not go\<close>

definition task_kept :: "nat \<Rightarrow> director \<Rightarrow> director \<Rightarrow> bool" where
  "task_kept i d d' \<longleftrightarrow>
     i < length (nd_tasks d') \<and> nt_cue (nd_tasks d' ! i) = nt_cue (nd_tasks d ! i) \<and>
     nt_generation (nd_tasks d' ! i) = nt_generation (nd_tasks d ! i) \<and>
     nt_stage (nd_tasks d' ! i) = nt_stage (nd_tasks d ! i) \<and>
     (nt_cancelled (nd_tasks d ! i) \<longrightarrow> nt_cancelled (nd_tasks d' ! i))"

lemma task_kept_refl: "i < length (nd_tasks d) \<Longrightarrow> nd_tasks d' = nd_tasks d \<Longrightarrow> task_kept i d d'"
  by (simp add: task_kept_def)

lemma task_kept_trans: "task_kept i d d1 \<Longrightarrow> task_kept i d1 d2 \<Longrightarrow> task_kept i d d2"
  by (auto simp: task_kept_def)

lemma cancel_cue_kept: "i < length (nd_tasks d) \<Longrightarrow> task_kept i d (cancel_cue k d)"
  by (cases "i = k") (simp_all add: task_kept_def cancel_cue_def)

lemma cancel_pending_kept: "i < length (nd_tasks d) \<Longrightarrow> task_kept i d (cancel_pending d)"
  by (simp add: task_kept_def cancel_pending_def)

lemma set_stage_kept: "i < length (nd_tasks d) \<Longrightarrow> i \<noteq> k \<Longrightarrow> task_kept i d (set_stage k g d)"
  by (simp add: task_kept_def set_stage_def)

lemma task_done_tasks [simp]: "nd_tasks (task_done k d) = nd_tasks (set_stage k CueEnded d)"
  by (simp add: task_done_def Let_def split: option.split)

lemma end_cue_tasks [simp]: "nd_tasks (end_cue k d) = nd_tasks (set_stage k CueEnded d)"
  by (simp add: end_cue_def) (simp add: set_stage_def)

lemma supersede_tasks:
  "nd_tasks (supersede_pending key d) = nd_tasks d \<or> (\<exists>k. nd_tasks (supersede_pending key d) = nd_tasks (cancel_cue k d))"
  by (simp add: supersede_pending_def Let_def cancel_cue_def split: option.split) blast

lemma task_kept_tasks: "task_kept i d d1 \<Longrightarrow> nd_tasks d2 = nd_tasks d1 \<Longrightarrow> task_kept i d d2"
  by (simp add: task_kept_def)

text \<open>Scheduling adds at most one task, of the present generation in the full mode.\<close>

lemma schedule_tasks:
  assumes "d' = schedule_cue j s r now d"
  shows "(i < length (nd_tasks d) \<longrightarrow> task_kept i d d') \<and> nd_generation d' = nd_generation d \<and> nd_mode d' = nd_mode d \<and>
    (length (nd_tasks d) \<le> i \<longrightarrow> i < length (nd_tasks d') \<longrightarrow>
       nt_stage (nd_tasks d' ! i) = CueCreated \<and> nt_generation (nd_tasks d' ! i) = nd_generation d' \<and> nd_mode d' = PresentFull)"
proof (cases "r \<or> nd_mode d \<noteq> PresentFull \<or> \<not> nd_has_speaker d")
  case True
  then show ?thesis using assms by (auto simp: schedule_cue_def task_kept_refl)
next
  case False
  let ?d1 = "supersede_pending (progress_key j) d"
  have keep: "task_kept i d ?d1" if "i < length (nd_tasks d)"
    using supersede_tasks [of "progress_key j" d] cancel_cue_kept [OF that] task_kept_refl [OF that] task_kept_tasks by metis
  have same: "nd_generation ?d1 = nd_generation d" "nd_mode ?d1 = nd_mode d" "length (nd_tasks ?d1) = length (nd_tasks d)"
    by (simp_all add: supersede_pending_def Let_def cancel_cue_def split: option.split)
  obtain t where t: "nd_tasks d' = nd_tasks ?d1 @ [t]" "nt_stage t = CueCreated" "nt_generation t = nd_generation ?d1"
    "nd_generation d' = nd_generation ?d1" "nd_mode d' = nd_mode ?d1"
    unfolding assms using False by (cases "nc_priority (cue_of j s now) = 50") (simp_all add: schedule_cue_def Let_def)
  have "task_kept i d d'" if "i < length (nd_tasks d)"
    using keep [OF that] that same(3) by (simp add: task_kept_def t(1) nth_append)
  moreover have "nd_tasks d' ! i = t" if "length (nd_tasks d) \<le> i" "i < length (nd_tasks d')"
  proof -
    have "i = length (nd_tasks ?d1)" using that same(3) by (simp add: t(1))
    then show ?thesis by (simp add: t(1))
  qed
  ultimately show ?thesis using t same False by auto
qed

text \<open>What an event does to a task that is not the one that goes.\<close>

definition others_kept :: "director \<Rightarrow> director \<Rightarrow> nat option \<Rightarrow> bool" where
  "others_kept d d' k \<longleftrightarrow>
     (\<forall>i. (i < length (nd_tasks d) \<and> k \<noteq> Some i \<longrightarrow> task_kept i d d') \<and>
        (length (nd_tasks d) \<le> i \<and> i < length (nd_tasks d') \<longrightarrow>
           nt_stage (nd_tasks d' ! i) = CueCreated \<and> nt_generation (nd_tasks d' ! i) = nd_generation d' \<and> nd_mode d' = PresentFull))"

lemma others_kept_same: "nd_tasks d' = nd_tasks d \<Longrightarrow> others_kept d d' k"
  by (auto simp: others_kept_def task_kept_refl)

lemma others_kept_tasks: "others_kept d d1 k \<Longrightarrow> nd_tasks d0 = nd_tasks d \<Longrightarrow> others_kept d0 d1 k"
  by (simp add: others_kept_def task_kept_def)

lemma schedule_others: "others_kept d (schedule_cue j s r now d) None"
  using schedule_tasks [OF refl, of _ d j s r now] unfolding others_kept_def by blast

lemma set_stage_others: "nd_tasks d' = nd_tasks (set_stage k g d) \<Longrightarrow> others_kept d d' (Some k)"
  unfolding others_kept_def
proof (intro allI conjI impI; elim conjE)
  fix i assume d': "nd_tasks d' = nd_tasks (set_stage k g d)"
  show "task_kept i d d'" if "i < length (nd_tasks d)" "Some k \<noteq> Some i"
    using task_kept_tasks [OF set_stage_kept d'] that by simp
  show "nt_stage (nd_tasks d' ! i) = CueCreated" "nt_generation (nd_tasks d' ! i) = nd_generation d'" "nd_mode d' = PresentFull"
    if "length (nd_tasks d) \<le> i" "i < length (nd_tasks d')" using that d' by (simp_all add: set_stage_def)
qed

lemma cue_goes_tasks:
  "nd_tasks (fst (cue_goes i w now busy singing d)) = nd_tasks d \<or>
   (\<exists>g. nd_tasks (fst (cue_goes i w now busy singing d)) = nd_tasks (set_stage i g d))"
proof -
  have "\<exists>g. nd_tasks (fst (cue_cancelled i d)) = nd_tasks (set_stage i g d)"
    by (simp add: cue_cancelled_def Let_def) (auto simp: set_stage_def)
  moreover have "\<exists>g. nd_tasks (fst (cue_failed i d)) = nd_tasks (set_stage i g d)"
    by (simp add: cue_failed_def) blast
  moreover have "\<exists>g. nd_tasks (fst (cue_loop i now busy singing d)) = nd_tasks (set_stage i g d)"
    by (simp add: cue_loop_def Let_def) blast
  moreover have "nd_tasks (fst (speaker_goes i w now d)) = nd_tasks d \<or> (\<exists>g. nd_tasks (fst (speaker_goes i w now d)) = nd_tasks (set_stage i g d))"
    using calculation by (cases w) (simp_all add: speaker_goes_def Let_def, auto simp: set_stage_def)
  ultimately show ?thesis
    by (simp add: cue_goes_def Let_def split: cue_stage.split) blast
qed

lemma writer_goes_others: "others_kept d (fst (writer_goes uuid5 i returned now d)) None"
proof -
  have forward: "nd_tasks (fst (replay_next uuid5 i js ns sid d)) = nd_tasks d" for js ns sid d
    unfolding replay_next_def by (simp add: set_writer_def split: list.split)
  have finish: "others_kept d (finish_submit i j s r now d) None" for j s r
  proof -
    let ?d = "set_writer i Written ((append_recent j s ((remember_event (nj_sequence j) d)\<lparr>nd_highest_sequence := nj_sequence j\<rparr>))\<lparr>nd_locked := False\<rparr>)"
    have same: "nd_tasks ?d = nd_tasks d" by (simp add: set_writer_def append_recent_def remember_event_def)
    show ?thesis
      unfolding finish_submit_def by (rule others_kept_tasks [OF schedule_others]) (simp add: same)
  qed
  show ?thesis
  proof (cases "nd_writers d ! i")
    case (ReplayShows j s later ns sid)
    let ?d1 = "d\<lparr>nd_highest_sequence := max (nd_highest_sequence d) (nj_sequence j)\<rparr>"
    have "nd_tasks (append_recent j s ?d1) = nd_tasks d" by (simp add: append_recent_def)
    then show ?thesis
      by (intro others_kept_same) (simp add: writer_goes_def Let_def ReplayShows forward set_writer_def)
  qed (use finish in \<open>simp_all add: writer_goes_def Let_def others_kept_same set_writer_def forward\<close>)
qed

lemma cancel_pending_others: "others_kept d (cancel_pending d) k"
  using cancel_pending_kept by (fastforce simp: others_kept_def cancel_pending_def)

lemma narrate_others: "others_kept d (fst (narrate uuid5 e d)) (cue_of_event e)"
proof (cases e)
  case (SubmitComes v)
  have "nd_tasks d' = nd_tasks d" if "begin_submit v d = Inr d'" for d'
    using that by (auto simp: begin_submit_def split: if_splits sum.split_asm)
  then show ?thesis using SubmitComes by (simp add: others_kept_same split: sum.split)
next
  case (ConfigureComes mode limit)
  have "others_kept d d' None" if conf: "configure_narration mode limit d = Inr d'" for d'
  proof -
    obtain m where m: "mode = Some m" using conf by (cases mode) (simp_all add: configure_narration_def)
    let ?d1 = "case limit of None \<Rightarrow> d | Some n \<Rightarrow> if n \<noteq> nd_replay_limit d then resize_replay n d else d"
    let ?d2 = "?d1\<lparr>nd_mode := m, nd_generation := nd_generation ?d1 + 1\<rparr>"
    have d': "d' = cancel_pending ?d2 \<or> d' = ?d1\<lparr>nd_mode := m\<rparr>"
      using conf unfolding configure_narration_def m Let_def by (simp only: option.case split: if_splits) simp_all
    have same: "nd_tasks ?d1 = nd_tasks d" by (simp add: resize_replay_def Let_def split: option.split)
    have "others_kept d (cancel_pending ?d2) None"
      by (rule others_kept_tasks [OF cancel_pending_others]) (simp_all add: same cancel_pending_def)
    then show ?thesis using d' same by (auto intro: others_kept_same)
  qed
  then show ?thesis using ConfigureComes by (simp add: others_kept_same split: sum.split)
next
  case GenerationComes
  have "others_kept d (cancel_pending (d\<lparr>nd_generation := nd_generation d + 1\<rparr>)) None"
    by (rule others_kept_tasks [OF cancel_pending_others]) (simp_all add: cancel_pending_def)
  then show ?thesis using GenerationComes by (simp add: switch_generation_def)
next
  case (CueGoes i w now busy singing)
  then show ?thesis using cue_goes_tasks [of i w now busy singing d] others_kept_same set_stage_others by fastforce
qed (simp_all add: others_kept_same writer_goes_others begin_replay_def)

section \<open>What a cue says\<close>

fun speech_of_emission :: "emission \<Rightarrow> speech_state list" where
  "speech_of_emission (EmitState s None) = [ns_speech_state s]"
| "speech_of_emission _ = []"

definition spoken :: "emission list \<Rightarrow> speech_state list" where
  "spoken ms = concat (map speech_of_emission ms)"

lemma spoken_simps [simp]:
  "spoken [] = []"
  "spoken [cue_emission t x] = [x]"
  by (simp_all add: spoken_def cue_emission_def)

text \<open>
  The states a cue goes through: announced once, spoken once, completed once, in this order, and cancelled
  at the end, also after it was not spoken or while its last state was emitted.
\<close>

definition speech_stems :: "speech_state list list" where
  "speech_stems =
     [[], [SpeechQueued], [SpeechQueued, SpeechSpeaking], [SpeechQueued, SpeechCompleted], [SpeechQueued, SpeechCancelled],
      [SpeechQueued, SpeechSpeaking, SpeechCompleted], [SpeechQueued, SpeechSpeaking, SpeechCancelled]]"

definition speech_words :: "speech_state list list" where
  "speech_words = speech_stems @ map (\<lambda>w. w @ [SpeechCancelled]) speech_stems"

fun said_ok :: "cue_stage \<Rightarrow> speech_state list \<Rightarrow> bool" where
  "said_ok CueCreated xs \<longleftrightarrow> xs = []"
| "said_ok CuePolling xs \<longleftrightarrow> xs = []"
| "said_ok CueAnnouncing xs \<longleftrightarrow> xs = [SpeechQueued]"
| "said_ok CueCalling xs \<longleftrightarrow> xs = [SpeechQueued]"
| "said_ok CueSpeaking xs \<longleftrightarrow> xs = [SpeechQueued, SpeechSpeaking]"
| "said_ok CueClosing xs \<longleftrightarrow> xs \<in> set speech_stems"
| "said_ok CueInterrupting xs \<longleftrightarrow> xs \<in> set speech_stems"
| "said_ok CueCancelling xs \<longleftrightarrow> (\<exists>w\<in>set speech_stems. xs = w @ [SpeechCancelled])"
| "said_ok CueFailing xs \<longleftrightarrow> (\<exists>w\<in>set speech_stems. xs = w @ [SpeechCancelled])"
| "said_ok CueEnded xs \<longleftrightarrow> xs \<in> set speech_words"

lemma said_words: "said_ok g xs \<Longrightarrow> xs \<in> set speech_words"
  by (cases g) (auto simp: speech_words_def speech_stems_def)

lemma said_stems: "said_ok g xs \<Longrightarrow> g \<notin> {CueCancelling, CueFailing, CueEnded} \<Longrightarrow> xs \<in> set speech_stems"
  by (cases g) (auto simp: speech_stems_def)

lemma stems_words: "xs \<in> set speech_stems \<Longrightarrow> xs \<in> set speech_words"
  by (simp add: speech_words_def)

lemma stage_after [simp]:
  "i < length (nd_tasks d) \<Longrightarrow> nt_stage (nd_tasks (set_stage i g d) ! i) = g"
  "i < length (nd_tasks d) \<Longrightarrow> nt_cancelled (nd_tasks (set_stage i g d) ! i) = False"
  "nd_generation (set_stage i g d) = nd_generation d"
  "nd_mode (set_stage i g d) = nd_mode d"
  by (simp_all add: set_stage_def)

definition said_on :: "nat \<Rightarrow> speech_state list \<Rightarrow> director \<times> emission list \<Rightarrow> bool" where
  "said_on i xs r \<longleftrightarrow> said_ok (nt_stage (nd_tasks (fst r) ! i)) (xs @ spoken (snd r))"

lemma cancelled_said_on:
  assumes "i < length (nd_tasks d)" "xs \<in> set speech_stems"
  shows "said_on i xs (cue_cancelled i d)"
  using assms stems_words [OF assms(2)]
  by (auto simp: said_on_def cue_cancelled_def Let_def)

lemma failed_said_on:
  assumes "i < length (nd_tasks d)" "xs \<in> set speech_stems"
  shows "said_on i xs (cue_failed i d)"
  using assms by (auto simp: said_on_def cue_failed_def)

lemma loop_said_on:
  assumes "i < length (nd_tasks d)" "xs = []"
  shows "said_on i xs (cue_loop i now busy singing d)"
  using assms by (simp add: said_on_def cue_loop_def Let_def speech_words_def speech_stems_def)

lemma speaker_said_on:
  assumes i: "i < length (nd_tasks d)" and g: "nt_stage (nd_tasks d ! i) \<in> {CueCalling, CueSpeaking}"
    and s: "said_ok (nt_stage (nd_tasks d ! i)) xs"
  shows "said_on i xs (speaker_goes i w now d)"
proof -
  have xs: "xs = [SpeechQueued] \<and> nt_stage (nd_tasks d ! i) = CueCalling \<or>
      xs = [SpeechQueued, SpeechSpeaking] \<and> nt_stage (nd_tasks d ! i) = CueSpeaking" using g s by auto
  then have stem: "xs \<in> set speech_stems" by (auto simp: speech_stems_def)
  show ?thesis
  proof (cases w)
    case Raises
    then show ?thesis using failed_said_on [OF i stem] by (simp add: speaker_goes_def)
  next
    case Cancels
    then show ?thesis using cancelled_said_on [OF i stem] by (simp add: speaker_goes_def)
  next
    case Returns
    then show ?thesis using s by (simp add: speaker_goes_def said_on_def)
  next
    case SpeakerStarts
    then show ?thesis using i xs by (auto simp: speaker_goes_def said_on_def Let_def)
  next
    case (SpeakerGives b)
    then show ?thesis using i xs by (auto simp: speaker_goes_def said_on_def Let_def speech_stems_def)
  qed
qed

lemma cue_said_on:
  assumes i: "i < length (nd_tasks d)" and s: "said_ok (nt_stage (nd_tasks d ! i)) xs"
  shows "said_on i xs (cue_goes i w now busy singing d)"
proof -
  let ?g = "nt_stage (nd_tasks d ! i)" and ?r = "cue_goes i w now busy singing d"
  note said = said_stems [OF s] said_words [OF s]
  have ended: "said_on i xs (d', [])" if "nt_stage (nd_tasks d' ! i) = CueEnded" for d'
    using that said(2) by (simp add: said_on_def)
  have finished: "nt_stage (nd_tasks (task_done i d) ! i) = CueEnded" "nt_stage (nd_tasks (end_cue i d) ! i) = CueEnded"
    using i by simp_all
  show ?thesis
  proof (cases ?g)
    case CueCreated
    then show ?thesis using i s ended [OF finished(1)] loop_said_on [OF i] by (auto simp: cue_goes_def Let_def)
  next
    case CuePolling
    then show ?thesis using i s cancelled_said_on [OF i said(1)] loop_said_on [OF i] by (auto simp: cue_goes_def Let_def)
  next
    case CueAnnouncing
    then show ?thesis using i s cancelled_said_on [OF i said(1)] failed_said_on [OF i said(1)]
      by (auto simp: cue_goes_def Let_def said_on_def)
  next
    case CueCalling
    then show ?thesis using i speaker_said_on [OF i _ s] by (simp add: cue_goes_def Let_def)
  next
    case CueSpeaking
    then show ?thesis using i speaker_said_on [OF i _ s] by (simp add: cue_goes_def Let_def)
  next
    case CueClosing
    then show ?thesis using i s cancelled_said_on [OF i said(1)] failed_said_on [OF i said(1)] ended [OF finished(2)]
      by (simp add: cue_goes_def Let_def)
  next
    case CueInterrupting
    then show ?thesis using i s said(1) ended [OF finished(2)] by (auto simp: cue_goes_def Let_def said_on_def)
  next
    case CueCancelling
    then show ?thesis using i ended [OF finished(2)] by (simp add: cue_goes_def Let_def)
  next
    case CueFailing
    then show ?thesis using i ended [OF finished(2)] by (simp add: cue_goes_def Let_def)
  next
    case CueEnded
    then show ?thesis using i s by (simp add: cue_goes_def Let_def said_on_def)
  qed
qed

text \<open>What is announced or said to be spoken belongs to the present generation.\<close>

lemma cue_speaks_now:
  assumes "m \<in> set (snd (cue_goes i w now busy singing d))" "x \<in> set (speech_of_emission m)" "x \<in> {SpeechQueued, SpeechSpeaking}"
  shows "nt_generation (nd_tasks d ! i) = nd_generation d \<and> i < length (nd_tasks d)"
proof -
  let ?current = "nt_generation (nd_tasks d ! i) = nd_generation d"
  have c: "m \<notin> set (snd (cue_cancelled i d))" "m \<notin> set (snd (cue_failed i d))"
    using assms(2,3) by (auto simp: cue_cancelled_def cue_failed_def Let_def cue_emission_def)
  moreover have "m \<in> set (snd (cue_loop i now busy singing d)) \<Longrightarrow> ?current"
    by (auto simp: cue_loop_def Let_def split: if_splits)
  moreover have "m \<in> set (snd (speaker_goes i w now d)) \<Longrightarrow> ?current"
    using c assms(2,3) by (cases w) (auto simp: speaker_goes_def Let_def cue_emission_def split: if_splits)
  moreover have "m = cue_emission t SpeechCancelled \<Longrightarrow> False" for t using assms(2,3) by (auto simp: cue_emission_def)
  ultimately have "?current" "\<not> length (nd_tasks d) \<le> i"
    using assms(1) by (auto simp: cue_goes_def Let_def split: if_splits cue_stage.split_asm)
  then show ?thesis by simp
qed

section \<open>Runs\<close>

definition speech_of :: "nat \<Rightarrow> log_entry list \<Rightarrow> speech_state list" where
  "speech_of i es = spoken (map le_emission (filter (\<lambda>e. le_cue e = Some i) es))"

lemma spoken_append: "spoken (ms @ ns) = spoken ms @ spoken ns"
  by (simp add: spoken_def)

lemma speech_of_step:
  "speech_of i (es @ entries_of uuid5 e d) =
     speech_of i es @ (if cue_of_event e = Some i then spoken (snd (narrate uuid5 e d)) else [])"
  by (simp add: speech_of_def spoken_append entries_of_def filter_map comp_def)

lemma cue_of_event_goes: "cue_of_event e = Some i \<Longrightarrow> \<exists>w now busy singing. e = CueGoes i w now busy singing"
  by (cases e) simp_all

lemma cue_goes_length [simp]: "length (nd_tasks (fst (cue_goes i w now busy singing d))) = length (nd_tasks d)"
  using cue_goes_tasks [of i w now busy singing d] by (auto simp: set_stage_def)

lemma run_said:
  assumes "nd_tasks d = []"
  shows "if i < length (nd_tasks (narrated uuid5 es d))
    then said_ok (nt_stage (nd_tasks (narrated uuid5 es d) ! i)) (speech_of i (narration_log uuid5 es d))
    else speech_of i (narration_log uuid5 es d) = []"
proof (induction es rule: rev_induct)
  case Nil
  then show ?case using assms by (simp add: speech_of_def)
next
  case (snoc e es)
  let ?d = "narrated uuid5 es d" and ?xs = "speech_of i (narration_log uuid5 es d)"
  show ?case
  proof (cases "cue_of_event e = Some i")
    case True
    then obtain w now busy singing where e: "e = CueGoes i w now busy singing" using cue_of_event_goes by blast
    show ?thesis
    proof (cases "i < length (nd_tasks ?d)")
      case i: True
      have "said_on i ?xs (cue_goes i w now busy singing ?d)" by (rule cue_said_on [OF i]) (use snoc i in simp)
      then show ?thesis using i by (simp add: speech_of_step e said_on_def)
    next
      case False
      then show ?thesis using snoc by (simp add: speech_of_step e cue_goes_def)
    qed
  next
    case False
    have o: "others_kept ?d (fst (narrate uuid5 e ?d)) (cue_of_event e)" by (rule narrate_others)
    show ?thesis
    proof (cases "i < length (nd_tasks ?d)")
      case i: True
      then have "task_kept i ?d (fst (narrate uuid5 e ?d))" using o False by (simp add: others_kept_def)
      then show ?thesis using snoc i False by (simp add: speech_of_step task_kept_def)
    next
      case i: False
      then have "nt_stage (nd_tasks (fst (narrate uuid5 e ?d)) ! i) = CueCreated"
        if "i < length (nd_tasks (fst (narrate uuid5 e ?d)))"
        using o that by (simp add: others_kept_def)
      then show ?thesis using snoc i False by (simp add: speech_of_step)
    qed
  qed
qed

text \<open>Tasks keep their generation, and a task of the present one was created in the full mode, which is still set.\<close>

lemma narrate_generations:
  assumes "i < length (nd_tasks d)"
  shows "i < length (nd_tasks (fst (narrate uuid5 e d))) \<and>
    nt_generation (nd_tasks (fst (narrate uuid5 e d)) ! i) = nt_generation (nd_tasks d ! i)"
proof (cases "cue_of_event e = Some i")
  case True
  then obtain w now busy singing where "e = CueGoes i w now busy singing" using cue_of_event_goes by blast
  then show ?thesis using assms cue_goes_tasks [of i w now busy singing d] by (auto simp: set_stage_def)
next
  case False
  then show ?thesis using narrate_others [of d uuid5 e] assms by (simp add: others_kept_def task_kept_def)
qed

lemma run_generations:
  "i < length (nd_tasks d) \<Longrightarrow> i < length (nd_tasks (narrated uuid5 es d)) \<and>
    nt_generation (nd_tasks (narrated uuid5 es d) ! i) = nt_generation (nd_tasks d ! i)"
  using narrate_generations by (induction es arbitrary: d) simp_all

lemma cue_goes_generation [simp]:
  "nd_generation (fst (cue_goes i w now busy singing d)) = nd_generation d \<and> nd_mode (fst (cue_goes i w now busy singing d)) = nd_mode d"
proof -
  have settled: "nd_generation (task_done i d) = nd_generation d \<and> nd_mode (task_done i d) = nd_mode d" for d
    by (simp add: task_done_def Let_def split: option.split)
  then have ended: "nd_generation (end_cue i d) = nd_generation d \<and> nd_mode (end_cue i d) = nd_mode d" for d
    by (simp add: end_cue_def)
  have c: "nd_generation (fst (cue_cancelled i d)) = nd_generation d \<and> nd_mode (fst (cue_cancelled i d)) = nd_mode d"
    using ended by (simp add: cue_cancelled_def Let_def)
  have f: "nd_generation (fst (cue_failed i d)) = nd_generation d \<and> nd_mode (fst (cue_failed i d)) = nd_mode d"
    by (simp add: cue_failed_def)
  have "nd_generation (fst (cue_loop i now busy singing d)) = nd_generation d \<and> nd_mode (fst (cue_loop i now busy singing d)) = nd_mode d"
    using ended by (simp add: cue_loop_def Let_def)
  moreover have "nd_generation (fst (speaker_goes i v now d)) = nd_generation d \<and> nd_mode (fst (speaker_goes i v now d)) = nd_mode d" for v
    using c f by (cases v) (simp_all add: speaker_goes_def Let_def)
  ultimately show ?thesis using settled ended c f by (simp add: cue_goes_def Let_def split: cue_stage.split)
qed

lemma narrate_mode:
  "nd_generation (fst (narrate uuid5 e d)) = nd_generation d \<and>
     (nd_mode (fst (narrate uuid5 e d)) = nd_mode d \<or> nd_mode (fst (narrate uuid5 e d)) = PresentFull) \<or>
   nd_generation (fst (narrate uuid5 e d)) = nd_generation d + 1"
proof (cases e)
  case (SubmitComes v)
  then show ?thesis by (auto simp: begin_submit_def split: sum.split)
next
  case (WriterGoes i returned now)
  have "nd_generation (fst (replay_next uuid5 i js ns sid d)) = nd_generation d \<and>
      nd_mode (fst (replay_next uuid5 i js ns sid d)) = nd_mode d" for js ns sid d
    unfolding replay_next_def by (simp add: set_writer_def split: list.split)
  moreover have "nd_generation (finish_submit i j s r now d) = nd_generation d \<and> nd_mode (finish_submit i j s r now d) = nd_mode d" for j s r
  proof -
    let ?d = "set_writer i Written ((append_recent j s ((remember_event (nj_sequence j) d)\<lparr>nd_highest_sequence := nj_sequence j\<rparr>))\<lparr>nd_locked := False\<rparr>)"
    have "nd_generation ?d = nd_generation d \<and> nd_mode ?d = nd_mode d"
      by (simp add: set_writer_def append_recent_def remember_event_def)
    then show ?thesis unfolding finish_submit_def using schedule_tasks [OF refl, of 0 ?d j s r now] by simp
  qed
  ultimately show ?thesis using WriterGoes
    by (simp add: writer_goes_def Let_def set_writer_def append_recent_def split: narration_writer.split)
next
  case (ConfigureComes mode limit)
  have "nd_generation d' = nd_generation d \<and> (nd_mode d' = nd_mode d \<or> nd_mode d' = PresentFull) \<or> nd_generation d' = nd_generation d + 1"
    if conf: "configure_narration mode limit d = Inr d'" for d'
  proof -
    obtain m where m: "mode = Some m" using conf by (cases mode) (simp_all add: configure_narration_def)
    let ?d1 = "case limit of None \<Rightarrow> d | Some n \<Rightarrow> if n \<noteq> nd_replay_limit d then resize_replay n d else d"
    have "d' = (if m \<noteq> nd_mode ?d1 \<and> m \<noteq> PresentFull
        then cancel_pending (?d1\<lparr>nd_mode := m, nd_generation := nd_generation ?d1 + 1\<rparr>) else ?d1\<lparr>nd_mode := m\<rparr>)"
      using conf unfolding configure_narration_def m Let_def by (simp only: option.case split: if_splits) simp_all
    moreover have "nd_generation ?d1 = nd_generation d \<and> nd_mode ?d1 = nd_mode d"
      by (simp add: resize_replay_def Let_def split: option.split)
    ultimately show ?thesis by (simp add: cancel_pending_def)
  qed
  then show ?thesis using ConfigureComes by (simp split: sum.split)
qed (simp_all add: begin_replay_def switch_generation_def cancel_pending_def)

definition modes_ok :: "director \<Rightarrow> bool" where
  "modes_ok d \<longleftrightarrow>
     (\<forall>i<length (nd_tasks d). nt_generation (nd_tasks d ! i) \<le> nd_generation d \<and>
        (nt_generation (nd_tasks d ! i) = nd_generation d \<longrightarrow> nd_mode d = PresentFull))"

lemma narrate_modes_ok:
  assumes "modes_ok d"
  shows "modes_ok (fst (narrate uuid5 e d))"
  unfolding modes_ok_def
proof (intro allI impI)
  fix i let ?d = "fst (narrate uuid5 e d)"
  assume i: "i < length (nd_tasks ?d)"
  show "nt_generation (nd_tasks ?d ! i) \<le> nd_generation ?d \<and>
      (nt_generation (nd_tasks ?d ! i) = nd_generation ?d \<longrightarrow> nd_mode ?d = PresentFull)"
  proof (cases "i < length (nd_tasks d)")
    case True
    then have "nt_generation (nd_tasks ?d ! i) = nt_generation (nd_tasks d ! i)" "nt_generation (nd_tasks d ! i) \<le> nd_generation d"
      "nt_generation (nd_tasks d ! i) = nd_generation d \<longrightarrow> nd_mode d = PresentFull"
      using narrate_generations [of i d uuid5 e] assms by (simp_all add: modes_ok_def)
    then show ?thesis using narrate_mode [of uuid5 e d] by auto
  next
    case False
    then have "nt_generation (nd_tasks ?d ! i) = nd_generation ?d \<and> nd_mode ?d = PresentFull"
      using narrate_others [of d uuid5 e] i unfolding others_kept_def by (meson not_less)
    then show ?thesis by simp
  qed
qed

lemma run_modes_ok: "modes_ok d \<Longrightarrow> modes_ok (narrated uuid5 es d)"
  using narrate_modes_ok by (induction es arbitrary: d) simp_all

lemma run_speaks_now:
  assumes "modes_ok d" "en \<in> set (narration_log uuid5 es d)" "le_cue en = Some i" "x \<in> set (speech_of_emission (le_emission en))"
    "x \<in> {SpeechQueued, SpeechSpeaking}"
  shows "le_mode en = PresentFull \<and> i < length (nd_tasks (narrated uuid5 es d)) \<and>
    nt_generation (nd_tasks (narrated uuid5 es d) ! i) = le_generation en"
  using assms(1,2)
proof (induction es arbitrary: d)
  case (Cons e es)
  show ?case
  proof (cases "en \<in> set (entries_of uuid5 e d)")
    case True
    then have m: "le_emission en \<in> set (snd (narrate uuid5 e d))" "cue_of_event e = Some i"
      and now: "le_generation en = nd_generation d" "le_mode en = nd_mode d"
      using assms(3) by (auto simp: entries_of_def)
    obtain w t busy singing where e: "e = CueGoes i w t busy singing" using m(2) cue_of_event_goes by blast
    have g: "nt_generation (nd_tasks d ! i) = nd_generation d \<and> i < length (nd_tasks d)"
      using cue_speaks_now [OF _ assms(4,5)] m(1) unfolding e narrate.simps by blast
    then have "nd_mode d = PresentFull" using Cons.prems(1) unfolding modes_ok_def by blast
    then show ?thesis using now g run_generations [of i d uuid5 "e # es"] by simp
  next
    case False
    then show ?thesis using Cons.IH [OF narrate_modes_ok [OF Cons.prems(1)]] Cons.prems(2) by simp
  qed
qed simp

end
