(* ===== verification/Narration_Feed.thy ===== *)
theory Narration_Feed
  imports Narration Goal_Models Journal_Examples Journal_Feed
begin

text \<open>
  From the feed of the journal to the director: the validation undoes the projection, every record of a
  reachable feed has a valid draft, and so the director accepts what the publisher emits.
\<close>

section \<open>From the feed to the director\<close>

lemma char_of_code [simp]: "char_of (code c) = c"
  by (simp add: code_def)

lemma code_less [simp]: "code c < 256"
  unfolding code_def by (metis mod_less_divisor of_char_mod_256 zero_less_numeral)

lemma ascii_eq [simp]: "ascii s = ascii t \<longleftrightarrow> s = t"
proof
  assume "ascii s = ascii t"
  then have "map char_of (ascii s) = (map char_of (ascii t) :: string)" by simp
  then show "s = t" by (simp add: ascii_def comp_def)
qed simp

lemma sequence_of_event_id [simp]: "1 \<le> n \<Longrightarrow> event_sequence (event_id_of n) = Some n"
proof -
  assume n: "1 \<le> n"
  have id: "event_id_of n = ascii ''activity:'' @ ascii (str_of_int n)" by (simp add: event_id_of_def ascii_def)
  have chars: "map char_of (ascii (str_of_int n)) = str_of_int n" "list_all (\<lambda>c. c < 256) (ascii (str_of_int n))"
    by (simp_all add: ascii_def comp_def list_all_iff)
  show ?thesis using n unfolding event_sequence_def Let_def by (simp add: id chars int_of_str_of_int)
qed

lemma names_roundtrip [simp]:
  "lookup_name phase_names (PText (name_in phase_names ph)) = Inr ph"
  "lookup_name intent_names (PText (name_in intent_names i)) = Inr i"
  "lookup_name outcome_names (PText (name_in outcome_names x)) = Inr x"
  "lookup_name focus_kind_names (PText (name_in focus_kind_names k)) = Inr k"
  "lookup_name progress_unit_names (PText (name_in progress_unit_names u)) = Inr u"
proof -
  show "lookup_name phase_names (PText (name_in phase_names ph)) = Inr ph"
    by (cases ph) (simp_all add: lookup_name_def phase_names_def)
  show "lookup_name intent_names (PText (name_in intent_names i)) = Inr i"
    by (cases i) (simp_all add: lookup_name_def intent_names_def)
  show "lookup_name outcome_names (PText (name_in outcome_names x)) = Inr x"
    by (cases x) (simp_all add: lookup_name_def outcome_names_def)
  show "lookup_name focus_kind_names (PText (name_in focus_kind_names k)) = Inr k"
    by (cases k) (simp_all add: lookup_name_def focus_kind_names_def)
  show "lookup_name progress_unit_names (PText (name_in progress_unit_names u)) = Inr u"
    by (cases u) (simp_all add: lookup_name_def progress_unit_names_def)
qed

fun member_of :: "'a option \<Rightarrow> 'a member" where
  "member_of None = Null"
| "member_of (Some x) = Given x"

definition input_of_record :: "activity_record \<Rightarrow> narration_input" where
  "input_of_record r =
     \<lparr>nj_sequence = ar_sequence r, nj_occurred_at_ms = ad_occurred_at_ms r,
      nj_mission_id = member_of (map_option ascii (ad_mission_id r)),
      nj_payload =
        \<lparr>np_phase = ap_phase (ad_payload r), np_intent = member_of (ap_intent (ad_payload r)),
         np_focus = member_of (ap_focus (ad_payload r)), np_progress = member_of (ap_progress (ad_payload r)),
         np_outcome = Some (ap_outcome (ad_payload r))\<rparr>\<rparr>"

definition label_ok :: "activity_focus option \<Rightarrow> bool" where
  "label_ok f \<longleftrightarrow> (case f of None \<Rightarrow> True | Some g \<Rightarrow> fo_label g \<noteq> [] \<and> length (fo_label g) \<le> 64)"

definition public_mission_ok :: "string option \<Rightarrow> bool" where
  "public_mission_ok m \<longleftrightarrow> (case m of None \<Rightarrow> True | Some s \<Rightarrow> slug 127 s)"

lemma mission_text_slug: "mission_text_ok (ascii s) = slug 127 s"
proof (cases s)
  case (Cons c cs)
  have "c = CHR ''-'' \<longleftrightarrow> code c = 45" for c
  proof
    assume "code c = 45"
    then have "code c = code (CHR ''-'')" by (simp add: code_def)
    then have "char_of (code c) = (char_of (code (CHR ''-'')) :: char)" by simp
    then show "c = CHR ''-''" by (simp only: char_of_code)
  qed (simp add: code_def)
  then show ?thesis using Cons
    by (simp add: mission_text_ok_def slug_def ascii_def slug_char_def is_lower_def is_digit_def list_all_iff)
qed (simp add: mission_text_ok_def slug_def ascii_def)

lemma parse_mission_record:
  "parse_mission (Some (case map_option ascii m of None \<Rightarrow> PNull | Some i \<Rightarrow> PText i)) =
   (if public_mission_ok m then Some (member_of (map_option ascii m)) else None)"
  by (cases m) (simp_all add: parse_mission_def public_mission_ok_def mission_text_slug)

lemma parse_payload_record:
  assumes "activity_payload_ok p"
  shows "parse_payload (dump_payload p) =
    (if label_ok (ap_focus p)
     then Inr \<lparr>np_phase = ap_phase p, np_intent = member_of (ap_intent p), np_focus = member_of (ap_focus p),
               np_progress = member_of (ap_progress p), np_outcome = Some (ap_outcome p)\<rparr>
     else Inl InvalidActivity)"
proof -
  have keys: "keys_within (dump_payload p) [''phase'', ''intent'', ''focus'', ''progress'', ''outcome'']"
    by (simp add: keys_within_def dump_payload_def)
  have state: "parse_state (dump_payload p) = Inr (ap_phase p, Some (ap_outcome p))"
    by (simp add: parse_state_def dump_payload_def)
  have intent: "parse_intent (dict_get (dump_payload p) (ascii ''intent'')) = Inr (member_of (ap_intent p))"
    by (cases "ap_intent p") (simp_all add: parse_intent_def dump_payload_def)
  have focus: "parse_focus (dict_get (dump_payload p) (ascii ''focus'')) =
      (if label_ok (ap_focus p) then Inr (member_of (ap_focus p)) else Inl InvalidActivity)"
    by (cases "ap_focus p") (auto simp: parse_focus_def dump_payload_def label_ok_def keys_are_def keys_within_def)
  have progress: "parse_progress (dict_get (dump_payload p) (ascii ''progress'')) = Inr (member_of (ap_progress p))"
    using assms
    by (cases "ap_progress p")
       (auto simp: parse_progress_def dump_payload_def keys_are_def keys_within_def activity_payload_ok_def activity_progress_ok_def)
  have "(ap_outcome p \<noteq> OActive) = (ap_phase p = Finished)" using assms by (simp add: activity_payload_ok_def)
  then show ?thesis
    by (cases "ap_phase p = Finished") (simp_all add: parse_payload_def keys state intent focus progress)
qed

lemma validate_record:
  assumes "activity_draft_ok r" "1 \<le> ar_sequence r"
  shows "validate_projection (dump_projection (project_activity r)) =
    (if public_mission_ok (ad_mission_id r) \<and> label_ok (ap_focus (ad_payload r)) then Inr (input_of_record r)
     else Inl InvalidActivity)"
proof -
  let ?v = "dump_projection (project_activity r)"
  have envelope: "envelope_ok ?v" by (simp add: envelope_ok_def keys_within_def dump_projection_def)
  have get: "dict_get ?v (ascii ''event_id'') = Some (PText (event_id_of (ar_sequence r)))"
    "dict_get ?v (ascii ''projection_version'') = Some (PInt (ar_sequence r))"
    "dict_get ?v (ascii ''occurred_at_ms'') = Some (PInt (ad_occurred_at_ms r))"
    "dict_get ?v (ascii ''payload'') = Some (PMap (dump_payload (ad_payload r)))"
    "dict_get ?v (ascii ''mission_id'') = Some (case map_option ascii (ad_mission_id r) of None \<Rightarrow> PNull | Some i \<Rightarrow> PText i)"
    by (simp_all add: dump_projection_def project_activity_def)
  have payload: "activity_payload_ok (ad_payload r)" "0 \<le> ad_occurred_at_ms r" using assms(1) by (simp_all add: activity_draft_ok_def)
  show ?thesis
    unfolding validate_projection_def get parse_mission_record
    using envelope assms(2) payload(2) sequence_of_event_id [OF assms(2)]
    by (simp add: parse_payload_record [OF payload(1)] input_of_record_def)
qed

section \<open>The records of the feed\<close>

definition drafts_ok :: "journal_state \<Rightarrow> bool" where
  "drafts_ok s \<longleftrightarrow> (\<forall>r\<in>set (js_activities s). activity_draft_ok r)"

lemma drafts_ok_frame: "aside_of s' = aside_of s \<Longrightarrow> drafts_ok s' = drafts_ok s"
  by (simp add: aside_of_def drafts_ok_def)

lemma drafts_ok_subset: "set (js_activities s') \<subseteq> set (js_activities s) \<Longrightarrow> drafts_ok s \<Longrightarrow> drafts_ok s'"
  by (auto simp: drafts_ok_def)

lemma drafts_ok_append:
  assumes "append_activity s d before = (s', x)" "activity_draft_ok d" "drafts_ok s"
  shows "drafts_ok s'"
proof -
  let ?r = "activity_record_of d (js_activity_sequence s + 1)"
  have retained: "set (js_activities (retain_recent_activity s b k)) \<subseteq> set (js_activities s)" for s b k
    by (auto simp: retain_recent_activity_def Let_def split: option.split)
  have "activity_draft_ok ?r" using assms(2) by (simp add: activity_draft_ok_def)
  moreover have "set (js_activities s') \<subseteq> insert ?r (set (js_activities s))"
    using assms(1) retained
    by (fastforce simp: append_activity_def Let_def split: option.splits if_splits)
  ultimately show ?thesis using assms(3) by (auto simp: drafts_ok_def)
qed

lemma drafts_ok_steps:
  "reserve_step s st = (s', x) \<Longrightarrow> drafts_ok s' = drafts_ok s"
  "update_step_state s sid v = (s', y) \<Longrightarrow> drafts_ok s' = drafts_ok s"
  "record_step_receipt s sid r = (s', y) \<Longrightarrow> drafts_ok s' = drafts_ok s"
  "settle_step s sid r u w = (s', y) \<Longrightarrow> drafts_ok s' = drafts_ok s"
  by (auto simp: reserve_step_def update_step_state_def record_step_receipt_def settle_step_def Let_def
      drafts_ok_def split: option.splits if_splits)

lemma drafts_ok_expire:
  assumes "expire_terminal_payloads s t = (s', x)" "drafts_ok s"
  shows "drafts_ok s'"
  by (rule drafts_ok_subset [OF _ assms(2)])
     (use assms(1) in \<open>auto simp: expire_terminal_payloads_def Let_def split: if_splits\<close>)

lemma drafts_ok_step: "journal_step s s' \<Longrightarrow> drafts_ok s \<Longrightarrow> drafts_ok s'"
proof (induction rule: journal_step.induct)
  case (step_activity a s before s' y)
  then show ?case by (blast intro: drafts_ok_append)
next
  case (step_expire_activity s t s' k)
  then show ?case by (auto simp: expire_activity_def Let_def drafts_ok_def)
next
  case (step_expire_payloads s t s' m)
  then show ?case by (blast intro: drafts_ok_expire)
qed (auto simp: begin_session_def begin_shutdown_def drafts_ok_frame [OF feed_set_commands(2)]
    drafts_ok_steps dest!: feed_frame dest: drafts_ok_frame)

lemma feed_record_ok:
  assumes "journal_reachable n s" "r \<in> set (js_activities s)"
  shows "activity_draft_ok r \<and> 1 \<le> ar_sequence r"
proof -
  have "drafts_ok s"
    using assms(1)
  proof (induction rule: journal_reachable.induct)
    case reach_empty
    show ?case by (simp add: drafts_ok_def empty_journal_def)
  qed (rule drafts_ok_step)
  moreover have "0 < ar_sequence r" using journal_reachable_feed_inv [OF assms(1)] assms(2) by (simp add: feed_inv_def)
  ultimately show ?thesis using assms(2) by (simp add: drafts_ok_def)
qed

section \<open>The property\<close>

text \<open>
  C34. What the publisher emits for a record of a reachable journal's feed is accepted by the director, with the
  same content, exactly when its mission is none or a slug and its label has 1 to 64 characters, and is
  refused otherwise; once it was delivered it is not emitted again, for as long as it is remembered.
\<close>

theorem published_activity_accepted:
  assumes "journal_reachable n s" "r \<in> set (js_activities s)" "begin_publish r p = Some v" "1 \<le> pu_maximum_delivered_ids p"
  shows "validate_projection v =
      (if public_mission_ok (ad_mission_id r) \<and> label_ok (ap_focus (ad_payload r)) then Inr (input_of_record r)
       else Inl InvalidActivity) \<and>
    (\<exists>p'. end_publish r p = Some p' \<and> begin_publish r p' = None \<and>
       int (length (pu_delivered p')) \<le> pu_maximum_delivered_ids p)"
proof -
  let ?i = "mp_event_id (project_activity r)" and ?k = "nat (pu_maximum_delivered_ids p)"
  have v: "v = dump_projection (project_activity r)" and new: "?i \<notin> set (pu_delivered p)"
    using assms(3) by (auto simp: begin_publish_def Let_def split: if_splits)
  have "activity_draft_ok r" "1 \<le> ar_sequence r" using feed_record_ok [OF assms(1,2)] by simp_all
  then have "validate_projection v =
      (if public_mission_ok (ad_mission_id r) \<and> label_ok (ap_focus (ad_payload r)) then Inr (input_of_record r)
       else Inl InvalidActivity)" unfolding v by (rule validate_record)
  moreover have "end_publish r p = Some (p\<lparr>pu_delivered := last_n ?k (pu_delivered p @ [?i])\<rparr>)"
    using new assms(4) by (simp add: end_publish_def Let_def)
  moreover have "?i \<in> set (last_n ?k (pu_delivered p @ [?i]))" using assms(4) by (simp add: last_n_def)
  moreover have "int (length (last_n ?k (pu_delivered p @ [?i]))) \<le> pu_maximum_delivered_ids p"
    using assms(4) by (simp add: of_nat_min)
  ultimately show ?thesis by (simp add: begin_publish_def Let_def)
qed

theorem published_activity_accepted_witness:
  "validate_projection (dump_projection (project_activity (activity_record_of (example_activity ''k1'' Planning) 1))) =
   Inr (input_of_record (activity_record_of (example_activity ''k1'' Planning) 1))"
proof -
  let ?r = "activity_record_of (example_activity ''k1'' Planning) 1"
  have "list_ex ((=) ?r) (js_activities example_fed)" by code_simp
  then have mem: "?r \<in> set (js_activities example_fed)" by (auto simp: list_ex_iff)
  have "public_mission_ok (ad_mission_id ?r)" "label_ok (ap_focus (ad_payload ?r))" by code_simp+
  then show ?thesis
    using published_activity_accepted [OF example_reachable(5) mem, of "new_publisher 10"]
    by (simp add: begin_publish_def new_publisher_def Let_def)
qed

end
