(* ===== verification/Narration_Properties.thy ===== *)
theory Narration_Properties
  imports Narration_Speech Narration_Feed
begin

text \<open>
  The properties of the director: what all clients get and in which order, what a cue says, and how a change of
  generation ends; and two runs in which a client's replay swallows an event and two cues are spoken without
  the pause between them.
\<close>

section \<open>The end of a cancelled cue\<close>

definition cue_rank :: "narration_task \<Rightarrow> nat" where
  "cue_rank t =
     (case nt_stage t of
        CueEnded \<Rightarrow> 0 | CueCancelling \<Rightarrow> 1 | CueFailing \<Rightarrow> 1 | CueInterrupting \<Rightarrow> 2 | _ \<Rightarrow> if nt_cancelled t then 3 else 4)"

text \<open>The speaker of the i-th cue passes a cancellation on.\<close>

fun passes_cancel :: "nat \<Rightarrow> narration_event \<Rightarrow> bool" where
  "passes_cancel i (CueGoes k w now busy singing) \<longleftrightarrow> k = i \<longrightarrow> w = Cancels"
| "passes_cancel i _ \<longleftrightarrow> True"

lemma kept_rank: "task_kept i d d' \<Longrightarrow> cue_rank (nd_tasks d' ! i) \<le> cue_rank (nd_tasks d ! i)"
  by (auto simp: task_kept_def cue_rank_def split: cue_stage.split)

lemma cancelled_rank:
  assumes i: "i < length (nd_tasks d)" and r: "cue_rank (nd_tasks d ! i) \<le> 3"
  shows "cue_rank (nd_tasks (fst (cue_goes i Cancels now busy singing d)) ! i) \<le> cue_rank (nd_tasks d ! i) - 1"
proof -
  have c: "cue_rank (nd_tasks (fst (cue_cancelled i d)) ! i) \<le> 2"
    using i by (simp add: cue_cancelled_def Let_def cue_rank_def)
  show ?thesis
    using i r c
    by (cases "nt_stage (nd_tasks d ! i)")
       (auto simp: cue_goes_def speaker_goes_def Let_def cue_rank_def split: if_splits)
qed

lemma cancelled_run_rank:
  assumes "i < length (nd_tasks d)" "cue_rank (nd_tasks d ! i) \<le> 3" "\<forall>f\<in>set fs. passes_cancel i f"
  shows "cue_rank (nd_tasks (narrated uuid5 fs d) ! i) \<le>
    cue_rank (nd_tasks d ! i) - length (filter (\<lambda>f. cue_of_event f = Some i) fs)"
  using assms
proof (induction fs arbitrary: d)
  case (Cons f fs)
  let ?d = "fst (narrate uuid5 f d)"
  have len: "i < length (nd_tasks ?d)" using narrate_generations [OF Cons.prems(1)] by blast
  have step: "cue_rank (nd_tasks ?d ! i) \<le> cue_rank (nd_tasks d ! i) - (if cue_of_event f = Some i then 1 else 0)"
  proof (cases "cue_of_event f = Some i")
    case True
    then obtain w now busy singing where f: "f = CueGoes i w now busy singing" using cue_of_event_goes by blast
    then have "w = Cancels" using Cons.prems(3) by simp
    then show ?thesis using cancelled_rank [OF Cons.prems(1,2)] f by simp
  next
    case False
    then have "task_kept i d ?d" using narrate_others [of d uuid5 f] Cons.prems(1) by (simp add: others_kept_def)
    then show ?thesis using kept_rank False by simp
  qed
  then have "cue_rank (nd_tasks ?d ! i) \<le> 3" using Cons.prems(2) by (simp split: if_splits)
  from Cons.IH [OF len this] step Cons.prems(3) show ?case by (simp split: if_splits)
qed simp

lemma switched_rank:
  assumes "i \<in> set (snd (switch_generation d))"
  shows "i < length (nd_tasks (fst (switch_generation d))) \<and> cue_rank (nd_tasks (fst (switch_generation d)) ! i) \<le> 3"
  using assms by (auto simp: switch_generation_def cancel_pending_def cue_rank_def split: cue_stage.split)

section \<open>Examples\<close>

definition example_fact :: "int \<Rightarrow> string \<Rightarrow> activity_record" where
  "example_fact n m =
     \<lparr>ad_source_key = ''k'', ad_command_id = ''c'', ad_caller_scope = ''s'', ad_mission_id = Some m,
      ad_payload = \<lparr>ap_phase = Acting, ap_intent = None, ap_focus = None, ap_progress = None, ap_outcome = OActive\<rparr>,
      ad_occurred_at_ms = 0, ar_sequence = n\<rparr>"

definition example_event :: "int \<Rightarrow> string \<Rightarrow> public_map" where
  "example_event n m = dump_projection (project_activity (example_fact n m))"

lemma example_valid:
  assumes "1 \<le> n" "slug 127 m"
  shows "validate_projection (example_event n m) = Inr (input_of_record (example_fact n m))"
proof -
  have "activity_draft_ok (example_fact n m)" "ar_sequence (example_fact n m) = n"
    "public_mission_ok (ad_mission_id (example_fact n m))" "label_ok (ap_focus (ad_payload (example_fact n m)))"
    using assms(2)
    by (simp_all add: example_fact_def activity_draft_ok_def activity_payload_ok_def public_mission_ok_def label_ok_def slug_def
        split: list.split_asm)
  then show ?thesis using validate_record [of "example_fact n m"] assms(1) by (simp add: example_event_def)
qed

lemma slugs: "slug 127 ''a''" "slug 127 ''b''"
  by code_simp+

lemmas narration_eval = begin_submit_def begin_replay_def writer_goes_def replay_next_def set_writer_def finish_submit_def
  append_recent_def remember_event_def schedule_cue_def supersede_pending_def repeats_last_def cue_goes_def cue_loop_def
  speaker_goes_def set_stage_def Let_def input_of_record_def example_fact_def seen_limit_def last_n_def cue_of_def
  narration_state_of_def payload_outcome_def progress_key_def

lemma replay_swallows:
  assumes d: "new_director mode limit speaker interrupt = Inr d" and "mode \<noteq> PresentOff"
    and run: "es = [ReplayComes [example_event 1 ''a''] client, WriterGoes 0 True 0, WriterGoes 0 True 0, WriterGoes 0 True 0,
      SubmitComes (example_event 1 ''a''), WriterGoes 1 True 0]"
  shows "broadcast_log (narration_log uuid5 es d) = [] \<and> nd_writers (narrated uuid5 es d) = [Written, Written]"
proof -
  have new: "nd_mode d = mode" "nd_writers d = []" "nd_recent d = []" "nd_highest_sequence d = 0" "\<not> nd_locked d" "nd_seen_set d = {}"
    using d by (auto simp: new_director_def split: if_splits)
  show ?thesis
    using example_valid [of 1 "''a''"] slugs new assms(2) unfolding run
    by (simp add: narration_eval broadcast_log_def broadcasts_def entries_of_def)
qed

definition overlap_events :: "narration_event list" where
  "overlap_events =
     [SubmitComes (example_event 1 ''a''), WriterGoes 0 True 0, WriterGoes 0 True 0, WriterGoes 0 True 0,
      SubmitComes (example_event 2 ''b''), WriterGoes 1 True 0, WriterGoes 1 True 0, WriterGoes 1 True 0,
      CueGoes 0 Returns 0 False False, CueGoes 1 Returns 0 False False, CueGoes 0 Returns 0 True False, CueGoes 1 Returns 0 True False]"

text \<open>The task that a submission schedules.\<close>

definition fresh_task :: "(unicode \<Rightarrow> string) \<Rightarrow> narration_input \<Rightarrow> director \<Rightarrow> narration_task" where
  "fresh_task uuid5 j d =
     (let s = narration_state_of uuid5 j; cue = cue_of j s 0 in
      \<lparr>nt_cue = cue, nt_state = s, nt_generation = nd_generation d,
       nt_progress_key = (if nc_priority cue = 50 then Some (progress_key j) else None), nt_stage = CueCreated, nt_cancelled = False\<rparr>)"

lemma submission_schedules:
  assumes v: "validate_projection v = Inr j" and i: "i = length (nd_writers d)"
    and free: "nd_mode d = PresentFull" "\<not> nd_locked d" "nd_has_speaker d"
    and new: "nj_sequence j \<notin> nd_seen_set d" "nd_highest_sequence d < nj_sequence j" "dict_get (nd_pending d) (progress_key j) = None"
      "\<not> repeats_last j (narration_state_of uuid5 j) d"
    and d': "d' = narrated uuid5 [SubmitComes v, WriterGoes i True 0, WriterGoes i True 0, WriterGoes i True 0] d"
  shows "nd_tasks d' = nd_tasks d @ [fresh_task uuid5 j d]" "nd_mode d' = PresentFull" "\<not> nd_locked d'" "nd_has_speaker d'"
    "length (nd_writers d') = Suc (length (nd_writers d))" "nd_highest_sequence d' = nj_sequence j"
    "nd_seen_set d' \<subseteq> insert (nj_sequence j) (nd_seen_set d)" "nd_generation d' = nd_generation d"
    "nd_last_spoken_at d' = nd_last_spoken_at d"
    "dict_get (nd_pending d') k = (if k = progress_key j \<and> nc_priority (nt_cue (fresh_task uuid5 j d)) = 50 then Some (length (nd_tasks d)) else dict_get (nd_pending d) k)"
    "0 < nd_replay_limit d \<Longrightarrow> nd_recent d' \<noteq> [] \<and> fst (last (nd_recent d')) = j"
proof -
  let ?s = "narration_state_of uuid5 j"
  let ?w = "\<lambda>w l. d\<lparr>nd_locked := l, nd_writers := nd_writers d @ [w]\<rparr>"
  have same: "repeats_last j ?s (d\<lparr>nd_writers := ws\<rparr>) = repeats_last j ?s d" for ws by (simp add: repeats_last_def)
  have "narrated uuid5 [SubmitComes v, WriterGoes i True 0, WriterGoes i True 0] d = ?w (SubmitShows j ?s) True"
    using free new same by (simp add: begin_submit_def v writer_goes_def Let_def set_writer_def i)
  then have d2: "d' = finish_submit i j ?s False 0 (?w (SubmitShows j ?s) True)"
    unfolding d' using narrated_append [of uuid5 "[SubmitComes v, WriterGoes i True 0, WriterGoes i True 0]" "[WriterGoes i True 0]" d]
    by (simp add: writer_goes_def i)
  note eval = d2 finish_submit_def schedule_cue_def supersede_pending_def set_writer_def append_recent_def remember_event_def Let_def
    fresh_task_def
  show "nd_tasks d' = nd_tasks d @ [fresh_task uuid5 j d]" "nd_mode d' = PresentFull" "\<not> nd_locked d'" "nd_has_speaker d'"
    "length (nd_writers d') = Suc (length (nd_writers d))" "nd_highest_sequence d' = nj_sequence j" "nd_generation d' = nd_generation d"
    "nd_last_spoken_at d' = nd_last_spoken_at d"
    using free new by (simp_all add: eval)
  show "nd_seen_set d' \<subseteq> insert (nj_sequence j) (nd_seen_set d)" using free new by (auto simp: eval)
  show "dict_get (nd_pending d') k = (if k = progress_key j \<and> nc_priority (nt_cue (fresh_task uuid5 j d)) = 50 then Some (length (nd_tasks d)) else dict_get (nd_pending d) k)"
    using free new by (simp add: eval dict_simps)
  have recent: "nd_recent d' = last_n (nat (nd_replay_limit d)) (nd_recent d @ [(j, ?s)])" using free new by (simp add: eval)
  assume "0 < nd_replay_limit d"
  then show "nd_recent d' \<noteq> [] \<and> fst (last (nd_recent d')) = j" unfolding recent last_n_def by simp
qed

lemma cue_announces:
  assumes "i < length (nd_tasks d)" "nt_stage (nd_tasks d ! i) = CueCreated" "\<not> nt_cancelled (nd_tasks d ! i)"
    "nt_generation (nd_tasks d ! i) = nd_generation d" "nd_last_spoken_at d = None" "0 < nc_expires_at (nt_cue (nd_tasks d ! i))"
  shows "fst (cue_goes i Returns 0 False False d) = set_stage i CueAnnouncing d"
  using assms by (simp add: cue_goes_def cue_loop_def Let_def)

lemma cue_calls:
  assumes "i < length (nd_tasks d)" "nt_stage (nd_tasks d ! i) = CueAnnouncing" "\<not> nt_cancelled (nd_tasks d ! i)"
  shows "fst (cue_goes i Returns now busy singing d) = set_stage i CueCalling d"
  using assms by (simp add: cue_goes_def Let_def)

text \<open>Two cues that pass the test of the pause before the first is spoken.\<close>

lemma cues_overlap:
  assumes d: "new_director PresentFull limit True interrupt = Inr d"
  shows "map nt_stage (nd_tasks (narrated uuid5 overlap_events d)) = [CueCalling, CueCalling]"
proof -
  let ?j = "input_of_record (example_fact 1 ''a'')" and ?k = "input_of_record (example_fact 2 ''b'')"
  have new: "nd_mode d = PresentFull" "nd_writers d = []" "nd_recent d = []" "nd_highest_sequence d = 0" "\<not> nd_locked d"
    "nd_seen_set d = {}" "nd_tasks d = []" "nd_has_speaker d" "nd_pending d = []" "nd_last_spoken_at d = None"
    "0 < nd_replay_limit d" "nd_generation d = 0"
    using d by (auto simp: new_director_def replay_limit_ok_def split: if_splits)
  have seq: "nj_sequence ?j = 1" "nj_sequence ?k = 2" "progress_key ?j = ascii ''mission:a''" "progress_key ?k = ascii ''mission:b''"
    by (simp_all add: input_of_record_def example_fact_def progress_key_def) (simp_all add: ascii_def)
  obtain d1 where d1: "d1 = narrated uuid5 [SubmitComes (example_event 1 ''a''), WriterGoes 0 True 0, WriterGoes 0 True 0, WriterGoes 0 True 0] d"
    by simp
  obtain d2 where d2: "d2 = narrated uuid5 [SubmitComes (example_event 2 ''b''), WriterGoes 1 True 0, WriterGoes 1 True 0, WriterGoes 1 True 0] d1"
    by simp
  have fresh_event: "\<not> repeats_last ?j (narration_state_of uuid5 ?j) d" using new by (simp add: repeats_last_def)
  note s1 = submission_schedules [OF example_valid [OF _ slugs(1)] _ new(1,5,8) _ _ _ _ d1]
  have one: "nd_tasks d1 = [fresh_task uuid5 ?j d]" "nd_mode d1 = PresentFull" "\<not> nd_locked d1" "nd_has_speaker d1" "length (nd_writers d1) = 1"
    "nd_highest_sequence d1 = 1" "nd_seen_set d1 \<subseteq> {1}" "nd_generation d1 = 0" "nd_last_spoken_at d1 = None"
    "dict_get (nd_pending d1) (ascii ''mission:b'') = None" "nd_recent d1 \<noteq> [] \<and> fst (last (nd_recent d1)) = ?j"
    using s1 new seq fresh_event by simp_all
  have "given_member (nj_mission_id ?k) \<noteq> given_member (nj_mission_id ?j)"
    by (simp add: input_of_record_def example_fact_def)
  then have "\<not> repeats_last ?k (narration_state_of uuid5 ?k) d1" using one(11) by (simp add: repeats_last_def Let_def)
  moreover have "nj_sequence ?k \<notin> nd_seen_set d1" using one(7) seq by auto
  ultimately have two: "nd_tasks d2 = [fresh_task uuid5 ?j d, fresh_task uuid5 ?k d1]" "nd_generation d2 = 0" "nd_last_spoken_at d2 = None"
    using submission_schedules [OF example_valid [OF _ slugs(2)] _ one(2-4) _ _ _ _ d2] one seq by simp_all
  have fresh: "nt_stage (fresh_task uuid5 j e) = CueCreated" "\<not> nt_cancelled (fresh_task uuid5 j e)"
    "nt_generation (fresh_task uuid5 j e) = nd_generation e" "0 < nc_expires_at (nt_cue (fresh_task uuid5 j e))" for j e
    by (simp_all add: fresh_task_def Let_def cue_of_def)
  let ?d3 = "set_stage 0 CueAnnouncing d2"
  let ?d4 = "set_stage 1 CueAnnouncing ?d3"
  let ?d5 = "set_stage 0 CueCalling ?d4"
  have g3: "fst (cue_goes 0 Returns 0 False False d2) = ?d3"
    by (rule cue_announces) (simp_all add: two fresh new)
  have g4: "fst (cue_goes 1 Returns 0 False False ?d3) = ?d4"
    by (rule cue_announces) (simp_all add: two fresh one set_stage_def)
  have g5: "fst (cue_goes 0 Returns 0 True False ?d4) = ?d5"
    by (rule cue_calls) (simp_all add: two set_stage_def)
  have g6: "fst (cue_goes 1 Returns 0 True False ?d5) = set_stage 1 CueCalling ?d5"
    by (rule cue_calls) (simp_all add: two set_stage_def)
  have "narrated uuid5 overlap_events d = set_stage 1 CueCalling ?d5"
    unfolding overlap_events_def using d1 d2 g3 g4 g5 g6 by simp
  then show ?thesis by (simp add: two set_stage_def)
qed

section \<open>The properties\<close>

text \<open>
  C35. In every run of a director: what is broadcast to all clients is above everything that was remembered or
  replayed before, and in order if no emission fails; the memory is bounded and without duplicates.  So a valid
  event that a replay has sent to one client is dropped when it is submitted: no other client gets it.
\<close>

theorem events_broadcast_once:
  assumes d: "new_director mode limit speaker interrupt = Inr d" and mid: "m = narrated uuid5 es d"
  shows "(\<forall>n\<in>set (broadcast_log (narration_log uuid5 fs m)). nd_highest_sequence m < n) \<and>
    nd_highest_sequence m \<le> nd_highest_sequence (narrated uuid5 fs m) \<and>
    ((\<forall>e\<in>set es. emits_well e) \<longrightarrow> sorted_wrt (<) (broadcast_log (narration_log uuid5 es d))) \<and>
    int (length (nd_recent m)) \<le> nd_replay_limit m \<and> length (nd_seen m) \<le> seen_limit (nd_replay_limit m) \<and>
    distinct (recent_sequences m) \<and> (\<forall>n\<in>set (recent_sequences m) \<union> nd_seen_set m. n \<le> nd_highest_sequence m) \<and>
    (mode \<noteq> PresentOff \<longrightarrow>
      (\<exists>v j gs. validate_projection v = Inr j \<and> SubmitComes v \<in> set gs \<and> (\<forall>e\<in>set gs. emits_well e) \<and>
         broadcast_log (narration_log uuid5 gs d) = [] \<and> set (nd_writers (narrated uuid5 gs d)) = {Written}))"
proof -
  have ok: "director_ok d" "under_way d = {}" using new_director_ok [OF d] by simp_all
  have mok: "director_ok m" using run_ok [OF ok(1)] mid by blast
  then have "memory_ok m" by (simp add: director_ok_def)
  moreover have "\<exists>v j gs. validate_projection v = Inr j \<and> SubmitComes v \<in> set gs \<and> (\<forall>e\<in>set gs. emits_well e) \<and>
      broadcast_log (narration_log uuid5 gs d) = [] \<and> set (nd_writers (narrated uuid5 gs d)) = {Written}" if "mode \<noteq> PresentOff"
  proof -
    let ?v = "example_event 1 ''a''"
    let ?gs = "[ReplayComes [?v] ''client'', WriterGoes 0 True 0, WriterGoes 0 True 0, WriterGoes 0 True 0, SubmitComes ?v, WriterGoes 1 True 0]"
    have "validate_projection ?v = Inr (input_of_record (example_fact 1 ''a''))" by (rule example_valid) (simp_all add: slugs)
    moreover have "broadcast_log (narration_log uuid5 ?gs d) = [] \<and> nd_writers (narrated uuid5 ?gs d) = [Written, Written]"
      by (rule replay_swallows [OF d that refl])
    ultimately show ?thesis by (intro exI [of _ ?v] exI [of _ "input_of_record (example_fact 1 ''a'')"] exI [of _ ?gs]) simp
  qed
  ultimately show ?thesis
    using run_ok [OF mok, of uuid5 fs] calm_run_ordered [OF ok, of es uuid5] mid by (auto simp: memory_ok_def)
qed

theorem events_broadcast_once_witness:
  "\<exists>d. new_director PresentVisual 8 False False = Inr d \<and>
     sorted_wrt (<) (broadcast_log (narration_log (\<lambda>i. ''cue'') [SubmitComes (example_event 1 ''a''), WriterGoes 0 True 0] d))"
proof -
  obtain d where d: "new_director PresentVisual 8 False False = Inr d" by (simp add: new_director_def replay_limit_ok_def)
  have "\<forall>e\<in>set [SubmitComes (example_event 1 ''a''), WriterGoes 0 True 0]. emits_well e" by simp
  then show ?thesis
    using events_broadcast_once [OF d refl, of "\<lambda>i. ''cue''" _ "[SubmitComes (example_event 1 ''a''), WriterGoes 0 True 0]"] d by blast
qed

text \<open>
  C36. In every run of a director each cue goes through its states in order: announced once, spoken once, completed
  once, cancelled at the end.  It is announced and spoken only in the full mode and in the generation it was
  made in.  After a change of generation every task it waits for ends after three steps of its own, whatever
  else happens, if the speaker passes the cancellation on.  But the pause between cues is tested before the
  speech and recorded after it, so two cues can be given to the speaker together.
\<close>

theorem narration_speech_orderly:
  assumes d: "new_director mode limit speaker interrupt = Inr d" and m: "m = narrated uuid5 es d"
  shows "speech_of i (narration_log uuid5 es d) \<in> set speech_words \<and>
    (\<forall>en\<in>set (narration_log uuid5 es d).
       \<forall>k s. le_cue en = Some k \<and> le_emission en = EmitState s None \<and> ns_speech_state s \<in> {SpeechQueued, SpeechSpeaking} \<longrightarrow>
         le_mode en = PresentFull \<and> k < length (nd_tasks m) \<and> nt_generation (nd_tasks m ! k) = le_generation en) \<and>
    (\<forall>k\<in>set (snd (switch_generation m)).
       \<forall>fs. (\<forall>f\<in>set fs. passes_cancel k f) \<and> 3 \<le> length (filter (\<lambda>f. cue_of_event f = Some k) fs) \<longrightarrow>
         nt_stage (nd_tasks (narrated uuid5 fs (fst (switch_generation m))) ! k) = CueEnded) \<and>
    (mode = PresentFull \<and> speaker \<longrightarrow>
       (\<exists>gs. map nt_stage (nd_tasks (narrated uuid5 gs d)) = [CueCalling, CueCalling]))"
proof -
  have tasks: "nd_tasks d = []" using d by (auto simp: new_director_def split: if_splits)
  then have modes: "modes_ok d" by (simp add: modes_ok_def)
  have "speech_of i (narration_log uuid5 es d) \<in> set speech_words"
    using run_said [OF tasks, of i uuid5 es] said_words by (auto simp: speech_words_def speech_stems_def split: if_splits)
  moreover have "le_mode en = PresentFull \<and> k < length (nd_tasks m) \<and> nt_generation (nd_tasks m ! k) = le_generation en"
    if "en \<in> set (narration_log uuid5 es d)" "le_cue en = Some k" "le_emission en = EmitState s None"
      "ns_speech_state s \<in> {SpeechQueued, SpeechSpeaking}" for en k s
    unfolding m by (rule run_speaks_now [OF modes that(1,2)]) (use that in auto)
  moreover have "nt_stage (nd_tasks (narrated uuid5 fs (fst (switch_generation m))) ! k) = CueEnded"
    if "k \<in> set (snd (switch_generation m))" "\<forall>f\<in>set fs. passes_cancel k f" "3 \<le> length (filter (\<lambda>f. cue_of_event f = Some k) fs)" for k fs
  proof -
    have "cue_rank (nd_tasks (narrated uuid5 fs (fst (switch_generation m))) ! k) = 0"
      using cancelled_run_rank [of k "fst (switch_generation m)" fs uuid5] switched_rank [OF that(1)] that(2,3) by simp
    then show ?thesis by (simp add: cue_rank_def split: cue_stage.split_asm if_splits)
  qed
  moreover have "\<exists>gs. map nt_stage (nd_tasks (narrated uuid5 gs d)) = [CueCalling, CueCalling]" if "mode = PresentFull" "speaker"
  proof -
    have "new_director PresentFull limit True interrupt = Inr d" using d that by simp
    then show ?thesis by (intro exI [of _ overlap_events]) (rule cues_overlap)
  qed
  ultimately show ?thesis by blast
qed

theorem narration_speech_orderly_witness:
  "\<exists>d gs. new_director PresentFull 8 True False = Inr d \<and>
     map nt_stage (nd_tasks (narrated (\<lambda>i. ''cue'') gs d)) = [CueCalling, CueCalling] \<and>
     speech_of 0 (narration_log (\<lambda>i. ''cue'') gs d) \<in> set speech_words"
proof -
  obtain d where d: "new_director PresentFull 8 True False = Inr d" by (simp add: new_director_def replay_limit_ok_def)
  note ordered = narration_speech_orderly [OF d refl, where ?uuid5.0 = "\<lambda>i. ''cue''" and i = 0]
  from ordered [of "[]", THEN conjunct2, THEN conjunct2, THEN conjunct2]
  obtain gs where gs: "map nt_stage (nd_tasks (narrated (\<lambda>i. ''cue'') gs d)) = [CueCalling, CueCalling]"
    by (elim impE exE) simp_all
  show ?thesis using d gs ordered [of gs, THEN conjunct1] by (intro exI conjI)
qed

end
