(* ===== verification/Activity_Recorder.thy ===== *)
theory Activity_Recorder
  imports Activity_Projection Journal_Control
begin

text \<open>
  The recorder of \<open>tools/minecraft/voyager/public_activity.py\<close>: what of a command becomes public, as a draft for the
  journal's feed, and the call that commits the draft and then publishes the record.
\<close>

section \<open>Labels\<close>

text \<open>
  \<open>_UNSAFE_LABEL\<close>, a search without regard to case.  \<open>word\<close> says which characters are \<open>\w\<close>; without regard to
  case \<open>s\<close> and \<open>k\<close> have one more form each, and a range of letters has these and two forms of \<open>i\<close>.
\<close>

definition same_letter :: "nat \<Rightarrow> nat \<Rightarrow> bool" where
  "same_letter l c \<longleftrightarrow> c = l \<or> c + 32 = l \<or> l = 115 \<and> c = 383 \<or> l = 107 \<and> c = 8490"

definition key_char :: "nat \<Rightarrow> bool" where
  "key_char c \<longleftrightarrow>
     65 \<le> c \<and> c \<le> 90 \<or> 97 \<le> c \<and> c \<le> 122 \<or> 48 \<le> c \<and> c \<le> 57 \<or> c \<in> {45, 95, 304, 305, 383, 8490}"

definition bearer_here :: "unicode \<Rightarrow> bool" where
  "bearer_here s \<longleftrightarrow>
     7 \<le> length s \<and> list_all2 same_letter [98, 101, 97, 114, 101, 114] (take 6 s) \<and> unicode_space (s ! 6)"

definition key_here :: "unicode \<Rightarrow> bool" where
  "key_here s \<longleftrightarrow>
     9 \<le> length s \<and> same_letter 115 (s ! 0) \<and> same_letter 107 (s ! 1) \<and> s ! 2 = 45 \<and>
     list_all key_char (take 6 (drop 3 s))"

fun unsafe_from :: "(nat \<Rightarrow> bool) \<Rightarrow> bool \<Rightarrow> unicode \<Rightarrow> bool" where
  "unsafe_from word before [] \<longleftrightarrow> False"
| "unsafe_from word before (c # cs) \<longleftrightarrow>
     before \<noteq> word c \<and> (bearer_here (c # cs) \<or> key_here (c # cs)) \<or> c < 32 \<or> unsafe_from word (word c) cs"

text \<open>The label of a focus is measured, stripped and then searched.\<close>

definition new_focus :: "(nat \<Rightarrow> bool) \<Rightarrow> focus_kind \<Rightarrow> unicode \<Rightarrow> activity_focus option" where
  "new_focus word kind label =
     (let l = strip_unicode label in
      if label = [] \<or> 64 < length label \<or> unsafe_from word False l \<or> take 1 l = [47] \<or> take 1 l = [92] then None
      else Some \<lparr>fo_kind = kind, fo_label = l\<rparr>)"

definition public_focus_labels :: "(string \<times> unicode) list" where
  "public_focus_labels =
     [(''minecraft:birch_log'', [30333, 26726, 21407, 26408]),
      (''minecraft:birch_planks'', [30333, 26726, 26408, 26495]),
      (''minecraft:stick'', [26408, 26829]),
      (''minecraft:iron_ingot'', [38081, 38189]),
      (''minecraft:iron_pickaxe'', [38081, 38224]),
      (''minecraft:diamond'', [38075, 30707]),
      (''minecraft:cobblestone'', [22278, 30707]),
      (''minecraft:cooked_beef'', [29087, 29275, 32905]),
      (''minecraft:copper_ingot'', [38108, 38189]),
      (''minecraft:copper_ore'', [38108, 30719, 30707]),
      (''minecraft:crafting_table'', [24037, 20316, 21488]),
      (''minecraft:creeper'', [33510, 21147, 24597]),
      (''minecraft:diamond_block'', [38075, 30707, 22359]),
      (''minecraft:diamond_pickaxe'', [38075, 30707, 38224]),
      (''minecraft:oak_door'', [27233, 26408, 38376]),
      (''minecraft:oak_log'', [27233, 26408, 21407, 26408]),
      (''minecraft:oak_planks'', [27233, 26408, 26408, 26495]),
      (''minecraft:raw_copper'', [31895, 38108]),
      (''minecraft:skeleton'', [39607, 39621]),
      (''minecraft:spruce_planks'', [20113, 26441, 26408, 26495]),
      (''minecraft:starter_shelter'', [20020, 26102, 24199, 25252, 25152]),
      (''minecraft:stone_pickaxe'', [30707, 38224]),
      (''minecraft:stone_sword'', [30707, 21073]),
      (''minecraft:white_bed'', [30333, 33394, 24202]),
      (''minecraft:zombie'', [20725, 23608])
     ]"

definition focus_kind_by_intent :: "activity_intent \<Rightarrow> focus_kind" where
  "focus_kind_by_intent i =
     (case i of
        IAcquire \<Rightarrow> FItem | ICraft \<Rightarrow> FItem | IBuild \<Rightarrow> FStructure | ITravel \<Rightarrow> FPlace | ICombat \<Rightarrow> FEntity
      | ISurvive \<Rightarrow> FCondition | ILearn \<Rightarrow> FCondition | IDiscover \<Rightarrow> FCondition | IInteract \<Rightarrow> FCondition)"

definition public_focus :: "(nat \<Rightarrow> bool) \<Rightarrow> activity_intent \<Rightarrow> json \<Rightarrow> activity_focus option" where
  "public_focus word i target =
     (case target of
        JStr s \<Rightarrow>
          (case map_of public_focus_labels s of
             None \<Rightarrow> None
           | Some l \<Rightarrow> new_focus word (focus_kind_by_intent i) l)
      | _ \<Rightarrow> None)"

section \<open>What a command shows\<close>

definition intent_by_capability :: "(string \<times> activity_intent) list" where
  "intent_by_capability =
     [(''collect'', IAcquire),
      (''mine'', IAcquire),
      (''mine_shaft'', IBuild),
      (''craft'', ICraft),
      (''smelt'', ICraft),
      (''place'', IBuild),
      (''goto'', ITravel),
      (''move'', ITravel),
      (''attack'', ICombat),
      (''inspect'', IDiscover),
      (''observe'', IDiscover),
      (''status'', IDiscover),
      (''inspect_region'', IDiscover),
      (''recipes'', ILearn),
      (''equip'', IInteract)
     ]"

definition target_parameters :: "(string \<times> string) list" where
  "target_parameters =
     [(''collect'', ''block_type''), (''mine'', ''block_type''), (''place'', ''block_type''), (''craft'', ''recipe''),
      (''smelt'', ''item''), (''equip'', ''item''), (''recipes'', ''item''), (''attack'', ''target'')]"

definition json_get :: "json_obj \<Rightarrow> string \<Rightarrow> json" where
  "json_get m k = (case dict_get m k of None \<Rightarrow> JNull | Some v \<Rightarrow> v)"

definition is_object :: "json \<Rightarrow> bool" where
  "is_object v \<longleftrightarrow> (case v of JObj _ \<Rightarrow> True | _ \<Rightarrow> False)"

definition object_of :: "json \<Rightarrow> json_obj" where
  "object_of v = (case v of JObj m \<Rightarrow> m | _ \<Rightarrow> [])"

text \<open>\<open>str\<close> of a value that is no string is the name of no capability.\<close>

definition capability_of :: "json_obj \<Rightarrow> string" where
  "capability_of action = (case json_get action ''capability'' of JStr s \<Rightarrow> s | _ \<Rightarrow> '''')"

definition action_target :: "json_obj \<Rightarrow> json" where
  "action_target action =
     (case dict_get target_parameters (capability_of action) of
        None \<Rightarrow> JNull
      | Some name \<Rightarrow>
          (case json_get action ''parameters'' of
             JObj ps \<Rightarrow>
               (case json_get ps name of
                  JStr t \<Rightarrow> JStr (if CHR '':'' \<in> set t then t else ''minecraft:'' @ t)
                | v \<Rightarrow> v)
           | _ \<Rightarrow> JNull))"

definition public_intent :: "json \<Rightarrow> activity_intent" where
  "public_intent v =
     (case v of
        JStr s \<Rightarrow> (case map_of intent_names (ascii s) of None \<Rightarrow> IInteract | Some i \<Rightarrow> i)
      | _ \<Rightarrow> IInteract)"

definition public_context ::
    "(nat \<Rightarrow> bool) \<Rightarrow> ('a) command_draft_scheme \<Rightarrow> activity_intent \<times> activity_focus option" where
  "public_context word c =
     (let goal = json_get (cd_payload c) ''goal''; action = json_get (cd_payload c) ''action'';
          (i, target) =
            (if is_object goal then (public_intent (json_get (object_of goal) ''intent''), json_get (object_of goal) ''target'')
             else if is_object action
             then (case dict_get intent_by_capability (capability_of (object_of action)) of None \<Rightarrow> IInteract | Some i \<Rightarrow> i,
                   action_target (object_of action))
             else (IInteract, JNull))
      in (i, public_focus word i target))"

definition command_mission :: "('a) command_draft_scheme \<Rightarrow> string option" where
  "command_mission c =
     (case json_get (cd_payload c) ''mission_id'' of JStr s \<Rightarrow> if s = '''' then None else Some s | _ \<Rightarrow> None)"

section \<open>Recording a command\<close>

record activity_recorder =
  rr_enabled :: bool
  rr_has_publisher :: bool
  rr_retention_ms :: "int option"

text \<open>\<open>None\<close> is the \<open>ValueError\<close> of a retention that is not positive.\<close>

definition new_recorder :: "bool \<Rightarrow> bool \<Rightarrow> int option \<Rightarrow> activity_recorder option" where
  "new_recorder enabled has_publisher retention =
     (if (case retention of None \<Rightarrow> False | Some n \<Rightarrow> n < 1) then None
      else Some \<lparr>rr_enabled = enabled, rr_has_publisher = has_publisher, rr_retention_ms = retention\<rparr>)"

text \<open>
  A call of \<open>record_command\<close>: it waits for the journal, for the emission of what the journal has stored,
  or has returned.
\<close>

datatype recording =
    RecAppends activity_draft "int option"
  | RecEmits activity_record
  | RecDone "activity_record option"

text \<open>The validation of the draft, of the payload in it and of the progress in that.\<close>

definition recorded_draft ::
    "(nat \<Rightarrow> bool) \<Rightarrow> ('a) command_draft_scheme \<Rightarrow> string \<Rightarrow> activity_phase \<Rightarrow> activity_outcome \<Rightarrow>
      activity_progress option \<Rightarrow> int \<Rightarrow> activity_draft" where
  "recorded_draft word c source_key phase outcome progress now =
     \<lparr>ad_source_key = source_key, ad_command_id = cd_command_id c, ad_caller_scope = cd_caller_scope c,
      ad_mission_id = command_mission c,
      ad_payload =
        \<lparr>ap_phase = phase, ap_intent = Some (fst (public_context word c)), ap_focus = snd (public_context word c),
         ap_progress = progress, ap_outcome = outcome\<rparr>,
      ad_occurred_at_ms = now\<rparr>"

definition begin_recording ::
    "(nat \<Rightarrow> bool) \<Rightarrow> activity_recorder \<Rightarrow> ('a) command_draft_scheme \<Rightarrow> string \<Rightarrow> activity_phase \<Rightarrow>
      activity_outcome \<Rightarrow> activity_progress option \<Rightarrow> int \<Rightarrow> recording" where
  "begin_recording word rr c source_key phase outcome progress now =
     (if \<not> rr_enabled rr \<or>
         \<not> (is_object (json_get (cd_payload c) ''goal'') \<or> is_object (json_get (cd_payload c) ''action'')) then RecDone None
      else
        (let d = recorded_draft word c source_key phase outcome progress now in
         if \<not> activity_draft_ok d then RecDone None
         else RecAppends d (map_option (\<lambda>n. now - n) (rr_retention_ms rr))))"

text \<open>
  The journal's answer, and what is handed to the emitter of the publisher; then the end of the emission,
  which may have failed.
\<close>

definition commit_recording ::
    "activity_recorder \<Rightarrow> activity_publisher \<Rightarrow> activity_draft \<Rightarrow> int option \<Rightarrow> journal_state \<Rightarrow>
      journal_state \<times> recording \<times> public_map option" where
  "commit_recording rr p d before s =
     (case append_activity s d before of
        (s', Inl e) \<Rightarrow> (s', RecDone None, None)
      | (s', Inr (r, reused)) \<Rightarrow>
          if \<not> rr_has_publisher rr then (s', RecDone (Some r), None)
          else (case begin_publish r p of
                  None \<Rightarrow> (s', RecDone (Some r), None)
                | Some v \<Rightarrow> (s', RecEmits r, Some v)))"

definition emission_ended :: "bool \<Rightarrow> activity_record \<Rightarrow> activity_publisher \<Rightarrow> activity_publisher" where
  "emission_ended returned r p =
     (if \<not> returned then p
      else (case end_publish r p of None \<Rightarrow> p\<lparr>pu_delivered := []\<rparr> | Some p' \<Rightarrow> p'))"

end
