(* ===== verification/Activity_Aggregator.thy ===== *)
theory Activity_Aggregator
  imports Activity_Recorder Journal_Reachable
begin

text \<open>
  The aggregator of \<open>tools/minecraft/voyager/public_activity.py\<close>, which records the phases that the game runtime
  reports, one task per event and the tasks of a correlation in a chain; and the line of journal, recorder,
  publisher and aggregator, with the calls of other components to the recorder.
\<close>

section \<open>Runtime events\<close>

datatype runtime_phase =
    RtAccepted | RtAssessing | RtLocating | RtMoving | RtAiming | RtActing | RtWaiting | RtVerifying | RtRecovering
  | RtCompleted | RtFailed | RtCancelled

definition runtime_phase_names :: "(string \<times> runtime_phase) list" where
  "runtime_phase_names =
     [(''accepted'', RtAccepted), (''assessing'', RtAssessing), (''locating'', RtLocating), (''moving'', RtMoving),
      (''aiming'', RtAiming), (''acting'', RtActing), (''waiting'', RtWaiting), (''verifying'', RtVerifying),
      (''recovering'', RtRecovering), (''completed'', RtCompleted), (''failed'', RtFailed), (''cancelled'', RtCancelled)]"

definition runtime_phase_to_public :: "runtime_phase \<Rightarrow> activity_phase option" where
  "runtime_phase_to_public p =
     (case p of
        RtAccepted \<Rightarrow> None | RtAssessing \<Rightarrow> Some Observing | RtLocating \<Rightarrow> Some Observing | RtMoving \<Rightarrow> Some Acting
      | RtAiming \<Rightarrow> Some Acting | RtActing \<Rightarrow> Some Acting | RtWaiting \<Rightarrow> Some Acting | RtVerifying \<Rightarrow> Some Checking
      | RtRecovering \<Rightarrow> Some Recovering | RtCompleted \<Rightarrow> None | RtFailed \<Rightarrow> None | RtCancelled \<Rightarrow> None)"

record runtime_phase_event =
  rp_runtime_instance_id :: string
  rp_correlation_id :: string
  rp_command_id :: string
  rp_step_id :: string
  rp_capability :: string
  rp_phase_sequence :: int
  rp_phase :: runtime_phase
  rp_occurred_at_ms :: int
  rp_presentation_mode :: string

definition capability_ok :: "string \<Rightarrow> bool" where
  "capability_ok s \<longleftrightarrow>
     (case s of
        [] \<Rightarrow> False
      | c # cs \<Rightarrow> is_lower c \<and> length cs \<le> 63 \<and> list_all (\<lambda>c. is_lower c \<or> is_digit c \<or> c = CHR ''_'') cs)"

definition short_text :: "json \<Rightarrow> string option" where
  "short_text v = (case v of JStr s \<Rightarrow> if 1 \<le> length s \<and> length s \<le> 256 then Some s else None | _ \<Rightarrow> None)"

text \<open>\<open>as_int\<close> is the validation library's reading of a value as an integer.\<close>

definition phase_event_of :: "(json \<Rightarrow> int option) \<Rightarrow> json_obj \<Rightarrow> runtime_phase_event option" where
  "phase_event_of as_int m =
     (case (short_text (json_get m ''runtime_instance_id''), short_text (json_get m ''correlation_id''),
            short_text (json_get m ''command_id''), short_text (json_get m ''step_id''), json_get m ''capability'',
            as_int (json_get m ''phase_sequence''), json_get m ''phase'', as_int (json_get m ''occurred_at_ms''),
            json_get m ''presentation_mode'') of
        (Some i, Some k, Some c, Some s, JStr cap, Some n, JStr ph, Some ms, JStr pm) \<Rightarrow>
          (case map_of runtime_phase_names ph of
             None \<Rightarrow> None
           | Some p \<Rightarrow>
               if json_get m ''type'' = JStr ''action_phase'' \<and> json_get m ''schema_version'' = JStr ''1'' \<and>
                  capability_ok cap \<and> 1 \<le> n \<and> n \<le> 32 \<and> 0 \<le> ms \<and> pm \<in> {''off'', ''visual_only'', ''full''}
               then Some \<lparr>rp_runtime_instance_id = i, rp_correlation_id = k, rp_command_id = c, rp_step_id = s,
                 rp_capability = cap, rp_phase_sequence = n, rp_phase = p, rp_occurred_at_ms = ms, rp_presentation_mode = pm\<rparr>
               else None)
      | _ \<Rightarrow> None)"

section \<open>State\<close>

type_synonym correlation_key = "string \<times> string"

text \<open>
  A task waits for the one before it, for its command, in the recorder, or has ended; \<open>True\<close> if it was
  cancelled.
\<close>

datatype phase_stage = PhaseAfter | PhaseGets | PhaseRecords recording | PhaseDone bool

record phase_task =
  pt_key :: correlation_key
  pt_event :: runtime_phase_event
  pt_phase :: activity_phase
  pt_after :: "nat option"
  pt_stage :: phase_stage
  pt_cancelled :: bool

record aggregator =
  ag_tasks :: "phase_task list"
  ag_tails :: "(correlation_key, nat) dict"
  ag_last :: "(correlation_key, int) dict"
  ag_subscribed :: bool
  ag_closed :: bool
  ag_started :: bool
  ag_invalid_events :: int

definition new_aggregator :: aggregator where
  "new_aggregator =
     \<lparr>ag_tasks = [], ag_tails = [], ag_last = [], ag_subscribed = False, ag_closed = False, ag_started = False,
      ag_invalid_events = 0\<rparr>"

text \<open>\<open>callable\<close> says whether the bridge gave a function that unsubscribes.\<close>

definition start_aggregator :: "bool \<Rightarrow> aggregator \<Rightarrow> aggregator" where
  "start_aggregator callable a =
     (if ag_started a then a else a\<lparr>ag_subscribed := callable, ag_started := True\<rparr>)"

definition add_phase_task :: "correlation_key \<Rightarrow> runtime_phase_event \<Rightarrow> activity_phase \<Rightarrow> aggregator \<Rightarrow> aggregator" where
  "add_phase_task key e ph a =
     a\<lparr>ag_tasks := ag_tasks a @
         [\<lparr>pt_key = key, pt_event = e, pt_phase = ph, pt_after = dict_get (ag_tails a) key, pt_stage = PhaseAfter,
           pt_cancelled = False\<rparr>],
       ag_tails := dict_set key (length (ag_tasks a)) (ag_tails a)\<rparr>"

definition on_runtime_event :: "(json \<Rightarrow> int option) \<Rightarrow> json_obj \<Rightarrow> aggregator \<Rightarrow> aggregator" where
  "on_runtime_event as_int payload a =
     (if ag_closed a \<or> json_get payload ''type'' \<noteq> JStr ''action_phase'' then a
      else
        (case phase_event_of as_int payload of
           None \<Rightarrow> a\<lparr>ag_invalid_events := ag_invalid_events a + 1\<rparr>
         | Some e \<Rightarrow>
             (let key = (rp_runtime_instance_id e, rp_correlation_id e) in
              if rp_phase_sequence e \<le> dict_get_default (ag_last a) key 0 then a
              else
                (let a1 = a\<lparr>ag_last := last_n 2048 (dict_del key (ag_last a) @ [(key, rp_phase_sequence e)])\<rparr> in
                 case runtime_phase_to_public (rp_phase e) of
                   None \<Rightarrow> a1
                 | Some ph \<Rightarrow> add_phase_task key e ph a1))))"

section \<open>The line\<close>

record activity_line =
  al_journal :: journal_state
  al_publisher :: activity_publisher
  al_recorder :: activity_recorder
  al_aggregator :: aggregator
  al_calls :: "recording list"

definition new_line :: "journal_state \<Rightarrow> activity_publisher \<Rightarrow> activity_recorder \<Rightarrow> activity_line" where
  "new_line s p rr =
     \<lparr>al_journal = s, al_publisher = p, al_recorder = rr, al_aggregator = new_aggregator, al_calls = []\<rparr>"

definition recording_goes :: "bool \<Rightarrow> recording \<Rightarrow> activity_line \<Rightarrow> activity_line \<times> recording \<times> public_map option" where
  "recording_goes returned rec l =
     (case rec of
        RecAppends d before \<Rightarrow>
          (let (s, rec', m) = commit_recording (al_recorder l) (al_publisher l) d before (al_journal l)
           in (l\<lparr>al_journal := s\<rparr>, rec', m))
      | RecEmits r \<Rightarrow> (l\<lparr>al_publisher := emission_ended returned r (al_publisher l)\<rparr>, RecDone (Some r), None)
      | RecDone x \<Rightarrow> (l, RecDone x, None))"

definition set_phase_stage :: "nat \<Rightarrow> phase_stage \<Rightarrow> aggregator \<Rightarrow> aggregator" where
  "set_phase_stage i g a = a\<lparr>ag_tasks := (ag_tasks a)[i := (ag_tasks a ! i)\<lparr>pt_stage := g\<rparr>]\<rparr>"

text \<open>The task is done: \<open>_task_done\<close> drops it from the tails if it is the last of its correlation.\<close>

definition end_phase :: "nat \<Rightarrow> bool \<Rightarrow> aggregator \<Rightarrow> aggregator" where
  "end_phase i cancelled a =
     (let k = pt_key (ag_tasks a ! i); a1 = set_phase_stage i (PhaseDone cancelled) a in
      if dict_get (ag_tails a1) k = Some i then a1\<lparr>ag_tails := dict_del k (ag_tails a1)\<rparr> else a1)"

definition recording_stage :: "nat \<Rightarrow> recording \<Rightarrow> aggregator \<Rightarrow> aggregator" where
  "recording_stage i rec a =
     (case rec of RecDone _ \<Rightarrow> end_phase i False a | _ \<Rightarrow> set_phase_stage i (PhaseRecords rec) a)"

text \<open>\<open>digest\<close> is the hexadecimal SHA-256 of a text.\<close>

definition phase_source_key :: "(string \<Rightarrow> string) \<Rightarrow> runtime_phase_event \<Rightarrow> string" where
  "phase_source_key digest e =
     ''runtime-phase:'' @
     digest (rp_runtime_instance_id e @ [CHR 0x00] @ rp_correlation_id e @ [CHR 0x00] @ str_of_int (rp_phase_sequence e))"

definition phase_goes ::
    "(nat \<Rightarrow> bool) \<Rightarrow> (string \<Rightarrow> string) \<Rightarrow> nat \<Rightarrow> bool \<Rightarrow> int \<Rightarrow> activity_line \<Rightarrow> activity_line \<times> public_map option" where
  "phase_goes word digest i returned now l =
     (let a = al_aggregator l; t = ag_tasks a ! i in
      if length (ag_tasks a) \<le> i then (l, None)
      else
        (case pt_stage t of
           PhaseDone _ \<Rightarrow> (l, None)
         | g \<Rightarrow>
             if pt_cancelled t then (l\<lparr>al_aggregator := end_phase i True a\<rparr>, None)
             else
               (case g of
                  PhaseAfter \<Rightarrow>
                    (case pt_after t of
                       None \<Rightarrow> (l\<lparr>al_aggregator := set_phase_stage i PhaseGets a\<rparr>, None)
                     | Some j \<Rightarrow>
                         (case pt_stage (ag_tasks a ! j) of
                            PhaseDone c \<Rightarrow>
                              (l\<lparr>al_aggregator := if c then end_phase i True a else set_phase_stage i PhaseGets a\<rparr>, None)
                          | _ \<Rightarrow> (l, None)))
                | PhaseGets \<Rightarrow>
                    (case get_command (al_journal l) (rp_command_id (pt_event t)) of
                       None \<Rightarrow> (l\<lparr>al_aggregator := end_phase i False a\<rparr>, None)
                     | Some c \<Rightarrow>
                         (l\<lparr>al_aggregator := recording_stage i
                              (begin_recording word (al_recorder l) c (phase_source_key digest (pt_event t)) (pt_phase t)
                                 OActive None now) a\<rparr>, None))
                | PhaseRecords rec \<Rightarrow>
                    (let (l1, rec', m) = recording_goes returned rec l
                     in (l1\<lparr>al_aggregator := recording_stage i rec' a\<rparr>, m))
                | PhaseDone _ \<Rightarrow> (l, None))))"

section \<open>Draining\<close>

text \<open>
  \<open>drain\<close> before it waits; the cancellation of its wait, which \<open>gather\<close> hands to all tasks; and its end, when all
  tasks have ended.
\<close>

definition begin_drain :: "aggregator \<Rightarrow> aggregator" where
  "begin_drain a = a\<lparr>ag_closed := True, ag_subscribed := False\<rparr>"

definition phase_ended :: "phase_task \<Rightarrow> bool" where
  "phase_ended t \<longleftrightarrow> (case pt_stage t of PhaseDone _ \<Rightarrow> True | _ \<Rightarrow> False)"

definition drain_cancelled :: "aggregator \<Rightarrow> aggregator" where
  "drain_cancelled a =
     (if \<not> ag_closed a then a
      else a\<lparr>ag_tasks := map (\<lambda>t. if phase_ended t then t else t\<lparr>pt_cancelled := True\<rparr>) (ag_tasks a)\<rparr>)"

definition end_drain :: "aggregator \<Rightarrow> aggregator" where
  "end_drain a =
     (if ag_closed a \<and> list_all phase_ended (ag_tasks a) then a\<lparr>ag_tails := [], ag_last := []\<rparr> else a)"

section \<open>Everything that can happen\<close>

datatype line_event =
    StartComes bool
  | RuntimeComes json_obj
  | PhaseGoes nat bool int
  | CallComes journal_command string activity_phase activity_outcome "activity_progress option" int
  | CallGoes nat bool
  | CallCancelled nat
  | DrainBegins
  | DrainCancelled
  | DrainEnds

fun flow ::
    "(nat \<Rightarrow> bool) \<Rightarrow> (string \<Rightarrow> string) \<Rightarrow> (json \<Rightarrow> int option) \<Rightarrow> line_event \<Rightarrow> activity_line \<Rightarrow>
      activity_line \<times> public_map option" where
  "flow word digest as_int (StartComes callable) l = (l\<lparr>al_aggregator := start_aggregator callable (al_aggregator l)\<rparr>, None)"
| "flow word digest as_int (RuntimeComes m) l = (l\<lparr>al_aggregator := on_runtime_event as_int m (al_aggregator l)\<rparr>, None)"
| "flow word digest as_int (PhaseGoes i returned now) l = phase_goes word digest i returned now l"
| "flow word digest as_int (CallComes c key ph x g now) l =
     (l\<lparr>al_calls := al_calls l @ [begin_recording word (al_recorder l) c key ph x g now]\<rparr>, None)"
| "flow word digest as_int (CallGoes i returned) l =
     (if length (al_calls l) \<le> i then (l, None)
      else
        (let (l1, rec', m) = recording_goes returned (al_calls l ! i) l
         in (l1\<lparr>al_calls := (al_calls l1)[i := rec']\<rparr>, m)))"
| "flow word digest as_int (CallCancelled i) l =
     (if length (al_calls l) \<le> i then (l, None)
      else (l\<lparr>al_calls := (al_calls l)[i := case al_calls l ! i of RecDone x \<Rightarrow> RecDone x | _ \<Rightarrow> RecDone None]\<rparr>, None))"
| "flow word digest as_int DrainBegins l = (l\<lparr>al_aggregator := begin_drain (al_aggregator l)\<rparr>, None)"
| "flow word digest as_int DrainCancelled l = (l\<lparr>al_aggregator := drain_cancelled (al_aggregator l)\<rparr>, None)"
| "flow word digest as_int DrainEnds l = (l\<lparr>al_aggregator := end_drain (al_aggregator l)\<rparr>, None)"

text \<open>A run of these events, with other work on the journal in between, and what was emitted.\<close>

inductive line_run ::
    "(nat \<Rightarrow> bool) \<Rightarrow> (string \<Rightarrow> string) \<Rightarrow> (json \<Rightarrow> int option) \<Rightarrow> activity_line \<Rightarrow> line_event list \<Rightarrow> public_map list \<Rightarrow>
      activity_line \<Rightarrow> bool" for word digest as_int l0 where
  run_starts: "line_run word digest as_int l0 [] [] l0"
| run_flows: "\<lbrakk>line_run word digest as_int l0 es ms l; flow word digest as_int e l = (l', m)\<rbrakk> \<Longrightarrow>
    line_run word digest as_int l0 (es @ [e]) (ms @ (case m of None \<Rightarrow> [] | Some v \<Rightarrow> [v])) l'"
| run_works: "\<lbrakk>line_run word digest as_int l0 es ms l; journal_step (al_journal l) s\<rbrakk> \<Longrightarrow>
    line_run word digest as_int l0 es ms (l\<lparr>al_journal := s\<rparr>)"

end
