(* ===== verification/Activity_Line.thy ===== *)
theory Activity_Line
  imports Activity_Aggregator Narration_Feed Journal_Properties
begin

text \<open>
  What the line of recorder, journal and publisher makes public: payloads of fixed words and labels, whatever the
  payload of a command holds, and nothing of the journal but its feed is touched.
\<close>

section \<open>Labels\<close>

text \<open>A text beyond the scripts the search looks for.\<close>

lemma not_key_here: "list_all ((<) 12288) s \<Longrightarrow> \<not> key_here s"
  by (cases s) (auto simp: key_here_def same_letter_def list_all_iff)

lemma not_bearer_here: "list_all ((<) 12288) s \<Longrightarrow> \<not> bearer_here s"
  by (cases s) (auto simp: bearer_here_def same_letter_def list_all_iff)

lemma far_text_safe: "list_all ((<) 12288) s \<Longrightarrow> \<not> unsafe_from word b s"
  by (induction s arbitrary: b) (use not_key_here not_bearer_here in fastforce)+

lemma far_text_stripped:
  assumes "list_all ((<) 12288) s"
  shows "strip_unicode s = s"
proof -
  have "\<not> unicode_space c" if "12288 < c" for c using that by (auto simp: unicode_space_def)
  then have "dropWhile unicode_space t = t" if "list_all ((<) 12288) t" for t
    using that by (cases t) auto
  then show ?thesis using assms by (simp add: strip_unicode_def list_all_iff)
qed

lemma far_label_accepted:
  assumes "list_all ((<) 12288) l" "l \<noteq> []" "length l \<le> 64"
  shows "new_focus word k l = Some \<lparr>fo_kind = k, fo_label = l\<rparr>"
proof -
  have "take 1 l \<noteq> [47]" "take 1 l \<noteq> [92]" using assms(1) by (cases l; force)+
  then show ?thesis using assms(2,3) far_text_safe [OF assms(1)] by (simp add: new_focus_def far_text_stripped [OF assms(1)])
qed

lemma table_labels_far:
  "list_all (\<lambda>(t, l). list_all ((<) 12288) l \<and> l \<noteq> [] \<and> length l \<le> 64) public_focus_labels"
  by (simp add: public_focus_labels_def)

text \<open>No label of the table is refused, whatever counts as a word.\<close>

lemma table_label_accepted:
  assumes "map_of public_focus_labels t = Some l"
  shows "new_focus word k l = Some \<lparr>fo_kind = k, fo_label = l\<rparr> \<and> l \<noteq> [] \<and> length l \<le> 64"
  using table_labels_far map_of_SomeD [OF assms] far_label_accepted by (fastforce simp: list_all_iff)

text \<open>The length of a label is checked before it is stripped.\<close>

lemma blank_label_accepted: "new_focus word k [32] = Some \<lparr>fo_kind = k, fo_label = []\<rparr>"
  by (simp add: new_focus_def strip_unicode_def unicode_space_def)

section \<open>Public payloads\<close>

definition public_payload :: "activity_payload \<Rightarrow> bool" where
  "public_payload p \<longleftrightarrow>
     (\<exists>i. ap_intent p = Some i \<and>
       (\<forall>f. ap_focus p = Some f \<longrightarrow>
          fo_kind f = focus_kind_by_intent i \<and> fo_label f \<in> snd ` set public_focus_labels))"

lemma recorded_public [simp]: "public_payload (ad_payload (recorded_draft word c key ph x g now))"
proof -
  obtain i f where ctx: "public_context word c = (i, f)" by (cases "public_context word c")
  then obtain v where f: "f = public_focus word i v"
    by (auto simp: public_context_def Let_def split: prod.splits if_splits)
  have "fo_kind z = focus_kind_by_intent i \<and> fo_label z \<in> snd ` set public_focus_labels" if "f = Some z" for z
    using that f table_label_accepted [of _ _ word "focus_kind_by_intent i"]
    by (auto simp: public_focus_def image_iff split: json.splits option.splits dest!: map_of_SomeD) 
       (metis map_of_SomeD snd_conv)+
  then show ?thesis by (simp add: public_payload_def recorded_draft_def ctx)
qed

lemma public_label_ok:
  assumes "public_payload p"
  shows "label_ok (ap_focus p)"
  using assms table_labels_far by (fastforce simp: public_payload_def label_ok_def list_all_iff split: option.split)

section \<open>The invariant of the line\<close>

fun recording_ok :: "activity_recorder \<Rightarrow> recording \<Rightarrow> bool" where
  "recording_ok rr (RecAppends d before) \<longleftrightarrow> rr_enabled rr \<and> activity_draft_ok d \<and> public_payload (ad_payload d)"
| "recording_ok rr (RecEmits r) \<longleftrightarrow>
     rr_enabled rr \<and> rr_has_publisher rr \<and> activity_draft_ok r \<and> 1 \<le> ar_sequence r \<and> public_payload (ad_payload r)"
| "recording_ok rr (RecDone x) \<longleftrightarrow> True"

definition stage_ok :: "activity_recorder \<Rightarrow> phase_stage \<Rightarrow> bool" where
  "stage_ok rr g \<longleftrightarrow> (case g of PhaseRecords rec \<Rightarrow> recording_ok rr rec | _ \<Rightarrow> True)"

definition emitted_ok :: "public_map \<Rightarrow> bool" where
  "emitted_ok v \<longleftrightarrow>
     (\<exists>r. v = dump_projection (project_activity r) \<and> activity_draft_ok r \<and> 1 \<le> ar_sequence r \<and> public_payload (ad_payload r))"

lemma begin_recording_ok [simp]: "recording_ok rr (begin_recording word rr c key ph x g now)"
  by (simp add: begin_recording_def Let_def)

lemma appended_record:
  assumes "journal_reachable n s" "activity_draft_ok d" "append_activity s d before = (s', Inr (r, u))"
  shows "activity_draft_ok r \<and> 1 \<le> ar_sequence r \<and> ad_payload r = ad_payload d"
proof (cases "dict_get (js_activity_by_source s) (ad_source_key d)")
  case None
  have "0 \<le> js_activity_sequence s" using journal_reachable_feed_inv [OF assms(1)] by (simp add: feed_inv_def)
  then show ?thesis using assms(2,3) None
    by (auto simp: append_activity_def Let_def activity_draft_ok_def split: if_splits)
next
  case (Some q)
  then have q: "q \<in> set (js_activities s)"
    using journal_reachable_feed_inv [OF assms(1)] feed_inv_get by blast
  have "r = q" "activity_matches q d" using assms(3) Some by (auto simp: append_activity_def split: if_splits)
  then show ?thesis using feed_record_ok [OF assms(1) q] by (simp add: activity_matches_def)
qed

lemma commit_recording_ok:
  assumes "journal_reachable n s" "recording_ok rr (RecAppends d before)" "commit_recording rr p d before s = (s', rec, m)"
  shows "journal_reachable n s' \<and> recording_ok rr rec \<and> (\<forall>v. m = Some v \<longrightarrow> emitted_ok v \<and> rr_enabled rr \<and> rr_has_publisher rr)"
proof -
  obtain y where a: "append_activity s d before = (s', y)"
    using assms(3) by (auto simp: commit_recording_def split: prod.splits sum.splits if_splits option.splits)
  have d: "activity_draft_ok d" "public_payload (ad_payload d)" "rr_enabled rr" using assms(2) by simp_all
  have "journal_reachable n s'" by (rule reach_step [OF assms(1) step_activity [OF d(1) a]])
  moreover have "recording_ok rr rec \<and> (\<forall>v. m = Some v \<longrightarrow> emitted_ok v \<and> rr_enabled rr \<and> rr_has_publisher rr)"
  proof (cases y)
    case (Inr z)
    obtain r u where z: "z = (r, u)" by (cases z)
    have "activity_draft_ok r \<and> 1 \<le> ar_sequence r \<and> public_payload (ad_payload r)"
      using appended_record [OF assms(1) d(1)] a Inr z d(2) by metis
    then show ?thesis using assms(3) a Inr z
      by (auto simp: d(3) commit_recording_def emitted_ok_def begin_publish_def Let_def split: if_splits)
  qed (use assms(3) a in \<open>auto simp: commit_recording_def\<close>)
  ultimately show ?thesis by blast
qed

definition line_ok :: "int \<Rightarrow> activity_line \<Rightarrow> bool" where
  "line_ok n l \<longleftrightarrow>
     journal_reachable n (al_journal l) \<and> (\<forall>rec\<in>set (al_calls l). recording_ok (al_recorder l) rec) \<and>
     (\<forall>t\<in>set (ag_tasks (al_aggregator l)). stage_ok (al_recorder l) (pt_stage t))"

definition tasks_ok :: "activity_recorder \<Rightarrow> aggregator \<Rightarrow> bool" where
  "tasks_ok rr a \<longleftrightarrow> (\<forall>t\<in>set (ag_tasks a). stage_ok rr (pt_stage t))"

lemma tasks_ok_set: "tasks_ok rr a \<Longrightarrow> stage_ok rr g \<Longrightarrow> tasks_ok rr (set_phase_stage i g a)"
  by (auto simp: tasks_ok_def set_phase_stage_def dest!: set_update_subset_insert [THEN subsetD])

lemma tasks_ok_end: "tasks_ok rr a \<Longrightarrow> tasks_ok rr (end_phase i c a)"
  using tasks_ok_set [of rr a "PhaseDone c" i] by (simp add: end_phase_def Let_def stage_ok_def) (simp add: tasks_ok_def)

lemma tasks_ok_recording: "tasks_ok rr a \<Longrightarrow> recording_ok rr rec \<Longrightarrow> tasks_ok rr (recording_stage i rec a)"
  by (cases rec) (auto simp: recording_stage_def tasks_ok_end intro!: tasks_ok_set simp: stage_ok_def)

lemma recording_goes_ok:
  assumes "line_ok n l" "recording_ok (al_recorder l) rec" "recording_goes returned rec l = (l', rec', m)"
  shows "journal_reachable n (al_journal l') \<and> al_calls l' = al_calls l \<and> al_aggregator l' = al_aggregator l \<and>
    al_recorder l' = al_recorder l \<and> recording_ok (al_recorder l) rec' \<and>
    (\<forall>v. m = Some v \<longrightarrow> emitted_ok v \<and> rr_enabled (al_recorder l) \<and> rr_has_publisher (al_recorder l))"
proof (cases rec)
  case (RecAppends d before)
  obtain s where s: "commit_recording (al_recorder l) (al_publisher l) d before (al_journal l) = (s, rec', m)" "l' = l\<lparr>al_journal := s\<rparr>"
    using assms(3) by (auto simp: recording_goes_def RecAppends split: prod.splits)
  have "journal_reachable n (al_journal l)" using assms(1) by (simp add: line_ok_def)
  from commit_recording_ok [OF this assms(2) [unfolded RecAppends] s(1)] show ?thesis using s(2) by simp
qed (use assms in \<open>auto simp: recording_goes_def line_ok_def\<close>)

lemma phase_goes_ok:
  assumes "line_ok n l" "phase_goes word digest i returned now l = (l', m)"
  shows "line_ok n l' \<and> al_recorder l' = al_recorder l \<and> (\<forall>v. m = Some v \<longrightarrow> emitted_ok v \<and> rr_enabled (al_recorder l) \<and> rr_has_publisher (al_recorder l))"
proof -
  let ?a = "al_aggregator l" and ?t = "ag_tasks (al_aggregator l) ! i"
  have a: "tasks_ok (al_recorder l) ?a" "journal_reachable n (al_journal l)" "\<forall>rec\<in>set (al_calls l). recording_ok (al_recorder l) rec"
    using assms(1) by (simp_all add: line_ok_def tasks_ok_def)
  have quiet: "line_ok n (l\<lparr>al_aggregator := b\<rparr>)" if "tasks_ok (al_recorder l) b" for b
    using that a by (simp add: line_ok_def tasks_ok_def)
  have i: "stage_ok (al_recorder l) (pt_stage ?t)" if "i < length (ag_tasks ?a)" using a(1) that by (simp add: tasks_ok_def)
  show ?thesis
  proof (cases "pt_stage ?t")
    case PhaseAfter
    then show ?thesis using assms(2) quiet [OF a(1)] quiet [OF tasks_ok_end [OF a(1)]] quiet [OF tasks_ok_set [OF a(1)]] assms(1)
      by (auto simp: phase_goes_def Let_def stage_ok_def split: if_splits option.splits phase_stage.splits)
  next
    case PhaseGets
    then show ?thesis
      using assms quiet [OF tasks_ok_end [OF a(1)]] quiet [OF tasks_ok_recording [OF a(1) begin_recording_ok]]
      by (auto simp: phase_goes_def Let_def split: if_splits option.splits)
  next
    case (PhaseRecords rec)
    show ?thesis
    proof (cases "length (ag_tasks ?a) \<le> i \<or> pt_cancelled ?t")
      case True
      then show ?thesis using assms PhaseRecords quiet [OF tasks_ok_end [OF a(1)]] by (auto simp: phase_goes_def Let_def split: if_splits)
    next
      case False
      obtain l1 rec' m' where g: "recording_goes returned rec l = (l1, rec', m')" by (cases "recording_goes returned rec l") auto
      have "recording_ok (al_recorder l) rec" using i False PhaseRecords by (simp add: stage_ok_def)
      from recording_goes_ok [OF assms(1) this g]
      have k: "journal_reachable n (al_journal l1)" "al_calls l1 = al_calls l" "al_recorder l1 = al_recorder l" "recording_ok (al_recorder l) rec'"
        "\<forall>v. m' = Some v \<longrightarrow> emitted_ok v \<and> rr_enabled (al_recorder l) \<and> rr_has_publisher (al_recorder l)" by blast+
      have "l' = l1\<lparr>al_aggregator := recording_stage i rec' ?a\<rparr>" "m = m'"
        using assms(2) PhaseRecords False g by (simp_all add: phase_goes_def Let_def)
      then show ?thesis using k a(3) tasks_ok_recording [OF a(1) k(4)] by (simp add: line_ok_def tasks_ok_def)
    qed
  qed (use assms in \<open>auto simp: phase_goes_def Let_def split: if_splits\<close>)
qed

lemma on_event_tasks_ok: "tasks_ok rr a \<Longrightarrow> tasks_ok rr (on_runtime_event as_int m a)"
  by (auto simp: on_runtime_event_def tasks_ok_def add_phase_task_def stage_ok_def Let_def split: option.split)

lemma flow_ok:
  assumes "line_ok n l" "flow word digest as_int e l = (l', m)"
  shows "line_ok n l' \<and> al_recorder l' = al_recorder l \<and> (\<forall>v. m = Some v \<longrightarrow> emitted_ok v \<and> rr_enabled (al_recorder l) \<and> rr_has_publisher (al_recorder l))"
proof -
  have a: "tasks_ok (al_recorder l) (al_aggregator l)" "journal_reachable n (al_journal l)" "\<forall>rec\<in>set (al_calls l). recording_ok (al_recorder l) rec"
    using assms(1) by (simp_all add: line_ok_def tasks_ok_def)
  have quiet: "line_ok n (l\<lparr>al_aggregator := b\<rparr>)" if "tasks_ok (al_recorder l) b" for b
    using that a by (simp add: line_ok_def tasks_ok_def)
  have called: "line_ok n (l\<lparr>al_calls := c\<rparr>)" if "\<forall>rec\<in>set c. recording_ok (al_recorder l) rec" for c
    using that a by (simp add: line_ok_def tasks_ok_def)
  show ?thesis
  proof (cases e)
    case (PhaseGoes i returned now)
    then show ?thesis using phase_goes_ok [OF assms(1)] assms(2) by simp
  next
    case (CallComes c key ph x g now)
    then show ?thesis using assms(2) called a(3) by auto
  next
    case (CallGoes i returned)
    show ?thesis
    proof (cases "length (al_calls l) \<le> i")
      case False
      obtain l1 rec' m' where g: "recording_goes returned (al_calls l ! i) l = (l1, rec', m')"
        by (cases "recording_goes returned (al_calls l ! i) l") auto
      have "recording_ok (al_recorder l) (al_calls l ! i)" using a(3) False by simp
      from recording_goes_ok [OF assms(1) this g]
      have k: "journal_reachable n (al_journal l1)" "al_calls l1 = al_calls l" "al_aggregator l1 = al_aggregator l"
        "al_recorder l1 = al_recorder l" "recording_ok (al_recorder l) rec'"
        "\<forall>v. m' = Some v \<longrightarrow> emitted_ok v \<and> rr_enabled (al_recorder l) \<and> rr_has_publisher (al_recorder l)" by blast+
      have "l' = l1\<lparr>al_calls := (al_calls l)[i := rec']\<rparr>" "m = m'" using assms(2) CallGoes False g k(2) by simp_all
      then show ?thesis using k a by (auto simp: line_ok_def tasks_ok_def dest!: set_update_subset_insert [THEN subsetD])
    qed (use assms CallGoes in simp)
  next
    case (CallCancelled i)
    have "recording_ok (al_recorder l) (case al_calls l ! i of RecDone x \<Rightarrow> RecDone x | _ \<Rightarrow> RecDone None)" by (simp split: recording.split)
    then have "\<forall>rec\<in>set ((al_calls l)[i := case al_calls l ! i of RecDone x \<Rightarrow> RecDone x | _ \<Rightarrow> RecDone None]). recording_ok (al_recorder l) rec"
      using a(3) by (metis insertE set_update_subset_insert subsetD)
    from called [OF this] show ?thesis using assms CallCancelled by (auto split: if_splits)
  next
    case (RuntimeComes m)
    then show ?thesis using assms(2) quiet [OF on_event_tasks_ok [OF a(1)]] by auto
  next
    case (StartComes c)
    have "tasks_ok (al_recorder l) (start_aggregator c (al_aggregator l))" using a(1) by (simp add: start_aggregator_def tasks_ok_def)
    then show ?thesis using assms(2) quiet StartComes by auto
  next
    case DrainBegins
    have "tasks_ok (al_recorder l) (begin_drain (al_aggregator l))" using a(1) by (simp add: begin_drain_def tasks_ok_def)
    then show ?thesis using assms(2) quiet DrainBegins by auto
  next
    case DrainCancelled
    have "tasks_ok (al_recorder l) (drain_cancelled (al_aggregator l))" using a(1) by (auto simp: drain_cancelled_def tasks_ok_def)
    then show ?thesis using assms(2) quiet DrainCancelled by auto
  next
    case DrainEnds
    have "tasks_ok (al_recorder l) (end_drain (al_aggregator l))" using a(1) by (simp add: end_drain_def tasks_ok_def)
    then show ?thesis using assms(2) quiet DrainEnds by auto
  qed
qed

lemma line_run_ok:
  assumes "line_run word digest as_int (new_line s p rr) es ms l" "journal_reachable n s"
  shows "line_ok n l \<and> al_recorder l = rr \<and> (\<forall>v\<in>set ms. emitted_ok v \<and> rr_enabled rr \<and> rr_has_publisher rr)"
  using assms(1)
proof (induction rule: line_run.induct)
  case run_starts
  show ?case using assms(2) by (simp add: line_ok_def new_line_def new_aggregator_def)
next
  case (run_flows es ms l e l' m)
  then show ?case using flow_ok [of n l word digest as_int e l' m] by (auto split: option.splits)
next
  case (run_works es ms l s)
  then show ?case using reach_step by (auto simp: line_ok_def)
qed

section \<open>Nothing but the feed\<close>

definition feed_only :: "journal_state \<Rightarrow> journal_state \<Rightarrow> bool" where
  "feed_only s s' \<longleftrightarrow>
     s' = s\<lparr>js_activities := js_activities s', js_activity_by_source := js_activity_by_source s',
             js_activity_sequence := js_activity_sequence s'\<rparr>"

lemma feed_only_refl [simp]: "feed_only s s"
  by (simp add: feed_only_def)

lemma feed_only_append: "append_activity s d before = (s', x) \<Longrightarrow> feed_only s s'"
  by (auto simp: feed_only_def append_activity_def retain_recent_activity_def Let_def split: option.splits if_splits)

lemma feed_only_recording:
  assumes "recording_goes returned rec l = (l', rec', m)"
  shows "feed_only (al_journal l) (al_journal l')"
proof (cases rec)
  case (RecAppends d before)
  obtain s y where a: "append_activity (al_journal l) d before = (s, y)" by (cases "append_activity (al_journal l) d before")
  then have "al_journal l' = s"
    using assms RecAppends
    by (auto simp: recording_goes_def commit_recording_def split: sum.splits if_splits option.splits prod.splits)
  then show ?thesis using feed_only_append [OF a] by simp
qed (use assms in \<open>auto simp: recording_goes_def\<close>)

lemma feed_only_phase: "phase_goes word digest i returned now l = (l', m) \<Longrightarrow> feed_only (al_journal l) (al_journal l')"
  by (auto simp: phase_goes_def Let_def split: if_splits phase_stage.splits option.splits prod.splits
      dest: feed_only_recording)

lemma feed_only_flow:
  assumes "flow word digest as_int e l = (l', m)"
  shows "feed_only (al_journal l) (al_journal l')"
proof (cases e)
  case (CallGoes i returned)
  then show ?thesis using assms by (auto split: if_splits prod.splits dest: feed_only_recording)
qed (use assms feed_only_phase in \<open>auto split: if_splits\<close>)

text \<open>A recorder that is not enabled stores nothing.\<close>

lemma disabled_recording:
  assumes "recording_ok rr rec" "\<not> rr_enabled rr"
  shows "\<exists>x. rec = RecDone x"
  using assms by (cases rec) simp_all

lemma disabled_flow:
  assumes "line_ok n l" "\<not> rr_enabled (al_recorder l)" "flow word digest as_int e l = (l', m)"
  shows "al_journal l' = al_journal l"
proof (cases e)
  case (CallGoes i returned)
  show ?thesis
  proof (cases "length (al_calls l) \<le> i")
    case False
    then have "recording_ok (al_recorder l) (al_calls l ! i)" using assms(1) by (simp add: line_ok_def)
    then obtain x where "al_calls l ! i = RecDone x" using disabled_recording assms(2) by blast
    then show ?thesis using assms(3) CallGoes False by (auto simp: recording_goes_def)
  qed (use assms CallGoes in simp)
next
  case (PhaseGoes i returned now)
  show ?thesis
  proof (cases "pt_stage (ag_tasks (al_aggregator l) ! i)")
    case (PhaseRecords rec)
    show ?thesis
    proof (cases "length (ag_tasks (al_aggregator l)) \<le> i")
      case False
      then have "stage_ok (al_recorder l) (PhaseRecords rec)"
        using assms(1) PhaseRecords by (metis line_ok_def linorder_not_less nth_mem)
      then have "recording_ok (al_recorder l) rec" by (simp add: stage_ok_def)
      then obtain x where "rec = RecDone x" using disabled_recording assms(2) by blast
      then show ?thesis using assms(3) PhaseGoes PhaseRecords by (auto simp: phase_goes_def recording_goes_def Let_def split: if_splits)
    qed (use assms PhaseGoes in \<open>simp add: phase_goes_def\<close>)
  qed (use assms PhaseGoes in \<open>auto simp: phase_goes_def Let_def split: if_splits option.splits phase_stage.splits\<close>)
qed (use assms in \<open>auto split: if_splits\<close>)

section \<open>Two calls for one event\<close>

text \<open>
  The publisher tests for a delivered event before the emission and remembers it after: two calls that store the
  same record, the second as a replay of the first, both emit it.
\<close>

lemma publisher_emits_twice:
  fixes c :: journal_command
  assumes reach: "journal_reachable n s" and rr: "rr_has_publisher rr" "rr_retention_ms rr = None"
    and rec: "begin_recording word rr c key ph x g now = RecAppends d None"
    and app: "append_activity s d None = (s1, Inr (r, False))" and pub: "begin_publish r p = Some v"
  shows "\<exists>es l. line_run word digest as_int (new_line s p rr) es [v, v] l"
proof -
  let ?call = "CallComes c key ph x g now"
  define l1 where "l1 = (new_line s p rr)\<lparr>al_calls := [RecAppends d None]\<rparr>"
  define l2 where "l2 = (new_line s p rr)\<lparr>al_calls := [RecAppends d None, RecAppends d None]\<rparr>"
  define l3 where "l3 = l2\<lparr>al_journal := s1, al_calls := [RecEmits r, RecAppends d None]\<rparr>"
  define l4 where "l4 = l2\<lparr>al_journal := s1, al_calls := [RecEmits r, RecEmits r]\<rparr>"
  have ok: "activity_draft_ok d" using rec by (auto simp: begin_recording_def Let_def split: if_splits)
  have r: "r = activity_record_of d (js_activity_sequence s + 1)" "r \<in> set (js_activities s1)"
    using app by (auto simp: append_activity_def retain_recent_activity_def Let_def split: option.splits if_splits)
  have "journal_reachable n s1" by (rule reach_step [OF reach step_activity [OF ok app]])
  from append_activity_idempotent [OF this r(2), of d None]
  have again: "append_activity s1 d None = (s1, Inr (r, True))"
    using r(1) by (simp add: activity_matches_def retain_recent_activity_def)
  have called: "flow word digest as_int ?call (new_line s p rr) = (l1, None)" "flow word digest as_int ?call l1 = (l2, None)"
    using rec by (simp_all add: new_line_def l1_def l2_def)
  have gone: "flow word digest as_int (CallGoes 0 True) l2 = (l3, Some v)" "flow word digest as_int (CallGoes 1 True) l3 = (l4, Some v)"
    using app again pub rr by (simp_all add: recording_goes_def commit_recording_def new_line_def l2_def l3_def l4_def)
  from run_flows [OF run_flows [OF run_flows [OF run_flows [OF run_starts called(1)] called(2)] gone(1)] gone(2)]
  show ?thesis by simp blast
qed

end
