(* ===== verification/Activity_Order.thy ===== *)
theory Activity_Order
  imports Activity_Aggregator
begin

text \<open>
  The tasks of the aggregator: those of a correlation form a chain in the order of their phases, each records
  only after all before it have ended, and a drain ends.
\<close>

section \<open>Tasks by number\<close>

definition key_at :: "aggregator \<Rightarrow> nat \<Rightarrow> correlation_key" where
  "key_at a j = pt_key (ag_tasks a ! j)"

definition phase_at :: "aggregator \<Rightarrow> nat \<Rightarrow> int" where
  "phase_at a j = rp_phase_sequence (pt_event (ag_tasks a ! j))"

definition after_at :: "aggregator \<Rightarrow> nat \<Rightarrow> nat option" where
  "after_at a j = pt_after (ag_tasks a ! j)"

definition stage_at :: "aggregator \<Rightarrow> nat \<Rightarrow> phase_stage" where
  "stage_at a j = pt_stage (ag_tasks a ! j)"

definition cancelled_at :: "aggregator \<Rightarrow> nat \<Rightarrow> bool" where
  "cancelled_at a j = pt_cancelled (ag_tasks a ! j)"

definition ended_at :: "aggregator \<Rightarrow> nat \<Rightarrow> bool" where
  "ended_at a j \<longleftrightarrow> (\<exists>c. stage_at a j = PhaseDone c)"

abbreviation task_count :: "aggregator \<Rightarrow> nat" where
  "task_count a \<equiv> length (ag_tasks a)"

lemmas at_defs = key_at_def phase_at_def after_at_def stage_at_def cancelled_at_def

lemma phase_ended_at: "phase_ended (ag_tasks a ! j) \<longleftrightarrow> ended_at a j"
  by (simp add: phase_ended_def ended_at_def stage_at_def split: phase_stage.split)

lemma set_stage_task:
  "ag_tasks (set_phase_stage i g a) ! j =
    (if j = i \<and> i < task_count a then (ag_tasks a ! i)\<lparr>pt_stage := g\<rparr> else ag_tasks a ! j)"
  by (cases "i < task_count a"; cases "j = i") (simp_all add: set_phase_stage_def list_update_beyond)

lemma set_stage_at [simp]:
  "i < task_count a \<Longrightarrow> stage_at (set_phase_stage i g a) j = (if j = i then g else stage_at a j)"
  "key_at (set_phase_stage i g a) j = key_at a j" "phase_at (set_phase_stage i g a) j = phase_at a j"
  "after_at (set_phase_stage i g a) j = after_at a j" "cancelled_at (set_phase_stage i g a) j = cancelled_at a j"
  by (simp_all add: at_defs set_stage_task)

lemma set_stage_same [simp]:
  "key_at (set_phase_stage i g a) = key_at a" "phase_at (set_phase_stage i g a) = phase_at a"
  "after_at (set_phase_stage i g a) = after_at a"
  by (simp_all add: fun_eq_iff)

lemma set_stage_rest [simp]:
  "task_count (set_phase_stage i g a) = task_count a" "ag_closed (set_phase_stage i g a) = ag_closed a"
  "ag_tails (set_phase_stage i g a) = ag_tails a" "ag_last (set_phase_stage i g a) = ag_last a"
  by (simp_all add: set_phase_stage_def)

lemma end_phase_at [simp]:
  "i < task_count a \<Longrightarrow> stage_at (end_phase i c a) j = (if j = i then PhaseDone c else stage_at a j)"
  "key_at (end_phase i c a) j = key_at a j" "phase_at (end_phase i c a) j = phase_at a j"
  "after_at (end_phase i c a) j = after_at a j" "cancelled_at (end_phase i c a) j = cancelled_at a j"
  "task_count (end_phase i c a) = task_count a" "ag_closed (end_phase i c a) = ag_closed a"
  "ag_last (end_phase i c a) = ag_last a"
proof -
  have b: "ag_tasks (end_phase i c a) = ag_tasks (set_phase_stage i (PhaseDone c) a) \<and>
      ag_closed (end_phase i c a) = ag_closed a \<and> ag_last (end_phase i c a) = ag_last a"
    by (simp add: end_phase_def Let_def)
  show "i < task_count a \<Longrightarrow> stage_at (end_phase i c a) j = (if j = i then PhaseDone c else stage_at a j)"
    by (simp add: stage_at_def b set_stage_task)
  show "key_at (end_phase i c a) j = key_at a j" "phase_at (end_phase i c a) j = phase_at a j"
    "after_at (end_phase i c a) j = after_at a j" "cancelled_at (end_phase i c a) j = cancelled_at a j"
    by (simp_all add: at_defs b set_stage_task)
qed (simp_all add: end_phase_def Let_def)

lemma end_phase_tails:
  "ag_tails (end_phase i c a) =
    (if dict_get (ag_tails a) (key_at a i) = Some i then dict_del (key_at a i) (ag_tails a) else ag_tails a)"
  by (simp add: end_phase_def Let_def key_at_def)

lemma add_task_at [simp]:
  "stage_at (add_phase_task k e ph a) j = (if j = task_count a then PhaseAfter else stage_at a j)" if "j \<le> task_count a" for j
  using that by (simp add: add_phase_task_def stage_at_def nth_append)

lemma add_task_at_others [simp]:
  assumes "j \<le> task_count a"
  shows "key_at (add_phase_task k e ph a) j = (if j = task_count a then k else key_at a j)"
    "phase_at (add_phase_task k e ph a) j = (if j = task_count a then rp_phase_sequence e else phase_at a j)"
    "after_at (add_phase_task k e ph a) j = (if j = task_count a then dict_get (ag_tails a) k else after_at a j)"
    "cancelled_at (add_phase_task k e ph a) j = (if j = task_count a then False else cancelled_at a j)"
  using assms by (simp_all add: add_phase_task_def at_defs nth_append)

lemma add_task_rest [simp]:
  "task_count (add_phase_task k e ph a) = Suc (task_count a)" "ag_closed (add_phase_task k e ph a) = ag_closed a"
  "ag_tails (add_phase_task k e ph a) = dict_set k (task_count a) (ag_tails a)"
  "ag_last (add_phase_task k e ph a) = ag_last a"
  by (simp_all add: add_phase_task_def)

section \<open>What a task does to the aggregator\<close>

inductive task_moves :: "aggregator \<Rightarrow> aggregator \<Rightarrow> bool" for a where
  moves_not: "task_moves a a"
| moves_cancelled: "\<lbrakk>i < task_count a; \<not> ended_at a i; cancelled_at a i \<or> (\<exists>j. after_at a i = Some j \<and> stage_at a j = PhaseDone True)\<rbrakk>
    \<Longrightarrow> task_moves a (end_phase i True a)"
| moves_on: "\<lbrakk>i < task_count a; stage_at a i = PhaseAfter; \<forall>j. after_at a i = Some j \<longrightarrow> stage_at a j = PhaseDone False\<rbrakk>
    \<Longrightarrow> task_moves a (set_phase_stage i PhaseGets a)"
| moves_records: "\<lbrakk>i < task_count a; stage_at a i = PhaseGets \<or> (\<exists>rec. stage_at a i = PhaseRecords rec)\<rbrakk>
    \<Longrightarrow> task_moves a (set_phase_stage i (PhaseRecords rec) a)"
| moves_ends: "\<lbrakk>i < task_count a; stage_at a i = PhaseGets \<or> (\<exists>rec. stage_at a i = PhaseRecords rec)\<rbrakk>
    \<Longrightarrow> task_moves a (end_phase i False a)"

lemma recording_moves:
  assumes "i < task_count a" "stage_at a i = PhaseGets \<or> (\<exists>rec. stage_at a i = PhaseRecords rec)"
  shows "task_moves a (recording_stage i rec a)"
  using moves_records [OF assms] moves_ends [OF assms] by (cases rec) (simp_all add: recording_stage_def)

lemma recording_goes_aggregator: "recording_goes returned rec l = (l', rec', m) \<Longrightarrow> al_aggregator l' = al_aggregator l"
  by (auto simp: recording_goes_def split: recording.splits prod.splits)

lemma phase_goes_moves:
  assumes "phase_goes word digest i returned now l = (l', m)"
  shows "task_moves (al_aggregator l) (al_aggregator l')"
proof (cases "task_count (al_aggregator l) \<le> i")
  case True
  then show ?thesis using assms moves_not by (simp add: phase_goes_def)
next
  case False
  let ?a = "al_aggregator l"
  have i: "i < task_count ?a" using False by simp
  show ?thesis
  proof (cases "ended_at ?a i")
    case True
    then show ?thesis using assms False moves_not by (auto simp: phase_goes_def Let_def ended_at_def stage_at_def)
  next
    case going: False
    show ?thesis
    proof (cases "cancelled_at ?a i")
      case True
      then have "al_aggregator l' = end_phase i True ?a"
        using assms False going
        by (auto simp: phase_goes_def Let_def ended_at_def stage_at_def cancelled_at_def split: phase_stage.splits)
      then show ?thesis using moves_cancelled [OF i going] True by simp
    next
      case live: False
      show ?thesis
      proof (cases "stage_at ?a i")
        case PhaseAfter
        have "al_aggregator l' = ?a \<or>
            (\<exists>j. after_at ?a i = Some j \<and> stage_at ?a j = PhaseDone True) \<and> al_aggregator l' = end_phase i True ?a \<or>
            (\<forall>j. after_at ?a i = Some j \<longrightarrow> stage_at ?a j = PhaseDone False) \<and> al_aggregator l' = set_phase_stage i PhaseGets ?a"
          using assms False live PhaseAfter
          by (auto simp: phase_goes_def Let_def at_defs split: option.splits phase_stage.splits if_splits)
        then show ?thesis
          using moves_not [of ?a] moves_cancelled [OF i going] moves_on [OF i PhaseAfter] by auto
      next
        case PhaseGets
        then show ?thesis using assms False live moves_ends [OF i] recording_moves [OF i]
          by (auto simp: phase_goes_def Let_def stage_at_def cancelled_at_def split: option.splits)
      next
        case (PhaseRecords rec)
        then show ?thesis using assms False live recording_moves [OF i]
          by (auto simp: phase_goes_def Let_def stage_at_def cancelled_at_def split: prod.splits)
      qed (use going in \<open>simp add: ended_at_def\<close>)
    qed
  qed
qed

section \<open>Chains\<close>

text \<open>
  A task waits for the last one before it with its correlation, or all those have ended; and one that is under way or
  has ended by itself has only ended ones before it.
\<close>

definition chained :: "aggregator \<Rightarrow> bool" where
  "chained a \<longleftrightarrow>
     (\<forall>j<task_count a. case after_at a j of
        None \<Rightarrow> \<forall>k<j. key_at a k = key_at a j \<longrightarrow> ended_at a k
      | Some i \<Rightarrow> i < j \<and> key_at a i = key_at a j \<and> (\<forall>k. i < k \<and> k < j \<longrightarrow> key_at a k \<noteq> key_at a j))"

definition behind_ended :: "aggregator \<Rightarrow> bool" where
  "behind_ended a \<longleftrightarrow>
     (\<forall>j<task_count a. stage_at a j \<notin> {PhaseAfter, PhaseDone True} \<longrightarrow>
        (\<forall>k<j. key_at a k = key_at a j \<longrightarrow> ended_at a k))"

definition phases_rise :: "aggregator \<Rightarrow> bool" where
  "phases_rise a \<longleftrightarrow>
     (\<forall>j<task_count a. \<forall>k<j. key_at a k = key_at a j \<longrightarrow> phase_at a k < phase_at a j)"

text \<open>Before the drain: nothing is cancelled, and the tails and the last phases are those of the tasks.\<close>

definition tails_ok :: "aggregator \<Rightarrow> bool" where
  "tails_ok a \<longleftrightarrow>
     (\<forall>k. case dict_get (ag_tails a) k of
        None \<Rightarrow> \<forall>j<task_count a. key_at a j = k \<longrightarrow> ended_at a j
      | Some i \<Rightarrow> i < task_count a \<and> key_at a i = k \<and> (\<forall>j. i < j \<and> j < task_count a \<longrightarrow> key_at a j \<noteq> k))"

definition marks_ok :: "correlation_key set \<Rightarrow> aggregator \<Rightarrow> bool" where
  "marks_ok ks a \<longleftrightarrow>
     distinct (dict_keys (ag_last a)) \<and> set (dict_keys (ag_last a)) \<subseteq> ks \<and>
     (\<forall>j<task_count a. \<exists>n. dict_get (ag_last a) (key_at a j) = Some n \<and> phase_at a j \<le> n)"

definition none_cancelled :: "aggregator \<Rightarrow> bool" where
  "none_cancelled a \<longleftrightarrow> (\<forall>j<task_count a. \<not> cancelled_at a j \<and> stage_at a j \<noteq> PhaseDone True)"

definition order_ok :: "correlation_key set \<Rightarrow> aggregator \<Rightarrow> bool" where
  "order_ok ks a \<longleftrightarrow>
     chained a \<and> behind_ended a \<and> phases_rise a \<and>
     (ag_closed a \<or> none_cancelled a \<and> tails_ok a \<and> marks_ok ks a)"

lemma chained_None:
  "chained a \<Longrightarrow> i < task_count a \<Longrightarrow> after_at a i = None \<Longrightarrow> k < i \<Longrightarrow> key_at a k = key_at a i \<Longrightarrow> ended_at a k"
  unfolding chained_def by (drule spec [of _ i]) simp

lemma chained_Some:
  "chained a \<Longrightarrow> i < task_count a \<Longrightarrow> after_at a i = Some j \<Longrightarrow>
    j < i \<and> key_at a j = key_at a i \<and> (\<forall>k. j < k \<and> k < i \<longrightarrow> key_at a k \<noteq> key_at a i)"
  unfolding chained_def by (drule spec [of _ i]) simp

lemma tails_None: "tails_ok a \<Longrightarrow> dict_get (ag_tails a) k = None \<Longrightarrow> j < task_count a \<Longrightarrow> key_at a j = k \<Longrightarrow> ended_at a j"
  unfolding tails_ok_def by (drule spec [of _ k]) simp

lemma tails_Some:
  "tails_ok a \<Longrightarrow> dict_get (ag_tails a) k = Some i \<Longrightarrow>
    i < task_count a \<and> key_at a i = k \<and> (\<forall>j. i < j \<and> j < task_count a \<longrightarrow> key_at a j \<noteq> k)"
  unfolding tails_ok_def by (drule spec [of _ k]) simp

lemma tails_okI:
  assumes "\<And>k j. dict_get (ag_tails a) k = None \<Longrightarrow> j < task_count a \<Longrightarrow> key_at a j = k \<Longrightarrow> ended_at a j"
    "\<And>k i. dict_get (ag_tails a) k = Some i \<Longrightarrow>
      i < task_count a \<and> key_at a i = k \<and> (\<forall>j. i < j \<and> j < task_count a \<longrightarrow> key_at a j \<noteq> k)"
  shows "tails_ok a"
  unfolding tails_ok_def using assms by (auto split: option.split)

lemma behind_endedD:
  "behind_ended a \<Longrightarrow> j < task_count a \<Longrightarrow> stage_at a j \<noteq> PhaseAfter \<Longrightarrow> stage_at a j \<noteq> PhaseDone True \<Longrightarrow>
    k < j \<Longrightarrow> key_at a k = key_at a j \<Longrightarrow> ended_at a k"
  unfolding behind_ended_def by blast

lemma ended_set_stage:
  "i < task_count a \<Longrightarrow> \<not> ended_at a i \<Longrightarrow> \<forall>c. g \<noteq> PhaseDone c \<Longrightarrow> ended_at (set_phase_stage i g a) k \<longleftrightarrow> ended_at a k"
  by (auto simp: ended_at_def)

lemma ended_end_phase: "i < task_count a \<Longrightarrow> ended_at (end_phase i c a) k \<longleftrightarrow> k = i \<or> ended_at a k"
  by (auto simp: ended_at_def)

text \<open>All before a task that has ended by itself, or that nothing holds back, have ended.\<close>

lemma before_ended:
  assumes "chained a" "behind_ended a" "i < task_count a" "\<forall>j. after_at a i = Some j \<longrightarrow> stage_at a j = PhaseDone False"
    "k < i" "key_at a k = key_at a i"
  shows "ended_at a k"
proof (cases "after_at a i")
  case None
  then show ?thesis using chained_None assms(1,3,5,6) by blast
next
  case (Some j)
  then have j: "j < i" "key_at a j = key_at a i" "\<And>k. j < k \<Longrightarrow> k < i \<Longrightarrow> key_at a k \<noteq> key_at a i"
    using chained_Some [OF assms(1,3) Some] by blast+
  have fin: "stage_at a j = PhaseDone False" using assms(4) Some by blast
  consider "k < j" | "k = j" using j(3) [of k] assms(5,6) by fastforce
  then show ?thesis
  proof cases
    case 1
    then show ?thesis using behind_endedD [OF assms(2), of j k] assms(3,6) j fin by simp
  qed (use fin in \<open>auto simp: ended_at_def\<close>)
qed

text \<open>What depends on the stages only through what has ended.\<close>

lemma same_order:
  assumes "task_count b = task_count a" "key_at b = key_at a" "after_at b = after_at a" "phase_at b = phase_at a"
    "ag_tails b = ag_tails a" "ag_last b = ag_last a" "ag_closed b = ag_closed a" "\<And>k. ended_at b k \<longleftrightarrow> ended_at a k"
  shows "chained b \<longleftrightarrow> chained a" "phases_rise b \<longleftrightarrow> phases_rise a" "tails_ok b \<longleftrightarrow> tails_ok a" "marks_ok ks b \<longleftrightarrow> marks_ok ks a"
  by (simp_all add: chained_def phases_rise_def tails_ok_def marks_ok_def assms cong: option.case_cong)

lemma order_ok_moves:
  assumes "order_ok ks a" "task_moves a b"
  shows "order_ok ks b"
  using assms(2)
proof cases
  case moves_not
  then show ?thesis using assms(1) by simp
next
  case (moves_cancelled i)
  have closed: "ag_closed a"
  proof (rule ccontr)
    assume "\<not> ag_closed a"
    then have "none_cancelled a" "chained a" using assms(1) by (simp_all add: order_ok_def)
    then show False using moves_cancelled(2,4) chained_Some [of a i] by (auto simp: none_cancelled_def)
  qed
  then show ?thesis using assms(1) moves_cancelled(1,2)
    by (auto simp: order_ok_def chained_def behind_ended_def phases_rise_def ended_end_phase split: option.splits)
next
  case (moves_on i)
  have "\<not> ended_at a i" using moves_on(3) by (simp add: ended_at_def)
  then have ended: "ended_at (set_phase_stage i PhaseGets a) k \<longleftrightarrow> ended_at a k" for k
    using ended_set_stage moves_on(2) by simp
  have ok: "chained a" "behind_ended a" using assms(1) by (simp_all add: order_ok_def)
  have "behind_ended b"
    unfolding moves_on(1) using ok(2) before_ended [OF ok moves_on(2,4)] moves_on(2)
    by (auto simp: behind_ended_def ended split: if_splits)
  moreover have "none_cancelled a \<Longrightarrow> none_cancelled b"
    unfolding moves_on(1) using moves_on(2) by (simp add: none_cancelled_def)
  ultimately show ?thesis
    using assms(1) same_order [of b a] moves_on(2) ended unfolding moves_on(1) by (auto simp: order_ok_def)
next
  case (moves_records i rec)
  have "\<not> ended_at a i" using moves_records(3) by (auto simp: ended_at_def)
  then have ended: "ended_at (set_phase_stage i (PhaseRecords rec) a) k \<longleftrightarrow> ended_at a k" for k
    using ended_set_stage moves_records(2) by simp
  have "behind_ended b"
    unfolding moves_records(1) using assms(1) moves_records(2,3) by (auto simp: order_ok_def behind_ended_def ended split: if_splits)
  moreover have "none_cancelled a \<Longrightarrow> none_cancelled b"
    unfolding moves_records(1) using moves_records(2) by (simp add: none_cancelled_def)
  ultimately show ?thesis
    using assms(1) same_order [of b a] moves_records(2) ended unfolding moves_records(1) by (auto simp: order_ok_def)
next
  case (moves_ends i)
  note ended = ended_end_phase [OF moves_ends(2), of False]
  have ok: "chained a" "behind_ended a" using assms(1) by (simp_all add: order_ok_def)
  have before: "ended_at a k" if "k < i" "key_at a k = key_at a i" for k
    using behind_endedD [OF ok(2) moves_ends(2)] moves_ends(3) that by auto
  have "behind_ended b"
    unfolding moves_ends(1) using ok(2) before moves_ends(2) by (auto simp: behind_ended_def ended split: if_splits)
  moreover have "tails_ok b" if tails: "tails_ok a"
  proof -
    have "j = i \<or> ended_at a j" if "dict_get (ag_tails a) (key_at a i) = Some i" "j < task_count a" "key_at a j = key_at a i" for j
    proof -
      have "\<not> i < j" using tails_Some [OF tails that(1)] that(2,3) by blast
      then have "j < i \<or> j = i" by linarith
      then show ?thesis using before that(3) by blast
    qed
    note last = this
    show ?thesis
    proof (rule tails_okI)
      show "ended_at b j" if g: "dict_get (ag_tails b) k = None" and j: "j < task_count b" "key_at b j = k" for k j
      proof -
        have j': "j < task_count a" "key_at a j = k" using j by (simp_all add: moves_ends(1))
        have "j = i \<or> ended_at a j"
        proof (cases "k = key_at a i \<and> dict_get (ag_tails a) k = Some i")
          case True
          then show ?thesis using last j' by blast
        next
          case False
          then have "dict_get (ag_tails a) k = None"
            using g by (auto simp: moves_ends(1) end_phase_tails dict_get_del split: if_splits)
          then show ?thesis using tails_None [OF tails] j' by blast
        qed
        then show ?thesis unfolding moves_ends(1) by (simp add: ended)
      qed
      show "j < task_count b \<and> key_at b j = k \<and> (\<forall>m. j < m \<and> m < task_count b \<longrightarrow> key_at b m \<noteq> k)"
        if g: "dict_get (ag_tails b) k = Some j" for k j
      proof -
        have "dict_get (ag_tails a) k = Some j" using g by (simp add: moves_ends(1) end_phase_tails dict_get_del split: if_splits)
        then show ?thesis using tails_Some [OF tails] unfolding moves_ends(1) by simp
      qed
    qed
  qed
  ultimately show ?thesis using assms(1) moves_ends(2) unfolding moves_ends(1)
    by (auto simp: order_ok_def chained_def phases_rise_def none_cancelled_def marks_ok_def ended split: option.splits)
qed

section \<open>Events and drains\<close>

lemma same_tasks:
  assumes "ag_tasks b = ag_tasks a"
  shows "key_at b = key_at a" "after_at b = after_at a" "phase_at b = phase_at a" "stage_at b = stage_at a"
    "cancelled_at b = cancelled_at a" "ended_at b = ended_at a"
  by (simp_all add: fun_eq_iff at_defs ended_at_def assms)

lemma same_tasks_order:
  assumes "ag_tasks b = ag_tasks a"
  shows "chained b \<longleftrightarrow> chained a" "behind_ended b \<longleftrightarrow> behind_ended a" "phases_rise b \<longleftrightarrow> phases_rise a"
    "none_cancelled b \<longleftrightarrow> none_cancelled a" "ag_tails b = ag_tails a \<Longrightarrow> tails_ok b \<longleftrightarrow> tails_ok a"
    "ag_last b = ag_last a \<Longrightarrow> marks_ok ks b \<longleftrightarrow> marks_ok ks a"
  unfolding chained_def behind_ended_def phases_rise_def none_cancelled_def tails_ok_def marks_ok_def
  by (simp_all only: same_tasks [OF assms] assms)

text \<open>The correlation of a runtime event that is valid.\<close>

definition event_keys :: "(json \<Rightarrow> int option) \<Rightarrow> line_event \<Rightarrow> correlation_key set" where
  "event_keys as_int e =
     (case e of
        RuntimeComes m \<Rightarrow>
          (case phase_event_of as_int m of
             None \<Rightarrow> {}
           | Some x \<Rightarrow> {(rp_runtime_instance_id x, rp_correlation_id x)})
      | _ \<Rightarrow> {})"

lemma last_n_all: "length xs \<le> n \<Longrightarrow> last_n n xs = xs"
  by (simp add: last_n_def)

lemma marks_ok_set:
  assumes "marks_ok ks a" "finite ks" "card ks \<le> 2048" "k \<in> ks" "dict_get_default (ag_last a) k 0 < n"
    and b: "b = a\<lparr>ag_last := last_n 2048 (dict_del k (ag_last a) @ [(k, n)])\<rparr>"
  shows "marks_ok ks b \<and> (\<forall>j<task_count b. key_at b j = k \<longrightarrow> phase_at b j < n) \<and> dict_get (ag_last b) k = Some n"
proof -
  let ?d = "dict_del k (ag_last a) @ [(k, n)]"
  have old: "distinct (dict_keys (ag_last a))" "set (dict_keys (ag_last a)) \<subseteq> ks" using assms(1) by (simp_all add: marks_ok_def)
  have keys: "set (dict_keys (dict_del k (ag_last a))) = set (dict_keys (ag_last a)) - {k}" by (simp add: delete_keys)
  have dist: "distinct (dict_keys ?d)" using old(1) keys by (simp add: distinct_keys_del)
  have sub: "set (dict_keys ?d) \<subseteq> ks" using old(2) keys assms(4) by auto
  have "length ?d = card (set (dict_keys ?d))" using distinct_card [OF dist] by simp
  then have "length ?d \<le> 2048" using card_mono [OF assms(2) sub] assms(3) by linarith
  then have marked: "ag_last b = ?d" unfolding b by (simp add: last_n_all)
  have get: "dict_get ?d k' = (if k' = k then Some n else dict_get (ag_last a) k')" for k'
    by (cases "dict_get (ag_last a) k'") (simp_all add: map_add_def dict_get_del)
  have same: "task_count b = task_count a" "key_at b = key_at a" "phase_at b = phase_at a"
    by (simp_all add: b fun_eq_iff at_defs)
  have old_phase: "phase_at a j < n" if j: "j < task_count a" "key_at a j = k" for j
  proof -
    obtain m where "dict_get (ag_last a) k = Some m" "phase_at a j \<le> m" using assms(1) j unfolding marks_ok_def by blast
    then show ?thesis using assms(5) by (simp add: dict_get_default_def)
  qed
  have "\<exists>m. dict_get ?d (key_at a j) = Some m \<and> phase_at a j \<le> m" if "j < task_count a" for j
    using assms(1) that old_phase [OF that] unfolding get by (auto simp: marks_ok_def less_imp_le)
  then show ?thesis using dist sub old_phase get by (simp add: marks_ok_def marked same del: append_Cons map_append)
qed

lemma order_ok_event:
  assumes "order_ok ks a" "finite ks" "card ks \<le> 2048" "event_keys as_int (RuntimeComes m) \<subseteq> ks"
  shows "order_ok ks (on_runtime_event as_int m a)"
proof (cases "ag_closed a \<or> json_get m ''type'' \<noteq> JStr ''action_phase'' \<or> phase_event_of as_int m = None")
  case True
  have "order_ok ks (a\<lparr>ag_invalid_events := n\<rparr>)" for n
    using assms(1) by (simp add: order_ok_def same_tasks_order [of "a\<lparr>ag_invalid_events := n\<rparr>" a])
  then show ?thesis using True assms(1) by (auto simp: on_runtime_event_def)
next
  case False
  then obtain e where e: "phase_event_of as_int m = Some e" by blast
  let ?k = "(rp_runtime_instance_id e, rp_correlation_id e)" and ?n = "rp_phase_sequence e"
  show ?thesis
  proof (cases "?n \<le> dict_get_default (ag_last a) ?k 0")
    case True
    then show ?thesis using assms(1) False e by (simp add: on_runtime_event_def Let_def)
  next
    case late: False
    define b where "b = a\<lparr>ag_last := last_n 2048 (dict_del ?k (ag_last a) @ [(?k, ?n)])\<rparr>"
    have a: "chained a" "behind_ended a" "phases_rise a" "none_cancelled a" "tails_ok a" "marks_ok ks a" "\<not> ag_closed a"
      using assms(1) False by (auto simp: order_ok_def)
    have "?k \<in> ks" using assms(4) e by (simp add: event_keys_def)
    from marks_ok_set [OF a(6) assms(2,3) this _ b_def] late
    have b_last: "marks_ok ks b" "\<And>j. j < task_count b \<Longrightarrow> key_at b j = ?k \<Longrightarrow> phase_at b j < ?n"
      "dict_get (ag_last b) ?k = Some ?n" by auto
    have tasks: "ag_tasks b = ag_tasks a" "ag_tails b = ag_tails a" "ag_closed b = ag_closed a" by (simp_all add: b_def)
    have b: "chained b" "behind_ended b" "phases_rise b" "none_cancelled b" "tails_ok b" "\<not> ag_closed b"
      using a tasks same_tasks_order [OF tasks(1)] by simp_all
    show ?thesis
    proof (cases "runtime_phase_to_public (rp_phase e)")
      case None
      then have "on_runtime_event as_int m a = b" using False e late by (simp add: on_runtime_event_def Let_def b_def)
      then show ?thesis using b b_last(1) by (simp add: order_ok_def)
    next
      case (Some ph)
      let ?c = "add_phase_task ?k e ph b"
      have c: "on_runtime_event as_int m a = ?c" using False e late Some by (simp add: on_runtime_event_def Let_def b_def)
      have ended: "ended_at ?c j \<longleftrightarrow> j \<noteq> task_count b \<and> ended_at b j" if "j \<le> task_count b" for j
        using that by (auto simp: ended_at_def)
      have "chained ?c"
        using b(1) tails_None [OF b(5), of ?k] tails_Some [OF b(5), of ?k]
        by (auto simp: chained_def less_Suc_eq ended split: option.split)
      moreover have "behind_ended ?c" using b(2) by (auto simp: behind_ended_def less_Suc_eq ended)
      moreover have "phases_rise ?c" using b(3) b_last(2) by (auto simp: phases_rise_def less_Suc_eq)
      moreover have "none_cancelled ?c" using b(4) by (auto simp: none_cancelled_def less_Suc_eq)
      moreover have "marks_ok ks ?c" using b_last(1,3) by (auto simp: marks_ok_def less_Suc_eq)
      moreover have "tails_ok ?c"
      proof (rule tails_okI)
        show "ended_at ?c j" if "dict_get (ag_tails ?c) k = None" "j < task_count ?c" "key_at ?c j = k" for k j
        proof -
          have k: "k \<noteq> ?k" "dict_get (ag_tails b) k = None" using that(1) by (simp_all add: dict_get_set split: if_splits)
          then have j: "j < task_count b" using that(2,3) by (cases "j = task_count b") simp_all
          then show ?thesis using that(3) tails_None [OF b(5) k(2) j] by (simp add: ended)
        qed
        show "i < task_count ?c \<and> key_at ?c i = k \<and> (\<forall>j. i < j \<and> j < task_count ?c \<longrightarrow> key_at ?c j \<noteq> k)"
          if "dict_get (ag_tails ?c) k = Some i" for k i
        proof (cases "k = ?k")
          case True
          then show ?thesis using that by (simp add: dict_get_set)
        next
          case False
          then have "dict_get (ag_tails b) k = Some i" using that by (simp add: dict_get_set)
          from tails_Some [OF b(5) this] show ?thesis using False by (auto simp: less_Suc_eq)
        qed
      qed
      ultimately show ?thesis by (simp add: c order_ok_def)
    qed
  qed
qed

lemma cancelled_tasks:
  assumes "b = drain_cancelled a"
  shows "task_count b = task_count a \<and> ag_closed b = ag_closed a \<and>
    (\<forall>j<task_count a. key_at b j = key_at a j \<and> after_at b j = after_at a j \<and> phase_at b j = phase_at a j \<and>
       stage_at b j = stage_at a j \<and> ended_at b j = ended_at a j)"
  using assms by (auto simp: drain_cancelled_def at_defs ended_at_def)

lemma order_ok_cancelled:
  assumes "order_ok ks a"
  shows "order_ok ks (drain_cancelled a)"
proof (cases "ag_closed a")
  case True
  let ?b = "drain_cancelled a"
  note b = cancelled_tasks [of ?b a]
  have ok: "chained a" "behind_ended a" "phases_rise a" using assms by (simp_all add: order_ok_def)
  have "chained ?b"
    unfolding chained_def
  proof (intro allI impI)
    fix j assume j: "j < task_count ?b"
    show "case after_at ?b j of
        None \<Rightarrow> \<forall>k<j. key_at ?b k = key_at ?b j \<longrightarrow> ended_at ?b k
      | Some i \<Rightarrow> i < j \<and> key_at ?b i = key_at ?b j \<and> (\<forall>k. i < k \<and> k < j \<longrightarrow> key_at ?b k \<noteq> key_at ?b j)"
      using b j chained_None [OF ok(1), of j] chained_Some [OF ok(1), of j] by (auto split: option.split)
  qed
  moreover have "behind_ended ?b" using b ok(2) by (auto simp: behind_ended_def)
  moreover have "phases_rise ?b" using b ok(3) by (auto simp: phases_rise_def)
  ultimately show ?thesis using b True by (simp add: order_ok_def)
qed (use assms in \<open>simp add: drain_cancelled_def\<close>)

lemma order_ok_drain:
  assumes "order_ok ks a"
  shows "order_ok ks (start_aggregator c a)" "order_ok ks (begin_drain a)" "order_ok ks (end_drain a)"
proof -
  show "order_ok ks (start_aggregator c a)"
    using assms same_tasks_order [of "start_aggregator c a" a]
    by (simp add: order_ok_def start_aggregator_def)
  show "order_ok ks (begin_drain a)"
    using assms same_tasks_order [of "begin_drain a" a] by (simp add: order_ok_def begin_drain_def)
  show "order_ok ks (end_drain a)"
    using assms same_tasks_order [of "end_drain a" a] by (simp add: order_ok_def end_drain_def)
qed

section \<open>Runs\<close>

definition keys_of :: "(json \<Rightarrow> int option) \<Rightarrow> line_event list \<Rightarrow> correlation_key set" where
  "keys_of as_int es = (\<Union>e\<in>set es. event_keys as_int e)"

lemma finite_keys [simp]: "finite (keys_of as_int es)"
  by (auto simp: keys_of_def event_keys_def split: line_event.split option.split)

lemma order_ok_flow:
  assumes "order_ok ks (al_aggregator l)" "finite ks" "card ks \<le> 2048" "event_keys as_int e \<subseteq> ks"
    "flow word digest as_int e l = (l', m)"
  shows "order_ok ks (al_aggregator l')"
proof (cases e)
  case (RuntimeComes m)
  then show ?thesis using assms order_ok_event [OF assms(1-3), of as_int m] by auto
next
  case (PhaseGoes i returned now)
  then show ?thesis using assms(5) phase_goes_moves order_ok_moves [OF assms(1)] by simp
next
  case (CallGoes i returned)
  then show ?thesis using assms(1,5) by (auto split: if_splits prod.splits dest!: recording_goes_aggregator)
qed (use assms order_ok_drain [OF assms(1)] order_ok_cancelled [OF assms(1)] in \<open>auto split: if_splits\<close>)

lemma order_ok_run:
  assumes "line_run word digest as_int (new_line s p rr) es ms l" "card ks \<le> 2048" "finite ks" "keys_of as_int es \<subseteq> ks"
  shows "order_ok ks (al_aggregator l)"
  using assms(1,4)
proof (induction rule: line_run.induct)
  case run_starts
  show ?case
    by (simp add: new_line_def new_aggregator_def order_ok_def chained_def behind_ended_def phases_rise_def
        none_cancelled_def tails_ok_def marks_ok_def)
next
  case (run_flows es ms l e l' m)
  have "order_ok ks (al_aggregator l)" "event_keys as_int e \<subseteq> ks" using run_flows by (auto simp: keys_of_def)
  then show ?case using order_ok_flow [OF _ assms(3,2) _ run_flows(2)] by blast
qed simp

section \<open>Every task ends\<close>

definition rank_at :: "aggregator \<Rightarrow> nat \<Rightarrow> nat" where
  "rank_at a i =
     (case stage_at a i of
        PhaseAfter \<Rightarrow> 4
      | PhaseGets \<Rightarrow> 3
      | PhaseRecords rec \<Rightarrow> (case rec of RecAppends d before \<Rightarrow> 2 | _ \<Rightarrow> 1)
      | PhaseDone c \<Rightarrow> 0)"

lemma rank_ended: "rank_at a i = 0 \<longleftrightarrow> ended_at a i"
  by (auto simp: rank_at_def ended_at_def split: phase_stage.split recording.split)

lemma moves_keep_ended: "task_moves a b \<Longrightarrow> ended_at a k \<Longrightarrow> ended_at b k \<and> stage_at b k = stage_at a k"
  by (induction rule: task_moves.induct) (auto simp: ended_at_def)

lemma moves_keep_count: "task_moves a b \<Longrightarrow> task_count b = task_count a"
  by (induction rule: task_moves.induct) auto

lemma rank_recording:
  assumes "i < task_count a"
  shows "rank_at (recording_stage i rec a) i = (case rec of RecAppends d b \<Rightarrow> 2 | RecEmits r \<Rightarrow> 1 | RecDone x \<Rightarrow> 0)"
  using assms by (simp add: recording_stage_def rank_at_def split: recording.split)

lemma recording_advances:
  assumes "recording_goes returned rec l = (l', rec', m)"
  shows "case rec of RecAppends d b \<Rightarrow> \<not> (\<exists>d b. rec' = RecAppends d b) | _ \<Rightarrow> \<exists>x. rec' = RecDone x"
  using assms
  by (auto simp: recording_goes_def commit_recording_def
      split: recording.splits prod.splits sum.splits if_splits option.splits)

text \<open>A turn of a task whose predecessor has ended brings it nearer to its end.\<close>

lemma turn_advances:
  assumes "phase_goes word digest i returned now l = (l', m)" "i < task_count (al_aggregator l)"
    "\<not> ended_at (al_aggregator l) i" "\<forall>j. after_at (al_aggregator l) i = Some j \<longrightarrow> ended_at (al_aggregator l) j"
  shows "rank_at (al_aggregator l') i < rank_at (al_aggregator l) i"
proof -
  let ?a = "al_aggregator l"
  note i = assms(2)
  have zero: "rank_at (end_phase i c ?a) i = 0" for c using i by (simp add: rank_at_def)
  have pos: "0 < rank_at ?a i" using rank_ended assms(3) by auto
  show ?thesis
  proof (cases "cancelled_at ?a i")
    case True
    then have "al_aggregator l' = end_phase i True ?a"
      using assms(1,3) i by (auto simp: phase_goes_def Let_def ended_at_def stage_at_def cancelled_at_def split: phase_stage.splits)
    then show ?thesis using zero pos by simp
  next
    case live: False
    show ?thesis
    proof (cases "stage_at ?a i")
      case PhaseAfter
      have "al_aggregator l' = end_phase i True ?a \<or> al_aggregator l' = set_phase_stage i PhaseGets ?a"
        using assms(1,4) i live PhaseAfter
        by (auto simp: phase_goes_def Let_def at_defs ended_at_def split: option.splits phase_stage.splits if_splits)
      moreover have "rank_at ?a i = 4" "rank_at (set_phase_stage i PhaseGets ?a) i = 3" using i PhaseAfter by (simp_all add: rank_at_def)
      ultimately show ?thesis using zero by auto
    next
      case PhaseGets
      have three: "rank_at ?a i = 3" using PhaseGets by (simp add: rank_at_def)
      have "al_aggregator l' = end_phase i False ?a \<or> (\<exists>rec. al_aggregator l' = recording_stage i rec ?a)"
        using assms(1) i live PhaseGets
        by (auto simp: phase_goes_def Let_def stage_at_def cancelled_at_def split: option.splits)
      then show ?thesis using zero three rank_recording [OF i] by (auto split: recording.split)
    next
      case (PhaseRecords rec)
      obtain l1 rec' m' where g: "recording_goes returned rec l = (l1, rec', m')" by (cases "recording_goes returned rec l") auto
      have "al_aggregator l' = recording_stage i rec' ?a"
        using assms(1) i live PhaseRecords g by (auto simp: phase_goes_def Let_def stage_at_def cancelled_at_def)
      moreover have "rank_at ?a i = (case rec of RecAppends d b \<Rightarrow> 2 | _ \<Rightarrow> 1)" using PhaseRecords by (simp add: rank_at_def)
      ultimately show ?thesis using recording_advances [OF g] rank_recording [OF i, of rec'] by (auto split: recording.splits)
    qed (use assms(3) in \<open>simp add: ended_at_def\<close>)
  qed
qed

definition flows ::
    "(nat \<Rightarrow> bool) \<Rightarrow> (string \<Rightarrow> string) \<Rightarrow> (json \<Rightarrow> int option) \<Rightarrow> line_event list \<Rightarrow> activity_line \<Rightarrow> activity_line" where
  "flows word digest as_int es l = foldl (\<lambda>l e. fst (flow word digest as_int e l)) l es"

lemma turns_end_task:
  assumes "order_ok ks (al_aggregator l)" "i < task_count (al_aggregator l)" "\<forall>j<i. ended_at (al_aggregator l) j"
    "rank_at (al_aggregator l) i \<le> length ts" "l' = flows word digest as_int (map (\<lambda>(returned, now). PhaseGoes i returned now) ts) l"
  shows "order_ok ks (al_aggregator l') \<and> task_count (al_aggregator l') = task_count (al_aggregator l) \<and>
    (\<forall>j\<le>i. ended_at (al_aggregator l') j)"
  using assms
proof (induction ts arbitrary: l)
  case Nil
  then show ?case using rank_ended by (auto simp: flows_def le_less)
next
  case (Cons t ts)
  obtain returned now where t: "t = (returned, now)" by (cases t)
  obtain l1 m where g: "phase_goes word digest i returned now l = (l1, m)" by (cases "phase_goes word digest i returned now l")
  note moves = phase_goes_moves [OF g]
  have l': "l' = flows word digest as_int (map (\<lambda>(returned, now). PhaseGoes i returned now) ts) l1"
    using Cons.prems(5) by (simp add: flows_def t g)
  have after: "\<forall>j. after_at (al_aggregator l) i = Some j \<longrightarrow> ended_at (al_aggregator l) j"
    using Cons.prems(1-3) chained_Some [of "al_aggregator l" i] by (auto simp: order_ok_def)
  have "rank_at (al_aggregator l1) i \<le> length ts"
  proof (cases "ended_at (al_aggregator l) i")
    case True
    then show ?thesis using moves_keep_ended [OF moves True] rank_ended [of "al_aggregator l1" i] by simp
  next
    case False
    then show ?thesis using turn_advances [OF g Cons.prems(2) False after] Cons.prems(4) by simp
  qed
  from Cons.IH [OF order_ok_moves [OF Cons.prems(1) moves] _ _ this l']
  show ?case using moves_keep_count [OF moves] moves_keep_ended [OF moves] Cons.prems(2,3) by auto
qed

text \<open>Four turns for each task, in the order of their creation, end them all.\<close>

fun round_of :: "nat \<Rightarrow> (nat \<Rightarrow> (bool \<times> int) list) \<Rightarrow> line_event list" where
  "round_of 0 ts = []"
| "round_of (Suc n) ts = round_of n ts @ map (\<lambda>(returned, now). PhaseGoes n returned now) (ts n)"

lemma round_ends_all:
  assumes "order_ok ks (al_aggregator l)" "n \<le> task_count (al_aggregator l)" "\<forall>i. length (ts i) = 4"
    "l' = flows word digest as_int (round_of n ts) l"
  shows "order_ok ks (al_aggregator l') \<and> task_count (al_aggregator l') = task_count (al_aggregator l) \<and>
    (\<forall>j<n. ended_at (al_aggregator l') j)"
  using assms(2,4)
proof (induction n arbitrary: l')
  case 0
  then show ?case using assms(1) by (simp add: flows_def)
next
  case (Suc n)
  define l1 where "l1 = flows word digest as_int (round_of n ts) l"
  have l1: "order_ok ks (al_aggregator l1)" "task_count (al_aggregator l1) = task_count (al_aggregator l)"
    "\<forall>j<n. ended_at (al_aggregator l1) j" using Suc.IH [OF _ l1_def] Suc.prems(1) by auto
  have "l' = flows word digest as_int (map (\<lambda>(returned, now). PhaseGoes n returned now) (ts n)) l1"
    using Suc.prems(2) by (simp add: flows_def l1_def)
  moreover have "rank_at (al_aggregator l1) n \<le> length (ts n)"
    using assms(3) by (simp add: rank_at_def split: phase_stage.split recording.split)
  ultimately show ?case using turns_end_task [OF l1(1) _ l1(3)] l1(2) Suc.prems(1) by (auto simp: less_Suc_eq_le)
qed

end
