(* ===== verification/Activity_Properties.thy ===== *)
theory Activity_Properties
  imports Activity_Line Activity_Order
begin

text \<open>
  The properties of the line from the runtime and the commands to the public: what it lets out and what it leaves
  alone, and the order of the phases of a correlation.
\<close>

section \<open>What becomes public\<close>

text \<open>
  C37. Whatever the payloads of commands hold and however the calls and the work on the journal interleave,
  everything that is emitted is the projection of a record whose intent and label come from the fixed
  vocabulary; the director accepts it as that record unless its mission identifier is no slug.  Nothing is
  emitted unless the recorder is enabled, and recording touches nothing of the journal but its feed.
\<close>

theorem public_activity_safe:
  assumes reach: "journal_reachable n s" and run: "line_run word digest as_int (new_line s p rr) es ms l"
  shows "(\<forall>v\<in>set ms. \<exists>r. v = dump_projection (project_activity r) \<and> public_payload (ad_payload r) \<and>
      validate_projection v =
        (if public_mission_ok (ad_mission_id r) then Inr (input_of_record r) else Inl InvalidActivity)) \<and>
    (ms \<noteq> [] \<longrightarrow> rr_enabled rr \<and> rr_has_publisher rr) \<and>
    (\<forall>e l' m. flow word digest as_int e l = (l', m) \<longrightarrow>
       feed_only (al_journal l) (al_journal l') \<and> (\<not> rr_enabled rr \<longrightarrow> al_journal l' = al_journal l))"
proof -
  have ok: "line_ok n l" "al_recorder l = rr" "\<And>v. v \<in> set ms \<Longrightarrow> emitted_ok v \<and> rr_enabled rr \<and> rr_has_publisher rr"
    using line_run_ok [OF run reach] by blast+
  have "\<exists>r. v = dump_projection (project_activity r) \<and> public_payload (ad_payload r) \<and>
      validate_projection v = (if public_mission_ok (ad_mission_id r) then Inr (input_of_record r) else Inl InvalidActivity)"
    if "v \<in> set ms" for v
    using ok(3) [OF that] validate_record public_label_ok by (auto simp: emitted_ok_def)
  moreover have "ms \<noteq> [] \<longrightarrow> rr_enabled rr \<and> rr_has_publisher rr" using ok(3) by (cases ms) auto
  ultimately show ?thesis using feed_only_flow disabled_flow [OF ok(1)] ok(2) by blast
qed

definition example_recorder :: activity_recorder where
  "example_recorder = \<lparr>rr_enabled = True, rr_has_publisher = True, rr_retention_ms = None\<rparr>"

definition example_public_command :: journal_command where
  "example_public_command =
     example_a\<lparr>cd_payload := [(''goal'', JObj [(''intent'', JStr ''acquire''), (''target'', JStr ''secret'')])]\<rparr>"

definition example_public_draft :: activity_draft where
  "example_public_draft = recorded_draft (\<lambda>c. False) example_public_command ''k'' Planning OActive None 40"

lemma example_a_fields: "cd_command_id example_a = ''a''" "cd_caller_scope example_a = ''owner''"
  by code_simp+

lemma example_recording:
  "begin_recording (\<lambda>c. False) example_recorder example_public_command ''k'' Planning OActive None 40 =
     RecAppends example_public_draft None"
  by (simp add: begin_recording_def Let_def example_public_draft_def example_public_command_def example_recorder_def
      json_get_def is_object_def activity_draft_ok_def activity_payload_ok_def recorded_draft_def command_mission_def
      example_a_fields)

lemma example_feed_empty: "js_activity_by_source example_running = []" "js_activities example_running = []"
  by code_simp+

lemma example_appends: "\<exists>s1 r. append_activity example_running example_public_draft None = (s1, Inr (r, False))"
proof -
  have "get_command example_running ''a'' = Some (transitioned example_a RUNNING 20 None)" by (rule example_get)
  moreover have "cd_caller_scope (transitioned example_a RUNNING 20 None) = ''owner''" by code_simp
  ultimately show ?thesis
    by (simp add: append_activity_def get_command_def example_feed_empty example_public_draft_def recorded_draft_def
        example_public_command_def example_a_fields retain_recent_activity_def Let_def)
qed

theorem public_activity_safe_witness:
  "\<exists>es ms l. line_run (\<lambda>c. False) id (\<lambda>v. None) (new_line example_running (new_publisher 10) example_recorder) es ms l \<and>
     length ms = 2 \<and> (\<forall>v\<in>set ms. \<exists>r. v = dump_projection (project_activity r) \<and> public_payload (ad_payload r))"
proof -
  obtain s1 r where app: "append_activity example_running example_public_draft None = (s1, Inr (r, False))"
    using example_appends by blast
  have rr: "rr_has_publisher example_recorder" "rr_retention_ms example_recorder = None" by (simp_all add: example_recorder_def)
  have "begin_publish r (new_publisher 10) = Some (dump_projection (project_activity r))"
    by (simp add: begin_publish_def new_publisher_def Let_def)
  from publisher_emits_twice [OF example_reachable(3) rr example_recording app this]
  obtain es l v where run:
    "line_run (\<lambda>c. False) id (\<lambda>v. None) (new_line example_running (new_publisher 10) example_recorder) es [v, v] l" by blast
  show ?thesis
    using run public_activity_safe [OF example_reachable(3) run] by (intro exI [of _ es] exI [of _ "[v, v]"] exI [of _ l]) auto
qed

section \<open>The order of phases\<close>

text \<open>
  C38. As long as the runtime reports on no more than 2048 correlations, the tasks of a correlation have rising phase
  numbers, and a task looks up its command and records only after all earlier ones of its correlation have ended;
  and four turns for each task, whatever the emissions do, end them all, so that a drain ends.
\<close>

theorem phases_recorded_in_order:
  assumes run: "line_run word digest as_int (new_line s p rr) es ms l" and few: "card (keys_of as_int es) \<le> 2048"
    and a: "a = al_aggregator l"
  shows "(\<forall>j<length (ag_tasks a). \<forall>i<j. key_at a i = key_at a j \<longrightarrow>
      phase_at a i < phase_at a j \<and> (stage_at a j \<noteq> PhaseAfter \<and> stage_at a j \<noteq> PhaseDone True \<longrightarrow> ended_at a i)) \<and>
    (\<forall>ts. (\<forall>i. length (ts i) = 4) \<longrightarrow>
       (\<forall>j<length (ag_tasks a).
          ended_at (al_aggregator (flows word digest as_int (round_of (length (ag_tasks a)) ts) l)) j))"
proof -
  have ok: "order_ok (keys_of as_int es) a" unfolding a using order_ok_run [OF run few] by simp
  then have "phase_at a i < phase_at a j" "stage_at a j \<noteq> PhaseAfter \<and> stage_at a j \<noteq> PhaseDone True \<longrightarrow> ended_at a i"
    if "j < length (ag_tasks a)" "i < j" "key_at a i = key_at a j" for i j
    using that behind_endedD [of a j i] by (simp_all add: order_ok_def phases_rise_def)
  then show ?thesis using round_ends_all [OF ok [unfolded a]] a by blast
qed

text \<open>In particular, of at most 2048 events.\<close>

lemma keys_at_most: "card (keys_of as_int es) \<le> length es"
proof (induction es)
  case Nil
  show ?case by (simp add: keys_of_def)
next
  case (Cons e es)
  have "card (event_keys as_int e) \<le> 1" by (simp add: event_keys_def split: line_event.split option.split)
  moreover have "keys_of as_int (e # es) = event_keys as_int e \<union> keys_of as_int es" by (simp add: keys_of_def)
  ultimately show ?case using card_Un_le [of "event_keys as_int e" "keys_of as_int es"] Cons by simp
qed

definition example_phase :: "int \<Rightarrow> string \<Rightarrow> json_obj" where
  "example_phase n phase =
     [(''type'', JStr ''action_phase''), (''schema_version'', JStr ''1''), (''runtime_instance_id'', JStr ''rt''),
      (''correlation_id'', JStr ''c''), (''command_id'', JStr ''a''), (''step_id'', JStr ''s''), (''capability'', JStr ''mine''),
      (''phase_sequence'', JInt n), (''phase'', JStr phase), (''occurred_at_ms'', JInt 5), (''presentation_mode'', JStr ''full'')]"

definition plain_int :: "json \<Rightarrow> int option" where
  "plain_int v = (case v of JInt n \<Rightarrow> Some n | _ \<Rightarrow> None)"

definition example_tasks :: aggregator where
  "example_tasks =
     on_runtime_event plain_int (example_phase 2 ''acting'') (on_runtime_event plain_int (example_phase 1 ''moving'') new_aggregator)"

lemma example_phases:
  "task_count example_tasks = 2" "key_at example_tasks 0 = key_at example_tasks 1"
  "phase_event_of plain_int (example_phase 1 ''moving'') \<noteq> None"
  by code_simp+

theorem phases_recorded_in_order_witness:
  "\<exists>es ms l. line_run (\<lambda>c. False) id plain_int (new_line example_running (new_publisher 10) example_recorder) es ms l \<and>
     al_aggregator l = example_tasks \<and> phase_at example_tasks 0 < phase_at example_tasks 1"
proof -
  let ?start = "new_line example_running (new_publisher 10) example_recorder"
  let ?es = "[RuntimeComes (example_phase 1 ''moving''), RuntimeComes (example_phase 2 ''acting'')]"
  let ?l = "?start\<lparr>al_aggregator := example_tasks\<rparr>"
  have first: "flow (\<lambda>c. False) id plain_int (RuntimeComes (example_phase 1 ''moving'')) ?start =
      (?start\<lparr>al_aggregator := on_runtime_event plain_int (example_phase 1 ''moving'') new_aggregator\<rparr>, None)"
    by (simp add: new_line_def)
  have second: "flow (\<lambda>c. False) id plain_int (RuntimeComes (example_phase 2 ''acting''))
      (?start\<lparr>al_aggregator := on_runtime_event plain_int (example_phase 1 ''moving'') new_aggregator\<rparr>) = (?l, None)"
    by (simp add: example_tasks_def new_line_def)
  from run_flows [OF run_flows [OF run_starts first] second]
  have run: "line_run (\<lambda>c. False) id plain_int ?start ?es [] ?l" by simp
  have "card (keys_of plain_int ?es) \<le> 2048" using keys_at_most [of plain_int ?es] by simp
  from phases_recorded_in_order [OF run this refl] have "phase_at example_tasks 0 < phase_at example_tasks 1"
    using example_phases(1,2) by (auto simp: numeral_2_eq_2)
  then show ?thesis using run by (intro exI [of _ ?es] exI [of _ "[]"] exI [of _ ?l]) simp
qed

end
