(* ===== verification/Exploration.thy ===== *)
theory Exploration
  imports Admission
begin

text \<open>
  Bounded exploration, \<open>tools/minecraft/discovery/exploration.py\<close>, and the adaptive policy that
  feeds it, \<open>tools/minecraft/mission/adaptive.py\<close>.  A proposer orders the seeds of one committed
  observation by their value and turns the fresh ones into proposals, at most as many as its bounds
  allow; the first is the one for admission.  The canonical hashes of a JSON value (\<open>digest\<close>) and of a
  goal (\<open>goal_hash\<close>) are arguments.
\<close>

section \<open>Models\<close>

datatype exploration_source =
    SrcMissionGap | SrcTechnologyFrontier | SrcNewFact | SrcSkillGap | SrcUnvisitedFrontier
  | SrcRecoveryPrerequisite

datatype exploration_outcome =
  CandidatesReady | NoveltySpent | ObservationAlreadyConsumed | WaitingCommittedObservation

fun rationale_by_source :: "exploration_source \<Rightarrow> rationale" where
  "rationale_by_source SrcMissionGap = MissionGap"
| "rationale_by_source SrcTechnologyFrontier = TechnologyFrontier"
| "rationale_by_source SrcNewFact = DiscoveryGap"
| "rationale_by_source SrcSkillGap = SkillGap"
| "rationale_by_source SrcUnvisitedFrontier = UnvisitedFrontier"
| "rationale_by_source SrcRecoveryPrerequisite = RecoveryPrerequisite"

record exploration_bounds =
  xb_max_candidates :: int
  xb_min_expected_value :: rat

definition exploration_bounds_ok :: "exploration_bounds \<Rightarrow> bool" where
  "exploration_bounds_ok b \<longleftrightarrow>
     1 \<le> xb_max_candidates b \<and> xb_max_candidates b \<le> 16 \<and>
     0 \<le> xb_min_expected_value b \<and> xb_min_expected_value b \<le> 1"

record exploration_seed =
  es_source :: exploration_source
  es_signal_id :: string
  es_goal :: goal_spec
  es_evidence_refs :: "string list"
  es_conservative_cost :: budget_usage
  es_expected_value :: rat

definition exploration_seed_ok :: "exploration_seed \<Rightarrow> bool" where
  "exploration_seed_ok s \<longleftrightarrow>
     slug 127 (es_signal_id s) \<and> goal_spec_valid (es_goal s) \<and> budget_usage_valid (es_conservative_cost s) \<and>
     0 \<le> es_expected_value s \<and> es_expected_value s \<le> 1"

record exploration_input =
  xi_mission_id :: string
  xi_observation_ref :: string
  xi_observation_committed :: bool
  xi_mission_gaps :: "exploration_seed list"
  xi_technology_frontier :: "exploration_seed list"
  xi_new_facts :: "exploration_seed list"
  xi_skill_gaps :: "exploration_seed list"
  xi_unvisited_frontier :: "exploration_seed list"
  xi_recovery_prerequisites :: "exploration_seed list"
  xi_proposed_goal_hashes :: "string set"
  xi_consumed_observation_refs :: "string set"

definition exploration_seeds :: "exploration_input \<Rightarrow> exploration_seed list" where
  "exploration_seeds i =
     xi_mission_gaps i @ xi_technology_frontier i @ xi_new_facts i @ xi_skill_gaps i @
     xi_unvisited_frontier i @ xi_recovery_prerequisites i"

definition exploration_input_ok :: "exploration_input \<Rightarrow> bool" where
  "exploration_input_ok i \<longleftrightarrow>
     slug 127 (xi_mission_id i) \<and> 1 \<le> length (xi_observation_ref i) \<and> length (xi_observation_ref i) \<le> 256 \<and>
     list_all exploration_seed_ok (exploration_seeds i)"

record exploration_decision =
  xd_outcome :: exploration_outcome
  xd_observation_ref :: string
  xd_candidates :: "goal_proposal list"
  xd_proposal :: "goal_proposal option"
  xd_rejected_counts :: "(string, int) dict"

section \<open>Proposals\<close>

definition proposal_id_of ::
  "(json \<Rightarrow> string) \<Rightarrow> (goal_spec \<Rightarrow> string) \<Rightarrow> exploration_input \<Rightarrow> exploration_seed \<Rightarrow> string" where
  "proposal_id_of digest goal_hash i s =
     ''auto-'' @ take 24 (digest (JObj
       [(''mission_id'', JStr (xi_mission_id i)), (''observation_ref'', JStr (xi_observation_ref i)),
        (''signal_id'', JStr (es_signal_id s)), (''goal_hash'', JStr (goal_hash (es_goal s)))]))"

text \<open>\<open>dict.fromkeys\<close> keeps the first of equal references.\<close>

definition evidence_refs_of :: "exploration_input \<Rightarrow> exploration_seed \<Rightarrow> string list" where
  "evidence_refs_of i s = rev (remdups (rev (xi_observation_ref i # es_evidence_refs s)))"

definition goal_proposal_ok :: "goal_proposal \<Rightarrow> bool" where
  "goal_proposal_ok p \<longleftrightarrow>
     slug 127 (gp_proposal_id p) \<and> slug 127 (gp_mission_id p) \<and>
     (case gp_parent_objective_id p of None \<Rightarrow> True | Some q \<Rightarrow> slug 63 q) \<and>
     goal_spec_valid (gp_goal p) \<and> budget_usage_valid (gp_conservative_cost p) \<and>
     0 \<le> gp_expected_value p \<and> gp_expected_value p \<le> 1"

definition proposal_fields ::
  "(json \<Rightarrow> string) \<Rightarrow> (goal_spec \<Rightarrow> string) \<Rightarrow> exploration_input \<Rightarrow> exploration_seed \<Rightarrow> goal_proposal" where
  "proposal_fields digest goal_hash i s =
     \<lparr>gp_proposal_id = proposal_id_of digest goal_hash i s, gp_mission_id = xi_mission_id i,
      gp_origin = (if es_source s = SrcRecoveryPrerequisite then FromRecovery else FromCurriculum),
      gp_parent_objective_id = None, gp_goal = es_goal s, gp_rationale = rationale_by_source (es_source s),
      gp_evidence_refs = evidence_refs_of i s, gp_conservative_cost = es_conservative_cost s,
      gp_expected_value = es_expected_value s\<rparr>"

text \<open>The seeds with the largest value first, equal ones in their order.\<close>

definition ordered_seeds :: "exploration_seed list \<Rightarrow> exploration_seed list" where
  "ordered_seeds seeds = sort_key (\<lambda>s. - es_expected_value s) seeds"

definition empty_counts :: "(string, int) dict" where
  "empty_counts = [(''duplicate'', 0), (''below_value'', 0), (''over_count'', 0)]"

text \<open>The loop over the ordered seeds; \<open>None\<close> is the error of a proposal that fails its validation.\<close>

fun propose_loop ::
  "(json \<Rightarrow> string) \<Rightarrow> (goal_spec \<Rightarrow> string) \<Rightarrow> exploration_bounds \<Rightarrow> exploration_input \<Rightarrow>
   exploration_seed list \<Rightarrow> (string, int) dict \<Rightarrow> string set \<Rightarrow> goal_proposal list \<Rightarrow>
   ((string, int) dict \<times> goal_proposal list) option" where
  "propose_loop digest goal_hash b i [] counts seen proposals = Some (counts, proposals)"
| "propose_loop digest goal_hash b i (s # ss) counts seen proposals =
     (if es_expected_value s < xb_min_expected_value b then
        propose_loop digest goal_hash b i ss (dict_add ''below_value'' 1 counts) seen proposals
      else if goal_hash (es_goal s) \<in> seen then
        propose_loop digest goal_hash b i ss (dict_add ''duplicate'' 1 counts) seen proposals
      else
        (let seen' = insert (goal_hash (es_goal s)) seen; p = proposal_fields digest goal_hash i s in
         if xb_max_candidates b \<le> int (length proposals) then
           propose_loop digest goal_hash b i ss (dict_add ''over_count'' 1 counts) seen' proposals
         else if \<not> goal_proposal_ok p then None
         else propose_loop digest goal_hash b i ss counts seen' (proposals @ [p])))"

definition no_candidates ::
  "exploration_outcome \<Rightarrow> exploration_input \<Rightarrow> (string, int) dict \<Rightarrow> exploration_decision" where
  "no_candidates outcome i counts =
     \<lparr>xd_outcome = outcome, xd_observation_ref = xi_observation_ref i, xd_candidates = [],
      xd_proposal = None, xd_rejected_counts = counts\<rparr>"

definition propose ::
  "(json \<Rightarrow> string) \<Rightarrow> (goal_spec \<Rightarrow> string) \<Rightarrow> exploration_bounds \<Rightarrow> exploration_input \<Rightarrow>
   exploration_decision option" where
  "propose digest goal_hash b i =
     (if \<not> xi_observation_committed i then Some (no_candidates WaitingCommittedObservation i empty_counts)
      else if xi_observation_ref i \<in> xi_consumed_observation_refs i
      then Some (no_candidates ObservationAlreadyConsumed i empty_counts)
      else
        (case propose_loop digest goal_hash b i (ordered_seeds (exploration_seeds i)) empty_counts
                (xi_proposed_goal_hashes i) [] of
           None \<Rightarrow> None
         | Some (counts, []) \<Rightarrow> Some (no_candidates NoveltySpent i counts)
         | Some (counts, p # ps) \<Rightarrow>
             Some \<lparr>xd_outcome = CandidatesReady, xd_observation_ref = xi_observation_ref i,
                   xd_candidates = p # ps, xd_proposal = Some p, xd_rejected_counts = counts\<rparr>))"

section \<open>The adaptive policy\<close>

datatype adaptive_phase = PhaseExplore | PhaseLearnValidate | PhaseReuse

fun adaptive_phase_name :: "adaptive_phase \<Rightarrow> string" where
  "adaptive_phase_name PhaseExplore = ''explore''"
| "adaptive_phase_name PhaseLearnValidate = ''learn_validate''"
| "adaptive_phase_name PhaseReuse = ''reuse''"

record exploration_frontier =
  xf_x :: rat
  xf_y :: rat
  xf_z :: rat
  xf_target_block :: string
  xf_target_item :: string

definition exploration_frontier_ok :: "exploration_frontier \<Rightarrow> bool" where
  "exploration_frontier_ok f \<longleftrightarrow> item_name (xf_target_block f) \<and> item_name (xf_target_item f)"

record adaptive_state =
  as_mission_id :: string
  as_observation_ref :: string
  as_observed_fact_keys :: "string set"
  as_acquired_fact_ids :: "string set"
  as_trusted_revision_hashes :: "string set"
  as_inventory :: "(string, int) dict"
  as_completed_phases :: "adaptive_phase set"

record adaptive_decision =
  ad_exploration :: "exploration_input option"
  ad_ready_for_verification :: bool
  ad_novelty_exhausted :: bool

definition usage_of :: "int \<Rightarrow> int \<Rightarrow> int \<Rightarrow> budget_usage" where
  "usage_of actions attempts blocks =
     empty_usage\<lparr>bu_max_actions := actions, bu_max_strategy_attempts := attempts,
       bu_max_travel_distance := 64, bu_max_blocks_changed := blocks\<rparr>"

definition adaptive_input ::
  "adaptive_state \<Rightarrow> exploration_seed list \<Rightarrow> exploration_seed list \<Rightarrow> exploration_seed list \<Rightarrow> exploration_input" where
  "adaptive_input st facts gaps frontier =
     \<lparr>xi_mission_id = as_mission_id st, xi_observation_ref = as_observation_ref st,
      xi_observation_committed = True, xi_mission_gaps = [], xi_technology_frontier = [],
      xi_new_facts = facts, xi_skill_gaps = gaps, xi_unvisited_frontier = frontier,
      xi_recovery_prerequisites = [], xi_proposed_goal_hashes = {}, xi_consumed_observation_refs = {}\<rparr>"

definition travel_seed :: "exploration_frontier \<Rightarrow> exploration_seed" where
  "travel_seed f =
     \<lparr>es_source = SrcUnvisitedFrontier, es_signal_id = ''adaptive-hidden-resource-frontier'',
      es_goal =
        \<lparr>gs_intent = Travel, gs_target = ''unvisited resource frontier'', gs_quantity = 1,
         gs_constraints = [(''adaptive_phase'', JStr ''explore'')],
         gs_success_predicates = [LocationReached (xf_x f) (xf_y f) (xf_z f) 3],
         gs_discovery_kind = None\<rparr>,
      es_evidence_refs = [], es_conservative_cost = usage_of 1 1 0, es_expected_value = 9 / 10\<rparr>"

definition acquire_goal :: "exploration_frontier \<Rightarrow> int \<Rightarrow> adaptive_phase \<Rightarrow> goal_spec" where
  "acquire_goal f quantity phase =
     \<lparr>gs_intent = Acquire, gs_target = xf_target_item f, gs_quantity = quantity,
      gs_constraints = [(''adaptive_phase'', JStr (adaptive_phase_name phase)), (''source_block'', JStr (xf_target_block f))],
      gs_success_predicates = [InventoryAtLeast (xf_target_item f) quantity], gs_discovery_kind = None\<rparr>"

definition learning_seed :: "exploration_frontier \<Rightarrow> exploration_seed" where
  "learning_seed f =
     \<lparr>es_source = SrcNewFact, es_signal_id = ''adaptive-new-resource-acquisition'',
      es_goal = acquire_goal f 1 PhaseLearnValidate, es_evidence_refs = [],
      es_conservative_cost = usage_of 2 2 2, es_expected_value = 19 / 20\<rparr>"

definition reuse_quantity :: "exploration_frontier \<Rightarrow> adaptive_state \<Rightarrow> int" where
  "reuse_quantity f st = max 1 (dict_get_default (as_inventory st) (xf_target_item f) 0) + 1"

definition reuse_seed :: "exploration_frontier \<Rightarrow> adaptive_state \<Rightarrow> exploration_seed" where
  "reuse_seed f st =
     \<lparr>es_source = SrcSkillGap, es_signal_id = ''adaptive-trusted-skill-reuse'',
      es_goal = acquire_goal f (reuse_quantity f st) PhaseReuse, es_evidence_refs = [],
      es_conservative_cost = usage_of 1 1 1, es_expected_value = 1\<rparr>"

definition explore_with :: "exploration_input \<Rightarrow> adaptive_decision" where
  "explore_with i = \<lparr>ad_exploration = Some i, ad_ready_for_verification = False, ad_novelty_exhausted = False\<rparr>"

definition novelty_exhausted :: adaptive_decision where
  "novelty_exhausted = \<lparr>ad_exploration = None, ad_ready_for_verification = False, ad_novelty_exhausted = True\<rparr>"

text \<open>Building a goal validates it; \<open>None\<close> is its error.\<close>

definition decide :: "exploration_frontier \<Rightarrow> adaptive_state \<Rightarrow> adaptive_decision option" where
  "decide f st =
     (if PhaseReuse \<in> as_completed_phases st
      then Some \<lparr>ad_exploration = None, ad_ready_for_verification = True, ad_novelty_exhausted = False\<rparr>
      else if ''block:'' @ xf_target_block f \<notin> as_observed_fact_keys st then
        (if PhaseExplore \<in> as_completed_phases st then Some novelty_exhausted
         else if goal_spec_valid (es_goal (travel_seed f))
         then Some (explore_with (adaptive_input st [] [] [travel_seed f])) else None)
      else if PhaseLearnValidate \<notin> as_completed_phases st then
        (if goal_spec_valid (es_goal (learning_seed f))
         then Some (explore_with (adaptive_input st [learning_seed f] [] [])) else None)
      else if as_trusted_revision_hashes st = {} \<or> as_acquired_fact_ids st = {} then Some novelty_exhausted
      else if goal_spec_valid (es_goal (reuse_seed f st))
      then Some (explore_with (adaptive_input st [] [reuse_seed f st] [])) else None)"

end
