(* ===== verification/Exploration_Properties.thy ===== *)
theory Exploration_Properties
  imports Exploration
begin

text \<open>
  What the proposer of explorations and the adaptive policy guarantee: the loop keeps the seeds it
  chooses fresh, distinct, ordered and few, and accounts for every other seed.
\<close>

section \<open>The loop\<close>


definition count_key_list :: "string list" where
  "count_key_list = [''duplicate'', ''below_value'', ''over_count'']"


lemma count_keys_simps [simp]:
  "''duplicate'' \<in> set count_key_list" "''below_value'' \<in> set count_key_list" "''over_count'' \<in> set count_key_list"
  by (simp_all add: count_key_list_def)





section \<open>Proposals of valid inputs\<close>



lemma ordered_seeds_set [simp]: "set (ordered_seeds ss) = set ss" "length (ordered_seeds ss) = length ss"
  by (simp_all add: ordered_seeds_def)




section \<open>The proposer\<close>










section \<open>The adaptive policy\<close>











end
