(* ===== verification/Rebalance.thy ===== *)
theory Rebalance
  imports Admission
begin

text \<open>
  Two pure decisions about a mission.  The validation of a rebalance proposal,
  \<open>tools/minecraft/mission/replan.py\<close>: what a retry of a failed objective may change in its budget.
  The verification of completion, \<open>tools/minecraft/mission/verifier.py\<close>: whether objectives and evidence
  satisfy a mission.  The digests of observation and vision only feed the planner and are left out
  of the request.
\<close>

section \<open>Rebalancing\<close>

datatype budget_dimension = MaxActions | MaxStrategyAttempts | MaxTravelDistance | MaxBlocksChanged | MaxDamageTaken

fun usage_dimension :: "budget_dimension \<Rightarrow> budget_usage \<Rightarrow> rat" where
  "usage_dimension MaxActions u = of_int (bu_max_actions u)"
| "usage_dimension MaxStrategyAttempts u = of_int (bu_max_strategy_attempts u)"
| "usage_dimension MaxTravelDistance u = bu_max_travel_distance u"
| "usage_dimension MaxBlocksChanged u = of_int (bu_max_blocks_changed u)"
| "usage_dimension MaxDamageTaken u = bu_max_damage_taken u"

definition budget_dimensions :: "budget_dimension list" where
  "budget_dimensions = [MaxActions, MaxStrategyAttempts, MaxTravelDistance, MaxBlocksChanged, MaxDamageTaken]"

record rebalance_request =
  rq_mission_id :: string
  rq_failed_objective :: mission_objective
  rq_remaining_objectives :: "mission_objective list"
  rq_receipt_usage :: budget_usage
  rq_failure_reason_code :: string
  rq_rebalances_used :: int
  rq_rebalances_allowed :: int
  rq_remaining_budget :: "budget_usage option"

record rebalance_proposal =
  rp_rationale :: string
  rp_new_budget :: budget_usage
  rp_navigation_timeout_ms :: "int option"

definition rebalance_proposal_ok :: "rebalance_proposal \<Rightarrow> bool" where
  "rebalance_proposal_ok p \<longleftrightarrow>
     length (rp_rationale p) \<le> 1200 \<and> budget_usage_valid (rp_new_budget p) \<and>
     (case rp_navigation_timeout_ms p of None \<Rightarrow> True | Some t \<Rightarrow> 15000 \<le> t \<and> t \<le> 120000)"

datatype rebalance_error =
    ExceedsHeadroom budget_dimension
  | DeadlineNeedsTimeout
  | DeadlineGrows budget_dimension
  | NothingExhausted
  | GrowsNonExhausted budget_dimension
  | GrowsNoExhausted

definition exhausted_dimensions :: "rebalance_request \<Rightarrow> budget_dimension list" where
  "exhausted_dimensions q =
     filter (\<lambda>d. 0 < usage_dimension d (ob_budget (rq_failed_objective q)) \<and>
                usage_dimension d (ob_budget (rq_failed_objective q)) * (95 / 100)
                  \<le> usage_dimension d (rq_receipt_usage q))
       [MaxActions, MaxTravelDistance, MaxBlocksChanged, MaxDamageTaken]"

text \<open>The three loops over the dimensions; each raises at the first dimension that fails.\<close>

fun validate_affordable :: "budget_dimension list \<Rightarrow> budget_usage \<Rightarrow> budget_usage \<Rightarrow> rebalance_error + unit" where
  "validate_affordable [] new_budget headroom = Inr ()"
| "validate_affordable (d # ds) new_budget headroom =
     (if usage_dimension d headroom \<le> 0 then validate_affordable ds new_budget headroom
      else if usage_dimension d headroom < usage_dimension d new_budget then Inl (ExceedsHeadroom d)
      else validate_affordable ds new_budget headroom)"

fun deadline_loop :: "budget_dimension list \<Rightarrow> budget_usage \<Rightarrow> budget_usage \<Rightarrow> rebalance_error + unit" where
  "deadline_loop [] new_budget old_budget = Inr ()"
| "deadline_loop (d # ds) new_budget old_budget =
     (if usage_dimension d old_budget < usage_dimension d new_budget then Inl (DeadlineGrows d)
      else deadline_loop ds new_budget old_budget)"

definition validate_deadline_extension :: "rebalance_proposal \<Rightarrow> rebalance_request \<Rightarrow> rebalance_error + unit" where
  "validate_deadline_extension p q =
     (if rp_navigation_timeout_ms p = None then Inl DeadlineNeedsTimeout
      else deadline_loop budget_dimensions (rp_new_budget p) (ob_budget (rq_failed_objective q)))"

fun dimensions_loop ::
  "budget_dimension list \<Rightarrow> budget_dimension list \<Rightarrow> budget_usage \<Rightarrow> budget_usage \<Rightarrow> bool \<Rightarrow> rebalance_error + bool" where
  "dimensions_loop exhausted [] new_budget old_budget grew = Inr grew"
| "dimensions_loop exhausted (d # ds) new_budget old_budget grew =
     (if d \<notin> set exhausted \<and> usage_dimension d old_budget < usage_dimension d new_budget
      then Inl (GrowsNonExhausted d)
      else dimensions_loop exhausted ds new_budget old_budget
             (grew \<or> d \<in> set exhausted \<and> usage_dimension d old_budget < usage_dimension d new_budget))"

definition validate_dimensions ::
  "budget_usage \<Rightarrow> budget_usage \<Rightarrow> rebalance_request \<Rightarrow> rebalance_error + unit" where
  "validate_dimensions new_budget old_budget q =
     (if exhausted_dimensions q = [] then Inl NothingExhausted
      else
        (case dimensions_loop (exhausted_dimensions q) budget_dimensions new_budget old_budget False of
           Inl e \<Rightarrow> Inl e
         | Inr grew \<Rightarrow> if grew then Inr () else Inl GrowsNoExhausted))"

definition validate_rebalance :: "rebalance_proposal \<Rightarrow> rebalance_request \<Rightarrow> rebalance_error + budget_usage" where
  "validate_rebalance p q =
     (case (if exhausted_dimensions q \<noteq> []
            then validate_dimensions (rp_new_budget p) (ob_budget (rq_failed_objective q)) q
            else validate_deadline_extension p q) of
        Inl e \<Rightarrow> Inl e
      | Inr _ \<Rightarrow>
          (case rq_remaining_budget q of
             None \<Rightarrow> Inr (rp_new_budget p)
           | Some left \<Rightarrow>
               (case validate_affordable budget_dimensions (rp_new_budget p) left of
                  Inl e \<Rightarrow> Inl e | Inr _ \<Rightarrow> Inr (rp_new_budget p))))"

section \<open>Verification of completion\<close>

record mission_evidence =
  me_acquired_world_fact_ids :: "string set"
  me_trusted_skill_revision_hashes :: "string set"
  me_vanilla_advancement_ids :: "string set"
  me_technology_evidence_ids :: "string set"

record mission_verification =
  mv_satisfied :: bool
  mv_objective_results :: "(string, bool) dict"
  mv_completion_predicates :: "(string, bool) dict"
  mv_evidence_hash :: string
  mv_technology_evidence_count :: int

fun predicate_kind :: "completion_predicate \<Rightarrow> string" where
  "predicate_kind (NovelFactsAcquiredAtLeast n) = ''novel_facts_acquired_at_least''"
| "predicate_kind (TrustedSkillsCreatedAtLeast n) = ''trusted_skills_created_at_least''"
| "predicate_kind (VanillaAdvancementsAddedAtLeast n) = ''vanilla_advancements_added_at_least''"

fun predicate_satisfied :: "mission_evidence \<Rightarrow> completion_predicate \<Rightarrow> bool" where
  "predicate_satisfied e (NovelFactsAcquiredAtLeast n) = (n \<le> int (card (me_acquired_world_fact_ids e)))"
| "predicate_satisfied e (TrustedSkillsCreatedAtLeast n) = (n \<le> int (card (me_trusted_skill_revision_hashes e)))"
| "predicate_satisfied e (VanillaAdvancementsAddedAtLeast n) = (n \<le> int (card (me_vanilla_advancement_ids e)))"

definition normalized_objectives :: "mission_spec \<Rightarrow> (string, bool) dict \<Rightarrow> (string, bool) dict" where
  "normalized_objectives spec results =
     foldl (\<lambda>d ob. dict_set (ob_objective_id ob) (dict_get_default results (ob_objective_id ob) False) d) []
       (ms_objectives spec)"

text \<open>The results of the predicates are keyed by kind: a later one replaces an earlier one of its kind.\<close>

definition predicate_results :: "mission_spec \<Rightarrow> mission_evidence \<Rightarrow> (string, bool) dict" where
  "predicate_results spec e =
     foldl (\<lambda>d p. dict_set (predicate_kind p) (predicate_satisfied e p) d) [] (ms_completion_predicates spec)"

text \<open>The hash of the evidence payload is an argument.\<close>

definition verify_mission ::
  "(mission_spec \<Rightarrow> (string, bool) dict \<Rightarrow> (string, bool) dict \<Rightarrow> mission_evidence \<Rightarrow> string) \<Rightarrow> mission_spec \<Rightarrow>
   (string, bool) dict \<Rightarrow> mission_evidence \<Rightarrow> mission_verification" where
  "verify_mission evidence_hash spec results e =
     (let objectives = normalized_objectives spec results; predicates = predicate_results spec e in
      \<lparr>mv_satisfied =
         list_all (\<lambda>ob. ob_required ob \<longrightarrow> dict_get_default objectives (ob_objective_id ob) False)
           (ms_objectives spec) \<and>
         list_all id (dict_values predicates),
       mv_objective_results = objectives, mv_completion_predicates = predicates,
       mv_evidence_hash = evidence_hash spec objectives predicates e,
       mv_technology_evidence_count = int (card (me_technology_evidence_ids e))\<rparr>)"

section \<open>What a validated rebalance changes\<close>

lemma validate_affordable_iff:
  "validate_affordable ds new left = Inr () \<longleftrightarrow>
     (\<forall>d\<in>set ds. 0 < usage_dimension d left \<longrightarrow> usage_dimension d new \<le> usage_dimension d left)"
  by (induction ds) auto

lemma deadline_loop_iff:
  "deadline_loop ds new old = Inr () \<longleftrightarrow> (\<forall>d\<in>set ds. usage_dimension d new \<le> usage_dimension d old)"
  by (induction ds) auto

lemma dimensions_loop_iff:
  "dimensions_loop ex ds new old g = Inr grew \<longleftrightarrow>
     (\<forall>d\<in>set ds. d \<in> set ex \<or> usage_dimension d new \<le> usage_dimension d old) \<and>
     (grew \<longleftrightarrow> g \<or> (\<exists>d\<in>set ds. d \<in> set ex \<and> usage_dimension d old < usage_dimension d new))"
  by (induction ds arbitrary: g) auto

lemma budget_dimensions_all: "set budget_dimensions = UNIV"
proof -
  have "d \<in> set budget_dimensions" for d by (cases d) (simp_all add: budget_dimensions_def)
  then show ?thesis by blast
qed

lemma sum_unit_iff: "(x :: 'e + unit) = Inr u \<longleftrightarrow> x = Inr ()"
  by simp

lemma validate_rebalance_iff:
  "validate_rebalance p q = Inr b \<longleftrightarrow>
     b = rp_new_budget p \<and>
     (if exhausted_dimensions q = []
      then rp_navigation_timeout_ms p \<noteq> None \<and>
        (\<forall>d. usage_dimension d b \<le> usage_dimension d (ob_budget (rq_failed_objective q)))
      else (\<forall>d. d \<in> set (exhausted_dimensions q) \<or> usage_dimension d b \<le> usage_dimension d (ob_budget (rq_failed_objective q))) \<and>
        (\<exists>d\<in>set (exhausted_dimensions q). usage_dimension d (ob_budget (rq_failed_objective q)) < usage_dimension d b)) \<and>
     (\<forall>left d. rq_remaining_budget q = Some left \<longrightarrow> 0 < usage_dimension d left \<longrightarrow>
        usage_dimension d b \<le> usage_dimension d left)"
proof -
  have a: "validate_affordable budget_dimensions new left = Inr () \<longleftrightarrow>
      (\<forall>d. 0 < usage_dimension d left \<longrightarrow> usage_dimension d new \<le> usage_dimension d left)" for new left
    by (simp add: validate_affordable_iff budget_dimensions_all)
  have d: "deadline_loop budget_dimensions new old = Inr () \<longleftrightarrow> (\<forall>d. usage_dimension d new \<le> usage_dimension d old)" for new old
    by (simp add: deadline_loop_iff budget_dimensions_all)
  have g: "validate_dimensions new old q = Inr () \<longleftrightarrow>
      (\<forall>d. d \<in> set (exhausted_dimensions q) \<or> usage_dimension d new \<le> usage_dimension d old) \<and>
      (\<exists>d\<in>set (exhausted_dimensions q). usage_dimension d old < usage_dimension d new)" for new old
  proof (cases "exhausted_dimensions q = []")
    case False
    have "validate_dimensions new old q = Inr () \<longleftrightarrow>
        dimensions_loop (exhausted_dimensions q) budget_dimensions new old False = Inr True"
      using False by (simp add: validate_dimensions_def split: sum.splits)
    then show ?thesis by (simp add: dimensions_loop_iff budget_dimensions_all) blast
  qed (simp add: validate_dimensions_def)
  have v: "validate_rebalance p q = Inr b \<longleftrightarrow> b = rp_new_budget p \<and>
      (if exhausted_dimensions q = [] then validate_deadline_extension p q = Inr ()
       else validate_dimensions (rp_new_budget p) (ob_budget (rq_failed_objective q)) q = Inr ()) \<and>
      (\<forall>left. rq_remaining_budget q = Some left \<longrightarrow> validate_affordable budget_dimensions (rp_new_budget p) left = Inr ())"
    by (auto simp: validate_rebalance_def split: sum.splits option.splits)
  show ?thesis unfolding v a g by (auto simp: validate_deadline_extension_def d)
qed

lemma exhausted_dimensions_limited:
  "d \<in> set (exhausted_dimensions q) \<Longrightarrow> d \<noteq> MaxStrategyAttempts \<and> 0 < usage_dimension d (ob_budget (rq_failed_objective q))"
  unfolding exhausted_dimensions_def set_filter by fastforce

text \<open>
  A dimension without headroom is skipped, so a budget that the account cannot hold passes; the
  resources of the new budget are not looked at.
\<close>

lemma unaffordable_rebalance_accepted:
  assumes "rq_remaining_budget q = Some empty_usage"
    and "exhausted_dimensions q \<noteq> []"
    and "\<forall>d. d \<in> set (exhausted_dimensions q) \<or> usage_dimension d (rp_new_budget p) \<le> usage_dimension d (ob_budget (rq_failed_objective q))"
    and "\<exists>d\<in>set (exhausted_dimensions q). usage_dimension d (ob_budget (rq_failed_objective q)) < usage_dimension d (rp_new_budget p)"
  shows "validate_rebalance p q = Inr (rp_new_budget p)"
proof -
  have "usage_dimension d empty_usage = 0" for d by (cases d) (simp_all add: empty_usage_def)
  with assms show ?thesis by (simp add: validate_rebalance_iff)
qed

section \<open>What verification means\<close>

lemma foldl_dict_set_get:
  "dict_get (foldl (\<lambda>d x. dict_set (k x) (v x) d) d0 xs) key =
     (case filter (\<lambda>x. k x = key) xs of [] \<Rightarrow> dict_get d0 key | ys \<Rightarrow> Some (v (last (filter (\<lambda>x. k x = key) xs))))"
  by (induction xs arbitrary: d0) (auto simp: dict_simps split: list.splits)

lemma foldl_dict_set_keys:
  "distinct (dict_keys d0) \<Longrightarrow> distinct (dict_keys (foldl (\<lambda>d x. dict_set (k x) (v x) d) d0 xs))"
  by (induction xs arbitrary: d0) (auto simp: distinct_keys_set)

text \<open>The last predicate of each kind decides.\<close>

definition deciding_predicates :: "completion_predicate list \<Rightarrow> completion_predicate set" where
  "deciding_predicates ps =
     {last (filter (\<lambda>p. predicate_kind p = kind) ps) | kind. filter (\<lambda>p. predicate_kind p = kind) ps \<noteq> []}"

lemma verify_mission_iff:
  "mv_satisfied (verify_mission h spec results e) \<longleftrightarrow>
     (\<forall>ob\<in>set (ms_objectives spec). ob_required ob \<longrightarrow> dict_get results (ob_objective_id ob) = Some True) \<and>
     (\<forall>p\<in>deciding_predicates (ms_completion_predicates spec). predicate_satisfied e p)"
proof -
  have obs: "dict_get (normalized_objectives spec results) (ob_objective_id ob) =
      Some (dict_get_default results (ob_objective_id ob) False)" if "ob \<in> set (ms_objectives spec)" for ob
  proof -
    let ?f = "filter (\<lambda>x. ob_objective_id x = ob_objective_id ob) (ms_objectives spec)"
    have "ob \<in> set ?f" using that by simp
    then obtain y ys where f: "?f = y # ys" by (cases ?f) auto
    then have "last ?f \<in> set ?f" by (metis last_in_set list.distinct(1))
    then have "ob_objective_id (last ?f) = ob_objective_id ob" by simp
    then show ?thesis unfolding normalized_objectives_def foldl_dict_set_get f by simp
  qed
  have get: "dict_get (predicate_results spec e) kind =
      (if filter (\<lambda>p. predicate_kind p = kind) (ms_completion_predicates spec) = [] then None
       else Some (predicate_satisfied e (last (filter (\<lambda>p. predicate_kind p = kind) (ms_completion_predicates spec)))))" for kind
    unfolding predicate_results_def foldl_dict_set_get by (simp split: list.split)
  have "distinct (dict_keys (predicate_results spec e))"
    unfolding predicate_results_def by (rule foldl_dict_set_keys) simp
  then have "list_all id (dict_values (predicate_results spec e)) \<longleftrightarrow>
      (\<forall>kind b. dict_get (predicate_results spec e) kind = Some b \<longrightarrow> b)"
    by (force simp: list_all_iff dict_values_get)
  also have "\<dots> \<longleftrightarrow> (\<forall>p\<in>deciding_predicates (ms_completion_predicates spec). predicate_satisfied e p)"
    unfolding get deciding_predicates_def by (simp del: filter_empty_conv) blast
  finally show ?thesis
    by (auto simp: verify_mission_def Let_def list_all_iff obs dict_get_default_def split: option.splits)
qed

text \<open>A stricter predicate is forgotten when a weaker one of its kind follows it.\<close>

lemma stricter_predicate_forgotten:
  "ms_completion_predicates spec = [NovelFactsAcquiredAtLeast 10, NovelFactsAcquiredAtLeast 1] \<Longrightarrow>
   mv_satisfied (verify_mission h spec (map (\<lambda>ob. (ob_objective_id ob, True)) (ms_objectives spec))
     \<lparr>me_acquired_world_fact_ids = {''f''}, me_trusted_skill_revision_hashes = {}, me_vanilla_advancement_ids = {},
      me_technology_evidence_ids = {}\<rparr>)"
proof -
  assume a: "ms_completion_predicates spec = [NovelFactsAcquiredAtLeast 10, NovelFactsAcquiredAtLeast 1]"
  have "dict_get (map (\<lambda>ob. (ob_objective_id ob, True)) obs) (ob_objective_id ob) = Some True" if "ob \<in> set obs" for ob obs
    using that by (induction obs) auto
  then show ?thesis using a by (auto simp: verify_mission_iff deciding_predicates_def split: if_splits)
qed

end
