(* ===== verification/Mission_Coordinator.thy ===== *)
theory Mission_Coordinator
  imports Exploration Rebalance Mission_Repository Journal_Control
begin

text \<open>
  The coordinator of missions, \<open>tools/minecraft/mission/coordinator.py\<close>, over the in-memory repository
  and the in-memory journal.  Neither suspends, so every method is one step, but for
  \<open>request_rebalance\<close>, which waits for its planner and is cut there in two.  A method returns the world
  it leaves behind together with its result or the exception it raises; what was written before an
  exception stays.  Hashes, and the JSON forms that the models dump, are the record \<open>codec\<close>.
\<close>

section \<open>The world of a coordinator\<close>

record codec =
  co_digest :: "json \<Rightarrow> string"
  co_goal_hash :: "goal_spec \<Rightarrow> string"
  co_spec_hash :: "mission_spec \<Rightarrow> string"
  co_evidence_hash :: "mission_spec \<Rightarrow> (string, bool) dict \<Rightarrow> (string, bool) dict \<Rightarrow> mission_evidence \<Rightarrow> string"
  co_goal_json :: "goal_spec \<Rightarrow> json"
  co_policy_json :: "execution_policy \<Rightarrow> json"
  co_usage_json :: "budget_usage \<Rightarrow> json_obj"
  co_budget_json :: "execution_budget \<Rightarrow> json_obj"
  co_proposal_json :: "goal_proposal \<Rightarrow> json"

record mission_world =
  wd_repository :: repository
  wd_journal :: journal_state

datatype coord_error =
    FromRepository repo_error
  | FromJournal jerror
  | FromBudget budget_error
  | ModelValidation
  | CoordValueError string
  | CoroutineRaisedStop

type_synonym 'a coord = "mission_world \<Rightarrow> mission_world \<times> (coord_error + 'a)"

definition returning :: "'a \<Rightarrow> 'a coord" where
  "returning x w = (w, Inr x)"

definition raising :: "coord_error \<Rightarrow> 'a coord" where
  "raising e w = (w, Inl e)"

definition and_then :: "'a coord \<Rightarrow> ('a \<Rightarrow> 'b coord) \<Rightarrow> 'b coord" where
  "and_then m f w = (case m w of (w', Inl e) \<Rightarrow> (w', Inl e) | (w', Inr x) \<Rightarrow> f x w')"

definition on_repository :: "(repository \<Rightarrow> repository \<times> (repo_error + 'a)) \<Rightarrow> 'a coord" where
  "on_repository f w =
     (case f (wd_repository w) of
        (r, Inl e) \<Rightarrow> (w\<lparr>wd_repository := r\<rparr>, Inl (FromRepository e))
      | (r, Inr x) \<Rightarrow> (w\<lparr>wd_repository := r\<rparr>, Inr x))"

definition on_journal :: "(journal_state \<Rightarrow> journal_state \<times> (jerror + 'a)) \<Rightarrow> 'a coord" where
  "on_journal f w =
     (case f (wd_journal w) of
        (s, Inl e) \<Rightarrow> (w\<lparr>wd_journal := s\<rparr>, Inl (FromJournal e))
      | (s, Inr x) \<Rightarrow> (w\<lparr>wd_journal := s\<rparr>, Inr x))"

definition with_budget :: "budget_error + 'a \<Rightarrow> ('a \<Rightarrow> 'b coord) \<Rightarrow> 'b coord" where
  "with_budget x f = (case x of Inl e \<Rightarrow> raising (FromBudget e) | Inr a \<Rightarrow> f a)"

definition with_snapshot :: "string \<Rightarrow> (mission_snapshot \<Rightarrow> 'a coord) \<Rightarrow> 'a coord" where
  "with_snapshot mid f w =
     (case mission_snapshot_of (wd_repository w) mid of
        Inl e \<Rightarrow> (w, Inl (FromRepository e)) | Inr sn \<Rightarrow> f sn w)"

section \<open>Results and helpers\<close>

record advance_result =
  ma_mission_id :: string
  ma_status :: mission_status
  ma_reused :: bool
  ma_objective :: "string option"
  ma_command :: "string option"
  ma_exploration :: "string option"
  ma_proposal_id :: "string option"
  ma_admission :: "admission_outcome option"
  ma_evidence_hash :: "string option"

definition plain_result :: "string \<Rightarrow> mission_status \<Rightarrow> advance_result" where
  "plain_result mid st =
     \<lparr>ma_mission_id = mid, ma_status = st, ma_reused = False, ma_objective = None, ma_command = None,
      ma_exploration = None, ma_proposal_id = None, ma_admission = None, ma_evidence_hash = None\<rparr>"

definition coordinator_actor :: string where
  "coordinator_actor = ''mission-coordinator''"

definition terminal_mission :: "mission_status \<Rightarrow> bool" where
  "terminal_mission st \<longleftrightarrow> st = MCompleted \<or> st = MFailed \<or> st = MCancelled \<or> st = MBlockedUnknown"

definition active_objective :: "mission_snapshot \<Rightarrow> objective_record option" where
  "active_objective sn = List.find (\<lambda>x. or_status x = OActiveState) (sn_objectives sn)"

definition completed_ids :: "mission_snapshot \<Rightarrow> string set" where
  "completed_ids sn =
     set (map (\<lambda>x. ob_objective_id (or_objective x)) (filter (\<lambda>x. or_status x = OCompleted) (sn_objectives sn)))"

text \<open>The first command identifier, from the latest transition backwards, among those of an objective.\<close>

fun first_command :: "string \<Rightarrow> mission_transition list \<Rightarrow> string option" where
  "first_command oid [] = None"
| "first_command oid (t # ts) =
     (if td_objective_id t = Some oid then
        (case dict_get (td_details t) ''command_id'' of
           Some (JStr cid) \<Rightarrow> Some cid | _ \<Rightarrow> first_command oid ts)
      else first_command oid ts)"

definition linked_command :: "mission_transition list \<Rightarrow> objective_record option \<Rightarrow> string option" where
  "linked_command ts ob =
     (case ob of None \<Rightarrow> None | Some x \<Rightarrow> first_command (ob_objective_id (or_objective x)) (rev ts))"

definition budget_field_names :: "string list" where
  "budget_field_names =
     [''max_actions'', ''max_strategy_attempts'', ''max_travel_distance'', ''max_blocks_changed'',
      ''max_damage_taken'', ''resource_consumption'']"

definition effective_budget_json :: "codec \<Rightarrow> objective_record \<Rightarrow> mission_spec \<Rightarrow> json_obj" where
  "effective_budget_json co ob spec =
     foldl (\<lambda>d f. case dict_get (co_usage_json co (ob_budget (or_objective ob))) f of
                    None \<Rightarrow> d | Some v \<Rightarrow> dict_set f v d)
       (co_budget_json co (ms_budget spec)) budget_field_names"

definition objective_reservation :: "string \<Rightarrow> string" where
  "objective_reservation oid = ''objective:'' @ oid"

definition initial_budget_account :: "mission_spec \<Rightarrow> budget_error + budget_account" where
  "initial_budget_account spec =
     reserve_all (new_account (ms_budget spec))
       (map (\<lambda>ob. (objective_reservation (ob_objective_id ob), ob_budget ob)) (ms_objectives spec))"

definition snapshot_budget :: "mission_snapshot \<Rightarrow> budget_error + budget_account" where
  "snapshot_budget sn =
     (case sn_budget sn of Some b \<Rightarrow> Inr b | None \<Rightarrow> initial_budget_account (mr_spec (sn_mission sn)))"

section \<open>Advancing\<close>

definition objective_payload :: "codec \<Rightarrow> string \<Rightarrow> mission_spec \<Rightarrow> objective_record \<Rightarrow> json_obj" where
  "objective_payload co mid spec ob =
     [(''mission_id'', JStr mid), (''objective_id'', JStr (ob_objective_id (or_objective ob))),
      (''goal'', co_goal_json co (ob_goal (or_objective ob))),
      (''execution_policy'', co_policy_json co (ms_execution spec))]"

definition objective_command_id :: "string \<Rightarrow> string \<Rightarrow> int \<Rightarrow> string" where
  "objective_command_id mid oid version =
     ''mission-'' @ mid @ ''-'' @ oid @ ''-v'' @ str_of_int version"

definition objective_request_id :: "string \<Rightarrow> string \<Rightarrow> int \<Rightarrow> string" where
  "objective_request_id mid oid version = mid @ '':'' @ oid @ '':v'' @ str_of_int version"

definition objective_draft :: "codec \<Rightarrow> string \<Rightarrow> string \<Rightarrow> mission_spec \<Rightarrow> objective_record \<Rightarrow> int \<Rightarrow> command_draft" where
  "objective_draft co mid scope spec ob occ =
     (let oid = ob_objective_id (or_objective ob); payload = objective_payload co mid spec ob in
      \<lparr>cd_command_id = objective_command_id mid oid (or_version ob + 1), cd_caller_scope = scope,
       cd_request_id = objective_request_id mid oid (or_version ob + 1),
       cd_request_hash = co_digest co (JObj payload), cd_kind = ''execute'', cd_mode = Some ''mission'',
       cd_payload = payload, cd_requested_budget = co_usage_json co (ob_budget (or_objective ob)),
       cd_effective_budget = effective_budget_json co ob spec, cd_accepted_at_ms = occ,
       cd_queue_deadline_ms = Some (occ + eb_queue_timeout_ms (ms_budget spec)),
       cd_execution_deadline_ms = Some (occ + eb_execution_timeout_ms (ms_budget spec))\<rparr>)"

definition ready_objectives :: "mission_snapshot \<Rightarrow> objective_record list" where
  "ready_objectives sn =
     filter (\<lambda>x. or_status x = OPending \<and> set (ob_dependencies (or_objective x)) \<subseteq> completed_ids sn)
       (sn_objectives sn)"

definition required_complete :: "mission_snapshot \<Rightarrow> bool" where
  "required_complete sn \<longleftrightarrow>
     list_all (\<lambda>x. \<not> ob_required (or_objective x) \<or> or_status x = OCompleted) (sn_objectives sn)"

definition command_detail :: "string \<Rightarrow> json_obj" where
  "command_detail cid = [(''command_id'', JStr cid)]"

text \<open>Nothing is ready: the mission may have nothing left but its evidence.\<close>

definition advance_idle :: "string \<Rightarrow> mission_snapshot \<Rightarrow> int \<Rightarrow> advance_result coord" where
  "advance_idle mid sn occ =
     (let target = (if ms_completion_predicates (mr_spec (sn_mission sn)) \<noteq> [] then MWaitingEvidence else MCompleted) in
      if required_complete sn \<and> mr_status (sn_mission sn) \<noteq> target then
        and_then
          (on_repository (\<lambda>r. transition_mission r mid (mr_version (sn_mission sn)) target
             (if target = MWaitingEvidence then ''MISSION_PREDICATES_PENDING'' else ''MISSION_VERIFIED_COMPLETE'')
             coordinator_actor occ [] []))
          (\<lambda>m. returning (plain_result mid (mr_status m)))
      else returning (plain_result mid (mr_status (sn_mission sn))))"

definition dispatch_objective ::
  "codec \<Rightarrow> string \<Rightarrow> string \<Rightarrow> mission_snapshot \<Rightarrow> objective_record \<Rightarrow> int \<Rightarrow> advance_result coord" where
  "dispatch_objective co mid scope sn ob occ =
     (let m = sn_mission sn; oid = ob_objective_id (or_objective ob);
          d = objective_draft co mid scope (mr_spec m) ob occ in
      if \<not> command_draft_ok d then raising ModelValidation
      else
        and_then (on_journal (\<lambda>s. create_command s d)) (\<lambda>(c, _).
        and_then
          (on_repository (\<lambda>r. transition_objective r mid oid (or_version ob) OActiveState ''LEAF_COMMAND_ELIGIBLE''
             coordinator_actor occ (command_detail (cd_command_id c)) [])) (\<lambda>_.
        and_then
          (if mr_status m = MPlanning \<or> mr_status m = MWaitingEvidence
           then on_repository (\<lambda>r. transition_mission r mid (mr_version m) MRunning ''LEAF_COMMAND_ELIGIBLE''
                  coordinator_actor occ (command_detail (cd_command_id c)) [])
           else returning m) (\<lambda>m'.
        returning ((plain_result mid (mr_status m'))
          \<lparr>ma_objective := Some oid, ma_command := Some (cd_command_id c)\<rparr>)))))"

definition advance_mission :: "codec \<Rightarrow> string \<Rightarrow> string \<Rightarrow> int \<Rightarrow> advance_result coord" where
  "advance_mission co mid scope occ =
     with_snapshot mid (\<lambda>sn.
       case active_objective sn of
         Some x \<Rightarrow>
           returning ((plain_result mid (mr_status (sn_mission sn)))
             \<lparr>ma_objective := Some (ob_objective_id (or_objective x)),
               ma_command := linked_command (sn_transitions sn) (Some x)\<rparr>)
       | None \<Rightarrow>
           (case min_by (\<lambda>x. (- ob_priority (or_objective x), or_ordinal x)) (ready_objectives sn) of
              None \<Rightarrow> advance_idle mid sn occ
            | Some ob \<Rightarrow> dispatch_objective co mid scope sn ob occ))"

section \<open>Submission and exploration\<close>

definition submit_mission :: "codec \<Rightarrow> string \<Rightarrow> string \<Rightarrow> mission_spec \<Rightarrow> int \<Rightarrow> advance_result coord" where
  "submit_mission co scope rid spec occ =
     and_then (on_repository (\<lambda>r. create_mission (co_spec_hash co) r scope rid spec occ)) (\<lambda>(m, reused).
       if reused then
         with_snapshot (ms_mission_id spec) (\<lambda>sn.
           returning ((plain_result (ms_mission_id spec) (mr_status (sn_mission sn)))
             \<lparr>ma_reused := True,
               ma_objective := map_option (\<lambda>x. ob_objective_id (or_objective x)) (active_objective sn),
               ma_command := linked_command (sn_transitions sn) (active_objective sn)\<rparr>))
       else
         with_budget (initial_budget_account spec) (\<lambda>account.
         and_then (on_repository (\<lambda>r. save_mission_budget r (ms_mission_id spec) account)) (\<lambda>_.
         and_then
           (on_repository (\<lambda>r. transition_mission r (ms_mission_id spec) (mr_version m) MPlanning ''MISSION_ADMITTED''
              coordinator_actor occ [] [])) (\<lambda>m'.
         advance_mission co (ms_mission_id (mr_spec m')) scope occ))))"

definition is_observation_ref :: "string \<Rightarrow> bool" where
  "is_observation_ref ref \<longleftrightarrow> prefix ''observation:'' ref"

definition known_exploration :: "codec \<Rightarrow> mission_snapshot \<Rightarrow> exploration_input \<Rightarrow> exploration_input" where
  "known_exploration co sn i =
     i\<lparr>xi_proposed_goal_hashes :=
         xi_proposed_goal_hashes i \<union> set (map (\<lambda>x. co_goal_hash co (gp_goal (sp_proposal x))) (sn_proposals sn)),
       xi_consumed_observation_refs :=
         xi_consumed_observation_refs i \<union>
         set (filter is_observation_ref (concat (map (\<lambda>x. gp_evidence_refs (sp_proposal x)) (sn_proposals sn))))\<rparr>"

definition accepted_records :: "mission_snapshot \<Rightarrow> stored_proposal list" where
  "accepted_records sn = filter (\<lambda>x. de_outcome (sp_decision x) = Accepted) (sn_proposals sn)"

definition admission_context_of ::
  "codec \<Rightarrow> mission_snapshot \<Rightarrow> (string \<times> mission_risk) list \<Rightarrow> budget_account \<Rightarrow> bool \<Rightarrow> admission_context" where
  "admission_context_of co sn caps budget quarantined =
     \<lparr>cx_mission = mr_spec (sn_mission sn), cx_capabilities = caps, cx_budget_account = budget,
      cx_completed_objective_ids = completed_ids sn,
      cx_seen_proposal_ids = set (map (\<lambda>x. gp_proposal_id (sp_proposal x)) (sn_proposals sn)),
      cx_admitted_goal_hashes = set (map (\<lambda>x. co_goal_hash co (gp_goal (sp_proposal x))) (accepted_records sn)),
      cx_admitted_child_count = int (length (filter (\<lambda>x. autonomous (sp_proposal x)) (accepted_records sn))),
      cx_runtime_quarantined = quarantined\<rparr>"

definition current_result ::
  "string \<Rightarrow> mission_snapshot \<Rightarrow> string option \<Rightarrow> string option \<Rightarrow> admission_outcome option \<Rightarrow> advance_result" where
  "current_result mid sn outcome pid adm =
     (plain_result mid (mr_status (sn_mission sn)))
       \<lparr>ma_objective := map_option (\<lambda>x. ob_objective_id (or_objective x)) (active_objective sn),
         ma_command := linked_command (sn_transitions sn) (active_objective sn),
         ma_exploration := outcome, ma_proposal_id := pid, ma_admission := adm\<rparr>"

definition child_objective :: "codec \<Rightarrow> goal_proposal \<Rightarrow> mission_objective" where
  "child_objective co p =
     \<lparr>ob_objective_id = ''child-'' @ take 24 (co_digest co (co_proposal_json co p)), ob_goal = gp_goal p,
      ob_dependencies = (case gp_parent_objective_id p of None \<Rightarrow> [] | Some q \<Rightarrow> [q]), ob_required = True,
      ob_priority = 40, ob_budget = gp_conservative_cost p\<rparr>"

fun exploration_outcome_value :: "exploration_outcome \<Rightarrow> string" where
  "exploration_outcome_value CandidatesReady = ''CANDIDATES_READY''"
| "exploration_outcome_value NoveltySpent = ''NOVELTY_EXHAUSTED''"
| "exploration_outcome_value ObservationAlreadyConsumed = ''OBSERVATION_ALREADY_CONSUMED''"
| "exploration_outcome_value WaitingCommittedObservation = ''WAITING_COMMITTED_OBSERVATION''"

text \<open>Storing the decision, and the child objective of an accepted proposal; then the mission advances.\<close>

definition admit_child ::
  "codec \<Rightarrow> string \<Rightarrow> mission_snapshot \<Rightarrow> goal_proposal \<Rightarrow> admission_decision \<Rightarrow> admission_context \<Rightarrow> int \<Rightarrow>
   exploration_outcome \<Rightarrow> advance_result coord" where
  "admit_child co mid sn p dn cx occ outcome =
     and_then (on_repository (\<lambda>r. save_proposal r p dn occ)) (\<lambda>_.
     and_then (on_repository (\<lambda>r. save_mission_budget r mid (cx_budget_account cx))) (\<lambda>_.
     if de_outcome dn \<noteq> Accepted
     then returning (current_result mid sn (Some (exploration_outcome_value outcome)) (Some (gp_proposal_id p))
            (Some (de_outcome dn)))
     else if \<not> objective_fields_ok (child_objective co p) then raising ModelValidation
     else
       and_then
         (on_repository (\<lambda>r. append_objective r mid (child_objective co p) ''AUTONOMOUS_PROPOSAL_ADMITTED''
            coordinator_actor occ (gp_evidence_refs p))) (\<lambda>_.
       and_then (advance_mission co mid (mr_caller_scope (sn_mission sn)) occ) (\<lambda>a.
       returning (a\<lparr>ma_exploration := Some (exploration_outcome_value outcome),
                    ma_proposal_id := Some (gp_proposal_id p), ma_admission := Some (de_outcome dn)\<rparr>)))))"

definition consider_exploration ::
  "codec \<Rightarrow> string \<Rightarrow> exploration_input \<Rightarrow> exploration_bounds \<Rightarrow> (string \<times> mission_risk) list \<Rightarrow> int \<Rightarrow> bool \<Rightarrow>
   advance_result coord" where
  "consider_exploration co mid i bounds caps occ quarantined =
     with_snapshot mid (\<lambda>sn.
       if xi_mission_id i \<noteq> mid then raising (CoordValueError ''exploration mission does not match coordinator mission'')
       else if au_mode (ms_autonomy (mr_spec (sn_mission sn))) = Off
       then returning (current_result mid sn (Some ''AUTONOMY_OFF'') None None)
       else if terminal_mission (mr_status (sn_mission sn))
       then returning (current_result mid sn (Some ''MISSION_TERMINAL'') None None)
       else
         (case propose (co_digest co) (co_goal_hash co) bounds (known_exploration co sn i) of
            None \<Rightarrow> raising ModelValidation
          | Some xd \<Rightarrow>
              (case xd_proposal xd of
                 None \<Rightarrow> returning (current_result mid sn (Some (exploration_outcome_value (xd_outcome xd))) None None)
               | Some p \<Rightarrow>
                   with_budget (snapshot_budget sn) (\<lambda>budget.
                   with_budget (admit (co_goal_hash co) p (admission_context_of co sn caps budget quarantined))
                     (\<lambda>(dn, cx). admit_child co mid sn p dn cx occ (xd_outcome xd))))))"

definition advance_from_committed_evidence :: "codec \<Rightarrow> string \<Rightarrow> int \<Rightarrow> advance_result coord" where
  "advance_from_committed_evidence co mid occ =
     with_snapshot mid (\<lambda>sn.
       if terminal_mission (mr_status (sn_mission sn)) then returning (plain_result mid (mr_status (sn_mission sn)))
       else advance_mission co mid (mr_caller_scope (sn_mission sn)) occ)"

section \<open>Completion, stop and recovery\<close>

definition verify_completion :: "codec \<Rightarrow> string \<Rightarrow> mission_evidence \<Rightarrow> int \<Rightarrow> advance_result coord" where
  "verify_completion co mid evidence occ =
     with_snapshot mid (\<lambda>sn.
       let m = sn_mission sn;
           results = foldl (\<lambda>d x. dict_set (ob_objective_id (or_objective x)) (or_status x = OCompleted) d) []
                       (sn_objectives sn);
           v = verify_mission (co_evidence_hash co) (mr_spec m) results evidence in
       if mr_status m = MCompleted then returning (plain_result mid (mr_status m))
       else if \<not> mv_satisfied v
       then returning ((plain_result mid (mr_status m))\<lparr>ma_evidence_hash := Some (mv_evidence_hash v)\<rparr>)
       else if mr_status m \<noteq> MWaitingEvidence
       then raising (CoordValueError ''mission is not waiting for completion evidence'')
       else
         and_then
           (on_repository (\<lambda>r. transition_mission r mid (mr_version m) MCompleted ''MISSION_VERIFIED_COMPLETE''
              ''mission-verifier'' occ [] [''mission-verification:'' @ mv_evidence_hash v])) (\<lambda>m'.
         returning ((plain_result mid (mr_status m'))\<lparr>ma_evidence_hash := Some (mv_evidence_hash v)\<rparr>)))"

definition mission_stop_draft :: "codec \<Rightarrow> string \<Rightarrow> string \<Rightarrow> string \<Rightarrow> string \<Rightarrow> int \<Rightarrow> command_draft" where
  "mission_stop_draft co mid scope rid reason occ =
     (let payload = [(''mission_id'', JStr mid), (''reason'', JStr reason)]; h = co_digest co (JObj payload) in
      \<lparr>cd_command_id = ''mission-'' @ mid @ ''-stop-'' @ take 16 h, cd_caller_scope = scope,
       cd_request_id = rid, cd_request_hash = h, cd_kind = ''stop'', cd_mode = None, cd_payload = payload,
       cd_requested_budget = [], cd_effective_budget = [], cd_accepted_at_ms = occ,
       cd_queue_deadline_ms = None, cd_execution_deadline_ms = None\<rparr>)"

fun cancel_objectives :: "string \<Rightarrow> string \<Rightarrow> int \<Rightarrow> objective_record list \<Rightarrow> unit coord" where
  "cancel_objectives mid reason occ [] = returning ()"
| "cancel_objectives mid reason occ (x # xs) =
     (if or_status x = OPending \<or> or_status x = OActiveState then
        and_then
          (on_repository (\<lambda>r. transition_objective r mid (ob_objective_id (or_objective x)) (or_version x) OCancelledState
             ''MISSION_STOP_BARRIER'' coordinator_actor occ [(''reason'', JStr reason)] []))
          (\<lambda>_. cancel_objectives mid reason occ xs)
      else cancel_objectives mid reason occ xs)"

definition stop_mission :: "codec \<Rightarrow> string \<Rightarrow> string \<Rightarrow> string \<Rightarrow> int \<Rightarrow> advance_result coord" where
  "stop_mission co mid rid reason occ =
     with_snapshot mid (\<lambda>sn.
       let m = sn_mission sn; d = mission_stop_draft co mid (mr_caller_scope m) rid reason occ in
       if terminal_mission (mr_status m) then returning (plain_result mid (mr_status m))
       else if \<not> command_draft_ok d then raising ModelValidation
       else
         and_then (on_journal (\<lambda>s. apply_stop_barrier s d occ)) (\<lambda>_.
         and_then (cancel_objectives mid reason occ (sn_objectives sn)) (\<lambda>_.
         and_then
           (on_repository (\<lambda>r. transition_mission r mid (mr_version m) MCancelled ''MISSION_STOP_BARRIER''
              coordinator_actor occ [(''reason'', JStr reason)] [])) (\<lambda>m'.
         returning (plain_result mid (mr_status m'))))))"

fun command_state_value :: "command_state \<Rightarrow> string" where
  "command_state_value ACCEPTED = ''accepted''"
| "command_state_value QUEUED = ''queued''"
| "command_state_value RUNNING = ''running''"
| "command_state_value RECONCILING = ''reconciling''"
| "command_state_value SUCCEEDED = ''succeeded''"
| "command_state_value SUCCEEDED_RECONCILED = ''succeeded_reconciled''"
| "command_state_value FAILED = ''failed''"
| "command_state_value FAILED_RECONCILED = ''failed_reconciled''"
| "command_state_value CANCELLED = ''cancelled''"
| "command_state_value CANCELLED_RECONCILED = ''cancelled_reconciled''"
| "command_state_value CANCELLED_BY_STOP = ''cancelled_by_stop''"
| "command_state_value INTERRUPTED_BEFORE_START = ''interrupted_before_start''"
| "command_state_value BLOCKED_UNKNOWN = ''blocked_unknown''"

text \<open>\<open>command_id\<close> is looked up unless it is absent or empty.\<close>

definition ambiguous_details :: "journal_state \<Rightarrow> string option \<Rightarrow> json_obj" where
  "ambiguous_details s cid =
     (let command = (case cid of None \<Rightarrow> None | Some c \<Rightarrow> if c = [] then None else get_command s c) in
      [(''command_id'', case cid of None \<Rightarrow> JNull | Some c \<Rightarrow> JStr c),
       (''command_state'', JStr (case command of None \<Rightarrow> ''missing'' | Some c \<Rightarrow> command_state_value (jc_state c)))])"

definition block_mission :: "string \<Rightarrow> mission_snapshot \<Rightarrow> json_obj \<Rightarrow> int \<Rightarrow> advance_result coord" where
  "block_mission mid sn details occ =
     and_then
       (case active_objective sn of
          None \<Rightarrow> returning ()
        | Some x \<Rightarrow>
            and_then
              (on_repository (\<lambda>r. transition_objective r mid (ob_objective_id (or_objective x)) (or_version x)
                 OBlockedUnknown ''STARTUP_CHILD_AMBIGUOUS'' coordinator_actor occ details []))
              (\<lambda>_. returning ()))
       (\<lambda>_.
         and_then
           (on_repository (\<lambda>r. transition_mission r mid (mr_version (sn_mission sn)) MBlockedUnknown
              ''STARTUP_CHILD_AMBIGUOUS'' coordinator_actor occ details []))
           (\<lambda>m. returning (plain_result mid (mr_status m))))"

definition recover_mission :: "string \<Rightarrow> int \<Rightarrow> advance_result coord" where
  "recover_mission mid occ =
     and_then (on_journal (\<lambda>s. recover_startup s occ)) (\<lambda>_.
     with_snapshot mid (\<lambda>sn.
       if terminal_mission (mr_status (sn_mission sn)) then returning (plain_result mid (mr_status (sn_mission sn)))
       else (\<lambda>w. block_mission mid sn
               (ambiguous_details (wd_journal w) (linked_command (sn_transitions sn) (active_objective sn))) occ w)))"

end
