(* ===== verification/Mission_Children.thy ===== *)
theory Mission_Children
  imports Mission_Coordinator
begin

text \<open>
  The coordinator's answer to the end of a child command, \<open>on_child_transition\<close> and
  \<open>request_rebalance\<close> of \<open>tools/minecraft/mission/coordinator.py\<close>.  A rebalance runs up to its planner
  (\<open>begin_rebalance\<close>, which returns what the suspended call has kept) and goes on with the planner's
  answer (\<open>end_rebalance\<close>), with any other work in between.
\<close>

section \<open>The end of a child\<close>

datatype child_verification = ChildVerified | ChildFailed | ChildUnknown

record child_transition =
  vt_mission_id :: string
  vt_objective_id :: string
  vt_command_id :: string
  vt_command_state :: command_state
  vt_verification :: child_verification
  vt_evidence_refs :: "string list"
  vt_actual_budget :: budget_usage
  vt_occurred_at_ms :: int

definition child_transition_ok :: "child_transition \<Rightarrow> bool" where
  "child_transition_ok t \<longleftrightarrow>
     terminal_command_state (vt_command_state t) \<and> vt_evidence_refs t \<noteq> [] \<and>
     budget_usage_valid (vt_actual_budget t) \<and> 0 \<le> vt_occurred_at_ms t"

definition link_payload :: "child_transition \<Rightarrow> string \<Rightarrow> json" where
  "link_payload t ref =
     JObj [(''mission_id'', JStr (vt_mission_id t)), (''objective_id'', JStr (vt_objective_id t)),
           (''command_id'', JStr (vt_command_id t)), (''evidence_ref'', JStr ref)]"

definition child_link :: "codec \<Rightarrow> child_transition \<Rightarrow> nat \<Rightarrow> string \<Rightarrow> evidence_link" where
  "child_link co t n ref =
     \<lparr>el_link_id = ''evidence-'' @ take 24 (co_digest co (link_payload t ref)) @ ''-'' @ str_of_nat n,
      el_mission_id = vt_mission_id t, el_objective_id = Some (vt_objective_id t),
      el_evidence_kind = takeWhile (\<lambda>c. c \<noteq> CHR '':'') ref, el_evidence_ref = ref,
      el_command_id = Some (vt_command_id t), el_attributable = True, el_linked_at_ms = vt_occurred_at_ms t\<rparr>"

fun link_refs :: "codec \<Rightarrow> child_transition \<Rightarrow> nat \<Rightarrow> string list \<Rightarrow> unit coord" where
  "link_refs co t n [] = returning ()"
| "link_refs co t n (ref # refs) =
     (case make_evidence_link (child_link co t n ref) of
        None \<Rightarrow> raising ModelValidation
      | Some l \<Rightarrow> and_then (on_repository (\<lambda>r. link_evidence r l)) (\<lambda>_. link_refs co t (Suc n) refs))"

text \<open>
  The reservation that a child's work is settled against: the one of its objective, else the only one of its
  rebalances, else the only one of accepted proposals with its goal.
\<close>

definition child_reservation ::
  "codec \<Rightarrow> mission_snapshot \<Rightarrow> objective_record \<Rightarrow> budget_account \<Rightarrow> string \<Rightarrow> string option" where
  "child_reservation co sn ob budget oid =
     (let keys = dict_keys (ba_reservations budget); fixed = objective_reservation oid;
          rebalances = filter (prefix (fixed @ '':rebalance'')) keys;
          proposals = map (\<lambda>x. gp_proposal_id (sp_proposal x))
            (filter (\<lambda>x. de_outcome (sp_decision x) = Accepted \<and>
                         co_goal_hash co (gp_goal (sp_proposal x)) = co_goal_hash co (ob_goal (or_objective ob)) \<and>
                         gp_proposal_id (sp_proposal x) \<in> set keys) (sn_proposals sn))
      in if fixed \<in> set keys then Some fixed
         else if length rebalances = 1 then Some (hd rebalances)
         else if length proposals = 1 then Some (hd proposals)
         else None)"

text \<open>The first record of an objective, or none.\<close>

definition objective_of :: "mission_snapshot \<Rightarrow> string \<Rightarrow> objective_record option" where
  "objective_of sn oid = List.find (\<lambda>x. ob_objective_id (or_objective x) = oid) (sn_objectives sn)"

definition child_target :: "child_transition \<Rightarrow> command_state \<Rightarrow> objective_status \<times> string" where
  "child_target t st =
     (if vt_verification t = ChildVerified \<and> (st = SUCCEEDED \<or> st = SUCCEEDED_RECONCILED)
      then (OCompleted, ''CHILD_VERIFIED_COMPLETE'')
      else if vt_verification t = ChildUnknown \<or> st = BLOCKED_UNKNOWN
      then (OBlockedUnknown, ''CHILD_OUTCOME_UNKNOWN'')
      else (OFailedState, ''CHILD_VERIFICATION_FAILED''))"

definition end_mission ::
  "child_transition \<Rightarrow> mission_snapshot \<Rightarrow> mission_status \<Rightarrow> string \<Rightarrow> advance_result coord" where
  "end_mission t sn target reason =
     and_then
       (on_repository (\<lambda>r. transition_mission r (vt_mission_id t) (mr_version (sn_mission sn)) target reason
          coordinator_actor (vt_occurred_at_ms t) [] (vt_evidence_refs t)))
       (\<lambda>m. returning (plain_result (vt_mission_id t) (mr_status m)))"

text \<open>The reservation is settled, the objective ends, the evidence is linked, and the mission follows.\<close>

definition settle_child ::
  "codec \<Rightarrow> child_transition \<Rightarrow> mission_snapshot \<Rightarrow> objective_record \<Rightarrow> command_state \<Rightarrow> budget_account \<Rightarrow> string \<Rightarrow>
   advance_result coord" where
  "settle_child co t sn ob st budget rid =
     with_budget (settle budget rid (vt_actual_budget t)) (\<lambda>settled.
     and_then (on_repository (\<lambda>r. save_mission_budget r (vt_mission_id t) settled)) (\<lambda>_.
     let (target, reason) = child_target t st in
     and_then
       (on_repository (\<lambda>r. transition_objective r (vt_mission_id t) (vt_objective_id t) (or_version ob) target reason
          coordinator_actor (vt_occurred_at_ms t) (command_detail (vt_command_id t)) (vt_evidence_refs t))) (\<lambda>_.
     and_then (link_refs co t 0 (vt_evidence_refs t)) (\<lambda>_.
     if target = OBlockedUnknown then end_mission t sn MBlockedUnknown ''CHILD_OUTCOME_UNKNOWN''
     else if target = OFailedState then end_mission t sn MFailed ''REQUIRED_CHILD_FAILED''
     else advance_mission co (vt_mission_id t) (mr_caller_scope (sn_mission sn)) (vt_occurred_at_ms t)))))"

definition on_child_transition :: "codec \<Rightarrow> child_transition \<Rightarrow> advance_result coord" where
  "on_child_transition co t =
     with_snapshot (vt_mission_id t) (\<lambda>sn.
       case objective_of sn (vt_objective_id t) of
         None \<Rightarrow> raising CoroutineRaisedStop
       | Some ob \<Rightarrow>
           if or_status ob = OFailedState \<and> vt_verification t = ChildFailed
           then end_mission t sn MFailed ''REQUIRED_CHILD_FAILED''
           else if or_status ob \<noteq> OActiveState then raising (CoordValueError ''child objective is not active'')
           else if linked_command (sn_transitions sn) (Some ob) \<noteq> Some (vt_command_id t)
           then raising (CoordValueError ''child command does not match objective'')
           else (\<lambda>w.
             (case get_command (wd_journal w) (vt_command_id t) of
                None \<Rightarrow> raising (CoordValueError ''child transition is not journal-verified'')
              | Some c \<Rightarrow>
                  if jc_state c \<noteq> vt_command_state t
                  then raising (CoordValueError ''child transition is not journal-verified'')
                  else
                    with_budget (snapshot_budget sn) (\<lambda>budget.
                      case child_reservation co sn ob budget (vt_objective_id t) of
                        None \<Rightarrow> raising (CoordValueError ''child objective budget reservation is ambiguous'')
                      | Some rid \<Rightarrow> settle_child co t sn ob (jc_state c) budget rid)) w))"

section \<open>Rebalancing\<close>

datatype rebalance_outcome = WasRebalanced | TerminalFailed | NotApplicable

text \<open>What the suspended call holds in its variables while the planner works.\<close>

record suspended_rebalance =
  sr_transition :: child_transition
  sr_mission_version :: int
  sr_scope :: string
  sr_failed :: objective_record
  sr_account :: budget_account
  sr_request :: rebalance_request
  sr_used :: int

definition rebalances_used :: "mission_snapshot \<Rightarrow> int" where
  "rebalances_used sn = int (length (filter (\<lambda>x. td_reason_code x = rebalance_reason) (sn_transitions sn)))"

definition remaining_usage :: "execution_budget \<Rightarrow> budget_usage" where
  "remaining_usage b =
     \<lparr>bu_max_actions = eb_max_actions b, bu_max_strategy_attempts = eb_max_strategy_attempts b,
      bu_max_travel_distance = eb_max_travel_distance b, bu_max_blocks_changed = eb_max_blocks_changed b,
      bu_max_damage_taken = eb_max_damage_taken b, bu_resource_consumption = []\<rparr>"

definition rebalance_request_of ::
  "child_transition \<Rightarrow> mission_snapshot \<Rightarrow> objective_record \<Rightarrow> budget_usage \<Rightarrow> string \<Rightarrow> execution_budget \<Rightarrow> rebalance_request" where
  "rebalance_request_of t sn ob usage failure left =
     \<lparr>rq_mission_id = vt_mission_id t, rq_failed_objective = or_objective ob,
      rq_remaining_objectives =
        map or_objective (filter (\<lambda>x. ob_objective_id (or_objective x) \<noteq> vt_objective_id t) (sn_objectives sn)),
      rq_receipt_usage = usage, rq_failure_reason_code = failure, rq_rebalances_used = rebalances_used sn,
      rq_rebalances_allowed = au_max_budget_rebalances (ms_autonomy (mr_spec (sn_mission sn))),
      rq_remaining_budget = Some (remaining_usage left)\<rparr>"

text \<open>\<open>None\<close>: the failure is no candidate; otherwise the call waits for its planner.\<close>

definition fail_for_rebalance ::
  "codec \<Rightarrow> child_transition \<Rightarrow> mission_snapshot \<Rightarrow> objective_record \<Rightarrow> budget_account \<Rightarrow> string \<Rightarrow> budget_usage \<Rightarrow>
   string \<Rightarrow> suspended_rebalance option coord" where
  "fail_for_rebalance co t sn ob budget rid usage failure =
     with_budget (settle budget rid (vt_actual_budget t)) (\<lambda>settled.
     and_then (on_repository (\<lambda>r. save_mission_budget r (vt_mission_id t) settled)) (\<lambda>_.
     and_then
       (on_repository (\<lambda>r. transition_objective r (vt_mission_id t) (vt_objective_id t) (or_version ob) OFailedState
          ''BUDGET_EXHAUSTED_CHILD'' coordinator_actor (vt_occurred_at_ms t) (command_detail (vt_command_id t))
          (vt_evidence_refs t))) (\<lambda>failed.
     and_then (link_refs co t 0 (vt_evidence_refs t)) (\<lambda>_.
     with_budget (remaining settled) (\<lambda>left.
     returning (Some
       \<lparr>sr_transition = t, sr_mission_version = mr_version (sn_mission sn), sr_scope = mr_caller_scope (sn_mission sn),
        sr_failed = failed, sr_account = settled, sr_request = rebalance_request_of t sn ob usage failure left,
        sr_used = rebalances_used sn\<rparr>))))))"

definition rebalance_applicable :: "child_transition \<Rightarrow> mission_snapshot \<Rightarrow> objective_record \<Rightarrow> bool" where
  "rebalance_applicable t sn ob \<longleftrightarrow>
     or_status ob = OActiveState \<and> linked_command (sn_transitions sn) (Some ob) = Some (vt_command_id t) \<and>
     (let policy = ms_autonomy (mr_spec (sn_mission sn)) in
      au_mode policy = Bounded \<and> 0 < au_max_budget_rebalances policy \<and>
      rebalances_used sn < au_max_budget_rebalances policy)"

definition begin_rebalance ::
  "codec \<Rightarrow> child_transition \<Rightarrow> budget_usage \<Rightarrow> string \<Rightarrow> suspended_rebalance option coord" where
  "begin_rebalance co t usage failure =
     (if (vt_command_state t \<noteq> FAILED \<and> vt_command_state t \<noteq> FAILED_RECONCILED) \<or> vt_verification t \<noteq> ChildFailed
      then returning None
      else
        with_snapshot (vt_mission_id t) (\<lambda>sn.
          case objective_of sn (vt_objective_id t) of
            None \<Rightarrow> returning None
          | Some ob \<Rightarrow>
              if \<not> rebalance_applicable t sn ob then returning None
              else
                with_budget (snapshot_budget sn) (\<lambda>budget.
                  case child_reservation co sn ob budget (vt_objective_id t) of
                    None \<Rightarrow> returning None
                  | Some rid \<Rightarrow> fail_for_rebalance co t sn ob budget rid usage failure)))"

definition rebalance_reservation :: "suspended_rebalance \<Rightarrow> string" where
  "rebalance_reservation s =
     objective_reservation (vt_objective_id (sr_transition s)) @ '':rebalance'' @ str_of_int (sr_used s + 1)"

text \<open>A proposal that is validated and whose budget can be reserved; other errors of the account escape.\<close>

definition accepted_rebalance ::
  "suspended_rebalance \<Rightarrow> rebalance_proposal option \<Rightarrow> budget_error + (rebalance_proposal \<times> budget_account) option" where
  "accepted_rebalance s proposal =
     (case proposal of
        None \<Rightarrow> Inr None
      | Some p \<Rightarrow>
          (case validate_rebalance p (sr_request s) of
             Inl _ \<Rightarrow> Inr None
           | Inr new_budget \<Rightarrow>
               (case reserve (sr_account s) (rebalance_reservation s) new_budget of
                  Inl (BudgetExceededError _) \<Rightarrow> Inr None
                | Inl e \<Rightarrow> Inl e
                | Inr account \<Rightarrow> Inr (Some (p, account)))))"

definition replacement_goal :: "goal_spec \<Rightarrow> rebalance_proposal \<Rightarrow> goal_spec" where
  "replacement_goal g p =
     (case rp_navigation_timeout_ms p of
        None \<Rightarrow> g
      | Some n \<Rightarrow> g\<lparr>gs_constraints := dict_set ''navigation_timeout_ms'' (JInt n) (gs_constraints g)\<rparr>)"

definition rebalance_details :: "child_transition \<Rightarrow> rebalance_proposal \<Rightarrow> json_obj" where
  "rebalance_details t p =
     [(''rationale'', JStr (rp_rationale p)), (''command_id'', JStr (vt_command_id t)),
      (''navigation_timeout_ms'', case rp_navigation_timeout_ms p of None \<Rightarrow> JNull | Some n \<Rightarrow> JInt n)]"

definition end_rebalance ::
  "codec \<Rightarrow> suspended_rebalance \<Rightarrow> rebalance_proposal option \<Rightarrow> rebalance_outcome coord" where
  "end_rebalance co s proposal =
     (let t = sr_transition s; mid = vt_mission_id t; oid = vt_objective_id t; occ = vt_occurred_at_ms t in
      with_budget (accepted_rebalance s proposal) (\<lambda>accepted.
        case accepted of
          None \<Rightarrow>
            and_then
              (on_repository (\<lambda>r. transition_mission r mid (sr_mission_version s) MFailed ''REQUIRED_CHILD_FAILED''
                 coordinator_actor occ [] (vt_evidence_refs t)))
              (\<lambda>_. returning TerminalFailed)
        | Some (p, account) \<Rightarrow>
            and_then (on_repository (\<lambda>r. save_mission_budget r mid account)) (\<lambda>_.
            and_then
              (on_repository (\<lambda>r. replace_objective_budget r mid oid (or_version (sr_failed s)) (rp_new_budget p)
                 rebalance_reason coordinator_actor occ (Some (replacement_goal (ob_goal (or_objective (sr_failed s))) p))
                 (rebalance_details t p) (vt_evidence_refs t))) (\<lambda>replaced.
            and_then
              (on_repository (\<lambda>r. transition_objective r mid oid (or_version replaced) OPending rebalance_reason
                 coordinator_actor occ (command_detail (vt_command_id t)) (vt_evidence_refs t))) (\<lambda>_.
            and_then (advance_mission co mid (sr_scope s) occ) (\<lambda>_. returning WasRebalanced))))))"

text \<open>The whole call, when nothing happens while its planner works.\<close>

definition request_rebalance ::
  "codec \<Rightarrow> (rebalance_request \<Rightarrow> rebalance_proposal option) \<Rightarrow> child_transition \<Rightarrow> budget_usage \<Rightarrow> string \<Rightarrow>
   rebalance_outcome coord" where
  "request_rebalance co planner t usage failure =
     and_then (begin_rebalance co t usage failure) (\<lambda>suspended.
       case suspended of
         None \<Rightarrow> returning NotApplicable
       | Some s \<Rightarrow> end_rebalance co s (planner (sr_request s)))"

end
