(* ===== verification/Mission_Life.thy ===== *)
theory Mission_Life
  imports Mission_Children
begin

text \<open>
  What a mission may go through, as an abstract life: its status and the states of its objectives,
  and the moves between them.  The coordinator is shown to refine it in Mission_Coordinator_Life; here the
  moves are shown to keep the order of the objectives.  A calm life is one in which nothing happens
  to the mission between the failure of an objective and the end of its rebalance.
\<close>

section \<open>Lives\<close>

record mission_life =
  ml_spec :: mission_spec
  ml_status :: mission_status
  ml_objectives :: "(mission_objective \<times> objective_status) list"

definition life_completed :: "mission_life \<Rightarrow> string set" where
  "life_completed l = {ob_objective_id ob | ob. (ob, OCompleted) \<in> set (ml_objectives l)}"

definition life_active :: "mission_life \<Rightarrow> nat set" where
  "life_active l = {i. i < length (ml_objectives l) \<and> snd (ml_objectives l ! i) = OActiveState}"

definition started_status :: "mission_status \<Rightarrow> mission_status" where
  "started_status st = (if st = MPlanning \<or> st = MWaitingEvidence then MRunning else st)"

definition idle_target :: "mission_spec \<Rightarrow> mission_status" where
  "idle_target spec = (if ms_completion_predicates spec \<noteq> [] then MWaitingEvidence else MCompleted)"

definition same_objective :: "mission_objective \<Rightarrow> mission_objective \<Rightarrow> bool" where
  "same_objective a b \<longleftrightarrow>
     ob_objective_id b = ob_objective_id a \<and> ob_dependencies b = ob_dependencies a \<and> ob_required b = ob_required a"

definition set_objective :: "mission_life \<Rightarrow> nat \<Rightarrow> mission_objective \<times> objective_status \<Rightarrow> mission_life" where
  "set_objective l i x = l\<lparr>ml_objectives := (ml_objectives l)[i := x]\<rparr>"

definition new_life :: "mission_spec \<Rightarrow> mission_life" where
  "new_life spec =
     \<lparr>ml_spec = spec, ml_status = MAccepted, ml_objectives = map (\<lambda>ob. (ob, OPending)) (ms_objectives spec)\<rparr>"

inductive life_move :: "bool \<Rightarrow> mission_life \<Rightarrow> mission_life \<Rightarrow> bool" for calm where
  life_plan: "ml_status l = MAccepted \<Longrightarrow> life_move calm l (l\<lparr>ml_status := MPlanning\<rparr>)"
| life_start: "\<lbrakk>i < length (ml_objectives l); ml_objectives l ! i = (ob, OPending);
     set (ob_dependencies ob) \<subseteq> life_completed l; life_active l = {};
     calm \<Longrightarrow> \<not> terminal_mission (ml_status l)\<rbrakk> \<Longrightarrow>
     life_move calm l ((set_objective l i (ob, OActiveState))\<lparr>ml_status := started_status (ml_status l)\<rparr>)"
| life_idle: "\<lbrakk>life_active l = {}; \<forall>(ob, st)\<in>set (ml_objectives l). ob_required ob \<longrightarrow> st = OCompleted;
     validate_mission_transition (ml_status l) (idle_target (ml_spec l))\<rbrakk> \<Longrightarrow>
     life_move calm l (l\<lparr>ml_status := idle_target (ml_spec l)\<rparr>)"
| life_verify: "\<lbrakk>ml_status l = MWaitingEvidence;
     \<forall>ob\<in>set (ms_objectives (ml_spec l)). ob_required ob \<longrightarrow> ob_objective_id ob \<in> life_completed l\<rbrakk> \<Longrightarrow>
     life_move calm l (l\<lparr>ml_status := MCompleted\<rparr>)"
| life_finish: "\<lbrakk>i < length (ml_objectives l); ml_objectives l ! i = (ob, OActiveState);
     t \<in> {OCompleted, OFailedState, OCancelledState, OBlockedUnknown}\<rbrakk> \<Longrightarrow>
     life_move calm l (set_objective l i (ob, t))"
| life_cancel: "\<lbrakk>i < length (ml_objectives l); ml_objectives l ! i = (ob, OPending)\<rbrakk> \<Longrightarrow>
     life_move calm l (set_objective l i (ob, OCancelledState))"
| life_close: "\<lbrakk>t \<in> {MFailed, MCancelled, MBlockedUnknown}; validate_mission_transition (ml_status l) t;
     calm \<Longrightarrow> life_active l = {}\<rbrakk> \<Longrightarrow> life_move calm l (l\<lparr>ml_status := t\<rparr>)"
| life_append: "\<lbrakk>\<not> terminal_mission (ml_status l); ob_objective_id ob \<notin> ob_objective_id ` fst ` set (ml_objectives l)\<rbrakk> \<Longrightarrow>
     life_move calm l (l\<lparr>ml_objectives := ml_objectives l @ [(ob, OPending)]\<rparr>)"
| life_rewrite: "\<lbrakk>i < length (ml_objectives l); ml_objectives l ! i = (ob, st); same_objective ob ob'\<rbrakk> \<Longrightarrow>
     life_move calm l (set_objective l i (ob', st))"
| life_rearm: "\<lbrakk>i < length (ml_objectives l); ml_objectives l ! i = (ob, OFailedState)\<rbrakk> \<Longrightarrow>
     life_move calm l (set_objective l i (ob, OPending))"

inductive_cases life_moveE: "life_move calm l l'"

section \<open>What every life keeps\<close>

definition life_ids :: "mission_life \<Rightarrow> string list" where
  "life_ids l = map (\<lambda>x. ob_objective_id (fst x)) (ml_objectives l)"

definition started_objective :: "objective_status \<Rightarrow> bool" where
  "started_objective st \<longleftrightarrow> st = OActiveState \<or> st = OCompleted \<or> st = OFailedState"

definition life_ok :: "mission_life \<Rightarrow> bool" where
  "life_ok l \<longleftrightarrow>
     card (life_active l) \<le> 1 \<and> distinct (life_ids l) \<and>
     (\<forall>(ob, st)\<in>set (ml_objectives l). started_objective st \<longrightarrow> set (ob_dependencies ob) \<subseteq> life_completed l) \<and>
     (\<forall>ob\<in>set (ms_objectives (ml_spec l)). \<exists>ob' st. (ob', st) \<in> set (ml_objectives l) \<and>
        ob_objective_id ob' = ob_objective_id ob \<and> ob_required ob' = ob_required ob) \<and>
     (ml_status l = MCompleted \<longrightarrow>
        (\<forall>ob\<in>set (ms_objectives (ml_spec l)). ob_required ob \<longrightarrow> ob_objective_id ob \<in> life_completed l))"

lemma life_ok_member:
  assumes "life_ok l" "ob \<in> set (ms_objectives (ml_spec l))"
  obtains ob' st where "(ob', st) \<in> set (ml_objectives l)" "ob_objective_id ob' = ob_objective_id ob"
    "ob_required ob' = ob_required ob"
proof -
  have "\<forall>ob\<in>set (ms_objectives (ml_spec l)). \<exists>ob' st. (ob', st) \<in> set (ml_objectives l) \<and>
      ob_objective_id ob' = ob_objective_id ob \<and> ob_required ob' = ob_required ob"
    using assms(1) unfolding life_ok_def by (elim conjE)
  with assms(2) that show thesis by blast
qed

text \<open>A mission that has ended, or waits for evidence, has nothing active.\<close>

definition life_quiet :: "mission_life \<Rightarrow> bool" where
  "life_quiet l \<longleftrightarrow> terminal_mission (ml_status l) \<or> ml_status l = MWaitingEvidence \<longrightarrow> life_active l = {}"

lemma set_objective_sel [simp]:
  "ml_spec (set_objective l i x) = ml_spec l" "ml_status (set_objective l i x) = ml_status l"
  "ml_objectives (set_objective l i x) = (ml_objectives l)[i := x]"
  by (simp_all add: set_objective_def)

lemma life_completed_status [simp]: "life_completed (l\<lparr>ml_status := st\<rparr>) = life_completed l"
  by (simp add: life_completed_def)

lemma life_active_status [simp]: "life_active (l\<lparr>ml_status := st\<rparr>) = life_active l"
  by (simp add: life_active_def)

lemma life_ids_status [simp]: "life_ids (l\<lparr>ml_status := st\<rparr>) = life_ids l"
  by (simp add: life_ids_def)

lemma finite_life_active [simp]: "finite (life_active l)"
  by (simp add: life_active_def)

lemma set_update_pair:
  "i < length xs \<Longrightarrow> x \<in> set (xs[i := y]) \<Longrightarrow> x = y \<or> (x \<in> set xs)"
  by (meson in_mono insert_iff set_update_subset_insert)

lemma in_set_update_other: "i < length xs \<Longrightarrow> x \<in> set xs \<Longrightarrow> x \<noteq> xs ! i \<Longrightarrow> x \<in> set (xs[i := y])"
  by (metis in_set_conv_nth length_list_update nth_list_update_neq)

text \<open>A change that is not away from completion keeps what is completed.\<close>

lemma life_completed_update:
  assumes "i < length (ml_objectives l)" "ml_objectives l ! i = (ob, st)" "st \<noteq> OCompleted \<or> st' = OCompleted"
    and "same_objective ob ob'"
  shows "life_completed (set_objective l i (ob', st')) =
      (if st' = OCompleted then insert (ob_objective_id ob) (life_completed l) else life_completed l)"
proof -
  have id: "ob_objective_id ob' = ob_objective_id ob" using assms(4) by (simp add: same_objective_def)
  have mem: "(x, OCompleted) \<in> set ((ml_objectives l)[i := (ob', st')]) \<longleftrightarrow>
      (x = ob' \<and> st' = OCompleted) \<or> (\<exists>j<length (ml_objectives l). j \<noteq> i \<and> ml_objectives l ! j = (x, OCompleted))" for x
    using assms(1) by (auto simp: in_set_conv_nth nth_list_update split: if_splits)
  have old: "(x, OCompleted) \<in> set (ml_objectives l) \<longleftrightarrow>
      (x = ob \<and> st = OCompleted) \<or> (\<exists>j<length (ml_objectives l). j \<noteq> i \<and> ml_objectives l ! j = (x, OCompleted))" for x
    using assms(1,2) by (auto simp: in_set_conv_nth)
  show ?thesis
    using assms(3) unfolding life_completed_def set_objective_sel mem old by (auto simp: id) (metis id)+
qed

lemma life_active_update:
  assumes "i < length (ml_objectives l)"
  shows "life_active (set_objective l i (ob, st)) =
      (if st = OActiveState then insert i (life_active l) else life_active l - {i})"
  using assms by (auto simp: life_active_def nth_list_update split: if_splits)

lemma life_ids_update:
  assumes "i < length (ml_objectives l)" "ml_objectives l ! i = (ob, st)" "same_objective ob ob'"
  shows "life_ids (set_objective l i (ob', st')) = life_ids l"
  using assms unfolding life_ids_def set_objective_sel map_update
  by (metis fst_conv length_map list_update_id nth_map same_objective_def)

lemma same_objective_refl [simp]: "same_objective ob ob"
  by (simp add: same_objective_def)

text \<open>One objective changes: the order is kept if it does not start early, and is not completed before.\<close>

lemma life_ok_update:
  assumes l: "life_ok l" and i: "i < length (ml_objectives l)" "ml_objectives l ! i = (ob, st)"
    and "same_objective ob ob'" and "st \<noteq> OCompleted \<or> st' = OCompleted"
    and start: "started_objective st' \<Longrightarrow> started_objective st \<or> set (ob_dependencies ob) \<subseteq> life_completed l"
    and active: "st' = OActiveState \<Longrightarrow> st = OActiveState \<or> life_active l = {}"
  shows "life_ok (set_objective l i (ob', st'))"
proof -
  let ?l = "set_objective l i (ob', st')"
  have c: "life_completed l \<subseteq> life_completed ?l"
    using life_completed_update [OF i(1,2) assms(5,4)] by auto
  have same: "ob_objective_id ob' = ob_objective_id ob" "ob_dependencies ob' = ob_dependencies ob" "ob_required ob' = ob_required ob"
    using assms(4) by (simp_all add: same_objective_def)
  have old: "(ob, st) \<in> set (ml_objectives l)" using i nth_mem by metis
  have "card (life_active ?l) \<le> 1"
  proof (cases "st' = OActiveState")
    case True
    have "st = OActiveState \<Longrightarrow> i \<in> life_active l" using i by (simp add: life_active_def)
    then have "life_active ?l = life_active l \<or> life_active ?l = {i}"
      using active [OF True] True by (auto simp: life_active_update [OF i(1)])
    then show ?thesis using l by (auto simp: life_ok_def)
  next
    case False
    have "card (life_active l - {i}) \<le> card (life_active l)" by (intro card_mono) auto
    with False l show ?thesis by (simp add: life_active_update [OF i(1)] life_ok_def)
  qed
  moreover have "distinct (life_ids ?l)" using l life_ids_update [OF i assms(4)] by (simp add: life_ok_def)
  moreover have "set (ob_dependencies o1) \<subseteq> life_completed ?l"
    if "(o1, s1) \<in> set (ml_objectives ?l)" "started_objective s1" for o1 s1
  proof -
    have "(o1, s1) = (ob', st') \<or> (o1, s1) \<in> set (ml_objectives l)"
      using set_update_pair [OF i(1), of "(o1, s1)" "(ob', st')"] that(1) by simp
    then have "set (ob_dependencies o1) \<subseteq> life_completed l"
    proof
      assume "(o1, s1) = (ob', st')"
      then have "started_objective st \<or> set (ob_dependencies ob) \<subseteq> life_completed l" "o1 = ob'"
        using start that(2) by simp_all
      then show ?thesis using l old same by (auto simp: life_ok_def)
    qed (use l that(2) in \<open>auto simp: life_ok_def\<close>)
    then show ?thesis using c by blast
  qed
  moreover have "\<exists>o2 s2. (o2, s2) \<in> set (ml_objectives ?l) \<and> ob_objective_id o2 = ob_objective_id o1 \<and> ob_required o2 = ob_required o1"
    if "o1 \<in> set (ms_objectives (ml_spec l))" for o1
  proof -
    from l that obtain o2 s2 where o2: "(o2, s2) \<in> set (ml_objectives l)" "ob_objective_id o2 = ob_objective_id o1" "ob_required o2 = ob_required o1"
      by (rule life_ok_member)
    show ?thesis
    proof (cases "(o2, s2) = (ob, st)")
      case True
      have "(ob', st') \<in> set ((ml_objectives l)[i := (ob', st')])" using i(1) by (rule set_update_memI)
      with True o2 same show ?thesis by (intro exI [of _ ob'] exI [of _ st']) auto
    next
      case False
      then have "(o2, s2) \<in> set ((ml_objectives l)[i := (ob', st')])"
        using in_set_update_other [OF i(1) o2(1)] i(2) by simp
      with o2 show ?thesis by (intro exI [of _ o2] exI [of _ s2]) auto
    qed
  qed
  moreover have "ml_status l = MCompleted \<Longrightarrow> o1 \<in> set (ms_objectives (ml_spec l)) \<Longrightarrow> ob_required o1 \<Longrightarrow>
      ob_objective_id o1 \<in> life_completed ?l" for o1
    using l c unfolding life_ok_def by blast
  ultimately show ?thesis unfolding life_ok_def set_objective_sel(1,2) by blast
qed

lemma life_ok_frame:
  assumes "life_ok l" and "st = MCompleted \<Longrightarrow>
      \<forall>ob\<in>set (ms_objectives (ml_spec l)). ob_required ob \<longrightarrow> ob_objective_id ob \<in> life_completed l"
  shows "life_ok (l\<lparr>ml_status := st\<rparr>)"
  using assms by (auto simp: life_ok_def)

lemma life_ok_append:
  assumes "life_ok l" "\<not> terminal_mission (ml_status l)"
    and "ob_objective_id ob \<notin> ob_objective_id ` fst ` set (ml_objectives l)"
  shows "life_ok (l\<lparr>ml_objectives := ml_objectives l @ [(ob, OPending)]\<rparr>)"
proof -
  let ?l = "l\<lparr>ml_objectives := ml_objectives l @ [(ob, OPending)]\<rparr>"
  have "life_active ?l = life_active l"
    by (auto simp: life_active_def nth_append split: if_splits)
  moreover have "life_completed ?l = life_completed l" by (auto simp: life_completed_def)
  moreover have "distinct (life_ids ?l)" using assms(1,3) by (auto simp: life_ok_def life_ids_def image_image)
  moreover have "\<exists>o2 s2. (o2, s2) \<in> set (ml_objectives ?l) \<and> ob_objective_id o2 = ob_objective_id o1 \<and> ob_required o2 = ob_required o1"
    if "o1 \<in> set (ms_objectives (ml_spec l))" for o1
  proof -
    from assms(1) that obtain o2 s2 where "(o2, s2) \<in> set (ml_objectives l)" "ob_objective_id o2 = ob_objective_id o1" "ob_required o2 = ob_required o1"
      by (rule life_ok_member)
    then show ?thesis by (intro exI [of _ o2] exI [of _ s2]) simp
  qed
  ultimately show ?thesis
    using assms(1,2) by (auto simp: life_ok_def started_objective_def terminal_mission_def)
qed

lemma life_ok_idle:
  assumes "life_ok l" "\<forall>(ob, st)\<in>set (ml_objectives l). ob_required ob \<longrightarrow> st = OCompleted"
  shows "\<forall>ob\<in>set (ms_objectives (ml_spec l)). ob_required ob \<longrightarrow> ob_objective_id ob \<in> life_completed l"
proof (intro ballI impI)
  fix ob assume "ob \<in> set (ms_objectives (ml_spec l))" "ob_required ob"
  then obtain o2 s2 where "(o2, s2) \<in> set (ml_objectives l)" "ob_objective_id o2 = ob_objective_id ob" "ob_required o2"
    using assms(1) by (auto elim: life_ok_member)
  moreover from this have "s2 = OCompleted" using assms(2) by auto
  ultimately show "ob_objective_id ob \<in> life_completed l" unfolding life_completed_def by (intro CollectI exI [of _ o2]) simp
qed

lemma life_ok_step: "life_move calm l l' \<Longrightarrow> life_ok l \<Longrightarrow> life_ok l'"
proof (induction rule: life_move.induct)
  case (life_start i l ob)
  then have "life_ok (set_objective l i (ob, OActiveState))"
    by (intro life_ok_update [of l i ob OPending]) auto
  then show ?case
    by (rule life_ok_frame) (use \<open>life_ok (set_objective l i (ob, OActiveState))\<close> life_start in
        \<open>auto simp: started_status_def life_ok_def split: if_splits\<close>)
next
  case (life_idle l)
  then show ?case using life_ok_idle [of l] by (intro life_ok_frame) auto
next
  case (life_append l ob)
  then show ?case by (intro life_ok_append)
next
  case (life_finish i l ob t)
  then show ?case by (intro life_ok_update [of l i ob OActiveState]) (auto simp: started_objective_def)
next
  case (life_rewrite i l ob st ob')
  then show ?case by (intro life_ok_update [of l i ob st]) auto
next
  case (life_cancel i l ob)
  then show ?case by (intro life_ok_update [of l i ob OPending]) (auto simp: started_objective_def)
next
  case (life_rearm i l ob)
  then show ?case by (intro life_ok_update [of l i ob OFailedState]) (auto simp: started_objective_def)
qed (auto intro: life_ok_frame)

lemma life_quiet_step: "life_move True l l' \<Longrightarrow> life_quiet l \<Longrightarrow> life_quiet l'"
proof (induction rule: life_move.induct)
  case (life_start i l ob)
  then show ?case
    by (auto simp: life_quiet_def started_status_def terminal_mission_def)
next
  case (life_append l ob)
  have "life_active (l\<lparr>ml_objectives := ml_objectives l @ [(ob, OPending)]\<rparr>) = life_active l"
    by (auto simp: life_active_def nth_append split: if_splits)
  with life_append show ?case by (simp add: life_quiet_def)
next
  case (life_rewrite i l ob st ob')
  then have "life_active (set_objective l i (ob', st)) = life_active l"
    by (auto simp: life_active_update) (auto simp: life_active_def)
  with life_rewrite show ?case by (simp add: life_quiet_def)
qed (auto simp: life_quiet_def life_active_update terminal_mission_def)

lemma new_life_ok:
  assumes "distinct (map ob_objective_id (ms_objectives spec))"
  shows "life_ok (new_life spec) \<and> life_quiet (new_life spec)"
proof -
  have "life_active (new_life spec) = {}" by (simp add: life_active_def new_life_def)
  then show ?thesis
    using assms by (auto simp: life_ok_def life_quiet_def life_ids_def started_objective_def comp_def new_life_def
        terminal_mission_def)
qed

lemma life_steps_ok: "(life_move calm)\<^sup>*\<^sup>* l l' \<Longrightarrow> life_ok l \<Longrightarrow> life_ok l'"
  by (induction rule: rtranclp_induct) (auto intro: life_ok_step)

lemma life_steps_quiet: "(life_move True)\<^sup>*\<^sup>* l l' \<Longrightarrow> life_quiet l \<Longrightarrow> life_quiet l'"
  by (induction rule: rtranclp_induct) (auto intro: life_quiet_step)

text \<open>A final status stays, and a calm mission that has ended starts nothing more.\<close>

lemma life_final_step:
  "life_move True l l' \<Longrightarrow> terminal_mission (ml_status l) \<Longrightarrow> ml_status l' = ml_status l \<and> length (ml_objectives l') = length (ml_objectives l)"
  by (induction rule: life_move.induct)
    (auto simp: terminal_mission_def validate_mission_transition_def started_status_def)

end
