(* ===== verification/Mission_Calls.thy ===== *)
theory Mission_Calls
  imports Mission_Life Mission_Repository_Properties
begin

text \<open>
  What one call of the coordinator on the repository does to the lives of the missions, and rules
  that follow a method of the coordinator through its calls.
\<close>

section \<open>Following a method\<close>

definition sure :: "'a coord \<Rightarrow> mission_world \<Rightarrow> (mission_world \<Rightarrow> coord_error + 'a \<Rightarrow> bool) \<Rightarrow> bool" where
  "sure m w Q \<longleftrightarrow> Q (fst (m w)) (snd (m w))"

named_theorems sure_simps \<open>how a method is followed through its steps\<close>

lemma sure_returning [sure_simps]: "sure (returning x) w Q \<longleftrightarrow> Q w (Inr x)"
  by (simp add: sure_def returning_def)

lemma sure_raising [sure_simps]: "sure (raising e) w Q \<longleftrightarrow> Q w (Inl e)"
  by (simp add: sure_def raising_def)

lemma sure_and_then: "sure (and_then m f) w Q \<longleftrightarrow>
    sure m w (\<lambda>w' x. case x of Inl e \<Rightarrow> Q w' (Inl e) | Inr y \<Rightarrow> sure (f y) w' Q)"
  by (simp add: sure_def and_then_def split: prod.split sum.split)

lemma sure_with_budget: "sure (with_budget x f) w Q \<longleftrightarrow>
    (case x of Inl e \<Rightarrow> Q w (Inl (FromBudget e)) | Inr a \<Rightarrow> sure (f a) w Q)"
  by (simp add: sure_def with_budget_def raising_def split: sum.split)

lemma sure_with_snapshot: "sure (with_snapshot mid f) w Q \<longleftrightarrow>
    (case mission_snapshot_of (wd_repository w) mid of
       Inl e \<Rightarrow> Q w (Inl (FromRepository e)) | Inr sn \<Rightarrow> sure (f sn) w Q)"
  by (simp add: sure_def with_snapshot_def split: sum.split)

lemma sure_mono: "sure m w P \<Longrightarrow> (\<And>w' x. P w' x \<Longrightarrow> Q w' x) \<Longrightarrow> sure m w Q"
  by (simp add: sure_def)

lemma sure_step:
  assumes "sure m w P" and "\<And>w' e. P w' (Inl e) \<Longrightarrow> Q w' (Inl e)" and "\<And>w' y. P w' (Inr y) \<Longrightarrow> sure (f y) w' Q"
  shows "sure (and_then m f) w Q"
  unfolding sure_and_then using assms by (auto simp: sure_def split: sum.splits)

lemma sure_on_journal: "sure (on_journal f) w Q \<longleftrightarrow>
    (case f (wd_journal w) of (s, Inl e) \<Rightarrow> Q (w\<lparr>wd_journal := s\<rparr>) (Inl (FromJournal e))
     | (s, Inr x) \<Rightarrow> Q (w\<lparr>wd_journal := s\<rparr>) (Inr x))"
  by (simp add: sure_def on_journal_def split: prod.split sum.split)

lemma sure_on_repository: "sure (on_repository f) w Q \<longleftrightarrow>
    (case f (wd_repository w) of (r, Inl e) \<Rightarrow> Q (w\<lparr>wd_repository := r\<rparr>) (Inl (FromRepository e))
     | (r, Inr x) \<Rightarrow> Q (w\<lparr>wd_repository := r\<rparr>) (Inr x))"
  by (simp add: sure_def on_repository_def split: prod.split sum.split)

section \<open>The lives in a repository\<close>

definition life_from :: "mission_record \<Rightarrow> objective_record list \<Rightarrow> mission_life" where
  "life_from m obs =
     \<lparr>ml_spec = mr_spec m, ml_status = mr_status m, ml_objectives = map (\<lambda>x. (or_objective x, or_status x)) obs\<rparr>"

definition lives :: "repository \<Rightarrow> string \<Rightarrow> mission_life option" where
  "lives r mid =
     (case (dict_get (re_missions r) mid, dict_get (re_objectives r) mid) of
        (Some m, Some obs) \<Rightarrow> Some (life_from m obs) | _ \<Rightarrow> None)"

lemma life_from_sel [simp]:
  "ml_spec (life_from m obs) = mr_spec m" "ml_status (life_from m obs) = mr_status m"
  "ml_objectives (life_from m obs) = map (\<lambda>x. (or_objective x, or_status x)) obs"
  by (simp_all add: life_from_def)

lemma lives_frame:
  "re_missions r' = re_missions r \<Longrightarrow> re_objectives r' = re_objectives r \<Longrightarrow> lives r' = lives r"
  by (simp add: lives_def fun_eq_iff)

lemma lives_set_mission:
  assumes "dict_get (re_objectives r) mid = Some obs"
    and "re_missions r' = dict_set mid m' (re_missions r)" "re_objectives r' = re_objectives r"
  shows "lives r' = (lives r)(mid \<mapsto> life_from m' obs)"
  using assms by (simp add: lives_def fun_eq_iff dict_simps)

lemma lives_set_objectives:
  assumes "dict_get (re_missions r) mid = Some m"
    and "re_objectives r' = dict_set mid obs (re_objectives r)" "re_missions r' = re_missions r"
  shows "lives r' = (lives r)(mid \<mapsto> life_from m obs)"
  using assms by (simp add: lives_def fun_eq_iff dict_simps)

lemma life_from_status: "mr_spec m' = mr_spec m \<Longrightarrow> life_from m' obs = (life_from m obs)\<lparr>ml_status := mr_status m'\<rparr>"
  by (simp add: life_from_def)

lemma life_from_objective:
  "life_from m (obs[i := y]) = set_objective (life_from m obs) i (or_objective y, or_status y)"
  by (simp add: life_from_def set_objective_def map_update)

lemma repo_inv_get:
  assumes "repo_inv r" "dict_get (re_missions r) mid = Some m"
  obtains obs ts where "dict_get (re_objectives r) mid = Some obs" "dict_get (re_transitions r) mid = Some ts"
    "objectives_entry mid obs" "ms_mission_id (mr_spec m) = mid" "0 \<le> mr_version m"
proof -
  have k: "same_keys r" "dict_all (mission_entry r) (re_missions r)" "dict_all objectives_entry (re_objectives r)"
    using assms(1) by (simp_all add: repo_inv_def)
  have "dict_get (re_objectives r) mid \<noteq> None" "dict_get (re_transitions r) mid \<noteq> None"
    using same_keys_get [OF k(1), of mid] assms(2) by simp_all
  then obtain obs ts where "dict_get (re_objectives r) mid = Some obs" "dict_get (re_transitions r) mid = Some ts" by blast
  moreover have "mission_entry r mid m" by (rule dict_all_get [OF k(2) assms(2)])
  moreover have "objectives_entry mid obs" by (rule dict_all_get [OF k(3) calculation(1)])
  ultimately show thesis using that by (simp add: mission_entry_def)
qed

lemma repo_inv_get':
  assumes "repo_inv r" "dict_get (re_objectives r) mid = Some obs"
  obtains m where "dict_get (re_missions r) mid = Some m" "objectives_entry mid obs"
    "dict_get (re_transitions r) mid \<noteq> None"
proof -
  have "same_keys r" using assms(1) by (simp add: repo_inv_def)
  then obtain m where m: "dict_get (re_missions r) mid = Some m"
    using same_keys_get(1) [of r mid] assms(2) by (cases "dict_get (re_missions r) mid") auto
  with assms that show thesis by (auto elim: repo_inv_get)
qed

section \<open>Single calls\<close>

definition audit_constants :: "string \<Rightarrow> string \<Rightarrow> bool" where
  "audit_constants reason actor \<longleftrightarrow> reason_code_ok reason \<and> 1 \<le> length actor \<and> length actor \<le> 128"

lemma coordinator_constants [simp]:
  "audit_constants ''MISSION_PREDICATES_PENDING'' coordinator_actor"
  "audit_constants ''MISSION_VERIFIED_COMPLETE'' coordinator_actor"
  "audit_constants ''MISSION_VERIFIED_COMPLETE'' ''mission-verifier''"
  "audit_constants ''LEAF_COMMAND_ELIGIBLE'' coordinator_actor"
  "audit_constants ''MISSION_ADMITTED'' coordinator_actor"
  "audit_constants ''AUTONOMOUS_PROPOSAL_ADMITTED'' coordinator_actor"
  "audit_constants ''MISSION_STOP_BARRIER'' coordinator_actor"
  "audit_constants ''STARTUP_CHILD_AMBIGUOUS'' coordinator_actor"
  "audit_constants ''CHILD_VERIFIED_COMPLETE'' coordinator_actor"
  "audit_constants ''CHILD_OUTCOME_UNKNOWN'' coordinator_actor"
  "audit_constants ''CHILD_VERIFICATION_FAILED'' coordinator_actor"
  "audit_constants ''REQUIRED_CHILD_FAILED'' coordinator_actor"
  "audit_constants ''BUDGET_EXHAUSTED_CHILD'' coordinator_actor"
  "audit_constants rebalance_reason coordinator_actor"
  by (simp_all add: audit_constants_def coordinator_actor_def rebalance_reason_def reason_code_ok_def
      is_upper_def is_digit_def code_def)

lemma audit_stores:
  assumes "dict_get (re_transitions r) (td_mission_id d) \<noteq> None" and "draft_ok d"
  obtains r' t where "audit r d = (r', Inr t)" "re_missions r' = re_missions r" "re_objectives r' = re_objectives r"
    "re_transitions r' = dict_set (td_mission_id d) (the (dict_get (re_transitions r) (td_mission_id d)) @ [t]) (re_transitions r)"
    "transition_draft.truncate t = d" "re_budgets r' = re_budgets r" "re_proposals r' = re_proposals r"
  using assms that by (auto simp: audit_def Let_def transition_draft.defs)

text \<open>A legal change of a mission's status at its version succeeds; every other one changes nothing.\<close>

lemma transition_mission_stored:
  assumes inv: "repo_inv r" and occ: "0 \<le> occ" and c: "audit_constants reason actor"
    and call: "transition_mission r mid e t reason actor occ det refs = (r', x)"
  obtains (refused) err where "x = Inl err" "r' = r"
      "\<And>m. dict_get (re_missions r) mid = Some m \<Longrightarrow> mr_version m = e \<Longrightarrow> \<not> validate_mission_transition (mr_status m) t"
  | (stored) m m' obs where "x = Inr m'" "dict_get (re_missions r) mid = Some m" "mr_version m = e"
      "validate_mission_transition (mr_status m) t" "mr_status m' = t" "mr_spec m' = mr_spec m" "mr_caller_scope m' = mr_caller_scope m"
      "dict_get (re_objectives r) mid = Some obs" "re_missions r' = dict_set mid m' (re_missions r)"
      "re_objectives r' = re_objectives r" "re_budgets r' = re_budgets r" "repo_inv r'"
      "lives r mid = Some (life_from m obs)" "lives r' = (lives r)(mid \<mapsto> (life_from m obs)\<lparr>ml_status := t\<rparr>)"
proof (cases "\<exists>m. dict_get (re_missions r) mid = Some m \<and> mr_version m = e \<and> validate_mission_transition (mr_status m) t")
  case False
  then show thesis
    using refused call by (auto simp: transition_mission_def split: option.splits if_splits)
next
  case True
  then obtain m where m: "dict_get (re_missions r) mid = Some m" "mr_version m = e"
    and legal: "validate_mission_transition (mr_status m) t" by blast
  obtain obs ts where obs: "dict_get (re_objectives r) mid = Some obs" "dict_get (re_transitions r) mid = Some ts"
      "0 \<le> mr_version m"
    using repo_inv_get [OF inv m(1)] by blast
  let ?m = "m\<lparr>mr_status := t, mr_version := mr_version m + 1, mr_updated_at_ms := occ\<rparr>"
  let ?r = "r\<lparr>re_missions := dict_set mid ?m (re_missions r)\<rparr>"
  let ?d = "\<lparr>td_mission_id = mid, td_objective_id = None, td_entity_version = mr_version ?m,
      td_from_state = Some (mission_status_value (mr_status m)), td_to_state = mission_status_value t,
      td_reason_code = reason, td_actor = actor, td_details = det, td_evidence_refs = refs, td_occurred_at_ms = occ\<rparr>"
  have "draft_ok ?d" using obs(3) occ c by (simp add: draft_ok_def audit_constants_def)
  moreover have "dict_get (re_transitions ?r) (td_mission_id ?d) \<noteq> None" using obs(2) by simp
  ultimately obtain r1 tr where a: "audit ?r ?d = (r1, Inr tr)" "re_missions r1 = re_missions ?r"
      "re_objectives r1 = re_objectives ?r" "re_budgets r1 = re_budgets ?r"
    by (metis audit_stores)
  have res: "r' = r1" "x = Inr ?m"
    using call m legal a(1) by (simp_all add: transition_mission_def Let_def)
  have "lives r' = (lives r)(mid \<mapsto> (life_from m obs)\<lparr>ml_status := t\<rparr>)"
    using lives_set_mission [OF obs(1), of r' ?m] life_from_status [of ?m m obs] a res by simp
  moreover have "lives r mid = Some (life_from m obs)" using m obs by (simp add: lives_def)
  ultimately show thesis
    using stored [OF res(2) m(1,2) legal _ _ _ obs(1)] a res repo_inv_transition_mission [OF inv call] by simp
qed

lemma store_objective_stored:
  assumes inv: "repo_inv r" and occ: "0 \<le> occ" and c: "audit_constants reason actor"
    and obs: "dict_get (re_objectives r) mid = Some obs" and f: "find_objective oid obs = Some (i, old)"
    and y: "or_version y = or_version old + 1"
    and call: "store_objective r mid obs i y st reason actor occ det refs = (r', x)"
  obtains m where "x = Inr y" "dict_get (re_missions r) mid = Some m" "re_missions r' = re_missions r"
    "re_objectives r' = dict_set mid (obs[i := y]) (re_objectives r)" "re_budgets r' = re_budgets r"
    "lives r mid = Some (life_from m obs)"
    "lives r' = (lives r)(mid \<mapsto> set_objective (life_from m obs) i (or_objective y, or_status y))"
proof -
  obtain m where m: "dict_get (re_missions r) mid = Some m" "objectives_entry mid obs" "dict_get (re_transitions r) mid \<noteq> None"
    using repo_inv_get' [OF inv obs] by blast
  note i = find_objective_nth [OF f]
  have "0 \<le> or_version y" using i m(2) y by (auto simp: objectives_entry_def dest!: nth_mem)
  let ?r = "r\<lparr>re_objectives := dict_set mid (obs[i := y]) (re_objectives r)\<rparr>"
  let ?d = "\<lparr>td_mission_id = mid, td_objective_id = Some (ob_objective_id (or_objective y)),
      td_entity_version = or_version y, td_from_state = Some (objective_status_value st),
      td_to_state = objective_status_value (or_status y), td_reason_code = reason, td_actor = actor,
      td_details = det, td_evidence_refs = refs, td_occurred_at_ms = occ\<rparr>"
  have "draft_ok ?d" using \<open>0 \<le> or_version y\<close> occ c by (simp add: draft_ok_def audit_constants_def)
  moreover have "dict_get (re_transitions ?r) (td_mission_id ?d) \<noteq> None" using m(3) by simp
  ultimately obtain r1 tr where a: "audit ?r ?d = (r1, Inr tr)" "re_missions r1 = re_missions ?r"
      "re_objectives r1 = re_objectives ?r" "re_budgets r1 = re_budgets ?r"
    by (metis audit_stores)
  have res: "r' = r1" "x = Inr y" using call a(1) by (simp_all add: store_objective_def Let_def)
  have "lives r' = (lives r)(mid \<mapsto> set_objective (life_from m obs) i (or_objective y, or_status y))"
    using lives_set_objectives [OF m(1), of r' "obs[i := y]"] life_from_objective [of m obs i y] a res by simp
  then show thesis using that m obs a res by (simp add: lives_def)
qed

lemma transition_objective_stored:
  assumes inv: "repo_inv r" and occ: "0 \<le> occ" and c: "audit_constants reason actor"
    and call: "transition_objective r mid oid e t reason actor occ det refs = (r', x)"
  obtains (refused) err where "x = Inl err" "r' = r"
  | (stored) m obs i ob where "dict_get (re_missions r) mid = Some m" "dict_get (re_objectives r) mid = Some obs"
      "i < length obs" "obs ! i = ob" "ob_objective_id (or_objective ob) = oid" "or_version ob = e"
      "validate_objective_transition (or_status ob) t (Some reason)"
      "x = Inr (ob\<lparr>or_status := t, or_version := or_version ob + 1\<rparr>)"
      "re_missions r' = re_missions r" "re_budgets r' = re_budgets r" "repo_inv r'"
      "lives r mid = Some (life_from m obs)" "lives r' = (lives r)(mid \<mapsto> set_objective (life_from m obs) i (or_objective ob, t))"
proof (cases "\<exists>obs i ob. dict_get (re_objectives r) mid = Some obs \<and> find_objective oid obs = Some (i, ob) \<and>
    or_version ob = e \<and> validate_objective_transition (or_status ob) t (Some reason)")
  case False
  then show thesis
    using refused call by (auto simp: transition_objective_def split: option.splits if_splits)
next
  case True
  then obtain obs i ob where obs: "dict_get (re_objectives r) mid = Some obs" "find_objective oid obs = Some (i, ob)"
    and e: "or_version ob = e" and legal: "validate_objective_transition (or_status ob) t (Some reason)" by blast
  let ?y = "ob\<lparr>or_status := t, or_version := or_version ob + 1\<rparr>"
  have st: "store_objective r mid obs i ?y (or_status ob) reason actor occ det refs = (r', x)"
    using call obs e legal by (simp add: transition_objective_def)
  have "or_version ?y = or_version ob + 1" by simp
  from store_objective_stored [OF inv occ c obs this st] obtain m where
    "x = Inr ?y" "dict_get (re_missions r) mid = Some m" "re_missions r' = re_missions r"
    "re_budgets r' = re_budgets r" "lives r mid = Some (life_from m obs)"
    "lives r' = (lives r)(mid \<mapsto> set_objective (life_from m obs) i (or_objective ?y, or_status ?y))" by blast
  then show thesis
    using stored [of m obs i ob] obs e legal find_objective_nth [OF obs(2)] repo_inv_transition_objective [OF inv call] by simp
qed

lemma replace_budget_stored:
  assumes inv: "repo_inv r" and occ: "0 \<le> occ" and c: "audit_constants reason actor"
    and call: "replace_objective_budget r mid oid e b reason actor occ goal det refs = (r', x)"
  obtains (refused) err where "x = Inl err" "r' = r"
  | (stored) m obs i ob ob' where "dict_get (re_missions r) mid = Some m" "dict_get (re_objectives r) mid = Some obs"
      "i < length obs" "obs ! i = ob" "ob_objective_id (or_objective ob) = oid" "or_version ob = e"
      "same_objective (or_objective ob) ob'" "x = Inr (ob\<lparr>or_objective := ob', or_version := or_version ob + 1\<rparr>)"
      "re_missions r' = re_missions r" "re_budgets r' = re_budgets r" "repo_inv r'"
      "lives r mid = Some (life_from m obs)" "lives r' = (lives r)(mid \<mapsto> set_objective (life_from m obs) i (ob', or_status ob))"
proof (cases "\<exists>obs i ob. dict_get (re_objectives r) mid = Some obs \<and> find_objective oid obs = Some (i, ob) \<and> or_version ob = e")
  case False
  then show thesis
    using refused call by (auto simp: replace_objective_budget_def split: option.splits(2) if_splits)
next
  case True
  then obtain obs i ob where obs: "dict_get (re_objectives r) mid = Some obs" "find_objective oid obs = Some (i, ob)"
    and e: "or_version ob = e" by blast
  define ob' where "ob' = (case goal of None \<Rightarrow> (or_objective ob)\<lparr>ob_budget := b\<rparr>
      | Some g \<Rightarrow> (or_objective ob)\<lparr>ob_budget := b, ob_goal := g\<rparr>)"
  let ?y = "ob\<lparr>or_objective := ob', or_version := or_version ob + 1\<rparr>"
  have same: "same_objective (or_objective ob) ob'" by (simp add: same_objective_def ob'_def split: option.splits)
  have st: "store_objective r mid obs i ?y (or_status ob) reason actor occ det refs = (r', x)"
    using call obs e by (simp add: replace_objective_budget_def ob'_def Let_def split: option.splits)
  have "or_version ?y = or_version ob + 1" by simp
  from store_objective_stored [OF inv occ c obs this st] obtain m where
    "x = Inr ?y" "dict_get (re_missions r) mid = Some m" "re_missions r' = re_missions r"
    "re_budgets r' = re_budgets r" "lives r mid = Some (life_from m obs)"
    "lives r' = (lives r)(mid \<mapsto> set_objective (life_from m obs) i (or_objective ?y, or_status ?y))" by blast
  then show thesis
    using stored [of m obs i ob ob'] obs e same find_objective_nth [OF obs(2)] repo_inv_replace_budget [OF inv call] by simp
qed

lemma append_objective_stored:
  assumes inv: "repo_inv r" and occ: "0 \<le> occ" and c: "audit_constants reason actor"
    and call: "append_objective r mid ob reason actor occ refs = (r', x)"
  obtains (refused) err where "x = Inl err" "r' = r"
  | (stored) m obs y where "dict_get (re_missions r) mid = Some m" "x = Inr y"
      "ob_objective_id ob \<notin> ob_objective_id ` fst ` set (ml_objectives (life_from m obs))"
      "re_missions r' = re_missions r" "re_budgets r' = re_budgets r" "repo_inv r'"
      "lives r mid = Some (life_from m obs)"
      "lives r' = (lives r)(mid \<mapsto> (life_from m obs)\<lparr>ml_objectives := ml_objectives (life_from m obs) @ [(ob, OPending)]\<rparr>)"
proof (cases "\<exists>obs. dict_get (re_objectives r) mid = Some obs \<and> \<not> list_ex (\<lambda>x. ob_objective_id (or_objective x) = ob_objective_id ob) obs")
  case False
  then show thesis
    using refused call by (auto simp: append_objective_def split: option.splits if_splits)
next
  case True
  then obtain obs where obs: "dict_get (re_objectives r) mid = Some obs"
    and new: "\<not> list_ex (\<lambda>x. ob_objective_id (or_objective x) = ob_objective_id ob) obs" by blast
  obtain m where m: "dict_get (re_missions r) mid = Some m" "dict_get (re_transitions r) mid \<noteq> None"
    using repo_inv_get' [OF inv obs] by blast
  let ?y = "new_objective_record mid (length obs) ob"
  let ?r = "r\<lparr>re_objectives := dict_set mid (obs @ [?y]) (re_objectives r)\<rparr>"
  let ?d = "\<lparr>td_mission_id = mid, td_objective_id = Some (ob_objective_id ob), td_entity_version = 0,
      td_from_state = None, td_to_state = objective_status_value OPending, td_reason_code = reason,
      td_actor = actor, td_details = [], td_evidence_refs = refs, td_occurred_at_ms = occ\<rparr>"
  have "draft_ok ?d" using occ c by (simp add: draft_ok_def audit_constants_def)
  moreover have "dict_get (re_transitions ?r) (td_mission_id ?d) \<noteq> None" using m(2) by simp
  ultimately obtain r1 tr where a: "audit ?r ?d = (r1, Inr tr)" "re_missions r1 = re_missions ?r"
      "re_objectives r1 = re_objectives ?r" "re_budgets r1 = re_budgets ?r"
    by (metis audit_stores)
  have res: "r' = r1" "x = Inr ?y" using call obs new a(1) by (simp_all add: append_objective_def Let_def)
  have "lives r' = (lives r)(mid \<mapsto> life_from m (obs @ [?y]))"
    using lives_set_objectives [OF m(1), of r' "obs @ [?y]"] a res by simp
  moreover have "life_from m (obs @ [?y]) = (life_from m obs)\<lparr>ml_objectives := ml_objectives (life_from m obs) @ [(ob, OPending)]\<rparr>"
    by (simp add: life_from_def new_objective_record_def)
  moreover have "ob_objective_id ob \<notin> ob_objective_id ` fst ` set (ml_objectives (life_from m obs))"
    using new by (auto simp: list_ex_iff)
  ultimately show thesis
    using stored [OF m(1) res(2)] a res m obs repo_inv_append_objective [OF inv call] by (simp add: lives_def)
qed

end
