(* ===== verification/Mission_Coordinator_Life.thy ===== *)
theory Mission_Coordinator_Life
  imports Mission_Calls
begin

text \<open>
  Every method of the coordinator moves the mission it is called for along its abstract life, and
  leaves the other missions alone.
\<close>

section \<open>Moves\<close>

definition moves :: "bool \<Rightarrow> string \<Rightarrow> repository \<Rightarrow> repository \<Rightarrow> bool" where
  "moves calm mid r r' \<longleftrightarrow> repo_inv r' \<and>
     (lives r' = lives r \<or>
      (\<exists>l l'. lives r mid = Some l \<and> lives r' = (lives r)(mid \<mapsto> l') \<and> (life_move calm)\<^sup>*\<^sup>* l l'))"

lemma moves_refl [simp]: "repo_inv r \<Longrightarrow> moves calm mid r r"
  by (simp add: moves_def)

lemma moves_frame: "repo_inv r' \<Longrightarrow> lives r' = lives r \<Longrightarrow> moves calm mid r r'"
  by (simp add: moves_def)

lemma moves_inv: "moves calm mid r r' \<Longrightarrow> repo_inv r'"
  by (simp add: moves_def)

lemma moves_trans [trans]:
  assumes "moves calm mid a b" and "moves calm mid b c" shows "moves calm mid a c"
proof (cases "lives b = lives a \<or> lives c = lives b")
  case True
  with assms show ?thesis by (auto simp: moves_def)
next
  case False
  with assms obtain l l' l'' where "lives a mid = Some l" "lives b = (lives a)(mid \<mapsto> l')" "(life_move calm)\<^sup>*\<^sup>* l l'"
      "lives c = (lives b)(mid \<mapsto> l'')" "(life_move calm)\<^sup>*\<^sup>* l' l''"
    by (auto simp: moves_def)
  with assms(2) show ?thesis unfolding moves_def by (intro conjI disjI2 exI [of _ l] exI [of _ l'']) auto
qed

lemma moves_step:
  "repo_inv r' \<Longrightarrow> lives r mid = Some l \<Longrightarrow> lives r' = (lives r)(mid \<mapsto> l') \<Longrightarrow> life_move calm l l' \<Longrightarrow> moves calm mid r r'"
  unfolding moves_def by (intro conjI disjI2 exI [of _ l] exI [of _ l']) auto

section \<open>Snapshots\<close>

lemma snapshot_sel:
  assumes "mission_snapshot_of r mid = Inr sn"
  shows "dict_get (re_missions r) mid = Some (sn_mission sn)" "dict_get (re_objectives r) mid = Some (sn_objectives sn)"
    and "dict_get (re_transitions r) mid = Some (sn_transitions sn)" "dict_get (re_proposals r) mid = Some (sn_proposals sn)"
    and "sn_budget sn = dict_get (re_budgets r) mid"
    and "lives r mid = Some (life_from (sn_mission sn) (sn_objectives sn))"
  using assms by (auto simp: mission_snapshot_of_def list_objectives_def lives_def split: option.splits)

lemma List_find_None: "List.find P xs = None \<longleftrightarrow> (\<forall>x\<in>set xs. \<not> P x)"
  by (auto simp: find_None_iff)

lemma List_find_mem: "List.find P xs = Some x \<Longrightarrow> x \<in> set xs \<and> P x"
  by (auto simp: find_Some_iff)

lemma active_objective_None:
  "active_objective sn = None \<longleftrightarrow> life_active (life_from m (sn_objectives sn)) = {}"
  unfolding active_objective_def List_find_None by (auto simp: life_active_def all_set_conv_all_nth)

lemma completed_ids_life: "completed_ids sn = life_completed (life_from m (sn_objectives sn))"
  by (auto simp: completed_ids_def life_completed_def) force

lemma required_complete_life:
  "required_complete sn \<longleftrightarrow> (\<forall>(ob, st)\<in>set (ml_objectives (life_from m (sn_objectives sn))). ob_required ob \<longrightarrow> st = OCompleted)"
  by (auto simp: required_complete_def list_all_iff)

lemma objective_unique:
  assumes "objectives_entry mid obs" "x \<in> set obs" "i < length obs"
    and "ob_objective_id (or_objective (obs ! i)) = ob_objective_id (or_objective x)"
  shows "obs ! i = x"
proof -
  have d: "distinct (map (\<lambda>x. ob_objective_id (or_objective x)) obs)" using assms(1) by (simp add: objectives_entry_def)
  have "inj_on (\<lambda>x. ob_objective_id (or_objective x)) (set obs)" using d by (simp add: distinct_map)
  with assms(2-4) show ?thesis by (auto dest: inj_onD)
qed

lemma snapshot_objective:
  assumes "repo_inv r" "mission_snapshot_of r mid = Inr sn" "x \<in> set (sn_objectives sn)"
    and "dict_get (re_objectives r) mid = Some obs" "i < length obs" "obs ! i = ob"
    and "ob_objective_id (or_objective ob) = ob_objective_id (or_objective x)"
  shows "ob = x"
proof -
  have "obs = sn_objectives sn" using snapshot_sel(2) [OF assms(2)] assms(4) by simp
  moreover have "objectives_entry mid obs"
    using assms(1,4) by (elim repo_inv_get')
  ultimately show ?thesis using objective_unique [of mid obs x i] assms by simp
qed

section \<open>Advancing\<close>

lemma advance_idle_moves:
  assumes inv: "repo_inv (wd_repository w)" and occ: "0 \<le> occ"
    and sn: "mission_snapshot_of (wd_repository w) mid = Inr sn" and idle: "active_objective sn = None"
  shows "sure (advance_idle mid sn occ) w (\<lambda>w' x. moves calm mid (wd_repository w) (wd_repository w'))"
proof -
  let ?target = "idle_target (mr_spec (sn_mission sn))"
  let ?reason = "if ?target = MWaitingEvidence then ''MISSION_PREDICATES_PENDING'' else ''MISSION_VERIFIED_COMPLETE''"
  obtain r x where call: "transition_mission (wd_repository w) mid (mr_version (sn_mission sn)) ?target ?reason coordinator_actor occ [] [] = (r, x)"
    by (cases "transition_mission (wd_repository w) mid (mr_version (sn_mission sn)) ?target ?reason coordinator_actor occ [] []")
  have c: "audit_constants ?reason coordinator_actor" by simp
  have "moves calm mid (wd_repository w) r" if "required_complete sn"
    using inv occ c call
  proof (cases rule: transition_mission_stored)
    case (stored m m' obs)
    then have "m = sn_mission sn" "obs = sn_objectives sn" using snapshot_sel [OF sn] by simp_all
    then have "life_move calm (life_from m obs) ((life_from m obs)\<lparr>ml_status := ?target\<rparr>)"
      using life_idle [of "life_from m obs" calm] stored(4) idle active_objective_None [of sn m] that
        required_complete_life [of sn m] by simp
    then show ?thesis using moves_step [OF stored(12,13,14)] by simp
  qed (use inv in simp)
  then show ?thesis
    using call inv
    by (auto simp: advance_idle_def Let_def idle_target_def sure_and_then sure_on_repository sure_simps split: sum.split)
qed

lemma dispatch_moves:
  assumes inv: "repo_inv (wd_repository w)" and occ: "0 \<le> occ"
    and sn: "mission_snapshot_of (wd_repository w) mid = Inr sn" and idle: "active_objective sn = None"
    and ob: "ob \<in> set (ready_objectives sn)" and calm: "calm \<Longrightarrow> \<not> terminal_mission (mr_status (sn_mission sn))"
  shows "sure (dispatch_objective co mid scope sn ob occ) w (\<lambda>w' x. moves calm mid (wd_repository w) (wd_repository w'))"
proof -
  let ?r = "wd_repository w" and ?m = "sn_mission sn" and ?oid = "ob_objective_id (or_objective ob)"
  let ?l = "life_from ?m (sn_objectives sn)"
  have mem: "ob \<in> set (sn_objectives sn)" "or_status ob = OPending" "set (ob_dependencies (or_objective ob)) \<subseteq> life_completed ?l"
    using ob completed_ids_life [of sn ?m] by (auto simp: ready_objectives_def)
  have start: "sure (and_then
      (on_repository (\<lambda>r. transition_objective r mid ?oid (or_version ob) OActiveState ''LEAF_COMMAND_ELIGIBLE''
         coordinator_actor occ det [])) (\<lambda>_.
      and_then (if mr_status ?m = MPlanning \<or> mr_status ?m = MWaitingEvidence
        then on_repository (\<lambda>r. transition_mission r mid (mr_version ?m) MRunning ''LEAF_COMMAND_ELIGIBLE''
               coordinator_actor occ det [])
        else returning ?m) (\<lambda>m'. returning (f m')))) w1 (\<lambda>w' x. moves calm mid ?r (wd_repository w'))"
    if w1: "wd_repository w1 = ?r" for w1 det and f :: "mission_record \<Rightarrow> advance_result"
  proof -
    obtain r1 x1 where c1: "transition_objective ?r mid ?oid (or_version ob) OActiveState ''LEAF_COMMAND_ELIGIBLE''
        coordinator_actor occ det [] = (r1, x1)"
      by (cases "transition_objective ?r mid ?oid (or_version ob) OActiveState ''LEAF_COMMAND_ELIGIBLE''
        coordinator_actor occ det []")
    obtain r2 x2 where c2: "transition_mission r1 mid (mr_version ?m) MRunning ''LEAF_COMMAND_ELIGIBLE'' coordinator_actor occ det [] = (r2, x2)"
      by (cases "transition_mission r1 mid (mr_version ?m) MRunning ''LEAF_COMMAND_ELIGIBLE'' coordinator_actor occ det []")
    from inv occ coordinator_constants(4) c1 show ?thesis
    proof (cases rule: transition_objective_stored)
      case (refused err)
      then show ?thesis using c1 w1 inv by (simp add: sure_and_then sure_on_repository)
    next
      case (stored m obs i ob')
      have same: "m = ?m" "obs = sn_objectives sn" using stored(1,2) snapshot_sel [OF sn] by simp_all
      have "ob' = ob" by (rule snapshot_objective [OF inv sn mem(1) stored(2-5)])
      then have l1: "lives r1 = (lives ?r)(mid \<mapsto> set_objective ?l i (or_objective ob, OActiveState))"
        using stored(13) same by simp
      let ?l' = "(set_objective ?l i (or_objective ob, OActiveState))\<lparr>ml_status := started_status (mr_status ?m)\<rparr>"
      have step: "life_move calm ?l ?l'"
        using life_start [of i ?l "or_objective ob" calm] stored(3,4) mem idle active_objective_None [of sn ?m] calm same \<open>ob' = ob\<close>
        by simp
      show ?thesis
      proof (cases "mr_status ?m = MPlanning \<or> mr_status ?m = MWaitingEvidence")
        case False
        then have "?l' = set_objective ?l i (or_objective ob, OActiveState)" by (simp add: started_status_def)
        then have "moves calm mid ?r r1" using moves_step [OF stored(11) _ l1] step snapshot_sel(6) [OF sn] by simp
        with False show ?thesis using c1 stored(8) w1 by (simp add: sure_and_then sure_on_repository sure_simps)
      next
        case True
        have m1: "dict_get (re_missions r1) mid = Some ?m" using stored(1,9) same by simp
        have legal: "validate_mission_transition (mr_status ?m) MRunning"
          using True by (auto simp: validate_mission_transition_def)
        from stored(11) occ coordinator_constants(4) c2 have "moves calm mid ?r r2 \<and> (\<exists>m2. x2 = Inr m2)"
        proof (cases rule: transition_mission_stored)
          case (refused err)
          then show ?thesis using m1 legal by blast
        next
          case (stored m2 m2' obs2)
          have "life_from m2 obs2 = set_objective ?l i (or_objective ob, OActiveState)"
            using stored(13) l1 by simp
          then have "lives r2 = (lives ?r)(mid \<mapsto> ?l')"
            using stored(14) l1 True by (simp add: started_status_def)
          with stored(1) show ?thesis using moves_step [OF stored(12) snapshot_sel(6) [OF sn] _ step] by blast
        qed
        with True show ?thesis using c1 c2 stored(8) w1 by (auto simp: sure_and_then sure_on_repository sure_simps)
      qed
    qed
  qed
  show ?thesis
  proof (cases "command_draft_ok (objective_draft co mid scope (mr_spec ?m) ob occ)")
    case False
    then show ?thesis using inv by (simp add: dispatch_objective_def Let_def sure_simps)
  next
    case True
    obtain s x where j: "create_command (wd_journal w) (objective_draft co mid scope (mr_spec ?m) ob occ) = (s, x)"
      by (cases "create_command (wd_journal w) (objective_draft co mid scope (mr_spec ?m) ob occ)")
    show ?thesis
    proof (cases x)
      case (Inl e)
      with True j inv show ?thesis by (simp add: dispatch_objective_def Let_def sure_and_then sure_on_journal)
    next
      case (Inr y)
      then obtain c b where y: "x = Inr (c, b)" by (cases y) auto
      have "wd_repository (w\<lparr>wd_journal := s\<rparr>) = ?r" by simp
      from start [OF this] True j y show ?thesis
        by (simp add: dispatch_objective_def Let_def sure_and_then [of "on_journal _"] sure_on_journal)
    qed
  qed
qed

lemma advance_moves:
  assumes inv: "repo_inv (wd_repository w)" and occ: "0 \<le> occ"
    and calm: "\<And>l. calm \<Longrightarrow> lives (wd_repository w) mid = Some l \<Longrightarrow> \<not> terminal_mission (ml_status l)"
  shows "sure (advance_mission co mid scope occ) w (\<lambda>w' x. moves calm mid (wd_repository w) (wd_repository w'))"
proof (cases "mission_snapshot_of (wd_repository w) mid")
  case (Inl e)
  then show ?thesis using inv by (simp add: advance_mission_def sure_with_snapshot)
next
  case (Inr sn)
  have calm': "calm \<Longrightarrow> \<not> terminal_mission (mr_status (sn_mission sn))"
    using calm snapshot_sel(6) [OF Inr] by simp
  show ?thesis
  proof (cases "active_objective sn")
    case (Some a)
    with Inr show ?thesis using inv by (simp add: advance_mission_def sure_with_snapshot sure_simps)
  next
    case None
    show ?thesis
    proof (cases "min_by (\<lambda>x. (- ob_priority (or_objective x), or_ordinal x)) (ready_objectives sn)")
      case n: None
      with Inr None show ?thesis
        using advance_idle_moves [OF inv occ Inr None] by (simp add: advance_mission_def sure_with_snapshot)
    next
      case (Some ob)
      then have "ob \<in> set (ready_objectives sn)" by (rule min_by_mem)
      with Inr None Some show ?thesis
        using dispatch_moves [OF inv occ Inr None _ calm'] by (simp add: advance_mission_def sure_with_snapshot)
    qed
  qed
qed

section \<open>Composing calls\<close>

text \<open>What holds of the result besides the moves is asked of a return only.\<close>

lemma sure_moves_result:
  assumes "sure m w (\<lambda>w' x. moves calm mid (wd_repository w) (wd_repository w') \<and> P w' x)"
    and "\<And>w' y. moves calm mid (wd_repository w) (wd_repository w') \<Longrightarrow> P w' (Inr y) \<Longrightarrow>
      sure (f y) w' (\<lambda>w'' x. moves calm mid (wd_repository w') (wd_repository w'') \<and> (\<forall>z. x = Inr z \<longrightarrow> R w'' z))"
  shows "sure (and_then m f) w (\<lambda>w' x. moves calm mid (wd_repository w) (wd_repository w') \<and> (\<forall>z. x = Inr z \<longrightarrow> R w' z))"
  by (rule sure_step [OF assms(1)]) (use assms(2) in \<open>auto simp: sure_def intro: moves_trans\<close>)

lemma sure_moves_then:
  assumes "sure m w (\<lambda>w' x. moves calm mid (wd_repository w) (wd_repository w') \<and> P w' x)"
    and "\<And>w' y. moves calm mid (wd_repository w) (wd_repository w') \<Longrightarrow> P w' (Inr y) \<Longrightarrow>
      sure (f y) w' (\<lambda>w'' x. moves calm mid (wd_repository w') (wd_repository w''))"
  shows "sure (and_then m f) w (\<lambda>w' x. moves calm mid (wd_repository w) (wd_repository w'))"
  using sure_moves_result [OF assms(1), of f "\<lambda>_ _. True"] assms(2) by simp

lemma sure_repository_then:
  assumes "f (wd_repository w) = (r, Inr y)" "moves calm mid (wd_repository w) r"
    and "sure (g y) (w\<lparr>wd_repository := r\<rparr>) (\<lambda>w' x. moves calm mid r (wd_repository w'))"
  shows "sure (and_then (on_repository f) g) w (\<lambda>w' x. moves calm mid (wd_repository w) (wd_repository w'))"
proof -
  from assms(3) have "sure (g y) (w\<lparr>wd_repository := r\<rparr>) (\<lambda>w' x. moves calm mid (wd_repository w) (wd_repository w'))"
    by (rule sure_mono) (rule moves_trans [OF assms(2)])
  with assms(1) show ?thesis by (simp add: sure_and_then sure_on_repository)
qed

lemma sure_journal_then:
  assumes "\<And>s y. f (wd_journal w) = (s, Inr y) \<Longrightarrow>
      sure (g y) (w\<lparr>wd_journal := s\<rparr>) (\<lambda>w' x. moves calm mid (wd_repository w) (wd_repository w'))"
    and "repo_inv (wd_repository w)"
  shows "sure (and_then (on_journal f) g) w (\<lambda>w' x. moves calm mid (wd_repository w) (wd_repository w'))"
  using assms by (auto simp: sure_and_then sure_on_journal split: prod.split sum.split)

definition same_tables :: "repository \<Rightarrow> repository \<Rightarrow> bool" where
  "same_tables r r' \<longleftrightarrow> re_missions r' = re_missions r \<and> re_objectives r' = re_objectives r \<and> repo_inv r'"

lemma same_tables_lives: "same_tables r r' \<Longrightarrow> lives r' = lives r"
  by (intro lives_frame) (simp_all add: same_tables_def)

lemma same_tables_trans: "same_tables a b \<Longrightarrow> same_tables b c \<Longrightarrow> same_tables a c"
  by (simp add: same_tables_def)

lemma same_tables_moves: "same_tables r r' \<Longrightarrow> moves calm mid r r'"
  using same_tables_lives [of r r'] by (simp add: moves_def same_tables_def)

lemma rest_frame:
  shows "save_proposal r p dn occ = (r', x) \<Longrightarrow> repo_inv r \<Longrightarrow> same_tables r r'"
    and "save_mission_budget r mid b = (r', x') \<Longrightarrow> repo_inv r \<Longrightarrow> same_tables r r'"
    and "link_evidence r l = (r', x') \<Longrightarrow> repo_inv r \<Longrightarrow> same_tables r r'"
  unfolding same_tables_def
  using repo_inv_rest(1) [of r p dn occ r' x] repo_inv_rest(2) [of r mid b r' x'] repo_inv_rest(3) [of r l r' x']
  by (auto simp: save_proposal_def save_mission_budget_def link_evidence_def Let_def split: option.splits if_splits)

lemma sure_save_budget:
  "repo_inv (wd_repository w) \<Longrightarrow>
   sure (on_repository (\<lambda>r. save_mission_budget r mid b)) w (\<lambda>w' x. same_tables (wd_repository w) (wd_repository w'))"
  by (auto simp: sure_on_repository dest: rest_frame(2) split: prod.split sum.split)

lemma sure_save_proposal:
  "repo_inv (wd_repository w) \<Longrightarrow>
   sure (on_repository (\<lambda>r. save_proposal r p dn occ)) w (\<lambda>w' x. same_tables (wd_repository w) (wd_repository w'))"
  by (auto simp: sure_on_repository dest: rest_frame(1) split: prod.split sum.split)

lemma sure_link_refs:
  "repo_inv (wd_repository w) \<Longrightarrow>
   sure (link_refs co t n refs) w (\<lambda>w' x. same_tables (wd_repository w) (wd_repository w'))"
proof (induction refs arbitrary: n w)
  case (Cons ref refs)
  show ?case
  proof (cases "make_evidence_link (child_link co t n ref)")
    case (Some l)
    have "sure (on_repository (\<lambda>r. link_evidence r l)) w (\<lambda>w' x. same_tables (wd_repository w) (wd_repository w'))"
      using Cons.prems by (auto simp: sure_on_repository dest: rest_frame(3) split: prod.split sum.split)
    then show ?thesis unfolding link_refs.simps Some option.case
    proof (rule sure_step)
      fix w' :: mission_world assume s: "same_tables (wd_repository w) (wd_repository w')"
      then have "repo_inv (wd_repository w')" by (simp add: same_tables_def)
      from Cons.IH [OF this] show "sure (link_refs co t (Suc n) refs) w' (\<lambda>w' x. same_tables (wd_repository w) (wd_repository w'))"
        by (rule sure_mono) (rule same_tables_trans [OF s])
    qed
  qed (use Cons.prems in \<open>simp add: sure_simps same_tables_def\<close>)
qed (simp add: sure_simps same_tables_def)

text \<open>A call that leaves the lives alone, and what follows it.\<close>

lemma sure_tables_result:
  assumes "sure m w (\<lambda>w' x. same_tables (wd_repository w) (wd_repository w'))"
    and "\<And>w' y. same_tables (wd_repository w) (wd_repository w') \<Longrightarrow> repo_inv (wd_repository w') \<Longrightarrow>
      lives (wd_repository w') = lives (wd_repository w) \<Longrightarrow>
      sure (f y) w' (\<lambda>w'' x. moves calm mid (wd_repository w') (wd_repository w'') \<and> (\<forall>z. x = Inr z \<longrightarrow> R w'' z))"
  shows "sure (and_then m f) w (\<lambda>w' x. moves calm mid (wd_repository w) (wd_repository w') \<and> (\<forall>z. x = Inr z \<longrightarrow> R w' z))"
proof (rule sure_moves_result [where P = "\<lambda>w' x. same_tables (wd_repository w) (wd_repository w')"])
  show "sure m w (\<lambda>w' x. moves calm mid (wd_repository w) (wd_repository w') \<and> same_tables (wd_repository w) (wd_repository w'))"
    using assms(1) by (rule sure_mono) (simp add: same_tables_moves)
qed (use assms(2) same_tables_lives in \<open>auto simp: same_tables_def\<close>)

lemma sure_tables_then:
  assumes "sure m w (\<lambda>w' x. same_tables (wd_repository w) (wd_repository w'))"
    and "\<And>w' y. same_tables (wd_repository w) (wd_repository w') \<Longrightarrow> repo_inv (wd_repository w') \<Longrightarrow>
      lives (wd_repository w') = lives (wd_repository w) \<Longrightarrow>
      sure (f y) w' (\<lambda>w'' x. moves calm mid (wd_repository w') (wd_repository w''))"
  shows "sure (and_then m f) w (\<lambda>w' x. moves calm mid (wd_repository w) (wd_repository w'))"
  using sure_tables_result [OF assms(1), of f calm mid "\<lambda>_ _. True"] assms(2) by simp

section \<open>Submission\<close>

lemma life_from_new:
  "ml_objectives (life_from m (map (\<lambda>(n, ob). new_objective_record mid n ob) (enumerate k obs))) = map (\<lambda>ob. (ob, OPending)) obs"
  by (induction obs arbitrary: k) (simp_all add: new_objective_record_def)

lemma create_mission_stored:
  assumes "create_mission h r scope rid spec occ = (r', x)"
  obtains (same) "r' = r" "\<And>m. x \<noteq> Inr (m, False)"
  | (created) m where "x = Inr (m, False)" "lives r (ms_mission_id spec) = None" "mr_spec m = spec"
      "lives r' = (lives r)(ms_mission_id spec \<mapsto> new_life spec)"
proof (cases "\<exists>m. x = Inr (m, False)")
  case False
  then have "r' = r" using assms by (auto simp: create_mission_def Let_def split: option.splits if_splits prod.splits)
  with False show thesis using same by blast
next
  case True
  let ?mid = "ms_mission_id spec" and ?m = "new_mission_record h scope rid spec occ"
  let ?obs = "map (\<lambda>(n, ob). new_objective_record (ms_mission_id spec) n ob) (enumerate 0 (ms_objectives spec))"
  have none: "dict_get (re_missions r) ?mid = None" "x = Inr (?m, False)"
      "re_missions r' = dict_set ?mid ?m (re_missions r)" "re_objectives r' = dict_set ?mid ?obs (re_objectives r)"
    using assms True by (auto simp: create_mission_def Let_def split: option.splits if_splits prod.splits)
  have "life_from ?m ?obs = new_life spec"
    using life_from_new [of ?m "ms_mission_id spec" 0 "ms_objectives spec"]
    by (simp add: new_life_def new_mission_record_def life_from_def)
  then have "lives r' = (lives r)(?mid \<mapsto> new_life spec)"
    using none by (simp add: lives_def fun_eq_iff dict_simps)
  then show thesis using created none by (simp add: lives_def new_mission_record_def)
qed

text \<open>A submission creates a new life and moves it, or moves nothing.\<close>

definition submission_moves :: "bool \<Rightarrow> mission_spec \<Rightarrow> repository \<Rightarrow> repository \<Rightarrow> bool" where
  "submission_moves calm spec r r' \<longleftrightarrow> repo_inv r' \<and>
     (lives r' = lives r \<or>
      (lives r (ms_mission_id spec) = None \<and>
       (\<exists>l'. lives r' = (lives r)(ms_mission_id spec \<mapsto> l') \<and> (life_move calm)\<^sup>*\<^sup>* (new_life spec) l')))"

lemma submit_moves:
  assumes inv: "repo_inv (wd_repository w)" and occ: "0 \<le> occ"
    and spec: "mission_fields_ok spec" "mission_check cv spec = Inr ()"
  shows "sure (submit_mission co scope rid spec occ) w (\<lambda>w' x. submission_moves calm spec (wd_repository w) (wd_repository w'))"
proof -
  let ?mid = "ms_mission_id spec"
  obtain r1 x1 where c1: "create_mission (co_spec_hash co) (wd_repository w) scope rid spec occ = (r1, x1)"
    by (cases "create_mission (co_spec_hash co) (wd_repository w) scope rid spec occ")
  have inv1: "repo_inv r1" by (rule repo_inv_create [OF inv spec c1])
  let ?w1 = "w\<lparr>wd_repository := r1\<rparr>"
  from c1 show ?thesis
  proof (cases rule: create_mission_stored)
    case same
    then show ?thesis using c1 inv
      by (auto simp: submit_mission_def sure_and_then sure_on_repository sure_with_snapshot sure_simps submission_moves_def
          split: sum.splits)
  next
    case (created m)
    have tail: "sure (with_budget (initial_budget_account spec) (\<lambda>account.
         and_then (on_repository (\<lambda>r. save_mission_budget r ?mid account)) (\<lambda>_.
         and_then
           (on_repository (\<lambda>r. transition_mission r ?mid (mr_version m) MPlanning ''MISSION_ADMITTED''
              coordinator_actor occ [] [])) (\<lambda>m'.
         advance_mission co (ms_mission_id (mr_spec m')) scope occ)))) ?w1
        (\<lambda>w' x. moves calm ?mid r1 (wd_repository w'))"
    proof (cases "initial_budget_account spec")
      case (Inl e)
      then show ?thesis using inv1 by (simp add: sure_with_budget)
    next
      case (Inr account)
      have "sure (and_then
           (on_repository (\<lambda>r. transition_mission r ?mid (mr_version m) MPlanning ''MISSION_ADMITTED''
              coordinator_actor occ [] [])) (\<lambda>m'. advance_mission co (ms_mission_id (mr_spec m')) scope occ)) w2
          (\<lambda>w' x. moves calm ?mid (wd_repository w2) (wd_repository w'))"
        if w2: "lives (wd_repository w2) = lives r1" "repo_inv (wd_repository w2)" for w2
      proof -
        obtain r3 x3 where c3: "transition_mission (wd_repository w2) ?mid (mr_version m) MPlanning ''MISSION_ADMITTED''
              coordinator_actor occ [] [] = (r3, x3)"
          by (cases "transition_mission (wd_repository w2) ?mid (mr_version m) MPlanning ''MISSION_ADMITTED''
              coordinator_actor occ [] []")
        from w2(2) occ coordinator_constants(5) c3 show ?thesis
        proof (cases rule: transition_mission_stored)
          case (refused err)
          then show ?thesis using c3 w2 by (simp add: sure_and_then sure_on_repository)
        next
          case (stored m3 m3' obs)
          have l: "life_from m3 obs = new_life spec" using stored(13) w2(1) created(4) by simp
          have id: "ms_mission_id (mr_spec m3') = ?mid" using l stored(6) by (simp add: life_from_def new_life_def)
          have "life_move calm (life_from m3 obs) ((life_from m3 obs)\<lparr>ml_status := MPlanning\<rparr>)"
            using l by (intro life_plan) (simp add: new_life_def)
          then have mv: "moves calm ?mid (wd_repository w2) r3" using moves_step [OF stored(12,13,14)] by simp
          have "sure (advance_mission co ?mid scope occ) (w2\<lparr>wd_repository := r3\<rparr>) (\<lambda>w' x. moves calm ?mid (wd_repository (w2\<lparr>wd_repository := r3\<rparr>)) (wd_repository w'))"
            using stored(12,14) by (intro advance_moves [OF _ occ]) (auto simp: terminal_mission_def)
          then show ?thesis
            using c3 stored(1) by (intro sure_repository_then [where y = m3', OF _ mv]) (simp_all add: id)
        qed
      qed
      then have "sure (and_then (on_repository (\<lambda>r. save_mission_budget r ?mid account)) (\<lambda>_.
         and_then (on_repository (\<lambda>r. transition_mission r ?mid (mr_version m) MPlanning ''MISSION_ADMITTED''
              coordinator_actor occ [] [])) (\<lambda>m'. advance_mission co (ms_mission_id (mr_spec m')) scope occ))) ?w1
          (\<lambda>w' x. moves calm ?mid (wd_repository ?w1) (wd_repository w'))"
        using inv1 by (intro sure_tables_then [OF sure_save_budget]) auto
      with Inr show ?thesis by (simp add: sure_with_budget)
    qed
    then have "sure (submit_mission co scope rid spec occ) w (\<lambda>w' x. moves calm ?mid r1 (wd_repository w'))"
      using c1 created(1) by (simp add: submit_mission_def sure_and_then [of "on_repository (\<lambda>r. create_mission _ r _ _ _ _)"] sure_on_repository)
    then show ?thesis
      by (rule sure_mono) (use created in \<open>auto simp: submission_moves_def moves_def\<close>)
  qed
qed

end
