(* ===== verification/Mission_Child_Life.thy ===== *)
theory Mission_Child_Life
  imports Mission_Coordinator_Life
begin

text \<open>The remaining methods of the coordinator move the mission they are called for along its life.\<close>

section \<open>Exploration\<close>

lemma admit_child_moves:
  assumes inv: "repo_inv (wd_repository w)" and occ: "0 \<le> occ"
    and sn: "mission_snapshot_of (wd_repository w) mid = Inr sn" and t: "\<not> terminal_mission (mr_status (sn_mission sn))"
  shows "sure (admit_child co mid sn p dn cx occ outcome) w (\<lambda>w' x. moves calm mid (wd_repository w) (wd_repository w'))"
proof -
  let ?l = "life_from (sn_mission sn) (sn_objectives sn)"
  have tail: "sure (and_then
         (on_repository (\<lambda>r. append_objective r mid (child_objective co p) ''AUTONOMOUS_PROPOSAL_ADMITTED''
            coordinator_actor occ (gp_evidence_refs p))) (\<lambda>_.
       and_then (advance_mission co mid (mr_caller_scope (sn_mission sn)) occ) (\<lambda>a. returning (f a)))) w2
      (\<lambda>w' x. moves calm mid (wd_repository w2) (wd_repository w'))"
    if w2: "repo_inv (wd_repository w2)" "lives (wd_repository w2) mid = Some ?l" for w2 and f :: "advance_result \<Rightarrow> advance_result"
  proof -
    obtain r x where call: "append_objective (wd_repository w2) mid (child_objective co p) ''AUTONOMOUS_PROPOSAL_ADMITTED''
            coordinator_actor occ (gp_evidence_refs p) = (r, x)"
      by (cases "append_objective (wd_repository w2) mid (child_objective co p) ''AUTONOMOUS_PROPOSAL_ADMITTED''
            coordinator_actor occ (gp_evidence_refs p)")
    from w2(1) occ coordinator_constants(6) call show ?thesis
    proof (cases rule: append_objective_stored)
      case (refused err)
      then show ?thesis using call w2 by (simp add: sure_and_then sure_on_repository)
    next
      case (stored m obs y)
      have l: "life_from m obs = ?l" using stored(7) w2(2) by simp
      have "life_move calm (life_from m obs) ((life_from m obs)\<lparr>ml_objectives := ml_objectives (life_from m obs) @ [(child_objective co p, OPending)]\<rparr>)"
        using stored(3) t l by (intro life_append) simp_all
      then have mv: "moves calm mid (wd_repository w2) r" using moves_step [OF stored(6,7,8)] by simp
      let ?w3 = "w2\<lparr>wd_repository := r\<rparr>"
      have "sure (advance_mission co mid (mr_caller_scope (sn_mission sn)) occ) ?w3 (\<lambda>w' x. moves calm mid (wd_repository ?w3) (wd_repository w') \<and> True)"
        using stored(6,8) t l by (intro sure_mono [OF advance_moves [OF _ occ]]) auto
      then have "sure (and_then (advance_mission co mid (mr_caller_scope (sn_mission sn)) occ) (\<lambda>a. returning (f a))) ?w3
          (\<lambda>w' x. moves calm mid (wd_repository ?w3) (wd_repository w'))"
        by (rule sure_moves_then) (auto simp: sure_simps dest: moves_inv)
      with call stored(2) show ?thesis by (intro sure_repository_then [OF _ mv]) simp_all
    qed
  qed
  show ?thesis
    unfolding admit_child_def
    by (intro sure_tables_then [OF sure_save_proposal] sure_tables_then [OF sure_save_budget])
      (use inv snapshot_sel(6) [OF sn] tail in \<open>auto simp: sure_simps\<close>)
qed

lemma exploration_moves:
  assumes inv: "repo_inv (wd_repository w)" and occ: "0 \<le> occ"
  shows "sure (consider_exploration co mid i bounds caps occ q) w (\<lambda>w' x. moves calm mid (wd_repository w) (wd_repository w'))"
  unfolding consider_exploration_def sure_with_snapshot
  using inv by (auto simp: sure_simps sure_with_budget split: sum.split option.split prod.split intro!: admit_child_moves [OF inv occ])

lemma committed_evidence_moves:
  assumes inv: "repo_inv (wd_repository w)" and occ: "0 \<le> occ"
  shows "sure (advance_from_committed_evidence co mid occ) w (\<lambda>w' x. moves calm mid (wd_repository w) (wd_repository w'))"
proof (cases "mission_snapshot_of (wd_repository w) mid")
  case (Inr sn)
  have "sure (advance_mission co mid scope occ) w (\<lambda>w' x. moves calm mid (wd_repository w) (wd_repository w'))"
    if "\<not> terminal_mission (mr_status (sn_mission sn))" for scope
    using that snapshot_sel(6) [OF Inr] by (intro advance_moves [OF inv occ]) auto
  with Inr inv show ?thesis
    by (simp add: advance_from_committed_evidence_def sure_with_snapshot sure_simps)
qed (use inv in \<open>simp add: advance_from_committed_evidence_def sure_with_snapshot\<close>)

section \<open>Completion\<close>

lemma verified_completed:
  assumes "mv_satisfied (verify_mission h spec
      (foldl (\<lambda>d x. dict_set (ob_objective_id (or_objective x)) (or_status x = OCompleted) d) [] obs) e)"
    and "ob \<in> set (ms_objectives spec)" "ob_required ob"
  shows "ob_objective_id ob \<in> life_completed (life_from m obs)"
proof -
  let ?f = "filter (\<lambda>x. ob_objective_id (or_objective x) = ob_objective_id ob) obs"
  have "dict_get (foldl (\<lambda>d x. dict_set (ob_objective_id (or_objective x)) (or_status x = OCompleted) d) [] obs)
      (ob_objective_id ob) = Some True"
    using assms by (simp add: verify_mission_iff)
  then have f: "?f \<noteq> []" "or_status (last ?f) = OCompleted"
    unfolding foldl_dict_set_get by (auto split: list.splits simp del: filter_empty_conv)
  then have "last ?f \<in> set ?f" using last_in_set by blast
  then have "last ?f \<in> set obs" "ob_objective_id (or_objective (last ?f)) = ob_objective_id ob" by simp_all
  with f(2) have "(or_objective (last ?f), OCompleted) \<in> set (ml_objectives (life_from m obs))" by force
  then show ?thesis
    unfolding life_completed_def using \<open>ob_objective_id (or_objective (last ?f)) = ob_objective_id ob\<close> by (metis (mono_tags, lifting) mem_Collect_eq)
qed

lemma verify_completion_moves:
  assumes inv: "repo_inv (wd_repository w)" and occ: "0 \<le> occ"
  shows "sure (verify_completion co mid e occ) w (\<lambda>w' x. moves calm mid (wd_repository w) (wd_repository w'))"
proof (cases "mission_snapshot_of (wd_repository w) mid")
  case (Inr sn)
  let ?m = "sn_mission sn"
  define v where "v = verify_mission (co_evidence_hash co) (mr_spec ?m)
      (foldl (\<lambda>d x. dict_set (ob_objective_id (or_objective x)) (or_status x = OCompleted) d) [] (sn_objectives sn)) e"
  let ?refs = "[''mission-verification:'' @ mv_evidence_hash v]"
  obtain r x where call: "transition_mission (wd_repository w) mid (mr_version ?m) MCompleted ''MISSION_VERIFIED_COMPLETE''
      ''mission-verifier'' occ [] ?refs = (r, x)"
    by (cases "transition_mission (wd_repository w) mid (mr_version ?m) MCompleted ''MISSION_VERIFIED_COMPLETE''
      ''mission-verifier'' occ [] ?refs")
  have "moves calm mid (wd_repository w) r" if sat: "mv_satisfied v" and wait: "mr_status ?m = MWaitingEvidence"
    using inv occ coordinator_constants(3) call
  proof (cases rule: transition_mission_stored)
    case (stored m m' obs)
    have same: "m = ?m" "obs = sn_objectives sn" using stored(2,8) snapshot_sel [OF Inr] by simp_all
    have "life_move calm (life_from m obs) ((life_from m obs)\<lparr>ml_status := MCompleted\<rparr>)"
      using wait verified_completed [of "co_evidence_hash co" "mr_spec ?m" "sn_objectives sn" e] sat same
      by (intro life_verify) (auto simp: v_def)
    then show ?thesis using moves_step [OF stored(12,13,14)] by simp
  qed (use inv in simp)
  with call inv Inr show ?thesis
    by (auto simp: verify_completion_def sure_with_snapshot Let_def v_def [symmetric] sure_simps sure_and_then
        sure_on_repository split: sum.split)
qed (use inv in \<open>simp add: verify_completion_def sure_with_snapshot\<close>)

section \<open>Closing a mission\<close>

lemma close_moves:
  assumes inv: "repo_inv (wd_repository w)" and occ: "0 \<le> occ" and c: "audit_constants reason coordinator_actor"
    and t: "t \<in> {MFailed, MCancelled, MBlockedUnknown}"
    and calm: "\<And>l. calm \<Longrightarrow> lives (wd_repository w) mid = Some l \<Longrightarrow> life_active l = {}"
  shows "sure (and_then (on_repository (\<lambda>r. transition_mission r mid e t reason coordinator_actor occ det refs))
      (\<lambda>m. returning (f m))) w (\<lambda>w' x. moves calm mid (wd_repository w) (wd_repository w'))"
proof -
  obtain r x where call: "transition_mission (wd_repository w) mid e t reason coordinator_actor occ det refs = (r, x)"
    by (cases "transition_mission (wd_repository w) mid e t reason coordinator_actor occ det refs")
  from inv occ c call show ?thesis
  proof (cases rule: transition_mission_stored)
    case (refused err)
    then show ?thesis using call inv by (simp add: sure_and_then sure_on_repository)
  next
    case (stored m m' obs)
    have "life_move calm (life_from m obs) ((life_from m obs)\<lparr>ml_status := t\<rparr>)"
      using t stored(4) calm [OF _ stored(13)] by (intro life_close) simp_all
    then have "moves calm mid (wd_repository w) r" using moves_step [OF stored(12,13,14)] by simp
    with call stored(1) show ?thesis by (simp add: sure_and_then sure_on_repository sure_simps)
  qed
qed

section \<open>Stopping\<close>

text \<open>Every active objective is still listed, with a status that the loop cancels.\<close>

definition active_listed :: "mission_life \<Rightarrow> objective_record list \<Rightarrow> bool" where
  "active_listed l xs \<longleftrightarrow>
     (\<forall>i\<in>life_active l. \<exists>x\<in>set xs. ob_objective_id (or_objective x) = ob_objective_id (fst (ml_objectives l ! i)) \<and>
        (or_status x = OPending \<or> or_status x = OActiveState))"

lemma life_ids_distinct: "objectives_entry mid obs \<Longrightarrow> distinct (life_ids (life_from m obs))"
  by (simp add: objectives_entry_def life_ids_def comp_def)

lemma active_listed_cancel:
  assumes "active_listed l (x # xs)" "distinct (life_ids l)" "i < length (ml_objectives l)"
    and "ob_objective_id (fst (ml_objectives l ! i)) = ob_objective_id (or_objective x)" "t \<noteq> OActiveState"
  shows "active_listed (set_objective l i (fst (ml_objectives l ! i), t)) xs"
  unfolding active_listed_def
proof
  fix j assume j: "j \<in> life_active (set_objective l i (fst (ml_objectives l ! i), t))"
  then have "j \<in> life_active l" "j \<noteq> i" using assms(3,5) by (auto simp: life_active_update)
  moreover from this have jl: "j < length (ml_objectives l)" by (simp add: life_active_def)
  moreover have "ob_objective_id (fst (ml_objectives l ! j)) \<noteq> ob_objective_id (fst (ml_objectives l ! i))"
    using assms(2,3) jl \<open>j \<noteq> i\<close> by (auto simp: life_ids_def distinct_conv_nth)
  ultimately show "\<exists>y\<in>set xs. ob_objective_id (or_objective y) =
      ob_objective_id (fst (ml_objectives (set_objective l i (fst (ml_objectives l ! i), t)) ! j)) \<and>
      (or_status y = OPending \<or> or_status y = OActiveState)"
    using assms(1,4) by (auto simp: active_listed_def)
qed

lemma cancel_objectives_moves:
  assumes "repo_inv (wd_repository w)" and occ: "0 \<le> occ"
    and "lives (wd_repository w) mid = Some l" "active_listed l xs"
  shows "sure (cancel_objectives mid reason occ xs) w (\<lambda>w' x. moves calm mid (wd_repository w) (wd_repository w') \<and>
      (x = Inr () \<longrightarrow> (\<exists>l'. lives (wd_repository w') mid = Some l' \<and> life_active l' = {})))"
  using assms(1,3,4)
proof (induction xs arbitrary: w l)
  case Nil
  then show ?case by (auto simp: sure_simps active_listed_def)
next
  case (Cons x xs)
  show ?case
  proof (cases "or_status x = OPending \<or> or_status x = OActiveState")
    case False
    then have "active_listed l xs" using Cons.prems(3) by (auto simp: active_listed_def)
    with Cons.IH [OF Cons.prems(1,2)] False show ?thesis by simp
  next
    case True
    obtain r y where call: "transition_objective (wd_repository w) mid (ob_objective_id (or_objective x)) (or_version x) OCancelledState
        ''MISSION_STOP_BARRIER'' coordinator_actor occ [(''reason'', JStr reason)] [] = (r, y)"
      by (cases "transition_objective (wd_repository w) mid (ob_objective_id (or_objective x)) (or_version x) OCancelledState
        ''MISSION_STOP_BARRIER'' coordinator_actor occ [(''reason'', JStr reason)] []")
    from Cons.prems(1) occ coordinator_constants(7) call show ?thesis
    proof (cases rule: transition_objective_stored)
      case (refused err)
      then show ?thesis using True call Cons.prems(1) by (simp add: sure_and_then sure_on_repository)
    next
      case (stored m obs i ob)
      let ?l' = "set_objective l i (or_objective ob, OCancelledState)"
      have l: "l = life_from m obs" using stored(12) Cons.prems(2) by simp
      have i: "i < length (ml_objectives l)" "ml_objectives l ! i = (or_objective ob, or_status ob)"
        using stored(3,4) l by simp_all
      have st: "or_status ob = OPending \<or> or_status ob = OActiveState"
        using stored(7) by (cases "or_status ob") (simp_all add: validate_objective_transition_def)
      have "life_move calm l ?l'"
        using st i by (auto intro: life_cancel life_finish)
      then have mv: "moves calm mid (wd_repository w) r" using moves_step [OF stored(11) Cons.prems(2)] stored(13) l by simp
      have "objectives_entry mid obs" using Cons.prems(1) stored(2) by (elim repo_inv_get')
      then have "distinct (life_ids l)" unfolding l by (rule life_ids_distinct)
      then have "active_listed ?l' xs"
        using active_listed_cancel [OF Cons.prems(3) _ i(1), of OCancelledState] i(2) stored(5) by simp
      moreover have "lives r mid = Some ?l'" using stored(13) l by simp
      ultimately have "sure (cancel_objectives mid reason occ xs) (w\<lparr>wd_repository := r\<rparr>) (\<lambda>w' x. moves calm mid r (wd_repository w') \<and>
          (x = Inr () \<longrightarrow> (\<exists>l'. lives (wd_repository w') mid = Some l' \<and> life_active l' = {})))"
        using Cons.IH [of "w\<lparr>wd_repository := r\<rparr>" ?l'] stored(11) by simp
      then have "sure (cancel_objectives mid reason occ xs) (w\<lparr>wd_repository := r\<rparr>) (\<lambda>w' x. moves calm mid (wd_repository w) (wd_repository w') \<and>
          (x = Inr () \<longrightarrow> (\<exists>l'. lives (wd_repository w') mid = Some l' \<and> life_active l' = {})))"
        by (rule sure_mono) (use moves_trans [OF mv] in blast)
      with True call stored(8) show ?thesis by (simp add: sure_and_then sure_on_repository)
    qed
  qed
qed

lemma stop_moves:
  assumes inv: "repo_inv (wd_repository w)" and occ: "0 \<le> occ"
  shows "sure (stop_mission co mid rid reason occ) w (\<lambda>w' x. moves calm mid (wd_repository w) (wd_repository w'))"
proof (cases "mission_snapshot_of (wd_repository w) mid")
  case (Inr sn)
  let ?d = "mission_stop_draft co mid (mr_caller_scope (sn_mission sn)) rid reason occ"
  let ?l = "life_from (sn_mission sn) (sn_objectives sn)"
  have listed: "active_listed ?l (sn_objectives sn)"
    by (auto simp: active_listed_def life_active_def intro!: bexI nth_mem)
  have "sure (and_then (on_journal (\<lambda>s. apply_stop_barrier s ?d occ)) (\<lambda>_.
         and_then (cancel_objectives mid reason occ (sn_objectives sn)) (\<lambda>_.
         and_then
           (on_repository (\<lambda>r. transition_mission r mid (mr_version (sn_mission sn)) MCancelled ''MISSION_STOP_BARRIER''
              coordinator_actor occ [(''reason'', JStr reason)] [])) (\<lambda>m'.
         returning (plain_result mid (mr_status m')))))) w (\<lambda>w' x. moves calm mid (wd_repository w) (wd_repository w'))"
  proof (rule sure_journal_then [OF _ inv])
    fix s y
    let ?w = "w\<lparr>wd_journal := s\<rparr>"
    have "sure (and_then (cancel_objectives mid reason occ (sn_objectives sn)) (\<lambda>_.
         and_then
           (on_repository (\<lambda>r. transition_mission r mid (mr_version (sn_mission sn)) MCancelled ''MISSION_STOP_BARRIER''
              coordinator_actor occ [(''reason'', JStr reason)] [])) (\<lambda>m'.
         returning (plain_result mid (mr_status m'))))) ?w (\<lambda>w' x. moves calm mid (wd_repository ?w) (wd_repository w'))"
      by (rule sure_moves_then [OF cancel_objectives_moves])
        (use inv occ listed snapshot_sel(6) [OF Inr] in \<open>auto intro!: close_moves dest: moves_inv\<close>)
    then show "sure (and_then (cancel_objectives mid reason occ (sn_objectives sn)) (\<lambda>_.
         and_then
           (on_repository (\<lambda>r. transition_mission r mid (mr_version (sn_mission sn)) MCancelled ''MISSION_STOP_BARRIER''
              coordinator_actor occ [(''reason'', JStr reason)] [])) (\<lambda>m'.
         returning (plain_result mid (mr_status m'))))) ?w (\<lambda>w' x. moves calm mid (wd_repository w) (wd_repository w'))"
      by simp
  qed
  with inv Inr show ?thesis by (simp add: stop_mission_def sure_with_snapshot Let_def sure_simps)
qed (use inv in \<open>simp add: stop_mission_def sure_with_snapshot\<close>)

section \<open>Recovery\<close>

text \<open>The mission's life is as the moves leave it.\<close>

definition life_fits :: "bool \<Rightarrow> repository \<Rightarrow> string \<Rightarrow> bool" where
  "life_fits calm r mid \<longleftrightarrow> (\<forall>l. lives r mid = Some l \<longrightarrow> life_ok l \<and> (calm \<longrightarrow> life_quiet l))"

text \<open>The single active objective ends.\<close>

lemma finish_moves:
  assumes inv: "repo_inv (wd_repository w)" and occ: "0 \<le> occ" and c: "audit_constants reason coordinator_actor"
    and fits: "life_fits calm (wd_repository w) mid"
    and t: "t \<in> {OCompleted, OFailedState, OCancelledState, OBlockedUnknown}"
    and sn: "dict_get (re_missions (wd_repository w)) mid = Some m0" "dict_get (re_objectives (wd_repository w)) mid = Some obs0"
    and x: "x \<in> set obs0" "or_status x = OActiveState"
  shows "sure (on_repository (\<lambda>r. transition_objective r mid (ob_objective_id (or_objective x)) e t reason coordinator_actor occ det refs)) w
      (\<lambda>w' y. moves calm mid (wd_repository w) (wd_repository w') \<and>
        (\<forall>z. y = Inr z \<longrightarrow> repo_inv (wd_repository w') \<and> (\<exists>l'. lives (wd_repository w') mid = Some l' \<and> life_active l' = {} \<and>
           (calm \<longrightarrow> \<not> terminal_mission (ml_status l')))))"
proof -
  obtain r y where call: "transition_objective (wd_repository w) mid (ob_objective_id (or_objective x)) e t reason coordinator_actor occ det refs = (r, y)"
    by (cases "transition_objective (wd_repository w) mid (ob_objective_id (or_objective x)) e t reason coordinator_actor occ det refs")
  from inv occ c call show ?thesis
  proof (cases rule: transition_objective_stored)
    case (refused err)
    then show ?thesis using call inv by (simp add: sure_on_repository)
  next
    case (stored m obs i ob)
    let ?l = "life_from m obs" let ?l' = "set_objective ?l i (or_objective ob, t)"
    have same: "m = m0" "obs = obs0" using stored(1,2) sn by simp_all
    have "objectives_entry mid obs" using inv stored(2) by (elim repo_inv_get')
    then have "ob = x" using objective_unique [of mid obs x i] x(1) stored(3-5) same by simp
    then have i: "i < length (ml_objectives ?l)" "ml_objectives ?l ! i = (or_objective ob, OActiveState)"
      using stored(3,4) x(2) by simp_all
    have "life_move calm ?l ?l'" by (rule life_finish [OF i t])
    then have mv: "moves calm mid (wd_repository w) r" using moves_step [OF stored(11,12,13)] by simp
    have ok: "life_ok ?l" "calm \<longrightarrow> life_quiet ?l" using fits stored(12) by (auto simp: life_fits_def)
    have "i \<in> life_active ?l" using i by (simp add: life_active_def)
    moreover have "card (life_active ?l) \<le> 1" using ok(1) by (simp add: life_ok_def)
    ultimately have a: "life_active ?l = {i}" by (auto simp: card_le_Suc0_iff_eq)
    have "t \<noteq> OActiveState" using t by auto
    then have "life_active ?l' = {}" using a i(1) by (simp add: life_active_update)
    moreover have "calm \<Longrightarrow> \<not> terminal_mission (mr_status m)" using ok(2) a by (auto simp: life_quiet_def)
    ultimately show ?thesis
      using call stored(8,11,13) mv same by (simp add: sure_on_repository)
  qed
qed

lemma active_objective_mem: "active_objective sn = Some x \<Longrightarrow> x \<in> set (sn_objectives sn) \<and> or_status x = OActiveState"
  unfolding active_objective_def by (rule List_find_mem)

lemma block_moves:
  assumes inv: "repo_inv (wd_repository w)" and occ: "0 \<le> occ" and fits: "life_fits calm (wd_repository w) mid"
    and sn: "mission_snapshot_of (wd_repository w) mid = Inr sn"
  shows "sure (block_mission mid sn det occ) w (\<lambda>w' x. moves calm mid (wd_repository w) (wd_repository w'))"
  unfolding block_mission_def
proof (rule sure_moves_then)
  show "sure (case active_objective sn of None \<Rightarrow> returning ()
        | Some x \<Rightarrow>
            and_then
              (on_repository (\<lambda>r. transition_objective r mid (ob_objective_id (or_objective x)) (or_version x)
                 OBlockedUnknown ''STARTUP_CHILD_AMBIGUOUS'' coordinator_actor occ det []))
              (\<lambda>_. returning ())) w (\<lambda>w' x. moves calm mid (wd_repository w) (wd_repository w') \<and>
        (\<forall>z. x = Inr z \<longrightarrow> (\<exists>l'. lives (wd_repository w') mid = Some l' \<and> life_active l' = {})))"
  proof (cases "active_objective sn")
    case None
    then show ?thesis
      using inv snapshot_sel(6) [OF sn] active_objective_None [of sn "sn_mission sn"] by (simp add: sure_simps)
  next
    case (Some x)
    have "x \<in> set (sn_objectives sn)" "or_status x = OActiveState" using active_objective_mem [OF Some] by simp_all
    note finish = finish_moves [OF inv occ coordinator_constants(8) fits _ snapshot_sel(1,2) [OF sn] this, of OBlockedUnknown "or_version x" det "[]"]
    show ?thesis unfolding Some option.case by (rule sure_step [OF finish]) (auto simp: sure_simps)
  qed
qed (auto intro!: close_moves [OF _ occ coordinator_constants(8)] dest: moves_inv)

lemma recover_moves:
  assumes inv: "repo_inv (wd_repository w)" and occ: "0 \<le> occ" and fits: "life_fits calm (wd_repository w) mid"
  shows "sure (recover_mission mid occ) w (\<lambda>w' x. moves calm mid (wd_repository w) (wd_repository w'))"
  unfolding recover_mission_def
proof (rule sure_journal_then [OF _ inv])
  fix s y
  let ?w = "w\<lparr>wd_journal := s\<rparr>"
  have "sure (\<lambda>w. block_mission mid sn (f w) occ w) ?w (\<lambda>w' x. moves calm mid (wd_repository w) (wd_repository w'))"
    if "mission_snapshot_of (wd_repository w) mid = Inr sn" for sn f
    using block_moves [of ?w occ calm mid sn "f ?w"] inv occ fits that by (simp add: sure_def)
  then show "sure (with_snapshot mid (\<lambda>sn.
       if terminal_mission (mr_status (sn_mission sn)) then returning (plain_result mid (mr_status (sn_mission sn)))
       else (\<lambda>w. block_mission mid sn
               (ambiguous_details (wd_journal w) (linked_command (sn_transitions sn) (active_objective sn))) occ w))) ?w
      (\<lambda>w' x. moves calm mid (wd_repository w) (wd_repository w'))"
    using inv by (auto simp: sure_with_snapshot sure_simps split: sum.split)
qed

section \<open>The end of a child\<close>

lemma objective_of_mem: "objective_of sn oid = Some x \<Longrightarrow> x \<in> set (sn_objectives sn) \<and> ob_objective_id (or_objective x) = oid"
  unfolding objective_of_def by (rule List_find_mem)

lemma child_target_ok:
  "child_target t st = (target, reason) \<Longrightarrow>
   target \<in> {OCompleted, OFailedState, OCancelledState, OBlockedUnknown} \<and> audit_constants reason coordinator_actor"
  by (auto simp: child_target_def split: if_splits)

lemma end_mission_moves:
  assumes inv: "repo_inv (wd_repository w)" and t: "child_transition_ok t"
    and "target \<in> {MFailed, MCancelled, MBlockedUnknown}" "audit_constants reason coordinator_actor"
    and "\<And>l. calm \<Longrightarrow> lives (wd_repository w) (vt_mission_id t) = Some l \<Longrightarrow> life_active l = {}"
  shows "sure (end_mission t sn target reason) w (\<lambda>w' x. moves calm (vt_mission_id t) (wd_repository w) (wd_repository w'))"
  unfolding end_mission_def using t by (intro close_moves [OF inv _ assms(4,3,5)]) (simp_all add: child_transition_ok_def)

text \<open>Settling, failing or completing the active objective, and linking the evidence.\<close>

lemma child_ended:
  assumes inv: "repo_inv (wd_repository w)" and t: "child_transition_ok t"
    and fits: "life_fits calm (wd_repository w) (vt_mission_id t)"
    and sn: "mission_snapshot_of (wd_repository w) (vt_mission_id t) = Inr sn"
    and x: "objective_of sn (vt_objective_id t) = Some x" "or_status x = OActiveState"
    and target: "target \<in> {OCompleted, OFailedState, OCancelledState, OBlockedUnknown}" "audit_constants reason coordinator_actor"
    and go: "\<And>w' y l. repo_inv (wd_repository w') \<Longrightarrow> lives (wd_repository w') (vt_mission_id t) = Some l \<Longrightarrow>
      life_active l = {} \<Longrightarrow> (calm \<Longrightarrow> \<not> terminal_mission (ml_status l)) \<Longrightarrow>
      sure (f y) w' (\<lambda>w'' x. moves calm (vt_mission_id t) (wd_repository w') (wd_repository w'') \<and> (\<forall>z. x = Inr z \<longrightarrow> R w'' z))"
  shows "sure (and_then (on_repository (\<lambda>r. save_mission_budget r (vt_mission_id t) settled)) (\<lambda>_.
      and_then
        (on_repository (\<lambda>r. transition_objective r (vt_mission_id t) (vt_objective_id t) (or_version x) target reason
           coordinator_actor (vt_occurred_at_ms t) det refs)) (\<lambda>y.
      and_then (link_refs co t 0 refs') (\<lambda>_. f y)))) w
    (\<lambda>w' x. moves calm (vt_mission_id t) (wd_repository w) (wd_repository w') \<and> (\<forall>z. x = Inr z \<longrightarrow> R w' z))"
proof (rule sure_tables_result [OF sure_save_budget [OF inv]])
  let ?mid = "vt_mission_id t"
  have occ: "0 \<le> vt_occurred_at_ms t" using t by (simp add: child_transition_ok_def)
  fix w' :: mission_world and u :: unit
  assume s: "same_tables (wd_repository w) (wd_repository w')" and inv': "repo_inv (wd_repository w')"
    and l: "lives (wd_repository w') = lives (wd_repository w)"
  have fits': "life_fits calm (wd_repository w') ?mid" using fits l by (simp add: life_fits_def)
  have tabs: "dict_get (re_missions (wd_repository w')) ?mid = Some (sn_mission sn)"
      "dict_get (re_objectives (wd_repository w')) ?mid = Some (sn_objectives sn)"
    using s snapshot_sel(1,2) [OF sn] by (simp_all add: same_tables_def)
  have mem: "x \<in> set (sn_objectives sn)" "ob_objective_id (or_objective x) = vt_objective_id t"
    using objective_of_mem [OF x(1)] by simp_all
  note finish = finish_moves [OF inv' occ target(2) fits' target(1) tabs mem(1) x(2), of "or_version x" det refs, unfolded mem(2)]
  show "sure (and_then
        (on_repository (\<lambda>r. transition_objective r ?mid (vt_objective_id t) (or_version x) target reason
           coordinator_actor (vt_occurred_at_ms t) det refs)) (\<lambda>y.
      and_then (link_refs co t 0 refs') (\<lambda>_. f y))) w' (\<lambda>w'' x. moves calm ?mid (wd_repository w') (wd_repository w'') \<and> (\<forall>z. x = Inr z \<longrightarrow> R w'' z))"
  proof (rule sure_moves_result [OF finish])
    fix w1 :: mission_world and y
    assume "\<forall>z. (Inr y :: coord_error + objective_record) = Inr z \<longrightarrow> repo_inv (wd_repository w1) \<and>
        (\<exists>l'. lives (wd_repository w1) ?mid = Some l' \<and> life_active l' = {} \<and> (calm \<longrightarrow> \<not> terminal_mission (ml_status l')))"
    then obtain l' where l': "repo_inv (wd_repository w1)" "lives (wd_repository w1) ?mid = Some l'" "life_active l' = {}"
        "calm \<Longrightarrow> \<not> terminal_mission (ml_status l')" by blast
    show "sure (and_then (link_refs co t 0 refs') (\<lambda>_. f y)) w1
        (\<lambda>w'' x. moves calm ?mid (wd_repository w1) (wd_repository w'') \<and> (\<forall>z. x = Inr z \<longrightarrow> R w'' z))"
      by (rule sure_tables_result [OF sure_link_refs [OF l'(1)]]) (rule go [of _ l'], use l' in \<open>auto\<close>)
  qed
qed

lemma settle_child_moves:
  assumes inv: "repo_inv (wd_repository w)" and t: "child_transition_ok t"
    and fits: "life_fits calm (wd_repository w) (vt_mission_id t)"
    and sn: "mission_snapshot_of (wd_repository w) (vt_mission_id t) = Inr sn"
    and x: "objective_of sn (vt_objective_id t) = Some x" "or_status x = OActiveState"
  shows "sure (settle_child co t sn x st budget rid) w
    (\<lambda>w' z. moves calm (vt_mission_id t) (wd_repository w) (wd_repository w'))"
proof (cases "settle budget rid (vt_actual_budget t)")
  case (Inl e)
  then show ?thesis using inv by (simp add: settle_child_def sure_with_budget)
next
  case (Inr settled)
  obtain target reason where tr: "child_target t st = (target, reason)" by (cases "child_target t st")
  note ok = child_target_ok [OF tr]
  have occ: "0 \<le> vt_occurred_at_ms t" using t by (simp add: child_transition_ok_def)
  have go: "sure (if target = OBlockedUnknown then end_mission t sn MBlockedUnknown ''CHILD_OUTCOME_UNKNOWN''
     else if target = OFailedState then end_mission t sn MFailed ''REQUIRED_CHILD_FAILED''
     else advance_mission co (vt_mission_id t) (mr_caller_scope (sn_mission sn)) (vt_occurred_at_ms t)) w'
      (\<lambda>w'' z. moves calm (vt_mission_id t) (wd_repository w') (wd_repository w''))"
    if "repo_inv (wd_repository w')" "lives (wd_repository w') (vt_mission_id t) = Some l" "life_active l = {}"
      "calm \<Longrightarrow> \<not> terminal_mission (ml_status l)" for w' l
    using that occ by (auto intro!: end_mission_moves [OF _ t] advance_moves)
  show ?thesis
    unfolding settle_child_def Inr tr Let_def prod.case with_budget_def sum.case
    by (rule sure_mono, rule child_ended [OF inv t fits sn x conjunct1 [OF ok] conjunct2 [OF ok], where R = "\<lambda>_ _. True"],
        rule sure_mono, rule go) (assumption | simp)+
qed

text \<open>
  A failure that is replayed for an objective which already failed closes the mission whatever else is
  active; a calm life needs that nothing is.
\<close>

definition calm_child :: "mission_world \<Rightarrow> child_transition \<Rightarrow> bool" where
  "calm_child w t \<longleftrightarrow>
     (\<forall>l i ob. lives (wd_repository w) (vt_mission_id t) = Some l \<longrightarrow> i < length (ml_objectives l) \<longrightarrow>
        ml_objectives l ! i = (ob, OFailedState) \<longrightarrow> ob_objective_id ob = vt_objective_id t \<longrightarrow>
        vt_verification t = ChildFailed \<longrightarrow> life_active l = {})"

lemma on_child_moves:
  assumes inv: "repo_inv (wd_repository w)" and t: "child_transition_ok t"
    and fits: "life_fits calm (wd_repository w) (vt_mission_id t)" and calm: "calm \<Longrightarrow> calm_child w t"
  shows "sure (on_child_transition co t) w
    (\<lambda>w' z. moves calm (vt_mission_id t) (wd_repository w) (wd_repository w'))"
proof (cases "mission_snapshot_of (wd_repository w) (vt_mission_id t)")
  case (Inl e)
  then show ?thesis using inv by (simp add: on_child_transition_def sure_with_snapshot)
next
  case (Inr sn)
  let ?l = "life_from (sn_mission sn) (sn_objectives sn)"
  show ?thesis
  proof (cases "objective_of sn (vt_objective_id t)")
    case None
    with Inr inv show ?thesis by (simp add: on_child_transition_def sure_with_snapshot sure_simps)
  next
    case (Some x)
    note mem = objective_of_mem [OF Some]
    have replay: "sure (end_mission t sn MFailed ''REQUIRED_CHILD_FAILED'') w
        (\<lambda>w' z. moves calm (vt_mission_id t) (wd_repository w) (wd_repository w'))"
      if "or_status x = OFailedState" "vt_verification t = ChildFailed"
    proof (rule end_mission_moves [OF inv t])
      fix l assume "calm" and l: "lives (wd_repository w) (vt_mission_id t) = Some l"
      have "l = ?l" using l snapshot_sel(6) [OF Inr] by simp
      moreover obtain i where "i < length (sn_objectives sn)" "sn_objectives sn ! i = x"
        using mem by (auto simp: in_set_conv_nth)
      ultimately show "life_active l = {}"
        using calm [OF \<open>calm\<close>] l that mem unfolding calm_child_def by (metis length_map life_from_sel(3) nth_map)
    qed simp_all
    have settle: "sure (settle_child co t sn x st budget rid) w
        (\<lambda>w' z. moves calm (vt_mission_id t) (wd_repository w) (wd_repository w'))"
      if "or_status x = OActiveState" for st budget rid
      by (rule settle_child_moves [OF inv t fits Inr Some that])
    have reading: "sure (\<lambda>w. f (get_command (wd_journal w) c) w) w Q \<longleftrightarrow> sure (f (get_command (wd_journal w) c)) w Q"
      for f :: "journal_command option \<Rightarrow> advance_result coord" and c Q
      by (simp add: sure_def)
    show ?thesis
      unfolding on_child_transition_def sure_with_snapshot Inr sum.case Some option.case
      using inv replay settle
      by (auto simp: sure_simps sure_with_budget
          reading [of "\<lambda>co. case co of None \<Rightarrow> raising (CoordValueError ''child transition is not journal-verified'')
            | Some c \<Rightarrow> if jc_state c \<noteq> vt_command_state t
                then raising (CoordValueError ''child transition is not journal-verified'') else _ c"]
          split: option.split sum.split)
  qed
qed

section \<open>Rebalancing\<close>

text \<open>The world right after a rebalance was suspended, as a calm end needs it.\<close>

definition calm_rebalance :: "mission_world \<Rightarrow> suspended_rebalance \<Rightarrow> bool" where
  "calm_rebalance w s \<longleftrightarrow>
     (\<forall>l. lives (wd_repository w) (vt_mission_id (sr_transition s)) = Some l \<longrightarrow>
        life_active l = {} \<and> \<not> terminal_mission (ml_status l))"

lemma begin_rebalance_moves:
  assumes inv: "repo_inv (wd_repository w)" and t: "child_transition_ok t"
    and fits: "life_fits calm (wd_repository w) (vt_mission_id t)"
  shows "sure (begin_rebalance co t usage failure) w (\<lambda>w' x. moves calm (vt_mission_id t) (wd_repository w) (wd_repository w') \<and>
      (\<forall>z. x = Inr z \<longrightarrow> (\<forall>s. z = Some s \<longrightarrow> sr_transition s = t \<and> (calm \<longrightarrow> calm_rebalance w' s))))"
proof (cases "mission_snapshot_of (wd_repository w) (vt_mission_id t)")
  case (Inl e)
  then show ?thesis using inv by (simp add: begin_rebalance_def sure_with_snapshot sure_simps)
next
  case (Inr sn)
  have fail: "sure (fail_for_rebalance co t sn x budget rid usage failure) w (\<lambda>w' x. moves calm (vt_mission_id t) (wd_repository w) (wd_repository w') \<and>
      (\<forall>z. x = Inr z \<longrightarrow> (\<forall>s. z = Some s \<longrightarrow> sr_transition s = t \<and> (calm \<longrightarrow> calm_rebalance w' s))))"
    if x: "objective_of sn (vt_objective_id t) = Some x" and a: "rebalance_applicable t sn x" for x budget rid
  proof (cases "settle budget rid (vt_actual_budget t)")
    case (Inl e)
    then show ?thesis using inv by (simp add: fail_for_rebalance_def sure_with_budget)
  next
    case settled: (Inr settled)
    have act: "or_status x = OActiveState" using a by (simp add: rebalance_applicable_def)
    show ?thesis
      unfolding fail_for_rebalance_def settled with_budget_def sum.case
      by (rule child_ended [OF inv t fits Inr x act])
        (auto simp: sure_simps calm_rebalance_def split: sum.split)
  qed
  show ?thesis
    unfolding begin_rebalance_def sure_with_snapshot
    using inv fail Inr by (auto simp: sure_simps sure_with_snapshot sure_with_budget split: option.split sum.split)
qed

lemma end_rebalance_moves:
  assumes inv: "repo_inv (wd_repository w)" and t: "child_transition_ok (sr_transition s)"
    and calm: "calm \<Longrightarrow> calm_rebalance w s"
  shows "sure (end_rebalance co s proposal) w
    (\<lambda>w' x. moves calm (vt_mission_id (sr_transition s)) (wd_repository w) (wd_repository w'))"
proof -
  let ?t = "sr_transition s"
  let ?mid = "vt_mission_id ?t" and ?oid = "vt_objective_id ?t" and ?occ = "vt_occurred_at_ms ?t"
  have occ: "0 \<le> ?occ" using t by (simp add: child_transition_ok_def)
  have c: "audit_constants rebalance_reason coordinator_actor" by simp
  have rearm: "sure (and_then
              (on_repository (\<lambda>r. transition_objective r ?mid ?oid e OPending rebalance_reason
                 coordinator_actor ?occ det (vt_evidence_refs ?t))) (\<lambda>_.
            and_then (advance_mission co ?mid (sr_scope s) ?occ) (\<lambda>_. returning WasRebalanced))) w1
        (\<lambda>w' x. moves calm ?mid (wd_repository w1) (wd_repository w'))"
    if inv1: "repo_inv (wd_repository w1)" and calm1: "calm \<Longrightarrow> calm_rebalance w1 s" for w1 e det
  proof -
    obtain r x where call: "transition_objective (wd_repository w1) ?mid ?oid e OPending rebalance_reason
                 coordinator_actor ?occ det (vt_evidence_refs ?t) = (r, x)"
      by (cases "transition_objective (wd_repository w1) ?mid ?oid e OPending rebalance_reason
                 coordinator_actor ?occ det (vt_evidence_refs ?t)")
    from inv1 occ c call show ?thesis
    proof (cases rule: transition_objective_stored)
      case (refused err)
      then show ?thesis using call inv1 by (simp add: sure_and_then sure_on_repository)
    next
      case (stored m obs i ob)
      have "or_status ob = OFailedState"
        using stored(7) by (cases "or_status ob") (simp_all add: validate_objective_transition_def)
      then have "life_move calm (life_from m obs) (set_objective (life_from m obs) i (or_objective ob, OPending))"
        using stored(3,4) by (intro life_rearm) simp_all
      then have mv: "moves calm ?mid (wd_repository w1) r" by (rule moves_step [OF stored(11,12,13)])
      have "calm \<Longrightarrow> \<not> terminal_mission (mr_status m)" using calm1 stored(12) by (auto simp: calm_rebalance_def)
      then have "sure (advance_mission co ?mid (sr_scope s) ?occ) (w1\<lparr>wd_repository := r\<rparr>)
          (\<lambda>w' x. moves calm ?mid (wd_repository (w1\<lparr>wd_repository := r\<rparr>)) (wd_repository w'))"
        using stored(11,13) by (intro advance_moves [OF _ occ]) auto
      then have "sure (and_then (advance_mission co ?mid (sr_scope s) ?occ) (\<lambda>_. returning WasRebalanced)) (w1\<lparr>wd_repository := r\<rparr>)
          (\<lambda>w' x. moves calm ?mid r (wd_repository w'))"
        by (intro sure_step) (auto simp: sure_simps elim!: sure_mono)
      with call stored(8) show ?thesis by (intro sure_repository_then [OF _ mv]) simp_all
    qed
  qed
  have rewrite: "sure (and_then
              (on_repository (\<lambda>r. replace_objective_budget r ?mid ?oid e b rebalance_reason coordinator_actor ?occ goal det' (vt_evidence_refs ?t))) (\<lambda>replaced.
            and_then
              (on_repository (\<lambda>r. transition_objective r ?mid ?oid (or_version replaced) OPending rebalance_reason
                 coordinator_actor ?occ det (vt_evidence_refs ?t))) (\<lambda>_.
            and_then (advance_mission co ?mid (sr_scope s) ?occ) (\<lambda>_. returning WasRebalanced)))) w1
        (\<lambda>w' x. moves calm ?mid (wd_repository w1) (wd_repository w'))"
    if inv1: "repo_inv (wd_repository w1)" and calm1: "calm \<Longrightarrow> calm_rebalance w1 s" for w1 e b goal det' det
  proof -
    obtain r x where call: "replace_objective_budget (wd_repository w1) ?mid ?oid e b rebalance_reason coordinator_actor ?occ goal det' (vt_evidence_refs ?t) = (r, x)"
      by (cases "replace_objective_budget (wd_repository w1) ?mid ?oid e b rebalance_reason coordinator_actor ?occ goal det' (vt_evidence_refs ?t)")
    from inv1 occ c call show ?thesis
    proof (cases rule: replace_budget_stored)
      case (refused err)
      then show ?thesis using call inv1 by (simp add: sure_and_then sure_on_repository)
    next
      case (stored m obs i ob ob')
      let ?l = "life_from m obs" and ?w2 = "w1\<lparr>wd_repository := r\<rparr>"
      have "life_move calm ?l (set_objective ?l i (ob', or_status ob))"
        using stored(3,4,7) by (intro life_rewrite [of i ?l "or_objective ob"]) simp_all
      then have mv: "moves calm ?mid (wd_repository w1) r" by (rule moves_step [OF stored(11,12,13)])
      have "life_active (set_objective ?l i (ob', or_status ob)) = life_active ?l"
        using stored(3,4) by (auto simp: life_active_def nth_list_update split: if_splits)
      then have "calm \<Longrightarrow> calm_rebalance ?w2 s"
        using calm1 stored(12,13) by (auto simp: calm_rebalance_def)
      from rearm [of ?w2, OF _ this] stored(11) call stored(8) show ?thesis
        by (intro sure_repository_then [OF _ mv]) simp_all
    qed
  qed
  show ?thesis
  proof (cases "accepted_rebalance s proposal")
    case (Inl e)
    then show ?thesis using inv by (simp add: end_rebalance_def Let_def sure_with_budget)
  next
    case (Inr accepted)
    show ?thesis
    proof (cases accepted)
      case None
      with Inr show ?thesis
        unfolding end_rebalance_def Let_def sure_with_budget
        using calm by (auto simp: calm_rebalance_def intro!: close_moves [OF inv occ])
    next
      case (Some pa)
      obtain p account where pa: "pa = (p, account)" by force
      have "calm \<Longrightarrow> calm_rebalance w' s" if "lives (wd_repository w') = lives (wd_repository w)" for w'
        using calm that by (simp add: calm_rebalance_def)
      with Inr Some pa show ?thesis
        unfolding end_rebalance_def Let_def sure_with_budget
        by (auto intro!: sure_tables_then [OF sure_save_budget [OF inv]] rewrite)
    qed
  qed
qed

end
