(* ===== verification/Mission_Run.thy ===== *)
theory Mission_Run
  imports Mission_Child_Life Journal_Reachable
begin

text \<open>
  Everything that can happen around the coordinator, one call after the other: its methods, the
  commands that the journal's other users move on, and rebalances that wait for their planners.
  In a calm run the planner answers before anything else happens, and the failure of an objective is
  reported again only while no other objective is active.
\<close>

section \<open>Steps\<close>

type_synonym mission_run = "mission_world \<times> suspended_rebalance list"

inductive mission_step :: "codec \<Rightarrow> (json \<Rightarrow> bool) \<Rightarrow> bool \<Rightarrow> mission_run \<Rightarrow> mission_run \<Rightarrow> bool" for co cv calm where
  run_submit: "\<lbrakk>0 \<le> occ; mission_fields_ok spec; mission_check cv spec = Inr ()\<rbrakk> \<Longrightarrow>
     mission_step co cv calm (w, ss) (fst (submit_mission co scope rid spec occ w), ss)"
| run_explore: "0 \<le> occ \<Longrightarrow>
     mission_step co cv calm (w, ss) (fst (consider_exploration co mid i bounds caps occ q w), ss)"
| run_advance: "0 \<le> occ \<Longrightarrow>
     mission_step co cv calm (w, ss) (fst (advance_from_committed_evidence co mid occ w), ss)"
| run_verify: "0 \<le> occ \<Longrightarrow> mission_step co cv calm (w, ss) (fst (verify_completion co mid e occ w), ss)"
| run_stop: "0 \<le> occ \<Longrightarrow> mission_step co cv calm (w, ss) (fst (stop_mission co mid rid reason occ w), ss)"
| run_recover: "0 \<le> occ \<Longrightarrow> mission_step co cv calm (w, ss) (fst (recover_mission mid occ w), ss)"
| run_child: "\<lbrakk>child_transition_ok t; calm \<Longrightarrow> calm_child w t\<rbrakk> \<Longrightarrow>
     mission_step co cv calm (w, ss) (fst (on_child_transition co t w), ss)"
| run_rebalance: "child_transition_ok t \<Longrightarrow>
     mission_step co cv calm (w, ss) (fst (request_rebalance co planner t usage failure w), ss)"
| run_suspend: "\<lbrakk>\<not> calm; child_transition_ok t; begin_rebalance co t usage failure w = (w', Inr (Some s))\<rbrakk> \<Longrightarrow>
     mission_step co cv calm (w, ss) (w', s # ss)"
| run_resume: "\<lbrakk>\<not> calm; s \<in> set ss\<rbrakk> \<Longrightarrow>
     mission_step co cv calm (w, ss) (fst (end_rebalance co s answer w), remove1 s ss)"
| run_journal: "journal_step (wd_journal w) s' \<Longrightarrow> mission_step co cv calm (w, ss) (w\<lparr>wd_journal := s'\<rparr>, ss)"

inductive_cases mission_stepE: "mission_step co cv calm c c'"

definition mission_start :: "int \<Rightarrow> mission_run" where
  "mission_start capacity = (\<lparr>wd_repository = empty_repository, wd_journal = empty_journal capacity\<rparr>, [])"

definition mission_runs :: "codec \<Rightarrow> (json \<Rightarrow> bool) \<Rightarrow> bool \<Rightarrow> int \<Rightarrow> mission_run \<Rightarrow> bool" where
  "mission_runs co cv calm capacity c \<longleftrightarrow> (mission_step co cv calm)\<^sup>*\<^sup>* (mission_start capacity) c"

section \<open>What every run keeps\<close>

abbreviation run_lives :: "mission_run \<Rightarrow> string \<Rightarrow> mission_life option" where
  "run_lives c \<equiv> lives (wd_repository (fst c))"

definition run_fits :: "bool \<Rightarrow> mission_run \<Rightarrow> bool" where
  "run_fits calm c \<longleftrightarrow>
     repo_inv (wd_repository (fst c)) \<and> (\<forall>mid. life_fits calm (wd_repository (fst c)) mid) \<and>
     (\<forall>s\<in>set (snd c). child_transition_ok (sr_transition s))"

text \<open>One mission lives on, or begins to live, or nothing changes; the other missions are left alone.\<close>

definition run_moves :: "(json \<Rightarrow> bool) \<Rightarrow> bool \<Rightarrow> mission_run \<Rightarrow> mission_run \<Rightarrow> bool" where
  "run_moves cv calm c c' \<longleftrightarrow>
     run_lives c' = run_lives c \<or>
     (\<exists>mid l'. run_lives c' = (run_lives c)(mid \<mapsto> l') \<and>
        (case run_lives c mid of
           Some l \<Rightarrow> (life_move calm)\<^sup>*\<^sup>* l l'
         | None \<Rightarrow> (\<exists>spec. mission_fields_ok spec \<and> mission_check cv spec = Inr () \<and> ms_mission_id spec = mid \<and>
                     (life_move calm)\<^sup>*\<^sup>* (new_life spec) l')))"

lemma run_moves_same: "run_lives c' = run_lives c \<Longrightarrow> run_moves cv calm c c'"
  by (simp add: run_moves_def)

lemma moves_run: "moves calm mid (wd_repository (fst c)) (wd_repository (fst c')) \<Longrightarrow> run_moves cv calm c c'"
  unfolding moves_def run_moves_def by (elim conjE disjE exE, blast) (intro disjI2 exI [of _ mid] exI conjI, assumption, simp)

lemma submission_run:
  "submission_moves calm spec (wd_repository (fst c)) (wd_repository (fst c')) \<Longrightarrow> mission_fields_ok spec \<Longrightarrow>
   mission_check cv spec = Inr () \<Longrightarrow> run_moves cv calm c c'"
  unfolding submission_moves_def run_moves_def
  by (elim conjE disjE exE, blast) (intro disjI2 exI [of _ "ms_mission_id spec"] exI conjI, assumption, auto)

lemma accepted_life:
  assumes "mission_check cv spec = Inr ()"
  shows "life_ok (new_life spec) \<and> life_quiet (new_life spec)"
  using assms by (intro new_life_ok mission_check_distinct)

lemma run_moves_fits:
  assumes "run_moves cv calm c c'" and "\<forall>mid. life_fits calm (wd_repository (fst c)) mid"
  shows "\<forall>mid. life_fits calm (wd_repository (fst c')) mid"
proof (cases "run_lives c' = run_lives c")
  case True
  with assms(2) show ?thesis by (simp add: life_fits_def)
next
  case False
  with assms(1) obtain mid l' where l': "run_lives c' = (run_lives c)(mid \<mapsto> l')"
    and m: "case run_lives c mid of Some l \<Rightarrow> (life_move calm)\<^sup>*\<^sup>* l l'
         | None \<Rightarrow> (\<exists>spec. mission_fields_ok spec \<and> mission_check cv spec = Inr () \<and> ms_mission_id spec = mid \<and>
                     (life_move calm)\<^sup>*\<^sup>* (new_life spec) l')"
    unfolding run_moves_def by blast
  have "\<exists>l. life_ok l \<and> (calm \<longrightarrow> life_quiet l) \<and> (life_move calm)\<^sup>*\<^sup>* l l'"
  proof (cases "run_lives c mid")
    case None
    with m show ?thesis using accepted_life by auto
  next
    case (Some l)
    with m assms(2) show ?thesis by (auto simp: life_fits_def)
  qed
  then have "life_ok l' \<and> (calm \<longrightarrow> life_quiet l')"
    using life_steps_ok life_steps_quiet by (cases calm) auto
  with l' assms(2) show ?thesis by (auto simp: life_fits_def)
qed

section \<open>Every step\<close>

lemma sure_fst: "sure m w (\<lambda>w' x. P w') \<Longrightarrow> P (fst (m w))"
  by (simp add: sure_def)

lemma begin_rebalance_run:
  assumes "repo_inv (wd_repository w)" "child_transition_ok t" "life_fits calm (wd_repository w) (vt_mission_id t)"
    and "begin_rebalance co t usage failure w = (w', x)"
  shows "moves calm (vt_mission_id t) (wd_repository w) (wd_repository w')"
    and "x = Inr (Some s) \<Longrightarrow> sr_transition s = t \<and> (calm \<longrightarrow> calm_rebalance w' s)"
  using begin_rebalance_moves [OF assms(1-3), of co usage failure] assms(4) by (auto simp: sure_def)

lemma request_rebalance_moves:
  assumes "repo_inv (wd_repository w)" "child_transition_ok t" "life_fits calm (wd_repository w) (vt_mission_id t)"
  shows "moves calm (vt_mission_id t) (wd_repository w) (wd_repository (fst (request_rebalance co planner t usage failure w)))"
proof -
  obtain w' x where b: "begin_rebalance co t usage failure w = (w', x)" by (cases "begin_rebalance co t usage failure w")
  note mv = begin_rebalance_run [OF assms b]
  show ?thesis
  proof (cases "\<exists>s. x = Inr (Some s)")
    case False
    then show ?thesis using b mv(1) by (auto simp: request_rebalance_def and_then_def returning_def split: sum.splits option.splits)
  next
    case True
    then obtain s where s: "x = Inr (Some s)" by blast
    have "sure (end_rebalance co s (planner (sr_request s))) w' (\<lambda>w'' x. moves calm (vt_mission_id t) (wd_repository w') (wd_repository w''))"
      using end_rebalance_moves [of w' s calm co "planner (sr_request s)"] mv(2) [OF s] assms(2) moves_inv [OF mv(1)] by simp
    from moves_trans [OF mv(1) sure_fst [OF this]] show ?thesis
      using b s by (simp add: request_rebalance_def and_then_def)
  qed
qed

lemma mission_step_keeps:
  assumes "mission_step co cv calm c c'" and fits: "run_fits calm c"
  shows "run_moves cv calm c c' \<and> run_fits calm c'"
proof -
  have inv: "repo_inv (wd_repository (fst c))" and life: "\<forall>mid. life_fits calm (wd_repository (fst c)) mid"
    and susp: "\<forall>s\<in>set (snd c). child_transition_ok (sr_transition s)"
    using fits by (simp_all add: run_fits_def)
  have by_moves: "run_moves cv calm c c' \<and> run_fits calm c'"
    if "moves calm mid (wd_repository (fst c)) (wd_repository (fst c'))" "set (snd c') \<subseteq> set (snd c)" for mid
    using moves_run [OF that(1)] moves_inv [OF that(1)] run_moves_fits [OF _ life] that(2) susp
    by (auto simp: run_fits_def)
  from assms(1) show ?thesis
  proof cases
    case (run_submit occ spec w ss scope rid)
    then have "sure (submit_mission co scope rid spec occ) w (\<lambda>w' x. submission_moves calm spec (wd_repository w) (wd_repository w'))"
      using inv by (intro submit_moves [where cv = cv]) simp_all
    note s = sure_fst [OF this]
    have "run_moves cv calm c c'" using run_submit s by (intro submission_run [of calm spec]) simp_all
    moreover have "repo_inv (wd_repository (fst c'))" using s run_submit by (simp add: submission_moves_def)
    ultimately show ?thesis using run_moves_fits [OF \<open>run_moves cv calm c c'\<close> life] susp run_submit by (simp add: run_fits_def)
  next
    case (run_explore occ w ss mid i bounds caps q)
    then show ?thesis using inv sure_fst [OF exploration_moves] by (intro by_moves [of mid]) simp_all
  next
    case (run_advance occ w ss mid)
    then show ?thesis using inv sure_fst [OF committed_evidence_moves] by (intro by_moves [of mid]) simp_all
  next
    case (run_verify occ w ss mid e)
    then show ?thesis using inv sure_fst [OF verify_completion_moves] by (intro by_moves [of mid]) simp_all
  next
    case (run_stop occ w ss mid rid reason)
    then show ?thesis using inv sure_fst [OF stop_moves] by (intro by_moves [of mid]) simp_all
  next
    case (run_recover occ w ss mid)
    then show ?thesis using inv life sure_fst [OF recover_moves] by (intro by_moves [of mid]) simp_all
  next
    case (run_child t w ss)
    then show ?thesis using inv life sure_fst [OF on_child_moves] by (intro by_moves [of "vt_mission_id t"]) simp_all
  next
    case (run_rebalance t w ss planner usage failure)
    then show ?thesis using inv life request_rebalance_moves by (intro by_moves [of "vt_mission_id t"]) simp_all
  next
    case (run_suspend t usage failure w w' s ss)
    have mv: "moves calm (vt_mission_id t) (wd_repository w) (wd_repository w')" and s: "sr_transition s = t"
      using begin_rebalance_run [OF _ _ _ run_suspend(5)] run_suspend inv life by auto
    have "run_moves cv calm c c'" using mv run_suspend by (intro moves_run [of calm "vt_mission_id t"]) simp_all
    moreover from this have "\<forall>mid. life_fits calm (wd_repository (fst c')) mid" using life by (rule run_moves_fits)
    ultimately show ?thesis
      using moves_inv [OF mv] s run_suspend susp by (simp add: run_fits_def)
  next
    case (run_resume s ss w answer)
    then have "sure (end_rebalance co s answer) w (\<lambda>w' x. moves calm (vt_mission_id (sr_transition s)) (wd_repository w) (wd_repository w'))"
      using inv susp by (intro end_rebalance_moves) simp_all
    from sure_fst [OF this] show ?thesis
      using run_resume by (intro by_moves [of "vt_mission_id (sr_transition s)"]) (simp_all add: set_remove1_subset)
  next
    case (run_journal w s' ss)
    then show ?thesis using inv by (intro by_moves [of "[]"]) simp_all
  qed
qed

lemma run_fits_start: "run_fits calm (mission_start capacity)"
proof -
  have "lives empty_repository mid = None" for mid by (simp add: lives_def empty_repository_def)
  then show ?thesis using repo_inv_empty by (simp add: run_fits_def mission_start_def life_fits_def)
qed

lemma mission_runs_fit: "mission_runs co cv calm capacity c \<Longrightarrow> run_fits calm c"
  unfolding mission_runs_def
  by (induction rule: rtranclp_induct) (use run_fits_start mission_step_keeps in blast)+

section \<open>The repository in a run\<close>

text \<open>
  The coordinator uses the repository through its methods only, with arguments that their callers may
  give: every method of the coordinator is a sequence of steps of the repository, so that everything
  shown of reachable repositories holds in every run of the coordinator.
\<close>

section \<open>Lawful methods\<close>

definition lawful :: "(mission_spec \<Rightarrow> string) \<Rightarrow> (json \<Rightarrow> bool) \<Rightarrow> 'a coord \<Rightarrow> bool" where
  "lawful h cv m \<longleftrightarrow> (\<forall>w. (repo_step h cv)\<^sup>*\<^sup>* (wd_repository w) (wd_repository (fst (m w))))"

named_theorems lawful_rules \<open>how a method is composed of lawful calls\<close>

lemma lawful_returning [lawful_rules]: "lawful h cv (returning x)"
  by (simp add: lawful_def returning_def)

lemma lawful_raising [lawful_rules]: "lawful h cv (raising e)"
  by (simp add: lawful_def raising_def)

lemma lawful_and_then [lawful_rules]:
  assumes "lawful h cv m" and "\<And>y. lawful h cv (f y)"
  shows "lawful h cv (and_then m f)"
  unfolding lawful_def
proof
  fix w :: mission_world
  obtain w' x where m: "m w = (w', x)" by (cases "m w")
  have w': "(repo_step h cv)\<^sup>*\<^sup>* (wd_repository w) (wd_repository w')" using assms(1) m unfolding lawful_def by (metis fst_conv)
  show "(repo_step h cv)\<^sup>*\<^sup>* (wd_repository w) (wd_repository (fst (and_then m f w)))"
  proof (cases x)
    case (Inl e)
    then show ?thesis using m w' by (simp add: and_then_def)
  next
    case (Inr y)
    have "(repo_step h cv)\<^sup>*\<^sup>* (wd_repository w') (wd_repository (fst (f y w')))" using assms(2) by (simp add: lawful_def)
    with w' Inr m show ?thesis by (simp add: and_then_def)
  qed
qed

lemma lawful_on_journal [lawful_rules]: "lawful h cv (on_journal f)"
  by (simp add: lawful_def on_journal_def split: prod.split sum.split)

lemma lawful_on_repository [lawful_rules]: "(\<And>r. repo_step h cv r (fst (f r))) \<Longrightarrow> lawful h cv (on_repository f)"
  by (auto simp: lawful_def on_repository_def split: prod.split sum.split) (metis fst_conv r_into_rtranclp)+

lemma lawful_with_budget [lawful_rules]: "(\<And>a. lawful h cv (f a)) \<Longrightarrow> lawful h cv (with_budget x f)"
  by (simp add: with_budget_def lawful_raising split: sum.split)

lemma lawful_with_snapshot [lawful_rules]: "(\<And>sn. lawful h cv (f sn)) \<Longrightarrow> lawful h cv (with_snapshot mid f)"
  by (simp add: lawful_def with_snapshot_def split: sum.split)

lemma lawful_if [lawful_rules]:
  "(P \<Longrightarrow> lawful h cv a) \<Longrightarrow> (\<not> P \<Longrightarrow> lawful h cv b) \<Longrightarrow> lawful h cv (if P then a else b)"
  by simp

lemma lawful_option [lawful_rules]:
  "lawful h cv a \<Longrightarrow> (\<And>x. lawful h cv (f x)) \<Longrightarrow> lawful h cv (case y of None \<Rightarrow> a | Some x \<Rightarrow> f x)"
  by (simp split: option.split)

lemma lawful_prod [lawful_rules]: "(\<And>a b. lawful h cv (f a b)) \<Longrightarrow> lawful h cv (case p of (a, b) \<Rightarrow> f a b)"
  by (simp split: prod.split)

text \<open>A method may depend on the journal that it finds.\<close>

lemma lawful_reading_command [lawful_rules]:
  "lawful h cv a \<Longrightarrow> (\<And>x. lawful h cv (f x)) \<Longrightarrow>
   lawful h cv (\<lambda>w. (case get_command (wd_journal w) c of None \<Rightarrow> a | Some x \<Rightarrow> f x) w)"
  by (simp add: lawful_def split: option.split)

section \<open>The calls\<close>

lemma repository_calls [lawful_rules]:
  "repo_step h cv r (fst (transition_mission r mid e t reason actor occ det refs))"
  "repo_step h cv r (fst (transition_objective r mid oid e st reason actor occ det refs))"
  "repo_step h cv r (fst (replace_objective_budget r mid oid e budget reason actor occ goal det refs))"
  "repo_step h cv r (fst (append_objective r mid ob reason actor occ refs))"
  "repo_step h cv r (fst (save_proposal r p dn occ))"
  "repo_step h cv r (fst (save_mission_budget r mid b))"
  by (blast intro: repo_step.mission [OF prod.collapse [symmetric]] repo_step.objective [OF prod.collapse [symmetric]]
      repo_step.budget_of [OF prod.collapse [symmetric]] repo_step.append_ob [OF prod.collapse [symmetric]]
      repo_step.proposal [OF prod.collapse [symmetric]] repo_step.account [OF prod.collapse [symmetric]])+

lemma lawful_link_refs [lawful_rules]: "lawful h cv (link_refs co t n refs)"
proof (induction refs arbitrary: n)
  case (Cons ref refs)
  show ?case
  proof (cases "make_evidence_link (child_link co t n ref)")
    case (Some l)
    have "repo_step h cv r (fst (link_evidence r l))" for r
      by (rule repo_step.evidence [OF Some prod.collapse [symmetric]])
    with Some Cons.IH show ?thesis by (simp add: lawful_rules)
  qed (simp add: lawful_raising)
qed (simp add: lawful_returning)

lemma lawful_cancel [lawful_rules]: "lawful h cv (cancel_objectives mid reason occ xs)"
  by (induction xs) (simp_all add: lawful_rules)

lemma lawful_advance [lawful_rules]: "lawful h cv (advance_mission co mid scope occ)"
  unfolding advance_mission_def advance_idle_def dispatch_objective_def Let_def by (intro lawful_rules)

lemma lawful_submit:
  assumes "mission_fields_ok spec" "mission_check cv spec = Inr ()"
  shows "lawful (co_spec_hash co) cv (submit_mission co scope rid spec occ)"
proof -
  have "repo_step (co_spec_hash co) cv r (fst (create_mission (co_spec_hash co) r scope rid spec occ))" for r
    by (rule repo_step.create [OF assms prod.collapse [symmetric]])
  then show ?thesis unfolding submit_mission_def by (intro lawful_rules)
qed

lemma lawful_block: "lawful h cv (block_mission mid sn det occ)"
  unfolding block_mission_def by (intro lawful_rules)

lemma lawful_block_reading [lawful_rules]: "lawful h cv (\<lambda>w. block_mission mid sn (f w) occ w)"
  using lawful_block by (simp add: lawful_def)

lemma lawful_end_mission [lawful_rules]: "lawful h cv (end_mission t sn target reason)"
  unfolding end_mission_def by (intro lawful_rules)

lemma lawful_settle [lawful_rules]: "lawful h cv (settle_child co t sn ob st budget rid)"
  unfolding settle_child_def Let_def by (intro lawful_rules)

lemma lawful_methods:
  "lawful h cv (consider_exploration co mid i bounds caps occ q)"
  "lawful h cv (advance_from_committed_evidence co mid occ)"
  "lawful h cv (verify_completion co mid e occ)"
  "lawful h cv (stop_mission co mid rid reason occ)"
  "lawful h cv (recover_mission mid occ)"
  "lawful h cv (on_child_transition co t)"
  "lawful h cv (begin_rebalance co t usage failure)"
  "lawful h cv (end_rebalance co s answer)"
  unfolding consider_exploration_def admit_child_def advance_from_committed_evidence_def verify_completion_def
    stop_mission_def recover_mission_def on_child_transition_def begin_rebalance_def
    fail_for_rebalance_def end_rebalance_def Let_def
  by (intro lawful_rules)+

lemma lawful_request_rebalance: "lawful h cv (request_rebalance co planner t usage failure)"
  unfolding request_rebalance_def by (intro lawful_rules lawful_methods)

section \<open>Runs\<close>

lemma mission_step_steps:
  assumes "mission_step co cv calm c c'"
  shows "(repo_step (co_spec_hash co) cv)\<^sup>*\<^sup>* (wd_repository (fst c)) (wd_repository (fst c'))"
  using assms
proof (induction rule: mission_step.induct)
  case (run_suspend t usage failure w w' s ss)
  then show ?case
    using lawful_methods(7) [of "co_spec_hash co" cv co t usage failure] unfolding lawful_def by (metis fst_conv)
qed (use lawful_submit lawful_methods lawful_request_rebalance in \<open>auto simp: lawful_def\<close>)

lemma mission_steps_steps:
  assumes "(mission_step co cv calm)\<^sup>*\<^sup>* c c'"
  shows "(repo_step (co_spec_hash co) cv)\<^sup>*\<^sup>* (wd_repository (fst c)) (wd_repository (fst c'))"
  using assms by (induction rule: rtranclp_induct) (auto dest: mission_step_steps intro: rtranclp_trans)

lemma mission_runs_reachable:
  "mission_runs co cv calm capacity c \<Longrightarrow> repo_reachable (co_spec_hash co) cv (wd_repository (fst c))"
  using mission_steps_steps [of co cv calm "mission_start capacity" c]
  by (simp add: mission_runs_def repo_reachable_def mission_start_def)

end
