(* ===== verification/Mission_Coordinator_Properties.thy ===== *)
theory Mission_Coordinator_Properties
  imports Mission_Run
begin

text \<open>
  The properties of the mission coordinator: whatever is called, and in whatever order, each mission lives
  the abstract life of Mission_Life, and so keeps the order of its objectives.
\<close>

section \<open>A concrete run\<close>

text \<open>
  A mission with two independent objectives.  The first fails and waits for its planner; meanwhile the
  second is started; then the planner declines.
\<close>

definition sample_codec :: codec where
  "sample_codec =
     \<lparr>co_digest = (\<lambda>_. replicate 64 (CHR ''0'')), co_goal_hash = gs_target, co_spec_hash = example_hash,
      co_evidence_hash = (\<lambda>_ _ _ _. []), co_goal_json = (\<lambda>_. JNull), co_policy_json = (\<lambda>_. JNull),
      co_usage_json = (\<lambda>_. []), co_budget_json = (\<lambda>_. []), co_proposal_json = (\<lambda>_. JNull)\<rparr>"

definition sample_mission :: mission_spec where
  "sample_mission =
     example_mission\<lparr>ms_objectives := [example_objective ''a'' [], example_objective ''c'' []],
       ms_autonomy := (ms_autonomy example_mission)\<lparr>au_max_budget_rebalances := 2\<rparr>\<rparr>"

definition sample_failure :: child_transition where
  "sample_failure =
     \<lparr>vt_mission_id = ''m1'', vt_objective_id = ''a'', vt_command_id = ''mission-m1-a-v1'',
      vt_command_state = FAILED, vt_verification = ChildFailed, vt_evidence_refs = [''receipt:1''],
      vt_actual_budget = example_usage 1 1, vt_occurred_at_ms = 8\<rparr>"

definition sample_submitted :: mission_world where
  "sample_submitted = fst (submit_mission sample_codec ''live'' ''r1'' sample_mission 5 (fst (mission_start 4)))"

definition sample_suspension :: "mission_world \<times> (coord_error + suspended_rebalance option)" where
  "sample_suspension = begin_rebalance sample_codec sample_failure (example_usage 1 1) ''BUDGET'' sample_submitted"

definition sample_suspended :: suspended_rebalance where
  "sample_suspended = the (projr (snd sample_suspension))"

definition sample_advanced :: mission_world where
  "sample_advanced = fst (advance_from_committed_evidence sample_codec ''m1'' 9 (fst sample_suspension))"

definition sample_declined :: mission_world where
  "sample_declined = fst (end_rebalance sample_codec sample_suspended None sample_advanced)"

definition objective_states :: "mission_world \<Rightarrow> string \<Rightarrow> (mission_status \<times> (string \<times> objective_status) list) option" where
  "objective_states w mid =
     (case mission_snapshot_of (wd_repository w) mid of
        Inl _ \<Rightarrow> None
      | Inr sn \<Rightarrow> Some (mr_status (sn_mission sn),
          map (\<lambda>x. (ob_objective_id (or_objective x), or_status x)) (sn_objectives sn)))"

lemma sample_accepted: "mission_check (\<lambda>_. True) sample_mission = Inr ()" "mission_fields_ok sample_mission"
  by code_simp+

lemma sample_failure_ok: "child_transition_ok sample_failure"
  by code_simp

lemma sample_states:
  "objective_states sample_submitted ''m1'' = Some (MRunning, [(''a'', OActiveState), (''c'', OPending)])"
  "objective_states sample_declined ''m1'' = Some (MFailed, [(''a'', OFailedState), (''c'', OActiveState)])"
  by code_simp+

lemma sample_waits: "\<exists>s. snd sample_suspension = Inr (Some s)"
proof -
  have "(case snd sample_suspension of Inr (Some _) \<Rightarrow> True | _ \<Rightarrow> False)" by code_simp
  then show ?thesis by (auto split: sum.splits option.splits)
qed

lemma sample_runs:
  "mission_runs sample_codec (\<lambda>_. True) calm 4 (mission_start 4)"
  "mission_step sample_codec (\<lambda>_. True) calm (mission_start 4) (sample_submitted, [])"
  "mission_runs sample_codec (\<lambda>_. True) calm 4 (sample_submitted, [])"
  "mission_runs sample_codec (\<lambda>_. True) False 4 (sample_declined, [])"
proof -
  let ?step = "mission_step sample_codec (\<lambda>_. True)"
  show start: "mission_runs sample_codec (\<lambda>_. True) calm 4 (mission_start 4)" for calm
    by (simp add: mission_runs_def)
  show submitted: "?step calm (mission_start 4) (sample_submitted, [])" for calm
    unfolding sample_submitted_def mission_start_def fst_conv
    by (rule run_submit) (simp_all add: sample_accepted)
  show run: "mission_runs sample_codec (\<lambda>_. True) calm 4 (sample_submitted, [])" for calm
    using start submitted unfolding mission_runs_def by (rule rtranclp.rtrancl_into_rtrancl)
  obtain s where "snd sample_suspension = Inr (Some s)" using sample_waits by blast
  then have s: "begin_rebalance sample_codec sample_failure (example_usage 1 1) ''BUDGET'' sample_submitted =
      (fst sample_suspension, Inr (Some sample_suspended))"
    by (simp add: sample_suspended_def sample_suspension_def prod_eq_iff)
  have "?step False (sample_submitted, []) (fst sample_suspension, [sample_suspended])"
    by (rule run_suspend [OF _ sample_failure_ok s]) simp
  moreover have "?step False (fst sample_suspension, [sample_suspended]) (sample_advanced, [sample_suspended])"
    unfolding sample_advanced_def by (rule run_advance) simp
  moreover have "?step False (sample_advanced, [sample_suspended]) (sample_declined, remove1 sample_suspended [sample_suspended])"
    unfolding sample_declined_def by (rule run_resume) simp_all
  ultimately show "mission_runs sample_codec (\<lambda>_. True) False 4 (sample_declined, [])"
    using run [of False] unfolding mission_runs_def by simp
qed

section \<open>Counting rebalances\<close>

definition retries :: "repository \<Rightarrow> string \<Rightarrow> int" where
  "retries r mid =
     (case dict_get (re_transitions r) mid of
        None \<Rightarrow> 0 | Some ts \<Rightarrow> int (length (filter (\<lambda>x. td_reason_code x = rebalance_reason) ts)))"

lemma retries_later: "repo_later r r' \<Longrightarrow> retries r mid \<le> retries r' mid"
proof (cases "dict_get (re_transitions r) mid")
  case (Some ts)
  assume "repo_later r r'"
  with Some obtain ts' where "dict_get (re_transitions r') mid = Some ts'" "prefix ts ts'"
    unfolding repo_later_def dict_grows_def by blast
  with Some show ?thesis by (auto simp: retries_def prefix_def)
qed (simp add: retries_def split: option.split)

lemma store_retries:
  "store_objective r mid obs i y st rebalance_reason actor occ det refs = (r', Inr z) \<Longrightarrow> retries r' mid = retries r mid + 1"
  by (auto simp: store_objective_def Let_def audit_def retries_def transition_draft.defs dict_simps split: option.splits if_splits)

lemma retry_calls:
  "replace_objective_budget r mid oid e b rebalance_reason actor occ goal det refs = (r', Inr z) \<Longrightarrow> retries r' mid = retries r mid + 1"
  "transition_objective r mid oid e t rebalance_reason actor occ det refs = (r', Inr z) \<Longrightarrow> retries r' mid = retries r mid + 1"
  by (auto simp: replace_objective_budget_def transition_objective_def Let_def dest: store_retries split: option.splits if_splits)

text \<open>A rebalance leaves two records with its reason.\<close>

lemma end_rebalance_retries:
  assumes "end_rebalance co s answer w = (w', Inr WasRebalanced)" and "repo_inv (wd_repository w)"
  shows "2 \<le> retries (wd_repository w') (vt_mission_id (sr_transition s))"
proof -
  let ?t = "sr_transition s"
  let ?mid = "vt_mission_id ?t"
  obtain p account r1 r2 r3 u z y v where calls:
      "save_mission_budget (wd_repository w) ?mid account = (r1, Inr u)"
      "replace_objective_budget r1 ?mid (vt_objective_id ?t) (or_version (sr_failed s)) (rp_new_budget p) rebalance_reason
         coordinator_actor (vt_occurred_at_ms ?t) (Some (replacement_goal (ob_goal (or_objective (sr_failed s))) p))
         (rebalance_details ?t p) (vt_evidence_refs ?t) = (r2, Inr z)"
      "transition_objective r2 ?mid (vt_objective_id ?t) (or_version z) OPending rebalance_reason
         coordinator_actor (vt_occurred_at_ms ?t) (command_detail (vt_command_id ?t)) (vt_evidence_refs ?t) = (r3, Inr y)"
      "advance_mission co ?mid (sr_scope s) (vt_occurred_at_ms ?t) (w\<lparr>wd_repository := r3\<rparr>) = (w', Inr v)"
    using assms(1)
    by (auto simp: end_rebalance_def Let_def with_budget_def and_then_def on_repository_def raising_def returning_def
        split: sum.splits option.splits prod.splits)
  have r1: "same_tables (wd_repository w) r1" by (rule rest_frame(2) [OF calls(1) assms(2)])
  have inv: "repo_inv r2" using repo_inv_replace_budget [OF _ calls(2)] r1 by (simp add: same_tables_def)
  have "repo_inv r3" by (rule repo_inv_transition_objective [OF inv calls(3)])
  moreover have "(repo_step (co_spec_hash co) (\<lambda>_. True))\<^sup>*\<^sup>* r3 (wd_repository w')"
    using lawful_advance [of "co_spec_hash co" "\<lambda>_. True" co ?mid "sr_scope s" "vt_occurred_at_ms ?t"] calls(4)
    unfolding lawful_def by (metis fst_conv mission_world.select_convs(1) mission_world.surjective mission_world.update_convs(1))
  ultimately have "repo_later r3 (wd_repository w')" using repo_later_steps by blast
  moreover have "retries r3 ?mid = retries r1 ?mid + 2" using retry_calls(1) [OF calls(2)] retry_calls(2) [OF calls(3)] by simp
  moreover have "0 \<le> retries r1 ?mid" by (simp add: retries_def split: option.split)
  ultimately show ?thesis using retries_later [of r3 "wd_repository w'" ?mid] by simp
qed

lemma snapshot_exists:
  assumes "repo_inv r" and "dict_get (re_transitions r) mid \<noteq> None"
  shows "\<exists>sn. mission_snapshot_of r mid = Inr sn"
proof -
  have "same_keys r" using assms(1) by (simp add: repo_inv_def)
  from same_keys_get [OF this, of mid] assms(2) show ?thesis
    by (auto simp: mission_snapshot_of_def list_objectives_def split: option.splits)
qed

lemma rebalances_used_retries: "mission_snapshot_of r mid = Inr sn \<Longrightarrow> rebalances_used sn = retries r mid"
  by (simp add: rebalances_used_def retries_def snapshot_sel(3))

lemma spent_rebalance:
  assumes "mission_snapshot_of (wd_repository w) (vt_mission_id t) = Inr sn"
    and "au_max_budget_rebalances (ms_autonomy (mr_spec (sn_mission sn))) \<le> rebalances_used sn"
  shows "request_rebalance co planner t usage failure w = (w, Inr NotApplicable)"
proof -
  have "begin_rebalance co t usage failure w = (w, Inr None)"
    using assms by (auto simp: begin_rebalance_def with_snapshot_def returning_def rebalance_applicable_def Let_def split: option.split)
  then show ?thesis by (simp add: request_rebalance_def and_then_def returning_def)
qed

text \<open>The specification of a mission is the accepted one for its whole life.\<close>

lemma life_moves_spec: "(life_move calm)\<^sup>*\<^sup>* l l' \<Longrightarrow> ml_spec l' = ml_spec l"
  by (induction rule: rtranclp_induct) (auto elim!: life_moveE)

lemma run_moves_specs:
  assumes "run_moves cv calm c c'" and "\<forall>mid l. run_lives c mid = Some l \<longrightarrow> mission_fields_ok (ml_spec l)"
  shows "\<forall>mid l. run_lives c' mid = Some l \<longrightarrow> mission_fields_ok (ml_spec l)"
proof (cases "run_lives c' = run_lives c")
  case False
  with assms(1) obtain mid l' where "run_lives c' = (run_lives c)(mid \<mapsto> l')"
    and "case run_lives c mid of Some l \<Rightarrow> (life_move calm)\<^sup>*\<^sup>* l l'
         | None \<Rightarrow> (\<exists>spec. mission_fields_ok spec \<and> mission_check cv spec = Inr () \<and> ms_mission_id spec = mid \<and>
                     (life_move calm)\<^sup>*\<^sup>* (new_life spec) l')"
    unfolding run_moves_def by blast
  moreover from this have "mission_fields_ok (ml_spec l')"
    using assms(2) by (auto simp: new_life_def dest!: life_moves_spec split: option.splits)
  ultimately show ?thesis using assms(2) by auto
qed (use assms(2) in simp)

lemma mission_runs_specs:
  assumes "mission_runs co cv calm capacity c" and "run_lives c mid = Some l"
  shows "mission_fields_ok (ml_spec l)"
proof -
  have "run_fits calm c \<and> (\<forall>mid l. run_lives c mid = Some l \<longrightarrow> mission_fields_ok (ml_spec l))"
    using assms(1) unfolding mission_runs_def
  proof (induction rule: rtranclp_induct)
    case base
    show ?case using run_fits_start by (simp add: mission_start_def lives_def empty_repository_def)
  next
    case (step c c')
    then show ?case using mission_step_keeps [OF step(2)] run_moves_specs [of cv calm c c'] by blast
  qed
  with assms(2) show ?thesis by blast
qed

section \<open>The properties\<close>

text \<open>
  C12. The coordinator refines the abstract life of a mission.  In every reachable state each step, whether it
  returns or raises, and the suspended rebalances included, leaves all missions but one alone; that one
  is either created from an accepted specification, or it existed, and it goes through moves of the
  abstract life only: it is planned, starts one pending objective whose dependencies are completed while
  nothing else is active, ends an active one, waits for evidence or completes when every required objective
  is completed, fails, stops, is blocked, is given a further objective, or retries a failed one.
\<close>

theorem coordinator_refines_life:
  assumes "mission_runs co cv calm capacity c" and "mission_step co cv calm c c'"
  shows "lives (wd_repository (fst c')) = lives (wd_repository (fst c)) \<or>
     (\<exists>mid l'. lives (wd_repository (fst c')) = (lives (wd_repository (fst c)))(mid \<mapsto> l') \<and>
        (case lives (wd_repository (fst c)) mid of
           Some l \<Rightarrow> (life_move calm)\<^sup>*\<^sup>* l l'
         | None \<Rightarrow> (\<exists>spec. mission_fields_ok spec \<and> mission_check cv spec = Inr () \<and> ms_mission_id spec = mid \<and>
                     (life_move calm)\<^sup>*\<^sup>* (new_life spec) l')))"
  using mission_step_keeps [OF assms(2) mission_runs_fit [OF assms(1)]] by (simp add: run_moves_def)

theorem coordinator_refines_life_witness:
  "\<exists>mid spec l'. ms_mission_id spec = mid \<and> (life_move True)\<^sup>*\<^sup>* (new_life spec) l' \<and>
     lives (wd_repository sample_submitted) = [mid \<mapsto> l']"
proof -
  have empty: "lives (wd_repository (fst (mission_start 4))) = Map.empty"
    by (simp add: mission_start_def lives_def empty_repository_def fun_eq_iff)
  have "objective_states sample_submitted ''m1'' \<noteq> None" using sample_states(1) by simp
  then have "lives (wd_repository sample_submitted) \<noteq> Map.empty"
    by (auto simp: objective_states_def fun_eq_iff dest!: snapshot_sel(6) split: sum.splits)
  then obtain mid l' spec where "lives (wd_repository sample_submitted) = [mid \<mapsto> l']" "ms_mission_id spec = mid"
      "(life_move True)\<^sup>*\<^sup>* (new_life spec) l'"
    using coordinator_refines_life [OF sample_runs(1) [of True] sample_runs(2) [of True]] unfolding empty fst_conv by force
  then show ?thesis by blast
qed

text \<open>
  C13. Missions run in order.  In every reachable state of the coordinator, its journal and the rebalances
  that wait for their planners, a mission has at most one active objective; an objective that is active,
  completed or failed has all its dependencies completed; a completed mission has every required objective of
  its specification completed.  In a calm run, in which nothing happens between the failure of an objective and
  the planner's answer, and a failure is reported again only while nothing is active, a mission that has ended or
  waits for evidence has no active objective.
\<close>

theorem missions_run_in_order:
  assumes "mission_runs co cv calm capacity c" and "mission_snapshot_of (wd_repository (fst c)) mid = Inr sn"
  shows "length (filter (\<lambda>x. or_status x = OActiveState) (sn_objectives sn)) \<le> 1 \<and>
     (\<forall>x\<in>set (sn_objectives sn). or_status x = OActiveState \<or> or_status x = OCompleted \<or> or_status x = OFailedState \<longrightarrow>
        set (ob_dependencies (or_objective x)) \<subseteq> completed_ids sn) \<and>
     (mr_status (sn_mission sn) = MCompleted \<longrightarrow>
        (\<forall>ob\<in>set (ms_objectives (mr_spec (sn_mission sn))). ob_required ob \<longrightarrow> ob_objective_id ob \<in> completed_ids sn)) \<and>
     (calm \<and> (terminal_mission (mr_status (sn_mission sn)) \<or> mr_status (sn_mission sn) = MWaitingEvidence) \<longrightarrow>
        active_objective sn = None)"
proof -
  let ?l = "life_from (sn_mission sn) (sn_objectives sn)"
  have "life_ok ?l" and quiet: "calm \<Longrightarrow> life_quiet ?l"
    using mission_runs_fit [OF assms(1)] snapshot_sel(6) [OF assms(2)] by (auto simp: run_fits_def life_fits_def)
  moreover have "card (life_active ?l) = length (filter (\<lambda>x. or_status x = OActiveState) (sn_objectives sn))"
    by (simp add: life_active_def length_filter_conv_card cong: conj_cong)
  moreover have "life_completed ?l = completed_ids sn" by (simp add: completed_ids_life [of sn "sn_mission sn"])
  ultimately show ?thesis
    using quiet active_objective_None [of sn "sn_mission sn"]
    unfolding life_ok_def life_quiet_def by (auto simp: started_objective_def)
qed

text \<open>The last part needs the calm: here a failed mission has an active objective.\<close>

theorem missions_run_in_order_witness:
  "\<exists>sn. mission_snapshot_of (wd_repository sample_declined) ''m1'' = Inr sn \<and>
     length (filter (\<lambda>x. or_status x = OActiveState) (sn_objectives sn)) \<le> 1 \<and>
     mr_status (sn_mission sn) = MFailed \<and> active_objective sn \<noteq> None"
proof -
  obtain sn where sn: "mission_snapshot_of (wd_repository sample_declined) ''m1'' = Inr sn"
      "mr_status (sn_mission sn) = MFailed"
      "map (\<lambda>x. (ob_objective_id (or_objective x), or_status x)) (sn_objectives sn) = [(''a'', OFailedState), (''c'', OActiveState)]"
    using sample_states(2) by (auto simp: objective_states_def split: sum.splits)
  then have "active_objective sn \<noteq> None" by (auto simp: active_objective_def List_find_None)
  with sn show ?thesis using missions_run_in_order [OF sample_runs(4), of "''m1''" sn] by simp
qed

text \<open>
  C14. A mission is rebalanced at most once.  After a rebalance of a mission has succeeded, whatever the
  coordinator does afterwards and whatever planner is asked, every further request for that mission is not
  applicable and changes nothing - also where the policy of the mission allows two rebalances, because
  each leaves two audit records with the reason that the limit counts.
\<close>

theorem mission_rebalanced_once:
  assumes run: "mission_runs co cv calm capacity c" and t: "child_transition_ok t"
    and first: "request_rebalance co planner t usage failure (fst c) = (w, Inr WasRebalanced)"
    and later: "(mission_step co cv calm)\<^sup>*\<^sup>* (w, snd c) c'" and same: "vt_mission_id t' = vt_mission_id t"
  shows "request_rebalance co planner' t' usage' failure' (fst c') = (fst c', Inr NotApplicable)"
proof -
  let ?mid = "vt_mission_id t"
  have fits: "run_fits calm c" by (rule mission_runs_fit [OF run])
  have step: "mission_step co cv calm c (w, snd c)"
    using run_rebalance [OF t, of co cv calm "fst c" "snd c" planner usage failure] first by simp
  have run': "mission_runs co cv calm capacity (w, snd c)" "mission_runs co cv calm capacity c'"
    using run step later unfolding mission_runs_def by (auto intro: rtranclp_trans rtranclp.rtrancl_into_rtrancl)
  obtain w1 s where s: "begin_rebalance co t usage failure (fst c) = (w1, Inr (Some s))"
      "end_rebalance co s (planner (sr_request s)) w1 = (w, Inr WasRebalanced)"
    using first by (auto simp: request_rebalance_def and_then_def returning_def split: prod.splits sum.splits option.splits)
  have b: "repo_inv (wd_repository w1)" "sr_transition s = t"
    using begin_rebalance_run [OF _ t _ s(1), of calm] fits moves_inv by (auto simp: run_fits_def)
  have two: "2 \<le> retries (wd_repository w) ?mid" using end_rebalance_retries [OF s(2) b(1)] b(2) by simp
  have inv: "repo_inv (wd_repository w)" using mission_runs_fit [OF run'(1)] by (simp add: run_fits_def)
  have "repo_later (wd_repository w) (wd_repository (fst c'))"
    using repo_later_steps [OF mission_steps_steps [OF later]] inv by simp
  then have two': "2 \<le> retries (wd_repository (fst c')) ?mid" using two retries_later by (meson order_trans)
  have inv': "repo_inv (wd_repository (fst c'))" using mission_runs_fit [OF run'(2)] by (simp add: run_fits_def)
  have "dict_get (re_transitions (wd_repository (fst c'))) ?mid \<noteq> None" using two' by (cases "dict_get (re_transitions (wd_repository (fst c'))) ?mid") (simp_all add: retries_def)
  then obtain sn where sn: "mission_snapshot_of (wd_repository (fst c')) ?mid = Inr sn"
    using snapshot_exists [OF inv'] by blast
  have "mission_fields_ok (mr_spec (sn_mission sn))"
    using mission_runs_specs [OF run'(2) snapshot_sel(6) [OF sn]] by simp
  then have "au_max_budget_rebalances (ms_autonomy (mr_spec (sn_mission sn))) \<le> rebalances_used sn"
    using two' rebalances_used_retries [OF sn] by (simp add: mission_fields_ok_def autonomy_fields_ok_def)
  with sn same show ?thesis by (intro spent_rebalance [of _ _ sn]) simp_all
qed

definition sample_planner :: "rebalance_request \<Rightarrow> rebalance_proposal option" where
  "sample_planner q =
     Some \<lparr>rp_rationale = ''retry'', rp_new_budget = example_usage 3 1, rp_navigation_timeout_ms = None\<rparr>"

definition sample_rebalanced :: mission_world where
  "sample_rebalanced =
     fst (request_rebalance sample_codec sample_planner sample_failure (example_usage 2 1) ''BUDGET'' sample_submitted)"

lemma sample_rebalance:
  "request_rebalance sample_codec sample_planner sample_failure (example_usage 2 1) ''BUDGET'' sample_submitted =
     (sample_rebalanced, Inr WasRebalanced)"
proof -
  have "case snd (request_rebalance sample_codec sample_planner sample_failure (example_usage 2 1) ''BUDGET'' sample_submitted)
      of Inr WasRebalanced \<Rightarrow> True | _ \<Rightarrow> False"
    by code_simp
  then show ?thesis by (simp add: sample_rebalanced_def prod_eq_iff split: sum.splits rebalance_outcome.splits)
qed

text \<open>The policy allows two rebalances; the retried command fails as well, and its objective is active.\<close>

theorem mission_rebalanced_once_witness:
  "au_max_budget_rebalances (ms_autonomy sample_mission) = 2 \<and>
   objective_states sample_rebalanced ''m1'' = Some (MRunning, [(''a'', OActiveState), (''c'', OPending)]) \<and>
   request_rebalance sample_codec sample_planner (sample_failure\<lparr>vt_command_id := ''mission-m1-a-v5''\<rparr>)
     (example_usage 3 1) ''BUDGET'' sample_rebalanced = (sample_rebalanced, Inr NotApplicable)"
proof -
  have first: "request_rebalance sample_codec sample_planner sample_failure (example_usage 2 1) ''BUDGET''
      (fst (sample_submitted, [] :: suspended_rebalance list)) = (sample_rebalanced, Inr WasRebalanced)"
    by (simp add: sample_rebalance)
  have same: "vt_mission_id (sample_failure\<lparr>vt_command_id := ''mission-m1-a-v5''\<rparr>) = vt_mission_id sample_failure" by simp
  have "objective_states sample_rebalanced ''m1'' = Some (MRunning, [(''a'', OActiveState), (''c'', OPending)])"
    by code_simp
  then show ?thesis
    using mission_rebalanced_once [OF sample_runs(3) sample_failure_ok first rtranclp.rtrancl_refl same]
    by (simp add: sample_mission_def)
qed

end
