(* ===== verification/Spec2Isabelle.thy ===== *)
theory Spec2Isabelle
  imports Journal_Properties Journal_Ledger Admission Mission_Repository_Properties Stop_Barrier Command_Inbox_Properties
    Failover_Properties Reply_Admission_Properties Media_Channel_Properties Reply_Properties
    Action_Queue_Properties Program_Runtime_Properties Danmaku_Buffer_Properties
    Narration_Properties Activity_Properties Exploration_Properties Mission_Coordinator_Properties
begin

text \<open>
  A verification library for Animetta, a livestreamed companion: a game agent that executes
  commands of its owner and viewers, a dialogue and speech pipeline, and the queues between them.
  It models the program's own decision logic under \<open>src/animetta\<close>; every path below is relative to
  that directory.

  PARTS OF THE PROGRAM, AND THEORIES

  Shared: Unicode_Text holds text as code points; Prelude holds dictionaries as association lists in insertion order, counters, the first
  minimal and maximal element, and list lemmas; Py_Text holds what the code uses of Python's \<open>str\<close>,
  \<open>int(str)\<close> and canonical JSON; Paging states the interfaces of this library as locales: a store
  with keys in order (\<open>keyed_store\<close>) and one read through cursors (\<open>cursor_store\<close>), which proves once
  that following the cursors yields everything.

  The command journal, \<open>tools/minecraft/voyager/\<close>.  Command_States is the table of legal transitions of
  \<open>command_models.py\<close>; Public_Activity the envelope of \<open>public_activity.py\<close>; Journal and Journal_Control
  the in-memory journal of \<open>journal.py\<close>, one definition per method, with the state of its \<open>__init__\<close> as
  the record \<open>journal_state\<close>.  Journal_Steps and Journal_Reachable define a step for every method and
  the reachable journals; Journal_Invariant, Journal_Recovery, Journal_Feed and Journal_Facts hold the invariants;
  Journal_Properties and Journal_Ledger the properties: audit trail, final states, idempotent
  submission, capacity, order of the queue, deadlines, the stop barrier, recovery, paging, the
  activity feed, the steps and the facts.  Scheduler is the single consumer of \<open>scheduler.py\<close>, whose
  journal is the locale \<open>dispatch_journal\<close>, interpreted on the model; Stop_Barrier is \<open>stop.py\<close>, which
  polls the journal while other work goes on.

  Budgets and missions.  Budget, Budget_Account and Budget_Properties are \<open>budget.py\<close>: validated
  budgets, clamping, and the account, whose scalar dimensions and resources share the locale
  \<open>dimension\<close>.  Goal_Models is \<open>goal_models.py\<close>; Mission_Models, Mission_Dag and Mission_Properties are the
  mission validator of \<open>mission/models.py\<close>, whose depth-first search is proved equivalent to
  acyclicity; Admission is \<open>mission/admission.py\<close>; Mission_States, Mission_Repository,
  Mission_Repository_Inv and Mission_Repository_Properties are \<open>mission/state_machine.py\<close> and the in-memory
  repository of \<open>mission/repository.py\<close>.

  Mission coordination.  Exploration and Exploration_Properties are the proposer of \<open>tools/minecraft/discovery/exploration.py\<close>
  and the policy of \<open>mission/adaptive.py\<close>; Rebalance is the validation of \<open>mission/replan.py\<close> and the verifier of
  \<open>mission/verifier.py\<close>.  Mission_Coordinator and Mission_Children are \<open>mission/coordinator.py\<close>, one definition per
  method over the repository and the journal above, which return what was written together with the result or the
  exception; \<open>request_rebalance\<close> is also cut in two at its planner.  Mission_Life is the abstract life of a
  mission and what it keeps; Mission_Calls, Mission_Coordinator_Life and Mission_Child_Life show call by call that every
  method moves a mission along it.  Mission_Run interleaves the methods, the journal's other users and the suspended
  rebalances (\<open>mission_step\<close>) and shows that the repository stays reachable;
  Mission_Coordinator_Properties holds the properties.

  Queues and speech.  Command_Inbox and Command_Inbox_Properties are \<open>services/command_inbox.py\<close>, the
  durable table of tasks, proved to refine an abstract life cycle.  Failover_TTS and
  Failover_Properties are \<open>services/tts/failover_tts.py\<close>.  Reply_Admission is
  \<open>services/bilibili/reply_admission.py\<close>; Reply_Media the arbiter, the coordinator and the turns of
  \<open>reply_media.py\<close>; Media_Channel the step relation of all their users; Reply_Queue and Reply_Runtime
  \<open>reply_queue.py\<close>; the theories named after them with Properties or Steps hold their lemmas, and
  Reply_Properties the conservation of replies and the order of the queue.  Action_Queue and
  Action_Queue_Properties are \<open>services/live2d/action_queue.py\<close>.  Danmaku_Buffer and Danmaku_Buffer_Properties are
  \<open>services/bilibili/danmaku_buffer.py\<close>, whose table of phrases is proved to agree with a recount.

  Public activity and narration, \<open>tools/minecraft/voyager/public_activity.py\<close> and \<open>services/livestream_narration.py\<close>.
  Activity_Projection is the projection and the publisher; Activity_Recorder the vocabulary and the recorder of
  commands; Activity_Aggregator the aggregator of runtime phases and the line of all of them with the journal;
  Activity_Line shows what the line makes public, Activity_Order the order of its tasks, and
  Activity_Properties the properties.  Narration holds the validation, texts and cues of the director,
  Narration_Director the director, with one function \<open>narrate\<close> for everything that can happen to it;
  Narration_Feed shows that it accepts what the publisher emits, Narration_Inv and Narration_Speech what its
  memory and its cues keep, and Narration_Properties the broadcasts and the speech.

  Program scripts.  Program_Script and Program_Script_Properties are the contract and the validators of
  \<open>services/program_script/models.py\<close>; Program_Runtime is the runner of \<open>services/program_script/runtime.py\<close>, with one function
  \<open>perform\<close> for everything that can happen to it; Program_Runtime_Inv and Program_Runtime_Steps prove its invariant run by
  run, and Program_Runtime_Properties the properties and the runs that break them.

  HOW STATE AND OPERATIONS CORRESPOND

  An object is a record, a method a function from the state (and its arguments) to the new state and
  the result; an exception is the left side of a sum, and a state next to it is what the method
  had changed by then.  Values that Python copies are values here.  Clocks, identifiers, hashes and random numbers
  are arguments.  A dictionary keeps its insertion order where the code iterates over it.  A float is an exact
  rational; text is a list of characters below 256, and a list of code points where the code looks
  at other scripts.  Asynchronous code is cut at its suspensions: what an operation does between two
  of them is one step, because the locks and conditions of the modelled classes are held over no
  other suspension; a wait is a state or the result None, and the step relations (\<open>journal_step\<close>,
  \<open>inbox_step\<close>, \<open>media_step\<close>, \<open>runtime_step\<close>, \<open>action_step\<close>, \<open>program_event\<close>, \<open>narration_event\<close>,
  \<open>line_run\<close>, \<open>mission_step\<close>) interleave the steps freely.

  WHAT THE GROUPS OF LEMMAS SHOW

  For each component an invariant of its reachable states is proved by rule induction over its steps,
  and the properties follow from it: what an operation returns on every branch, that accounts and
  counters balance, that nothing is lost or done twice, that pages are complete, that waits end.
  Where the code does not keep such a promise the property says what it does instead, and the
  manifest records the finding: a payload lost when an outcome is reconsidered, negative resource
  amounts that lend, transitions stored without their audit record, abandoned speech streams
  that block or blame the primary backend, an interrupted avatar action
  that goes on beside the next, program runs that share a room or answer a beat with the input of another,
  a replay to one client that keeps an event from the others, a mission that fails while an
  objective goes on, and a limit of rebalances that counts each one twice.

  BOUNDS AND FUEL

  The depth-first search of the mission validator carries fuel, the number of objectives plus one;
  \<open>mission_accepts_acyclic\<close> is an equivalence and so shows that it suffices.  Following cursors carries
  the number of pages; the properties take one more than the number of records.  The rounds of the scheduler are
  counted; \<open>scheduler_drains\<close> shows how many are enough.  The loop of the coordinator is a terminating function on
  finite sets.  All other loops recurse on lists.

  NOT MODELLED

  The SQLite repositories and the network drivers around the journal (the same contracts in SQL, or
  calls to the game); the mission runtime and its read models; strategies; the
  livestream session; providers of speech, language and recognition models; graph
  orchestration, server and socket handlers, memory stores, observability, configuration
  loading, avatar analysis and acceptance drivers.  They are external calls, input and output, or
  remain to be modelled; the manifest lists each part with its reason.  Process-wide metrics, logging
  and the writing of files inside modelled components are left out.
\<close>

end
